(* ===== verification/Prelude.thy ===== *)
theory Prelude
  imports Main "HOL-Library.Word"
begin

unbundle bit_operations_syntax

text \<open>
  Shared vocabulary of the development: the machine integer types of the C sources, byte
  strings, the collections of rewrite rules the component theories fill, and the generic
  facts about lists and words that several components use.

  \<open>size_t\<close> and \<open>uint64_t\<close> are 64-bit words, \<open>uint32_t\<close> is a 32-bit word, \<open>unsigned char\<close>
  is an 8-bit word and \<open>int64_t\<close> is a 64-bit word read with \<open>sint\<close>. A pointer with a length
  (\<open>__Text_Slice__\<close>, a source buffer, a builder's contents) is the list of bytes it denotes.
\<close>

section \<open>Machine types\<close>

type_synonym u8 = "8 word"
type_synonym u32 = "32 word"
type_synonym u64 = "64 word"
type_synonym size_t = "64 word"
type_synonym i64 = "64 word"
type_synonym bytes = "8 word list"

abbreviation SIZE_MAX :: size_t where
  "SIZE_MAX \<equiv> - 1"

abbreviation UINT64_MAX :: u64 where
  "UINT64_MAX \<equiv> - 1"

text \<open>The largest \<open>int64_t\<close>, as the unsigned pattern the sources compare with.\<close>

abbreviation INT64_MAX :: u64 where
  "INT64_MAX \<equiv> 0x7FFFFFFFFFFFFFFF"

section \<open>Collections\<close>

named_theorems frame_simps \<open>what an operation leaves unchanged\<close>
named_theorems inv_intros \<open>invariants that operations establish or preserve\<close>
named_theorems step_simps \<open>one step of a scanning loop\<close>

section \<open>Lists\<close>

lemma take_drop_slice: "i \<le> j \<Longrightarrow> j \<le> k \<Longrightarrow>
    take (j - i) (drop i xs) @ take (k - j) (drop j xs) = take (k - i) (drop i xs)"
proof -
  assume ij: "i \<le> j" and jk: "j \<le> k"
  have "take (k - i) (drop i xs) = take ((j - i) + (k - j)) (drop i xs)"
    using ij jk by simp
  also have "\<dots> = take (j - i) (drop i xs) @ take (k - j) (drop (j - i) (drop i xs))"
    by (rule take_add)
  also have "drop (j - i) (drop i xs) = drop j xs"
    using ij by simp
  finally show ?thesis ..
qed

lemma take_Suc_nth: "i < length xs \<Longrightarrow> take (Suc i) xs = take i xs @ [xs ! i]"
  by (rule take_Suc_conv_app_nth)

lemma find_SomeD: "List.find P xs = Some x \<Longrightarrow> x \<in> set xs \<and> P x"
  by (auto simp: find_Some_iff)

lemma find_None_iff_all: "List.find P xs = None \<longleftrightarrow> (\<forall>x \<in> set xs. \<not> P x)"
  by (auto simp: find_None_iff)

lemma prefix_drop_nth:
  assumes "take (length p) (drop i xs) = p" "j < length p"
  shows "xs ! (i + j) = p ! j"
proof -
  have "length p \<le> length xs - i"
    using arg_cong [OF assms(1), of length] by simp
  moreover have "p ! j = take (length p) (drop i xs) ! j"
    using assms(1) by simp
  ultimately show ?thesis
    using assms(2) by simp
qed

section \<open>Words\<close>

lemma unat_u64_less: "unat (w :: u64) < 18446744073709551616"
  using unsigned_less [of w, where ?'a = nat] by simp

lemma unat_u32_less: "unat (w :: u32) < 4294967296"
  using unsigned_less [of w, where ?'a = nat] by simp

lemma unat_u8_less: "unat (w :: u8) < 256"
  using unsigned_less [of w, where ?'a = nat] by simp

lemma unat_SIZE_MAX [simp]: "unat SIZE_MAX = 18446744073709551615"
  by (simp add: unsigned_minus_1_eq_mask mask_eq_exp_minus_1)

text \<open>
  Sums and products of words that do not wrap are the sums and products of the numbers
  they stand for.
\<close>

lemma unat_add_u64: "unat a + unat b < 18446744073709551616 \<Longrightarrow> unat (a + b) = unat a + unat b"
  for a b :: u64
  by (simp add: unat_word_ariths)

lemma unat_mult_u64: "unat a * unat b < 18446744073709551616 \<Longrightarrow> unat (a * b) = unat a * unat b"
  for a b :: u64
  by (simp add: unat_word_ariths)

lemma unat_div_u64: "unat (a div b) = unat a div unat b" for a b :: u64
  by (rule unat_div)

lemma le_div_iff_mult_le:
  fixes a b c :: nat
  assumes "0 < c"
  shows "a \<le> b div c \<longleftrightarrow> a * c \<le> b"
  using assms by (simp add: less_eq_div_iff_mult_less_eq)

text \<open>
  The overflow guard of the sources, \<open>a <= (MAX - d) / b\<close>, says that \<open>a * b + d\<close> does
  not wrap.
\<close>

lemma mul_add_guard:
  fixes a b d :: u64
  assumes "0 < b"
  shows "a \<le> (UINT64_MAX - d) div b \<longleftrightarrow> unat a * unat b + unat d < 2 ^ 64"
proof -
  have "unat (UINT64_MAX - d) = 2 ^ 64 - 1 - unat d"
    by (simp add: unat_sub)
  moreover have "0 < unat b"
    using assms by (simp add: word_gt_0 unat_gt_0)
  moreover have "unat d < 2 ^ 64"
    using unat_u64_less [of d] by simp
  ultimately show ?thesis
    by (auto simp: word_le_nat_alt unat_div le_div_iff_mult_le)
qed

lemma unat_mult_guarded:
  fixes a b :: u64
  assumes "b \<noteq> 0" "a \<le> UINT64_MAX div b"
  shows "unat (a * b) = unat a * unat b"
proof (rule unat_mult_u64)
  have "0 < b"
    using assms(1) by (simp add: word_neq_0_conv)
  then show "unat a * unat b < 18446744073709551616"
    using mul_add_guard [of b a 0] assms(2) by simp
qed

text \<open>A disjunction of words that share no bit is their sum.\<close>

lemma or_eq_add:
  fixes a b :: "'a::len word"
  assumes "take_bit n a = 0" "unat b < 2 ^ n"
  shows "a OR b = a + b"
proof -
  have "\<not> bit a m \<or> \<not> bit b m" for m
  proof (cases "m < n")
    case True
    have "\<not> bit (take_bit n a) m"
      using assms(1) by simp
    with True show ?thesis
      by (simp add: bit_take_bit_iff)
  next
    case False
    have "take_bit n (unat b) = unat b"
      using assms(2) by (rule take_bit_nat_eq_self)
    then have "take_bit n b = b"
      by (metis unsigned_take_bit_eq unsigned_word_eqI)
    with False show ?thesis
      by (metis bit_take_bit_iff)
  qed
  then have "a AND b = 0"
    by (intro bit_eqI) (auto simp: bit_and_iff)
  then show ?thesis
    by (rule disjunctive_add_eq_or [symmetric])
qed

end
