(* ===== verification/Utf8.thy ===== *)
theory Utf8
  imports Prelude
begin

unbundle bit_operations_syntax

text \<open>
  UTF-8 validation, decoding and encoding: \<open>bootstrap/src/support/text/utf8_decode.c\<close> and
  \<open>utf8_encode.c\<close>. A byte pointer with the number of bytes that remain is the list of those
  bytes; the encoder's output buffer and returned width are the list of bytes it writes (the
  empty list when it returns 0).
\<close>

section \<open>Definitions\<close>

record utf8_result =
  utf8_codepoint :: u32
  utf8_width :: nat
  utf8_valid :: bool

definition utf8_invalid :: utf8_result where
  "utf8_invalid = \<lparr>utf8_codepoint = 0, utf8_width = 0, utf8_valid = False\<rparr>"

definition utf8_is_continuation_byte :: "u8 \<Rightarrow> bool" where
  "utf8_is_continuation_byte b \<longleftrightarrow> b AND 0xC0 = 0x80"

definition utf8_is_scalar :: "u32 \<Rightarrow> bool" where
  "utf8_is_scalar c \<longleftrightarrow> c \<le> 0x10FFFF \<and> \<not> (c \<ge> 0xD800 \<and> c \<le> 0xDFFF)"

text \<open>The loop over the continuation bytes: \<open>None\<close> is the early return of the loop body.\<close>

fun utf8_continue :: "bytes \<Rightarrow> u32 \<Rightarrow> u32 option" where
  "utf8_continue [] c = Some c"
| "utf8_continue (b # bs) c =
     (if \<not> utf8_is_continuation_byte b then None
      else utf8_continue bs (push_bit 6 c OR ucast (b AND 0x3F)))"

definition utf8_decode :: "bytes \<Rightarrow> utf8_result" where
  "utf8_decode bs =
     (case bs of
        [] \<Rightarrow> utf8_invalid
      | first # _ \<Rightarrow>
          if first \<le> 0x7F
          then \<lparr>utf8_codepoint = ucast first, utf8_width = 1, utf8_valid = True\<rparr>
          else
            (let (width, seed) =
               (if first \<ge> 0xC2 \<and> first \<le> 0xDF then (2, ucast (first AND 0x1F))
                else if first \<ge> 0xE0 \<and> first \<le> 0xEF then (3, ucast (first AND 0x0F))
                else if first \<ge> 0xF0 \<and> first \<le> 0xF4 then (4, ucast (first AND 0x07))
                else (0, 0))
             in if width = 0 then utf8_invalid
                else if length bs < width then utf8_invalid
                else
                  (case utf8_continue (take (width - 1) (tl bs)) seed of
                     None \<Rightarrow> utf8_invalid
                   | Some c \<Rightarrow>
                       if (width = 2 \<and> c < 0x80) \<or> (width = 3 \<and> c < 0x800) \<or>
                          (width = 4 \<and> c < 0x10000) \<or> \<not> utf8_is_scalar c
                       then utf8_invalid
                       else \<lparr>utf8_codepoint = c, utf8_width = width, utf8_valid = True\<rparr>)))"

definition utf8_encode :: "u32 \<Rightarrow> bytes" where
  "utf8_encode c =
     (if \<not> utf8_is_scalar c then []
      else if c \<le> 0x7F then [ucast c]
      else if c \<le> 0x7FF then
        [ucast (0xC0 OR drop_bit 6 c), ucast (0x80 OR (c AND 0x3F))]
      else if c \<le> 0xFFFF then
        [ucast (0xE0 OR drop_bit 12 c), ucast (0x80 OR (drop_bit 6 c AND 0x3F)),
         ucast (0x80 OR (c AND 0x3F))]
      else
        [ucast (0xF0 OR drop_bit 18 c), ucast (0x80 OR (drop_bit 12 c AND 0x3F)),
         ucast (0x80 OR (drop_bit 6 c AND 0x3F)), ucast (0x80 OR (c AND 0x3F))])"

section \<open>Bytes and code points as numbers\<close>

text \<open>
  The masks and shifts of the two routines, read as divisions and remainders. With them the
  encoder and the decoder become linear arithmetic.
\<close>

lemma u8_eqI: "unat a = unat b \<Longrightarrow> a = b" for a b :: u8
  by (rule unsigned_word_eqI)

lemma u32_eqI: "unat a = unat b \<Longrightarrow> a = b" for a b :: u32
  by (rule unsigned_word_eqI)

lemma and_mask_mod: "unat (w AND mask n) = unat w mod 2 ^ n" for w :: "'a::len word"
  by (simp only: take_bit_eq_mask [symmetric] unsigned_take_bit_eq take_bit_nat_def)

lemma mask_literals:
  "(0x3F :: 'a::len word) = mask 6" "(0x1F :: 'a word) = mask 5" "(0x0F :: 'a word) = mask 4"
  "(0x07 :: 'a word) = mask 3"
  by (simp_all add: mask_eq_exp_minus_1)

lemma unat_and_literals:
  "unat (w AND 0x3F) = unat w mod 64" "unat (w AND 0x1F) = unat w mod 32"
  "unat (w AND 0x0F) = unat w mod 16" "unat (w AND 0x07) = unat w mod 8"
  for w :: "'a::len word"
  unfolding mask_literals and_mask_mod by simp_all

lemma unat_drop_bit: "unat (drop_bit n w) = unat w div 2 ^ n" for w :: "'a::len word"
  by (simp only: unat_drop_bit_eq drop_bit_nat_def)

lemma unat_ucast_u8_u32: "unat (ucast b :: u32) = unat b" for b :: u8
  using unat_u8_less [of b] by (simp add: unsigned_ucast_eq take_bit_nat_eq_self)

lemma unat_ucast_u32_u8: "unat c < 256 \<Longrightarrow> unat (ucast c :: u8) = unat c" for c :: u32
  by (simp add: unsigned_ucast_eq take_bit_nat_eq_self)

lemma continuation_iff: "utf8_is_continuation_byte b \<longleftrightarrow> 128 \<le> unat b \<and> unat b < 192"
proof -
  have c0: "(0xC0 :: u8) = NOT (mask 6)"
    by (simp add: mask_eq_exp_minus_1)
  have "b = (b AND 0xC0) OR (b AND mask 6)"
    unfolding c0 by (auto simp: bit_eq_iff bit_simps)
  moreover have "take_bit 6 (b AND 0xC0) = 0"
    unfolding c0 by (auto simp: bit_eq_iff bit_simps)
  moreover have lt: "unat (b AND mask 6) < 2 ^ 6"
    by (simp only: and_mask_mod) simp
  ultimately have split: "b = (b AND 0xC0) + (b AND mask 6)"
    using or_eq_add by metis
  have "drop_bit 6 (b AND 0xC0) = drop_bit 6 b"
    unfolding c0 by (auto simp: bit_eq_iff bit_simps bit_imp_le_length dest: bit_imp_le_length)
  then have div: "unat (drop_bit 6 (b AND 0xC0)) = unat b div 64"
    by (simp add: unat_drop_bit)
  show ?thesis
  proof
    assume "utf8_is_continuation_byte b"
    then have "unat b div 64 = unat (drop_bit 6 (0x80 :: u8))"
      using div by (simp add: utf8_is_continuation_byte_def)
    then have "unat b div 64 = 2"
      by (simp add: unat_drop_bit)
    then show "128 \<le> unat b \<and> unat b < 192"
      by arith
  next
    assume "128 \<le> unat b \<and> unat b < 192"
    then have d: "unat (drop_bit 6 b) = 2"
      by (simp add: unat_drop_bit) arith
    have "push_bit 6 (drop_bit 6 b) = b AND 0xC0"
      unfolding c0 by (auto simp: bit_eq_iff bit_simps)
    moreover have "drop_bit 6 b = 2"
      by (rule u8_eqI) (simp add: d)
    ultimately show "utf8_is_continuation_byte b"
      by (simp add: utf8_is_continuation_byte_def)
  qed
qed

lemma unat_shift_in:
  fixes c :: u32 and b :: u8
  assumes "unat c < 2 ^ 26"
  shows "unat (push_bit 6 c OR ucast (b AND 0x3F)) = unat c * 64 + unat b mod 64"
proof -
  have low: "unat (ucast (b AND 0x3F) :: u32) = unat b mod 64"
    by (simp only: unat_ucast_u8_u32 unat_and_literals)
  have high: "unat (push_bit 6 c) = unat c * 64"
    using assms by (simp add: unsigned_push_bit_eq push_bit_nat_def take_bit_nat_eq_self)
  have "push_bit 6 c OR ucast (b AND 0x3F) = push_bit 6 c + ucast (b AND 0x3F)"
    by (rule or_eq_add [of 6]) (simp_all only: low, simp_all add: bit_eq_iff bit_simps)
  then show ?thesis
    using assms low high by (simp add: unat_word_ariths)
qed

lemma unat_tag:
  fixes t x :: u32
  assumes "take_bit n t = 0" "unat x < 2 ^ n" "unat t + unat x < 256"
  shows "unat (ucast (t OR x) :: u8) = unat t + unat x"
proof -
  have "t OR x = t + x"
    by (rule or_eq_add [OF assms(1,2)])
  moreover have "unat (t + x) = unat t + unat x"
    using assms(3) by (simp add: unat_word_ariths)
  ultimately show ?thesis
    using assms(3) by (simp add: unat_ucast_u32_u8)
qed

lemma unat_continuation: "unat (ucast (0x80 OR (x AND 0x3F)) :: u8) = 128 + unat x mod 64"
  for x :: u32
  using unat_tag [of 6 "0x80" "x AND 0x3F"]
  by (simp add: unat_and_literals take_bit_eq_mod)

lemma unat_lead2: "unat x < 32 \<Longrightarrow> unat (ucast (0xC0 OR x) :: u8) = 192 + unat x"
  for x :: u32
  using unat_tag [of 5 "0xC0" x] by (simp add: take_bit_eq_mod)

lemma unat_lead3: "unat x < 16 \<Longrightarrow> unat (ucast (0xE0 OR x) :: u8) = 224 + unat x"
  for x :: u32
  using unat_tag [of 4 "0xE0" x] by (simp add: take_bit_eq_mod)

lemma unat_lead4: "unat x < 8 \<Longrightarrow> unat (ucast (0xF0 OR x) :: u8) = 240 + unat x"
  for x :: u32
  using unat_tag [of 3 "0xF0" x] by (simp add: take_bit_eq_mod)


section \<open>The decoder, byte by byte\<close>

lemma scalar_iff:
  "utf8_is_scalar c \<longleftrightarrow> unat c \<le> 0x10FFFF \<and> \<not> (0xD800 \<le> unat c \<and> unat c \<le> 0xDFFF)"
  by (simp add: utf8_is_scalar_def word_le_nat_alt)

lemma decode_ascii [step_simps]:
  "unat b < 128 \<Longrightarrow> utf8_decode (b # bs) = \<lparr>utf8_codepoint = ucast b, utf8_width = 1, utf8_valid = True\<rparr>"
  by (simp add: utf8_decode_def word_le_nat_alt)

lemma mod_offset: "base mod k = 0 \<Longrightarrow> base \<le> x \<Longrightarrow> x < base + k \<Longrightarrow> x mod k = x - base"
  for x :: nat
proof -
  assume "base mod k = 0" "base \<le> x" "x < base + k"
  then have "x mod k = (base + (x - base)) mod k" and "x - base < k"
    by simp_all
  with \<open>base mod k = 0\<close> show ?thesis
    by (simp add: mod_add_eq [symmetric])
qed

text \<open>One round of the loop on numbers: the accumulated bits move up by six.\<close>

lemma shift_in_step:
  fixes c :: u32 and b :: u8
  assumes "unat c = m" "m < 2 ^ 20" "128 \<le> unat b" "unat b < 192"
  shows "unat (push_bit 6 c OR ucast (b AND 0x3F)) = m * 64 + (unat b - 128)"
  using assms mod_offset [of 128 64 "unat b"] by (simp add: unat_shift_in)

lemma decode_two:
  assumes "194 \<le> unat a" "unat a \<le> 223" "128 \<le> unat b" "unat b < 192"
    "unat c = (unat a - 192) * 64 + (unat b - 128)"
  shows "utf8_decode (a # b # bs) = \<lparr>utf8_codepoint = c, utf8_width = 2, utf8_valid = True\<rparr>"
proof -
  let ?s = "ucast (a AND 0x1F) :: u32"
  have seed: "unat ?s = unat a - 192"
    unfolding unat_ucast_u8_u32 unat_and_literals
    by (rule mod_offset) (use assms(1,2) in simp_all)
  have "unat (push_bit 6 ?s OR ucast (b AND 0x3F)) = (unat a - 192) * 64 + (unat b - 128)"
    by (rule shift_in_step [OF seed]) (use assms(1-4) in simp_all)
  then have "push_bit 6 ?s OR ucast (b AND 0x3F) = c"
    by (simp add: u32_eqI assms(5))
  moreover have "utf8_is_scalar c" "\<not> c < 0x80"
    using assms by (auto simp: scalar_iff word_less_nat_alt)
  ultimately show ?thesis
    using assms(1-4) by (simp add: utf8_decode_def word_le_nat_alt continuation_iff)
qed

lemma decode_three:
  assumes "224 \<le> unat a" "unat a \<le> 239" "128 \<le> unat b" "unat b < 192" "128 \<le> unat d" "unat d < 192"
    "unat c = ((unat a - 224) * 64 + (unat b - 128)) * 64 + (unat d - 128)"
    "0x800 \<le> unat c" "utf8_is_scalar c"
  shows "utf8_decode (a # b # d # bs) = \<lparr>utf8_codepoint = c, utf8_width = 3, utf8_valid = True\<rparr>"
proof -
  let ?s = "ucast (a AND 0x0F) :: u32"
  let ?t = "push_bit 6 ?s OR ucast (b AND 0x3F)"
  have seed: "unat ?s = unat a - 224"
    unfolding unat_ucast_u8_u32 unat_and_literals
    by (rule mod_offset) (use assms(1,2) in simp_all)
  have t: "unat ?t = (unat a - 224) * 64 + (unat b - 128)"
    by (rule shift_in_step [OF seed]) (use assms(1-4) in simp_all)
  have "unat (push_bit 6 ?t OR ucast (d AND 0x3F))
      = ((unat a - 224) * 64 + (unat b - 128)) * 64 + (unat d - 128)"
    by (rule shift_in_step [OF t]) (use assms(1-6) in simp_all)
  then have "push_bit 6 ?t OR ucast (d AND 0x3F) = c"
    by (simp add: u32_eqI assms(7))
  moreover have "\<not> c < 0x800"
    using assms(8) by (auto simp: word_less_nat_alt)
  ultimately show ?thesis
    using assms(1-6,9) by (simp add: utf8_decode_def word_le_nat_alt continuation_iff)
qed

lemma decode_four:
  assumes "240 \<le> unat a" "unat a \<le> 244" "128 \<le> unat b" "unat b < 192" "128 \<le> unat d" "unat d < 192"
    "128 \<le> unat e" "unat e < 192"
    "unat c = (((unat a - 240) * 64 + (unat b - 128)) * 64 + (unat d - 128)) * 64 + (unat e - 128)"
    "0x10000 \<le> unat c" "utf8_is_scalar c"
  shows "utf8_decode (a # b # d # e # bs) = \<lparr>utf8_codepoint = c, utf8_width = 4, utf8_valid = True\<rparr>"
proof -
  let ?s = "ucast (a AND 0x07) :: u32"
  let ?t = "push_bit 6 ?s OR ucast (b AND 0x3F)"
  let ?u = "push_bit 6 ?t OR ucast (d AND 0x3F)"
  have seed: "unat ?s = unat a - 240"
    unfolding unat_ucast_u8_u32 unat_and_literals
    by (rule mod_offset) (use assms(1,2) in simp_all)
  have t: "unat ?t = (unat a - 240) * 64 + (unat b - 128)"
    by (rule shift_in_step [OF seed]) (use assms(1-4) in simp_all)
  have u: "unat ?u = ((unat a - 240) * 64 + (unat b - 128)) * 64 + (unat d - 128)"
    by (rule shift_in_step [OF t]) (use assms(1-6) in simp_all)
  have "unat (push_bit 6 ?u OR ucast (e AND 0x3F))
      = (((unat a - 240) * 64 + (unat b - 128)) * 64 + (unat d - 128)) * 64 + (unat e - 128)"
    by (rule shift_in_step [OF u]) (use assms(1-8) in simp_all)
  then have "push_bit 6 ?u OR ucast (e AND 0x3F) = c"
    by (simp add: u32_eqI assms(9))
  moreover have "\<not> c < 0x10000"
    using assms(10) by (auto simp: word_less_nat_alt)
  ultimately show ?thesis
    using assms(1-8,11) by (simp add: utf8_decode_def word_le_nat_alt continuation_iff)
qed


section \<open>The reference encoding\<close>

text \<open>
  The UTF-8 encoding form of the Unicode standard, on numbers: each scalar value has exactly
  one byte sequence.
\<close>

definition utf8_reference :: "nat \<Rightarrow> nat list" where
  "utf8_reference n =
     (if n < 0x80 then [n]
      else if n < 0x800 then [192 + n div 64, 128 + n mod 64]
      else if n < 0x10000 then [224 + n div 4096, 128 + n div 64 mod 64, 128 + n mod 64]
      else [240 + n div 262144, 128 + n div 4096 mod 64, 128 + n div 64 mod 64, 128 + n mod 64])"

lemma base64_digits:
  fixes n :: nat
  shows "(n div 4096 * 64 + n div 64 mod 64) * 64 + n mod 64 = n"
    "((n div 262144 * 64 + n div 4096 mod 64) * 64 + n div 64 mod 64) * 64 + n mod 64 = n"
proof -
  have one: "k div 64 * 64 + k mod 64 = k" for k :: nat
    by simp
  have "n div 4096 = n div 64 div 64" "n div 262144 = n div 4096 div 64"
    by (simp_all add: div_mult2_eq [symmetric])
  then show "(n div 4096 * 64 + n div 64 mod 64) * 64 + n mod 64 = n"
    and "((n div 262144 * 64 + n div 4096 mod 64) * 64 + n div 64 mod 64) * 64 + n mod 64 = n"
    by (simp_all only: one)
qed

lemma base64_split:
  fixes x y :: nat
  assumes "y < 64"
  shows "(x * 64 + y) div 64 = x" "(x * 64 + y) mod 64 = y"
    "(x * 64 + y) div 4096 = x div 64" "(x * 64 + y) div 262144 = x div 4096"
proof -
  show a: "(x * 64 + y) div 64 = x" "(x * 64 + y) mod 64 = y"
    using assms by simp_all
  have "(x * 64 + y) div (64 * 64) = x div 64" "(x * 64 + y) div (64 * 4096) = x div 4096"
    by (simp_all only: div_mult2_eq a)
  then show "(x * 64 + y) div 4096 = x div 64" "(x * 64 + y) div 262144 = x div 4096"
    by simp_all
qed

lemma encode_reference:
  assumes "utf8_is_scalar c"
  shows "map unat (utf8_encode c) = utf8_reference (unat c)"
proof -
  let ?n = "unat c"
  have range: "?n \<le> 0x10FFFF"
    using assms by (simp add: scalar_iff)
  note enc = utf8_encode_def utf8_reference_def word_le_nat_alt
  consider (one) "?n < 0x80" | (two) "0x80 \<le> ?n" "?n < 0x800"
    | (three) "0x800 \<le> ?n" "?n < 0x10000" | (four) "0x10000 \<le> ?n"
    by linarith
  then show ?thesis
  proof cases
    case one
    then show ?thesis
      using assms by (simp add: enc unat_ucast_u32_u8)
  next
    case two
    then have "unat (drop_bit 6 c) < 32"
      by (simp add: unat_drop_bit)
    with two show ?thesis
      using assms by (simp add: enc unat_lead2 unat_continuation unat_drop_bit)
  next
    case three
    then have "unat (drop_bit 12 c) < 16"
      by (simp add: unat_drop_bit)
    with three show ?thesis
      using assms by (simp add: enc unat_lead3 unat_continuation unat_drop_bit)
  next
    case four
    then have "unat (drop_bit 18 c) < 8"
      using range by (simp add: unat_drop_bit)
    with four show ?thesis
      using assms by (simp add: enc unat_lead4 unat_continuation unat_drop_bit)
  qed
qed

lemma map_unat_eqD: "map unat xs = map unat ys \<Longrightarrow> xs = ys" for xs ys :: bytes
  by (rule map_injective [of unat]) (auto intro: injI u8_eqI)

lemma length_encode: "utf8_is_scalar c \<Longrightarrow> length (utf8_encode c) = length (utf8_reference (unat c))"
  by (drule encode_reference) (metis length_map)

lemma decode_reference:
  assumes scalar: "utf8_is_scalar c" and bytes: "map unat p = utf8_reference (unat c)"
  shows "utf8_decode (p @ rest) = \<lparr>utf8_codepoint = c, utf8_width = length p, utf8_valid = True\<rparr>"
proof -
  let ?n = "unat c"
  have range: "?n \<le> 0x10FFFF"
    using scalar by (simp add: scalar_iff)
  consider (one) "?n < 0x80" | (two) "0x80 \<le> ?n" "?n < 0x800"
    | (three) "0x800 \<le> ?n" "?n < 0x10000" | (four) "0x10000 \<le> ?n"
    by linarith
  then show ?thesis
  proof cases
    case one
    then obtain a where p: "p = [a]" and a: "unat a = ?n"
      using bytes by (auto simp: utf8_reference_def)
    have "ucast a = c"
      by (rule u32_eqI) (simp add: unat_ucast_u8_u32 a)
    then show ?thesis
      using one by (simp add: p decode_ascii a)
  next
    case two
    then obtain a b where p: "p = [a, b]" and ab: "unat a = 192 + ?n div 64" "unat b = 128 + ?n mod 64"
      using bytes by (auto simp: utf8_reference_def)
    have "utf8_decode (a # b # rest) = \<lparr>utf8_codepoint = c, utf8_width = 2, utf8_valid = True\<rparr>"
      by (rule decode_two) (use two in \<open>simp_all add: ab\<close>)
    then show ?thesis
      by (simp add: p)
  next
    case three
    then obtain a b d where p: "p = [a, b, d]"
      and ab: "unat a = 224 + ?n div 4096" "unat b = 128 + ?n div 64 mod 64" "unat d = 128 + ?n mod 64"
      using bytes by (auto simp: utf8_reference_def)
    have "utf8_decode (a # b # d # rest) = \<lparr>utf8_codepoint = c, utf8_width = 3, utf8_valid = True\<rparr>"
      by (rule decode_three) (use three scalar base64_digits(1) [of ?n] in \<open>simp_all add: ab\<close>)
    then show ?thesis
      by (simp add: p)
  next
    case four
    then obtain a b d e where p: "p = [a, b, d, e]"
      and ab: "unat a = 240 + ?n div 262144" "unat b = 128 + ?n div 4096 mod 64"
        "unat d = 128 + ?n div 64 mod 64" "unat e = 128 + ?n mod 64"
      using bytes by (auto simp: utf8_reference_def)
    have "utf8_decode (a # b # d # e # rest) = \<lparr>utf8_codepoint = c, utf8_width = 4, utf8_valid = True\<rparr>"
      by (rule decode_four) (use four scalar range base64_digits(2) [of ?n] in \<open>simp_all add: ab\<close>)
    then show ?thesis
      by (simp add: p)
  qed
qed


section \<open>Accepted sequences are reference encodings\<close>

definition utf8_exact :: "bytes \<Rightarrow> utf8_result \<Rightarrow> bool" where
  "utf8_exact bs r \<longleftrightarrow> utf8_is_scalar (utf8_codepoint r) \<and> utf8_width r \<le> length bs \<and>
     map unat (take (utf8_width r) bs) = utf8_reference (unat (utf8_codepoint r))"

lemma exact_two:
  assumes len: "2 \<le> length bs" and a: "hd bs = a" "194 \<le> unat a" "unat a \<le> 223"
    and loop: "utf8_continue (take 1 (tl bs)) (ucast (a AND 0x1F)) = Some c"
    and ok: "utf8_is_scalar c"
  shows "utf8_exact bs \<lparr>utf8_codepoint = c, utf8_width = 2, utf8_valid = True\<rparr>"
proof -
  obtain b rest where bs: "bs = a # b # rest"
    using len a(1) by (cases bs; cases "tl bs") auto
  with loop have cont: "128 \<le> unat b" "unat b < 192"
    by (auto simp: continuation_iff split: if_splits)
  let ?s = "ucast (a AND 0x1F) :: u32"
  have seed: "unat ?s = unat a - 192"
    unfolding unat_ucast_u8_u32 unat_and_literals
    by (rule mod_offset) (use a in simp_all)
  have "unat (push_bit 6 ?s OR ucast (b AND 0x3F)) = (unat a - 192) * 64 + (unat b - 128)"
    by (rule shift_in_step [OF seed]) (use a cont in simp_all)
  then have c: "unat c = (unat a - 192) * 64 + (unat b - 128)"
    using loop bs cont by (simp add: continuation_iff)
  have "128 \<le> unat c" "unat c < 2048"
    using a cont c by simp_all
  moreover have "unat c div 64 = unat a - 192" "unat c mod 64 = unat b - 128"
    unfolding c using cont by (simp_all only: base64_split)
  ultimately show ?thesis
    using a cont ok by (simp add: utf8_exact_def utf8_reference_def bs)
qed

lemma exact_three:
  assumes len: "3 \<le> length bs" and a: "hd bs = a" "224 \<le> unat a" "unat a \<le> 239"
    and loop: "utf8_continue (take 2 (tl bs)) (ucast (a AND 0x0F)) = Some c"
    and ok: "utf8_is_scalar c" "0x800 \<le> unat c"
  shows "utf8_exact bs \<lparr>utf8_codepoint = c, utf8_width = 3, utf8_valid = True\<rparr>"
proof -
  obtain b d rest where bs: "bs = a # b # d # rest"
    using len a(1) by (cases bs; cases "tl bs"; cases "tl (tl bs)") auto
  with loop have cont: "128 \<le> unat b" "unat b < 192" "128 \<le> unat d" "unat d < 192"
    by (auto simp: continuation_iff numeral_2_eq_2 split: if_splits)
  let ?s = "ucast (a AND 0x0F) :: u32"
  let ?t = "push_bit 6 ?s OR ucast (b AND 0x3F)"
  have seed: "unat ?s = unat a - 224"
    unfolding unat_ucast_u8_u32 unat_and_literals
    by (rule mod_offset) (use a in simp_all)
  have t: "unat ?t = (unat a - 224) * 64 + (unat b - 128)"
    by (rule shift_in_step [OF seed]) (use a cont in simp_all)
  have "unat (push_bit 6 ?t OR ucast (d AND 0x3F))
      = ((unat a - 224) * 64 + (unat b - 128)) * 64 + (unat d - 128)"
    by (rule shift_in_step [OF t]) (use a cont in simp_all)
  then have c: "unat c = ((unat a - 224) * 64 + (unat b - 128)) * 64 + (unat d - 128)"
    using loop bs cont by (simp add: continuation_iff numeral_2_eq_2)
  have "unat c < 0x10000"
    using a cont c by simp
  moreover have low: "unat b - 128 < 64" "unat d - 128 < 64"
    using cont by simp_all
  have "unat c div 4096 = unat a - 224" "unat c div 64 mod 64 = unat b - 128"
      "unat c mod 64 = unat d - 128"
    unfolding c by (simp_all only: base64_split low)
  ultimately show ?thesis
    using a cont ok by (simp add: utf8_exact_def utf8_reference_def bs)
qed

lemma exact_four:
  assumes len: "4 \<le> length bs" and a: "hd bs = a" "240 \<le> unat a" "unat a \<le> 244"
    and loop: "utf8_continue (take 3 (tl bs)) (ucast (a AND 0x07)) = Some c"
    and ok: "utf8_is_scalar c" "0x10000 \<le> unat c"
  shows "utf8_exact bs \<lparr>utf8_codepoint = c, utf8_width = 4, utf8_valid = True\<rparr>"
proof -
  obtain b d e rest where bs: "bs = a # b # d # e # rest"
    using len a(1) by (cases bs; cases "tl bs"; cases "tl (tl bs)"; cases "tl (tl (tl bs))") auto
  with loop have cont: "128 \<le> unat b" "unat b < 192" "128 \<le> unat d" "unat d < 192"
      "128 \<le> unat e" "unat e < 192"
    by (auto simp: continuation_iff numeral_3_eq_3 split: if_splits)
  let ?s = "ucast (a AND 0x07) :: u32"
  let ?t = "push_bit 6 ?s OR ucast (b AND 0x3F)"
  let ?u = "push_bit 6 ?t OR ucast (d AND 0x3F)"
  have seed: "unat ?s = unat a - 240"
    unfolding unat_ucast_u8_u32 unat_and_literals
    by (rule mod_offset) (use a in simp_all)
  have t: "unat ?t = (unat a - 240) * 64 + (unat b - 128)"
    by (rule shift_in_step [OF seed]) (use a cont in simp_all)
  have u: "unat ?u = ((unat a - 240) * 64 + (unat b - 128)) * 64 + (unat d - 128)"
    by (rule shift_in_step [OF t]) (use a cont in simp_all)
  have "unat (push_bit 6 ?u OR ucast (e AND 0x3F))
      = (((unat a - 240) * 64 + (unat b - 128)) * 64 + (unat d - 128)) * 64 + (unat e - 128)"
    by (rule shift_in_step [OF u]) (use a cont in simp_all)
  then have c: "unat c
      = (((unat a - 240) * 64 + (unat b - 128)) * 64 + (unat d - 128)) * 64 + (unat e - 128)"
    using loop bs cont by (simp add: continuation_iff numeral_3_eq_3)
  have low: "unat b - 128 < 64" "unat d - 128 < 64" "unat e - 128 < 64"
    using cont by simp_all
  have "unat c div 262144 = unat a - 240" "unat c div 4096 mod 64 = unat b - 128"
      "unat c div 64 mod 64 = unat d - 128" "unat c mod 64 = unat e - 128"
    unfolding c by (simp_all only: base64_split low)
  then show ?thesis
    using a cont ok by (simp add: utf8_exact_def utf8_reference_def bs)
qed

lemma decode_exact:
  assumes valid: "utf8_valid (utf8_decode bs)"
  shows "utf8_exact bs (utf8_decode bs)"
proof -
  obtain a rest where bs: "bs = a # rest"
    using valid by (cases bs) (auto simp: utf8_decode_def utf8_invalid_def)
  note dec = utf8_decode_def word_le_nat_alt utf8_invalid_def Let_def
  consider (one) "unat a < 128" | (two) "194 \<le> unat a" "unat a \<le> 223"
    | (three) "224 \<le> unat a" "unat a \<le> 239" | (four) "240 \<le> unat a" "unat a \<le> 244"
    | (bad) "128 \<le> unat a" "\<not> (194 \<le> unat a \<and> unat a \<le> 244)"
    by linarith
  then show ?thesis
  proof cases
    case one
    then show ?thesis
      by (simp add: bs decode_ascii utf8_exact_def utf8_reference_def scalar_iff unat_ucast_u8_u32)
  next
    case two
    with valid obtain c where "utf8_continue (take 1 (tl bs)) (ucast (a AND 0x1F)) = Some c"
        "utf8_is_scalar c" "2 \<le> length bs"
        "utf8_decode bs = \<lparr>utf8_codepoint = c, utf8_width = 2, utf8_valid = True\<rparr>"
      by (auto simp: bs dec Suc_le_eq split: if_splits option.splits)
    with two show ?thesis
      by (simp add: bs exact_two)
  next
    case three
    with valid obtain c where "utf8_continue (take 2 (tl bs)) (ucast (a AND 0x0F)) = Some c"
        "utf8_is_scalar c" "3 \<le> length bs" "0x800 \<le> unat c"
        "utf8_decode bs = \<lparr>utf8_codepoint = c, utf8_width = 3, utf8_valid = True\<rparr>"
      by (auto simp: bs dec word_less_nat_alt split: if_splits option.splits)
    with three show ?thesis
      by (simp add: bs exact_three)
  next
    case four
    with valid obtain c where "utf8_continue (take 3 (tl bs)) (ucast (a AND 0x07)) = Some c"
        "utf8_is_scalar c" "4 \<le> length bs" "0x10000 \<le> unat c"
        "utf8_decode bs = \<lparr>utf8_codepoint = c, utf8_width = 4, utf8_valid = True\<rparr>"
      by (auto simp: bs dec word_less_nat_alt split: if_splits option.splits)
    with four show ?thesis
      by (simp add: bs exact_four)
  next
    case bad
    with valid show ?thesis
      by (auto simp: bs dec split: if_splits)
  qed
qed

section \<open>Facts for the scanners\<close>

lemma reference_width: "1 \<le> length (utf8_reference n) \<and> length (utf8_reference n) \<le> 4"
  by (simp add: utf8_reference_def)

lemma decode_width:
  assumes "utf8_valid (utf8_decode bs)"
  shows "1 \<le> utf8_width (utf8_decode bs)" "utf8_width (utf8_decode bs) \<le> 4"
    "utf8_width (utf8_decode bs) \<le> length bs"
proof -
  have e: "utf8_exact bs (utf8_decode bs)"
    using assms by (rule decode_exact)
  then show le: "utf8_width (utf8_decode bs) \<le> length bs"
    by (simp add: utf8_exact_def)
  have "length (map unat (take (utf8_width (utf8_decode bs)) bs)) = utf8_width (utf8_decode bs)"
    using le by simp
  then have "utf8_width (utf8_decode bs) = length (utf8_reference (unat (utf8_codepoint (utf8_decode bs))))"
    using e unfolding utf8_exact_def by metis
  then show "1 \<le> utf8_width (utf8_decode bs)" "utf8_width (utf8_decode bs) \<le> 4"
    using reference_width by simp_all
qed

lemma decode_take_encode:
  assumes "utf8_valid (utf8_decode bs)"
  shows "utf8_encode (utf8_codepoint (utf8_decode bs)) = take (utf8_width (utf8_decode bs)) bs"
  using decode_exact [OF assms] encode_reference
  by (auto simp: utf8_exact_def intro: map_unat_eqD)

lemma decode_scalar: "utf8_valid (utf8_decode bs) \<Longrightarrow> utf8_is_scalar (utf8_codepoint (utf8_decode bs))"
  using decode_exact by (auto simp: utf8_exact_def)

lemma decode_encode_append:
  "utf8_is_scalar c \<Longrightarrow>
     utf8_decode (utf8_encode c @ rest)
       = \<lparr>utf8_codepoint = c, utf8_width = length (utf8_encode c), utf8_valid = True\<rparr>"
  by (rule decode_reference) (simp_all add: encode_reference)

lemma decode_Nil [simp]: "utf8_decode [] = utf8_invalid"
  by (simp add: utf8_decode_def)


section \<open>Properties\<close>

text \<open>
  Decoding what the encoder wrote gives the scalar value back, whatever bytes follow, and
  consumes exactly the bytes written.
\<close>

theorem utf8_decode_encode:
  assumes "utf8_is_scalar c"
  shows "utf8_decode (utf8_encode c @ rest)
    = \<lparr>utf8_codepoint = c, utf8_width = length (utf8_encode c), utf8_valid = True\<rparr>"
  using assms by (rule decode_encode_append)

theorem utf8_decode_encode_witness:
  "utf8_decode (utf8_encode 0x0623 @ [0x41])
     = \<lparr>utf8_codepoint = 0x0623, utf8_width = length (utf8_encode 0x0623), utf8_valid = True\<rparr>"
  by (rule utf8_decode_encode) (simp add: utf8_is_scalar_def)

text \<open>
  C18: The decoder accepts nothing but the reference encoding: a valid result is a scalar value
  (no surrogate, nothing above 0x10FFFF), its width lies within the bytes given, and the bytes
  consumed are the one encoding of that value (no overlong form).
\<close>

theorem utf8_decode_canonical:
  assumes "utf8_valid (utf8_decode bs)"
  shows "utf8_is_scalar (utf8_codepoint (utf8_decode bs))
    \<and> utf8_width (utf8_decode bs) \<le> length bs
    \<and> map unat (take (utf8_width (utf8_decode bs)) bs)
        = utf8_reference (unat (utf8_codepoint (utf8_decode bs)))
    \<and> utf8_encode (utf8_codepoint (utf8_decode bs)) = take (utf8_width (utf8_decode bs)) bs"
  using decode_exact [OF assms] decode_take_encode [OF assms] by (simp add: utf8_exact_def)

theorem utf8_decode_canonical_witness:
  "utf8_encode (utf8_codepoint (utf8_decode [0xD8, 0xB9, 0x41])) = [0xD8, 0xB9]"
proof -
  have d: "utf8_decode [0xD8, 0xB9, 0x41]
      = \<lparr>utf8_codepoint = 0x0639, utf8_width = 2, utf8_valid = True\<rparr>"
    by code_simp
  have "utf8_valid (utf8_decode [0xD8, 0xB9, 0x41])"
    by (simp add: d)
  from utf8_decode_canonical [OF this] show ?thesis
    by (simp add: d)
qed

end
