(* ===== verification/Source.thy ===== *)
theory Source
  imports Prelude
begin

text \<open>
  Source files, positions, spans and text slices: \<open>bootstrap/include/public/core/source.h\<close>,
  \<open>bootstrap/src/core/source_slice.c\<close>, \<open>source_text_equals_cstr.c\<close> and
  \<open>bootstrap/src/support/text/equality.c\<close>.

  A slice is the list of its bytes. The sources keep the invariant that a slice with a null
  data pointer has length 0 (\<open>__Source_Slice__\<close> returns the zero slice on bad bounds), so the
  null tests on slices always pass here. A pointer to a source file is an option: \<open>None\<close> is the
  null pointer.
\<close>

record source_file =
  source_name :: bytes
  source_bytes :: bytes

definition source_length :: "source_file \<Rightarrow> nat" where
  "source_length s = length (source_bytes s)"

record source_position =
  pos_source :: "source_file option"
  pos_offset :: nat
  pos_line :: u32
  pos_column :: u32

record source_span =
  span_start :: source_position
  span_end :: source_position

type_synonym text_slice = bytes

definition source_slice :: "source_file option \<Rightarrow> nat \<Rightarrow> nat \<Rightarrow> text_slice" where
  "source_slice src start stop =
     (case src of
        None \<Rightarrow> []
      | Some s \<Rightarrow>
          if start > stop \<or> stop > source_length s then []
          else take (stop - start) (drop start (source_bytes s)))"

text \<open>A C string literal is the bytes before its terminator.\<close>

definition text_equals_cstr :: "text_slice \<Rightarrow> bytes \<Rightarrow> bool" where
  "text_equals_cstr t s \<longleftrightarrow> length t = length s \<and> list_all2 (=) t s"

definition text_slice_equals :: "text_slice \<Rightarrow> text_slice \<Rightarrow> bool" where
  "text_slice_equals l r \<longleftrightarrow>
     (if length l \<noteq> length r then False
      else if length l = 0 then True
      else list_all2 (=) l r)"

lemma text_equals_cstr_iff [simp]: "text_equals_cstr t s \<longleftrightarrow> t = s"
  by (auto simp: text_equals_cstr_def list.rel_eq)

lemma text_slice_equals_iff [simp]: "text_slice_equals l r \<longleftrightarrow> l = r"
  by (auto simp: text_slice_equals_def list.rel_eq)

lemma length_source_slice:
  "i \<le> j \<Longrightarrow> j \<le> source_length s \<Longrightarrow> length (source_slice (Some s) i j) = j - i"
  by (simp add: source_slice_def source_length_def)

lemma source_slice_same [simp]: "source_slice src i i = []"
  by (simp add: source_slice_def split: option.splits)

lemma source_slice_append:
  assumes "i \<le> j" "j \<le> k" "k \<le> source_length s"
  shows "source_slice (Some s) i j @ source_slice (Some s) j k = source_slice (Some s) i k"
  using assms take_drop_slice [of i j k "source_bytes s"] by (simp add: source_slice_def)

lemma source_slice_all: "source_slice (Some s) 0 (source_length s) = source_bytes s"
  by (simp add: source_slice_def source_length_def)

end
