(* ===== verification/Identity.thy ===== *)
theory Identity
  imports Source Utf8
begin

text \<open>
  Semantic identity of identifiers: \<open>bootstrap/src/frontend/identifier_identity.c\<close>. Two
  spellings name the same thing when their sequences of scalar values agree after the Arabic
  tatweel (U+0640) is dropped and the alef forms U+0622, U+0623 and U+0625 are read as U+0627.

  The C functions walk a byte offset; the model walks the bytes that remain.
\<close>

section \<open>Definitions\<close>

definition identity_ignores_scalar :: "u32 \<Rightarrow> bool" where
  "identity_ignores_scalar c \<longleftrightarrow> c = 0x0640"

definition identity_normalize_scalar :: "u32 \<Rightarrow> u32" where
  "identity_normalize_scalar c =
     (if c = 0x0622 then 0x0627
      else if c = 0x0623 then 0x0627
      else if c = 0x0625 then 0x0627
      else c)"

text \<open>
  The result of \<open>__Identifier_Next_Semantic_Scalar__\<close>: -1 for malformed bytes, 0 at the end,
  1 with a scalar value and the bytes behind it.
\<close>

datatype next_scalar = Malformed | At_End | Next_Scalar u32 bytes

function next_semantic_scalar :: "bytes \<Rightarrow> next_scalar" where
  "next_semantic_scalar bs =
     (if bs = [] then At_End
      else
        (let d = utf8_decode bs
         in if \<not> utf8_valid d then Malformed
            else if \<not> identity_ignores_scalar (utf8_codepoint d)
              then Next_Scalar (identity_normalize_scalar (utf8_codepoint d))
                     (drop (utf8_width d) bs)
            else next_semantic_scalar (drop (utf8_width d) bs)))"
  by pat_completeness auto

termination next_semantic_scalar
  by (relation "measure length")
     (use decode_width in \<open>auto simp: Let_def\<close>, meson Suc_le_lessD diff_less length_greater_0_conv)

declare next_semantic_scalar.simps [simp del]

definition identity_has_content :: "text_slice \<Rightarrow> bool" where
  "identity_has_content t \<longleftrightarrow>
     (case next_semantic_scalar t of Next_Scalar _ _ \<Rightarrow> True | _ \<Rightarrow> False)"

lemma next_semantic_scalar_shorter:
  "next_semantic_scalar bs = Next_Scalar c rest \<Longrightarrow> length rest < length bs"
proof (induction bs rule: next_semantic_scalar.induct)
  case (1 bs)
  let ?d = "utf8_decode bs"
  from "1.prems" have ne: "bs \<noteq> []" and valid: "utf8_valid ?d"
    by (auto simp: next_semantic_scalar.simps [of bs] Let_def split: if_splits)
  have less: "length (drop (utf8_width ?d) bs) < length bs"
    using decode_width [OF valid] ne by simp
  show ?case
  proof (cases "identity_ignores_scalar (utf8_codepoint ?d)")
    case True
    with "1.prems" ne valid
    have "next_semantic_scalar (drop (utf8_width ?d) bs) = Next_Scalar c rest"
      by (simp add: next_semantic_scalar.simps [of bs] Let_def)
    then have "length rest < length (drop (utf8_width ?d) bs)"
      using "1.IH" ne valid True by blast
    with less show ?thesis by simp
  next
    case False
    with "1.prems" ne valid less show ?thesis
      by (simp add: next_semantic_scalar.simps [of bs] Let_def)
  qed
qed

function identity_equals :: "text_slice \<Rightarrow> text_slice \<Rightarrow> bool" where
  "identity_equals l r =
     (case (next_semantic_scalar l, next_semantic_scalar r) of
        (Malformed, _) \<Rightarrow> False
      | (_, Malformed) \<Rightarrow> False
      | (At_End, At_End) \<Rightarrow> True
      | (At_End, _) \<Rightarrow> False
      | (_, At_End) \<Rightarrow> False
      | (Next_Scalar c l', Next_Scalar d r') \<Rightarrow> if c \<noteq> d then False else identity_equals l' r')"
  by pat_completeness auto

termination identity_equals
  by (relation "measure (\<lambda>(l, r). length l)")
     (auto intro: next_semantic_scalar_shorter [OF sym])

declare identity_equals.simps [simp del]

text \<open>A null C string compares unequal; the callers only pass string literals.\<close>

definition identity_equals_cstr :: "text_slice \<Rightarrow> bytes option \<Rightarrow> bool" where
  "identity_equals_cstr l r = (case r of None \<Rightarrow> False | Some s \<Rightarrow> identity_equals l s)"

section \<open>The abstract identity\<close>

text \<open>
  The specification works on scalar values: decode the whole spelling, drop the ignored
  scalars, normalise the rest. \<open>None\<close> is a spelling that is not UTF-8.
\<close>

function utf8_scalars :: "bytes \<Rightarrow> u32 list option" where
  "utf8_scalars bs =
     (if bs = [] then Some []
      else if \<not> utf8_valid (utf8_decode bs) then None
      else map_option ((#) (utf8_codepoint (utf8_decode bs)))
             (utf8_scalars (drop (utf8_width (utf8_decode bs)) bs)))"
  by pat_completeness auto

lemma drop_decoded_shorter:
  "bs \<noteq> [] \<Longrightarrow> utf8_valid (utf8_decode bs) \<Longrightarrow>
     length (drop (utf8_width (utf8_decode bs)) bs) < length bs"
  using decode_width [of bs] by auto

termination utf8_scalars
  by (relation "measure length") (auto dest: drop_decoded_shorter)

declare utf8_scalars.simps [simp del]

definition identity_key :: "bytes \<Rightarrow> u32 list option" where
  "identity_key bs =
     map_option (\<lambda>cs. map identity_normalize_scalar (filter (\<lambda>c. \<not> identity_ignores_scalar c) cs))
       (utf8_scalars bs)"

lemma identity_key_Nil [simp]: "identity_key [] = Some []"
  by (simp add: identity_key_def utf8_scalars.simps)

lemma identity_key_step:
  assumes "bs \<noteq> []" "utf8_valid (utf8_decode bs)"
  shows "identity_key bs =
    (if identity_ignores_scalar (utf8_codepoint (utf8_decode bs))
     then identity_key (drop (utf8_width (utf8_decode bs)) bs)
     else map_option ((#) (identity_normalize_scalar (utf8_codepoint (utf8_decode bs))))
            (identity_key (drop (utf8_width (utf8_decode bs)) bs)))"
  using assms
  by (cases "utf8_scalars (drop (utf8_width (utf8_decode bs)) bs)")
     (simp_all add: identity_key_def utf8_scalars.simps [of bs])

lemma identity_key_next:
  "(case next_semantic_scalar bs of
      Malformed \<Rightarrow> identity_key bs = None
    | At_End \<Rightarrow> identity_key bs = Some []
    | Next_Scalar c rest \<Rightarrow> identity_key bs = map_option ((#) c) (identity_key rest))"
proof (induction bs rule: next_semantic_scalar.induct)
  case (1 bs)
  let ?d = "utf8_decode bs"
  consider (empty) "bs = []" | (bad) "bs \<noteq> []" "\<not> utf8_valid ?d"
    | (skip) "bs \<noteq> []" "utf8_valid ?d" "identity_ignores_scalar (utf8_codepoint ?d)"
    | (found) "bs \<noteq> []" "utf8_valid ?d" "\<not> identity_ignores_scalar (utf8_codepoint ?d)"
    by blast
  then show ?case
  proof cases
    case empty
    then show ?thesis by (simp add: next_semantic_scalar.simps)
  next
    case bad
    then show ?thesis
      by (simp add: next_semantic_scalar.simps [of bs] identity_key_def utf8_scalars.simps [of bs])
  next
    case skip
    then have "next_semantic_scalar bs = next_semantic_scalar (drop (utf8_width ?d) bs)"
      and "identity_key bs = identity_key (drop (utf8_width ?d) bs)"
      using identity_key_step [of bs] by (simp_all add: next_semantic_scalar.simps [of bs] Let_def)
    with skip "1.IH" show ?thesis
      by metis
  next
    case found
    then show ?thesis
      by (simp add: next_semantic_scalar.simps [of bs] identity_key_step Let_def)
  qed
qed

lemma identity_key_cases:
  "next_semantic_scalar bs = Malformed \<Longrightarrow> identity_key bs = None"
  "next_semantic_scalar bs = At_End \<Longrightarrow> identity_key bs = Some []"
  "next_semantic_scalar bs = Next_Scalar c rest \<Longrightarrow>
     identity_key bs = map_option ((#) c) (identity_key rest)"
  using identity_key_next [of bs] by simp_all

lemma identity_equals_key:
  "identity_equals l r \<longleftrightarrow> (\<exists>k. identity_key l = Some k \<and> identity_key r = Some k)"
proof (induction l r rule: identity_equals.induct)
  case (1 l r)
  note unfold = identity_equals.simps [of l r]
  show ?case
  proof (cases "next_semantic_scalar l")
    case (Next_Scalar c l')
    note l = this
    show ?thesis
    proof (cases "next_semantic_scalar r")
      case (Next_Scalar d r')
      then show ?thesis
        using l 1 by (auto simp: unfold identity_key_cases)
    qed (simp_all add: unfold l identity_key_cases)
  next
    case At_End
    then show ?thesis
      by (cases "next_semantic_scalar r") (simp_all add: unfold identity_key_cases)
  qed (simp add: unfold identity_key_cases)
qed

lemma identity_equals_sym: "identity_equals l r \<Longrightarrow> identity_equals r l"
  by (auto simp: identity_equals_key)

lemma identity_equals_trans: "identity_equals a b \<Longrightarrow> identity_equals b c \<Longrightarrow> identity_equals a c"
  by (auto simp: identity_equals_key)

lemma identity_equals_refl: "identity_key a \<noteq> None \<Longrightarrow> identity_equals a a"
  by (auto simp: identity_equals_key)

lemma identity_has_content_key:
  assumes "identity_key t \<noteq> None"
  shows "identity_has_content t \<longleftrightarrow> identity_key t \<noteq> Some []"
  using assms
  by (cases "next_semantic_scalar t") (auto simp: identity_has_content_def identity_key_cases)

section \<open>Properties\<close>

text \<open>
  Comparing two spellings byte by byte decides the abstract identity: both are UTF-8 and
  their normalised scalar sequences are the same.
\<close>

theorem identity_equals_refines_key:
  "identity_equals l r \<longleftrightarrow> identity_key l \<noteq> None \<and> identity_key l = identity_key r"
  by (auto simp: identity_equals_key)

end
