(* ===== verification/Token.thy ===== *)
theory Token
  imports Identity
begin

text \<open>
  Lexical tokens: \<open>bootstrap/include/private/frontend/lexer/token.h\<close> and
  \<open>token_registry.def\<close>, \<open>bootstrap/src/frontend/lexer/token.c\<close> (class, lifecycle and payload
  queries, typed payload access) and \<open>keyword.c\<close> (the bilingual keyword lookup). The spellings
  are the UTF-8 bytes of the registry's string literals.
\<close>

section \<open>Token kinds\<close>

text \<open>
  The C enumeration \<open>__Token_Kind__\<close> is expanded from the registry
  \<open>bootstrap/include/private/frontend/lexer/token_registry.def\<close>: a kind is the row number of
  its \<open>SULTANC__TOKEN__\<close> line, and the class, lifecycle and payload tables are arrays indexed by
  it, read behind a range check. The model keeps this shape: kinds are numbers, the names are
  abbreviations for them, and the registry is a list of rows.
\<close>

type_synonym token_kind = nat

abbreviation (input) TK_COMPTIME :: token_kind where "TK_COMPTIME \<equiv> 0"
abbreviation (input) TK_AT_OPERATOR :: token_kind where "TK_AT_OPERATOR \<equiv> 1"
abbreviation (input) TK_FUNCTION_TYPE :: token_kind where "TK_FUNCTION_TYPE \<equiv> 2"
abbreviation (input) TK_OF :: token_kind where "TK_OF \<equiv> 3"
abbreviation (input) TK_FROM :: token_kind where "TK_FROM \<equiv> 4"
abbreviation (input) TK_EXTERN :: token_kind where "TK_EXTERN \<equiv> 5"
abbreviation (input) TK_IMPORT :: token_kind where "TK_IMPORT \<equiv> 6"
abbreviation (input) TK_USE :: token_kind where "TK_USE \<equiv> 7"
abbreviation (input) TK_AS :: token_kind where "TK_AS \<equiv> 8"
abbreviation (input) TK_LIT_UNDEF :: token_kind where "TK_LIT_UNDEF \<equiv> 9"
abbreviation (input) TK_FUNCTION_DEF :: token_kind where "TK_FUNCTION_DEF \<equiv> 10"
abbreviation (input) TK_ALIAS :: token_kind where "TK_ALIAS \<equiv> 11"
abbreviation (input) TK_LET :: token_kind where "TK_LET \<equiv> 12"
abbreviation (input) TK_RETURN :: token_kind where "TK_RETURN \<equiv> 13"
abbreviation (input) TK_ELSE :: token_kind where "TK_ELSE \<equiv> 14"
abbreviation (input) TK_IF :: token_kind where "TK_IF \<equiv> 15"
abbreviation (input) TK_ANY :: token_kind where "TK_ANY \<equiv> 16"
abbreviation (input) TK_BOOL :: token_kind where "TK_BOOL \<equiv> 17"
abbreviation (input) TK_STRING :: token_kind where "TK_STRING \<equiv> 18"
abbreviation (input) TK_CHAR :: token_kind where "TK_CHAR \<equiv> 19"
abbreviation (input) TK_INT :: token_kind where "TK_INT \<equiv> 20"
abbreviation (input) TK_UINT :: token_kind where "TK_UINT \<equiv> 21"
abbreviation (input) TK_FLOAT :: token_kind where "TK_FLOAT \<equiv> 22"
abbreviation (input) TK_VOID :: token_kind where "TK_VOID \<equiv> 23"
abbreviation (input) TK_I8 :: token_kind where "TK_I8 \<equiv> 24"
abbreviation (input) TK_I16 :: token_kind where "TK_I16 \<equiv> 25"
abbreviation (input) TK_I32 :: token_kind where "TK_I32 \<equiv> 26"
abbreviation (input) TK_I64 :: token_kind where "TK_I64 \<equiv> 27"
abbreviation (input) TK_U8 :: token_kind where "TK_U8 \<equiv> 28"
abbreviation (input) TK_U16 :: token_kind where "TK_U16 \<equiv> 29"
abbreviation (input) TK_U32 :: token_kind where "TK_U32 \<equiv> 30"
abbreviation (input) TK_U64 :: token_kind where "TK_U64 \<equiv> 31"
abbreviation (input) TK_F32 :: token_kind where "TK_F32 \<equiv> 32"
abbreviation (input) TK_F64 :: token_kind where "TK_F64 \<equiv> 33"
abbreviation (input) TK_ASSEMBLY :: token_kind where "TK_ASSEMBLY \<equiv> 34"
abbreviation (input) TK_UNSAFE :: token_kind where "TK_UNSAFE \<equiv> 35"
abbreviation (input) TK_WHILE :: token_kind where "TK_WHILE \<equiv> 36"
abbreviation (input) TK_FOR :: token_kind where "TK_FOR \<equiv> 37"
abbreviation (input) TK_BREAK :: token_kind where "TK_BREAK \<equiv> 38"
abbreviation (input) TK_CONTINUE :: token_kind where "TK_CONTINUE \<equiv> 39"
abbreviation (input) TK_TYPE :: token_kind where "TK_TYPE \<equiv> 40"
abbreviation (input) TK_MATCH :: token_kind where "TK_MATCH \<equiv> 41"
abbreviation (input) TK_WITH :: token_kind where "TK_WITH \<equiv> 42"
abbreviation (input) TK_MUTABLE :: token_kind where "TK_MUTABLE \<equiv> 43"
abbreviation (input) TK_PUBLIC :: token_kind where "TK_PUBLIC \<equiv> 44"
abbreviation (input) TK_SLICE_OPERATOR :: token_kind where "TK_SLICE_OPERATOR \<equiv> 45"
abbreviation (input) TK_PLUS_OPERATOR :: token_kind where "TK_PLUS_OPERATOR \<equiv> 46"
abbreviation (input) TK_MINUS_OPERATOR :: token_kind where "TK_MINUS_OPERATOR \<equiv> 47"
abbreviation (input) TK_STAR_OPERATOR :: token_kind where "TK_STAR_OPERATOR \<equiv> 48"
abbreviation (input) TK_SLASH_OPERATOR :: token_kind where "TK_SLASH_OPERATOR \<equiv> 49"
abbreviation (input) TK_PERCENT_OPERATOR :: token_kind where "TK_PERCENT_OPERATOR \<equiv> 50"
abbreviation (input) TK_DEFINITION_SEPARATOR :: token_kind where "TK_DEFINITION_SEPARATOR \<equiv> 51"
abbreviation (input) TK_EQUALS_OPERATOR :: token_kind where "TK_EQUALS_OPERATOR \<equiv> 52"
abbreviation (input) TK_LESS_THAN_OPERATOR :: token_kind where "TK_LESS_THAN_OPERATOR \<equiv> 53"
abbreviation (input) TK_LESS_THAN_OR_EQUAL_OPERATOR :: token_kind where "TK_LESS_THAN_OR_EQUAL_OPERATOR \<equiv> 54"
abbreviation (input) TK_BOX_OPERATOR :: token_kind where "TK_BOX_OPERATOR \<equiv> 55"
abbreviation (input) TK_NOT_EQUAL_OPERATOR :: token_kind where "TK_NOT_EQUAL_OPERATOR \<equiv> 56"
abbreviation (input) TK_GREATER_THAN_OR_EQUAL_OPERATOR :: token_kind where "TK_GREATER_THAN_OR_EQUAL_OPERATOR \<equiv> 57"
abbreviation (input) TK_GREATER_THAN_OPERATOR :: token_kind where "TK_GREATER_THAN_OPERATOR \<equiv> 58"
abbreviation (input) TK_NOT_OPERATOR :: token_kind where "TK_NOT_OPERATOR \<equiv> 59"
abbreviation (input) TK_AND_OPERATOR :: token_kind where "TK_AND_OPERATOR \<equiv> 60"
abbreviation (input) TK_AND_AND_OPERATOR :: token_kind where "TK_AND_AND_OPERATOR \<equiv> 61"
abbreviation (input) TK_OR_OPERATOR :: token_kind where "TK_OR_OPERATOR \<equiv> 62"
abbreviation (input) TK_OR_OR_OPERATOR :: token_kind where "TK_OR_OR_OPERATOR \<equiv> 63"
abbreviation (input) TK_LEFT_SHIFT_OPERATOR :: token_kind where "TK_LEFT_SHIFT_OPERATOR \<equiv> 64"
abbreviation (input) TK_RIGHT_SHIFT_OPERATOR :: token_kind where "TK_RIGHT_SHIFT_OPERATOR \<equiv> 65"
abbreviation (input) TK_ARITHMETIC_RIGHT_SHIFT_OPERATOR :: token_kind where "TK_ARITHMETIC_RIGHT_SHIFT_OPERATOR \<equiv> 66"
abbreviation (input) TK_TILDE_OPERATOR :: token_kind where "TK_TILDE_OPERATOR \<equiv> 67"
abbreviation (input) TK_LEFT_BRACE_OPERATOR :: token_kind where "TK_LEFT_BRACE_OPERATOR \<equiv> 68"
abbreviation (input) TK_UNDERSCORE_WITH_INDEX :: token_kind where "TK_UNDERSCORE_WITH_INDEX \<equiv> 69"
abbreviation (input) TK_UNDERSCORE_OPERATOR :: token_kind where "TK_UNDERSCORE_OPERATOR \<equiv> 70"
abbreviation (input) TK_RIGHT_BRACE_OPERATOR :: token_kind where "TK_RIGHT_BRACE_OPERATOR \<equiv> 71"
abbreviation (input) TK_CARET_OPERATOR :: token_kind where "TK_CARET_OPERATOR \<equiv> 72"
abbreviation (input) TK_DOT_OPERATOR :: token_kind where "TK_DOT_OPERATOR \<equiv> 73"
abbreviation (input) TK_COMMA_OPERATOR :: token_kind where "TK_COMMA_OPERATOR \<equiv> 74"
abbreviation (input) TK_SEMICOLON_OPERATOR :: token_kind where "TK_SEMICOLON_OPERATOR \<equiv> 75"
abbreviation (input) TK_OPERATOR_ASSIGNMENT_COLON :: token_kind where "TK_OPERATOR_ASSIGNMENT_COLON \<equiv> 76"
abbreviation (input) TK_COLON_OPERATOR :: token_kind where "TK_COLON_OPERATOR \<equiv> 77"
abbreviation (input) TK_RIGHT_ARROW_OPERATOR :: token_kind where "TK_RIGHT_ARROW_OPERATOR \<equiv> 78"
abbreviation (input) TK_LEFT_PARENTHESIS_OPERATOR :: token_kind where "TK_LEFT_PARENTHESIS_OPERATOR \<equiv> 79"
abbreviation (input) TK_RIGHT_PARENTHESIS_OPERATOR :: token_kind where "TK_RIGHT_PARENTHESIS_OPERATOR \<equiv> 80"
abbreviation (input) TK_LEFT_BRACKET_OPERATOR :: token_kind where "TK_LEFT_BRACKET_OPERATOR \<equiv> 81"
abbreviation (input) TK_RIGHT_BRACKET_OPERATOR :: token_kind where "TK_RIGHT_BRACKET_OPERATOR \<equiv> 82"
abbreviation (input) TK_IDENTIFIER :: token_kind where "TK_IDENTIFIER \<equiv> 83"
abbreviation (input) TK_LIT_INT :: token_kind where "TK_LIT_INT \<equiv> 84"
abbreviation (input) TK_LIT_FLO :: token_kind where "TK_LIT_FLO \<equiv> 85"
abbreviation (input) TK_LIT_STR :: token_kind where "TK_LIT_STR \<equiv> 86"
abbreviation (input) TK_LIT_CHAR :: token_kind where "TK_LIT_CHAR \<equiv> 87"
abbreviation (input) TK_LIT_BOOL :: token_kind where "TK_LIT_BOOL \<equiv> 88"
abbreviation (input) TK_EOF :: token_kind where "TK_EOF \<equiv> 89"

datatype token_class = Class_Keyword | Class_Operator | Class_Delimiter | Class_Value
  | Class_Identifier | Class_Eof

datatype token_lifecycle = Lifecycle_Active | Lifecycle_Future_Reserved

datatype token_payload_kind = Payload_None | Payload_Index | Payload_Integer | Payload_Text
  | Payload_Character | Payload_Boolean

type_synonym token_row = "token_class \<times> token_lifecycle \<times> token_payload_kind"

definition token_registry :: "token_row list" where
  "token_registry = [
     (Class_Keyword, Lifecycle_Active, Payload_None),
     (Class_Operator, Lifecycle_Active, Payload_None),
     (Class_Keyword, Lifecycle_Active, Payload_None),
     (Class_Keyword, Lifecycle_Active, Payload_None),
     (Class_Keyword, Lifecycle_Active, Payload_None),
     (Class_Keyword, Lifecycle_Active, Payload_None),
     (Class_Keyword, Lifecycle_Active, Payload_None),
     (Class_Keyword, Lifecycle_Future_Reserved, Payload_None),
     (Class_Keyword, Lifecycle_Active, Payload_None),
     (Class_Keyword, Lifecycle_Active, Payload_None),
     (Class_Keyword, Lifecycle_Active, Payload_None),
     (Class_Keyword, Lifecycle_Active, Payload_None),
     (Class_Keyword, Lifecycle_Active, Payload_None),
     (Class_Keyword, Lifecycle_Active, Payload_None),
     (Class_Keyword, Lifecycle_Active, Payload_None),
     (Class_Keyword, Lifecycle_Active, Payload_None),
     (Class_Keyword, Lifecycle_Active, Payload_None),
     (Class_Keyword, Lifecycle_Active, Payload_None),
     (Class_Keyword, Lifecycle_Active, Payload_None),
     (Class_Keyword, Lifecycle_Active, Payload_None),
     (Class_Keyword, Lifecycle_Active, Payload_None),
     (Class_Keyword, Lifecycle_Active, Payload_None),
     (Class_Keyword, Lifecycle_Future_Reserved, Payload_None),
     (Class_Keyword, Lifecycle_Active, Payload_None),
     (Class_Keyword, Lifecycle_Active, Payload_None),
     (Class_Keyword, Lifecycle_Active, Payload_None),
     (Class_Keyword, Lifecycle_Active, Payload_None),
     (Class_Keyword, Lifecycle_Active, Payload_None),
     (Class_Keyword, Lifecycle_Active, Payload_None),
     (Class_Keyword, Lifecycle_Active, Payload_None),
     (Class_Keyword, Lifecycle_Active, Payload_None),
     (Class_Keyword, Lifecycle_Active, Payload_None),
     (Class_Keyword, Lifecycle_Active, Payload_None),
     (Class_Keyword, Lifecycle_Active, Payload_None),
     (Class_Keyword, Lifecycle_Active, Payload_None),
     (Class_Keyword, Lifecycle_Active, Payload_None),
     (Class_Keyword, Lifecycle_Active, Payload_None),
     (Class_Keyword, Lifecycle_Active, Payload_None),
     (Class_Keyword, Lifecycle_Active, Payload_None),
     (Class_Keyword, Lifecycle_Active, Payload_None),
     (Class_Keyword, Lifecycle_Active, Payload_None),
     (Class_Keyword, Lifecycle_Active, Payload_None),
     (Class_Keyword, Lifecycle_Active, Payload_None),
     (Class_Keyword, Lifecycle_Active, Payload_None),
     (Class_Keyword, Lifecycle_Active, Payload_None),
     (Class_Keyword, Lifecycle_Active, Payload_None),
     (Class_Operator, Lifecycle_Active, Payload_None),
     (Class_Operator, Lifecycle_Active, Payload_None),
     (Class_Operator, Lifecycle_Active, Payload_None),
     (Class_Operator, Lifecycle_Active, Payload_None),
     (Class_Operator, Lifecycle_Active, Payload_None),
     (Class_Operator, Lifecycle_Active, Payload_None),
     (Class_Operator, Lifecycle_Active, Payload_None),
     (Class_Operator, Lifecycle_Active, Payload_None),
     (Class_Operator, Lifecycle_Active, Payload_None),
     (Class_Keyword, Lifecycle_Active, Payload_None),
     (Class_Operator, Lifecycle_Active, Payload_None),
     (Class_Operator, Lifecycle_Active, Payload_None),
     (Class_Operator, Lifecycle_Active, Payload_None),
     (Class_Operator, Lifecycle_Active, Payload_None),
     (Class_Operator, Lifecycle_Active, Payload_None),
     (Class_Operator, Lifecycle_Active, Payload_None),
     (Class_Operator, Lifecycle_Active, Payload_None),
     (Class_Operator, Lifecycle_Active, Payload_None),
     (Class_Operator, Lifecycle_Active, Payload_None),
     (Class_Operator, Lifecycle_Active, Payload_None),
     (Class_Operator, Lifecycle_Active, Payload_None),
     (Class_Operator, Lifecycle_Active, Payload_None),
     (Class_Delimiter, Lifecycle_Active, Payload_None),
     (Class_Value, Lifecycle_Future_Reserved, Payload_Index),
     (Class_Operator, Lifecycle_Active, Payload_None),
     (Class_Delimiter, Lifecycle_Active, Payload_None),
     (Class_Operator, Lifecycle_Active, Payload_None),
     (Class_Delimiter, Lifecycle_Active, Payload_None),
     (Class_Delimiter, Lifecycle_Active, Payload_None),
     (Class_Delimiter, Lifecycle_Active, Payload_None),
     (Class_Operator, Lifecycle_Active, Payload_None),
     (Class_Delimiter, Lifecycle_Active, Payload_None),
     (Class_Operator, Lifecycle_Active, Payload_None),
     (Class_Delimiter, Lifecycle_Active, Payload_None),
     (Class_Delimiter, Lifecycle_Active, Payload_None),
     (Class_Delimiter, Lifecycle_Active, Payload_None),
     (Class_Delimiter, Lifecycle_Active, Payload_None),
     (Class_Identifier, Lifecycle_Active, Payload_None),
     (Class_Value, Lifecycle_Active, Payload_Integer),
     (Class_Value, Lifecycle_Active, Payload_None),
     (Class_Value, Lifecycle_Active, Payload_Text),
     (Class_Value, Lifecycle_Active, Payload_Character),
     (Class_Keyword, Lifecycle_Active, Payload_Boolean),
     (Class_Eof, Lifecycle_Active, Payload_None)]"

definition keyword_entries :: "(bytes \<times> token_kind \<times> bool) list" where
  "keyword_entries = [
     ([0x63, 0x6F, 0x6D, 0x70, 0x74, 0x69, 0x6D, 0x65], TK_COMPTIME, False),
     ([0xD9, 0x88, 0xD9, 0x82, 0xD8, 0xAA, 0x5F, 0xD8, 0xA7, 0xD9, 0x84, 0xD8, 0xAA, 0xD8, 0xB1, 0xD8, 0xAC, 0xD9, 0x85, 0xD8, 0xA9], TK_COMPTIME, False),
     ([0x66, 0x6E], TK_FUNCTION_TYPE, False),
     ([0xD8, 0xAF, 0xD8, 0xA7, 0xD9, 0x84, 0xD8, 0xA9], TK_FUNCTION_TYPE, False),
     ([0x6F, 0x66], TK_OF, False),
     ([0xD8, 0xA8, 0xD9, 0x86, 0xD9, 0x88, 0xD8, 0xB9], TK_OF, False),
     ([0x66, 0x72, 0x6F, 0x6D], TK_FROM, False),
     ([0xD9, 0x85, 0xD9, 0x86], TK_FROM, False),
     ([0x65, 0x78, 0x74, 0x65, 0x72, 0x6E], TK_EXTERN, False),
     ([0xD8, 0xAE, 0xD8, 0xA7, 0xD8, 0xB1, 0xD8, 0xAC, 0xD9, 0x8A], TK_EXTERN, False),
     ([0x69, 0x6D, 0x70, 0x6F, 0x72, 0x74], TK_IMPORT, False),
     ([0xD8, 0xA7, 0xD8, 0xB3, 0xD8, 0xAA, 0xD9, 0x88, 0xD8, 0xB1, 0xD8, 0xAF], TK_IMPORT, False),
     ([0x75, 0x73, 0x65], TK_USE, False),
     ([0xD8, 0xA7, 0xD8, 0xB3, 0xD8, 0xAA, 0xD8, 0xAE, 0xD8, 0xAF, 0xD9, 0x85], TK_USE, False),
     ([0x61, 0x73], TK_AS, False),
     ([0xD9, 0x85, 0xD8, 0xAB, 0xD9, 0x84], TK_AS, False),
     ([0x75, 0x6E, 0x64, 0x65, 0x66, 0x69, 0x6E, 0x65, 0x64], TK_LIT_UNDEF, False),
     ([0xD8, 0xBA, 0xD9, 0x8A, 0xD8, 0xB1, 0x5F, 0xD9, 0x85, 0xD8, 0xB9, 0xD8, 0xB1, 0xD9, 0x81], TK_LIT_UNDEF, False),
     ([0x64, 0x65, 0x66], TK_FUNCTION_DEF, False),
     ([0xD8, 0xB9, 0xD8, 0xB1, 0xD9, 0x81], TK_FUNCTION_DEF, False),
     ([0x61, 0x6C, 0x69, 0x61, 0x73], TK_ALIAS, False),
     ([0xD9, 0x85, 0xD8, 0xB1, 0xD8, 0xA7, 0xD8, 0xAF, 0xD9, 0x81], TK_ALIAS, False),
     ([0x6C, 0x65, 0x74], TK_LET, False),
     ([0xD8, 0xAF, 0xD8, 0xB9], TK_LET, False),
     ([0x72, 0x65, 0x74, 0x75, 0x72, 0x6E], TK_RETURN, False),
     ([0xD8, 0xA3, 0xD8, 0xB1, 0xD8, 0xAC, 0xD8, 0xB9], TK_RETURN, False),
     ([0x65, 0x6C, 0x73, 0x65], TK_ELSE, False),
     ([0xD9, 0x88, 0xD8, 0xA5, 0xD9, 0x84, 0xD8, 0xA7], TK_ELSE, False),
     ([0x69, 0x66], TK_IF, False),
     ([0xD9, 0x84, 0xD9, 0x88], TK_IF, False),
     ([0x61, 0x6E, 0x79], TK_ANY, False),
     ([0xD8, 0xA3, 0xD9, 0x8A], TK_ANY, False),
     ([0x62, 0x6F, 0x6F, 0x6C], TK_BOOL, False),
     ([0xD9, 0x85, 0xD9, 0x86, 0xD8, 0xB7, 0xD9, 0x82, 0xD9, 0x8A], TK_BOOL, False),
     ([0x73, 0x74, 0x72, 0x69, 0x6E, 0x67], TK_STRING, False),
     ([0xD9, 0x86, 0xD8, 0xB5], TK_STRING, False),
     ([0x63, 0x68, 0x61, 0x72], TK_CHAR, False),
     ([0xD8, 0xAD, 0xD8, 0xB1, 0xD9, 0x81], TK_CHAR, False),
     ([0x69, 0x6E, 0x74], TK_INT, False),
     ([0xD8, 0xB9, 0xD8, 0xAF, 0xD8, 0xAF], TK_INT, False),
     ([0x75, 0x69, 0x6E, 0x74], TK_UINT, False),
     ([0xD8, 0xBA, 0xD9, 0x8A, 0xD8, 0xB1, 0x5F, 0xD9, 0x85, 0xD9, 0x88, 0xD9, 0x82, 0xD8, 0xB9], TK_UINT, False),
     ([0x66, 0x6C, 0x6F, 0x61, 0x74], TK_FLOAT, False),
     ([0xD8, 0xB9, 0xD8, 0xAF, 0xD8, 0xAF, 0x5F, 0xD8, 0xB9, 0xD8, 0xA7, 0xD8, 0xA6, 0xD9, 0x85], TK_FLOAT, False),
     ([0x76, 0x6F, 0x69, 0x64], TK_VOID, False),
     ([0xD9, 0x81, 0xD8, 0xB1, 0xD8, 0xA7, 0xD8, 0xBA], TK_VOID, False),
     ([0x69, 0x38], TK_I8, False),
     ([0xD8, 0xB5, 0x38], TK_I8, False),
     ([0x69, 0x31, 0x36], TK_I16, False),
     ([0xD8, 0xB5, 0x31, 0x36], TK_I16, False),
     ([0x69, 0x33, 0x32], TK_I32, False),
     ([0xD8, 0xB5, 0x33, 0x32], TK_I32, False),
     ([0x69, 0x36, 0x34], TK_I64, False),
     ([0xD8, 0xB5, 0x36, 0x34], TK_I64, False),
     ([0x75, 0x38], TK_U8, False),
     ([0xD8, 0xBA, 0x38], TK_U8, False),
     ([0x75, 0x31, 0x36], TK_U16, False),
     ([0xD8, 0xBA, 0x31, 0x36], TK_U16, False),
     ([0x75, 0x33, 0x32], TK_U32, False),
     ([0xD8, 0xBA, 0x33, 0x32], TK_U32, False),
     ([0x75, 0x36, 0x34], TK_U64, False),
     ([0xD8, 0xBA, 0x36, 0x34], TK_U64, False),
     ([0x66, 0x33, 0x32], TK_F32, False),
     ([0xD8, 0xB9, 0x33, 0x32], TK_F32, False),
     ([0x66, 0x36, 0x34], TK_F64, False),
     ([0xD8, 0xB9, 0x36, 0x34], TK_F64, False),
     ([0x61, 0x73, 0x6D], TK_ASSEMBLY, False),
     ([0xD8, 0xAA, 0xD8, 0xAC, 0xD9, 0x85, 0xD9, 0x8A, 0xD8, 0xB9], TK_ASSEMBLY, False),
     ([0x75, 0x6E, 0x73, 0x61, 0x66, 0x65], TK_UNSAFE, False),
     ([0xD8, 0xBA, 0xD9, 0x8A, 0xD8, 0xB1, 0x5F, 0xD8, 0xA2, 0xD9, 0x85, 0xD9, 0x86], TK_UNSAFE, False),
     ([0x77, 0x68, 0x69, 0x6C, 0x65], TK_WHILE, False),
     ([0xD8, 0xA8, 0xD9, 0x8A, 0xD9, 0x86, 0xD9, 0x85, 0xD8, 0xA7], TK_WHILE, False),
     ([0x66, 0x6F, 0x72], TK_FOR, False),
     ([0xD9, 0x84, 0xD9, 0x83, 0xD9, 0x84], TK_FOR, False),
     ([0x62, 0x72, 0x65, 0x61, 0x6B], TK_BREAK, False),
     ([0xD8, 0xA7, 0xD8, 0xAE, 0xD8, 0xB1, 0xD8, 0xAC, 0x5F, 0xD9, 0x85, 0xD9, 0x86, 0x5F, 0xD8, 0xAD, 0xD9, 0x84, 0xD9, 0x82, 0xD8, 0xA9], TK_BREAK, False),
     ([0x63, 0x6F, 0x6E, 0x74, 0x69, 0x6E, 0x75, 0x65], TK_CONTINUE, False),
     ([0xD8, 0xAA, 0xD8, 0xA7, 0xD8, 0xA8, 0xD8, 0xB9, 0x5F, 0xD8, 0xAD, 0xD9, 0x84, 0xD9, 0x82, 0xD8, 0xA9], TK_CONTINUE, False),
     ([0x74, 0x79, 0x70, 0x65], TK_TYPE, False),
     ([0xD9, 0x86, 0xD9, 0x88, 0xD8, 0xB9], TK_TYPE, False),
     ([0x6D, 0x61, 0x74, 0x63, 0x68], TK_MATCH, False),
     ([0xD8, 0xB7, 0xD8, 0xA7, 0xD8, 0xA8, 0xD9, 0x82], TK_MATCH, False),
     ([0x77, 0x69, 0x74, 0x68], TK_WITH, False),
     ([0xD9, 0x85, 0xD8, 0xB9], TK_WITH, False),
     ([0x6D, 0x75, 0x74, 0x61, 0x62, 0x6C, 0x65], TK_MUTABLE, False),
     ([0xD9, 0x85, 0xD8, 0xAA, 0xD8, 0xBA, 0xD9, 0x8A, 0xD8, 0xB1], TK_MUTABLE, False),
     ([0x70, 0x75, 0x62, 0x6C, 0x69, 0x63], TK_PUBLIC, False),
     ([0xD8, 0xB9, 0xD8, 0xA7, 0xD9, 0x85], TK_PUBLIC, False),
     ([0x73, 0x6C, 0x69, 0x63, 0x65], TK_SLICE_OPERATOR, False),
     ([0xD8, 0xB4, 0xD8, 0xB1, 0xD9, 0x8A, 0xD8, 0xAD, 0xD8, 0xA9], TK_SLICE_OPERATOR, False),
     ([0x62, 0x6F, 0x78], TK_BOX_OPERATOR, False),
     ([0xD8, 0xB5, 0xD9, 0x86, 0xD8, 0xAF, 0xD9, 0x88, 0xD9, 0x82], TK_BOX_OPERATOR, False),
     ([0x74, 0x72, 0x75, 0x65], TK_LIT_BOOL, True),
     ([0xD8, 0xB5, 0xD9, 0x88, 0xD8, 0xA7, 0xD8, 0xA8], TK_LIT_BOOL, True),
     ([0x66, 0x61, 0x6C, 0x73, 0x65], TK_LIT_BOOL, False),
     ([0xD8, 0xAE, 0xD8, 0xB7, 0xD8, 0xA3], TK_LIT_BOOL, False)]"

definition operator_entries :: "(bytes \<times> token_kind) list" where
  "operator_entries = [
     ([0x3E, 0x3E, 0x3E], TK_ARITHMETIC_RIGHT_SHIFT_OPERATOR),
     ([0x3C, 0x3D], TK_LESS_THAN_OR_EQUAL_OPERATOR),
     ([0x3D, 0x3D], TK_EQUALS_OPERATOR),
     ([0x21, 0x3D], TK_NOT_EQUAL_OPERATOR),
     ([0x3E, 0x3D], TK_GREATER_THAN_OR_EQUAL_OPERATOR),
     ([0x26, 0x26], TK_AND_AND_OPERATOR),
     ([0x7C, 0x7C], TK_OR_OR_OPERATOR),
     ([0x3C, 0x3C], TK_LEFT_SHIFT_OPERATOR),
     ([0x3E, 0x3E], TK_RIGHT_SHIFT_OPERATOR),
     ([0x3A, 0x3D], TK_OPERATOR_ASSIGNMENT_COLON),
     ([0x2D, 0x3E], TK_RIGHT_ARROW_OPERATOR),
     ([0x40], TK_AT_OPERATOR),
     ([0x2B], TK_PLUS_OPERATOR),
     ([0x2D], TK_MINUS_OPERATOR),
     ([0x2A], TK_STAR_OPERATOR),
     ([0x2F], TK_SLASH_OPERATOR),
     ([0x25], TK_PERCENT_OPERATOR),
     ([0x3D], TK_DEFINITION_SEPARATOR),
     ([0x3C], TK_LESS_THAN_OPERATOR),
     ([0x3E], TK_GREATER_THAN_OPERATOR),
     ([0x21], TK_NOT_OPERATOR),
     ([0x26], TK_AND_OPERATOR),
     ([0x7C], TK_OR_OPERATOR),
     ([0x7E], TK_TILDE_OPERATOR),
     ([0x7B], TK_LEFT_BRACE_OPERATOR),
     ([0x7D], TK_RIGHT_BRACE_OPERATOR),
     ([0x5E], TK_CARET_OPERATOR),
     ([0x2E], TK_DOT_OPERATOR),
     ([0x2C], TK_COMMA_OPERATOR),
     ([0x3B], TK_SEMICOLON_OPERATOR),
     ([0x3A], TK_COLON_OPERATOR),
     ([0x28], TK_LEFT_PARENTHESIS_OPERATOR),
     ([0x29], TK_RIGHT_PARENTHESIS_OPERATOR),
     ([0x5B], TK_LEFT_BRACKET_OPERATOR),
     ([0x5D], TK_RIGHT_BRACKET_OPERATOR)]"

section \<open>Tokens\<close>

text \<open>
  An integer literal keeps the 64-bit pattern of its value, its spelling, and the mark that the
  value lies above \<open>INT64_MAX\<close>.
\<close>

record integer_literal =
  literal_value :: i64
  literal_spelling :: text_slice
  literal_unsigned_wide :: bool

text \<open>
  The payload union, as the member last written. \<open>No_Payload\<close> is the all-zero union that the
  token header leaves.
\<close>

datatype token_payload = No_Payload
  | Index_Payload i64
  | Text_Payload text_slice
  | Integer_Payload integer_literal
  | Character_Payload u32
  | Boolean_Payload bool

record token =
  token_kind_of :: token_kind
  token_span :: source_span
  token_lexeme :: text_slice
  token_payload :: token_payload

section \<open>Queries\<close>

definition token_kind_count :: nat where
  "token_kind_count = length token_registry"

definition token_lifecycle_of :: "token_kind \<Rightarrow> token_lifecycle" where
  "token_lifecycle_of k =
     (if k \<ge> token_kind_count then Lifecycle_Future_Reserved
      else fst (snd (token_registry ! k)))"

definition token_is_keyword_kind :: "token_kind \<Rightarrow> bool" where
  "token_is_keyword_kind k \<longleftrightarrow>
     k < token_kind_count \<and> fst (token_registry ! k) = Class_Keyword"

definition token_payload_kind_of :: "token_kind \<Rightarrow> token_payload_kind" where
  "token_payload_kind_of k =
     (if k \<ge> token_kind_count then Payload_None else snd (snd (token_registry ! k)))"

definition token_payload_is :: "token option \<Rightarrow> token_payload_kind \<Rightarrow> bool" where
  "token_payload_is t expected \<longleftrightarrow>
     (case t of
        None \<Rightarrow> False
      | Some tok \<Rightarrow> token_kind_of tok < token_kind_count
          \<and> snd (snd (token_registry ! token_kind_of tok)) = expected)"

text \<open>
  The typed getters succeed on the payload kind of the token's kind and then read the union
  member of that kind. Reading a member other than the one written does not occur for tokens the
  lexer builds; the model answers \<open>None\<close> there.
\<close>

definition token_get_index :: "token option \<Rightarrow> i64 option" where
  "token_get_index t =
     (if \<not> token_payload_is t Payload_Index then None
      else (case token_payload (the t) of Index_Payload v \<Rightarrow> Some v | _ \<Rightarrow> None))"

definition token_get_integer :: "token option \<Rightarrow> integer_literal option" where
  "token_get_integer t =
     (if \<not> token_payload_is t Payload_Integer then None
      else (case token_payload (the t) of Integer_Payload v \<Rightarrow> Some v | _ \<Rightarrow> None))"

definition token_get_text :: "token option \<Rightarrow> text_slice option" where
  "token_get_text t =
     (if \<not> token_payload_is t Payload_Text then None
      else (case token_payload (the t) of Text_Payload v \<Rightarrow> Some v | _ \<Rightarrow> None))"

definition token_get_character :: "token option \<Rightarrow> u32 option" where
  "token_get_character t =
     (if \<not> token_payload_is t Payload_Character then None
      else (case token_payload (the t) of Character_Payload v \<Rightarrow> Some v | _ \<Rightarrow> None))"

definition token_get_boolean :: "token option \<Rightarrow> bool option" where
  "token_get_boolean t =
     (if \<not> token_payload_is t Payload_Boolean then None
      else (case token_payload (the t) of Boolean_Payload v \<Rightarrow> Some v | _ \<Rightarrow> None))"

text \<open>
  Well-formed tokens: the union member written is the one the registry gives the kind.
\<close>

definition payload_kind :: "token_payload \<Rightarrow> token_payload_kind" where
  "payload_kind p =
     (case p of No_Payload \<Rightarrow> Payload_None | Index_Payload _ \<Rightarrow> Payload_Index
      | Text_Payload _ \<Rightarrow> Payload_Text | Integer_Payload _ \<Rightarrow> Payload_Integer
      | Character_Payload _ \<Rightarrow> Payload_Character | Boolean_Payload _ \<Rightarrow> Payload_Boolean)"

definition token_wf :: "token \<Rightarrow> bool" where
  "token_wf t \<longleftrightarrow> payload_kind (token_payload t) = token_payload_kind_of (token_kind_of t)"

section \<open>Keyword lookup\<close>

text \<open>\<open>__Keyword_Result__\<close>: \<open>None\<close> when nothing was found.\<close>

definition keyword_lookup :: "text_slice \<Rightarrow> (token_kind \<times> bool) option" where
  "keyword_lookup t =
     map_option snd (List.find (\<lambda>(sp, _). identity_equals_cstr t (Some sp)) keyword_entries)"

section \<open>The registry tables\<close>

lemma token_kind_count_90: "token_kind_count = 90"
  by (simp add: token_kind_count_def token_registry_def)

text \<open>Each keyword row names a kind of the keyword class without a payload, or a boolean.\<close>

lemma keyword_entries_kinds:
  "list_all (\<lambda>(sp, k, b). sp \<noteq> [] \<and> token_is_keyword_kind k
     \<and> token_payload_kind_of k = (if k = TK_LIT_BOOL then Payload_Boolean else Payload_None))
   keyword_entries"
  by code_simp

lemma operator_entries_kinds:
  "list_all (\<lambda>(sp, k). sp \<noteq> [] \<and> token_payload_kind_of k = Payload_None) operator_entries"
  by code_simp

lemma payload_of_kinds [simp]:
  "token_payload_kind_of TK_EOF = Payload_None"
  "token_payload_kind_of TK_IDENTIFIER = Payload_None"
  "token_payload_kind_of TK_UNDERSCORE_OPERATOR = Payload_None"
  "token_payload_kind_of TK_LIT_FLO = Payload_None"
  "token_payload_kind_of TK_UNDERSCORE_WITH_INDEX = Payload_Index"
  "token_payload_kind_of TK_LIT_INT = Payload_Integer"
  "token_payload_kind_of TK_LIT_STR = Payload_Text"
  "token_payload_kind_of TK_LIT_CHAR = Payload_Character"
  "token_payload_kind_of TK_LIT_BOOL = Payload_Boolean"
  by code_simp+

lemma keyword_lookup_payload:
  assumes "keyword_lookup t = Some (k, b)"
  shows "token_payload_kind_of k = (if k = TK_LIT_BOOL then Payload_Boolean else Payload_None)"
proof -
  obtain sp where "(sp, k, b) \<in> set keyword_entries"
    using assms by (auto simp: keyword_lookup_def dest!: find_SomeD)
  then show ?thesis
    using keyword_entries_kinds unfolding list_all_iff by fastforce
qed

lemma operator_payload: "(sp, k) \<in> set operator_entries \<Longrightarrow> token_payload_kind_of k = Payload_None"
  using operator_entries_kinds unfolding list_all_iff by fastforce

lemma operator_nonempty: "(sp, k) \<in> set operator_entries \<Longrightarrow> sp \<noteq> []"
  using operator_entries_kinds unfolding list_all_iff by fastforce

text \<open>
  Evaluation rules for the identity key of ASCII and two-byte spellings; the keyword table
  holds nothing else.
\<close>

lemma key_ascii:
  "b \<le> 0x7F \<Longrightarrow> identity_key (b # rest) =
    (if identity_ignores_scalar (ucast b) then identity_key rest
     else map_option ((#) (identity_normalize_scalar (ucast b))) (identity_key rest))"
  by (subst identity_key_step) (simp_all add: utf8_decode_def)

lemma key_two:
  assumes "0xC2 \<le> a" "a \<le> 0xDF" "utf8_is_continuation_byte b"
    "c = push_bit 6 (ucast (a AND 0x1F)) OR ucast (b AND 0x3F)" "0x80 \<le> c" "c \<le> 0x7FF"
  shows "identity_key (a # b # rest) =
    (if identity_ignores_scalar c then identity_key rest
     else map_option ((#) (identity_normalize_scalar c)) (identity_key rest))"
proof -
  have "\<not> a \<le> 0x7F"
    using assms(1) by (simp add: word_le_nat_alt)
  moreover have "utf8_is_scalar c"
    using assms(6) by (simp add: utf8_is_scalar_def word_le_nat_alt)
  ultimately have d: "utf8_decode (a # b # rest) = \<lparr>utf8_codepoint = c, utf8_width = 2, utf8_valid = True\<rparr>"
    using assms by (simp add: utf8_decode_def word_le_nat_alt word_less_nat_alt)
  then show ?thesis
    by (subst identity_key_step) (simp_all add: d)
qed

text \<open>
  The identity keys of the keyword table, row by row: the spellings with the tatweel dropped and
  the hamza forms of alef folded. They are pairwise different, so the first match of the linear
  search is the only one.
\<close>

definition keyword_keys :: "nat list list" where
  "keyword_keys = [
     [0x63, 0x6F, 0x6D, 0x70, 0x74, 0x69, 0x6D, 0x65],
     [0x648, 0x642, 0x62A, 0x5F, 0x627, 0x644, 0x62A, 0x631, 0x62C, 0x645, 0x629],
     [0x66, 0x6E],
     [0x62F, 0x627, 0x644, 0x629],
     [0x6F, 0x66],
     [0x628, 0x646, 0x648, 0x639],
     [0x66, 0x72, 0x6F, 0x6D],
     [0x645, 0x646],
     [0x65, 0x78, 0x74, 0x65, 0x72, 0x6E],
     [0x62E, 0x627, 0x631, 0x62C, 0x64A],
     [0x69, 0x6D, 0x70, 0x6F, 0x72, 0x74],
     [0x627, 0x633, 0x62A, 0x648, 0x631, 0x62F],
     [0x75, 0x73, 0x65],
     [0x627, 0x633, 0x62A, 0x62E, 0x62F, 0x645],
     [0x61, 0x73],
     [0x645, 0x62B, 0x644],
     [0x75, 0x6E, 0x64, 0x65, 0x66, 0x69, 0x6E, 0x65, 0x64],
     [0x63A, 0x64A, 0x631, 0x5F, 0x645, 0x639, 0x631, 0x641],
     [0x64, 0x65, 0x66],
     [0x639, 0x631, 0x641],
     [0x61, 0x6C, 0x69, 0x61, 0x73],
     [0x645, 0x631, 0x627, 0x62F, 0x641],
     [0x6C, 0x65, 0x74],
     [0x62F, 0x639],
     [0x72, 0x65, 0x74, 0x75, 0x72, 0x6E],
     [0x627, 0x631, 0x62C, 0x639],
     [0x65, 0x6C, 0x73, 0x65],
     [0x648, 0x627, 0x644, 0x627],
     [0x69, 0x66],
     [0x644, 0x648],
     [0x61, 0x6E, 0x79],
     [0x627, 0x64A],
     [0x62, 0x6F, 0x6F, 0x6C],
     [0x645, 0x646, 0x637, 0x642, 0x64A],
     [0x73, 0x74, 0x72, 0x69, 0x6E, 0x67],
     [0x646, 0x635],
     [0x63, 0x68, 0x61, 0x72],
     [0x62D, 0x631, 0x641],
     [0x69, 0x6E, 0x74],
     [0x639, 0x62F, 0x62F],
     [0x75, 0x69, 0x6E, 0x74],
     [0x63A, 0x64A, 0x631, 0x5F, 0x645, 0x648, 0x642, 0x639],
     [0x66, 0x6C, 0x6F, 0x61, 0x74],
     [0x639, 0x62F, 0x62F, 0x5F, 0x639, 0x627, 0x626, 0x645],
     [0x76, 0x6F, 0x69, 0x64],
     [0x641, 0x631, 0x627, 0x63A],
     [0x69, 0x38],
     [0x635, 0x38],
     [0x69, 0x31, 0x36],
     [0x635, 0x31, 0x36],
     [0x69, 0x33, 0x32],
     [0x635, 0x33, 0x32],
     [0x69, 0x36, 0x34],
     [0x635, 0x36, 0x34],
     [0x75, 0x38],
     [0x63A, 0x38],
     [0x75, 0x31, 0x36],
     [0x63A, 0x31, 0x36],
     [0x75, 0x33, 0x32],
     [0x63A, 0x33, 0x32],
     [0x75, 0x36, 0x34],
     [0x63A, 0x36, 0x34],
     [0x66, 0x33, 0x32],
     [0x639, 0x33, 0x32],
     [0x66, 0x36, 0x34],
     [0x639, 0x36, 0x34],
     [0x61, 0x73, 0x6D],
     [0x62A, 0x62C, 0x645, 0x64A, 0x639],
     [0x75, 0x6E, 0x73, 0x61, 0x66, 0x65],
     [0x63A, 0x64A, 0x631, 0x5F, 0x627, 0x645, 0x646],
     [0x77, 0x68, 0x69, 0x6C, 0x65],
     [0x628, 0x64A, 0x646, 0x645, 0x627],
     [0x66, 0x6F, 0x72],
     [0x644, 0x643, 0x644],
     [0x62, 0x72, 0x65, 0x61, 0x6B],
     [0x627, 0x62E, 0x631, 0x62C, 0x5F, 0x645, 0x646, 0x5F, 0x62D, 0x644, 0x642, 0x629],
     [0x63, 0x6F, 0x6E, 0x74, 0x69, 0x6E, 0x75, 0x65],
     [0x62A, 0x627, 0x628, 0x639, 0x5F, 0x62D, 0x644, 0x642, 0x629],
     [0x74, 0x79, 0x70, 0x65],
     [0x646, 0x648, 0x639],
     [0x6D, 0x61, 0x74, 0x63, 0x68],
     [0x637, 0x627, 0x628, 0x642],
     [0x77, 0x69, 0x74, 0x68],
     [0x645, 0x639],
     [0x6D, 0x75, 0x74, 0x61, 0x62, 0x6C, 0x65],
     [0x645, 0x62A, 0x63A, 0x64A, 0x631],
     [0x70, 0x75, 0x62, 0x6C, 0x69, 0x63],
     [0x639, 0x627, 0x645],
     [0x73, 0x6C, 0x69, 0x63, 0x65],
     [0x634, 0x631, 0x64A, 0x62D, 0x629],
     [0x62, 0x6F, 0x78],
     [0x635, 0x646, 0x62F, 0x648, 0x642],
     [0x74, 0x72, 0x75, 0x65],
     [0x635, 0x648, 0x627, 0x628],
     [0x66, 0x61, 0x6C, 0x73, 0x65],
     [0x62E, 0x637, 0x627]]"


lemma keyword_keys_table: "map (\<lambda>(sp, _). identity_key sp) keyword_entries = map (Some o map of_nat) keyword_keys"
  unfolding keyword_entries_def keyword_keys_def list.map(2) prod.case o_apply
  by (simp add: key_ascii key_two identity_ignores_scalar_def
     identity_normalize_scalar_def utf8_is_continuation_byte_def)

lemma keyword_keys_numbers: "distinct keyword_keys \<and> (\<forall>k \<in> set keyword_keys. \<forall>c \<in> set k. c < 2048)"
  by (simp add: keyword_keys_def)

lemma keyword_keys_distinct: "distinct (map (\<lambda>(sp, _). identity_key sp) keyword_entries)"
proof -
  have "inj_on (Some \<circ> map (of_nat :: nat \<Rightarrow> u32)) (set keyword_keys)"
  proof (rule inj_onI)
    fix x y
    assume xy: "x \<in> set keyword_keys" "y \<in> set keyword_keys"
      and eq: "(Some \<circ> map (of_nat :: nat \<Rightarrow> u32)) x = (Some \<circ> map of_nat) y"
    have small: "map unat (map (of_nat :: nat \<Rightarrow> u32) k) = k" if "k \<in> set keyword_keys" for k
    proof -
      have "c mod 4294967296 = c" if "c \<in> set k" for c
        using keyword_keys_numbers \<open>k \<in> set keyword_keys\<close> that by fastforce
      then show ?thesis
        by (auto intro!: map_idI simp: unat_of_nat)
    qed
    from eq have "map unat (map (of_nat :: nat \<Rightarrow> u32) x) = map unat (map (of_nat :: nat \<Rightarrow> u32) y)"
      by simp
    then show "x = y"
      by (simp only: small [OF xy(1)] small [OF xy(2)])
  qed
  then show ?thesis
    unfolding keyword_keys_table using keyword_keys_numbers by (simp add: distinct_map)
qed

lemma keyword_keys_valid: "(sp, kb) \<in> set keyword_entries \<Longrightarrow> identity_key sp \<noteq> None"
proof -
  assume "(sp, kb) \<in> set keyword_entries"
  then have "identity_key sp \<in> set (map (\<lambda>(sp, _). identity_key sp) keyword_entries)"
    by force
  then show ?thesis
    unfolding keyword_keys_table by auto
qed

section \<open>Properties\<close>

text \<open>
  The keyword search finds a row exactly when the spelling has the identity of that row's
  spelling: no row is shadowed by an earlier one, and the answer does not depend on the order of
  the table.
\<close>

theorem keyword_lookup_exact:
  "keyword_lookup t = Some r \<longleftrightarrow>
     (\<exists>sp. (sp, r) \<in> set keyword_entries \<and> identity_key t = identity_key sp)"
proof
  assume "keyword_lookup t = Some r"
  then obtain sp where "(sp, r) \<in> set keyword_entries" "identity_equals t sp"
    by (auto simp: keyword_lookup_def identity_equals_cstr_def dest!: find_SomeD)
  then show "\<exists>sp. (sp, r) \<in> set keyword_entries \<and> identity_key t = identity_key sp"
    by (auto simp: identity_equals_key)
next
  assume "\<exists>sp. (sp, r) \<in> set keyword_entries \<and> identity_key t = identity_key sp"
  then obtain sp where row: "(sp, r) \<in> set keyword_entries" and key: "identity_key t = identity_key sp"
    by blast
  have same: "identity_equals t sp"
    using keyword_keys_valid [OF row] key by (simp add: identity_equals_key)
  obtain x where found: "List.find (\<lambda>(sp, _). identity_equals_cstr t (Some sp)) keyword_entries = Some x"
    using row same by (cases "List.find (\<lambda>(sp, _). identity_equals_cstr t (Some sp)) keyword_entries")
      (auto simp: find_None_iff_all identity_equals_cstr_def)
  obtain sp' r' where x: "x = (sp', r')" by (cases x)
  have "(sp', r') \<in> set keyword_entries" "identity_key t = identity_key sp'"
    using found by (auto simp: x identity_equals_cstr_def identity_equals_key dest!: find_SomeD)
  then have "(sp', r') = (sp, r)"
    using keyword_keys_distinct row key
    by (auto simp: distinct_map dest!: inj_onD [where x = "(sp', r')" and y = "(sp, r)"])
  then show "keyword_lookup t = Some r"
    by (simp add: keyword_lookup_def found x)
qed

end
