(* ===== verification/Containers.thy ===== *)
theory Containers
  imports Prelude
begin

text \<open>
  The growable containers of the compiler: \<open>bootstrap/src/support/containers/vector.c\<close>,
  \<open>bootstrap/src/support/text/builder.c\<close> and the growth policy of
  \<open>bootstrap/src/kernel/memory/memory.c\<close>. Memory is a list of cells, \<open>None\<close> where nothing was
  written yet. An operation calls the C allocator at most once; whether that call succeeds is the
  argument \<open>granted\<close>. A null container pointer, which every operation answers at once without an
  effect, is not represented.
\<close>

section \<open>Memory\<close>

type_synonym cells = "u8 option list"

text \<open>\<open>realloc\<close>: the old cells up to the new size, then cells that hold nothing.\<close>

definition c_realloc :: "bool \<Rightarrow> cells \<Rightarrow> size_t \<Rightarrow> cells option" where
  "c_realloc granted d n =
     (if granted then Some (take (unat n) d @ replicate (unat n - length d) None) else None)"

text \<open>
  \<open>memcpy\<close> into a block at an offset; \<open>None\<close> is a write past the end of the block, which C
  leaves undefined.
\<close>

definition c_memcpy :: "cells \<Rightarrow> nat \<Rightarrow> bytes \<Rightarrow> cells option" where
  "c_memcpy d off xs =
     (if off + length xs \<le> length d
      then Some (take off d @ map Some xs @ drop (off + length xs) d) else None)"

text \<open>
  What an operation did: its result, a refusal that leaves the container as it was, or a write
  outside the block it owns.
\<close>

datatype 'a outcome = Done 'a | Refused | Overrun

section \<open>Capacity growth\<close>

text \<open>
  The doubling loop of the four growth routines. \<open>None\<close> is the exit on
  \<open>capacity > SIZE_MAX / 2\<close>. No caller starts at 0, where the C loop would not end; the first
  test only makes the recursion total.
\<close>

function double_until :: "size_t \<Rightarrow> size_t \<Rightarrow> size_t option" where
  "double_until capacity needed =
     (if capacity = 0 then None
      else if capacity < needed then
        (if capacity > SIZE_MAX div 2 then None else double_until (capacity * 2) needed)
      else Some capacity)"
  by pat_completeness auto

lemma unat_half_max: "unat (SIZE_MAX div 2 :: size_t) = 2 ^ 63 - 1"
  by simp

lemma unat_doubled:
  fixes c :: size_t
  assumes "\<not> c > SIZE_MAX div 2"
  shows "unat (c * 2) = unat c * 2"
proof -
  have "unat c \<le> 2 ^ 63 - 1"
    using assms unat_half_max by (simp only: word_less_nat_alt not_less)
  then have "unat c * 2 < 2 ^ 64"
    by simp
  then show ?thesis
    by (simp add: unat_word_ariths)
qed

termination double_until
proof (relation "measure (\<lambda>(c, _). 2 ^ 64 - unat c)", simp)
  fix c n :: size_t
  assume c: "c \<noteq> 0" "\<not> SIZE_MAX div 2 < c"
  have "unat (c * 2) = unat c * 2"
    using c(2) by (rule unat_doubled)
  moreover have "0 < unat c" "unat (c * 2) < 2 ^ 64"
    using c(1) unat_u64_less [of "c * 2"] by (simp_all add: unat_gt_0)
  ultimately show "((c * 2, n), c, n) \<in> measure (\<lambda>(c, _). 2 ^ 64 - unat c)"
    by simp
qed

declare double_until.simps [simp del]

lemma double_until_SomeD:
  assumes "double_until c n = Some r"
  shows "n \<le> r \<and> c \<le> r \<and> (\<exists>k. unat r = unat c * 2 ^ k) \<and> (r = c \<or> unat r < 2 * unat n)"
  using assms
proof (induction c n rule: double_until.induct)
  case (1 c n)
  show ?case
  proof (cases "c < n")
    case False
    with "1.prems" show ?thesis
      by (auto simp: double_until.simps [of c n] intro: exI [of _ 0] split: if_splits)
  next
    case True
    with "1.prems" have small: "\<not> c > SIZE_MAX div 2" and c0: "c \<noteq> 0"
      and rec: "double_until (c * 2) n = Some r"
      by (auto simp: double_until.simps [of c n] split: if_splits)
    have dbl: "unat (c * 2) = unat c * 2"
      using small by (rule unat_doubled)
    have IH: "n \<le> r \<and> c * 2 \<le> r \<and> (\<exists>k. unat r = unat (c * 2) * 2 ^ k)
        \<and> (r = c * 2 \<or> unat r < 2 * unat n)"
      using "1.IH" [OF c0 True small rec] .
    from IH obtain k where "unat r = unat (c * 2) * 2 ^ k"
      by blast
    then have "\<exists>k. unat r = unat c * 2 ^ k"
      by (intro exI [of _ "Suc k"]) (simp add: dbl)
    moreover have "unat c * 2 \<le> unat r" "n \<le> r"
      using IH dbl by (auto simp: word_le_nat_alt)
    moreover have "unat r < 2 * unat n"
      using IH dbl True by (auto simp: word_less_nat_alt)
    ultimately show ?thesis
      by (auto simp: word_le_nat_alt)
  qed
qed

lemma double_until_NoneD:
  assumes "double_until c n = None" "c \<noteq> 0"
  shows "2 ^ 63 < unat n"
  using assms
proof (induction c n rule: double_until.induct)
  case (1 c n)
  then have lt: "c < n"
    by (auto simp: double_until.simps [of c n] split: if_splits)
  show ?case
  proof (cases "c > SIZE_MAX div 2")
    case True
    then have "2 ^ 63 - 1 < unat c"
      using unat_half_max by (simp only: word_less_nat_alt)
    with lt show ?thesis
      by (simp add: word_less_nat_alt)
  next
    case False
    with "1.prems" lt have rec: "double_until (c * 2) n = None"
      by (simp add: double_until.simps [of c n])
    have "unat (c * 2) = unat c * 2"
      using False by (rule unat_doubled)
    then have "c * 2 \<noteq> 0"
      using "1.prems"(2) by (metis mult_eq_0_iff unat_eq_zero zero_neq_numeral)
    then show ?thesis
      using "1.IH" [OF "1.prems"(2) lt False rec] by blast
  qed
qed

text \<open>\<open>__Memory_Vector_Minimum_Capacity__\<close> and the policy of the run-time vectors.\<close>

definition memory_vector_minimum_capacity :: size_t where
  "memory_vector_minimum_capacity = 4"

definition memory_element_bytes :: "size_t \<Rightarrow> size_t \<Rightarrow> size_t option" where
  "memory_element_bytes element_size element_count =
     (if element_size \<noteq> 0 \<and> element_count > SIZE_MAX div element_size then None
      else Some (element_size * element_count))"

definition memory_vector_initial_capacity :: "size_t \<Rightarrow> size_t" where
  "memory_vector_initial_capacity len =
     (if len = 0 then 0
      else (case double_until memory_vector_minimum_capacity len of
              None \<Rightarrow> len | Some c \<Rightarrow> c))"

definition memory_vector_grow_capacity :: "size_t \<Rightarrow> size_t \<Rightarrow> size_t option" where
  "memory_vector_grow_capacity current required =
     (if required \<le> current then Some current
      else
        (let capacity =
           (case double_until
                   (if current = 0 then memory_vector_minimum_capacity else current) required of
              None \<Rightarrow> required | Some c \<Rightarrow> c)
         in if capacity < required then None else Some capacity))"

lemma memory_vector_grow_capacity_enough:
  "memory_vector_grow_capacity current required = Some c \<Longrightarrow> required \<le> c \<and> current \<le> c"
  by (auto simp: memory_vector_grow_capacity_def Let_def not_le dest: double_until_SomeD
      split: if_splits option.splits)

section \<open>Cells\<close>

lemma length_memcpy: "c_memcpy d off xs = Some d' \<Longrightarrow> length d' = length d"
  by (auto simp: c_memcpy_def split: if_splits)

lemma memcpy_read: "c_memcpy d off xs = Some d' \<Longrightarrow> take (length xs) (drop off d') = map Some xs"
  by (auto simp: c_memcpy_def split: if_splits)

lemma memcpy_before:
  "c_memcpy d off xs = Some d' \<Longrightarrow> i + n \<le> off \<Longrightarrow> take n (drop i d') = take n (drop i d)"
  by (auto simp: c_memcpy_def take_drop min_def split: if_splits)

lemma memcpy_after:
  "c_memcpy d off xs = Some d' \<Longrightarrow> off + length xs \<le> i \<Longrightarrow> take n (drop i d') = take n (drop i d)"
  by (auto simp: c_memcpy_def split: if_splits)

lemma memcpy_take: "c_memcpy d off xs = Some d' \<Longrightarrow> take (off + length xs) d' = take off d @ map Some xs"
  by (auto simp: c_memcpy_def split: if_splits)

lemma realloc_length: "c_realloc granted d n = Some d' \<Longrightarrow> length d' = unat n"
  by (auto simp: c_realloc_def split: if_splits)

lemma realloc_take:
  "c_realloc granted d n = Some d' \<Longrightarrow> m \<le> length d \<Longrightarrow> length d \<le> unat n \<Longrightarrow> take m d' = take m d"
  by (auto simp: c_realloc_def split: if_splits)

section \<open>The vector\<close>

record vector =
  vec_data :: cells
  vec_count :: size_t
  vec_capacity :: size_t
  vec_element_size :: size_t

definition vector_init :: "size_t \<Rightarrow> vector" where
  "vector_init element_size =
     \<lparr>vec_data = [], vec_count = 0, vec_capacity = 0, vec_element_size = element_size\<rparr>"

definition vector_reserve :: "bool \<Rightarrow> vector \<Rightarrow> size_t \<Rightarrow> vector option" where
  "vector_reserve granted v needed =
     (if vec_capacity v \<ge> needed then Some v
      else
        (case double_until (if vec_capacity v = 0 then 8 else vec_capacity v) needed of
           None \<Rightarrow> None
         | Some capacity \<Rightarrow>
             if vec_element_size v \<noteq> 0 \<and> capacity > SIZE_MAX div vec_element_size v then None
             else
               (case c_realloc granted (vec_data v) (capacity * vec_element_size v) of
                  None \<Rightarrow> None
                | Some d \<Rightarrow> Some (v\<lparr>vec_data := d, vec_capacity := capacity\<rparr>))))"

text \<open>The pointer returned is the byte offset of the new element in the vector's block.\<close>

definition vector_push :: "bool \<Rightarrow> vector \<Rightarrow> bytes option \<Rightarrow> (vector \<times> size_t) outcome" where
  "vector_push granted v element =
     (case element of
        None \<Rightarrow> Refused
      | Some e \<Rightarrow>
          if vec_element_size v = 0 then Refused
          else
            (case vector_reserve granted v (vec_count v + 1) of
               None \<Rightarrow> Refused
             | Some v' \<Rightarrow>
                 (let destination = vec_count v' * vec_element_size v'
                  in (case c_memcpy (vec_data v') (unat destination)
                             (take (unat (vec_element_size v')) e) of
                        None \<Rightarrow> Overrun
                      | Some d \<Rightarrow>
                          Done (v'\<lparr>vec_data := d, vec_count := vec_count v' + 1\<rparr>, destination)))))"

definition vector_at_const :: "vector \<Rightarrow> size_t \<Rightarrow> size_t option" where
  "vector_at_const v index =
     (if index \<ge> vec_count v then None else Some (index * vec_element_size v))"

definition vector_at :: "vector \<Rightarrow> size_t \<Rightarrow> size_t option" where
  "vector_at v index = vector_at_const v index"

definition vector_destroy :: "vector \<Rightarrow> vector" where
  "vector_destroy v = v\<lparr>vec_data := [], vec_count := 0, vec_capacity := 0\<rparr>"

text \<open>The elements, and what every operation keeps of a vector.\<close>

definition vector_slot :: "vector \<Rightarrow> nat \<Rightarrow> cells" where
  "vector_slot v i = take (unat (vec_element_size v)) (drop (i * unat (vec_element_size v)) (vec_data v))"

definition vector_elements :: "vector \<Rightarrow> bytes list" where
  "vector_elements v = map (\<lambda>i. map the (vector_slot v i)) [0..<unat (vec_count v)]"

definition growth_capacity :: "nat \<Rightarrow> size_t \<Rightarrow> bool" where
  "growth_capacity start c \<longleftrightarrow> c = 0 \<or> (\<exists>k. unat c = start * 2 ^ k)"

definition vector_inv :: "vector \<Rightarrow> bool" where
  "vector_inv v \<longleftrightarrow>
     vec_element_size v \<noteq> 0 \<and> vec_count v \<le> vec_capacity v
     \<and> growth_capacity 8 (vec_capacity v)
     \<and> length (vec_data v) = unat (vec_capacity v) * unat (vec_element_size v)
     \<and> length (vec_data v) < 2 ^ 64
     \<and> (\<forall>i < unat (vec_count v). None \<notin> set (vector_slot v i))"

lemma growth_bound:
  assumes "growth_capacity (2 ^ m) c"
  shows "unat c \<le> 2 ^ 63"
proof (cases "c = 0")
  case False
  then obtain k where k: "unat c = 2 ^ (m + k)"
    using assms by (auto simp: growth_capacity_def power_add)
  then have "(2::nat) ^ (m + k) < 2 ^ 64"
    using unat_u64_less [of c] by simp
  then have "m + k < 64"
    by (rule power_less_imp_less_exp [rotated]) simp
  then have "m + k \<le> 63"
    by simp
  then show ?thesis
    unfolding k by (intro power_increasing) auto
qed simp

lemma growth_capacity_double:
  assumes "growth_capacity start c" "0 < start" "start < 2 ^ 64"
    "double_until (if c = 0 then of_nat start else c) needed = Some r"
  shows "growth_capacity start r \<and> needed \<le> r \<and> c \<le> r"
proof -
  let ?c = "if c = 0 then of_nat start else c"
  have "\<exists>k. unat ?c = start * 2 ^ k"
    using assms(1-3) by (auto simp: growth_capacity_def unat_of_nat intro: exI [of _ 0])
  moreover obtain j where "unat r = unat ?c * 2 ^ j" and le: "needed \<le> r" "?c \<le> r"
    using double_until_SomeD [OF assms(4)] by blast
  ultimately obtain k where "unat r = start * 2 ^ (k + j)"
    by (auto simp: power_add)
  with le show ?thesis
    by (auto simp: growth_capacity_def split: if_splits)
qed

lemma vector_slot_cong:
  assumes "take (k * unat (vec_element_size v)) (vec_data v')
      = take (k * unat (vec_element_size v)) (vec_data v)"
    "vec_element_size v' = vec_element_size v" "i < k"
  shows "vector_slot v' i = vector_slot v i"
proof -
  let ?e = "unat (vec_element_size v)"
  have "i * ?e + ?e \<le> k * ?e"
    using mult_le_mono1 [of "Suc i" k ?e] \<open>i < k\<close> by simp
  then have "take (i * ?e + ?e) (vec_data v') = take (i * ?e + ?e) (vec_data v)"
    using arg_cong [OF assms(1), where f = "take (i * ?e + ?e)"] by (simp add: min_def)
  then show ?thesis
    by (simp add: vector_slot_def assms(2) take_drop add.commute)
qed

lemma vector_reserve_inv:
  assumes inv: "vector_inv v" and res: "vector_reserve granted v needed = Some v'"
  shows "vector_inv v' \<and> needed \<le> vec_capacity v' \<and> vec_count v' = vec_count v
    \<and> vec_element_size v' = vec_element_size v \<and> vector_elements v' = vector_elements v"
proof (cases "vec_capacity v \<ge> needed")
  case True
  with inv res show ?thesis
    by (simp add: vector_reserve_def)
next
  case False
  with res obtain c d where
      dbl: "double_until (if vec_capacity v = 0 then of_nat 8 else vec_capacity v) needed = Some c"
    and room: "\<not> (vec_element_size v \<noteq> 0 \<and> c > SIZE_MAX div vec_element_size v)"
    and re: "c_realloc granted (vec_data v) (c * vec_element_size v) = Some d"
    and v': "v' = v\<lparr>vec_data := d, vec_capacity := c\<rparr>"
    by (auto simp: vector_reserve_def split: option.splits if_splits)
  let ?e = "unat (vec_element_size v)"
  have e0: "vec_element_size v \<noteq> 0" and len: "length (vec_data v) = unat (vec_capacity v) * ?e"
    and count: "unat (vec_count v) \<le> unat (vec_capacity v)"
    using inv by (auto simp: vector_inv_def word_le_nat_alt)
  have grow: "growth_capacity 8 c \<and> needed \<le> c \<and> vec_capacity v \<le> c"
    using growth_capacity_double [OF _ _ _ dbl] inv by (simp add: vector_inv_def)
  have "c \<le> SIZE_MAX div vec_element_size v"
    using room e0 by simp
  then have bytes: "unat (c * vec_element_size v) = unat c * ?e"
    using e0 by (intro unat_mult_guarded)
  have cap: "unat (vec_capacity v) * ?e \<le> unat c * ?e"
    using grow by (simp add: word_le_nat_alt)
  have pre: "take (unat (vec_count v) * ?e) d = take (unat (vec_count v) * ?e) (vec_data v)"
    by (rule realloc_take [OF re]) (use count cap len bytes in simp_all)
  have slots: "vector_slot v' i = vector_slot v i" if "i < unat (vec_count v)" for i
    by (rule vector_slot_cong [OF _ _ that]) (simp_all add: v' pre)
  have "vector_inv v'"
    using inv grow slots realloc_length [OF re] bytes unat_u64_less [of "c * vec_element_size v"]
    by (auto simp: vector_inv_def v')
  moreover have "vector_elements v' = vector_elements v"
    using slots by (simp add: vector_elements_def v')
  ultimately show ?thesis
    using grow by (simp add: v')
qed

lemma vector_capacity_bound: "vector_inv v \<Longrightarrow> unat (vec_capacity v) \<le> 2 ^ 63"
  using growth_bound [of 3 "vec_capacity v"] by (simp add: vector_inv_def)

lemma vector_init_inv: "es \<noteq> 0 \<Longrightarrow> vector_inv (vector_init es) \<and> vector_elements (vector_init es) = []"
  by (simp add: vector_inv_def vector_init_def vector_elements_def growth_capacity_def)

lemma vector_push_step:
  assumes inv: "vector_inv v" and fits: "length e = unat (vec_element_size v)"
  shows "vector_push granted v (Some e) \<noteq> Overrun
    \<and> (\<forall>v' off. vector_push granted v (Some e) = Done (v', off) \<longrightarrow>
         vector_inv v' \<and> vec_element_size v' = vec_element_size v
         \<and> vector_elements v' = vector_elements v @ [e]
         \<and> vector_at v' (vec_count v) = Some off)"
proof (cases "vector_reserve granted v (vec_count v + 1)")
  case None
  with inv show ?thesis
    by (simp add: vector_push_def vector_inv_def)
next
  case (Some w)
  let ?e = "unat (vec_element_size v)" and ?n = "unat (vec_count v)"
  have w: "vector_inv w" "vec_count v + 1 \<le> vec_capacity w" "vec_count w = vec_count v"
      "vec_element_size w = vec_element_size v" "vector_elements w = vector_elements v"
    using vector_reserve_inv [OF inv Some] by auto
  have "?n \<le> 2 ^ 63"
    using vector_capacity_bound [OF inv] inv by (simp add: vector_inv_def word_le_nat_alt)
  then have n1: "unat (vec_count v + 1) = ?n + 1"
    by (simp add: unat_add_u64)
  have len: "length (vec_data w) = unat (vec_capacity w) * ?e"
    using w by (simp add: vector_inv_def)
  have room: "?n * ?e + ?e \<le> length (vec_data w)"
    using mult_le_mono1 [of "?n + 1" "unat (vec_capacity w)" ?e] w(2) n1
    by (simp add: len word_le_nat_alt)
  moreover have "length (vec_data w) < 2 ^ 64"
    using w(1) by (simp add: vector_inv_def)
  ultimately have dest: "unat (vec_count v * vec_element_size v) = ?n * ?e"
    by (intro unat_mult_u64) simp
  then obtain d where d: "c_memcpy (vec_data w) (?n * ?e) e = Some d"
    using room fits by (auto simp: c_memcpy_def)
  let ?v = "w\<lparr>vec_data := d, vec_count := vec_count v + 1\<rparr>"
  have push: "vector_push granted v (Some e) = Done (?v, vec_count v * vec_element_size v)"
    using Some inv fits d dest by (simp add: vector_push_def vector_inv_def w Let_def)
  have old: "vector_slot ?v i = vector_slot w i" if "i < ?n" for i
    by (rule vector_slot_cong [OF _ _ that])
      (use memcpy_before [OF d, of 0 "?n * ?e"] in \<open>simp_all add: w\<close>)
  have new: "vector_slot ?v ?n = map Some e"
    using memcpy_read [OF d] by (simp add: vector_slot_def w fits)
  have "vector_inv ?v"
    using w(1,2) old new length_memcpy [OF d]
    by (auto simp: vector_inv_def n1 w less_Suc_eq)
  moreover have "vector_elements ?v = vector_elements w @ [e]"
    using old new by (simp add: vector_elements_def n1 w comp_def)
  moreover have "vec_count v < vec_count v + 1"
    using n1 by (simp add: word_less_nat_alt)
  ultimately show ?thesis
    unfolding push by (auto simp: w vector_at_def vector_at_const_def not_le)
qed

section \<open>The text builder\<close>

record text_builder =
  tb_data :: cells
  tb_length :: size_t
  tb_capacity :: size_t

definition text_builder_init :: text_builder where
  "text_builder_init = \<lparr>tb_data = [], tb_length = 0, tb_capacity = 0\<rparr>"

definition text_builder_reserve :: "bool \<Rightarrow> text_builder \<Rightarrow> size_t \<Rightarrow> text_builder option" where
  "text_builder_reserve granted b needed =
     (if tb_capacity b \<ge> needed then Some b
      else
        (case double_until (if tb_capacity b = 0 then 64 else tb_capacity b) needed of
           None \<Rightarrow> None
         | Some capacity \<Rightarrow>
             (case c_realloc granted (tb_data b) capacity of
                None \<Rightarrow> None
              | Some d \<Rightarrow> Some (b\<lparr>tb_data := d, tb_capacity := capacity\<rparr>))))"

text \<open>The bytes appended are the first \<open>n\<close> bytes at the source pointer.\<close>

definition text_builder_append ::
    "bool \<Rightarrow> text_builder \<Rightarrow> bytes option \<Rightarrow> size_t \<Rightarrow> text_builder outcome" where
  "text_builder_append granted b data n =
     (if data = None \<and> n \<noteq> 0 then Refused
      else
        (case text_builder_reserve granted b (tb_length b + n + 1) of
           None \<Rightarrow> Refused
         | Some b' \<Rightarrow>
             (case (if n \<noteq> 0 then c_memcpy (tb_data b') (unat (tb_length b')) (take (unat n) (the data))
                    else Some (tb_data b')) of
                None \<Rightarrow> Overrun
              | Some d \<Rightarrow>
                  (case c_memcpy d (unat (tb_length b' + n)) [0] of
                     None \<Rightarrow> Overrun
                   | Some d' \<Rightarrow> Done (b'\<lparr>tb_data := d', tb_length := tb_length b' + n\<rparr>)))))"

definition text_builder_append_byte :: "bool \<Rightarrow> text_builder \<Rightarrow> u8 \<Rightarrow> text_builder outcome" where
  "text_builder_append_byte granted b byte = text_builder_append granted b (Some [byte]) 1"

definition text_builder_destroy :: "text_builder \<Rightarrow> text_builder" where
  "text_builder_destroy b = b\<lparr>tb_data := [], tb_length := 0, tb_capacity := 0\<rparr>"

text \<open>The text built so far, and what the operations keep: a terminating zero behind it.\<close>

definition builder_text :: "text_builder \<Rightarrow> bytes" where
  "builder_text b = map the (take (unat (tb_length b)) (tb_data b))"

definition builder_inv :: "text_builder \<Rightarrow> bool" where
  "builder_inv b \<longleftrightarrow>
     growth_capacity 64 (tb_capacity b) \<and> length (tb_data b) = unat (tb_capacity b)
     \<and> (if tb_capacity b = 0 then tb_length b = 0
        else tb_length b < tb_capacity b \<and> tb_data b ! unat (tb_length b) = Some 0)
     \<and> None \<notin> set (take (unat (tb_length b)) (tb_data b))"

lemma text_builder_init_inv: "builder_inv text_builder_init \<and> builder_text text_builder_init = []"
  by (simp add: builder_inv_def builder_text_def text_builder_init_def growth_capacity_def)

lemma text_builder_reserve_inv:
  assumes inv: "builder_inv b" and res: "text_builder_reserve granted b needed = Some b'"
  shows "growth_capacity 64 (tb_capacity b') \<and> needed \<le> tb_capacity b'
    \<and> length (tb_data b') = unat (tb_capacity b') \<and> tb_length b' = tb_length b
    \<and> take (unat (tb_length b)) (tb_data b') = take (unat (tb_length b)) (tb_data b)"
proof (cases "tb_capacity b \<ge> needed")
  case True
  with inv res show ?thesis
    by (simp add: text_builder_reserve_def builder_inv_def)
next
  case False
  with res obtain c d where
      dbl: "double_until (if tb_capacity b = 0 then of_nat 64 else tb_capacity b) needed = Some c"
    and re: "c_realloc granted (tb_data b) c = Some d"
    and b': "b' = b\<lparr>tb_data := d, tb_capacity := c\<rparr>"
    by (auto simp: text_builder_reserve_def split: option.splits if_splits)
  have grow: "growth_capacity 64 c \<and> needed \<le> c \<and> tb_capacity b \<le> c"
    using growth_capacity_double [OF _ _ _ dbl] inv by (simp add: builder_inv_def)
  have "unat (tb_length b) \<le> length (tb_data b)"
    using inv by (auto simp: builder_inv_def word_less_nat_alt split: if_splits)
  moreover have "length (tb_data b) \<le> unat c"
    using inv grow by (simp add: builder_inv_def word_le_nat_alt)
  ultimately show ?thesis
    using grow realloc_take [OF re] realloc_length [OF re] by (simp add: b')
qed

lemma builder_length_bound:
  assumes "builder_inv b"
  shows "unat (tb_length b) \<le> 2 ^ 63"
proof -
  have "unat (tb_capacity b) \<le> 2 ^ 63"
    using growth_bound [of 6] assms by (simp add: builder_inv_def)
  with assms show ?thesis
    by (auto simp: builder_inv_def word_less_nat_alt split: if_splits)
qed

lemma text_builder_append_step:
  assumes inv: "builder_inv b" and data: "data = Some xs" "length xs = unat n" and small: "unat n < 2 ^ 63 - 1"
  shows "text_builder_append granted b data n \<noteq> Overrun
    \<and> (\<forall>b'. text_builder_append granted b data n = Done b' \<longrightarrow>
         builder_inv b' \<and> builder_text b' = builder_text b @ xs)"
proof (cases "text_builder_reserve granted b (tb_length b + n + 1)")
  case None
  then show ?thesis
    by (simp add: text_builder_append_def)
next
  case (Some w)
  let ?n = "unat (tb_length b)"
  have w: "growth_capacity 64 (tb_capacity w)" "tb_length b + n + 1 \<le> tb_capacity w"
      "length (tb_data w) = unat (tb_capacity w)" "tb_length w = tb_length b"
      "take ?n (tb_data w) = take ?n (tb_data b)"
    using text_builder_reserve_inv [OF inv Some] by auto
  have sum: "unat (tb_length b + n) = ?n + unat n"
    using builder_length_bound [OF inv] small by (simp add: unat_add_u64)
  moreover have "unat (tb_length b + n + 1) = unat (tb_length b + n) + 1"
    using builder_length_bound [OF inv] small sum by (subst unat_add_u64) simp_all
  ultimately have room: "?n + unat n + 1 \<le> length (tb_data w)"
    using w by (simp add: word_le_nat_alt)
  then obtain d where d: "c_memcpy (tb_data w) ?n xs = Some d"
    using data by (auto simp: c_memcpy_def)
  then obtain d' where d': "c_memcpy d (?n + unat n) [0] = Some d'"
    using room length_memcpy [OF d] by (auto simp: c_memcpy_def)
  have "n = 0 \<Longrightarrow> d = tb_data w"
    using d data by (auto simp: c_memcpy_def split: if_splits)
  then have push: "text_builder_append granted b data n
      = Done (w\<lparr>tb_data := d', tb_length := tb_length b + n\<rparr>)" (is "_ = Done ?b")
    using Some d d' data by (auto simp: text_builder_append_def sum w)
  have "take (?n + length xs) d = take ?n (tb_data b) @ map Some xs"
    using memcpy_take [OF d] by (simp add: w)
  then have written: "take (?n + unat n) d' = take ?n (tb_data b) @ map Some xs"
    using memcpy_before [OF d', of 0] data by simp
  have zero: "d' ! (?n + unat n) = Some 0"
    using d' room length_memcpy [OF d] by (auto simp: c_memcpy_def nth_append split: if_splits)
  have cap: "tb_capacity w \<noteq> 0" "tb_length b + n < tb_capacity w"
    using room w sum by (auto simp: word_less_nat_alt)
  have "builder_inv ?b"
    using inv cap written zero length_memcpy [OF d] length_memcpy [OF d'] w
    by (auto simp: builder_inv_def sum)
  moreover have "builder_text ?b = builder_text b @ xs"
    using written by (simp add: builder_text_def sum comp_def)
  ultimately show ?thesis
    unfolding push by simp
qed

text \<open>When the allocator grants the request, a text below a quarter of the address space grows.\<close>

lemma length_builder_text: "builder_inv b \<Longrightarrow> length (builder_text b) = unat (tb_length b)"
  by (auto simp: builder_inv_def builder_text_def word_less_nat_alt split: if_splits)

lemma text_builder_append_granted:
  assumes inv: "builder_inv b" and "length (builder_text b) < 2 ^ 62" "length xs = unat n" "unat n < 2 ^ 62"
  shows "\<exists>b'. text_builder_append True b (Some xs) n = Done b' \<and> builder_inv b'
    \<and> builder_text b' = builder_text b @ xs"
proof -
  have "unat (tb_length b) + unat n + 1 < 2 ^ 63"
    using assms length_builder_text [OF inv] by simp
  then have needed: "unat (tb_length b + n + 1) < 2 ^ 63"
    by (simp add: unat_word_ariths)
  have "text_builder_reserve True b (tb_length b + n + 1) \<noteq> None"
    using needed double_until_NoneD [of "if tb_capacity b = 0 then 64 else tb_capacity b" "tb_length b + n + 1"]
    by (auto simp: text_builder_reserve_def c_realloc_def split: option.splits if_splits)
  then have "text_builder_append True b (Some xs) n \<noteq> Refused"
    by (auto simp: text_builder_append_def split: option.splits)
  moreover have "unat n < 2 ^ 63 - 1"
    using assms(4) by simp
  ultimately show ?thesis
    using text_builder_append_step [OF inv refl assms(3), of True]
    by (cases "text_builder_append True b (Some xs) n") auto
qed

section \<open>The interface of a growable sequence\<close>

text \<open>
  What the clients of both containers rely on: a push never writes outside the block, either
  refuses or appends exactly one element, and keeps the invariant.
\<close>

fun push_all :: "(bool \<Rightarrow> 's \<Rightarrow> 'e \<Rightarrow> 's outcome) \<Rightarrow> (bool \<times> 'e) list \<Rightarrow> 's \<Rightarrow> 's outcome" where
  "push_all push [] s = Done s"
| "push_all push ((g, e) # es) s =
     (case push g s e of Done s' \<Rightarrow> push_all push es s' | Refused \<Rightarrow> Refused | Overrun \<Rightarrow> Overrun)"

locale growable =
  fixes inv :: "'s \<Rightarrow> bool"
    and fits :: "'s \<Rightarrow> 'e \<Rightarrow> bool"
    and contents :: "'s \<Rightarrow> 'e list"
    and push :: "bool \<Rightarrow> 's \<Rightarrow> 'e \<Rightarrow> 's outcome"
  assumes push_safe: "inv s \<Longrightarrow> fits s e \<Longrightarrow> push g s e \<noteq> Overrun"
    and push_inv: "inv s \<Longrightarrow> fits s e \<Longrightarrow> push g s e = Done s' \<Longrightarrow> inv s'"
    and push_fits: "inv s \<Longrightarrow> fits s e \<Longrightarrow> push g s e = Done s' \<Longrightarrow> fits s' = fits s"
    and push_contents: "inv s \<Longrightarrow> fits s e \<Longrightarrow> push g s e = Done s' \<Longrightarrow> contents s' = contents s @ [e]"
begin

lemma push_all_safe:
  "inv s \<Longrightarrow> \<forall>(g, e) \<in> set es. fits s e \<Longrightarrow>
     push_all push es s \<noteq> Overrun
     \<and> (\<forall>s'. push_all push es s = Done s' \<longrightarrow> inv s' \<and> contents s' = contents s @ map snd es)"
proof (induction es arbitrary: s)
  case (Cons ge es)
  obtain g e where ge: "ge = (g, e)" by (cases ge)
  have fit: "fits s e"
    using Cons.prems ge by auto
  show ?case
  proof (cases "push g s e")
    case (Done t)
    then have t: "inv t" "fits t = fits s" "contents t = contents s @ [e]"
      using push_inv push_fits push_contents Cons.prems(1) fit by blast+
    with Cons.IH [of t] Cons.prems ge Done show ?thesis
      by auto
  next
    case Overrun
    with push_safe Cons.prems(1) fit show ?thesis
      by blast
  qed (simp add: ge)
qed simp

lemma push_all_length:
  "inv s \<Longrightarrow> \<forall>(g, e) \<in> set es. fits s e \<Longrightarrow> push_all push es s = Done s' \<Longrightarrow>
     length (contents s') = length (contents s) + length es"
  using push_all_safe [of s es] by simp

end

definition vector_push_element :: "bool \<Rightarrow> vector \<Rightarrow> bytes \<Rightarrow> vector outcome" where
  "vector_push_element g v e =
     (case vector_push g v (Some e) of
        Done (v', _) \<Rightarrow> Done v' | Refused \<Rightarrow> Refused | Overrun \<Rightarrow> Overrun)"

interpretation vec: growable vector_inv "\<lambda>v e. length e = unat (vec_element_size v)"
    vector_elements vector_push_element
proof (standard, goal_cases)
  case (1 s e g)
  then show ?case
    using vector_push_step [of s e g]
    by (cases "vector_push g s (Some e)") (auto simp: vector_push_element_def)
next
  case (2 s e g s')
  then show ?case
    using vector_push_step [of s e g]
    by (cases "vector_push g s (Some e)") (auto simp: vector_push_element_def)
next
  case (3 s e g s')
  then show ?case
    using vector_push_step [of s e g]
    by (cases "vector_push g s (Some e)") (auto simp: vector_push_element_def)
next
  case (4 s e g s')
  then show ?case
    using vector_push_step [of s e g]
    by (cases "vector_push g s (Some e)") (auto simp: vector_push_element_def)
qed

lemma text_builder_append_byte_step:
  assumes "builder_inv b"
  shows "text_builder_append_byte granted b x \<noteq> Overrun
    \<and> (\<forall>b'. text_builder_append_byte granted b x = Done b' \<longrightarrow>
         builder_inv b' \<and> builder_text b' = builder_text b @ [x])"
  unfolding text_builder_append_byte_def
  by (rule text_builder_append_step [OF assms]) simp_all

interpretation tb: growable builder_inv "\<lambda>_ _. True" builder_text text_builder_append_byte
  by standard (simp_all add: text_builder_append_byte_step)

section \<open>Properties\<close>

text \<open>
  Pushing any sequence of elements of the vector's element size onto a fresh vector, whatever
  the allocator answers, never writes outside the block it owns; when every push succeeds the
  vector holds exactly those elements in order.
\<close>

theorem vector_push_sequence:
  assumes "es \<noteq> 0" "\<forall>(g, e) \<in> set elements. length e = unat es"
  shows "push_all vector_push_element elements (vector_init es) \<noteq> Overrun
    \<and> (\<forall>v. push_all vector_push_element elements (vector_init es) = Done v \<longrightarrow>
         vector_inv v \<and> vector_elements v = map snd elements)"
  using vec.push_all_safe [of "vector_init es" elements] vector_init_inv [OF assms(1)] assms(2)
  by (simp add: vector_init_def)

theorem vector_push_sequence_witness:
  "\<exists>v. push_all vector_push_element [(True, [1, 2]), (False, [3, 4])] (vector_init 2) = Done v
     \<and> vector_inv v \<and> vector_elements v = [[1, 2], [3, 4]]"
proof -
  have "case push_all vector_push_element [(True, [1, 2]), (False, [3, 4])] (vector_init 2) of
      Done v \<Rightarrow> True | _ \<Rightarrow> False"
    by code_simp
  then obtain v where "push_all vector_push_element [(True, [1, 2]), (False, [3, 4])] (vector_init 2) = Done v"
    by (auto split: outcome.splits)
  then show ?thesis
    using vector_push_sequence [of 2 "[(True, [1, 2]), (False, [3, 4])]"] by auto
qed

text \<open>
  Appending bytes to a text builder in its invariant never writes outside its block, keeps the
  text zero-terminated inside the block, and appends exactly those bytes.
\<close>

theorem text_builder_append_text:
  assumes "builder_inv b" "length xs = unat n" "unat n < 2 ^ 63 - 1"
  shows "text_builder_append granted b (Some xs) n \<noteq> Overrun
    \<and> (\<forall>b'. text_builder_append granted b (Some xs) n = Done b' \<longrightarrow>
         builder_inv b' \<and> builder_text b' = builder_text b @ xs)"
  by (rule text_builder_append_step [OF assms(1) refl assms(2,3)])

theorem text_builder_append_text_witness:
  "text_builder_append True text_builder_init (Some [0x41, 0x42]) 2 \<noteq> Overrun"
  using text_builder_append_text [of text_builder_init "[0x41, 0x42]" 2 True] text_builder_init_inv
  by simp

text \<open>
  The growth policy of run-time vectors gives a capacity that covers the request and never
  shrinks, and it always succeeds: where doubling would overflow it falls back to the exact
  request.
\<close>

theorem memory_vector_growth:
  "\<exists>c. memory_vector_grow_capacity current required = Some c \<and> required \<le> c \<and> current \<le> c
     \<and> (c = current \<or> current < required)"
proof (cases "memory_vector_grow_capacity current required")
  case None
  then show ?thesis
    by (auto simp: memory_vector_grow_capacity_def Let_def not_le dest: double_until_SomeD
        split: if_splits option.splits)
next
  case (Some c)
  then show ?thesis
    using memory_vector_grow_capacity_enough [OF Some]
    by (auto simp: memory_vector_grow_capacity_def word_gt_0 split: if_splits)
qed

end
