(* ===== verification/Arena.thy ===== *)
theory Arena
  imports Containers
begin

unbundle bit_operations_syntax

text \<open>
  Arena allocation: \<open>bootstrap/src/support/memory/alignment.c\<close> and \<open>arena.c\<close>. The chain of
  blocks from \<open>__First__\<close> along \<open>__Next__\<close> is a list, the current block is its last element, and
  a pointer into the arena is the number of a block with an offset into its data. As in
  \<open>Containers\<close>, \<open>granted\<close> is the answer of the one \<open>malloc\<close> an operation may do.
\<close>

section \<open>Alignment\<close>

definition align_up :: "size_t \<Rightarrow> size_t \<Rightarrow> size_t" where
  "align_up value alignment = (let m = alignment - 1 in (value + m) AND NOT m)"

lemma and_pred_power2: "n AND (n - 1) = 0 \<Longrightarrow> 0 < n \<Longrightarrow> \<exists>k. n = 2 ^ k" for n :: nat
proof (induction n rule: less_induct)
  case (less n)
  have split: "n AND (n - 1) = of_bool (odd n \<and> odd (n - 1)) + 2 * ((n div 2) AND ((n - 1) div 2))"
    by (rule and_rec)
  show ?case
  proof (cases "even n")
    case True
    then obtain m where m: "n = 2 * m" ..
    have half: "(2 * m - Suc 0) div 2 = m - Suc 0"
      by (cases m) simp_all
    have "m AND (m - 1) = 0" "0 < m" "m < n"
      using split less.prems by (auto simp: m half)
    with less.IH obtain k where "m = 2 ^ k"
      by blast
    then have "n = 2 ^ Suc k"
      by (simp add: m)
    then show ?thesis ..
  next
    case False
    then have "(n - 1) div 2 = n div 2"
      by (auto elim: oddE)
    with split less.prems False have "n div 2 = 0"
      by simp
    with False have "n = 2 ^ 0"
      by (auto elim: oddE)
    then show ?thesis ..
  qed
qed

lemma alignment_power2:
  fixes a :: size_t
  assumes "a \<noteq> 0" "a AND (a - 1) = 0"
  obtains k where "unat a = 2 ^ k" "k < 64" "a - 1 = mask k"
proof -
  have pos: "0 < unat a"
    using assms(1) by (simp add: unat_gt_0)
  then have "1 \<le> a"
    by (simp add: word_le_nat_alt)
  then have "unat (a - 1) = unat a - 1"
    by (simp add: unat_sub)
  then have "unat a AND (unat a - 1) = 0"
    using arg_cong [OF assms(2), of unat] by (simp add: unsigned_and_eq)
  then obtain k where k: "unat a = 2 ^ k"
    using and_pred_power2 [OF _ pos] by blast
  then have "(2::nat) ^ k < 2 ^ 64"
    using unat_u64_less [of a] by simp
  then have "k < 64"
    by (rule power_less_imp_less_exp [rotated]) simp
  moreover have "a = 2 ^ k"
    using k \<open>k < 64\<close> by (metis of_nat_numeral of_nat_power of_nat_unat ucast_id)
  ultimately show ?thesis
    using that [of k] k by (simp add: mask_eq_exp_minus_1)
qed

text \<open>Rounding up to a multiple, over the numbers.\<close>

definition round_up :: "nat \<Rightarrow> nat \<Rightarrow> nat" where
  "round_up v a = (v + a - 1) div a * a"

lemma round_up_props:
  assumes "0 < a"
  shows "a dvd round_up v a" "v \<le> round_up v a" "round_up v a < v + a"
proof -
  show "a dvd round_up v a"
    by (simp add: round_up_def)
  have "round_up v a + (v + a - 1) mod a = v + a - 1"
    by (simp add: round_up_def)
  moreover have "(v + a - 1) mod a < a"
    using assms by simp
  ultimately show "v \<le> round_up v a" "round_up v a < v + a"
    using assms by linarith+
qed

lemma unat_align_up:
  fixes v a :: size_t
  assumes "a \<noteq> 0" "a AND (a - 1) = 0" "unat v + unat a \<le> 2 ^ 64"
  shows "unat (align_up v a) = round_up (unat v) (unat a)"
proof -
  from assms(1,2) obtain k where k: "unat a = 2 ^ k" "k < 64" "a - 1 = mask k"
    by (rule alignment_power2)
  have pos: "1 \<le> unat a"
    using k(1) by simp
  have "1 \<le> a"
    using pos by (simp add: word_le_nat_alt)
  then have m: "unat (a - 1) = unat a - 1"
    by (simp add: unat_sub)
  have sum: "unat (v + (a - 1)) = unat v + unat a - 1"
    using assms(3) pos by (subst unat_add_u64) (simp_all add: m)
  have "(v + (a - 1)) AND NOT (mask k) = push_bit k (drop_bit k (v + (a - 1)))"
    by (rule bit_eqI) (auto simp: bit_simps)
  moreover have "unat (push_bit k (drop_bit k (v + (a - 1)))) = (unat v + unat a - 1) div 2 ^ k * 2 ^ k"
  proof -
    have "(unat v + unat a - 1) div 2 ^ k * 2 ^ k \<le> unat v + unat a - 1"
      by simp
    then have "(unat v + unat a - 1) div 2 ^ k * 2 ^ k < 2 ^ 64"
      using assms(3) pos by linarith
    then show ?thesis
      by (simp only: unsigned_push_bit_eq unat_drop_bit_eq drop_bit_nat_def push_bit_nat_def sum)
        (simp add: take_bit_nat_eq_self)
  qed
  ultimately show ?thesis
    by (simp add: align_up_def Let_def k round_up_def)
qed

section \<open>The arena\<close>

record arena_block =
  ab_used :: size_t
  ab_capacity :: size_t
  ab_data :: cells

record arena =
  arena_blocks :: "arena_block list"
  arena_default_block_size :: size_t

type_synonym arena_pointer = "nat \<times> size_t"

text \<open>
  The header of a block is three 8-byte words. The request to \<open>malloc\<close> is computed in
  \<open>size_t\<close>; the data of the block is what remains of it behind the header.
\<close>

definition arena_block_header :: size_t where
  "arena_block_header = 24"

definition arena_new_block :: "bool \<Rightarrow> size_t \<Rightarrow> arena_block option" where
  "arena_new_block granted capacity =
     (if granted
      then Some \<lparr>ab_used = 0, ab_capacity = capacity,
                 ab_data = replicate (unat (arena_block_header + capacity) - unat arena_block_header) None\<rparr>
      else None)"

definition arena_init :: "size_t \<Rightarrow> arena" where
  "arena_init default_block_size =
     \<lparr>arena_blocks = [],
      arena_default_block_size = (if default_block_size < 1024 then 1024 else default_block_size)\<rparr>"

definition arena_allocate :: "bool \<Rightarrow> arena \<Rightarrow> size_t \<Rightarrow> size_t \<Rightarrow> (arena \<times> arena_pointer) option" where
  "arena_allocate granted a sz alignment =
     (if sz = 0 then None
      else if alignment = 0 \<or> alignment AND (alignment - 1) \<noteq> 0 then None
      else
        (let blocks = arena_blocks a;
             offset = (if blocks \<noteq> [] then align_up (ab_used (last blocks)) alignment else 0)
         in if blocks = [] \<or> offset + sz > ab_capacity (last blocks) then
              (let capacity =
                 (if arena_default_block_size a < sz + alignment then sz + alignment
                  else arena_default_block_size a)
               in (case arena_new_block granted capacity of
                     None \<Rightarrow> None
                   | Some block \<Rightarrow>
                       (let start = align_up 0 alignment
                        in Some (a\<lparr>arena_blocks := blocks @ [block\<lparr>ab_used := start + sz\<rparr>]\<rparr>,
                                 (length blocks, start)))))
            else
              Some (a\<lparr>arena_blocks :=
                         butlast blocks @ [(last blocks)\<lparr>ab_used := offset + sz\<rparr>]\<rparr>,
                    (length blocks - 1, offset))))"

definition arena_write :: "arena \<Rightarrow> arena_pointer \<Rightarrow> bytes \<Rightarrow> arena option" where
  "arena_write a p xs =
     (let block = arena_blocks a ! fst p
      in (case c_memcpy (ab_data block) (unat (snd p)) xs of
            None \<Rightarrow> None
          | Some d \<Rightarrow>
              Some (a\<lparr>arena_blocks := (arena_blocks a)[fst p := block\<lparr>ab_data := d\<rparr>]\<rparr>)))"

text \<open>The copy of a text with its terminating zero; the text is given with its length.\<close>

definition arena_copy_text :: "bool \<Rightarrow> arena \<Rightarrow> bytes \<Rightarrow> size_t \<Rightarrow> (arena \<times> arena_pointer) outcome" where
  "arena_copy_text granted a xs n =
     (case arena_allocate granted a (n + 1) 1 of
        None \<Rightarrow> Refused
      | Some (a', p) \<Rightarrow>
          (case (if n \<noteq> 0 then arena_write a' p (take (unat n) xs) else Some a') of
             None \<Rightarrow> Overrun
           | Some b \<Rightarrow>
               (case arena_write b (fst p, snd p + n) [0] of
                  None \<Rightarrow> Overrun
                | Some c \<Rightarrow> Done (c, p))))"

definition arena_destroy :: "arena \<Rightarrow> arena" where
  "arena_destroy a = a\<lparr>arena_blocks := []\<rparr>"

section \<open>The invariant and the regions handed out\<close>

text \<open>
  The operations compute in \<open>size_t\<close> without overflow checks. The invariant carries the bounds
  that keep the sums exact: every block is smaller than half the address space. Requests are
  bounded the same way.
\<close>

definition block_inv :: "arena_block \<Rightarrow> bool" where
  "block_inv b \<longleftrightarrow>
     ab_used b \<le> ab_capacity b \<and> unat (ab_capacity b) < 2 ^ 63
     \<and> length (ab_data b) = unat (ab_capacity b)"

definition arena_inv :: "arena \<Rightarrow> bool" where
  "arena_inv a \<longleftrightarrow>
     unat (arena_default_block_size a) < 2 ^ 63 \<and> (\<forall>b \<in> set (arena_blocks a). block_inv b)"

definition arena_request :: "size_t \<Rightarrow> size_t \<Rightarrow> bool" where
  "arena_request sz alignment \<longleftrightarrow> unat sz < 2 ^ 62 \<and> unat alignment \<le> 2 ^ 61"

text \<open>A region is a block number, an offset and a length; the arena owns what lies below \<open>used\<close>.\<close>

type_synonym region = "nat \<times> nat \<times> nat"

definition arena_owns :: "arena \<Rightarrow> region \<Rightarrow> bool" where
  "arena_owns a r \<longleftrightarrow>
     (case r of (i, off, n) \<Rightarrow>
        i < length (arena_blocks a) \<and> off + n \<le> unat (ab_used (arena_blocks a ! i)))"

definition region_disjoint :: "region \<Rightarrow> region \<Rightarrow> bool" where
  "region_disjoint r s \<longleftrightarrow>
     (case (r, s) of ((i, off, n), (j, off', n')) \<Rightarrow> i \<noteq> j \<or> off + n \<le> off' \<or> off' + n' \<le> off)"

definition arena_region :: "arena_pointer \<Rightarrow> nat \<Rightarrow> region" where
  "arena_region p n = (fst p, unat (snd p), n)"

definition arena_read :: "arena \<Rightarrow> region \<Rightarrow> cells" where
  "arena_read a r =
     (case r of (i, off, n) \<Rightarrow> take n (drop off (ab_data (arena_blocks a ! i))))"

lemma arena_init_inv: "unat n < 2 ^ 63 \<Longrightarrow> arena_inv (arena_init n)"
  by (simp add: arena_inv_def arena_init_def)

text \<open>
  What one allocation does: the new region lies in its block, is aligned, is disjoint from every
  region owned before, and neither the old regions nor their contents change.
\<close>

lemma arena_allocate_cases:
  assumes inv: "arena_inv a" and req: "arena_request sz alignment"
    and alloc: "arena_allocate granted a sz alignment = Some (a', p)"
  obtains (extend) blk where
      "arena_blocks a \<noteq> []" "blk = last (arena_blocks a)" "fst p = length (arena_blocks a) - 1"
      "unat (snd p) = round_up (unat (ab_used blk)) (unat alignment)"
      "unat (snd p) + unat sz \<le> unat (ab_capacity blk)"
      "unat (snd p + sz) = unat (snd p) + unat sz"
      "a' = a\<lparr>arena_blocks := butlast (arena_blocks a) @ [blk\<lparr>ab_used := snd p + sz\<rparr>]\<rparr>"
  | (fresh) c where
      "fst p = length (arena_blocks a)" "snd p = 0" "sz \<le> c" "unat c < 2 ^ 63"
      "a' = a\<lparr>arena_blocks := arena_blocks a
              @ [\<lparr>ab_used = sz, ab_capacity = c, ab_data = replicate (unat c) None\<rparr>]\<rparr>"
proof -
  let ?bs = "arena_blocks a"
  have ok: "alignment \<noteq> 0" "alignment AND (alignment - 1) = 0" "sz \<noteq> 0"
    using alloc by (auto simp: arena_allocate_def split: if_splits)
  let ?off = "if ?bs \<noteq> [] then align_up (ab_used (last ?bs)) alignment else 0"
  show ?thesis
  proof (cases "?bs = [] \<or> ?off + sz > ab_capacity (last ?bs)")
    case True
    let ?c = "if arena_default_block_size a < sz + alignment then sz + alignment
      else arena_default_block_size a"
    have sum: "unat (sz + alignment) = unat sz + unat alignment"
      using req by (intro unat_add_u64) (simp add: arena_request_def)
    have c: "sz \<le> ?c" "unat ?c < 2 ^ 63"
      using sum req inv by (auto simp: arena_request_def arena_inv_def word_le_nat_alt word_less_nat_alt)
    have "unat (align_up 0 alignment) = round_up 0 (unat alignment)"
      using unat_align_up [OF ok(1,2), of 0] req by (simp add: arena_request_def)
    moreover have "round_up 0 (unat alignment) = 0"
      using ok(1) by (simp add: round_up_def unat_gt_0)
    ultimately have start: "align_up 0 alignment = 0"
      by (simp add: unat_eq_zero)
    have "unat (arena_block_header + ?c) - unat arena_block_header = unat ?c"
      using c(2) by (subst unat_add_u64) (simp_all add: arena_block_header_def)
    then show ?thesis
      using alloc ok True c start
      by (intro fresh [of ?c]) (auto simp: arena_allocate_def arena_new_block_def Let_def split: if_splits)
  next
    case False
    then have "block_inv (last ?bs)"
      using inv by (simp add: arena_inv_def)
    then have blk: "unat (ab_used (last ?bs)) < 2 ^ 63"
      by (auto simp: block_inv_def word_le_nat_alt)
    have off: "unat ?off = round_up (unat (ab_used (last ?bs))) (unat alignment)"
      using unat_align_up [OF ok(1,2), of "ab_used (last ?bs)"] req blk False
      by (simp add: arena_request_def)
    have "unat ?off < unat (ab_used (last ?bs)) + unat alignment"
      unfolding off using ok(1) by (intro round_up_props(3)) (simp add: unat_gt_0)
    then have sum: "unat (?off + sz) = unat ?off + unat sz"
      using blk req by (intro unat_add_u64) (simp add: arena_request_def)
    with False have room: "unat ?off + unat sz \<le> unat (ab_capacity (last ?bs))"
      by (auto simp: word_less_nat_alt not_less)
    show ?thesis
      using alloc ok False off sum room
      by (intro extend [of "last ?bs"]) (auto simp: arena_allocate_def Let_def)
  qed
qed

lemma nth_butlast_snoc:
  assumes "xs \<noteq> []" "i < length xs"
  shows "(butlast xs @ [x]) ! i = (if i = length xs - 1 then x else xs ! i)"
proof (cases "i = length xs - 1")
  case True
  then show ?thesis
    using nth_append_length [of "butlast xs" x "[]"] by simp
next
  case False
  with assms have "i < length (butlast xs)"
    by simp
  with False show ?thesis
    by (simp add: nth_append nth_butlast)
qed

lemma arena_allocate_step:
  assumes inv: "arena_inv a" and req: "arena_request sz alignment"
    and alloc: "arena_allocate granted a sz alignment = Some (a', p)"
  shows "arena_inv a'
    \<and> arena_owns a' (arena_region p (unat sz))
    \<and> unat alignment dvd unat (snd p)
    \<and> (\<forall>r. arena_owns a r \<longrightarrow> region_disjoint r (arena_region p (unat sz))
          \<and> arena_owns a' r \<and> arena_read a' r = arena_read a r)"
  using inv req alloc
proof (cases rule: arena_allocate_cases)
  case (extend blk)
  let ?bs = "arena_blocks a"
  have al: "0 < unat alignment"
    using alloc by (auto simp: arena_allocate_def unat_gt_0 split: if_splits)
  have old: "block_inv blk"
    using inv extend(1,2) by (simp add: arena_inv_def)
  have used: "unat (ab_used blk) \<le> unat (snd p)"
    unfolding extend(4) by (rule round_up_props(2) [OF al])
  have used': "unat (ab_used blk) \<le> unat (snd p) + unat sz"
    using used by simp
  have nths: "arena_blocks a' ! i =
      (if i = length ?bs - 1 then blk\<lparr>ab_used := snd p + sz\<rparr> else ?bs ! i)" if "i < length ?bs" for i
    using that extend(1) by (simp add: extend(7) nth_butlast_snoc)
  have last: "?bs ! (length ?bs - 1) = blk"
    unfolding extend(2) by (rule last_conv_nth [symmetric, OF extend(1)])
  have len: "length (arena_blocks a') = length ?bs"
    using extend(1) by (simp add: extend(7))
  have "block_inv (blk\<lparr>ab_used := snd p + sz\<rparr>)"
    using old extend(5,6) by (auto simp: block_inv_def word_le_nat_alt)
  then have "arena_inv a'"
    using inv extend(1) by (auto simp: arena_inv_def extend(7) dest: in_set_butlastD)
  moreover have "arena_owns a' (arena_region p (unat sz))"
    using extend(1,3,6) by (simp add: arena_owns_def arena_region_def len nths)
  moreover have "unat alignment dvd unat (snd p)"
    unfolding extend(4) by (rule round_up_props(1) [OF al])
  moreover have "region_disjoint r (arena_region p (unat sz))
      \<and> arena_owns a' r \<and> arena_read a' r = arena_read a r" if "arena_owns a r" for r
  proof -
    obtain i off n where r: "r = (i, off, n)" by (cases r)
    have i: "i < length ?bs" "off + n \<le> unat (ab_used (?bs ! i))"
      using that by (auto simp: r arena_owns_def)
    then show ?thesis
      using used used' last extend(3,6)
      by (auto simp: r region_disjoint_def arena_region_def arena_owns_def arena_read_def len nths)
  qed
  ultimately show ?thesis by blast
next
  case (fresh c)
  let ?bs = "arena_blocks a"
  have nths: "arena_blocks a' ! i = ?bs ! i" if "i < length ?bs" for i
    using that by (simp add: fresh(5) nth_append)
  have "arena_inv a'"
    using inv fresh(3,4) by (auto simp: arena_inv_def fresh(5) block_inv_def)
  moreover have "arena_owns a' (arena_region p (unat sz))"
    using fresh(1,2) by (simp add: arena_owns_def arena_region_def fresh(5))
  moreover have "region_disjoint r (arena_region p (unat sz))
      \<and> arena_owns a' r \<and> arena_read a' r = arena_read a r" if "arena_owns a r" for r
    using that fresh(1) nths
    by (auto simp: arena_owns_def region_disjoint_def arena_region_def arena_read_def fresh(5))
  ultimately show ?thesis
    by (simp add: fresh(2))
qed

lemma arena_write_step:
  assumes inv: "arena_inv a" and owns: "arena_owns a (fst p, unat (snd p), length xs)"
  obtains a' where "arena_write a p xs = Some a'" "arena_inv a'" "arena_owns a' = arena_owns a"
    "arena_read a' (fst p, unat (snd p), length xs) = map Some xs"
    "\<And>r. region_disjoint r (fst p, unat (snd p), length xs) \<Longrightarrow> arena_owns a r \<Longrightarrow>
       arena_read a' r = arena_read a r"
proof -
  let ?i = "fst p" and ?o = "unat (snd p)" and ?b = "arena_blocks a ! fst p"
  have i: "?i < length (arena_blocks a)" "?o + length xs \<le> unat (ab_used ?b)"
    using owns by (auto simp: arena_owns_def)
  then have b: "block_inv ?b"
    using inv by (simp add: arena_inv_def)
  then have "?o + length xs \<le> length (ab_data ?b)"
    using i(2) by (auto simp: block_inv_def word_le_nat_alt)
  then obtain d where d: "c_memcpy (ab_data ?b) ?o xs = Some d"
    by (auto simp: c_memcpy_def)
  let ?a = "a\<lparr>arena_blocks := (arena_blocks a)[?i := ?b\<lparr>ab_data := d\<rparr>]\<rparr>"
  show ?thesis
  proof (rule that [of ?a])
    show "arena_write a p xs = Some ?a"
      by (simp add: arena_write_def Let_def d)
    have "block_inv (?b\<lparr>ab_data := d\<rparr>)"
      using b length_memcpy [OF d] by (simp add: block_inv_def)
    then show "arena_inv ?a"
      using inv by (auto simp: arena_inv_def dest!: set_update_subset_insert [THEN subsetD])
    show "arena_owns ?a = arena_owns a"
      using i(1) by (auto simp: fun_eq_iff arena_owns_def nth_list_update split: if_splits)
    show "arena_read ?a (?i, ?o, length xs) = map Some xs"
      using memcpy_read [OF d] i(1) by (simp add: arena_read_def)
    show "arena_read ?a r = arena_read a r"
      if "region_disjoint r (?i, ?o, length xs)" "arena_owns a r" for r
    proof -
      obtain j off n where r: "r = (j, off, n)" by (cases r)
      have "j \<noteq> ?i \<or> off + n \<le> ?o \<or> ?o + length xs \<le> off"
        using that(1) by (simp add: r region_disjoint_def)
      then show ?thesis
        using i(1) memcpy_before [OF d, of off n] memcpy_after [OF d, of off n]
        by (auto simp: r arena_read_def nth_list_update)
    qed
  qed
qed

lemma arena_owns_part:
  "arena_owns a (i, off, n) \<Longrightarrow> off \<le> off' \<Longrightarrow> off' + n' \<le> off + n \<Longrightarrow> arena_owns a (i, off', n')"
  by (simp add: arena_owns_def)

lemma region_disjoint_part:
  "region_disjoint r (i, off, n) \<Longrightarrow> off \<le> off' \<Longrightarrow> off' + n' \<le> off + n \<Longrightarrow>
     region_disjoint r (i, off', n')"
  by (auto simp: region_disjoint_def)

lemma arena_read_append: "arena_read a (i, off, n + m) = arena_read a (i, off, n) @ arena_read a (i, off + n, m)"
  by (simp add: arena_read_def take_add) (simp add: add.commute)

text \<open>Copying a text: the region behind the pointer holds it with its terminating zero.\<close>

lemma arena_copy_text_step:
  assumes inv: "arena_inv a" and len: "length xs = unat n" "unat n < 2 ^ 62 - 1"
  shows "arena_copy_text granted a xs n \<noteq> Overrun
    \<and> (\<forall>a' p. arena_copy_text granted a xs n = Done (a', p) \<longrightarrow>
         arena_inv a' \<and> arena_owns a' (arena_region p (length xs + 1))
         \<and> arena_read a' (arena_region p (length xs + 1)) = map Some (xs @ [0])
         \<and> (\<forall>r. arena_owns a r \<longrightarrow> arena_owns a' r \<and> arena_read a' r = arena_read a r))"
proof (cases "arena_allocate granted a (n + 1) 1")
  case None
  then show ?thesis
    by (simp add: arena_copy_text_def)
next
  case (Some bp)
  then obtain b p where alloc: "arena_allocate granted a (n + 1) 1 = Some (b, p)"
    by (cases bp) auto
  have n1: "unat (n + 1) = unat n + 1"
    using len by (simp add: unat_add_u64)
  have req: "arena_request (n + 1) 1"
    using len n1 by (simp add: arena_request_def)
  note step = arena_allocate_step [OF inv req alloc, unfolded n1]
  let ?R = "(fst p, unat (snd p), unat n + 1)"
  have b: "arena_inv b" "arena_owns b ?R"
    using step by (auto simp: arena_region_def)
  have old: "region_disjoint r ?R \<and> arena_owns b r \<and> arena_read b r = arena_read a r"
    if "arena_owns a r" for r
    using step [unfolded arena_region_def] that by blast
  have text_part: "arena_owns b (fst p, unat (snd p), length xs)"
    by (rule arena_owns_part [OF b(2)]) (simp_all add: len)
  obtain c where c: "(if n \<noteq> 0 then arena_write b p (take (unat n) xs) else Some b) = Some c"
      "arena_inv c" "arena_owns c = arena_owns b"
      "arena_read c (fst p, unat (snd p), length xs) = map Some xs"
      "\<And>r. region_disjoint r (fst p, unat (snd p), length xs) \<Longrightarrow> arena_owns b r \<Longrightarrow>
         arena_read c r = arena_read b r"
  proof (cases "n = 0")
    case True
    then show ?thesis
      using that [of b] b len by (simp add: arena_read_def)
  next
    case False
    obtain c where "arena_write b p xs = Some c" "arena_inv c" "arena_owns c = arena_owns b"
        "arena_read c (fst p, unat (snd p), length xs) = map Some xs"
        "\<And>r. region_disjoint r (fst p, unat (snd p), length xs) \<Longrightarrow> arena_owns b r \<Longrightarrow>
           arena_read c r = arena_read b r"
      using arena_write_step [OF b(1) text_part] by blast
    with False show ?thesis
      using that [of c] len by simp
  qed
  have "unat (snd p) + unat n < 2 ^ 64"
  proof -
    have "unat (snd p) + unat n + 1 \<le> unat (ab_used (arena_blocks b ! fst p))"
      using b(2) by (simp add: arena_owns_def)
    then show ?thesis
      using unat_u64_less [of "ab_used (arena_blocks b ! fst p)"] by simp
  qed
  then have off: "unat (snd p + n) = unat (snd p) + unat n"
    by (simp add: unat_add_u64)
  let ?q = "(fst p, snd p + n)"
  have zero_part: "arena_owns c (fst ?q, unat (snd ?q), length [0::u8])"
    unfolding c(3) by (simp add: off) (rule arena_owns_part [OF b(2)], simp_all)
  obtain d where d: "arena_write c ?q [0] = Some d" "arena_inv d" "arena_owns d = arena_owns c"
      "arena_read d (fst p, unat (snd p) + unat n, 1) = [Some 0]"
      "\<And>r. region_disjoint r (fst p, unat (snd p) + unat n, 1) \<Longrightarrow> arena_owns c r \<Longrightarrow>
         arena_read d r = arena_read c r"
    using arena_write_step [OF c(2) zero_part] by (auto simp: off)
  have copy: "arena_copy_text granted a xs n = Done (d, p)"
    using alloc c(1) d(1) by (simp add: arena_copy_text_def)
  have "arena_read d (fst p, unat (snd p), length xs) = map Some xs"
    using d(5) [of "(fst p, unat (snd p), length xs)"] text_part c(3,4) len
    by (simp add: region_disjoint_def)
  then have reads: "arena_read d ?R = map Some (xs @ [0])"
    using d(4) by (simp add: arena_read_append len del: One_nat_def)
  have "arena_owns d r \<and> arena_read d r = arena_read a r" if "arena_owns a r" for r
  proof -
    have r: "region_disjoint r ?R" "arena_owns b r" "arena_read b r = arena_read a r"
      using old [OF that] by auto
    have "arena_read c r = arena_read b r"
      by (rule c(5) [OF region_disjoint_part [OF r(1)] r(2)]) (simp_all add: len)
    moreover have "arena_read d r = arena_read c r"
      by (rule d(5) [OF region_disjoint_part [OF r(1)]]) (simp_all add: c(3) r(2))
    ultimately show ?thesis
      by (simp add: d(3) c(3) r)
  qed
  then show ?thesis
    unfolding copy using d(2,3) c(3) b(2) reads len by (auto simp: arena_region_def)
qed

lemma arena_copy_text_granted:
  assumes "arena_inv a" "length xs = unat n" "unat n < 2 ^ 62 - 1"
  shows "\<exists>a' p. arena_copy_text True a xs n = Done (a', p) \<and> arena_inv a'"
proof -
  have "unat (n + 1) = unat n + 1"
    using assms(3) by (simp add: unat_add_u64)
  then have "n + 1 \<noteq> 0"
    by (metis add_is_0 unat_0 zero_neq_one)
  then have "arena_allocate True a (n + 1) 1 \<noteq> None"
    by (simp add: arena_allocate_def arena_new_block_def Let_def)
  then have "arena_copy_text True a xs n \<noteq> Refused"
    by (auto simp: arena_copy_text_def split: option.splits)
  with arena_copy_text_step [OF assms, of True] show ?thesis
    by (cases "arena_copy_text True a xs n") auto
qed

section \<open>The interfaces: an allocator of regions, and a store of texts\<close>

fun alloc_all :: "(bool \<Rightarrow> 's \<Rightarrow> 'q \<Rightarrow> ('s \<times> region) option) \<Rightarrow> (bool \<times> 'q) list \<Rightarrow> 's
    \<Rightarrow> ('s \<times> region list) option" where
  "alloc_all alloc [] s = Some (s, [])"
| "alloc_all alloc ((g, q) # qs) s =
     (case alloc g s q of
        None \<Rightarrow> None
      | Some (s', r) \<Rightarrow> map_option (\<lambda>(t, rs). (t, r # rs)) (alloc_all alloc qs s'))"

locale region_allocator =
  fixes inv :: "'s \<Rightarrow> bool"
    and owns :: "'s \<Rightarrow> region \<Rightarrow> bool"
    and request :: "'q \<Rightarrow> bool"
    and alloc :: "bool \<Rightarrow> 's \<Rightarrow> 'q \<Rightarrow> ('s \<times> region) option"
  assumes alloc_inv: "inv s \<Longrightarrow> request q \<Longrightarrow> alloc g s q = Some (s', r) \<Longrightarrow> inv s'"
    and alloc_owned: "inv s \<Longrightarrow> request q \<Longrightarrow> alloc g s q = Some (s', r) \<Longrightarrow> owns s' r"
    and alloc_fresh: "inv s \<Longrightarrow> request q \<Longrightarrow> alloc g s q = Some (s', r) \<Longrightarrow> owns s t \<Longrightarrow>
      region_disjoint t r"
    and alloc_keeps: "inv s \<Longrightarrow> request q \<Longrightarrow> alloc g s q = Some (s', r) \<Longrightarrow> owns s t \<Longrightarrow> owns s' t"
begin

lemma alloc_all_regions:
  "inv s \<Longrightarrow> \<forall>(g, q) \<in> set qs. request q \<Longrightarrow> alloc_all alloc qs s = Some (s', rs) \<Longrightarrow>
     inv s' \<and> (\<forall>t. owns s t \<longrightarrow> owns s' t \<and> (\<forall>r \<in> set rs. region_disjoint t r))
     \<and> (\<forall>r \<in> set rs. owns s' r) \<and> sorted_wrt region_disjoint rs"
proof (induction qs arbitrary: s rs)
  case (Cons gq qs)
  obtain g q where gq: "gq = (g, q)" by (cases gq)
  have q: "request q"
    using Cons.prems(2) gq by auto
  obtain t r rs' where t: "alloc g s q = Some (t, r)" "alloc_all alloc qs t = Some (s', rs')"
      and rs: "rs = r # rs'"
    using Cons.prems(3) by (auto simp: gq split: option.splits)
  have IH: "inv s' \<and> (\<forall>u. owns t u \<longrightarrow> owns s' u \<and> (\<forall>r \<in> set rs'. region_disjoint u r))
      \<and> (\<forall>r \<in> set rs'. owns s' r) \<and> sorted_wrt region_disjoint rs'"
    using Cons.IH [of t rs'] Cons.prems(2) t(2) alloc_inv [OF Cons.prems(1) q t(1)] by simp
  moreover have "owns t r"
    using alloc_owned [OF Cons.prems(1) q t(1)] .
  moreover have "\<And>u. owns s u \<Longrightarrow> owns t u \<and> region_disjoint u r"
    using alloc_fresh [OF Cons.prems(1) q t(1)] alloc_keeps [OF Cons.prems(1) q t(1)] by blast
  ultimately show ?case
    by (auto simp: rs simp del: split_paired_All)
qed simp

end

fun store_all :: "(bool \<Rightarrow> 's \<Rightarrow> bytes \<Rightarrow> ('s \<times> region) outcome) \<Rightarrow> (bool \<times> bytes) list \<Rightarrow> 's
    \<Rightarrow> ('s \<times> region list) outcome" where
  "store_all store [] s = Done (s, [])"
| "store_all store ((g, t) # ts) s =
     (case store g s t of
        Refused \<Rightarrow> Refused | Overrun \<Rightarrow> Overrun
      | Done (s', r) \<Rightarrow>
          (case store_all store ts s' of
             Refused \<Rightarrow> Refused | Overrun \<Rightarrow> Overrun | Done (u, rs) \<Rightarrow> Done (u, r # rs)))"

locale text_store =
  fixes inv :: "'s \<Rightarrow> bool"
    and owns :: "'s \<Rightarrow> region \<Rightarrow> bool"
    and content :: "'s \<Rightarrow> region \<Rightarrow> cells"
    and fits :: "bytes \<Rightarrow> bool"
    and store :: "bool \<Rightarrow> 's \<Rightarrow> bytes \<Rightarrow> ('s \<times> region) outcome"
  assumes store_safe: "inv s \<Longrightarrow> fits t \<Longrightarrow> store g s t \<noteq> Overrun"
    and store_inv: "inv s \<Longrightarrow> fits t \<Longrightarrow> store g s t = Done (s', r) \<Longrightarrow> inv s'"
    and store_reads: "inv s \<Longrightarrow> fits t \<Longrightarrow> store g s t = Done (s', r) \<Longrightarrow>
      owns s' r \<and> content s' r = map Some (t @ [0])"
    and store_keeps: "inv s \<Longrightarrow> fits t \<Longrightarrow> store g s t = Done (s', r) \<Longrightarrow> owns s u \<Longrightarrow>
      owns s' u \<and> content s' u = content s u"
begin

lemma store_all_reads:
  "inv s \<Longrightarrow> \<forall>(g, t) \<in> set ts. fits t \<Longrightarrow>
     store_all store ts s \<noteq> Overrun
     \<and> (\<forall>s' rs. store_all store ts s = Done (s', rs) \<longrightarrow>
          inv s' \<and> map (content s') rs = map (\<lambda>(g, t). map Some (t @ [0])) ts
          \<and> (\<forall>u. owns s u \<longrightarrow> owns s' u \<and> content s' u = content s u))"
proof (induction ts arbitrary: s)
  case (Cons gt ts)
  obtain g t where gt: "gt = (g, t)" by (cases gt)
  have fit: "fits t"
    using Cons.prems(2) gt by auto
  show ?case
  proof (cases "store g s t")
    case (Done ur)
    then obtain u r where u: "store g s t = Done (u, r)"
      by (cases ur) auto
    have u': "inv u" "owns u r" "content u r = map Some (t @ [0])"
        "\<And>w. owns s w \<Longrightarrow> owns u w \<and> content u w = content s w"
      using store_inv [OF Cons.prems(1) fit u] store_reads [OF Cons.prems(1) fit u]
        store_keeps [OF Cons.prems(1) fit u] by auto
    have IH: "store_all store ts u \<noteq> Overrun
        \<and> (\<forall>s' rs. store_all store ts u = Done (s', rs) \<longrightarrow>
          inv s' \<and> map (content s') rs = map (\<lambda>(g, t). map Some (t @ [0])) ts
          \<and> (\<forall>w. owns u w \<longrightarrow> owns s' w \<and> content s' w = content u w))"
      by (rule Cons.IH [OF u'(1)]) (use Cons.prems(2) in simp)
    show ?thesis
    proof (cases "store_all store ts u")
      case (Done vrs)
      then show ?thesis
        using IH u' by (cases vrs) (auto simp: gt u simp del: split_paired_All)
    qed (use IH in \<open>auto simp: gt u\<close>)
  qed (use store_safe [OF Cons.prems(1) fit] in \<open>auto simp: gt\<close>)
qed simp

end

text \<open>The arena provides both.\<close>

definition arena_allocate_region :: "bool \<Rightarrow> arena \<Rightarrow> size_t \<times> size_t \<Rightarrow> (arena \<times> region) option" where
  "arena_allocate_region g a q =
     map_option (\<lambda>(a', p). (a', arena_region p (unat (fst q)))) (arena_allocate g a (fst q) (snd q))"

definition arena_store_text :: "bool \<Rightarrow> arena \<Rightarrow> bytes \<Rightarrow> (arena \<times> region) outcome" where
  "arena_store_text g a t =
     (case arena_copy_text g a t (of_nat (length t)) of
        Done (a', p) \<Rightarrow> Done (a', arena_region p (length t + 1))
      | Refused \<Rightarrow> Refused | Overrun \<Rightarrow> Overrun)"

lemma arena_allocate_region_step:
  assumes "arena_inv a" "case q of (sz, al) \<Rightarrow> arena_request sz al"
    "arena_allocate_region g a q = Some (a', r)"
  shows "arena_inv a' \<and> arena_owns a' r
    \<and> (\<forall>t. arena_owns a t \<longrightarrow> region_disjoint t r \<and> arena_owns a' t)"
proof -
  obtain p where p: "arena_allocate g a (fst q) (snd q) = Some (a', p)"
      "r = arena_region p (unat (fst q))"
    using assms(3) by (auto simp: arena_allocate_region_def)
  have "arena_request (fst q) (snd q)"
    using assms(2) by (cases q) simp
  from arena_allocate_step [OF assms(1) this p(1)] p(2) show ?thesis
    by blast
qed

interpretation arena_alloc: region_allocator arena_inv arena_owns
    "\<lambda>(sz, al). arena_request sz al" arena_allocate_region
proof (standard, goal_cases)
  case (1 s q g s' r)
  with arena_allocate_region_step [OF 1] show ?case by blast
next
  case (2 s q g s' r)
  with arena_allocate_region_step [OF 2] show ?case by blast
next
  case (3 s q g s' r t)
  with arena_allocate_region_step [OF 3(1-3)] show ?case by blast
next
  case (4 s q g s' r t)
  with arena_allocate_region_step [OF 4(1-3)] show ?case by blast
qed

lemma arena_store_text_step:
  assumes "arena_inv a" "length t < 2 ^ 62 - 1"
  shows "arena_store_text g a t \<noteq> Overrun
    \<and> (\<forall>a' r. arena_store_text g a t = Done (a', r) \<longrightarrow>
         arena_inv a' \<and> arena_owns a' r \<and> arena_read a' r = map Some (t @ [0])
         \<and> (\<forall>u. arena_owns a u \<longrightarrow> arena_owns a' u \<and> arena_read a' u = arena_read a u))"
proof -
  have "unat (of_nat (length t) :: size_t) = length t"
    using assms(2) by (simp add: unat_of_nat)
  then show ?thesis
    using arena_copy_text_step [OF assms(1), of t "of_nat (length t)" g] assms(2)
    by (cases "arena_copy_text g a t (of_nat (length t))") (auto simp: arena_store_text_def)
qed

interpretation arena_texts: text_store arena_inv arena_owns arena_read
    "\<lambda>t. length t < 2 ^ 62 - 1" arena_store_text
proof (standard, goal_cases)
  case (1 s t g)
  then show ?case by (simp add: arena_store_text_step)
next
  case (2 s t g s' r)
  with arena_store_text_step [OF 2(1,2), of g] show ?case by blast
next
  case (3 s t g s' r)
  with arena_store_text_step [OF 3(1,2), of g] show ?case by blast
next
  case (4 s t g s' r u)
  with arena_store_text_step [OF 4(1,2), of g] show ?case by blast
qed

section \<open>Properties\<close>

text \<open>
  For a power-of-two alignment and no overflow of \<open>value + alignment - 1\<close>, the masking of
  \<open>align_up\<close> is rounding up to the next multiple.
\<close>

theorem align_up_rounds:
  assumes "a \<noteq> 0" "a AND (a - 1) = 0" "unat v + unat a \<le> 2 ^ 64"
  shows "unat a dvd unat (align_up v a) \<and> v \<le> align_up v a \<and> unat (align_up v a) < unat v + unat a"
  using round_up_props [of "unat a" "unat v"] assms(1)
  by (simp add: unat_align_up [OF assms] unat_gt_0 word_le_nat_alt)

theorem align_up_rounds_witness:
  "unat (8 :: size_t) dvd unat (align_up 13 8) \<and> (13 :: size_t) \<le> align_up 13 8
     \<and> unat (align_up 13 8) < 21"
  using align_up_rounds [of 8 13] by simp

text \<open>
  C20: Any sequence of allocations from a fresh arena, of requests below a quarter of the address
  space and whatever \<open>malloc\<close> answers, hands out regions that lie inside the arena's blocks and are
  pairwise disjoint.
\<close>

theorem arena_allocations_disjoint:
  assumes "unat d < 2 ^ 63" "\<forall>(g, sz, al) \<in> set requests. arena_request sz al"
    "alloc_all arena_allocate_region requests (arena_init d) = Some (a, regions)"
  shows "arena_inv a \<and> (\<forall>r \<in> set regions. arena_owns a r) \<and> sorted_wrt region_disjoint regions"
proof -
  have "\<forall>(g, q) \<in> set requests. (case q of (sz, al) \<Rightarrow> arena_request sz al)"
    using assms(2) by auto
  from arena_alloc.alloc_all_regions [OF arena_init_inv [OF assms(1)] this assms(3)] show ?thesis
    by blast
qed

theorem arena_allocations_disjoint_witness:
  "\<exists>a regions. alloc_all arena_allocate_region [(True, 40, 8), (False, 13, 1), (False, 8, 8)] (arena_init 0)
       = Some (a, regions) \<and> sorted_wrt region_disjoint regions"
proof -
  have *: "\<exists>a regions. alloc_all arena_allocate_region [(True, 40, 8), (False, 13, 1), (False, 8, 8)]
      (arena_init 0) = Some (a, regions)"
    by (simp add: arena_allocate_region_def arena_init_def arena_allocate_def arena_new_block_def
        align_up_def arena_block_header_def Let_def)
  then obtain a regions where "alloc_all arena_allocate_region [(True, 40, 8), (False, 13, 1), (False, 8, 8)]
      (arena_init 0) = Some (a, regions)"
    by blast
  with arena_allocations_disjoint [OF _ _ this] show ?thesis
    by (auto simp: arena_request_def)
qed

text \<open>
  C19: Copying texts into a fresh arena never writes outside a block, and after all copies every
  text can still be read, with its terminating zero, at the pointer its copy returned.
\<close>

theorem arena_texts_persist:
  assumes "unat d < 2 ^ 63" "\<forall>(g, t) \<in> set texts. length t < 2 ^ 62 - 1"
  shows "store_all arena_store_text texts (arena_init d) \<noteq> Overrun
    \<and> (\<forall>a regions. store_all arena_store_text texts (arena_init d) = Done (a, regions) \<longrightarrow>
         map (arena_read a) regions = map (\<lambda>(g, t). map Some (t @ [0])) texts)"
  using arena_texts.store_all_reads [OF arena_init_inv [OF assms(1)] assms(2)] by blast

theorem arena_texts_persist_witness:
  "store_all arena_store_text [(True, [0x41]), (False, [0x42, 0x43])] (arena_init 1024) \<noteq> Overrun"
  using arena_texts_persist [of 1024 "[(True, [0x41]), (False, [0x42, 0x43])]"] by simp


end
