(* ===== verification/Diagnostic.thy ===== *)
theory Diagnostic
  imports Utf8 Source
begin

text \<open>
  Diagnostics: \<open>bootstrap/src/diagnostics/core/diagnostic.c\<close>, \<open>span.c\<close>, the catalog of
  \<open>bootstrap/src/diagnostics/catalog/catalog.c\<close> with its two \<open>.def\<close> tables, and the structures
  of \<open>bootstrap/include/public/core/diagnostic.h\<close>.

  Error ids and wording keys are the numbers of the rows of the tables, as the C enumerations
  count them. An array with its count is the list of the entries in use; a character array is
  the bytes before its terminator. A null diagnostic, which every operation ignores, is not
  represented, nor a source file without a name or bytes.
\<close>

section \<open>Catalog\<close>

type_synonym error_id = nat
type_synonym wording_key = nat

datatype diagnostic_severity = Diagnostic_Severity_Error

record diagnostic_definition =
  def_id :: error_id
  def_code :: string
  def_name :: string
  def_severity :: diagnostic_severity
  def_message_key :: wording_key

abbreviation (input) Diag_Word_E0001 :: wording_key where "Diag_Word_E0001 \<equiv> 0"
abbreviation (input) Diag_Word_E0103 :: wording_key where "Diag_Word_E0103 \<equiv> 1"
abbreviation (input) Diag_Word_E0104 :: wording_key where "Diag_Word_E0104 \<equiv> 2"
abbreviation (input) Diag_Word_E0200 :: wording_key where "Diag_Word_E0200 \<equiv> 3"
abbreviation (input) Diag_Word_E0201 :: wording_key where "Diag_Word_E0201 \<equiv> 4"
abbreviation (input) Diag_Word_E0202 :: wording_key where "Diag_Word_E0202 \<equiv> 5"
abbreviation (input) Diag_Word_E0203 :: wording_key where "Diag_Word_E0203 \<equiv> 6"
abbreviation (input) Diag_Word_E0205 :: wording_key where "Diag_Word_E0205 \<equiv> 7"
abbreviation (input) Diag_Word_E0206 :: wording_key where "Diag_Word_E0206 \<equiv> 8"
abbreviation (input) Diag_Word_E0300 :: wording_key where "Diag_Word_E0300 \<equiv> 9"
abbreviation (input) Diag_Word_E0304 :: wording_key where "Diag_Word_E0304 \<equiv> 10"
abbreviation (input) Diag_Word_E0308 :: wording_key where "Diag_Word_E0308 \<equiv> 11"
abbreviation (input) Diag_Word_E0309 :: wording_key where "Diag_Word_E0309 \<equiv> 12"
abbreviation (input) Diag_Word_E0310 :: wording_key where "Diag_Word_E0310 \<equiv> 13"
abbreviation (input) Diag_Word_E0311 :: wording_key where "Diag_Word_E0311 \<equiv> 14"
abbreviation (input) Diag_Word_E0400 :: wording_key where "Diag_Word_E0400 \<equiv> 15"
abbreviation (input) Diag_Word_E0404 :: wording_key where "Diag_Word_E0404 \<equiv> 16"
abbreviation (input) Diag_Word_E0408 :: wording_key where "Diag_Word_E0408 \<equiv> 17"
abbreviation (input) Diag_Word_E0409 :: wording_key where "Diag_Word_E0409 \<equiv> 18"
abbreviation (input) Diag_Word_E0502 :: wording_key where "Diag_Word_E0502 \<equiv> 19"
abbreviation (input) Diag_Word_E0600 :: wording_key where "Diag_Word_E0600 \<equiv> 20"
abbreviation (input) Diag_Word_E0602 :: wording_key where "Diag_Word_E0602 \<equiv> 21"
abbreviation (input) Diag_Word_E0612 :: wording_key where "Diag_Word_E0612 \<equiv> 22"
abbreviation (input) Diag_Word_E0613 :: wording_key where "Diag_Word_E0613 \<equiv> 23"
abbreviation (input) Diag_Word_E0614 :: wording_key where "Diag_Word_E0614 \<equiv> 24"
abbreviation (input) Diag_Word_E0615 :: wording_key where "Diag_Word_E0615 \<equiv> 25"
abbreviation (input) Diag_Word_E0703 :: wording_key where "Diag_Word_E0703 \<equiv> 26"
abbreviation (input) Diag_Word_E1001 :: wording_key where "Diag_Word_E1001 \<equiv> 27"
abbreviation (input) Diag_Word_E1100 :: wording_key where "Diag_Word_E1100 \<equiv> 28"
abbreviation (input) Diag_Word_E1300 :: wording_key where "Diag_Word_E1300 \<equiv> 29"
abbreviation (input) Diag_Word_E1301 :: wording_key where "Diag_Word_E1301 \<equiv> 30"
abbreviation (input) Diag_Word_E1302 :: wording_key where "Diag_Word_E1302 \<equiv> 31"
abbreviation (input) Diag_Word_E1303 :: wording_key where "Diag_Word_E1303 \<equiv> 32"
abbreviation (input) Diag_Word_E1305 :: wording_key where "Diag_Word_E1305 \<equiv> 33"
abbreviation (input) Diag_Word_E1306 :: wording_key where "Diag_Word_E1306 \<equiv> 34"
abbreviation (input) Diag_Word_E1307 :: wording_key where "Diag_Word_E1307 \<equiv> 35"
abbreviation (input) Diag_Word_E1308 :: wording_key where "Diag_Word_E1308 \<equiv> 36"
abbreviation (input) Diag_Word_E1312 :: wording_key where "Diag_Word_E1312 \<equiv> 37"
abbreviation (input) Diag_Word_Syntax_Expected_Found :: wording_key where "Diag_Word_Syntax_Expected_Found \<equiv> 38"
abbreviation (input) Diag_Word_Syntax_Missing_Semicolon :: wording_key where "Diag_Word_Syntax_Missing_Semicolon \<equiv> 39"
abbreviation (input) Diag_Word_Syntax_Internal_Oom :: wording_key where "Diag_Word_Syntax_Internal_Oom \<equiv> 40"
abbreviation (input) Diag_Word_Use_After_Move_Causal :: wording_key where "Diag_Word_Use_After_Move_Causal \<equiv> 41"
abbreviation (input) Diag_Word_Use_Before_Init_Causal :: wording_key where "Diag_Word_Use_Before_Init_Causal \<equiv> 42"
abbreviation (input) Diag_Word_Borrow_Conflict_Causal :: wording_key where "Diag_Word_Borrow_Conflict_Causal \<equiv> 43"
abbreviation (input) Diag_Word_Lifetime_Escape_Causal :: wording_key where "Diag_Word_Lifetime_Escape_Causal \<equiv> 44"
abbreviation (input) Diag_Word_Bounds_Known :: wording_key where "Diag_Word_Bounds_Known \<equiv> 45"
abbreviation (input) Diag_Word_Pattern_Missing :: wording_key where "Diag_Word_Pattern_Missing \<equiv> 46"
abbreviation (input) Diag_Word_Help_Borrow_Instead :: wording_key where "Diag_Word_Help_Borrow_Instead \<equiv> 47"
abbreviation (input) Diag_Word_Help_Return_Owned :: wording_key where "Diag_Word_Help_Return_Owned \<equiv> 48"
abbreviation (input) Diag_Word_Help_Insert_Semicolon :: wording_key where "Diag_Word_Help_Insert_Semicolon \<equiv> 49"
abbreviation (input) Diag_Word_Help_Add_Pattern :: wording_key where "Diag_Word_Help_Add_Pattern \<equiv> 50"
abbreviation (input) Diag_Word_Note_Valid_Range :: wording_key where "Diag_Word_Note_Valid_Range \<equiv> 51"
abbreviation (input) Diag_Word_Note_Missing_Pattern :: wording_key where "Diag_Word_Note_Missing_Pattern \<equiv> 52"
abbreviation (input) Diag_Word_Trace_Value_Created :: wording_key where "Diag_Word_Trace_Value_Created \<equiv> 53"
abbreviation (input) Diag_Word_Trace_Value_Moved :: wording_key where "Diag_Word_Trace_Value_Moved \<equiv> 54"
abbreviation (input) Diag_Word_Trace_Value_Used :: wording_key where "Diag_Word_Trace_Value_Used \<equiv> 55"
abbreviation (input) Diag_Word_Fix_Insert_Semicolon :: wording_key where "Diag_Word_Fix_Insert_Semicolon \<equiv> 56"
abbreviation (input) Diag_Word_Syntax_Expected_Function_Definition :: wording_key where "Diag_Word_Syntax_Expected_Function_Definition \<equiv> 57"
abbreviation (input) Diag_Word_Syntax_Expected_Type_Name :: wording_key where "Diag_Word_Syntax_Expected_Type_Name \<equiv> 58"
abbreviation (input) Diag_Word_Syntax_Expected_Parameter_Name :: wording_key where "Diag_Word_Syntax_Expected_Parameter_Name \<equiv> 59"
abbreviation (input) Diag_Word_Syntax_Unterminated_Block :: wording_key where "Diag_Word_Syntax_Unterminated_Block \<equiv> 60"
abbreviation (input) Diag_Word_Syntax_Expected_Statement :: wording_key where "Diag_Word_Syntax_Expected_Statement \<equiv> 61"
abbreviation (input) Diag_Word_Syntax_Expected_Type :: wording_key where "Diag_Word_Syntax_Expected_Type \<equiv> 62"
abbreviation (input) Diag_Word_Syntax_Expected_Variable_Name :: wording_key where "Diag_Word_Syntax_Expected_Variable_Name \<equiv> 63"
abbreviation (input) Diag_Word_Syntax_Match_Requires_Case :: wording_key where "Diag_Word_Syntax_Match_Requires_Case \<equiv> 64"
abbreviation (input) Diag_Word_Syntax_Expected_Source_Or_Module :: wording_key where "Diag_Word_Syntax_Expected_Source_Or_Module \<equiv> 65"
abbreviation (input) Diag_Word_Syntax_Expected_Atom :: wording_key where "Diag_Word_Syntax_Expected_Atom \<equiv> 66"
abbreviation (input) Diag_Word_Syntax_Expected_Module_Item :: wording_key where "Diag_Word_Syntax_Expected_Module_Item \<equiv> 67"
abbreviation (input) Diag_Word_Syntax_Expected_Record_Field :: wording_key where "Diag_Word_Syntax_Expected_Record_Field \<equiv> 68"
abbreviation (input) Diag_Word_Syntax_Expected_Identifier_Lvalue :: wording_key where "Diag_Word_Syntax_Expected_Identifier_Lvalue \<equiv> 69"
abbreviation (input) Diag_Word_Syntax_Expected_Field_After_Dot :: wording_key where "Diag_Word_Syntax_Expected_Field_After_Dot \<equiv> 70"
abbreviation (input) Diag_Word_Syntax_Expected_Function_Name :: wording_key where "Diag_Word_Syntax_Expected_Function_Name \<equiv> 71"
abbreviation (input) Diag_Word_Syntax_Expected_Struct_Field :: wording_key where "Diag_Word_Syntax_Expected_Struct_Field \<equiv> 72"
abbreviation (input) Diag_Word_Syntax_Expected_Enum_Constructor :: wording_key where "Diag_Word_Syntax_Expected_Enum_Constructor \<equiv> 73"
abbreviation (input) Diag_Word_Syntax_Expected_Pattern :: wording_key where "Diag_Word_Syntax_Expected_Pattern \<equiv> 74"
abbreviation (input) Diag_Word_Syntax_Expected_Pattern_Field :: wording_key where "Diag_Word_Syntax_Expected_Pattern_Field \<equiv> 75"
abbreviation (input) Diag_Word_Lex_Bad_Character_Escape :: wording_key where "Diag_Word_Lex_Bad_Character_Escape \<equiv> 76"
abbreviation (input) Diag_Word_Lex_Bad_Escape :: wording_key where "Diag_Word_Lex_Bad_Escape \<equiv> 77"
abbreviation (input) Diag_Word_Lex_Bad_Hex_Escape :: wording_key where "Diag_Word_Lex_Bad_Hex_Escape \<equiv> 78"
abbreviation (input) Diag_Word_Lex_Bad_Unicode_Escape :: wording_key where "Diag_Word_Lex_Bad_Unicode_Escape \<equiv> 79"
abbreviation (input) Diag_Word_Lex_Invalid_Utf8_Character :: wording_key where "Diag_Word_Lex_Invalid_Utf8_Character \<equiv> 80"
abbreviation (input) Diag_Word_Lex_Invalid_Utf8_String :: wording_key where "Diag_Word_Lex_Invalid_Utf8_String \<equiv> 81"
abbreviation (input) Diag_Word_Lex_Invalid_Initial_Utf8 :: wording_key where "Diag_Word_Lex_Invalid_Initial_Utf8 \<equiv> 82"
abbreviation (input) Diag_Word_Lex_Invalid_Integer :: wording_key where "Diag_Word_Lex_Invalid_Integer \<equiv> 83"
abbreviation (input) Diag_Word_Lex_Unexpected_Character :: wording_key where "Diag_Word_Lex_Unexpected_Character \<equiv> 84"
abbreviation (input) Diag_Word_Lex_Unterminated_Character_Escape :: wording_key where "Diag_Word_Lex_Unterminated_Character_Escape \<equiv> 85"
abbreviation (input) Diag_Word_Lex_Unterminated_Character :: wording_key where "Diag_Word_Lex_Unterminated_Character \<equiv> 86"
abbreviation (input) Diag_Word_Lex_Unterminated_Escape :: wording_key where "Diag_Word_Lex_Unterminated_Escape \<equiv> 87"
abbreviation (input) Diag_Word_Lex_Unterminated_String :: wording_key where "Diag_Word_Lex_Unterminated_String \<equiv> 88"
abbreviation (input) Diag_Word_Input_File_Not_Found_Path :: wording_key where "Diag_Word_Input_File_Not_Found_Path \<equiv> 89"
abbreviation (input) Diag_Word_Source_Module_Not_Found_Path :: wording_key where "Diag_Word_Source_Module_Not_Found_Path \<equiv> 90"
abbreviation (input) Diag_Word_Unrecognized_Input_Type_Path :: wording_key where "Diag_Word_Unrecognized_Input_Type_Path \<equiv> 91"
abbreviation (input) Diag_Word_Syntax_Expected_With :: wording_key where "Diag_Word_Syntax_Expected_With \<equiv> 92"
abbreviation (input) Diag_Word_Syntax_Target_Condition_Invalid :: wording_key where "Diag_Word_Syntax_Target_Condition_Invalid \<equiv> 93"
abbreviation (input) Diag_Word_Syntax_Target_Condition_Without_Target :: wording_key where "Diag_Word_Syntax_Target_Condition_Without_Target \<equiv> 94"
abbreviation (input) Diag_Word_Syntax_Expected_External_Symbol_Name :: wording_key where "Diag_Word_Syntax_Expected_External_Symbol_Name \<equiv> 95"

abbreviation (input) E0001_Syntax_Error :: error_id where "E0001_Syntax_Error \<equiv> 0"
abbreviation (input) E0103_Input_File_Not_Found :: error_id where "E0103_Input_File_Not_Found \<equiv> 1"
abbreviation (input) E0104_Unrecognized_Input_File_Type :: error_id where "E0104_Unrecognized_Input_File_Type \<equiv> 2"
abbreviation (input) E0200_Duplicate_Function :: error_id where "E0200_Duplicate_Function \<equiv> 3"
abbreviation (input) E0201_Source_Module_Not_Found :: error_id where "E0201_Source_Module_Not_Found \<equiv> 4"
abbreviation (input) E0202_Import_Escapes_Root :: error_id where "E0202_Import_Escapes_Root \<equiv> 5"
abbreviation (input) E0203_Main_Function_Not_Found :: error_id where "E0203_Main_Function_Not_Found \<equiv> 6"
abbreviation (input) E0205_Duplicate_Declaration :: error_id where "E0205_Duplicate_Declaration \<equiv> 7"
abbreviation (input) E0206_Duplicate_Temporary :: error_id where "E0206_Duplicate_Temporary \<equiv> 8"
abbreviation (input) E0300_Unknown_Name :: error_id where "E0300_Unknown_Name \<equiv> 9"
abbreviation (input) E0304_Unsatisfied_Use :: error_id where "E0304_Unsatisfied_Use \<equiv> 10"
abbreviation (input) E0308_Infinite_Recursive_Type :: error_id where "E0308_Infinite_Recursive_Type \<equiv> 11"
abbreviation (input) E0309_Private_Declaration :: error_id where "E0309_Private_Declaration \<equiv> 12"
abbreviation (input) E0310_Ambiguous_Import :: error_id where "E0310_Ambiguous_Import \<equiv> 13"
abbreviation (input) E0311_Import_Cycle :: error_id where "E0311_Import_Cycle \<equiv> 14"
abbreviation (input) E0400_Mismatched_Types :: error_id where "E0400_Mismatched_Types \<equiv> 15"
abbreviation (input) E0404_Statement_Typecheck_Not_Implemented :: error_id where "E0404_Statement_Typecheck_Not_Implemented \<equiv> 16"
abbreviation (input) E0408_Main_Bad_Signature :: error_id where "E0408_Main_Bad_Signature \<equiv> 17"
abbreviation (input) E0409_Unresolved_Type :: error_id where "E0409_Unresolved_Type \<equiv> 18"
abbreviation (input) E0502_Unknown_Record_Member :: error_id where "E0502_Unknown_Record_Member \<equiv> 19"
abbreviation (input) E0600_Undefined_Literal_In_Lowering :: error_id where "E0600_Undefined_Literal_In_Lowering \<equiv> 20"
abbreviation (input) E0602_Unsupported_Binary_Expression :: error_id where "E0602_Unsupported_Binary_Expression \<equiv> 21"
abbreviation (input) E0612_Dereference_Non_Pointer :: error_id where "E0612_Dereference_Non_Pointer \<equiv> 22"
abbreviation (input) E0613_Address_Of_Non_Lvalue :: error_id where "E0613_Address_Of_Non_Lvalue \<equiv> 23"
abbreviation (input) E0614_Record_Field_Missing :: error_id where "E0614_Record_Field_Missing \<equiv> 24"
abbreviation (input) E0615_Record_Field_Duplicate :: error_id where "E0615_Record_Field_Duplicate \<equiv> 25"
abbreviation (input) E0703_Write_To_Immutable :: error_id where "E0703_Write_To_Immutable \<equiv> 26"
abbreviation (input) E1001_Invalid_UTF8_Byte :: error_id where "E1001_Invalid_UTF8_Byte \<equiv> 27"
abbreviation (input) E1100_Internal_Context_Error :: error_id where "E1100_Internal_Context_Error \<equiv> 28"
abbreviation (input) E1300_Use_Before_Initialization :: error_id where "E1300_Use_Before_Initialization \<equiv> 29"
abbreviation (input) E1301_Use_After_Move :: error_id where "E1301_Use_After_Move \<equiv> 30"
abbreviation (input) E1302_Borrow_Conflict :: error_id where "E1302_Borrow_Conflict \<equiv> 31"
abbreviation (input) E1303_Reference_Escape :: error_id where "E1303_Reference_Escape \<equiv> 32"
abbreviation (input) E1305_Bounds_Violation :: error_id where "E1305_Bounds_Violation \<equiv> 33"
abbreviation (input) E1306_Non_Exhaustive_Pattern :: error_id where "E1306_Non_Exhaustive_Pattern \<equiv> 34"
abbreviation (input) E1307_Unreachable_Pattern :: error_id where "E1307_Unreachable_Pattern \<equiv> 35"
abbreviation (input) E1308_Missing_Return_Path :: error_id where "E1308_Missing_Return_Path \<equiv> 36"
abbreviation (input) E1312_Partial_Owned_Move :: error_id where "E1312_Partial_Owned_Move \<equiv> 37"

definition diagnostic_wording_key_count :: nat where
  "diagnostic_wording_key_count = 96"

definition diagnostic_definitions :: "diagnostic_definition list" where
  "diagnostic_definitions = [
     \<lparr>def_id = E0001_Syntax_Error, def_code = ''SULTANC-PARSE-SYNTAX'',
       def_name = ''Syntax Error'', def_severity = Diagnostic_Severity_Error,
       def_message_key = Diag_Word_E0001\<rparr>,
     \<lparr>def_id = E0103_Input_File_Not_Found, def_code = ''SULTANC-IO-INPUT-NOT-FOUND'',
       def_name = ''Input File Not Found'', def_severity = Diagnostic_Severity_Error,
       def_message_key = Diag_Word_E0103\<rparr>,
     \<lparr>def_id = E0104_Unrecognized_Input_File_Type, def_code = ''SULTANC-CLI-UNKNOWN-INPUT-TYPE'',
       def_name = ''Unrecognized Input File Type'', def_severity = Diagnostic_Severity_Error,
       def_message_key = Diag_Word_E0104\<rparr>,
     \<lparr>def_id = E0200_Duplicate_Function, def_code = ''SULTANC-NAME-DUPLICATE-DECLARATION'',
       def_name = ''Duplicate Function'', def_severity = Diagnostic_Severity_Error,
       def_message_key = Diag_Word_E0200\<rparr>,
     \<lparr>def_id = E0201_Source_Module_Not_Found, def_code = ''SULTANC-MODULE-NOT-FOUND'',
       def_name = ''Source Module Not Found'', def_severity = Diagnostic_Severity_Error,
       def_message_key = Diag_Word_E0201\<rparr>,
     \<lparr>def_id = E0202_Import_Escapes_Root, def_code = ''SULTANC-IMPORT-ESCAPES-ROOT'',
       def_name = ''Import Escapes Root'', def_severity = Diagnostic_Severity_Error,
       def_message_key = Diag_Word_E0202\<rparr>,
     \<lparr>def_id = E0203_Main_Function_Not_Found, def_code = ''SULTANC-ENTRYPOINT-NOT-FOUND'',
       def_name = ''Main Function Not Found'', def_severity = Diagnostic_Severity_Error,
       def_message_key = Diag_Word_E0203\<rparr>,
     \<lparr>def_id = E0205_Duplicate_Declaration, def_code = ''SULTANC-NAME-DUPLICATE-DECLARATION'',
       def_name = ''Duplicate Declaration'', def_severity = Diagnostic_Severity_Error,
       def_message_key = Diag_Word_E0205\<rparr>,
     \<lparr>def_id = E0206_Duplicate_Temporary, def_code = ''SULTANC-NAME-DUPLICATE-DECLARATION'',
       def_name = ''Duplicate Temporary'', def_severity = Diagnostic_Severity_Error,
       def_message_key = Diag_Word_E0206\<rparr>,
     \<lparr>def_id = E0300_Unknown_Name, def_code = ''SULTANC-NAME-UNKNOWN'',
       def_name = ''Unknown Name'', def_severity = Diagnostic_Severity_Error,
       def_message_key = Diag_Word_E0300\<rparr>,
     \<lparr>def_id = E0304_Unsatisfied_Use, def_code = ''SULTANC-NAME-UNRESOLVED'',
       def_name = ''Unsatisfied Use'', def_severity = Diagnostic_Severity_Error,
       def_message_key = Diag_Word_E0304\<rparr>,
     \<lparr>def_id = E0308_Infinite_Recursive_Type, def_code = ''SULTANC-TYPE-INFINITE-RECURSION'',
       def_name = ''Infinite Recursive Type'', def_severity = Diagnostic_Severity_Error,
       def_message_key = Diag_Word_E0308\<rparr>,
     \<lparr>def_id = E0309_Private_Declaration, def_code = ''SULTANC-NAME-PRIVATE'',
       def_name = ''Private Declaration'', def_severity = Diagnostic_Severity_Error,
       def_message_key = Diag_Word_E0309\<rparr>,
     \<lparr>def_id = E0310_Ambiguous_Import, def_code = ''SULTANC-IMPORT-AMBIGUOUS'',
       def_name = ''Ambiguous Import'', def_severity = Diagnostic_Severity_Error,
       def_message_key = Diag_Word_E0310\<rparr>,
     \<lparr>def_id = E0311_Import_Cycle, def_code = ''SULTANC-IMPORT-CYCLE'',
       def_name = ''Import Cycle'', def_severity = Diagnostic_Severity_Error,
       def_message_key = Diag_Word_E0311\<rparr>,
     \<lparr>def_id = E0400_Mismatched_Types, def_code = ''SULTANC-TYPE-MISMATCH'',
       def_name = ''Mismatched Types'', def_severity = Diagnostic_Severity_Error,
       def_message_key = Diag_Word_E0400\<rparr>,
     \<lparr>def_id = E0404_Statement_Typecheck_Not_Implemented, def_code = ''SULTANC-ICE-TYPECHECK-UNSUPPORTED'',
       def_name = ''Statement Typecheck Not Implemented'', def_severity = Diagnostic_Severity_Error,
       def_message_key = Diag_Word_E0404\<rparr>,
     \<lparr>def_id = E0408_Main_Bad_Signature, def_code = ''SULTANC-ENTRYPOINT-INVALID-SIGNATURE'',
       def_name = ''Main Bad Signature'', def_severity = Diagnostic_Severity_Error,
       def_message_key = Diag_Word_E0408\<rparr>,
     \<lparr>def_id = E0409_Unresolved_Type, def_code = ''SULTANC-TYPE-UNRESOLVED'',
       def_name = ''Unresolved Type'', def_severity = Diagnostic_Severity_Error,
       def_message_key = Diag_Word_E0409\<rparr>,
     \<lparr>def_id = E0502_Unknown_Record_Member, def_code = ''SULTANC-TYPE-UNKNOWN-RECORD-FIELD'',
       def_name = ''Unknown Record Member'', def_severity = Diagnostic_Severity_Error,
       def_message_key = Diag_Word_E0502\<rparr>,
     \<lparr>def_id = E0600_Undefined_Literal_In_Lowering, def_code = ''SULTANC-ICE-LOWERING-UNDEFINED-LITERAL'',
       def_name = ''Undefined Literal In Lowering'', def_severity = Diagnostic_Severity_Error,
       def_message_key = Diag_Word_E0600\<rparr>,
     \<lparr>def_id = E0602_Unsupported_Binary_Expression, def_code = ''SULTANC-ICE-LOWERING-UNSUPPORTED-EXPRESSION'',
       def_name = ''Unsupported Binary Expression'', def_severity = Diagnostic_Severity_Error,
       def_message_key = Diag_Word_E0602\<rparr>,
     \<lparr>def_id = E0612_Dereference_Non_Pointer, def_code = ''SULTANC-TYPE-DEREFERENCE-NON-POINTER'',
       def_name = ''Dereference Non Pointer'', def_severity = Diagnostic_Severity_Error,
       def_message_key = Diag_Word_E0612\<rparr>,
     \<lparr>def_id = E0613_Address_Of_Non_Lvalue, def_code = ''SULTANC-TYPE-ADDRESS-OF-NON-LVALUE'',
       def_name = ''Address Of Non Lvalue'', def_severity = Diagnostic_Severity_Error,
       def_message_key = Diag_Word_E0613\<rparr>,
     \<lparr>def_id = E0614_Record_Field_Missing, def_code = ''SULTANC-TYPE-MISSING-RECORD-FIELD'',
       def_name = ''Record Field Missing'', def_severity = Diagnostic_Severity_Error,
       def_message_key = Diag_Word_E0614\<rparr>,
     \<lparr>def_id = E0615_Record_Field_Duplicate, def_code = ''SULTANC-TYPE-DUPLICATE-RECORD-FIELD'',
       def_name = ''Record Field Duplicate'', def_severity = Diagnostic_Severity_Error,
       def_message_key = Diag_Word_E0615\<rparr>,
     \<lparr>def_id = E0703_Write_To_Immutable, def_code = ''SULTANC-MUTABILITY-WRITE-TO-IMMUTABLE'',
       def_name = ''Write To Immutable'', def_severity = Diagnostic_Severity_Error,
       def_message_key = Diag_Word_E0703\<rparr>,
     \<lparr>def_id = E1001_Invalid_UTF8_Byte, def_code = ''SULTANC-LEX-INVALID-UTF8'',
       def_name = ''Invalid UTF8 Byte'', def_severity = Diagnostic_Severity_Error,
       def_message_key = Diag_Word_E1001\<rparr>,
     \<lparr>def_id = E1100_Internal_Context_Error, def_code = ''SULTANC-ICE-CONTEXT'',
       def_name = ''Internal Context Error'', def_severity = Diagnostic_Severity_Error,
       def_message_key = Diag_Word_E1100\<rparr>,
     \<lparr>def_id = E1300_Use_Before_Initialization, def_code = ''SULTANC-FLOW-USE-BEFORE-INITIALIZATION'',
       def_name = ''Use Before Initialization'', def_severity = Diagnostic_Severity_Error,
       def_message_key = Diag_Word_E1300\<rparr>,
     \<lparr>def_id = E1301_Use_After_Move, def_code = ''SULTANC-OWNERSHIP-USE-AFTER-MOVE'',
       def_name = ''Use After Move'', def_severity = Diagnostic_Severity_Error,
       def_message_key = Diag_Word_E1301\<rparr>,
     \<lparr>def_id = E1302_Borrow_Conflict, def_code = ''SULTANC-BORROW-CONFLICT'',
       def_name = ''Borrow Conflict'', def_severity = Diagnostic_Severity_Error,
       def_message_key = Diag_Word_E1302\<rparr>,
     \<lparr>def_id = E1303_Reference_Escape, def_code = ''SULTANC-BORROW-REFERENCE-ESCAPE'',
       def_name = ''Reference Escape'', def_severity = Diagnostic_Severity_Error,
       def_message_key = Diag_Word_E1303\<rparr>,
     \<lparr>def_id = E1305_Bounds_Violation, def_code = ''SULTANC-SAFETY-INDEX-OUT-OF-BOUNDS'',
       def_name = ''Bounds Violation'', def_severity = Diagnostic_Severity_Error,
       def_message_key = Diag_Word_E1305\<rparr>,
     \<lparr>def_id = E1306_Non_Exhaustive_Pattern, def_code = ''SULTANC-PATTERN-NON-EXHAUSTIVE'',
       def_name = ''Non Exhaustive Pattern'', def_severity = Diagnostic_Severity_Error,
       def_message_key = Diag_Word_E1306\<rparr>,
     \<lparr>def_id = E1307_Unreachable_Pattern, def_code = ''SULTANC-PATTERN-UNREACHABLE'',
       def_name = ''Unreachable Pattern'', def_severity = Diagnostic_Severity_Error,
       def_message_key = Diag_Word_E1307\<rparr>,
     \<lparr>def_id = E1308_Missing_Return_Path, def_code = ''SULTANC-FLOW-MISSING-RETURN'',
       def_name = ''Missing Return Path'', def_severity = Diagnostic_Severity_Error,
       def_message_key = Diag_Word_E1308\<rparr>,
     \<lparr>def_id = E1312_Partial_Owned_Move, def_code = ''SULTANC-OWNERSHIP-PARTIAL-MOVE'',
       def_name = ''Partial Owned Move'', def_severity = Diagnostic_Severity_Error,
       def_message_key = Diag_Word_E1312\<rparr>]"

definition error_id_count :: nat where
  "error_id_count = length diagnostic_definitions"

definition diagnostic_definition_for :: "error_id \<Rightarrow> diagnostic_definition option" where
  "diagnostic_definition_for i =
     (if i \<ge> error_id_count then None else Some (diagnostic_definitions ! i))"

definition diagnostic_code :: "error_id \<Rightarrow> string" where
  "diagnostic_code i =
     (case diagnostic_definition_for i of None \<Rightarrow> ''SULTANC-ICE-CONTEXT'' | Some d \<Rightarrow> def_code d)"

definition diagnostic_name :: "error_id \<Rightarrow> string" where
  "diagnostic_name i =
     (case diagnostic_definition_for i of None \<Rightarrow> ''__Unknown_Diagnostic__'' | Some d \<Rightarrow> def_name d)"

definition diagnostic_severity_of :: "error_id \<Rightarrow> diagnostic_severity" where
  "diagnostic_severity_of i =
     (case diagnostic_definition_for i of None \<Rightarrow> Diagnostic_Severity_Error | Some d \<Rightarrow> def_severity d)"

definition diagnostic_default_message_key :: "error_id \<Rightarrow> wording_key" where
  "diagnostic_default_message_key i =
     (case diagnostic_definition_for i of None \<Rightarrow> Diag_Word_E1100 | Some d \<Rightarrow> def_message_key d)"

section \<open>Captured spans\<close>

definition diagnostic_max_source_name :: nat where "diagnostic_max_source_name = 768"
definition diagnostic_max_source_line :: nat where "diagnostic_max_source_line = 2048"

record diagnostic_source_span =
  ds_source_name :: bytes
  ds_start :: source_position
  ds_end :: source_position
  ds_line_start_offset :: nat
  ds_excerpt_start_offset :: nat
  ds_line_text :: bytes
  ds_line_text_length :: nat
  ds_has_source :: bool

fun line_start_from :: "bytes \<Rightarrow> nat \<Rightarrow> nat" where
  "line_start_from bs 0 = 0"
| "line_start_from bs (Suc cursor) =
     (if bs ! cursor \<noteq> 0x0A then line_start_from bs cursor else Suc cursor)"

definition diagnostic_find_line_start :: "source_file \<Rightarrow> nat \<Rightarrow> nat" where
  "diagnostic_find_line_start s offset =
     line_start_from (source_bytes s) (if offset > source_length s then source_length s else offset)"

function line_end_from :: "bytes \<Rightarrow> nat \<Rightarrow> nat" where
  "line_end_from bs cursor =
     (if cursor < length bs \<and> bs ! cursor \<noteq> 0x0A \<and> bs ! cursor \<noteq> 0x0D
      then line_end_from bs (cursor + 1) else cursor)"
  by pat_completeness auto
termination line_end_from by (relation "measure (\<lambda>(bs, c). length bs - c)") auto

declare line_end_from.simps [simp del]

definition diagnostic_find_line_end :: "source_file \<Rightarrow> nat \<Rightarrow> nat" where
  "diagnostic_find_line_end s offset =
     line_end_from (source_bytes s) (if offset > source_length s then source_length s else offset)"

text \<open>The loop that steps back over continuation bytes.\<close>

fun retreat_to_scalar :: "bytes \<Rightarrow> nat \<Rightarrow> nat \<Rightarrow> nat" where
  "retreat_to_scalar bs line_start 0 = 0"
| "retreat_to_scalar bs line_start (Suc start) =
     (if Suc start > line_start \<and> utf8_is_continuation_byte (bs ! Suc start)
      then retreat_to_scalar bs line_start start else Suc start)"

definition diagnostic_clamp_excerpt_start :: "source_file \<Rightarrow> nat \<Rightarrow> nat \<Rightarrow> nat \<Rightarrow> nat" where
  "diagnostic_clamp_excerpt_start s line_start line_end focus =
     (let capacity = diagnostic_max_source_line - 1
      in if line_end - line_start \<le> capacity then line_start
         else
           (let start1 = (if focus > line_start + capacity div 2 then focus - capacity div 2
                          else line_start);
                start2 = (if start1 + capacity > line_end then line_end - capacity else start1)
            in retreat_to_scalar (source_bytes s) line_start start2))"

definition diagnostic_capture_source_span :: "source_span \<Rightarrow> diagnostic_source_span" where
  "diagnostic_capture_source_span sp =
     (let start = (span_start sp)\<lparr>pos_source := None\<rparr>;
          stop = (span_end sp)\<lparr>pos_source := None\<rparr>
      in (case pos_source (span_start sp) of
            None \<Rightarrow>
              \<lparr>ds_source_name = [], ds_start = start, ds_end = stop, ds_line_start_offset = 0,
               ds_excerpt_start_offset = 0, ds_line_text = [], ds_line_text_length = 0,
               ds_has_source = False\<rparr>
          | Some s \<Rightarrow>
              (let offset = pos_offset (span_start sp);
                   line_start = diagnostic_find_line_start s offset;
                   line_end = diagnostic_find_line_end s offset;
                   excerpt = diagnostic_clamp_excerpt_start s line_start line_end offset;
                   n0 = line_end - excerpt;
                   n = (if n0 \<ge> diagnostic_max_source_line then diagnostic_max_source_line - 1 else n0)
               in \<lparr>ds_source_name = take (diagnostic_max_source_name - 1) (source_name s),
                   ds_start = start, ds_end = stop, ds_line_start_offset = line_start,
                   ds_excerpt_start_offset = excerpt,
                   ds_line_text = take n (drop excerpt (source_bytes s)),
                   ds_line_text_length = n, ds_has_source = True\<rparr>)))"

lemma line_start_from_props:
  "line_start_from bs c \<le> c \<and> (\<forall>i. line_start_from bs c \<le> i \<and> i < c \<longrightarrow> bs ! i \<noteq> 0x0A)
   \<and> (line_start_from bs c > 0 \<longrightarrow> bs ! (line_start_from bs c - 1) = 0x0A)"
  by (induction c) (auto simp: less_Suc_eq)

lemma line_end_from_props:
  "c \<le> length bs \<Longrightarrow> c \<le> line_end_from bs c \<and> line_end_from bs c \<le> length bs
   \<and> (\<forall>i. c \<le> i \<and> i < line_end_from bs c \<longrightarrow> bs ! i \<noteq> 0x0A)
   \<and> (line_end_from bs c < length bs \<longrightarrow> bs ! line_end_from bs c \<in> {0x0A, 0x0D})"
proof (induction bs c rule: line_end_from.induct)
  case (1 bs c)
  show ?case
  proof (cases "c < length bs \<and> bs ! c \<noteq> 0x0A \<and> bs ! c \<noteq> 0x0D")
    case True
    then have "line_end_from bs c = line_end_from bs (c + 1)"
      by (subst line_end_from.simps) simp
    with "1.IH" [OF True] True show ?thesis
      by (auto simp: le_eq_less_or_eq [of c] Suc_le_eq)
  next
    case False
    then have "line_end_from bs c = c"
      by (subst line_end_from.simps) auto
    with False "1.prems" show ?thesis
      by auto
  qed
qed

lemma retreat_props:
  "line_start \<le> start \<Longrightarrow> line_start \<le> retreat_to_scalar bs line_start start
     \<and> retreat_to_scalar bs line_start start \<le> start
     \<and> (retreat_to_scalar bs line_start start > line_start \<longrightarrow>
         \<not> utf8_is_continuation_byte (bs ! retreat_to_scalar bs line_start start))"
  by (induction start) auto

lemma clamp_excerpt_props:
  assumes "line_start \<le> focus" "focus \<le> line_end"
  shows "line_start \<le> diagnostic_clamp_excerpt_start s line_start line_end focus
    \<and> diagnostic_clamp_excerpt_start s line_start line_end focus \<le> focus"
proof -
  let ?cap = "diagnostic_max_source_line - 1"
  let ?s1 = "if focus > line_start + ?cap div 2 then focus - ?cap div 2 else line_start"
  let ?s2 = "if ?s1 + ?cap > line_end then line_end - ?cap else ?s1"
  show ?thesis
  proof (cases "line_end - line_start \<le> ?cap")
    case True
    with assms show ?thesis
      by (simp add: diagnostic_clamp_excerpt_start_def)
  next
    case False
    then have le: "line_start \<le> ?s2" "?s2 \<le> focus"
      using assms by (auto simp: diagnostic_max_source_line_def)
    have "diagnostic_clamp_excerpt_start s line_start line_end focus
        = retreat_to_scalar (source_bytes s) line_start ?s2"
      unfolding diagnostic_clamp_excerpt_start_def Let_def by (simp only: False if_False)
    with retreat_props [OF le(1), of "source_bytes s"] le(2) show ?thesis
      by auto
  qed
qed

section \<open>Diagnostics\<close>

datatype diagnostic_argument_key = Argument_None | Argument_Value | Argument_Expected
  | Argument_Found | Argument_Index | Argument_Length | Argument_Range | Argument_Pattern
  | Argument_Path | Argument_Function

datatype diagnostic_span_role = Role_None | Role_Primary | Role_Invalid_Use | Role_Move_Origin
  | Role_Original_Owner | Role_Uninitialized_Declaration | Role_Conflicting_Borrow
  | Role_Mutable_Borrow_Start | Role_Reference_Escape | Role_Local_Created | Role_Scope_End
  | Role_Index_Value | Role_Expected_Here | Role_Parser_Discovery | Role_Unreachable_Pattern
  | Role_Earlier_Coverage

datatype diagnostic_fix_applicability = Machine_Applicable

definition diagnostic_max_arguments :: nat where "diagnostic_max_arguments = 12"
definition diagnostic_max_related_spans :: nat where "diagnostic_max_related_spans = 8"
definition diagnostic_max_notes :: nat where "diagnostic_max_notes = 6"
definition diagnostic_max_help :: nat where "diagnostic_max_help = 6"
definition diagnostic_max_fixes :: nat where "diagnostic_max_fixes = 4"
definition diagnostic_max_trace :: nat where "diagnostic_max_trace = 8"
definition diagnostic_max_argument_value :: nat where "diagnostic_max_argument_value = 256"
definition diagnostic_max_fix_text :: nat where "diagnostic_max_fix_text = 256"

record diagnostic_fix =
  fix_span :: diagnostic_source_span
  fix_replacement :: bytes
  fix_applicability :: diagnostic_fix_applicability
  fix_message_key :: wording_key

record diagnostic_trace_entry =
  trace_message_key :: wording_key
  trace_span :: "diagnostic_source_span option"

record diagnostic =
  diag_id :: error_id
  diag_severity :: diagnostic_severity
  diag_message_key :: wording_key
  diag_primary_span :: diagnostic_source_span
  diag_primary_role :: diagnostic_span_role
  diag_arguments :: "(diagnostic_argument_key \<times> bytes) list"
  diag_related_spans :: "(diagnostic_source_span \<times> diagnostic_span_role) list"
  diag_notes :: "wording_key list"
  diag_help :: "wording_key list"
  diag_fixes :: "diagnostic_fix list"
  diag_trace :: "diagnostic_trace_entry list"

text \<open>The zeroed position and span of \<open>memset\<close>.\<close>

definition zero_position :: source_position where
  "zero_position = \<lparr>pos_source = None, pos_offset = 0, pos_line = 0, pos_column = 0\<rparr>"

definition zero_span :: source_span where
  "zero_span = \<lparr>span_start = zero_position, span_end = zero_position\<rparr>"

definition diagnostic_reset :: diagnostic where
  "diagnostic_reset =
     \<lparr>diag_id = 0, diag_severity = Diagnostic_Severity_Error, diag_message_key = 0,
      diag_primary_span = diagnostic_capture_source_span zero_span, diag_primary_role = Role_None,
      diag_arguments = [], diag_related_spans = [], diag_notes = [], diag_help = [],
      diag_fixes = [], diag_trace = []\<rparr>"

definition diagnostic_begin :: "error_id \<Rightarrow> source_span \<Rightarrow> diagnostic" where
  "diagnostic_begin i sp =
     diagnostic_reset
       \<lparr>diag_id := i, diag_severity := diagnostic_severity_of i,
        diag_message_key := diagnostic_default_message_key i, diag_primary_role := Role_Primary,
        diag_primary_span := diagnostic_capture_source_span sp\<rparr>"

definition diagnostic_begin_without_source :: "error_id \<Rightarrow> diagnostic" where
  "diagnostic_begin_without_source i = diagnostic_begin i zero_span"

definition diagnostic_set_message_key :: "diagnostic \<Rightarrow> wording_key \<Rightarrow> diagnostic" where
  "diagnostic_set_message_key d k =
     (if k \<ge> diagnostic_wording_key_count then d else d\<lparr>diag_message_key := k\<rparr>)"

definition diagnostic_set_primary_role :: "diagnostic \<Rightarrow> diagnostic_span_role \<Rightarrow> diagnostic" where
  "diagnostic_set_primary_role d r = d\<lparr>diag_primary_role := r\<rparr>"

text \<open>
  \<open>__Diagnostic_Find_Argument__\<close> gives the index of the slot, with the table in which it may have
  appended the slot.
\<close>

fun argument_index :: "(diagnostic_argument_key \<times> bytes) list \<Rightarrow> diagnostic_argument_key \<Rightarrow> nat option" where
  "argument_index [] k = None"
| "argument_index ((k', v) # rest) k =
     (if k' = k then Some 0 else map_option Suc (argument_index rest k))"

definition diagnostic_find_argument :: "diagnostic \<Rightarrow> diagnostic_argument_key \<Rightarrow> (diagnostic \<times> nat) option" where
  "diagnostic_find_argument d k =
     (case argument_index (diag_arguments d) k of
        Some i \<Rightarrow> Some (d, i)
      | None \<Rightarrow>
          if length (diag_arguments d) \<ge> diagnostic_max_arguments then None
          else Some (d\<lparr>diag_arguments := diag_arguments d @ [(k, [])]\<rparr>, length (diag_arguments d)))"

text \<open>
  A setter returns whether it succeeded with the new state. The C string form copies with
  \<open>snprintf\<close>, the slice form with \<open>memcpy\<close>; both cut the value one byte short of the array.
\<close>

definition diagnostic_set_argument_cstr ::
    "diagnostic \<Rightarrow> diagnostic_argument_key \<Rightarrow> bytes option \<Rightarrow> bool \<times> diagnostic" where
  "diagnostic_set_argument_cstr d k v =
     (case v of
        None \<Rightarrow> (False, d)
      | Some s \<Rightarrow>
          if k = Argument_None then (False, d)
          else
            (case diagnostic_find_argument d k of
               None \<Rightarrow> (False, d)
             | Some (d', i) \<Rightarrow>
                 (True, d'\<lparr>diag_arguments :=
                    (diag_arguments d')[i := (k, take (diagnostic_max_argument_value - 1) s)]\<rparr>)))"

definition diagnostic_set_argument_text ::
    "diagnostic \<Rightarrow> diagnostic_argument_key \<Rightarrow> text_slice \<Rightarrow> bool \<times> diagnostic" where
  "diagnostic_set_argument_text d k v =
     (if k = Argument_None then (False, d)
      else
        (case diagnostic_find_argument d k of
           None \<Rightarrow> (False, d)
         | Some (d', i) \<Rightarrow>
             (let n = (if length v \<ge> diagnostic_max_argument_value
                       then diagnostic_max_argument_value - 1 else length v)
              in (True, d'\<lparr>diag_arguments := (diag_arguments d')[i := (k, take n v)]\<rparr>))))"

text \<open>Decimal digits, as \<open>snprintf\<close> with \<open>PRIu64\<close> writes them.\<close>

fun decimal_digits :: "nat \<Rightarrow> bytes" where
  "decimal_digits n =
     (if n < 10 then [of_nat (0x30 + n)] else decimal_digits (n div 10) @ [of_nat (0x30 + n mod 10)])"

declare decimal_digits.simps [simp del]

definition diagnostic_set_argument_u64 ::
    "diagnostic \<Rightarrow> diagnostic_argument_key \<Rightarrow> u64 \<Rightarrow> bool \<times> diagnostic" where
  "diagnostic_set_argument_u64 d k v =
     diagnostic_set_argument_cstr d k (Some (take 31 (decimal_digits (unat v))))"

definition diagnostic_add_related_span ::
    "diagnostic \<Rightarrow> source_span \<Rightarrow> diagnostic_span_role \<Rightarrow> bool \<times> diagnostic" where
  "diagnostic_add_related_span d sp r =
     (if length (diag_related_spans d) \<ge> diagnostic_max_related_spans then (False, d)
      else (True, d\<lparr>diag_related_spans :=
                     diag_related_spans d @ [(diagnostic_capture_source_span sp, r)]\<rparr>))"

definition diagnostic_add_note :: "diagnostic \<Rightarrow> wording_key \<Rightarrow> bool \<times> diagnostic" where
  "diagnostic_add_note d k =
     (if length (diag_notes d) \<ge> diagnostic_max_notes then (False, d)
      else (True, d\<lparr>diag_notes := diag_notes d @ [k]\<rparr>))"

definition diagnostic_add_help :: "diagnostic \<Rightarrow> wording_key \<Rightarrow> bool \<times> diagnostic" where
  "diagnostic_add_help d k =
     (if length (diag_help d) \<ge> diagnostic_max_help then (False, d)
      else (True, d\<lparr>diag_help := diag_help d @ [k]\<rparr>))"

definition diagnostic_add_fix ::
    "diagnostic \<Rightarrow> source_span \<Rightarrow> bytes option \<Rightarrow> diagnostic_fix_applicability \<Rightarrow> wording_key
     \<Rightarrow> bool \<times> diagnostic" where
  "diagnostic_add_fix d sp replacement app k =
     (case replacement of
        None \<Rightarrow> (False, d)
      | Some s \<Rightarrow>
          if length (diag_fixes d) \<ge> diagnostic_max_fixes then (False, d)
          else (True, d\<lparr>diag_fixes := diag_fixes d @
                  [\<lparr>fix_span = diagnostic_capture_source_span sp,
                    fix_replacement = take (diagnostic_max_fix_text - 1) s,
                    fix_applicability = app, fix_message_key = k\<rparr>]\<rparr>))"

definition diagnostic_add_trace ::
    "diagnostic \<Rightarrow> wording_key \<Rightarrow> source_span option \<Rightarrow> bool \<times> diagnostic" where
  "diagnostic_add_trace d k sp =
     (if length (diag_trace d) \<ge> diagnostic_max_trace then (False, d)
      else (True, d\<lparr>diag_trace := diag_trace d @
              [\<lparr>trace_message_key = k, trace_span = map_option diagnostic_capture_source_span sp\<rparr>]\<rparr>))"

definition diagnostic_copy :: "diagnostic \<Rightarrow> diagnostic option \<Rightarrow> diagnostic" where
  "diagnostic_copy destination source = (case source of None \<Rightarrow> destination | Some d \<Rightarrow> d)"

section \<open>Reachable diagnostics\<close>

text \<open>
  A diagnostic in use was begun and then changed by any sequence of the operations. The invariant:
  every table stays within its array, the argument keys are distinct and set, every stored text is
  shorter than its array, and the message key has a wording.
\<close>

inductive diagnostic_step :: "diagnostic \<Rightarrow> diagnostic \<Rightarrow> bool" where
  step_message: "diagnostic_step d (diagnostic_set_message_key d k)"
| step_role: "diagnostic_step d (diagnostic_set_primary_role d r)"
| step_cstr: "diagnostic_step d (snd (diagnostic_set_argument_cstr d a v))"
| step_text: "diagnostic_step d (snd (diagnostic_set_argument_text d a t))"
| step_u64: "diagnostic_step d (snd (diagnostic_set_argument_u64 d a n))"
| step_related: "diagnostic_step d (snd (diagnostic_add_related_span d sp r))"
| step_note: "diagnostic_step d (snd (diagnostic_add_note d k))"
| step_help: "diagnostic_step d (snd (diagnostic_add_help d k))"
| step_fix: "diagnostic_step d (snd (diagnostic_add_fix d sp s app k))"
| step_trace: "diagnostic_step d (snd (diagnostic_add_trace d k osp))"

inductive diagnostic_reachable :: "diagnostic \<Rightarrow> bool" where
  reach_begin: "diagnostic_reachable (diagnostic_begin i sp)"
| reach_step: "diagnostic_reachable d \<Longrightarrow> diagnostic_step d d' \<Longrightarrow> diagnostic_reachable d'"

inductive_cases diagnostic_stepE: "diagnostic_step d d'"

definition diagnostic_inv :: "diagnostic \<Rightarrow> bool" where
  "diagnostic_inv d \<longleftrightarrow>
     length (diag_arguments d) \<le> diagnostic_max_arguments
     \<and> length (diag_related_spans d) \<le> diagnostic_max_related_spans
     \<and> length (diag_notes d) \<le> diagnostic_max_notes
     \<and> length (diag_help d) \<le> diagnostic_max_help
     \<and> length (diag_fixes d) \<le> diagnostic_max_fixes
     \<and> length (diag_trace d) \<le> diagnostic_max_trace
     \<and> distinct (map fst (diag_arguments d)) \<and> Argument_None \<notin> fst ` set (diag_arguments d)
     \<and> (\<forall>(a, v) \<in> set (diag_arguments d). length v < diagnostic_max_argument_value)
     \<and> (\<forall>f \<in> set (diag_fixes d). length (fix_replacement f) < diagnostic_max_fix_text)
     \<and> diag_message_key d < diagnostic_wording_key_count"

lemma argument_index_SomeD: "argument_index xs k = Some i \<Longrightarrow> i < length xs \<and> fst (xs ! i) = k"
  by (induction xs k arbitrary: i rule: argument_index.induct) (auto split: if_splits)

lemma argument_index_None: "argument_index xs k = None \<longleftrightarrow> k \<notin> fst ` set xs"
  by (induction xs k rule: argument_index.induct) auto

text \<open>Setting an argument writes its value under its key and leaves the other keys alone.\<close>

definition set_argument_value :: "diagnostic \<Rightarrow> diagnostic_argument_key \<Rightarrow> bytes \<Rightarrow> diagnostic option" where
  "set_argument_value d k v =
     (case diagnostic_find_argument d k of
        None \<Rightarrow> None
      | Some (d', i) \<Rightarrow> Some (d'\<lparr>diag_arguments := (diag_arguments d')[i := (k, v)]\<rparr>))"

lemma set_argument_text_value:
  "diagnostic_set_argument_text d k v =
     (if k = Argument_None then (False, d)
      else (case set_argument_value d k (take (diagnostic_max_argument_value - 1) v) of
              None \<Rightarrow> (False, d) | Some d' \<Rightarrow> (True, d')))"
  by (auto simp: diagnostic_set_argument_text_def set_argument_value_def Let_def
      diagnostic_max_argument_value_def split: option.splits)

lemma set_argument_cstr_value:
  "diagnostic_set_argument_cstr d k v =
     (if v = None \<or> k = Argument_None then (False, d)
      else (case set_argument_value d k (take (diagnostic_max_argument_value - 1) (the v)) of
              None \<Rightarrow> (False, d) | Some d' \<Rightarrow> (True, d')))"
  by (auto simp: diagnostic_set_argument_cstr_def set_argument_value_def split: option.splits)

lemma find_argument_inv:
  assumes "diagnostic_inv d" "k \<noteq> Argument_None" "diagnostic_find_argument d k = Some (d', i)"
  shows "diagnostic_inv d' \<and> i < length (diag_arguments d') \<and> fst (diag_arguments d' ! i) = k
    \<and> (\<forall>k'. k' \<noteq> k \<longrightarrow> map_of (diag_arguments d') k' = map_of (diag_arguments d) k')"
proof (cases "argument_index (diag_arguments d) k")
  case (Some j)
  with assms argument_index_SomeD [OF Some] show ?thesis
    by (simp add: diagnostic_find_argument_def)
next
  case None
  then have "k \<notin> fst ` set (diag_arguments d)"
    using argument_index_None [THEN iffD1] by blast
  with None assms show ?thesis
    by (auto simp: diagnostic_find_argument_def diagnostic_inv_def map_add_def
        diagnostic_max_argument_value_def split: if_splits option.splits)
qed

lemma list_update_pair_keys:
  "i < length xs \<Longrightarrow> fst (xs ! i) = k \<Longrightarrow> map fst (xs[i := (k, v)]) = map fst xs"
  by (metis fst_conv list_update_id map_update nth_map)

lemma map_of_update_at:
  assumes "i < length xs" "fst (xs ! i) = k" "distinct (map fst xs)"
  shows "map_of (xs[i := (k, v)]) k' = (if k' = k then Some v else map_of xs k')"
  using assms
proof (induction xs arbitrary: i)
  case (Cons x xs)
  show ?case
  proof (cases i)
    case 0
    with Cons.prems show ?thesis
      by (cases x) auto
  next
    case (Suc j)
    then have "k \<in> fst ` set xs"
      using Cons.prems(1,2) nth_mem [of j xs] by (auto simp: image_iff)
    with Cons.prems(3) have "fst x \<noteq> k"
      by auto
    with Suc Cons show ?thesis
      by (cases x) auto
  qed
qed simp

lemma set_argument_value_step:
  assumes inv: "diagnostic_inv d" and k: "k \<noteq> Argument_None"
    and v: "length v < diagnostic_max_argument_value" and set: "set_argument_value d k v = Some d'"
  shows "diagnostic_inv d'
    \<and> map_of (diag_arguments d') = (map_of (diag_arguments d))(k \<mapsto> v)"
proof -
  obtain e i where e: "diagnostic_find_argument d k = Some (e, i)"
      and d': "d' = e\<lparr>diag_arguments := (diag_arguments e)[i := (k, v)]\<rparr>"
    using set by (auto simp: set_argument_value_def split: option.splits)
  note f = find_argument_inv [OF inv k e]
  then have keys: "map fst (diag_arguments d') = map fst (diag_arguments e)"
    by (simp add: d' list_update_pair_keys)
  have "diagnostic_inv d'"
    using f v arg_cong [OF keys, of set] arg_cong [OF keys, of distinct]
    by (auto simp: diagnostic_inv_def d' dest!: set_update_subset_insert [THEN subsetD])
  moreover have "map_of (diag_arguments d') k' = ((map_of (diag_arguments d))(k \<mapsto> v)) k'" for k'
    using f map_of_update_at [of i "diag_arguments e" k v k'] by (simp add: d' diagnostic_inv_def)
  ultimately show ?thesis
    by blast
qed

lemma set_argument_text_inv: "diagnostic_inv d \<Longrightarrow> diagnostic_inv (snd (diagnostic_set_argument_text d k v))"
  using set_argument_value_step [of d k "take (diagnostic_max_argument_value - 1) v"]
  by (auto simp: set_argument_text_value diagnostic_max_argument_value_def split: option.splits)

lemma set_argument_cstr_inv: "diagnostic_inv d \<Longrightarrow> diagnostic_inv (snd (diagnostic_set_argument_cstr d k v))"
  using set_argument_value_step [of d k "take (diagnostic_max_argument_value - 1) (the v)"]
  by (auto simp: set_argument_cstr_value diagnostic_max_argument_value_def split: option.splits)

lemma definitions_keys: "list_all (\<lambda>r. def_message_key r < diagnostic_wording_key_count) diagnostic_definitions"
  by (simp add: diagnostic_definitions_def diagnostic_wording_key_count_def)

lemma default_message_key_bound: "diagnostic_default_message_key i < diagnostic_wording_key_count"
  using definitions_keys
  by (auto simp: diagnostic_default_message_key_def diagnostic_definition_for_def error_id_count_def
      list_all_length diagnostic_wording_key_count_def)

lemma diagnostic_begin_inv: "diagnostic_inv (diagnostic_begin i sp)"
  using default_message_key_bound [of i]
  by (simp add: diagnostic_inv_def diagnostic_begin_def diagnostic_reset_def)

lemma diagnostic_step_inv: "diagnostic_step d d' \<Longrightarrow> diagnostic_inv d \<Longrightarrow> diagnostic_inv d'"
proof (induction rule: diagnostic_step.induct)
  case (step_cstr d a v)
  then show ?case by (rule set_argument_cstr_inv)
next
  case (step_text d a t)
  then show ?case by (rule set_argument_text_inv)
next
  case (step_u64 d a n)
  then show ?case
    unfolding diagnostic_set_argument_u64_def by (rule set_argument_cstr_inv)
next
  case (step_fix d sp s app k)
  then show ?case
    by (auto simp: diagnostic_inv_def diagnostic_add_fix_def diagnostic_max_fix_text_def
        split: option.splits)
qed (auto simp: diagnostic_inv_def diagnostic_set_message_key_def diagnostic_set_primary_role_def
    diagnostic_add_related_span_def diagnostic_add_note_def diagnostic_add_help_def
    diagnostic_add_trace_def)

section \<open>Properties\<close>



text \<open>
  Setting an argument from a slice updates the argument table as a map: the key gets the first
  255 bytes of the text, every other key keeps its value; it fails, changing nothing, exactly when
  the key is none or a thirteenth key would be needed.
\<close>

theorem diagnostic_set_argument_map:
  assumes "diagnostic_reachable d"
  shows "(case diagnostic_set_argument_text d k v of
      (True, d') \<Rightarrow> map_of (diag_arguments d') = (map_of (diag_arguments d))(k \<mapsto> take 255 v)
    | (False, d') \<Rightarrow> d' = d \<and> (k = Argument_None
          \<or> (map_of (diag_arguments d) k = None \<and> length (diag_arguments d) = 12)))"
proof -
  have inv: "diagnostic_inv d"
    using assms by induction (auto intro: diagnostic_begin_inv diagnostic_step_inv)
  have v: "length (take 255 v) < diagnostic_max_argument_value"
    by (simp add: diagnostic_max_argument_value_def)
  show ?thesis
  proof (cases "k = Argument_None")
    case False
    show ?thesis
    proof (cases "set_argument_value d k (take 255 v)")
      case None
      then have "map_of (diag_arguments d) k = None \<and> length (diag_arguments d) = 12"
        using inv argument_index_None [of "diag_arguments d" k]
        by (auto simp: set_argument_value_def diagnostic_find_argument_def diagnostic_inv_def
            diagnostic_max_arguments_def map_of_eq_None_iff split: option.splits if_splits)
      with None show ?thesis
        by (simp add: set_argument_text_value diagnostic_max_argument_value_def)
    next
      case (Some d')
      with set_argument_value_step [OF inv False v Some] False show ?thesis
        by (simp add: set_argument_text_value diagnostic_max_argument_value_def)
    qed
  qed (simp add: set_argument_text_value)
qed

theorem diagnostic_set_argument_map_witness:
  "map_of (diag_arguments (snd (diagnostic_set_argument_text (diagnostic_begin 0 zero_span)
     Argument_Value [0x41]))) = [Argument_Value \<mapsto> [0x41]]"
  using diagnostic_set_argument_map [OF reach_begin, of 0 zero_span Argument_Value "[0x41]"]
  by (auto simp: diagnostic_set_argument_text_def diagnostic_find_argument_def diagnostic_begin_def
      diagnostic_reset_def diagnostic_max_arguments_def)



end
