(* ===== verification/Lexer_Cursor.thy ===== *)
theory Lexer_Cursor
  imports Token Diagnostic Arena
begin

text \<open>
  The lexer's state and cursor: \<open>bootstrap/include/private/frontend/lexer/lexer.h\<close>, the files
  \<open>lexer_cursor_*.c\<close>, \<open>lexer_lifecycle_*.c\<close> and \<open>lexer_character_*.c\<close> under
  \<open>bootstrap/src/frontend/lexer/\<close>.

  A function that sets \<open>*__Out_Token__\<close> and returns 1 gives the token, one that returns 0 gives
  \<open>None\<close>. Offsets are numbers: they never exceed the length of the source, so no \<open>size_t\<close> sum
  wraps. The state carries the answers \<open>malloc\<close> and \<open>realloc\<close> will give, \<open>lexer_heap\<close>: each
  operation that may allocate uses up the first of them.
\<close>

section \<open>State\<close>

record lexer =
  lexer_source :: "source_file option"
  lexer_offset :: nat
  lexer_line :: u32
  lexer_column :: u32
  lexer_arena :: arena
  lexer_diagnostic :: diagnostic
  lexer_failed :: bool
  lexer_heap :: "nat \<Rightarrow> bool"

definition lexer_init :: "(nat \<Rightarrow> bool) \<Rightarrow> source_file option \<Rightarrow> lexer" where
  "lexer_init heap source =
     \<lparr>lexer_source = source, lexer_offset = 0, lexer_line = 1, lexer_column = 0,
      lexer_arena = arena_init 4096, lexer_diagnostic = diagnostic_reset, lexer_failed = False,
      lexer_heap = heap\<rparr>"

definition lexer_destroy :: "lexer \<Rightarrow> lexer" where
  "lexer_destroy l = l\<lparr>lexer_arena := arena_destroy (lexer_arena l), lexer_source := None\<rparr>"

definition lexer_diagnostic_view :: "lexer option \<Rightarrow> diagnostic option" where
  "lexer_diagnostic_view l =
     (case l of None \<Rightarrow> None | Some x \<Rightarrow> if \<not> lexer_failed x then None else Some (lexer_diagnostic x))"

definition lexer_bytes :: "lexer \<Rightarrow> bytes" where
  "lexer_bytes l = (case lexer_source l of None \<Rightarrow> [] | Some s \<Rightarrow> source_bytes s)"

definition lexer_has :: "lexer \<Rightarrow> nat \<Rightarrow> bool" where
  "lexer_has l n \<longleftrightarrow> lexer_offset l + n \<le> length (lexer_bytes l)"

definition lexer_peek :: "lexer \<Rightarrow> nat \<Rightarrow> u8" where
  "lexer_peek l ahead =
     (if \<not> lexer_has l (ahead + 1) then 0 else lexer_bytes l ! (lexer_offset l + ahead))"

text \<open>The body of the loop of \<open>__Lexer_Advance_Bytes__\<close>, and the loop.\<close>

definition lexer_count_byte :: "lexer \<Rightarrow> lexer" where
  "lexer_count_byte l =
     (let byte = lexer_peek l 0; l1 = l\<lparr>lexer_offset := lexer_offset l + 1\<rparr>
      in if byte = 0x0A then l1\<lparr>lexer_line := lexer_line l1 + 1, lexer_column := 0\<rparr>
         else if \<not> utf8_is_continuation_byte byte then l1\<lparr>lexer_column := lexer_column l1 + 1\<rparr>
         else l1)"

fun lexer_advance_bytes :: "nat \<Rightarrow> lexer \<Rightarrow> lexer" where
  "lexer_advance_bytes 0 l = l"
| "lexer_advance_bytes (Suc n) l =
     (if \<not> lexer_has l 1 then l else lexer_advance_bytes n (lexer_count_byte l))"

definition lexer_matches :: "lexer \<Rightarrow> bytes \<Rightarrow> bool" where
  "lexer_matches l t \<longleftrightarrow>
     lexer_has l (length t) \<and> take (length t) (drop (lexer_offset l) (lexer_bytes l)) = t"

definition lexer_position :: "lexer \<Rightarrow> source_position" where
  "lexer_position l =
     \<lparr>pos_source = lexer_source l, pos_offset = lexer_offset l, pos_line = lexer_line l,
      pos_column = lexer_column l\<rparr>"

definition lexer_fail :: "lexer \<Rightarrow> error_id \<Rightarrow> source_position \<Rightarrow> wording_key \<Rightarrow> lexer" where
  "lexer_fail l i start key =
     l\<lparr>lexer_diagnostic :=
         diagnostic_set_message_key
           (diagnostic_begin i \<lparr>span_start = start, span_end = lexer_position l\<rparr>) key,
       lexer_failed := True\<rparr>"

section \<open>Tokens\<close>

definition lexer_set_token_header ::
    "lexer \<Rightarrow> token_kind \<Rightarrow> source_position \<Rightarrow> nat \<Rightarrow> token_payload \<Rightarrow> token" where
  "lexer_set_token_header l k start start_offset payload =
     \<lparr>token_kind_of = k,
      token_span = \<lparr>span_start = start, span_end = lexer_position l\<rparr>,
      token_lexeme = source_slice (lexer_source l) start_offset (lexer_offset l),
      token_payload = payload\<rparr>"

definition lexer_require_payload_kind ::
    "lexer \<Rightarrow> token_kind \<Rightarrow> token_payload_kind \<Rightarrow> source_position \<Rightarrow> lexer \<times> bool" where
  "lexer_require_payload_kind l k expected start =
     (if token_payload_kind_of k = expected then (l, True)
      else (lexer_fail l E1100_Internal_Context_Error start Diag_Word_E1100, False))"

text \<open>
  The six setters require the payload kind of the member they write and set the header, which
  zeroes the union, and then the member.
\<close>

definition lexer_set_token_payload ::
    "token_payload \<Rightarrow> lexer \<Rightarrow> token_kind \<Rightarrow> source_position \<Rightarrow> nat \<Rightarrow> lexer \<times> token option" where
  "lexer_set_token_payload p l k start start_offset =
     (case lexer_require_payload_kind l k (payload_kind p) start of
        (l', ok) \<Rightarrow>
          if \<not> ok then (l', None) else (l', Some (lexer_set_token_header l' k start start_offset p)))"

definition lexer_set_token :: "lexer \<Rightarrow> token_kind \<Rightarrow> source_position \<Rightarrow> nat \<Rightarrow> lexer \<times> token option" where
  "lexer_set_token = lexer_set_token_payload No_Payload"

definition lexer_set_token_index ::
    "lexer \<Rightarrow> token_kind \<Rightarrow> source_position \<Rightarrow> nat \<Rightarrow> i64 \<Rightarrow> lexer \<times> token option" where
  "lexer_set_token_index l k start i v = lexer_set_token_payload (Index_Payload v) l k start i"

definition lexer_set_token_integer ::
    "lexer \<Rightarrow> token_kind \<Rightarrow> source_position \<Rightarrow> nat \<Rightarrow> integer_literal \<Rightarrow> lexer \<times> token option" where
  "lexer_set_token_integer l k start i v = lexer_set_token_payload (Integer_Payload v) l k start i"

definition lexer_set_token_text ::
    "lexer \<Rightarrow> token_kind \<Rightarrow> source_position \<Rightarrow> nat \<Rightarrow> text_slice \<Rightarrow> lexer \<times> token option" where
  "lexer_set_token_text l k start i v = lexer_set_token_payload (Text_Payload v) l k start i"

definition lexer_set_token_character ::
    "lexer \<Rightarrow> token_kind \<Rightarrow> source_position \<Rightarrow> nat \<Rightarrow> u32 \<Rightarrow> lexer \<times> token option" where
  "lexer_set_token_character l k start i v = lexer_set_token_payload (Character_Payload v) l k start i"

definition lexer_set_token_boolean ::
    "lexer \<Rightarrow> token_kind \<Rightarrow> source_position \<Rightarrow> nat \<Rightarrow> bool \<Rightarrow> lexer \<times> token option" where
  "lexer_set_token_boolean l k start i v = lexer_set_token_payload (Boolean_Payload v) l k start i"

section \<open>Characters\<close>

definition lexer_is_decimal_digit :: "u8 \<Rightarrow> bool" where
  "lexer_is_decimal_digit b \<longleftrightarrow> b \<ge> 0x30 \<and> b \<le> 0x39"

definition lexer_is_hex_digit :: "u8 \<Rightarrow> bool" where
  "lexer_is_hex_digit b \<longleftrightarrow>
     lexer_is_decimal_digit b \<or> (b \<ge> 0x61 \<and> b \<le> 0x66) \<or> (b \<ge> 0x41 \<and> b \<le> 0x46)"

text \<open>\<open>None\<close> is the result -1.\<close>

definition lexer_hex_value :: "u8 \<Rightarrow> nat option" where
  "lexer_hex_value b =
     (if b \<ge> 0x30 \<and> b \<le> 0x39 then Some (unat (b - 0x30))
      else if b \<ge> 0x61 \<and> b \<le> 0x66 then Some (10 + unat (b - 0x61))
      else if b \<ge> 0x41 \<and> b \<le> 0x46 then Some (10 + unat (b - 0x41))
      else None)"

definition lexer_is_id_start :: "u32 \<Rightarrow> bool" where
  "lexer_is_id_start c \<longleftrightarrow>
     (c \<ge> 0x0041 \<and> c \<le> 0x005A) \<or> (c \<ge> 0x0061 \<and> c \<le> 0x007A) \<or>
     (c \<ge> 0x0621 \<and> c \<le> 0x063A) \<or> (c \<ge> 0x0641 \<and> c \<le> 0x064A) \<or>
     (c \<ge> 0x066E \<and> c \<le> 0x066F) \<or> (c \<ge> 0x0671 \<and> c \<le> 0x06D3) \<or>
     (c \<ge> 0x06E5 \<and> c \<le> 0x06E6) \<or> (c \<ge> 0x06EE \<and> c \<le> 0x06EF) \<or>
     (c \<ge> 0x06FA \<and> c \<le> 0x06FC) \<or> (c \<ge> 0x0750 \<and> c \<le> 0x077F) \<or>
     (c \<ge> 0x08A0 \<and> c \<le> 0x08C9) \<or> c = 0x005F \<or> c = 0x06D5 \<or> c = 0x06FF \<or>
     identity_ignores_scalar c"

definition lexer_is_id_rest :: "u32 \<Rightarrow> bool" where
  "lexer_is_id_rest c \<longleftrightarrow>
     lexer_is_id_start c \<or>
     (c \<ge> 0x0030 \<and> c \<le> 0x0039) \<or> (c \<ge> 0x064B \<and> c \<le> 0x065F) \<or>
     (c \<ge> 0x0660 \<and> c \<le> 0x0669) \<or> (c \<ge> 0x06D6 \<and> c \<le> 0x06DC) \<or>
     (c \<ge> 0x06DF \<and> c \<le> 0x06E4) \<or> (c \<ge> 0x06E7 \<and> c \<le> 0x06E8) \<or>
     (c \<ge> 0x06EA \<and> c \<le> 0x06ED) \<or> (c \<ge> 0x06F0 \<and> c \<le> 0x06F9) \<or>
     (c \<ge> 0x08D3 \<and> c \<le> 0x08FF) \<or> c = 0x0670"

section \<open>The position of an offset\<close>

text \<open>
  The line is one more than the newlines before the offset, the column the number of scalar
  starts since the last of them, both modulo 2^32.
\<close>

definition line_column :: "bytes \<Rightarrow> u32 \<times> u32" where
  "line_column bs =
     (1 + of_nat (count_list bs 0x0A),
      of_nat (length (filter (\<lambda>b. \<not> utf8_is_continuation_byte b) (takeWhile (\<lambda>b. b \<noteq> 0x0A) (rev bs)))))"

lemma line_column_Nil [simp]: "line_column [] = (1, 0)"
  by (simp add: line_column_def)

lemma line_column_snoc:
  "line_column (bs @ [b]) =
     (if b = 0x0A then (fst (line_column bs) + 1, 0)
      else if \<not> utf8_is_continuation_byte b then (fst (line_column bs), snd (line_column bs) + 1)
      else line_column bs)"
  by (simp add: line_column_def)

text \<open>The state with its cursor moved to another offset of its source.\<close>

definition at_offset :: "source_file \<Rightarrow> lexer \<Rightarrow> nat \<Rightarrow> lexer" where
  "at_offset s l k =
     l\<lparr>lexer_offset := k, lexer_line := fst (line_column (take k (source_bytes s))),
       lexer_column := snd (line_column (take k (source_bytes s)))\<rparr>"

definition cursor_at :: "source_file \<Rightarrow> lexer \<Rightarrow> bool" where
  "cursor_at s l \<longleftrightarrow>
     lexer_source l = Some s \<and> lexer_offset l \<le> length (source_bytes s)
     \<and> (lexer_line l, lexer_column l) = line_column (take (lexer_offset l) (source_bytes s))"

lemma at_offset_simps [simp]:
  "lexer_source (at_offset s l k) = lexer_source l"
  "lexer_offset (at_offset s l k) = k"
  "lexer_arena (at_offset s l k) = lexer_arena l"
  "lexer_diagnostic (at_offset s l k) = lexer_diagnostic l"
  "lexer_failed (at_offset s l k) = lexer_failed l"
  "lexer_heap (at_offset s l k) = lexer_heap l"
  "at_offset s (at_offset s l k) j = at_offset s l j"
  by (simp_all add: at_offset_def)

lemma at_offset_same: "cursor_at s l \<Longrightarrow> at_offset s l (lexer_offset l) = l"
  by (auto simp: cursor_at_def at_offset_def prod_eq_iff)

lemma cursor_at_source: "cursor_at s l \<Longrightarrow> lexer_source l = Some s"
  by (simp add: cursor_at_def)

lemma cursor_at_bytes: "cursor_at s l \<Longrightarrow> lexer_bytes l = source_bytes s"
  by (simp add: cursor_at_def lexer_bytes_def)

lemma cursor_at_le: "cursor_at s l \<Longrightarrow> lexer_offset l \<le> length (source_bytes s)"
  by (simp add: cursor_at_def)

lemma cursor_at_offset [simp]:
  "cursor_at s l \<Longrightarrow> k \<le> length (source_bytes s) \<Longrightarrow> cursor_at s (at_offset s l k)"
  by (simp add: cursor_at_def at_offset_def)

lemma cursor_at_init: "cursor_at s (lexer_init heap (Some s))"
  by (simp add: cursor_at_def lexer_init_def)

lemma lexer_has_at: "cursor_at s l \<Longrightarrow> lexer_has l n \<longleftrightarrow> lexer_offset l + n \<le> length (source_bytes s)"
  by (simp add: lexer_has_def cursor_at_bytes)

lemma lexer_advance_at:
  "cursor_at s l \<Longrightarrow>
     lexer_advance_bytes n l = at_offset s l (min (lexer_offset l + n) (length (source_bytes s)))"
proof (induction n arbitrary: l)
  case 0
  then show ?case
    by (simp add: min_absorb1 at_offset_same cursor_at_le)
next
  case (Suc n)
  let ?bs = "source_bytes s" and ?o = "lexer_offset l"
  show ?case
  proof (cases "?o < length ?bs")
    case False
    with Suc.prems have "?o = length ?bs" "\<not> lexer_has l 1"
      using cursor_at_le [OF Suc.prems] by (auto simp: lexer_has_at)
    with at_offset_same [OF Suc.prems] show ?thesis
      by (simp add: min_def)
  next
    case True
    then have peek: "lexer_has l 1" "lexer_peek l 0 = ?bs ! ?o"
      using Suc.prems by (simp_all add: lexer_has_at lexer_peek_def cursor_at_bytes)
    have pos: "line_column (take ?o ?bs) = (lexer_line l, lexer_column l)"
      using Suc.prems by (simp add: cursor_at_def)
    have next_pos: "line_column (take (Suc ?o) ?bs) =
       (if ?bs ! ?o = 0x0A then (lexer_line l + 1, 0)
        else if \<not> utf8_is_continuation_byte (?bs ! ?o) then (lexer_line l, lexer_column l + 1)
        else (lexer_line l, lexer_column l))"
      unfolding take_Suc_conv_app_nth [OF True] line_column_snoc pos by simp
    have "lexer_advance_bytes (Suc n) l = lexer_advance_bytes n (at_offset s l (Suc ?o))"
      using peek next_pos by (simp add: lexer_count_byte_def Let_def at_offset_def)
    also have "\<dots> = at_offset s l (min (Suc ?o + n) (length ?bs))"
      using Suc.IH [of "at_offset s l (Suc ?o)"] Suc.prems True by simp
    finally show ?thesis
      by simp
  qed
qed

lemma lexer_advance_at_le:
  "cursor_at s l \<Longrightarrow> lexer_offset l + n \<le> length (source_bytes s) \<Longrightarrow>
     lexer_advance_bytes n l = at_offset s l (lexer_offset l + n)"
  by (simp add: lexer_advance_at)

lemma lexer_peek_at:
  "cursor_at s l \<Longrightarrow>
     lexer_peek l i = (if lexer_offset l + i < length (source_bytes s)
                       then source_bytes s ! (lexer_offset l + i) else 0)"
  by (auto simp: lexer_peek_def lexer_has_at cursor_at_bytes)

lemma lexer_matches_at:
  "cursor_at s l \<Longrightarrow>
     lexer_matches l t \<longleftrightarrow> take (length t) (drop (lexer_offset l) (source_bytes s)) = t"
proof -
  assume c: "cursor_at s l"
  have "lexer_offset l + length t \<le> length (source_bytes s)"
    if "take (length t) (drop (lexer_offset l) (source_bytes s)) = t"
    using arg_cong [OF that, of length] cursor_at_le [OF c] by simp
  with c show ?thesis
    by (auto simp: lexer_matches_def lexer_has_at cursor_at_bytes)
qed

lemma lexer_matches_has:
  "cursor_at s l \<Longrightarrow> lexer_matches l t \<Longrightarrow> lexer_offset l + length t \<le> length (source_bytes s)"
  by (simp add: lexer_matches_def lexer_has_at)

section \<open>Loops over bytes\<close>

text \<open>
  The loops \<open>while (has 1 and test (peek 0)) advance 1\<close> of the lexer. A step moves the offset
  forward within the source, so they end.
\<close>

lemma lexer_advance_one_offset:
  "lexer_has l 1 \<Longrightarrow> lexer_offset (lexer_advance_bytes 1 l) = lexer_offset l + 1
     \<and> lexer_bytes (lexer_advance_bytes 1 l) = lexer_bytes l"
  by (simp add: lexer_count_byte_def Let_def lexer_bytes_def)

function lexer_scan_while :: "(u8 \<Rightarrow> bool) \<Rightarrow> lexer \<Rightarrow> lexer" where
  "lexer_scan_while test l =
     (if lexer_has l 1 \<and> test (lexer_peek l 0) then lexer_scan_while test (lexer_advance_bytes 1 l)
      else l)"
  by pat_completeness auto

termination lexer_scan_while
proof (relation "measure (\<lambda>(_, l). length (lexer_bytes l) - lexer_offset l)", simp)
  fix test l
  assume "lexer_has l 1 \<and> test (lexer_peek l 0)"
  then show "((test, lexer_advance_bytes 1 l), (test, l))
      \<in> measure (\<lambda>(_, l). length (lexer_bytes l) - lexer_offset l)"
    using lexer_advance_one_offset [of l] by (auto simp: lexer_has_def simp del: lexer_advance_bytes.simps)
qed

declare lexer_scan_while.simps [simp del] lexer_advance_bytes.simps [simp del]

text \<open>The bytes a loop passes over are the longest run that meets the test.\<close>

lemma lexer_scan_while_at:
  "cursor_at s l \<Longrightarrow>
     lexer_scan_while test l =
       at_offset s l (lexer_offset l + length (takeWhile test (drop (lexer_offset l) (source_bytes s))))"
proof (induction test l rule: lexer_scan_while.induct)
  case (1 test l)
  let ?bs = "source_bytes s" and ?o = "lexer_offset l"
  show ?case
  proof (cases "lexer_has l 1 \<and> test (lexer_peek l 0)")
    case True
    then have o: "?o < length ?bs" "test (?bs ! ?o)"
      using "1.prems" by (auto simp: lexer_has_at lexer_peek_at)
    have adv: "lexer_advance_bytes 1 l = at_offset s l (?o + 1)"
      using "1.prems" o by (subst lexer_advance_at_le) simp_all
    have "lexer_scan_while test l = lexer_scan_while test (at_offset s l (?o + 1))"
      using True adv by (simp add: lexer_scan_while.simps [of test l])
    also have "\<dots> = at_offset s l (?o + 1 + length (takeWhile test (drop (?o + 1) ?bs)))"
      using "1.IH" [OF True] "1.prems" o unfolding adv by simp
    finally show ?thesis
      using o by (simp add: Cons_nth_drop_Suc [OF o(1), symmetric])
  next
    case False
    then have "takeWhile test (drop ?o ?bs) = []"
      using "1.prems" cursor_at_le [OF "1.prems"]
      by (cases "?o < length ?bs")
        (auto simp: lexer_has_at lexer_peek_at Cons_nth_drop_Suc [symmetric])
    with False "1.prems" show ?thesis
      by (auto simp: lexer_scan_while.simps [of test l] at_offset_same)
  qed
qed

lemma takeWhile_drop_le: "k \<le> length xs \<Longrightarrow> k + length (takeWhile P (drop k xs)) \<le> length xs"
  using length_takeWhile_le [of P "drop k xs"] by simp

section \<open>What a scanning routine establishes\<close>

text \<open>
  The state invariant: the cursor is at a position of its source, and the literal arena is sound.
  \<open>lexer_granting\<close> says that the allocator will not refuse anything.
\<close>

definition lexer_inv :: "source_file \<Rightarrow> lexer \<Rightarrow> bool" where
  "lexer_inv s l \<longleftrightarrow> cursor_at s l \<and> arena_inv (lexer_arena l)"

definition lexer_granting :: "lexer \<Rightarrow> bool" where
  "lexer_granting l \<longleftrightarrow> lexer_heap l = (\<lambda>_. True)"

text \<open>A move keeps the source, goes forward, and does not report a failure.\<close>

definition lexer_moves :: "source_file \<Rightarrow> lexer \<Rightarrow> lexer \<Rightarrow> bool" where
  "lexer_moves s l l' \<longleftrightarrow>
     lexer_inv s l' \<and> lexer_offset l \<le> lexer_offset l'
     \<and> (lexer_granting l \<longrightarrow> lexer_granting l')"

definition lexer_scanned :: "source_file \<Rightarrow> lexer \<Rightarrow> source_position \<Rightarrow> lexer \<times> token option \<Rightarrow> bool" where
  "lexer_scanned s l start r \<longleftrightarrow>
     lexer_moves s l (fst r)
     \<and> (case snd r of
          None \<Rightarrow> lexer_granting l \<longrightarrow> lexer_failed (fst r)
        | Some t \<Rightarrow>
            lexer_failed (fst r) = lexer_failed l \<and> token_wf t
            \<and> token_lexeme t = source_slice (Some s) (pos_offset start) (lexer_offset (fst r))
            \<and> token_span t = \<lparr>span_start = start, span_end = lexer_position (fst r)\<rparr>)"

lemma lexer_moves_refl: "lexer_inv s l \<Longrightarrow> lexer_moves s l l"
  by (simp add: lexer_moves_def)

lemma lexer_moves_trans: "lexer_moves s l l' \<Longrightarrow> lexer_moves s l' l'' \<Longrightarrow> lexer_moves s l l''"
  by (auto simp: lexer_moves_def)

lemma lexer_moves_at:
  "lexer_inv s l \<Longrightarrow> lexer_offset l \<le> k \<Longrightarrow> k \<le> length (source_bytes s) \<Longrightarrow>
     lexer_moves s l (at_offset s l k)"
  by (simp add: lexer_moves_def lexer_inv_def lexer_granting_def)

lemma lexer_fail_simps [simp]:
  "lexer_source (lexer_fail l i st key) = lexer_source l"
  "lexer_offset (lexer_fail l i st key) = lexer_offset l"
  "lexer_line (lexer_fail l i st key) = lexer_line l"
  "lexer_column (lexer_fail l i st key) = lexer_column l"
  "lexer_arena (lexer_fail l i st key) = lexer_arena l"
  "lexer_heap (lexer_fail l i st key) = lexer_heap l"
  "lexer_failed (lexer_fail l i st key)"
  by (simp_all add: lexer_fail_def)

lemma lexer_fail_inv [simp]: "lexer_inv s (lexer_fail l i st key) = lexer_inv s l"
  by (simp add: lexer_inv_def cursor_at_def)

lemma lexer_moves_fail [simp]: "lexer_moves s l (lexer_fail l' i st key) = lexer_moves s l l'"
  by (simp add: lexer_moves_def lexer_granting_def)

lemma lexer_scanned_fail: "lexer_moves s l l' \<Longrightarrow> lexer_scanned s l start (lexer_fail l' i st key, None)"
  by (simp add: lexer_scanned_def)

lemma lexer_scanned_trans:
  "lexer_moves s l l' \<Longrightarrow> lexer_failed l' = lexer_failed l \<Longrightarrow> lexer_scanned s l' start r \<Longrightarrow>
     lexer_scanned s l start r"
  by (auto simp: lexer_scanned_def lexer_moves_def split: option.splits)

lemma lexer_set_token_payload_scanned:
  assumes "lexer_moves s l l'" "lexer_failed l' = lexer_failed l"
    and "token_payload_kind_of k = payload_kind p" "i = pos_offset start"
  shows "lexer_scanned s l start (lexer_set_token_payload p l' k start i)
    \<and> snd (lexer_set_token_payload p l' k start i) = Some (lexer_set_token_header l' k start i p)
    \<and> fst (lexer_set_token_payload p l' k start i) = l'"
proof -
  have "lexer_source l' = Some s"
    using assms(1) by (auto simp: lexer_moves_def lexer_inv_def cursor_at_def)
  with assms show ?thesis
    by (simp add: lexer_set_token_payload_def lexer_require_payload_kind_def lexer_scanned_def
        lexer_set_token_header_def token_wf_def)
qed

lemmas lexer_set_token_scanned =
  lexer_set_token_payload_scanned [of _ _ _ _ No_Payload, simplified payload_kind_def token_payload.case,
    folded lexer_set_token_def]

lemmas lexer_set_defs =
  lexer_set_token_def lexer_set_token_index_def lexer_set_token_integer_def lexer_set_token_text_def
  lexer_set_token_character_def lexer_set_token_boolean_def

text \<open>
  A shift only moves the cursor; every routine that does nothing but look and advance is one.
\<close>

definition lexer_shifts :: "source_file \<Rightarrow> lexer \<Rightarrow> lexer \<Rightarrow> bool" where
  "lexer_shifts s l l' \<longleftrightarrow>
     (\<exists>k. lexer_offset l \<le> k \<and> k \<le> length (source_bytes s) \<and> l' = at_offset s l k)"

lemma lexer_shifts_at:
  "lexer_offset l \<le> k \<Longrightarrow> k \<le> length (source_bytes s) \<Longrightarrow> lexer_shifts s l (at_offset s l k)"
  by (auto simp: lexer_shifts_def)

lemma lexer_shifts_refl: "cursor_at s l \<Longrightarrow> lexer_shifts s l l"
  using lexer_shifts_at [of l "lexer_offset l" s] by (simp add: at_offset_same cursor_at_le)

lemma lexer_shifts_trans:
  assumes "lexer_shifts s l l'" "lexer_shifts s l' l''"
  shows "lexer_shifts s l l''"
proof -
  obtain k where k: "lexer_offset l \<le> k" "l' = at_offset s l k"
    using assms(1) by (auto simp: lexer_shifts_def)
  obtain j where "k \<le> j" "j \<le> length (source_bytes s)" "l'' = at_offset s l j"
    using assms(2) k(2) by (auto simp: lexer_shifts_def)
  with k(1) show ?thesis
    by (simp add: lexer_shifts_at)
qed

lemma lexer_shifts_cursor: "lexer_shifts s l l' \<Longrightarrow> cursor_at s l \<Longrightarrow> cursor_at s l'"
  by (auto simp: lexer_shifts_def)

lemma lexer_shifts_le: "lexer_shifts s l l' \<Longrightarrow> lexer_offset l \<le> lexer_offset l'"
  by (auto simp: lexer_shifts_def)

lemma lexer_shifts_failed: "lexer_shifts s l l' \<Longrightarrow> lexer_failed l' = lexer_failed l"
  by (auto simp: lexer_shifts_def)

lemma lexer_shifts_moves: "lexer_shifts s l l' \<Longrightarrow> lexer_inv s l \<Longrightarrow> lexer_moves s l l'"
  by (auto simp: lexer_shifts_def intro: lexer_moves_at)

lemma lexer_shifts_advance: "cursor_at s l \<Longrightarrow> lexer_shifts s l (lexer_advance_bytes n l)"
  unfolding lexer_advance_at by (rule lexer_shifts_at) (simp_all add: cursor_at_le)

lemma lexer_shifts_scan_while: "cursor_at s l \<Longrightarrow> lexer_shifts s l (lexer_scan_while test l)"
  unfolding lexer_scan_while_at by (rule lexer_shifts_at) (simp_all add: takeWhile_drop_le cursor_at_le)

lemma lexer_scan_while_progress:
  assumes "cursor_at s l" "lexer_has l 1" "test (lexer_peek l 0)"
  shows "lexer_offset l < lexer_offset (lexer_scan_while test l)"
proof -
  have "lexer_offset l < length (source_bytes s)" "test (source_bytes s ! lexer_offset l)"
    using assms by (auto simp: lexer_has_at lexer_peek_at)
  then have "takeWhile test (drop (lexer_offset l) (source_bytes s)) \<noteq> []"
    by (simp add: Cons_nth_drop_Suc [symmetric])
  then show ?thesis
    by (simp add: lexer_scan_while_at [OF assms(1)])
qed

end
