(* ===== verification/Lexer_Number.thy ===== *)
theory Lexer_Number
  imports Lexer_Cursor
begin

text \<open>
  Number literals: \<open>bootstrap/src/frontend/lexer/lexer_number.c\<close>. The value of an integer
  spelling is related to the positional value of its digits; the scanner is shown to stay within
  the source and to produce well-formed tokens.
\<close>

section \<open>Spellings\<close>

definition lexer_digit_for_base :: "u8 \<Rightarrow> nat \<Rightarrow> bool" where
  "lexer_digit_for_base b base =
     (if base = 2 then b = 0x30 \<or> b = 0x31
      else if base = 16 then lexer_is_hex_digit b
      else lexer_is_decimal_digit b)"

text \<open>The prefix tests on \<open>0b\<close> and \<open>0x\<close>.\<close>

definition spelling_base :: "bytes \<Rightarrow> nat" where
  "spelling_base t =
     (if length t \<ge> 2 \<and> t ! 0 = 0x30 \<and> t ! 1 = 0x62 then 2
      else if length t \<ge> 2 \<and> t ! 0 = 0x30 \<and> t ! 1 = 0x78 then 16
      else 10)"

definition lexer_number_separators_valid :: "text_slice \<Rightarrow> bool" where
  "lexer_number_separators_valid t \<longleftrightarrow>
     (let base = spelling_base t
      in list_all
           (\<lambda>i. t ! i = 0x5F \<longrightarrow>
              \<not> (i = 0 \<or> i + 1 \<ge> length t \<or> \<not> lexer_digit_for_base (t ! (i - 1)) base
                  \<or> \<not> lexer_digit_for_base (t ! (i + 1)) base))
           [0..<length t])"

definition lexer_integer_digit :: "u8 \<Rightarrow> u64 option" where
  "lexer_integer_digit c =
     (if c \<ge> 0x30 \<and> c \<le> 0x39 then Some (ucast (c - 0x30))
      else if c \<ge> 0x61 \<and> c \<le> 0x66 then Some (ucast (c - 0x61) + 10)
      else if c \<ge> 0x41 \<and> c \<le> 0x46 then Some (ucast (c - 0x41) + 10)
      else None)"

fun lexer_accumulate :: "u64 \<Rightarrow> u64 \<Rightarrow> bytes \<Rightarrow> u64 option" where
  "lexer_accumulate base v [] = Some v"
| "lexer_accumulate base v (c # cs) =
     (case lexer_integer_digit c of
        None \<Rightarrow> None
      | Some d \<Rightarrow>
          if d \<ge> base \<or> v > (UINT64_MAX - d) div base then None
          else lexer_accumulate base (v * base + d) cs)"

definition lexer_parse_integer_value :: "text_slice \<Rightarrow> (i64 \<times> bool) option" where
  "lexer_parse_integer_value t =
     (if length t \<ge> 256 then None
      else
        (let buffer = filter (\<lambda>c. c \<noteq> 0x5F) t;
             base = spelling_base buffer;
             index = (if base = 10 then 0 else 2)
         in if index \<ge> length buffer then None
            else
              (case lexer_accumulate (of_nat base) 0 (drop index buffer) of
                 None \<Rightarrow> None
               | Some v \<Rightarrow> Some (v, v > INT64_MAX))))"

section \<open>The value of a spelling\<close>

definition digit_value :: "nat \<Rightarrow> u8 \<Rightarrow> nat option" where
  "digit_value base c =
     (case lexer_hex_value c of None \<Rightarrow> None | Some d \<Rightarrow> if d < base then Some d else None)"

fun positional_value :: "nat \<Rightarrow> nat \<Rightarrow> bytes \<Rightarrow> nat option" where
  "positional_value base v [] = Some v"
| "positional_value base v (c # cs) =
     (case digit_value base c of None \<Rightarrow> None | Some d \<Rightarrow> positional_value base (v * base + d) cs)"

definition integer_spelling_value :: "bytes \<Rightarrow> nat option" where
  "integer_spelling_value t =
     (let buffer = filter (\<lambda>c. c \<noteq> 0x5F) t;
          base = spelling_base buffer;
          digits = drop (if base = 10 then 0 else 2) buffer
      in if digits = [] then None else positional_value base 0 digits)"

lemma lexer_integer_digit_value:
  "lexer_integer_digit c = map_option of_nat (lexer_hex_value c)
   \<and> (\<forall>d. lexer_hex_value c = Some d \<longrightarrow> d < 16)"
proof -
  have small: "unat (c - k) \<le> n" if "k \<le> c" "c \<le> k + of_nat n" "unat k + n < 256" for k n
  proof -
    have "unat (c - k) = unat c - unat k"
      using that(1) by (simp add: unat_sub)
    moreover have "unat (k + of_nat n) = unat k + n"
      using that(3) by (simp add: unat_word_ariths unat_of_nat)
    ultimately show ?thesis
      using that(2) by (simp add: word_le_nat_alt)
  qed
  have cast: "(ucast b :: u64) = of_nat (unat b)" for b :: u8
    by simp
  show ?thesis
    using small [where k = "0x30" and n = 9] small [where k = "0x61" and n = 5]
      small [where k = "0x41" and n = 5]
    by (auto simp: lexer_integer_digit_def lexer_hex_value_def)
qed

lemma positional_value_grows: "positional_value base v cs = Some n \<Longrightarrow> 0 < base \<Longrightarrow> v \<le> n"
proof (induction base v cs rule: positional_value.induct)
  case (2 base v c cs)
  then obtain d where "positional_value base (v * base + d) cs = Some n" "v * base + d \<le> n"
    by (auto split: option.splits)
  moreover have "v \<le> v * base"
    using "2.prems"(2) by simp
  ultimately show ?case
    by linarith
qed simp

text \<open>The guarded 64-bit accumulation computes the positional value, or stops when it overflows.\<close>

lemma lexer_accumulate_value:
  assumes "0 < base" "base < 2 ^ 32"
  shows "lexer_accumulate (of_nat base) v cs =
    (case positional_value base (unat v) cs of
       None \<Rightarrow> None | Some n \<Rightarrow> if n < 2 ^ 64 then Some (of_nat n) else None)"
proof (induction cs arbitrary: v)
  case Nil
  then show ?case
    using unat_u64_less [of v] by simp
next
  case (Cons c cs)
  have ub: "unat (of_nat base :: u64) = base"
    using assms by (simp add: unat_of_nat)
  show ?case
  proof (cases "lexer_hex_value c")
    case None
    then show ?thesis
      using lexer_integer_digit_value [of c] by (simp add: digit_value_def)
  next
    case (Some d)
    then have d: "lexer_integer_digit c = Some (of_nat d)" "d < 16"
      using lexer_integer_digit_value [of c] by auto
    have ud: "unat (of_nat d :: u64) = d"
      using d(2) by (simp add: unat_of_nat)
    have cmp: "(of_nat base :: u64) \<le> of_nat d \<longleftrightarrow> base \<le> d"
      by (simp add: word_le_nat_alt ub ud)
    show ?thesis
    proof (cases "d < base")
      case False
      then show ?thesis
        using Some d cmp by (simp add: digit_value_def)
    next
      case True
      have guard: "v \<le> (UINT64_MAX - of_nat d) div of_nat base \<longleftrightarrow> unat v * base + d < 2 ^ 64"
        using mul_add_guard [of "of_nat base" v "of_nat d"] assms(1)
        by (simp add: ub ud word_neq_0_conv word_less_nat_alt)
      show ?thesis
      proof (cases "unat v * base + d < 2 ^ 64")
        case True
        then have "unat (v * of_nat base + of_nat d) = unat v * base + d"
          by (simp add: unat_word_ariths ub ud)
        moreover have "\<not> (UINT64_MAX - of_nat d) div of_nat base < v"
          using True guard by (simp only: not_less)
        ultimately show ?thesis
          using \<open>d < base\<close> Some d cmp Cons.IH by (simp add: digit_value_def)
      next
        case False
        with guard \<open>d < base\<close> Some d cmp have "lexer_accumulate (of_nat base) v (c # cs) = None"
          by (simp add: not_le)
        moreover have "\<not> n < 2 ^ 64"
          if "positional_value base (unat v * base + d) cs = Some n" for n
          using positional_value_grows [OF that assms(1)] False by linarith
        ultimately show ?thesis
          using Some \<open>d < base\<close> by (auto simp: digit_value_def split: option.splits)
      qed
    qed
  qed
qed

lemma spelling_base_cases: "spelling_base t = 2 \<or> spelling_base t = 10 \<or> spelling_base t = 16"
  by (simp add: spelling_base_def)

lemma parse_integer_exact:
  "lexer_parse_integer_value t =
     (if length t \<ge> 256 then None
      else case integer_spelling_value t of
             None \<Rightarrow> None
           | Some n \<Rightarrow> if n < 2 ^ 64 then Some (of_nat n, 2 ^ 63 \<le> n) else None)"
proof -
  let ?b = "filter (\<lambda>c. c \<noteq> 0x5F) t"
  have base: "0 < spelling_base ?b" "spelling_base ?b < 2 ^ 32"
    using spelling_base_cases [of ?b] by auto
  have wide: "(of_nat n :: u64) > INT64_MAX \<longleftrightarrow> 2 ^ 63 \<le> n" if "n < 2 ^ 64" for n
    using that by (simp add: word_less_nat_alt unat_of_nat) linarith
  show ?thesis
    using wide
    by (simp add: lexer_parse_integer_value_def integer_spelling_value_def Let_def
        lexer_accumulate_value [OF base] not_le split: option.splits)
qed

section \<open>The scanner\<close>

definition lexer_scan_decimal_digits :: "lexer \<Rightarrow> lexer" where
  "lexer_scan_decimal_digits = lexer_scan_while (\<lambda>b. lexer_is_decimal_digit b \<or> b = 0x5F)"

text \<open>
  The fraction and exponent parts of the decimal case. Each gives the new state and whether the
  literal is a floating one; an exponent without digits restores the saved cursor.
\<close>

definition lexer_scan_fraction :: "lexer \<Rightarrow> lexer \<times> bool" where
  "lexer_scan_fraction l =
     (if lexer_has l 2 \<and> lexer_peek l 0 = 0x2E \<and> lexer_is_decimal_digit (lexer_peek l 1)
      then (lexer_scan_decimal_digits (lexer_advance_bytes 1 l), True)
      else (l, False))"

definition lexer_scan_exponent :: "lexer \<times> bool \<Rightarrow> lexer \<times> bool" where
  "lexer_scan_exponent r =
     (case r of (l, float) \<Rightarrow>
        if lexer_has l 1 \<and> (lexer_peek l 0 = 0x65 \<or> lexer_peek l 0 = 0x45) then
          (let l1 = lexer_advance_bytes 1 l;
               l2 = (if lexer_has l1 1 \<and> (lexer_peek l1 0 = 0x2B \<or> lexer_peek l1 0 = 0x2D)
                     then lexer_advance_bytes 1 l1 else l1)
           in if lexer_has l2 1 \<and> lexer_is_decimal_digit (lexer_peek l2 0)
              then (lexer_scan_decimal_digits l2, True)
              else (l2\<lparr>lexer_offset := lexer_offset l, lexer_line := lexer_line l,
                       lexer_column := lexer_column l\<rparr>, float))
        else (l, float))"

definition lexer_scan_number_extent :: "lexer \<Rightarrow> lexer \<times> bool" where
  "lexer_scan_number_extent l =
     (if lexer_matches l [0x30, 0x62] then
        (lexer_scan_while (\<lambda>b. \<not> (b \<noteq> 0x30 \<and> b \<noteq> 0x31 \<and> b \<noteq> 0x5F)) (lexer_advance_bytes 2 l), False)
      else if lexer_matches l [0x30, 0x78] then
        (lexer_scan_while (\<lambda>b. \<not> (\<not> lexer_is_hex_digit b \<and> b \<noteq> 0x5F)) (lexer_advance_bytes 2 l), False)
      else lexer_scan_exponent (lexer_scan_fraction (lexer_scan_decimal_digits l)))"

definition lexer_scan_number :: "lexer \<Rightarrow> source_position \<Rightarrow> nat \<Rightarrow> lexer \<times> token option" where
  "lexer_scan_number l start start_offset =
     (case lexer_scan_number_extent l of (l', float) \<Rightarrow>
        (let spelling = source_slice (lexer_source l') start_offset (lexer_offset l')
         in if \<not> lexer_number_separators_valid spelling
            then (lexer_fail l' E0001_Syntax_Error start Diag_Word_Lex_Invalid_Integer, None)
            else if float then lexer_set_token l' TK_LIT_FLO start start_offset
            else
              (case lexer_parse_integer_value spelling of
                 None \<Rightarrow> (lexer_fail l' E0001_Syntax_Error start Diag_Word_Lex_Invalid_Integer, None)
               | Some (v, wide) \<Rightarrow>
                   lexer_set_token_integer l' TK_LIT_INT start start_offset
                     \<lparr>literal_value = v, literal_spelling = spelling, literal_unsigned_wide = wide\<rparr>)))"

lemma scan_decimal_shifts: "cursor_at s l \<Longrightarrow> lexer_shifts s l (lexer_scan_decimal_digits l)"
  unfolding lexer_scan_decimal_digits_def by (rule lexer_shifts_scan_while)

lemma scan_decimal_after_shifts:
  "lexer_shifts s l l' \<Longrightarrow> cursor_at s l \<Longrightarrow> lexer_shifts s l (lexer_scan_decimal_digits l')"
  unfolding lexer_scan_decimal_digits_def
  by (rule lexer_shifts_trans, assumption) (rule lexer_shifts_scan_while, rule lexer_shifts_cursor)

lemma scan_fraction_shifts: "cursor_at s l \<Longrightarrow> lexer_shifts s l (fst (lexer_scan_fraction l))"
  using scan_decimal_after_shifts [OF lexer_shifts_advance] lexer_shifts_refl
  by (simp add: lexer_scan_fraction_def del: One_nat_def)

lemma scan_exponent_shifts:
  assumes c: "cursor_at s l"
  shows "lexer_shifts s l (fst (lexer_scan_exponent (l, float)))"
proof -
  let ?l1 = "lexer_advance_bytes 1 l"
  let ?l2 = "if lexer_has ?l1 1 \<and> (lexer_peek ?l1 0 = 0x2B \<or> lexer_peek ?l1 0 = 0x2D)
    then lexer_advance_bytes 1 ?l1 else ?l1"
  have s1: "lexer_shifts s l ?l1"
    using c by (rule lexer_shifts_advance)
  then have c1: "cursor_at s ?l1"
    using c by (rule lexer_shifts_cursor)
  have s2: "lexer_shifts s l ?l2"
    using s1 lexer_shifts_trans [OF s1 lexer_shifts_advance [OF c1]] by simp
  then have c2: "cursor_at s ?l2"
    using c by (rule lexer_shifts_cursor)
  have s3: "lexer_shifts s l (lexer_scan_decimal_digits ?l2)"
    by (rule lexer_shifts_trans [OF s2 scan_decimal_shifts [OF c2]])
  have restored: "?l2\<lparr>lexer_offset := lexer_offset l, lexer_line := lexer_line l,
      lexer_column := lexer_column l\<rparr> = l"
    using s2 by (auto simp: lexer_shifts_def at_offset_def)
  show ?thesis
    unfolding lexer_scan_exponent_def prod.case Let_def restored
    using s3 lexer_shifts_refl [OF c] by simp
qed

text \<open>The extent of a number that starts with a digit is not empty.\<close>

lemma scan_number_extent_shifts:
  assumes c: "cursor_at s l"
  shows "lexer_shifts s l (fst (lexer_scan_number_extent l))
    \<and> (lexer_has l 1 \<and> lexer_is_decimal_digit (lexer_peek l 0) \<longrightarrow>
         lexer_offset l < lexer_offset (fst (lexer_scan_number_extent l)))"
proof -
  have pre: "lexer_shifts s l (lexer_scan_while test (lexer_advance_bytes 2 l))
      \<and> lexer_offset l < lexer_offset (lexer_scan_while test (lexer_advance_bytes 2 l))"
    if "lexer_matches l t" "length t = 2" for test t
  proof -
    have "lexer_offset l + 2 \<le> length (source_bytes s)"
      using lexer_matches_has [OF c that(1)] that(2) by simp
    then have "lexer_offset l < lexer_offset (lexer_advance_bytes 2 l)"
      using lexer_advance_at_le [OF c] by simp
    moreover have sh: "lexer_shifts s l (lexer_advance_bytes 2 l)"
      using c by (rule lexer_shifts_advance)
    moreover have "lexer_shifts s (lexer_advance_bytes 2 l) (lexer_scan_while test (lexer_advance_bytes 2 l))"
      by (rule lexer_shifts_scan_while [OF lexer_shifts_cursor [OF sh c]])
    ultimately show ?thesis
      using lexer_shifts_le lexer_shifts_trans by (meson less_le_trans)
  qed
  let ?d = "lexer_scan_decimal_digits l"
  have d: "lexer_shifts s l ?d"
    using c by (rule scan_decimal_shifts)
  have cd: "cursor_at s ?d"
    using d c by (rule lexer_shifts_cursor)
  obtain lf float where f: "lexer_scan_fraction ?d = (lf, float)"
    by (cases "lexer_scan_fraction ?d")
  have sf: "lexer_shifts s ?d lf"
    using scan_fraction_shifts [OF cd] by (simp add: f)
  have se: "lexer_shifts s lf (fst (lexer_scan_exponent (lf, float)))"
    by (rule scan_exponent_shifts [OF lexer_shifts_cursor [OF sf cd]])
  have "lexer_offset l < lexer_offset ?d" if "lexer_has l 1" "lexer_is_decimal_digit (lexer_peek l 0)"
    unfolding lexer_scan_decimal_digits_def by (rule lexer_scan_while_progress [OF c]) (simp_all add: that del: One_nat_def)
  then show ?thesis
    using pre [of "[0x30, 0x62]"] pre [of "[0x30, 0x78]"] lexer_shifts_trans [OF d lexer_shifts_trans [OF sf se]]
      lexer_shifts_le [OF sf] lexer_shifts_le [OF se]
    by (auto simp: lexer_scan_number_extent_def f)
qed

lemma lexer_scan_number_scanned:
  assumes inv: "lexer_inv s l" and start: "i = pos_offset start"
  shows "lexer_scanned s l start (lexer_scan_number l start i)
    \<and> (lexer_has l 1 \<and> lexer_is_decimal_digit (lexer_peek l 0) \<longrightarrow>
         lexer_offset l < lexer_offset (fst (lexer_scan_number l start i)))"
proof -
  have c: "cursor_at s l"
    using inv by (simp add: lexer_inv_def)
  obtain l' float where e: "lexer_scan_number_extent l = (l', float)"
    by (cases "lexer_scan_number_extent l")
  note ext = scan_number_extent_shifts [OF c, unfolded e fst_conv]
  have m: "lexer_moves s l l'" "lexer_failed l' = lexer_failed l"
    using ext inv lexer_shifts_moves [of s l l'] lexer_shifts_failed [of s l l'] by auto
  have tok: "lexer_scanned s l start (lexer_set_token l' TK_LIT_FLO start i)
      \<and> fst (lexer_set_token l' TK_LIT_FLO start i) = l'"
    using lexer_set_token_payload_scanned [OF m _ start, of TK_LIT_FLO No_Payload]
    by (simp add: lexer_set_token_def payload_kind_def)
  have int: "lexer_scanned s l start (lexer_set_token_integer l' TK_LIT_INT start i v)
      \<and> fst (lexer_set_token_integer l' TK_LIT_INT start i v) = l'" for v
    using lexer_set_token_payload_scanned [OF m _ start, of TK_LIT_INT "Integer_Payload v"]
    by (simp add: lexer_set_token_integer_def payload_kind_def)
  show ?thesis
    using tok int ext lexer_scanned_fail [OF m(1)]
    by (auto simp: lexer_scan_number_def e Let_def split: option.splits)
qed

section \<open>Properties\<close>

text \<open>
  C5: The value of an integer spelling is the positional value of its digits in the base of its
  prefix with the separators dropped. It is refused exactly when the spelling has 256 bytes or
  more, has no digits, has a digit outside its base, or its value needs more than 64 bits; it is
  marked unsigned-wide exactly from 2^63 on.
\<close>

theorem integer_literal_exact:
  "lexer_parse_integer_value t =
     (if 256 \<le> length t then None
      else case integer_spelling_value t of
             None \<Rightarrow> None
           | Some n \<Rightarrow> if n < 2 ^ 64 then Some (of_nat n, 2 ^ 63 \<le> n) else None)"
  by (rule parse_integer_exact)

text \<open>
  A number token spells the source from its start to the cursor. It is a floating literal, or
  an integer literal whose payload is the exact value of its lexeme, with valid separators in
  both cases.
\<close>

theorem number_token_value:
  "(case lexer_scan_number l start i of
      (l', None) \<Rightarrow> lexer_failed l'
    | (l', Some t) \<Rightarrow>
        token_lexeme t = source_slice (lexer_source l') i (lexer_offset l')
        \<and> lexer_number_separators_valid (token_lexeme t)
        \<and> (token_kind_of t = TK_LIT_FLO \<and> token_payload t = No_Payload
           \<or> token_kind_of t = TK_LIT_INT
             \<and> (\<exists>n < 2 ^ 64. integer_spelling_value (token_lexeme t) = Some n
                  \<and> token_payload t = Integer_Payload
                      \<lparr>literal_value = of_nat n, literal_spelling = token_lexeme t,
                       literal_unsigned_wide = (2 ^ 63 \<le> n)\<rparr>)))"
proof -
  obtain l' float where e: "lexer_scan_number_extent l = (l', float)"
    by (cases "lexer_scan_number_extent l")
  have flo: "lexer_set_token l' TK_LIT_FLO start i = (l', Some (lexer_set_token_header l' TK_LIT_FLO start i No_Payload))"
    by (simp add: lexer_set_token_def lexer_set_token_payload_def lexer_require_payload_kind_def payload_kind_def)
  have int: "lexer_set_token_integer l' TK_LIT_INT start i v
      = (l', Some (lexer_set_token_header l' TK_LIT_INT start i (Integer_Payload v)))" for v
    by (simp add: lexer_set_token_integer_def lexer_set_token_payload_def lexer_require_payload_kind_def
        payload_kind_def)
  show ?thesis
    by (auto simp: lexer_scan_number_def e Let_def flo int lexer_set_token_header_def parse_integer_exact
        split: option.splits if_splits)
qed

end
