(* ===== verification/Lexer_String.thy ===== *)
theory Lexer_String
  imports Lexer_Number
begin

unbundle bit_operations_syntax

text \<open>
  String and character literals: \<open>bootstrap/src/frontend/lexer/lexer_escape.c\<close> and
  \<open>lexer_string.c\<close>. The text builder is the local of the scanning routine; its blocks come from
  the allocator answers in the lexer state. The text slice of a string token is the content of the
  arena copy, which \<open>Arena.arena_texts_persist\<close> shows to stay readable.
\<close>

section \<open>Building text\<close>

definition lexer_take_grant :: "lexer \<Rightarrow> bool \<times> lexer" where
  "lexer_take_grant l = (lexer_heap l 0, l\<lparr>lexer_heap := (\<lambda>i. lexer_heap l (Suc i))\<rparr>)"

text \<open>
  A call of the builder with the next allocator answer: 0 is \<open>None\<close>. The outcome \<open>Overrun\<close> does
  not occur for a builder in its invariant (\<open>Containers.text_builder_append_text\<close>).
\<close>

definition lexer_builder_call ::
    "(bool \<Rightarrow> text_builder outcome) \<Rightarrow> lexer \<Rightarrow> lexer \<times> text_builder option" where
  "lexer_builder_call f l =
     (case lexer_take_grant l of
        (g, l') \<Rightarrow> (l', (case f g of Done b \<Rightarrow> Some b | Refused \<Rightarrow> None | Overrun \<Rightarrow> None)))"

definition lexer_append :: "lexer \<Rightarrow> text_builder \<Rightarrow> bytes \<Rightarrow> lexer \<times> text_builder option" where
  "lexer_append l b xs =
     lexer_builder_call (\<lambda>g. text_builder_append g b (Some xs) (of_nat (length xs))) l"

definition lexer_append_byte :: "lexer \<Rightarrow> text_builder \<Rightarrow> u8 \<Rightarrow> lexer \<times> text_builder option" where
  "lexer_append_byte l b x = lexer_builder_call (\<lambda>g. text_builder_append_byte g b x) l"

section \<open>Escapes\<close>

fun hex_digits_value :: "bytes \<Rightarrow> u32 \<Rightarrow> u32 option" where
  "hex_digits_value [] v = Some v"
| "hex_digits_value (b # bs) v =
     (case lexer_hex_value b of
        None \<Rightarrow> None
      | Some d \<Rightarrow> hex_digits_value bs (push_bit 4 v OR of_nat d))"

definition lexer_parse_hex_escape :: "lexer \<Rightarrow> nat \<Rightarrow> lexer \<times> u32 option" where
  "lexer_parse_hex_escape l digits =
     (if \<not> lexer_has l digits then (l, None)
      else
        (case hex_digits_value (map (lexer_peek l) [0..<digits]) 0 of
           None \<Rightarrow> (l, None)
         | Some v \<Rightarrow> (lexer_advance_bytes digits l, Some v)))"

definition lexer_append_codepoint :: "lexer \<Rightarrow> text_builder \<Rightarrow> u32 \<Rightarrow> lexer \<times> text_builder option" where
  "lexer_append_codepoint l b c =
     (let encoded = utf8_encode c
      in if length encoded = 0 then (l, None) else lexer_append l b encoded)"

text \<open>The cases \<open>x\<close>, \<open>u\<close> and \<open>U\<close>; only the last two require a scalar value.\<close>

definition lexer_scan_hex_escape ::
    "lexer \<Rightarrow> text_builder \<Rightarrow> source_position \<Rightarrow> nat \<Rightarrow> bool \<Rightarrow> wording_key
     \<Rightarrow> lexer \<times> text_builder option" where
  "lexer_scan_hex_escape l b start digits scalar key =
     (case lexer_parse_hex_escape l digits of
        (l', None) \<Rightarrow> (lexer_fail l' E0001_Syntax_Error start key, None)
      | (l', Some c) \<Rightarrow>
          if scalar \<and> \<not> utf8_is_scalar c then (lexer_fail l' E0001_Syntax_Error start key, None)
          else lexer_append_codepoint l' b c)"

definition lexer_scan_escape ::
    "lexer \<Rightarrow> text_builder \<Rightarrow> source_position \<Rightarrow> lexer \<times> text_builder option" where
  "lexer_scan_escape l b start =
     (if \<not> lexer_has l 1
      then (lexer_fail l E0001_Syntax_Error start Diag_Word_Lex_Unterminated_Escape, None)
      else
        (let escape = lexer_peek l 0; l1 = lexer_advance_bytes 1 l
         in if escape = 0x6E then lexer_append_byte l1 b 0x0A
            else if escape = 0x72 then lexer_append_byte l1 b 0x0D
            else if escape = 0x74 then lexer_append_byte l1 b 0x09
            else if escape = 0x5C then lexer_append_byte l1 b 0x5C
            else if escape = 0x22 then lexer_append_byte l1 b 0x22
            else if escape = 0x78 then
              lexer_scan_hex_escape l1 b start 2 False Diag_Word_Lex_Bad_Hex_Escape
            else if escape = 0x75 then
              lexer_scan_hex_escape l1 b start 4 True Diag_Word_Lex_Bad_Unicode_Escape
            else if escape = 0x55 then
              lexer_scan_hex_escape l1 b start 8 True Diag_Word_Lex_Bad_Unicode_Escape
            else (lexer_fail l1 E0001_Syntax_Error start Diag_Word_Lex_Bad_Escape, None)))"

section \<open>Strings\<close>

definition lexer_finish_string ::
    "lexer \<Rightarrow> source_position \<Rightarrow> nat \<Rightarrow> text_builder \<Rightarrow> lexer \<times> token option" where
  "lexer_finish_string l start start_offset b =
     (case lexer_take_grant l of
        (g, l1) \<Rightarrow>
          (case arena_copy_text g (lexer_arena l1) (builder_text b) (tb_length b) of
             Done (a, p) \<Rightarrow>
               lexer_set_token_text (l1\<lparr>lexer_arena := a\<rparr>) TK_LIT_STR start start_offset (builder_text b)
           | _ \<Rightarrow> (lexer_fail l1 E1100_Internal_Context_Error start Diag_Word_Syntax_Internal_Oom, None)))"

definition lexer_append_raw_character ::
    "lexer \<Rightarrow> text_builder \<Rightarrow> source_position \<Rightarrow> lexer \<times> text_builder option" where
  "lexer_append_raw_character l b start =
     (let byte = lexer_peek l 0
      in if byte \<ge> 0x80 then
           (let rest = drop (lexer_offset l) (lexer_bytes l); d = utf8_decode rest
            in if \<not> utf8_valid d
               then (lexer_fail l E1001_Invalid_UTF8_Byte start Diag_Word_Lex_Invalid_Utf8_String, None)
               else
                 (case lexer_append l b (take (utf8_width d) rest) of
                    (l', None) \<Rightarrow>
                      (lexer_fail l' E1100_Internal_Context_Error start Diag_Word_Syntax_Internal_Oom, None)
                  | (l', Some b') \<Rightarrow> (lexer_advance_bytes (utf8_width d) l', Some b')))
         else
           (case lexer_append_byte l b byte of
              (l', None) \<Rightarrow>
                (lexer_fail l' E1100_Internal_Context_Error start Diag_Word_Syntax_Internal_Oom, None)
            | (l', Some b') \<Rightarrow> (lexer_advance_bytes 1 l', Some b')))"

text \<open>The guillemets in UTF-8.\<close>

definition left_guillemet :: bytes where "left_guillemet = [0xC2, 0xAB]"
definition right_guillemet :: bytes where "right_guillemet = [0xC2, 0xBB]"

lemma advance_generic:
  "lexer_bytes (lexer_advance_bytes n l) = lexer_bytes l
   \<and> lexer_offset l \<le> lexer_offset (lexer_advance_bytes n l)
   \<and> (lexer_has l 1 \<and> 0 < n \<longrightarrow> lexer_offset l < lexer_offset (lexer_advance_bytes n l))"
proof (induction n arbitrary: l)
  case (Suc n)
  show ?case
  proof (cases "lexer_has l 1")
    case True
    let ?l = "lexer_advance_bytes 1 l"
    have "lexer_offset ?l = lexer_offset l + 1 \<and> lexer_bytes ?l = lexer_bytes l"
      using True by (rule lexer_advance_one_offset)
    moreover have "lexer_advance_bytes (Suc n) l = lexer_advance_bytes n ?l"
      using True by (simp add: lexer_advance_bytes.simps)
    ultimately show ?thesis
      using Suc [of ?l] by simp
  qed (simp add: lexer_advance_bytes.simps)
qed (simp add: lexer_advance_bytes.simps)

lemma builder_call_frame:
  "lexer_builder_call f l = (l', r) \<Longrightarrow> l' = l\<lparr>lexer_heap := (\<lambda>i. lexer_heap l (Suc i))\<rparr>"
  by (simp add: lexer_builder_call_def lexer_take_grant_def)

text \<open>The bytes that remain; every turn of the string loops consumes some of them.\<close>

definition lexer_remaining :: "lexer \<Rightarrow> nat" where
  "lexer_remaining l = length (lexer_bytes l) - lexer_offset l"

lemma remaining_heap [simp]:
  "lexer_remaining (l\<lparr>lexer_heap := h\<rparr>) = lexer_remaining l"
  "lexer_bytes (l\<lparr>lexer_heap := h\<rparr>) = lexer_bytes l"
  "lexer_has (l\<lparr>lexer_heap := h\<rparr>) n = lexer_has l n"
  "lexer_peek (l\<lparr>lexer_heap := h\<rparr>) n = lexer_peek l n"
  "lexer_remaining (lexer_fail l i st key) = lexer_remaining l"
  by (simp_all add: lexer_remaining_def lexer_bytes_def lexer_has_def lexer_peek_def)

lemma advance_heap [simp]:
  "lexer_advance_bytes n (l\<lparr>lexer_heap := h\<rparr>) = (lexer_advance_bytes n l)\<lparr>lexer_heap := h\<rparr>"
proof (induction n arbitrary: l)
  case (Suc n)
  have "lexer_count_byte (l\<lparr>lexer_heap := h\<rparr>) = (lexer_count_byte l)\<lparr>lexer_heap := h\<rparr>"
    by (simp add: lexer_count_byte_def Let_def)
  with Suc show ?case
    by (simp add: lexer_advance_bytes.simps)
qed (simp add: lexer_advance_bytes.simps)

lemma remaining_advance:
  "lexer_remaining (lexer_advance_bytes n l) \<le> lexer_remaining l"
  "lexer_has l 1 \<Longrightarrow> 0 < n \<Longrightarrow> lexer_remaining (lexer_advance_bytes n l) < lexer_remaining l"
  using advance_generic [of n l] by (auto simp: lexer_remaining_def lexer_has_def)

lemma remaining_append_raw:
  assumes "lexer_append_raw_character l b start = (l', Some b')" "lexer_has l 1"
  shows "lexer_remaining l' < lexer_remaining l"
proof -
  let ?d = "utf8_decode (drop (lexer_offset l) (lexer_bytes l))"
  have "0 < utf8_width ?d" if "utf8_valid ?d"
    using decode_width [OF that] by simp
  then show ?thesis
    using assms remaining_advance(2)
    by (auto simp: lexer_append_raw_character_def lexer_append_def lexer_append_byte_def Let_def
        dest!: builder_call_frame split: if_splits prod.splits option.splits)
qed

lemma remaining_hex_escape:
  "lexer_scan_hex_escape l b start n scalar key = (l', r) \<Longrightarrow> lexer_remaining l' \<le> lexer_remaining l"
  using remaining_advance(1)
  by (auto simp: lexer_scan_hex_escape_def lexer_parse_hex_escape_def lexer_append_codepoint_def
      lexer_append_def Let_def
      dest!: builder_call_frame split: if_splits prod.splits option.splits)

lemma remaining_escape:
  "lexer_scan_escape l b start = (l', r) \<Longrightarrow> lexer_remaining l' \<le> lexer_remaining l"
  using remaining_advance(1) [of 1 l] remaining_hex_escape
  by (fastforce simp: lexer_scan_escape_def lexer_append_byte_def Let_def
      dest!: builder_call_frame split: if_splits simp del: One_nat_def)

lemma remaining_append:
  "lexer_append l b xs = (l', r) \<Longrightarrow> lexer_remaining l' = lexer_remaining l \<and> lexer_has l' n = lexer_has l n"
  by (auto simp: lexer_append_def dest!: builder_call_frame)

text \<open>A nested guillemet is kept in the text.\<close>

definition lexer_append_guillemet ::
    "lexer \<Rightarrow> text_builder \<Rightarrow> source_position \<Rightarrow> bytes \<Rightarrow> lexer \<times> text_builder option" where
  "lexer_append_guillemet l b start g =
     (case lexer_append l b (take (length g) (drop (lexer_offset l) (lexer_bytes l))) of
        (l', None) \<Rightarrow>
          (lexer_fail l' E1100_Internal_Context_Error start Diag_Word_Syntax_Internal_Oom, None)
      | (l', Some b') \<Rightarrow> (lexer_advance_bytes (length g) l', Some b'))"

lemma remaining_append_guillemet:
  assumes "lexer_append_guillemet l b start g = (l', Some b')" "lexer_has l 1" "0 < length g"
  shows "lexer_remaining l' < lexer_remaining l"
  using assms remaining_advance(2) [of l "length g"]
  by (auto simp: lexer_append_guillemet_def lexer_append_def dest!: builder_call_frame
      split: prod.splits option.splits)

function lexer_scan_guillemet_string ::
    "lexer \<Rightarrow> source_position \<Rightarrow> nat \<Rightarrow> text_builder \<Rightarrow> nat \<Rightarrow> lexer \<times> token option" where
  "lexer_scan_guillemet_string l start i b depth =
     (if \<not> lexer_has l 1
      then (lexer_fail l E0001_Syntax_Error start Diag_Word_Lex_Unterminated_String, None)
      else if lexer_matches l left_guillemet then
        (if depth \<ge> 256
         then (lexer_fail l E0001_Syntax_Error start Diag_Word_Lex_Unterminated_String, None)
         else
           (case lexer_append_guillemet l b start left_guillemet of
              (l', None) \<Rightarrow> (l', None)
            | (l', Some b') \<Rightarrow> lexer_scan_guillemet_string l' start i b' (depth + 1)))
      else if lexer_matches l right_guillemet then
        (if depth - 1 = 0
         then lexer_finish_string (lexer_advance_bytes (length right_guillemet) l) start i b
         else
           (case lexer_append_guillemet l b start right_guillemet of
              (l', None) \<Rightarrow> (l', None)
            | (l', Some b') \<Rightarrow> lexer_scan_guillemet_string l' start i b' (depth - 1)))
      else
        (case lexer_append_raw_character l b start of
           (l', None) \<Rightarrow> (l', None)
         | (l', Some b') \<Rightarrow> lexer_scan_guillemet_string l' start i b' depth))"
  by pat_completeness auto

termination lexer_scan_guillemet_string
  by (relation "measure (\<lambda>(l, _). lexer_remaining l)")
    (auto simp: left_guillemet_def right_guillemet_def
      dest!: remaining_append_guillemet [OF sym] remaining_append_raw [OF sym])

declare lexer_scan_guillemet_string.simps [simp del]

function lexer_scan_quoted_string ::
    "lexer \<Rightarrow> source_position \<Rightarrow> nat \<Rightarrow> text_builder \<Rightarrow> lexer \<times> token option" where
  "lexer_scan_quoted_string l start i b =
     (if \<not> lexer_has l 1
      then (lexer_fail l E0001_Syntax_Error start Diag_Word_Lex_Unterminated_String, None)
      else if lexer_peek l 0 = 0x22 then lexer_finish_string (lexer_advance_bytes 1 l) start i b
      else if lexer_peek l 0 = 0x0A
        then (lexer_fail l E0001_Syntax_Error start Diag_Word_Lex_Unterminated_String, None)
      else if lexer_peek l 0 = 0x5C then
        (case lexer_scan_escape (lexer_advance_bytes 1 l) b start of
           (l', None) \<Rightarrow> (l', None)
         | (l', Some b') \<Rightarrow> lexer_scan_quoted_string l' start i b')
      else
        (case lexer_append_raw_character l b start of
           (l', None) \<Rightarrow> (l', None)
         | (l', Some b') \<Rightarrow> lexer_scan_quoted_string l' start i b'))"
  by pat_completeness auto

lemma remaining_backslash:
  "lexer_scan_escape (lexer_advance_bytes 1 l) b start = (l', r) \<Longrightarrow> lexer_has l 1 \<Longrightarrow>
     lexer_remaining l' < lexer_remaining l"
  using remaining_escape [of "lexer_advance_bytes 1 l" b start l' r] remaining_advance(2) [of l 1]
  by simp

termination lexer_scan_quoted_string
  by (relation "measure (\<lambda>(l, _). lexer_remaining l)")
    (auto simp del: One_nat_def dest!: remaining_backslash [OF sym] remaining_append_raw [OF sym])

declare lexer_scan_quoted_string.simps [simp del]

definition lexer_scan_string ::
    "lexer \<Rightarrow> source_position \<Rightarrow> nat \<Rightarrow> bool \<Rightarrow> lexer \<times> token option" where
  "lexer_scan_string l start i guillemet =
     (if guillemet then lexer_scan_guillemet_string l start i text_builder_init 1
      else lexer_scan_quoted_string l start i text_builder_init)"

section \<open>Characters\<close>

text \<open>
  The switch over the escapes of a character literal: the code point, or the state after a failed
  hexadecimal escape (\<open>None\<close> covers the default case, which fails the same way).
\<close>

definition lexer_character_escape :: "lexer \<Rightarrow> u8 \<Rightarrow> lexer \<times> u32 option" where
  "lexer_character_escape l escape =
     (if escape = 0x6E then (l, Some 0x0A)
      else if escape = 0x72 then (l, Some 0x0D)
      else if escape = 0x74 then (l, Some 0x09)
      else if escape = 0x5C then (l, Some 0x5C)
      else if escape = 0x27 then (l, Some 0x27)
      else if escape = 0x78 then lexer_parse_hex_escape l 2
      else if escape = 0x75 then lexer_parse_hex_escape l 4
      else if escape = 0x55 then lexer_parse_hex_escape l 8
      else (l, None))"

text \<open>The part of the routine before the closing quote.\<close>

definition lexer_character_value :: "lexer \<Rightarrow> source_position \<Rightarrow> lexer \<times> u32 option" where
  "lexer_character_value l start =
     (if lexer_peek l 0 = 0x5C then
        (let l1 = lexer_advance_bytes 1 l
         in if \<not> lexer_has l1 1
            then (lexer_fail l1 E0001_Syntax_Error start Diag_Word_Lex_Unterminated_Character_Escape, None)
            else
              (case lexer_character_escape (lexer_advance_bytes 1 l1) (lexer_peek l1 0) of
                 (l2, None) \<Rightarrow>
                   (lexer_fail l2 E0001_Syntax_Error start Diag_Word_Lex_Bad_Character_Escape, None)
               | (l2, Some c) \<Rightarrow> (l2, Some c)))
      else
        (let d = utf8_decode (drop (lexer_offset l) (lexer_bytes l))
         in if \<not> utf8_valid d
            then (lexer_fail l E1001_Invalid_UTF8_Byte start Diag_Word_Lex_Invalid_Utf8_Character, None)
            else (lexer_advance_bytes (utf8_width d) l, Some (utf8_codepoint d))))"

definition lexer_scan_character :: "lexer \<Rightarrow> source_position \<Rightarrow> nat \<Rightarrow> lexer \<times> token option" where
  "lexer_scan_character l start i =
     (if \<not> lexer_has l 1
      then (lexer_fail l E0001_Syntax_Error start Diag_Word_Lex_Unterminated_Character, None)
      else
        (case lexer_character_value l start of
           (l', None) \<Rightarrow> (l', None)
         | (l', Some c) \<Rightarrow>
             if \<not> utf8_is_scalar c
             then (lexer_fail l' E0001_Syntax_Error start Diag_Word_Lex_Bad_Character_Escape, None)
             else if \<not> lexer_has l' 1 \<or> lexer_peek l' 0 \<noteq> 0x27
             then (lexer_fail l' E0001_Syntax_Error start Diag_Word_Lex_Unterminated_Character, None)
             else lexer_set_token_character (lexer_advance_bytes 1 l') TK_LIT_CHAR start i c))"

section \<open>What the text steps establish\<close>

text \<open>
  The invariant of the string loops. The text never has more bytes than the source behind the
  cursor, and the source is below an eighth of the address space, so the growth of builder and
  arena cannot overflow.
\<close>

definition lexer_text_inv :: "source_file \<Rightarrow> lexer \<Rightarrow> text_builder \<Rightarrow> bool" where
  "lexer_text_inv s l b \<longleftrightarrow>
     lexer_inv s l \<and> builder_inv b \<and> length (builder_text b) \<le> lexer_offset l
     \<and> length (source_bytes s) < 2 ^ 61"

definition lexer_text_result ::
    "source_file \<Rightarrow> lexer \<Rightarrow> lexer \<times> text_builder option \<Rightarrow> bool" where
  "lexer_text_result s l r \<longleftrightarrow>
     lexer_moves s l (fst r)
     \<and> (case snd r of
          None \<Rightarrow> lexer_granting l \<longrightarrow> lexer_failed (fst r)
        | Some b' \<Rightarrow> lexer_failed (fst r) = lexer_failed l \<and> lexer_text_inv s (fst r) b')"

lemma lexer_inv_heap [simp]: "lexer_inv s (l\<lparr>lexer_heap := h\<rparr>) = lexer_inv s l"
  by (simp add: lexer_inv_def cursor_at_def)

lemma lexer_moves_heap:
  "lexer_moves s l (l'\<lparr>lexer_heap := (\<lambda>i. lexer_heap l (Suc i))\<rparr>) \<longleftrightarrow>
     lexer_inv s l' \<and> lexer_offset l \<le> lexer_offset l'"
  by (auto simp: lexer_moves_def lexer_granting_def)

lemma lexer_append_byte_eq: "lexer_append_byte l b x = lexer_append l b [x]"
  by (simp add: lexer_append_byte_def lexer_append_def text_builder_append_byte_def)

lemma lexer_append_step:
  assumes b: "builder_inv b" "length (builder_text b) < 2 ^ 62" and xs: "length xs < 2 ^ 62"
    and app: "lexer_append l b xs = (l', r)"
  shows "l' = l\<lparr>lexer_heap := (\<lambda>i. lexer_heap l (Suc i))\<rparr>
    \<and> (case r of None \<Rightarrow> \<not> lexer_granting l
       | Some b' \<Rightarrow> builder_inv b' \<and> builder_text b' = builder_text b @ xs)"
proof -
  let ?n = "of_nat (length xs) :: size_t"
  have n: "length xs = unat ?n" "unat ?n < 2 ^ 62"
    using xs by (simp_all add: unat_of_nat)
  have small: "unat ?n < 2 ^ 63 - 1"
    using n(2) by simp
  have frame: "l' = l\<lparr>lexer_heap := (\<lambda>i. lexer_heap l (Suc i))\<rparr>"
    using app by (auto simp: lexer_append_def dest!: builder_call_frame)
  have r: "r = (case text_builder_append (lexer_heap l 0) b (Some xs) ?n of
      Done b \<Rightarrow> Some b | Refused \<Rightarrow> None | Overrun \<Rightarrow> None)"
    using app by (simp add: lexer_append_def lexer_builder_call_def lexer_take_grant_def)
  note step = text_builder_append_step [OF b(1) refl n(1) small, of "lexer_heap l 0"]
  have grant: "lexer_heap l 0 \<Longrightarrow> r \<noteq> None"
    using text_builder_append_granted [OF b n] by (auto simp: r)
  show ?thesis
    using frame step grant
    by (auto simp: r lexer_granting_def split: outcome.splits option.splits)
qed

lemma lexer_raw_character_step:
  assumes inv: "lexer_text_inv s l b" and has: "lexer_has l 1"
    and raw: "lexer_append_raw_character l b start = (l', r)"
  shows "lexer_text_result s l (l', r)
    \<and> (\<forall>b'. r = Some b' \<longrightarrow>
         (\<exists>xs. xs \<noteq> [] \<and> take (length xs) (drop (lexer_offset l) (source_bytes s)) = xs
            \<and> builder_text b' = builder_text b @ xs
            \<and> lexer_offset l' = lexer_offset l + length xs))"
proof -
  have c: "cursor_at s l" and b: "builder_inv b" "length (builder_text b) \<le> lexer_offset l"
      and len: "length (source_bytes s) < 2 ^ 61"
    using inv by (auto simp: lexer_text_inv_def lexer_inv_def)
  have o: "lexer_offset l < length (source_bytes s)"
    using has c by (simp add: lexer_has_at)
  let ?rest = "drop (lexer_offset l) (source_bytes s)"
  let ?d = "utf8_decode ?rest"
  define w where "w = (if lexer_peek l 0 \<ge> 0x80 then utf8_width ?d else 1)"
  have head: "lexer_peek l 0 = ?rest ! 0" "?rest \<noteq> []"
    using o c by (simp_all add: lexer_peek_at)
  show ?thesis
  proof (cases "lexer_peek l 0 \<ge> 0x80 \<and> \<not> utf8_valid ?d")
    case True
    then have "l' = lexer_fail l E1001_Invalid_UTF8_Byte start Diag_Word_Lex_Invalid_Utf8_String" "r = None"
      using raw by (simp_all add: lexer_append_raw_character_def cursor_at_bytes [OF c] Let_def)
    then show ?thesis
      using inv by (simp add: lexer_text_result_def lexer_moves_refl lexer_text_inv_def)
  next
    case False
    have w: "1 \<le> w" "w \<le> length ?rest"
      using False decode_width [of ?rest] o by (auto simp: w_def)
    have "take 1 ?rest = [?rest ! 0]"
      using head(2) by (cases ?rest) auto
    then have step: "(l', r) = (case lexer_append l b (take w ?rest) of
        (l', None) \<Rightarrow> (lexer_fail l' E1100_Internal_Context_Error start Diag_Word_Syntax_Internal_Oom, None)
      | (l', Some b') \<Rightarrow> (lexer_advance_bytes w l', Some b'))"
    proof (cases "lexer_peek l 0 \<ge> 0x80")
      case True
      then have w': "w = utf8_width ?d"
        by (simp add: w_def)
      show ?thesis
        unfolding w' using raw False True
        by (simp add: lexer_append_raw_character_def cursor_at_bytes [OF c] Let_def)
    next
      case False
      then have w': "w = Suc 0"
        by (simp add: w_def)
      show ?thesis
        unfolding w' using raw False head \<open>take 1 ?rest = _\<close>
        by (simp add: lexer_append_raw_character_def Let_def lexer_append_byte_eq)
    qed
    obtain l1 r1 where app: "lexer_append l b (take w ?rest) = (l1, r1)"
      by (cases "lexer_append l b (take w ?rest)")
    have a: "l1 = l\<lparr>lexer_heap := (\<lambda>i. lexer_heap l (Suc i))\<rparr>"
      "case r1 of None \<Rightarrow> \<not> lexer_granting l
       | Some b' \<Rightarrow> builder_inv b' \<and> builder_text b' = builder_text b @ take w ?rest"
      using lexer_append_step [OF b(1) _ _ app] b(2) o len by auto
    show ?thesis
    proof (cases r1)
      case None
      then show ?thesis
        using step app a inv
        by (simp add: lexer_text_result_def lexer_moves_heap lexer_text_inv_def)
    next
      case (Some b')
      let ?l = "(at_offset s l (lexer_offset l + w))\<lparr>lexer_heap := (\<lambda>i. lexer_heap l (Suc i))\<rparr>"
      have l': "l' = ?l" "r = Some b'"
        using step app a(1) Some lexer_advance_at_le [OF c, of w] w(2) o by simp_all
      have "lexer_inv s (at_offset s l (lexer_offset l + w))"
        using inv w(2) o c by (simp add: lexer_text_inv_def lexer_inv_def)
      then have "lexer_text_result s l (l', r)"
        using a(2) Some b(2) w o len
        by (simp add: l' lexer_text_result_def lexer_moves_heap lexer_text_inv_def)
      moreover have "take w ?rest \<noteq> []" "length (take w ?rest) = w"
        using w head(2) by auto
      ultimately show ?thesis
        using a(2) Some
        by (intro conjI allI impI exI [of _ "take w ?rest"]) (auto simp: l')
    qed
  qed
qed

lemma lexer_text_result_trans:
  "lexer_moves s l l' \<Longrightarrow> lexer_failed l' = lexer_failed l \<Longrightarrow> lexer_text_result s l' r \<Longrightarrow>
     lexer_text_result s l r"
  by (auto simp: lexer_text_result_def lexer_moves_def split: option.splits)

lemma lexer_text_result_fail: "lexer_moves s l l' \<Longrightarrow> lexer_text_result s l (lexer_fail l' i st key, None)"
  by (simp add: lexer_text_result_def)

text \<open>
  Appending bytes at a cursor that has moved at least as far as the text grows; the cursor may
  have run ahead already, as after an escape.
\<close>

lemma lexer_append_result:
  assumes inv: "lexer_inv s l" "builder_inv b" "length (source_bytes s) < 2 ^ 61"
    and len: "length (builder_text b) + length xs \<le> lexer_offset l"
    and app: "lexer_append l b xs = (l', r)"
  shows "lexer_text_result s l (l', r)
    \<and> (\<forall>b'. r = Some b' \<longrightarrow> builder_text b' = builder_text b @ xs \<and> lexer_offset l' = lexer_offset l)
    \<and> (lexer_granting l \<longrightarrow> r \<noteq> None)"
proof -
  have "lexer_offset l \<le> length (source_bytes s)"
    using inv(1) by (simp add: lexer_inv_def cursor_at_le)
  then have small: "length (builder_text b) < 2 ^ 62" "length xs < 2 ^ 62"
    using len inv(3) by simp_all
  show ?thesis
    using lexer_append_step [OF inv(2) small app] inv len
    by (auto simp: lexer_text_result_def lexer_moves_heap lexer_text_inv_def split: option.splits)
qed

lemma lexer_guillemet_result:
  assumes inv: "lexer_text_inv s l b" and m: "lexer_matches l g" and g: "g \<noteq> []"
    and app: "lexer_append_guillemet l b start g = (l', r)"
  shows "lexer_text_result s l (l', r)
    \<and> (\<forall>b'. r = Some b' \<longrightarrow> builder_text b' = builder_text b @ g
          \<and> lexer_offset l' = lexer_offset l + length g)"
proof -
  have c: "cursor_at s l" and b: "builder_inv b" "length (builder_text b) \<le> lexer_offset l"
      and len: "length (source_bytes s) < 2 ^ 61"
    using inv by (auto simp: lexer_text_inv_def lexer_inv_def)
  have o: "lexer_offset l + length g \<le> length (source_bytes s)"
    by (rule lexer_matches_has [OF c m])
  have t: "take (length g) (drop (lexer_offset l) (lexer_bytes l)) = g"
    using m by (simp add: lexer_matches_def)
  obtain l1 r1 where app1: "lexer_append l b g = (l1, r1)"
    by (cases "lexer_append l b g")
  have a: "l1 = l\<lparr>lexer_heap := (\<lambda>i. lexer_heap l (Suc i))\<rparr>"
      "case r1 of None \<Rightarrow> \<not> lexer_granting l
       | Some b' \<Rightarrow> builder_inv b' \<and> builder_text b' = builder_text b @ g"
    using lexer_append_step [OF b(1) _ _ app1] b(2) o len by auto
  have adv: "lexer_advance_bytes (length g) l = at_offset s l (lexer_offset l + length g)"
    using o by (rule lexer_advance_at_le [OF c])
  have "lexer_inv s (at_offset s l (lexer_offset l + length g))"
    using inv o c by (simp add: lexer_text_inv_def lexer_inv_def)
  then show ?thesis
    using app a inv b o len
    by (cases r1) (auto simp: lexer_append_guillemet_def t app1 adv lexer_text_result_def
        lexer_moves_heap lexer_text_inv_def)
qed

lemma hex_escape_parse:
  assumes "lexer_inv s l" "lexer_parse_hex_escape l n = (l', r)"
  shows "lexer_moves s l l' \<and> lexer_failed l' = lexer_failed l
    \<and> (r = None \<longrightarrow> l' = l) \<and> (r \<noteq> None \<longrightarrow> lexer_offset l' = lexer_offset l + n)"
proof -
  have c: "cursor_at s l"
    using assms(1) by (simp add: lexer_inv_def)
  show ?thesis
    using assms lexer_moves_refl [OF assms(1)] lexer_moves_at [OF assms(1)] lexer_advance_at_le [OF c]
    by (auto simp: lexer_parse_hex_escape_def lexer_has_at [OF c] split: if_splits option.splits)
qed

text \<open>The digits of an escape have the value of a base 16 number.\<close>

lemma positional_value_bound:
  "positional_value base v cs = Some n \<Longrightarrow> 0 < base \<Longrightarrow> n < (v + 1) * base ^ length cs"
proof (induction base v cs rule: positional_value.induct)
  case (2 base v c cs)
  then obtain d where d: "digit_value base c = Some d" "positional_value base (v * base + d) cs = Some n"
    by (auto split: option.splits)
  have "d < base"
    using d(1) by (auto simp: digit_value_def split: option.splits if_splits)
  then have "(v * base + d + 1) * base ^ length cs \<le> ((v + 1) * base) * base ^ length cs"
    by (intro mult_le_mono1) simp
  moreover have "n < (v * base + d + 1) * base ^ length cs"
    using "2.IH" [OF d(1) d(2) "2.prems"(2)] .
  ultimately have "n < ((v + 1) * base) * base ^ length cs"
    by linarith
  then show ?case
    by (simp only: length_Cons power_Suc mult.assoc)
qed simp

lemma shift_in_hex_digit:
  fixes v :: u32
  assumes "unat v < 2 ^ 28" "d < 16"
  shows "unat (push_bit 4 v OR of_nat d) = unat v * 16 + d"
proof -
  have d: "unat (of_nat d :: u32) = d"
    using assms(2) by (simp add: unat_of_nat)
  have p: "unat (push_bit 4 v) = unat v * 16"
    using assms(1) by (simp add: unsigned_push_bit_eq push_bit_nat_def take_bit_nat_eq_self)
  have "push_bit 4 v OR of_nat d = push_bit 4 v + of_nat d"
    by (rule or_eq_add [where n = 4]) (auto intro!: bit_eqI simp: bit_simps d assms(2))
  then show ?thesis
    using assms by (simp add: unat_word_ariths p d)
qed

lemma hex_digits_value_eq:
  "(unat v + 1) * 16 ^ length bs \<le> 2 ^ 32 \<Longrightarrow>
     hex_digits_value bs v = map_option of_nat (positional_value 16 (unat v) bs)"
proof (induction bs arbitrary: v)
  case (Cons b bs)
  show ?case
  proof (cases "lexer_hex_value b")
    case (Some d)
    then have d: "d < 16"
      using lexer_integer_digit_value by blast
    have "(unat v + 1) * 16 * 16 ^ length bs \<le> 2 ^ 32"
      using Cons.prems by (simp only: length_Cons power_Suc mult.assoc)
    moreover have "(unat v + 1) * 16 \<le> (unat v + 1) * 16 * 16 ^ length bs"
      by simp
    ultimately have "(unat v + 1) * 16 \<le> 2 ^ 32"
      by (rule order_trans [rotated])
    then have v: "unat v < 2 ^ 28"
      by simp
    note u = shift_in_hex_digit [OF v d]
    have "(unat v * 16 + d + 1) * 16 ^ length bs \<le> (unat v + 1) * 16 * 16 ^ length bs"
      using d by (intro mult_le_mono1) simp
    then have "(unat (push_bit 4 v OR of_nat d) + 1) * 16 ^ length bs \<le> 2 ^ 32"
      unfolding u using \<open>(unat v + 1) * 16 * 16 ^ length bs \<le> 2 ^ 32\<close> by linarith
    from Cons.IH [OF this] show ?thesis
      using Some d by (simp add: digit_value_def u)
  qed (simp add: digit_value_def)
qed simp

lemma two_digit_scalar:
  assumes "hex_digits_value [a, b] 0 = Some c"
  shows "utf8_is_scalar c"
proof -
  obtain n where n: "positional_value 16 0 [a, b] = Some n" "c = of_nat n"
    using assms hex_digits_value_eq [of 0 "[a, b]"]
    by (auto simp del: positional_value.simps hex_digits_value.simps)
  have "n < 256"
    using positional_value_bound [OF n(1)] by simp
  then show ?thesis
    by (simp add: n(2) utf8_is_scalar_def word_le_nat_alt unat_of_nat)
qed

lemma utf8_encode_nonempty: "utf8_is_scalar c \<Longrightarrow> utf8_encode c \<noteq> []"
  by (simp add: utf8_encode_def)

lemma utf8_encode_length: "length (utf8_encode c) \<le> 4"
  by (simp add: utf8_encode_def)

lemma hex_escape_result:
  assumes inv: "lexer_inv s l" "builder_inv b" "length (source_bytes s) < 2 ^ 61"
    and len: "length (builder_text b) + 2 \<le> lexer_offset l" and n: "2 \<le> n"
    and scalar: "scalar \<or> n = 2"
    and esc: "lexer_scan_hex_escape l b start n scalar key = (l', r)"
  shows "lexer_text_result s l (l', r)"
proof -
  obtain l1 c where p: "lexer_parse_hex_escape l n = (l1, c)"
    by (cases "lexer_parse_hex_escape l n")
  note parse = hex_escape_parse [OF inv(1) p]
  show ?thesis
  proof (cases c)
    case None
    then show ?thesis
      using esc p parse by (auto simp: lexer_scan_hex_escape_def intro: lexer_text_result_fail)
  next
    case (Some v)
    have l1: "lexer_inv s l1" "lexer_offset l1 = lexer_offset l + n"
      using parse Some by (auto simp: lexer_moves_def)
    have v: "utf8_is_scalar v" if "\<not> (scalar \<and> \<not> utf8_is_scalar v)"
    proof (cases scalar)
      case True
      with that show ?thesis by simp
    next
      case False
      then have "n = 2"
        using scalar by simp
      then have "hex_digits_value [lexer_peek l 0, lexer_peek l 1] 0 = Some v"
        using p Some
        by (auto simp: lexer_parse_hex_escape_def numeral_2_eq_2 split: if_splits option.splits)
      then show ?thesis
        by (rule two_digit_scalar)
    qed
    show ?thesis
    proof (cases "scalar \<and> \<not> utf8_is_scalar v")
      case True
      then show ?thesis
        using esc p parse Some by (auto simp: lexer_scan_hex_escape_def intro: lexer_text_result_fail)
    next
      case False
      have app: "lexer_append l1 b (utf8_encode v) = (l', r)"
        using esc p Some False utf8_encode_nonempty [OF v [OF False]]
        by (auto simp: lexer_scan_hex_escape_def lexer_append_codepoint_def)
      have "length (builder_text b) + length (utf8_encode v) \<le> lexer_offset l1"
        using len n l1(2) utf8_encode_length [of v] by simp
      from lexer_append_result [OF l1(1) inv(2,3) this app] parse show ?thesis
        by (auto intro: lexer_text_result_trans)
    qed
  qed
qed

lemma escape_result:
  assumes inv: "lexer_inv s l" "builder_inv b" "length (source_bytes s) < 2 ^ 61"
    and len: "length (builder_text b) + 1 \<le> lexer_offset l"
    and esc: "lexer_scan_escape l b start = (l', r)"
  shows "lexer_text_result s l (l', r)"
proof (cases "lexer_has l 1")
  case False
  then show ?thesis
    using esc inv(1) by (auto simp: lexer_scan_escape_def lexer_text_result_fail lexer_moves_refl)
next
  case True
  let ?l = "lexer_advance_bytes 1 l"
  have c: "cursor_at s l"
    using inv(1) by (simp add: lexer_inv_def)
  have o: "lexer_offset l + 1 \<le> length (source_bytes s)"
    using True c by (simp add: lexer_has_at)
  have adv: "?l = at_offset s l (lexer_offset l + 1)"
    using o by (rule lexer_advance_at_le [OF c])
  have m: "lexer_moves s l ?l" "lexer_failed ?l = lexer_failed l"
    unfolding adv using lexer_moves_at [OF inv(1) _ o] by simp_all
  have l: "lexer_inv s ?l" "lexer_offset ?l = lexer_offset l + 1"
    subgoal using m(1) by (simp add: lexer_moves_def)
    subgoal unfolding adv by simp
    done
  have byte: "lexer_text_result s ?l (lexer_append_byte ?l b x)" for x
  proof -
    obtain l1 r1 where app: "lexer_append ?l b [x] = (l1, r1)"
      by fastforce
    have "length (builder_text b) + length [x] \<le> lexer_offset ?l"
      using l(2) len by simp
    from lexer_append_result [OF l(1) inv(2,3) this app] show ?thesis
      by (simp add: lexer_append_byte_eq app del: One_nat_def)
  qed
  have hex: "lexer_text_result s ?l (lexer_scan_hex_escape ?l b start n sc key)"
    if "2 \<le> n" "sc \<or> n = 2" for n sc key
  proof -
    obtain l1 r1 where app: "lexer_scan_hex_escape ?l b start n sc key = (l1, r1)"
      by fastforce
    have "length (builder_text b) + 2 \<le> lexer_offset ?l"
      using l(2) len by simp
    from hex_escape_result [OF l(1) inv(2,3) this that app] show ?thesis
      by (simp only: app)
  qed
  have "lexer_text_result s ?l (lexer_scan_escape l b start)"
    using True byte hex lexer_text_result_fail [OF lexer_moves_refl [OF l(1)]]
    by (simp add: lexer_scan_escape_def Let_def del: One_nat_def)
  then have "lexer_text_result s l (lexer_scan_escape l b start)"
    by (rule lexer_text_result_trans [OF m])
  then show ?thesis
    by (simp only: esc)
qed

lemma finish_string_scanned:
  assumes inv: "lexer_text_inv s l b" and start: "i = pos_offset start"
  shows "lexer_scanned s l start (lexer_finish_string l start i b)
    \<and> lexer_offset (fst (lexer_finish_string l start i b)) = lexer_offset l
    \<and> (lexer_granting l \<longrightarrow> snd (lexer_finish_string l start i b)
         = Some (lexer_set_token_header l TK_LIT_STR start i (Text_Payload (builder_text b))))"
proof -
  have c: "lexer_inv s l" "arena_inv (lexer_arena l)" "builder_inv b"
      and small: "length (builder_text b) < 2 ^ 62 - 1"
    using inv by (auto simp: lexer_text_inv_def lexer_inv_def dest: cursor_at_le)
  let ?n = "tb_length b" and ?l = "l\<lparr>lexer_heap := (\<lambda>i. lexer_heap l (Suc i))\<rparr>"
  have n: "length (builder_text b) = unat ?n"
    using c(3) by (rule length_builder_text)
  have n': "unat ?n < 2 ^ 62 - 1"
    using small n by simp
  note copy = arena_copy_text_step [OF c(2) n n', of "lexer_heap l 0"]
  have moves: "lexer_moves s l ?l"
    using c(1) by (simp add: lexer_moves_heap)
  show ?thesis
  proof (cases "arena_copy_text (lexer_heap l 0) (lexer_arena l) (builder_text b) ?n")
    case (Done ap)
    then obtain a p where ap: "arena_copy_text (lexer_heap l 0) (lexer_arena l) (builder_text b) ?n = Done (a, p)"
      by (cases ap) auto
    let ?m = "?l\<lparr>lexer_arena := a\<rparr>"
    have fin: "lexer_finish_string l start i b = lexer_set_token_text ?m TK_LIT_STR start i (builder_text b)"
      by (simp add: lexer_finish_string_def lexer_take_grant_def ap)
    have "arena_inv a"
      using copy ap by blast
    then have "lexer_moves s l ?m"
      using c(1) by (auto simp: lexer_moves_def lexer_inv_def cursor_at_def lexer_granting_def)
    from lexer_set_token_payload_scanned [OF this _ _ start, of TK_LIT_STR "Text_Payload (builder_text b)"]
    show ?thesis
      by (simp add: fin lexer_set_token_text_def payload_kind_def lexer_set_token_header_def
          lexer_position_def)
  next
    case Refused
    then have "\<not> lexer_granting l"
      using arena_copy_text_granted [OF c(2) n n'] by (auto simp: lexer_granting_def)
    with Refused moves show ?thesis
      by (simp add: lexer_finish_string_def lexer_take_grant_def lexer_scanned_fail)
  next
    case Overrun
    with copy show ?thesis by simp
  qed
qed

lemma lexer_scanned_step:
  assumes "lexer_text_result s l (l', r)"
    and "r = None \<Longrightarrow> x = (l', None)"
    and "\<And>b'. r = Some b' \<Longrightarrow> lexer_text_inv s l' b' \<Longrightarrow> lexer_scanned s l' start x"
  shows "lexer_scanned s l start x"
proof (cases r)
  case None
  with assms(1,2) show ?thesis
    by (simp add: lexer_text_result_def lexer_scanned_def)
next
  case (Some b')
  with assms show ?thesis
    by (auto simp: lexer_text_result_def intro: lexer_scanned_trans)
qed

lemma lexer_text_inv_at:
  "lexer_text_inv s l b \<Longrightarrow> lexer_offset l \<le> k \<Longrightarrow> k \<le> length (source_bytes s) \<Longrightarrow>
     lexer_text_inv s (at_offset s l k) b"
  by (simp add: lexer_text_inv_def lexer_inv_def)

lemma finish_after_advance:
  assumes inv: "lexer_text_inv s l b" and has: "lexer_has l n" and start: "i = pos_offset start"
  shows "lexer_scanned s l start (lexer_finish_string (lexer_advance_bytes n l) start i b)"
proof -
  have c: "cursor_at s l" and l: "lexer_inv s l"
    using inv by (simp_all add: lexer_text_inv_def lexer_inv_def)
  have o: "lexer_offset l + n \<le> length (source_bytes s)"
    using has c by (simp add: lexer_has_at)
  have adv: "lexer_advance_bytes n l = at_offset s l (lexer_offset l + n)"
    using o by (rule lexer_advance_at_le [OF c])
  have i: "lexer_text_inv s (at_offset s l (lexer_offset l + n)) b"
    using inv _ o by (rule lexer_text_inv_at) simp
  have m: "lexer_moves s l (at_offset s l (lexer_offset l + n))"
    using l _ o by (rule lexer_moves_at) simp
  show ?thesis
    unfolding adv
    by (rule lexer_scanned_trans [OF m _ conjunct1 [OF finish_string_scanned [OF i start]]]) simp
qed

lemma scan_guillemet_scanned:
  "lexer_text_inv s l b \<Longrightarrow> i = pos_offset start \<Longrightarrow>
     lexer_scanned s l start (lexer_scan_guillemet_string l start i b depth)"
proof (induction l start i b depth rule: lexer_scan_guillemet_string.induct)
  case (1 l start i b depth)
  note inv = "1.prems"(1) and start = "1.prems"(2)
  note unfold = lexer_scan_guillemet_string.simps [of l start i b depth]
  have fail: "lexer_scanned s l start (lexer_fail l e start key, None)" for e key
    using inv by (simp add: lexer_scanned_fail lexer_moves_refl lexer_text_inv_def)
  show ?case
  proof (cases "lexer_has l 1")
    case False
    with fail show ?thesis
      by (simp add: unfold)
  next
    case has: True
    show ?thesis
    proof (cases "lexer_matches l left_guillemet")
      case left: True
      obtain l' r where app: "lexer_append_guillemet l b start left_guillemet = (l', r)"
        by fastforce
      have res: "lexer_text_result s l (l', r)"
        using lexer_guillemet_result [OF inv left _ app] by (simp add: left_guillemet_def)
      show ?thesis
      proof (cases "depth \<ge> 256")
        case True
        with has left fail show ?thesis
          by (simp add: unfold)
      next
        case False
        with has left show ?thesis
          using "1.IH"(1) [OF _ left False app [symmetric] _ _ start]
          by (intro lexer_scanned_step [OF res]) (simp_all add: unfold app)
      qed
    next
      case not_left: False
      show ?thesis
      proof (cases "lexer_matches l right_guillemet")
        case right: True
        obtain l' r where app: "lexer_append_guillemet l b start right_guillemet = (l', r)"
          by fastforce
        have res: "lexer_text_result s l (l', r)"
          using lexer_guillemet_result [OF inv right _ app] by (simp add: right_guillemet_def)
        show ?thesis
        proof (cases "depth - 1 = 0")
          case True
          have "lexer_has l (length right_guillemet)"
            using right by (simp add: lexer_matches_def)
          with True has not_left right show ?thesis
            using finish_after_advance [OF inv _ start] by (simp add: unfold)
        next
          case False
          with has not_left right show ?thesis
            using "1.IH"(2) [OF _ not_left right False app [symmetric] _ _ start]
            by (intro lexer_scanned_step [OF res]) (simp_all add: unfold app)
        qed
      next
        case not_right: False
        obtain l' r where app: "lexer_append_raw_character l b start = (l', r)"
          by fastforce
        have res: "lexer_text_result s l (l', r)"
          using lexer_raw_character_step [OF inv has app] by simp
        from has not_left not_right show ?thesis
          using "1.IH"(3) [OF _ not_left not_right app [symmetric] _ _ start]
          by (intro lexer_scanned_step [OF res]) (simp_all add: unfold app)
      qed
    qed
  qed
qed

lemma scan_quoted_scanned:
  "lexer_text_inv s l b \<Longrightarrow> i = pos_offset start \<Longrightarrow>
     lexer_scanned s l start (lexer_scan_quoted_string l start i b)"
proof (induction l start i b rule: lexer_scan_quoted_string.induct)
  case (1 l start i b)
  note inv = "1.prems"(1) and start = "1.prems"(2)
  note unfold = lexer_scan_quoted_string.simps [of l start i b]
  have l: "lexer_inv s l" "builder_inv b" "length (builder_text b) \<le> lexer_offset l"
      "length (source_bytes s) < 2 ^ 61" and c: "cursor_at s l"
    using inv by (simp_all add: lexer_text_inv_def lexer_inv_def)
  have fail: "lexer_scanned s l start (lexer_fail l e start key, None)" for e key
    using l(1) by (simp add: lexer_scanned_fail lexer_moves_refl)
  show ?case
  proof (cases "lexer_has l 1")
    case False
    with fail show ?thesis
      by (simp add: unfold)
  next
    case has: True
    have o: "lexer_offset l + 1 \<le> length (source_bytes s)"
      using has c by (simp add: lexer_has_at)
    show ?thesis
    proof (cases "lexer_peek l 0 = 0x22 \<or> lexer_peek l 0 = 0x0A")
      case True
      with has fail finish_after_advance [OF inv has start] show ?thesis
        by (auto simp: unfold)
    next
      case plain: False
      show ?thesis
      proof (cases "lexer_peek l 0 = 0x5C")
        case esc: True
        let ?l = "lexer_advance_bytes 1 l"
        have adv: "?l = at_offset s l (lexer_offset l + 1)"
          using o by (rule lexer_advance_at_le [OF c])
        have m: "lexer_moves s l ?l" "lexer_failed ?l = lexer_failed l"
          unfolding adv using lexer_moves_at [OF l(1) _ o] by simp_all
        have l1: "lexer_inv s ?l" "length (builder_text b) + 1 \<le> lexer_offset ?l"
          subgoal using m(1) by (simp add: lexer_moves_def)
          subgoal unfolding adv using l(3) by simp
          done
        obtain l' r where app: "lexer_scan_escape ?l b start = (l', r)"
          by fastforce
        have "lexer_text_result s ?l (l', r)"
          by (rule escape_result [OF l1(1) l(2,4) l1(2) app])
        then have res: "lexer_text_result s l (l', r)"
          by (rule lexer_text_result_trans [OF m])
        show ?thesis
        proof (rule lexer_scanned_step [OF res])
          show "lexer_scan_quoted_string l start i b = (l', None)" if "r = None"
            using has plain esc app that by (simp add: unfold del: One_nat_def)
          show "lexer_scanned s l' start (lexer_scan_quoted_string l start i b)"
            if r: "r = Some b'" and inv': "lexer_text_inv s l' b'" for b'
          proof -
            have "lexer_scan_quoted_string l start i b = lexer_scan_quoted_string l' start i b'"
              using has plain esc app r by (simp add: unfold del: One_nat_def)
            then show ?thesis
              using "1.IH"(1) [OF _ _ _ esc app [symmetric] r inv' start] has plain by simp
          qed
        qed
      next
        case no_esc: False
        obtain l' r where app: "lexer_append_raw_character l b start = (l', r)"
          by fastforce
        have res: "lexer_text_result s l (l', r)"
          using lexer_raw_character_step [OF inv has app] by simp
        from has plain no_esc show ?thesis
          using "1.IH"(2) [OF _ _ _ no_esc app [symmetric] _ _ start]
          by (intro lexer_scanned_step [OF res]) (simp_all add: unfold app)
      qed
    qed
  qed
qed

lemma scan_string_scanned:
  assumes "lexer_inv s l" "length (source_bytes s) < 2 ^ 61" "i = pos_offset start"
  shows "lexer_scanned s l start (lexer_scan_string l start i guillemet)"
proof -
  have "lexer_text_inv s l text_builder_init"
    using assms text_builder_init_inv by (simp add: lexer_text_inv_def)
  with assms(3) show ?thesis
    by (simp add: lexer_scan_string_def scan_guillemet_scanned scan_quoted_scanned)
qed

text \<open>Character literals.\<close>

lemma character_escape_moves:
  assumes "lexer_inv s l" "lexer_character_escape l e = (l', r)"
  shows "lexer_moves s l l' \<and> lexer_failed l' = lexer_failed l"
  using assms hex_escape_parse [OF assms(1)] lexer_moves_refl [OF assms(1)]
  by (auto simp: lexer_character_escape_def split: if_splits)

lemma character_value_moves:
  assumes inv: "lexer_inv s l" and has: "lexer_has l 1" and val: "lexer_character_value l start = (l', r)"
  shows "lexer_moves s l l' \<and> (r = None \<longrightarrow> lexer_failed l') \<and> (r \<noteq> None \<longrightarrow> lexer_failed l' = lexer_failed l)"
proof -
  have c: "cursor_at s l"
    using inv by (simp add: lexer_inv_def)
  have o: "lexer_offset l < length (source_bytes s)"
    using has c by (simp add: lexer_has_at)
  have shift: "lexer_moves s x (lexer_advance_bytes n x) \<and> lexer_failed (lexer_advance_bytes n x) = lexer_failed x"
    if "lexer_inv s x" for x n
    using that lexer_shifts_advance [of s x n] lexer_shifts_moves [of s x "lexer_advance_bytes n x"]
      lexer_shifts_failed [of s x "lexer_advance_bytes n x"]
    by (simp add: lexer_inv_def)
  show ?thesis
  proof (cases "lexer_peek l 0 = 0x5C")
    case False
    with val shift [OF inv] show ?thesis
      by (auto simp: lexer_character_value_def Let_def lexer_moves_refl inv split: if_splits)
  next
    case True
    let ?l1 = "lexer_advance_bytes 1 l"
    let ?l2 = "lexer_advance_bytes 1 ?l1"
    have l1: "lexer_moves s l ?l1" "lexer_failed ?l1 = lexer_failed l" "lexer_inv s ?l1"
      using shift [OF inv, of 1] by (auto simp: lexer_moves_def)
    have l2: "lexer_moves s l ?l2" "lexer_failed ?l2 = lexer_failed l" "lexer_inv s ?l2"
      using shift [OF l1(3), of 1] l1 lexer_moves_trans [OF l1(1)] by (auto simp: lexer_moves_def)
    obtain l3 r3 where e: "lexer_character_escape ?l2 (lexer_peek ?l1 0) = (l3, r3)"
      by fastforce
    have l3: "lexer_moves s l l3" "lexer_failed l3 = lexer_failed l"
      using character_escape_moves [OF l2(3) e] l2 lexer_moves_trans [OF l2(1)] by auto
    show ?thesis
      using val True l1 l3 e
      by (auto simp: lexer_character_value_def Let_def simp del: One_nat_def
          split: if_splits option.splits)
  qed
qed

lemma scan_character_scanned:
  assumes inv: "lexer_inv s l" and start: "i = pos_offset start"
  shows "lexer_scanned s l start (lexer_scan_character l start i)"
proof (cases "lexer_has l 1")
  case False
  with inv show ?thesis
    by (simp add: lexer_scan_character_def lexer_scanned_fail lexer_moves_refl)
next
  case has: True
  obtain l' r where v: "lexer_character_value l start = (l', r)"
    by fastforce
  note val = character_value_moves [OF inv has v]
  show ?thesis
  proof (cases r)
    case None
    with val has v show ?thesis
      by (simp add: lexer_scan_character_def lexer_scanned_def)
  next
    case (Some cp)
    then have l': "lexer_moves s l l'" "lexer_failed l' = lexer_failed l" "lexer_inv s l'"
      using val by (auto simp: lexer_moves_def)
    let ?l = "lexer_advance_bytes 1 l'"
    have "lexer_shifts s l' ?l"
      using l'(3) by (intro lexer_shifts_advance) (simp add: lexer_inv_def)
    then have "lexer_moves s l ?l" "lexer_failed ?l = lexer_failed l"
      using l' lexer_shifts_moves [of s l' ?l] lexer_shifts_failed [of s l' ?l]
        lexer_moves_trans [OF l'(1)] by auto
    from lexer_set_token_payload_scanned [OF this _ start, of TK_LIT_CHAR "Character_Payload cp"]
    show ?thesis
      using has v Some l' lexer_scanned_fail [OF l'(1)]
      by (simp add: lexer_scan_character_def lexer_set_token_character_def payload_kind_def)
  qed
qed

end
