(* ===== verification/Lexer.thy ===== *)
theory Lexer
  imports Lexer_String
begin

text \<open>
  The lexer proper: \<open>bootstrap/src/frontend/lexer/lexer_next.c\<close> and \<open>lexer_operator.c\<close>. One call
  skips white space and line comments and scans one token. The lemmas establish what a call does
  to a state in its invariant; from them follow that tokenising ends, that the lexemes and the
  skipped text put together are the source, and that every failure is reported.
\<close>

section \<open>Operators\<close>

definition lexer_scan_operator :: "lexer \<Rightarrow> source_position \<Rightarrow> nat \<Rightarrow> lexer \<times> token option" where
  "lexer_scan_operator l start i =
     (case List.find (\<lambda>(sp, k). lexer_matches l sp) operator_entries of
        None \<Rightarrow> (l, None)
      | Some (sp, k) \<Rightarrow> lexer_set_token (lexer_advance_bytes (length sp) l) k start i)"

section \<open>White space, comments and identifiers\<close>

definition lexer_is_space :: "u8 \<Rightarrow> bool" where
  "lexer_is_space b \<longleftrightarrow> b = 0x20 \<or> b = 0x09 \<or> b = 0x0D \<or> b = 0x0A"

definition line_comment_start :: bytes where "line_comment_start = [0x2F, 0x2F]"

lemma remaining_scan_while:
  "lexer_remaining (lexer_scan_while test l) \<le> lexer_remaining l"
  "lexer_has l 1 \<Longrightarrow> test (lexer_peek l 0) \<Longrightarrow> lexer_remaining (lexer_scan_while test l) < lexer_remaining l"
proof (induction test l rule: lexer_scan_while.induct)
  case (1 test l)
  have less: "lexer_has l 1 \<Longrightarrow> lexer_remaining (lexer_advance_bytes 1 l) < lexer_remaining l"
    by (rule remaining_advance(2)) simp_all
  {
    case 1
    show ?case
    proof (cases "lexer_has l 1 \<and> test (lexer_peek l 0)")
      case True
      with "1.IH"(1) [OF True] less show ?thesis
        by (simp add: lexer_scan_while.simps [of test l])
    qed (auto simp: lexer_scan_while.simps [of test l])
  next
    case 2
    then have t: "lexer_has l 1 \<and> test (lexer_peek l 0)"
      by simp
    with "1.IH"(1) [OF t] less show ?case
      by (simp add: lexer_scan_while.simps [of test l])
  }
qed

lemma matches_comment_peek:
  assumes "lexer_matches l line_comment_start"
  shows "lexer_has l 1 \<and> lexer_peek l 0 = 0x2F"
proof -
  have "lexer_offset l + 2 \<le> length (lexer_bytes l)"
    using assms by (simp add: lexer_matches_def lexer_has_def line_comment_start_def)
  moreover have "take (Suc (Suc 0)) (drop (lexer_offset l) (lexer_bytes l)) = [0x2F, 0x2F]"
    using assms by (simp add: lexer_matches_def line_comment_start_def)
  ultimately show ?thesis
    by (simp add: lexer_has_def lexer_peek_def take_Suc_conv_app_nth)
qed

text \<open>The outer loop: white space, then a comment up to its newline, as long as there is one.\<close>

function lexer_skip_trivia :: "lexer \<Rightarrow> lexer" where
  "lexer_skip_trivia l =
     (let l1 = lexer_scan_while lexer_is_space l
      in if lexer_matches l1 line_comment_start
         then lexer_skip_trivia (lexer_scan_while (\<lambda>b. b \<noteq> 0x0A) l1)
         else l1)"
  by pat_completeness auto

termination lexer_skip_trivia
proof (relation "measure lexer_remaining", simp)
  fix l x
  assume x: "x = lexer_scan_while lexer_is_space l" and m: "lexer_matches x line_comment_start"
  have "lexer_remaining (lexer_scan_while (\<lambda>b. b \<noteq> 0x0A) x) < lexer_remaining x"
    using matches_comment_peek [OF m] by (intro remaining_scan_while(2)) auto
  also have "\<dots> \<le> lexer_remaining l"
    unfolding x by (rule remaining_scan_while(1))
  finally show "(lexer_scan_while (\<lambda>b. b \<noteq> 0x0A) x, l) \<in> measure lexer_remaining"
    by simp
qed

declare lexer_skip_trivia.simps [simp del]

definition lexer_decode_at :: "lexer \<Rightarrow> nat \<Rightarrow> utf8_result" where
  "lexer_decode_at l offset =
     (if offset \<ge> length (lexer_bytes l) then utf8_invalid
      else utf8_decode (drop offset (lexer_bytes l)))"

text \<open>The identifier loop; the flag is false when it met bytes that are not UTF-8.\<close>

function lexer_scan_identifier :: "lexer \<Rightarrow> lexer \<times> bool" where
  "lexer_scan_identifier l =
     (if \<not> lexer_has l 1 then (l, True)
      else
        (let current = lexer_decode_at l (lexer_offset l)
         in if \<not> utf8_valid current then (l, False)
            else if \<not> lexer_is_id_rest (utf8_codepoint current) then (l, True)
            else lexer_scan_identifier (lexer_advance_bytes (utf8_width current) l)))"
  by pat_completeness auto

lemma decode_at_width: "utf8_valid (lexer_decode_at l k) \<Longrightarrow> 1 \<le> utf8_width (lexer_decode_at l k)
    \<and> k + utf8_width (lexer_decode_at l k) \<le> length (lexer_bytes l)"
  using decode_width [of "drop k (lexer_bytes l)"]
  by (auto simp: lexer_decode_at_def utf8_invalid_def split: if_splits)

termination lexer_scan_identifier
  by (relation "measure lexer_remaining") (auto intro!: remaining_advance(2) dest: decode_at_width)

declare lexer_scan_identifier.simps [simp del]

section \<open>One token\<close>

text \<open>The digits after an underscore: \<open>None\<close> when the index exceeds \<open>INT64_MAX\<close>.\<close>

function lexer_scan_index :: "lexer \<Rightarrow> u64 \<Rightarrow> lexer \<times> u64 option" where
  "lexer_scan_index l v =
     (if lexer_has l 1 \<and> lexer_is_decimal_digit (lexer_peek l 0) then
        (let digit = ucast (lexer_peek l 0 - 0x30)
         in if v > (INT64_MAX - digit) div 10 then (l, None)
            else lexer_scan_index (lexer_advance_bytes 1 l) (v * 10 + digit))
      else (l, Some v))"
  by pat_completeness auto

termination lexer_scan_index
  by (relation "measure (\<lambda>(l, _). lexer_remaining l)") (auto intro!: remaining_advance(2))

declare lexer_scan_index.simps [simp del]

definition lexer_scan_index_token :: "lexer \<Rightarrow> source_position \<Rightarrow> nat \<Rightarrow> lexer \<times> token option" where
  "lexer_scan_index_token l start i =
     (case lexer_scan_index (lexer_advance_bytes 1 l) 0 of
        (l', None) \<Rightarrow> (lexer_fail l' E0001_Syntax_Error start Diag_Word_Lex_Invalid_Integer, None)
      | (l', Some v) \<Rightarrow> lexer_set_token_index l' TK_UNDERSCORE_WITH_INDEX start i v)"

definition lexer_scan_word :: "lexer \<Rightarrow> source_position \<Rightarrow> nat \<Rightarrow> lexer \<times> token option" where
  "lexer_scan_word l start i =
     (case lexer_scan_identifier l of
        (l', False) \<Rightarrow>
          (lexer_fail l' E1001_Invalid_UTF8_Byte start Diag_Word_Lex_Invalid_Initial_Utf8, None)
      | (l', True) \<Rightarrow>
          (let text = source_slice (lexer_source l') i (lexer_offset l')
           in if \<not> identity_has_content text
              then (lexer_fail l' E0001_Syntax_Error start Diag_Word_Lex_Unexpected_Character, None)
              else
                (case keyword_lookup text of
                   Some (k, b) \<Rightarrow>
                     if k = TK_LIT_BOOL then lexer_set_token_boolean l' k start i b
                     else lexer_set_token l' k start i
                 | None \<Rightarrow> lexer_set_token l' TK_IDENTIFIER start i)))"

text \<open>The end of the routine: an operator, or a report on the byte that starts no token.\<close>

definition lexer_scan_other :: "lexer \<Rightarrow> source_position \<Rightarrow> nat \<Rightarrow> lexer \<times> token option" where
  "lexer_scan_other l start i =
     (case lexer_scan_operator l start i of
        (l', Some t) \<Rightarrow> (l', Some t)
      | (l', None) \<Rightarrow>
          if lexer_peek l' 0 \<ge> 0x80 \<and> \<not> utf8_valid (utf8_decode (drop (lexer_offset l') (lexer_bytes l')))
          then (lexer_fail l' E1001_Invalid_UTF8_Byte start Diag_Word_Lex_Invalid_Initial_Utf8, None)
          else (lexer_fail (lexer_advance_bytes 1 l') E0001_Syntax_Error start
                  Diag_Word_Lex_Unexpected_Character, None))"

text \<open>
  The underscore cases: an index, or an underscore alone when no identifier character follows.
  Otherwise the underscore starts a word.
\<close>

definition lexer_underscore_alone :: "lexer \<Rightarrow> nat \<Rightarrow> bool" where
  "lexer_underscore_alone l i \<longleftrightarrow>
     \<not> (lexer_has l 2 \<and> utf8_valid (lexer_decode_at l (i + 1))
        \<and> lexer_is_id_rest (utf8_codepoint (lexer_decode_at l (i + 1))))"

definition lexer_scan_token :: "lexer \<Rightarrow> lexer \<times> token option" where
  "lexer_scan_token l =
     (let start = lexer_position l; i = lexer_offset l
      in if \<not> lexer_has l 1 then lexer_set_token l TK_EOF start i
         else if lexer_matches l left_guillemet
           then lexer_scan_string (lexer_advance_bytes (length left_guillemet) l) start i True
         else if lexer_peek l 0 = 0x22 then lexer_scan_string (lexer_advance_bytes 1 l) start i False
         else if lexer_peek l 0 = 0x27 then lexer_scan_character (lexer_advance_bytes 1 l) start i
         else if lexer_peek l 0 = 0x5F \<and> lexer_has l 2 \<and> lexer_is_decimal_digit (lexer_peek l 1)
           then lexer_scan_index_token l start i
         else if lexer_peek l 0 = 0x5F \<and> lexer_underscore_alone l i
           then lexer_set_token (lexer_advance_bytes 1 l) TK_UNDERSCORE_OPERATOR start i
         else if lexer_is_decimal_digit (lexer_peek l 0) then lexer_scan_number l start i
         else if utf8_valid (lexer_decode_at l i) \<and> lexer_is_id_start (utf8_codepoint (lexer_decode_at l i))
           then lexer_scan_word l start i
         else lexer_scan_other l start i)"

definition lexer_next :: "lexer \<Rightarrow> lexer \<times> token option" where
  "lexer_next l =
     (if lexer_source l = None \<or> lexer_failed l then (l, None)
      else lexer_scan_token (lexer_skip_trivia l))"

section \<open>Trivia\<close>

text \<open>
  What may stand between tokens: white space, and comments from \<open>//\<close> up to a newline or the end.
\<close>

inductive trivia :: "bytes \<Rightarrow> bool" where
  trivia_Nil: "trivia []"
| trivia_space: "lexer_is_space b \<Longrightarrow> trivia t \<Longrightarrow> trivia (b # t)"
| trivia_comment: "0x0A \<notin> set c \<Longrightarrow> trivia t \<Longrightarrow> t = [] \<or> hd t = 0x0A \<Longrightarrow>
    trivia (line_comment_start @ c @ t)"

inductive_simps trivia_Cons_space: "trivia (b # t)"

lemma trivia_spaces: "\<forall>b \<in> set xs. lexer_is_space b \<Longrightarrow> trivia t \<Longrightarrow> trivia (xs @ t)"
  by (induction xs) (auto intro: trivia_space)

lemma slice_split:
  "i \<le> j \<Longrightarrow> j \<le> k \<Longrightarrow> take (k - i) (drop i xs) = take (j - i) (drop i xs) @ take (k - j) (drop j xs)"
  using take_drop_slice [of i j k xs] by simp

lemma takeWhile_slice:
  "take (length (takeWhile P (drop i xs))) (drop i xs) = takeWhile P (drop i xs)"
  by (metis takeWhile_dropWhile_id append_eq_conv_conj)

lemma hd_after_takeWhile:
  "i + length (takeWhile P (drop i xs)) < length xs \<Longrightarrow>
     \<not> P (xs ! (i + length (takeWhile P (drop i xs))))"
  using nth_length_takeWhile [of P "drop i xs"] by simp

lemma skip_trivia_shifts:
  "cursor_at s l \<Longrightarrow>
     lexer_shifts s l (lexer_skip_trivia l)
     \<and> trivia (take (lexer_offset (lexer_skip_trivia l) - lexer_offset l)
                (drop (lexer_offset l) (source_bytes s)))
     \<and> \<not> lexer_matches (lexer_skip_trivia l) line_comment_start
     \<and> \<not> (lexer_has (lexer_skip_trivia l) 1 \<and> lexer_is_space (lexer_peek (lexer_skip_trivia l) 0))"
proof (induction l rule: lexer_skip_trivia.induct)
  case (1 l)
  let ?bs = "source_bytes s" and ?o = "lexer_offset l"
  let ?l1 = "lexer_scan_while lexer_is_space l"
  let ?sp = "takeWhile lexer_is_space (drop ?o ?bs)"
  note c = "1.prems"
  have l1: "?l1 = at_offset s l (?o + length ?sp)"
    using c by (rule lexer_scan_while_at)
  have o1: "?o + length ?sp \<le> length ?bs"
    by (rule takeWhile_drop_le [OF cursor_at_le [OF c]])
  have c1: "cursor_at s ?l1"
    unfolding l1 using c o1 by simp
  have s1: "lexer_shifts s l ?l1"
    unfolding l1 using o1 by (intro lexer_shifts_at) simp_all
  have spaces: "take (length ?sp) (drop ?o ?bs) = ?sp" "\<forall>b \<in> set ?sp. lexer_is_space b"
    by (simp add: takeWhile_slice) (blast dest: set_takeWhileD)
  show ?case
  proof (cases "lexer_matches ?l1 line_comment_start")
    case False
    then have skip: "lexer_skip_trivia l = ?l1"
      by (simp add: lexer_skip_trivia.simps [of l] Let_def)
    have "\<not> (lexer_has ?l1 1 \<and> lexer_is_space (lexer_peek ?l1 0))"
      using hd_after_takeWhile [of ?o lexer_is_space ?bs] lexer_peek_at [OF c1] lexer_has_at [OF c1]
      by (auto simp: l1)
    moreover have "trivia ?sp"
      using trivia_spaces [OF spaces(2) trivia_Nil] by simp
    ultimately show ?thesis
      unfolding skip using False s1 spaces(1) by (simp add: l1)
  next
    case True
    let ?o1 = "?o + length ?sp"
    let ?tail = "takeWhile (\<lambda>b. b \<noteq> 0x0A) (drop ?o1 ?bs)"
    let ?l2 = "lexer_scan_while (\<lambda>b. b \<noteq> 0x0A) ?l1"
    have off1: "lexer_offset ?l1 = ?o1"
      by (simp add: l1)
    have l2: "?l2 = at_offset s l (?o1 + length ?tail)"
      using lexer_scan_while_at [OF c1] by (simp add: off1) (simp add: l1)
    have o2: "?o1 + length ?tail \<le> length ?bs"
      using o1 by (rule takeWhile_drop_le)
    have c2: "cursor_at s ?l2"
      unfolding l2 using c o2 by simp
    have skip: "lexer_skip_trivia l = lexer_skip_trivia ?l2"
      using True by (simp add: lexer_skip_trivia.simps [of l] Let_def)
    note IH = "1.IH" [OF refl True c2]
    let ?o2 = "?o1 + length ?tail" and ?e = "lexer_offset (lexer_skip_trivia ?l2)"
    have off2: "lexer_offset ?l2 = ?o2"
      by (simp add: l2)
    have e: "?o2 \<le> ?e"
      using IH lexer_shifts_le [of s ?l2] by (simp add: off2)
    let ?t = "take (?e - ?o2) (drop ?o2 ?bs)"
    have t: "trivia ?t"
      using IH by (simp add: off2)
    have "take 2 (drop ?o1 ?bs) = line_comment_start"
      using True lexer_matches_at [OF c1] by (simp add: off1 line_comment_start_def numeral_2_eq_2)
    then obtain rest where rest: "drop ?o1 ?bs = line_comment_start @ rest"
      by (metis append_take_drop_id)
    then have tail: "?tail = line_comment_start @ takeWhile (\<lambda>b. b \<noteq> 0x0A) rest"
      by (simp add: line_comment_start_def)
    have h: "?t = [] \<or> hd ?t = 0x0A"
    proof (cases "?o2 < length ?bs \<and> ?o2 < ?e")
      case True
      then show ?thesis
        using hd_after_takeWhile [of ?o1 "\<lambda>b. b \<noteq> 0x0A" ?bs] by (simp add: hd_conv_nth)
    qed auto
    have nl: "0x0A \<notin> set (takeWhile (\<lambda>b. b \<noteq> 0x0A) rest)"
      using set_takeWhileD by fastforce
    have "trivia ((line_comment_start @ takeWhile (\<lambda>b. b \<noteq> 0x0A) rest) @ ?t)"
      using trivia_comment [OF nl t h] by (simp only: append_assoc)
    then have comment: "trivia (?tail @ ?t)"
      by (simp only: tail [symmetric])
    have "take (?e - ?o) (drop ?o ?bs) = ?sp @ (?tail @ ?t)"
      using slice_split [of ?o ?o1 ?e ?bs] slice_split [of ?o1 ?o2 ?e ?bs] e spaces(1)
        takeWhile_slice [of "\<lambda>b. b \<noteq> 0x0A" ?o1 ?bs] by simp
    with trivia_spaces [OF spaces(2) comment]
    have "trivia (take (?e - ?o) (drop ?o ?bs))"
      by simp
    moreover have "lexer_shifts s l ?l2"
      unfolding l2 using o2 by (intro lexer_shifts_at) simp_all
    ultimately show ?thesis
      unfolding skip using IH lexer_shifts_trans by blast
  qed
qed

section \<open>What one call establishes\<close>

text \<open>
  A token other than the end token: it is scanned from the cursor, is not empty, and is not of
  the end kind.
\<close>

definition lexer_token_ok :: "source_file \<Rightarrow> lexer \<Rightarrow> lexer \<times> token option \<Rightarrow> bool" where
  "lexer_token_ok s l r \<longleftrightarrow>
     lexer_scanned s l (lexer_position l) r
     \<and> (\<forall>t. snd r = Some t \<longrightarrow> lexer_offset l < lexer_offset (fst r) \<and> token_kind_of t \<noteq> TK_EOF)"

lemma pos_offset_position [simp]: "pos_offset (lexer_position l) = lexer_offset l"
  by (simp add: lexer_position_def)

lemma lexer_token_ok_fail: "lexer_moves s l l' \<Longrightarrow> lexer_token_ok s l (lexer_fail l' e (lexer_position l) key, None)"
  by (simp add: lexer_token_ok_def lexer_scanned_fail)

lemma lexer_token_ok_set:
  assumes "lexer_inv s l" "lexer_shifts s l l'" "lexer_offset l < lexer_offset l'" "k \<noteq> TK_EOF"
    "token_payload_kind_of k = payload_kind p"
  shows "lexer_token_ok s l (lexer_set_token_payload p l' k (lexer_position l) (lexer_offset l))"
proof -
  have "lexer_moves s l l'" "lexer_failed l' = lexer_failed l"
    using assms(1,2) lexer_shifts_moves lexer_shifts_failed by blast+
  from lexer_set_token_payload_scanned [OF this assms(5), of "lexer_offset l" "lexer_position l"]
  show ?thesis
    using assms(3,4) by (auto simp: lexer_token_ok_def lexer_set_token_header_def)
qed

lemma table_kinds_not_eof:
  "list_all (\<lambda>(sp, k, b). k \<noteq> TK_EOF) keyword_entries"
  "list_all (\<lambda>(sp, k). k \<noteq> TK_EOF) operator_entries"
  by (simp_all add: keyword_entries_def operator_entries_def)

lemma lexer_shifts_has:
  "cursor_at s l \<Longrightarrow> lexer_has l n \<Longrightarrow> lexer_shifts s l (lexer_advance_bytes n l)
     \<and> lexer_offset (lexer_advance_bytes n l) = lexer_offset l + n"
  using lexer_shifts_advance [of s l n] by (simp add: lexer_has_at lexer_advance_at_le)

lemma scan_operator_ok:
  assumes inv: "lexer_inv s l"
  shows "(case lexer_scan_operator l (lexer_position l) (lexer_offset l) of
      (l', None) \<Rightarrow> l' = l \<and> (\<forall>(sp, k) \<in> set operator_entries. \<not> lexer_matches l sp)
    | r \<Rightarrow> lexer_token_ok s l r)"
proof (cases "List.find (\<lambda>(sp, k). lexer_matches l sp) operator_entries")
  case None
  then have "lexer_scan_operator l (lexer_position l) (lexer_offset l) = (l, None)"
    by (simp add: lexer_scan_operator_def)
  moreover have "\<forall>(sp, k) \<in> set operator_entries. \<not> lexer_matches l sp"
    using None unfolding find_None_iff_all by auto
  ultimately show ?thesis
    by simp
next
  case (Some e)
  obtain sp k where e: "e = (sp, k)" by (cases e)
  have m: "(sp, k) \<in> set operator_entries" "lexer_matches l sp"
    using find_SomeD [OF Some] by (auto simp: e)
  have c: "cursor_at s l"
    using inv by (simp add: lexer_inv_def)
  have "lexer_has l (length sp)"
    using m(2) by (simp add: lexer_matches_def)
  note adv = lexer_shifts_has [OF c this]
  have "k \<noteq> TK_EOF" "token_payload_kind_of k = payload_kind No_Payload" "sp \<noteq> []"
    using m(1) table_kinds_not_eof(2) operator_payload operator_nonempty
    by (auto simp: list_all_iff payload_kind_def)
  with adv have ok: "lexer_token_ok s l (lexer_set_token (lexer_advance_bytes (length sp) l) k (lexer_position l) (lexer_offset l))"
    unfolding lexer_set_token_def by (intro lexer_token_ok_set [OF inv]) auto
  have "snd (lexer_set_token (lexer_advance_bytes (length sp) l) k (lexer_position l) (lexer_offset l)) \<noteq> None"
    using \<open>token_payload_kind_of k = _\<close>
    by (simp add: lexer_set_token_def lexer_set_token_payload_def lexer_require_payload_kind_def)
  then show ?thesis
    using ok Some
    by (auto simp: lexer_scan_operator_def e split: prod.splits option.splits)
qed

lemma scan_identifier_shifts:
  "cursor_at s l \<Longrightarrow> lexer_shifts s l (fst (lexer_scan_identifier l))"
proof (induction l rule: lexer_scan_identifier.induct)
  case (1 l)
  note unfold = lexer_scan_identifier.simps [of l]
  let ?d = "lexer_decode_at l (lexer_offset l)"
  show ?case
  proof (cases "lexer_has l 1 \<and> utf8_valid ?d \<and> lexer_is_id_rest (utf8_codepoint ?d)")
    case False
    with lexer_shifts_refl [OF "1.prems"] show ?thesis
      by (auto simp: unfold Let_def)
  next
    case True
    have s: "lexer_shifts s l (lexer_advance_bytes (utf8_width ?d) l)"
      by (rule lexer_shifts_advance [OF "1.prems"])
    have "lexer_shifts s (lexer_advance_bytes (utf8_width ?d) l)
        (fst (lexer_scan_identifier (lexer_advance_bytes (utf8_width ?d) l)))"
      using True by (intro "1.IH") (auto intro: lexer_shifts_cursor [OF s "1.prems"])
    with True lexer_shifts_trans [OF s] show ?thesis
      by (simp add: unfold Let_def)
  qed
qed

lemma id_start_rest: "lexer_is_id_start c \<Longrightarrow> lexer_is_id_rest c"
  by (simp add: lexer_is_id_rest_def)

lemma scan_identifier_progress:
  assumes c: "cursor_at s l" and has: "lexer_has l 1"
    and start: "utf8_valid (lexer_decode_at l (lexer_offset l))"
      "lexer_is_id_start (utf8_codepoint (lexer_decode_at l (lexer_offset l)))"
  shows "lexer_offset l < lexer_offset (fst (lexer_scan_identifier l))"
proof -
  let ?d = "lexer_decode_at l (lexer_offset l)"
  let ?l = "lexer_advance_bytes (utf8_width ?d) l"
  have w: "1 \<le> utf8_width ?d" "lexer_has l (utf8_width ?d)"
    using decode_at_width [OF start(1)] by (auto simp: lexer_has_def)
  have adv: "lexer_shifts s l ?l" "lexer_offset ?l = lexer_offset l + utf8_width ?d"
    using lexer_shifts_has [OF c w(2)] by auto
  have "lexer_offset ?l \<le> lexer_offset (fst (lexer_scan_identifier ?l))"
    by (rule lexer_shifts_le [OF scan_identifier_shifts [OF lexer_shifts_cursor [OF adv(1) c]]])
  moreover have "lexer_scan_identifier l = lexer_scan_identifier ?l"
    using has start id_start_rest by (simp add: lexer_scan_identifier.simps [of l] Let_def)
  ultimately show ?thesis
    using adv(2) w(1) by simp
qed

lemma keyword_kind_not_eof: "keyword_lookup t = Some (k, b) \<Longrightarrow> k \<noteq> TK_EOF"
proof -
  assume "keyword_lookup t = Some (k, b)"
  then obtain sp where "(sp, k, b) \<in> set keyword_entries"
    by (auto simp: keyword_lookup_def dest!: find_SomeD)
  then show ?thesis
    using table_kinds_not_eof(1) unfolding list_all_iff by fastforce
qed

lemma scan_word_ok:
  assumes inv: "lexer_inv s l" and has: "lexer_has l 1"
    and start: "utf8_valid (lexer_decode_at l (lexer_offset l))"
      "lexer_is_id_start (utf8_codepoint (lexer_decode_at l (lexer_offset l)))"
  shows "lexer_token_ok s l (lexer_scan_word l (lexer_position l) (lexer_offset l))"
proof -
  have c: "cursor_at s l"
    using inv by (simp add: lexer_inv_def)
  obtain l' ok where e: "lexer_scan_identifier l = (l', ok)"
    by fastforce
  have l': "lexer_shifts s l l'" "lexer_offset l < lexer_offset l'"
    using scan_identifier_shifts [OF c] scan_identifier_progress [OF c has start] by (simp_all add: e)
  note fail = lexer_token_ok_fail [OF lexer_shifts_moves [OF l'(1) inv]]
  note set = lexer_token_ok_set [OF inv l']
  have plain: "lexer_token_ok s l (lexer_set_token l' k (lexer_position l) (lexer_offset l))"
    if "k \<noteq> TK_EOF" "token_payload_kind_of k = Payload_None" for k
    unfolding lexer_set_token_def by (rule set) (simp_all add: that payload_kind_def)
  have bool: "lexer_token_ok s l (lexer_set_token_boolean l' TK_LIT_BOOL (lexer_position l) (lexer_offset l) b)" for b
    unfolding lexer_set_token_boolean_def by (rule set) (simp_all add: payload_kind_def)
  show ?thesis
  proof (cases "keyword_lookup (source_slice (lexer_source l') (lexer_offset l) (lexer_offset l'))")
    case None
    with fail plain [of TK_IDENTIFIER] show ?thesis
      by (cases ok) (simp_all add: lexer_scan_word_def e Let_def)
  next
    case (Some kb)
    obtain k b where kb: "kb = (k, b)" by (cases kb)
    have "k \<noteq> TK_EOF" "token_payload_kind_of k = (if k = TK_LIT_BOOL then Payload_Boolean else Payload_None)"
      using Some kb keyword_kind_not_eof keyword_lookup_payload by auto
    with Some kb fail plain [of k] bool [of b] show ?thesis
      by (cases ok) (simp_all add: lexer_scan_word_def e Let_def split: if_splits)
  qed
qed

lemma scan_index_shifts: "cursor_at s l \<Longrightarrow> lexer_shifts s l (fst (lexer_scan_index l v))"
proof (induction l v rule: lexer_scan_index.induct)
  case (1 l v)
  note unfold = lexer_scan_index.simps [of l v]
  let ?d = "ucast (lexer_peek l 0 - 0x30)"
  show ?case
  proof (cases "lexer_has l 1 \<and> lexer_is_decimal_digit (lexer_peek l 0)
      \<and> \<not> v > (INT64_MAX - ?d) div 10")
    case False
    with lexer_shifts_refl [OF "1.prems"] show ?thesis
      by (auto simp: unfold Let_def)
  next
    case True
    have s: "lexer_shifts s l (lexer_advance_bytes 1 l)"
      by (rule lexer_shifts_advance [OF "1.prems"])
    have "lexer_shifts s (lexer_advance_bytes 1 l)
        (fst (lexer_scan_index (lexer_advance_bytes 1 l) (v * 10 + ?d)))"
      using True by (intro "1.IH" lexer_shifts_cursor [OF s "1.prems"]) simp_all
    with True lexer_shifts_trans [OF s] show ?thesis
      by (simp add: unfold Let_def del: One_nat_def)
  qed
qed

lemma scan_index_token_ok:
  assumes inv: "lexer_inv s l" and has: "lexer_has l 1"
  shows "lexer_token_ok s l (lexer_scan_index_token l (lexer_position l) (lexer_offset l))"
proof -
  have c: "cursor_at s l"
    using inv by (simp add: lexer_inv_def)
  have adv: "lexer_shifts s l (lexer_advance_bytes 1 l)" "lexer_offset (lexer_advance_bytes 1 l) = lexer_offset l + 1"
    using lexer_shifts_has [OF c has] by auto
  obtain l' r where e: "lexer_scan_index (lexer_advance_bytes 1 l) 0 = (l', r)"
    by fastforce
  have sh: "lexer_shifts s (lexer_advance_bytes 1 l) l'"
    using scan_index_shifts [OF lexer_shifts_cursor [OF adv(1) c], of 0] by (simp only: e fst_conv)
  have l': "lexer_shifts s l l'" "lexer_offset l < lexer_offset l'"
    using lexer_shifts_trans [OF adv(1) sh] lexer_shifts_le [OF sh] adv(2) by auto
  show ?thesis
  proof (cases r)
    case None
    have "lexer_scan_index_token l (lexer_position l) (lexer_offset l)
        = (lexer_fail l' E0001_Syntax_Error (lexer_position l) Diag_Word_Lex_Invalid_Integer, None)"
      unfolding lexer_scan_index_token_def e None by simp
    with lexer_token_ok_fail [OF lexer_shifts_moves [OF l'(1) inv]] show ?thesis
      by simp
  next
    case (Some v)
    have "lexer_scan_index_token l (lexer_position l) (lexer_offset l)
        = lexer_set_token_payload (Index_Payload v) l' TK_UNDERSCORE_WITH_INDEX (lexer_position l) (lexer_offset l)"
      unfolding lexer_scan_index_token_def e Some lexer_set_token_index_def by simp
    then show ?thesis
      using lexer_token_ok_set [OF inv l', of TK_UNDERSCORE_WITH_INDEX "Index_Payload v"]
      by (simp add: payload_kind_def)
  qed
qed

text \<open>The literals: the scanning routine starts behind the opening quote.\<close>

lemma token_kind_set: "snd (lexer_set_token_payload p l k st i) = Some t \<Longrightarrow> token_kind_of t = k"
  by (auto simp: lexer_set_token_payload_def lexer_set_token_header_def lexer_require_payload_kind_def
      split: if_splits)

lemma finish_string_kind: "snd (lexer_finish_string l st i b) = Some t \<Longrightarrow> token_kind_of t = TK_LIT_STR"
  by (auto simp: lexer_finish_string_def lexer_set_token_text_def dest: token_kind_set
      split: outcome.splits prod.splits)

lemma guillemet_kind:
  "snd (lexer_scan_guillemet_string l st i b d) = Some t \<Longrightarrow> token_kind_of t = TK_LIT_STR"
proof (induction l st i b d rule: lexer_scan_guillemet_string.induct)
  case (1 l st i b d)
  from "1.prems" show ?case
    by (subst (asm) lexer_scan_guillemet_string.simps)
      (auto split: if_splits prod.splits option.splits dest: finish_string_kind simp del: One_nat_def
        intro: "1.IH"(1) [OF _ _ _ sym refl] "1.IH"(2) [OF _ _ _ _ sym refl] "1.IH"(3) [OF _ _ _ sym refl])
qed

lemma quoted_kind: "snd (lexer_scan_quoted_string l st i b) = Some t \<Longrightarrow> token_kind_of t = TK_LIT_STR"
proof (induction l st i b rule: lexer_scan_quoted_string.induct)
  case (1 l st i b)
  from "1.prems" show ?case
    by (subst (asm) lexer_scan_quoted_string.simps)
      (auto split: if_splits prod.splits option.splits dest: finish_string_kind simp del: One_nat_def
        intro: "1.IH" [OF _ _ _ _ sym refl])
qed

lemma string_kind: "snd (lexer_scan_string l st i g) = Some t \<Longrightarrow> token_kind_of t = TK_LIT_STR"
  by (auto simp: lexer_scan_string_def dest: guillemet_kind quoted_kind split: if_splits)

lemma character_kind: "snd (lexer_scan_character l st i) = Some t \<Longrightarrow> token_kind_of t = TK_LIT_CHAR"
  by (auto simp: lexer_scan_character_def lexer_set_token_character_def dest: token_kind_set
      split: if_splits prod.splits option.splits)

lemma number_kind: "snd (lexer_scan_number l st i) = Some t \<Longrightarrow> token_kind_of t \<noteq> TK_EOF"
  by (auto simp: lexer_scan_number_def lexer_set_token_integer_def lexer_set_token_def Let_def
      dest!: token_kind_set split: if_splits prod.splits option.splits)

lemma opened_token_ok:
  assumes inv: "lexer_inv s l" and has: "lexer_has l n" "0 < n"
    and sc: "lexer_inv s (lexer_advance_bytes n l) \<Longrightarrow>
      lexer_scanned s (lexer_advance_bytes n l) (lexer_position l) r"
    and kind: "\<And>t. snd r = Some t \<Longrightarrow> token_kind_of t \<noteq> TK_EOF"
  shows "lexer_token_ok s l r"
proof -
  have c: "cursor_at s l"
    using inv by (simp add: lexer_inv_def)
  have adv: "lexer_shifts s l (lexer_advance_bytes n l)"
      "lexer_offset (lexer_advance_bytes n l) = lexer_offset l + n"
    using lexer_shifts_has [OF c has(1)] by auto
  have m: "lexer_moves s l (lexer_advance_bytes n l)" "lexer_failed (lexer_advance_bytes n l) = lexer_failed l"
    using lexer_shifts_moves [OF adv(1) inv] lexer_shifts_failed [OF adv(1)] by auto
  then have scn: "lexer_scanned s (lexer_advance_bytes n l) (lexer_position l) r"
    by (intro sc) (simp add: lexer_moves_def)
  then have "lexer_offset l < lexer_offset (fst r)"
    using adv(2) has(2) by (simp add: lexer_scanned_def lexer_moves_def)
  with lexer_scanned_trans [OF m scn] kind show ?thesis
    by (simp add: lexer_token_ok_def)
qed

lemma scan_other_ok:
  assumes inv: "lexer_inv s l"
  shows "lexer_token_ok s l (lexer_scan_other l (lexer_position l) (lexer_offset l))"
proof -
  have c: "cursor_at s l"
    using inv by (simp add: lexer_inv_def)
  note fail = lexer_token_ok_fail [OF lexer_shifts_moves [OF lexer_shifts_refl [OF c] inv]]
    lexer_token_ok_fail [OF lexer_shifts_moves [OF lexer_shifts_advance [OF c] inv]]
  obtain l' r where e: "lexer_scan_operator l (lexer_position l) (lexer_offset l) = (l', r)"
    by fastforce
  show ?thesis
    using scan_operator_ok [OF inv] fail
    by (cases r) (simp_all add: lexer_scan_other_def e)
qed

lemma lexer_scan_token_ok:
  assumes inv: "lexer_inv s l" and len: "length (source_bytes s) < 2 ^ 61"
  shows "(if lexer_has l 1 then lexer_token_ok s l (lexer_scan_token l)
     else fst (lexer_scan_token l) = l
       \<and> (\<exists>t. snd (lexer_scan_token l) = Some t \<and> token_kind_of t = TK_EOF)
       \<and> lexer_scanned s l (lexer_position l) (lexer_scan_token l))"
proof -
  let ?st = "lexer_position l" and ?i = "lexer_offset l"
  have c: "cursor_at s l"
    using inv by (simp add: lexer_inv_def)
  show ?thesis
  proof (cases "lexer_has l 1")
    case False
    then show ?thesis
      using lexer_set_token_payload_scanned [OF lexer_moves_refl [OF inv] refl, of TK_EOF No_Payload ?i ?st]
      by (simp add: lexer_scan_token_def Let_def lexer_set_token_def payload_kind_def lexer_set_token_header_def)
  next
    case has: True
    have str: "lexer_token_ok s l (lexer_scan_string (lexer_advance_bytes n l) ?st ?i g)"
      if "lexer_has l n" "0 < n" for n g
      by (rule opened_token_ok [OF inv that])
        (auto intro!: scan_string_scanned [OF _ len] dest: string_kind)
    have chr: "lexer_token_ok s l (lexer_scan_character (lexer_advance_bytes 1 l) ?st ?i)"
      by (rule opened_token_ok [OF inv has]) (auto intro!: scan_character_scanned dest: character_kind)
    have num: "lexer_token_ok s l (lexer_scan_number l ?st ?i)" if "lexer_is_decimal_digit (lexer_peek l 0)"
      using lexer_scan_number_scanned [OF inv, of ?i ?st] has that number_kind
      by (auto simp: lexer_token_ok_def)
    have one: "lexer_token_ok s l (lexer_set_token (lexer_advance_bytes 1 l) TK_UNDERSCORE_OPERATOR ?st ?i)"
      unfolding lexer_set_token_def
      using lexer_shifts_has [OF c has] by (intro lexer_token_ok_set [OF inv]) (auto simp: payload_kind_def)
    have g: "lexer_has l (length left_guillemet)" if "lexer_matches l left_guillemet"
      using that by (simp add: lexer_matches_def)
    show ?thesis
      using has str [OF g] str [OF has] chr scan_index_token_ok [OF inv has] one num
        scan_word_ok [OF inv has] scan_other_ok [OF inv]
      by (simp add: lexer_scan_token_def Let_def left_guillemet_def del: One_nat_def)
  qed
qed

text \<open>
  The result of one call, as its callers rely on it: the token found is the next one behind
  trivia, or the failure is reported.
\<close>

definition lexer_next_token :: "source_file \<Rightarrow> lexer \<Rightarrow> lexer \<Rightarrow> token \<Rightarrow> nat \<Rightarrow> bool" where
  "lexer_next_token s l l' t k \<longleftrightarrow>
     lexer_offset l \<le> k \<and> k \<le> lexer_offset l' \<and> lexer_offset l' \<le> length (source_bytes s)
     \<and> trivia (take (k - lexer_offset l) (drop (lexer_offset l) (source_bytes s)))
     \<and> token_wf t
     \<and> token_lexeme t = take (lexer_offset l' - k) (drop k (source_bytes s))
     \<and> token_span t =
         \<lparr>span_start = \<lparr>pos_source = Some s, pos_offset = k,
            pos_line = fst (line_column (take k (source_bytes s))),
            pos_column = snd (line_column (take k (source_bytes s)))\<rparr>,
          span_end = lexer_position l'\<rparr>
     \<and> (token_kind_of t = TK_EOF \<longleftrightarrow> k = length (source_bytes s))
     \<and> (token_kind_of t \<noteq> TK_EOF \<longrightarrow> k < lexer_offset l')"

lemma lexer_next_step:
  assumes inv: "lexer_inv s l" and ok: "\<not> lexer_failed l" and len: "length (source_bytes s) < 2 ^ 61"
  shows "lexer_moves s l (fst (lexer_next l))
    \<and> (case snd (lexer_next l) of
         None \<Rightarrow> lexer_granting l \<longrightarrow> lexer_failed (fst (lexer_next l))
       | Some t \<Rightarrow> \<not> lexer_failed (fst (lexer_next l))
           \<and> lexer_next_token s l (fst (lexer_next l)) t (lexer_offset (lexer_skip_trivia l)))"
proof -
  let ?l = "lexer_skip_trivia l"
  have c: "cursor_at s l"
    using inv by (simp add: lexer_inv_def)
  note skip = skip_trivia_shifts [OF c]
  have sh: "lexer_shifts s l ?l"
    using skip by simp
  have m: "lexer_moves s l ?l" "lexer_failed ?l = lexer_failed l"
    using lexer_shifts_moves [OF sh inv] lexer_shifts_failed [OF sh] by auto
  have inv': "lexer_inv s ?l"
    using m(1) by (simp add: lexer_moves_def)
  have c': "cursor_at s ?l"
    using inv' by (simp add: lexer_inv_def)
  have nxt: "lexer_next l = lexer_scan_token ?l"
    using ok cursor_at_source [OF c] by (simp add: lexer_next_def)
  have scanned: "lexer_scanned s ?l (lexer_position ?l) (lexer_scan_token ?l)"
    using lexer_scan_token_ok [OF inv' len] by (auto simp: lexer_token_ok_def split: if_splits)
  have start: "lexer_position ?l = \<lparr>pos_source = Some s, pos_offset = lexer_offset ?l,
      pos_line = fst (line_column (take (lexer_offset ?l) (source_bytes s))),
      pos_column = snd (line_column (take (lexer_offset ?l) (source_bytes s)))\<rparr>"
    using c' by (auto simp: lexer_position_def cursor_at_def prod_eq_iff)
  have m2: "lexer_moves s ?l (fst (lexer_scan_token ?l))"
    using scanned by (simp add: lexer_scanned_def)
  show ?thesis
  proof (cases "snd (lexer_scan_token ?l)")
    case None
    then show ?thesis
      using scanned lexer_moves_trans [OF m(1) m2] m(1)
      by (auto simp: nxt lexer_scanned_def lexer_moves_def)
  next
    case (Some t)
    let ?e = "fst (lexer_scan_token ?l)"
    have t: "lexer_failed ?e = lexer_failed ?l" "token_wf t"
        "token_lexeme t = source_slice (Some s) (lexer_offset ?l) (lexer_offset ?e)"
        "token_span t = \<lparr>span_start = lexer_position ?l, span_end = lexer_position ?e\<rparr>"
      using scanned Some by (simp_all add: lexer_scanned_def)
    have o: "lexer_offset ?l \<le> lexer_offset ?e" "lexer_offset ?e \<le> length (source_bytes s)"
      using m2 by (auto simp: lexer_moves_def lexer_inv_def dest: cursor_at_le)
    have kind: "(token_kind_of t = TK_EOF \<longleftrightarrow> lexer_offset ?l = length (source_bytes s))
        \<and> (token_kind_of t \<noteq> TK_EOF \<longrightarrow> lexer_offset ?l < lexer_offset ?e)"
      using lexer_scan_token_ok [OF inv' len] Some lexer_has_at [OF c', of 1] cursor_at_le [OF c']
      by (auto simp: lexer_token_ok_def split: if_splits)
    have "lexer_next_token s l ?e t (lexer_offset ?l)"
      using t o kind skip lexer_shifts_le [OF sh] start
      by (simp add: lexer_next_token_def source_slice_def source_length_def)
    then show ?thesis
      using Some t(1) m(2) ok lexer_moves_trans [OF m(1) m2] by (simp add: nxt)
  qed
qed

section \<open>Tokenising a source\<close>

text \<open>
  The parser calls the lexer until the end token or a failure. The driver takes fuel and gives
  the final state, the tokens, and whether the end token was reached; \<open>None\<close> is running out of
  fuel.
\<close>

fun lexer_run :: "nat \<Rightarrow> lexer \<Rightarrow> (lexer \<times> token list \<times> bool) option" where
  "lexer_run 0 l = None"
| "lexer_run (Suc fuel) l =
     (case lexer_next l of
        (l', None) \<Rightarrow> Some (l', [], False)
      | (l', Some t) \<Rightarrow>
          if token_kind_of t = TK_EOF then Some (l', [t], True)
          else map_option (\<lambda>(l'', ts, finished). (l'', t # ts, finished)) (lexer_run fuel l'))"

lemma lexer_run_ends:
  "lexer_inv s l \<Longrightarrow> \<not> lexer_failed l \<Longrightarrow> length (source_bytes s) < 2 ^ 61 \<Longrightarrow>
     length (source_bytes s) - lexer_offset l < fuel \<Longrightarrow> lexer_run fuel l \<noteq> None"
proof (induction fuel arbitrary: l)
  case (Suc fuel)
  note step = lexer_next_step [OF Suc.prems(1-3)]
  obtain l' r where n: "lexer_next l = (l', r)"
    by fastforce
  show ?case
  proof (cases r)
    case (Some t)
    show ?thesis
    proof (cases "token_kind_of t = TK_EOF")
      case False
      then have "lexer_offset l < lexer_offset l'" "lexer_offset l' \<le> length (source_bytes s)"
          "lexer_inv s l'" "\<not> lexer_failed l'"
        using step by (auto simp: n Some lexer_next_token_def lexer_moves_def)
      then have "lexer_run fuel l' \<noteq> None"
        using Suc.prems by (intro Suc.IH) auto
      with False show ?thesis
        by (simp add: n Some)
    qed (simp add: n Some)
  qed (simp add: n)
qed simp

text \<open>The gaps before the tokens, and the source they and the lexemes spell.\<close>

definition tokens_cover :: "bytes \<Rightarrow> token list \<Rightarrow> bool" where
  "tokens_cover bs ts \<longleftrightarrow>
     (\<exists>gaps. length gaps = length ts \<and> (\<forall>g \<in> set gaps. trivia g)
        \<and> concat (map2 (\<lambda>g t. g @ token_lexeme t) gaps ts) = bs)"

lemma tokens_cover_Cons:
  assumes "trivia g" "tokens_cover bs ts"
  shows "tokens_cover (g @ token_lexeme t @ bs) (t # ts)"
proof -
  obtain gaps where "length gaps = length ts" "\<forall>g \<in> set gaps. trivia g"
      "concat (map2 (\<lambda>g t. g @ token_lexeme t) gaps ts) = bs"
    using assms(2) by (auto simp: tokens_cover_def)
  with assms(1) show ?thesis
    unfolding tokens_cover_def by (intro exI [of _ "g # gaps"]) simp
qed

lemma lexer_run_cover:
  "lexer_inv s l \<Longrightarrow> \<not> lexer_failed l \<Longrightarrow> length (source_bytes s) < 2 ^ 61 \<Longrightarrow>
     lexer_run fuel l = Some (l', ts, finished) \<Longrightarrow>
     (\<forall>t \<in> set ts. token_wf t)
     \<and> (finished \<longrightarrow> tokens_cover (drop (lexer_offset l) (source_bytes s)) ts \<and> \<not> lexer_failed l'
           \<and> lexer_offset l' = length (source_bytes s))
     \<and> (\<not> finished \<longrightarrow> lexer_granting l \<longrightarrow> lexer_failed l')"
proof (induction fuel arbitrary: l ts)
  case (Suc fuel)
  note step = lexer_next_step [OF Suc.prems(1-3)]
  let ?bs = "source_bytes s"
  obtain x r where n: "lexer_next l = (x, r)"
    by fastforce
  show ?case
  proof (cases r)
    case None
    with step Suc.prems(4) show ?thesis
      by (auto simp: n)
  next
    case (Some t)
    define k where "k = lexer_offset (lexer_skip_trivia l)"
    have x: "lexer_inv s x" "\<not> lexer_failed x" "lexer_granting l \<longrightarrow> lexer_granting x"
      and t: "lexer_next_token s l x t k"
      using step by (auto simp: n Some lexer_moves_def k_def)
    let ?g = "take (k - lexer_offset l) (drop (lexer_offset l) ?bs)"
    have wf: "token_wf t" and g: "trivia ?g"
      and lx: "token_lexeme t = take (lexer_offset x - k) (drop k ?bs)"
      and o: "lexer_offset l \<le> k" "k \<le> lexer_offset x" "lexer_offset x \<le> length ?bs"
      using t by (auto simp: lexer_next_token_def)
    have "drop k ?bs = token_lexeme t @ drop (lexer_offset x) ?bs"
      using append_take_drop_id [of "lexer_offset x - k" "drop k ?bs"] o(2) by (simp add: lx)
    moreover have "drop (lexer_offset l) ?bs = ?g @ drop k ?bs"
      using append_take_drop_id [of "k - lexer_offset l" "drop (lexer_offset l) ?bs"] o(1) by simp
    ultimately have split: "drop (lexer_offset l) ?bs = ?g @ token_lexeme t @ drop (lexer_offset x) ?bs"
      by simp
    show ?thesis
    proof (cases "token_kind_of t = TK_EOF")
      case True
      then have "k = length ?bs" "lexer_offset x = length ?bs"
        using t o by (auto simp: lexer_next_token_def)
      then have "drop (lexer_offset l) ?bs = ?g @ token_lexeme t @ []"
        using split by simp
      with tokens_cover_Cons [OF g, of "[]" "[]" t]
      have "tokens_cover (drop (lexer_offset l) ?bs) [t]"
        by (simp add: tokens_cover_def)
      with True Suc.prems(4) wf x \<open>lexer_offset x = _\<close> show ?thesis
        by (auto simp: n Some)
    next
      case False
      obtain us where us: "lexer_run fuel x = Some (l', us, finished)" "ts = t # us"
        using Suc.prems(4) False by (auto simp: n Some)
      note IH = Suc.IH [OF x(1,2) Suc.prems(3) us(1)]
      have "tokens_cover (drop (lexer_offset l) ?bs) ts" if finished
        using tokens_cover_Cons [OF g, of "drop (lexer_offset x) ?bs" us t] IH that split us(2) by simp
      with IH wf x(3) us(2) show ?thesis
        by auto
    qed
  qed
qed simp

section \<open>Properties\<close>

lemma lexer_init_inv: "lexer_inv s (lexer_init heap (Some s)) \<and> \<not> lexer_failed (lexer_init heap (Some s))"
  by (simp add: lexer_inv_def cursor_at_init) (simp add: lexer_init_def arena_init_inv)

text \<open>
  C2: One call of the lexer in a sound state that has not failed: the token found starts behind
  trivia, its lexeme is the source between its start and the new cursor, its span carries exact
  line and column numbers, its payload is the one its kind has, and it is the end token exactly at
  the end; every other token consumes at least one byte. Without a token the failure is recorded
  unless the allocator refused something.
\<close>

theorem lexer_next_correct:
  assumes "lexer_inv s l" "\<not> lexer_failed l" "length (source_bytes s) < 2 ^ 61"
  shows "lexer_inv s (fst (lexer_next l))
    \<and> (case snd (lexer_next l) of
         None \<Rightarrow> lexer_granting l \<longrightarrow> lexer_failed (fst (lexer_next l))
       | Some t \<Rightarrow> \<not> lexer_failed (fst (lexer_next l))
           \<and> lexer_next_token s l (fst (lexer_next l)) t (lexer_offset (lexer_skip_trivia l)))"
  using lexer_next_step [OF assms] by (simp add: lexer_moves_def)

theorem lexer_next_correct_witness:
  "lexer_inv \<lparr>source_name = [0x61], source_bytes = [0x20, 0x2B]\<rparr>
     (fst (lexer_next (lexer_init (\<lambda>_. True) (Some \<lparr>source_name = [0x61], source_bytes = [0x20, 0x2B]\<rparr>))))"
  using lexer_next_correct [of "\<lparr>source_name = [0x61], source_bytes = [0x20, 0x2B]\<rparr>"
      "lexer_init (\<lambda>_. True) (Some \<lparr>source_name = [0x61], source_bytes = [0x20, 0x2B]\<rparr>)"]
    lexer_init_inv by simp

text \<open>
  C3: Tokenising a source ends: as many calls as the source has bytes, plus one, reach the end
  token or a failure.
\<close>

theorem lexer_run_terminates:
  assumes "length (source_bytes s) < 2 ^ 61" "length (source_bytes s) < fuel"
  shows "\<exists>l ts finished. lexer_run fuel (lexer_init heap (Some s)) = Some (l, ts, finished)"
proof -
  have "length (source_bytes s) - lexer_offset (lexer_init heap (Some s)) < fuel"
    using assms(2) by (simp add: lexer_init_def)
  then have "lexer_run fuel (lexer_init heap (Some s)) \<noteq> None"
    using lexer_run_ends lexer_init_inv assms(1) by blast
  then show ?thesis
    by auto
qed

theorem lexer_run_terminates_witness:
  "\<exists>l ts finished. lexer_run 4 (lexer_init (\<lambda>_. True)
      (Some \<lparr>source_name = [0x61], source_bytes = [0x78, 0x3D, 0x31]\<rparr>)) = Some (l, ts, finished)"
  by (rule lexer_run_terminates) simp_all

text \<open>
  C1: When tokenising reaches the end token, nothing of the source is lost: the lexemes, each with
  the white space and comments before it, put together are the source, and every token's payload
  is the one its kind has.
\<close>

theorem lexer_run_covers_source:
  assumes "length (source_bytes s) < 2 ^ 61"
    "lexer_run fuel (lexer_init heap (Some s)) = Some (l, ts, True)"
  shows "tokens_cover (source_bytes s) ts \<and> (\<forall>t \<in> set ts. token_wf t) \<and> \<not> lexer_failed l"
  using lexer_run_cover [OF conjunct1 [OF lexer_init_inv] conjunct2 [OF lexer_init_inv] assms]
  by (simp add: lexer_init_def [of heap "Some s"])

theorem lexer_run_covers_source_witness:
  "\<exists>ts. tokens_cover [0x20, 0x0A] ts"
proof -
  let ?s = "\<lparr>source_name = [0x61], source_bytes = [0x20, 0x0A]\<rparr>"
  let ?l = "lexer_init (\<lambda>_. True) (Some ?s)"
  have "case lexer_run 3 ?l of None \<Rightarrow> False | Some (l, ts, finished) \<Rightarrow> finished"
    by code_simp
  then obtain l ts where "lexer_run 3 ?l = Some (l, ts, True)"
    by (auto split: option.splits)
  from lexer_run_covers_source [OF _ this] show ?thesis
    by auto
qed

text \<open>
  C6: When the allocator refuses nothing, tokenising that stops without the end token has recorded
  a diagnostic for the caller to show.
\<close>

theorem lexer_run_reports_failure:
  assumes "length (source_bytes s) < 2 ^ 61"
    "lexer_run fuel (lexer_init (\<lambda>_. True) (Some s)) = Some (l, ts, False)"
  shows "lexer_diagnostic_view (Some l) \<noteq> None"
  using lexer_run_cover [OF conjunct1 [OF lexer_init_inv] conjunct2 [OF lexer_init_inv] assms]
  by (simp add: lexer_diagnostic_view_def lexer_granting_def lexer_init_def [of _ "Some s"])

theorem lexer_run_reports_failure_witness:
  "\<exists>l. lexer_diagnostic_view (Some l) \<noteq> None \<and> lexer_offset l = 1"
proof -
  let ?s = "\<lparr>source_name = [0x61], source_bytes = [0x22]\<rparr>"
  let ?l = "lexer_init (\<lambda>_. True) (Some ?s)"
  have "case lexer_run 2 ?l of None \<Rightarrow> False | Some (l, ts, finished) \<Rightarrow> \<not> finished \<and> lexer_offset l = 1"
    by code_simp
  then obtain l ts where "lexer_run 2 ?l = Some (l, ts, False)" "lexer_offset l = 1"
    by (auto split: option.splits)
  with lexer_run_reports_failure [OF _ this(1)] show ?thesis
    by auto
qed

text \<open>
  The allocator hypothesis is needed: an escape whose text cannot grow makes the call return no
  token and record no failure. Here the source is a quoted string with the escape \<open>\n\<close>.
\<close>

theorem lexer_escape_silent_failure:
  "let (l, r) = lexer_next (lexer_init (\<lambda>_. False)
         (Some \<lparr>source_name = [0x61], source_bytes = [0x22, 0x5C, 0x6E, 0x22]\<rparr>))
   in r = None \<and> \<not> lexer_failed l \<and> Option.is_none (lexer_diagnostic_view (Some l))"
  by code_simp

lemma operators_longest_first:
  "sorted_wrt (\<lambda>a b. length (fst b) \<le> length (fst a)) operator_entries"
  by (simp add: operator_entries_def)

lemma find_longest:
  "sorted_wrt (\<lambda>a b. length (fst b) \<le> length (fst a)) xs \<Longrightarrow> List.find P xs = Some x \<Longrightarrow>
     \<forall>y \<in> set xs. P y \<longrightarrow> length (fst y) \<le> length (fst x)"
  by (induction xs) (auto split: if_splits)

text \<open>
  Operators are scanned by maximal munch: the table lists longer spellings first, so the
  operator token found is at least as long as any operator spelling at the cursor, and one is found
  whenever any spelling is there.
\<close>

theorem operator_maximal_munch:
  assumes "lexer_inv s l"
  shows "(case lexer_scan_operator l (lexer_position l) (lexer_offset l) of
      (l', None) \<Rightarrow> \<not> (\<exists>(sp, k) \<in> set operator_entries. lexer_matches l sp)
    | (l', Some t) \<Rightarrow> (token_lexeme t, token_kind_of t) \<in> set operator_entries
        \<and> (\<forall>(sp, k) \<in> set operator_entries. lexer_matches l sp \<longrightarrow> length sp \<le> length (token_lexeme t)))"
proof (cases "List.find (\<lambda>(sp, k). lexer_matches l sp) operator_entries")
  case None
  then have "\<forall>(sp, k) \<in> set operator_entries. \<not> lexer_matches l sp"
    unfolding find_None_iff_all by auto
  with None show ?thesis
    by (auto simp: lexer_scan_operator_def)
next
  case (Some e)
  obtain sp k where e: "e = (sp, k)" by (cases e)
  have m: "(sp, k) \<in> set operator_entries" "lexer_matches l sp"
    using find_SomeD [OF Some] by (auto simp: e)
  have c: "cursor_at s l"
    using assms by (simp add: lexer_inv_def)
  have has: "lexer_has l (length sp)"
    using m(2) by (simp add: lexer_matches_def)
  let ?l = "lexer_advance_bytes (length sp) l"
  have l: "?l = at_offset s l (lexer_offset l + length sp)"
    using has c by (intro lexer_advance_at_le) (simp_all add: lexer_has_at)
  have "lexer_scan_operator l (lexer_position l) (lexer_offset l)
      = (?l, Some (lexer_set_token_header ?l k (lexer_position l) (lexer_offset l) No_Payload))"
    using operator_payload [OF m(1)]
    by (simp add: lexer_scan_operator_def Some e lexer_set_token_def lexer_set_token_payload_def
        lexer_require_payload_kind_def payload_kind_def)
  moreover have "token_lexeme (lexer_set_token_header ?l k (lexer_position l) (lexer_offset l) No_Payload) = sp"
    using has c m(2)
    by (simp add: lexer_set_token_header_def l source_slice_def source_length_def cursor_at_source
        lexer_has_at lexer_matches_at)
  moreover have "\<forall>(sp', k') \<in> set operator_entries. lexer_matches l sp' \<longrightarrow> length sp' \<le> length sp"
    using find_longest [OF operators_longest_first Some] by (auto simp: e)
  ultimately show ?thesis
    using m(1) by (simp add: lexer_set_token_header_def)
qed

theorem operator_maximal_munch_witness:
  "case lexer_scan_operator (lexer_init (\<lambda>_. True) (Some \<lparr>source_name = [0x61], source_bytes = [0x3C, 0x3C]\<rparr>))
       (lexer_position (lexer_init (\<lambda>_. True) (Some \<lparr>source_name = [0x61], source_bytes = [0x3C, 0x3C]\<rparr>)))
       (lexer_offset (lexer_init (\<lambda>_. True) (Some \<lparr>source_name = [0x61], source_bytes = [0x3C, 0x3C]\<rparr>))) of
     (l', None) \<Rightarrow> \<not> (\<exists>(sp, k) \<in> set operator_entries. lexer_matches
        (lexer_init (\<lambda>_. True) (Some \<lparr>source_name = [0x61], source_bytes = [0x3C, 0x3C]\<rparr>)) sp)
   | (l', Some t) \<Rightarrow> (token_lexeme t, token_kind_of t) \<in> set operator_entries
       \<and> (\<forall>(sp, k) \<in> set operator_entries. lexer_matches
            (lexer_init (\<lambda>_. True) (Some \<lparr>source_name = [0x61], source_bytes = [0x3C, 0x3C]\<rparr>)) sp \<longrightarrow>
          length sp \<le> length (token_lexeme t))"
  by (rule operator_maximal_munch [OF conjunct1 [OF lexer_init_inv]])

end
