(* ===== verification/Lexer_Roundtrip.thy ===== *)
theory Lexer_Roundtrip
  imports Lexer
begin

text \<open>
  Round trips through the string scanners of \<open>bootstrap/src/frontend/lexer/lexer_string.c\<close>: a text
  written between quotes with its special characters escaped, or between guillemets, is read back
  as the payload of one string token.
\<close>

section \<open>Encoded scalars at the cursor\<close>

lemma encode_ascii: "utf8_is_scalar c \<Longrightarrow> c \<le> 0x7F \<Longrightarrow> utf8_encode c = [ucast c]"
  by (simp add: utf8_encode_def)

text \<open>The first byte of a longer encoding is not an ASCII byte.\<close>

lemma encode_head:
  assumes "utf8_is_scalar c" "\<not> c \<le> 0x7F"
  shows "\<exists>b bs. utf8_encode c = b # bs \<and> \<not> b \<le> 0x7F"
proof -
  obtain b bs where e: "utf8_encode c = b # bs"
    using utf8_encode_nonempty [OF assms(1)] by (cases "utf8_encode c") auto
  have "\<not> b \<le> 0x7F"
  proof
    assume b: "b \<le> 0x7F"
    then have "utf8_decode (utf8_encode c @ []) = \<lparr>utf8_codepoint = ucast b, utf8_width = 1, utf8_valid = True\<rparr>"
      by (simp add: e utf8_decode_def)
    moreover have "utf8_decode (utf8_encode c @ []) = \<lparr>utf8_codepoint = c, utf8_width = length (utf8_encode c), utf8_valid = True\<rparr>"
      by (rule decode_encode_append [OF assms(1)])
    ultimately have "c = ucast b"
      by simp
    then have "unat c = unat b"
      by (simp add: unat_ucast_u8_u32)
    with b assms(2) show False
      by (simp add: word_le_nat_alt)
  qed
  with e show ?thesis by blast
qed

text \<open>Encodings determine their scalar, whatever follows.\<close>

lemma encode_prefix_inject:
  assumes "utf8_is_scalar c" "utf8_is_scalar d" "utf8_encode c @ xs = utf8_encode d @ ys"
  shows "c = d"
  using decode_encode_append [OF assms(1), of xs] decode_encode_append [OF assms(2), of ys] assms(3)
  by simp

lemma guillemet_encode: "left_guillemet = utf8_encode 0xAB" "right_guillemet = utf8_encode 0xBB"
  by (simp_all add: left_guillemet_def right_guillemet_def utf8_encode_def utf8_is_scalar_def)

lemma guillemet_scalar: "utf8_is_scalar 0xAB" "utf8_is_scalar 0xBB"
  by (simp_all add: utf8_is_scalar_def)

lemma matches_encoded:
  assumes c: "cursor_at s l" and rest: "drop (lexer_offset l) (source_bytes s) = utf8_encode x @ rest"
    and x: "utf8_is_scalar x" "utf8_is_scalar g"
  shows "lexer_matches l (utf8_encode g) \<longleftrightarrow> x = g"
proof
  assume "lexer_matches l (utf8_encode g)"
  then have "take (length (utf8_encode g)) (utf8_encode x @ rest) = utf8_encode g"
    using rest by (simp add: lexer_matches_at [OF c])
  then have "utf8_encode x @ rest = utf8_encode g @ drop (length (utf8_encode g)) (utf8_encode x @ rest)"
    by (metis append_take_drop_id)
  then show "x = g"
    by (rule encode_prefix_inject [OF x])
qed (simp add: lexer_matches_at [OF c] rest)

lemma peek_head:
  assumes "cursor_at s l" "drop (lexer_offset l) (source_bytes s) = b # rest"
  shows "lexer_has l 1 \<and> lexer_peek l 0 = b"
proof -
  have "lexer_offset l < length (source_bytes s)"
    using assms(2) by (metis drop_all list.distinct(1) not_le)
  moreover from this have "source_bytes s ! lexer_offset l = b"
    using assms(2) by (simp add: Cons_nth_drop_Suc [symmetric])
  ultimately show ?thesis
    using assms(1) by (simp add: lexer_has_at lexer_peek_at)
qed

text \<open>
  What the loops do at an ordinary scalar when the allocator grants: the text grows by its
  encoding and the cursor moves behind it.
\<close>

definition text_advanced :: "source_file \<Rightarrow> lexer \<Rightarrow> text_builder \<Rightarrow> bytes \<Rightarrow> nat \<Rightarrow> lexer \<Rightarrow> text_builder \<Rightarrow> bool" where
  "text_advanced s l b xs n l' b' \<longleftrightarrow>
     lexer_text_inv s l' b' \<and> lexer_granting l' \<and> lexer_failed l' = lexer_failed l
     \<and> builder_text b' = builder_text b @ xs \<and> lexer_offset l' = lexer_offset l + n"

lemma raw_encoded:
  assumes inv: "lexer_text_inv s l b" and granting: "lexer_granting l" and x: "utf8_is_scalar x"
    and rest: "drop (lexer_offset l) (source_bytes s) = utf8_encode x @ rest"
  obtains l' b' where "lexer_append_raw_character l b st = (l', Some b')"
    "text_advanced s l b (utf8_encode x) (length (utf8_encode x)) l' b'"
proof -
  have c: "cursor_at s l"
    using inv by (simp add: lexer_text_inv_def lexer_inv_def)
  obtain h t where ht: "utf8_encode x = h # t"
    using utf8_encode_nonempty [OF x] by (cases "utf8_encode x") auto
  have head: "lexer_has l 1" "lexer_peek l 0 = h"
    using peek_head [OF c, of h "t @ rest"] rest ht by auto
  have d: "utf8_decode (drop (lexer_offset l) (source_bytes s))
      = \<lparr>utf8_codepoint = x, utf8_width = length (utf8_encode x), utf8_valid = True\<rparr>"
    unfolding rest by (rule decode_encode_append [OF x])
  obtain l1 r1 where app: "lexer_append l b (utf8_encode x) = (l1, r1)"
    by fastforce
  have app_raw: "lexer_append_raw_character l b st =
      (case lexer_append l b (utf8_encode x) of
         (l', None) \<Rightarrow> (lexer_fail l' E1100_Internal_Context_Error st Diag_Word_Syntax_Internal_Oom, None)
       | (l', Some b') \<Rightarrow> (lexer_advance_bytes (length (utf8_encode x)) l', Some b'))"
  proof (cases "x \<le> 0x7F")
    case True
    then have "utf8_encode x = [h]" "h \<le> 0x7F"
      using encode_ascii [OF x True] ht by (auto simp: word_le_nat_alt unat_ucast_u32_u8)
    moreover have "\<not> 0x80 \<le> h"
      using \<open>h \<le> 0x7F\<close> by (simp add: word_le_nat_alt)
    ultimately show ?thesis
      unfolding \<open>utf8_encode x = [h]\<close>
      by (simp add: lexer_append_raw_character_def Let_def head(2) lexer_append_byte_eq)
  next
    case False
    then have "0x80 \<le> h"
      using encode_head [OF x False] ht by (auto simp: word_le_nat_alt)
    then show ?thesis
      using d rest
      by (simp add: lexer_append_raw_character_def Let_def head(2) cursor_at_bytes [OF c])
  qed
  obtain l' r where raw: "lexer_append_raw_character l b st = (l', r)"
    by fastforce
  note step = lexer_raw_character_step [OF inv head(1) raw]
  have b: "builder_inv b" "length (builder_text b) < 2 ^ 62" "length (utf8_encode x) < 2 ^ 62"
    using inv utf8_encode_length [of x] cursor_at_le [OF c] by (auto simp: lexer_text_inv_def)
  have r1: "r1 \<noteq> None"
    using lexer_append_step [OF b app] granting by (cases r1) auto
  then obtain b' where b': "r1 = Some b'" "r = Some b'" "builder_text b' = builder_text b @ utf8_encode x"
    using raw app app_raw lexer_append_step [OF b app] by auto
  have res: "lexer_text_result s l (l', Some b')"
    using step b'(2) by simp
  have "length (builder_text b') = length (builder_text b) + length (utf8_encode x)"
    by (simp add: b'(3))
  moreover obtain xs where "builder_text b' = builder_text b @ xs" "lexer_offset l' = lexer_offset l + length xs"
    using step b'(2) by auto
  ultimately have "lexer_offset l' = lexer_offset l + length (utf8_encode x)"
    by simp
  then have "text_advanced s l b (utf8_encode x) (length (utf8_encode x)) l' b'"
    using res b'(3) granting by (simp add: text_advanced_def lexer_text_result_def lexer_moves_def)
  with raw b'(2) show ?thesis
    by (intro that) simp_all
qed

lemma text_advanced_trans:
  "text_advanced s l b xs n l' b' \<Longrightarrow> text_advanced s l' b' ys m l'' b'' \<Longrightarrow>
     text_advanced s l b (xs @ ys) (n + m) l'' b''"
  by (simp add: text_advanced_def)

text \<open>A string that ends: the token of the closing delimiter.\<close>

definition string_read :: "source_file \<Rightarrow> lexer \<Rightarrow> text_builder \<Rightarrow> bytes \<Rightarrow> nat \<Rightarrow> lexer \<times> token option \<Rightarrow> bool" where
  "string_read s l b xs n r \<longleftrightarrow>
     (\<exists>t. snd r = Some t \<and> token_kind_of t = TK_LIT_STR
        \<and> token_payload t = Text_Payload (builder_text b @ xs))
     \<and> lexer_offset (fst r) = lexer_offset l + n"

lemma string_read_advanced:
  "text_advanced s l b xs n l' b' \<Longrightarrow> string_read s l' b' ys m r \<Longrightarrow> string_read s l b (xs @ ys) (n + m) r"
  by (auto simp: text_advanced_def string_read_def)

lemma finish_read:
  assumes inv: "lexer_text_inv s l b" and granting: "lexer_granting l" and has: "lexer_has l n"
    and start: "i = pos_offset st"
  shows "string_read s l b [] n (lexer_finish_string (lexer_advance_bytes n l) st i b)"
proof -
  have c: "cursor_at s l"
    using inv by (simp add: lexer_text_inv_def lexer_inv_def)
  have o: "lexer_offset l + n \<le> length (source_bytes s)"
    using has c by (simp add: lexer_has_at)
  let ?l = "at_offset s l (lexer_offset l + n)"
  have adv: "lexer_advance_bytes n l = ?l"
    using o by (rule lexer_advance_at_le [OF c])
  have inv': "lexer_text_inv s ?l b"
    using inv _ o by (rule lexer_text_inv_at) simp
  have "lexer_granting ?l"
    using granting by (simp add: lexer_granting_def)
  with finish_string_scanned [OF inv' start] show ?thesis
    unfolding adv by (auto simp: string_read_def lexer_set_token_header_def)
qed

section \<open>Quoted strings\<close>

definition quote_scalar :: "u32 \<Rightarrow> bytes" where
  "quote_scalar c =
     (if c = 0x22 then [0x5C, 0x22] else if c = 0x5C then [0x5C, 0x5C]
      else if c = 0x0A then [0x5C, 0x6E] else utf8_encode c)"

definition quote_text :: "u32 list \<Rightarrow> bytes" where
  "quote_text cs = concat (map quote_scalar cs)"

definition encode_text :: "u32 list \<Rightarrow> bytes" where
  "encode_text cs = concat (map utf8_encode cs)"

lemma escape_advanced:
  assumes inv: "lexer_text_inv s l b" and granting: "lexer_granting l"
    and rest: "drop (lexer_offset l) (source_bytes s) = 0x5C # e # rest"
    and e: "(e, x) \<in> {(0x22, 0x22), (0x5C, 0x5C), (0x6E, 0x0A)}"
  obtains l' b' where "lexer_scan_escape (lexer_advance_bytes 1 l) b st = (l', Some b')"
    "text_advanced s l b [x] 2 l' b'"
proof -
  have c: "cursor_at s l" and l: "lexer_inv s l" "builder_inv b" "length (source_bytes s) < 2 ^ 61"
      "length (builder_text b) \<le> lexer_offset l"
    using inv by (auto simp: lexer_text_inv_def lexer_inv_def)
  let ?bs = "source_bytes s" and ?o = "lexer_offset l"
  have o: "?o + 2 \<le> length ?bs"
    using arg_cong [OF rest, of length] by simp
  have byte: "drop (?o + 1) ?bs = e # rest"
    using rest by (metis add.commute drop_drop drop_Suc_Cons drop0 One_nat_def)
  let ?l1 = "at_offset s l (?o + 1)" and ?l2 = "at_offset s l (?o + 2)"
  have l1: "lexer_advance_bytes 1 l = ?l1"
    using o by (intro lexer_advance_at_le [OF c]) simp
  have c1: "cursor_at s ?l1"
    using c o by simp
  have peek: "lexer_has ?l1 1" "lexer_peek ?l1 0 = e"
    using peek_head [OF c1, of e rest] byte by simp_all
  have l2: "lexer_advance_bytes 1 ?l1 = ?l2"
    using lexer_advance_at_le [OF c1, of 1] o by simp
  have inv2: "lexer_inv s ?l2"
    using l(1) o by (simp add: lexer_inv_def)
  obtain l' r where app: "lexer_append ?l2 b [x] = (l', r)"
    by fastforce
  have esc: "lexer_scan_escape (lexer_advance_bytes 1 l) b st = (l', r)"
    using e peek app
    by (auto simp: l1 lexer_scan_escape_def Let_def l2 lexer_append_byte_eq simp del: One_nat_def)
  have "length (builder_text b) + length [x] \<le> lexer_offset ?l2"
    using l(4) by simp
  note res = lexer_append_result [OF inv2 l(2,3) this app]
  have "lexer_granting ?l2"
    using granting by (simp add: lexer_granting_def)
  with res obtain b' where b': "r = Some b'"
    by auto
  have "text_advanced s l b [x] 2 l' b'"
    using res b' \<open>lexer_granting ?l2\<close>
    by (simp add: text_advanced_def lexer_text_result_def lexer_moves_def)
  with esc b' show ?thesis
    by (intro that) simp_all
qed

lemma quoted_head:
  assumes "utf8_is_scalar c" "c \<noteq> 0x22" "c \<noteq> 0x5C" "c \<noteq> 0x0A"
  obtains h t where "utf8_encode c = h # t" "h \<noteq> 0x22" "h \<noteq> 0x5C" "h \<noteq> 0x0A"
proof (cases "c \<le> 0x7F")
  case True
  then have e: "utf8_encode c = [ucast c]" and u: "unat (ucast c :: u8) = unat c"
    using encode_ascii [OF assms(1)] by (auto simp: word_le_nat_alt unat_ucast_u32_u8)
  have "(ucast c :: u8) \<noteq> k" if "c \<noteq> ucast k" for k :: u8
  proof
    assume "(ucast c :: u8) = k"
    then have "unat c = unat (ucast k :: u32)"
      using u by (simp add: unat_ucast_u8_u32)
    with that show False
      by (metis u32_eqI)
  qed
  from this [of "0x22"] this [of "0x5C"] this [of "0x0A"] e assms(2-4) that show ?thesis
    by simp
next
  case False
  with encode_head [OF assms(1)] that show ?thesis
    by force
qed

lemma quoted_read:
  assumes "list_all utf8_is_scalar cs" and start: "i = pos_offset st"
  shows "lexer_text_inv s l b \<Longrightarrow> lexer_granting l \<Longrightarrow>
    drop (lexer_offset l) (source_bytes s) = quote_text cs @ 0x22 # rest \<Longrightarrow>
    string_read s l b (encode_text cs) (length (quote_text cs) + 1)
      (lexer_scan_quoted_string l st i b)"
  using assms(1)
proof (induction cs arbitrary: l b)
  case Nil
  have c: "cursor_at s l"
    using Nil.prems(1) by (simp add: lexer_text_inv_def lexer_inv_def)
  have "lexer_has l 1" "lexer_peek l 0 = 0x22"
    using peek_head [OF c] Nil.prems(3) by (simp_all add: quote_text_def)
  then show ?case
    using finish_read [OF Nil.prems(1,2) _ start, of 1]
    by (simp add: lexer_scan_quoted_string.simps [of l] quote_text_def encode_text_def del: One_nat_def)
next
  case (Cons x cs)
  note inv = Cons.prems(1) and granting = Cons.prems(2)
  have c: "cursor_at s l"
    using inv by (simp add: lexer_text_inv_def lexer_inv_def)
  have x: "utf8_is_scalar x" "list_all utf8_is_scalar cs"
    using Cons.prems(4) by simp_all
  have rest: "drop (lexer_offset l) (source_bytes s) = quote_scalar x @ quote_text cs @ 0x22 # rest"
    using Cons.prems(3) by (simp add: quote_text_def)
  have proceed: "string_read s l b (encode_text (x # cs)) (length (quote_text (x # cs)) + 1)
      (lexer_scan_quoted_string l st i b)"
    if adv: "text_advanced s l b (utf8_encode x) (length (quote_scalar x)) l' b'"
      and eq: "lexer_scan_quoted_string l st i b = lexer_scan_quoted_string l' st i b'" for l' b'
  proof -
    have "drop (lexer_offset l') (source_bytes s) = quote_text cs @ 0x22 # rest"
      using adv arg_cong [OF rest, of "drop (length (quote_scalar x))"]
      by (simp add: text_advanced_def add.commute)
    then have "string_read s l' b' (encode_text cs) (length (quote_text cs) + 1)
        (lexer_scan_quoted_string l' st i b')"
      using adv x(2) by (intro Cons.IH) (simp_all add: text_advanced_def)
    from string_read_advanced [OF adv this] show ?thesis
      by (simp add: eq encode_text_def quote_text_def add.assoc)
  qed
  show ?case
  proof (cases "x = 0x22 \<or> x = 0x5C \<or> x = 0x0A")
    case True
    define e :: u8 where "e = (if x = 0x22 then 0x22 else if x = 0x5C then 0x5C else 0x6E)"
    have q: "quote_scalar x = [0x5C, e]" "(e, ucast x) \<in> {(0x22, 0x22), (0x5C, 0x5C), (0x6E, 0x0A)}"
      "utf8_encode x = [ucast x]"
      using True by (auto simp: quote_scalar_def e_def utf8_encode_def utf8_is_scalar_def)
    have rest': "drop (lexer_offset l) (source_bytes s) = 0x5C # e # quote_text cs @ 0x22 # rest"
      using rest q(1) by simp
    obtain l' b' where esc: "lexer_scan_escape (lexer_advance_bytes 1 l) b st = (l', Some b')"
        "text_advanced s l b [ucast x] 2 l' b'"
      using escape_advanced [OF inv granting rest' q(2)] by blast
    have "lexer_has l 1" "lexer_peek l 0 = 0x5C"
      using peek_head [OF c rest'] by simp_all
    then have "lexer_scan_quoted_string l st i b = lexer_scan_quoted_string l' st i b'"
      using esc(1) by (simp add: lexer_scan_quoted_string.simps [of l] del: One_nat_def)
    then show ?thesis
      using esc(2) by (intro proceed) (simp_all add: q numeral_2_eq_2)
  next
    case False
    then have q: "quote_scalar x = utf8_encode x"
      by (simp add: quote_scalar_def)
    obtain h t where ht: "utf8_encode x = h # t" "h \<noteq> 0x22" "h \<noteq> 0x5C" "h \<noteq> 0x0A"
      using quoted_head [OF x(1)] False by blast
    obtain l' b' where raw: "lexer_append_raw_character l b st = (l', Some b')"
        "text_advanced s l b (utf8_encode x) (length (utf8_encode x)) l' b'"
      using raw_encoded [OF inv granting x(1)] rest q by metis
    have "lexer_has l 1" "lexer_peek l 0 = h"
      using peek_head [OF c, of h] rest q ht(1) by simp_all
    then have "lexer_scan_quoted_string l st i b = lexer_scan_quoted_string l' st i b'"
      using raw(1) ht by (simp add: lexer_scan_quoted_string.simps [of l])
    then show ?thesis
      using raw(2) by (intro proceed) (simp_all add: q)
  qed
qed

section \<open>Guillemet strings\<close>

text \<open>
  Between guillemets everything is taken as it stands; nested pairs count, up to a depth of 256.
  The depth starts at 1 and the closing guillemet follows where it is 1 again.
\<close>

fun balanced :: "nat \<Rightarrow> u32 list \<Rightarrow> bool" where
  "balanced d [] \<longleftrightarrow> d = 1"
| "balanced d (c # cs) \<longleftrightarrow>
     (if c = 0xAB then d < 256 \<and> balanced (d + 1) cs
      else if c = 0xBB then d > 1 \<and> balanced (d - 1) cs
      else balanced d cs)"

lemma guillemet_advanced:
  assumes inv: "lexer_text_inv s l b" and granting: "lexer_granting l" and m: "lexer_matches l g" "g \<noteq> []"
    and len: "length g \<le> 4"
  obtains l' b' where "lexer_append_guillemet l b st g = (l', Some b')"
    "text_advanced s l b g (length g) l' b'"
proof -
  obtain l' r where app: "lexer_append_guillemet l b st g = (l', r)"
    by fastforce
  note res = lexer_guillemet_result [OF inv m app]
  have c: "cursor_at s l" and b: "builder_inv b" "length (builder_text b) < 2 ^ 62" "length g < 2 ^ 62"
    using inv len by (auto simp: lexer_text_inv_def lexer_inv_def dest: cursor_at_le)
  obtain l1 r1 where a: "lexer_append l b g = (l1, r1)"
    by fastforce
  have "r1 \<noteq> None"
    using lexer_append_step [OF b a] granting by (cases r1) auto
  moreover have "take (length g) (drop (lexer_offset l) (lexer_bytes l)) = g"
    using m(1) by (simp add: lexer_matches_def)
  ultimately obtain b' where b': "r = Some b'"
    using app a by (auto simp: lexer_append_guillemet_def)
  then have "text_advanced s l b g (length g) l' b'"
    using res granting by (simp add: text_advanced_def lexer_text_result_def lexer_moves_def)
  with app b' show ?thesis
    by (intro that) simp_all
qed

lemma guillemet_length: "length left_guillemet = 2" "length right_guillemet = 2"
    "left_guillemet \<noteq> []" "right_guillemet \<noteq> []"
  by (simp_all add: left_guillemet_def right_guillemet_def)

lemma guillemet_read:
  assumes "list_all utf8_is_scalar cs" and start: "i = pos_offset st"
  shows "lexer_text_inv s l b \<Longrightarrow> lexer_granting l \<Longrightarrow> balanced depth cs \<Longrightarrow>
    drop (lexer_offset l) (source_bytes s) = encode_text cs @ right_guillemet @ rest \<Longrightarrow>
    string_read s l b (encode_text cs) (length (encode_text cs) + 2)
      (lexer_scan_guillemet_string l st i b depth)"
  using assms(1)
proof (induction cs arbitrary: l b depth)
  case Nil
  have c: "cursor_at s l"
    using Nil.prems(1) by (simp add: lexer_text_inv_def lexer_inv_def)
  have at: "drop (lexer_offset l) (source_bytes s) = utf8_encode 0xBB @ rest"
    using Nil.prems(4) by (simp add: encode_text_def guillemet_encode)
  have "lexer_matches l right_guillemet" "\<not> lexer_matches l left_guillemet"
    unfolding guillemet_encode using matches_encoded [OF c at] guillemet_scalar by simp_all
  moreover have "lexer_has l 1"
    using peek_head [OF c, of "0xC2"] at by (simp add: guillemet_encode [symmetric] right_guillemet_def)
  moreover have "lexer_has l (length right_guillemet)"
    using \<open>lexer_matches l right_guillemet\<close> by (simp add: lexer_matches_def)
  ultimately show ?case
    using finish_read [OF Nil.prems(1,2) _ start, of "length right_guillemet"] Nil.prems(3)
    by (simp add: lexer_scan_guillemet_string.simps [of l] encode_text_def guillemet_length numeral_2_eq_2)
next
  case (Cons x cs)
  note inv = Cons.prems(1) and granting = Cons.prems(2)
  have c: "cursor_at s l"
    using inv by (simp add: lexer_text_inv_def lexer_inv_def)
  have x: "utf8_is_scalar x" "list_all utf8_is_scalar cs"
    using Cons.prems(5) by simp_all
  have rest: "drop (lexer_offset l) (source_bytes s) = utf8_encode x @ encode_text cs @ right_guillemet @ rest"
    using Cons.prems(4) by (simp add: encode_text_def)
  have left: "lexer_matches l left_guillemet \<longleftrightarrow> x = 0xAB"
    and right: "lexer_matches l right_guillemet \<longleftrightarrow> x = 0xBB"
    unfolding guillemet_encode by (rule matches_encoded [OF c rest x(1) guillemet_scalar(1)],
        rule matches_encoded [OF c rest x(1) guillemet_scalar(2)])
  have has: "lexer_has l 1"
    using utf8_encode_nonempty [OF x(1)] rest peek_head [OF c]
    by (cases "utf8_encode x") auto
  have proceed: "string_read s l b (encode_text (x # cs)) (length (encode_text (x # cs)) + 2)
      (lexer_scan_guillemet_string l st i b depth)"
    if adv: "text_advanced s l b (utf8_encode x) (length (utf8_encode x)) l' b'"
      and eq: "lexer_scan_guillemet_string l st i b depth = lexer_scan_guillemet_string l' st i b' d"
      and bal: "balanced d cs" for l' b' d
  proof -
    have "drop (lexer_offset l') (source_bytes s) = encode_text cs @ right_guillemet @ rest"
      using adv arg_cong [OF rest, of "drop (length (utf8_encode x))"]
      by (simp add: text_advanced_def add.commute)
    then have "string_read s l' b' (encode_text cs) (length (encode_text cs) + 2)
        (lexer_scan_guillemet_string l' st i b' d)"
      using adv x(2) bal by (intro Cons.IH) (simp_all add: text_advanced_def)
    from string_read_advanced [OF adv this] show ?thesis
      by (simp add: eq encode_text_def add.assoc)
  qed
  consider (left) "x = 0xAB" | (right) "x = 0xBB" | (plain) "x \<noteq> 0xAB" "x \<noteq> 0xBB"
    by blast
  then show ?case
  proof cases
    case left
    with Cons.prems(3) have d: "depth < 256" "balanced (depth + 1) cs"
      by auto
    have mm: "lexer_matches l left_guillemet" "length left_guillemet \<le> 4"
      using \<open>lexer_matches l left_guillemet \<longleftrightarrow> _\<close> left by (simp_all add: guillemet_length)
    obtain l' b' where app: "lexer_append_guillemet l b st left_guillemet = (l', Some b')"
        "text_advanced s l b left_guillemet (length left_guillemet) l' b'"
      by (rule guillemet_advanced [OF inv granting mm(1) guillemet_length(3) mm(2)])
    have "lexer_scan_guillemet_string l st i b depth = lexer_scan_guillemet_string l' st i b' (depth + 1)"
      using has d(1) app(1) \<open>lexer_matches l left_guillemet \<longleftrightarrow> _\<close> left
      by (simp add: lexer_scan_guillemet_string.simps [of l])
    then show ?thesis
      using app(2) d(2) left by (intro proceed) (simp_all add: guillemet_encode)
  next
    case right
    with Cons.prems(3) have d: "depth - 1 \<noteq> 0" "balanced (depth - 1) cs"
      by auto
    have mm: "lexer_matches l right_guillemet" "length right_guillemet \<le> 4"
      using \<open>lexer_matches l right_guillemet \<longleftrightarrow> _\<close> right by (simp_all add: guillemet_length)
    obtain l' b' where app: "lexer_append_guillemet l b st right_guillemet = (l', Some b')"
        "text_advanced s l b right_guillemet (length right_guillemet) l' b'"
      by (rule guillemet_advanced [OF inv granting mm(1) guillemet_length(4) mm(2)])
    have "lexer_scan_guillemet_string l st i b depth = lexer_scan_guillemet_string l' st i b' (depth - 1)"
      using has d(1) app(1) \<open>lexer_matches l right_guillemet \<longleftrightarrow> _\<close> \<open>lexer_matches l left_guillemet \<longleftrightarrow> _\<close> right
      by (simp add: lexer_scan_guillemet_string.simps [of l])
    then show ?thesis
      using app(2) d(2) right by (intro proceed) (simp_all add: guillemet_encode)
  next
    case plain
    with Cons.prems(3) have d: "balanced depth cs"
      by auto
    obtain l' b' where raw: "lexer_append_raw_character l b st = (l', Some b')"
        "text_advanced s l b (utf8_encode x) (length (utf8_encode x)) l' b'"
      using raw_encoded [OF inv granting x(1) rest] by blast
    have "lexer_scan_guillemet_string l st i b depth = lexer_scan_guillemet_string l' st i b' depth"
      using has raw(1) \<open>lexer_matches l right_guillemet \<longleftrightarrow> _\<close> \<open>lexer_matches l left_guillemet \<longleftrightarrow> _\<close> plain
      by (simp add: lexer_scan_guillemet_string.simps [of l])
    then show ?thesis
      using raw(2) d by (intro proceed) simp_all
  qed
qed

section \<open>Whole tokens\<close>

lemma skip_nothing:
  assumes c: "cursor_at s l" and at: "drop (lexer_offset l) (source_bytes s) = b # rest"
    and b: "\<not> lexer_is_space b" "b \<noteq> 0x2F"
  shows "lexer_skip_trivia l = l"
proof -
  have peek: "lexer_peek l 0 = b"
    using peek_head [OF c at] by simp
  have "lexer_scan_while lexer_is_space l = l"
    using peek b(1) by (simp add: lexer_scan_while.simps [of _ l])
  moreover have "\<not> lexer_matches l line_comment_start"
    using matches_comment_peek [of l] peek b(2) by auto
  ultimately show ?thesis
    by (simp add: lexer_skip_trivia.simps [of l])
qed

lemma opened_string_inv:
  assumes inv: "lexer_inv s l" and granting: "lexer_granting l" and len: "length (source_bytes s) < 2 ^ 61"
    and has: "lexer_has l n"
  shows "lexer_text_inv s (lexer_advance_bytes n l) text_builder_init
    \<and> lexer_granting (lexer_advance_bytes n l)
    \<and> lexer_offset (lexer_advance_bytes n l) = lexer_offset l + n"
proof -
  have c: "cursor_at s l"
    using inv by (simp add: lexer_inv_def)
  note adv = lexer_shifts_has [OF c has]
  have "lexer_moves s l (lexer_advance_bytes n l)"
    using lexer_shifts_moves adv inv by blast
  then show ?thesis
    using adv granting len text_builder_init_inv by (simp add: lexer_text_inv_def lexer_moves_def)
qed

section \<open>Properties\<close>

text \<open>
  C4: A text of scalar values written between double quotes, with quote, backslash and newline
  escaped, is read back as one string token whose payload is the UTF-8 encoding of the text.
\<close>

theorem quoted_string_roundtrip:
  assumes "lexer_inv s l" "\<not> lexer_failed l" "lexer_granting l" "length (source_bytes s) < 2 ^ 61"
    and "list_all utf8_is_scalar cs"
    and at: "drop (lexer_offset l) (source_bytes s) = 0x22 # quote_text cs @ 0x22 # rest"
  shows "\<exists>t. snd (lexer_next l) = Some t \<and> token_kind_of t = TK_LIT_STR
    \<and> token_payload t = Text_Payload (encode_text cs)
    \<and> lexer_offset (fst (lexer_next l)) = lexer_offset l + length (quote_text cs) + 2"
proof -
  have c: "cursor_at s l"
    using assms(1) by (simp add: lexer_inv_def)
  have peek: "lexer_has l 1" "lexer_peek l 0 = 0x22"
    using peek_head [OF c at] by auto
  have skip: "lexer_skip_trivia l = l"
    by (rule skip_nothing [OF c at]) (simp_all add: lexer_is_space_def)
  have "\<not> lexer_matches l left_guillemet"
    using at by (simp add: lexer_matches_at [OF c] left_guillemet_def)
  then have nxt: "lexer_next l = lexer_scan_quoted_string (lexer_advance_bytes 1 l) (lexer_position l)
      (lexer_offset l) text_builder_init"
    using peek assms(2) cursor_at_source [OF c]
    by (simp add: lexer_next_def skip lexer_scan_token_def Let_def lexer_scan_string_def del: One_nat_def)
  note opened = opened_string_inv [OF assms(1,3,4) peek(1)]
  have "drop (lexer_offset l + 1) (source_bytes s) = quote_text cs @ 0x22 # rest"
    using arg_cong [OF at, of tl] by (simp add: drop_Suc tl_drop)
  then have "string_read s (lexer_advance_bytes 1 l) text_builder_init (encode_text cs)
      (length (quote_text cs) + 1) (lexer_next l)"
    unfolding nxt using opened by (intro quoted_read [OF assms(5)]) (simp_all del: One_nat_def)
  then show ?thesis
    using opened text_builder_init_inv by (auto simp: string_read_def simp del: One_nat_def)
qed

theorem quoted_string_roundtrip_witness:
  "\<exists>t. snd (lexer_next (lexer_init (\<lambda>_. True)
        (Some \<lparr>source_name = [0x61], source_bytes = [0x22, 0x5C, 0x22, 0x41, 0x22]\<rparr>))) = Some t
     \<and> token_payload t = Text_Payload [0x22, 0x41]"
proof -
  let ?s = "\<lparr>source_name = [0x61], source_bytes = [0x22, 0x5C, 0x22, 0x41, 0x22]\<rparr>"
  let ?l = "lexer_init (\<lambda>_. True) (Some ?s)"
  have q: "quote_text [0x22, 0x41] = [0x5C, 0x22, 0x41]" "encode_text [0x22, 0x41] = [0x22, 0x41]"
    by (simp_all add: quote_text_def quote_scalar_def encode_text_def utf8_encode_def utf8_is_scalar_def)
  have "lexer_granting ?l" "lexer_offset ?l = 0"
    by (simp_all add: lexer_granting_def lexer_init_def)
  with quoted_string_roundtrip [of ?s ?l "[0x22, 0x41]" "[]"] lexer_init_inv [of ?s "\<lambda>_. True"] q
  show ?thesis
    by (auto simp: utf8_is_scalar_def)
qed

text \<open>
  A text whose guillemets are balanced, with at most 255 pairs open inside the outer one, is
  read back verbatim from between guillemets: no escape is interpreted, line breaks included.
\<close>

theorem guillemet_string_verbatim:
  assumes "lexer_inv s l" "\<not> lexer_failed l" "lexer_granting l" "length (source_bytes s) < 2 ^ 61"
    and "list_all utf8_is_scalar cs" "balanced 1 cs"
    and at: "drop (lexer_offset l) (source_bytes s)
      = left_guillemet @ encode_text cs @ right_guillemet @ rest"
  shows "\<exists>t. snd (lexer_next l) = Some t \<and> token_kind_of t = TK_LIT_STR
    \<and> token_payload t = Text_Payload (encode_text cs)
    \<and> lexer_offset (fst (lexer_next l)) = lexer_offset l + length (encode_text cs) + 4"
proof -
  have c: "cursor_at s l"
    using assms(1) by (simp add: lexer_inv_def)
  have at': "drop (lexer_offset l) (source_bytes s) = 0xC2 # 0xAB # encode_text cs @ right_guillemet @ rest"
    using at by (simp add: left_guillemet_def)
  have has: "lexer_has l 1"
    using peek_head [OF c at'] by simp
  have m: "lexer_matches l left_guillemet"
    using at by (simp add: lexer_matches_at [OF c])
  have skip: "lexer_skip_trivia l = l"
    by (rule skip_nothing [OF c at']) (simp_all add: lexer_is_space_def)
  have nxt: "lexer_next l = lexer_scan_guillemet_string (lexer_advance_bytes 2 l) (lexer_position l)
      (lexer_offset l) text_builder_init 1"
    using has m assms(2) cursor_at_source [OF c]
    by (simp add: lexer_next_def skip lexer_scan_token_def Let_def lexer_scan_string_def
        guillemet_length)
  have "lexer_has l 2"
    using m by (simp add: lexer_matches_def guillemet_length)
  note opened = opened_string_inv [OF assms(1,3,4) this]
  have "drop (lexer_offset l + 2) (source_bytes s) = encode_text cs @ right_guillemet @ rest"
    using arg_cong [OF at, of "drop 2"] by (simp add: guillemet_length add.commute)
  then have "string_read s (lexer_advance_bytes 2 l) text_builder_init (encode_text cs)
      (length (encode_text cs) + 2) (lexer_next l)"
    unfolding nxt using opened assms(6) by (intro guillemet_read [OF assms(5)]) simp_all
  then show ?thesis
    using opened text_builder_init_inv by (auto simp: string_read_def)
qed

theorem guillemet_string_verbatim_witness:
  "\<exists>t. snd (lexer_next (lexer_init (\<lambda>_. True)
        (Some \<lparr>source_name = [0x61], source_bytes = [0xC2, 0xAB, 0x5C, 0xC2, 0xBB]\<rparr>))) = Some t
     \<and> token_payload t = Text_Payload [0x5C]"
proof -
  let ?s = "\<lparr>source_name = [0x61], source_bytes = [0xC2, 0xAB, 0x5C, 0xC2, 0xBB]\<rparr>"
  let ?l = "lexer_init (\<lambda>_. True) (Some ?s)"
  have q: "encode_text [0x5C] = [0x5C]"
    by (simp add: encode_text_def utf8_encode_def utf8_is_scalar_def)
  have "lexer_granting ?l" "lexer_offset ?l = 0"
    by (simp_all add: lexer_granting_def lexer_init_def)
  with guillemet_string_verbatim [of ?s ?l "[0x5C]" "[]"] lexer_init_inv [of ?s "\<lambda>_. True"] q
  show ?thesis
    by (auto simp: utf8_is_scalar_def left_guillemet_def right_guillemet_def)
qed

end
