(* ===== verification/Ast.thy ===== *)
theory Ast
  imports Source Identity
begin

text \<open>
  The abstract syntax of \<open>include/private/frontend/ast\<close>: types, declarations, literals, lvalues,
  atoms, expressions, patterns, statements, functions and module items, and the comparison of
  base names of \<open>src/frontend/ast/ast_identity.c\<close>.

  A tagged union is a datatype with one constructor per tag. A child pointer, which the parser
  never leaves null, is the subtree it points to; a pointer the sources test for null (the type of
  a variable's slot, an else block, a returned expression) is an option. An array with its count is a list.
  The address of a node matters in three places: the owner facts of the semantic context are keyed
  by named types, and generic instances are found by the type declaration or function they come
  from. \<open>Type_Named\<close>, \<open>ast_type_declaration\<close> and \<open>ast_function\<close> therefore carry the identity of
  their node.
\<close>

section \<open>Types\<close>

datatype machine_type = Machine_I8 | Machine_I16 | Machine_I32 | Machine_I64
  | Machine_U8 | Machine_U16 | Machine_U32 | Machine_U64 | Machine_F32 | Machine_F64

type_synonym temporary_id = u64
type_synonym node = nat

datatype ast_type =
    Type_Any
  | Type_Boolean
  | Type_Machine machine_type
  | Type_Integer
  | Type_Unsigned_Integer
  | Type_Character
  | Type_String
  | Type_Box ast_type
  | Type_Option ast_type
  | Type_Result ast_type ast_type
  | Type_Function "ast_type list" ast_type
  | Type_Named node text_slice "ast_type list"
  | Type_Pointer ast_type
  | Type_Reference ast_type
  | Type_Vector ast_type
  | Type_Mutable ast_type
  | Type_Void

text \<open>
  The slots of fields, payloads, parameters and outputs are made from a parsed type
  (\<open>__Parser_Exterior_Slot__\<close>); only the slot of a variable may leave its type to inference.
\<close>

record 't ast_slot_of =
  slot_span :: source_span
  slot_type :: 't

type_synonym ast_slot = "ast_type ast_slot_of"
type_synonym ast_variable_slot = "ast_type option ast_slot_of"

record ast_struct_field =
  struct_field_name :: text_slice
  struct_field_slot :: ast_slot

record ast_enum_constructor =
  constructor_name :: text_slice
  constructor_payload_slots :: "ast_slot list"

datatype ast_type_decl_body =
    Decl_Struct "ast_struct_field list"
  | Decl_Enum "ast_enum_constructor list"
  | Decl_Alias ast_type

record ast_type_declaration =
  decl_node :: node
  decl_name :: text_slice
  decl_type_parameters :: "text_slice list"
  decl_body :: ast_type_decl_body

section \<open>Expressions\<close>

datatype ast_literal =
    Literal_Boolean source_span bool
  | Literal_Integer source_span i64 text_slice bool
  | Literal_Character source_span u32
  | Literal_String source_span text_slice
  | Literal_Undefined source_span

datatype ast_lvalue_base = Base_Identifier text_slice | Base_Temporary temporary_id

datatype ast_binary_operation = Binary_Or | Binary_And | Binary_Xor | Binary_Equal
  | Binary_Not_Equal | Binary_Less_Than | Binary_Less_Or_Equal | Binary_Greater_Or_Equal
  | Binary_Greater_Than | Binary_Shift_Left_Logical | Binary_Shift_Right_Logical | Binary_Add
  | Binary_Subtract | Binary_Multiply | Binary_Divide | Binary_Modulo | Binary_Logical_And
  | Binary_Logical_Or

datatype ast_unary_operation = Unary_Not | Unary_Bitwise_Not | Unary_Negate | Unary_Dereference
  | Unary_Address | Unary_Address_Mutable

text \<open>
  What every expression node carries: its span, and the marks the semantic checks leave on it
  (the contextual type, whether its moves and releases have been applied, whether it is a
  checked raw null).
\<close>

record ast_expression_header =
  expression_span :: source_span
  expression_contextual_type :: "ast_type option"
  expression_effects_applied :: bool
  expression_null_pointer :: bool

datatype ast_lvalue =
    Lvalue_Base source_span ast_lvalue_base
  | Lvalue_Field source_span ast_lvalue text_slice
  | Lvalue_Index source_span ast_lvalue ast_expression
  | Lvalue_Dereference source_span ast_lvalue
and ast_atom =
    Atom_Literal ast_literal
  | Atom_Lvalue ast_lvalue
and ast_expression =
    Expression_Binary ast_expression_header ast_binary_operation ast_expression ast_expression
  | Expression_Unary ast_expression_header ast_unary_operation ast_expression
  | Expression_Atom ast_expression_header ast_atom
  | Expression_Call ast_expression_header ast_lvalue "ast_expression list" size_t
  | Expression_Conversion ast_expression_header ast_expression ast_type

primrec expression_header :: "ast_expression \<Rightarrow> ast_expression_header" where
  "expression_header (Expression_Binary h _ _ _) = h"
| "expression_header (Expression_Unary h _ _) = h"
| "expression_header (Expression_Atom h _) = h"
| "expression_header (Expression_Call h _ _ _) = h"
| "expression_header (Expression_Conversion h _ _) = h"

primrec lvalue_span :: "ast_lvalue \<Rightarrow> source_span" where
  "lvalue_span (Lvalue_Base s _) = s"
| "lvalue_span (Lvalue_Field s _ _) = s"
| "lvalue_span (Lvalue_Index s _ _) = s"
| "lvalue_span (Lvalue_Dereference s _) = s"

section \<open>Patterns and statements\<close>

datatype ast_pattern =
    Pattern_Wildcard source_span
  | Pattern_Binding source_span text_slice
  | Pattern_Enum source_span text_slice text_slice "ast_pattern list"
  | Pattern_Struct source_span "(text_slice \<times> ast_pattern) list"

primrec pattern_span :: "ast_pattern \<Rightarrow> source_span" where
  "pattern_span (Pattern_Wildcard s) = s"
| "pattern_span (Pattern_Binding s _) = s"
| "pattern_span (Pattern_Enum s _ _ _) = s"
| "pattern_span (Pattern_Struct s _) = s"

record ast_variable_declaration =
  variable_name :: ast_lvalue_base
  variable_slot :: ast_variable_slot

text \<open>A block is its span with its statements; the else block may be absent.\<close>

datatype ast_statement =
    Statement_Variable source_span ast_variable_declaration
  | Statement_Initialize_Record source_span ast_lvalue "(text_slice \<times> ast_expression) list"
  | Statement_Initialize_Vector source_span ast_lvalue "ast_atom list"
  | Statement_Initialize_Box source_span ast_lvalue ast_atom
  | Statement_Copy source_span ast_lvalue ast_expression
  | Statement_While source_span ast_expression ast_block
  | Statement_If source_span ast_expression ast_block "ast_block option"
  | Statement_Match source_span ast_expression "(ast_pattern \<times> ast_block) list"
  | Statement_Unsafe source_span ast_block
  | Statement_Return source_span "ast_expression option"
and ast_block = Block source_span "ast_statement list"

section \<open>Functions and modules\<close>

record ast_function_parameter =
  parameter_name :: text_slice
  parameter_slot :: ast_slot

record ast_function =
  function_node :: node
  function_span :: source_span
  function_name :: text_slice
  function_public :: bool
  function_external :: bool
  function_type_parameters :: "text_slice list"
  function_parameters :: "ast_function_parameter list"
  function_output :: ast_slot
  function_body :: "ast_block option"

record ast_alias_path =
  alias_parent :: text_slice
  alias_name :: text_slice

record ast_module_alias =
  alias_destination :: ast_alias_path
  alias_target :: ast_alias_path

record ast_global =
  global_span :: source_span
  global_type :: ast_type
  global_link_name :: text_slice
  global_external :: bool

datatype ast_module_item_body =
    Item_Function ast_function
  | Item_Type ast_type_declaration
  | Item_Inline text_slice
  | Item_Alias ast_module_alias
  | Item_Global ast_global

record ast_module_item =
  item_span :: source_span
  item_name :: text_slice
  item_public :: bool
  item_body :: ast_module_item_body

datatype ast_import_kind = Import_Relative | Import_Logical

record ast_import =
  import_kind :: ast_import_kind
  import_path :: text_slice

record ast_module =
  module_items :: "ast_module_item list"
  module_imports :: "ast_import list"

section \<open>Identity of base names\<close>

definition ast_base_identity_matches :: "ast_lvalue_base \<Rightarrow> ast_lvalue_base \<Rightarrow> bool" where
  "ast_base_identity_matches a b =
     (case (a, b) of
        (Base_Identifier l, Base_Identifier r) \<Rightarrow> identity_equals l r
      | (Base_Temporary l, Base_Temporary r) \<Rightarrow> l = r
      | _ \<Rightarrow> False)"

definition ast_base_identity_matches_lvalue :: "ast_lvalue_base \<Rightarrow> ast_lvalue option \<Rightarrow> bool" where
  "ast_base_identity_matches_lvalue a l =
     (case l of
        Some (Lvalue_Base _ b) \<Rightarrow> ast_base_identity_matches a b
      | _ \<Rightarrow> False)"

end
