(* ===== verification/Safety.thy ===== *)
theory Safety
  imports Ast Diagnostic
begin

text \<open>
  The value facts of the safety kernel (\<open>src/kernel/safety/flow.c\<close>): whether a local is
  initialised or moved, how it is borrowed, where a reference comes from, and how the facts of two
  control flow branches are merged.

  A pointer to a fact is an option, \<open>None\<close> being null; a routine that returns 0 and leaves its fact
  alone returns \<open>None\<close>. A span with its presence flag is an option: the sources read the span only
  under the flag. The value states form a semilattice whose join is the merge of the sources.
\<close>

section \<open>Value facts\<close>

datatype safety_value_state = Value_Uninitialized | Value_Initialized | Value_Moved
  | Value_Maybe_Uninitialized | Value_Maybe_Moved

datatype safety_borrow_kind = Borrow_None | Borrow_Shared | Borrow_Mutable

record safety_fact =
  fact_state :: safety_value_state
  fact_immutable_borrows :: size_t
  fact_mutable_borrow :: bool
  fact_borrowed_from :: size_t
  fact_borrow_kind :: safety_borrow_kind
  fact_lifetime_region :: size_t
  fact_origin_parameter :: size_t
  fact_origin_span :: "source_span option"
  fact_move_span :: "source_span option"
  fact_active_borrow_span :: "source_span option"
  fact_mutable_borrow_holder :: size_t

definition safety_fact_init :: "bool \<Rightarrow> safety_fact" where
  "safety_fact_init initialized =
     \<lparr>fact_state = (if initialized then Value_Initialized else Value_Uninitialized),
      fact_immutable_borrows = 0, fact_mutable_borrow = False, fact_borrowed_from = SIZE_MAX,
      fact_borrow_kind = Borrow_None, fact_lifetime_region = SIZE_MAX,
      fact_origin_parameter = SIZE_MAX, fact_origin_span = None, fact_move_span = None,
      fact_active_borrow_span = None, fact_mutable_borrow_holder = SIZE_MAX\<rparr>"

definition safety_fact_can_read :: "safety_fact option \<Rightarrow> bool" where
  "safety_fact_can_read p =
     (case p of None \<Rightarrow> False
      | Some f \<Rightarrow> fact_state f = Value_Initialized \<and> \<not> fact_mutable_borrow f)"

definition safety_fact_can_write :: "safety_fact option \<Rightarrow> bool" where
  "safety_fact_can_write p =
     (case p of None \<Rightarrow> False
      | Some f \<Rightarrow> \<not> fact_mutable_borrow f \<and> fact_immutable_borrows f = 0)"

definition safety_fact_can_move :: "safety_fact option \<Rightarrow> bool" where
  "safety_fact_can_move p =
     (case p of None \<Rightarrow> False
      | Some f \<Rightarrow> fact_state f = Value_Initialized \<and> \<not> fact_mutable_borrow f
          \<and> fact_immutable_borrows f = 0)"

definition safety_fact_acquire_shared_at :: "safety_fact option \<Rightarrow> source_span \<Rightarrow> safety_fact option" where
  "safety_fact_acquire_shared_at p sp =
     (case p of None \<Rightarrow> None
      | Some f \<Rightarrow>
          if fact_state f \<noteq> Value_Initialized \<or> fact_mutable_borrow f then None
          else Some (f\<lparr>fact_immutable_borrows := fact_immutable_borrows f + 1,
                       fact_active_borrow_span :=
                         (if fact_active_borrow_span f = None then Some sp
                          else fact_active_borrow_span f)\<rparr>))"

definition safety_fact_acquire_mutable_at ::
    "safety_fact option \<Rightarrow> source_span \<Rightarrow> size_t \<Rightarrow> safety_fact option" where
  "safety_fact_acquire_mutable_at p sp holder =
     (case p of None \<Rightarrow> None
      | Some f \<Rightarrow>
          if fact_state f \<noteq> Value_Initialized \<or> fact_mutable_borrow f \<or> fact_immutable_borrows f \<noteq> 0
          then None
          else Some (f\<lparr>fact_mutable_borrow := True, fact_active_borrow_span := Some sp,
                       fact_mutable_borrow_holder := holder\<rparr>))"

definition safety_fact_set_mutable_borrow_holder ::
    "safety_fact option \<Rightarrow> size_t \<Rightarrow> safety_fact option" where
  "safety_fact_set_mutable_borrow_holder p holder =
     (case p of None \<Rightarrow> None
      | Some f \<Rightarrow>
          if fact_mutable_borrow f then Some (f\<lparr>fact_mutable_borrow_holder := holder\<rparr>) else Some f)"

definition safety_fact_release_borrow ::
    "safety_fact option \<Rightarrow> safety_borrow_kind \<Rightarrow> safety_fact option" where
  "safety_fact_release_borrow p k =
     (case p of None \<Rightarrow> None
      | Some f \<Rightarrow>
          (let g = (if k = Borrow_Shared then
                      (if fact_immutable_borrows f \<noteq> 0
                       then f\<lparr>fact_immutable_borrows := fact_immutable_borrows f - 1\<rparr> else f)
                    else if k = Borrow_Mutable then
                      f\<lparr>fact_mutable_borrow := False, fact_mutable_borrow_holder := SIZE_MAX\<rparr>
                    else f)
           in Some (if fact_immutable_borrows g = 0 \<and> \<not> fact_mutable_borrow g
                    then g\<lparr>fact_active_borrow_span := None\<rparr> else g)))"

definition safety_fact_mark_initialized_at :: "safety_fact option \<Rightarrow> source_span \<Rightarrow> safety_fact option" where
  "safety_fact_mark_initialized_at p sp =
     (case p of None \<Rightarrow> None
      | Some f \<Rightarrow>
          Some (f\<lparr>fact_state := Value_Initialized,
                  fact_origin_span :=
                    (if fact_origin_span f = None then Some sp else fact_origin_span f)\<rparr>))"

definition safety_fact_mark_moved_at :: "safety_fact option \<Rightarrow> source_span \<Rightarrow> safety_fact option" where
  "safety_fact_mark_moved_at p sp =
     (case p of None \<Rightarrow> None
      | Some f \<Rightarrow>
          Some (f\<lparr>fact_state := Value_Moved, fact_immutable_borrows := 0, fact_mutable_borrow := False,
                  fact_move_span := Some sp, fact_active_borrow_span := None,
                  fact_mutable_borrow_holder := SIZE_MAX\<rparr>))"

definition safety_state_merge :: "safety_value_state \<Rightarrow> safety_value_state \<Rightarrow> safety_value_state" where
  "safety_state_merge l r =
     (if l = r then l
      else if l = Value_Moved \<or> r = Value_Moved \<or> l = Value_Maybe_Moved \<or> r = Value_Maybe_Moved
      then Value_Maybe_Moved
      else Value_Maybe_Uninitialized)"

text \<open>The first of two optional spans, as the branches with \<open>else if\<close> choose it.\<close>

definition first_span :: "source_span option \<Rightarrow> source_span option \<Rightarrow> source_span option" where
  "first_span l r = (if l \<noteq> None then l else r)"

definition safety_fact_merge :: "safety_fact option \<Rightarrow> safety_fact option \<Rightarrow> safety_fact" where
  "safety_fact_merge lp rp =
     (let z = safety_fact_init False
      in case (lp, rp) of
           (Some l, Some r) \<Rightarrow>
             (let m =
                z\<lparr>fact_state := safety_state_merge (fact_state l) (fact_state r),
                  fact_immutable_borrows :=
                    (if fact_immutable_borrows l > fact_immutable_borrows r
                     then fact_immutable_borrows l else fact_immutable_borrows r),
                  fact_mutable_borrow := (fact_mutable_borrow l \<or> fact_mutable_borrow r),
                  fact_mutable_borrow_holder :=
                    (if fact_mutable_borrow_holder l = fact_mutable_borrow_holder r
                     then fact_mutable_borrow_holder l else fact_mutable_borrow_holder z),
                  fact_origin_span := first_span (fact_origin_span l) (fact_origin_span r),
                  fact_move_span := first_span (fact_move_span l) (fact_move_span r),
                  fact_active_borrow_span :=
                    first_span (fact_active_borrow_span l) (fact_active_borrow_span r)\<rparr>
              in if fact_borrowed_from l = fact_borrowed_from r
                    \<and> fact_borrow_kind l = fact_borrow_kind r
                 then m\<lparr>fact_borrowed_from := fact_borrowed_from l,
                        fact_borrow_kind := fact_borrow_kind l,
                        fact_lifetime_region :=
                          (if fact_lifetime_region l > fact_lifetime_region r
                           then fact_lifetime_region l else fact_lifetime_region r),
                        fact_origin_parameter :=
                          (if fact_origin_parameter l = fact_origin_parameter r
                           then fact_origin_parameter l else fact_origin_parameter z)\<rparr>
                 else m)
         | _ \<Rightarrow> z)"

text \<open>The test on types; the answer carries \<open>*__Out_Mutable__\<close>.\<close>

fun safety_type_is_reference :: "ast_type option \<Rightarrow> bool option" where
  "safety_type_is_reference (Some (Type_Mutable t)) = safety_type_is_reference (Some t)"
| "safety_type_is_reference (Some (Type_Reference t)) =
     Some (case t of Type_Mutable _ \<Rightarrow> True | _ \<Rightarrow> False)"
| "safety_type_is_reference _ = None"

section \<open>The lattice of value states\<close>

instantiation safety_value_state :: semilattice_sup
begin

definition sup_safety_value_state :: "safety_value_state \<Rightarrow> safety_value_state \<Rightarrow> safety_value_state" where
  "sup_safety_value_state = safety_state_merge"

definition less_eq_safety_value_state :: "safety_value_state \<Rightarrow> safety_value_state \<Rightarrow> bool" where
  "less_eq_safety_value_state a b \<longleftrightarrow> safety_state_merge a b = b"

definition less_safety_value_state :: "safety_value_state \<Rightarrow> safety_value_state \<Rightarrow> bool" where
  "less_safety_value_state a b \<longleftrightarrow> a \<le> b \<and> a \<noteq> (b :: safety_value_state)"

instance
proof
  fix x y z :: safety_value_state
  show "x < y \<longleftrightarrow> x \<le> y \<and> \<not> y \<le> x"
    by (cases x; cases y) (simp_all add: less_safety_value_state_def less_eq_safety_value_state_def safety_state_merge_def)
  show "x \<le> x"
    by (simp add: less_eq_safety_value_state_def safety_state_merge_def)
  show "x \<le> z" if "x \<le> y" "y \<le> z"
    using that by (cases x; cases y; cases z) (simp_all add: less_eq_safety_value_state_def safety_state_merge_def)
  show "x = y" if "x \<le> y" "y \<le> x"
    using that by (cases x; cases y) (simp_all add: less_eq_safety_value_state_def safety_state_merge_def)
  show "x \<le> sup x y"
    by (cases x; cases y) (simp_all add: less_eq_safety_value_state_def sup_safety_value_state_def safety_state_merge_def)
  show "y \<le> sup x y"
    by (cases x; cases y) (simp_all add: less_eq_safety_value_state_def sup_safety_value_state_def safety_state_merge_def)
  show "sup y z \<le> x" if "y \<le> x" "z \<le> x"
    using that by (cases x; cases y; cases z) (simp_all add: less_eq_safety_value_state_def sup_safety_value_state_def safety_state_merge_def)
qed

end

section \<open>What a state says of a value\<close>

text \<open>A value was never set, is held, or was moved away; a state allows some of the three.\<close>

datatype value_status = Never_Set | Held | Moved_Away

primrec possible_status :: "safety_value_state \<Rightarrow> value_status set" where
  "possible_status Value_Uninitialized = {Never_Set}"
| "possible_status Value_Initialized = {Held}"
| "possible_status Value_Moved = {Moved_Away}"
| "possible_status Value_Maybe_Uninitialized = {Never_Set, Held}"
| "possible_status Value_Maybe_Moved = {Never_Set, Held, Moved_Away}"

lemma state_merge_cases [simp]:
  "safety_state_merge l r = Value_Initialized \<longleftrightarrow> l = Value_Initialized \<and> r = Value_Initialized"
  by (auto simp: safety_state_merge_def)

lemma merge_fact_fields:
  "fact_state (safety_fact_merge (Some l) (Some r)) = safety_state_merge (fact_state l) (fact_state r)"
  "fact_immutable_borrows (safety_fact_merge (Some l) (Some r)) =
     max (fact_immutable_borrows l) (fact_immutable_borrows r)"
  "fact_mutable_borrow (safety_fact_merge (Some l) (Some r)) \<longleftrightarrow>
     fact_mutable_borrow l \<or> fact_mutable_borrow r"
  by (auto simp: safety_fact_merge_def Let_def max_def)

lemma max_zero_iff: "max a b = (0 :: 'a :: len word) \<longleftrightarrow> a = 0 \<and> b = 0"
  by (auto simp: max_def word_le_nat_alt unat_eq_0 intro: antisym)

lemma merge_idem: "safety_fact_merge (Some f) (Some f) = f"
  by (cases f) (auto simp: safety_fact_merge_def Let_def safety_fact_init_def safety_state_merge_def
      first_span_def)

section \<open>Borrow histories\<close>

text \<open>The operations on one fact between two merges, as events; \<open>None\<close> is a refused acquisition.\<close>

datatype safety_event =
    Acquire_Shared source_span
  | Acquire_Mutable source_span size_t
  | Set_Holder size_t
  | Release safety_borrow_kind
  | Mark_Initialized source_span
  | Mark_Moved source_span

primrec safety_apply :: "safety_event \<Rightarrow> safety_fact \<Rightarrow> safety_fact option" where
  "safety_apply (Acquire_Shared sp) f = safety_fact_acquire_shared_at (Some f) sp"
| "safety_apply (Acquire_Mutable sp h) f = safety_fact_acquire_mutable_at (Some f) sp h"
| "safety_apply (Set_Holder h) f = safety_fact_set_mutable_borrow_holder (Some f) h"
| "safety_apply (Release k) f = safety_fact_release_borrow (Some f) k"
| "safety_apply (Mark_Initialized sp) f = safety_fact_mark_initialized_at (Some f) sp"
| "safety_apply (Mark_Moved sp) f = safety_fact_mark_moved_at (Some f) sp"

text \<open>The loans outstanding after a history, whose newest event comes first.\<close>

primrec loan_event :: "safety_event \<Rightarrow> safety_borrow_kind list \<Rightarrow> safety_borrow_kind list" where
  "loan_event (Acquire_Shared sp) ls = Borrow_Shared # ls"
| "loan_event (Acquire_Mutable sp h) ls = Borrow_Mutable # ls"
| "loan_event (Set_Holder h) ls = ls"
| "loan_event (Release k) ls = remove1 k ls"
| "loan_event (Mark_Initialized sp) ls = ls"
| "loan_event (Mark_Moved sp) ls = []"

primrec live_loans :: "safety_event list \<Rightarrow> safety_borrow_kind list" where
  "live_loans [] = []"
| "live_loans (e # es) = loan_event e (live_loans es)"

inductive safety_history :: "safety_event list \<Rightarrow> safety_fact \<Rightarrow> bool" where
  history_start: "safety_history [] (safety_fact_init b)"
| history_step: "safety_history es f \<Longrightarrow> safety_apply e f = Some g \<Longrightarrow> safety_history (e # es) g"

inductive_simps safety_history_simps: "safety_history [] f" "safety_history (e # es) f"

text \<open>The same histories, computed from an initialised value.\<close>

primrec safety_run :: "safety_event list \<Rightarrow> safety_fact option" where
  "safety_run [] = Some (safety_fact_init True)"
| "safety_run (e # es) = (case safety_run es of None \<Rightarrow> None | Some f \<Rightarrow> safety_apply e f)"

lemma safety_run_history: "safety_run es = Some f \<Longrightarrow> safety_history es f"
  by (induction es arbitrary: f)
    (auto simp: safety_history_simps split: option.splits)

text \<open>Either one writer and nobody else, or readers counted by the fact.\<close>

definition loans_match :: "safety_borrow_kind list \<Rightarrow> safety_fact \<Rightarrow> bool" where
  "loans_match ls f \<longleftrightarrow>
     (if fact_mutable_borrow f then ls = [Borrow_Mutable] \<and> fact_immutable_borrows f = 0
      else ls = replicate (unat (fact_immutable_borrows f)) Borrow_Shared
        \<and> fact_mutable_borrow_holder f = SIZE_MAX)
     \<and> (fact_active_borrow_span f = None \<longleftrightarrow> ls = [])"

lemma replicate_shared_neq [simp]: "replicate n Borrow_Shared \<noteq> [Borrow_Mutable]"
  by (cases n) auto

lemma remove1_replicate:
  "remove1 x (replicate n y) = (if x = y then replicate (n - 1) y else replicate n y)"
  by (cases n) (auto simp: remove1_idem)

lemma loans_match_step:
  assumes "loans_match ls f" "length ls < 2 ^ 64 - 1" "safety_apply e f = Some g"
  shows "loans_match (loan_event e ls) g"
proof (cases e)
  case (Acquire_Shared sp)
  have "unat (fact_immutable_borrows f + 1) = unat (fact_immutable_borrows f) + 1"
    if "\<not> fact_mutable_borrow f"
    using assms(1,2) that unat_add_u64 [of "fact_immutable_borrows f" 1] by (auto simp: loans_match_def)
  then show ?thesis
    using assms Acquire_Shared
    by (auto simp: safety_fact_acquire_shared_at_def loans_match_def split: if_splits)
next
  case (Release k)
  have "unat (fact_immutable_borrows f - 1) = unat (fact_immutable_borrows f) - 1"
    if "fact_immutable_borrows f \<noteq> 0"
    using that by (simp add: unat_minus_one)
  then show ?thesis
    using assms Release
    by (auto simp: safety_fact_release_borrow_def loans_match_def Let_def remove1_replicate
        unat_eq_0 split: if_splits)
qed (use assms in \<open>auto simp: safety_fact_acquire_mutable_at_def safety_fact_mark_moved_at_def
      safety_fact_mark_initialized_at_def safety_fact_set_mutable_borrow_holder_def loans_match_def
      split: if_splits\<close>)

lemma length_live_loans: "length (live_loans es) \<le> length es"
proof (induction es)
  case (Cons e es)
  then show ?case
    by (cases e) (auto simp: length_remove1)
qed simp

lemma history_loans_match:
  "safety_history es f \<Longrightarrow> length es < 2 ^ 64 - 1 \<Longrightarrow> loans_match (live_loans es) f"
proof (induction rule: safety_history.induct)
  case (history_start b)
  then show ?case
    by (simp add: loans_match_def safety_fact_init_def)
next
  case (history_step es f e g)
  with length_live_loans [of es] show ?case
    by (auto intro!: loans_match_step)
qed

section \<open>Properties\<close>

text \<open>
  C24: Along any history of operations on a value, the loans outstanding are either one mutable
  loan or shared loans only, the fact counts the shared ones exactly, writing is allowed exactly
  when nothing is lent, and reading exactly when the value is initialised and not lent mutably.
\<close>

theorem safety_borrow_discipline:
  assumes "safety_history es f" "length es < 2 ^ 64 - 1"
  shows "(live_loans es = [Borrow_Mutable] \<or> set (live_loans es) \<subseteq> {Borrow_Shared})
    \<and> (fact_mutable_borrow f \<longleftrightarrow> live_loans es = [Borrow_Mutable])
    \<and> unat (fact_immutable_borrows f) = length (filter ((=) Borrow_Shared) (live_loans es))
    \<and> safety_fact_can_write (Some f) = (live_loans es = [])
    \<and> safety_fact_can_read (Some f) =
        (fact_state f = Value_Initialized \<and> Borrow_Mutable \<notin> set (live_loans es))"
  using history_loans_match [OF assms]
  by (auto simp: loans_match_def safety_fact_can_write_def safety_fact_can_read_def unat_eq_0
      split: if_splits)

theorem safety_borrow_discipline_witness:
  "\<exists>f. safety_history [Release Borrow_Shared, Acquire_Shared zero_span, Acquire_Shared zero_span] f
     \<and> unat (fact_immutable_borrows f) = 1 \<and> \<not> safety_fact_can_write (Some f)"
proof -
  have "\<exists>f. safety_run [Release Borrow_Shared, Acquire_Shared zero_span, Acquire_Shared zero_span] = Some f"
    by (simp add: safety_fact_init_def safety_fact_acquire_shared_at_def
        safety_fact_release_borrow_def Let_def)
  then obtain f where f:
    "safety_history [Release Borrow_Shared, Acquire_Shared zero_span, Acquire_Shared zero_span] f"
    using safety_run_history by blast
  then show ?thesis
    using safety_borrow_discipline [OF f] by auto
qed

text \<open>
  After the merge of two branches a value can be read, written or moved exactly when it can
  be on both branches: the merge neither forgets a borrow or a move nor invents one.
\<close>

theorem safety_merge_exact:
  "safety_fact_can_read (Some (safety_fact_merge (Some l) (Some r))) =
      (safety_fact_can_read (Some l) \<and> safety_fact_can_read (Some r))
   \<and> safety_fact_can_write (Some (safety_fact_merge (Some l) (Some r))) =
      (safety_fact_can_write (Some l) \<and> safety_fact_can_write (Some r))
   \<and> safety_fact_can_move (Some (safety_fact_merge (Some l) (Some r))) =
      (safety_fact_can_move (Some l) \<and> safety_fact_can_move (Some r))"
  by (auto simp: safety_fact_can_read_def safety_fact_can_write_def safety_fact_can_move_def
      merge_fact_fields max_zero_iff)

text \<open>
  The merged state is the most precise of the five states that allows whatever the two
  branches allow: its possibilities are the intersection of those of all such states.
\<close>

theorem safety_merge_best:
  "possible_status (safety_state_merge l r) =
     \<Inter> {possible_status c |c. possible_status l \<union> possible_status r \<subseteq> possible_status c}"
proof
  show "possible_status (safety_state_merge l r) \<subseteq>
     \<Inter> {possible_status c |c. possible_status l \<union> possible_status r \<subseteq> possible_status c}"
  proof (rule Inter_greatest)
    fix S
    assume "S \<in> {possible_status c |c. possible_status l \<union> possible_status r \<subseteq> possible_status c}"
    then obtain c where "S = possible_status c" "possible_status l \<union> possible_status r \<subseteq> possible_status c"
      by blast
    then show "possible_status (safety_state_merge l r) \<subseteq> S"
      by (cases l; cases r; cases c) (simp_all add: safety_state_merge_def)
  qed
  have "possible_status l \<union> possible_status r \<subseteq> possible_status (safety_state_merge l r)"
    by (cases l; cases r) (simp_all add: safety_state_merge_def)
  then show "\<Inter> {possible_status c |c. possible_status l \<union> possible_status r \<subseteq> possible_status c} \<subseteq>
      possible_status (safety_state_merge l r)"
    by blast
qed

end
