(* ===== verification/Context.thy ===== *)
theory Context
  imports Ast Diagnostic Arena
begin

text \<open>
  The semantic context (\<open>include/private/semantic/context.h\<close>) and the collection of module-level
  declarations (\<open>src/semantic/context_*.c\<close>): the entries of types, functions and values, the
  owner facts that say in which unit a named type was written, and the range of entries each unit
  owns.

  A pointer to a unit is its position in the program's vector of units; a pointer to a declaration
  or function is compared by the identity of its node. A vector is the list of its elements (its
  growth is verified in \<open>Containers\<close>); whether a call that may allocate succeeds is the next answer
  of \<open>sc_heap\<close>, so that every out-of-memory exit is a branch.
\<close>

section \<open>State\<close>

record program_unit =
  unit_index :: nat
  unit_path :: "bytes option"
  unit_module :: ast_module
  unit_imported_indexes :: "nat list"

record semantic_type_entry =
  te_name :: text_slice
  te_declaration :: "ast_type_declaration option"
  te_template_declaration :: "ast_type_declaration option"
  te_type_arguments :: "ast_type list"
  te_is_generic_template :: bool
  te_unit :: "nat option"
  te_public :: bool
  te_size :: size_t
  te_alignment :: size_t
  te_layout_state :: nat

record semantic_function_entry =
  fe_name :: text_slice
  fe_function :: "ast_function option"
  fe_callable_type :: "ast_type option"
  fe_template_function :: "ast_function option"
  fe_type_arguments :: "ast_type list"
  fe_is_generic_template :: bool
  fe_unit :: "nat option"
  fe_public :: bool
  fe_index :: size_t
  fe_reference_return_parameter :: size_t
  fe_composite_view_return_parameter :: size_t

record semantic_global_entry =
  ge_name :: text_slice
  ge_declaration :: "ast_global option"
  ge_unit :: "nat option"
  ge_public :: bool

record semantic_type_owner_fact =
  owner_type :: node
  owner_unit :: "nat option"

record semantic_unit_name_range =
  range_unit :: "nat option"
  range_type_begin :: nat
  range_type_end :: nat
  range_function_begin :: nat
  range_function_end :: nat
  range_global_begin :: nat
  range_global_end :: nat

record semantic_context =
  sc_units :: "program_unit list"
  sc_types :: "semantic_type_entry list"
  sc_functions :: "semantic_function_entry list"
  sc_globals :: "semantic_global_entry list"
  sc_generic_types :: "semantic_type_entry list"
  sc_generic_functions :: "semantic_function_entry list"
  sc_type_owners :: "semantic_type_owner_fact list"
  sc_unit_name_ranges :: "semantic_unit_name_range list"
  sc_main :: "nat option"
  sc_active_unit :: "nat option"
  sc_diagnostic :: diagnostic
  sc_failed :: bool
  sc_heap :: "nat \<Rightarrow> bool"
  sc_next_node :: node

text \<open>\<open>sc_heap\<close> and \<open>sc_next_node\<close> stand for the allocator: its answers and the next fresh address.\<close>

definition semantic_context_init ::
    "(nat \<Rightarrow> bool) \<Rightarrow> node \<Rightarrow> diagnostic \<Rightarrow> program_unit list \<Rightarrow> semantic_context" where
  "semantic_context_init heap fresh zero units =
     \<lparr>sc_units = units, sc_types = [], sc_functions = [], sc_globals = [], sc_generic_types = [],
      sc_generic_functions = [], sc_type_owners = [], sc_unit_name_ranges = [], sc_main = None,
      sc_active_unit = None, sc_diagnostic = zero, sc_failed = False, sc_heap = heap,
      sc_next_node = fresh\<rparr>"

definition semantic_allocates :: "semantic_context \<Rightarrow> bool \<times> semantic_context" where
  "semantic_allocates c = (sc_heap c 0, c\<lparr>sc_heap := \<lambda>n. sc_heap c (n + 1)\<rparr>)"

definition semantic_begin_diagnostic ::
    "semantic_context \<Rightarrow> error_id \<Rightarrow> source_span \<Rightarrow> semantic_context" where
  "semantic_begin_diagnostic c i sp =
     c\<lparr>sc_diagnostic := (if \<not> sc_failed c then diagnostic_begin i sp else sc_diagnostic c),
       sc_failed := True\<rparr>"

definition semantic_fail :: "semantic_context \<Rightarrow> error_id \<Rightarrow> source_span \<Rightarrow> semantic_context" where
  "semantic_fail c i sp = semantic_begin_diagnostic c i sp"

definition program_unit_at :: "semantic_context \<Rightarrow> nat \<Rightarrow> nat option" where
  "program_unit_at c i = (if i < length (sc_units c) then Some i else None)"

abbreviation unit_items :: "semantic_context \<Rightarrow> nat \<Rightarrow> ast_module_item list" where
  "unit_items c u \<equiv> module_items (unit_module (sc_units c ! u))"

section \<open>Owner facts\<close>

text \<open>The result of the recording routines: the context and whether they succeeded.\<close>

type_synonym 'a sem = "semantic_context \<Rightarrow> semantic_context \<times> 'a"

fun semantic_record_type_owner :: "ast_type \<Rightarrow> nat option \<Rightarrow> bool sem"
  and semantic_record_type_owners :: "ast_type list \<Rightarrow> nat option \<Rightarrow> bool sem" where
  "semantic_record_type_owner (Type_Named k name args) u c =
     (case semantic_allocates c of
        (granted, c1) \<Rightarrow>
          if \<not> granted then (c1, False)
          else semantic_record_type_owners args u
                 (c1\<lparr>sc_type_owners := sc_type_owners c1 @ [\<lparr>owner_type = k, owner_unit = u\<rparr>]\<rparr>))"
| "semantic_record_type_owner (Type_Pointer t) u c = semantic_record_type_owner t u c"
| "semantic_record_type_owner (Type_Reference t) u c = semantic_record_type_owner t u c"
| "semantic_record_type_owner (Type_Vector t) u c = semantic_record_type_owner t u c"
| "semantic_record_type_owner (Type_Box t) u c = semantic_record_type_owner t u c"
| "semantic_record_type_owner (Type_Option t) u c = semantic_record_type_owner t u c"
| "semantic_record_type_owner (Type_Mutable t) u c = semantic_record_type_owner t u c"
| "semantic_record_type_owner (Type_Result ok er) u c =
     (case semantic_record_type_owner ok u c of
        (c1, False) \<Rightarrow> (c1, False)
      | (c1, True) \<Rightarrow> semantic_record_type_owner er u c1)"
| "semantic_record_type_owner (Type_Function ps out) u c =
     (case semantic_record_type_owners ps u c of
        (c1, False) \<Rightarrow> (c1, False)
      | (c1, True) \<Rightarrow> semantic_record_type_owner out u c1)"
| "semantic_record_type_owner _ u c = (c, True)"
| "semantic_record_type_owners [] u c = (c, True)"
| "semantic_record_type_owners (t # ts) u c =
     (case semantic_record_type_owner t u c of
        (c1, False) \<Rightarrow> (c1, False)
      | (c1, True) \<Rightarrow> semantic_record_type_owners ts u c1)"

definition semantic_record_slot_owner :: "ast_slot \<Rightarrow> nat option \<Rightarrow> bool sem" where
  "semantic_record_slot_owner s u c = semantic_record_type_owner (slot_type s) u c"

primrec semantic_record_slot_owners :: "ast_slot list \<Rightarrow> nat option \<Rightarrow> bool sem" where
  "semantic_record_slot_owners [] u c = (c, True)"
| "semantic_record_slot_owners (s # ss) u c =
     (case semantic_record_slot_owner s u c of
        (c1, False) \<Rightarrow> (c1, False)
      | (c1, True) \<Rightarrow> semantic_record_slot_owners ss u c1)"

definition semantic_record_type_declaration_owners ::
    "ast_type_declaration option \<Rightarrow> nat option \<Rightarrow> bool sem" where
  "semantic_record_type_declaration_owners d u c =
     (case d of None \<Rightarrow> (c, True)
      | Some d \<Rightarrow>
          (case decl_body d of
             Decl_Alias t \<Rightarrow> semantic_record_type_owner t u c
           | Decl_Struct fs \<Rightarrow> semantic_record_slot_owners (map struct_field_slot fs) u c
           | Decl_Enum cs \<Rightarrow>
               semantic_record_slot_owners (concat (map constructor_payload_slots cs)) u c))"

definition semantic_record_function_signature_owners ::
    "ast_function option \<Rightarrow> nat option \<Rightarrow> bool sem" where
  "semantic_record_function_signature_owners f u c =
     (case f of None \<Rightarrow> (c, True)
      | Some f \<Rightarrow>
          (case semantic_record_slot_owners (map parameter_slot (function_parameters f)) u c of
             (c1, False) \<Rightarrow> (c1, False)
           | (c1, True) \<Rightarrow> semantic_record_slot_owner (function_output f) u c1))"


section \<open>Collection of declarations\<close>

definition semantic_make_function_type :: "ast_function \<Rightarrow> ast_type" where
  "semantic_make_function_type f =
     Type_Function (map (slot_type \<circ> parameter_slot) (function_parameters f))
       (slot_type (function_output f))"

text \<open>The two allocations behind it: the node, and the parameter array when there is one.\<close>

definition semantic_make_function_type_in :: "ast_function \<Rightarrow> ast_type option sem" where
  "semantic_make_function_type_in f c =
     (case semantic_allocates c of
        (False, c1) \<Rightarrow> (c1, None)
      | (True, c1) \<Rightarrow>
          if function_parameters f = [] then (c1, Some (semantic_make_function_type f))
          else (case semantic_allocates c1 of
                  (False, c2) \<Rightarrow> (c2, None)
                | (True, c2) \<Rightarrow> (c2, Some (semantic_make_function_type f))))"

definition semantic_unit_name_exists :: "semantic_context \<Rightarrow> nat \<Rightarrow> text_slice \<Rightarrow> bool" where
  "semantic_unit_name_exists c u name \<longleftrightarrow>
     (\<exists>e \<in> set (sc_types c). te_unit e = Some u \<and> identity_equals (te_name e) name)
     \<or> (\<exists>e \<in> set (sc_functions c). fe_unit e = Some u \<and> identity_equals (fe_name e) name)
     \<or> (\<exists>e \<in> set (sc_globals c). ge_unit e = Some u \<and> identity_equals (ge_name e) name)"

text \<open>A push that may fail; \<open>push\<close> adds the element to its vector.\<close>

definition semantic_push ::
    "(semantic_context \<Rightarrow> semantic_context) \<Rightarrow> source_span \<Rightarrow> bool sem" where
  "semantic_push push sp c =
     (case semantic_allocates c of
        (granted, c1) \<Rightarrow>
          if granted then (push c1, True)
          else (semantic_fail c1 E1100_Internal_Context_Error sp, False))"

definition type_entry_of :: "ast_module_item \<Rightarrow> ast_type_declaration \<Rightarrow> nat \<Rightarrow> semantic_type_entry" where
  "type_entry_of item d u =
     \<lparr>te_name = item_name item, te_declaration = Some d, te_template_declaration = Some d,
      te_type_arguments = [], te_is_generic_template = (decl_type_parameters d \<noteq> []),
      te_unit = Some u, te_public = item_public item, te_size = 0, te_alignment = 0,
      te_layout_state = 0\<rparr>"

definition function_entry_of ::
    "ast_module_item \<Rightarrow> ast_function \<Rightarrow> nat \<Rightarrow> nat \<Rightarrow> ast_type option \<Rightarrow> semantic_function_entry" where
  "function_entry_of item f u index callable =
     \<lparr>fe_name = item_name item, fe_function = Some f, fe_callable_type = callable,
      fe_template_function = Some f, fe_type_arguments = [],
      fe_is_generic_template = (function_type_parameters f \<noteq> []), fe_unit = Some u,
      fe_public = item_public item, fe_index = of_nat index,
      fe_reference_return_parameter = SIZE_MAX, fe_composite_view_return_parameter = SIZE_MAX\<rparr>"

definition global_entry_of :: "ast_module_item \<Rightarrow> ast_global \<Rightarrow> nat \<Rightarrow> semantic_global_entry" where
  "global_entry_of item g u =
     \<lparr>ge_name = item_name item, ge_declaration = Some g, ge_unit = Some u,
      ge_public = item_public item\<rparr>"

text \<open>The body of the loop over the items of a unit.\<close>

definition semantic_collect_item :: "nat \<Rightarrow> ast_module_item \<Rightarrow> bool sem" where
  "semantic_collect_item u item c =
     (case item_body item of
        Item_Type d \<Rightarrow>
          if semantic_unit_name_exists c u (item_name item)
          then (semantic_fail c E0205_Duplicate_Declaration (item_span item), False)
          else (case semantic_record_type_declaration_owners (Some d) (Some u) c of
                  (c1, False) \<Rightarrow>
                    (semantic_fail c1 E1100_Internal_Context_Error (item_span item), False)
                | (c1, True) \<Rightarrow>
                    semantic_push
                      (\<lambda>c. c\<lparr>sc_types := sc_types c @ [type_entry_of item d u]\<rparr>) (item_span item) c1)
      | Item_Function f \<Rightarrow>
          if semantic_unit_name_exists c u (item_name item)
          then (semantic_fail c E0200_Duplicate_Function (item_span item), False)
          else (case semantic_record_function_signature_owners (Some f) (Some u) c of
                  (c1, False) \<Rightarrow>
                    (semantic_fail c1 E1100_Internal_Context_Error (item_span item), False)
                | (c1, True) \<Rightarrow>
                    (case (if function_type_parameters f \<noteq> [] then (c1, Some None)
                           else (case semantic_make_function_type_in f c1 of
                                   (c2, t) \<Rightarrow> (c2, map_option Some t))) of
                       (c2, None) \<Rightarrow>
                         (semantic_fail c2 E1100_Internal_Context_Error (item_span item), False)
                     | (c2, Some callable) \<Rightarrow>
                         semantic_push
                           (\<lambda>c. c\<lparr>sc_functions := sc_functions c @
                              [function_entry_of item f u (length (sc_functions c)) callable]\<rparr>)
                           (item_span item) c2))
      | Item_Global g \<Rightarrow>
          if semantic_unit_name_exists c u (item_name item)
          then (semantic_fail c E0205_Duplicate_Declaration (item_span item), False)
          else (case semantic_record_type_owner (global_type g) (Some u) c of
                  (c1, False) \<Rightarrow>
                    (semantic_fail c1 E1100_Internal_Context_Error (item_span item), False)
                | (c1, True) \<Rightarrow>
                    semantic_push
                      (\<lambda>c. c\<lparr>sc_globals := sc_globals c @ [global_entry_of item g u]\<rparr>)
                      (item_span item) c1)
      | Item_Inline _ \<Rightarrow> (c, True)
      | Item_Alias _ \<Rightarrow> (c, True))"

primrec semantic_collect_items :: "nat \<Rightarrow> ast_module_item list \<Rightarrow> bool sem" where
  "semantic_collect_items u [] c = (c, True)"
| "semantic_collect_items u (i # is) c =
     (case semantic_collect_item u i c of
        (c1, False) \<Rightarrow> (c1, False)
      | (c1, True) \<Rightarrow> semantic_collect_items u is c1)"

definition semantic_collect_unit :: "nat \<Rightarrow> bool sem" where
  "semantic_collect_unit u c =
     (case semantic_collect_items u (unit_items c u) c of
        (c1, False) \<Rightarrow> (c1, False)
      | (c1, True) \<Rightarrow>
          semantic_push
            (\<lambda>d. d\<lparr>sc_unit_name_ranges := sc_unit_name_ranges d @
               [\<lparr>range_unit = Some u,
                 range_type_begin = length (sc_types c), range_type_end = length (sc_types c1),
                 range_function_begin = length (sc_functions c),
                 range_function_end = length (sc_functions c1),
                 range_global_begin = length (sc_globals c),
                 range_global_end = length (sc_globals c1)\<rparr>]\<rparr>) zero_span c1)"

primrec semantic_collect_units :: "nat list \<Rightarrow> bool sem" where
  "semantic_collect_units [] c = (c, True)"
| "semantic_collect_units (u # us) c =
     (case semantic_collect_unit u c of
        (c1, False) \<Rightarrow> (c1, False)
      | (c1, True) \<Rightarrow> semantic_collect_units us c1)"


text \<open>The four spellings of the entry point, as bytes: \<open>main\<close>, its Arabic name and their escaped forms.\<close>

definition semantic_is_main_name :: "text_slice \<Rightarrow> bool" where
  "semantic_is_main_name name \<longleftrightarrow>
     text_equals_cstr name
       [0x6D, 0x61, 0x69, 0x6E]
   \<or> text_equals_cstr name
       [0xD8, 0xA7, 0xD9, 0x84, 0xD9, 0x82, 0xD9, 0x84, 0xD8, 0xB9, 0xD8, 0xA9]
   \<or> text_equals_cstr name
       [0x69, 0x64, 0x5F, 0x36, 0x44, 0x36, 0x31, 0x36, 0x39, 0x36, 0x45]
   \<or> text_equals_cstr name
       [0x69, 0x64, 0x5F, 0x44, 0x38, 0x41, 0x37, 0x44, 0x39, 0x38, 0x34, 0x44, 0x39, 0x38,
        0x32, 0x44, 0x39, 0x38, 0x34, 0x44, 0x38, 0x42, 0x39, 0x44, 0x39, 0x38, 0x37]"

definition semantic_collect_globals :: "bool sem" where
  "semantic_collect_globals c =
     (case semantic_collect_units [0..<length (sc_units c)] c of
        (c1, False) \<Rightarrow> (c1, False)
      | (c1, True) \<Rightarrow>
          (let c2 = (if length (sc_type_owners c1) > 1
                     then c1\<lparr>sc_type_owners := sort_key owner_type (sc_type_owners c1)\<rparr> else c1);
               main = List.find (\<lambda>i. let e = sc_functions c2 ! i
                        in \<not> fe_is_generic_template e \<and> fe_unit e = program_unit_at c2 0
                           \<and> semantic_is_main_name (fe_name e)) [0..<length (sc_functions c2)]
           in case main of
                None \<Rightarrow> (semantic_fail c2 E0203_Main_Function_Not_Found zero_span, False)
              | Some i \<Rightarrow> (c2\<lparr>sc_main := Some i\<rparr>, True)))"

section \<open>What collection establishes\<close>

text \<open>The entries of a vector between two positions.\<close>

definition entries_between :: "nat \<Rightarrow> nat \<Rightarrow> 'a list \<Rightarrow> 'a list" where
  "entries_between b e xs = take (e - b) (drop b xs)"

text \<open>How many declarations of a unit have the identity of a name.\<close>

definition unit_matches :: "semantic_context \<Rightarrow> nat \<Rightarrow> text_slice \<Rightarrow> nat" where
  "unit_matches c u x =
     length (filter (\<lambda>e. te_unit e = Some u \<and> identity_equals (te_name e) x) (sc_types c))
     + length (filter (\<lambda>e. fe_unit e = Some u \<and> identity_equals (fe_name e) x) (sc_functions c))
     + length (filter (\<lambda>e. ge_unit e = Some u \<and> identity_equals (ge_name e) x) (sc_globals c))"

text \<open>The range of a unit selects exactly the entries declared in it.\<close>

definition range_selects :: "semantic_context \<Rightarrow> nat \<Rightarrow> semantic_unit_name_range \<Rightarrow> bool" where
  "range_selects c u r \<longleftrightarrow>
     range_unit r = Some u
     \<and> range_type_end r \<le> length (sc_types c)
     \<and> range_function_end r \<le> length (sc_functions c)
     \<and> range_global_end r \<le> length (sc_globals c)
     \<and> entries_between (range_type_begin r) (range_type_end r) (sc_types c)
         = filter (\<lambda>e. te_unit e = Some u) (sc_types c)
     \<and> entries_between (range_function_begin r) (range_function_end r) (sc_functions c)
         = filter (\<lambda>e. fe_unit e = Some u) (sc_functions c)
     \<and> entries_between (range_global_begin r) (range_global_end r) (sc_globals c)
         = filter (\<lambda>e. ge_unit e = Some u) (sc_globals c)"

text \<open>The units below \<open>n\<close> are collected and nothing of the others is.\<close>

definition collected :: "semantic_context \<Rightarrow> nat \<Rightarrow> bool" where
  "collected c n \<longleftrightarrow>
     length (sc_unit_name_ranges c) = n
     \<and> (\<forall>u < n. range_selects c u (sc_unit_name_ranges c ! u))
     \<and> (\<forall>e \<in> set (sc_types c). \<exists>u < n. te_unit e = Some u)
     \<and> (\<forall>e \<in> set (sc_functions c). \<exists>u < n. fe_unit e = Some u)
     \<and> (\<forall>e \<in> set (sc_globals c). \<exists>u < n. ge_unit e = Some u)
     \<and> (\<forall>u x. unit_matches c u x \<le> 1)
     \<and> (\<forall>i < length (sc_functions c). fe_index (sc_functions c ! i) = of_nat i)"

text \<open>What collecting items of a unit does: it appends entries of that unit, and nothing else moves.\<close>

definition collects :: "nat \<Rightarrow> semantic_context \<Rightarrow> semantic_context \<Rightarrow> bool" where
  "collects u c c1 \<longleftrightarrow>
     (\<exists>ts fs gs. sc_types c1 = sc_types c @ ts \<and> (\<forall>e \<in> set ts. te_unit e = Some u)
        \<and> sc_functions c1 = sc_functions c @ fs \<and> (\<forall>e \<in> set fs. fe_unit e = Some u)
        \<and> sc_globals c1 = sc_globals c @ gs \<and> (\<forall>e \<in> set gs. ge_unit e = Some u))
     \<and> sc_units c1 = sc_units c \<and> sc_unit_name_ranges c1 = sc_unit_name_ranges c
     \<and> sc_generic_types c1 = sc_generic_types c \<and> sc_main c1 = sc_main c"

lemma collects_refl: "collects u c c"
  by (simp add: collects_def)

lemma collects_trans: "collects u c c1 \<Longrightarrow> collects u c1 c2 \<Longrightarrow> collects u c c2"
  unfolding collects_def by (elim conjE exE) (simp, blast)

text \<open>The steps that only touch the owner facts, the diagnostic and the allocator.\<close>

definition entries_of :: "semantic_context \<Rightarrow> _" where
  "entries_of c = (sc_types c, sc_functions c, sc_globals c, sc_units c, sc_unit_name_ranges c,
     sc_generic_types c, sc_main c)"

lemma entries_of_collects: "entries_of c1 = entries_of c \<Longrightarrow> collects u c c1"
  by (simp add: entries_of_def collects_def)

lemma semantic_allocates_same: "semantic_allocates c = (g, c1) \<Longrightarrow> entries_of c1 = entries_of c"
  by (auto simp: semantic_allocates_def entries_of_def)

lemma semantic_fail_same [simp]: "entries_of (semantic_fail c i sp) = entries_of c"
  by (simp add: semantic_fail_def semantic_begin_diagnostic_def entries_of_def)

lemma owners_same [simp]: "entries_of (c\<lparr>sc_type_owners := os\<rparr>) = entries_of c"
  by (simp add: entries_of_def)

lemma record_type_owner_same:
  "semantic_record_type_owner t u c = (c1, r) \<Longrightarrow> entries_of c1 = entries_of c"
  "semantic_record_type_owners ts u c = (c1, r) \<Longrightarrow> entries_of c1 = entries_of c"
proof (induction t u c and ts u c arbitrary: c1 r and c1 r
    rule: semantic_record_type_owner_semantic_record_type_owners.induct)
  case (1 k name args u c)
  obtain g c' where g: "semantic_allocates c = (g, c')"
    by fastforce
  with 1 semantic_allocates_same [OF g] show ?case
    by (auto split: if_splits)
next
  case (8 ok er u c)
  then show ?case
    by (auto split: prod.splits bool.splits)
next
  case (9 ps out u c)
  then show ?case
    by (auto split: prod.splits bool.splits)
next
  case (12 t ts u c)
  then show ?case
    by (auto split: prod.splits bool.splits)
qed simp_all

lemma record_slot_owners_same:
  "semantic_record_slot_owners ss u c = (c1, r) \<Longrightarrow> entries_of c1 = entries_of c"
proof (induction ss arbitrary: c)
  case (Cons s ss)
  then show ?case
    by (auto simp: semantic_record_slot_owner_def split: prod.splits bool.splits
        dest!: record_type_owner_same(1))
qed simp

lemma record_declaration_same:
  "semantic_record_type_declaration_owners d u c = (c1, r) \<Longrightarrow> entries_of c1 = entries_of c"
  by (auto simp: semantic_record_type_declaration_owners_def split: option.splits ast_type_decl_body.splits
      dest!: record_type_owner_same(1) record_slot_owners_same)

lemma record_function_same:
  "semantic_record_function_signature_owners f u c = (c1, r) \<Longrightarrow> entries_of c1 = entries_of c"
  by (auto simp: semantic_record_function_signature_owners_def semantic_record_slot_owner_def
      split: option.splits prod.splits bool.splits
      dest!: record_type_owner_same(1) record_slot_owners_same)

lemma make_function_type_same:
  "semantic_make_function_type_in f c = (c1, r) \<Longrightarrow> entries_of c1 = entries_of c"
  by (auto simp: semantic_make_function_type_in_def split: prod.splits bool.splits if_splits
      dest!: semantic_allocates_same)

lemma semantic_push_done:
  assumes "semantic_push push sp c = (c1, True)"
  shows "\<exists>c'. entries_of c' = entries_of c \<and> c1 = push c'"
  using assms by (auto simp: semantic_push_def split: prod.splits if_splits dest!: semantic_allocates_same)

lemma unit_matches_cong: "entries_of c1 = entries_of c \<Longrightarrow> unit_matches c1 u x = unit_matches c u x"
  by (simp add: entries_of_def unit_matches_def)

lemma name_exists_cong:
  "entries_of c1 = entries_of c \<Longrightarrow> semantic_unit_name_exists c1 u x = semantic_unit_name_exists c u x"
  by (simp add: entries_of_def semantic_unit_name_exists_def)

lemma fresh_name_matches:
  assumes "\<not> semantic_unit_name_exists c u name" "identity_equals name x"
  shows "unit_matches c u x = 0"
  using assms identity_equals_trans [OF _ identity_equals_sym [OF assms(2)]]
  by (auto simp: semantic_unit_name_exists_def unit_matches_def filter_empty_conv)

text \<open>What one item adds when it is accepted.\<close>

datatype added_entry = Added_Type semantic_type_entry | Added_Function semantic_function_entry
  | Added_Global semantic_global_entry

primrec add_entry :: "added_entry \<Rightarrow> semantic_context \<Rightarrow> semantic_context" where
  "add_entry (Added_Type e) c = c\<lparr>sc_types := sc_types c @ [e]\<rparr>"
| "add_entry (Added_Function e) c = c\<lparr>sc_functions := sc_functions c @ [e]\<rparr>"
| "add_entry (Added_Global e) c = c\<lparr>sc_globals := sc_globals c @ [e]\<rparr>"

primrec added_name :: "added_entry \<Rightarrow> text_slice" where
  "added_name (Added_Type e) = te_name e"
| "added_name (Added_Function e) = fe_name e"
| "added_name (Added_Global e) = ge_name e"

primrec added_unit :: "added_entry \<Rightarrow> nat option" where
  "added_unit (Added_Type e) = te_unit e"
| "added_unit (Added_Function e) = fe_unit e"
| "added_unit (Added_Global e) = ge_unit e"

lemma add_entry_collects: "added_unit e = Some u \<Longrightarrow> collects u c (add_entry e c)"
  by (cases e) (auto simp: collects_def)

lemma add_entry_matches:
  "unit_matches (add_entry e c) v x =
     unit_matches c v x + (if added_unit e = Some v \<and> identity_equals (added_name e) x then 1 else 0)"
  by (cases e) (auto simp: unit_matches_def)

definition function_indexes :: "semantic_context \<Rightarrow> bool" where
  "function_indexes c \<longleftrightarrow> (\<forall>i < length (sc_functions c). fe_index (sc_functions c ! i) = of_nat i)"

definition entry_index_ok :: "added_entry \<Rightarrow> semantic_context \<Rightarrow> bool" where
  "entry_index_ok e c \<longleftrightarrow>
     (case e of Added_Function f \<Rightarrow> fe_index f = of_nat (length (sc_functions c)) | _ \<Rightarrow> True)"

lemma add_entry_indexes:
  "function_indexes c \<Longrightarrow> entry_index_ok e c \<Longrightarrow> function_indexes (add_entry e c)"
  by (cases e) (auto simp: function_indexes_def entry_index_ok_def nth_append less_Suc_eq)

lemma collect_item_cases:
  assumes "semantic_collect_item u item c = (c1, True)"
  obtains (nothing) "c1 = c"
  | (added) c' e where "entries_of c' = entries_of c" "c1 = add_entry e c'"
      "added_unit e = Some u" "\<not> semantic_unit_name_exists c u (added_name e)" "entry_index_ok e c'"
proof (cases "item_body item")
  case (Item_Type d)
  with assms obtain c2 where d: "\<not> semantic_unit_name_exists c u (item_name item)"
    "semantic_record_type_declaration_owners (Some d) (Some u) c = (c2, True)"
    "semantic_push (\<lambda>c. c\<lparr>sc_types := sc_types c @ [type_entry_of item d u]\<rparr>) (item_span item) c2 = (c1, True)"
    by (auto simp: semantic_collect_item_def split: if_splits prod.splits bool.splits)
  with semantic_push_done [OF d(3)] record_declaration_same [OF d(2)] show ?thesis
    by (auto simp: type_entry_of_def entry_index_ok_def intro: added [of _ "Added_Type (type_entry_of item d u)"])
next
  case (Item_Function f)
  with assms obtain c2 c3 callable where d: "\<not> semantic_unit_name_exists c u (item_name item)"
    "semantic_record_function_signature_owners (Some f) (Some u) c = (c2, True)"
    "entries_of c3 = entries_of c2"
    "semantic_push (\<lambda>c. c\<lparr>sc_functions := sc_functions c @
       [function_entry_of item f u (length (sc_functions c)) callable]\<rparr>) (item_span item) c3 = (c1, True)"
    by (auto simp: semantic_collect_item_def split: if_splits prod.splits bool.splits option.splits
        dest!: make_function_type_same)
  with semantic_push_done [OF d(4)] record_function_same [OF d(2)] obtain c' where
    "entries_of c' = entries_of c" "c1 = add_entry (Added_Function
       (function_entry_of item f u (length (sc_functions c')) callable)) c'"
    by auto
  with d(1) show ?thesis
    by (intro added [of c' "Added_Function
        (function_entry_of item f u (length (sc_functions c')) callable)"])
      (simp_all add: function_entry_of_def entry_index_ok_def)
next
  case (Item_Global g)
  with assms obtain c2 where d: "\<not> semantic_unit_name_exists c u (item_name item)"
    "semantic_record_type_owner (global_type g) (Some u) c = (c2, True)"
    "semantic_push (\<lambda>c. c\<lparr>sc_globals := sc_globals c @ [global_entry_of item g u]\<rparr>) (item_span item) c2 = (c1, True)"
    by (auto simp: semantic_collect_item_def split: if_splits prod.splits bool.splits)
  with semantic_push_done [OF d(3)] record_type_owner_same(1) [OF d(2)] show ?thesis
    by (auto simp: global_entry_of_def entry_index_ok_def intro: added [of _ "Added_Global (global_entry_of item g u)"])
qed (use assms in \<open>auto simp: semantic_collect_item_def intro: nothing\<close>)

definition names_unique :: "semantic_context \<Rightarrow> bool" where
  "names_unique c \<longleftrightarrow> (\<forall>u x. unit_matches c u x \<le> 1)"

lemma collect_item_step:
  assumes "semantic_collect_item u item c = (c1, True)"
  shows "collects u c c1 \<and> (names_unique c \<longrightarrow> names_unique c1)
    \<and> (function_indexes c \<longrightarrow> function_indexes c1)"
  using assms
proof (cases rule: collect_item_cases)
  case nothing
  then show ?thesis
    by (simp add: collects_refl)
next
  case (added c' e)
  have "names_unique c1" if "names_unique c"
    unfolding names_unique_def
  proof (intro allI)
    fix v x
    show "unit_matches c1 v x \<le> 1"
      using that added(2,3) fresh_name_matches [OF added(4)] unit_matches_cong [OF added(1)]
      by (auto simp: names_unique_def add_entry_matches)
  qed
  moreover have "function_indexes c1" if "function_indexes c"
    using that added add_entry_indexes [of c' e] by (auto simp: function_indexes_def entries_of_def)
  ultimately show ?thesis
    using added collects_trans [OF entries_of_collects [OF added(1)] add_entry_collects [OF added(3)]]
    by auto
qed

lemma collect_items_step:
  "semantic_collect_items u is c = (c1, True) \<Longrightarrow>
     collects u c c1 \<and> (names_unique c \<longrightarrow> names_unique c1) \<and> (function_indexes c \<longrightarrow> function_indexes c1)"
proof (induction "is" arbitrary: c)
  case (Cons i "is")
  then obtain c2 where "semantic_collect_item u i c = (c2, True)" "semantic_collect_items u is c2 = (c1, True)"
    by (auto split: prod.splits bool.splits)
  with collect_item_step [OF this(1)] Cons.IH [OF this(2)] show ?case
    by (blast intro: collects_trans)
qed (simp add: collects_refl)

lemma entries_between_append:
  "e \<le> length xs \<Longrightarrow> entries_between b e (xs @ ys) = entries_between b e xs"
  by (auto simp: entries_between_def)

lemma entries_between_tail: "entries_between (length xs) (length xs + length ys) (xs @ ys) = ys"
  by (simp add: entries_between_def)

lemma filter_appended:
  fixes u :: nat
  assumes "\<forall>e \<in> set ys. k e = Some u"
  shows "v \<noteq> u \<Longrightarrow> filter (\<lambda>e. k e = Some v) (xs @ ys) = filter (\<lambda>e. k e = Some v) xs"
    and "\<forall>e \<in> set xs. \<exists>w < u. k e = Some w \<Longrightarrow> filter (\<lambda>e. k e = Some u) (xs @ ys) = ys"
proof -
  show "filter (\<lambda>e. k e = Some v) (xs @ ys) = filter (\<lambda>e. k e = Some v) xs" if "v \<noteq> u"
    using assms that by (auto simp: filter_empty_conv)
  show "filter (\<lambda>e. k e = Some u) (xs @ ys) = ys" if "\<forall>e \<in> set xs. \<exists>w < u. k e = Some w"
  proof -
    have "filter (\<lambda>e. k e = Some u) xs = []"
      using that by (fastforce simp: filter_empty_conv)
    then show ?thesis
      using assms by simp
  qed
qed

lemma range_selects_appended:
  assumes "collects u c c1" "range_selects c v r" "v \<noteq> u"
  shows "range_selects c1 v r"
  using assms by (auto simp: collects_def range_selects_def entries_between_append filter_appended(1))

lemma range_selects_new:
  assumes "collects u c c1" "collected c u"
  shows "range_selects c1 u
    \<lparr>range_unit = Some u,
     range_type_begin = length (sc_types c), range_type_end = length (sc_types c1),
     range_function_begin = length (sc_functions c), range_function_end = length (sc_functions c1),
     range_global_begin = length (sc_globals c), range_global_end = length (sc_globals c1)\<rparr>"
  using assms unfolding collects_def collected_def range_selects_def
  by (elim conjE exE) (simp add: entries_between_tail filter_appended(2) del: filter_append)

lemma collected_alt:
  "collected c n \<longleftrightarrow>
     length (sc_unit_name_ranges c) = n
     \<and> (\<forall>u < n. range_selects c u (sc_unit_name_ranges c ! u))
     \<and> (\<forall>e \<in> set (sc_types c). \<exists>u < n. te_unit e = Some u)
     \<and> (\<forall>e \<in> set (sc_functions c). \<exists>u < n. fe_unit e = Some u)
     \<and> (\<forall>e \<in> set (sc_globals c). \<exists>u < n. ge_unit e = Some u)
     \<and> names_unique c \<and> function_indexes c"
  by (simp add: collected_def names_unique_def function_indexes_def)

lemma collect_unit_step:
  assumes "collected c u" "semantic_collect_unit u c = (c1, True)"
  shows "collected c1 (Suc u) \<and> sc_units c1 = sc_units c"
proof -
  obtain c2 where items: "semantic_collect_items u (unit_items c u) c = (c2, True)"
    and push: "semantic_push
            (\<lambda>d. d\<lparr>sc_unit_name_ranges := sc_unit_name_ranges d @
               [\<lparr>range_unit = Some u,
                 range_type_begin = length (sc_types c), range_type_end = length (sc_types c2),
                 range_function_begin = length (sc_functions c),
                 range_function_end = length (sc_functions c2),
                 range_global_begin = length (sc_globals c),
                 range_global_end = length (sc_globals c2)\<rparr>]\<rparr>) zero_span c2 = (c1, True)"
    using assms(2) by (auto simp: semantic_collect_unit_def split: prod.splits bool.splits)
  define r where "r =
               \<lparr>range_unit = Some u,
                 range_type_begin = length (sc_types c), range_type_end = length (sc_types c2),
                 range_function_begin = length (sc_functions c),
                 range_function_end = length (sc_functions c2),
                 range_global_begin = length (sc_globals c),
                 range_global_end = length (sc_globals c2)\<rparr>"
  obtain c3 where c3: "entries_of c3 = entries_of c2"
    and c1: "c1 = c3\<lparr>sc_unit_name_ranges := sc_unit_name_ranges c3 @ [r]\<rparr>"
    using semantic_push_done [OF push] unfolding r_def by auto
  have steps: "collects u c c2" "names_unique c2" "function_indexes c2"
    using collect_items_step [OF items] assms(1) by (auto simp: collected_alt)
  have new: "range_selects c2 u r"
    unfolding r_def by (rule range_selects_new [OF steps(1) assms(1)])
  have old: "range_selects c2 v (sc_unit_name_ranges c ! v)" if "v < u" for v
    using range_selects_appended [OF steps(1)] assms(1) that by (auto simp: collected_def)
  have units: "\<forall>e \<in> set (sc_types c2). \<exists>v < Suc u. te_unit e = Some v"
    "\<forall>e \<in> set (sc_functions c2). \<exists>v < Suc u. fe_unit e = Some v"
    "\<forall>e \<in> set (sc_globals c2). \<exists>v < Suc u. ge_unit e = Some v"
    "sc_units c2 = sc_units c" "sc_unit_name_ranges c2 = sc_unit_name_ranges c"
    using steps(1) assms(1) by (fastforce simp: collects_def collected_def less_Suc_eq)+
  have len: "length (sc_unit_name_ranges c) = u"
    using assms(1) by (simp add: collected_def)
  have same: "sc_types c1 = sc_types c2" "sc_functions c1 = sc_functions c2" "sc_globals c1 = sc_globals c2"
    "sc_units c1 = sc_units c" "sc_unit_name_ranges c1 = sc_unit_name_ranges c @ [r]"
    using c3 units(4,5) by (simp_all add: c1 entries_of_def)
  show ?thesis
    using new old units(1-3) steps(2,3) len
    by (auto simp: collected_alt same less_Suc_eq nth_append range_selects_def names_unique_def
        function_indexes_def unit_matches_def)
qed

lemma collect_units_step:
  "collected c m \<Longrightarrow> m \<le> n \<Longrightarrow> semantic_collect_units [m..<n] c = (c1, True) \<Longrightarrow>
     collected c1 n \<and> sc_units c1 = sc_units c"
proof (induction "n - m" arbitrary: m c)
  case 0
  then show ?case
    by simp
next
  case (Suc d)
  then have "[m..<n] = m # [Suc m..<n]"
    by (simp add: upt_conv_Cons)
  with Suc.prems obtain c2 where "semantic_collect_unit m c = (c2, True)"
    "semantic_collect_units [Suc m..<n] c2 = (c1, True)"
    by (auto split: prod.splits bool.splits)
  with collect_unit_step [OF Suc.prems(1) this(1)] Suc.hyps(1) [of "Suc m" c2] Suc.hyps(2) Suc.prems(2)
  show ?case
    by auto
qed

lemma collected_init: "collected (semantic_context_init heap fresh z units) 0"
  by (simp add: collected_def semantic_context_init_def unit_matches_def)

section \<open>Owner lookup\<close>

text \<open>
  The binary search over the facts, which collection leaves sorted by the address of the type, and
  the scan behind it for the facts that generic instances append later.
\<close>

function owner_lower_bound :: "semantic_type_owner_fact list \<Rightarrow> node \<Rightarrow> nat \<Rightarrow> nat \<Rightarrow> nat" where
  "owner_lower_bound facts key low high =
     (if low < high then
        (let middle = low + (high - low) div 2
         in if owner_type (facts ! middle) < key then owner_lower_bound facts key (middle + 1) high
            else owner_lower_bound facts key low middle)
      else low)"
  by pat_completeness auto

termination owner_lower_bound
  by (relation "measure (\<lambda>(_, _, low, high). high - low)") auto

declare owner_lower_bound.simps [simp del]

definition semantic_type_owner_unit :: "semantic_context \<Rightarrow> ast_type \<Rightarrow> nat option" where
  "semantic_type_owner_unit c t =
     (case t of
        Type_Named key _ _ \<Rightarrow>
          (let facts = sc_type_owners c;
               low = owner_lower_bound facts key 0 (length facts)
           in if low < length facts \<and> owner_type (facts ! low) = key then owner_unit (facts ! low)
              else (case List.find (\<lambda>f. owner_type f = key) facts of
                      None \<Rightarrow> None
                    | Some f \<Rightarrow> owner_unit f))
      | _ \<Rightarrow> None)"

text \<open>The owner facts as a map from nodes.\<close>

definition owner_map :: "semantic_context \<Rightarrow> node \<rightharpoonup> nat option" where
  "owner_map c = map_of (map (\<lambda>f. (owner_type f, owner_unit f)) (sc_type_owners c))"

lemma find_owner_map:
  "(case List.find (\<lambda>f. owner_type f = key) facts of None \<Rightarrow> None | Some f \<Rightarrow> owner_unit f)
     = Option.bind (map_of (map (\<lambda>f. (owner_type f, owner_unit f)) facts) key) id"
  by (induction facts) auto

lemma owner_unit_map:
  assumes "distinct (map owner_type (sc_type_owners c))"
  shows "semantic_type_owner_unit c (Type_Named key name args) = Option.bind (owner_map c key) id"
proof -
  define low where "low = owner_lower_bound (sc_type_owners c) key 0 (length (sc_type_owners c))"
  have "owner_map c (owner_type (sc_type_owners c ! low)) = Some (owner_unit (sc_type_owners c ! low))"
    if "low < length (sc_type_owners c)"
    unfolding owner_map_def using that assms by (intro map_of_is_SomeI) (auto simp: comp_def)
  then show ?thesis
    using find_owner_map [of key "sc_type_owners c"]
    by (cases "low < length (sc_type_owners c) \<and> owner_type (sc_type_owners c ! low) = key")
      (auto simp: semantic_type_owner_unit_def owner_map_def Let_def simp flip: low_def)
qed

text \<open>The nodes of the named types inside a type, in the order they are recorded.\<close>

fun type_nodes :: "ast_type \<Rightarrow> node list" and type_list_nodes :: "ast_type list \<Rightarrow> node list" where
  "type_nodes (Type_Named k _ args) = k # type_list_nodes args"
| "type_nodes (Type_Pointer t) = type_nodes t"
| "type_nodes (Type_Reference t) = type_nodes t"
| "type_nodes (Type_Vector t) = type_nodes t"
| "type_nodes (Type_Box t) = type_nodes t"
| "type_nodes (Type_Option t) = type_nodes t"
| "type_nodes (Type_Mutable t) = type_nodes t"
| "type_nodes (Type_Result ok er) = type_nodes ok @ type_nodes er"
| "type_nodes (Type_Function ps out) = type_list_nodes ps @ type_nodes out"
| "type_nodes _ = []"
| "type_list_nodes [] = []"
| "type_list_nodes (t # ts) = type_nodes t @ type_list_nodes ts"

abbreviation owned_by :: "nat option \<Rightarrow> node \<Rightarrow> semantic_type_owner_fact" where
  "owned_by u k \<equiv> \<lparr>owner_type = k, owner_unit = u\<rparr>"

lemma record_type_owner_facts:
  "semantic_record_type_owner t u c = (c1, True) \<Longrightarrow>
     sc_type_owners c1 = sc_type_owners c @ map (owned_by u) (type_nodes t)"
  "semantic_record_type_owners ts u c = (c1, True) \<Longrightarrow>
     sc_type_owners c1 = sc_type_owners c @ map (owned_by u) (type_list_nodes ts)"
proof (induction t u c and ts u c arbitrary: c1 and c1
    rule: semantic_record_type_owner_semantic_record_type_owners.induct)
  case (1 k name args u c)
  obtain g c' where g: "semantic_allocates c = (g, c')"
    by fastforce
  then have "sc_type_owners c' = sc_type_owners c"
    by (auto simp: semantic_allocates_def)
  moreover from 1(2) g have "g" "semantic_record_type_owners args u
      (c'\<lparr>sc_type_owners := sc_type_owners c' @ [owned_by u k]\<rparr>) = (c1, True)"
    by (simp_all split: if_splits)
  ultimately show ?case
    using 1(1) [OF g [symmetric]] by simp
next
  case (8 ok er u c)
  from 8(3) obtain c2 where "semantic_record_type_owner ok u c = (c2, True)"
    "semantic_record_type_owner er u c2 = (c1, True)"
    by (cases "semantic_record_type_owner ok u c") (auto split: bool.splits)
  with 8(1) [OF this(1)] 8(2) [OF this(1) [symmetric] refl this(2)] show ?case
    by simp
next
  case (9 ps out u c)
  from 9(3) obtain c2 where "semantic_record_type_owners ps u c = (c2, True)"
    "semantic_record_type_owner out u c2 = (c1, True)"
    by (cases "semantic_record_type_owners ps u c") (auto split: bool.splits)
  with 9(1) [OF this(1)] 9(2) [OF this(1) [symmetric] refl this(2)] show ?case
    by simp
next
  case (12 t ts u c)
  from 12(3) obtain c2 where "semantic_record_type_owner t u c = (c2, True)"
    "semantic_record_type_owners ts u c2 = (c1, True)"
    by (cases "semantic_record_type_owner t u c") (auto split: bool.splits)
  with 12(1) [OF this(1)] 12(2) [OF this(1) [symmetric] refl this(2)] show ?case
    by simp
qed simp_all

section \<open>Properties\<close>

lemma collect_globals_cases:
  assumes "semantic_collect_globals c = (c2, True)"
  obtains c1 i where "semantic_collect_units [0..<length (sc_units c)] c = (c1, True)"
    "entries_of (c2\<lparr>sc_main := sc_main c1\<rparr>) = entries_of c1" "sorted (map owner_type (sc_type_owners c2))"
    "sc_main c2 = Some i" "i < length (sc_functions c2)"
    "\<not> fe_is_generic_template (sc_functions c2 ! i)" "fe_unit (sc_functions c2 ! i) = program_unit_at c2 0"
    "semantic_is_main_name (fe_name (sc_functions c2 ! i))"
proof -
  obtain c1 where c1: "semantic_collect_units [0..<length (sc_units c)] c = (c1, True)"
    using assms by (auto simp: semantic_collect_globals_def split: prod.splits bool.splits)
  define c' where "c' = (if length (sc_type_owners c1) > 1
                     then c1\<lparr>sc_type_owners := sort_key owner_type (sc_type_owners c1)\<rparr> else c1)"
  have c'_frame: "entries_of c' = entries_of c1" "sc_main c' = sc_main c1"
    by (simp_all add: c'_def entries_of_def)
  have sorted: "sorted (map owner_type (sc_type_owners c'))"
    using sorted_sort_key [of owner_type "sc_type_owners c1"]
    by (cases "sc_type_owners c1" rule: remdups_adj.cases) (simp_all add: c'_def del: sort_key_simps)
  let ?is_main = "\<lambda>i. let e = sc_functions c' ! i
                        in \<not> fe_is_generic_template e \<and> fe_unit e = program_unit_at c' 0
                           \<and> semantic_is_main_name (fe_name e)"
  obtain i where i: "List.find ?is_main [0..<length (sc_functions c')] = Some i"
      and c2: "c2 = c'\<lparr>sc_main := Some i\<rparr>"
    using assms c1 by (auto simp: semantic_collect_globals_def Let_def c'_def split: option.splits)
  from i have "i < length (sc_functions c')" "?is_main i"
    by (auto simp: find_Some_iff)
  with that [OF c1, of i] c'_frame sorted show ?thesis
    by (simp add: c2 program_unit_at_def Let_def entries_of_def)
qed

text \<open>
  C25: When collection succeeds, the range recorded for each unit selects exactly the declarations
  of that unit, in order; no unit declares a name twice; each function's index is its position;
  the entry point is a function of the first unit with one of the main spellings and no type
  parameter; and the owner facts are sorted as the binary search needs them.
\<close>

theorem collect_globals_well_formed:
  assumes "semantic_collect_globals (semantic_context_init heap fresh z units) = (c, True)"
  shows "length (sc_unit_name_ranges c) = length units
    \<and> (\<forall>u < length units. range_selects c u (sc_unit_name_ranges c ! u))
    \<and> (\<forall>u x. unit_matches c u x \<le> 1)
    \<and> (\<forall>i < length (sc_functions c). fe_index (sc_functions c ! i) = of_nat i)
    \<and> (\<exists>i < length (sc_functions c). sc_main c = Some i \<and> fe_unit (sc_functions c ! i) = Some 0
         \<and> \<not> fe_is_generic_template (sc_functions c ! i)
         \<and> semantic_is_main_name (fe_name (sc_functions c ! i)))
    \<and> sorted (map owner_type (sc_type_owners c))"
proof -
  let ?c0 = "semantic_context_init heap fresh z units"
  obtain c1 i where c: "semantic_collect_units [0..<length (sc_units ?c0)] ?c0 = (c1, True)"
    "entries_of (c\<lparr>sc_main := sc_main c1\<rparr>) = entries_of c1" "sorted (map owner_type (sc_type_owners c))"
    "sc_main c = Some i" "i < length (sc_functions c)"
    "\<not> fe_is_generic_template (sc_functions c ! i)" "fe_unit (sc_functions c ! i) = program_unit_at c 0"
    "semantic_is_main_name (fe_name (sc_functions c ! i))"
    using assms by (rule collect_globals_cases)
  have units: "sc_units ?c0 = units"
    by (simp add: semantic_context_init_def)
  have "collected c1 (length units)" "sc_units c1 = units"
    using collect_units_step [OF collected_init _ c(1)] units by auto
  moreover have "sc_types c = sc_types c1" "sc_functions c = sc_functions c1" "sc_globals c = sc_globals c1"
    "sc_units c = sc_units c1" "sc_unit_name_ranges c = sc_unit_name_ranges c1"
    using c(2) by (simp_all add: entries_of_def)
  ultimately have "collected c (length units)" "sc_units c = units"
    by (simp_all add: collected_def range_selects_def unit_matches_def)
  moreover from c(5) have "sc_functions c ! i \<in> set (sc_functions c)"
    by simp
  moreover from calculation obtain u where "u < length units" "fe_unit (sc_functions c ! i) = Some u"
    unfolding collected_def by blast
  with c(7) have "fe_unit (sc_functions c ! i) = Some 0"
    by (simp add: program_unit_at_def split: if_splits)
  ultimately show ?thesis
    using c(3-6,8) unfolding collected_def by (intro conjI) blast+
qed

theorem collect_globals_well_formed_witness:
  "\<exists>c. semantic_collect_globals
      (semantic_context_init (\<lambda>_. True) 9 (diagnostic_begin E1100_Internal_Context_Error zero_span)
        [\<lparr>unit_index = 0, unit_path = None,
          unit_module = \<lparr>module_items =
            [\<lparr>item_span = zero_span, item_name = [0x6D, 0x61, 0x69, 0x6E], item_public = True,
              item_body = Item_Function
                \<lparr>function_node = 1, function_span = zero_span,
                 function_name = [0x6D, 0x61, 0x69, 0x6E], function_public = True,
                 function_external = False, function_type_parameters = [],
                 function_parameters = [\<lparr>parameter_name = [0x78],
                    parameter_slot = \<lparr>slot_span = zero_span, slot_type = Type_Named 2 [0x54] []\<rparr>\<rparr>],
                 function_output = \<lparr>slot_span = zero_span, slot_type = Type_Integer\<rparr>,
                 function_body = None\<rparr>\<rparr>],
            module_imports = []\<rparr>,
          unit_imported_indexes = []\<rparr>]) = (c, True)
     \<and> sc_main c = Some 0 \<and> range_selects c 0 (sc_unit_name_ranges c ! 0)"
  (is "\<exists>c. semantic_collect_globals ?c0 = (c, True) \<and> ?P c")
proof -
  have "snd (semantic_collect_globals ?c0) \<and> sc_main (fst (semantic_collect_globals ?c0)) = Some 0"
    by code_simp
  then obtain c where c: "semantic_collect_globals ?c0 = (c, True)" "sc_main c = Some 0"
    by (cases "semantic_collect_globals ?c0") simp
  then show ?thesis
    using collect_globals_well_formed [OF c(1)] by auto
qed

text \<open>
  Looking the owner of a named type up, by binary search with its fall-back scan, is reading
  the finite map of the recorded facts; a type that is not named has no owner.
\<close>

theorem type_owner_lookup:
  assumes "distinct (map owner_type (sc_type_owners c))"
  shows "semantic_type_owner_unit c t =
    (case t of Type_Named key _ _ \<Rightarrow> Option.bind (owner_map c key) id | _ \<Rightarrow> None)"
  using owner_unit_map [OF assms] by (cases t) (auto simp: semantic_type_owner_unit_def)

theorem type_owner_lookup_witness:
  "semantic_type_owner_unit
     ((semantic_context_init (\<lambda>_. True) 9 (diagnostic_begin E1100_Internal_Context_Error zero_span) [])
        \<lparr>sc_type_owners := [owned_by (Some 1) 3, owned_by (Some 0) 5, owned_by (Some 2) 4]\<rparr>)
     (Type_Named 4 [] []) = Some 2"
  by (subst type_owner_lookup) (simp_all add: owner_map_def)

end
