(* ===== verification/Names.thy ===== *)
theory Names
  imports Context
begin

text \<open>
  Name resolution (\<open>src/kernel/name\<close>): module aliases, the lookup of types, functions and values
  in a unit and its imports, enum constructors, and the built-in functions.

  A pointer to an entry is its position in the vector of its kind. The sources spell the lookup
  out three times, once per kind; here a \<open>name_table\<close> says where the entries of a kind are, and the
  three lookups are the same definitions at the three tables.
\<close>

section \<open>Module aliases\<close>

definition module_alias_destination :: "ast_module_item \<Rightarrow> text_slice option" where
  "module_alias_destination item =
     (case item_body item of
        Item_Alias a \<Rightarrow> if alias_parent (alias_destination a) = []
                        then Some (alias_name (alias_destination a)) else None
      | _ \<Rightarrow> None)"

definition module_alias_target :: "ast_module_item \<Rightarrow> text_slice" where
  "module_alias_target item =
     (case item_body item of Item_Alias a \<Rightarrow> alias_name (alias_target a) | _ \<Rightarrow> [])"

text \<open>The inner loop: the first alias whose destination is the name.\<close>

definition module_alias_index :: "ast_module_item list \<Rightarrow> text_slice \<Rightarrow> nat option" where
  "module_alias_index items resolved =
     List.find (\<lambda>i. case module_alias_destination (items ! i) of
                       None \<Rightarrow> False | Some d \<Rightarrow> identity_equals d resolved) [0..<length items]"

text \<open>The outer loop; its first argument counts the rounds left.\<close>

primrec name_alias_loop :: "nat \<Rightarrow> ast_module_item list \<Rightarrow> text_slice \<Rightarrow> text_slice option" where
  "name_alias_loop 0 items resolved = None"
| "name_alias_loop (Suc k) items resolved =
     (case module_alias_index items resolved of
        None \<Rightarrow> Some resolved
      | Some i \<Rightarrow> name_alias_loop k items (module_alias_target (items ! i)))"

definition name_resolve_module_alias_name ::
    "semantic_context \<Rightarrow> nat option \<Rightarrow> text_slice \<Rightarrow> text_slice option" where
  "name_resolve_module_alias_name c u name =
     (case u of
        None \<Rightarrow> Some name
      | Some u \<Rightarrow> name_alias_loop (length (unit_items c u) + 1) (unit_items c u) name)"

section \<open>Lookup of entries\<close>

datatype name_lookup_status = Lookup_Missing | Lookup_Found | Lookup_Private | Lookup_Ambiguous

definition name_unit_imports :: "semantic_context \<Rightarrow> nat option \<Rightarrow> nat option \<Rightarrow> bool" where
  "name_unit_imports c from target =
     (case (from, target) of
        (Some f, Some t) \<Rightarrow>
          (\<exists>i \<in> set (unit_imported_indexes (sc_units c ! f)). program_unit_at c i = Some t)
      | _ \<Rightarrow> False)"

definition name_unit_range :: "semantic_context \<Rightarrow> nat option \<Rightarrow> semantic_unit_name_range option" where
  "name_unit_range c u =
     (case u of
        None \<Rightarrow> None
      | Some v \<Rightarrow>
          (let i = unit_index (sc_units c ! v)
           in if i \<ge> length (sc_unit_name_ranges c) then None
              else if range_unit (sc_unit_name_ranges c ! i) = Some v
              then Some (sc_unit_name_ranges c ! i) else None))"

record 'e name_table =
  nt_entries :: "semantic_context \<Rightarrow> 'e list"
  nt_name :: "'e \<Rightarrow> text_slice"
  nt_unit :: "'e \<Rightarrow> nat option"
  nt_public :: "'e \<Rightarrow> bool"
  nt_begin :: "semantic_unit_name_range \<Rightarrow> nat"
  nt_end :: "semantic_unit_name_range \<Rightarrow> nat"

definition type_table :: "semantic_type_entry name_table" where
  "type_table = \<lparr>nt_entries = sc_types, nt_name = te_name, nt_unit = te_unit,
     nt_public = te_public, nt_begin = range_type_begin, nt_end = range_type_end\<rparr>"

definition function_table :: "semantic_function_entry name_table" where
  "function_table = \<lparr>nt_entries = sc_functions, nt_name = fe_name, nt_unit = fe_unit,
     nt_public = fe_public, nt_begin = range_function_begin, nt_end = range_function_end\<rparr>"

definition global_table :: "semantic_global_entry name_table" where
  "global_table = \<lparr>nt_entries = sc_globals, nt_name = ge_name, nt_unit = ge_unit,
     nt_public = ge_public, nt_begin = range_global_begin, nt_end = range_global_end\<rparr>"

text \<open>\<open>__Vector_At__\<close> is null beyond the count, and a null entry is skipped.\<close>

definition name_find_in_unit ::
    "'e name_table \<Rightarrow> semantic_context \<Rightarrow> nat option \<Rightarrow> text_slice \<Rightarrow> nat option" where
  "name_find_in_unit T c u name =
     (case name_unit_range c u of
        None \<Rightarrow> None
      | Some r \<Rightarrow>
          (case name_resolve_module_alias_name c u name of
             None \<Rightarrow> None
           | Some resolved \<Rightarrow>
               List.find (\<lambda>i. i < length (nt_entries T c)
                            \<and> identity_equals (nt_name T (nt_entries T c ! i)) resolved)
                 [nt_begin T r..<nt_end T r]))"

abbreviation name_find_type_in_unit where "name_find_type_in_unit \<equiv> name_find_in_unit type_table"
abbreviation name_find_function_in_unit where "name_find_function_in_unit \<equiv> name_find_in_unit function_table"
abbreviation name_find_global_in_unit where "name_find_global_in_unit \<equiv> name_find_in_unit global_table"

type_synonym name_lookup = "name_lookup_status \<times> nat option"

definition name_lookup_result :: "nat option \<Rightarrow> bool \<Rightarrow> name_lookup" where
  "name_lookup_result imported private =
     (if imported \<noteq> None then (Lookup_Found, imported)
      else (if private then Lookup_Private else Lookup_Missing, None))"

text \<open>The loop over the imports, with the match found so far and whether a private one was seen.\<close>

primrec name_import_loop ::
    "'e name_table \<Rightarrow> semantic_context \<Rightarrow> text_slice \<Rightarrow> nat list \<Rightarrow> nat option \<Rightarrow> bool \<Rightarrow> name_lookup" where
  "name_import_loop T c name [] imported private = name_lookup_result imported private"
| "name_import_loop T c name (x # xs) imported private =
     (case name_find_in_unit T c (program_unit_at c x) name of
        None \<Rightarrow> name_import_loop T c name xs imported private
      | Some e \<Rightarrow>
          if \<not> nt_public T (nt_entries T c ! e) then name_import_loop T c name xs imported True
          else if imported \<noteq> None \<and> imported \<noteq> Some e then (Lookup_Ambiguous, None)
          else name_import_loop T c name xs (Some e) private)"

text \<open>The scan over all entries, used when no unit is known.\<close>

primrec name_scan_loop ::
    "'e name_table \<Rightarrow> semantic_context \<Rightarrow> nat option \<Rightarrow> text_slice \<Rightarrow> nat list \<Rightarrow> nat option \<Rightarrow> bool \<Rightarrow>
     name_lookup" where
  "name_scan_loop T c from name [] imported private = name_lookup_result imported private"
| "name_scan_loop T c from name (i # is) imported private =
     (let e = nt_entries T c ! i
      in case name_resolve_module_alias_name c (nt_unit T e) name of
           None \<Rightarrow> name_scan_loop T c from name is imported private
         | Some resolved \<Rightarrow>
             if \<not> identity_equals (nt_name T e) resolved then name_scan_loop T c from name is imported private
             else if from = None \<or> nt_unit T e = from then (Lookup_Found, Some i)
             else if \<not> name_unit_imports c from (nt_unit T e)
             then name_scan_loop T c from name is imported private
             else if \<not> nt_public T e then name_scan_loop T c from name is imported True
             else if imported \<noteq> None \<and> imported \<noteq> Some i then (Lookup_Ambiguous, None)
             else name_scan_loop T c from name is (Some i) private)"

text \<open>The path through the range of the unit: its own entry, else those of its imports.\<close>

definition name_resolve_in_scope ::
    "'e name_table \<Rightarrow> semantic_context \<Rightarrow> nat \<Rightarrow> text_slice \<Rightarrow> name_lookup" where
  "name_resolve_in_scope T c u name =
     (case name_find_in_unit T c (Some u) name of
        Some e \<Rightarrow> (Lookup_Found, Some e)
      | None \<Rightarrow> name_import_loop T c name (unit_imported_indexes (sc_units c ! u)) None False)"

definition name_resolve_entry ::
    "'e name_table \<Rightarrow> semantic_context \<Rightarrow> nat option \<Rightarrow> text_slice \<Rightarrow> name_lookup" where
  "name_resolve_entry T c from name =
     (case (from, name_unit_range c from) of
        (Some u, Some _) \<Rightarrow> name_resolve_in_scope T c u name
      | _ \<Rightarrow> name_scan_loop T c from name [0..<length (nt_entries T c)] None False)"

definition name_resolve_type :: "semantic_context \<Rightarrow> nat option \<Rightarrow> text_slice \<Rightarrow> name_lookup" where
  "name_resolve_type = name_resolve_entry type_table"

definition name_resolve_function :: "semantic_context \<Rightarrow> nat option \<Rightarrow> text_slice \<Rightarrow> name_lookup" where
  "name_resolve_function = name_resolve_entry function_table"

text \<open>A value is only visible from a unit with a range.\<close>

definition name_resolve_global :: "semantic_context \<Rightarrow> nat option \<Rightarrow> text_slice \<Rightarrow> name_lookup" where
  "name_resolve_global c from name =
     (case (from, name_unit_range c from) of
        (Some u, Some _) \<Rightarrow> name_resolve_in_scope global_table c u name
      | _ \<Rightarrow> (Lookup_Missing, None))"

definition name_find_type :: "semantic_context \<Rightarrow> text_slice \<Rightarrow> nat option" where
  "name_find_type c name =
     (case name_resolve_type c (sc_active_unit c) name of
        (Lookup_Found, e) \<Rightarrow> e | _ \<Rightarrow> None)"

definition name_find_function :: "semantic_context \<Rightarrow> text_slice \<Rightarrow> nat option" where
  "name_find_function c name =
     (case name_resolve_function c (sc_active_unit c) name of
        (Lookup_Found, e) \<Rightarrow> e | _ \<Rightarrow> None)"

definition name_lookup_error_id :: "name_lookup_status \<Rightarrow> error_id" where
  "name_lookup_error_id s =
     (if s = Lookup_Private then E0309_Private_Declaration
      else if s = Lookup_Ambiguous then E0310_Ambiguous_Import
      else E0300_Unknown_Name)"

section \<open>Enum constructors\<close>

definition name_find_direct_enum_constructor ::
    "semantic_type_entry option \<Rightarrow> text_slice \<Rightarrow> (nat \<times> ast_enum_constructor) option" where
  "name_find_direct_enum_constructor t name =
     (case Option.bind t te_declaration of
        None \<Rightarrow> None
      | Some d \<Rightarrow>
          (case decl_body d of
             Decl_Enum cs \<Rightarrow>
               map_option (\<lambda>i. (i, cs ! i))
                 (List.find (\<lambda>i. identity_equals (constructor_name (cs ! i)) name) [0..<length cs])
           | _ \<Rightarrow> None))"

text \<open>
  The scan over the aliases of the unit for a constructor name: \<open>None\<close> ends the search without a
  constructor (no alias, or its target is in another type), \<open>Some\<close> is the next name.
\<close>

primrec enum_alias_target ::
    "semantic_context \<Rightarrow> nat \<Rightarrow> text_slice \<Rightarrow> text_slice \<Rightarrow> ast_module_item list \<Rightarrow> text_slice option" where
  "enum_alias_target c u type_name resolved [] = None"
| "enum_alias_target c u type_name resolved (i # is) =
     (case item_body i of
        Item_Alias a \<Rightarrow>
          if alias_parent (alias_destination a) = []
             \<or> \<not> identity_equals (alias_name (alias_destination a)) resolved
          then enum_alias_target c u type_name resolved is
          else (case name_resolve_module_alias_name c (Some u) (alias_parent (alias_destination a)) of
                  None \<Rightarrow> enum_alias_target c u type_name resolved is
                | Some p \<Rightarrow>
                    if \<not> identity_equals p type_name then enum_alias_target c u type_name resolved is
                    else (case name_resolve_module_alias_name c (Some u) (alias_parent (alias_target a)) of
                            None \<Rightarrow> None
                          | Some q \<Rightarrow> if identity_equals q type_name then Some (alias_name (alias_target a))
                                      else None))
      | _ \<Rightarrow> enum_alias_target c u type_name resolved is)"

primrec enum_constructor_loop ::
    "nat \<Rightarrow> semantic_context \<Rightarrow> semantic_type_entry \<Rightarrow> text_slice \<Rightarrow> (nat \<times> ast_enum_constructor) option" where
  "enum_constructor_loop 0 c t resolved = None"
| "enum_constructor_loop (Suc k) c t resolved =
     (case name_find_direct_enum_constructor (Some t) resolved of
        Some r \<Rightarrow> Some r
      | None \<Rightarrow>
          (case te_unit t of
             None \<Rightarrow> None
           | Some u \<Rightarrow>
               (case enum_alias_target c u (te_name t) resolved (unit_items c u) of
                  None \<Rightarrow> None
                | Some next_name \<Rightarrow> enum_constructor_loop k c t next_name)))"

definition name_find_enum_constructor ::
    "semantic_context \<Rightarrow> semantic_type_entry option \<Rightarrow> text_slice \<Rightarrow> (nat \<times> ast_enum_constructor) option" where
  "name_find_enum_constructor c t name =
     (case t of
        None \<Rightarrow> None
      | Some e \<Rightarrow>
          enum_constructor_loop
            (1 + (case te_unit e of None \<Rightarrow> 0 | Some u \<Rightarrow> length (unit_items c u))) c e name)"

text \<open>The type, the index of the constructor, and the constructor.\<close>

definition name_resolve_enum_constructor_lvalue ::
    "semantic_context \<Rightarrow> ast_lvalue option \<Rightarrow> (nat \<times> nat \<times> ast_enum_constructor) option" where
  "name_resolve_enum_constructor_lvalue c l =
     (case l of
        Some (Lvalue_Field _ (Lvalue_Base _ (Base_Identifier name)) field) \<Rightarrow>
          (case name_find_type c name of
             None \<Rightarrow> None
           | Some t \<Rightarrow> map_option (Pair t) (name_find_enum_constructor c (Some (sc_types c ! t)) field))
      | _ \<Rightarrow> None)"

section \<open>Built-in functions\<close>

datatype name_builtin_function = Builtin_None | Builtin_Length | Builtin_Append | Builtin_Swap
  | Builtin_Host_Architecture | Builtin_Host_Platform | Builtin_Host_Environment
  | Builtin_F64_Bits | Builtin_F64_From_Bits | Builtin_F32_Bits | Builtin_F32_From_Bits
  | Builtin_Release | Builtin_Raw_Kernel_Call

text \<open>The spellings in the order they are tried, as UTF-8 bytes.\<close>

definition name_builtin_spellings :: "(bytes \<times> name_builtin_function) list" where
  "name_builtin_spellings =
     [([0x6C, 0x65, 0x6E, 0x67, 0x74, 0x68], Builtin_Length),
      ([0xD8, 0xA7, 0xD9, 0x84, 0xD8, 0xB7, 0xD9, 0x88, 0xD9, 0x84], Builtin_Length),
      ([0x61, 0x70, 0x70, 0x65, 0x6E, 0x64], Builtin_Append),
      ([0xD8, 0xA3, 0xD9, 0x84, 0xD8, 0xAD, 0xD9, 0x82], Builtin_Append),
      ([0x73, 0x77, 0x61, 0x70], Builtin_Swap),
      ([0xD8, 0xA8, 0xD8, 0xAF, 0xD9, 0x91, 0xD9, 0x84], Builtin_Swap),
      ([0xD8, 0xA8, 0xD8, 0xAF, 0xD8, 0xA7, 0xD8, 0xA6, 0xD9, 0x8A, 0x5F, 0xD9, 0x85, 0xD8,
        0xB9, 0xD9, 0x85, 0xD8, 0xA7, 0xD8, 0xB1, 0xD9, 0x8A, 0xD8, 0xA9, 0x5F, 0xD8, 0xA7,
        0xD9, 0x84, 0xD9, 0x85, 0xD8, 0xB6, 0xD9, 0x8A, 0xD9, 0x81], Builtin_Host_Architecture),
      ([0xD8, 0xA8, 0xD8, 0xAF, 0xD8, 0xA7, 0xD8, 0xA6, 0xD9, 0x8A, 0x5F, 0xD9, 0x85, 0xD9,
        0x86, 0xD8, 0xB5, 0xD8, 0xA9, 0x5F, 0xD8, 0xA7, 0xD9, 0x84, 0xD9, 0x85, 0xD8, 0xB6,
        0xD9, 0x8A, 0xD9, 0x81], Builtin_Host_Platform),
      ([0xD8, 0xA8, 0xD8, 0xAF, 0xD8, 0xA7, 0xD8, 0xA6, 0xD9, 0x8A, 0x5F, 0xD8, 0xA8, 0xD9,
        0x8A, 0xD8, 0xA6, 0xD8, 0xA9, 0x5F, 0xD8, 0xA7, 0xD9, 0x84, 0xD9, 0x85, 0xD8, 0xB6,
        0xD9, 0x8A, 0xD9, 0x81], Builtin_Host_Environment),
      ([0xD8, 0xAD, 0xD8, 0xB1, 0xD8, 0xB1], Builtin_Release),
      ([0x72, 0x65, 0x6C, 0x65, 0x61, 0x73, 0x65], Builtin_Release),
      ([0xD8, 0xA8, 0xD8, 0xAF, 0xD8, 0xA7, 0xD8, 0xA6, 0xD9, 0x8A, 0x5F, 0xD9, 0x86, 0xD8,
        0xAF, 0xD8, 0xA7, 0xD8, 0xA1, 0x5F, 0xD9, 0x86, 0xD9, 0x88, 0xD8, 0xA7, 0xD8, 0xA9,
        0x5F, 0xD8, 0xAE, 0xD8, 0xA7, 0xD9, 0x85], Builtin_Raw_Kernel_Call),
      ([0xD8, 0xA8, 0xD8, 0xAF, 0xD8, 0xA7, 0xD8, 0xA6, 0xD9, 0x8A, 0x5F, 0xD8, 0xA8, 0xD8,
        0xAA, 0xD8, 0xA7, 0xD8, 0xAA, 0x5F, 0xD8, 0xB9, 0x36, 0x34], Builtin_F64_Bits),
      ([0xD8, 0xA8, 0xD8, 0xAF, 0xD8, 0xA7, 0xD8, 0xA6, 0xD9, 0x8A, 0x5F, 0xD8, 0xB9, 0x36,
        0x34, 0x5F, 0xD9, 0x85, 0xD9, 0x86, 0x5F, 0xD8, 0xA8, 0xD8, 0xAA, 0xD8, 0xA7, 0xD8,
        0xAA], Builtin_F64_From_Bits),
      ([0xD8, 0xA8, 0xD8, 0xAF, 0xD8, 0xA7, 0xD8, 0xA6, 0xD9, 0x8A, 0x5F, 0xD8, 0xA8, 0xD8,
        0xAA, 0xD8, 0xA7, 0xD8, 0xAA, 0x5F, 0xD8, 0xB9, 0x33, 0x32], Builtin_F32_Bits),
      ([0xD8, 0xA8, 0xD8, 0xAF, 0xD8, 0xA7, 0xD8, 0xA6, 0xD9, 0x8A, 0x5F, 0xD8, 0xB9, 0x33,
        0x32, 0x5F, 0xD9, 0x85, 0xD9, 0x86, 0x5F, 0xD8, 0xA8, 0xD8, 0xAA, 0xD8, 0xA7, 0xD8,
        0xAA], Builtin_F32_From_Bits)]"

definition name_find_builtin_function :: "text_slice \<Rightarrow> name_builtin_function" where
  "name_find_builtin_function name =
     (case List.find (\<lambda>(spelling, _). identity_equals name spelling) name_builtin_spellings of
        None \<Rightarrow> Builtin_None
      | Some (_, f) \<Rightarrow> f)"

definition name_builtin_is_direct_source :: "name_builtin_function \<Rightarrow> bool" where
  "name_builtin_is_direct_source f \<longleftrightarrow>
     f = Builtin_Length \<or> f = Builtin_Append \<or> f = Builtin_Swap \<or> f = Builtin_Release
     \<or> f = Builtin_Raw_Kernel_Call"

section \<open>Bounded chains\<close>

text \<open>
  A chain of steps ends at an element that has no next one. When every step leads into a list of
  targets, a chain longer than the list repeats a target and never ends; so that many rounds decide
  whether it ends. Both alias searches are such loops.
\<close>

inductive chain_ends :: "('a \<Rightarrow> 'a option) \<Rightarrow> 'a \<Rightarrow> 'a \<Rightarrow> bool" for step where
  chain_stop: "step a = None \<Longrightarrow> chain_ends step a a"
| chain_next: "step a = Some b \<Longrightarrow> chain_ends step b r \<Longrightarrow> chain_ends step a r"

primrec chain_loop :: "('a \<Rightarrow> 'a option) \<Rightarrow> nat \<Rightarrow> 'a \<Rightarrow> 'a option" where
  "chain_loop step 0 a = None"
| "chain_loop step (Suc k) a = (case step a of None \<Rightarrow> Some a | Some b \<Rightarrow> chain_loop step k b)"

fun chain_path :: "('a \<Rightarrow> 'a option) \<Rightarrow> 'a \<Rightarrow> 'a list \<Rightarrow> 'a \<Rightarrow> bool" where
  "chain_path step a [] r \<longleftrightarrow> a = r \<and> step a = None"
| "chain_path step a (b # bs) r \<longleftrightarrow> step a = Some b \<and> chain_path step b bs r"

lemma chain_ends_path: "chain_ends step a r \<longleftrightarrow> (\<exists>bs. chain_path step a bs r)"
proof
  show "\<exists>bs. chain_path step a bs r" if "chain_ends step a r"
    using that by induction (metis chain_path.simps)+
  have "chain_path step a bs r \<Longrightarrow> chain_ends step a r" for bs
    by (induction bs arbitrary: a) (auto intro: chain_ends.intros)
  then show "\<exists>bs. chain_path step a bs r \<Longrightarrow> chain_ends step a r"
    by blast
qed

lemma chain_path_unique: "chain_path step a bs r \<Longrightarrow> chain_path step a cs s \<Longrightarrow> bs = cs \<and> r = s"
proof (induction bs arbitrary: a cs)
  case Nil
  then show ?case
    by (cases cs) auto
next
  case (Cons b bs)
  then show ?case
    by (cases cs) auto
qed

lemma chain_path_suffix: "chain_path step a (bs @ b # cs) r \<Longrightarrow> chain_path step b cs r"
  by (induction bs arbitrary: a) auto

lemma chain_path_distinct: "chain_path step a bs r \<Longrightarrow> distinct bs"
proof (induction bs arbitrary: a)
  case (Cons b bs)
  have "b \<notin> set bs"
  proof
    assume "b \<in> set bs"
    then obtain xs ys where bs: "bs = xs @ b # ys"
      by (meson split_list)
    have rest: "chain_path step b bs r"
      using Cons.prems by simp
    then have "chain_path step b ys r"
      unfolding bs by (rule chain_path_suffix)
    with rest have "bs = ys"
      by (blast dest: chain_path_unique)
    with bs show False
      by simp
  qed
  with Cons.prems Cons.IH [of b] show ?case
    by simp
qed simp

lemma chain_path_cases:
  "step a = None \<Longrightarrow> chain_path step a bs r \<longleftrightarrow> bs = [] \<and> a = r"
  "step a = Some b \<Longrightarrow> chain_path step a bs r \<longleftrightarrow> bs \<noteq> [] \<and> hd bs = b \<and> chain_path step b (tl bs) r"
  by (cases bs; auto)+

lemma chain_loop_path: "chain_loop step k a = Some r \<longleftrightarrow> (\<exists>bs. chain_path step a bs r \<and> length bs < k)"
proof (induction k arbitrary: a)
  case (Suc k)
  show ?case
  proof (cases "step a")
    case None
    then show ?thesis
      by (simp add: chain_path_cases(1))
  next
    case (Some b)
    then have "chain_loop step (Suc k) a = Some r \<longleftrightarrow> (\<exists>cs. chain_path step b cs r \<and> length cs < k)"
      by (simp add: Suc.IH)
    also have "\<dots> \<longleftrightarrow> (\<exists>bs. chain_path step a bs r \<and> length bs < Suc k)"
    proof safe
      fix cs
      assume "chain_path step b cs r" "length cs < k"
      then show "\<exists>bs. chain_path step a bs r \<and> length bs < Suc k"
        using Some by (intro exI [of _ "b # cs"]) simp
    next
      fix bs
      assume "chain_path step a bs r" "length bs < Suc k"
      then show "\<exists>cs. chain_path step b cs r \<and> length cs < k"
        using Some by (intro exI [of _ "tl bs"]) (cases bs; simp)
    qed
    finally show ?thesis .
  qed
qed simp

locale bounded_chain =
  fixes step :: "'a \<Rightarrow> 'a option" and targets :: "'a list"
  assumes step_target: "step a = Some b \<Longrightarrow> b \<in> set targets"
begin

lemma path_targets: "chain_path step a bs r \<Longrightarrow> set bs \<subseteq> set targets"
  by (induction bs arbitrary: a) (auto dest: step_target)

lemma path_length: "chain_path step a bs r \<Longrightarrow> length bs \<le> length targets"
  using path_targets chain_path_distinct card_mono card_length
  by (metis List.finite_set distinct_card le_trans)

lemma loop_decides: "chain_loop step (length targets + 1) a = Some r \<longleftrightarrow> chain_ends step a r"
  using path_length by (auto simp: chain_loop_path chain_ends_path less_Suc_eq_le simp del: chain_loop.simps)

end

definition module_alias_step :: "ast_module_item list \<Rightarrow> text_slice \<Rightarrow> text_slice option" where
  "module_alias_step items r =
     map_option (\<lambda>i. module_alias_target (items ! i)) (module_alias_index items r)"

lemma find_upt_less: "List.find P [0..<n] = Some i \<Longrightarrow> i < n \<and> P i"
  by (auto simp: find_Some_iff)

interpretation module_chain: bounded_chain "module_alias_step items" "map module_alias_target items"
  for items
  by unfold_locales (auto simp: module_alias_step_def module_alias_index_def dest!: find_upt_less)

lemma name_alias_loop_chain: "name_alias_loop k items r = chain_loop (module_alias_step items) k r"
  by (induction k arbitrary: r) (auto simp: module_alias_step_def split: option.splits)

definition enum_alias_step ::
    "semantic_context \<Rightarrow> semantic_type_entry \<Rightarrow> nat \<Rightarrow> text_slice \<Rightarrow> text_slice option" where
  "enum_alias_step c t u r =
     (if name_find_direct_enum_constructor (Some t) r \<noteq> None then None
      else enum_alias_target c u (te_name t) r (unit_items c u))"

lemma enum_alias_target_in:
  "enum_alias_target c u x r is = Some b \<Longrightarrow> b \<in> set (map module_alias_target is)"
  by (induction "is") (auto simp: module_alias_target_def split: ast_module_item_body.splits option.splits if_splits)

interpretation enum_chain: bounded_chain "enum_alias_step c t u" "map module_alias_target (unit_items c u)"
  for c t u
  by unfold_locales (auto simp: enum_alias_step_def simp del: set_map dest!: enum_alias_target_in split: if_splits)

lemma enum_constructor_loop_chain:
  "te_unit t = Some u \<Longrightarrow>
     enum_constructor_loop k c t r =
       Option.bind (chain_loop (enum_alias_step c t u) k r) (name_find_direct_enum_constructor (Some t))"
proof (induction k arbitrary: r)
  case (Suc k)
  then show ?case
    by (cases "name_find_direct_enum_constructor (Some t) r";
        cases "enum_alias_target c u (te_name t) r (unit_items c u)")
      (simp_all add: enum_alias_step_def)
qed simp

section \<open>Declarations and scopes\<close>

text \<open>
  What the lookup means: a unit declares an entry under a name when the name leads, through the
  module aliases of the unit, to the name of one of its entries; a unit sees the public entries the
  units it imports directly declare under the name.
\<close>

definition declared_in :: "'e name_table \<Rightarrow> semantic_context \<Rightarrow> nat \<Rightarrow> text_slice \<Rightarrow> nat \<Rightarrow> bool" where
  "declared_in T c u name e \<longleftrightarrow>
     e < length (nt_entries T c) \<and> nt_unit T (nt_entries T c ! e) = Some u
     \<and> (\<exists>r. chain_ends (module_alias_step (unit_items c u)) name r
          \<and> identity_equals (nt_name T (nt_entries T c ! e)) r)"

definition imported_entries :: "'e name_table \<Rightarrow> semantic_context \<Rightarrow> nat \<Rightarrow> text_slice \<Rightarrow> nat set" where
  "imported_entries T c u name =
     {e. \<exists>i \<in> set (unit_imported_indexes (sc_units c ! u)).
           i < length (sc_units c) \<and> declared_in T c i name e}"

definition public_entry :: "'e name_table \<Rightarrow> semantic_context \<Rightarrow> nat \<Rightarrow> bool" where
  "public_entry T c e = nt_public T (nt_entries T c ! e)"

text \<open>The answer a set of candidates calls for; \<open>hidden\<close> says whether a private one was met.\<close>

definition scope_answer :: "nat set \<Rightarrow> bool \<Rightarrow> name_lookup \<Rightarrow> bool" where
  "scope_answer P hidden r \<longleftrightarrow>
     (case r of
        (Lookup_Found, Some e) \<Rightarrow> P = {e}
      | (Lookup_Ambiguous, None) \<Rightarrow> (\<exists>a b. a \<in> P \<and> b \<in> P \<and> a \<noteq> b)
      | (Lookup_Private, None) \<Rightarrow> P = {} \<and> hidden
      | (Lookup_Missing, None) \<Rightarrow> P = {} \<and> \<not> hidden
      | _ \<Rightarrow> False)"

definition scope_lookup :: "'e name_table \<Rightarrow> semantic_context \<Rightarrow> nat \<Rightarrow> text_slice \<Rightarrow> name_lookup \<Rightarrow> bool" where
  "scope_lookup T c u name r \<longleftrightarrow>
     (case r of
        (Lookup_Found, Some e) \<Rightarrow>
          declared_in T c u name e
          \<or> (\<nexists>l. declared_in T c u name l) \<and> Collect (public_entry T c) \<inter> imported_entries T c u name = {e}
      | _ \<Rightarrow> (\<nexists>l. declared_in T c u name l)
          \<and> scope_answer (Collect (public_entry T c) \<inter> imported_entries T c u name)
              (\<exists>e \<in> imported_entries T c u name. \<not> public_entry T c e) r)"

text \<open>A collected context whose units carry their positions, as the loader sets them.\<close>

definition scoped :: "semantic_context \<Rightarrow> bool" where
  "scoped c \<longleftrightarrow> collected c (length (sc_units c)) \<and> (\<forall>u < length (sc_units c). unit_index (sc_units c ! u) = u)"

lemma scoped_range: "scoped c \<Longrightarrow> u < length (sc_units c) \<Longrightarrow>
    name_unit_range c (Some u) = Some (sc_unit_name_ranges c ! u)"
  by (simp add: scoped_def name_unit_range_def collected_def range_selects_def)

lemma range_indexes:
  assumes "entries_between b e xs = filter P xs" "e \<le> length xs"
  shows "{b..<e} = {i. i < length xs \<and> P (xs ! i)}"
proof (rule card_subset_eq)
  show "{b..<e} \<subseteq> {i. i < length xs \<and> P (xs ! i)}"
  proof
    fix i
    assume i: "i \<in> {b..<e}"
    then have "entries_between b e xs ! (i - b) = xs ! i" "i - b < length (entries_between b e xs)"
      using assms(2) by (auto simp: entries_between_def)
    then have "xs ! i \<in> set (entries_between b e xs)"
      by (metis nth_mem)
    then show "i \<in> {i. i < length xs \<and> P (xs ! i)}"
      using i assms by auto
  qed
  have "length (entries_between b e xs) = e - b"
    using assms(2) by (simp add: entries_between_def)
  then show "card {b..<e} = card {i. i < length xs \<and> P (xs ! i)}"
    using assms(1) by (simp add: length_filter_conv_card)
qed simp

lemma filter_at_most_one:
  assumes "length (filter P xs) \<le> 1" "i < length xs" "j < length xs" "P (xs ! i)" "P (xs ! j)"
  shows "i = j"
proof -
  have "card {k. k < length xs \<and> P (xs ! k)} \<le> Suc 0"
    using assms(1) by (simp add: length_filter_conv_card)
  then show ?thesis
    using assms(2-) card_le_Suc0_iff_eq [of "{k. k < length xs \<and> P (xs ! k)}"] by auto
qed

lemma find_unique:
  assumes "\<And>i j. P i \<Longrightarrow> P j \<Longrightarrow> i \<in> set xs \<Longrightarrow> j \<in> set xs \<Longrightarrow> i = j"
  shows "List.find P xs = Some i \<longleftrightarrow> i \<in> set xs \<and> P i"
  using assms by (induction xs) (auto 4 3)

text \<open>What the three tables promise in a collected context, and what follows for the lookup.\<close>

locale declaration_table =
  fixes T :: "'e name_table"
  assumes range_law: "collected c n \<Longrightarrow> u < n \<Longrightarrow>
      {nt_begin T (sc_unit_name_ranges c ! u)..<nt_end T (sc_unit_name_ranges c ! u)} =
        {i. i < length (nt_entries T c) \<and> nt_unit T (nt_entries T c ! i) = Some u}"
    and unique_law: "collected c n \<Longrightarrow>
      length (filter (\<lambda>e. nt_unit T e = Some u \<and> identity_equals (nt_name T e) x) (nt_entries T c)) \<le> 1"
begin

lemma entry_unique:
  assumes "scoped c" "declared_in T c u x i" "declared_in T c u x j"
  shows "i = j"
proof -
  obtain r s where r: "chain_ends (module_alias_step (unit_items c u)) x r"
      "identity_equals (nt_name T (nt_entries T c ! i)) r"
    and s: "chain_ends (module_alias_step (unit_items c u)) x s"
      "identity_equals (nt_name T (nt_entries T c ! j)) s"
    using assms(2,3) by (auto simp: declared_in_def)
  have "r = s"
    using r(1) s(1) by (auto simp: chain_ends_path dest: chain_path_unique)
  moreover have "length (filter (\<lambda>e. nt_unit T e = Some u \<and> identity_equals (nt_name T e) r) (nt_entries T c)) \<le> 1"
    using unique_law [of c "length (sc_units c)" u r] assms(1) by (simp add: scoped_def)
  ultimately show ?thesis
    using r(2) s(2) assms(2,3)
      filter_at_most_one [of "\<lambda>e. nt_unit T e = Some u \<and> identity_equals (nt_name T e) r" "nt_entries T c" i j]
    by (auto simp: declared_in_def)
qed

lemma alias_resolved:
  "name_resolve_module_alias_name c (Some u) x = Some r \<longleftrightarrow> chain_ends (module_alias_step (unit_items c u)) x r"
  using module_chain.loop_decides [of "unit_items c u" x r]
  by (simp add: name_resolve_module_alias_name_def name_alias_loop_chain del: chain_loop.simps name_alias_loop.simps)

lemma find_in_unit:
  assumes "scoped c" "u < length (sc_units c)"
  shows "name_find_in_unit T c (Some u) x = Some e \<longleftrightarrow> declared_in T c u x e"
proof -
  let ?r = "sc_unit_name_ranges c ! u"
  have range: "set [nt_begin T ?r..<nt_end T ?r] =
      {i. i < length (nt_entries T c) \<and> nt_unit T (nt_entries T c ! i) = Some u}"
    using range_law [of c "length (sc_units c)" u] assms by (simp add: scoped_def)
  show ?thesis
  proof (cases "name_resolve_module_alias_name c (Some u) x")
    case None
    then show ?thesis
      using alias_resolved [of c u x] by (auto simp: name_find_in_unit_def declared_in_def split: option.splits)
  next
    case (Some r)
    then have r: "chain_ends (module_alias_step (unit_items c u)) x r"
      by (simp add: alias_resolved)
    have same: "chain_ends (module_alias_step (unit_items c u)) x s \<longleftrightarrow> s = r" for s
      using Some alias_resolved [of c u x s] by auto
    have "name_find_in_unit T c (Some u) x =
        List.find (\<lambda>i. i < length (nt_entries T c) \<and> identity_equals (nt_name T (nt_entries T c ! i)) r)
          [nt_begin T ?r..<nt_end T ?r]"
      using Some assms by (simp add: name_find_in_unit_def scoped_range)
    also have "\<dots> = Some e \<longleftrightarrow> e \<in> set [nt_begin T ?r..<nt_end T ?r]
        \<and> e < length (nt_entries T c) \<and> identity_equals (nt_name T (nt_entries T c ! e)) r"
    proof (rule find_unique)
      fix i j
      assume "i < length (nt_entries T c) \<and> identity_equals (nt_name T (nt_entries T c ! i)) r"
        "j < length (nt_entries T c) \<and> identity_equals (nt_name T (nt_entries T c ! j)) r"
        "i \<in> set [nt_begin T ?r..<nt_end T ?r]" "j \<in> set [nt_begin T ?r..<nt_end T ?r]"
      then show "i = j"
        unfolding range using r by (intro entry_unique [OF assms(1), of u x]) (auto simp: declared_in_def)
    qed
    finally show ?thesis
      unfolding range by (auto simp: declared_in_def same)
  qed
qed

text \<open>The entries the units at given positions declare.\<close>

definition from_units :: "semantic_context \<Rightarrow> text_slice \<Rightarrow> nat list \<Rightarrow> nat set" where
  "from_units c x us = {e. \<exists>i \<in> set us. i < length (sc_units c) \<and> declared_in T c i x e}"

lemma from_units_simps:
  "from_units c x [] = {}"
  "scoped c \<Longrightarrow> from_units c x (i # us) =
     set_option (name_find_in_unit T c (program_unit_at c i) x) \<union> from_units c x us"
proof -
  show "from_units c x [] = {}"
    by (simp add: from_units_def)
  assume c: "scoped c"
  have "name_find_in_unit T c (program_unit_at c i) x = Some e \<longleftrightarrow>
      i < length (sc_units c) \<and> declared_in T c i x e" for e
    using find_in_unit [OF c, of i x e]
    by (auto simp: program_unit_at_def name_find_in_unit_def name_unit_range_def)
  then show "from_units c x (i # us) =
     set_option (name_find_in_unit T c (program_unit_at c i) x) \<union> from_units c x us"
    by (auto simp: from_units_def elem_set)
qed

lemma import_loop:
  assumes "scoped c"
  shows "scope_answer (set_option m \<union> (Collect (public_entry T c) \<inter> from_units c x us))
     (priv \<or> (\<exists>e \<in> from_units c x us. \<not> public_entry T c e)) (name_import_loop T c x us m priv)"
proof (induction us arbitrary: m priv)
  case Nil
  then show ?case
    by (cases m) (auto simp: from_units_simps scope_answer_def name_lookup_result_def)
next
  case (Cons i us)
  show ?case
  proof (cases "name_find_in_unit T c (program_unit_at c i) x")
    case None
    with Cons [of m priv] show ?thesis
      by (simp add: from_units_simps(2) [OF assms])
  next
    case (Some e)
    show ?thesis
    proof (cases "public_entry T c e")
      case True
      then have pub: "Collect (public_entry T c) \<inter> from_units c x (i # us) =
          insert e (Collect (public_entry T c) \<inter> from_units c x us)"
        "(\<exists>e \<in> from_units c x (i # us). \<not> public_entry T c e) \<longleftrightarrow>
          (\<exists>e \<in> from_units c x us. \<not> public_entry T c e)"
        using Some by (auto simp: from_units_simps(2) [OF assms])
      show ?thesis
      proof (cases "m \<noteq> None \<and> m \<noteq> Some e")
        case True
        then obtain y where y: "m = Some y" "y \<noteq> e"
          by auto
        with Some \<open>public_entry T c e\<close> have "name_import_loop T c x (i # us) m priv = (Lookup_Ambiguous, None)"
          by (simp add: public_entry_def)
        with y show ?thesis
          unfolding pub by (auto simp: scope_answer_def)
      next
        case False
        then have "set_option m \<union> insert e S = insert e S" for S
          by auto
        moreover have "name_import_loop T c x (i # us) m priv = name_import_loop T c x us (Some e) priv"
          using False Some \<open>public_entry T c e\<close> by (auto simp: public_entry_def)
        ultimately show ?thesis
          using Cons [of "Some e" priv] unfolding pub by simp
      qed
    next
      case False
      then have hidden: "Collect (public_entry T c) \<inter> from_units c x (i # us) =
          Collect (public_entry T c) \<inter> from_units c x us"
        "(\<exists>e \<in> from_units c x (i # us). \<not> public_entry T c e) \<longleftrightarrow> True"
        using Some by (auto simp: from_units_simps(2) [OF assms])
      have "name_import_loop T c x (i # us) m priv = name_import_loop T c x us m True"
        using False Some by (simp add: public_entry_def)
      then show ?thesis
        using Cons [of m True] unfolding hidden by simp
    qed
  qed
qed

lemma resolve_in_scope:
  assumes "scoped c" "u < length (sc_units c)"
  shows "scope_lookup T c u x (name_resolve_in_scope T c u x)"
proof (cases "name_find_in_unit T c (Some u) x")
  case (Some e)
  then have "name_resolve_in_scope T c u x = (Lookup_Found, Some e)" "declared_in T c u x e"
    by (simp_all add: name_resolve_in_scope_def flip: find_in_unit [OF assms])
  then show ?thesis
    by (simp add: scope_lookup_def)
next
  case None
  have none: "\<nexists>l. declared_in T c u x l"
    using find_in_unit [OF assms, of x] None by auto
  have import_entries: "from_units c x (unit_imported_indexes (sc_units c ! u)) = imported_entries T c u x"
    by (simp add: from_units_def imported_entries_def)
  have "scope_answer (Collect (public_entry T c) \<inter> imported_entries T c u x)
     (\<exists>e \<in> imported_entries T c u x. \<not> public_entry T c e) (name_resolve_in_scope T c u x)"
    using import_loop [OF assms(1), of None x "unit_imported_indexes (sc_units c ! u)" False]
    by (simp add: name_resolve_in_scope_def None import_entries)
  with none show ?thesis
    unfolding scope_lookup_def
    by (auto simp: scope_answer_def split: prod.splits name_lookup_status.splits option.splits)
qed

lemma resolve_entry:
  assumes "scoped c" "u < length (sc_units c)"
  shows "scope_lookup T c u x (name_resolve_entry T c (Some u) x)"
  using resolve_in_scope [OF assms] by (simp add: name_resolve_entry_def scoped_range [OF assms])

end

lemma unit_matches_parts:
  "unit_matches c u x \<le> 1 \<Longrightarrow> length (filter (\<lambda>e. te_unit e = Some u \<and> identity_equals (te_name e) x) (sc_types c)) \<le> 1"
  "unit_matches c u x \<le> 1 \<Longrightarrow> length (filter (\<lambda>e. fe_unit e = Some u \<and> identity_equals (fe_name e) x) (sc_functions c)) \<le> 1"
  "unit_matches c u x \<le> 1 \<Longrightarrow> length (filter (\<lambda>e. ge_unit e = Some u \<and> identity_equals (ge_name e) x) (sc_globals c)) \<le> 1"
  by (simp_all add: unit_matches_def)

interpretation type_scope: declaration_table type_table
proof
  fix c n u x
  show "collected c n \<Longrightarrow> u < n \<Longrightarrow>
      {nt_begin type_table (sc_unit_name_ranges c ! u)..<nt_end type_table (sc_unit_name_ranges c ! u)} =
        {i. i < length (nt_entries type_table c) \<and> nt_unit type_table (nt_entries type_table c ! i) = Some u}"
    unfolding type_table_def name_table.simps
    by (intro range_indexes) (auto simp: collected_def range_selects_def)
  show "collected c n \<Longrightarrow> length (filter (\<lambda>e. nt_unit type_table e = Some u
      \<and> identity_equals (nt_name type_table e) x) (nt_entries type_table c)) \<le> 1"
    unfolding type_table_def name_table.simps
    by (intro unit_matches_parts) (simp add: collected_def)
qed

interpretation function_scope: declaration_table function_table
proof
  fix c n u x
  show "collected c n \<Longrightarrow> u < n \<Longrightarrow>
      {nt_begin function_table (sc_unit_name_ranges c ! u)..<nt_end function_table (sc_unit_name_ranges c ! u)} =
        {i. i < length (nt_entries function_table c)
          \<and> nt_unit function_table (nt_entries function_table c ! i) = Some u}"
    unfolding function_table_def name_table.simps
    by (intro range_indexes) (auto simp: collected_def range_selects_def)
  show "collected c n \<Longrightarrow> length (filter (\<lambda>e. nt_unit function_table e = Some u
      \<and> identity_equals (nt_name function_table e) x) (nt_entries function_table c)) \<le> 1"
    unfolding function_table_def name_table.simps
    by (intro unit_matches_parts) (simp add: collected_def)
qed

interpretation global_scope: declaration_table global_table
proof
  fix c n u x
  show "collected c n \<Longrightarrow> u < n \<Longrightarrow>
      {nt_begin global_table (sc_unit_name_ranges c ! u)..<nt_end global_table (sc_unit_name_ranges c ! u)} =
        {i. i < length (nt_entries global_table c) \<and> nt_unit global_table (nt_entries global_table c ! i) = Some u}"
    unfolding global_table_def name_table.simps
    by (intro range_indexes) (auto simp: collected_def range_selects_def)
  show "collected c n \<Longrightarrow> length (filter (\<lambda>e. nt_unit global_table e = Some u
      \<and> identity_equals (nt_name global_table e) x) (nt_entries global_table c)) \<le> 1"
    unfolding global_table_def name_table.simps
    by (intro unit_matches_parts) (simp add: collected_def)
qed

section \<open>Properties\<close>

text \<open>
  C27: The bounded alias search returns a name exactly when the chain of aliases from the given
  name ends, and then returns its end; it fails only on a cycle.
\<close>

theorem module_alias_resolution:
  "name_resolve_module_alias_name c (Some u) x = Some r \<longleftrightarrow>
     chain_ends (module_alias_step (unit_items c u)) x r"
  by (rule type_scope.alias_resolved)

text \<open>
  C26: In a collected program, looking a type, function or value up from a unit finds the unit's own
  declaration if there is one, else the one public declaration among the directly imported units;
  several are ambiguous, only private ones are private, none is missing.
\<close>

theorem name_resolution_scope:
  assumes "scoped c" "u < length (sc_units c)"
  shows "scope_lookup type_table c u x (name_resolve_type c (Some u) x)
    \<and> scope_lookup function_table c u x (name_resolve_function c (Some u) x)
    \<and> scope_lookup global_table c u x (name_resolve_global c (Some u) x)"
  using type_scope.resolve_entry [OF assms] function_scope.resolve_entry [OF assms] global_scope.resolve_in_scope [OF assms]
  by (simp add: name_resolve_type_def name_resolve_function_def name_resolve_global_def scoped_range [OF assms])

theorem name_resolution_scope_witness:
  "scoped (semantic_context_init (\<lambda>_. True) 9 (diagnostic_begin E1100_Internal_Context_Error zero_span)
      [\<lparr>unit_index = 0, unit_path = None, unit_module = \<lparr>module_items = [], module_imports = []\<rparr>,
        unit_imported_indexes = []\<rparr>]
      \<lparr>sc_unit_name_ranges := [\<lparr>range_unit = Some 0, range_type_begin = 0, range_type_end = 0,
        range_function_begin = 0, range_function_end = 1, range_global_begin = 0, range_global_end = 0\<rparr>],
       sc_functions := [\<lparr>fe_name = [0x66], fe_function = None, fe_callable_type = None,
         fe_template_function = None, fe_type_arguments = [], fe_is_generic_template = False,
         fe_unit = Some 0, fe_public = False, fe_index = 0, fe_reference_return_parameter = SIZE_MAX,
         fe_composite_view_return_parameter = SIZE_MAX\<rparr>]\<rparr>)
   \<and> scope_lookup function_table
      (semantic_context_init (\<lambda>_. True) 9 (diagnostic_begin E1100_Internal_Context_Error zero_span)
      [\<lparr>unit_index = 0, unit_path = None, unit_module = \<lparr>module_items = [], module_imports = []\<rparr>,
        unit_imported_indexes = []\<rparr>]
      \<lparr>sc_unit_name_ranges := [\<lparr>range_unit = Some 0, range_type_begin = 0, range_type_end = 0,
        range_function_begin = 0, range_function_end = 1, range_global_begin = 0, range_global_end = 0\<rparr>],
       sc_functions := [\<lparr>fe_name = [0x66], fe_function = None, fe_callable_type = None,
         fe_template_function = None, fe_type_arguments = [], fe_is_generic_template = False,
         fe_unit = Some 0, fe_public = False, fe_index = 0, fe_reference_return_parameter = SIZE_MAX,
         fe_composite_view_return_parameter = SIZE_MAX\<rparr>]\<rparr>) 0 [0x66] (Lookup_Found, Some 0)"
  (is "scoped ?c \<and> scope_lookup _ _ _ _ _")
proof -
  have s: "scoped ?c" "0 < length (sc_units ?c)"
    by (simp_all add: scoped_def collected_def range_selects_def unit_matches_def semantic_context_init_def
        entries_between_def)
  have "name_resolve_function ?c (Some 0) [0x66] = (Lookup_Found, Some 0)"
    by code_simp
  with name_resolution_scope [OF s, of "[0x66]"] s(1) show ?thesis
    by simp
qed

text \<open>
  An enum constructor is found exactly when the chain of its aliases reaches a name the enum
  declares, and what is found is the first constructor of the enum with that name.
\<close>

theorem enum_constructor_resolution:
  assumes "te_unit t = Some u" "te_declaration t = Some d" "decl_body d = Decl_Enum cs"
  shows "name_find_enum_constructor c (Some t) x = Some (i, k) \<longleftrightarrow>
    (\<exists>r. chain_ends (enum_alias_step c t u) x r \<and> i < length cs \<and> k = cs ! i
       \<and> identity_equals (constructor_name k) r
       \<and> (\<forall>j < i. \<not> identity_equals (constructor_name (cs ! j)) r))"
proof -
  have direct: "name_find_direct_enum_constructor (Some t) r = Some (i, k) \<longleftrightarrow>
      i < length cs \<and> k = cs ! i \<and> identity_equals (constructor_name k) r
       \<and> (\<forall>j < i. \<not> identity_equals (constructor_name (cs ! j)) r)" for r
    using assms(2,3) by (auto simp: name_find_direct_enum_constructor_def find_Some_iff)
  have "name_find_enum_constructor c (Some t) x =
      Option.bind (chain_loop (enum_alias_step c t u) (length (map module_alias_target (unit_items c u)) + 1) x)
        (name_find_direct_enum_constructor (Some t))"
    using assms(1) by (simp add: name_find_enum_constructor_def enum_constructor_loop_chain
        del: chain_loop.simps enum_constructor_loop.simps)
  then show ?thesis
    using enum_chain.loop_decides [of c t u x] direct
    by (auto simp: bind_eq_Some_conv simp del: chain_loop.simps length_map)
qed

theorem enum_constructor_resolution_witness:
  "\<exists>k. name_find_enum_constructor
     (semantic_context_init (\<lambda>_. True) 9 (diagnostic_begin E1100_Internal_Context_Error zero_span)
      [\<lparr>unit_index = 0, unit_path = None,
        unit_module = \<lparr>module_items =
          [\<lparr>item_span = zero_span, item_name = [], item_public = False,
            item_body = Item_Alias
              \<lparr>alias_destination = \<lparr>alias_parent = [0x45], alias_name = [0x79]\<rparr>,
               alias_target = \<lparr>alias_parent = [0x45], alias_name = [0x78]\<rparr>\<rparr>\<rparr>],
          module_imports = []\<rparr>,
        unit_imported_indexes = []\<rparr>])
     (Some \<lparr>te_name = [0x45], te_declaration = Some \<lparr>decl_node = 1, decl_name = [0x45],
         decl_type_parameters = [], decl_body = Decl_Enum
          [\<lparr>constructor_name = [0x77], constructor_payload_slots = []\<rparr>,
           \<lparr>constructor_name = [0x78], constructor_payload_slots = []\<rparr>]\<rparr>,
       te_template_declaration = None, te_type_arguments = [], te_is_generic_template = False,
       te_unit = Some 0, te_public = True, te_size = 0, te_alignment = 0, te_layout_state = 0\<rparr>)
     [0x79] = Some (1, k)
   \<and> constructor_name k = [0x78]"
  (is "\<exists>k. name_find_enum_constructor ?c (Some ?t) ?x = _ \<and> _")
proof -
  have step: "enum_alias_step ?c ?t 0 [0x79] = Some [0x78]" "enum_alias_step ?c ?t 0 [0x78] = None"
    "identity_equals [0x78] [0x78]" "\<not> identity_equals [0x77] [0x78]"
    by code_simp+
  then have "chain_ends (enum_alias_step ?c ?t 0) [0x79] [0x78]"
    by (blast intro: chain_ends.intros)
  with step enum_constructor_resolution [of ?t 0 _ _ ?c ?x 1] show ?thesis
    by fastforce
qed

end
