(* ===== verification/Generic.thy ===== *)
theory Generic
  imports Names
begin

text \<open>
  Generic substitution (\<open>src/semantic/generic.c\<close>): copying a type with its parameters replaced,
  and the copies of declarations, expressions, statements and functions that instances are made of.

  Every copied node is a fresh allocation; a copied named type gets a fresh identity and an owner
  fact. Parameters with their arguments are a list of pairs. Lvalues are not copied by the sources
  and not here. The sources check some of the allocations below a node and not others: a copy
  whose unchecked child is null is \<open>Clone_Broken\<close>, and travels upwards like any copy.
\<close>

section \<open>Types\<close>

type_synonym bindings = "(text_slice \<times> ast_type) list"

definition generic_find_parameter :: "bindings \<Rightarrow> text_slice \<Rightarrow> ast_type option" where
  "generic_find_parameter bs name = map_option snd (List.find (\<lambda>(p, _). identity_equals p name) bs)"

text \<open>The identity of the node just allocated.\<close>

definition semantic_fresh :: "semantic_context \<Rightarrow> node \<times> semantic_context" where
  "semantic_fresh c = (sc_next_node c, c\<lparr>sc_next_node := sc_next_node c + 1\<rparr>)"

definition generic_record_type_owner :: "node \<Rightarrow> nat option \<Rightarrow> bool sem" where
  "generic_record_type_owner k u c =
     (case semantic_allocates c of
        (granted, c1) \<Rightarrow>
          if granted
          then (c1\<lparr>sc_type_owners := sc_type_owners c1 @ [\<lparr>owner_type = k, owner_unit = u\<rparr>]\<rparr>, True)
          else (c1, False))"

text \<open>An array is allocated only when it has elements.\<close>

definition generic_array :: "'a list \<Rightarrow> bool sem" where
  "generic_array xs c = (if xs = [] then (c, True) else (\<lambda>(g, c1). (c1, g)) (semantic_allocates c))"

definition effective_owner :: "semantic_context \<Rightarrow> ast_type \<Rightarrow> bindings \<Rightarrow> nat option \<Rightarrow> nat option" where
  "effective_owner c t bs u =
     (let recorded = (if bs = [] then semantic_type_owner_unit c t else None);
          e = (if recorded \<noteq> None then recorded else u)
      in if e = None then sc_active_unit c else e)"

text \<open>The argument a bare parameter name stands for.\<close>

fun bound_argument :: "bindings \<Rightarrow> ast_type \<Rightarrow> ast_type option" where
  "bound_argument bs (Type_Named _ name []) = generic_find_parameter bs name"
| "bound_argument bs _ = None"

lemma no_bound_argument [simp]: "bound_argument [] t = None"
  by (cases "([] :: bindings, t)" rule: bound_argument.cases) (simp_all add: generic_find_parameter_def)

function (sequential) semantic_generic_substitute_type ::
    "ast_type \<Rightarrow> bindings \<Rightarrow> nat option \<Rightarrow> ast_type option sem"
  and semantic_generic_substitute_types ::
    "ast_type list \<Rightarrow> bindings \<Rightarrow> nat option \<Rightarrow> ast_type list option sem" where
  "semantic_generic_substitute_type t bs u c =
     (let e = effective_owner c t bs u
      in case bound_argument bs t of
           Some bound \<Rightarrow> semantic_generic_substitute_type bound [] e c
         | None \<Rightarrow>
             (case semantic_allocates c of
                (False, c1) \<Rightarrow> (c1, None)
              | (True, c1) \<Rightarrow>
                  (case t of
                     Type_Pointer i \<Rightarrow>
                       (case semantic_generic_substitute_type i bs e c1 of
                          (c2, r) \<Rightarrow> (c2, map_option Type_Pointer r))
                   | Type_Reference i \<Rightarrow>
                       (case semantic_generic_substitute_type i bs e c1 of
                          (c2, r) \<Rightarrow> (c2, map_option Type_Reference r))
                   | Type_Vector i \<Rightarrow>
                       (case semantic_generic_substitute_type i bs e c1 of
                          (c2, r) \<Rightarrow> (c2, map_option Type_Vector r))
                   | Type_Box i \<Rightarrow>
                       (case semantic_generic_substitute_type i bs e c1 of
                          (c2, r) \<Rightarrow> (c2, map_option Type_Box r))
                   | Type_Option i \<Rightarrow>
                       (case semantic_generic_substitute_type i bs e c1 of
                          (c2, r) \<Rightarrow> (c2, map_option Type_Option r))
                   | Type_Mutable i \<Rightarrow>
                       (case semantic_generic_substitute_type i bs e c1 of
                          (c2, r) \<Rightarrow> (c2, map_option Type_Mutable r))
                   | Type_Result ok er \<Rightarrow>
                       (case semantic_generic_substitute_type ok bs e c1 of
                          (c2, r) \<Rightarrow>
                            (case semantic_generic_substitute_type er bs e c2 of
                               (c3, s) \<Rightarrow>
                                 (c3, Option.bind r (\<lambda>r. map_option (Type_Result r) s))))
                   | Type_Function ps out \<Rightarrow>
                       (case generic_array ps c1 of
                          (c2, False) \<Rightarrow> (c2, None)
                        | (c2, True) \<Rightarrow>
                            (case semantic_generic_substitute_types ps bs e c2 of
                               (c3, None) \<Rightarrow> (c3, None)
                             | (c3, Some rs) \<Rightarrow>
                                 (case semantic_generic_substitute_type out bs e c3 of
                                    (c4, r) \<Rightarrow> (c4, map_option (Type_Function rs) r))))
                   | Type_Named _ name args \<Rightarrow>
                       (case semantic_fresh c1 of
                          (k, c2) \<Rightarrow>
                            (case generic_array args c2 of
                               (c3, False) \<Rightarrow> (c3, None)
                             | (c3, True) \<Rightarrow>
                                 (case semantic_generic_substitute_types args bs e c3 of
                                    (c4, None) \<Rightarrow> (c4, None)
                                  | (c4, Some rs) \<Rightarrow>
                                      (case generic_record_type_owner k e c4 of
                                         (c5, False) \<Rightarrow> (c5, None)
                                       | (c5, True) \<Rightarrow> (c5, Some (Type_Named k name rs))))))
                   | _ \<Rightarrow> (c1, Some t))))"
| "semantic_generic_substitute_types [] bs u c = (c, Some [])"
| "semantic_generic_substitute_types (t # ts) bs u c =
     (case semantic_generic_substitute_type t bs u c of
        (c1, None) \<Rightarrow> (c1, None)
      | (c1, Some r) \<Rightarrow>
          (case semantic_generic_substitute_types ts bs u c1 of
             (c2, rs) \<Rightarrow> (c2, map_option ((#) r) rs)))"
  by pat_completeness auto

termination semantic_generic_substitute_type
  by (relation "measures
    [\<lambda>x. case x of Inl (t, bs, _) \<Rightarrow> if bs = [] then 0 else 1 | Inr (ts, bs, _) \<Rightarrow> if bs = [] then 0 else 1,
     \<lambda>x. case x of Inl (t, _) \<Rightarrow> size t | Inr (ts, _) \<Rightarrow> size_list size ts]")
    (auto simp: less_Suc_eq_le)

section \<open>Copies of declarations\<close>

text \<open>A slot keeps its span and gets the substituted type.\<close>

definition generic_clone_slot :: "bindings \<Rightarrow> nat option \<Rightarrow> ast_slot \<Rightarrow> ast_slot option sem" where
  "generic_clone_slot bs u s c =
     (case semantic_generic_substitute_type (slot_type s) bs u c of
        (c1, r) \<Rightarrow> (c1, map_option (\<lambda>t. s\<lparr>slot_type := t\<rparr>) r))"

text \<open>A loop over an array that stops at the first failure.\<close>

primrec generic_clone_each ::
    "('a \<Rightarrow> 'a option sem) \<Rightarrow> 'a list \<Rightarrow> 'a list option sem" where
  "generic_clone_each f [] c = (c, Some [])"
| "generic_clone_each f (x # xs) c =
     (case f x c of
        (c1, None) \<Rightarrow> (c1, None)
      | (c1, Some y) \<Rightarrow>
          (case generic_clone_each f xs c1 of
             (c2, ys) \<Rightarrow> (c2, map_option ((#) y) ys)))"

text \<open>The array is allocated first, then filled.\<close>

definition generic_clone_array ::
    "('a \<Rightarrow> 'a option sem) \<Rightarrow> 'a list \<Rightarrow> 'a list option sem" where
  "generic_clone_array f xs c =
     (case generic_array xs c of
        (c1, False) \<Rightarrow> (c1, None)
      | (c1, True) \<Rightarrow> generic_clone_each f xs c1)"

definition generic_clone_field :: "bindings \<Rightarrow> nat option \<Rightarrow> ast_struct_field \<Rightarrow> ast_struct_field option sem" where
  "generic_clone_field bs u f c =
     (case generic_clone_slot bs u (struct_field_slot f) c of
        (c1, r) \<Rightarrow> (c1, map_option (\<lambda>s. f\<lparr>struct_field_slot := s\<rparr>) r))"

definition generic_clone_constructor ::
    "bindings \<Rightarrow> nat option \<Rightarrow> ast_enum_constructor \<Rightarrow> ast_enum_constructor option sem" where
  "generic_clone_constructor bs u k c =
     (case generic_clone_array (generic_clone_slot bs u) (constructor_payload_slots k) c of
        (c1, r) \<Rightarrow> (c1, map_option (\<lambda>ss. k\<lparr>constructor_payload_slots := ss\<rparr>) r))"

definition generic_clone_decl_body ::
    "bindings \<Rightarrow> nat option \<Rightarrow> ast_type_decl_body \<Rightarrow> ast_type_decl_body option sem" where
  "generic_clone_decl_body bs u b c =
     (case b of
        Decl_Alias t \<Rightarrow>
          (case semantic_generic_substitute_type t bs u c of (c1, r) \<Rightarrow> (c1, map_option Decl_Alias r))
      | Decl_Struct fs \<Rightarrow>
          (case generic_clone_array (generic_clone_field bs u) fs c of (c1, r) \<Rightarrow> (c1, map_option Decl_Struct r))
      | Decl_Enum ks \<Rightarrow>
          (case generic_clone_array (generic_clone_constructor bs u) ks c of
             (c1, r) \<Rightarrow> (c1, map_option Decl_Enum r)))"

definition generic_clone_type_declaration ::
    "ast_type_declaration \<Rightarrow> ast_type list \<Rightarrow> nat option \<Rightarrow> ast_type_declaration option sem" where
  "generic_clone_type_declaration d args u c =
     (case semantic_allocates c of
        (False, c1) \<Rightarrow> (c1, None)
      | (True, c1) \<Rightarrow>
          (case semantic_fresh c1 of
             (k, c2) \<Rightarrow>
               (case generic_clone_decl_body (zip (decl_type_parameters d) args) u (decl_body d) c2 of
                  (c3, r) \<Rightarrow>
                    (c3, map_option (\<lambda>b. d\<lparr>decl_node := k, decl_type_parameters := [], decl_body := b\<rparr>) r))))"

section \<open>Copies of expressions and statements\<close>

datatype 'a clone = Cloned 'a | Clone_Failed | Clone_Broken

text \<open>How a parent takes a child: checked for null or not.\<close>

definition clone_checked :: "('a \<Rightarrow> 'b) \<Rightarrow> 'a clone \<Rightarrow> 'b clone" where
  "clone_checked f x = (case x of Cloned a \<Rightarrow> Cloned (f a) | Clone_Failed \<Rightarrow> Clone_Failed | Clone_Broken \<Rightarrow> Clone_Broken)"

definition clone_unchecked :: "('a \<Rightarrow> 'b) \<Rightarrow> 'a clone \<Rightarrow> 'b clone" where
  "clone_unchecked f x = (case x of Cloned a \<Rightarrow> Cloned (f a) | _ \<Rightarrow> Clone_Broken)"

definition clone_unchecked2 :: "('a \<Rightarrow> 'b \<Rightarrow> 'c) \<Rightarrow> 'a clone \<Rightarrow> 'b clone \<Rightarrow> 'c clone" where
  "clone_unchecked2 f x y = (case (x, y) of (Cloned a, Cloned b) \<Rightarrow> Cloned (f a b) | _ \<Rightarrow> Clone_Broken)"

text \<open>A null child the sources take for an absent one.\<close>

definition clone_optional :: "('a option \<Rightarrow> 'b) \<Rightarrow> 'a clone \<Rightarrow> 'b clone" where
  "clone_optional f x =
     (case x of Cloned a \<Rightarrow> Cloned (f (Some a)) | Clone_Failed \<Rightarrow> Cloned (f None) | Clone_Broken \<Rightarrow> Clone_Broken)"

text \<open>The next element of a checked loop: the copy so far with the rest.\<close>

definition clone_cons :: "'a clone \<Rightarrow> 'a list clone \<Rightarrow> 'a list clone" where
  "clone_cons x xs =
     (if x = Clone_Failed \<or> xs = Clone_Failed then Clone_Failed
      else clone_unchecked2 (#) x xs)"

definition generic_clone_header :: "ast_expression_header \<Rightarrow> ast_expression_header" where
  "generic_clone_header h = h\<lparr>expression_contextual_type := None, expression_effects_applied := False\<rparr>"

fun generic_clone_expression :: "bindings \<Rightarrow> nat option \<Rightarrow> ast_expression \<Rightarrow> ast_expression clone sem"
  and generic_clone_expressions :: "bindings \<Rightarrow> nat option \<Rightarrow> ast_expression list \<Rightarrow> ast_expression list clone sem" where
  "generic_clone_expression bs u (Expression_Binary h op l r) c =
     (case semantic_allocates c of
        (False, c1) \<Rightarrow> (c1, Clone_Failed)
      | (True, c1) \<Rightarrow>
          (case generic_clone_expression bs u l c1 of
             (c2, x) \<Rightarrow>
               (case generic_clone_expression bs u r c2 of
                  (c3, y) \<Rightarrow> (c3, clone_unchecked2 (Expression_Binary (generic_clone_header h) op) x y))))"
| "generic_clone_expression bs u (Expression_Unary h op e) c =
     (case semantic_allocates c of
        (False, c1) \<Rightarrow> (c1, Clone_Failed)
      | (True, c1) \<Rightarrow>
          (case generic_clone_expression bs u e c1 of
             (c2, x) \<Rightarrow> (c2, clone_unchecked (Expression_Unary (generic_clone_header h) op) x)))"
| "generic_clone_expression bs u (Expression_Call h callee args index) c =
     (case semantic_allocates c of
        (False, c1) \<Rightarrow> (c1, Clone_Failed)
      | (True, c1) \<Rightarrow>
          (case generic_array args c1 of
             (c2, False) \<Rightarrow> (c2, Clone_Failed)
           | (c2, True) \<Rightarrow>
               (case generic_clone_expressions bs u args c2 of
                  (c3, xs) \<Rightarrow>
                    (c3, clone_checked (\<lambda>xs. Expression_Call (generic_clone_header h) callee xs SIZE_MAX) xs))))"
| "generic_clone_expression bs u (Expression_Conversion h e t) c =
     (case semantic_allocates c of
        (False, c1) \<Rightarrow> (c1, Clone_Failed)
      | (True, c1) \<Rightarrow>
          (case generic_clone_expression bs u e c1 of
             (c2, x) \<Rightarrow>
               (case semantic_generic_substitute_type t bs u c2 of
                  (c3, r) \<Rightarrow>
                    (c3, (case r of
                            None \<Rightarrow> Clone_Broken
                          | Some t' \<Rightarrow> clone_unchecked (\<lambda>e. Expression_Conversion (generic_clone_header h) e t') x)))))"
| "generic_clone_expression bs u (Expression_Atom h a) c =
     (case semantic_allocates c of
        (False, c1) \<Rightarrow> (c1, Clone_Failed)
      | (True, c1) \<Rightarrow> (c1, Cloned (Expression_Atom (generic_clone_header h) a)))"
| "generic_clone_expressions bs u [] c = (c, Cloned [])"
| "generic_clone_expressions bs u (e # es) c =
     (case generic_clone_expression bs u e c of
        (c1, Clone_Failed) \<Rightarrow> (c1, Clone_Failed)
      | (c1, x) \<Rightarrow>
          (case generic_clone_expressions bs u es c1 of (c2, xs) \<Rightarrow> (c2, clone_cons x xs)))"

primrec generic_clone_inputs ::
    "bindings \<Rightarrow> nat option \<Rightarrow> (text_slice \<times> ast_expression) list \<Rightarrow> (text_slice \<times> ast_expression) list clone sem" where
  "generic_clone_inputs bs u [] c = (c, Cloned [])"
| "generic_clone_inputs bs u (f # fs) c =
     (case generic_clone_expression bs u (snd f) c of
        (c1, Clone_Failed) \<Rightarrow> (c1, Clone_Failed)
      | (c1, x) \<Rightarrow>
          (case generic_clone_inputs bs u fs c1 of
             (c2, xs) \<Rightarrow> (c2, clone_cons (clone_checked (Pair (fst f)) x) xs)))"

text \<open>
  In a variable declaration without a type the substitution of the null type is null again, without
  an allocation; with one, a failed substitution leaves the declaration without a type.
\<close>

fun generic_clone_statement :: "bindings \<Rightarrow> nat option \<Rightarrow> ast_statement \<Rightarrow> ast_statement clone sem"
  and generic_clone_block :: "bindings \<Rightarrow> nat option \<Rightarrow> ast_block \<Rightarrow> ast_block clone sem"
  and generic_clone_statements :: "bindings \<Rightarrow> nat option \<Rightarrow> ast_statement list \<Rightarrow> ast_statement list clone sem"
  and generic_clone_cases ::
    "bindings \<Rightarrow> nat option \<Rightarrow> (ast_pattern \<times> ast_block) list \<Rightarrow> (ast_pattern \<times> ast_block) list clone sem" where
  "generic_clone_statement bs u (Statement_Variable sp d) c =
     (case semantic_allocates c of
        (False, c1) \<Rightarrow> (c1, Clone_Failed)
      | (True, c1) \<Rightarrow>
          (case slot_type (variable_slot d) of
             None \<Rightarrow> (c1, Cloned (Statement_Variable sp d))
           | Some t \<Rightarrow>
               (case semantic_generic_substitute_type t bs u c1 of
                  (c2, r) \<Rightarrow>
                    (c2, Cloned (Statement_Variable sp (d\<lparr>variable_slot := (variable_slot d)\<lparr>slot_type := r\<rparr>\<rparr>))))))"
| "generic_clone_statement bs u (Statement_Copy sp l e) c =
     (case semantic_allocates c of
        (False, c1) \<Rightarrow> (c1, Clone_Failed)
      | (True, c1) \<Rightarrow>
          (case generic_clone_expression bs u e c1 of
             (c2, x) \<Rightarrow> (c2, clone_unchecked (Statement_Copy sp l) x)))"
| "generic_clone_statement bs u (Statement_Unsafe sp b) c =
     (case semantic_allocates c of
        (False, c1) \<Rightarrow> (c1, Clone_Failed)
      | (True, c1) \<Rightarrow>
          (case generic_clone_block bs u b c1 of
             (c2, x) \<Rightarrow> (c2, clone_unchecked (Statement_Unsafe sp) x)))"
| "generic_clone_statement bs u (Statement_While sp e b) c =
     (case semantic_allocates c of
        (False, c1) \<Rightarrow> (c1, Clone_Failed)
      | (True, c1) \<Rightarrow>
          (case generic_clone_expression bs u e c1 of
             (c2, x) \<Rightarrow>
               (case generic_clone_block bs u b c2 of
                  (c3, y) \<Rightarrow> (c3, clone_unchecked2 (Statement_While sp) x y))))"
| "generic_clone_statement bs u (Statement_If sp e b alt) c =
     (case semantic_allocates c of
        (False, c1) \<Rightarrow> (c1, Clone_Failed)
      | (True, c1) \<Rightarrow>
          (case generic_clone_expression bs u e c1 of
             (c2, x) \<Rightarrow>
               (case generic_clone_block bs u b c2 of
                  (c3, y) \<Rightarrow>
                    (case alt of
                       None \<Rightarrow> (c3, clone_unchecked2 (\<lambda>e b. Statement_If sp e b None) x y)
                     | Some a \<Rightarrow>
                         (case generic_clone_block bs u a c3 of
                            (c4, z) \<Rightarrow>
                              (c4, (case clone_unchecked2 Pair x y of
                                      Cloned (e', b') \<Rightarrow> clone_optional (Statement_If sp e' b') z
                                    | _ \<Rightarrow> Clone_Broken)))))))"
| "generic_clone_statement bs u (Statement_Match sp e cs) c =
     (case semantic_allocates c of
        (False, c1) \<Rightarrow> (c1, Clone_Failed)
      | (True, c1) \<Rightarrow>
          (case generic_clone_expression bs u e c1 of
             (c2, x) \<Rightarrow>
               (case generic_array cs c2 of
                  (c3, False) \<Rightarrow> (c3, Clone_Failed)
                | (c3, True) \<Rightarrow>
                    (case generic_clone_cases bs u cs c3 of
                       (c4, ys) \<Rightarrow> (c4, clone_unchecked2 (Statement_Match sp) x ys)))))"
| "generic_clone_statement bs u (Statement_Return sp e) c =
     (case semantic_allocates c of
        (False, c1) \<Rightarrow> (c1, Clone_Failed)
      | (True, c1) \<Rightarrow>
          (case e of
             None \<Rightarrow> (c1, Cloned (Statement_Return sp None))
           | Some e \<Rightarrow>
               (case generic_clone_expression bs u e c1 of
                  (c2, x) \<Rightarrow> (c2, clone_optional (Statement_Return sp) x))))"
| "generic_clone_statement bs u (Statement_Initialize_Record sp l fs) c =
     (case semantic_allocates c of
        (False, c1) \<Rightarrow> (c1, Clone_Failed)
      | (True, c1) \<Rightarrow>
          (case generic_array fs c1 of
             (c2, False) \<Rightarrow> (c2, Clone_Failed)
           | (c2, True) \<Rightarrow>
               (case generic_clone_inputs bs u fs c2 of
                  (c3, xs) \<Rightarrow> (c3, clone_checked (Statement_Initialize_Record sp l) xs))))"
| "generic_clone_statement bs u s c =
     (case semantic_allocates c of
        (False, c1) \<Rightarrow> (c1, Clone_Failed)
      | (True, c1) \<Rightarrow> (c1, Cloned s))"
| "generic_clone_block bs u (Block sp ss) c =
     (case semantic_allocates c of
        (False, c1) \<Rightarrow> (c1, Clone_Failed)
      | (True, c1) \<Rightarrow>
          (case generic_array ss c1 of
             (c2, False) \<Rightarrow> (c2, Clone_Failed)
           | (c2, True) \<Rightarrow>
               (case generic_clone_statements bs u ss c2 of
                  (c3, xs) \<Rightarrow> (c3, clone_checked (Block sp) xs))))"
| "generic_clone_statements bs u [] c = (c, Cloned [])"
| "generic_clone_statements bs u (s # ss) c =
     (case generic_clone_statement bs u s c of
        (c1, Clone_Failed) \<Rightarrow> (c1, Clone_Failed)
      | (c1, x) \<Rightarrow>
          (case generic_clone_statements bs u ss c1 of (c2, xs) \<Rightarrow> (c2, clone_cons x xs)))"
| "generic_clone_cases bs u [] c = (c, Cloned [])"
| "generic_clone_cases bs u (k # ks) c =
     (case generic_clone_block bs u (snd k) c of
        (c1, x) \<Rightarrow>
          (case generic_clone_cases bs u ks c1 of
             (c2, xs) \<Rightarrow> (c2, clone_unchecked2 (\<lambda>b ys. (fst k, b) # ys) x xs)))"

section \<open>Copies of functions\<close>

definition generic_clone_parameter ::
    "bindings \<Rightarrow> nat option \<Rightarrow> ast_function_parameter \<Rightarrow> ast_function_parameter option sem" where
  "generic_clone_parameter bs u p c =
     (case generic_clone_slot bs u (parameter_slot p) c of
        (c1, r) \<Rightarrow> (c1, map_option (\<lambda>s. p\<lparr>parameter_slot := s\<rparr>) r))"

definition generic_clone_function :: "ast_function \<Rightarrow> ast_type list \<Rightarrow> nat option \<Rightarrow> ast_function clone sem" where
  "generic_clone_function f args u c =
     (let bs = zip (function_type_parameters f) args
      in case semantic_allocates c of
           (False, c1) \<Rightarrow> (c1, Clone_Failed)
         | (True, c1) \<Rightarrow>
             (case semantic_fresh c1 of
                (k, c2) \<Rightarrow>
                  (case generic_clone_array (generic_clone_parameter bs u) (function_parameters f) c2 of
                     (c3, None) \<Rightarrow> (c3, Clone_Failed)
                   | (c3, Some ps) \<Rightarrow>
                       (case generic_clone_slot bs u (function_output f) c3 of
                          (c4, None) \<Rightarrow> (c4, Clone_Failed)
                        | (c4, Some out) \<Rightarrow>
                            (let g = f\<lparr>function_node := k, function_type_parameters := [],
                                       function_parameters := ps, function_output := out\<rparr>
                             in case function_body f of
                                  None \<Rightarrow> (c4, Cloned (g\<lparr>function_body := None\<rparr>))
                                | Some b \<Rightarrow>
                                    (case generic_clone_block bs u b c4 of
                                       (c5, x) \<Rightarrow> (c5, clone_checked (\<lambda>b. g\<lparr>function_body := Some b\<rparr>) x)))))))"

section \<open>Successful substitutions\<close>

definition type_wrappers :: "(ast_type \<Rightarrow> ast_type) set" where
  "type_wrappers = {Type_Pointer, Type_Reference, Type_Vector, Type_Box, Type_Option, Type_Mutable}"

primrec type_is_leaf :: "ast_type \<Rightarrow> bool" where
  "type_is_leaf Type_Any = True"
| "type_is_leaf Type_Boolean = True"
| "type_is_leaf (Type_Machine m) = True"
| "type_is_leaf Type_Integer = True"
| "type_is_leaf Type_Unsigned_Integer = True"
| "type_is_leaf Type_Character = True"
| "type_is_leaf Type_String = True"
| "type_is_leaf Type_Void = True"
| "type_is_leaf (Type_Box i) = False"
| "type_is_leaf (Type_Option i) = False"
| "type_is_leaf (Type_Result ok er) = False"
| "type_is_leaf (Type_Function ps out) = False"
| "type_is_leaf (Type_Named k n as) = False"
| "type_is_leaf (Type_Pointer i) = False"
| "type_is_leaf (Type_Reference i) = False"
| "type_is_leaf (Type_Vector i) = False"
| "type_is_leaf (Type_Mutable i) = False"

text \<open>
  The runs that succeed, as a relation from a context and a type to a context and its copy: what
  follows about them is proved by rule induction.
\<close>

inductive substitutes ::
    "bindings \<Rightarrow> nat option \<Rightarrow> semantic_context \<Rightarrow> ast_type \<Rightarrow> semantic_context \<Rightarrow> ast_type \<Rightarrow> bool"
  and substitutes_all ::
    "bindings \<Rightarrow> nat option \<Rightarrow> semantic_context \<Rightarrow> ast_type list \<Rightarrow> semantic_context \<Rightarrow> ast_type list \<Rightarrow> bool"
where
  sub_bound: "bound_argument bs t = Some b \<Longrightarrow> substitutes [] (effective_owner c t bs u) c b c1 r \<Longrightarrow>
      substitutes bs u c t c1 r"
| sub_leaf: "type_is_leaf t \<Longrightarrow> semantic_allocates c = (True, c1) \<Longrightarrow> substitutes bs u c t c1 t"
| sub_wrap: "F \<in> type_wrappers \<Longrightarrow> semantic_allocates c = (True, c1) \<Longrightarrow>
      substitutes bs (effective_owner c (F i) bs u) c1 i c2 r \<Longrightarrow> substitutes bs u c (F i) c2 (F r)"
| sub_result: "semantic_allocates c = (True, c1) \<Longrightarrow>
      substitutes bs (effective_owner c (Type_Result ok er) bs u) c1 ok c2 r \<Longrightarrow>
      substitutes bs (effective_owner c (Type_Result ok er) bs u) c2 er c3 s \<Longrightarrow>
      substitutes bs u c (Type_Result ok er) c3 (Type_Result r s)"
| sub_function: "semantic_allocates c = (True, c1) \<Longrightarrow> generic_array ps c1 = (c2, True) \<Longrightarrow>
      substitutes_all bs (effective_owner c (Type_Function ps out) bs u) c2 ps c3 rs \<Longrightarrow>
      substitutes bs (effective_owner c (Type_Function ps out) bs u) c3 out c4 r \<Longrightarrow>
      substitutes bs u c (Type_Function ps out) c4 (Type_Function rs r)"
| sub_named: "bound_argument bs (Type_Named k name args) = None \<Longrightarrow> semantic_allocates c = (True, c1) \<Longrightarrow>
      semantic_fresh c1 = (k', c2) \<Longrightarrow> generic_array args c2 = (c3, True) \<Longrightarrow>
      substitutes_all bs (effective_owner c (Type_Named k name args) bs u) c3 args c4 rs \<Longrightarrow>
      generic_record_type_owner k' (effective_owner c (Type_Named k name args) bs u) c4 = (c5, True) \<Longrightarrow>
      substitutes bs u c (Type_Named k name args) c5 (Type_Named k' name rs)"
| sub_nil: "substitutes_all bs u c [] c []"
| sub_cons: "substitutes bs u c t c1 r \<Longrightarrow> substitutes_all bs u c1 ts c2 rs \<Longrightarrow>
      substitutes_all bs u c (t # ts) c2 (r # rs)"

lemma bound_argument_named: "bound_argument bs t = Some b \<Longrightarrow> \<exists>k name. t = Type_Named k name []"
  by (cases "(bs, t)" rule: bound_argument.cases) auto

declare semantic_generic_substitute_type.simps [simp del]

lemma substitutes_all_of:
  assumes "\<And>t u c c1 r. t \<in> set ts \<Longrightarrow> semantic_generic_substitute_type t bs u c = (c1, Some r) \<Longrightarrow>
      substitutes bs u c t c1 r"
  shows "semantic_generic_substitute_types ts bs u c = (c1, Some rs) \<Longrightarrow> substitutes_all bs u c ts c1 rs"
  using assms
proof (induction ts arbitrary: c rs)
  case (Cons t ts)
  from Cons.prems(1) obtain c2 r rs' where
    "semantic_generic_substitute_type t bs u c = (c2, Some r)"
    "semantic_generic_substitute_types ts bs u c2 = (c1, Some rs')" "rs = r # rs'"
    by (auto split: prod.splits option.splits)
  with Cons.IH [of c2 rs'] Cons.prems(2) have "substitutes bs u c t c2 r" "substitutes_all bs u c2 ts c1 rs'"
    by simp_all
  with \<open>rs = r # rs'\<close> show ?case
    by (simp add: sub_cons)
qed (auto intro: sub_nil)

lemma type_wrappers_iff [simp]:
  "Type_Pointer \<in> type_wrappers" "Type_Reference \<in> type_wrappers" "Type_Vector \<in> type_wrappers"
  "Type_Box \<in> type_wrappers" "Type_Option \<in> type_wrappers" "Type_Mutable \<in> type_wrappers"
  by (simp_all add: type_wrappers_def)

lemma substitute_leaf:
  "type_is_leaf t \<Longrightarrow> semantic_generic_substitute_type t bs u c = (c1, Some r) \<Longrightarrow>
     substitutes bs u c t c1 r"
  by (rule sub_leaf [where t = t, of c c1 bs u, THEN back_subst [of "substitutes bs u c t c1" t r]];
      cases t; subst (asm) semantic_generic_substitute_type.simps; simp add: Let_def split: prod.splits bool.splits)

lemma substitute_wrapper_eq:
  "F \<in> type_wrappers \<Longrightarrow> semantic_generic_substitute_type (F i) bs u c =
      (case semantic_allocates c of
         (False, c1) \<Rightarrow> (c1, None)
       | (True, c1) \<Rightarrow>
           (case semantic_generic_substitute_type i bs (effective_owner c (F i) bs u) c1 of
              (c2, r) \<Rightarrow> (c2, map_option F r)))"
  by (subst semantic_generic_substitute_type.simps)
    (auto simp: type_wrappers_def Let_def split: prod.split bool.split)

lemma substitute_wrapper:
  assumes "F \<in> type_wrappers"
    and "\<And>u c c1 r. semantic_generic_substitute_type i bs u c = (c1, Some r) \<Longrightarrow> substitutes bs u c i c1 r"
    and "semantic_generic_substitute_type (F i) bs u c = (c1, Some r)"
  shows "substitutes bs u c (F i) c1 r"
proof -
  from assms(1,3) obtain c0 s where "semantic_allocates c = (True, c0)" "r = F s"
    "semantic_generic_substitute_type i bs (effective_owner c (F i) bs u) c0 = (c1, Some s)"
    by (auto simp: substitute_wrapper_eq split: prod.splits bool.splits)
  with assms(1,2) show ?thesis
    by (auto intro: sub_wrap)
qed

lemma substitute_type_step:
  assumes bound: "\<And>t b u c c1 r. bound_argument bs t = Some b \<Longrightarrow>
      semantic_generic_substitute_type b [] u c = (c1, Some r) \<Longrightarrow> substitutes [] u c b c1 r"
  shows "semantic_generic_substitute_type t bs u c = (c1, Some r) \<Longrightarrow> substitutes bs u c t c1 r"
proof (induction t arbitrary: u c c1 r)
  case (Type_Result ok er)
  then show ?case
    by (subst (asm) semantic_generic_substitute_type.simps)
      (auto simp: Let_def bind_eq_Some_conv split: prod.splits bool.splits intro!: sub_result)
next
  case (Type_Function ps out)
  then show ?case
    by (subst (asm) semantic_generic_substitute_type.simps)
      (auto simp: Let_def split: prod.splits bool.splits option.splits
        intro!: sub_function intro: substitutes_all_of)
next
  case (Type_Named k name args)
  show ?case
  proof (cases "bound_argument bs (Type_Named k name args)")
    case (Some b)
    with Type_Named.prems show ?thesis
      by (subst (asm) semantic_generic_substitute_type.simps)
        (auto simp: Let_def intro: sub_bound bound)
  next
    case None
    with Type_Named show ?thesis
      by (subst (asm) semantic_generic_substitute_type.simps)
        (auto simp: Let_def split: prod.splits bool.splits option.splits
          intro!: sub_named intro: substitutes_all_of)
  qed
next
  case (Type_Pointer i)
  then show ?case
    by (intro substitute_wrapper [where F = Type_Pointer]) simp_all
next
  case (Type_Reference i)
  then show ?case
    by (intro substitute_wrapper [where F = Type_Reference]) simp_all
next
  case (Type_Vector i)
  then show ?case
    by (intro substitute_wrapper [where F = Type_Vector]) simp_all
next
  case (Type_Box i)
  then show ?case
    by (intro substitute_wrapper [where F = Type_Box]) simp_all
next
  case (Type_Option i)
  then show ?case
    by (intro substitute_wrapper [where F = Type_Option]) simp_all
next
  case (Type_Mutable i)
  then show ?case
    by (intro substitute_wrapper [where F = Type_Mutable]) simp_all
qed (auto intro: substitute_leaf)

lemma substitute_type_substitutes:
  "semantic_generic_substitute_type t bs u c = (c1, Some r) \<Longrightarrow> substitutes bs u c t c1 r"
  using substitute_type_step [of bs] substitute_type_step [of "[]"] by fastforce

section \<open>What a substitution returns\<close>

text \<open>The substitution as a function of the type alone.\<close>

fun subst_type :: "bindings \<Rightarrow> ast_type \<Rightarrow> ast_type" where
  "subst_type bs (Type_Pointer i) = Type_Pointer (subst_type bs i)"
| "subst_type bs (Type_Reference i) = Type_Reference (subst_type bs i)"
| "subst_type bs (Type_Vector i) = Type_Vector (subst_type bs i)"
| "subst_type bs (Type_Box i) = Type_Box (subst_type bs i)"
| "subst_type bs (Type_Option i) = Type_Option (subst_type bs i)"
| "subst_type bs (Type_Mutable i) = Type_Mutable (subst_type bs i)"
| "subst_type bs (Type_Result ok er) = Type_Result (subst_type bs ok) (subst_type bs er)"
| "subst_type bs (Type_Function ps out) = Type_Function (map (subst_type bs) ps) (subst_type bs out)"
| "subst_type bs (Type_Named k name args) =
     (case bound_argument bs (Type_Named k name args) of
        Some b \<Rightarrow> b
      | None \<Rightarrow> Type_Named k name (map (subst_type bs) args))"
| "subst_type bs t = t"

text \<open>A type without the identities of its nodes.\<close>

primrec erase_nodes :: "ast_type \<Rightarrow> ast_type" where
  "erase_nodes (Type_Pointer i) = Type_Pointer (erase_nodes i)"
| "erase_nodes (Type_Reference i) = Type_Reference (erase_nodes i)"
| "erase_nodes (Type_Vector i) = Type_Vector (erase_nodes i)"
| "erase_nodes (Type_Box i) = Type_Box (erase_nodes i)"
| "erase_nodes (Type_Option i) = Type_Option (erase_nodes i)"
| "erase_nodes (Type_Mutable i) = Type_Mutable (erase_nodes i)"
| "erase_nodes (Type_Result ok er) = Type_Result (erase_nodes ok) (erase_nodes er)"
| "erase_nodes (Type_Function ps out) = Type_Function (map erase_nodes ps) (erase_nodes out)"
| "erase_nodes (Type_Named k name args) = Type_Named 0 name (map erase_nodes args)"
| "erase_nodes Type_Any = Type_Any"
| "erase_nodes Type_Boolean = Type_Boolean"
| "erase_nodes (Type_Machine m) = Type_Machine m"
| "erase_nodes Type_Integer = Type_Integer"
| "erase_nodes Type_Unsigned_Integer = Type_Unsigned_Integer"
| "erase_nodes Type_Character = Type_Character"
| "erase_nodes Type_String = Type_String"
| "erase_nodes Type_Void = Type_Void"

lemma subst_type_empty [simp]: "subst_type [] t = t"
  by (induction t) (simp_all add: map_idI)

lemma subst_type_leaf: "type_is_leaf t \<Longrightarrow> subst_type bs t = t"
  by (cases t) simp_all

lemma subst_type_bound: "bound_argument bs t = Some b \<Longrightarrow> subst_type bs t = b"
  using bound_argument_named [of bs t b] by auto

lemma subst_type_wrapper: "F \<in> type_wrappers \<Longrightarrow> subst_type bs (F i) = F (subst_type bs i)"
  by (auto simp: type_wrappers_def)

lemma erase_nodes_wrapper: "F \<in> type_wrappers \<Longrightarrow> erase_nodes (F i) = F (erase_nodes i)"
  by (auto simp: type_wrappers_def)

lemma substitutes_value:
  "substitutes bs u c t c1 r \<Longrightarrow> erase_nodes r = erase_nodes (subst_type bs t)"
  "substitutes_all bs u c ts c1 rs \<Longrightarrow> map erase_nodes rs = map (erase_nodes \<circ> subst_type bs) ts"
  by (induction rule: substitutes_substitutes_all.inducts)
    (simp_all add: subst_type_leaf subst_type_bound subst_type_wrapper erase_nodes_wrapper)

section \<open>Whose unit a copied name belongs to\<close>

text \<open>
  Each named node of a copy comes from the template or from a node of an argument, in the order
  of \<open>type_nodes\<close>.
\<close>

datatype node_origin = From_Template | From_Argument node

fun template_origins :: "bindings \<Rightarrow> ast_type \<Rightarrow> node_origin list" where
  "template_origins bs (Type_Pointer i) = template_origins bs i"
| "template_origins bs (Type_Reference i) = template_origins bs i"
| "template_origins bs (Type_Vector i) = template_origins bs i"
| "template_origins bs (Type_Box i) = template_origins bs i"
| "template_origins bs (Type_Option i) = template_origins bs i"
| "template_origins bs (Type_Mutable i) = template_origins bs i"
| "template_origins bs (Type_Result ok er) = template_origins bs ok @ template_origins bs er"
| "template_origins bs (Type_Function ps out) = concat (map (template_origins bs) ps) @ template_origins bs out"
| "template_origins bs (Type_Named k name args) =
     (case bound_argument bs (Type_Named k name args) of
        Some b \<Rightarrow> map From_Argument (type_nodes b)
      | None \<Rightarrow> From_Template # concat (map (template_origins bs) args))"
| "template_origins bs t = []"

definition node_origins :: "bindings \<Rightarrow> ast_type \<Rightarrow> node_origin list" where
  "node_origins bs t = (if bs = [] then map From_Argument (type_nodes t) else template_origins bs t)"

definition owner_of :: "semantic_context \<Rightarrow> node \<Rightarrow> nat option" where
  "owner_of c k = semantic_type_owner_unit c (Type_Named k [] [])"

definition facts_ok :: "semantic_context \<Rightarrow> bool" where
  "facts_ok c \<longleftrightarrow> distinct (map owner_type (sc_type_owners c))
     \<and> (\<forall>f \<in> set (sc_type_owners c). owner_type f < sc_next_node c)"

definition facts_extend :: "semantic_context \<Rightarrow> semantic_context \<Rightarrow> bool" where
  "facts_extend c c1 \<longleftrightarrow> facts_ok c1 \<and> owner_map c \<subseteq>\<^sub>m owner_map c1
     \<and> sc_next_node c \<le> sc_next_node c1 \<and> sc_active_unit c1 = sc_active_unit c"

lemma owner_of_map: "facts_ok c \<Longrightarrow> owner_of c k = Option.bind (owner_map c k) id"
  by (simp add: owner_of_def owner_unit_map facts_ok_def)

lemma dom_owner_map: "dom (owner_map c) = owner_type ` set (sc_type_owners c)"
  by (simp add: owner_map_def dom_map_of_conv_image_fst image_image)

definition facts_from :: "node \<Rightarrow> semantic_context \<Rightarrow> semantic_context \<Rightarrow> bool" where
  "facts_from n c c1 \<longleftrightarrow> dom (owner_map c1) \<subseteq> dom (owner_map c) \<union> {n..}"

lemma facts_from_trans: "facts_from n c c1 \<Longrightarrow> facts_from m c1 c2 \<Longrightarrow> n \<le> m \<Longrightarrow> facts_from n c c2"
  by (fastforce simp: facts_from_def)

lemma facts_extend_refl: "facts_ok c \<Longrightarrow> facts_extend c c"
  by (simp add: facts_extend_def)

lemma facts_extend_dom: "facts_extend c c1 \<Longrightarrow> dom (owner_map c) \<subseteq> dom (owner_map c1)"
  by (auto simp: facts_extend_def dest!: map_le_implies_dom_le)

lemma facts_extend_trans: "facts_extend c c1 \<Longrightarrow> facts_extend c1 c2 \<Longrightarrow> facts_extend c c2"
  by (auto simp: facts_extend_def intro: map_le_trans)

lemma owner_of_extend:
  assumes "facts_ok c" "facts_extend c c1" "k \<in> dom (owner_map c)"
  shows "owner_of c1 k = owner_of c k"
  using assms by (auto simp: owner_of_map facts_extend_def map_le_def)

lemma allocates_facts:
  "semantic_allocates c = (g, c1) \<Longrightarrow> facts_ok c \<Longrightarrow> facts_extend c c1 \<and> facts_from n c c1"
  by (auto simp: semantic_allocates_def facts_extend_def facts_ok_def owner_map_def facts_from_def)

lemma array_facts:
  "generic_array xs c = (c1, g) \<Longrightarrow> facts_ok c \<Longrightarrow> facts_extend c c1 \<and> facts_from n c c1"
  using allocates_facts [of c g c1 n]
  by (auto simp: generic_array_def facts_from_def facts_extend_refl split: if_splits prod.splits)

lemma fresh_facts: "semantic_fresh c = (k, c1) \<Longrightarrow> facts_ok c \<Longrightarrow>
    facts_extend c c1 \<and> facts_from n c c1 \<and> k < sc_next_node c1 \<and> k \<notin> dom (owner_map c1) \<and> sc_next_node c = k"
  by (auto simp: semantic_fresh_def facts_extend_def facts_ok_def facts_from_def dom_owner_map less_Suc_eq)
    (simp add: owner_map_def)

lemma record_facts:
  assumes "generic_record_type_owner k u c = (c1, True)" "facts_ok c" "k < sc_next_node c" "k \<notin> dom (owner_map c)"
  shows "facts_extend c c1 \<and> facts_from k c c1 \<and> owner_map c1 k = Some u"
proof -
  obtain g c' where a: "semantic_allocates c = (g, c')"
    by fastforce
  then have c1: "sc_type_owners c1 = sc_type_owners c @ [\<lparr>owner_type = k, owner_unit = u\<rparr>]"
      "sc_next_node c1 = sc_next_node c" "sc_active_unit c1 = sc_active_unit c"
    using assms(1) by (auto simp: generic_record_type_owner_def semantic_allocates_def split: if_splits)
  then have "facts_ok c1"
    using assms(2-4) by (auto simp: facts_ok_def dom_owner_map)
  moreover have "owner_map c1 = owner_map c ++ [k \<mapsto> u]"
    using c1(1) assms(4) by (auto simp: owner_map_def fun_eq_iff map_add_def split: option.splits)
  ultimately show ?thesis
    using assms(4) c1 by (auto simp: facts_extend_def facts_from_def map_le_def map_add_def)
qed

text \<open>What a run leaves: the copied nodes are new, and each is owned as its origin says.\<close>

definition default_owner :: "semantic_context \<Rightarrow> nat option \<Rightarrow> nat option" where
  "default_owner c u = (if u = None then sc_active_unit c else u)"

definition origin_owner :: "semantic_context \<Rightarrow> nat option \<Rightarrow> node_origin \<Rightarrow> nat option" where
  "origin_owner c e q = (case q of From_Template \<Rightarrow> e | From_Argument k \<Rightarrow> owner_of c k)"

definition copied :: "semantic_context \<Rightarrow> nat option \<Rightarrow> node list \<Rightarrow> node_origin list \<Rightarrow> semantic_context \<Rightarrow> bool" where
  "copied c e ks qs c1 \<longleftrightarrow> facts_extend c c1 \<and> facts_from (sc_next_node c) c c1
     \<and> set ks \<subseteq> dom (owner_map c1) \<inter> {sc_next_node c..}
     \<and> map (owner_of c1) ks = map (origin_owner c e) qs"

definition recorded :: "semantic_context \<Rightarrow> node list \<Rightarrow> bool" where
  "recorded c ks \<longleftrightarrow> (\<forall>k \<in> set ks. owner_of c k \<noteq> None)"

lemma recorded_dom: "facts_ok c \<Longrightarrow> recorded c ks \<Longrightarrow> k \<in> set ks \<Longrightarrow> k \<in> dom (owner_map c)"
  by (fastforce simp: recorded_def owner_of_map bind_eq_Some_conv)

lemma recorded_extend: "facts_ok c \<Longrightarrow> facts_extend c c1 \<Longrightarrow> recorded c ks \<Longrightarrow> recorded c1 ks"
  using recorded_dom owner_of_extend by (fastforce simp: recorded_def)

text \<open>The nodes an origin list draws on.\<close>

definition origin_nodes :: "node_origin list \<Rightarrow> node list" where
  "origin_nodes qs = concat (map (\<lambda>q. case q of From_Template \<Rightarrow> [] | From_Argument k \<Rightarrow> [k]) qs)"

lemma origin_nodes_simps [simp]:
  "origin_nodes [] = []" "origin_nodes (From_Template # qs) = origin_nodes qs"
  "origin_nodes (From_Argument k # qs) = k # origin_nodes qs"
  "origin_nodes (ps @ qs) = origin_nodes ps @ origin_nodes qs"
  "origin_nodes (map From_Argument ks) = ks"
  by (simp_all add: origin_nodes_def comp_def)

lemma origin_owner_extend:
  assumes "facts_ok c" "facts_extend c c1" "recorded c (origin_nodes qs)"
  shows "map (origin_owner c1 e) qs = map (origin_owner c e) qs"
  using assms(3)
proof (induction qs)
  case (Cons q qs)
  then show ?case
    using owner_of_extend [OF assms(1,2)] recorded_dom [OF assms(1) Cons.prems]
    by (cases q) (simp_all add: origin_owner_def recorded_def)
qed simp

lemma copied_trans:
  assumes "facts_ok c" "copied c e ks qs c1" "copied c1 e ls ps c2" "recorded c (origin_nodes ps)"
  shows "copied c e (ks @ ls) (qs @ ps) c2"
proof -
  have "owner_of c2 k = owner_of c1 k" if "k \<in> set ks" for k
    using assms(2,3) that by (intro owner_of_extend) (auto simp: copied_def facts_extend_def)
  then have "map (owner_of c2) ks = map (origin_owner c e) qs"
    using assms(2) by (simp add: copied_def flip: map_map cong: map_cong)
  moreover have "map (owner_of c2) ls = map (origin_owner c e) ps"
    using assms origin_owner_extend by (simp add: copied_def)
  moreover have "dom (owner_map c1) \<subseteq> dom (owner_map c2)"
    using assms(3) by (auto simp: copied_def facts_extend_def map_le_def dom_def)
  then have "set ks \<subseteq> dom (owner_map c2)"
    using assms(2) unfolding copied_def by blast
  ultimately show ?thesis
    using assms(2,3) facts_extend_trans [of c c1 c2] facts_from_trans [of "sc_next_node c" c c1 "sc_next_node c1" c2]
    by (auto simp: copied_def facts_extend_def)
qed

lemma copied_refl: "facts_ok c \<Longrightarrow> copied c e [] [] c"
  by (simp add: copied_def facts_extend_refl facts_from_def)

lemma copied_extend:
  "facts_ok c \<Longrightarrow> facts_extend c c1 \<and> facts_from (sc_next_node c) c c1 \<Longrightarrow> copied c e [] [] c1"
  by (simp add: copied_def)

lemma effective_owner_default:
  "facts_extend c c1 \<Longrightarrow> bs \<noteq> [] \<Longrightarrow> default_owner c1 (effective_owner c t bs u) = default_owner c u"
  "bs \<noteq> [] \<Longrightarrow> effective_owner c t bs u = default_owner c u"
  by (auto simp: effective_owner_def default_owner_def facts_extend_def Let_def)

lemma type_list_nodes_concat: "type_list_nodes ts = concat (map type_nodes ts)"
  by (induction ts) simp_all

lemma node_origins_eq: "node_origins [] = (\<lambda>t. map From_Argument (type_nodes t))"
    "bs \<noteq> [] \<Longrightarrow> node_origins bs = template_origins bs"
  by (auto simp: node_origins_def)

lemma node_origins_simps:
  "F \<in> type_wrappers \<Longrightarrow> node_origins bs (F i) = node_origins bs i"
  "node_origins bs (Type_Result ok er) = node_origins bs ok @ node_origins bs er"
  "node_origins bs (Type_Function ps out) = concat (map (node_origins bs) ps) @ node_origins bs out"
  "bound_argument bs (Type_Named k name args) = None \<Longrightarrow> node_origins bs (Type_Named k name args) =
     (if bs = [] then From_Argument k else From_Template) # concat (map (node_origins bs) args)"
  "type_is_leaf t \<Longrightarrow> node_origins bs t = []"
  by (cases "bs = []"; auto simp: node_origins_eq type_wrappers_def type_list_nodes_concat map_concat comp_def;
      cases t; simp)+

lemma type_nodes_simps:
  "F \<in> type_wrappers \<Longrightarrow> type_nodes (F i) = type_nodes i"
  "type_is_leaf t \<Longrightarrow> type_nodes t = []"
  by (auto simp: type_wrappers_def) (cases t; simp)

text \<open>Copies without parameters do not depend on the owner handed down.\<close>

lemma copied_owner:
  "bs = [] \<or> e = e' \<Longrightarrow> copied c e ks (node_origins bs t) c1 \<Longrightarrow> copied c e' ks (node_origins bs t) c1"
  "bs = [] \<or> e = e' \<Longrightarrow> copied c e ks (concat (map (node_origins bs) ts)) c1 \<Longrightarrow>
     copied c e' ks (concat (map (node_origins bs) ts)) c1"
  by (auto simp: copied_def node_origins_def origin_owner_def map_concat comp_def)

lemma copied_default:
  assumes "facts_extend c c1"
  shows "copied c1 (default_owner c1 (effective_owner c t bs u)) ks (node_origins bs s) c2 \<Longrightarrow>
      copied c1 (default_owner c u) ks (node_origins bs s) c2"
    and "copied c1 (default_owner c1 (effective_owner c t bs u)) ks (concat (map (node_origins bs) ss)) c2 \<Longrightarrow>
      copied c1 (default_owner c u) ks (concat (map (node_origins bs) ss)) c2"
proof -
  have e: "bs = [] \<or> default_owner c1 (effective_owner c t bs u) = default_owner c u"
    using effective_owner_default(1) [OF assms] by blast
  show "copied c1 (default_owner c1 (effective_owner c t bs u)) ks (node_origins bs s) c2 \<Longrightarrow>
      copied c1 (default_owner c u) ks (node_origins bs s) c2"
    by (rule copied_owner(1) [OF e])
  show "copied c1 (default_owner c1 (effective_owner c t bs u)) ks (concat (map (node_origins bs) ss)) c2 \<Longrightarrow>
      copied c1 (default_owner c u) ks (concat (map (node_origins bs) ss)) c2"
    by (rule copied_owner(2) [OF e])
qed

lemma copied_after:
  assumes "facts_ok c" "facts_extend c c' \<and> facts_from (sc_next_node c) c c'"
    "copied c' e ks qs c1" "recorded c (origin_nodes qs)"
  shows "copied c e ks qs c1"
  using copied_trans [OF assms(1) copied_extend [OF assms(1,2), of e] assms(3,4)] by simp

lemma copied_start:
  assumes "facts_ok c" "facts_extend c c1" "recorded c ks"
  shows "facts_ok c1" "recorded c1 ks"
  using assms recorded_extend by (auto simp: facts_extend_def)

lemma recorded_append [simp]: "recorded c (ks @ ls) \<longleftrightarrow> recorded c ks \<and> recorded c ls"
  by (auto simp: recorded_def)

lemma substitutes_copied:
  "substitutes bs u c t c1 r \<Longrightarrow> facts_ok c \<Longrightarrow> recorded c (origin_nodes (node_origins bs t)) \<Longrightarrow>
     copied c (default_owner c u) (type_nodes r) (node_origins bs t) c1"
  "substitutes_all bs u c ts c1 rs \<Longrightarrow> facts_ok c \<Longrightarrow>
     recorded c (origin_nodes (concat (map (node_origins bs) ts))) \<Longrightarrow>
     copied c (default_owner c u) (type_list_nodes rs) (concat (map (node_origins bs) ts)) c1"
proof (induction rule: substitutes_substitutes_all.inducts)
  case (sub_bound bs t b c u c1 r)
  moreover from this have "bs \<noteq> []"
    by auto
  ultimately have "node_origins bs t = node_origins [] b"
    using bound_argument_named [of bs t b] by (auto simp: node_origins_def)
  with sub_bound show ?case
    by (auto intro: copied_owner(1) [of "[]"])
next
  case (sub_leaf t c c1 bs u)
  then show ?case
    by (simp add: node_origins_simps type_nodes_simps copied_extend allocates_facts)
next
  case (sub_wrap F c c1 bs i u c2 r)
  have x: "facts_extend c c1 \<and> facts_from (sc_next_node c) c c1"
    using sub_wrap(2,5) by (rule allocates_facts)
  have rec: "recorded c (origin_nodes (node_origins bs i))"
    using sub_wrap by (simp add: node_origins_simps)
  have "copied c1 (default_owner c1 (effective_owner c (F i) bs u)) (type_nodes r) (node_origins bs i) c2"
    by (rule sub_wrap.IH [OF copied_start [OF sub_wrap.prems(1) conjunct1 [OF x] rec]])
  then have "copied c1 (default_owner c u) (type_nodes r) (node_origins bs i) c2"
    by (rule copied_default(1) [OF conjunct1 [OF x]])
  with copied_after [OF sub_wrap.prems(1) x _ rec] sub_wrap(1) show ?case
    by (simp add: node_origins_simps type_nodes_simps)
next
  case (sub_result c c1 bs ok er u c2 r c3 s)
  let ?e = "effective_owner c (Type_Result ok er) bs u"
  have x: "facts_extend c c1 \<and> facts_from (sc_next_node c) c c1"
    using sub_result(1,6) by (rule allocates_facts)
  have rec: "recorded c (origin_nodes (node_origins bs ok))" "recorded c (origin_nodes (node_origins bs er))"
    using sub_result by (simp_all add: node_origins_simps)
  have "copied c1 (default_owner c1 ?e) (type_nodes r) (node_origins bs ok) c2"
    by (rule sub_result.IH(1) [OF copied_start [OF sub_result.prems(1) conjunct1 [OF x] rec(1)]])
  then have "copied c1 (default_owner c u) (type_nodes r) (node_origins bs ok) c2"
    by (rule copied_default(1) [OF conjunct1 [OF x]])
  then have r: "copied c (default_owner c u) (type_nodes r) (node_origins bs ok) c2"
    using copied_after [OF sub_result.prems(1) x _ rec(1)] by blast
  then have x2: "facts_extend c c2"
    by (simp add: copied_def)
  have "copied c2 (default_owner c2 ?e) (type_nodes s) (node_origins bs er) c3"
    by (rule sub_result.IH(2) [OF copied_start [OF sub_result.prems(1) x2 rec(2)]])
  then have "copied c2 (default_owner c u) (type_nodes s) (node_origins bs er) c3"
    by (rule copied_default(1) [OF x2])
  with copied_trans [OF sub_result.prems(1) r _ rec(2)] show ?case
    by (simp add: node_origins_simps)
next
  case (sub_function c c1 ps c2 bs out u c3 rs c4 r)
  let ?e = "effective_owner c (Type_Function ps out) bs u"
  have x0: "facts_extend c c1 \<and> facts_from (sc_next_node c) c c1"
    using sub_function(1,7) by (rule allocates_facts)
  then have "facts_extend c1 c2 \<and> facts_from (sc_next_node c1) c1 c2"
    using sub_function(2) by (intro array_facts) (auto simp: facts_extend_def)
  with x0 have x: "facts_extend c c2 \<and> facts_from (sc_next_node c) c c2"
    using facts_extend_trans facts_from_trans by (metis facts_extend_def)
  have rec: "recorded c (origin_nodes (concat (map (node_origins bs) ps)))" "recorded c (origin_nodes (node_origins bs out))"
    using sub_function by (simp_all add: node_origins_simps)
  have "copied c2 (default_owner c2 ?e) (type_list_nodes rs) (concat (map (node_origins bs) ps)) c3"
    by (rule sub_function.IH(1) [OF copied_start [OF sub_function.prems(1) conjunct1 [OF x] rec(1)]])
  then have "copied c2 (default_owner c u) (type_list_nodes rs) (concat (map (node_origins bs) ps)) c3"
    by (rule copied_default(2) [OF conjunct1 [OF x]])
  then have r: "copied c (default_owner c u) (type_list_nodes rs) (concat (map (node_origins bs) ps)) c3"
    using copied_after [OF sub_function.prems(1) x _ rec(1)] by blast
  then have x2: "facts_extend c c3"
    by (simp add: copied_def)
  have "copied c3 (default_owner c3 ?e) (type_nodes r) (node_origins bs out) c4"
    by (rule sub_function.IH(2) [OF copied_start [OF sub_function.prems(1) x2 rec(2)]])
  then have "copied c3 (default_owner c u) (type_nodes r) (node_origins bs out) c4"
    by (rule copied_default(1) [OF x2])
  with copied_trans [OF sub_function.prems(1) r _ rec(2)] show ?case
    by (simp add: node_origins_simps)
next
  case (sub_named bs k name args c c1 k' c2 c3 u c4 rs c5)
  let ?e = "effective_owner c (Type_Named k name args) bs u"
  have x0: "facts_extend c c1 \<and> facts_from (sc_next_node c) c c1"
    using sub_named(2,8) by (rule allocates_facts)
  then have y0: "facts_extend c1 c2" "facts_from (sc_next_node c1) c1 c2" "k' < sc_next_node c2"
      "k' \<notin> dom (owner_map c2)" "sc_next_node c1 = k'"
    using fresh_facts [OF sub_named(3), of "sc_next_node c1"] unfolding facts_extend_def by blast+
  then have z0: "facts_extend c2 c3" "facts_from (sc_next_node c2) c2 c3"
    using array_facts [OF sub_named(4), of "sc_next_node c2"] unfolding facts_extend_def by blast+
  have "facts_from (sc_next_node c) c c2"
    using x0 y0(2) facts_from_trans by (auto simp: facts_extend_def)
  moreover have "facts_extend c c2"
    using x0 y0(1) facts_extend_trans by blast
  ultimately have x: "facts_extend c c3 \<and> facts_from (sc_next_node c) c c3"
    using z0 facts_extend_trans facts_from_trans by (auto simp: facts_extend_def)
  have k': "k' < sc_next_node c3" "k' \<notin> dom (owner_map c3)" "sc_next_node c \<le> k'"
    using x0 y0 z0 by (auto simp: facts_extend_def facts_from_def)
  have origins: "node_origins bs (Type_Named k name args) =
     (if bs = [] then From_Argument k else From_Template) # concat (map (node_origins bs) args)"
    using sub_named(1) by (simp add: node_origins_simps)
  then have rec: "recorded c (origin_nodes (concat (map (node_origins bs) args)))"
    using sub_named.prems(2) by (auto simp: recorded_def split: if_splits)
  have "copied c3 (default_owner c3 ?e) (type_list_nodes rs) (concat (map (node_origins bs) args)) c4"
    by (rule sub_named.IH [OF copied_start [OF sub_named.prems(1) conjunct1 [OF x] rec]])
  then have "copied c3 (default_owner c u) (type_list_nodes rs) (concat (map (node_origins bs) args)) c4"
    by (rule copied_default(2) [OF conjunct1 [OF x]])
  moreover from this have "k' < sc_next_node c4 \<and> k' \<notin> dom (owner_map c4)"
    using k' by (auto simp: copied_def facts_extend_def facts_from_def)
  ultimately have r: "copied c (default_owner c u) (type_list_nodes rs) (concat (map (node_origins bs) args)) c4"
    and fresh: "k' < sc_next_node c4" "k' \<notin> dom (owner_map c4)"
    using copied_after [OF sub_named.prems(1) x _ rec] by blast+
  have c4: "facts_ok c4"
    using r by (simp add: copied_def facts_extend_def)
  have y: "facts_extend c4 c5 \<and> facts_from k' c4 c5 \<and> owner_map c5 k' = Some ?e"
    by (rule record_facts [OF sub_named(6) c4 fresh])
  then have own: "owner_of c5 k' = ?e"
    by (auto simp: facts_extend_def owner_of_map)
  have "?e = origin_owner c (default_owner c u) (if bs = [] then From_Argument k else From_Template)"
  proof (cases "bs = []")
    case True
    then have "owner_of c k \<noteq> None"
      using sub_named.prems(2) origins by (simp add: recorded_def)
    moreover have "semantic_type_owner_unit c (Type_Named k name args) = owner_of c k"
      by (simp add: owner_of_def semantic_type_owner_unit_def)
    ultimately show ?thesis
      using True by (auto simp: effective_owner_def origin_owner_def Let_def)
  qed (simp add: effective_owner_default(2) origin_owner_def)
  moreover have "map (owner_of c5) (type_list_nodes rs) =
      map (origin_owner c (default_owner c u)) (concat (map (node_origins bs) args))"
  proof -
    have "map (owner_of c5) (type_list_nodes rs) = map (owner_of c4) (type_list_nodes rs)"
      using r y c4 unfolding copied_def by (intro map_cong refl owner_of_extend) blast+
    with r show ?thesis
      unfolding copied_def by argo
  qed
  moreover have "set (type_list_nodes rs) \<subseteq> dom (owner_map c5)"
    using r facts_extend_dom [of c4 c5] y unfolding copied_def by blast
  moreover have "k' \<in> dom (owner_map c5)"
    using y by blast
  moreover have "facts_extend c c5 \<and> facts_from (sc_next_node c) c c5"
    using r y k'(3) facts_extend_trans [of c c4 c5] facts_from_trans [of "sc_next_node c" c c4 k' c5]
    by (auto simp: copied_def)
  moreover have "set (type_list_nodes rs) \<subseteq> {sc_next_node c..}"
    using r by (simp add: copied_def)
  ultimately show ?case
    using own k'(3) unfolding copied_def origins by simp
next
  case (sub_nil bs u c)
  then show ?case
    by (simp add: copied_refl)
next
  case (sub_cons bs u c t c1 r ts c2 rs)
  have rec: "recorded c (origin_nodes (node_origins bs t))"
      "recorded c (origin_nodes (concat (map (node_origins bs) ts)))"
    using sub_cons by simp_all
  have r: "copied c (default_owner c u) (type_nodes r) (node_origins bs t) c1"
    using sub_cons.IH(1) rec sub_cons.prems by blast
  then have x: "facts_extend c c1"
    by (simp add: copied_def)
  have "copied c1 (default_owner c1 u) (type_list_nodes rs) (concat (map (node_origins bs) ts)) c2"
    by (rule sub_cons.IH(2) [OF copied_start [OF sub_cons.prems(1) x rec(2)]])
  moreover have "default_owner c1 u = default_owner c u"
    using x by (simp add: default_owner_def facts_extend_def)
  ultimately show ?case
    using copied_trans [OF sub_cons.prems(1) r _ rec(2)] by simp
qed

section \<open>Substitution succeeds when the allocator does\<close>

definition granted :: "semantic_context \<Rightarrow> bool" where
  "granted c \<longleftrightarrow> (\<forall>n. sc_heap c n)"

lemma granted_steps:
  assumes "granted c"
  shows "\<exists>c1. semantic_allocates c = (True, c1) \<and> granted c1"
    and "\<exists>c1. generic_array xs c = (c1, True) \<and> granted c1"
    and "\<exists>k c1. semantic_fresh c = (k, c1) \<and> granted c1"
    and "\<exists>c1. generic_record_type_owner k u c = (c1, True) \<and> granted c1"
  using assms by (auto simp: granted_def semantic_allocates_def generic_array_def semantic_fresh_def
      generic_record_type_owner_def)

definition substitution_succeeds :: "bindings \<Rightarrow> ast_type \<Rightarrow> bool" where
  "substitution_succeeds bs t \<longleftrightarrow>
     (\<forall>u c. granted c \<longrightarrow> (\<exists>c1 r. semantic_generic_substitute_type t bs u c = (c1, Some r) \<and> granted c1))"

lemma substitution_succeeds_all:
  "(\<And>t. t \<in> set ts \<Longrightarrow> substitution_succeeds bs t) \<Longrightarrow> granted c \<Longrightarrow>
     \<exists>c1 rs. semantic_generic_substitute_types ts bs u c = (c1, Some rs) \<and> granted c1"
proof (induction ts arbitrary: c)
  case (Cons t ts)
  then obtain c1 r where "semantic_generic_substitute_type t bs u c = (c1, Some r)" "granted c1"
    unfolding substitution_succeeds_def by (meson list.set_intros(1))
  moreover from Cons this obtain c2 rs where "semantic_generic_substitute_types ts bs u c1 = (c2, Some rs)" "granted c2"
    by fastforce
  ultimately show ?case
    by simp
qed simp

lemma substitution_succeeds_wrapper:
  assumes "F \<in> type_wrappers" "substitution_succeeds bs i"
  shows "substitution_succeeds bs (F i)"
  unfolding substitution_succeeds_def
proof (intro allI impI)
  fix u c
  assume "granted c"
  then obtain c0 where "semantic_allocates c = (True, c0)" "granted c0"
    using granted_steps(1) by blast
  moreover obtain c1 r where
    "semantic_generic_substitute_type i bs (effective_owner c (F i) bs u) c0 = (c1, Some r)" "granted c1"
    using assms(2) \<open>granted c0\<close> unfolding substitution_succeeds_def by blast
  ultimately show "\<exists>c1 r. semantic_generic_substitute_type (F i) bs u c = (c1, Some r) \<and> granted c1"
    using assms(1) by (simp add: substitute_wrapper_eq)
qed

lemma substitution_succeeds_leaf: "type_is_leaf t \<Longrightarrow> substitution_succeeds bs t"
  unfolding substitution_succeeds_def
proof (intro allI impI)
  fix u c
  assume t: "type_is_leaf t" and "granted c"
  then obtain c0 where "semantic_allocates c = (True, c0)" "granted c0"
    using granted_steps(1) by blast
  then show "\<exists>c1 r. semantic_generic_substitute_type t bs u c = (c1, Some r) \<and> granted c1"
    using t by (cases t; subst semantic_generic_substitute_type.simps; simp add: Let_def)
qed

lemma substitution_succeeds_step:
  assumes bound: "\<And>t b. bound_argument bs t = Some b \<Longrightarrow> substitution_succeeds [] b"
  shows "substitution_succeeds bs t"
proof (induction t)
  case (Type_Result ok er)
  show ?case
    unfolding substitution_succeeds_def
  proof (intro allI impI)
    fix u c
    assume "granted c"
    let ?e = "effective_owner c (Type_Result ok er) bs u"
    from \<open>granted c\<close> obtain c0 where "semantic_allocates c = (True, c0)" "granted c0"
      using granted_steps(1) by blast
    moreover obtain c1 r where "semantic_generic_substitute_type ok bs ?e c0 = (c1, Some r)" "granted c1"
      using Type_Result(1) \<open>granted c0\<close> unfolding substitution_succeeds_def by blast
    moreover obtain c2 s where "semantic_generic_substitute_type er bs ?e c1 = (c2, Some s)" "granted c2"
      using Type_Result(2) \<open>granted c1\<close> unfolding substitution_succeeds_def by blast
    ultimately show "\<exists>c1 r. semantic_generic_substitute_type (Type_Result ok er) bs u c = (c1, Some r) \<and> granted c1"
      by (subst semantic_generic_substitute_type.simps) (simp add: Let_def)
  qed
next
  case (Type_Function ps out)
  show ?case
    unfolding substitution_succeeds_def
  proof (intro allI impI)
    fix u c
    assume "granted c"
    let ?e = "effective_owner c (Type_Function ps out) bs u"
    from \<open>granted c\<close> obtain c0 where "semantic_allocates c = (True, c0)" "granted c0"
      using granted_steps(1) by blast
    moreover from this obtain c1 where "generic_array ps c0 = (c1, True)" "granted c1"
      using granted_steps(2) by blast
    moreover obtain c2 rs where "semantic_generic_substitute_types ps bs ?e c1 = (c2, Some rs)" "granted c2"
      using substitution_succeeds_all [of ps bs c1 ?e] Type_Function(1) \<open>granted c1\<close> by blast
    moreover obtain c3 s where "semantic_generic_substitute_type out bs ?e c2 = (c3, Some s)" "granted c3"
      using Type_Function(2) \<open>granted c2\<close> unfolding substitution_succeeds_def by blast
    ultimately show "\<exists>c1 r. semantic_generic_substitute_type (Type_Function ps out) bs u c = (c1, Some r) \<and> granted c1"
      by (subst semantic_generic_substitute_type.simps) (simp add: Let_def)
  qed
next
  case (Type_Named k name args)
  show ?case
    unfolding substitution_succeeds_def
  proof (intro allI impI)
    fix u c
    assume c: "granted c"
    let ?e = "effective_owner c (Type_Named k name args) bs u"
    show "\<exists>c1 r. semantic_generic_substitute_type (Type_Named k name args) bs u c = (c1, Some r) \<and> granted c1"
    proof (cases "bound_argument bs (Type_Named k name args)")
      case (Some b)
      then show ?thesis
        using bound [OF Some] c unfolding substitution_succeeds_def
        by (subst semantic_generic_substitute_type.simps) (simp add: Let_def)
    next
      case None
      from c obtain c0 where "semantic_allocates c = (True, c0)" "granted c0"
        using granted_steps(1) by blast
      moreover from this obtain k' c1 where "semantic_fresh c0 = (k', c1)" "granted c1"
        using granted_steps(3) by blast
      moreover from this obtain c2 where "generic_array args c1 = (c2, True)" "granted c2"
        using granted_steps(2) by blast
      moreover obtain c3 rs where "semantic_generic_substitute_types args bs ?e c2 = (c3, Some rs)" "granted c3"
        using substitution_succeeds_all [of args bs c2 ?e] Type_Named(1) \<open>granted c2\<close> by blast
      moreover from this obtain c4 where "generic_record_type_owner k' ?e c3 = (c4, True)" "granted c4"
        using granted_steps(4) by blast
      ultimately show ?thesis
        using None by (subst semantic_generic_substitute_type.simps) (simp add: Let_def)
    qed
  qed
qed (auto intro: substitution_succeeds_leaf substitution_succeeds_wrapper)

lemma substitution_succeeds: "substitution_succeeds bs t"
  using substitution_succeeds_step [of bs] substitution_succeeds_step [of "[]"] by fastforce

section \<open>Properties\<close>

text \<open>
  C28: Substituting into a type succeeds when the allocator does, gives the type with each parameter
  replaced by its argument, and makes every named node anew: a node of the template belongs to the
  unit handed in, a node of an argument keeps the unit where the argument was written.
\<close>

theorem generic_substitution:
  assumes "granted c" "facts_ok c" "recorded c (origin_nodes (node_origins bs t))"
  shows "\<exists>c1 r. semantic_generic_substitute_type t bs u c = (c1, Some r)
    \<and> erase_nodes r = erase_nodes (subst_type bs t)
    \<and> map (owner_of c1) (type_nodes r) = map (origin_owner c (default_owner c u)) (node_origins bs t)
    \<and> set (type_nodes r) \<inter> dom (owner_map c) = {} \<and> facts_ok c1 \<and> owner_map c \<subseteq>\<^sub>m owner_map c1"
proof -
  obtain c1 r where run: "semantic_generic_substitute_type t bs u c = (c1, Some r)"
    using substitution_succeeds [of bs t] assms(1) unfolding substitution_succeeds_def by blast
  then have sub: "substitutes bs u c t c1 r"
    by (rule substitute_type_substitutes)
  have "copied c (default_owner c u) (type_nodes r) (node_origins bs t) c1"
    by (rule substitutes_copied(1) [OF sub assms(2,3)])
  moreover have "dom (owner_map c) \<subseteq> {..<sc_next_node c}"
    using assms(2) by (auto simp: facts_ok_def dom_owner_map)
  ultimately show ?thesis
    using run substitutes_value(1) [OF sub] by (fastforce simp: copied_def facts_extend_def)
qed

theorem generic_substitution_witness:
  "\<exists>c1 r. semantic_generic_substitute_type (Type_Vector (Type_Result (Type_Named 1 [0x54] []) (Type_Named 2 [0x45] [])))
      [([0x54], Type_Named 5 [0x4E] [])] (Some 0)
      ((semantic_context_init (\<lambda>_. True) 9 (diagnostic_begin E1100_Internal_Context_Error zero_span) [])
        \<lparr>sc_type_owners := [owned_by (Some 3) 5]\<rparr>) = (c1, Some r)
    \<and> map (owner_of c1) (type_nodes r) = [Some 3, Some 0]"
  (is "\<exists>c1 r. semantic_generic_substitute_type ?t ?bs ?u ?c = _ \<and> _")
proof -
  have o: "node_origins ?bs ?t = [From_Argument 5, From_Template]"
    unfolding node_origins_def by code_simp
  have k: "owner_of ?c 5 = Some 3"
    by code_simp
  then have m: "map (origin_owner ?c (default_owner ?c ?u)) [From_Argument 5, From_Template] = [Some 3, Some 0]"
    by (simp add: origin_owner_def default_owner_def)
  have "granted ?c" "facts_ok ?c" "recorded ?c (origin_nodes (node_origins ?bs ?t))"
    unfolding o using k by (simp_all add: granted_def facts_ok_def semantic_context_init_def recorded_def)
  from generic_substitution [OF this, of ?u, unfolded o m] show ?thesis
    by (elim exE conjE) (intro exI conjI)
qed

text \<open>
  The copy of a statement does not check every copied child: when the allocation of the else
  block of a conditional is refused, the copy succeeds and has no else block.
\<close>

theorem generic_clone_drops_else:
  "snd (generic_clone_statement [] None
      (Statement_If zero_span
        (Expression_Atom \<lparr>expression_span = zero_span, expression_contextual_type = None,
           expression_effects_applied = False, expression_null_pointer = False\<rparr>
          (Atom_Literal (Literal_Boolean zero_span True)))
        (Block zero_span []) (Some (Block zero_span [Statement_Return zero_span None])))
      (semantic_context_init (\<lambda>n. n \<noteq> 3) 9 (diagnostic_begin E1100_Internal_Context_Error zero_span) []))
   = Cloned (Statement_If zero_span
        (Expression_Atom \<lparr>expression_span = zero_span, expression_contextual_type = None,
           expression_effects_applied = False, expression_null_pointer = False\<rparr>
          (Atom_Literal (Literal_Boolean zero_span True)))
        (Block zero_span []) None)"
  by (simp add: semantic_allocates_def semantic_context_init_def generic_array_def clone_unchecked2_def
      clone_checked_def clone_optional_def generic_clone_header_def)

end
