(* ===== verification/Types.thy ===== *)
theory Types
  imports Generic "HOL-Library.Monad_Syntax"
begin

text \<open>
  The type kernel (\<open>src/kernel/type\<close>) with the resolution of named types and generic instances
  (\<open>src/semantic/type_named.c\<close>, \<open>generic.c\<close>): the registry of built-in types, resolution to canonical
  facts, compatibility and conversion.

  Resolution, instance lookup and compatibility call each other and need not end: an alias may lead
  to itself. A run therefore has fuel and returns no result (\<open>None\<close>) when it is used up; \<open>None\<close> also
  stands for the read of a union member that is not the active one, which has no defined result.
\<close>

section \<open>Built-in types\<close>

datatype type_builtin_id = TB_Any | TB_Bool | TB_String | TB_Char | TB_Int | TB_Uint | TB_Void | TB_I8 | TB_I16
  | TB_I32 | TB_I64 | TB_U8 | TB_U16 | TB_U32 | TB_U64 | TB_F32 | TB_F64

datatype type_builtin_class = Class_Unknown | Class_Boolean | Class_Signed_Integer
  | Class_Unsigned_Integer | Class_Float | Class_Character | Class_String | Class_Void

record type_builtin_descriptor =
  builtin_id :: type_builtin_id
  builtin_class :: type_builtin_class
  builtin_bits :: nat
  builtin_scalar :: bool
  builtin_signed :: bool
  builtin_diagnostic_name :: bytes

definition type_builtin_row ::
    "type_builtin_id \<Rightarrow> type_builtin_class \<Rightarrow> nat \<Rightarrow> bool \<Rightarrow> bool \<Rightarrow> bytes \<Rightarrow> type_builtin_descriptor" where
  "type_builtin_row i k bits is_scalar is_signed name =
     \<lparr>builtin_id = i, builtin_class = k, builtin_bits = bits, builtin_scalar = is_scalar,
      builtin_signed = is_signed, builtin_diagnostic_name = name\<rparr>"

text \<open>The rows of \<open>type_registry.def\<close>; the diagnostic name is the last column.\<close>

fun type_builtin_get_descriptor :: "type_builtin_id \<Rightarrow> type_builtin_descriptor" where
  "type_builtin_get_descriptor TB_Any = type_builtin_row TB_Any Class_Unknown 0 False False
     [0x61, 0x6E, 0x79]"
| "type_builtin_get_descriptor TB_Bool = type_builtin_row TB_Bool Class_Boolean 1 True False
     [0x62, 0x6F, 0x6F, 0x6C]"
| "type_builtin_get_descriptor TB_String = type_builtin_row TB_String Class_String 0 False False
     [0x73, 0x74, 0x72, 0x69, 0x6E, 0x67]"
| "type_builtin_get_descriptor TB_Char = type_builtin_row TB_Char Class_Character 32 True False
     [0x63, 0x68, 0x61, 0x72]"
| "type_builtin_get_descriptor TB_Int = type_builtin_row TB_Int Class_Signed_Integer 64 True True
     [0x69, 0x6E, 0x74]"
| "type_builtin_get_descriptor TB_Uint = type_builtin_row TB_Uint Class_Unsigned_Integer 64 True False
     [0x75, 0x69, 0x6E, 0x74]"
| "type_builtin_get_descriptor TB_Void = type_builtin_row TB_Void Class_Void 0 False False
     [0x76, 0x6F, 0x69, 0x64]"
| "type_builtin_get_descriptor TB_I8 = type_builtin_row TB_I8 Class_Signed_Integer 8 True True
     [0x69, 0x38]"
| "type_builtin_get_descriptor TB_I16 = type_builtin_row TB_I16 Class_Signed_Integer 16 True True
     [0x69, 0x31, 0x36]"
| "type_builtin_get_descriptor TB_I32 = type_builtin_row TB_I32 Class_Signed_Integer 32 True True
     [0x69, 0x33, 0x32]"
| "type_builtin_get_descriptor TB_I64 = type_builtin_row TB_I64 Class_Signed_Integer 64 True True
     [0x69, 0x36, 0x34]"
| "type_builtin_get_descriptor TB_U8 = type_builtin_row TB_U8 Class_Unsigned_Integer 8 True False
     [0x75, 0x38]"
| "type_builtin_get_descriptor TB_U16 = type_builtin_row TB_U16 Class_Unsigned_Integer 16 True False
     [0x75, 0x31, 0x36]"
| "type_builtin_get_descriptor TB_U32 = type_builtin_row TB_U32 Class_Unsigned_Integer 32 True False
     [0x75, 0x33, 0x32]"
| "type_builtin_get_descriptor TB_U64 = type_builtin_row TB_U64 Class_Unsigned_Integer 64 True False
     [0x75, 0x36, 0x34]"
| "type_builtin_get_descriptor TB_F32 = type_builtin_row TB_F32 Class_Float 32 True True
     [0x66, 0x33, 0x32]"
| "type_builtin_get_descriptor TB_F64 = type_builtin_row TB_F64 Class_Float 64 True True
     [0x66, 0x36, 0x34]"

text \<open>\<open>None\<close> is the invalid identifier.\<close>

definition type_builtin_of_machine :: "machine_type \<Rightarrow> type_builtin_id" where
  "type_builtin_of_machine m =
     (case m of
        Machine_I8 \<Rightarrow> TB_I8
      | Machine_I16 \<Rightarrow> TB_I16
      | Machine_I32 \<Rightarrow> TB_I32
      | Machine_I64 \<Rightarrow> TB_I64
      | Machine_U8 \<Rightarrow> TB_U8
      | Machine_U16 \<Rightarrow> TB_U16
      | Machine_U32 \<Rightarrow> TB_U32
      | Machine_U64 \<Rightarrow> TB_U64
      | Machine_F32 \<Rightarrow> TB_F32
      | Machine_F64 \<Rightarrow> TB_F64)"

fun type_builtin_id_from_ast :: "ast_type \<Rightarrow> type_builtin_id option" where
  "type_builtin_id_from_ast Type_Any = Some TB_Any"
| "type_builtin_id_from_ast Type_Boolean = Some TB_Bool"
| "type_builtin_id_from_ast Type_String = Some TB_String"
| "type_builtin_id_from_ast Type_Character = Some TB_Char"
| "type_builtin_id_from_ast Type_Integer = Some TB_Int"
| "type_builtin_id_from_ast Type_Unsigned_Integer = Some TB_Uint"
| "type_builtin_id_from_ast Type_Void = Some TB_Void"
| "type_builtin_id_from_ast (Type_Machine m) = Some (type_builtin_of_machine m)"
| "type_builtin_id_from_ast _ = None"

section \<open>Tagged types\<close>

fun type_unwrap_mutable :: "ast_type \<Rightarrow> ast_type" where
  "type_unwrap_mutable (Type_Mutable t) = type_unwrap_mutable t"
| "type_unwrap_mutable t = t"

lemma size_unwrap_mutable: "size (type_unwrap_mutable t) \<le> size t"
  by (induction t rule: type_unwrap_mutable.induct) auto

record type_tagged_constructor =
  tagged_tag :: nat
  tagged_payload_count :: nat
  tagged_payload_type :: "ast_type option"

definition type_tagged_fill :: "ast_type \<Rightarrow> nat \<Rightarrow> type_tagged_constructor option" where
  "type_tagged_fill t tag =
     (case type_unwrap_mutable t of
        Type_Option i \<Rightarrow>
          if tag > 1 then None
          else if tag = 1
          then Some \<lparr>tagged_tag = tag, tagged_payload_count = 1, tagged_payload_type = Some i\<rparr>
          else Some \<lparr>tagged_tag = tag, tagged_payload_count = 0, tagged_payload_type = None\<rparr>
      | Type_Result ok er \<Rightarrow>
          if tag > 1 then None
          else Some \<lparr>tagged_tag = tag, tagged_payload_count = 1,
                     tagged_payload_type = Some (if tag = 0 then ok else er)\<rparr>
      | _ \<Rightarrow> None)"

definition type_is_builtin_tagged :: "ast_type \<Rightarrow> bool" where
  "type_is_builtin_tagged t =
     (case type_unwrap_mutable t of Type_Option _ \<Rightarrow> True | Type_Result _ _ \<Rightarrow> True | _ \<Rightarrow> False)"

definition type_tagged_constructor_count :: "ast_type \<Rightarrow> nat" where
  "type_tagged_constructor_count t = (if type_is_builtin_tagged t then 2 else 0)"

definition type_tagged_constructor_at :: "ast_type \<Rightarrow> nat \<Rightarrow> type_tagged_constructor option" where
  "type_tagged_constructor_at t tag = type_tagged_fill t tag"

text \<open>The names \<open>none\<close>, \<open>None\<close>, \<open>some\<close>, \<open>Some\<close>, \<open>ok\<close>, \<open>Ok\<close>, \<open>err\<close>, \<open>Err\<close> and their Arabic forms.\<close>

definition type_tagged_find_constructor :: "ast_type \<Rightarrow> text_slice \<Rightarrow> type_tagged_constructor option" where
  "type_tagged_find_constructor t name =
     (case type_unwrap_mutable t of
        Type_Option _ \<Rightarrow>
          if text_equals_cstr name [0x6E, 0x6F, 0x6E, 0x65] \<or> text_equals_cstr name [0x4E, 0x6F, 0x6E, 0x65]
             \<or> text_equals_cstr name
               [0xD9, 0x84, 0xD8, 0xA7, 0x5F, 0xD8, 0xB4, 0xD9, 0x8A, 0xD8, 0xA1]
          then type_tagged_fill t 0
          else if text_equals_cstr name [0x73, 0x6F, 0x6D, 0x65] \<or> text_equals_cstr name [0x53, 0x6F, 0x6D, 0x65]
             \<or> text_equals_cstr name [0xD8, 0xA8, 0xD8, 0xB9, 0xD8, 0xB6]
          then type_tagged_fill t 1
          else None
      | Type_Result _ _ \<Rightarrow>
          if text_equals_cstr name [0x6F, 0x6B] \<or> text_equals_cstr name [0x4F, 0x6B]
             \<or> text_equals_cstr name [0xD9, 0x86, 0xD8, 0xAC, 0xD8, 0xAD]
          then type_tagged_fill t 0
          else if text_equals_cstr name [0x65, 0x72, 0x72] \<or> text_equals_cstr name [0x45, 0x72, 0x72]
             \<or> text_equals_cstr name [0xD8, 0xAE, 0xD8, 0xB7, 0xD8, 0xA3]
          then type_tagged_fill t 1
          else None
      | _ \<Rightarrow> None)"

definition type_tagged_name_matches :: "ast_type \<Rightarrow> text_slice \<Rightarrow> bool" where
  "type_tagged_name_matches t name =
     (case type_unwrap_mutable t of
        Type_Option _ \<Rightarrow>
          text_equals_cstr name
               [0x6F, 0x70, 0x74, 0x69, 0x6F, 0x6E]
          \<or> text_equals_cstr name
               [0xD8, 0xA7, 0xD8, 0xAE, 0xD8, 0xAA, 0xD9, 0x8A, 0xD8, 0xA7, 0xD8, 0xB1]
      | Type_Result _ _ \<Rightarrow>
          text_equals_cstr name
               [0x72, 0x65, 0x73, 0x75, 0x6C, 0x74]
          \<or> text_equals_cstr name
               [0xD9, 0x86, 0xD8, 0xAA, 0xD9, 0x8A, 0xD8, 0xAC, 0xD8, 0xA9]
      | _ \<Rightarrow> False)"

section \<open>Resolved types\<close>

text \<open>An entry is in the vector of collected types or in that of generic instances.\<close>

datatype type_ref = Collected_Type nat | Instance_Type nat

primrec type_entry_at :: "semantic_context \<Rightarrow> type_ref \<Rightarrow> semantic_type_entry" where
  "type_entry_at c (Collected_Type i) = sc_types c ! i"
| "type_entry_at c (Instance_Type i) = sc_generic_types c ! i"

datatype resolved_type_kind = RT_Unknown | RT_Boolean | RT_Signed_Integer | RT_Unsigned_Integer
  | RT_Float | RT_Character | RT_String | RT_Pointer | RT_Reference | RT_Vector | RT_Box | RT_Option
  | RT_Result | RT_Function | RT_Struct | RT_Enum | RT_Void

record resolved_type =
  rt_kind :: resolved_type_kind
  rt_builtin :: "type_builtin_id option"
  rt_bits :: nat
  rt_ast :: ast_type
  rt_named :: "type_ref option"
  rt_inner :: "ast_type option"
  rt_parameters :: "ast_type list"
  rt_output :: "ast_type option"
  rt_mutable :: bool
  rt_reference_mutable :: bool

primrec type_resolved_kind_from_builtin_class :: "type_builtin_class \<Rightarrow> resolved_type_kind" where
  "type_resolved_kind_from_builtin_class Class_Unknown = RT_Unknown"
| "type_resolved_kind_from_builtin_class Class_Boolean = RT_Boolean"
| "type_resolved_kind_from_builtin_class Class_Signed_Integer = RT_Signed_Integer"
| "type_resolved_kind_from_builtin_class Class_Unsigned_Integer = RT_Unsigned_Integer"
| "type_resolved_kind_from_builtin_class Class_Float = RT_Float"
| "type_resolved_kind_from_builtin_class Class_Character = RT_Character"
| "type_resolved_kind_from_builtin_class Class_String = RT_String"
| "type_resolved_kind_from_builtin_class Class_Void = RT_Void"

text \<open>The cleared record with the base type filled in.\<close>

definition resolved_start :: "ast_type \<Rightarrow> resolved_type" where
  "resolved_start t =
     \<lparr>rt_kind = RT_Unknown, rt_builtin = None, rt_bits = 0, rt_ast = type_unwrap_mutable t,
      rt_named = None, rt_inner = None, rt_parameters = [], rt_output = None,
      rt_mutable = (type_unwrap_mutable t \<noteq> t), rt_reference_mutable = False\<rparr>"

section \<open>Generic instances\<close>

type_synonym 'a run = "semantic_context \<Rightarrow> (semantic_context \<times> 'a) option"
type_synonym type_test = "ast_type \<Rightarrow> ast_type \<Rightarrow> bool run"

text \<open>
  Equality of generic arguments is compatibility in both directions; the routines take it as an
  argument, since compatibility itself resolves types.
\<close>

definition semantic_generic_type_equal :: "type_test \<Rightarrow> type_test" where
  "semantic_generic_type_equal compatible l r c =
     do {
       (c1, b) \<leftarrow> compatible l r c;
       if b then compatible r l c1 else Some (c1, False)
     }"

primrec generic_arguments_equal :: "type_test \<Rightarrow> (ast_type \<times> ast_type) list \<Rightarrow> bool run" where
  "generic_arguments_equal equal_types [] c = Some (c, True)"
| "generic_arguments_equal equal_types (p # ps) c =
     do {
       (c1, b) \<leftarrow> equal_types (fst p) (snd p) c;
       if b then generic_arguments_equal equal_types ps c1 else Some (c1, False)
     }"

text \<open>
  The search of an instance. The count is read anew in each round: comparing arguments may itself
  add instances. A declaration is the template's when it is the same node.
\<close>

primrec generic_find_type_instance ::
    "type_test \<Rightarrow> nat \<Rightarrow> node \<Rightarrow> ast_type list \<Rightarrow> nat \<Rightarrow> nat option run" where
  "generic_find_type_instance equal_types 0 template args i c = None"
| "generic_find_type_instance equal_types (Suc n) template args i c =
     (if i \<ge> length (sc_generic_types c) then Some (c, None)
      else
        (let e = sc_generic_types c ! i
         in if map_option decl_node (te_template_declaration e) \<noteq> Some template
               \<or> length (te_type_arguments e) \<noteq> length args
            then generic_find_type_instance equal_types n template args (i + 1) c
            else do {
              (c1, b) \<leftarrow> generic_arguments_equal equal_types (zip (te_type_arguments e) args) c;
              if b then Some (c1, Some i)
              else generic_find_type_instance equal_types n template args (i + 1) c1
            }))"

definition generic_fail :: "error_id \<Rightarrow> semantic_context \<Rightarrow> semantic_context \<times> 'a option" where
  "generic_fail i c = (semantic_fail c i zero_span, None)"

text \<open>The new instance: persistent arguments, the entry, its declaration, the push.\<close>

definition generic_new_type_instance ::
    "semantic_type_entry \<Rightarrow> ast_type_declaration \<Rightarrow> ast_type list \<Rightarrow> nat option \<Rightarrow> type_ref option sem" where
  "generic_new_type_instance template d args u c =
     (case semantic_allocates c of
        (False, c1) \<Rightarrow> generic_fail E1100_Internal_Context_Error c1
      | (True, c1) \<Rightarrow>
          (case semantic_generic_substitute_types args [] u c1 of
             (c2, None) \<Rightarrow> generic_fail E1100_Internal_Context_Error c2
           | (c2, Some copies) \<Rightarrow>
               (case semantic_allocates c2 of
                  (False, c3) \<Rightarrow> generic_fail E1100_Internal_Context_Error c3
                | (True, c3) \<Rightarrow>
                    (case generic_clone_type_declaration d copies (te_unit template) c3 of
                       (c4, None) \<Rightarrow> generic_fail E1100_Internal_Context_Error c4
                     | (c4, Some d') \<Rightarrow>
                         (case semantic_allocates c4 of
                            (False, c5) \<Rightarrow> generic_fail E1100_Internal_Context_Error c5
                          | (True, c5) \<Rightarrow>
                              (c5\<lparr>sc_generic_types := sc_generic_types c5 @
                                 [\<lparr>te_name = te_name template, te_declaration = Some d',
                                   te_template_declaration = Some d, te_type_arguments = copies,
                                   te_is_generic_template = False, te_unit = te_unit template,
                                   te_public = te_public template, te_size = 0, te_alignment = 0,
                                   te_layout_state = 0\<rparr>]\<rparr>,
                               Some (Instance_Type (length (sc_generic_types c5)))))))))"

text \<open>The arguments written at a named type.\<close>

primrec named_arguments :: "ast_type \<Rightarrow> ast_type list" where
  "named_arguments (Type_Named k name args) = args"
| "named_arguments Type_Any = []"
| "named_arguments Type_Boolean = []"
| "named_arguments (Type_Machine m) = []"
| "named_arguments Type_Integer = []"
| "named_arguments Type_Unsigned_Integer = []"
| "named_arguments Type_Character = []"
| "named_arguments Type_String = []"
| "named_arguments (Type_Box i) = []"
| "named_arguments (Type_Option i) = []"
| "named_arguments (Type_Result ok er) = []"
| "named_arguments (Type_Function ps out) = []"
| "named_arguments (Type_Pointer i) = []"
| "named_arguments (Type_Reference i) = []"
| "named_arguments (Type_Vector i) = []"
| "named_arguments (Type_Mutable i) = []"
| "named_arguments Type_Void = []"

definition semantic_generic_resolve_type_instance ::
    "type_test \<Rightarrow> nat \<Rightarrow> type_ref \<Rightarrow> ast_type \<Rightarrow> type_ref option run" where
  "semantic_generic_resolve_type_instance equal_types n r use_type c =
     (let template = type_entry_at c r; args = named_arguments use_type
      in case te_declaration template of
           None \<Rightarrow>
             if args \<noteq> [] then Some (generic_fail E0409_Unresolved_Type c) else Some (c, Some r)
         | Some d \<Rightarrow>
             if decl_type_parameters d = [] then
               (if args \<noteq> [] then Some (generic_fail E0409_Unresolved_Type c) else Some (c, Some r))
             else if length args \<noteq> length (decl_type_parameters d)
             then Some (generic_fail E0409_Unresolved_Type c)
             else
               (let recorded_owner = semantic_type_owner_unit c use_type;
                    u = (if recorded_owner = None then sc_active_unit c else recorded_owner)
                in do {
                     (c1, found) \<leftarrow> generic_find_type_instance equal_types n (decl_node d) args 0 c;
                     case found of
                       Some i \<Rightarrow> Some (c1, Some (Instance_Type i))
                     | None \<Rightarrow> Some (generic_new_type_instance template d args u c1)
                   }))"

section \<open>Resolution\<close>

text \<open>The diagnostic of a name that is not found, with the name and the path of its unit.\<close>

definition semantic_unresolved_name ::
    "semantic_context \<Rightarrow> name_lookup_status \<Rightarrow> text_slice \<Rightarrow> nat option \<Rightarrow> semantic_context" where
  "semantic_unresolved_name c status name u =
     (let c1 = semantic_begin_diagnostic c (name_lookup_error_id status) zero_span;
          c2 = c1\<lparr>sc_diagnostic := snd (diagnostic_set_argument_text (sc_diagnostic c1) Argument_Value name)\<rparr>
      in case Option.bind u (\<lambda>u. unit_path (sc_units c ! u)) of
           None \<Rightarrow> c2
         | Some path \<Rightarrow>
             c2\<lparr>sc_diagnostic := snd (diagnostic_set_argument_cstr (sc_diagnostic c2) Argument_Path (Some path))\<rparr>)"

definition semantic_resolve_named_entry :: "type_test \<Rightarrow> nat \<Rightarrow> ast_type \<Rightarrow> type_ref option run" where
  "semantic_resolve_named_entry equal_types n t c =
     (case t of
        Type_Named _ name _ \<Rightarrow>
          (let recorded_owner = semantic_type_owner_unit c t;
               u = (if recorded_owner = None then sc_active_unit c else recorded_owner)
           in case name_resolve_type c u name of
                (Lookup_Found, Some i) \<Rightarrow>
                  semantic_generic_resolve_type_instance equal_types n (Collected_Type i) t c
              | (status, _) \<Rightarrow> Some (semantic_unresolved_name c status name u, None))
      | _ \<Rightarrow> Some (c, None))"

text \<open>The kinds that are neither built in nor named.\<close>

definition resolved_compound :: "ast_type \<Rightarrow> resolved_type option" where
  "resolved_compound t =
     (let r = resolved_start t
      in case type_unwrap_mutable t of
           Type_Pointer i \<Rightarrow> Some (r\<lparr>rt_kind := RT_Pointer, rt_inner := Some i\<rparr>)
         | Type_Reference i \<Rightarrow>
             Some (r\<lparr>rt_kind := RT_Reference,
                     rt_reference_mutable := (case i of Type_Mutable _ \<Rightarrow> True | _ \<Rightarrow> False),
                     rt_inner := Some (type_unwrap_mutable i)\<rparr>)
         | Type_Vector i \<Rightarrow> Some (r\<lparr>rt_kind := RT_Vector, rt_inner := Some i\<rparr>)
         | Type_Box i \<Rightarrow> Some (r\<lparr>rt_kind := RT_Box, rt_inner := Some i\<rparr>)
         | Type_Option i \<Rightarrow> Some (r\<lparr>rt_kind := RT_Option, rt_inner := Some i\<rparr>)
         | Type_Result _ _ \<Rightarrow> Some (r\<lparr>rt_kind := RT_Result\<rparr>)
         | Type_Function ps out \<Rightarrow>
             Some (r\<lparr>rt_kind := RT_Function, rt_parameters := ps, rt_output := Some out\<rparr>)
         | _ \<Rightarrow> None)"

text \<open>Resolution given the equality of generic arguments; an alias uses one unit of fuel.\<close>

primrec type_resolve_with :: "type_test \<Rightarrow> nat \<Rightarrow> ast_type \<Rightarrow> resolved_type option run" where
  "type_resolve_with equal_types 0 t c = None"
| "type_resolve_with equal_types (Suc n) t c =
     (let base = type_unwrap_mutable t; r = resolved_start t
      in case type_builtin_id_from_ast base of
           Some b \<Rightarrow>
             (let d = type_builtin_get_descriptor b
              in Some (c, Some (r\<lparr>rt_builtin := Some (builtin_id d),
                                  rt_kind := type_resolved_kind_from_builtin_class (builtin_class d),
                                  rt_bits := builtin_bits d\<rparr>)))
         | None \<Rightarrow>
             (case base of
                Type_Named _ _ _ \<Rightarrow>
                  do {
                    (c1, found) \<leftarrow> semantic_resolve_named_entry equal_types n base c;
                    case found of
                      None \<Rightarrow> Some (c1, None)
                    | Some e \<Rightarrow>
                        (case te_declaration (type_entry_at c1 e) of
                           None \<Rightarrow> Some (c1, None)
                         | Some d \<Rightarrow>
                             (case decl_body d of
                                Decl_Alias a \<Rightarrow> type_resolve_with equal_types n a c1
                              | Decl_Struct _ \<Rightarrow> Some (c1, Some (r\<lparr>rt_named := Some e, rt_kind := RT_Struct\<rparr>))
                              | Decl_Enum _ \<Rightarrow> Some (c1, Some (r\<lparr>rt_named := Some e, rt_kind := RT_Enum\<rparr>))))
                  }
              | _ \<Rightarrow> Some (c, resolved_compound t)))"

section \<open>Compatibility\<close>

primrec types_all_compatible :: "type_test \<Rightarrow> (ast_type \<times> ast_type) list \<Rightarrow> bool run" where
  "types_all_compatible compatible [] c = Some (c, True)"
| "types_all_compatible compatible (p # ps) c =
     do {
       (c1, b) \<leftarrow> compatible (fst p) (snd p) c;
       if b then types_all_compatible compatible ps c1 else Some (c1, False)
     }"

text \<open>
  The comparison of two resolved types. For two results the sources read the payload types out of
  the unresolved bases, which is only defined when both bases are results.
\<close>

definition resolved_types_compatible ::
    "type_test \<Rightarrow> ast_type \<Rightarrow> ast_type \<Rightarrow> resolved_type \<Rightarrow> resolved_type \<Rightarrow> bool run" where
  "resolved_types_compatible compatible lb rb a b c =
     (if rt_kind a \<noteq> rt_kind b then Some (c, False)
      else if rt_kind a \<in> {RT_Signed_Integer, RT_Unsigned_Integer, RT_Float} \<and> rt_bits a \<noteq> rt_bits b
      then Some (c, False)
      else if rt_kind a \<in> {RT_Pointer, RT_Reference, RT_Box, RT_Option, RT_Vector} then
        (if rt_kind a = RT_Reference \<and> rt_reference_mutable a \<noteq> rt_reference_mutable b
         then Some (c, False)
         else (case (rt_inner a, rt_inner b) of
                 (Some x, Some y) \<Rightarrow> compatible x y c
               | _ \<Rightarrow> Some (c, False)))
      else if rt_kind a = RT_Result then
        (case (lb, rb) of
           (Type_Result ok1 er1, Type_Result ok2 er2) \<Rightarrow>
             do {
               (c1, t) \<leftarrow> compatible ok1 ok2 c;
               if t then compatible er1 er2 c1 else Some (c1, False)
             }
         | _ \<Rightarrow> None)
      else if rt_kind a = RT_Function then
        (if length (rt_parameters a) \<noteq> length (rt_parameters b) then Some (c, False)
         else do {
           (c1, t) \<leftarrow> types_all_compatible compatible (zip (rt_parameters a) (rt_parameters b)) c;
           if t then (case (rt_output a, rt_output b) of
                        (Some x, Some y) \<Rightarrow> compatible x y c1
                      | _ \<Rightarrow> Some (c1, False))
           else Some (c1, False)
         })
      else if rt_kind a \<in> {RT_Struct, RT_Enum} \<and> rt_named a \<noteq> rt_named b then Some (c, False)
      else Some (c, True))"

primrec type_compatible :: "nat \<Rightarrow> type_test" where
  "type_compatible 0 l r c = None"
| "type_compatible (Suc n) l r c =
     (let lb = type_unwrap_mutable l; rb = type_unwrap_mutable r;
          resolve = type_resolve_with (semantic_generic_type_equal (type_compatible n)) n
      in do {
           (c1, x) \<leftarrow> resolve lb c;
           case x of
             None \<Rightarrow> Some (c1, False)
           | Some a \<Rightarrow>
               do {
                 (c2, y) \<leftarrow> resolve rb c1;
                 case y of
                   None \<Rightarrow> Some (c2, False)
                 | Some b \<Rightarrow> resolved_types_compatible (type_compatible n) lb rb a b c2
               }
         })"

definition type_resolve :: "nat \<Rightarrow> ast_type \<Rightarrow> resolved_type option run" where
  "type_resolve n = type_resolve_with (semantic_generic_type_equal (type_compatible n)) n"

section \<open>Literals and conversions\<close>

definition signed_integer_fits :: "i64 \<Rightarrow> nat \<Rightarrow> bool" where
  "signed_integer_fits v bits =
     (if bits = 0 \<or> bits > 64 then False
      else if bits = 64 then True
      else (let maximum = push_bit (bits - 1) 1 - 1; minimum = - (push_bit (bits - 1) 1)
            in sint v \<ge> sint (minimum :: i64) \<and> sint v \<le> sint (maximum :: i64)))"

definition unsigned_integer_fits :: "i64 \<Rightarrow> nat \<Rightarrow> bool" where
  "unsigned_integer_fits v bits =
     (if bits = 0 \<or> bits > 64 \<or> sint v < 0 then False
      else if bits = 64 then True
      else (ucast v :: u64) \<le> push_bit bits 1 - 1)"

definition type_integer_literal_fits :: "nat \<Rightarrow> i64 \<Rightarrow> ast_type \<Rightarrow> bool run" where
  "type_integer_literal_fits n v t c =
     do {
       (c1, x) \<leftarrow> type_resolve n t c;
       Some (c1, (case x of
                    None \<Rightarrow> False
                  | Some r \<Rightarrow>
                      if rt_kind r = RT_Signed_Integer then signed_integer_fits v (rt_bits r)
                      else if rt_kind r = RT_Unsigned_Integer then unsigned_integer_fits v (rt_bits r)
                      else False))
     }"

definition type_unsigned_wide_literal_fits :: "nat \<Rightarrow> ast_type \<Rightarrow> bool run" where
  "type_unsigned_wide_literal_fits n t c =
     do {
       (c1, x) \<leftarrow> type_resolve n t c;
       Some (c1, (case x of
                    None \<Rightarrow> False
                  | Some r \<Rightarrow> rt_kind r = RT_Unsigned_Integer \<and> rt_bits r = 64))
     }"

definition type_is_byte_vector_to_text_move :: "nat \<Rightarrow> ast_type \<Rightarrow> ast_type \<Rightarrow> bool run" where
  "type_is_byte_vector_to_text_move n source target c =
     do {
       (c1, x) \<leftarrow> type_resolve n source c;
       case x of
         None \<Rightarrow> Some (c1, False)
       | Some s \<Rightarrow>
           do {
             (c2, y) \<leftarrow> type_resolve n target c1;
             case y of
               None \<Rightarrow> Some (c2, False)
             | Some t \<Rightarrow>
                 if rt_kind s \<noteq> RT_Vector \<or> rt_kind t \<noteq> RT_String then Some (c2, False)
                 else (case rt_inner s of
                         None \<Rightarrow> Some (c2, False)
                       | Some i \<Rightarrow>
                           do {
                             (c3, z) \<leftarrow> type_resolve n i c2;
                             Some (c3, (case z of
                                          None \<Rightarrow> False
                                        | Some e \<Rightarrow> rt_kind e = RT_Unsigned_Integer \<and> rt_bits e = 8))
                           })
           }
     }"

datatype type_conversion_class = Conversion_Invalid | Conversion_Implicit_Safe | Conversion_Explicit_Safe

text \<open>The last part of the classification: numbers and characters.\<close>

definition conversion_of_scalars :: "resolved_type \<Rightarrow> resolved_type \<Rightarrow> type_conversion_class" where
  "conversion_of_scalars s t =
     (if rt_kind s = RT_Signed_Integer \<and> rt_kind t = RT_Signed_Integer then
        (if rt_bits t \<ge> rt_bits s then Conversion_Implicit_Safe else Conversion_Explicit_Safe)
      else if rt_kind s = RT_Unsigned_Integer \<and> rt_kind t = RT_Unsigned_Integer then
        (if rt_bits t \<ge> rt_bits s then Conversion_Implicit_Safe else Conversion_Explicit_Safe)
      else if rt_kind s = RT_Unsigned_Integer \<and> rt_kind t = RT_Signed_Integer then
        (if rt_bits t > rt_bits s then Conversion_Implicit_Safe else Conversion_Explicit_Safe)
      else if rt_kind s = RT_Signed_Integer \<and> rt_kind t = RT_Unsigned_Integer then
        Conversion_Explicit_Safe
      else if rt_kind s = RT_Character \<and> rt_kind t = RT_Unsigned_Integer then
        (if rt_bits t \<ge> 32 then Conversion_Implicit_Safe else Conversion_Explicit_Safe)
      else Conversion_Invalid)"

definition inner_compatible :: "nat \<Rightarrow> ast_type option \<Rightarrow> ast_type option \<Rightarrow> bool run" where
  "inner_compatible n x y c =
     (case (x, y) of
        (Some a, Some b) \<Rightarrow> type_compatible n a b c
      | _ \<Rightarrow> Some (c, False))"

definition type_conversion_classify :: "nat \<Rightarrow> ast_type \<Rightarrow> ast_type \<Rightarrow> type_conversion_class run" where
  "type_conversion_classify n source target c =
     do {
       (c1, same) \<leftarrow> type_compatible n source target c;
       if same then Some (c1, Conversion_Implicit_Safe)
       else do {
         (c2, x) \<leftarrow> type_resolve n source c1;
         case x of
           None \<Rightarrow> Some (c2, Conversion_Invalid)
         | Some s \<Rightarrow>
             do {
               (c3, y) \<leftarrow> type_resolve n target c2;
               case y of
                 None \<Rightarrow> Some (c3, Conversion_Invalid)
               | Some t \<Rightarrow>
                   do {
                     (c4, move) \<leftarrow> type_is_byte_vector_to_text_move n source target c3;
                     if move then Some (c4, Conversion_Explicit_Safe)
                     else if rt_kind s = RT_Reference \<and> rt_kind t = RT_Pointer then
                       do {
                         (c5, ok) \<leftarrow> inner_compatible n (rt_inner s) (rt_inner t) c4;
                         Some (c5,
                           if \<not> ok then Conversion_Invalid
                           else if (case rt_inner t of Some (Type_Mutable _) \<Rightarrow> True | _ \<Rightarrow> False)
                                   \<and> \<not> rt_reference_mutable s
                           then Conversion_Invalid
                           else Conversion_Implicit_Safe)
                       }
                     else if rt_kind s = RT_Reference \<and> rt_kind t = RT_Reference then
                       do {
                         (c5, ok) \<leftarrow> inner_compatible n (rt_inner s) (rt_inner t) c4;
                         Some (c5,
                           if \<not> ok then Conversion_Invalid
                           else if rt_reference_mutable s \<and> \<not> rt_reference_mutable t
                           then Conversion_Implicit_Safe
                           else if \<not> rt_reference_mutable s \<and> rt_reference_mutable t
                           then Conversion_Invalid
                           else conversion_of_scalars s t)
                       }
                     else Some (c4, conversion_of_scalars s t)
                   }
             }
       }
     }"

definition type_conversion_is_safe :: "nat \<Rightarrow> ast_type \<Rightarrow> ast_type \<Rightarrow> bool run" where
  "type_conversion_is_safe n source target c =
     do {
       (c1, k) \<leftarrow> type_conversion_classify n source target c;
       Some (c1, k = Conversion_Implicit_Safe)
     }"

section \<open>Ranges\<close>

lemma word_of_int_limits:
  "(2 ^ k :: 64 word) - 1 = word_of_int (2 ^ k - 1)" "- (2 ^ k :: 64 word) = word_of_int (- (2 ^ k))"
  by (metis of_int_1 of_int_diff of_int_numeral of_int_power)
    (metis of_int_minus of_int_numeral of_int_power)

lemma integer_limits:
  assumes "0 < b" "b < 64"
  shows "sint (2 ^ (b - 1) - 1 :: i64) = 2 ^ (b - 1) - 1"
    and "sint (- (2 ^ (b - 1)) :: i64) = - (2 ^ (b - 1))"
    and "uint (2 ^ b - 1 :: u64) = 2 ^ b - 1"
proof -
  have "(2 :: int) ^ (b - 1) \<le> 2 ^ 62" "(2 :: int) ^ b \<le> 2 ^ 63"
    using assms by (intro power_increasing; simp)+
  then have le: "(2 :: int) ^ (b - 1) \<le> 4611686018427387904" "(2 :: int) ^ b \<le> 9223372036854775808"
      "(0 :: int) < 2 ^ (b - 1)" "- 9223372036854775808 < (2 :: int) ^ (b - 1)"
    by (simp_all add: less_trans [of _ 0])
  have self: "signed_take_bit 63 x = x" if "- (2 ^ 63) \<le> x" "x < 2 ^ 63" for x :: int
    using that by (intro signed_take_bit_int_eq_self)
  show "sint (2 ^ (b - 1) - 1 :: i64) = 2 ^ (b - 1) - 1"
    unfolding word_of_int_limits sint_sbintrunc' using le self [of "2 ^ (b - 1) - 1"] by simp
  show "sint (- (2 ^ (b - 1)) :: i64) = - (2 ^ (b - 1))"
    unfolding word_of_int_limits sint_sbintrunc' using le self [of "- (2 ^ (b - 1))"] by simp
  show "uint (2 ^ b - 1 :: u64) = 2 ^ b - 1"
    unfolding word_of_int_limits using le by (subst unsigned_of_int) (simp add: take_bit_int_eq_self)
qed

lemma sint_i64_bounds: "- (2 ^ 63) \<le> sint (v :: i64)" "sint (v :: i64) < 2 ^ 63"
  using sint_range_size [of v] by (simp_all add: word_size)

lemma signed_integer_fits_range:
  "signed_integer_fits v b \<longleftrightarrow> 0 < b \<and> b \<le> 64 \<and> - (2 ^ (b - 1)) \<le> sint v \<and> sint v < 2 ^ (b - 1)"
proof (cases "0 < b \<and> b < 64")
  case True
  then show ?thesis
    by (auto simp: signed_integer_fits_def Let_def push_bit_of_1 integer_limits [simplified])
next
  case False
  then show ?thesis
    using sint_i64_bounds [of v] by (cases "b = 64") (auto simp: signed_integer_fits_def)
qed

lemma uint_nonnegative: "0 \<le> sint (v :: i64) \<Longrightarrow> uint v = sint v"
  by (simp add: uint_sint take_bit_int_eq_self sint_i64_bounds(2) order_less_le_trans [OF sint_i64_bounds(2)])

lemma unsigned_integer_fits_range:
  "unsigned_integer_fits v b \<longleftrightarrow> 0 < b \<and> b \<le> 64 \<and> 0 \<le> sint v \<and> sint v < 2 ^ b"
proof (cases "0 < b \<and> b < 64")
  case True
  then show ?thesis
    by (auto simp: unsigned_integer_fits_def word_le_def push_bit_of_1 integer_limits uint_nonnegative not_less)
next
  case False
  have "sint v < 2 ^ 64"
    using sint_i64_bounds(2) [of v] by simp
  with False show ?thesis
    by (cases "b = 64") (auto simp: unsigned_integer_fits_def)
qed

section \<open>What resolution returns\<close>

lemma import_loop_index:
  "name_import_loop T c x us m priv = (Lookup_Found, Some i) \<Longrightarrow>
     \<forall>e \<in> set_option m. e < length (nt_entries T c) \<Longrightarrow> i < length (nt_entries T c)"
proof (induction us arbitrary: m priv)
  case Nil
  then show ?case
    by (auto simp: name_lookup_result_def split: if_splits)
next
  case (Cons u us)
  have "e < length (nt_entries T c)" if "name_find_in_unit T c (program_unit_at c u) x = Some e" for e
    using that by (auto simp: name_find_in_unit_def split: option.splits dest!: find_upt_less simp: find_Some_iff)
  with Cons show ?case
    by (auto split: option.splits if_splits)
qed

lemma scan_loop_index:
  "name_scan_loop T c from x is m priv = (Lookup_Found, Some i) \<Longrightarrow> \<forall>j \<in> set is. j < length (nt_entries T c) \<Longrightarrow>
     \<forall>e \<in> set_option m. e < length (nt_entries T c) \<Longrightarrow> i < length (nt_entries T c)"
proof (induction "is" arbitrary: m priv)
  case Nil
  then show ?case
    by (auto simp: name_lookup_result_def split: if_splits)
next
  case (Cons j "is")
  then show ?case
    by (auto simp: Let_def split: option.splits if_splits)
qed

lemma resolve_type_index: "name_resolve_type c u x = (Lookup_Found, Some i) \<Longrightarrow> i < length (sc_types c)"
proof -
  have found: "e < length (sc_types c)" if "name_find_in_unit type_table c v x = Some e" for e v
    using that by (auto simp: name_find_in_unit_def type_table_def find_Some_iff split: option.splits)
  assume "name_resolve_type c u x = (Lookup_Found, Some i)"
  then show "i < length (sc_types c)"
    using found import_loop_index [of type_table c x _ None False i] scan_loop_index [of type_table c u x _ None False i]
    by (auto simp: name_resolve_type_def name_resolve_entry_def name_resolve_in_scope_def type_table_def
        split: option.splits)
qed

text \<open>The invariant of a resolved type.\<close>

definition type_ref_valid :: "semantic_context \<Rightarrow> type_ref \<Rightarrow> bool" where
  "type_ref_valid c e =
     (case e of
        Collected_Type i \<Rightarrow> i < length (sc_types c)
      | Instance_Type i \<Rightarrow> i < length (sc_generic_types c))"

definition declared_body :: "semantic_context \<Rightarrow> type_ref \<Rightarrow> ast_type_decl_body option" where
  "declared_body c e = map_option decl_body (te_declaration (type_entry_at c e))"

definition resolved_type_ok :: "semantic_context \<Rightarrow> resolved_type \<Rightarrow> bool" where
  "resolved_type_ok c r \<longleftrightarrow>
     type_unwrap_mutable (rt_ast r) = rt_ast r
     \<and> (if rt_kind r = RT_Struct then
          (\<exists>e fs. rt_named r = Some e \<and> type_ref_valid c e \<and> declared_body c e = Some (Decl_Struct fs))
        else if rt_kind r = RT_Enum then
          (\<exists>e ks. rt_named r = Some e \<and> type_ref_valid c e \<and> declared_body c e = Some (Decl_Enum ks))
        else rt_named r = None)
     \<and> (rt_inner r \<noteq> None \<longleftrightarrow> rt_kind r \<in> {RT_Pointer, RT_Reference, RT_Vector, RT_Box, RT_Option})
     \<and> (rt_output r \<noteq> None \<longleftrightarrow> rt_kind r = RT_Function)
     \<and> (rt_kind r \<in> {RT_Signed_Integer, RT_Unsigned_Integer} \<longrightarrow> rt_bits r \<in> {8, 16, 32, 64})
     \<and> (rt_kind r = RT_Float \<longrightarrow> rt_bits r \<in> {32, 64})
     \<and> (rt_kind r = RT_Reference \<longrightarrow> (\<forall>i. rt_inner r \<noteq> Some (Type_Mutable i)))"

lemma unwrap_idem [simp]: "type_unwrap_mutable (type_unwrap_mutable t) = type_unwrap_mutable t"
  by (induction t rule: type_unwrap_mutable.induct) auto

lemma unwrap_not_mutable [simp]: "type_unwrap_mutable t \<noteq> Type_Mutable i"
  by (induction t rule: type_unwrap_mutable.induct) auto

lemma resolved_start_simps [simp]:
  "rt_kind (resolved_start t) = RT_Unknown" "rt_builtin (resolved_start t) = None"
  "rt_bits (resolved_start t) = 0" "rt_ast (resolved_start t) = type_unwrap_mutable t"
  "rt_named (resolved_start t) = None" "rt_inner (resolved_start t) = None"
  "rt_parameters (resolved_start t) = []" "rt_output (resolved_start t) = None"
  by (simp_all add: resolved_start_def)

lemma resolved_compound_ok: "resolved_compound t = Some r \<Longrightarrow> resolved_type_ok c r"
  by (auto simp: resolved_compound_def resolved_type_ok_def Let_def split: ast_type.splits)

lemma resolved_builtin_ok:
  "resolved_type_ok c ((resolved_start t)\<lparr>rt_builtin := b,
     rt_kind := type_resolved_kind_from_builtin_class (builtin_class (type_builtin_get_descriptor i)),
     rt_bits := builtin_bits (type_builtin_get_descriptor i)\<rparr>)"
  by (cases i) (simp_all add: resolved_type_ok_def type_builtin_row_def)

lemma find_instance_index:
  "generic_find_type_instance eq n k args i c = Some (c1, Some j) \<Longrightarrow>
     (\<And>l r c c1 b. eq l r c = Some (c1, b) \<Longrightarrow> length (sc_generic_types c) \<le> length (sc_generic_types c1)) \<Longrightarrow>
     j < length (sc_generic_types c1)"
proof (induction n arbitrary: i c)
  case (Suc n)
  have mono: "generic_arguments_equal eq ps c = Some (c1, b) \<Longrightarrow>
      length (sc_generic_types c) \<le> length (sc_generic_types c1)" for ps c c1 b
    using Suc.prems(2)
    by (induction ps arbitrary: c) (fastforce simp: bind_eq_Some_conv split: prod.splits if_splits)+
  show ?case
  proof (cases "generic_arguments_equal eq (zip (te_type_arguments (sc_generic_types c ! i)) args) c")
    case None
    with Suc show ?thesis
      by (auto simp: Let_def split: if_splits)
  next
    case (Some p)
    then obtain c2 b where p: "generic_arguments_equal eq (zip (te_type_arguments (sc_generic_types c ! i)) args) c = Some (c2, b)"
      by (cases p) auto
    show ?thesis
      using Suc.prems(1) p mono [OF p] Suc.IH [OF _ Suc.prems(2)]
      by (auto simp: Let_def split: if_splits)
  qed
qed simp

end
