(* ===== verification/Types_Laws.thy ===== *)
theory Types_Laws
  imports Types
begin

text \<open>
  The laws of the type kernel: resolution returns well-formed types and only adds instances, the
  end of alias chains, and what conversions and literal checks promise.
\<close>

section \<open>Copies keep the tables\<close>

text \<open>A step that leaves the vectors of declarations and instances as they are.\<close>

definition keeps :: "'a sem \<Rightarrow> bool" where
  "keeps f \<longleftrightarrow> (\<forall>c c1 r. f c = (c1, r) \<longrightarrow> entries_of c1 = entries_of c)"

lemma keepsI: "(\<And>c c1 r. f c = (c1, r) \<Longrightarrow> entries_of c1 = entries_of c) \<Longrightarrow> keeps f"
  by (simp add: keeps_def)

lemma keepsD: "f c = (c1, r) \<Longrightarrow> keeps f \<Longrightarrow> entries_of c1 = entries_of c"
  by (simp add: keeps_def)

lemma semantic_fresh_same: "semantic_fresh c = (k, c1) \<Longrightarrow> entries_of c1 = entries_of c"
  by (auto simp: semantic_fresh_def entries_of_def)

lemma generic_array_same: "generic_array xs c = (c1, g) \<Longrightarrow> entries_of c1 = entries_of c"
  by (auto simp: generic_array_def split: if_splits prod.splits dest!: semantic_allocates_same)

lemma generic_record_same: "generic_record_type_owner k u c = (c1, g) \<Longrightarrow> entries_of c1 = entries_of c"
  by (auto simp: generic_record_type_owner_def split: if_splits prod.splits dest!: semantic_allocates_same)

lemmas copy_steps_same = semantic_allocates_same semantic_fresh_same generic_array_same generic_record_same

lemma substitute_keeps_list:
  assumes "\<And>t u. t \<in> set ts \<Longrightarrow> keeps (semantic_generic_substitute_type t bs u)"
  shows "keeps (semantic_generic_substitute_types ts bs u)"
proof (rule keepsI)
  fix c c1 r
  show "semantic_generic_substitute_types ts bs u c = (c1, r) \<Longrightarrow> entries_of c1 = entries_of c"
    using assms
  proof (induction ts arbitrary: c r)
    case (Cons t ts)
    obtain c2 x where t: "semantic_generic_substitute_type t bs u c = (c2, x)"
      by fastforce
    have same: "entries_of c2 = entries_of c"
      using t by (rule keepsD) (simp add: Cons.prems(2))
    show ?case
    proof (cases x)
      case None
      with Cons.prems(1) t same show ?thesis
        by auto
    next
      case (Some s)
      with Cons.prems(1) t obtain y where "semantic_generic_substitute_types ts bs u c2 = (c1, y)"
        by (auto split: prod.splits)
      from Cons.IH [OF this] same show ?thesis
        by (simp add: Cons.prems(2))
    qed
  qed simp
qed

lemma substitute_keeps_wrapper:
  assumes "F \<in> type_wrappers" and "\<And>u. keeps (semantic_generic_substitute_type i bs u)"
  shows "keeps (semantic_generic_substitute_type (F i) bs u)"
proof (rule keepsI)
  fix c c1 r
  assume "semantic_generic_substitute_type (F i) bs u c = (c1, r)"
  then show "entries_of c1 = entries_of c"
    by (auto simp: substitute_wrapper_eq [OF assms(1)] split: prod.splits bool.splits
        dest!: semantic_allocates_same keepsD [OF _ assms(2)])
qed

lemma substitute_keeps_leaf: "type_is_leaf t \<Longrightarrow> keeps (semantic_generic_substitute_type t bs u)"
  by (rule keepsI; cases t; subst (asm) semantic_generic_substitute_type.simps;
      simp add: Let_def split: prod.splits bool.splits; auto dest!: semantic_allocates_same)

lemma substitute_keeps_step:
  assumes bound: "\<And>t b u. bound_argument bs t = Some b \<Longrightarrow> keeps (semantic_generic_substitute_type b [] u)"
  shows "keeps (semantic_generic_substitute_type t bs u)"
proof (induction t arbitrary: u)
  case (Type_Result ok er)
  show ?case
    by (rule keepsI; subst (asm) semantic_generic_substitute_type.simps)
      (auto simp: Let_def split: prod.splits bool.splits
        dest!: semantic_allocates_same keepsD [OF _ Type_Result.IH(1)] keepsD [OF _ Type_Result.IH(2)])
next
  case (Type_Function ps out)
  show ?case
    by (rule keepsI; subst (asm) semantic_generic_substitute_type.simps)
      (auto simp: Let_def split: prod.splits bool.splits option.splits
        dest!: copy_steps_same keepsD [OF _ Type_Function.IH(2)]
          keepsD [OF _ substitute_keeps_list [OF Type_Function.IH(1)]])
next
  case (Type_Named k name args)
  show ?case
  proof (cases "bound_argument bs (Type_Named k name args)")
    case (Some b)
    then show ?thesis
      by (intro keepsI; subst (asm) semantic_generic_substitute_type.simps)
        (auto simp: Let_def intro: keepsD [OF _ bound])
  next
    case None
    then show ?thesis
      by (intro keepsI; subst (asm) semantic_generic_substitute_type.simps)
        (auto simp: Let_def split: prod.splits bool.splits option.splits
          dest!: copy_steps_same keepsD [OF _ substitute_keeps_list [OF Type_Named.IH]])
  qed
next
  case (Type_Pointer i)
  then show ?case
    by (intro substitute_keeps_wrapper [where F = Type_Pointer]) simp_all
next
  case (Type_Reference i)
  then show ?case
    by (intro substitute_keeps_wrapper [where F = Type_Reference]) simp_all
next
  case (Type_Vector i)
  then show ?case
    by (intro substitute_keeps_wrapper [where F = Type_Vector]) simp_all
next
  case (Type_Box i)
  then show ?case
    by (intro substitute_keeps_wrapper [where F = Type_Box]) simp_all
next
  case (Type_Option i)
  then show ?case
    by (intro substitute_keeps_wrapper [where F = Type_Option]) simp_all
next
  case (Type_Mutable i)
  then show ?case
    by (intro substitute_keeps_wrapper [where F = Type_Mutable]) simp_all
qed (auto intro: substitute_keeps_leaf)

lemma substitute_keeps: "keeps (semantic_generic_substitute_type t bs u)"
  by (rule substitute_keeps_step) (rule substitute_keeps_step, simp)

lemma substitutes_keep: "keeps (semantic_generic_substitute_types ts bs u)"
  by (rule substitute_keeps_list) (rule substitute_keeps)

lemma clone_slot_keeps: "keeps (generic_clone_slot bs u s)"
  by (rule keepsI) (auto simp: generic_clone_slot_def split: prod.splits dest!: keepsD [OF _ substitute_keeps])

lemma clone_array_keeps:
  assumes "\<And>x. keeps (f x)"
  shows "keeps (generic_clone_array f xs)"
proof -
  have "generic_clone_each f xs c = (c1, r) \<Longrightarrow> entries_of c1 = entries_of c" for c c1 r
    by (induction xs arbitrary: c r) (fastforce split: prod.splits option.splits dest!: keepsD [OF _ assms])+
  then show ?thesis
    by (intro keepsI) (auto simp: generic_clone_array_def split: prod.splits bool.splits dest!: generic_array_same)
qed

lemma clone_field_keeps: "keeps (generic_clone_field bs u f)"
  by (rule keepsI) (auto simp: generic_clone_field_def split: prod.splits dest!: keepsD [OF _ clone_slot_keeps])

lemma clone_constructor_keeps: "keeps (generic_clone_constructor bs u k)"
  by (rule keepsI)
    (auto simp: generic_clone_constructor_def split: prod.splits
      dest!: keepsD [OF _ clone_array_keeps [OF clone_slot_keeps]])

lemma clone_declaration_keeps: "keeps (generic_clone_type_declaration d args u)"
  by (rule keepsI)
    (auto simp: generic_clone_type_declaration_def generic_clone_decl_body_def
      split: prod.splits bool.splits ast_type_decl_body.splits
      dest!: copy_steps_same keepsD [OF _ substitute_keeps] keepsD [OF _ clone_array_keeps [OF clone_field_keeps]]
        keepsD [OF _ clone_array_keeps [OF clone_constructor_keeps]])

section \<open>Resolution only adds instances\<close>

definition context_grows :: "semantic_context \<Rightarrow> semantic_context \<Rightarrow> bool" where
  "context_grows c c1 \<longleftrightarrow>
     sc_types c1 = sc_types c \<and> sc_units c1 = sc_units c \<and> sc_functions c1 = sc_functions c
     \<and> sc_globals c1 = sc_globals c \<and> sc_unit_name_ranges c1 = sc_unit_name_ranges c
     \<and> (\<exists>es. sc_generic_types c1 = sc_generic_types c @ es)"

lemma context_grows_refl [simp]: "context_grows c c"
  by (simp add: context_grows_def)

lemma context_grows_trans [trans]: "context_grows c c1 \<Longrightarrow> context_grows c1 c2 \<Longrightarrow> context_grows c c2"
  by (auto simp: context_grows_def)

lemma entries_of_grows: "entries_of c1 = entries_of c \<Longrightarrow> context_grows c c1"
  by (simp add: entries_of_def context_grows_def)

lemma context_grows_length: "context_grows c c1 \<Longrightarrow> length (sc_generic_types c) \<le> length (sc_generic_types c1)"
  by (auto simp: context_grows_def)

lemma type_ref_valid_grows: "context_grows c c1 \<Longrightarrow> type_ref_valid c e \<Longrightarrow> type_ref_valid c1 e"
  by (auto simp: type_ref_valid_def context_grows_def split: type_ref.splits)

lemma declared_body_grows:
  "context_grows c c1 \<Longrightarrow> type_ref_valid c e \<Longrightarrow> declared_body c1 e = declared_body c e"
  by (cases e) (auto simp: declared_body_def type_ref_valid_def context_grows_def nth_append)

lemma resolved_type_ok_grows:
  assumes "context_grows c c1" and "resolved_type_ok c r"
  shows "resolved_type_ok c1 r"
proof (cases "rt_kind r = RT_Struct \<or> rt_kind r = RT_Enum")
  case True
  with assms(2) obtain e where e: "rt_named r = Some e" "type_ref_valid c e"
    by (auto simp: resolved_type_ok_def split: if_splits)
  note facts = e type_ref_valid_grows [OF assms(1) e(2)] declared_body_grows [OF assms(1) e(2)] assms(2)
  from True show ?thesis
    by (elim disjE; use facts in \<open>simp add: resolved_type_ok_def\<close>)
next
  case False
  with assms(2) show ?thesis
    by (simp add: resolved_type_ok_def)
qed

text \<open>A run that only adds instances, and one whose answer satisfies \<open>P\<close> as well.\<close>

definition run_grows :: "('a \<Rightarrow> semantic_context \<Rightarrow> bool) \<Rightarrow> 'a run \<Rightarrow> bool" where
  "run_grows P f \<longleftrightarrow> (\<forall>c c1 x. f c = Some (c1, x) \<longrightarrow> context_grows c c1 \<and> P x c1)"

abbreviation answers :: "'a \<Rightarrow> semantic_context \<Rightarrow> bool" where
  "answers \<equiv> (\<lambda>_ _. True)"

lemma run_growsI: "(\<And>c c1 x. f c = Some (c1, x) \<Longrightarrow> context_grows c c1 \<and> P x c1) \<Longrightarrow> run_grows P f"
  by (simp add: run_grows_def)

lemma run_growsD: "f c = Some (c1, x) \<Longrightarrow> run_grows P f \<Longrightarrow> context_grows c c1 \<and> P x c1"
  by (simp add: run_grows_def)

lemma type_equal_grows:
  assumes "\<And>l r. run_grows answers (compatible l r)"
  shows "run_grows answers (semantic_generic_type_equal compatible l r)"
  by (rule run_growsI)
    (auto simp: semantic_generic_type_equal_def bind_eq_Some_conv split: prod.splits if_splits
      dest!: run_growsD [OF _ assms] intro: context_grows_trans)

lemma types_all_grows:
  assumes "\<And>l r. run_grows answers (test l r)"
  shows "run_grows answers (types_all_compatible test ps)"
    and "run_grows answers (generic_arguments_equal test ps)"
proof -
  have "types_all_compatible test ps c = Some (c1, b) \<Longrightarrow> context_grows c c1" for c c1 b
    by (induction ps arbitrary: c b)
      (auto simp: bind_eq_Some_conv split: prod.splits if_splits dest!: run_growsD [OF _ assms]
        intro: context_grows_trans)
  then show "run_grows answers (types_all_compatible test ps)"
    by (simp add: run_grows_def)
  have "generic_arguments_equal test ps c = Some (c1, b) \<Longrightarrow> context_grows c c1" for c c1 b
    by (induction ps arbitrary: c b)
      (auto simp: bind_eq_Some_conv split: prod.splits if_splits dest!: run_growsD [OF _ assms]
        intro: context_grows_trans)
  then show "run_grows answers (generic_arguments_equal test ps)"
    by (simp add: run_grows_def)
qed

definition found_instance :: "nat option \<Rightarrow> semantic_context \<Rightarrow> bool" where
  "found_instance x c \<longleftrightarrow> (\<forall>i. x = Some i \<longrightarrow> i < length (sc_generic_types c))"

lemma find_instance_grows:
  assumes "\<And>l r. run_grows answers (test l r)"
  shows "run_grows found_instance (generic_find_type_instance test n template args i)"
proof -
  have "generic_find_type_instance test n template args i c = Some (c1, x) \<Longrightarrow>
      context_grows c c1 \<and> found_instance x c1" for c c1 x
  proof (induction n arbitrary: i c)
    case (Suc n)
    let ?run = "generic_arguments_equal test (zip (te_type_arguments (sc_generic_types c ! i)) args)"
    note args = run_growsD [OF _ types_all_grows(2) [OF assms]]
    show ?case
    proof (cases "i < length (sc_generic_types c)
        \<and> map_option decl_node (te_template_declaration (sc_generic_types c ! i)) = Some template
        \<and> length (te_type_arguments (sc_generic_types c ! i)) = length args")
      case False
      with Suc show ?thesis
        by (auto simp: found_instance_def Let_def split: if_splits)
    next
      case True
      with Suc.prems obtain c2 b where run: "?run c = Some (c2, b)"
          and rest: "(if b then Some (c2, Some i) else generic_find_type_instance test n template args (i + 1) c2)
            = Some (c1, x)"
        by (auto simp: Let_def bind_eq_Some_conv)
      from args [OF run] have grows: "context_grows c c2" ..
      show ?thesis
      proof (cases b)
        case True
        with rest grows \<open>i < _ \<and> _\<close> context_grows_length [OF grows] show ?thesis
          by (auto simp: found_instance_def)
      next
        case False
        with rest have "context_grows c2 c1 \<and> found_instance x c1"
          by (intro Suc.IH) simp
        with grows show ?thesis
          by (blast intro: context_grows_trans)
      qed
    qed
  qed simp
  then show ?thesis
    by (simp add: run_grows_def)
qed

definition found_entry :: "type_ref option \<Rightarrow> semantic_context \<Rightarrow> bool" where
  "found_entry x c \<longleftrightarrow> (\<forall>e. x = Some e \<longrightarrow> type_ref_valid c e)"

lemma new_instance_grows:
  assumes "generic_new_type_instance template d args u c = (c1, x)"
  shows "context_grows c c1 \<and> found_entry x c1"
  using assms
  by (auto simp: generic_new_type_instance_def generic_fail_def found_entry_def type_ref_valid_def
      context_grows_def entries_of_def semantic_fail_def semantic_begin_diagnostic_def
      split: prod.splits bool.splits option.splits
      dest!: semantic_allocates_same keepsD [OF _ substitutes_keep] keepsD [OF _ clone_declaration_keeps])

lemma run_grows_pure: "f c = (c1, x) \<Longrightarrow> keeps f \<Longrightarrow> context_grows c c1"
  by (blast intro: entries_of_grows keepsD)

lemma generic_fail_grows: "generic_fail i c = (c1, x) \<Longrightarrow> context_grows c c1 \<and> x = None"
  by (auto simp: generic_fail_def intro: entries_of_grows)

lemma resolve_instance_grows:
  assumes "\<And>l r. run_grows answers (test l r)"
    and run: "semantic_generic_resolve_type_instance test n e t c = Some (c1, x)"
    and valid: "type_ref_valid c e"
  shows "context_grows c c1 \<and> found_entry x c1"
proof -
  note find = run_growsD [OF _ find_instance_grows [OF assms(1)]]
  have instance_ok: "found_entry (Some (Instance_Type i)) d" if "found_instance (Some i) d" for i d
    using that by (simp add: found_instance_def found_entry_def type_ref_valid_def)
  have kept: "found_entry (Some e) c" "found_entry None d" for d
    using valid by (simp_all add: found_entry_def)
  show ?thesis
    using run instance_ok kept
    by (auto simp: semantic_generic_resolve_type_instance_def Let_def bind_eq_Some_conv
        split: option.splits if_splits prod.splits
        dest!: find generic_fail_grows new_instance_grows intro: context_grows_trans)
qed

lemma unresolved_name_grows: "context_grows c (semantic_unresolved_name c status name u)"
  by (rule entries_of_grows)
    (simp add: semantic_unresolved_name_def semantic_begin_diagnostic_def entries_of_def Let_def split: option.split)

lemma named_entry_grows:
  assumes "\<And>l r. run_grows answers (test l r)"
  shows "run_grows found_entry (semantic_resolve_named_entry test n t)"
proof (rule run_growsI)
  fix c c1 x
  assume run: "semantic_resolve_named_entry test n t c = Some (c1, x)"
  have none: "found_entry None d" for d
    by (simp add: found_entry_def)
  show "context_grows c c1 \<and> found_entry x c1"
  proof (cases t)
    case (Type_Named k name args)
    define u where "u = (if semantic_type_owner_unit c t = None then sc_active_unit c else semantic_type_owner_unit c t)"
    obtain status i where look: "name_resolve_type c u name = (status, i)"
      by fastforce
    show ?thesis
    proof (cases "status = Lookup_Found \<and> i \<noteq> None")
      case True
      then obtain j where "name_resolve_type c u name = (Lookup_Found, Some j)"
        using look by auto
      with run Type_Named have
        "semantic_generic_resolve_type_instance test n (Collected_Type j) t c = Some (c1, x)"
        "type_ref_valid c (Collected_Type j)"
        by (auto simp: semantic_resolve_named_entry_def u_def type_ref_valid_def resolve_type_index)
      then show ?thesis
        by (rule resolve_instance_grows [OF assms])
    next
      case False
      from look have look': "name_resolve_type c (if semantic_type_owner_unit c (Type_Named k name args) = None
          then sc_active_unit c else semantic_type_owner_unit c (Type_Named k name args)) name = (status, i)"
        unfolding u_def Type_Named .
      from False run have "c1 = semantic_unresolved_name c status name u \<and> x = None"
        by (cases status; cases i) (auto simp: semantic_resolve_named_entry_def Let_def u_def look' Type_Named)
      then show ?thesis
        by (simp add: none unresolved_name_grows)
    qed
  qed (use run none in \<open>auto simp: semantic_resolve_named_entry_def\<close>)
qed

definition well_formed_answer :: "resolved_type option \<Rightarrow> semantic_context \<Rightarrow> bool" where
  "well_formed_answer x c \<longleftrightarrow> (\<forall>r. x = Some r \<longrightarrow> resolved_type_ok c r)"

lemma resolved_named_ok:
  assumes "type_ref_valid c e" and "declared_body c e = Some b"
  shows "b = Decl_Struct fs \<Longrightarrow> resolved_type_ok c ((resolved_start t)\<lparr>rt_named := Some e, rt_kind := RT_Struct\<rparr>)"
    and "b = Decl_Enum ks \<Longrightarrow> resolved_type_ok c ((resolved_start t)\<lparr>rt_named := Some e, rt_kind := RT_Enum\<rparr>)"
  using assms by (simp_all add: resolved_type_ok_def)

lemma resolve_with_grows:
  assumes "\<And>l r. run_grows answers (test l r)"
  shows "run_grows well_formed_answer (type_resolve_with test n t)"
proof -
  have "type_resolve_with test n t c = Some (c1, x) \<Longrightarrow> context_grows c c1 \<and> well_formed_answer x c1" for c c1 x
  proof (induction n arbitrary: t c)
    case (Suc n)
    note entry = run_growsD [OF _ named_entry_grows [OF assms]]
    have none: "well_formed_answer None d" for d
      by (simp add: well_formed_answer_def)
    show ?case
    proof (cases "type_builtin_id_from_ast (type_unwrap_mutable t)")
      case (Some b)
      with Suc.prems resolved_builtin_ok [where c = c and t = t] show ?thesis
        by (auto simp: Let_def well_formed_answer_def)
    next
      case None
      show ?thesis
      proof (cases "\<exists>k name args. type_unwrap_mutable t = Type_Named k name args")
        case False
        with None Suc.prems have "c1 = c" "x = resolved_compound t"
          by (auto simp: Let_def split: ast_type.splits)
        then show ?thesis
          by (auto simp: well_formed_answer_def intro: resolved_compound_ok)
      next
        case True
        with None Suc.prems obtain c2 y where
          entry_run: "semantic_resolve_named_entry test n (type_unwrap_mutable t) c = Some (c2, y)"
          by (auto simp: Let_def bind_eq_Some_conv)
        from entry [OF this] have grows: "context_grows c c2" and found: "found_entry y c2"
          by auto
        show ?thesis
        proof (cases "\<exists>e d. y = Some e \<and> te_declaration (type_entry_at c2 e) = Some d")
          case False
          with None Suc.prems entry_run True grows show ?thesis
            by (auto simp: Let_def none split: option.splits)
        next
          case True
          then obtain e d where y: "y = Some e" and d: "te_declaration (type_entry_at c2 e) = Some d"
            by blast
          have body: "type_ref_valid c2 e" "declared_body c2 e = Some (decl_body d)"
            using found y d by (auto simp: found_entry_def declared_body_def)
          show ?thesis
          proof (cases "decl_body d")
            case (Decl_Alias a)
            with None Suc.prems entry_run \<open>\<exists>k name args. _\<close> y d
            have "type_resolve_with test n a c2 = Some (c1, x)"
              by (auto simp: Let_def)
            from Suc.IH [OF this] grows show ?thesis
              by (blast intro: context_grows_trans)
          next
            case (Decl_Struct fs)
            with None Suc.prems entry_run \<open>\<exists>k name args. _\<close> y d grows resolved_named_ok(1) [OF body Decl_Struct]
            show ?thesis
              by (auto simp: Let_def well_formed_answer_def)
          next
            case (Decl_Enum ks)
            with None Suc.prems entry_run \<open>\<exists>k name args. _\<close> y d grows resolved_named_ok(2) [OF body Decl_Enum]
            show ?thesis
              by (auto simp: Let_def well_formed_answer_def)
          qed
        qed
      qed
    qed
  qed simp
  then show ?thesis
    by (simp add: run_grows_def)
qed

lemma resolved_compatible_grows:
  assumes "\<And>l r. run_grows answers (test l r)"
  shows "run_grows answers (resolved_types_compatible test lb rb a b)"
  by (rule run_growsI)
    (auto simp: resolved_types_compatible_def bind_eq_Some_conv
      split: if_splits option.splits ast_type.splits prod.splits
      dest!: run_growsD [OF _ assms] run_growsD [OF _ types_all_grows(1) [OF assms]]
      intro: context_grows_trans)

lemma compatible_grows: "run_grows answers (type_compatible n l r)"
proof (induction n arbitrary: l r)
  case 0
  then show ?case
    by (simp add: run_grows_def)
next
  case (Suc n)
  note resolve = run_growsD [OF _ resolve_with_grows [OF type_equal_grows [OF Suc.IH]]]
  note compare = run_growsD [OF _ resolved_compatible_grows [OF Suc.IH]]
  show ?case
  proof (rule run_growsI)
    fix c c1 b
    assume run: "type_compatible (Suc n) l r c = Some (c1, b)"
    then obtain c2 x where x: "type_resolve_with (semantic_generic_type_equal (type_compatible n)) n
        (type_unwrap_mutable l) c = Some (c2, x)"
      by (auto simp: Let_def bind_eq_Some_conv)
    note l = resolve [OF x, THEN conjunct1]
    have "context_grows c c1"
    proof (cases x)
      case None
      with run x l show ?thesis
        by (simp add: Let_def)
    next
      case (Some a)
      with run x obtain c3 y where y: "type_resolve_with (semantic_generic_type_equal (type_compatible n)) n
          (type_unwrap_mutable r) c2 = Some (c3, y)"
        by (auto simp: Let_def bind_eq_Some_conv)
      note r = context_grows_trans [OF l resolve [OF y, THEN conjunct1]]
      from run x y Some r show ?thesis
        by (cases y) (auto simp: Let_def dest!: compare intro: context_grows_trans)
    qed
    then show "context_grows c c1 \<and> True"
      by simp
  qed
qed

lemma resolve_grows: "run_grows well_formed_answer (type_resolve n t)"
  unfolding type_resolve_def by (rule resolve_with_grows, rule type_equal_grows, rule compatible_grows)

section \<open>Chains of aliases\<close>

text \<open>
  In a program without generic types a resolution compares no arguments and makes no instance; it
  only follows aliases.
\<close>

definition plain :: "semantic_context \<Rightarrow> bool" where
  "plain c \<longleftrightarrow> (\<forall>e \<in> set (sc_types c). \<forall>d. te_declaration e = Some d \<longrightarrow> decl_type_parameters d = [])"

definition alias_target_of :: "semantic_type_entry \<Rightarrow> ast_type option" where
  "alias_target_of e =
     (case map_option decl_body (te_declaration e) of Some (Decl_Alias a) \<Rightarrow> Some a | _ \<Rightarrow> None)"

definition using_unit :: "semantic_context \<Rightarrow> ast_type \<Rightarrow> nat option" where
  "using_unit c t =
     (if semantic_type_owner_unit c t = None then sc_active_unit c else semantic_type_owner_unit c t)"

text \<open>The alias a type names, if it names one.\<close>

definition alias_step :: "semantic_context \<Rightarrow> ast_type \<Rightarrow> ast_type option" where
  "alias_step c t =
     (case type_unwrap_mutable t of
        Type_Named k name [] \<Rightarrow>
          (case name_resolve_type c (using_unit c (Type_Named k name [])) name of
             (Lookup_Found, Some i) \<Rightarrow> alias_target_of (sc_types c ! i)
           | _ \<Rightarrow> None)
      | _ \<Rightarrow> None)"

definition alias_targets :: "semantic_context \<Rightarrow> ast_type list" where
  "alias_targets c = map (\<lambda>e. case alias_target_of e of None \<Rightarrow> Type_Void | Some a \<Rightarrow> a) (sc_types c)"

lemma alias_step_index:
  "alias_step c t = Some a \<Longrightarrow> \<exists>i < length (sc_types c). alias_target_of (sc_types c ! i) = Some a"
  by (auto simp: alias_step_def dest: resolve_type_index
      split: ast_type.splits list.splits prod.splits name_lookup_status.splits option.splits)

lemma alias_step_target: "alias_step c t = Some a \<Longrightarrow> a \<in> set (alias_targets c)"
  unfolding alias_targets_def in_set_conv_nth using alias_step_index [of c t a] by auto

interpretation alias_chain: bounded_chain "alias_step c" "alias_targets c" for c
  by unfold_locales (rule alias_step_target)

lemma plain_named_entry:
  assumes "plain c"
  shows "semantic_resolve_named_entry test n (Type_Named k name args) c =
    (case name_resolve_type c (using_unit c (Type_Named k name args)) name of
       (Lookup_Found, Some i) \<Rightarrow>
         if args = [] then Some (c, Some (Collected_Type i)) else Some (generic_fail E0409_Unresolved_Type c)
     | (status, _) \<Rightarrow>
         Some (semantic_unresolved_name c status name (using_unit c (Type_Named k name args)), None))"
proof -
  have "semantic_generic_resolve_type_instance test n (Collected_Type i) (Type_Named k name args) c =
      (if args = [] then Some (c, Some (Collected_Type i)) else Some (generic_fail E0409_Unresolved_Type c))"
    if "i < length (sc_types c)" for i
  proof (cases "te_declaration (sc_types c ! i)")
    case None
    then show ?thesis
      by (simp add: semantic_generic_resolve_type_instance_def)
  next
    case (Some d)
    with assms nth_mem [OF that] have "decl_type_parameters d = []"
      by (simp add: plain_def)
    with Some show ?thesis
      by (simp add: semantic_generic_resolve_type_instance_def)
  qed
  note step = this
  obtain status x where look: "name_resolve_type c (using_unit c (Type_Named k name args)) name = (status, x)"
    by fastforce
  have found: "semantic_resolve_named_entry test n (Type_Named k name args) c =
      (case (status, x) of
         (Lookup_Found, Some i) \<Rightarrow>
           semantic_generic_resolve_type_instance test n (Collected_Type i) (Type_Named k name args) c
       | (status, _) \<Rightarrow>
           Some (semantic_unresolved_name c status name (using_unit c (Type_Named k name args)), None))"
    unfolding look [symmetric]
    by (simp only: semantic_resolve_named_entry_def using_unit_def Let_def ast_type.case)
  show ?thesis
  proof (cases "status = Lookup_Found \<and> x \<noteq> None")
    case True
    then obtain i where i: "status = Lookup_Found" "x = Some i"
      by auto
    with look have "i < length (sc_types c)"
      by (auto dest: resolve_type_index)
    from step [OF this] i show ?thesis
      unfolding found look by simp
  next
    case False
    then show ?thesis
      unfolding found look by (cases status; cases x) simp_all
  qed
qed

lemma plain_resolve_step:
  assumes "plain c"
  shows "alias_step c t = Some a \<Longrightarrow> type_resolve_with test (Suc n) t c = type_resolve_with test n a c"
    and "alias_step c t = None \<Longrightarrow>
      type_resolve_with test (Suc n) t c = type_resolve_with test' (Suc m) t c \<and>
      type_resolve_with test (Suc n) t c \<noteq> None"
proof -
  show "alias_step c t = Some a \<Longrightarrow> type_resolve_with test (Suc n) t c = type_resolve_with test n a c"
    by (auto simp: alias_step_def alias_target_of_def Let_def plain_named_entry [OF assms]
        split: ast_type.splits list.splits prod.splits name_lookup_status.splits option.splits
          ast_type_decl_body.splits)
  show "alias_step c t = None \<Longrightarrow>
      type_resolve_with test (Suc n) t c = type_resolve_with test' (Suc m) t c \<and>
      type_resolve_with test (Suc n) t c \<noteq> None"
    by (auto simp: alias_step_def alias_target_of_def Let_def plain_named_entry [OF assms] generic_fail_def
        split: ast_type.splits list.splits prod.splits name_lookup_status.splits option.splits
          ast_type_decl_body.splits)
qed

text \<open>The answer at the end of a chain, where one unit of fuel is enough.\<close>

definition resolved_end :: "semantic_context \<Rightarrow> ast_type \<Rightarrow> (semantic_context \<times> resolved_type option) option" where
  "resolved_end c t = type_resolve 1 t c"

lemma plain_resolve_chain:
  assumes "plain c"
  shows "type_resolve_with test n t c = Option.bind (chain_loop (alias_step c) n t) (resolved_end c)"
proof (induction n arbitrary: t)
  case (Suc n)
  show ?case
  proof (cases "alias_step c t")
    case None
    from plain_resolve_step(2) [OF assms this, of test n "semantic_generic_type_equal (type_compatible 1)" 0] None
    show ?thesis
      by (simp add: resolved_end_def type_resolve_def del: type_resolve_with.simps type_compatible.simps)
  next
    case (Some a)
    then show ?thesis
      by (simp add: plain_resolve_step(1) [OF assms] Suc.IH del: type_resolve_with.simps)
  qed
qed simp

lemma type_resolve_chain:
  "plain c \<Longrightarrow> type_resolve n t c = Option.bind (chain_loop (alias_step c) n t) (resolved_end c)"
  unfolding type_resolve_def by (rule plain_resolve_chain)

lemma chain_ends_stop: "chain_ends step a r \<Longrightarrow> step r = None"
  by (induction rule: chain_ends.induct)

lemma resolved_end_answers: "plain c \<Longrightarrow> alias_step c t = None \<Longrightarrow> resolved_end c t \<noteq> None"
  unfolding resolved_end_def type_resolve_def using plain_resolve_step(2) [of c t _ 0] by (metis One_nat_def)

section \<open>Integer types\<close>

text \<open>The values of a built-in integer type.\<close>

definition integer_range :: "ast_type \<Rightarrow> int set option" where
  "integer_range t =
     (case type_builtin_id_from_ast (type_unwrap_mutable t) of
        None \<Rightarrow> None
      | Some b \<Rightarrow>
          (let d = type_builtin_get_descriptor b; n = builtin_bits d
           in case builtin_class d of
                Class_Signed_Integer \<Rightarrow> Some {- (2 ^ (n - 1))..<2 ^ (n - 1)}
              | Class_Unsigned_Integer \<Rightarrow> Some {0..<2 ^ n}
              | _ \<Rightarrow> None))"

definition resolved_range :: "resolved_type \<Rightarrow> int set" where
  "resolved_range r =
     (if rt_kind r = RT_Signed_Integer then {- (2 ^ (rt_bits r - 1))..<2 ^ (rt_bits r - 1)}
      else {0..<2 ^ rt_bits r})"

definition resolved_integer :: "resolved_type \<Rightarrow> bool" where
  "resolved_integer r \<longleftrightarrow>
     rt_kind r \<in> {RT_Signed_Integer, RT_Unsigned_Integer} \<and> rt_bits r \<in> {8, 16, 32, 64}"

lemma integer_range_resolves:
  assumes "integer_range t = Some A"
  shows "\<exists>r. (\<forall>test n c. type_resolve_with test (Suc n) t c = Some (c, Some r)) \<and> resolved_integer r
    \<and> resolved_range r = A"
proof -
  from assms obtain b where b: "type_builtin_id_from_ast (type_unwrap_mutable t) = Some b"
    by (auto simp: integer_range_def split: option.splits)
  let ?r = "(resolved_start t)\<lparr>rt_builtin := Some b,
     rt_kind := type_resolved_kind_from_builtin_class (builtin_class (type_builtin_get_descriptor b)),
     rt_bits := builtin_bits (type_builtin_get_descriptor b)\<rparr>"
  have "builtin_id (type_builtin_get_descriptor b) = b"
    by (cases b) (simp_all add: type_builtin_row_def)
  with b have "\<forall>test n c. type_resolve_with test (Suc n) t c = Some (c, Some ?r)"
    by (simp add: Let_def)
  moreover have "resolved_integer ?r \<and> resolved_range ?r = A"
    using assms b by (cases b) (simp_all add: integer_range_def resolved_integer_def resolved_range_def type_builtin_row_def Let_def)
  ultimately show ?thesis
    by blast
qed

lemma range_subset_iff:
  assumes "resolved_integer s" and "resolved_integer t"
  shows "resolved_range s \<subseteq> resolved_range t \<longleftrightarrow> conversion_of_scalars s t = Conversion_Implicit_Safe"
    and "conversion_of_scalars s t \<noteq> Conversion_Implicit_Safe \<Longrightarrow>
      conversion_of_scalars s t = Conversion_Explicit_Safe"
proof -
  have s: "rt_kind s = RT_Signed_Integer \<or> rt_kind s = RT_Unsigned_Integer"
      "rt_bits s = 8 \<or> rt_bits s = 16 \<or> rt_bits s = 32 \<or> rt_bits s = 64"
    and t: "rt_kind t = RT_Signed_Integer \<or> rt_kind t = RT_Unsigned_Integer"
      "rt_bits t = 8 \<or> rt_bits t = 16 \<or> rt_bits t = 32 \<or> rt_bits t = 64"
    using assms by (simp_all add: resolved_integer_def)
  from s t show "resolved_range s \<subseteq> resolved_range t \<longleftrightarrow>
      conversion_of_scalars s t = Conversion_Implicit_Safe"
    by (elim disjE; simp add: resolved_range_def conversion_of_scalars_def)
  have "conversion_of_scalars s t \<in> {Conversion_Implicit_Safe, Conversion_Explicit_Safe}"
    using s(1) t(1) by (elim disjE) (simp_all add: conversion_of_scalars_def)
  then show "conversion_of_scalars s t \<noteq> Conversion_Implicit_Safe \<Longrightarrow>
      conversion_of_scalars s t = Conversion_Explicit_Safe"
    by blast
qed

lemma resolved_integer_compatible:
  assumes "resolved_integer s" and "resolved_integer t"
  shows "resolved_types_compatible test lb rb s t c = Some (c, rt_kind s = rt_kind t \<and> rt_bits s = rt_bits t)"
proof -
  from assms have s: "rt_kind s = RT_Signed_Integer \<or> rt_kind s = RT_Unsigned_Integer"
    and t: "rt_kind t = RT_Signed_Integer \<or> rt_kind t = RT_Unsigned_Integer"
    by (simp_all add: resolved_integer_def)
  then show ?thesis
    by (elim disjE) (simp_all add: resolved_types_compatible_def)
qed

text \<open>A literal fits a type exactly when its value is in the range.\<close>

lemma integer_fits_range:
  assumes "resolved_integer r"
  shows "(if rt_kind r = RT_Signed_Integer then signed_integer_fits v (rt_bits r)
      else if rt_kind r = RT_Unsigned_Integer then unsigned_integer_fits v (rt_bits r) else False)
    \<longleftrightarrow> sint v \<in> resolved_range r"
  using assms
  by (auto simp: resolved_integer_def resolved_range_def signed_integer_fits_range unsigned_integer_fits_range
      simp del: One_nat_def)

lemma wide_literal_range:
  assumes "resolved_integer r"
  shows "rt_kind r = RT_Unsigned_Integer \<and> rt_bits r = 64 \<longleftrightarrow> {2 ^ 63..<2 ^ 64} \<subseteq> resolved_range r"
proof -
  from assms have "rt_kind r = RT_Signed_Integer \<or> rt_kind r = RT_Unsigned_Integer"
      "rt_bits r = 8 \<or> rt_bits r = 16 \<or> rt_bits r = 32 \<or> rt_bits r = 64"
    by (simp_all add: resolved_integer_def)
  then show ?thesis
    by (elim disjE; simp add: resolved_range_def)
qed

section \<open>Canonical forms\<close>

text \<open>
  What compatibility compares: the built-in kind and width, the wrapping kind with the form of the
  inner type, the declaration. The form of a result is only defined when it is written as such; one
  behind an alias has none.
\<close>

datatype canonical =
    Form_Leaf resolved_type_kind nat
  | Form_Named resolved_type_kind type_ref
  | Form_Inner resolved_type_kind bool canonical
  | Form_Result canonical canonical
  | Form_Function "canonical list" canonical

definition resolves_to :: "semantic_context \<Rightarrow> ast_type \<Rightarrow> resolved_type \<Rightarrow> bool" where
  "resolves_to c t r \<longleftrightarrow> (\<exists>n. type_resolve n (type_unwrap_mutable t) c = Some (c, Some r))"

definition leaf_kinds :: "resolved_type_kind set" where
  "leaf_kinds = {RT_Unknown, RT_Boolean, RT_Signed_Integer, RT_Unsigned_Integer, RT_Float, RT_Character,
     RT_String, RT_Void}"

definition inner_kinds :: "resolved_type_kind set" where
  "inner_kinds = {RT_Pointer, RT_Reference, RT_Vector, RT_Box, RT_Option}"

definition leaf_bits :: "resolved_type \<Rightarrow> nat" where
  "leaf_bits r = (if rt_kind r \<in> {RT_Signed_Integer, RT_Unsigned_Integer, RT_Float} then rt_bits r else 0)"

inductive canonical_form :: "semantic_context \<Rightarrow> ast_type \<Rightarrow> canonical \<Rightarrow> bool" for c where
  form_leaf: "resolves_to c t r \<Longrightarrow> rt_kind r \<in> leaf_kinds \<Longrightarrow>
    canonical_form c t (Form_Leaf (rt_kind r) (leaf_bits r))"
| form_named: "resolves_to c t r \<Longrightarrow> rt_kind r \<in> {RT_Struct, RT_Enum} \<Longrightarrow> rt_named r = Some e \<Longrightarrow>
    canonical_form c t (Form_Named (rt_kind r) e)"
| form_inner: "resolves_to c t r \<Longrightarrow> rt_kind r \<in> inner_kinds \<Longrightarrow> rt_inner r = Some i \<Longrightarrow>
    canonical_form c i K \<Longrightarrow>
    canonical_form c t (Form_Inner (rt_kind r) (rt_kind r = RT_Reference \<and> rt_reference_mutable r) K)"
| form_result: "resolves_to c t r \<Longrightarrow> rt_kind r = RT_Result \<Longrightarrow> type_unwrap_mutable t = Type_Result ok er \<Longrightarrow>
    canonical_form c ok K \<Longrightarrow> canonical_form c er L \<Longrightarrow> canonical_form c t (Form_Result K L)"
| form_function: "resolves_to c t r \<Longrightarrow> rt_kind r = RT_Function \<Longrightarrow> rt_output r = Some out \<Longrightarrow>
    list_all2 (canonical_form c) (rt_parameters r) Ks \<Longrightarrow> canonical_form c out K \<Longrightarrow>
    canonical_form c t (Form_Function Ks K)"

text \<open>Enough fuel makes two types comparable.\<close>

definition compares :: "semantic_context \<Rightarrow> ast_type \<Rightarrow> ast_type \<Rightarrow> bool \<Rightarrow> bool" where
  "compares c l r b \<longleftrightarrow> (\<exists>k. \<forall>n \<ge> k. type_compatible n l r c = Some (c, b))"

lemma resolves_to_all:
  assumes "plain c" and "resolves_to c t r"
  shows "\<exists>k. \<forall>test. \<forall>n \<ge> k. type_resolve_with test n (type_unwrap_mutable t) c = Some (c, Some r)"
proof -
  from assms obtain k x where k: "chain_loop (alias_step c) k (type_unwrap_mutable t) = Some x"
      "resolved_end c x = Some (c, Some r)"
    unfolding resolves_to_def type_resolve_chain [OF assms(1)] bind_eq_Some_conv by blast
  have "chain_loop (alias_step c) n (type_unwrap_mutable t) = Some x" if "k \<le> n" for n
    using k(1) that by (auto simp: chain_loop_path simp del: chain_loop.simps intro: order_less_le_trans)
  with k(2) show ?thesis
    by (intro exI [of _ k]) (simp add: plain_resolve_chain [OF assms(1)])
qed

lemma compares_step:
  assumes "plain c" "resolves_to c l a" "resolves_to c r b"
    and "\<exists>k. \<forall>n \<ge> k. resolved_types_compatible (type_compatible n) (type_unwrap_mutable l) (type_unwrap_mutable r) a b c
      = Some (c, x)"
  shows "compares c l r x"
proof -
  from resolves_to_all [OF assms(1,2)] obtain i where
    i: "\<And>test n. n \<ge> i \<Longrightarrow> type_resolve_with test n (type_unwrap_mutable l) c = Some (c, Some a)"
    by blast
  from resolves_to_all [OF assms(1,3)] obtain j where
    j: "\<And>test n. n \<ge> j \<Longrightarrow> type_resolve_with test n (type_unwrap_mutable r) c = Some (c, Some b)"
    by blast
  from assms(4) obtain k where
    k: "\<And>n. n \<ge> k \<Longrightarrow> resolved_types_compatible (type_compatible n) (type_unwrap_mutable l) (type_unwrap_mutable r)
      a b c = Some (c, x)"
    by blast
  have "type_compatible (Suc n) l r c = Some (c, x)" if "n \<ge> i + j + k" for n
    using i [of n] j [of n] k [of n] that by (simp add: Let_def)
  then have "type_compatible n l r c = Some (c, x)" if "n \<ge> Suc (i + j + k)" for n
    using that by (cases n) simp_all
  then show ?thesis
    unfolding compares_def by blast
qed

text \<open>The comparisons the code makes after the kinds are known to agree.\<close>

lemma compares_parameters:
  assumes "list_all2 (\<lambda>t K. \<forall>u L. canonical_form c u L \<longrightarrow> compares c t u (K = L)) ps Ks"
    and "list_all2 (canonical_form c) qs Ls" and "length ps = length qs"
  shows "\<exists>k. \<forall>n \<ge> k. types_all_compatible (type_compatible n) (zip ps qs) c = Some (c, Ks = Ls)"
  using assms
proof (induction ps Ks arbitrary: qs Ls rule: list_all2_induct)
  case Nil
  then show ?case
    by simp
next
  case (Cons p ps K Ks)
  then obtain q qs' L Ls' where split: "qs = q # qs'" "Ls = L # Ls'" "canonical_form c q L"
      "list_all2 (canonical_form c) qs' Ls'" "length ps = length qs'"
    by (auto simp: list_all2_Cons1 Suc_length_conv)
  with Cons have "compares c p q (K = L)"
    by blast
  then obtain j where j: "\<And>n. n \<ge> j \<Longrightarrow> type_compatible n p q c = Some (c, K = L)"
    unfolding compares_def by blast
  from Cons.IH [OF split(4,5)] obtain k where
    k: "\<And>n. n \<ge> k \<Longrightarrow> types_all_compatible (type_compatible n) (zip ps qs') c = Some (c, Ks = Ls')"
    by blast
  have "types_all_compatible (type_compatible n) (zip (p # ps) qs) c = Some (c, K # Ks = Ls)" if "n \<ge> j + k" for n
    using j [of n] k [of n] that by (simp add: split)
  then show ?case
    by blast
qed

lemma resolves_to_unique: "plain c \<Longrightarrow> resolves_to c t a \<Longrightarrow> resolves_to c t b \<Longrightarrow> a = b"
  using resolves_to_all [of c t a] resolves_to_all [of c t b] by (metis le_add1 le_add2 option.inject prod.inject)

lemma compares_at_once:
  assumes "plain c" "resolves_to c l a" "resolves_to c r b"
    and "\<And>test lb rb. resolved_types_compatible test lb rb a b c = Some (c, x)"
  shows "compares c l r x"
  by (rule compares_step [OF assms(1-3)]) (simp add: assms(4))

lemma compares_kinds:
  assumes "plain c" "resolves_to c l a" "resolves_to c r b" "rt_kind a \<noteq> rt_kind b"
  shows "compares c l r False"
  by (rule compares_at_once [OF assms(1-3)]) (simp only: resolved_types_compatible_def assms(4) if_True not_False_eq_True)

lemma compares_leaf:
  assumes "plain c" "resolves_to c l a" "resolves_to c r b" "rt_kind a = rt_kind b" "rt_kind a \<in> leaf_kinds"
  shows "compares c l r (leaf_bits a = leaf_bits b)"
  by (rule compares_at_once [OF assms(1-3)])
    (use assms(4,5) in \<open>cases "rt_kind b"; simp add: resolved_types_compatible_def leaf_bits_def leaf_kinds_def\<close>)

lemma compares_inner:
  assumes "plain c" "resolves_to c l a" "resolves_to c r b" "rt_kind a = rt_kind b" "rt_kind a \<in> inner_kinds"
    "rt_inner a = Some i" "rt_inner b = Some j" "compares c i j x"
  shows "compares c l r ((rt_kind b = RT_Reference \<longrightarrow> rt_reference_mutable a = rt_reference_mutable b) \<and> x)"
proof (rule compares_step [OF assms(1-3)])
  from assms(8) obtain k where k: "\<And>n. n \<ge> k \<Longrightarrow> type_compatible n i j c = Some (c, x)"
    unfolding compares_def by blast
  have "resolved_types_compatible (type_compatible n) lb rb a b c =
      Some (c, (rt_kind b = RT_Reference \<longrightarrow> rt_reference_mutable a = rt_reference_mutable b) \<and> x)"
    if "n \<ge> k" for n lb rb
    using assms(4-7) k [OF that]
    by (cases "rt_kind b") (simp_all add: resolved_types_compatible_def inner_kinds_def)
  then show "\<exists>k. \<forall>n \<ge> k. resolved_types_compatible (type_compatible n) (type_unwrap_mutable l)
      (type_unwrap_mutable r) a b c =
      Some (c, (rt_kind b = RT_Reference \<longrightarrow> rt_reference_mutable a = rt_reference_mutable b) \<and> x)"
    by blast
qed

lemma compares_result:
  assumes "plain c" "resolves_to c l a" "resolves_to c r b" "rt_kind a = RT_Result" "rt_kind b = RT_Result"
    "type_unwrap_mutable l = Type_Result ok1 er1" "type_unwrap_mutable r = Type_Result ok2 er2"
    "compares c ok1 ok2 x" "compares c er1 er2 y"
  shows "compares c l r (x \<and> y)"
proof (rule compares_step [OF assms(1-3)])
  from assms(8,9) obtain j k where j: "\<And>n. n \<ge> j \<Longrightarrow> type_compatible n ok1 ok2 c = Some (c, x)"
    and k: "\<And>n. n \<ge> k \<Longrightarrow> type_compatible n er1 er2 c = Some (c, y)"
    unfolding compares_def by blast
  have "resolved_types_compatible (type_compatible n) (type_unwrap_mutable l) (type_unwrap_mutable r) a b c =
      Some (c, x \<and> y)" if "n \<ge> j + k" for n
    using j [of n] k [of n] that by (simp add: resolved_types_compatible_def assms(4-7))
  then show "\<exists>k. \<forall>n \<ge> k. resolved_types_compatible (type_compatible n) (type_unwrap_mutable l)
      (type_unwrap_mutable r) a b c = Some (c, x \<and> y)"
    by blast
qed

lemma compares_function:
  assumes "plain c" "resolves_to c l a" "resolves_to c r b" "rt_kind a = RT_Function" "rt_kind b = RT_Function"
    "length (rt_parameters a) = length (rt_parameters b)" "rt_output a = Some s" "rt_output b = Some t"
    "\<exists>k. \<forall>n \<ge> k. types_all_compatible (type_compatible n) (zip (rt_parameters a) (rt_parameters b)) c = Some (c, x)"
    "compares c s t y"
  shows "compares c l r (x \<and> y)"
proof (rule compares_step [OF assms(1-3)])
  from assms(9,10) obtain j k where
    j: "\<And>n. n \<ge> j \<Longrightarrow> types_all_compatible (type_compatible n) (zip (rt_parameters a) (rt_parameters b)) c = Some (c, x)"
    and k: "\<And>n. n \<ge> k \<Longrightarrow> type_compatible n s t c = Some (c, y)"
    unfolding compares_def by blast
  have "resolved_types_compatible (type_compatible n) lb rb a b c = Some (c, x \<and> y)" if "n \<ge> j + k" for n lb rb
    using j [of n] k [of n] that by (simp add: resolved_types_compatible_def assms(4-8))
  then show "\<exists>k. \<forall>n \<ge> k. resolved_types_compatible (type_compatible n) (type_unwrap_mutable l)
      (type_unwrap_mutable r) a b c = Some (c, x \<and> y)"
    by blast
qed

lemma compares_function_length:
  assumes "plain c" "resolves_to c l a" "resolves_to c r b" "rt_kind a = RT_Function" "rt_kind b = RT_Function"
    "length (rt_parameters a) \<noteq> length (rt_parameters b)"
  shows "compares c l r False"
  by (rule compares_at_once [OF assms(1-3)]) (simp add: resolved_types_compatible_def assms(4-6))

lemma compares_named:
  assumes "plain c" "resolves_to c l a" "resolves_to c r b" "rt_kind a = rt_kind b" "rt_kind a \<in> {RT_Struct, RT_Enum}"
  shows "compares c l r (rt_named a = rt_named b)"
  by (rule compares_at_once [OF assms(1-3)])
    (use assms(4,5) in \<open>cases "rt_kind b"; simp add: resolved_types_compatible_def\<close>)

primrec form_kind :: "canonical \<Rightarrow> resolved_type_kind" where
  "form_kind (Form_Leaf k n) = k"
| "form_kind (Form_Named k e) = k"
| "form_kind (Form_Inner k m K) = k"
| "form_kind (Form_Result K L) = RT_Result"
| "form_kind (Form_Function Ks K) = RT_Function"

lemma canonical_form_kind: "canonical_form c t K \<Longrightarrow> \<exists>r. resolves_to c t r \<and> rt_kind r = form_kind K"
  by (cases rule: canonical_form.cases) auto

lemma compares_other_kind:
  assumes "plain c" "canonical_form c l K" "canonical_form c r L" "form_kind K \<noteq> form_kind L"
  shows "compares c l r (K = L)"
proof -
  from assms(2,3) obtain a b where "resolves_to c l a" "resolves_to c r b" "rt_kind a \<noteq> rt_kind b"
    using canonical_form_kind [of c l K] canonical_form_kind [of c r L] assms(4) by auto
  then have "compares c l r False"
    by (rule compares_kinds [OF assms(1)])
  with assms(4) show ?thesis
    by (metis (full_types))
qed

lemma form_kind_cases:
  assumes "canonical_form c r L"
  shows "form_kind L \<in> leaf_kinds \<Longrightarrow>
      \<exists>b. resolves_to c r b \<and> rt_kind b = form_kind L \<and> L = Form_Leaf (rt_kind b) (leaf_bits b)"
    and "form_kind L \<in> {RT_Struct, RT_Enum} \<Longrightarrow>
      \<exists>b e. resolves_to c r b \<and> rt_kind b = form_kind L \<and> rt_named b = Some e \<and> L = Form_Named (rt_kind b) e"
    and "form_kind L \<in> inner_kinds \<Longrightarrow>
      \<exists>b i K. resolves_to c r b \<and> rt_kind b = form_kind L \<and> rt_inner b = Some i \<and> canonical_form c i K
        \<and> L = Form_Inner (rt_kind b) (rt_kind b = RT_Reference \<and> rt_reference_mutable b) K"
    and "form_kind L = RT_Result \<Longrightarrow>
      \<exists>b ok er K M. resolves_to c r b \<and> rt_kind b = RT_Result \<and> type_unwrap_mutable r = Type_Result ok er
        \<and> canonical_form c ok K \<and> canonical_form c er M \<and> L = Form_Result K M"
    and "form_kind L = RT_Function \<Longrightarrow>
      \<exists>b out Ks K. resolves_to c r b \<and> rt_kind b = RT_Function \<and> rt_output b = Some out
        \<and> list_all2 (canonical_form c) (rt_parameters b) Ks \<and> canonical_form c out K \<and> L = Form_Function Ks K"
  using assms by (cases; auto simp: leaf_kinds_def inner_kinds_def)+

lemma canonical_compares:
  assumes "plain c" and "canonical_form c l K" and "canonical_form c r L"
  shows "compares c l r (K = L)"
  using assms(2,3)
proof (induction l K arbitrary: r L rule: canonical_form.induct)
  case (form_leaf t a)
  note self = canonical_form.form_leaf [OF form_leaf(1,2)]
  show ?case
  proof (cases "form_kind L = rt_kind a")
    case True
    with form_kind_cases(1) [OF form_leaf(3)] form_leaf(2) obtain b where
      "resolves_to c r b" "rt_kind b = rt_kind a" "L = Form_Leaf (rt_kind b) (leaf_bits b)"
      by auto
    with compares_leaf [OF assms(1) form_leaf(1), of r b] form_leaf(2) show ?thesis
      by simp
  qed (auto intro: compares_other_kind [OF assms(1) self form_leaf(3)])
next
  case (form_named t a e)
  note self = canonical_form.form_named [OF form_named(1-3)]
  show ?case
  proof (cases "form_kind L = rt_kind a")
    case True
    with form_kind_cases(2) [OF form_named(4)] form_named(2) obtain b f where
      "resolves_to c r b" "rt_kind b = rt_kind a" "rt_named b = Some f" "L = Form_Named (rt_kind b) f"
      by auto
    with compares_named [OF assms(1) form_named(1), of r b] form_named(2,3) show ?thesis
      by simp
  qed (auto intro: compares_other_kind [OF assms(1) self form_named(4)])
next
  case (form_inner t a i K)
  note self = canonical_form.form_inner [OF form_inner(1-4)]
  show ?case
  proof (cases "form_kind L = rt_kind a")
    case True
    with form_kind_cases(3) [OF form_inner(6)] form_inner(2) obtain b j M where
      b: "resolves_to c r b" "rt_kind b = rt_kind a" "rt_inner b = Some j" "canonical_form c j M"
        "L = Form_Inner (rt_kind b) (rt_kind b = RT_Reference \<and> rt_reference_mutable b) M"
      by auto
    from compares_inner [OF assms(1) form_inner(1) b(1) b(2) [symmetric] form_inner(2,3) b(3) form_inner(5) [OF b(4)]]
    show ?thesis
      by (rule back_subst) (auto simp: b)
  qed (auto intro: compares_other_kind [OF assms(1) self form_inner(6)])
next
  case (form_result t a ok er K M)
  note self = canonical_form.form_result [OF form_result(1-5)]
  show ?case
  proof (cases "form_kind L = RT_Result")
    case True
    from form_kind_cases(4) [OF form_result(8) True] obtain b ok' er' K' M' where
      b: "resolves_to c r b" "rt_kind b = RT_Result" "type_unwrap_mutable r = Type_Result ok' er'"
        "canonical_form c ok' K'" "canonical_form c er' M'" "L = Form_Result K' M'"
      by blast
    from compares_result [OF assms(1) form_result(1) b(1) form_result(2) b(2) form_result(3) b(3)
        form_result(6) [OF b(4)] form_result(7) [OF b(5)]]
    show ?thesis
      by (simp add: b(6))
  qed (auto intro: compares_other_kind [OF assms(1) self form_result(8)])
next
  case (form_function t a out Ks K)
  have parameters: "list_all2 (canonical_form c) (rt_parameters a) Ks"
    using form_function(5) by (rule list_all2_mono) simp
  note self = canonical_form.form_function [OF form_function(1-3) parameters form_function(4)]
  show ?case
  proof (cases "form_kind L = RT_Function")
    case True
    from form_kind_cases(5) [OF form_function(7) True] obtain b out' Ls M where
      b: "resolves_to c r b" "rt_kind b = RT_Function" "rt_output b = Some out'"
        "list_all2 (canonical_form c) (rt_parameters b) Ls" "canonical_form c out' M" "L = Form_Function Ls M"
      by blast
    show ?thesis
    proof (cases "length (rt_parameters a) = length (rt_parameters b)")
      case True
      have "list_all2 (\<lambda>t K. \<forall>u L. canonical_form c u L \<longrightarrow> compares c t u (K = L)) (rt_parameters a) Ks"
        using form_function(5) by (rule list_all2_mono) blast
      from compares_function [OF assms(1) form_function(1) b(1) form_function(2) b(2) True form_function(3) b(3)
          compares_parameters [OF this b(4) True] form_function(6) [OF b(5)]]
      show ?thesis
        by (simp add: b(6))
    next
      case False
      with parameters b(4) have "Ks \<noteq> Ls"
        by (auto dest!: list_all2_lengthD)
      with compares_function_length [OF assms(1) form_function(1) b(1) form_function(2) b(2) False] show ?thesis
        by (simp add: b(6))
    qed
  qed (auto intro: compares_other_kind [OF assms(1) self form_function(7)])
qed

section \<open>An example\<close>

text \<open>
  One unit with the given type entries: \<open>P\<close>, a struct without fields; \<open>A\<close>, an alias of a pointer to
  it; \<open>R\<close>, an alias of a result; \<open>L\<close>, an alias of itself.
\<close>

definition example_entry :: "text_slice \<Rightarrow> ast_type_decl_body \<Rightarrow> semantic_type_entry" where
  "example_entry name body =
     \<lparr>te_name = name, te_declaration = Some \<lparr>decl_node = 1, decl_name = name, decl_type_parameters = [],
        decl_body = body\<rparr>, te_template_declaration = None, te_type_arguments = [],
      te_is_generic_template = False, te_unit = Some 0, te_public = True, te_size = 0, te_alignment = 0,
      te_layout_state = 0\<rparr>"

definition example_context :: semantic_context where
  "example_context =
     (semantic_context_init (\<lambda>_. True) 9 (diagnostic_begin E1100_Internal_Context_Error zero_span)
       [\<lparr>unit_index = 0, unit_path = None, unit_module = \<lparr>module_items = [], module_imports = []\<rparr>,
         unit_imported_indexes = []\<rparr>])
     \<lparr>sc_types := [example_entry [0x50] (Decl_Struct []),
        example_entry [0x41] (Decl_Alias (Type_Pointer (Type_Named 5 [0x50] []))),
        example_entry [0x52] (Decl_Alias (Type_Result Type_Integer Type_String)),
        example_entry [0x4C] (Decl_Alias (Type_Named 3 [0x4C] []))],
      sc_unit_name_ranges := [\<lparr>range_unit = Some 0, range_type_begin = 0, range_type_end = 4,
        range_function_begin = 0, range_function_end = 0, range_global_begin = 0, range_global_end = 0\<rparr>],
      sc_active_unit := Some 0\<rparr>"

lemma example_plain: "plain example_context"
  by (simp add: plain_def example_context_def example_entry_def)

lemma example_steps:
  "alias_step example_context (Type_Named 4 [0x41] []) = Some (Type_Pointer (Type_Named 5 [0x50] []))"
  "alias_step example_context (Type_Pointer (Type_Named 5 [0x50] [])) = None"
  "alias_step example_context (Type_Named 4 [0x52] []) = Some (Type_Result Type_Integer Type_String)"
  "alias_step example_context (Type_Result Type_Integer Type_String) = None"
  "alias_step example_context (Type_Named 3 [0x4C] []) = Some (Type_Named 3 [0x4C] [])"
  by code_simp+

lemma example_lookup:
  "name_resolve_type example_context (using_unit example_context (Type_Named 4 [0x50] [])) [0x50] =
     (Lookup_Found, Some 0)"
  "name_resolve_type example_context (using_unit example_context (Type_Named 5 [0x50] [])) [0x50] =
     (Lookup_Found, Some 0)"
  by code_simp+

lemma example_struct:
  "k = 4 \<or> k = 5 \<Longrightarrow> type_resolve 2 (Type_Named k [0x50] []) example_context =
     Some (example_context, Some ((resolved_start (Type_Named k [0x50] []))
       \<lparr>rt_named := Some (Collected_Type 0), rt_kind := RT_Struct\<rparr>))"
  by (elim disjE; simp add: type_resolve_def numeral_2_eq_2 plain_named_entry [OF example_plain] example_lookup Let_def
        del: type_compatible.simps; simp add: example_context_def example_entry_def)

section \<open>Properties\<close>

text \<open>
  C29: When resolution of a type returns a result, the result is well formed (a struct or enum refers
  to a declaration of that kind, exactly the wrapping kinds have an inner type, integers have a
  machine width), it stays so in every later state, and the context has only gained instances.
\<close>

theorem type_resolution_well_formed:
  assumes "type_resolve n t c = Some (c1, Some r)" and "context_grows c1 c2"
  shows "resolved_type_ok c1 r \<and> resolved_type_ok c2 r \<and> context_grows c c1"
  using run_growsD [OF assms(1) resolve_grows] resolved_type_ok_grows [OF assms(2)]
  by (simp add: well_formed_answer_def)

theorem type_resolution_well_formed_witness:
  "\<exists>r. type_resolve 2 (Type_Named 4 [0x50] []) example_context = Some (example_context, Some r)
     \<and> rt_kind r = RT_Struct \<and> resolved_type_ok example_context r"
  using type_resolution_well_formed [OF example_struct context_grows_refl, of 4] example_struct [of 4] by simp

text \<open>
  C30: In a program without generic types, resolving a type returns with one unit of fuel more than
  there are declarations, and with the answer of the end of its chain of aliases, when the chain
  ends; a chain with a cycle uses up any fuel.
\<close>

theorem alias_resolution_terminates:
  assumes "plain c"
  shows "(\<exists>r. chain_ends (alias_step c) t r \<and> type_resolve (length (sc_types c) + 1) t c = resolved_end c r
      \<and> resolved_end c r \<noteq> None)
    \<or> (\<nexists>r. chain_ends (alias_step c) t r) \<and> (\<forall>n. type_resolve n t c = None)"
proof (cases "\<exists>r. chain_ends (alias_step c) t r")
  case True
  then obtain r where r: "chain_ends (alias_step c) t r"
    by blast
  then have "chain_loop (alias_step c) (length (alias_targets c) + 1) t = Some r"
    by (simp only: alias_chain.loop_decides)
  then have "type_resolve (length (sc_types c) + 1) t c = resolved_end c r"
    by (simp add: type_resolve_chain [OF assms] alias_targets_def del: chain_loop.simps)
  with r resolved_end_answers [OF assms chain_ends_stop [OF r]] show ?thesis
    by blast
next
  case False
  have "type_resolve n t c = None" for n
  proof -
    from False have "chain_loop (alias_step c) n t = None"
      by (meson chain_ends_path chain_loop_path not_Some_eq)
    then show ?thesis
      by (simp add: type_resolve_chain [OF assms])
  qed
  with False show ?thesis
    by blast
qed

text \<open>
  C31: An integer literal fits an integer type exactly when its value is a value of the type; one
  above the signed range fits exactly the types that have all such values; and a conversion between
  integer types is implicit exactly when it keeps every value, explicit otherwise.
\<close>

theorem integer_conversions_keep_values:
  assumes "integer_range s = Some A" and "integer_range t = Some B"
  shows "type_integer_literal_fits (Suc n) v t c = Some (c, sint v \<in> B)
    \<and> type_unsigned_wide_literal_fits (Suc n) t c = Some (c, {2 ^ 63..<2 ^ 64} \<subseteq> B)
    \<and> type_conversion_classify (Suc (Suc n)) s t c =
        Some (c, if A \<subseteq> B then Conversion_Implicit_Safe else Conversion_Explicit_Safe)"
proof -
  have unwrapped: "integer_range (type_unwrap_mutable x) = integer_range x" for x
    by (simp add: integer_range_def)
  obtain a where a: "\<And>test n c. type_resolve_with test (Suc n) s c = Some (c, Some a)"
      "resolved_integer a" "resolved_range a = A"
    using integer_range_resolves [OF assms(1)] by blast
  obtain b where b: "\<And>test n c. type_resolve_with test (Suc n) t c = Some (c, Some b)"
      "resolved_integer b" "resolved_range b = B"
    using integer_range_resolves [OF assms(2)] by blast
  obtain a' where a': "\<And>test n c. type_resolve_with test (Suc n) (type_unwrap_mutable s) c = Some (c, Some a')"
      "resolved_integer a'" "resolved_range a' = A"
    using integer_range_resolves [of "type_unwrap_mutable s" A] assms(1) unwrapped by auto
  obtain b' where b': "\<And>test n c. type_resolve_with test (Suc n) (type_unwrap_mutable t) c = Some (c, Some b')"
      "resolved_integer b'" "resolved_range b' = B"
    using integer_range_resolves [of "type_unwrap_mutable t" B] assms(2) unwrapped by auto
  note resolve = a(1) b(1) a'(1) b'(1)
  have fits: "type_integer_literal_fits (Suc n) v t c = Some (c, sint v \<in> B)"
    using integer_fits_range [OF b(2), of v] b(3)
    by (simp add: type_integer_literal_fits_def type_resolve_def resolve del: type_resolve_with.simps)
  have wide: "type_unsigned_wide_literal_fits (Suc n) t c = Some (c, {2 ^ 63..<2 ^ 64} \<subseteq> B)"
    unfolding type_unsigned_wide_literal_fits_def type_resolve_def resolve
    using wide_literal_range [OF b(2)] b(3) by simp
  have compatible: "type_compatible (Suc (Suc n)) s t c = Some (c, rt_kind a' = rt_kind b' \<and> rt_bits a' = rt_bits b')"
    by (simp add: Let_def resolve resolved_integer_compatible [OF a'(2) b'(2)] del: type_resolve_with.simps)
  have same: "A \<subseteq> B" if "rt_kind a' = rt_kind b' \<and> rt_bits a' = rt_bits b'"
    unfolding a'(3) [symmetric] b'(3) [symmetric] resolved_range_def using that by simp
  have move: "type_is_byte_vector_to_text_move (Suc (Suc n)) s t c = Some (c, False)"
    using a(2)
    by (auto simp: type_is_byte_vector_to_text_move_def type_resolve_def resolve resolved_integer_def
        simp del: type_resolve_with.simps)
  have "type_conversion_classify (Suc (Suc n)) s t c =
      Some (c, if A \<subseteq> B then Conversion_Implicit_Safe else Conversion_Explicit_Safe)"
    using same range_subset_iff [OF a(2) b(2)] a(2,3) b(3)
    by (auto simp: type_conversion_classify_def compatible move type_resolve_def resolve resolved_integer_def
        simp del: type_resolve_with.simps type_compatible.simps)
  with fits wide show ?thesis
    by simp
qed

theorem integer_conversions_keep_values_witness:
  "type_conversion_classify 2 (Type_Machine Machine_U32) (Type_Mutable Type_Integer) example_context =
     Some (example_context, Conversion_Implicit_Safe)"
  using integer_conversions_keep_values [of "Type_Machine Machine_U32" "{0..<2 ^ 32}" "Type_Mutable Type_Integer"
      "{- (2 ^ 63)..<2 ^ 63}" 0 0 example_context]
  by (simp add: integer_range_def type_builtin_of_machine_def type_builtin_row_def Let_def numeral_2_eq_2)

theorem alias_resolution_terminates_witness:
  "type_resolve 5 (Type_Named 4 [0x41] []) example_context =
     resolved_end example_context (Type_Pointer (Type_Named 5 [0x50] []))"
proof -
  have ends: "chain_ends (alias_step example_context) (Type_Named 4 [0x41] []) (Type_Pointer (Type_Named 5 [0x50] []))"
    using example_steps by (blast intro: chain_ends.intros)
  have "length (sc_types example_context) + 1 = 5"
    by (simp add: example_context_def)
  with alias_resolution_terminates [OF example_plain, of "Type_Named 4 [0x41] []"] ends show ?thesis
    by (metis chain_ends_path chain_path_unique)
qed

text \<open>
  C32: In a program without generic types, with enough fuel two types are compatible exactly when their
  canonical forms are equal; compatibility is therefore an equivalence on the types that have one.
\<close>

theorem compatibility_compares_forms:
  assumes "plain c" and "canonical_form c l K" and "canonical_form c r L"
  shows "\<exists>k. \<forall>n \<ge> k. type_compatible n l r c = Some (c, K = L)"
  using canonical_compares [OF assms] by (simp add: compares_def)

theorem compatibility_compares_forms_witness:
  "\<exists>k. \<forall>n \<ge> k. type_compatible n (Type_Named 4 [0x41] []) (Type_Mutable (Type_Pointer (Type_Named 4 [0x50] [])))
      example_context = Some (example_context, True)"
proof -
  let ?K = "Form_Named RT_Struct (Collected_Type 0)"
  have struct: "canonical_form example_context (Type_Named k [0x50] []) ?K" if "k = 4 \<or> k = 5" for k
    using form_named [of example_context "Type_Named k [0x50] []"] example_struct [OF that]
    by (fastforce simp: resolves_to_def)
  have pointer: "canonical_form example_context t (Form_Inner RT_Pointer False ?K)"
    if "type_resolve 2 (type_unwrap_mutable t) example_context =
      Some (example_context, resolved_compound (Type_Pointer (Type_Named k [0x50] [])))" "k = 4 \<or> k = 5" for t k
    using form_inner [of example_context t _ "Type_Named k [0x50] []", OF _ _ _ struct [OF that(2)]] that(1)
    by (fastforce simp: resolves_to_def resolved_compound_def inner_kinds_def)
  have "type_resolve 2 (Type_Named 4 [0x41] []) example_context =
      Some (example_context, resolved_compound (Type_Pointer (Type_Named 5 [0x50] [])))"
    by (simp add: type_resolve_chain [OF example_plain] example_steps numeral_2_eq_2)
      (simp add: resolved_end_def type_resolve_def)
  then have l: "canonical_form example_context (Type_Named 4 [0x41] []) (Form_Inner RT_Pointer False ?K)"
    using pointer [of _ 5] by simp
  have r: "canonical_form example_context (Type_Mutable (Type_Pointer (Type_Named 4 [0x50] []))) (Form_Inner RT_Pointer False ?K)"
    by (rule pointer [of _ 4]) (simp_all add: type_resolve_def numeral_2_eq_2)
  from compatibility_compares_forms [OF example_plain l r] show ?thesis
    by simp
qed

text \<open>
  Two results behind an alias cannot be compared: the payload types are read out of the named type
  itself, a union member that is not there, whatever the alias; written out, the same two are
  compatible.
\<close>

theorem alias_of_result_not_comparable:
  "type_compatible n (Type_Named 4 [0x52] []) (Type_Named 4 [0x52] []) example_context = None
   \<and> type_compatible 3 (Type_Result Type_Integer Type_String) (Type_Result Type_Integer Type_String) example_context
     = Some (example_context, True)"
proof -
  let ?t = "Type_Named 4 [0x52] []" and ?r = "Type_Result Type_Integer Type_String"
  have result: "\<exists>a. resolved_end example_context ?r = Some (example_context, Some a) \<and> rt_kind a = RT_Result"
    by (simp add: resolved_end_def type_resolve_def resolved_compound_def Let_def)
  have resolve: "type_resolve_with test m ?t example_context =
      (if m < 2 then None else resolved_end example_context ?r)" for test m
  proof -
    have "chain_loop (alias_step example_context) m ?t = (if m < 2 then None else Some ?r)"
      using example_steps(3,4) by (cases m; cases "m - 1") auto
    then show ?thesis
      by (simp add: plain_resolve_chain [OF example_plain])
  qed
  have "type_compatible n ?t ?t example_context = None"
  proof (cases n)
    case (Suc m)
    with result show ?thesis
      by (auto simp: resolve Let_def resolved_types_compatible_def)
  qed simp
  moreover have "type_compatible 3 ?r ?r example_context = Some (example_context, True)"
    by (simp add: numeral_3_eq_3 Let_def resolved_compound_def resolved_types_compatible_def type_builtin_row_def)
  ultimately show ?thesis ..
qed

end
