(* ===== verification/Layout.thy ===== *)
theory Layout
  imports Types
begin

text \<open>
  The layout kernel (\<open>src/kernel/layout\<close>): sizes and alignments of types, memoised in the entries
  of named types with a state (0 unknown, 1 in progress, 2 known), and the offsets of fields and
  payloads.

  Runs have fuel, as those of the type kernel. The answer \<open>None\<close> inside a run is the failure the
  sources return as zero; an answer is a size with an alignment.
\<close>

section \<open>Sizes of types\<close>

type_synonym storage = "size_t \<times> size_t"
type_synonym type_layout = "ast_type \<Rightarrow> storage option run"

primrec update_type_entry ::
    "type_ref \<Rightarrow> (semantic_type_entry \<Rightarrow> semantic_type_entry) \<Rightarrow> semantic_context \<Rightarrow> semantic_context" where
  "update_type_entry (Collected_Type i) f c = c\<lparr>sc_types := (sc_types c)[i := f (sc_types c ! i)]\<rparr>"
| "update_type_entry (Instance_Type i) f c =
     c\<lparr>sc_generic_types := (sc_generic_types c)[i := f (sc_generic_types c ! i)]\<rparr>"

definition layout_mark :: "type_ref \<Rightarrow> nat \<Rightarrow> semantic_context \<Rightarrow> semantic_context" where
  "layout_mark e s = update_type_entry e (\<lambda>x. x\<lparr>te_layout_state := s\<rparr>)"

definition layout_known :: "type_ref \<Rightarrow> storage \<Rightarrow> semantic_context \<Rightarrow> semantic_context" where
  "layout_known e l =
     update_type_entry e (\<lambda>x. x\<lparr>te_size := fst l, te_alignment := snd l, te_layout_state := 2\<rparr>)"

text \<open>A field is placed behind the ones before it, at its alignment.\<close>

definition layout_place :: "storage \<Rightarrow> storage \<Rightarrow> storage" where
  "layout_place acc field =
     (align_up (fst acc) (snd field) + fst field, if snd field > snd acc then snd field else snd acc)"

primrec layout_fields :: "type_layout \<Rightarrow> ast_type list \<Rightarrow> storage \<Rightarrow> storage option run" where
  "layout_fields L [] acc c = Some (c, Some acc)"
| "layout_fields L (t # ts) acc c =
     do {
       (c1, x) \<leftarrow> L t c;
       case x of
         None \<Rightarrow> Some (c1, None)
       | Some field \<Rightarrow> layout_fields L ts (layout_place acc field) c1
     }"

text \<open>The payloads of a constructor are laid out like fields; the largest decides.\<close>

definition layout_close :: "storage \<Rightarrow> storage" where
  "layout_close acc = (align_up (fst acc) (snd acc), snd acc)"

definition layout_larger :: "storage \<Rightarrow> storage \<Rightarrow> storage" where
  "layout_larger acc x =
     (if fst x > fst acc then fst x else fst acc, if snd x > snd acc then snd x else snd acc)"

primrec layout_constructors :: "type_layout \<Rightarrow> ast_type list list \<Rightarrow> storage \<Rightarrow> storage option run" where
  "layout_constructors L [] acc c = Some (c, Some acc)"
| "layout_constructors L (ts # tss) acc c =
     do {
       (c1, x) \<leftarrow> layout_fields L ts (0, 1) c;
       case x of
         None \<Rightarrow> Some (c1, None)
       | Some payload \<Rightarrow> layout_constructors L tss (layout_larger acc (layout_close payload)) c1
     }"

primrec layout_payloads :: "type_layout \<Rightarrow> ast_type list \<Rightarrow> storage \<Rightarrow> storage option run" where
  "layout_payloads L [] acc c = Some (c, Some acc)"
| "layout_payloads L (t # ts) acc c =
     do {
       (c1, x) \<leftarrow> L t c;
       case x of
         None \<Rightarrow> Some (c1, None)
       | Some payload \<Rightarrow> layout_payloads L ts (layout_larger acc payload) c1
     }"

text \<open>The tag in front of the largest payload.\<close>

definition layout_tagged :: "storage \<Rightarrow> storage" where
  "layout_tagged payload =
     (let alignment = (if snd payload > 8 then snd payload else 8)
      in (align_up (align_up 8 (snd payload) + fst payload) alignment, alignment))"

definition constructor_payload_types :: "ast_enum_constructor \<Rightarrow> ast_type list" where
  "constructor_payload_types k = map slot_type (constructor_payload_slots k)"

definition struct_field_types :: "ast_struct_field list \<Rightarrow> ast_type list" where
  "struct_field_types fs = map (slot_type \<circ> struct_field_slot) fs"

definition layout_declaration :: "type_layout \<Rightarrow> ast_type_decl_body \<Rightarrow> storage option run" where
  "layout_declaration L b c =
     (case b of
        Decl_Alias t \<Rightarrow> L t c
      | Decl_Struct fs \<Rightarrow>
          do {
            (c1, x) \<leftarrow> layout_fields L (struct_field_types fs) (0, 1) c;
            Some (c1, map_option layout_close x)
          }
      | Decl_Enum ks \<Rightarrow>
          do {
            (c1, x) \<leftarrow> layout_constructors L (map constructor_payload_types ks) (0, 1) c;
            Some (c1, map_option layout_tagged x)
          })"

text \<open>
  A failure inside an alias makes the entry unknown again; inside a struct or enum it stays in
  progress.
\<close>

definition layout_named_entry_with :: "type_layout \<Rightarrow> type_ref \<Rightarrow> storage option run" where
  "layout_named_entry_with L e c =
     (let x = type_entry_at c e
      in case te_declaration x of
           None \<Rightarrow> Some (generic_fail E0409_Unresolved_Type c)
         | Some d \<Rightarrow>
             if te_layout_state x = 2 then Some (c, Some (te_size x, te_alignment x))
             else if te_layout_state x = 1 then Some (generic_fail E0308_Infinite_Recursive_Type c)
             else do {
               (c1, r) \<leftarrow> layout_declaration L (decl_body d) (layout_mark e 1 c);
               case r of
                 None \<Rightarrow> Some ((case decl_body d of Decl_Alias _ \<Rightarrow> layout_mark e 0 c1 | _ \<Rightarrow> c1), None)
               | Some l \<Rightarrow> Some (layout_known e l c1, Some l)
             })"

primrec machine_bytes :: "machine_type \<Rightarrow> size_t" where
  "machine_bytes Machine_I8 = 1"
| "machine_bytes Machine_U8 = 1"
| "machine_bytes Machine_I16 = 2"
| "machine_bytes Machine_U16 = 2"
| "machine_bytes Machine_I32 = 4"
| "machine_bytes Machine_U32 = 4"
| "machine_bytes Machine_F32 = 4"
| "machine_bytes Machine_I64 = 8"
| "machine_bytes Machine_U64 = 8"
| "machine_bytes Machine_F64 = 8"

text \<open>The types whose storage does not depend on another type's.\<close>

primrec layout_simple :: "ast_type \<Rightarrow> storage option" where
  "layout_simple Type_Any = Some (8, 8)"
| "layout_simple Type_Integer = Some (8, 8)"
| "layout_simple Type_Unsigned_Integer = Some (8, 8)"
| "layout_simple (Type_Pointer i) = Some (8, 8)"
| "layout_simple (Type_Reference i) = Some (8, 8)"
| "layout_simple (Type_Box i) = Some (8, 8)"
| "layout_simple (Type_Function ps out) = Some (8, 8)"
| "layout_simple Type_Boolean = Some (8, 8)"
| "layout_simple Type_Character = Some (8, 8)"
| "layout_simple Type_String = Some (24, 8)"
| "layout_simple (Type_Vector i) = Some (24, 8)"
| "layout_simple Type_Void = Some (0, 1)"
| "layout_simple (Type_Machine m) = Some (machine_bytes m, machine_bytes m)"
| "layout_simple (Type_Option i) = None"
| "layout_simple (Type_Result ok er) = None"
| "layout_simple (Type_Named k name args) = None"
| "layout_simple (Type_Mutable i) = None"

primrec layout_type :: "nat \<Rightarrow> type_layout" where
  "layout_type 0 t c = None"
| "layout_type (Suc n) t c =
     (let base = type_unwrap_mutable t
      in case base of
           Type_Option i \<Rightarrow>
             do {
               (c1, x) \<leftarrow> layout_payloads (layout_type n) [i] (0, 1) c;
               Some (c1, map_option layout_tagged x)
             }
         | Type_Result ok er \<Rightarrow>
             do {
               (c1, x) \<leftarrow> layout_payloads (layout_type n) [ok, er] (0, 1) c;
               Some (c1, map_option layout_tagged x)
             }
         | Type_Named _ _ _ \<Rightarrow>
             do {
               (c1, found) \<leftarrow>
                 semantic_resolve_named_entry (semantic_generic_type_equal (type_compatible n)) n base c;
               case found of
                 None \<Rightarrow> Some (c1, None)
               | Some e \<Rightarrow> layout_named_entry_with (layout_type n) e c1
             }
         | _ \<Rightarrow> Some (c, layout_simple base))"

definition layout_named_entry :: "nat \<Rightarrow> type_ref option \<Rightarrow> storage option run" where
  "layout_named_entry n e c =
     (case e of
        None \<Rightarrow> Some (generic_fail E0409_Unresolved_Type c)
      | Some r \<Rightarrow> layout_named_entry_with (layout_type n) r c)"

section \<open>Projections\<close>

text \<open>The loop over the fields, with the offset reached; the answer is the offset and type of the field.\<close>

primrec layout_field_loop ::
    "type_layout \<Rightarrow> text_slice \<Rightarrow> ast_struct_field list \<Rightarrow> size_t \<Rightarrow> (size_t \<times> ast_type) option run" where
  "layout_field_loop L name [] offset c = Some (c, None)"
| "layout_field_loop L name (f # fs) offset c =
     do {
       (c1, x) \<leftarrow> L (slot_type (struct_field_slot f)) c;
       case x of
         None \<Rightarrow> Some (c1, None)
       | Some (field_size, field_alignment) \<Rightarrow>
           (let here = align_up offset field_alignment
            in if text_slice_equals (struct_field_name f) name
               then Some (c1, Some (here, slot_type (struct_field_slot f)))
               else layout_field_loop L name fs (here + field_size) c1)
     }"

definition layout_struct_field ::
    "nat \<Rightarrow> type_ref option \<Rightarrow> text_slice \<Rightarrow> (size_t \<times> ast_type) option run" where
  "layout_struct_field n e name c =
     (case Option.bind e (\<lambda>e. te_declaration (type_entry_at c e)) of
        None \<Rightarrow> Some (c, None)
      | Some d \<Rightarrow>
          (case decl_body d of
             Decl_Struct fs \<Rightarrow> layout_field_loop (layout_type n) name fs 0 c
           | _ \<Rightarrow> Some (c, None)))"

text \<open>The payload types of a constructor of a tagged type.\<close>

definition layout_tagged_constructor_view ::
    "nat \<Rightarrow> ast_type \<Rightarrow> nat \<Rightarrow> ast_type list option run" where
  "layout_tagged_constructor_view n t index c =
     (let base = type_unwrap_mutable t
      in do {
           (c1, x) \<leftarrow> type_resolve n base c;
           Some (c1,
             (case x of
                None \<Rightarrow> None
              | Some r \<Rightarrow>
                  if type_is_builtin_tagged base then
                    map_option (\<lambda>k. case tagged_payload_type k of None \<Rightarrow> [] | Some p \<Rightarrow> [p])
                      (type_tagged_constructor_at base index)
                  else if rt_kind r = RT_Enum then
                    (case Option.bind (rt_named r) (\<lambda>e. te_declaration (type_entry_at c1 e)) of
                       None \<Rightarrow> None
                     | Some d \<Rightarrow>
                         (case decl_body d of
                            Decl_Enum ks \<Rightarrow>
                              if index < length ks then Some (constructor_payload_types (ks ! index)) else None
                          | _ \<Rightarrow> None))
                  else None))
         })"

record tagged_storage =
  storage_tag_size :: size_t
  storage_payload_offset :: size_t
  storage_payload_size :: size_t
  storage_alignment :: size_t

text \<open>The projection of the largest payload, checked against the canonical layout of the type.\<close>

definition layout_check_storage :: "storage \<Rightarrow> storage option \<Rightarrow> tagged_storage option" where
  "layout_check_storage payload canonical =
     (if canonical = Some (layout_tagged payload)
      then Some \<lparr>storage_tag_size = 8, storage_payload_offset = align_up 8 (snd payload),
                 storage_payload_size = fst payload, storage_alignment = snd (layout_tagged payload)\<rparr>
      else None)"

definition layout_tagged_entry_storage :: "nat \<Rightarrow> type_ref option \<Rightarrow> tagged_storage option run" where
  "layout_tagged_entry_storage n e c =
     (case Option.bind e (\<lambda>e. te_declaration (type_entry_at c e)) of
        None \<Rightarrow> Some (c, None)
      | Some d \<Rightarrow>
          (case decl_body d of
             Decl_Enum ks \<Rightarrow>
               do {
                 (c1, x) \<leftarrow> layout_constructors (layout_type n) (map constructor_payload_types ks) (0, 1) c;
                 case x of
                   None \<Rightarrow> Some (c1, None)
                 | Some payload \<Rightarrow>
                     do {
                       (c2, canonical) \<leftarrow> layout_named_entry n e c1;
                       Some (c2, layout_check_storage payload canonical)
                     }
               }
           | _ \<Rightarrow> Some (c, None)))"

text \<open>The constructors of an option or result, by their tags.\<close>

primrec layout_tagged_loop ::
    "nat \<Rightarrow> ast_type \<Rightarrow> nat list \<Rightarrow> storage \<Rightarrow> storage option run" where
  "layout_tagged_loop n t [] acc c = Some (c, Some acc)"
| "layout_tagged_loop n t (k # ks) acc c =
     do {
       (c1, view) \<leftarrow> layout_tagged_constructor_view n t k c;
       case view of
         None \<Rightarrow> Some (c1, None)
       | Some ts \<Rightarrow>
           do {
             (c2, x) \<leftarrow> layout_fields (layout_type n) ts (0, 1) c1;
             case x of
               None \<Rightarrow> Some (c2, None)
             | Some payload \<Rightarrow> layout_tagged_loop n t ks (layout_larger acc (layout_close payload)) c2
           }
     }"

definition layout_tagged_storage :: "nat \<Rightarrow> ast_type \<Rightarrow> tagged_storage option run" where
  "layout_tagged_storage n t c =
     (let base = type_unwrap_mutable t
      in do {
           (c1, x) \<leftarrow> type_resolve n base c;
           case x of
             None \<Rightarrow> Some (c1, None)
           | Some r \<Rightarrow>
               if type_is_builtin_tagged base then
                 do {
                   (c2, y) \<leftarrow> layout_tagged_loop n base [0..<type_tagged_constructor_count base] (0, 1) c1;
                   case y of
                     None \<Rightarrow> Some (c2, None)
                   | Some payload \<Rightarrow>
                       do {
                         (c3, canonical) \<leftarrow> layout_type n base c2;
                         Some (c3, layout_check_storage payload canonical)
                       }
                 }
               else if rt_kind r = RT_Enum
                       \<and> Option.bind (rt_named r) (\<lambda>e. te_declaration (type_entry_at c1 e)) \<noteq> None
               then layout_tagged_entry_storage n (rt_named r) c1
               else Some (c1, None)
         })"

text \<open>The loop to one payload of a constructor, from the offset reached.\<close>

primrec layout_payload_loop ::
    "type_layout \<Rightarrow> ast_type list \<Rightarrow> nat \<Rightarrow> size_t \<Rightarrow> (size_t \<times> ast_type) option run" where
  "layout_payload_loop L [] index offset c = Some (c, None)"
| "layout_payload_loop L (t # ts) index offset c =
     do {
       (c1, x) \<leftarrow> L t c;
       case x of
         None \<Rightarrow> Some (c1, None)
       | Some (field_size, field_alignment) \<Rightarrow>
           (let here = align_up offset field_alignment
            in if index = 0 then Some (c1, Some (here, t))
               else layout_payload_loop L ts (index - 1) (here + field_size) c1)
     }"

definition layout_tagged_payload ::
    "nat \<Rightarrow> ast_type \<Rightarrow> nat \<Rightarrow> nat \<Rightarrow> (size_t \<times> ast_type) option run" where
  "layout_tagged_payload n t constructor_index payload_index c =
     do {
       (c1, x) \<leftarrow> layout_tagged_storage n t c;
       case x of
         None \<Rightarrow> Some (c1, None)
       | Some s \<Rightarrow>
           do {
             (c2, view) \<leftarrow> layout_tagged_constructor_view n t constructor_index c1;
             case view of
               None \<Rightarrow> Some (c2, None)
             | Some ts \<Rightarrow>
                 if payload_index \<ge> length ts then Some (c2, None)
                 else do {
                   (c3, r) \<leftarrow> layout_payload_loop (layout_type n) ts payload_index 0 c2;
                   Some (c3, map_option (\<lambda>(offset, t). (storage_payload_offset s + offset, t)) r)
                 }
           }
     }"

definition layout_string_data_offset :: size_t where "layout_string_data_offset = 0"
definition layout_string_length_offset :: size_t where "layout_string_length_offset = 8"
definition layout_string_capacity_offset :: size_t where "layout_string_capacity_offset = 16"
definition layout_vector_data_offset :: size_t where "layout_vector_data_offset = 0"
definition layout_vector_length_offset :: size_t where "layout_vector_length_offset = 8"
definition layout_vector_capacity_offset :: size_t where "layout_vector_capacity_offset = 16"

end
