(* ===== verification/Layout_Laws.thy ===== *)
theory Layout_Laws
  imports Layout Types_Laws
begin

text \<open>
  The laws of the layout kernel in programs without generic types: the memoised computation refines
  the layout rules, sizes are multiples of alignments, and the fields of a struct do not overlap.
\<close>

section \<open>What layout does not change\<close>

text \<open>Layout writes into the entries of types; everything name resolution reads stays.\<close>

definition bare_entry :: "semantic_type_entry \<Rightarrow> semantic_type_entry" where
  "bare_entry e = e\<lparr>te_size := 0, te_alignment := 0, te_layout_state := 0\<rparr>"

definition frame :: "semantic_context \<Rightarrow> _" where
  "frame c = (map bare_entry (sc_types c), sc_units c, sc_unit_name_ranges c, sc_type_owners c)"

text \<open>With the unit whose names are in scope and what the later passes read.\<close>

definition skeleton :: "semantic_context \<Rightarrow> _" where
  "skeleton c = (frame c, sc_active_unit c, sc_generic_types c, sc_functions c, sc_generic_functions c,
     sc_globals c, sc_main c, sc_next_node c)"

lemma skeleton_frame: "skeleton c = skeleton d \<Longrightarrow> frame c = frame d"
  by (simp add: skeleton_def)

lemma frame_length: "frame c = frame d \<Longrightarrow> length (sc_types c) = length (sc_types d)"
  by (auto simp: frame_def dest: map_eq_imp_length_eq)

lemma frame_entry:
  assumes "frame c = frame d" and "i < length (sc_types d)"
  shows "te_name (sc_types c ! i) = te_name (sc_types d ! i)" "te_unit (sc_types c ! i) = te_unit (sc_types d ! i)"
    "te_public (sc_types c ! i) = te_public (sc_types d ! i)"
    "te_declaration (sc_types c ! i) = te_declaration (sc_types d ! i)"
proof -
  have "map bare_entry (sc_types c) ! i = map bare_entry (sc_types d) ! i"
    using assms(1) by (simp add: frame_def)
  then have "bare_entry (sc_types c ! i) = bare_entry (sc_types d ! i)"
    using assms frame_length [OF assms(1)] by simp
  note same = arg_cong [OF this]
  show "te_name (sc_types c ! i) = te_name (sc_types d ! i)" "te_unit (sc_types c ! i) = te_unit (sc_types d ! i)"
    "te_public (sc_types c ! i) = te_public (sc_types d ! i)"
    "te_declaration (sc_types c ! i) = te_declaration (sc_types d ! i)"
    using same [of te_name] same [of te_unit] same [of te_public] same [of te_declaration]
    by (simp_all add: bare_entry_def)
qed

lemma frame_parts:
  assumes "frame c = frame d"
  shows "sc_units c = sc_units d" "sc_unit_name_ranges c = sc_unit_name_ranges d"
    "sc_type_owners c = sc_type_owners d"
  using assms by (simp_all add: frame_def)

lemma frame_alias: "frame c = frame d \<Longrightarrow> name_resolve_module_alias_name c = name_resolve_module_alias_name d"
  by (simp add: fun_eq_iff name_resolve_module_alias_name_def frame_parts [of c d] split: option.split)

lemma frame_range: "frame c = frame d \<Longrightarrow> name_unit_range c = name_unit_range d"
  by (simp add: fun_eq_iff name_unit_range_def Let_def frame_parts [of c d] split: option.split)

lemma type_table_simps [simp]:
  "nt_entries type_table = sc_types" "nt_name type_table = te_name" "nt_unit type_table = te_unit"
  "nt_public type_table = te_public"
  by (simp_all add: type_table_def)

lemma frame_find:
  assumes "frame c = frame d"
  shows "name_find_in_unit type_table c u x = name_find_in_unit type_table d u x"
proof -
  have "(i < length (sc_types c) \<and> identity_equals (te_name (sc_types c ! i)) r) =
      (i < length (sc_types d) \<and> identity_equals (te_name (sc_types d ! i)) r)" for i r
    using frame_entry(1) [OF assms, of i] frame_length [OF assms] by auto
  then show ?thesis
    unfolding name_find_in_unit_def type_table_simps frame_alias [OF assms] frame_range [OF assms] by presburger
qed

lemma find_in_unit_less: "name_find_in_unit type_table c u x = Some e \<Longrightarrow> e < length (sc_types c)"
  by (auto simp: name_find_in_unit_def find_Some_iff split: option.splits)

lemma frame_import:
  assumes "frame c = frame d"
  shows "name_import_loop type_table c x us m priv = name_import_loop type_table d x us m priv"
proof (induction us arbitrary: m priv)
  case (Cons u us)
  have unit: "program_unit_at c u = program_unit_at d u"
    by (simp add: program_unit_at_def frame_parts [OF assms])
  show ?case
  proof (cases "name_find_in_unit type_table d (program_unit_at d u) x")
    case None
    with Cons show ?thesis
      by (simp add: unit frame_find [OF assms])
  next
    case (Some e)
    then have "te_public (sc_types c ! e) = te_public (sc_types d ! e)"
      by (intro frame_entry(3) [OF assms] find_in_unit_less)
    with Some Cons show ?thesis
      by (simp add: unit frame_find [OF assms])
  qed
qed simp

lemma frame_scan:
  assumes "frame c = frame d"
  shows "\<forall>i \<in> set is. i < length (sc_types d) \<Longrightarrow>
    name_scan_loop type_table c from x is m priv = name_scan_loop type_table d from x is m priv"
proof (induction "is" arbitrary: m priv)
  case (Cons i "is")
  have reach: "name_unit_imports c = name_unit_imports d"
    by (simp add: fun_eq_iff name_unit_imports_def program_unit_at_def frame_parts [OF assms] split: option.split)
  from Cons.prems have i: "i < length (sc_types d)" and rest: "\<forall>i \<in> set is. i < length (sc_types d)"
    by simp_all
  show ?case
    unfolding name_scan_loop.simps Let_def type_table_simps frame_entry [OF assms i] frame_alias [OF assms]
      reach Cons.IH [OF rest] ..
qed simp

lemma frame_resolve:
  assumes "frame c = frame d"
  shows "name_resolve_type c u x = name_resolve_type d u x"
proof -
  have scan: "name_scan_loop type_table c u x [0..<length (sc_types d)] m p =
      name_scan_loop type_table d u x [0..<length (sc_types d)] m p" for u m p
    by (rule frame_scan [OF assms]) simp
  show ?thesis
    unfolding name_resolve_type_def name_resolve_entry_def name_resolve_in_scope_def type_table_simps
      frame_range [OF assms] frame_find [OF assms] frame_import [OF assms] frame_parts [OF assms]
      frame_length [OF assms] scan ..
qed

lemma frame_owner: "frame c = frame d \<Longrightarrow> semantic_type_owner_unit c t = semantic_type_owner_unit d t"
  by (cases t) (simp_all add: semantic_type_owner_unit_def frame_parts [of c d])

lemmas skeleton_length = frame_length [OF skeleton_frame]
lemmas skeleton_entry = frame_entry [OF skeleton_frame]
lemmas skeleton_alias = frame_alias [OF skeleton_frame]
lemmas skeleton_range = frame_range [OF skeleton_frame]
lemmas skeleton_find = frame_find [OF skeleton_frame]
lemmas skeleton_import = frame_import [OF skeleton_frame]
lemmas skeleton_scan = frame_scan [OF skeleton_frame]
lemmas skeleton_resolve = frame_resolve [OF skeleton_frame]
lemmas skeleton_owner = frame_owner [OF skeleton_frame]

lemma skeleton_parts:
  assumes "skeleton c = skeleton d"
  shows "sc_units c = sc_units d" "sc_unit_name_ranges c = sc_unit_name_ranges d"
    "sc_type_owners c = sc_type_owners d" "sc_active_unit c = sc_active_unit d"
    "sc_generic_types c = sc_generic_types d" "sc_functions c = sc_functions d" "sc_globals c = sc_globals d"
    "sc_main c = sc_main d" "sc_next_node c = sc_next_node d"
  using assms by (simp_all add: skeleton_def frame_def)

lemma skeleton_plain:
  assumes "skeleton c = skeleton d"
  shows "plain c \<longleftrightarrow> plain d"
  by (simp add: plain_def all_set_conv_all_nth skeleton_length [OF assms] skeleton_entry(4) [OF assms])

text \<open>The declaration a type names, without arguments.\<close>

definition named_index :: "semantic_context \<Rightarrow> ast_type \<Rightarrow> nat option" where
  "named_index c t =
     (case t of
        Type_Named k name [] \<Rightarrow>
          (case name_resolve_type c (using_unit c t) name of
             (Lookup_Found, Some i) \<Rightarrow> Some i
           | _ \<Rightarrow> None)
      | _ \<Rightarrow> None)"

lemma skeleton_named_index:
  assumes "skeleton c = skeleton d"
  shows "named_index c t = named_index d t"
  unfolding named_index_def using_unit_def skeleton_resolve [OF assms] skeleton_owner [OF assms]
    skeleton_parts [OF assms] ..

lemma named_index_less: "named_index c t = Some i \<Longrightarrow> i < length (sc_types c)"
  by (auto simp: named_index_def dest: resolve_type_index
      split: ast_type.splits list.splits prod.splits name_lookup_status.splits option.splits)

lemma skeleton_fail: "skeleton (semantic_fail c i sp) = skeleton c" "sc_types (semantic_fail c i sp) = sc_types c"
  by (simp_all add: skeleton_def frame_def semantic_fail_def semantic_begin_diagnostic_def)

lemma skeleton_unresolved:
  "skeleton (semantic_unresolved_name c s x u) = skeleton c" "sc_types (semantic_unresolved_name c s x u) = sc_types c"
  by (simp_all add: skeleton_def frame_def semantic_unresolved_name_def semantic_begin_diagnostic_def Let_def split: option.split)

lemma plain_named_run:
  assumes "plain c" and "type_unwrap_mutable t = Type_Named k name args"
  shows "\<exists>d. (\<forall>test n. semantic_resolve_named_entry test n (type_unwrap_mutable t) c =
      Some (case named_index c (type_unwrap_mutable t) of None \<Rightarrow> (d, None) | Some i \<Rightarrow> (c, Some (Collected_Type i))))
    \<and> skeleton d = skeleton c \<and> sc_types d = sc_types c"
proof -
  let ?u = "using_unit c (Type_Named k name args)"
  obtain s x where look: "name_resolve_type c ?u name = (s, x)"
    by fastforce
  have run: "semantic_resolve_named_entry test n (Type_Named k name args) c =
      (case (s, x) of
         (Lookup_Found, Some i) \<Rightarrow>
           if args = [] then Some (c, Some (Collected_Type i)) else Some (generic_fail E0409_Unresolved_Type c)
       | (s, _) \<Rightarrow> Some (semantic_unresolved_name c s name ?u, None))" for test n
    unfolding plain_named_entry [OF assms(1)] look ..
  have index: "named_index c (Type_Named k name args) =
      (if args = [] then (case (s, x) of (Lookup_Found, Some i) \<Rightarrow> Some i | _ \<Rightarrow> None) else None)"
    using look by (cases args) (simp_all add: named_index_def)
  let ?e = "semantic_fail c E0409_Unresolved_Type zero_span" and ?d = "semantic_unresolved_name c s name ?u"
  show ?thesis
    unfolding assms(2) run index generic_fail_def
    by (cases "(\<exists>i. (s, x) = (Lookup_Found, Some i)) \<and> args \<noteq> []"; rule exI [of _ "if (\<exists>i. (s, x) = (Lookup_Found, Some i)) \<and> args \<noteq> [] then ?e else ?d"];
        cases s; cases x; simp add: skeleton_fail skeleton_unresolved)
qed

section \<open>The layout rules\<close>

declare split_paired_All [simp del] split_paired_Ex [simp del]

definition layout_all :: "storage list \<Rightarrow> storage" where
  "layout_all ls = foldl layout_place (0, 1) ls"

inductive has_layout :: "semantic_context \<Rightarrow> ast_type \<Rightarrow> storage \<Rightarrow> bool"
  and body_layout :: "semantic_context \<Rightarrow> ast_type_decl_body \<Rightarrow> storage \<Rightarrow> bool" for c where
  lay_simple: "layout_simple (type_unwrap_mutable t) = Some l \<Longrightarrow> has_layout c t l"
| lay_option: "type_unwrap_mutable t = Type_Option i \<Longrightarrow> has_layout c i l \<Longrightarrow>
    has_layout c t (layout_tagged (layout_larger (0, 1) l))"
| lay_result: "type_unwrap_mutable t = Type_Result ok er \<Longrightarrow> has_layout c ok l \<Longrightarrow> has_layout c er m \<Longrightarrow>
    has_layout c t (layout_tagged (layout_larger (layout_larger (0, 1) l) m))"
| lay_named: "named_index c (type_unwrap_mutable t) = Some i \<Longrightarrow> te_declaration (sc_types c ! i) = Some d \<Longrightarrow>
    body_layout c (decl_body d) l \<Longrightarrow> has_layout c t l"
| lay_alias: "has_layout c t l \<Longrightarrow> body_layout c (Decl_Alias t) l"
| lay_struct: "list_all2 (has_layout c) (struct_field_types fs) ls \<Longrightarrow>
    body_layout c (Decl_Struct fs) (layout_close (layout_all ls))"
| lay_enum: "list_all2 (list_all2 (has_layout c)) (map constructor_payload_types ks) lss \<Longrightarrow>
    body_layout c (Decl_Enum ks)
      (layout_tagged (foldl layout_larger (0, 1) (map (layout_close \<circ> layout_all) lss)))"

text \<open>Every entry marked as known carries the layout the rules give its declaration.\<close>

definition layouts_known :: "semantic_context \<Rightarrow> semantic_context \<Rightarrow> bool" where
  "layouts_known c d \<longleftrightarrow> skeleton d = skeleton c
     \<and> (\<forall>i < length (sc_types c). te_layout_state (sc_types d ! i) = 2 \<longrightarrow>
          (\<exists>b. te_declaration (sc_types c ! i) = Some b
             \<and> body_layout c (decl_body b) (te_size (sc_types d ! i), te_alignment (sc_types d ! i))))"

lemma layouts_known_skeleton: "layouts_known c d \<Longrightarrow> skeleton d = skeleton c"
  by (simp only: layouts_known_def)

definition refines :: "semantic_context \<Rightarrow> ('a \<Rightarrow> bool) \<Rightarrow> 'a option run \<Rightarrow> bool" where
  "refines c P f \<longleftrightarrow> (\<forall>d d1 x. layouts_known c d \<longrightarrow> f d = Some (d1, x) \<longrightarrow>
     layouts_known c d1 \<and> (\<forall>l. x = Some l \<longrightarrow> P l))"

lemma refinesI:
  "(\<And>d d1 x. layouts_known c d \<Longrightarrow> f d = Some (d1, x) \<Longrightarrow> layouts_known c d1 \<and> (\<forall>l. x = Some l \<longrightarrow> P l)) \<Longrightarrow>
     refines c P f"
  by (simp add: refines_def)

lemma refinesD:
  "f d = Some (d1, x) \<Longrightarrow> refines c P f \<Longrightarrow> layouts_known c d \<Longrightarrow> layouts_known c d1 \<and> (\<forall>l. x = Some l \<longrightarrow> P l)"
  by (simp add: refines_def)

lemma fields_refine:
  assumes "\<And>t. refines c (has_layout c t) (L t)"
  shows "refines c (\<lambda>l. \<exists>ls. list_all2 (has_layout c) ts ls \<and> l = foldl layout_place acc ls) (layout_fields L ts acc)"
proof (rule refinesI)
  fix d d1 x
  show "layouts_known c d \<Longrightarrow> layout_fields L ts acc d = Some (d1, x) \<Longrightarrow> layouts_known c d1 \<and>
      (\<forall>l. x = Some l \<longrightarrow> (\<exists>ls. list_all2 (has_layout c) ts ls \<and> l = foldl layout_place acc ls))"
  proof (induction ts arbitrary: acc d)
    case (Cons t ts)
    from Cons.prems(2) obtain d2 y where t: "L t d = Some (d2, y)"
      by (auto simp: bind_eq_Some_conv)
    note known = refinesD [OF t assms Cons.prems(1)]
    show ?case
    proof (cases y)
      case None
      with Cons.prems(2) t known show ?thesis
        by auto
    next
      case (Some l)
      with Cons.prems(2) t have "layout_fields L ts (layout_place acc l) d2 = Some (d1, x)"
        by simp
      from Cons.IH [OF known [THEN conjunct1] this] known Some show ?thesis
        by (fastforce intro: list.rel_intros(2))
    qed
  qed auto
qed

lemma payloads_refine:
  assumes "\<And>t. refines c (has_layout c t) (L t)"
  shows "refines c (\<lambda>l. \<exists>ls. list_all2 (has_layout c) ts ls \<and> l = foldl layout_larger acc ls) (layout_payloads L ts acc)"
proof (rule refinesI)
  fix d d1 x
  show "layouts_known c d \<Longrightarrow> layout_payloads L ts acc d = Some (d1, x) \<Longrightarrow> layouts_known c d1 \<and>
      (\<forall>l. x = Some l \<longrightarrow> (\<exists>ls. list_all2 (has_layout c) ts ls \<and> l = foldl layout_larger acc ls))"
  proof (induction ts arbitrary: acc d)
    case (Cons t ts)
    from Cons.prems(2) obtain d2 y where t: "L t d = Some (d2, y)"
      by (auto simp: bind_eq_Some_conv)
    note known = refinesD [OF t assms Cons.prems(1)]
    show ?case
    proof (cases y)
      case None
      with Cons.prems(2) t known show ?thesis
        by auto
    next
      case (Some l)
      with Cons.prems(2) t have "layout_payloads L ts (layout_larger acc l) d2 = Some (d1, x)"
        by simp
      from Cons.IH [OF known [THEN conjunct1] this] known Some show ?thesis
        by (fastforce intro: list.rel_intros(2))
    qed
  qed auto
qed

lemma constructors_refine:
  assumes "\<And>t. refines c (has_layout c t) (L t)"
  shows "refines c (\<lambda>l. \<exists>lss. list_all2 (list_all2 (has_layout c)) tss lss
      \<and> l = foldl layout_larger acc (map (layout_close \<circ> layout_all) lss)) (layout_constructors L tss acc)"
proof (rule refinesI)
  fix d d1 x
  show "layouts_known c d \<Longrightarrow> layout_constructors L tss acc d = Some (d1, x) \<Longrightarrow> layouts_known c d1 \<and>
      (\<forall>l. x = Some l \<longrightarrow> (\<exists>lss. list_all2 (list_all2 (has_layout c)) tss lss
        \<and> l = foldl layout_larger acc (map (layout_close \<circ> layout_all) lss)))"
  proof (induction tss arbitrary: acc d)
    case (Cons ts tss)
    from Cons.prems(2) obtain d2 y where ts: "layout_fields L ts (0, 1) d = Some (d2, y)"
      by (auto simp: bind_eq_Some_conv)
    note known = refinesD [OF ts fields_refine [OF assms] Cons.prems(1)]
    show ?case
    proof (cases y)
      case None
      with Cons.prems(2) ts known show ?thesis
        by auto
    next
      case (Some l)
      with known obtain ls where ls: "list_all2 (has_layout c) ts ls" "l = layout_all ls"
        by (auto simp: layout_all_def)
      from Some Cons.prems(2) ts have "layout_constructors L tss (layout_larger acc (layout_close l)) d2 = Some (d1, x)"
        by simp
      from Cons.IH [OF known [THEN conjunct1] this] ls show ?thesis
        by (fastforce intro: list.rel_intros(2))
    qed
  qed auto
qed

lemma declaration_refine:
  assumes "\<And>t. refines c (has_layout c t) (L t)"
  shows "refines c (body_layout c b) (layout_declaration L b)"
proof (rule refinesI)
  fix d d1 x
  assume known: "layouts_known c d" and run: "layout_declaration L b d = Some (d1, x)"
  show "layouts_known c d1 \<and> (\<forall>l. x = Some l \<longrightarrow> body_layout c b l)"
  proof (cases b)
    case (Decl_Alias t)
    with run have "L t d = Some (d1, x)"
      by (simp add: layout_declaration_def)
    from refinesD [OF this assms known] Decl_Alias show ?thesis
      by (auto intro: lay_alias)
  next
    case (Decl_Struct fs)
    with run obtain y where y: "layout_fields L (struct_field_types fs) (0, 1) d = Some (d1, y)"
        "x = map_option layout_close y"
      by (auto simp: layout_declaration_def bind_eq_Some_conv)
    note result = refinesD [OF y(1) fields_refine [OF assms] known]
    have "body_layout c b l" if "x = Some l" for l
    proof -
      from that y(2) obtain m where m: "y = Some m" "l = layout_close m"
        by (cases y) simp_all
      with result obtain ls where "list_all2 (has_layout c) (struct_field_types fs) ls" "m = layout_all ls"
        unfolding layout_all_def by blast
      with m(2) Decl_Struct show ?thesis
        by (simp add: lay_struct)
    qed
    with result show ?thesis
      by blast
  next
    case (Decl_Enum ks)
    with run obtain y where y: "layout_constructors L (map constructor_payload_types ks) (0, 1) d = Some (d1, y)"
        "x = map_option layout_tagged y"
      by (auto simp: layout_declaration_def bind_eq_Some_conv)
    note result = refinesD [OF y(1) constructors_refine [OF assms] known]
    have "body_layout c b l" if "x = Some l" for l
    proof -
      from that y(2) obtain m where m: "y = Some m" "l = layout_tagged m"
        by (cases y) simp_all
      with result obtain lss where "list_all2 (list_all2 (has_layout c)) (map constructor_payload_types ks) lss"
          "m = foldl layout_larger (0, 1) (map (layout_close \<circ> layout_all) lss)"
        by blast
      with m(2) Decl_Enum show ?thesis
        by (simp only: lay_enum)
    qed
    with result show ?thesis
      by blast
  qed
qed

lemma skeleton_update:
  assumes "i < length (sc_types d)" and "bare_entry (f (sc_types d ! i)) = bare_entry (sc_types d ! i)"
  shows "skeleton (update_type_entry (Collected_Type i) f d) = skeleton d"
proof -
  have "map bare_entry ((sc_types d)[i := f (sc_types d ! i)]) = map bare_entry (sc_types d)"
    using assms by (simp add: map_update) (metis length_map list_update_id nth_map)
  then show ?thesis
    by (simp add: skeleton_def frame_def)
qed

lemma layouts_known_update:
  assumes "layouts_known c d" and "i < length (sc_types c)" and "\<And>x. bare_entry (f x) = bare_entry x"
    and "te_layout_state (f (sc_types d ! i)) = 2 \<Longrightarrow>
      \<exists>b. te_declaration (sc_types c ! i) = Some b \<and>
        body_layout c (decl_body b) (te_size (f (sc_types d ! i)), te_alignment (f (sc_types d ! i)))"
  shows "layouts_known c (update_type_entry (Collected_Type i) f d)"
proof -
  have len: "length (sc_types d) = length (sc_types c)"
    using layouts_known_skeleton [OF assms(1)] by (rule skeleton_length)
  have "skeleton (update_type_entry (Collected_Type i) f d) = skeleton c"
    using skeleton_update [of i d f] assms(2,3) len layouts_known_skeleton [OF assms(1)] by simp
  then show ?thesis
    unfolding layouts_known_def
  proof (intro conjI allI impI)
    fix j
    assume j: "j < length (sc_types c)"
      and known: "te_layout_state (sc_types (update_type_entry (Collected_Type i) f d) ! j) = 2"
    have at: "sc_types (update_type_entry (Collected_Type i) f d) ! j =
        (if j = i then f (sc_types d ! i) else sc_types d ! j)"
      using j len by (simp add: nth_list_update)
    show "\<exists>b. te_declaration (sc_types c ! j) = Some b \<and> body_layout c (decl_body b)
        (te_size (sc_types (update_type_entry (Collected_Type i) f d) ! j),
         te_alignment (sc_types (update_type_entry (Collected_Type i) f d) ! j))"
      using known assms(1,4) j unfolding at layouts_known_def by (cases "j = i") simp_all
  qed
qed

lemma entry_refine:
  assumes "\<And>t. refines c (has_layout c t) (L t)" and "i < length (sc_types c)"
  shows "refines c (\<lambda>l. \<exists>b. te_declaration (sc_types c ! i) = Some b \<and> body_layout c (decl_body b) l)
    (layout_named_entry_with L (Collected_Type i))"
proof (rule refinesI)
  fix d d1 x
  assume known: "layouts_known c d" and run: "layout_named_entry_with L (Collected_Type i) d = Some (d1, x)"
  let ?P = "\<lambda>l. \<exists>b. te_declaration (sc_types c ! i) = Some b \<and> body_layout c (decl_body b) l"
  have decl: "te_declaration (sc_types d ! i) = te_declaration (sc_types c ! i)"
    using layouts_known_skeleton [OF known] assms(2) by (rule skeleton_entry(4))
  have failed: "layouts_known c (semantic_fail d e zero_span)" for e
    using known by (simp add: layouts_known_def skeleton_fail)
  have mark: "layouts_known c e \<Longrightarrow> s \<noteq> 2 \<Longrightarrow> layouts_known c (layout_mark (Collected_Type i) s e)" for s e
    unfolding layout_mark_def by (rule layouts_known_update) (simp_all add: assms(2) bare_entry_def)
  show "layouts_known c d1 \<and> (\<forall>l. x = Some l \<longrightarrow> ?P l)"
  proof (cases "te_declaration (sc_types c ! i)")
    case None
    with run failed show ?thesis
      by (auto simp: layout_named_entry_with_def decl generic_fail_def)
  next
    case (Some b)
    consider "te_layout_state (sc_types d ! i) = 2" | "te_layout_state (sc_types d ! i) = 1"
      | "te_layout_state (sc_types d ! i) \<noteq> 2" "te_layout_state (sc_types d ! i) \<noteq> 1"
      by blast
    then show ?thesis
    proof cases
      case 1
      with run Some known assms(2) show ?thesis
        by (auto simp: layout_named_entry_with_def Let_def decl layouts_known_def)
    next
      case 2
      with run Some failed show ?thesis
        by (auto simp: layout_named_entry_with_def Let_def decl generic_fail_def)
    next
      case 3
      with run Some obtain d2 y where
        body: "layout_declaration L (decl_body b) (layout_mark (Collected_Type i) 1 d) = Some (d2, y)"
        and rest: "(case y of
              None \<Rightarrow> Some ((case decl_body b of Decl_Alias _ \<Rightarrow> layout_mark (Collected_Type i) 0 d2 | _ \<Rightarrow> d2), None)
            | Some l \<Rightarrow> Some (layout_known (Collected_Type i) l d2, Some l)) = Some (d1, x)"
        by (auto simp: layout_named_entry_with_def decl Let_def bind_eq_Some_conv)
      have known2: "layouts_known c d2 \<and> (\<forall>l. y = Some l \<longrightarrow> body_layout c (decl_body b) l)"
        by (rule refinesD [OF body declaration_refine [OF assms(1)]]) (simp add: mark known)
      show ?thesis
      proof (cases y)
        case None
        with rest known2 mark show ?thesis
          by (auto split: ast_type_decl_body.splits)
      next
        case (Some l)
        with known2 \<open>te_declaration _ = Some b\<close> have "layouts_known c (layout_known (Collected_Type i) l d2)"
          unfolding layout_known_def
          by (intro layouts_known_update) (simp_all add: assms(2) bare_entry_def)
        with Some rest known2 \<open>te_declaration _ = Some b\<close> show ?thesis
          by auto
      qed
    qed
  qed
qed

lemma layout_type_refines:
  assumes "plain c"
  shows "refines c (has_layout c t) (layout_type n t)"
proof (induction n arbitrary: t)
  case 0
  then show ?case
    by (simp add: refines_def)
next
  case (Suc n)
  show ?case
  proof (rule refinesI)
    fix d d1 x
    assume known: "layouts_known c d" and run: "layout_type (Suc n) t d = Some (d1, x)"
    note payloads = refinesD [OF _ payloads_refine [OF Suc.IH] known]
    show "layouts_known c d1 \<and> (\<forall>l. x = Some l \<longrightarrow> has_layout c t l)"
    proof (cases "type_unwrap_mutable t")
      case (Type_Option i)
      with run obtain y where y: "layout_payloads (layout_type n) [i] (0, 1) d = Some (d1, y)"
          "x = map_option layout_tagged y"
        by (auto simp: Let_def bind_eq_Some_conv simp del: layout_payloads.simps)
      note result = payloads [OF y(1)]
      have "has_layout c t l" if "x = Some l" for l
      proof -
        from that y(2) obtain m where m: "y = Some m" "l = layout_tagged m"
          by (cases y) simp_all
        with result obtain k where "has_layout c i k" "m = layout_larger (0, 1) k"
          by (auto simp only: list_all2_Cons1 list_all2_Nil foldl_Cons foldl_Nil)
        with m(2) Type_Option show ?thesis
          by (simp only: lay_option)
      qed
      with result show ?thesis
        by blast
    next
      case (Type_Result ok er)
      with run obtain y where y: "layout_payloads (layout_type n) [ok, er] (0, 1) d = Some (d1, y)"
          "x = map_option layout_tagged y"
        by (auto simp: Let_def bind_eq_Some_conv simp del: layout_payloads.simps)
      note result = payloads [OF y(1)]
      have "has_layout c t l" if "x = Some l" for l
      proof -
        from that y(2) obtain m where m: "y = Some m" "l = layout_tagged m"
          by (cases y) simp_all
        with result obtain k j where "has_layout c ok k" "has_layout c er j"
            "m = layout_larger (layout_larger (0, 1) k) j"
          by (auto simp only: list_all2_Cons1 list_all2_Nil foldl_Cons foldl_Nil)
        with m(2) Type_Result show ?thesis
          by (simp only: lay_result)
      qed
      with result show ?thesis
        by blast
    next
      case (Type_Named k name args)
      have skeleton: "skeleton d = skeleton c" and plain: "plain d"
        using layouts_known_skeleton [OF known] skeleton_plain [of d c] assms by auto
      from plain_named_run [OF plain Type_Named] obtain e where
        e: "semantic_resolve_named_entry (semantic_generic_type_equal (type_compatible n)) n (type_unwrap_mutable t) d =
            Some (case named_index d (type_unwrap_mutable t) of None \<Rightarrow> (e, None) | Some i \<Rightarrow> (d, Some (Collected_Type i)))"
          "skeleton e = skeleton d" "sc_types e = sc_types d"
        by blast
      show ?thesis
      proof (cases "named_index c (type_unwrap_mutable t)")
        case None
        with e run known Type_Named skeleton show ?thesis
          by (auto simp: Let_def skeleton_named_index [OF skeleton] layouts_known_def)
      next
        case (Some i)
        with e run Type_Named have "layout_named_entry_with (layout_type n) (Collected_Type i) d = Some (d1, x)"
          by (simp add: Let_def skeleton_named_index [OF skeleton])
        from refinesD [OF this entry_refine [OF Suc.IH named_index_less [OF Some]] known] Some show ?thesis
          by (auto intro: lay_named)
      qed
    qed (use run known in \<open>auto simp: Let_def intro: lay_simple\<close>)
  qed
qed

end
