(* ===== verification/Layout_Termination.thy ===== *)
theory Layout_Termination
  imports Layout_Laws
begin

text \<open>
  The termination of layout: marking an entry as in progress makes every recursion through named
  types finite, so that layout answers on every type, those that contain themselves included.
\<close>

section \<open>Layout always answers\<close>

text \<open>The entries whose layout has not been asked for.\<close>

definition fresh_entries :: "semantic_context \<Rightarrow> nat set" where
  "fresh_entries c = {i. i < length (sc_types c) \<and> te_layout_state (sc_types c ! i) \<notin> {1, 2}}"

lemma finite_fresh [simp]: "finite (fresh_entries c)"
  by (rule finite_subset [of _ "{..<length (sc_types c)}"]) (auto simp: fresh_entries_def)

text \<open>With enough fuel the run has one answer, and no more entries are unknown than before.\<close>

definition settles :: "(nat \<Rightarrow> 'a run) \<Rightarrow> semantic_context \<Rightarrow> bool" where
  "settles F c \<longleftrightarrow> (\<exists>N d x. (\<forall>n \<ge> N. F n c = Some (d, x)) \<and> skeleton d = skeleton c
     \<and> card (fresh_entries d) \<le> card (fresh_entries c))"

lemma settles_at_once:
  "(\<And>n. n \<ge> N \<Longrightarrow> F n c = Some (d, x)) \<Longrightarrow> skeleton d = skeleton c \<Longrightarrow>
     card (fresh_entries d) \<le> card (fresh_entries c) \<Longrightarrow> settles F c"
  unfolding settles_def by blast

lemma settles_bind:
  assumes "settles F c"
    and "\<And>d x. skeleton d = skeleton c \<Longrightarrow> card (fresh_entries d) \<le> card (fresh_entries c) \<Longrightarrow> settles (\<lambda>n. G x n) d"
  shows "settles (\<lambda>n c. do { (d, x) \<leftarrow> F n c; G x n d }) c"
proof -
  from assms(1) obtain N d x where F: "\<And>n. n \<ge> N \<Longrightarrow> F n c = Some (d, x)"
      and d: "skeleton d = skeleton c" "card (fresh_entries d) \<le> card (fresh_entries c)"
    unfolding settles_def by blast
  from assms(2) [OF d] obtain M e y where G: "\<And>n. n \<ge> M \<Longrightarrow> G x n d = Some (e, y)"
      and e: "skeleton e = skeleton d" "card (fresh_entries e) \<le> card (fresh_entries d)"
    unfolding settles_def by blast
  show ?thesis
    by (rule settles_at_once [of "N + M" _ _ e y]) (use F G d e in auto)
qed

lemma settles_cong: "settles F c \<Longrightarrow> (\<And>n. n \<ge> N \<Longrightarrow> F n c = G n c) \<Longrightarrow> settles G c"
  unfolding settles_def by (metis le_add1 le_add2 le_trans nle_le)

lemma settles_done: "settles (\<lambda>n c. Some (c, x)) c"
  by (rule settles_at_once [of 0 _ _ c x]) simp_all

text \<open>Runs from the states that have the skeleton \<open>s\<close> and at most \<open>k\<close> unknown entries.\<close>

definition settles_below :: "semantic_context \<Rightarrow> nat \<Rightarrow> (nat \<Rightarrow> 'a run) \<Rightarrow> bool" where
  "settles_below s k F \<longleftrightarrow>
     (\<forall>c. skeleton c = skeleton s \<longrightarrow> card (fresh_entries c) \<le> k \<longrightarrow> settles F c)"

lemma settles_below_bind:
  assumes "settles_below s k F" and "\<And>x. settles_below s k (G x)"
  shows "settles_below s k (\<lambda>n c. do { (d, x) \<leftarrow> F n c; G x n d })"
  unfolding settles_below_def
proof (intro allI impI)
  fix c
  assume c: "skeleton c = skeleton s" "card (fresh_entries c) \<le> k"
  show "settles (\<lambda>n c. do { (d, x) \<leftarrow> F n c; G x n d }) c"
  proof (rule settles_bind)
    show "settles F c"
      using assms(1) c by (simp add: settles_below_def)
    show "settles (G x) d" if "skeleton d = skeleton c" "card (fresh_entries d) \<le> card (fresh_entries c)" for d x
      using assms(2) [of x] c that by (simp add: settles_below_def)
  qed
qed

lemma settles_below_done: "settles_below s k (\<lambda>n c. Some (c, x))"
  by (simp add: settles_below_def settles_done)

lemma settles_below_option:
  "settles_below s k A \<Longrightarrow> (\<And>y. settles_below s k (B y)) \<Longrightarrow>
     settles_below s k (\<lambda>n c. case x of None \<Rightarrow> A n c | Some y \<Rightarrow> B y n c)"
  by (cases x) simp_all

lemma fields_settle:
  assumes "\<And>t. t \<in> set ts \<Longrightarrow> settles_below s k (\<lambda>n. L n t)"
  shows "settles_below s k (\<lambda>n. layout_fields (L n) ts acc)"
    and "settles_below s k (\<lambda>n. layout_payloads (L n) ts acc)"
  using assms
proof (induction ts arbitrary: acc)
  case Nil
  {
    case 1
    show ?case
      by (simp add: settles_below_done)
  next
    case 2
    show ?case
      by (simp add: settles_below_done)
  }
next
  case (Cons t ts)
  {
    case 1
    with Cons.IH(1) show ?case
      by (simp add: settles_below_bind [OF _ settles_below_option [OF settles_below_done]])
  next
    case 2
    with Cons.IH(2) show ?case
      by (simp add: settles_below_bind [OF _ settles_below_option [OF settles_below_done]])
  }
qed

lemma constructors_settle:
  assumes "\<And>t. t \<in> set (concat tss) \<Longrightarrow> settles_below s k (\<lambda>n. L n t)"
  shows "settles_below s k (\<lambda>n. layout_constructors (L n) tss acc)"
  using assms
proof (induction tss arbitrary: acc)
  case Nil
  show ?case
    by (simp add: settles_below_done)
next
  case (Cons ts tss)
  have "settles_below s k (\<lambda>n. layout_fields (L n) ts (0, 1))"
    by (rule fields_settle(1)) (simp add: Cons.prems)
  with Cons show ?case
    by (simp add: settles_below_bind [OF _ settles_below_option [OF settles_below_done]])
qed

lemma declaration_settles:
  assumes "\<And>t. settles_below s k (\<lambda>n. L n t)"
  shows "settles_below s k (\<lambda>n. layout_declaration (L n) b)"
proof (cases b)
  case (Decl_Alias t)
  with assms [of t] show ?thesis
    by (simp add: layout_declaration_def [abs_def])
next
  case (Decl_Struct fs)
  then show ?thesis
    by (simp add: layout_declaration_def [abs_def] settles_below_bind [OF fields_settle(1) settles_below_done] assms)
next
  case (Decl_Enum ks)
  then show ?thesis
    by (simp add: layout_declaration_def [abs_def] settles_below_bind [OF constructors_settle settles_below_done] assms)
qed

lemma nth_update_at: "j < length xs \<Longrightarrow> xs[i := y] ! j = (if j = i then y else xs ! j)"
  by (cases "i < length xs") (auto simp: nth_list_update)

lemma fresh_update:
  "fresh_entries (update_type_entry (Collected_Type i) f c) \<subseteq> insert i (fresh_entries c)"
  "te_layout_state (f (sc_types c ! i)) \<in> {1, 2} \<Longrightarrow>
     fresh_entries (update_type_entry (Collected_Type i) f c) = fresh_entries c - {i}"
  by (auto simp: fresh_entries_def nth_update_at split: if_splits)

lemma card_fresh_update: "card (fresh_entries (update_type_entry (Collected_Type i) f c)) \<le> Suc (card (fresh_entries c))"
  using card_mono [OF _ fresh_update(1), of i c f] by (simp add: card_insert_if le_SucI split: if_splits)

lemma card_fresh_mark:
  "i \<in> fresh_entries c \<Longrightarrow> Suc (card (fresh_entries (layout_mark (Collected_Type i) 1 c))) = card (fresh_entries c)"
  unfolding layout_mark_def by (subst fresh_update(2), simp) (rule card_Suc_Diff1 [OF finite_fresh])

lemma card_fresh_known: "card (fresh_entries (layout_known (Collected_Type i) l c)) \<le> card (fresh_entries c)"
  unfolding layout_known_def by (subst fresh_update(2)) (simp_all add: card_mono)

lemma skeleton_mark:
  "i < length (sc_types c) \<Longrightarrow> skeleton (layout_mark (Collected_Type i) m c) = skeleton c"
  "i < length (sc_types c) \<Longrightarrow> skeleton (layout_known (Collected_Type i) l c) = skeleton c"
  unfolding layout_mark_def layout_known_def by (rule skeleton_update; simp add: bare_entry_def)+

lemma fresh_fail: "fresh_entries (semantic_fail c e sp) = fresh_entries c"
  by (simp add: fresh_entries_def skeleton_fail)

lemma entry_settles:
  assumes below: "\<And>j t. j < k \<Longrightarrow> settles_below s j (\<lambda>n. L n t)" and i: "i < length (sc_types s)"
  shows "settles_below s k (\<lambda>n. layout_named_entry_with (L n) (Collected_Type i))"
  unfolding settles_below_def
proof (intro allI impI)
  fix c
  assume skeleton: "skeleton c = skeleton s" and few: "card (fresh_entries c) \<le> k"
  have len: "i < length (sc_types c)"
    using i skeleton_length [OF skeleton] by simp
  have failed: "settles (\<lambda>n c. Some (generic_fail e c)) c" for e
    by (rule settles_at_once [of 0 _ _ "semantic_fail c e zero_span" None])
      (simp_all add: generic_fail_def skeleton_fail fresh_fail)
  show "settles (\<lambda>n. layout_named_entry_with (L n) (Collected_Type i)) c"
  proof (cases "te_declaration (sc_types c ! i)")
    case None
    then show ?thesis
      by (intro settles_cong [OF failed [of E0409_Unresolved_Type], of 0]) (simp add: layout_named_entry_with_def)
  next
    case (Some b)
    consider "te_layout_state (sc_types c ! i) = 2" | "te_layout_state (sc_types c ! i) = 1" | "i \<in> fresh_entries c"
      using len by (auto simp: fresh_entries_def)
    then show ?thesis
    proof cases
      case 1
      with Some show ?thesis
        by (intro settles_cong [OF settles_done [of "Some (te_size (sc_types c ! i), te_alignment (sc_types c ! i))"], of 0])
          (simp add: layout_named_entry_with_def Let_def)
    next
      case 2
      with Some show ?thesis
        by (intro settles_cong [OF failed [of E0308_Infinite_Recursive_Type], of 0])
          (simp add: layout_named_entry_with_def Let_def)
    next
      case 3
      let ?c = "layout_mark (Collected_Type i) 1 c"
      have "card (fresh_entries ?c) < k" "skeleton ?c = skeleton s"
        using card_fresh_mark [OF 3] few skeleton skeleton_mark(1) [OF len] by simp_all
      moreover from this(1) have "settles_below s (card (fresh_entries ?c)) (\<lambda>n. layout_declaration (L n) (decl_body b))"
        by (intro declaration_settles below)
      ultimately have "settles (\<lambda>n. layout_declaration (L n) (decl_body b)) ?c"
        unfolding settles_below_def by blast
      then obtain N d r where run: "\<And>n. n \<ge> N \<Longrightarrow> layout_declaration (L n) (decl_body b) ?c = Some (d, r)"
          and d: "skeleton d = skeleton ?c" "card (fresh_entries d) \<le> card (fresh_entries ?c)"
        unfolding settles_def by blast
      have fewer: "Suc (card (fresh_entries d)) \<le> card (fresh_entries c)"
        using d(2) card_fresh_mark [OF 3] by simp
      have d_len: "i < length (sc_types d)" and d_skeleton: "skeleton d = skeleton c"
        using d(1) skeleton_mark(1) [OF len] len skeleton_length [of d c] by simp_all
      have fresh: "te_layout_state (sc_types c ! i) \<noteq> 2" "te_layout_state (sc_types c ! i) \<noteq> 1"
        using 3 by (simp_all add: fresh_entries_def)
      show ?thesis
      proof (cases r)
        case None
        let ?e = "case decl_body b of Decl_Alias _ \<Rightarrow> layout_mark (Collected_Type i) 0 d | _ \<Rightarrow> d"
        have "skeleton ?e = skeleton c"
          using d_skeleton skeleton_mark(1) [OF d_len] by (simp split: ast_type_decl_body.split)
        moreover have "card (fresh_entries ?e) \<le> card (fresh_entries c)"
          using fewer card_fresh_update [of i "\<lambda>x. x\<lparr>te_layout_state := 0\<rparr>" d]
          by (simp add: layout_mark_def split: ast_type_decl_body.split)
        ultimately show ?thesis
          using None run fresh Some
          by (intro settles_at_once [of N _ _ ?e None]) (simp_all add: layout_named_entry_with_def Let_def)
      next
        case (Some l)
        let ?e = "layout_known (Collected_Type i) l d"
        have "skeleton ?e = skeleton c" "card (fresh_entries ?e) \<le> card (fresh_entries c)"
          using d_skeleton skeleton_mark(2) [OF d_len] fewer card_fresh_known [of i l d] by simp_all
        with Some run fresh \<open>te_declaration _ = Some b\<close> show ?thesis
          by (intro settles_at_once [of N _ _ ?e "Some l"]) (simp_all add: layout_named_entry_with_def Let_def)
      qed
    qed
  qed
qed

text \<open>One unit of fuel more does not change what settles.\<close>

lemma settles_below_Suc:
  assumes "settles_below s k F" and "\<And>n c. skeleton c = skeleton s \<Longrightarrow> G (Suc n) c = F n c"
  shows "settles_below s k G"
  unfolding settles_below_def
proof (intro allI impI)
  fix c
  assume c: "skeleton c = skeleton s" "card (fresh_entries c) \<le> k"
  with assms(1) obtain N d x where run: "\<And>n. n \<ge> N \<Longrightarrow> F n c = Some (d, x)"
      and d: "skeleton d = skeleton c" "card (fresh_entries d) \<le> card (fresh_entries c)"
    unfolding settles_below_def settles_def by blast
  have "G n c = Some (d, x)" if "n \<ge> Suc N" for n
    using assms(2) [OF c(1), of "n - 1"] run [of "n - 1"] that by simp
  with d show "settles G c"
    by (intro settles_at_once [of "Suc N" _ _ d x])
qed

lemma type_settles:
  assumes "plain s"
  shows "settles_below s k (\<lambda>n. layout_type n t)"
proof (induction k arbitrary: t rule: less_induct)
  case (less k)
  show ?case
  proof (induction "size t" arbitrary: t rule: less_induct)
    case step: less
    note size = size_unwrap_mutable [of t]
    show ?case
    proof (cases "type_unwrap_mutable t")
      case (Type_Option i)
      have "settles_below s k (\<lambda>n. layout_payloads (layout_type n) [i] (0, 1))"
        by (rule fields_settle(2)) (use step size Type_Option in auto)
      from settles_below_bind [OF this settles_below_done, of "map_option layout_tagged"]
      show ?thesis
        by (rule settles_below_Suc) (simp add: Type_Option Let_def del: layout_payloads.simps)
    next
      case (Type_Result ok er)
      have "settles_below s k (\<lambda>n. layout_payloads (layout_type n) [ok, er] (0, 1))"
        by (rule fields_settle(2)) (use step size Type_Result in auto)
      from settles_below_bind [OF this settles_below_done, of "map_option layout_tagged"]
      show ?thesis
        by (rule settles_below_Suc) (simp add: Type_Result Let_def del: layout_payloads.simps)
    next
      case (Type_Named k' name args)
      have index: "named_index c (type_unwrap_mutable t) = named_index s (type_unwrap_mutable t)" "plain c"
        if "skeleton c = skeleton s" for c
        using that skeleton_named_index [of c s] skeleton_plain [of c s] assms by simp_all
      show ?thesis
      proof (cases "named_index s (type_unwrap_mutable t)")
        case None
        show ?thesis
          unfolding settles_below_def
        proof (intro allI impI)
          fix c
          assume c: "skeleton c = skeleton s"
          from plain_named_run [OF index(2) [OF c] Type_Named] index(1) [OF c] None obtain d where
            d: "\<And>test n. semantic_resolve_named_entry test n (type_unwrap_mutable t) c = Some (d, None)"
              "skeleton d = skeleton c" "sc_types d = sc_types c"
            by auto
          have "layout_type n t c = Some (d, None)" if "n \<ge> 1" for n
            using that d(1) Type_Named by (cases n) (simp_all add: Let_def)
          then show "settles (\<lambda>n. layout_type n t) c"
            by (rule settles_at_once) (simp_all add: d fresh_entries_def)
        qed
      next
        case (Some i)
        have "settles_below s k (\<lambda>n. layout_named_entry_with (layout_type n) (Collected_Type i))"
          by (rule entry_settles [OF less named_index_less [OF Some]])
        then show ?thesis
        proof (rule settles_below_Suc)
          fix n c
          assume c: "skeleton c = skeleton s"
          from plain_named_run [OF index(2) [OF c] Type_Named] index(1) [OF c] Some
          show "layout_type (Suc n) t c = layout_named_entry_with (layout_type n) (Collected_Type i) c"
            by (auto simp: Type_Named Let_def)
        qed
      qed
    qed (rule settles_below_Suc [OF settles_below_done [of _ _ "layout_simple (type_unwrap_mutable t)"]];
        simp add: Let_def)+
  qed
qed

section \<open>Property\<close>

text \<open>
  C33: In a program without generic types the layout of any type is answered: with enough fuel every
  run gives the same result, a size or a failure, for types that contain themselves and aliases that
  name themselves as well.
\<close>

theorem layout_always_answers:
  assumes "plain c"
  shows "\<exists>N d x. \<forall>n \<ge> N. layout_type n t c = Some (d, x)"
proof -
  have "settles_below c (card (fresh_entries c)) (\<lambda>n. layout_type n t)"
    by (rule type_settles [OF assms])
  then show ?thesis
    unfolding settles_below_def settles_def by blast
qed

theorem layout_always_answers_witness:
  "(\<exists>N d x. \<forall>n \<ge> N. layout_type n (Type_Named 3 [0x4C] []) example_context = Some (d, x))
   \<and> (\<forall>n. type_resolve n (Type_Named 3 [0x4C] []) example_context = None)"
proof -
  let ?t = "Type_Named 3 [0x4C] []"
  have "type_resolve n ?t example_context = None" for n
  proof -
    have "chain_loop (alias_step example_context) n ?t = None" for n
      by (induction n) (simp_all add: example_steps(5))
    then show ?thesis
      by (simp add: type_resolve_chain [OF example_plain])
  qed
  with layout_always_answers [OF example_plain, of ?t] show ?thesis
    by blast
qed

end
