(* ===== verification/Layout_Fields.thy ===== *)
theory Layout_Fields
  imports Layout_Laws
begin

text \<open>
  Sizes, alignments and the placement of fields: the layout rules determine one layout, whose
  alignment is at most eight and divides its size, and the fields of a struct lie behind each other
  inside it, unless the sum of the sizes wraps.
\<close>

section \<open>One layout\<close>

lemma all_layouts_unique:
  "list_all2 (\<lambda>t l. \<forall>m. P t m \<longrightarrow> l = m) ts ls \<Longrightarrow> list_all2 P ts ms \<Longrightarrow> ls = ms"
  by (induction ts ls arbitrary: ms rule: list_all2_induct) (auto simp: list_all2_Cons1)

lemma has_layout_cases:
  assumes "has_layout c t m"
  shows "layout_simple (type_unwrap_mutable t) = Some l \<Longrightarrow> m = l"
    and "type_unwrap_mutable t = Type_Option i \<Longrightarrow>
      \<exists>l. has_layout c i l \<and> m = layout_tagged (layout_larger (0, 1) l)"
    and "type_unwrap_mutable t = Type_Result ok er \<Longrightarrow>
      \<exists>l k. has_layout c ok l \<and> has_layout c er k \<and> m = layout_tagged (layout_larger (layout_larger (0, 1) l) k)"
    and "named_index c (type_unwrap_mutable t) = Some j \<Longrightarrow>
      \<exists>d. te_declaration (sc_types c ! j) = Some d \<and> body_layout c (decl_body d) m"
  using assms by (cases; auto simp: named_index_def split: ast_type.splits)+

inductive_cases body_alias_cases: "body_layout c (Decl_Alias t) l"
inductive_cases body_struct_cases: "body_layout c (Decl_Struct fs) l"
inductive_cases body_enum_cases: "body_layout c (Decl_Enum ks) l"

lemma layout_unique:
  "has_layout c t l \<Longrightarrow> has_layout c t m \<Longrightarrow> l = m"
  "body_layout c b l \<Longrightarrow> body_layout c b m \<Longrightarrow> l = m"
proof (induction arbitrary: m and m rule: has_layout_body_layout.inducts)
  case (lay_simple t l)
  then show ?case
    using has_layout_cases(1) by metis
next
  case (lay_option t i l)
  then show ?case
    using has_layout_cases(2) [OF lay_option.prems] by metis
next
  case (lay_result t ok er l k)
  then show ?case
    using has_layout_cases(3) [OF lay_result.prems] by metis
next
  case (lay_named t i d l)
  then show ?case
    using has_layout_cases(4) [OF lay_named.prems] by (metis option.inject)
next
  case (lay_alias t l)
  then show ?case
    by (elim body_alias_cases) (rule lay_alias.IH)
next
  case (lay_struct fs ls)
  from lay_struct.prems obtain ms where ms: "list_all2 (has_layout c) (struct_field_types fs) ms"
      "m = layout_close (layout_all ms)"
    by (rule body_struct_cases) blast
  have "list_all2 (\<lambda>t l. \<forall>m. has_layout c t m \<longrightarrow> l = m) (struct_field_types fs) ls"
    using lay_struct.IH by (rule list_all2_mono) blast
  from all_layouts_unique [OF this ms(1)] ms(2) show ?case
    by simp
next
  case (lay_enum ks lss)
  from lay_enum.prems obtain mss where mss: "list_all2 (list_all2 (has_layout c)) (map constructor_payload_types ks) mss"
      "m = layout_tagged (foldl layout_larger (0, 1) (map (layout_close \<circ> layout_all) mss))"
    by (rule body_enum_cases) blast
  have "list_all2 (\<lambda>ts ls. \<forall>ms. list_all2 (has_layout c) ts ms \<longrightarrow> ls = ms) (map constructor_payload_types ks) lss"
  proof (rule list_all2_mono [OF lay_enum.IH], intro allI impI)
    fix ts ls ms
    assume "list_all2 (\<lambda>t l. has_layout c t l \<and> (\<forall>m. has_layout c t m \<longrightarrow> l = m)) ts ls"
      and ms: "list_all2 (has_layout c) ts ms"
    then have "list_all2 (\<lambda>t l. \<forall>m. has_layout c t m \<longrightarrow> l = m) ts ls"
      by (elim list_all2_mono) blast
    then show "ls = ms"
      using ms by (rule all_layouts_unique)
  qed
  from all_layouts_unique [OF this mss(1)] mss(2) show ?case
    by simp
qed

section \<open>Alignments\<close>

definition alignments :: "size_t set" where
  "alignments = {1, 2, 4, 8}"

text \<open>The alignment divides the size, whether or not the size has wrapped.\<close>

definition aligned :: "storage \<Rightarrow> bool" where
  "aligned l \<longleftrightarrow> snd l \<in> alignments \<and> unat (snd l) dvd unat (fst l)"

lemma unat_sizes: "unat (1 :: size_t) = 1" "unat (2 :: size_t) = 2" "unat (4 :: size_t) = 4" "unat (8 :: size_t) = 8"
  by simp_all

lemma align_up_dvd:
  assumes "a \<in> alignments"
  shows "unat a dvd unat (align_up v a)"
proof -
  have "2 ^ k dvd unat (x AND NOT (mask k))" if "k < 64" for x :: size_t and k
  proof -
    have "x AND NOT (mask k) = push_bit k (drop_bit k x)"
      by (rule bit_eqI) (auto simp: bit_simps)
    then have "unat (x AND NOT (mask k)) = (unat (drop_bit k x) * 2 ^ k) mod 2 ^ 64"
      by (simp add: unsigned_push_bit_eq push_bit_nat_def take_bit_nat_def)
    moreover have "2 ^ k dvd (2 ^ 64 :: nat)"
      using that by (intro le_imp_power_dvd) simp
    ultimately show ?thesis
      by (simp only: dvd_mod dvd_triv_right)
  qed
  from this [of 0] this [of 1] this [of 2] this [of 3] show ?thesis
    using assms by (auto simp: alignments_def align_up_def Let_def mask_eq_exp_minus_1)
qed

lemma alignments_max: "a \<in> alignments \<Longrightarrow> b \<in> alignments \<Longrightarrow> (if b > a then b else a) \<in> alignments"
  by simp

lemma place_alignment: "snd acc \<in> alignments \<Longrightarrow> aligned l \<Longrightarrow> snd (layout_place acc l) \<in> alignments"
  by (simp add: layout_place_def aligned_def)

lemma larger_alignment:
  "snd acc \<in> alignments \<Longrightarrow> snd l \<in> alignments \<Longrightarrow> snd (layout_larger acc l) \<in> alignments"
  by (simp add: layout_larger_def)

lemma one_alignment [simp]: "1 \<in> alignments" "8 \<in> alignments"
  by (simp_all add: alignments_def)

lemma close_aligned: "snd l \<in> alignments \<Longrightarrow> aligned (layout_close l)"
  by (simp add: layout_close_def aligned_def align_up_dvd)

lemma tagged_aligned: "snd l \<in> alignments \<Longrightarrow> aligned (layout_tagged l)"
  by (simp add: layout_tagged_def aligned_def align_up_dvd Let_def)

lemma all_alignment: "\<forall>l \<in> set ls. aligned l \<Longrightarrow> snd acc \<in> alignments \<Longrightarrow> snd (foldl layout_place acc ls) \<in> alignments"
  by (induction ls arbitrary: acc) (simp_all add: place_alignment)

lemma all_larger_alignment:
  "\<forall>l \<in> set ls. aligned l \<Longrightarrow> snd acc \<in> alignments \<Longrightarrow> snd (foldl layout_larger acc ls) \<in> alignments"
  by (induction ls arbitrary: acc) (simp_all add: larger_alignment aligned_def)

lemma aligned_alignment: "aligned l \<Longrightarrow> snd l \<in> alignments"
  by (simp add: aligned_def)

lemma words_aligned: "aligned (8, 8)" "aligned (24, 8)" "aligned (0, 1)"
  by (simp_all add: aligned_def alignments_def)

lemma machine_aligned: "aligned (machine_bytes m, machine_bytes m)"
  by (cases m) (simp_all add: aligned_def alignments_def)

lemma simple_aligned: "layout_simple t = Some l \<Longrightarrow> aligned l"
  by (cases t) (auto simp: words_aligned machine_aligned)

lemma layout_aligned:
  "has_layout c t l \<Longrightarrow> aligned l"
  "body_layout c b l \<Longrightarrow> aligned l"
proof (induction rule: has_layout_body_layout.inducts)
  case (lay_struct fs ls)
  then have "\<forall>l \<in> set ls. aligned l"
    by (induction rule: list_all2_induct) auto
  then show ?case
    by (simp add: layout_all_def close_aligned all_alignment)
next
  case (lay_enum ks lss)
  then have "\<forall>ls \<in> set lss. \<forall>l \<in> set ls. aligned l"
  proof (induction rule: list_all2_induct)
    case (Cons ts tss ls lss)
    from Cons(1) have "\<forall>l \<in> set ls. aligned l"
      by (induction rule: list_all2_induct) auto
    with Cons(3) show ?case
      by simp
  qed simp
  then show ?case
    by (intro tagged_aligned all_larger_alignment) (auto simp: layout_all_def intro!: close_aligned all_alignment)
next
  case (lay_option t i l)
  from lay_option.IH show ?case
    by (simp add: tagged_aligned larger_alignment aligned_alignment)
next
  case (lay_result t ok er l m)
  from lay_result.IH show ?case
    by (simp add: tagged_aligned larger_alignment aligned_alignment)
qed (simp_all add: simple_aligned)

lemma layouts_aligned: "list_all2 (has_layout c) ts ls \<Longrightarrow> \<forall>l \<in> set ls. aligned l"
  by (induction rule: list_all2_induct) (simp_all add: layout_aligned(1))

lemma constructor_layouts_aligned:
  "list_all2 (list_all2 (has_layout c)) tss lss \<Longrightarrow> \<forall>ls \<in> set lss. \<forall>l \<in> set ls. aligned l"
  by (induction rule: list_all2_induct) (simp_all add: layouts_aligned)

section \<open>Placement\<close>

text \<open>Room enough for the fields with their padding.\<close>

definition field_room :: "storage list \<Rightarrow> nat" where
  "field_room ls = sum_list (map (\<lambda>l. unat (fst l) + 8) ls)"

lemma alignments_le: "a \<in> alignments \<Longrightarrow> 1 \<le> unat a \<and> unat a \<le> 8 \<and> a \<noteq> 0 \<and> a AND (a - 1) = 0"
  by (auto simp: alignments_def)

lemma place_bounds:
  assumes "aligned l" "unat (fst acc) + unat (fst l) + 8 < 2 ^ 64"
  shows "unat (fst acc) \<le> unat (align_up (fst acc) (snd l))"
    and "unat (fst (layout_place acc l)) = unat (align_up (fst acc) (snd l)) + unat (fst l)"
    and "unat (fst (layout_place acc l)) \<le> unat (fst acc) + unat (fst l) + 8"
proof -
  have a: "snd l \<noteq> 0" "snd l AND (snd l - 1) = 0" "1 \<le> unat (snd l)" "unat (snd l) \<le> 8"
    using assms(1) alignments_le [of "snd l"] by (simp_all add: aligned_def)
  have "unat (fst acc) + unat (snd l) \<le> 2 ^ 64"
    using a(4) assms(2) by linarith
  then have up: "unat (align_up (fst acc) (snd l)) = round_up (unat (fst acc)) (unat (snd l))"
    by (rule unat_align_up [OF a(1,2)])
  have bounds: "unat (fst acc) \<le> round_up (unat (fst acc)) (unat (snd l))"
      "round_up (unat (fst acc)) (unat (snd l)) < unat (fst acc) + unat (snd l)"
    using round_up_props [of "unat (snd l)" "unat (fst acc)"] a(3) by simp_all
  then show "unat (fst acc) \<le> unat (align_up (fst acc) (snd l))"
    by (simp add: up)
  have "unat (align_up (fst acc) (snd l)) + unat (fst l) < 2 ^ 64"
    using bounds(2) a(4) assms(2) by (simp add: up)
  then show sum: "unat (fst (layout_place acc l)) = unat (align_up (fst acc) (snd l)) + unat (fst l)"
    by (simp add: layout_place_def unat_add_u64)
  show "unat (fst (layout_place acc l)) \<le> unat (fst acc) + unat (fst l) + 8"
    using bounds(2) a(4) by (simp add: sum up)
qed

lemma all_bounds:
  assumes "\<forall>l \<in> set ls. aligned l" "unat (fst acc) + field_room ls < 2 ^ 64"
  shows "unat (fst acc) \<le> unat (fst (foldl layout_place acc ls))
    \<and> unat (fst (foldl layout_place acc ls)) \<le> unat (fst acc) + field_room ls"
  using assms
proof (induction ls arbitrary: acc)
  case Nil
  then show ?case
    by (simp add: field_room_def)
next
  case (Cons l ls)
  have room: "unat (fst acc) + unat (fst l) + 8 + field_room ls < 2 ^ 64"
    using Cons.prems(2) by (simp add: field_room_def)
  then have fits: "unat (fst acc) + unat (fst l) + 8 < 2 ^ 64"
    by linarith
  have l: "aligned l"
    using Cons.prems(1) by simp
  note bounds = place_bounds [OF l fits]
  have "unat (fst (layout_place acc l)) + field_room ls < 2 ^ 64"
    using bounds(3) room by linarith
  with Cons.IH [of "layout_place acc l"] Cons.prems(1) bounds show ?case
    by (auto simp: field_room_def)
qed

text \<open>Where the field with index \<open>i\<close> begins.\<close>

definition field_offset :: "storage list \<Rightarrow> nat \<Rightarrow> size_t" where
  "field_offset ls i = align_up (fst (layout_all (take i ls))) (snd (ls ! i))"

lemma layout_all_take_Suc:
  "i < length ls \<Longrightarrow> layout_all (take (Suc i) ls) = layout_place (layout_all (take i ls)) (ls ! i)"
  by (simp add: layout_all_def take_Suc_conv_app_nth)

lemma field_room_append: "field_room (ls @ ms) = field_room ls + field_room ms"
  by (simp add: field_room_def)

lemma field_room_take: "field_room (take i ls) + field_room (drop i ls) = field_room ls"
  by (simp flip: field_room_append)

lemma field_places:
  assumes "\<forall>l \<in> set ls. aligned l" "field_room ls + 8 < 2 ^ 64" "i < length ls"
  shows "unat (snd (ls ! i)) dvd unat (field_offset ls i)"
    and "unat (field_offset ls i) + unat (fst (ls ! i)) = unat (fst (layout_all (take (Suc i) ls)))"
    and "unat (fst (layout_all (take i ls))) \<le> unat (field_offset ls i)"
proof -
  have l: "aligned (ls ! i)"
    using assms(1,3) by simp
  then show "unat (snd (ls ! i)) dvd unat (field_offset ls i)"
    by (simp add: field_offset_def aligned_def align_up_dvd)
  have "drop i ls = ls ! i # drop (Suc i) ls"
    using assms(3) by (simp add: Cons_nth_drop_Suc)
  then have room: "field_room (take i ls) + (unat (fst (ls ! i)) + 8) \<le> field_room ls"
    using field_room_take [of i ls] by (simp add: field_room_def)
  have "unat (fst (layout_all (take i ls))) \<le> field_room (take i ls)"
    unfolding layout_all_def using all_bounds [of "take i ls" "(0, 1)"] assms(1,2) room
    by (auto dest: in_set_takeD)
  then have "unat (fst (layout_all (take i ls))) + unat (fst (ls ! i)) + 8 < 2 ^ 64"
    using room assms(2) by linarith
  note bounds = place_bounds [OF l this]
  show "unat (field_offset ls i) + unat (fst (ls ! i)) = unat (fst (layout_all (take (Suc i) ls)))"
    using bounds(2) by (simp add: field_offset_def layout_all_take_Suc [OF assms(3)])
  show "unat (fst (layout_all (take i ls))) \<le> unat (field_offset ls i)"
    using bounds(1) by (simp add: field_offset_def)
qed

lemma layout_all_mono:
  assumes "\<forall>l \<in> set ls. aligned l" "field_room ls + 8 < 2 ^ 64" "i \<le> j"
  shows "unat (fst (layout_all (take i ls))) \<le> unat (fst (layout_all (take j ls)))"
proof -
  let ?rest = "drop i (take j ls)"
  have split: "take j ls = take i ls @ ?rest"
    using assms(3) by (metis append_take_drop_id min.absorb1 take_take)
  have "field_room (take i ls) + field_room ?rest \<le> field_room ls"
    using field_room_take [of j ls] field_room_append [of "take i ls" ?rest] split by simp
  moreover have "unat (fst (layout_all (take i ls))) \<le> field_room (take i ls)"
    unfolding layout_all_def using all_bounds [of "take i ls" "(0, 1)"] assms(1,2) calculation
    by (auto dest: in_set_takeD)
  ultimately have "unat (fst (layout_all (take i ls))) + field_room ?rest < 2 ^ 64"
    using assms(2) by linarith
  moreover have "\<forall>l \<in> set ?rest. aligned l"
    using assms(1) by (auto dest!: in_set_dropD in_set_takeD)
  ultimately have "unat (fst (layout_all (take i ls))) \<le> unat (fst (foldl layout_place (layout_all (take i ls)) ?rest))"
    using all_bounds by blast
  also have "foldl layout_place (layout_all (take i ls)) ?rest = layout_all (take j ls)"
    by (subst split) (simp add: layout_all_def)
  finally show ?thesis .
qed

lemma close_size:
  assumes "\<forall>l \<in> set ls. aligned l" "field_room ls + 8 < 2 ^ 64"
  shows "unat (fst (layout_all ls)) \<le> unat (fst (layout_close (layout_all ls)))"
proof -
  have "snd (layout_all ls) \<in> alignments" "unat (fst (layout_all ls)) \<le> field_room ls"
    using all_alignment [OF assms(1), of "(0, 1)"] all_bounds [OF assms(1), of "(0, 1)"] assms(2)
    by (simp_all add: layout_all_def)
  then show ?thesis
    using place_bounds(1) [of "(0, snd (layout_all ls))" "layout_all ls"] assms(2)
    by (simp add: layout_close_def aligned_def)
qed

section \<open>Fields of a struct\<close>

text \<open>Field \<open>i\<close> is the first of that name, and what is reached before it is the fields in front of it.\<close>

definition field_found ::
    "semantic_context \<Rightarrow> text_slice \<Rightarrow> ast_struct_field list \<Rightarrow> size_t \<Rightarrow> size_t \<times> ast_type \<Rightarrow> nat \<Rightarrow> bool" where
  "field_found c name fs offset found i \<longleftrightarrow> i < length fs \<and> struct_field_name (fs ! i) = name
     \<and> (\<forall>j < i. struct_field_name (fs ! j) \<noteq> name) \<and> snd found = struct_field_types fs ! i
     \<and> (\<exists>ls. list_all2 (has_layout c) (take (Suc i) (struct_field_types fs)) ls
          \<and> fst found = align_up (fst (foldl layout_place (offset, 1) (take i ls))) (snd (ls ! i)))"

lemma place_size: "fst acc = fst acc' \<Longrightarrow> fst (foldl layout_place acc ls) = fst (foldl layout_place acc' ls)"
  by (induction ls arbitrary: acc acc') (simp_all add: layout_place_def)

lemma field_found_step:
  assumes "field_found c name fs (align_up offset (snd l) + fst l) found i"
    and "has_layout c (slot_type (struct_field_slot f)) l" "struct_field_name f \<noteq> name"
  shows "field_found c name (f # fs) offset found (Suc i)"
proof -
  obtain ls where ls: "list_all2 (has_layout c) (take (Suc i) (struct_field_types fs)) ls"
      "fst found = align_up (fst (foldl layout_place (align_up offset (snd l) + fst l, 1) (take i ls))) (snd (ls ! i))"
    using assms(1) unfolding field_found_def by blast
  have "fst (foldl layout_place (align_up offset (snd l) + fst l, 1) (take i ls)) =
      fst (foldl layout_place (layout_place (offset, 1) l) (take i ls))"
    by (rule place_size) (simp add: layout_place_def)
  moreover have "list_all2 (has_layout c) (take (Suc (Suc i)) (struct_field_types (f # fs))) (l # ls)"
    using ls(1) assms(2) by (simp add: struct_field_types_def)
  ultimately show ?thesis
    using assms(1,3) ls(2) unfolding field_found_def
    by (auto simp: struct_field_types_def nth_Cons less_Suc_eq_0_disj intro!: exI [of _ "l # ls"])
qed

lemma field_loop_refine:
  assumes "\<And>t. refines c (has_layout c t) (L t)"
  shows "refines c (\<lambda>found. \<exists>i. field_found c name fs offset found i) (layout_field_loop L name fs offset)"
proof (induction fs arbitrary: offset)
  case Nil
  then show ?case
    by (simp add: refines_def)
next
  case (Cons f fs)
  show ?case
  proof (rule refinesI)
    fix d d1 x
    let ?t = "slot_type (struct_field_slot f)"
    assume known: "layouts_known c d" and run: "layout_field_loop L name (f # fs) offset d = Some (d1, x)"
    then obtain d2 y where y: "L ?t d = Some (d2, y)"
      by (auto simp: bind_eq_Some_conv)
    note result = refinesD [OF y assms known]
    show "layouts_known c d1 \<and> (\<forall>found. x = Some found \<longrightarrow> (\<exists>i. field_found c name (f # fs) offset found i))"
    proof (cases y)
      case None
      with run y result show ?thesis
        by simp
    next
      case (Some l)
      with result have l: "layouts_known c d2" "has_layout c ?t l"
        by simp_all
      show ?thesis
      proof (cases "struct_field_name f = name")
        case True
        with run y Some have here: "d1 = d2" "x = Some (align_up offset (snd l), ?t)"
          by (simp_all add: Let_def split: prod.splits)
        have "field_found c name (f # fs) offset (align_up offset (snd l), ?t) 0"
          unfolding field_found_def using True l(2)
          by (auto simp: struct_field_types_def intro!: exI [of _ "[l]"])
        with here l(1) show ?thesis
          by blast
      next
        case False
        with run y Some have "layout_field_loop L name fs (align_up offset (snd l) + fst l) d2 = Some (d1, x)"
          by (simp add: Let_def split: prod.splits)
        from refinesD [OF this Cons.IH l(1)] l(2) False show ?thesis
          by (blast intro: field_found_step)
      qed
    qed
  qed
qed

lemma field_found_place:
  assumes "field_found c name fs 0 found i" "list_all2 (has_layout c) (struct_field_types fs) ls"
  shows "i < length ls \<and> fst found = field_offset ls i \<and> has_layout c (snd found) (ls ! i)"
proof -
  have i: "i < length (struct_field_types fs)"
    using assms(1) by (simp add: field_found_def struct_field_types_def)
  moreover from this have "i < length ls"
    using list_all2_lengthD [OF assms(2)] by simp
  moreover from assms(1) obtain ms where ms:
      "list_all2 (has_layout c) (take (Suc i) (struct_field_types fs)) ms"
      "fst found = align_up (fst (foldl layout_place (0, 1) (take i ms))) (snd (ms ! i))"
    unfolding field_found_def by blast
  have "list_all2 (\<lambda>t l. \<forall>m. has_layout c t m \<longrightarrow> l = m) (take (Suc i) (struct_field_types fs)) ms"
    using ms(1) by (rule list_all2_mono) (blast intro: layout_unique(1))
  then have "ms = take (Suc i) ls"
    using all_layouts_unique list_all2_takeI [OF assms(2)] by blast
  with ms(2) \<open>i < length ls\<close> have "fst found = field_offset ls i"
    by (simp add: field_offset_def layout_all_def)
  ultimately show ?thesis
    using assms list_all2_nthD [OF assms(2) i] by (simp add: field_found_def)
qed

text \<open>The layouts of the fields of a struct fit a \<open>size_t\<close>, with padding for each.\<close>

definition fields_fit :: "semantic_context \<Rightarrow> ast_struct_field list \<Rightarrow> bool" where
  "fields_fit c fs \<longleftrightarrow>
     (\<exists>ls. list_all2 (has_layout c) (struct_field_types fs) ls \<and> field_room ls + 8 < 2 ^ 64)"

definition struct_entry :: "semantic_context \<Rightarrow> nat \<Rightarrow> ast_struct_field list \<Rightarrow> bool" where
  "struct_entry c e fs \<longleftrightarrow> e < length (sc_types c)
     \<and> (\<exists>b. te_declaration (sc_types c ! e) = Some b \<and> decl_body b = Decl_Struct fs)"

lemma struct_field_run:
  assumes "plain c" "layouts_known c d" "struct_entry c e fs"
    and "layout_struct_field n (Some (Collected_Type e)) name d = Some (d1, Some found)"
  shows "layouts_known c d1 \<and> (\<exists>i. field_found c name fs 0 found i)"
proof -
  have "te_declaration (sc_types d ! e) = te_declaration (sc_types c ! e)"
    using skeleton_entry(4) [OF layouts_known_skeleton [OF assms(2)]] assms(3) by (simp add: struct_entry_def)
  with assms(3,4) have "layout_field_loop (layout_type n) name fs 0 d = Some (d1, Some found)"
    by (auto simp: layout_struct_field_def struct_entry_def)
  from refinesD [OF this field_loop_refine [OF layout_type_refines [OF assms(1)]] assms(2)] show ?thesis
    by simp
qed

lemma struct_layout_run:
  assumes "plain c" "layouts_known c d" "struct_entry c e fs"
    and "layout_named_entry n (Some (Collected_Type e)) d = Some (d1, Some l)"
    and "list_all2 (has_layout c) (struct_field_types fs) ls"
  shows "layouts_known c d1 \<and> l = layout_close (layout_all ls)"
proof -
  have run: "layout_named_entry_with (layout_type n) (Collected_Type e) d = Some (d1, Some l)"
    using assms(4) by (simp add: layout_named_entry_def)
  have "e < length (sc_types c)"
    using assms(3) by (simp add: struct_entry_def)
  from refinesD [OF run entry_refine [OF layout_type_refines [OF assms(1)] this] assms(2)] assms(3)
  have "layouts_known c d1" "body_layout c (Decl_Struct fs) l"
    by (auto simp: struct_entry_def)
  with layout_unique(2) lay_struct [OF assms(5)] show ?thesis
    by blast
qed

lemma fields_apart:
  assumes "\<forall>l \<in> set ls. aligned l" "field_room ls + 8 < 2 ^ 64" "i < length ls" "i < j"
  shows "j < length ls \<Longrightarrow> unat (field_offset ls i) + unat (fst (ls ! i)) \<le> unat (field_offset ls j)"
    and "unat (field_offset ls i) + unat (fst (ls ! i)) \<le> unat (fst (layout_close (layout_all ls)))"
proof -
  have ends: "unat (field_offset ls i) + unat (fst (ls ! i)) = unat (fst (layout_all (take (Suc i) ls)))"
    using assms(1-3) by (rule field_places(2))
  show "unat (field_offset ls i) + unat (fst (ls ! i)) \<le> unat (field_offset ls j)" if "j < length ls"
    using ends layout_all_mono [OF assms(1,2), of "Suc i" j] field_places(3) [OF assms(1,2) that] assms(4) by linarith
  show "unat (field_offset ls i) + unat (fst (ls ! i)) \<le> unat (fst (layout_close (layout_all ls)))"
    using ends layout_all_mono [OF assms(1,2), of "Suc i" "length ls"] close_size [OF assms(1,2)] assms(3) by simp
qed


text \<open>A struct of a byte \<open>x\<close> and a word \<open>y\<close>.\<close>

definition example_fields :: "ast_struct_field list" where
  "example_fields =
     [\<lparr>struct_field_name = [0x78], struct_field_slot = \<lparr>slot_span = zero_span, slot_type = Type_Machine Machine_U8\<rparr>\<rparr>,
      \<lparr>struct_field_name = [0x79], struct_field_slot = \<lparr>slot_span = zero_span, slot_type = Type_Integer\<rparr>\<rparr>]"

definition example_struct_context :: semantic_context where
  "example_struct_context = example_context\<lparr>sc_types := [example_entry [0x53] (Decl_Struct example_fields)]\<rparr>"

lemma example_struct_plain: "plain example_struct_context"
  by (simp add: plain_def example_struct_context_def example_context_def example_entry_def)

lemma example_fields_fit: "fields_fit example_struct_context example_fields"
proof -
  have "list_all2 (has_layout example_struct_context) (struct_field_types example_fields) [(1, 1), (8, 8)]"
    by (simp add: struct_field_types_def example_fields_def lay_simple)
  moreover have "field_room [(1, 1), (8, 8)] + 8 < 2 ^ 64"
    by (simp add: field_room_def)
  ultimately show ?thesis
    unfolding fields_fit_def by blast
qed

definition example_struct_known :: semantic_context where
  "example_struct_known = layout_known (Collected_Type 0) (16, 8) (layout_mark (Collected_Type 0) 1 example_struct_context)"

lemma example_struct_runs:
  "layout_named_entry (Suc 0) (Some (Collected_Type 0)) example_struct_context = Some (example_struct_known, Some (16, 8))"
  "layout_struct_field (Suc 0) (Some (Collected_Type 0)) [0x78] example_struct_known =
     Some (example_struct_known, Some (0, Type_Machine Machine_U8))"
  "layout_struct_field (Suc 0) (Some (Collected_Type 0)) [0x79] example_struct_known =
     Some (example_struct_known, Some (8, Type_Integer))"
  by (simp_all add: layout_named_entry_def layout_named_entry_with_def layout_declaration_def layout_struct_field_def
      struct_field_types_def layout_place_def layout_close_def layout_known_def layout_mark_def example_struct_known_def
      example_struct_context_def example_entry_def example_fields_def align_up_def)




section \<open>Tagged storage\<close>

definition enum_entry :: "semantic_context \<Rightarrow> nat \<Rightarrow> ast_enum_constructor list \<Rightarrow> bool" where
  "enum_entry c e ks \<longleftrightarrow> e < length (sc_types c)
     \<and> (\<exists>b. te_declaration (sc_types c ! e) = Some b \<and> decl_body b = Decl_Enum ks)"

lemma list_all2_unique:
  assumes "list_all2 P ts ls" "list_all2 P ts ms" "\<And>t l m. P t l \<Longrightarrow> P t m \<Longrightarrow> l = m"
  shows "ls = ms"
proof -
  have "list_all2 (\<lambda>t l. \<forall>m. P t m \<longrightarrow> l = m) ts ls"
    using assms(1) by (rule list_all2_mono) (blast intro: assms(3))
  then show ?thesis
    using assms(2) by (rule all_layouts_unique)
qed

lemma constructor_layouts_unique:
  "list_all2 (list_all2 (has_layout c)) tss lss \<Longrightarrow> list_all2 (list_all2 (has_layout c)) tss mss \<Longrightarrow> lss = mss"
  by (erule (1) list_all2_unique, erule (1) list_all2_unique, rule layout_unique(1))

lemma tagged_room:
  assumes "snd p \<in> alignments" "unat (fst p) + 24 < 2 ^ 64"
  shows "unat (align_up 8 (snd p)) + unat (fst p) \<le> unat (fst (layout_tagged p))"
proof -
  have eight: "align_up 8 (snd p) = 8"
    using assms(1) by (auto simp: alignments_def align_up_def)
  have "unat (8 + fst p) = 8 + unat (fst p)"
    using assms(2) by (subst unat_add_u64) simp_all
  moreover have "unat (8 + fst p) \<le> unat (align_up (8 + fst p) (if snd p > 8 then snd p else 8))"
    using place_bounds(1) [of "(0, if snd p > 8 then snd p else 8)" "(8 + fst p, 1)"] assms calculation
    by (auto simp: aligned_def)
  ultimately show ?thesis
    by (simp add: layout_tagged_def Let_def eight)
qed

text \<open>
  The projection of an enum into tag and payloads agrees with its canonical layout. It computes the
  largest payload a second time; whenever that and the canonical layout are answered the check between
  the two passes, and the payload behind the eight bytes of the tag ends inside the canonical size.
\<close>

theorem tagged_projection_canonical:
  assumes "plain c" "layouts_known c d" "enum_entry c e ks"
    and "layout_constructors (layout_type n) (map constructor_payload_types ks) (0, 1) d = Some (d1, Some payload)"
    and "layout_named_entry n (Some (Collected_Type e)) d1 = Some (d2, Some whole)"
  shows "layout_tagged_entry_storage n (Some (Collected_Type e)) d =
      Some (d2, Some \<lparr>storage_tag_size = 8, storage_payload_offset = 8,
        storage_payload_size = fst payload, storage_alignment = snd whole\<rparr>)
    \<and> (unat (fst payload) + 24 < 2 ^ 64 \<longrightarrow> 8 + unat (fst payload) \<le> unat (fst whole))"
proof -
  note rules = layout_type_refines [OF assms(1)]
  obtain b where b: "e < length (sc_types c)" "te_declaration (sc_types c ! e) = Some b" "decl_body b = Decl_Enum ks"
    using assms(3) unfolding enum_entry_def by blast
  obtain lss where known: "layouts_known c d1"
    and lss: "list_all2 (list_all2 (has_layout c)) (map constructor_payload_types ks) lss"
      "payload = foldl layout_larger (0, 1) (map (layout_close \<circ> layout_all) lss)"
    using refinesD [OF assms(4) constructors_refine [OF rules] assms(2)] by blast
  have "layout_named_entry_with (layout_type n) (Collected_Type e) d1 = Some (d2, Some whole)"
    using assms(5) by (simp add: layout_named_entry_def)
  from refinesD [OF this entry_refine [OF rules b(1)] known] b have "body_layout c (Decl_Enum ks) whole"
    by simp
  then have "whole = layout_tagged payload"
    by (cases) (use lss constructor_layouts_unique in blast)
  moreover have "snd payload \<in> alignments"
    unfolding lss(2) using constructor_layouts_aligned [OF lss(1)]
    by (intro all_larger_alignment) (auto simp: layout_all_def intro!: close_aligned all_alignment)
  moreover from this have "align_up 8 (snd payload) = 8"
    by (auto simp: alignments_def align_up_def)
  moreover have "te_declaration (sc_types d ! e) = Some b"
    using skeleton_entry(4) [OF layouts_known_skeleton [OF assms(2)] b(1)] b(2) by simp
  ultimately show "layout_tagged_entry_storage n (Some (Collected_Type e)) d =
      Some (d2, Some \<lparr>storage_tag_size = 8, storage_payload_offset = 8,
        storage_payload_size = fst payload, storage_alignment = snd whole\<rparr>)
    \<and> (unat (fst payload) + 24 < 2 ^ 64 \<longrightarrow> 8 + unat (fst payload) \<le> unat (fst whole))"
    using assms(4,5) b(3) tagged_room [of payload]
    by (simp_all add: layout_tagged_entry_storage_def layout_check_storage_def)
qed

text \<open>An enum with a constructor without payload and one with a byte and a word.\<close>

definition example_constructors :: "ast_enum_constructor list" where
  "example_constructors =
     [\<lparr>constructor_name = [0x4E], constructor_payload_slots = []\<rparr>,
      \<lparr>constructor_name = [0x42], constructor_payload_slots =
        [\<lparr>slot_span = zero_span, slot_type = Type_Machine Machine_U8\<rparr>,
         \<lparr>slot_span = zero_span, slot_type = Type_Integer\<rparr>]\<rparr>]"

definition example_enum_context :: semantic_context where
  "example_enum_context = example_context\<lparr>sc_types := [example_entry [0x45] (Decl_Enum example_constructors)]\<rparr>"

definition example_enum_known :: semantic_context where
  "example_enum_known = layout_known (Collected_Type 0) (24, 8) (layout_mark (Collected_Type 0) 1 example_enum_context)"

lemma example_enum_runs:
  "layout_constructors (layout_type (Suc 0)) (map constructor_payload_types example_constructors) (0, 1) example_enum_context =
     Some (example_enum_context, Some (16, 8))"
  "layout_named_entry (Suc 0) (Some (Collected_Type 0)) example_enum_context = Some (example_enum_known, Some (24, 8))"
  by (simp_all add: layout_named_entry_def layout_named_entry_with_def layout_declaration_def constructor_payload_types_def
      layout_place_def layout_close_def layout_larger_def layout_tagged_def layout_known_def layout_mark_def
      example_enum_known_def example_enum_context_def example_entry_def example_constructors_def align_up_def)

theorem tagged_projection_canonical_witness:
  "layout_tagged_entry_storage (Suc 0) (Some (Collected_Type 0)) example_enum_context =
    Some (example_enum_known, Some \<lparr>storage_tag_size = 8, storage_payload_offset = 8,
      storage_payload_size = 16, storage_alignment = 8\<rparr>)"
proof -
  have plain: "plain example_enum_context"
    by (simp add: plain_def example_enum_context_def example_context_def example_entry_def)
  have known: "layouts_known example_enum_context example_enum_context"
    by (simp add: layouts_known_def example_enum_context_def example_context_def example_entry_def)
  have entry: "enum_entry example_enum_context 0 example_constructors"
    by (simp add: enum_entry_def example_enum_context_def example_entry_def)
  from tagged_projection_canonical [OF plain known entry example_enum_runs]
  show ?thesis
    by simp
qed

end
