(* ===== verification/Resolution.thy ===== *)
theory Resolution
  imports Layout_Laws
begin

text \<open>
  Resolution in programs without generic types: what a type resolves to does not depend on the layouts
  and diagnostics recorded so far, and is reached with fuel linear in the declarations when the aliases
  do not form a cycle.
\<close>

section \<open>Resolution does not depend on layouts and diagnostics\<close>

lemma resolve_skeleton:
  assumes "plain c" "skeleton d = skeleton c"
  shows "type_resolve_with test n t c = Some (c1, x) \<Longrightarrow>
    \<exists>d1. type_resolve_with test n t d = Some (d1, x) \<and> skeleton d1 = skeleton c \<and> sc_types d1 = sc_types d"
proof (induction n arbitrary: t)
  case (Suc n)
  show ?case
  proof (cases "type_builtin_id_from_ast (type_unwrap_mutable t)")
    case (Some b)
    with Suc.prems assms(2) show ?thesis
      by (auto simp: Let_def)
  next
    case None
    note not_builtin = None
    show ?thesis
    proof (cases "\<exists>k name args. type_unwrap_mutable t = Type_Named k name args")
      case False
      with Suc.prems None assms(2) show ?thesis
        by (auto simp: Let_def split: ast_type.splits)
    next
      case True
      then obtain k name args where base: "type_unwrap_mutable t = Type_Named k name args"
        by blast
      have plain: "plain d"
        using skeleton_plain [OF assms(2)] assms(1) by blast
      obtain e where e: "\<forall>test n. semantic_resolve_named_entry test n (type_unwrap_mutable t) c =
          Some (case named_index c (type_unwrap_mutable t) of None \<Rightarrow> (e, None) | Some i \<Rightarrow> (c, Some (Collected_Type i)))"
          "skeleton e = skeleton c" "sc_types e = sc_types c"
        using plain_named_run [OF assms(1) base] by blast
      obtain e' where e': "\<forall>test n. semantic_resolve_named_entry test n (type_unwrap_mutable t) d =
          Some (case named_index d (type_unwrap_mutable t) of None \<Rightarrow> (e', None) | Some i \<Rightarrow> (d, Some (Collected_Type i)))"
          "skeleton e' = skeleton d" "sc_types e' = sc_types d"
        using plain_named_run [OF plain base] by blast
      show ?thesis
      proof (cases "named_index c (type_unwrap_mutable t)")
        case None
        with Suc.prems not_builtin e e' base assms(2) show ?thesis
          by (auto simp: Let_def skeleton_named_index [OF assms(2)])
      next
        case (Some i)
        have decl: "te_declaration (sc_types d ! i) = te_declaration (sc_types c ! i)"
          using assms(2) named_index_less [OF Some] by (rule skeleton_entry(4))
        show ?thesis
          using Suc.prems not_builtin e(1) e'(1) base Some decl assms(2) Suc.IH
          by (auto simp: Let_def skeleton_named_index [OF assms(2)] split: option.splits ast_type_decl_body.splits)
      qed
    qed
  qed
qed simp

lemma alias_step_named:
  "alias_step c t = Option.bind (named_index c (type_unwrap_mutable t)) (\<lambda>i. alias_target_of (sc_types c ! i))"
  by (auto simp: alias_step_def named_index_def split: ast_type.splits list.splits prod.splits
      name_lookup_status.splits option.splits)

definition acyclic_aliases :: "semantic_context \<Rightarrow> bool" where
  "acyclic_aliases c \<longleftrightarrow> (\<forall>t. \<exists>r. chain_ends (alias_step c) t r)"

definition resolution_fuel :: "semantic_context \<Rightarrow> nat" where
  "resolution_fuel c = length (sc_types c) + 1"

definition resolved_value :: "semantic_context \<Rightarrow> ast_type \<Rightarrow> resolved_type option" where
  "resolved_value c t = Option.bind (type_resolve (resolution_fuel c) t c) snd"

lemma resolve_enough:
  assumes "plain c" "acyclic_aliases c" "skeleton d = skeleton c" "resolution_fuel c \<le> n"
  shows "\<exists>d1. type_resolve n t d = Some (d1, resolved_value c t) \<and> skeleton d1 = skeleton c \<and> sc_types d1 = sc_types d"
proof -
  obtain r where "chain_ends (alias_step c) t r"
    using assms(2) unfolding acyclic_aliases_def by blast
  then have N: "chain_loop (alias_step c) (resolution_fuel c) t = Some r" and stop: "alias_step c r = None"
    using alias_chain.loop_decides [of c t r] chain_ends_stop [of "alias_step c" t r]
    by (simp_all add: alias_targets_def resolution_fuel_def)
  then have n: "chain_loop (alias_step c) n t = Some r"
    using assms(4) by (auto simp: chain_loop_path intro: order_less_le_trans)
  obtain c1 x where x: "resolved_end c r = Some (c1, x)"
    using resolved_end_answers [OF assms(1) stop] by (metis not_None_eq surj_pair)
  then have "resolved_value c t = x"
    by (simp add: resolved_value_def type_resolve_chain [OF assms(1)] N)
  moreover have "type_resolve n t c = Some (c1, x)"
    by (simp add: type_resolve_chain [OF assms(1)] n x)
  ultimately show ?thesis
    using resolve_skeleton [OF assms(1,3)] unfolding type_resolve_def by blast
qed

text \<open>In a program without generic types a resolved type names a collected declaration.\<close>

definition names_collected :: "semantic_context \<Rightarrow> resolved_type \<Rightarrow> bool" where
  "names_collected c r \<longleftrightarrow> (\<forall>e. rt_named r = Some e \<longrightarrow> (\<exists>i < length (sc_types c). e = Collected_Type i))"

lemma resolve_collected:
  assumes "plain c"
  shows "type_resolve_with test n t c = Some (c1, Some r) \<Longrightarrow> names_collected c r"
proof (induction n arbitrary: t)
  case (Suc n)
  show ?case
  proof (cases "type_builtin_id_from_ast (type_unwrap_mutable t) = None
      \<and> (\<exists>k name args. type_unwrap_mutable t = Type_Named k name args)")
    case False
    with Suc.prems show ?thesis
      by (auto simp: Let_def names_collected_def resolved_compound_def split: option.splits ast_type.splits)
  next
    case True
    then obtain k name args where base: "type_unwrap_mutable t = Type_Named k name args"
      by blast
    obtain e where "\<forall>test n. semantic_resolve_named_entry test n (type_unwrap_mutable t) c =
        Some (case named_index c (type_unwrap_mutable t) of None \<Rightarrow> (e, None) | Some i \<Rightarrow> (c, Some (Collected_Type i)))"
      using plain_named_run [OF assms base] by blast
    with Suc.prems True base show ?thesis
      using Suc.IH named_index_less [of c "type_unwrap_mutable t"]
      by (auto simp: Let_def names_collected_def split: option.splits ast_type_decl_body.splits)
  qed
qed simp

end
