(* ===== verification/Ownership.thy ===== *)
theory Ownership
  imports Resolution
begin

text \<open>
  The classification of types by ownership (\<open>src/kernel/memory/memory.c\<close>): a type is owned when a value
  of it holds something to release, and contains a view when it holds a reference. Both walk through
  the parts of a type to a depth of 64 and answer yes below it.
\<close>

section \<open>The classification\<close>

text \<open>The types of the fields or payloads of a resolved struct or enum.\<close>

definition declared_part_types :: "semantic_context \<Rightarrow> resolved_type \<Rightarrow> ast_type list" where
  "declared_part_types c r =
     (case Option.bind (rt_named r) (\<lambda>e. te_declaration (type_entry_at c e)) of
        None \<Rightarrow> []
      | Some d \<Rightarrow>
          (case (rt_kind r, decl_body d) of
             (RT_Struct, Decl_Struct fs) \<Rightarrow> struct_field_types fs
           | (RT_Enum, Decl_Enum ks) \<Rightarrow> concat (map constructor_payload_types ks)
           | _ \<Rightarrow> []))"

primrec memory_any :: "(ast_type \<Rightarrow> bool run) \<Rightarrow> ast_type list \<Rightarrow> bool run" where
  "memory_any test [] c = Some (c, False)"
| "memory_any test (t # ts) c =
     do {
       (c1, b) \<leftarrow> test t c;
       if b then Some (c1, True) else memory_any test ts c1
     }"

text \<open>
  The walk both classifications make, with the levels left: \<open>direct\<close> tells the types that decide at
  once and \<open>decides\<close> the kinds behind aliases that do.
\<close>

primrec memory_walk ::
    "(ast_type \<Rightarrow> bool) \<Rightarrow> (resolved_type_kind \<Rightarrow> bool) \<Rightarrow> nat \<Rightarrow> nat \<Rightarrow> ast_type \<Rightarrow> bool run" where
  "memory_walk direct decides n 0 t c = Some (c, True)"
| "memory_walk direct decides n (Suc levels) t c =
     (let base = type_unwrap_mutable t
      in if direct base then Some (c, True)
         else (case base of
                 Type_Option i \<Rightarrow> memory_walk direct decides n levels i c
               | Type_Result ok er \<Rightarrow> memory_any (memory_walk direct decides n levels) [ok, er] c
               | Type_Named _ _ _ \<Rightarrow>
                   do {
                     (c1, x) \<leftarrow> type_resolve n base c;
                     case x of
                       None \<Rightarrow> Some (c1, False)
                     | Some r \<Rightarrow>
                         if decides (rt_kind r) then Some (c1, True)
                         else memory_any (memory_walk direct decides n levels) (declared_part_types c1 r) c1
                   }
               | _ \<Rightarrow> Some (c, False)))"

definition memory_depth_limit :: nat where
  "memory_depth_limit = 64"

definition memory_owner :: "ast_type \<Rightarrow> bool" where
  "memory_owner t \<longleftrightarrow> (case t of Type_Box _ \<Rightarrow> True | Type_Vector _ \<Rightarrow> True | Type_String \<Rightarrow> True | _ \<Rightarrow> False)"

definition memory_owner_kind :: "resolved_type_kind \<Rightarrow> bool" where
  "memory_owner_kind k \<longleftrightarrow> k \<in> {RT_String, RT_Box, RT_Vector}"

definition memory_reference :: "ast_type \<Rightarrow> bool" where
  "memory_reference t \<longleftrightarrow> (case t of Type_Reference _ \<Rightarrow> True | _ \<Rightarrow> False)"

definition memory_type_is_owned :: "nat \<Rightarrow> ast_type \<Rightarrow> bool run" where
  "memory_type_is_owned n = memory_walk memory_owner memory_owner_kind n (memory_depth_limit + 1)"

definition memory_type_is_view :: "ast_type \<Rightarrow> bool" where
  "memory_type_is_view t \<longleftrightarrow> memory_reference (type_unwrap_mutable t)"

definition memory_type_contains_view :: "nat \<Rightarrow> ast_type \<Rightarrow> bool run" where
  "memory_type_contains_view n = memory_walk memory_reference ((=) RT_Reference) n (memory_depth_limit + 1)"

text \<open>The constants of the growth policy (the policy itself is in the theory of containers).\<close>

record memory_growth_policy =
  policy_minimum_capacity :: size_t
  policy_growth_factor :: size_t

definition memory_vector_growth_policy_view :: memory_growth_policy where
  "memory_vector_growth_policy_view =
     \<lparr>policy_minimum_capacity = memory_vector_minimum_capacity, policy_growth_factor = 2\<rparr>"

section \<open>Parts of a type\<close>

inductive type_part :: "semantic_context \<Rightarrow> ast_type \<Rightarrow> ast_type \<Rightarrow> bool" for c where
  part_option: "type_unwrap_mutable t = Type_Option i \<Longrightarrow> type_part c t i"
| part_ok: "type_unwrap_mutable t = Type_Result ok er \<Longrightarrow> type_part c t ok"
| part_error: "type_unwrap_mutable t = Type_Result ok er \<Longrightarrow> type_part c t er"
| part_declared: "type_unwrap_mutable t = Type_Named k name args \<Longrightarrow>
    resolved_value c (Type_Named k name args) = Some r \<Longrightarrow> u \<in> set (declared_part_types c r) \<Longrightarrow> type_part c t u"

inductive_simps type_part_iff: "type_part c t u"

text \<open>A type that decides at once, itself or behind aliases.\<close>

definition decides_here ::
    "(ast_type \<Rightarrow> bool) \<Rightarrow> (resolved_type_kind \<Rightarrow> bool) \<Rightarrow> semantic_context \<Rightarrow> ast_type \<Rightarrow> bool" where
  "decides_here direct decides c t \<longleftrightarrow> direct (type_unwrap_mutable t)
     \<or> (\<exists>k name args r. type_unwrap_mutable t = Type_Named k name args
          \<and> resolved_value c (Type_Named k name args) = Some r \<and> decides (rt_kind r))"

primrec decided_within ::
    "(ast_type \<Rightarrow> bool) \<Rightarrow> (resolved_type_kind \<Rightarrow> bool) \<Rightarrow> semantic_context \<Rightarrow> nat \<Rightarrow> ast_type \<Rightarrow> bool" where
  "decided_within direct decides c 0 t = True"
| "decided_within direct decides c (Suc levels) t =
     (decides_here direct decides c t \<or> (\<exists>u. type_part c t u \<and> decided_within direct decides c levels u))"

text \<open>The tests are about types without parts.\<close>

definition leaf_tests :: "(ast_type \<Rightarrow> bool) \<Rightarrow> (resolved_type_kind \<Rightarrow> bool) \<Rightarrow> bool" where
  "leaf_tests direct decides \<longleftrightarrow>
     (\<forall>t. direct t \<longrightarrow> (\<forall>i ok er k name args. t \<noteq> Type_Option i \<and> t \<noteq> Type_Result ok er \<and> t \<noteq> Type_Named k name args))
     \<and> \<not> decides RT_Struct \<and> \<not> decides RT_Enum"

lemma decided_within_path:
  "decided_within direct decides c levels t \<longleftrightarrow>
     (\<exists>k < levels. \<exists>u. (type_part c ^^ k) t u \<and> decides_here direct decides c u) \<or> (\<exists>u. (type_part c ^^ levels) t u)"
proof (induction levels arbitrary: t)
  case (Suc levels)
  have "(\<exists>k < Suc levels. \<exists>u. (type_part c ^^ k) t u \<and> decides_here direct decides c u) \<longleftrightarrow>
      decides_here direct decides c t
      \<or> (\<exists>v. type_part c t v \<and> (\<exists>k < levels. \<exists>u. (type_part c ^^ k) v u \<and> decides_here direct decides c u))"
    by (subst Ex_less_Suc2) (auto simp only: relpowp.simps(1) relpowp_Suc_left relcompp_apply simp_thms)
  moreover have "(\<exists>u. (type_part c ^^ Suc levels) t u) \<longleftrightarrow> (\<exists>v. type_part c t v \<and> (\<exists>u. (type_part c ^^ levels) v u))"
    by (auto simp only: relpowp_Suc_left relcompp_apply)
  ultimately show ?case
    unfolding decided_within.simps Suc.IH by blast
qed simp

lemma declared_parts_skeleton:
  assumes "plain c" "skeleton d = skeleton c" "resolved_value c t = Some r"
  shows "declared_part_types d r = declared_part_types c r"
proof -
  have "names_collected c r"
    using assms(1,3) resolve_collected unfolding resolved_value_def type_resolve_def
    by (auto simp: bind_eq_Some_conv)
  then have "Option.bind (rt_named r) (\<lambda>e. te_declaration (type_entry_at d e)) =
      Option.bind (rt_named r) (\<lambda>e. te_declaration (type_entry_at c e))"
    using skeleton_entry(4) [OF assms(2)] by (cases "rt_named r") (auto simp: names_collected_def)
  then show ?thesis
    by (simp only: declared_part_types_def)
qed

section \<open>The walk decides\<close>

lemma memory_any_exact:
  assumes "\<And>t d. t \<in> set ts \<Longrightarrow> skeleton d = skeleton c \<Longrightarrow> 
      \<exists>d1. test t d = Some (d1, P t) \<and> skeleton d1 = skeleton c \<and> sc_types d1 = sc_types d"
  shows "skeleton d = skeleton c \<Longrightarrow> \<exists>d1. memory_any test ts d = Some (d1, \<exists>t \<in> set ts. P t)
    \<and> skeleton d1 = skeleton c \<and> sc_types d1 = sc_types d"
  using assms
proof (induction ts arbitrary: d)
  case (Cons t ts)
  obtain d1 where d1: "test t d = Some (d1, P t)" "skeleton d1 = skeleton c" "sc_types d1 = sc_types d"
    using Cons.prems by force
  show ?case
  proof (cases "P t")
    case True
    with d1 show ?thesis
      by simp
  next
    case False
    from Cons.IH [OF d1(2)] Cons.prems(2) obtain d2 where
      "memory_any test ts d1 = Some (d2, \<exists>t \<in> set ts. P t)" "skeleton d2 = skeleton c" "sc_types d2 = sc_types d1"
      by auto
    with False d1 show ?thesis
      by simp
  qed
qed simp

lemma memory_walk_exact:
  assumes "plain c" "acyclic_aliases c" "resolution_fuel c \<le> n" "leaf_tests direct decides"
  shows "skeleton d = skeleton c \<Longrightarrow>
    \<exists>d1. memory_walk direct decides n levels t d = Some (d1, decided_within direct decides c levels t)
      \<and> skeleton d1 = skeleton c \<and> sc_types d1 = sc_types d"
proof (induction levels arbitrary: t d)
  case (Suc levels)
  let ?t = "type_unwrap_mutable t" and ?within = "decided_within direct decides c levels"
  have any: "\<exists>d1. memory_any (memory_walk direct decides n levels) ts d = Some (d1, \<exists>t \<in> set ts. ?within t)
      \<and> skeleton d1 = skeleton c \<and> sc_types d1 = sc_types d" if "skeleton d = skeleton c" for ts d
    using that by (intro memory_any_exact Suc.IH)
  show ?case
  proof (cases "direct ?t")
    case True
    with Suc.prems show ?thesis
      by (simp add: decides_here_def)
  next
    case False
    show ?thesis
    proof (cases ?t)
      case (Type_Option i)
      with False Suc.IH [OF Suc.prems, of i] show ?thesis
        by (simp add: decides_here_def type_part_iff)
    next
      case (Type_Result ok er)
      with False any [OF Suc.prems, of "[ok, er]"] show ?thesis
        by (simp add: decides_here_def type_part_iff conj_disj_distribR ex_disj_distrib del: memory_any.simps)
    next
      case (Type_Named k name args)
      obtain d1 where d1: "type_resolve n (Type_Named k name args) d = Some (d1, resolved_value c (Type_Named k name args))"
          "skeleton d1 = skeleton c" "sc_types d1 = sc_types d"
        using resolve_enough [OF assms(1,2) Suc.prems assms(3)] by blast
      show ?thesis
      proof (cases "resolved_value c (Type_Named k name args)")
        case None
        with False Type_Named d1 show ?thesis
          by (simp add: decides_here_def type_part_iff)
      next
        case (Some r)
        note parts = declared_parts_skeleton [OF assms(1) d1(2) Some]
        from any [OF d1(2), of "declared_part_types c r"] obtain d2 where
          "memory_any (memory_walk direct decides n levels) (declared_part_types c r) d1 =
             Some (d2, \<exists>u \<in> set (declared_part_types c r). ?within u)" "skeleton d2 = skeleton c" "sc_types d2 = sc_types d1"
          by blast
        with False Type_Named d1 Some show ?thesis
          by (auto simp: decides_here_def type_part_iff parts)
      qed
    qed (use False Suc.prems in \<open>simp_all add: decides_here_def type_part_iff\<close>)
  qed
qed simp

lemma owner_tests: "leaf_tests memory_owner memory_owner_kind" "leaf_tests memory_reference ((=) RT_Reference)"
  by (auto simp: leaf_tests_def memory_owner_def memory_owner_kind_def memory_reference_def split: ast_type.splits)

text \<open>The values of \<open>t\<close> have, some levels down, a part that decides.\<close>

definition has_part_that :: "semantic_context \<Rightarrow> (ast_type \<Rightarrow> bool) \<Rightarrow> ast_type \<Rightarrow> bool" where
  "has_part_that c P t \<longleftrightarrow> (\<exists>u. (type_part c)\<^sup>*\<^sup>* t u \<and> P u)"

definition nested_deep :: "semantic_context \<Rightarrow> nat \<Rightarrow> ast_type \<Rightarrow> bool" where
  "nested_deep c k t \<longleftrightarrow> (\<exists>u. (type_part c ^^ k) t u)"

lemma has_part_bounded:
  assumes "\<not> nested_deep c k t"
  shows "has_part_that c P t \<longleftrightarrow> (\<exists>j < k. \<exists>u. (type_part c ^^ j) t u \<and> P u)"
proof
  assume "has_part_that c P t"
  then obtain j u where u: "(type_part c ^^ j) t u" "P u"
    unfolding has_part_that_def by (metis rtranclp_imp_relpowp)
  have "j < k"
  proof (rule ccontr)
    assume "\<not> j < k"
    then have "(type_part c ^^ (k + (j - k))) t u"
      using u(1) by simp
    then show False
      using assms unfolding nested_deep_def relpowp_add by blast
  qed
  with u show "\<exists>j < k. \<exists>u. (type_part c ^^ j) t u \<and> P u"
    by blast
next
  show "\<exists>j < k. \<exists>u. (type_part c ^^ j) t u \<and> P u \<Longrightarrow> has_part_that c P t"
    unfolding has_part_that_def by (meson relpowp_imp_rtranclp)
qed

lemma decided_within_exact:
  "decided_within direct decides c k t \<longleftrightarrow> nested_deep c k t \<or> has_part_that c (decides_here direct decides c) t"
proof (cases "nested_deep c k t")
  case True
  then show ?thesis
    by (simp add: decided_within_path nested_deep_def)
next
  case False
  from has_part_bounded [OF this] False show ?thesis
    by (simp add: decided_within_path nested_deep_def)
qed


text \<open>A struct of a number and a string, and an alias of an option of a string.\<close>

definition example_owners :: semantic_context where
  "example_owners = example_context\<lparr>sc_types :=
     [example_entry [0x50] (Decl_Struct
        [\<lparr>struct_field_name = [0x78], struct_field_slot = \<lparr>slot_span = zero_span, slot_type = Type_Integer\<rparr>\<rparr>,
         \<lparr>struct_field_name = [0x79], struct_field_slot = \<lparr>slot_span = zero_span, slot_type = Type_String\<rparr>\<rparr>]),
      example_entry [0x41] (Decl_Alias (Type_Option Type_String))],
    sc_unit_name_ranges := [\<lparr>range_unit = Some 0, range_type_begin = 0, range_type_end = 2,
      range_function_begin = 0, range_function_end = 0, range_global_begin = 0, range_global_end = 0\<rparr>]\<rparr>"

lemma example_owners_plain: "plain example_owners"
  by (simp add: plain_def example_owners_def example_entry_def)

lemma example_owners_acyclic: "acyclic_aliases example_owners"
proof -
  have "alias_step example_owners t = Some a \<Longrightarrow> a = Type_Option Type_String" for t a
    using alias_step_index [of example_owners t a]
    by (auto simp: example_owners_def alias_target_of_def example_entry_def less_Suc_eq)
  moreover have "alias_step example_owners (Type_Option Type_String) = None"
    by (simp add: alias_step_def)
  ultimately have "\<exists>r. chain_ends (alias_step example_owners) t r" for t
    by (cases "alias_step example_owners t") (metis chain_stop, metis chain_next chain_stop)
  then show ?thesis
    by (simp add: acyclic_aliases_def)
qed


lemma example_owners_named:
  "semantic_resolve_named_entry test n (Type_Named 4 [0x50] []) example_owners = Some (example_owners, Some (Collected_Type 0))"
  "semantic_resolve_named_entry test n (Type_Named 6 [0x41] []) example_owners = Some (example_owners, Some (Collected_Type 1))"
proof -
  have "name_resolve_type example_owners (using_unit example_owners (Type_Named 4 [0x50] [])) [0x50] = (Lookup_Found, Some 0)"
    "name_resolve_type example_owners (using_unit example_owners (Type_Named 6 [0x41] [])) [0x41] = (Lookup_Found, Some 1)"
    by code_simp+
  then show "semantic_resolve_named_entry test n (Type_Named 4 [0x50] []) example_owners = Some (example_owners, Some (Collected_Type 0))"
    "semantic_resolve_named_entry test n (Type_Named 6 [0x41] []) example_owners = Some (example_owners, Some (Collected_Type 1))"
    by (simp_all add: plain_named_entry [OF example_owners_plain])
qed


text \<open>
  An alias of an option of an owned type is not owned. The walk looks through an alias only at the
  kinds string, box and vector, at structs and at enums, so the string in an option behind an alias is
  missed, although the option written out is owned.
\<close>

theorem alias_of_option_not_owned:
  "memory_type_is_owned 3 (Type_Named 6 [0x41] []) example_owners = Some (example_owners, False)
   \<and> memory_type_is_owned 3 (Type_Option Type_String) example_owners = Some (example_owners, True)
   \<and> alias_step example_owners (Type_Named 6 [0x41] []) = Some (Type_Option Type_String)"
proof (intro conjI)
  have "type_resolve 3 (Type_Named 6 [0x41] []) example_owners =
      Some (example_owners, Some ((resolved_start (Type_Option Type_String))\<lparr>rt_kind := RT_Option, rt_inner := Some Type_String\<rparr>))"
    by (simp add: type_resolve_def numeral_3_eq_3 example_owners_named Let_def resolved_compound_def del: type_compatible.simps)
      (simp add: example_owners_def example_entry_def Let_def resolved_compound_def)
  then show "memory_type_is_owned 3 (Type_Named 6 [0x41] []) example_owners = Some (example_owners, False)"
    by (simp add: memory_type_is_owned_def memory_owner_def memory_owner_kind_def declared_part_types_def)
  show "memory_type_is_owned 3 (Type_Option Type_String) example_owners = Some (example_owners, True)"
    by (simp add: memory_type_is_owned_def memory_depth_limit_def eval_nat_numeral memory_owner_def)
  show "alias_step example_owners (Type_Named 6 [0x41] []) = Some (Type_Option Type_String)"
    by code_simp
qed

end
