(* ===== verification/Pattern.thy ===== *)
theory Pattern
  imports Layout Names
begin

text \<open>
  The pattern kernel (\<open>src/kernel/pattern/pattern.c\<close>): one walk over a pattern and the type of the
  matched value collects the bindings, decides whether the pattern matches every value, and which
  constructor it covers. A failure is an error with a span, and leaves the bindings made so far.
\<close>

section \<open>Analysis of patterns\<close>

record pattern_binding =
  binding_name :: text_slice
  binding_type :: ast_type
  binding_span :: source_span

record pattern_error =
  pattern_error_id :: error_id
  pattern_error_span :: source_span

record pattern_node_info =
  info_irrefutable :: bool
  info_has_constructor :: bool
  info_constructor_index :: nat
  info_fully_covered :: bool

record pattern_analysis =
  analysis_bindings :: "pattern_binding list"
  analysis_irrefutable :: bool
  analysis_has_top_constructor :: bool
  analysis_top_index :: nat
  analysis_top_fully_covered :: bool

definition pattern_analysis_init :: pattern_analysis where
  "pattern_analysis_init =
     \<lparr>analysis_bindings = [], analysis_irrefutable = False, analysis_has_top_constructor = False,
      analysis_top_index = 0, analysis_top_fully_covered = False\<rparr>"

definition pattern_info_start :: pattern_node_info where
  "pattern_info_start =
     \<lparr>info_irrefutable = False, info_has_constructor = False, info_constructor_index = 0,
      info_fully_covered = False\<rparr>"

type_synonym 'a pattern_run =
  "pattern_binding list \<Rightarrow> semantic_context \<Rightarrow> (semantic_context \<times> pattern_binding list \<times> (pattern_error + 'a)) option"

definition pattern_fail :: "error_id \<Rightarrow> source_span \<Rightarrow> 'a pattern_run" where
  "pattern_fail e sp bs c = Some (c, bs, Inl \<lparr>pattern_error_id = e, pattern_error_span = sp\<rparr>)"

definition pattern_add_binding :: "text_slice \<Rightarrow> ast_type \<Rightarrow> source_span \<Rightarrow> unit pattern_run" where
  "pattern_add_binding name t sp bs c =
     (if list_ex (\<lambda>b. text_slice_equals (binding_name b) name) bs
      then pattern_fail E0205_Duplicate_Declaration sp bs c
      else (case semantic_allocates c of
              (ok, c1) \<Rightarrow>
                if ok
                then Some (c1, bs @ [\<lparr>binding_name = name, binding_type = t, binding_span = sp\<rparr>], Inr ())
                else pattern_fail E1100_Internal_Context_Error sp bs c1))"

text \<open>The declaration an entry was made from; two entries are compared by its identity.\<close>

definition pattern_template :: "semantic_type_entry \<Rightarrow> node option" where
  "pattern_template e =
     map_option decl_node (case te_template_declaration e of None \<Rightarrow> te_declaration e | Some d \<Rightarrow> Some d)"

text \<open>
  The constructor an enum pattern names: its index, its payload types, and the number of constructors
  of the type.
\<close>

definition pattern_constructor ::
    "semantic_context \<Rightarrow> ast_type \<Rightarrow> resolved_type \<Rightarrow> text_slice \<Rightarrow> text_slice \<Rightarrow> (nat \<times> ast_type list \<times> nat) option" where
  "pattern_constructor c base r type_name constructor =
     (if type_is_builtin_tagged base then
        (if type_tagged_name_matches base type_name
         then map_option
                (\<lambda>k. (tagged_tag k, case tagged_payload_type k of None \<Rightarrow> [] | Some t \<Rightarrow> [t],
                      type_tagged_constructor_count base))
                (type_tagged_find_constructor base constructor)
         else None)
      else if rt_kind r \<noteq> RT_Enum then None
      else (case rt_named r of
              None \<Rightarrow> None
            | Some e \<Rightarrow>
                (case name_find_type c type_name of
                   None \<Rightarrow> None
                 | Some p \<Rightarrow>
                     if pattern_template (sc_types c ! p) \<noteq> pattern_template (type_entry_at c e) then None
                     else (case (name_find_enum_constructor c (Some (type_entry_at c e)) constructor,
                                 map_option decl_body (te_declaration (type_entry_at c e))) of
                             (Some (i, k), Some (Decl_Enum ks)) \<Rightarrow> Some (i, constructor_payload_types k, length ks)
                           | _ \<Rightarrow> None))))"

text \<open>
  The loop over the fields of a struct pattern, with the names before it; each field comes with the
  analysis of its pattern.
\<close>

primrec pattern_fields ::
    "nat \<Rightarrow> type_ref option \<Rightarrow> source_span \<Rightarrow> text_slice list \<Rightarrow> bool \<Rightarrow>
     (text_slice \<times> (ast_type \<Rightarrow> pattern_node_info pattern_run)) list \<Rightarrow> bool pattern_run" where
  "pattern_fields n e sp prior all [] bs c = Some (c, bs, Inr all)"
| "pattern_fields n e sp prior all (f # fs) bs c =
     (if list_ex (\<lambda>name. text_slice_equals name (fst f)) prior
      then pattern_fail E0502_Unknown_Record_Member sp bs c
      else do {
        (c1, x) \<leftarrow> layout_struct_field n e (fst f) c;
        case x of
          None \<Rightarrow> pattern_fail E0502_Unknown_Record_Member sp bs c1
        | Some (offset, t) \<Rightarrow>
            do {
              (c2, bs2, child) \<leftarrow> snd f t bs c1;
              case child of
                Inl err \<Rightarrow> Some (c2, bs2, Inl err)
              | Inr info \<Rightarrow>
                  pattern_fields n e sp (prior @ [fst f]) (all \<and> info_irrefutable info) fs bs2 c2
            }
      })"

text \<open>The payloads of a constructor with their types.\<close>

primrec pattern_payloads ::
    "bool \<Rightarrow> (ast_type \<times> (ast_type \<Rightarrow> pattern_node_info pattern_run)) list \<Rightarrow> bool pattern_run" where
  "pattern_payloads all [] bs c = Some (c, bs, Inr all)"
| "pattern_payloads all (p # ps) bs c =
     do {
       (c1, bs1, child) \<leftarrow> snd p (fst p) bs c;
       case child of
         Inl err \<Rightarrow> Some (c1, bs1, Inl err)
       | Inr info \<Rightarrow> pattern_payloads (all \<and> info_irrefutable info) ps bs1 c1
     }"

text \<open>What a node starts with: the type of the value must resolve.\<close>

definition pattern_resolved ::
    "nat \<Rightarrow> ast_type \<Rightarrow> source_span \<Rightarrow> (resolved_type \<Rightarrow> 'a pattern_run) \<Rightarrow> 'a pattern_run" where
  "pattern_resolved n t sp go bs c =
     do {
       (c1, x) \<leftarrow> type_resolve n t c;
       case x of
         None \<Rightarrow> pattern_fail E0409_Unresolved_Type sp bs c1
       | Some r \<Rightarrow> go r bs c1
     }"

primrec pattern_analyze_node :: "nat \<Rightarrow> ast_pattern \<Rightarrow> ast_type \<Rightarrow> pattern_node_info pattern_run" where
  "pattern_analyze_node n (Pattern_Wildcard sp) t =
     pattern_resolved n t sp (\<lambda>r bs c. Some (c, bs, Inr (pattern_info_start\<lparr>info_irrefutable := True\<rparr>)))"
| "pattern_analyze_node n (Pattern_Binding sp name) t =
     pattern_resolved n t sp (\<lambda>r bs c.
       do {
         (c1, bs1, x) \<leftarrow> pattern_add_binding name t sp bs c;
         Some (c1, bs1, case x of Inl err \<Rightarrow> Inl err
                                | Inr _ \<Rightarrow> Inr (pattern_info_start\<lparr>info_irrefutable := True\<rparr>))
       })"
| "pattern_analyze_node n (Pattern_Struct sp fs) t =
     pattern_resolved n t sp (\<lambda>r bs c.
       if rt_kind r \<noteq> RT_Struct \<or> rt_named r = None then pattern_fail E0400_Mismatched_Types sp bs c
       else do {
         (c1, bs1, x) \<leftarrow>
           pattern_fields n (rt_named r) sp [] True (map (map_prod id (pattern_analyze_node n)) fs) bs c;
         Some (c1, bs1, case x of Inl err \<Rightarrow> Inl err
                                | Inr all \<Rightarrow> Inr (pattern_info_start\<lparr>info_irrefutable := all\<rparr>))
       })"
| "pattern_analyze_node n (Pattern_Enum sp type_name constructor ps) t =
     pattern_resolved n t sp (\<lambda>r bs c.
       (case pattern_constructor c (type_unwrap_mutable t) r type_name constructor of
          None \<Rightarrow> pattern_fail E0400_Mismatched_Types sp bs c
        | Some (i, ts, count) \<Rightarrow>
            if length ps \<noteq> length ts then pattern_fail E0400_Mismatched_Types sp bs c
            else do {
              (c1, bs1, x) \<leftarrow> pattern_payloads True (zip ts (map (pattern_analyze_node n) ps)) bs c;
              Some (c1, bs1,
                case x of Inl err \<Rightarrow> Inl err
                | Inr all \<Rightarrow> Inr \<lparr>info_irrefutable = (count = 1 \<and> all), info_has_constructor = True,
                                 info_constructor_index = i, info_fully_covered = all\<rparr>)
            }))"

definition pattern_analyze ::
    "nat \<Rightarrow> ast_type \<Rightarrow> ast_pattern \<Rightarrow> pattern_analysis \<Rightarrow> semantic_context \<Rightarrow>
     (semantic_context \<times> pattern_analysis \<times> pattern_error option) option" where
  "pattern_analyze n t p a c =
     do {
       (c1, bs, x) \<leftarrow> pattern_analyze_node n p t (analysis_bindings a) c;
       Some (c1,
         (case x of
            Inl err \<Rightarrow> (a\<lparr>analysis_bindings := bs\<rparr>, Some err)
          | Inr info \<Rightarrow>
              (\<lparr>analysis_bindings = bs, analysis_irrefutable = info_irrefutable info,
                analysis_has_top_constructor = info_has_constructor info,
                analysis_top_index = info_constructor_index info,
                analysis_top_fully_covered = info_fully_covered info\<rparr>, None)))
     }"

end
