(* ===== verification/Pattern_Laws.thy ===== *)
theory Pattern_Laws
  imports Pattern Resolution Layout_Fields
begin

text \<open>
  The laws of the pattern kernel: values of types, when a pattern matches one, and that an irrefutable
  pattern matches every value of its type and a fully covered constructor every value built by it.
\<close>

section \<open>Constructors do not depend on layouts\<close>

lemma skeleton_template:
  assumes "skeleton d = skeleton c" "i < length (sc_types c)"
  shows "te_template_declaration (sc_types d ! i) = te_template_declaration (sc_types c ! i)"
proof -
  have "map bare_entry (sc_types d) ! i = map bare_entry (sc_types c) ! i"
    using assms(1) by (simp add: skeleton_def frame_def)
  then have "bare_entry (sc_types d ! i) = bare_entry (sc_types c ! i)"
    using assms skeleton_length [OF assms(1)] by simp
  from arg_cong [OF this, of te_template_declaration] show ?thesis
    by (simp add: bare_entry_def)
qed

definition same_declared :: "semantic_type_entry \<Rightarrow> semantic_type_entry \<Rightarrow> bool" where
  "same_declared e f \<longleftrightarrow> te_declaration e = te_declaration f \<and> te_unit e = te_unit f \<and> te_name e = te_name f"

lemma alias_target_skeleton:
  assumes "skeleton d = skeleton c"
  shows "enum_alias_target d u ty r is = enum_alias_target c u ty r is"
  by (induction "is") (simp_all add: skeleton_alias [OF assms] split: ast_module_item_body.split option.split)

lemma enum_loop_skeleton:
  assumes "skeleton d = skeleton c" "same_declared e f"
  shows "enum_constructor_loop k d e x = enum_constructor_loop k c f x"
proof (induction k arbitrary: x)
  case (Suc k)
  have "name_find_direct_enum_constructor (Some e) x = name_find_direct_enum_constructor (Some f) x"
    using assms(2) by (simp add: name_find_direct_enum_constructor_def same_declared_def)
  moreover have "sc_units d = sc_units c"
    using assms(1) by (rule skeleton_parts(1))
  ultimately show ?case
    using assms(2) Suc.IH by (simp add: same_declared_def alias_target_skeleton [OF assms(1)] cong: option.case_cong)
qed simp

lemma find_constructor_skeleton:
  assumes "skeleton d = skeleton c" "same_declared e f"
  shows "name_find_enum_constructor d (Some e) x = name_find_enum_constructor c (Some f) x"
proof -
  have "sc_units d = sc_units c"
    using assms(1) by (rule skeleton_parts(1))
  with assms(2) show ?thesis
    by (simp add: name_find_enum_constructor_def enum_loop_skeleton [OF assms] same_declared_def
        del: enum_constructor_loop.simps cong: option.case_cong)
qed

lemma find_type_less: "name_find_type c x = Some p \<Longrightarrow> p < length (sc_types c)"
  by (auto simp: name_find_type_def dest: resolve_type_index split: prod.splits name_lookup_status.splits)

lemma pattern_constructor_skeleton:
  assumes "skeleton d = skeleton c" "names_collected c r"
  shows "pattern_constructor d base r ty x = pattern_constructor c base r ty x"
proof -
  have found: "name_find_type d ty = name_find_type c ty"
    unfolding name_find_type_def skeleton_resolve [OF assms(1)] skeleton_parts [OF assms(1)] ..
  have template: "pattern_template (sc_types d ! i) = pattern_template (sc_types c ! i)"
    and declared: "same_declared (sc_types d ! i) (sc_types c ! i)" if "i < length (sc_types c)" for i
    using skeleton_template [OF assms(1) that] skeleton_entry [OF assms(1) that]
    by (simp_all add: pattern_template_def same_declared_def cong: option.case_cong)
  show ?thesis
  proof (cases "rt_named r")
    case (Some e)
    with assms(2) obtain i where i: "i < length (sc_types c)" "e = Collected_Type i"
      unfolding names_collected_def by blast
    show ?thesis
    proof (cases "name_find_type c ty")
      case (Some p)
      show ?thesis
        using \<open>rt_named r = Some e\<close> i Some template [OF i(1)] template [OF find_type_less [OF Some]]
          find_constructor_skeleton [OF assms(1) declared [OF i(1)]] declared [OF i(1)]
        by (simp add: pattern_constructor_def found same_declared_def)
    qed (simp add: pattern_constructor_def found Some)
  qed (simp add: pattern_constructor_def)
qed

lemma direct_constructor_at:
  assumes "name_find_direct_enum_constructor (Some e) x = Some (i, k)"
    and "map_option decl_body (te_declaration e) = Some (Decl_Enum ks)"
  shows "i < length ks \<and> k = ks ! i"
  using assms by (auto simp: name_find_direct_enum_constructor_def find_Some_iff)

lemma constructor_at:
  assumes "name_find_enum_constructor c (Some e) x = Some (i, k)"
    and "map_option decl_body (te_declaration e) = Some (Decl_Enum ks)"
  shows "i < length ks \<and> k = ks ! i"
proof -
  have "enum_constructor_loop m c e x = Some (i, k) \<Longrightarrow> i < length ks \<and> k = ks ! i" for m
    using assms(2) direct_constructor_at
    by (induction m arbitrary: x) (auto split: option.splits)
  with assms(1) show ?thesis
    by (simp add: name_find_enum_constructor_def del: enum_constructor_loop.simps)
qed

section \<open>Values\<close>

datatype pattern_value = Value_Plain | Value_Record "pattern_value list" | Value_Tagged nat "pattern_value list"

inductive value_of :: "semantic_context \<Rightarrow> ast_type \<Rightarrow> pattern_value \<Rightarrow> bool" for c where
  value_none: "type_unwrap_mutable t = Type_Option i \<Longrightarrow> value_of c t (Value_Tagged 0 [])"
| value_some: "type_unwrap_mutable t = Type_Option i \<Longrightarrow> value_of c i v \<Longrightarrow> value_of c t (Value_Tagged 1 [v])"
| value_ok: "type_unwrap_mutable t = Type_Result ok er \<Longrightarrow> value_of c ok v \<Longrightarrow> value_of c t (Value_Tagged 0 [v])"
| value_error: "type_unwrap_mutable t = Type_Result ok er \<Longrightarrow> value_of c er v \<Longrightarrow> value_of c t (Value_Tagged 1 [v])"
| value_alias: "alias_step c t = Some a \<Longrightarrow> value_of c a v \<Longrightarrow> value_of c t v"
| value_record: "named_index c (type_unwrap_mutable t) = Some i \<Longrightarrow> te_declaration (sc_types c ! i) = Some b \<Longrightarrow>
    decl_body b = Decl_Struct fs \<Longrightarrow> list_all2 (value_of c) (struct_field_types fs) vs \<Longrightarrow>
    value_of c t (Value_Record vs)"
| value_tagged: "named_index c (type_unwrap_mutable t) = Some i \<Longrightarrow> te_declaration (sc_types c ! i) = Some b \<Longrightarrow>
    decl_body b = Decl_Enum ks \<Longrightarrow> j < length ks \<Longrightarrow> list_all2 (value_of c) (constructor_payload_types (ks ! j)) vs \<Longrightarrow>
    value_of c t (Value_Tagged j vs)"
| value_plain: "\<not> type_is_builtin_tagged t \<Longrightarrow> named_index c (type_unwrap_mutable t) = None \<Longrightarrow> value_of c t Value_Plain"

text \<open>When a pattern matches a value; the constructor of an enum pattern is the one its name finds.\<close>

inductive pattern_matches :: "semantic_context \<Rightarrow> ast_pattern \<Rightarrow> ast_type \<Rightarrow> pattern_value \<Rightarrow> bool" for c where
  match_wildcard: "pattern_matches c (Pattern_Wildcard sp) t v"
| match_binding: "pattern_matches c (Pattern_Binding sp x) t v"
| match_struct: "resolved_value c t = Some r \<Longrightarrow> rt_named r = Some (Collected_Type i) \<Longrightarrow>
    te_declaration (sc_types c ! i) = Some b \<Longrightarrow> decl_body b = Decl_Struct fs \<Longrightarrow>
    \<forall>f \<in> set fps. \<exists>j < length fs. struct_field_name (fs ! j) = fst f
      \<and> pattern_matches c (snd f) (struct_field_types fs ! j) (vs ! j) \<Longrightarrow>
    pattern_matches c (Pattern_Struct sp fps) t (Value_Record vs)"
| match_enum: "resolved_value c t = Some r \<Longrightarrow>
    pattern_constructor c (type_unwrap_mutable t) r ty x = Some (i, ts, count) \<Longrightarrow>
    length ps = length ts \<Longrightarrow> length vs = length ts \<Longrightarrow>
    \<forall>j < length ps. pattern_matches c (ps ! j) (ts ! j) (vs ! j) \<Longrightarrow>
    pattern_matches c (Pattern_Enum sp ty x ps) t (Value_Tagged i vs)"

section \<open>Resolution and values\<close>

lemma resolved_value_chain:
  assumes "plain c" "chain_ends (alias_step c) t r"
  shows "resolved_value c t = Option.bind (resolved_end c r) snd"
proof -
  have "chain_loop (alias_step c) (resolution_fuel c) t = Some r"
    using assms(2) alias_chain.loop_decides [of c t r] by (simp add: alias_targets_def resolution_fuel_def)
  then show ?thesis
    by (simp add: resolved_value_def type_resolve_chain [OF assms(1)])
qed

lemma resolved_value_alias:
  assumes "plain c" "acyclic_aliases c" "alias_step c t = Some a"
  shows "resolved_value c t = resolved_value c a"
proof -
  obtain r where r: "chain_ends (alias_step c) a r"
    using assms(2) unfolding acyclic_aliases_def by blast
  then have "chain_ends (alias_step c) t r"
    by (rule chain_next [where step = "alias_step c", OF assms(3)])
  with r resolved_value_chain [OF assms(1)] show ?thesis
    by metis
qed

lemma resolved_value_stop: "plain c \<Longrightarrow> alias_step c t = None \<Longrightarrow> resolved_value c t = Option.bind (resolved_end c t) snd"
  by (rule resolved_value_chain) (auto intro: chain_stop)

text \<open>A struct or enum at the end of the aliases is a collected declaration of that form.\<close>

definition declared_form :: "resolved_type_kind \<Rightarrow> ast_type_decl_body \<Rightarrow> bool" where
  "declared_form k b \<longleftrightarrow> (case b of Decl_Struct _ \<Rightarrow> k = RT_Struct | Decl_Enum _ \<Rightarrow> k = RT_Enum | _ \<Rightarrow> False)"

lemma builtin_kind_plain: "type_resolved_kind_from_builtin_class k \<noteq> RT_Struct" "type_resolved_kind_from_builtin_class k \<noteq> RT_Enum"
  by (cases k; simp)+

lemma resolved_end_declared:
  assumes "plain c" "alias_step c t = None" "resolved_value c t = Some r" "rt_kind r \<in> {RT_Struct, RT_Enum}"
  shows "\<exists>i b. named_index c (type_unwrap_mutable t) = Some i \<and> rt_named r = Some (Collected_Type i)
    \<and> te_declaration (sc_types c ! i) = Some b \<and> declared_form (rt_kind r) (decl_body b)"
proof -
  from assms(3) obtain c1 where run: "type_resolve (Suc 0) t c = Some (c1, Some r)"
    unfolding resolved_value_stop [OF assms(1,2)] resolved_end_def by (auto simp: bind_eq_Some_conv)
  show ?thesis
  proof (cases "type_builtin_id_from_ast (type_unwrap_mutable t) = None
      \<and> (\<exists>k name args. type_unwrap_mutable t = Type_Named k name args)")
    case False
    with run assms(4) show ?thesis
      by (auto simp: type_resolve_def Let_def resolved_compound_def builtin_kind_plain
          split: option.splits ast_type.splits)
  next
    case True
    then obtain k name args where base: "type_unwrap_mutable t = Type_Named k name args"
      by blast
    obtain e where "\<forall>test n. semantic_resolve_named_entry test n (type_unwrap_mutable t) c =
        Some (case named_index c (type_unwrap_mutable t) of None \<Rightarrow> (e, None) | Some i \<Rightarrow> (c, Some (Collected_Type i)))"
      using plain_named_run [OF assms(1) base] by blast
    with run True base show ?thesis
      by (auto simp: type_resolve_def Let_def declared_form_def split: option.splits ast_type_decl_body.splits)
  qed
qed

lemma tagged_kind:
  assumes "plain c" "type_is_builtin_tagged t" "resolved_value c t = Some r"
  shows "rt_kind r \<notin> {RT_Struct, RT_Enum}"
proof -
  have "named_index c (type_unwrap_mutable t) = None"
    using assms(2) by (auto simp: type_is_builtin_tagged_def named_index_def split: ast_type.splits)
  then show ?thesis
    using resolved_end_declared [OF assms(1) _ assms(3)] by (auto simp: alias_step_named)
qed

text \<open>The values a declaration builds.\<close>

definition built_by :: "semantic_context \<Rightarrow> ast_type_decl_body \<Rightarrow> pattern_value \<Rightarrow> bool" where
  "built_by c b v =
     (case b of
        Decl_Struct fs \<Rightarrow> (\<exists>vs. v = Value_Record vs \<and> list_all2 (value_of c) (struct_field_types fs) vs)
      | Decl_Enum ks \<Rightarrow> (\<exists>j vs. v = Value_Tagged j vs \<and> j < length ks
          \<and> list_all2 (value_of c) (constructor_payload_types (ks ! j)) vs)
      | _ \<Rightarrow> False)"

lemma declared_value:
  assumes "plain c" "acyclic_aliases c"
  shows "value_of c t v \<Longrightarrow> resolved_value c t = Some r \<Longrightarrow> rt_kind r \<in> {RT_Struct, RT_Enum} \<Longrightarrow>
    \<exists>i b. rt_named r = Some (Collected_Type i) \<and> te_declaration (sc_types c ! i) = Some b
      \<and> declared_form (rt_kind r) (decl_body b) \<and> built_by c (decl_body b) v"
proof (induction rule: value_of.induct)
  case (value_alias t a v)
  then show ?case
    using resolved_value_alias [OF assms] by metis
next
  case (value_record t i b fs vs)
  have "built_by c (Decl_Struct fs) (Value_Record vs)"
    using value_record.IH by (auto simp: built_by_def elim: list_all2_mono)
  moreover have "alias_step c t = None"
    using value_record by (simp add: alias_step_named alias_target_of_def)
  ultimately show ?case
    using resolved_end_declared [OF assms(1) _ value_record.prems] value_record.hyps by auto
next
  case (value_tagged t i b ks j vs)
  have "built_by c (Decl_Enum ks) (Value_Tagged j vs)"
    using value_tagged.IH value_tagged.hyps(4) by (auto simp: built_by_def elim: list_all2_mono)
  moreover have "alias_step c t = None"
    using value_tagged by (simp add: alias_step_named alias_target_of_def)
  ultimately show ?case
    using resolved_end_declared [OF assms(1) _ value_tagged.prems] value_tagged.hyps by auto
next
  case (value_plain t)
  then have "alias_step c t = None"
    by (simp add: alias_step_named)
  from resolved_end_declared [OF assms(1) this value_plain.prems] value_plain
  show ?case
    by auto
qed (use tagged_kind [OF assms(1)] in \<open>force simp: type_is_builtin_tagged_def\<close>)+

lemma tagged_value:
  assumes "type_is_builtin_tagged t" "value_of c t v"
  shows "(\<exists>i. type_unwrap_mutable t = Type_Option i \<and> (v = Value_Tagged 0 [] \<or> (\<exists>w. v = Value_Tagged 1 [w] \<and> value_of c i w)))
    \<or> (\<exists>ok er. type_unwrap_mutable t = Type_Result ok er \<and> (\<exists>w. v = Value_Tagged 0 [w] \<and> value_of c ok w
        \<or> v = Value_Tagged 1 [w] \<and> value_of c er w))"
proof -
  have none: "named_index c (type_unwrap_mutable t) = None"
    using assms(1) by (auto simp: type_is_builtin_tagged_def named_index_def split: ast_type.splits)
  then have "alias_step c t = None"
    by (simp add: alias_step_named)
  with assms(2) none show ?thesis
  proof cases
    case value_plain
    with assms(1) show ?thesis
      by simp
  qed simp_all
qed

lemma found_constructor_filled:
  "type_tagged_find_constructor t x = Some k \<Longrightarrow> type_tagged_fill t 0 = Some k \<or> type_tagged_fill t 1 = Some k"
  by (auto simp: type_tagged_find_constructor_def simp del: text_equals_cstr_iff split: ast_type.splits if_splits)

text \<open>A value of a type with constructors has one of them, and payloads of its types.\<close>

lemma constructor_value:
  assumes "plain c" "acyclic_aliases c" "resolved_value c t = Some r" "value_of c t v"
    and "pattern_constructor c (type_unwrap_mutable t) r ty x = Some (i, ts, count)"
  shows "i < count \<and> (\<exists>j vs. v = Value_Tagged j vs \<and> j < count \<and> (j = i \<longrightarrow> list_all2 (value_of c) ts vs))"
proof (cases "type_is_builtin_tagged (type_unwrap_mutable t)")
  case True
  then have tagged: "type_is_builtin_tagged t"
    by (simp add: type_is_builtin_tagged_def)
  from assms(5) True obtain k where
    k: "type_tagged_find_constructor (type_unwrap_mutable t) x = Some k"
      "i = tagged_tag k" "ts = (case tagged_payload_type k of None \<Rightarrow> [] | Some t \<Rightarrow> [t])" "count = 2"
    by (auto simp: pattern_constructor_def type_tagged_constructor_count_def split: if_splits)
  show ?thesis
    using tagged_value [OF tagged assms(4)] found_constructor_filled [OF k(1)] k(2-)
    by (elim disjE exE conjE) (auto simp: type_tagged_fill_def)
next
  case False
  with assms(5) have enum: "rt_kind r = RT_Enum"
    by (auto simp: pattern_constructor_def split: if_splits)
  with declared_value [OF assms(1,2,4,3)] obtain e b where e: "rt_named r = Some (Collected_Type e)"
      "te_declaration (sc_types c ! e) = Some b" "declared_form RT_Enum (decl_body b)" "built_by c (decl_body b) v"
    by auto
  from e(3) obtain ks where ks: "decl_body b = Decl_Enum ks"
    by (auto simp: declared_form_def split: ast_type_decl_body.splits)
  from assms(5) False enum e(1,2) ks obtain k where
    "name_find_enum_constructor c (Some (sc_types c ! e)) x = Some (i, k)" "ts = constructor_payload_types k" "count = length ks"
    by (auto simp: pattern_constructor_def split: option.splits if_splits)
  with constructor_at [OF this(1), of ks] e(2,4) ks show ?thesis
    by (auto simp: built_by_def)
qed

section \<open>What an analysis establishes\<close>

primrec pattern_names :: "ast_pattern \<Rightarrow> text_slice list" where
  "pattern_names (Pattern_Wildcard sp) = []"
| "pattern_names (Pattern_Binding sp x) = [x]"
| "pattern_names (Pattern_Struct sp fs) = concat (map snd (map (map_prod id pattern_names) fs))"
| "pattern_names (Pattern_Enum sp ty x ps) = concat (map pattern_names ps)"

definition binds :: "text_slice list \<Rightarrow> pattern_binding list \<Rightarrow> pattern_binding list \<Rightarrow> bool" where
  "binds xs bs bs1 \<longleftrightarrow> (\<exists>new. bs1 = bs @ new \<and> map binding_name new = xs)
     \<and> (distinct (map binding_name bs) \<longrightarrow> distinct (map binding_name bs1))"

lemma binds_Nil [simp]: "binds [] bs bs"
  by (simp add: binds_def)

lemma binds_append: "binds xs bs bs1 \<Longrightarrow> binds ys bs1 bs2 \<Longrightarrow> binds (xs @ ys) bs bs2"
  unfolding binds_def by auto

definition matches_all :: "semantic_context \<Rightarrow> ast_pattern \<Rightarrow> ast_type \<Rightarrow> bool" where
  "matches_all c p t \<longleftrightarrow> (\<forall>v. value_of c t v \<longrightarrow> pattern_matches c p t v)"

definition covers_constructor :: "semantic_context \<Rightarrow> ast_pattern \<Rightarrow> ast_type \<Rightarrow> nat \<Rightarrow> bool" where
  "covers_constructor c p t i \<longleftrightarrow>
     (\<forall>vs. value_of c t (Value_Tagged i vs) \<longrightarrow> pattern_matches c p t (Value_Tagged i vs))"

definition analysed ::
    "semantic_context \<Rightarrow> ast_pattern \<Rightarrow> ast_type \<Rightarrow> pattern_binding list \<Rightarrow> pattern_binding list \<Rightarrow> pattern_node_info \<Rightarrow> bool" where
  "analysed c p t bs bs1 info \<longleftrightarrow> binds (pattern_names p) bs bs1
     \<and> (info_irrefutable info \<longrightarrow> matches_all c p t)
     \<and> (info_has_constructor info \<longrightarrow>
          (\<exists>r ty x ts count. resolved_value c t = Some r
             \<and> pattern_constructor c (type_unwrap_mutable t) r ty x = Some (info_constructor_index info, ts, count))
          \<and> (info_fully_covered info \<longrightarrow> covers_constructor c p t (info_constructor_index info)))"

definition analyses :: "semantic_context \<Rightarrow> nat \<Rightarrow> ast_pattern \<Rightarrow> bool" where
  "analyses c n p \<longleftrightarrow> (\<forall>t bs d d1 bs1 x. layouts_known c d \<longrightarrow>
     pattern_analyze_node n p t bs d = Some (d1, bs1, x) \<longrightarrow>
     layouts_known c d1 \<and> (\<forall>info. x = Inr info \<longrightarrow> analysed c p t bs bs1 info))"

lemma analysesD:
  "analyses c n p \<Longrightarrow> layouts_known c d \<Longrightarrow> pattern_analyze_node n p t bs d = Some (d1, bs1, x) \<Longrightarrow>
     layouts_known c d1 \<and> (\<forall>info. x = Inr info \<longrightarrow> analysed c p t bs bs1 info)"
  unfolding analyses_def by blast

lemma layouts_known_same:
  "layouts_known c d \<Longrightarrow> skeleton d1 = skeleton c \<Longrightarrow> sc_types d1 = sc_types d \<Longrightarrow> layouts_known c d1"
  by (simp add: layouts_known_def)

lemma struct_field_found:
  assumes "plain c" "layouts_known c d" "struct_entry c e fs"
    and "layout_struct_field n (Some (Collected_Type e)) name d = Some (d1, x)"
  shows "layouts_known c d1 \<and> (\<forall>off t. x = Some (off, t) \<longrightarrow>
    (\<exists>j < length fs. struct_field_name (fs ! j) = name \<and> t = struct_field_types fs ! j))"
proof -
  have "te_declaration (sc_types d ! e) = te_declaration (sc_types c ! e)"
    using skeleton_entry(4) [OF layouts_known_skeleton [OF assms(2)]] assms(3) by (simp add: struct_entry_def)
  with assms(3,4) have "layout_field_loop (layout_type n) name fs 0 d = Some (d1, x)"
    by (auto simp: layout_struct_field_def struct_entry_def)
  from refinesD [OF this field_loop_refine [OF layout_type_refines [OF assms(1)]] assms(2)] show ?thesis
    by (auto simp: field_found_def)
qed

lemma fields_analysed:
  assumes "plain c" "struct_entry c e fs"
  shows "\<forall>f \<in> set fps. analyses c n (snd f) \<Longrightarrow> layouts_known c d \<Longrightarrow>
    pattern_fields n (Some (Collected_Type e)) sp prior all (map (map_prod id (pattern_analyze_node n)) fps) bs d =
      Some (d1, bs1, x) \<Longrightarrow>
    layouts_known c d1 \<and> (\<forall>res. x = Inr res \<longrightarrow>
      binds (concat (map snd (map (map_prod id pattern_names) fps))) bs bs1 \<and>
      (res \<longrightarrow> all \<and> (\<forall>f \<in> set fps. \<exists>j < length fs. struct_field_name (fs ! j) = fst f
         \<and> matches_all c (snd f) (struct_field_types fs ! j))))"
proof (induction fps arbitrary: prior all bs d)
  case (Cons f fps)
  define gs where gs: "gs = map (map_prod id (pattern_analyze_node n)) fps"
  have run: "pattern_fields n (Some (Collected_Type e)) sp prior all ((fst f, pattern_analyze_node n (snd f)) # gs) bs d =
      Some (d1, bs1, x)"
    using Cons.prems(3) by (cases f) (simp only: gs list.map map_prod_simp id_def fst_conv snd_conv)
  show ?case
  proof (cases "list_ex (\<lambda>name. text_slice_equals name (fst f)) prior")
    case True
    with run Cons.prems(2) show ?thesis
      by (auto simp: pattern_fail_def simp del: text_slice_equals_iff)
  next
    case False
    with run obtain d2 y where y: "layout_struct_field n (Some (Collected_Type e)) (fst f) d = Some (d2, y)"
      by (auto simp: bind_eq_Some_conv simp del: text_slice_equals_iff)
    note found = struct_field_found [OF assms(1) Cons.prems(2) assms(2) y]
    show ?thesis
    proof (cases y)
      case None
      with False y found run show ?thesis
        by (auto simp: pattern_fail_def simp del: text_slice_equals_iff)
    next
      case (Some place)
      then obtain off t where t: "y = Some (off, t)"
        by (cases place) simp
      with found obtain j where j: "j < length fs" "struct_field_name (fs ! j) = fst f" "t = struct_field_types fs ! j"
        by blast
      from t False y run obtain d3 bs3 child where
        child: "pattern_analyze_node n (snd f) t bs d2 = Some (d3, bs3, child)"
        and rest: "(case child of Inl err \<Rightarrow> Some (d3, bs3, Inl err)
          | Inr info \<Rightarrow> pattern_fields n (Some (Collected_Type e)) sp (prior @ [fst f]) (all \<and> info_irrefutable info) gs bs3 d3) = Some (d1, bs1, x)"
        by (auto simp: bind_eq_Some_conv simp del: text_slice_equals_iff)
      have step: "layouts_known c d3 \<and> (\<forall>info. child = Inr info \<longrightarrow> analysed c (snd f) t bs bs3 info)"
        using Cons.prems(1) found child by (intro analysesD) auto
      show ?thesis
      proof (cases child)
        case (Inl err)
        with rest step show ?thesis
          by auto
      next
        case (Inr info)
        with rest have "pattern_fields n (Some (Collected_Type e)) sp (prior @ [fst f]) (all \<and> info_irrefutable info) gs bs3 d3 = Some (d1, bs1, x)"
          by simp
        from Cons.IH [OF _ _ this [unfolded gs]] Cons.prems(1) step Inr j show ?thesis
          by (auto simp: analysed_def intro: binds_append)
      qed
    qed
  qed
qed auto

lemma payloads_analysed:
  shows "\<forall>p \<in> set ps. analyses c n p \<Longrightarrow> layouts_known c d \<Longrightarrow> length ps = length ts \<Longrightarrow>
    pattern_payloads all (zip ts (map (pattern_analyze_node n) ps)) bs d = Some (d1, bs1, x) \<Longrightarrow>
    layouts_known c d1 \<and> (\<forall>res. x = Inr res \<longrightarrow> binds (concat (map pattern_names ps)) bs bs1 \<and>
      (res \<longrightarrow> all \<and> list_all2 (matches_all c) ps ts))"
proof (induction ps arbitrary: ts all bs d)
  case (Cons p ps)
  then obtain t ts' where ts: "ts = t # ts'" "length ps = length ts'"
    by (cases ts) simp_all
  with Cons.prems(4) obtain d2 bs2 child where child: "pattern_analyze_node n p t bs d = Some (d2, bs2, child)"
    and rest: "(case child of Inl err \<Rightarrow> Some (d2, bs2, Inl err)
      | Inr info \<Rightarrow> pattern_payloads (all \<and> info_irrefutable info) (zip ts' (map (pattern_analyze_node n) ps)) bs2 d2) =
        Some (d1, bs1, x)"
    by (auto simp: bind_eq_Some_conv)
  have step: "layouts_known c d2 \<and> (\<forall>info. child = Inr info \<longrightarrow> analysed c p t bs bs2 info)"
    using Cons.prems(1,2) child by (intro analysesD) auto
  show ?case
  proof (cases child)
    case (Inl err)
    with rest step show ?thesis
      by auto
  next
    case (Inr info)
    with rest have "pattern_payloads (all \<and> info_irrefutable info) (zip ts' (map (pattern_analyze_node n) ps)) bs2 d2 =
        Some (d1, bs1, x)"
      by simp
    from Cons.IH [OF _ _ ts(2) this] Cons.prems(1) step Inr ts(1) show ?thesis
      by (auto simp: analysed_def intro: binds_append)
  qed
qed auto

lemma add_binding_binds:
  assumes "pattern_add_binding x t sp bs d = Some (d1, bs1, y)" "layouts_known c d"
  shows "layouts_known c d1 \<and> (y = Inr () \<longrightarrow> binds [x] bs bs1)"
proof -
  have "layouts_known c (d\<lparr>sc_heap := h\<rparr>)" for h
    using assms(2) by (simp add: layouts_known_def skeleton_def frame_def)
  then show ?thesis
    using assms by (auto simp: pattern_add_binding_def pattern_fail_def semantic_allocates_def binds_def list_ex_iff
        split: if_splits)
qed

lemma resolved_run:
  assumes "plain c" "acyclic_aliases c" "resolution_fuel c \<le> n" "layouts_known c d"
  shows "\<exists>d1. pattern_resolved n t sp go bs d =
      (case resolved_value c t of None \<Rightarrow> pattern_fail E0409_Unresolved_Type sp bs d1 | Some r \<Rightarrow> go r bs d1)
    \<and> layouts_known c d1"
proof -
  obtain d1 where d1: "type_resolve n t d = Some (d1, resolved_value c t)" "skeleton d1 = skeleton c" "sc_types d1 = sc_types d"
    using resolve_enough [OF assms(1,2) layouts_known_skeleton [OF assms(4)] assms(3)] by blast
  then show ?thesis
    using layouts_known_same [OF assms(4) d1(2,3)] by (auto simp: pattern_resolved_def)
qed

lemma declared_form_struct: "declared_form RT_Struct b \<Longrightarrow> \<exists>fs. b = Decl_Struct fs"
  by (cases b) (simp_all add: declared_form_def)

lemma resolved_struct:
  assumes "plain c" "acyclic_aliases c" "resolved_value c t = Some r" "rt_kind r = RT_Struct"
  shows "\<exists>e fs. rt_named r = Some (Collected_Type e) \<and> struct_entry c e fs"
proof -
  obtain a where a: "chain_ends (alias_step c) t a"
    using assms(2) unfolding acyclic_aliases_def by blast
  then have "alias_step c a = None" "resolved_value c a = Some r"
    using assms(3) resolved_value_chain [OF assms(1)] chain_ends_stop chain_stop by metis+
  from resolved_end_declared [OF assms(1) this] assms(4) show ?thesis
    by (auto simp: struct_entry_def dest: named_index_less dest!: declared_form_struct)
qed

lemma wildcard_matches_all:
  "matches_all c (Pattern_Wildcard sp) t" "matches_all c (Pattern_Binding sp x) t"
  by (simp_all add: matches_all_def match_wildcard match_binding)

lemma struct_matches_all:
  assumes "plain c" "acyclic_aliases c" "resolved_value c t = Some r" "rt_kind r = RT_Struct"
    and "rt_named r = Some (Collected_Type e)" "struct_entry c e fs"
    and "\<forall>f \<in> set fps. \<exists>j < length fs. struct_field_name (fs ! j) = fst f \<and> matches_all c (snd f) (struct_field_types fs ! j)"
  shows "matches_all c (Pattern_Struct sp fps) t"
  unfolding matches_all_def
proof (intro allI impI)
  fix v
  assume "value_of c t v"
  obtain b where b: "te_declaration (sc_types c ! e) = Some b" "decl_body b = Decl_Struct fs"
    using assms(6) unfolding struct_entry_def by blast
  from declared_value [OF assms(1,2) \<open>value_of c t v\<close> assms(3)] assms(4,5) b obtain vs where
    vs: "v = Value_Record vs" "list_all2 (value_of c) (struct_field_types fs) vs"
    by (auto simp: built_by_def)
  have "\<forall>f \<in> set fps. \<exists>j < length fs. struct_field_name (fs ! j) = fst f
      \<and> pattern_matches c (snd f) (struct_field_types fs ! j) (vs ! j)"
  proof
    fix f
    assume "f \<in> set fps"
    with assms(7) obtain j where j: "j < length fs" "struct_field_name (fs ! j) = fst f"
        "matches_all c (snd f) (struct_field_types fs ! j)"
      by blast
    then have "value_of c (struct_field_types fs ! j) (vs ! j)"
      using list_all2_nthD [OF vs(2)] by (simp add: struct_field_types_def)
    with j show "\<exists>j < length fs. struct_field_name (fs ! j) = fst f
        \<and> pattern_matches c (snd f) (struct_field_types fs ! j) (vs ! j)"
      unfolding matches_all_def by blast
  qed
  from match_struct [OF assms(3,5) b this] vs(1) show "pattern_matches c (Pattern_Struct sp fps) t v"
    by simp
qed

lemma enum_covers:
  assumes "plain c" "acyclic_aliases c" "resolved_value c t = Some r"
    and "pattern_constructor c (type_unwrap_mutable t) r ty x = Some (i, ts, count)"
    and "list_all2 (matches_all c) ps ts"
  shows "covers_constructor c (Pattern_Enum sp ty x ps) t i"
    and "count = 1 \<Longrightarrow> matches_all c (Pattern_Enum sp ty x ps) t"
proof -
  have covered: "pattern_matches c (Pattern_Enum sp ty x ps) t (Value_Tagged i vs)"
    if "value_of c t (Value_Tagged i vs)" for vs
  proof -
    have vs: "list_all2 (value_of c) ts vs"
      using constructor_value [OF assms(1-3) that assms(4)] by blast
    show ?thesis
    proof (rule match_enum [OF assms(3,4)])
      show "length ps = length ts" "length vs = length ts"
        using list_all2_lengthD [OF assms(5)] list_all2_lengthD [OF vs] by simp_all
      show "\<forall>j < length ps. pattern_matches c (ps ! j) (ts ! j) (vs ! j)"
        using list_all2_nthD [OF assms(5)] list_all2_nthD [OF vs] list_all2_lengthD [OF assms(5)]
        by (auto simp: matches_all_def)
    qed
  qed
  then show "covers_constructor c (Pattern_Enum sp ty x ps) t i"
    by (simp add: covers_constructor_def)
  show "matches_all c (Pattern_Enum sp ty x ps) t" if "count = 1"
    unfolding matches_all_def
  proof (intro allI impI)
    fix v
    assume v: "value_of c t v"
    from constructor_value [OF assms(1-3) v assms(4)] that obtain vs where "v = Value_Tagged i vs"
      by auto
    with covered v show "pattern_matches c (Pattern_Enum sp ty x ps) t v"
      by blast
  qed
qed

lemma bind_answer:
  "do { (c1, bs1, x) \<leftarrow> m; Some (c1, bs1, g x) } = Some (d1, bs2, y) \<Longrightarrow> \<exists>z. m = Some (d1, bs2, z) \<and> y = g z"
  by (auto simp: bind_eq_Some_conv)

lemma analysesI:
  assumes "plain c" "acyclic_aliases c" "resolution_fuel c \<le> n"
    and "\<And>t. pattern_analyze_node n p t = pattern_resolved n t sp (go t)"
    and "\<And>t r bs d d1 bs1 x. resolved_value c t = Some r \<Longrightarrow> layouts_known c d \<Longrightarrow>
      go t r bs d = Some (d1, bs1, x) \<Longrightarrow>
      layouts_known c d1 \<and> (\<forall>info. x = Inr info \<longrightarrow> analysed c p t bs bs1 info)"
  shows "analyses c n p"
  unfolding analyses_def
proof (intro allI impI)
  fix t bs d d1 bs1 x
  assume known: "layouts_known c d" and run: "pattern_analyze_node n p t bs d = Some (d1, bs1, x)"
  obtain d2 where d2: "pattern_resolved n t sp (go t) bs d =
      (case resolved_value c t of None \<Rightarrow> pattern_fail E0409_Unresolved_Type sp bs d2 | Some r \<Rightarrow> go t r bs d2)"
      "layouts_known c d2"
    using resolved_run [OF assms(1-3) known] by blast
  show "layouts_known c d1 \<and> (\<forall>info. x = Inr info \<longrightarrow> analysed c p t bs bs1 info)"
  proof (cases "resolved_value c t")
    case None
    with run d2 assms(4) show ?thesis
      by (auto simp: pattern_fail_def)
  next
    case (Some r)
    with run d2 assms(4) have "go t r bs d2 = Some (d1, bs1, x)"
      by simp
    with Some d2(2) show ?thesis
      by (rule assms(5))
  qed
qed

lemma node_analyses:
  assumes "plain c" "acyclic_aliases c" "resolution_fuel c \<le> n"
  shows "analyses c n p"
proof (induction p)
  case (Pattern_Wildcard sp)
  show ?case
    by (rule analysesI [OF assms pattern_analyze_node.simps(1)])
      (auto simp: analysed_def pattern_info_start_def wildcard_matches_all)
next
  case (Pattern_Binding sp name)
  show ?case
  proof (rule analysesI [OF assms pattern_analyze_node.simps(2)])
    fix t r bs d d1 bs1 y
    assume known: "layouts_known c d"
      and run: "do {
         (c1, bs1, x) \<leftarrow> pattern_add_binding name t sp bs d;
         Some (c1, bs1, case x of Inl err \<Rightarrow> Inl err | Inr _ \<Rightarrow> Inr (pattern_info_start\<lparr>info_irrefutable := True\<rparr>))
       } = Some (d1, bs1, y)"
    then obtain z where z: "pattern_add_binding name t sp bs d = Some (d1, bs1, z)"
        "y = (case z of Inl err \<Rightarrow> Inl err | Inr _ \<Rightarrow> Inr (pattern_info_start\<lparr>info_irrefutable := True\<rparr>))"
      by (auto simp: bind_eq_Some_conv)
    with add_binding_binds [OF z(1) known] show
      "layouts_known c d1 \<and> (\<forall>info. y = Inr info \<longrightarrow> analysed c (Pattern_Binding sp name) t bs bs1 info)"
      by (cases z) (auto simp: analysed_def pattern_info_start_def wildcard_matches_all)
  qed
next
  case (Pattern_Enum sp ty x ps)
  show ?case
  proof (rule analysesI [OF assms pattern_analyze_node.simps(4)])
    fix t r bs d d1 bs1 y
    assume r: "resolved_value c t = Some r" and known: "layouts_known c d"
    have "names_collected c r"
      using r resolve_collected [OF assms(1)] unfolding resolved_value_def type_resolve_def
      by (auto simp: bind_eq_Some_conv)
    note constructor = pattern_constructor_skeleton [OF layouts_known_skeleton [OF known] this]
    assume run: "(case pattern_constructor d (type_unwrap_mutable t) r ty x of
          None \<Rightarrow> pattern_fail E0400_Mismatched_Types sp bs d
        | Some (i, ts, count) \<Rightarrow>
            if length ps \<noteq> length ts then pattern_fail E0400_Mismatched_Types sp bs d
            else do {
              (c1, bs1, x) \<leftarrow> pattern_payloads True (zip ts (map (pattern_analyze_node n) ps)) bs d;
              Some (c1, bs1,
                case x of Inl err \<Rightarrow> Inl err
                | Inr all \<Rightarrow> Inr \<lparr>info_irrefutable = (count = 1 \<and> all), info_has_constructor = True,
                                 info_constructor_index = i, info_fully_covered = all\<rparr>)
            }) = Some (d1, bs1, y)"
    show "layouts_known c d1 \<and> (\<forall>info. y = Inr info \<longrightarrow> analysed c (Pattern_Enum sp ty x ps) t bs bs1 info)"
    proof (cases "\<exists>i ts count. pattern_constructor c (type_unwrap_mutable t) r ty x = Some (i, ts, count) \<and> length ps = length ts")
      case False
      with run known show ?thesis
        by (auto simp: constructor pattern_fail_def split: option.splits if_splits)
    next
      case True
      then obtain i ts count where found: "pattern_constructor c (type_unwrap_mutable t) r ty x = Some (i, ts, count)"
          "length ps = length ts"
        by blast
      with run obtain z where z: "pattern_payloads True (zip ts (map (pattern_analyze_node n) ps)) bs d = Some (d1, bs1, z)"
          "y = (case z of Inl err \<Rightarrow> Inl err
             | Inr all \<Rightarrow> Inr \<lparr>info_irrefutable = (count = 1 \<and> all), info_has_constructor = True,
                              info_constructor_index = i, info_fully_covered = all\<rparr>)"
        by (auto simp: constructor bind_eq_Some_conv)
      have step: "layouts_known c d1 \<and> (\<forall>res. z = Inr res \<longrightarrow> binds (concat (map pattern_names ps)) bs bs1 \<and>
          (res \<longrightarrow> True \<and> list_all2 (matches_all c) ps ts))"
        using Pattern_Enum by (intro payloads_analysed [OF _ known found(2) z(1)]) blast
      with z(2) enum_covers [OF assms(1,2) r found(1)] r found(1) show ?thesis
        by (cases z) (auto simp: analysed_def)
    qed
  qed
next
  case (Pattern_Struct sp fps)
  show ?case
  proof (rule analysesI [OF assms pattern_analyze_node.simps(3)])
    fix t r bs d d1 bs1 y
    assume r: "resolved_value c t = Some r" and known: "layouts_known c d"
    assume run: "(if rt_kind r \<noteq> RT_Struct \<or> rt_named r = None then pattern_fail E0400_Mismatched_Types sp bs d
       else do {
         (c1, bs1, x) \<leftarrow>
           pattern_fields n (rt_named r) sp [] True (map (map_prod id (pattern_analyze_node n)) fps) bs d;
         Some (c1, bs1, case x of Inl err \<Rightarrow> Inl err
                                | Inr all \<Rightarrow> Inr (pattern_info_start\<lparr>info_irrefutable := all\<rparr>))
       }) = Some (d1, bs1, y)"
    show "layouts_known c d1 \<and> (\<forall>info. y = Inr info \<longrightarrow> analysed c (Pattern_Struct sp fps) t bs bs1 info)"
    proof (cases "rt_kind r = RT_Struct")
      case False
      with run known show ?thesis
        by (auto simp: pattern_fail_def)
    next
      case True
      obtain e fs where e: "rt_named r = Some (Collected_Type e)" "struct_entry c e fs"
        using resolved_struct [OF assms(1,2) r True] by blast
      from run have "do {
           (c1, bs1, x) \<leftarrow> pattern_fields n (Some (Collected_Type e)) sp [] True (map (map_prod id (pattern_analyze_node n)) fps) bs d;
           Some (c1, bs1, case x of Inl err \<Rightarrow> Inl err | Inr all \<Rightarrow> Inr (pattern_info_start\<lparr>info_irrefutable := all\<rparr>))
         } = Some (d1, bs1, y)"
        by (simp only: True e(1) simp_thms option.distinct if_False not_True_eq_False)
      from bind_answer [OF this] obtain z where
        z: "pattern_fields n (Some (Collected_Type e)) sp [] True (map (map_prod id (pattern_analyze_node n)) fps) bs d =
            Some (d1, bs1, z)"
          "y = (case z of Inl err \<Rightarrow> Inl err | Inr all \<Rightarrow> Inr (pattern_info_start\<lparr>info_irrefutable := all\<rparr>))"
        by (elim exE conjE)
      have "\<forall>f \<in> set fps. analyses c n (snd f)"
        using Pattern_Struct by (auto simp: snds.simps)
      note step = fields_analysed [OF assms(1) e(2) this known z(1)]
      show ?thesis
      proof (cases z)
        case (Inl err)
        with z(2) step show ?thesis
          by simp
      next
        case (Inr res)
        note res = mp [OF spec [OF conjunct2 [OF step], of res] this]
        then have "binds (pattern_names (Pattern_Struct sp fps)) bs bs1"
          by simp
        moreover have "matches_all c (Pattern_Struct sp fps) t" if res
        proof (rule struct_matches_all [OF assms(1,2) r True e])
          show "\<forall>f \<in> set fps. \<exists>j < length fs. struct_field_name (fs ! j) = fst f
              \<and> matches_all c (snd f) (struct_field_types fs ! j)"
            using res that by simp
        qed
        ultimately show ?thesis
          using step Inr z(2) by (simp add: analysed_def pattern_info_start_def)
      qed
    qed
  qed
qed


text \<open>The pattern \<open>some(x)\<close> on an option of a number.\<close>

definition option_name :: text_slice where
  "option_name = [0x6F, 0x70, 0x74, 0x69, 0x6F, 0x6E]"

definition some_name :: text_slice where
  "some_name = [0x73, 0x6F, 0x6D, 0x65]"


end
