(* ===== verification/Check.thy ===== *)
theory Check
  imports Layout Ownership
begin

text \<open>
  The checks of declarations (\<open>src/semantic/check*.c\<close>), which run after collection and before the
  bodies: every declared type gets a layout, and so does every type in a signature; values declared at
  the top are external and own nothing; the main function has no parameters and returns an integer.
\<close>

section \<open>Types\<close>

definition semantic_check_type_reference :: "nat \<Rightarrow> ast_type \<Rightarrow> bool run" where
  "semantic_check_type_reference n t c =
     do {
       (c1, x) \<leftarrow> layout_type n t c;
       Some (c1, x \<noteq> None)
     }"

primrec check_type_references :: "nat \<Rightarrow> ast_type list \<Rightarrow> bool run" where
  "check_type_references n [] c = Some (c, True)"
| "check_type_references n (t # ts) c =
     do {
       (c1, ok) \<leftarrow> semantic_check_type_reference n t c;
       if ok then check_type_references n ts c1 else Some (c1, False)
     }"

definition declared_types :: "ast_type_decl_body \<Rightarrow> ast_type list" where
  "declared_types b =
     (case b of
        Decl_Alias t \<Rightarrow> [t]
      | Decl_Struct fs \<Rightarrow> struct_field_types fs
      | Decl_Enum ks \<Rightarrow> concat (map constructor_payload_types ks))"

text \<open>
  The type by whose name the entry itself is laid out is a local variable of the check: its address is
  that of no type of the program.
\<close>

definition semantic_check_one_type_declaration :: "nat \<Rightarrow> type_ref \<Rightarrow> bool run" where
  "semantic_check_one_type_declaration n e c =
     (let x = type_entry_at c e
      in if te_is_generic_template x then Some (c, True)
         else (let c1 = c\<lparr>sc_active_unit := te_unit x\<rparr>
               in case te_declaration x of
                    None \<Rightarrow> Some (c1, False)
                  | Some d \<Rightarrow>
                      do {
                        (c2, ok) \<leftarrow> check_type_references n (declared_types (decl_body d)) c1;
                        if \<not> ok then Some (c2, False)
                        else semantic_check_type_reference n
                               (Type_Named (sc_next_node c2) (te_name x) (te_type_arguments x)) c2
                      }))"

primrec check_collected_types :: "nat \<Rightarrow> nat list \<Rightarrow> bool run" where
  "check_collected_types n [] c = Some (c, True)"
| "check_collected_types n (i # is) c =
     do {
       (c1, ok) \<leftarrow> semantic_check_one_type_declaration n (Collected_Type i) c;
       if ok then check_collected_types n is c1 else Some (c1, False)
     }"

text \<open>The loop over the instances, whose number grows while they are checked; \<open>k\<close> bounds its turns.\<close>

primrec check_instance_types :: "nat \<Rightarrow> nat \<Rightarrow> nat \<Rightarrow> bool run" where
  "check_instance_types n 0 i c = None"
| "check_instance_types n (Suc k) i c =
     (if i \<ge> length (sc_generic_types c) then Some (c, True)
      else do {
        (c1, ok) \<leftarrow> semantic_check_one_type_declaration n (Instance_Type i) c;
        if ok then check_instance_types n k (i + 1) c1 else Some (c1, False)
      })"

definition semantic_check_type_declarations :: "nat \<Rightarrow> bool run" where
  "semantic_check_type_declarations n c =
     do {
       (c1, ok) \<leftarrow> check_collected_types n [0..<length (sc_types c)] c;
       if \<not> ok then Some (c1, False)
       else do {
         (c2, ok2) \<leftarrow> check_instance_types n n 0 c1;
         if \<not> ok2 then Some (c2, False)
         else Some (c2\<lparr>sc_active_unit := None\<rparr>, True)
       }
     }"

section \<open>Functions, values and the entry point\<close>

definition signature_types :: "ast_function \<Rightarrow> ast_type list" where
  "signature_types f = map (slot_type \<circ> parameter_slot) (function_parameters f) @ [slot_type (function_output f)]"

primrec check_signatures :: "nat \<Rightarrow> semantic_function_entry list \<Rightarrow> bool run" where
  "check_signatures n [] c = Some (c, True)"
| "check_signatures n (f # fs) c =
     (if fe_is_generic_template f then check_signatures n fs c
      else (case fe_function f of
              None \<Rightarrow> None
            | Some g \<Rightarrow>
                do {
                  (c1, ok) \<leftarrow> check_type_references n (signature_types g) (c\<lparr>sc_active_unit := fe_unit f\<rparr>);
                  if ok then check_signatures n fs c1 else Some (c1, False)
                }))"

definition semantic_check_function_signatures :: "nat \<Rightarrow> bool run" where
  "semantic_check_function_signatures n c =
     do {
       (c1, ok) \<leftarrow> check_signatures n (sc_functions c) c;
       Some (if ok then c1\<lparr>sc_active_unit := None\<rparr> else c1, ok)
     }"

definition global_fail :: "error_id \<Rightarrow> source_span \<Rightarrow> nat option \<Rightarrow> semantic_context \<Rightarrow> semantic_context \<times> bool" where
  "global_fail e sp saved c = (semantic_fail (c\<lparr>sc_active_unit := saved\<rparr>) e sp, False)"

definition check_global :: "nat \<Rightarrow> nat option \<Rightarrow> semantic_global_entry \<Rightarrow> bool run" where
  "check_global n saved g c =
     (case ge_declaration g of
        None \<Rightarrow> Some (global_fail E1100_Internal_Context_Error zero_span saved c)
      | Some d \<Rightarrow>
          do {
            (c1, ok) \<leftarrow> semantic_check_type_reference n (global_type d) (c\<lparr>sc_active_unit := ge_unit g\<rparr>);
            if \<not> ok then Some (c1\<lparr>sc_active_unit := saved\<rparr>, False)
            else do {
              (c2, x) \<leftarrow> type_resolve n (global_type d) c1;
              case x of
                None \<Rightarrow> Some (global_fail E0409_Unresolved_Type (global_span d) saved c2)
              | Some r \<Rightarrow>
                  if rt_kind r = RT_Void \<or> rt_kind r = RT_Unknown
                  then Some (global_fail E0400_Mismatched_Types (global_span d) saved c2)
                  else if \<not> global_external d
                  then Some (global_fail E0404_Statement_Typecheck_Not_Implemented (global_span d) saved c2)
                  else do {
                    (c3, owned) \<leftarrow> memory_type_is_owned n (global_type d) c2;
                    if owned
                    then Some (global_fail E0404_Statement_Typecheck_Not_Implemented (global_span d) saved c3)
                    else Some (c3, True)
                  }
            }
          })"

primrec check_globals :: "nat \<Rightarrow> nat option \<Rightarrow> semantic_global_entry list \<Rightarrow> bool run" where
  "check_globals n saved [] c = Some (c\<lparr>sc_active_unit := saved\<rparr>, True)"
| "check_globals n saved (g # gs) c =
     do {
       (c1, ok) \<leftarrow> check_global n saved g c;
       if ok then check_globals n saved gs c1 else Some (c1, False)
     }"

definition semantic_check_global_declarations :: "nat \<Rightarrow> bool run" where
  "semantic_check_global_declarations n c = check_globals n (sc_active_unit c) (sc_globals c) c"

definition semantic_check_entry_point :: "nat \<Rightarrow> bool run" where
  "semantic_check_entry_point n c =
     (case Option.bind (sc_main c) (\<lambda>i. fe_function (sc_functions c ! i)) of
        None \<Rightarrow> Some (c, False)
      | Some f \<Rightarrow>
          if function_parameters f \<noteq> [] then Some (semantic_fail c E0408_Main_Bad_Signature (function_span f), False)
          else do {
            (c1, x) \<leftarrow> type_resolve n (slot_type (function_output f)) c;
            case x of
              None \<Rightarrow> Some (c1, False)
            | Some r \<Rightarrow>
                if rt_kind r \<noteq> RT_Signed_Integer \<and> rt_kind r \<noteq> RT_Unsigned_Integer
                then Some (semantic_fail c1 E0408_Main_Bad_Signature (function_span f), False)
                else Some (c1, True)
          })"

definition semantic_check_program :: "nat \<Rightarrow> bool run" where
  "semantic_check_program n c =
     do {
       (c1, types_ok) \<leftarrow> semantic_check_type_declarations n c;
       if \<not> types_ok then Some (c1, False)
       else do {
         (c2, functions_ok) \<leftarrow> semantic_check_function_signatures n c1;
         if \<not> functions_ok then Some (c2, False)
         else do {
           (c3, globals_ok) \<leftarrow> semantic_check_global_declarations n c2;
           if \<not> globals_ok then Some (c3, False) else semantic_check_entry_point n c3
         }
       }
     }"

end
