(* ===== verification/Check_Laws.thy ===== *)
theory Check_Laws
  imports Check Layout_Termination
begin

text \<open>
  The laws of the checks of types in programs without generic types: layouts do not depend on the unit
  in scope, and types that are accepted have a layout, so that no chain of aliases goes on forever.
\<close>

section \<open>Layouts do not depend on the unit in scope\<close>

text \<open>Every name in the type has a recorded owner.\<close>

definition owned_type :: "semantic_context \<Rightarrow> ast_type \<Rightarrow> bool" where
  "owned_type c t \<longleftrightarrow> (\<forall>k \<in> set (type_nodes t). owner_of c k \<noteq> None)"

definition owned_body :: "semantic_context \<Rightarrow> ast_type_decl_body \<Rightarrow> bool" where
  "owned_body c b \<longleftrightarrow> (\<forall>t \<in> set (declared_types b). owned_type c t)"

definition owned_declarations :: "semantic_context \<Rightarrow> bool" where
  "owned_declarations c \<longleftrightarrow>
     (\<forall>e \<in> set (sc_types c). \<forall>d. te_declaration e = Some d \<longrightarrow> owned_body c (decl_body d))"

abbreviation at_unit :: "nat option \<Rightarrow> semantic_context \<Rightarrow> semantic_context" where
  "at_unit u c \<equiv> c\<lparr>sc_active_unit := u\<rparr>"

lemma frame_at [simp]: "frame (at_unit u c) = frame c"
  by (simp add: frame_def)

lemma skeleton_at: "skeleton d = skeleton c \<Longrightarrow> skeleton (at_unit u d) = skeleton (at_unit u c)"
  by (simp add: skeleton_def)

lemma type_nodes_unwrap: "type_nodes (type_unwrap_mutable t) = type_nodes t"
  by (induction t rule: type_unwrap_mutable.induct) auto

lemma owned_type_parts:
  "type_unwrap_mutable t = Type_Option i \<Longrightarrow> owned_type c t \<Longrightarrow> owned_type c i"
  "type_unwrap_mutable t = Type_Result ok er \<Longrightarrow> owned_type c t \<Longrightarrow> owned_type c ok \<and> owned_type c er"
  by (auto simp: owned_type_def simp flip: type_nodes_unwrap [of t])

lemma named_index_at:
  assumes "owned_type c t"
  shows "named_index (at_unit u c) (type_unwrap_mutable t) = named_index c (type_unwrap_mutable t)"
proof (cases "\<exists>k x. type_unwrap_mutable t = Type_Named k x []")
  case True
  then obtain k x where base: "type_unwrap_mutable t = Type_Named k x []"
    by blast
  have "k \<in> set (type_nodes t)"
    by (simp add: base flip: type_nodes_unwrap [of t])
  then have "semantic_type_owner_unit c (Type_Named k x []) \<noteq> None"
    using assms unfolding owned_type_def owner_of_def by (simp add: semantic_type_owner_unit_def)
  then have "using_unit (at_unit u c) (Type_Named k x []) = using_unit c (Type_Named k x [])"
    by (auto simp: using_unit_def frame_owner [of "at_unit u c" c])
  then show ?thesis
    by (simp add: named_index_def base frame_resolve [of "at_unit u c" c])
next
  case False
  then show ?thesis
    by (simp add: named_index_def split: ast_type.split list.split)
qed

lemma layout_at:
  assumes "owned_declarations c"
  shows "has_layout c t l \<Longrightarrow> owned_type c t \<Longrightarrow> has_layout (at_unit u c) t l"
    and "body_layout c b l \<Longrightarrow> owned_body c b \<Longrightarrow> body_layout (at_unit u c) b l"
proof (induction rule: has_layout_body_layout.inducts)
  case (lay_option t i l)
  then show ?case
    using owned_type_parts(1) by (intro has_layout_body_layout.lay_option) auto
next
  case (lay_result t ok er l k)
  then show ?case
    using owned_type_parts(2) by (intro has_layout_body_layout.lay_result) auto
next
  case (lay_named t i d l)
  then have "owned_body c (decl_body d)"
    using assms named_index_less [OF lay_named(1)] by (auto simp: owned_declarations_def)
  with lay_named show ?case
    by (intro has_layout_body_layout.lay_named) (simp_all add: named_index_at)
next
  case (lay_alias t l)
  then show ?case
    by (intro has_layout_body_layout.lay_alias) (simp add: owned_body_def declared_types_def)
next
  case (lay_struct fs ls)
  have "list_all2 (has_layout (at_unit u c)) (struct_field_types fs) ls"
    using lay_struct.IH
  proof (rule list.rel_mono_strong)
    show "\<And>t l. t \<in> set (struct_field_types fs) \<Longrightarrow> l \<in> set ls \<Longrightarrow>
        has_layout c t l \<and> (owned_type c t \<longrightarrow> has_layout (at_unit u c) t l) \<Longrightarrow> has_layout (at_unit u c) t l"
      using lay_struct.prems by (simp add: owned_body_def declared_types_def)
  qed
  then show ?case
    by (rule has_layout_body_layout.lay_struct)
next
  case (lay_enum ks lss)
  have "list_all2 (list_all2 (has_layout (at_unit u c))) (map constructor_payload_types ks) lss"
    using lay_enum.IH
  proof (rule list.rel_mono_strong)
    fix ts ls
    assume ts: "ts \<in> set (map constructor_payload_types ks)"
      and "list_all2 (\<lambda>t l. has_layout c t l \<and> (owned_type c t \<longrightarrow> has_layout (at_unit u c) t l)) ts ls"
    from this(2) show "list_all2 (has_layout (at_unit u c)) ts ls"
    proof (rule list.rel_mono_strong)
      show "\<And>t l. t \<in> set ts \<Longrightarrow> l \<in> set ls \<Longrightarrow>
          has_layout c t l \<and> (owned_type c t \<longrightarrow> has_layout (at_unit u c) t l) \<Longrightarrow> has_layout (at_unit u c) t l"
        using lay_enum.prems ts by (auto simp: owned_body_def declared_types_def)
    qed
  qed
  then show ?case
    by (rule has_layout_body_layout.lay_enum)
qed (auto intro: lay_simple)

lemma owned_declarations_at [simp]: "owned_declarations (at_unit u c) = owned_declarations c"
proof -
  have "owner_of (at_unit u c) = owner_of c"
    by (simp add: fun_eq_iff owner_of_def semantic_type_owner_unit_def)
  then show ?thesis
    by (simp add: owned_declarations_def owned_body_def owned_type_def)
qed

lemma layouts_known_at:
  assumes "owned_declarations c" "layouts_known c d"
  shows "layouts_known (at_unit u c) (at_unit u d)"
  unfolding layouts_known_def
proof (intro conjI allI impI)
  show "skeleton (at_unit u d) = skeleton (at_unit u c)"
    using layouts_known_skeleton [OF assms(2)] by (rule skeleton_at)
  fix i
  assume i: "i < length (sc_types (at_unit u c))" and known: "te_layout_state (sc_types (at_unit u d) ! i) = 2"
  with assms(2) obtain b where b: "te_declaration (sc_types c ! i) = Some b"
      "body_layout c (decl_body b) (te_size (sc_types d ! i), te_alignment (sc_types d ! i))"
    by (auto simp: layouts_known_def)
  moreover have "owned_body c (decl_body b)"
    using assms(1) b(1) i by (auto simp: owned_declarations_def)
  ultimately show "\<exists>b. te_declaration (sc_types (at_unit u c) ! i) = Some b \<and>
      body_layout (at_unit u c) (decl_body b) (te_size (sc_types (at_unit u d) ! i), te_alignment (sc_types (at_unit u d) ! i))"
    using layout_at(2) [OF assms(1)] by auto
qed

section \<open>What the checks of types establish\<close>

text \<open>
  Programs without generic types before the checks: every entry has its declaration, whose names have
  owners, and no layout has been asked for.
\<close>

definition checkable :: "semantic_context \<Rightarrow> bool" where
  "checkable c \<longleftrightarrow> plain c \<and> owned_declarations c \<and> sc_generic_types c = []
     \<and> (\<forall>e \<in> set (sc_types c). \<not> te_is_generic_template e \<and> te_declaration e \<noteq> None \<and> te_layout_state e = 0)"

text \<open>The state of the checks, whatever unit is in scope.\<close>

definition checked_from :: "semantic_context \<Rightarrow> semantic_context \<Rightarrow> bool" where
  "checked_from c d \<longleftrightarrow> layouts_known (at_unit (sc_active_unit d) c) d"

lemma plain_at [simp]: "plain (at_unit u c) = plain c"
  by (simp add: plain_def)

lemma checked_start: "checkable c \<Longrightarrow> checked_from c c"
  by (auto simp: checkable_def checked_from_def layouts_known_def)

lemma checked_at: "owned_declarations c \<Longrightarrow> checked_from c d \<Longrightarrow> checked_from c (at_unit u d)"
  using layouts_known_at [of "at_unit (sc_active_unit d) c" d u] by (simp add: checked_from_def)

lemma checked_parts:
  assumes "checked_from c d"
  shows "length (sc_types d) = length (sc_types c)" "sc_generic_types d = sc_generic_types c"
    "sc_functions d = sc_functions c" "sc_globals d = sc_globals c" "sc_main d = sc_main c"
  using layouts_known_skeleton [OF assms [unfolded checked_from_def]] frame_length [of d c]
  by (simp_all add: skeleton_def)

lemma checked_entry:
  assumes "checked_from c d" "i < length (sc_types c)"
  shows "bare_entry (sc_types d ! i) = bare_entry (sc_types c ! i)"
proof -
  have "map bare_entry (sc_types d) = map bare_entry (sc_types c)"
    using skeleton_frame [OF layouts_known_skeleton [OF assms(1) [unfolded checked_from_def]]] by (simp add: frame_def)
  then show ?thesis
    using assms(2) checked_parts(1) [OF assms(1)] by (metis nth_map)
qed

lemma reference_checked:
  assumes "plain c" "checked_from c d" "semantic_check_type_reference n t d = Some (d1, ok)"
  shows "checked_from c d1 \<and> sc_active_unit d1 = sc_active_unit d
    \<and> (ok \<longrightarrow> (\<exists>l. has_layout (at_unit (sc_active_unit d) c) t l))"
proof -
  let ?c = "at_unit (sc_active_unit d) c"
  have known: "layouts_known ?c d" and plain: "plain ?c"
    using assms(1,2) by (simp_all add: checked_from_def)
  from assms(3) obtain x where x: "layout_type n t d = Some (d1, x)" "ok = (x \<noteq> None)"
    by (auto simp: semantic_check_type_reference_def bind_eq_Some_conv)
  note result = refinesD [OF x(1) layout_type_refines [OF plain] known]
  then have "sc_active_unit d1 = sc_active_unit d"
    using skeleton_parts(4) [OF layouts_known_skeleton] by fastforce
  with result x(2) show ?thesis
    by (auto simp: checked_from_def)
qed

lemma references_checked:
  assumes "plain c"
  shows "checked_from c d \<Longrightarrow> check_type_references n ts d = Some (d1, ok) \<Longrightarrow>
    checked_from c d1 \<and> sc_active_unit d1 = sc_active_unit d
    \<and> (ok \<longrightarrow> (\<forall>t \<in> set ts. \<exists>l. has_layout (at_unit (sc_active_unit d) c) t l))"
proof (induction ts arbitrary: d)
  case (Cons t ts)
  from Cons.prems(2) obtain d2 b where step: "semantic_check_type_reference n t d = Some (d2, b)"
    by (auto simp: bind_eq_Some_conv)
  note one = reference_checked [OF assms Cons.prems(1) step]
  show ?case
  proof (cases b)
    case True
    with Cons.prems(2) step have "check_type_references n ts d2 = Some (d1, ok)"
      by simp
    from Cons.IH [OF _ this] one True show ?thesis
      by auto
  next
    case False
    with Cons.prems(2) step one show ?thesis
      by auto
  qed
qed auto

lemma layouts_exist:
  "\<forall>t \<in> set ts. \<exists>l. has_layout c t l \<Longrightarrow> \<exists>ls. list_all2 (has_layout c) ts ls"
  by (induction ts) (auto simp: list_all2_Cons1)

lemma body_layout_exists:
  assumes "\<forall>t \<in> set (declared_types b). \<exists>l. has_layout c t l"
  shows "\<exists>l. body_layout c b l"
proof (cases b)
  case (Decl_Struct fs)
  with assms have "\<forall>t \<in> set (struct_field_types fs). \<exists>l. has_layout c t l"
    by (simp add: declared_types_def)
  from layouts_exist [OF this] obtain ls where "list_all2 (has_layout c) (struct_field_types fs) ls"
    by blast
  with Decl_Struct show ?thesis
    by (auto intro: lay_struct)
next
  case (Decl_Enum ks)
  have "\<exists>lss. list_all2 (list_all2 (has_layout c)) tss lss" if "\<forall>ts \<in> set tss. \<forall>t \<in> set ts. \<exists>l. has_layout c t l" for tss
    using that by (induction tss) (auto simp: list_all2_Cons1 dest!: layouts_exist)
  from this [of "map constructor_payload_types ks"] assms Decl_Enum obtain lss where
    "list_all2 (list_all2 (has_layout c)) (map constructor_payload_types ks) lss"
    by (auto simp: declared_types_def)
  with Decl_Enum show ?thesis
    by (auto intro: lay_enum)
qed (use assms in \<open>auto simp: declared_types_def intro: lay_alias\<close>)

definition entry_laid_out :: "semantic_context \<Rightarrow> nat \<Rightarrow> bool" where
  "entry_laid_out c i \<longleftrightarrow> (\<exists>b l. te_declaration (sc_types c ! i) = Some b \<and> body_layout c (decl_body b) l)"

lemma one_checked:
  assumes "checkable c" "checked_from c d" "i < length (sc_types c)"
    and "semantic_check_one_type_declaration n (Collected_Type i) d = Some (d1, ok)"
  shows "checked_from c d1 \<and> (ok \<longrightarrow> entry_laid_out c i)"
proof -
  let ?e = "sc_types c ! i"
  have plain: "plain c" and owned: "owned_declarations c" and e: "\<not> te_is_generic_template ?e" "te_declaration ?e \<noteq> None"
    using assms(1,3) by (auto simp: checkable_def)
  note same = arg_cong [OF checked_entry [OF assms(2,3)]]
  have entry: "te_is_generic_template (sc_types d ! i) = te_is_generic_template ?e"
      "te_declaration (sc_types d ! i) = te_declaration ?e" "te_unit (sc_types d ! i) = te_unit ?e"
    using same [of te_is_generic_template] same [of te_declaration] same [of te_unit] by (simp_all add: bare_entry_def)
  from e obtain b where b: "te_declaration ?e = Some b"
    by blast
  let ?d = "at_unit (te_unit ?e) d"
  have known: "checked_from c ?d"
    using owned assms(2) by (rule checked_at)
  from assms(4) obtain d2 good where refs: "check_type_references n (declared_types (decl_body b)) ?d = Some (d2, good)"
    by (auto simp: semantic_check_one_type_declaration_def entry b e(1) Let_def bind_eq_Some_conv)
  note refs_ok = references_checked [OF plain known refs]
  show ?thesis
  proof (cases good)
    case False
    with assms(4) refs refs_ok show ?thesis
      by (auto simp: semantic_check_one_type_declaration_def entry b e(1) Let_def)
  next
    case True
    with refs_ok have "\<forall>t \<in> set (declared_types (decl_body b)). \<exists>l. has_layout (at_unit (te_unit ?e) c) t l"
      by simp
    from body_layout_exists [OF this] obtain l where "body_layout (at_unit (te_unit ?e) c) (decl_body b) l"
      by blast
    moreover have "owned_body (at_unit (te_unit ?e) c) (decl_body b)"
      using owned b assms(3) owned_declarations_at [of "te_unit ?e" c] unfolding owned_declarations_def by auto
    moreover have "at_unit (sc_active_unit c) (at_unit (te_unit ?e) c) = c"
      by simp
    ultimately have "body_layout c (decl_body b) l"
      using layout_at(2) [of "at_unit (te_unit ?e) c" "decl_body b" l "sc_active_unit c"] owned by simp
    then have "entry_laid_out c i"
      using b by (auto simp: entry_laid_out_def)
    moreover from assms(4) refs True obtain t where "semantic_check_type_reference n t d2 = Some (d1, ok)"
      by (auto simp: semantic_check_one_type_declaration_def entry b e(1) Let_def)
    ultimately show ?thesis
      using reference_checked [OF plain] refs_ok by blast
  qed
qed

lemma collected_checked:
  assumes "checkable c"
  shows "checked_from c d \<Longrightarrow> \<forall>i \<in> set is. i < length (sc_types c) \<Longrightarrow>
    check_collected_types n is d = Some (d1, ok) \<Longrightarrow>
    checked_from c d1 \<and> (ok \<longrightarrow> (\<forall>i \<in> set is. entry_laid_out c i))"
proof (induction "is" arbitrary: d)
  case (Cons i "is")
  from Cons.prems(3) obtain d2 b where step: "semantic_check_one_type_declaration n (Collected_Type i) d = Some (d2, b)"
    by (auto simp: bind_eq_Some_conv)
  have one: "checked_from c d2 \<and> (b \<longrightarrow> entry_laid_out c i)"
    using Cons.prems(2) by (intro one_checked [OF assms Cons.prems(1) _ step]) simp
  show ?case
  proof (cases b)
    case True
    with Cons.prems(3) step have "check_collected_types n is d2 = Some (d1, ok)"
      by simp
    from Cons.IH [OF _ _ this] one True Cons.prems(2) show ?thesis
      by auto
  next
    case False
    with Cons.prems(3) step one show ?thesis
      by auto
  qed
qed auto

lemma types_checked:
  assumes "checkable c" "semantic_check_type_declarations n c = Some (d, ok)"
  shows "checked_from c d \<and> (ok \<longrightarrow> (\<forall>i < length (sc_types c). entry_laid_out c i))"
proof -
  from assms(2) obtain d1 b where collected: "check_collected_types n [0..<length (sc_types c)] c = Some (d1, b)"
    by (auto simp: semantic_check_type_declarations_def bind_eq_Some_conv)
  have one: "checked_from c d1 \<and> (b \<longrightarrow> (\<forall>i \<in> set [0..<length (sc_types c)]. entry_laid_out c i))"
    by (rule collected_checked [OF assms(1) checked_start [OF assms(1)] _ collected]) simp
  show ?thesis
  proof (cases b)
    case False
    with assms(2) collected one show ?thesis
      by (auto simp: semantic_check_type_declarations_def)
  next
    case True
    have "sc_generic_types d1 = []"
      using checked_parts(2) [OF conjunct1 [OF one]] assms(1) by (simp add: checkable_def)
    then have "check_instance_types n n 0 d1 = Some x \<Longrightarrow> x = (d1, True)" for x
      by (cases n) simp_all
    with assms(2) collected True have "d = at_unit None d1"
      by (auto simp: semantic_check_type_declarations_def bind_eq_Some_conv)
    with one True checked_at [of c d1 None] assms(1) show ?thesis
      by (simp add: checkable_def)
  qed
qed

lemma layout_ends_chain:
  "has_layout c t l \<Longrightarrow> \<exists>r. chain_ends (alias_step c) t r"
  "body_layout c b l \<Longrightarrow> b = Decl_Alias a \<Longrightarrow> \<exists>r. chain_ends (alias_step c) a r"
proof (induction arbitrary: and a rule: has_layout_body_layout.inducts)
  case (lay_simple t l)
  then have "alias_step c t = None"
    by (auto simp: alias_step_named named_index_def split: ast_type.split)
  then show ?case
    by (blast intro: chain_stop)
next
  case (lay_named t i d l)
  show ?case
  proof (cases "decl_body d")
    case (Decl_Alias a)
    with lay_named have "alias_step c t = Some a"
      by (simp add: alias_step_named alias_target_of_def)
    moreover from Decl_Alias lay_named have "\<exists>r. chain_ends (alias_step c) a r"
      by simp
    ultimately show ?thesis
      by (blast intro: chain_next [where step = "alias_step c"])
  next
    case (Decl_Struct fs)
    with lay_named have "alias_step c t = None"
      by (simp add: alias_step_named alias_target_of_def)
    then show ?thesis
      by (blast intro: chain_stop)
  next
    case (Decl_Enum ks)
    with lay_named have "alias_step c t = None"
      by (simp add: alias_step_named alias_target_of_def)
    then show ?thesis
      by (blast intro: chain_stop)
  qed
next
  case (lay_option t i l)
  then have "alias_step c t = None"
    by (simp add: alias_step_named named_index_def)
  then show ?case
    by (blast intro: chain_stop)
next
  case (lay_result t ok er l k)
  then have "alias_step c t = None"
    by (simp add: alias_step_named named_index_def)
  then show ?case
    by (blast intro: chain_stop)
qed auto

lemma accepted_types:
  assumes "checkable c" "semantic_check_type_declarations n c = Some (d, True)"
  shows "checked_from c d" "\<forall>i < length (sc_types c). entry_laid_out c i" "acyclic_aliases (at_unit u c)"
proof -
  show "checked_from c d" and laid: "\<forall>i < length (sc_types c). entry_laid_out c i"
    using types_checked [OF assms] by simp_all
  have owned: "owned_declarations c"
    using assms(1) by (simp add: checkable_def)
  have end_of: "\<exists>r. chain_ends (alias_step (at_unit u c)) a r" if al: "alias_step (at_unit u c) t = Some a" for t a
  proof -
    from alias_step_index [OF al] obtain i b where i: "i < length (sc_types c)" "te_declaration (sc_types c ! i) = Some b"
        "decl_body b = Decl_Alias a"
      by (auto simp: alias_target_of_def map_option_case split: option.splits ast_type_decl_body.splits)
    with laid obtain l where "body_layout c (Decl_Alias a) l"
      by (auto simp: entry_laid_out_def)
    moreover have "owned_body c (Decl_Alias a)"
      using owned i nth_mem [OF i(1)] unfolding owned_declarations_def by metis
    ultimately have "body_layout (at_unit u c) (Decl_Alias a) l"
      using layout_at(2) [OF owned] by blast
    then show ?thesis
      by (rule layout_ends_chain(2)) simp
  qed
  have "\<exists>r. chain_ends (alias_step (at_unit u c)) t r" for t
  proof (cases "alias_step (at_unit u c) t")
    case None
    then show ?thesis
      by (blast intro: chain_stop)
  next
    case (Some a)
    with end_of [OF Some] show ?thesis
      by (blast intro: chain_next [where step = "alias_step (at_unit u c)"])
  qed
  then show "acyclic_aliases (at_unit u c)"
    by (simp add: acyclic_aliases_def)
qed

lemma acyclic_skeleton:
  assumes "skeleton d = skeleton c"
  shows "acyclic_aliases d = acyclic_aliases c"
proof -
  note same = skeleton_named_index [OF assms] skeleton_entry(4) [OF assms]
  have "alias_step d t = alias_step c t" for t
  proof (cases "named_index c (type_unwrap_mutable t)")
    case (Some i)
    with same(2) named_index_less [OF Some] show ?thesis
      by (simp add: alias_step_named same(1) alias_target_of_def)
  qed (simp add: alias_step_named same(1))
  then have "alias_step d = alias_step c" ..
  then show ?thesis
    by (simp add: acyclic_aliases_def)
qed

section \<open>The checks always answer\<close>

definition finishes :: "(nat \<Rightarrow> 'a run) \<Rightarrow> semantic_context \<Rightarrow> bool" where
  "finishes F c \<longleftrightarrow> (\<exists>N d x. \<forall>n \<ge> N. F n c = Some (d, x))"

lemma finishesI: "(\<And>n. n \<ge> N \<Longrightarrow> F n c = Some (d, x)) \<Longrightarrow> finishes F c"
  unfolding finishes_def by blast

lemma finishes_bind_large:
  assumes "finishes F c" and "\<And>N d x. \<forall>n \<ge> N. F n c = Some (d, x) \<Longrightarrow> finishes (\<lambda>n. G n x) d"
  shows "finishes (\<lambda>n c. do { (d, x) \<leftarrow> F n c; G n x d }) c"
proof -
  obtain N d x where F: "\<forall>n \<ge> N. F n c = Some (d, x)"
    using assms(1) unfolding finishes_def by blast
  from assms(2) [OF this] obtain M e y where G: "\<forall>n \<ge> M. G n x d = Some (e, y)"
    unfolding finishes_def by blast
  show ?thesis
    by (rule finishesI [of "max N M"]) (use F G in simp)
qed

lemma finishes_bind:
  assumes "finishes F c" and "\<And>n d x. F n c = Some (d, x) \<Longrightarrow> finishes (\<lambda>n. G n x) d"
  shows "finishes (\<lambda>n c. do { (d, x) \<leftarrow> F n c; G n x d }) c"
  using assms by (intro finishes_bind_large) blast+

lemma finishes_if:
  "(b \<Longrightarrow> finishes F c) \<Longrightarrow> (\<not> b \<Longrightarrow> finishes G c) \<Longrightarrow> finishes (\<lambda>n c. if b then F n c else G n c) c"
  by (cases b) (simp_all add: finishes_def)

lemma finishes_option:
  "finishes F c \<Longrightarrow> (\<And>r. finishes (\<lambda>n. G n r) c) \<Longrightarrow>
    finishes (\<lambda>n c. case x of None \<Rightarrow> F n c | Some r \<Rightarrow> G n r c) c"
  by (cases x) simp_all

lemma finishes_Nil: "(\<And>n c. F n c = Some (c, True)) \<Longrightarrow> finishes F d"
  by (rule finishesI) simp

lemma finishes_some: "(\<And>n. F n d = Some y) \<Longrightarrow> finishes F d"
  by (cases y) (simp add: finishes_def)

lemma finishes_cong: "(\<And>n. F n c = G n c) \<Longrightarrow> finishes F c = finishes G c"
  by (simp add: finishes_def)

lemma finishes_done [simp]: "finishes (\<lambda>n c. Some (f c, g c)) c"
  by (rule finishesI) simp

lemma reference_finishes:
  assumes "plain c" "checked_from c d"
  shows "finishes (\<lambda>n. semantic_check_type_reference n t) d"
proof -
  have "skeleton d = skeleton (at_unit (sc_active_unit d) c)"
    using assms(2) unfolding checked_from_def by (rule layouts_known_skeleton)
  then have "plain d"
    using skeleton_plain [of d "at_unit (sc_active_unit d) c"] assms(1) by simp
  then have "settles_below d (card (fresh_entries d)) (\<lambda>n. layout_type n t)"
    by (rule type_settles)
  then obtain N e x where "\<forall>n \<ge> N. layout_type n t d = Some (e, x)"
    unfolding settles_below_def settles_def by blast
  then show ?thesis
    by (intro finishesI [of N _ _ e "x \<noteq> None"]) (simp add: semantic_check_type_reference_def)
qed

lemma references_finish:
  assumes "plain c"
  shows "checked_from c d \<Longrightarrow> finishes (\<lambda>n. check_type_references n ts) d"
proof (induction ts arbitrary: d)
  case (Cons t ts)
  have "finishes (\<lambda>n c. do { (c1, ok) \<leftarrow> semantic_check_type_reference n t c;
      if ok then check_type_references n ts c1 else Some (c1, False) }) d"
  proof (rule finishes_bind [OF reference_finishes [OF assms Cons.prems]])
    fix n e ok
    assume "semantic_check_type_reference n t d = Some (e, ok)"
    with reference_checked [OF assms Cons.prems] have "checked_from c e"
      by blast
    then show "finishes (\<lambda>n c1. if ok then check_type_references n ts c1 else Some (c1, False)) e"
      by (intro finishes_if Cons.IH finishes_done)
  qed
  then show ?case
    by simp
qed (simp add: finishes_Nil)

lemma one_finishes:
  assumes "checkable c" "checked_from c d" "i < length (sc_types c)"
  shows "finishes (\<lambda>n. semantic_check_one_type_declaration n (Collected_Type i)) d"
proof -
  let ?e = "sc_types c ! i"
  have plain: "plain c" and owned: "owned_declarations c" and e: "\<not> te_is_generic_template ?e" "te_declaration ?e \<noteq> None"
    using assms(1,3) by (auto simp: checkable_def)
  note same = arg_cong [OF checked_entry [OF assms(2,3)]]
  have entry: "te_is_generic_template (sc_types d ! i) = te_is_generic_template ?e"
      "te_declaration (sc_types d ! i) = te_declaration ?e" "te_unit (sc_types d ! i) = te_unit ?e"
    using same [of te_is_generic_template] same [of te_declaration] same [of te_unit] by (simp_all add: bare_entry_def)
  from e obtain b where b: "te_declaration ?e = Some b"
    by blast
  let ?d = "at_unit (te_unit ?e) d" and ?name = "te_name (sc_types d ! i)" and ?args = "te_type_arguments (sc_types d ! i)"
  have known: "checked_from c ?d"
    using owned assms(2) by (rule checked_at)
  have "finishes (\<lambda>n c. do { (c2, ok) \<leftarrow> check_type_references n (declared_types (decl_body b)) c;
      if \<not> ok then Some (c2, False)
      else semantic_check_type_reference n (Type_Named (sc_next_node c2) ?name ?args) c2 }) ?d"
  proof (rule finishes_bind [OF references_finish [OF plain known]])
    fix n f ok
    assume "check_type_references n (declared_types (decl_body b)) ?d = Some (f, ok)"
    with references_checked [OF plain known] have "checked_from c f"
      by blast
    then show "finishes (\<lambda>n c2. if \<not> ok then Some (c2, False)
        else semantic_check_type_reference n (Type_Named (sc_next_node c2) ?name ?args) c2) f"
      using reference_finishes [OF plain, of f "Type_Named (sc_next_node f) ?name ?args"]
      by (cases ok) (simp_all add: finishes_def)
  qed
  then show ?thesis
    by (simp add: finishes_def semantic_check_one_type_declaration_def entry b e(1) Let_def)
qed

lemma collected_finish:
  assumes "checkable c"
  shows "checked_from c d \<Longrightarrow> \<forall>i \<in> set is. i < length (sc_types c) \<Longrightarrow>
    finishes (\<lambda>n. check_collected_types n is) d"
proof (induction "is" arbitrary: d)
  case (Cons i "is")
  have i: "i < length (sc_types c)"
    using Cons.prems(2) by simp
  have "finishes (\<lambda>n c. do { (c1, ok) \<leftarrow> semantic_check_one_type_declaration n (Collected_Type i) c;
      if ok then check_collected_types n is c1 else Some (c1, False) }) d"
  proof (rule finishes_bind [OF one_finishes [OF assms Cons.prems(1) i]])
    fix n e ok
    assume "semantic_check_one_type_declaration n (Collected_Type i) d = Some (e, ok)"
    with one_checked [OF assms Cons.prems(1) i] have "checked_from c e"
      by blast
    then show "finishes (\<lambda>n c1. if ok then check_collected_types n is c1 else Some (c1, False)) e"
      using Cons.prems(2) by (intro finishes_if Cons.IH finishes_done) simp_all
  qed
  then show ?case
    by simp
qed (simp add: finishes_Nil)

lemma types_finish:
  assumes "checkable c"
  shows "finishes semantic_check_type_declarations c"
proof -
  have "finishes (\<lambda>n c. do { (c1, ok) \<leftarrow> check_collected_types n [0..<length (sc_types c)] c;
      if \<not> ok then Some (c1, False)
      else do {
        (c2, ok2) \<leftarrow> check_instance_types n n 0 c1;
        if \<not> ok2 then Some (c2, False) else Some (c2\<lparr>sc_active_unit := None\<rparr>, True)
      } }) c"
  proof (rule finishes_bind)
    show "finishes (\<lambda>n d. check_collected_types n [0..<length (sc_types d)] d) c"
      using collected_finish [OF assms checked_start [OF assms], of "[0..<length (sc_types c)]"]
      by (simp add: finishes_def)
    fix n d ok
    assume "check_collected_types n [0..<length (sc_types c)] c = Some (d, ok)"
    from collected_checked [OF assms checked_start [OF assms] _ this] have "checked_from c d"
      by simp
    from checked_parts(2) [OF this] assms have "sc_generic_types d = []"
      by (simp add: checkable_def)
    then have "check_instance_types n n 0 d = Some (d, True)" if "n \<ge> 1" for n
      using that by (cases n) simp_all
    then show "finishes (\<lambda>n c1. if \<not> ok then Some (c1, False)
        else do {
          (c2, ok2) \<leftarrow> check_instance_types n n 0 c1;
          if \<not> ok2 then Some (c2, False) else Some (c2\<lparr>sc_active_unit := None\<rparr>, True)
        }) d"
      by (intro finishesI [of 1 _ _ "if ok then at_unit None d else d" ok]) simp
  qed
  moreover have "semantic_check_type_declarations = (\<lambda>n c. do { (c1, ok) \<leftarrow> check_collected_types n [0..<length (sc_types c)] c;
      if \<not> ok then Some (c1, False)
      else do {
        (c2, ok2) \<leftarrow> check_instance_types n n 0 c1;
        if \<not> ok2 then Some (c2, False) else Some (c2\<lparr>sc_active_unit := None\<rparr>, True)
      } })"
    by (simp add: fun_eq_iff semantic_check_type_declarations_def)
  ultimately show ?thesis
    by simp
qed

end
