(* ===== verification/Check_Program.thy ===== *)
theory Check_Program
  imports Check_Laws Layout_Fields
begin

text \<open>
  The checks of whole programs without generic types: they always answer, and what they accept.
\<close>

section \<open>Signatures, values and the entry point\<close>

definition functions_known :: "semantic_context \<Rightarrow> bool" where
  "functions_known c \<longleftrightarrow> (\<forall>f \<in> set (sc_functions c). fe_function f \<noteq> None)"

lemma signatures_finish:
  assumes "plain c" "owned_declarations c"
  shows "checked_from c d \<Longrightarrow> \<forall>f \<in> set fs. fe_function f \<noteq> None \<Longrightarrow> finishes (\<lambda>n. check_signatures n fs) d"
proof (induction fs arbitrary: d)
  case (Cons f fs)
  then obtain g where g: "fe_function f = Some g"
    by auto
  let ?d = "at_unit (fe_unit f) d"
  have known: "checked_from c ?d"
    using assms(2) Cons.prems(1) by (rule checked_at)
  have "finishes (\<lambda>n c. do { (c1, ok) \<leftarrow> check_type_references n (signature_types g) c;
      if ok then check_signatures n fs c1 else Some (c1, False) }) ?d"
  proof (rule finishes_bind [OF references_finish [OF assms(1) known]])
    fix n e ok
    assume "check_type_references n (signature_types g) ?d = Some (e, ok)"
    with references_checked [OF assms(1) known] have "checked_from c e"
      by blast
    then show "finishes (\<lambda>n c1. if ok then check_signatures n fs c1 else Some (c1, False)) e"
      using Cons.prems(2) by (intro finishes_if Cons.IH finishes_done) simp_all
  qed
  moreover have "finishes (\<lambda>n. check_signatures n fs) d"
    using Cons by simp
  ultimately show ?case
    by (cases "fe_is_generic_template f") (simp_all add: finishes_def g)
qed (simp add: finishes_Nil)

definition signature_laid_out :: "semantic_context \<Rightarrow> semantic_function_entry \<Rightarrow> bool" where
  "signature_laid_out c f \<longleftrightarrow> (\<exists>g. fe_function f = Some g
     \<and> (\<forall>t \<in> set (signature_types g). \<exists>l. has_layout (at_unit (fe_unit f) c) t l))"

lemma signatures_checked:
  assumes "plain c" "owned_declarations c"
  shows "checked_from c d \<Longrightarrow> check_signatures n fs d = Some (d1, ok) \<Longrightarrow>
    checked_from c d1 \<and> (ok \<longrightarrow> (\<forall>f \<in> set fs. \<not> fe_is_generic_template f \<longrightarrow> signature_laid_out c f))"
proof (induction fs arbitrary: d)
  case (Cons f fs)
  show ?case
  proof (cases "fe_is_generic_template f")
    case True
    with Cons show ?thesis
      by auto
  next
    case False
    let ?d = "at_unit (fe_unit f) d"
    have known: "checked_from c ?d"
      using assms(2) Cons.prems(1) by (rule checked_at)
    from Cons.prems(2) False obtain g d2 b where g: "fe_function f = Some g"
        and step: "check_type_references n (signature_types g) ?d = Some (d2, b)"
      by (auto simp: bind_eq_Some_conv split: option.splits)
    note one = references_checked [OF assms(1) known step]
    show ?thesis
    proof (cases b)
      case True
      with Cons.prems(2) step g False have "check_signatures n fs d2 = Some (d1, ok)"
        by simp
      from Cons.IH [OF _ this] one True g show ?thesis
        by (auto simp: signature_laid_out_def)
    next
      case b: False
      with Cons.prems(2) step one g False show ?thesis
        by auto
    qed
  qed
qed auto

text \<open>Beyond the fuel that is enough, resolution and the ownership walk do not depend on it.\<close>

lemma resolve_uniform:
  assumes "plain d" "acyclic_aliases d" "resolution_fuel d \<le> n"
  shows "type_resolve n t d = type_resolve (resolution_fuel d) t d"
proof -
  obtain r where "chain_ends (alias_step d) t r"
    using assms(2) unfolding acyclic_aliases_def by blast
  then have F: "chain_loop (alias_step d) (resolution_fuel d) t = Some r"
    using alias_chain.loop_decides [of d t r] by (simp add: alias_targets_def resolution_fuel_def)
  with assms(3) have "chain_loop (alias_step d) n t = Some r"
    by (auto simp: chain_loop_path intro: order_less_le_trans)
  with F show ?thesis
    by (simp add: type_resolve_chain [OF assms(1)])
qed

lemma memory_any_uniform:
  assumes "\<And>t d. skeleton d = s \<Longrightarrow> f t d = g t d"
    and "\<And>t d d1 b. skeleton d = s \<Longrightarrow> g t d = Some (d1, b) \<Longrightarrow> skeleton d1 = s"
  shows "skeleton d = s \<Longrightarrow> memory_any f ts d = memory_any g ts d"
proof (induction ts arbitrary: d)
  case (Cons t ts)
  then have "memory_any f ts d1 = memory_any g ts d1" if "g t d = Some (d1, b)" for d1 b
    using assms(2) that by blast
  with Cons.prems show ?case
    by (auto simp: assms(1) intro!: bind_option_cong)
qed simp

lemma walk_uniform:
  assumes "plain c" "acyclic_aliases c" "resolution_fuel c \<le> n" "leaf_tests direct decides"
  shows "skeleton d = skeleton c \<Longrightarrow>
    memory_walk direct decides n levels t d = memory_walk direct decides (resolution_fuel c) levels t d"
proof (induction levels arbitrary: t d)
  case (Suc levels)
  note exact = memory_walk_exact [OF assms(1,2) order_refl assms(4)]
  have any: "memory_any (memory_walk direct decides n levels) ts d =
      memory_any (memory_walk direct decides (resolution_fuel c) levels) ts d" if "skeleton d = skeleton c" for ts d
    using that
  proof (rule memory_any_uniform [rotated 2])
    show "skeleton d = skeleton c \<Longrightarrow> memory_walk direct decides (resolution_fuel c) levels t d = Some (d1, b) \<Longrightarrow>
        skeleton d1 = skeleton c" for t d d1 b
      using exact [of d levels t] by auto
  qed (rule Suc.IH)
  have fuel: "resolution_fuel d = resolution_fuel c"
    using frame_length [OF skeleton_frame [OF Suc.prems]] by (simp add: resolution_fuel_def)
  have resolve: "type_resolve n u d = type_resolve (resolution_fuel c) u d" for u
    using resolve_uniform [of d n u] skeleton_plain [OF Suc.prems] acyclic_skeleton [OF Suc.prems] assms(1,2,3)
    by (simp add: fuel)
  have kept: "skeleton d1 = skeleton c" if "type_resolve (resolution_fuel c) u d = Some (d1, x)" for u d1 x
    using resolve_enough [OF assms(1,2) Suc.prems order_refl, of u] that by auto
  show ?case
    using Suc.IH [OF Suc.prems] any [OF Suc.prems]
    by (auto simp: Let_def resolve any kept split: ast_type.splits option.splits bind_splits simp del: memory_any.simps)
qed simp

text \<open>Once the types are accepted, resolution and the ownership walk answer and leave the layouts as they are.\<close>

definition ready :: "semantic_context \<Rightarrow> bool" where
  "ready c \<longleftrightarrow> checkable c \<and> (\<forall>u. acyclic_aliases (at_unit u c))"

lemma readyD: "ready c \<Longrightarrow> plain c" "ready c \<Longrightarrow> owned_declarations c" "ready c \<Longrightarrow> acyclic_aliases (at_unit u c)"
  by (simp_all add: ready_def checkable_def)

lemma checked_same:
  assumes "checked_from c d" "skeleton e = skeleton d" "sc_types e = sc_types d"
  shows "checked_from c e"
proof -
  have "sc_active_unit e = sc_active_unit d"
    using assms(2) by (rule skeleton_parts(4))
  with assms show ?thesis
    by (simp add: checked_from_def layouts_known_def)
qed

lemma resolve_keeps:
  assumes "plain c" "checked_from c d" "type_resolve n t d = Some (e, x)"
  shows "checked_from c e"
proof -
  have "plain d"
    using skeleton_plain [OF layouts_known_skeleton [OF assms(2) [unfolded checked_from_def]]] assms(1) by simp
  then have "skeleton e = skeleton d \<and> sc_types e = sc_types d"
    using resolve_skeleton [of d d] assms(3) unfolding type_resolve_def by auto
  then show ?thesis
    using checked_same [OF assms(2)] by simp
qed

definition resolves_to :: "semantic_context \<Rightarrow> nat option \<Rightarrow> ast_type \<Rightarrow> resolved_type option" where
  "resolves_to c u t = resolved_value (at_unit u c) t"

definition owned_in :: "semantic_context \<Rightarrow> nat option \<Rightarrow> ast_type \<Rightarrow> bool" where
  "owned_in c u t \<longleftrightarrow> nested_deep (at_unit u c) 65 t
     \<or> has_part_that (at_unit u c) (decides_here memory_owner memory_owner_kind (at_unit u c)) t"

lemma answered:
  assumes "ready c" "checked_from c d" "resolution_fuel c \<le> n"
  shows "\<exists>e. type_resolve n t d = Some (e, resolves_to c (sc_active_unit d) t)
      \<and> checked_from c e \<and> sc_active_unit e = sc_active_unit d"
    and "\<exists>e. memory_type_is_owned n t d = Some (e, owned_in c (sc_active_unit d) t)
      \<and> checked_from c e \<and> sc_active_unit e = sc_active_unit d"
proof -
  let ?c = "at_unit (sc_active_unit d) c"
  have same: "skeleton d = skeleton ?c" and fuel: "resolution_fuel ?c \<le> n" and plain: "plain ?c"
    using layouts_known_skeleton assms readyD(1) unfolding checked_from_def by (auto simp: resolution_fuel_def)
  note acyclic = readyD(3) [OF assms(1)]
  have kept: "checked_from c e \<and> sc_active_unit e = sc_active_unit d"
    if "skeleton e = skeleton ?c" "sc_types e = sc_types d" for e
    using checked_same [OF assms(2) _ that(2)] skeleton_parts(4) [of e d] same that(1) by simp
  obtain e where "type_resolve n t d = Some (e, resolved_value ?c t)" "skeleton e = skeleton ?c" "sc_types e = sc_types d"
    using resolve_enough [OF plain acyclic same fuel] by blast
  with kept show "\<exists>e. type_resolve n t d = Some (e, resolves_to c (sc_active_unit d) t)
      \<and> checked_from c e \<and> sc_active_unit e = sc_active_unit d"
    by (auto simp: resolves_to_def)
  obtain e where "memory_walk memory_owner memory_owner_kind n 65 t d =
      Some (e, decided_within memory_owner memory_owner_kind ?c 65 t)" "skeleton e = skeleton ?c" "sc_types e = sc_types d"
    using memory_walk_exact [OF plain acyclic fuel owner_tests(1) same] by blast
  with kept show "\<exists>e. memory_type_is_owned n t d = Some (e, owned_in c (sc_active_unit d) t)
      \<and> checked_from c e \<and> sc_active_unit e = sc_active_unit d"
    by (auto simp: memory_type_is_owned_def memory_depth_limit_def owned_in_def decided_within_exact)
qed

lemma answers_settle:
  assumes "ready c" "checked_from c d"
  shows "finishes (\<lambda>n. type_resolve n t) d" "finishes (\<lambda>n. memory_type_is_owned n t) d"
proof -
  let ?c = "at_unit (sc_active_unit d) c" and ?N = "resolution_fuel c"
  have same: "skeleton d = skeleton ?c"
    using assms(2) unfolding checked_from_def by (rule layouts_known_skeleton)
  have plain: "plain ?c" and acyclic: "acyclic_aliases d"
    using readyD(1,3) [OF assms(1)] acyclic_skeleton [OF same] by simp_all
  then have plain_d: "plain d"
    using skeleton_plain [OF same] by blast
  have fuel: "resolution_fuel d = ?N" "resolution_fuel ?c = ?N"
    using checked_parts(1) [OF assms(2)] by (simp_all add: resolution_fuel_def)
  obtain e x where "type_resolve ?N t d = Some (e, x)"
    using answered(1) [OF assms order_refl] by blast
  then show "finishes (\<lambda>n. type_resolve n t) d"
    using resolve_uniform [OF plain_d acyclic, of _ t] by (intro finishesI [of ?N _ _ e x]) (metis fuel(1))
  obtain e b where "memory_type_is_owned ?N t d = Some (e, b)"
    using answered(2) [OF assms order_refl] by blast
  then show "finishes (\<lambda>n. memory_type_is_owned n t) d"
    using walk_uniform [OF plain readyD(3) [OF assms(1)] _ owner_tests(1) same] unfolding memory_type_is_owned_def
    by (intro finishesI [of ?N _ _ e b]) (metis fuel(2))
qed

text \<open>What the check asks of a value declared at the top: it is external, of a type that has a layout, a value and no owner.\<close>

definition valued :: "resolved_type option \<Rightarrow> bool" where
  "valued x \<longleftrightarrow> (\<exists>r. x = Some r \<and> rt_kind r \<noteq> RT_Void \<and> rt_kind r \<noteq> RT_Unknown)"

definition global_accepted :: "semantic_context \<Rightarrow> semantic_global_entry \<Rightarrow> bool" where
  "global_accepted c g \<longleftrightarrow> (\<exists>d. ge_declaration g = Some d \<and> global_external d
     \<and> (\<exists>l. has_layout (at_unit (ge_unit g) c) (global_type d) l)
     \<and> valued (resolves_to c (ge_unit g) (global_type d)) \<and> \<not> owned_in c (ge_unit g) (global_type d))"

lemma global_checked:
  assumes "ready c" "checked_from c d" "resolution_fuel c \<le> n" "check_global n saved g d = Some (d1, True)"
  shows "checked_from c d1 \<and> global_accepted c g"
proof -
  from assms(4) obtain b where b: "ge_declaration g = Some b"
    by (auto simp: check_global_def global_fail_def split: option.splits)
  let ?d = "at_unit (ge_unit g) d"
  have known: "checked_from c ?d"
    using readyD(2) [OF assms(1)] assms(2) by (rule checked_at)
  from assms(4) b obtain d2 ok where step: "semantic_check_type_reference n (global_type b) ?d = Some (d2, ok)"
    by (auto simp: check_global_def bind_eq_Some_conv)
  note one = reference_checked [OF readyD(1) [OF assms(1)] known step]
  then have known2: "checked_from c d2" and unit: "sc_active_unit d2 = ge_unit g"
    by simp_all
  obtain e where e: "type_resolve n (global_type b) d2 = Some (e, resolves_to c (ge_unit g) (global_type b))"
      "checked_from c e" "sc_active_unit e = ge_unit g"
    using answered(1) [OF assms(1) known2 assms(3)] unit by auto
  obtain f where f: "memory_type_is_owned n (global_type b) e = Some (f, owned_in c (ge_unit g) (global_type b))" "checked_from c f"
    using answered(2) [OF assms(1) e(2) assms(3)] e(3) by auto
  have ok
    using assms(4) b step by (cases ok) (simp_all add: check_global_def)
  then show ?thesis
    using assms(4) b step one e(1) f
    by (auto simp: check_global_def global_accepted_def global_fail_def valued_def split: option.splits if_splits)
qed

lemma global_finishes:
  assumes "ready c" "checked_from c d"
  shows "finishes (\<lambda>n. check_global n saved g) d"
proof (cases "ge_declaration g")
  case None
  then show ?thesis
    by (intro finishes_some [of _ _ "global_fail E1100_Internal_Context_Error zero_span saved d"]) (simp add: check_global_def)
next
  case (Some b)
  let ?d = "at_unit (ge_unit g) d" and ?t = "global_type b"
  note known = checked_at [OF readyD(2) [OF assms(1)] assms(2), of "ge_unit g"]
  let ?rest = "\<lambda>n r c2. if rt_kind r = RT_Void \<or> rt_kind r = RT_Unknown
      then Some (global_fail E0400_Mismatched_Types (global_span b) saved c2)
      else if \<not> global_external b
      then Some (global_fail E0404_Statement_Typecheck_Not_Implemented (global_span b) saved c2)
      else do {
        (c3, owned) \<leftarrow> memory_type_is_owned n ?t c2;
        if owned then Some (global_fail E0404_Statement_Typecheck_Not_Implemented (global_span b) saved c3)
        else Some (c3, True)
      }"
  have rest: "finishes (\<lambda>n. ?rest n r) e" if "checked_from c e" for r e
    using answers_settle(2) [OF assms(1) that, of ?t]
    by (intro finishes_if finishes_bind) (auto simp: finishes_def global_fail_def split: if_splits)
  let ?next = "\<lambda>n ok c1. if \<not> ok then Some (c1\<lparr>sc_active_unit := saved\<rparr>, False)
      else do {
        (c2, x) \<leftarrow> type_resolve n ?t c1;
        case x of
          None \<Rightarrow> Some (global_fail E0409_Unresolved_Type (global_span b) saved c2)
        | Some r \<Rightarrow> ?rest n r c2
      }"
  have "finishes (\<lambda>n c. do { (c1, ok) \<leftarrow> semantic_check_type_reference n ?t c; ?next n ok c1 }) ?d"
  proof (rule finishes_bind [OF reference_finishes [OF readyD(1) [OF assms(1)] known]])
    fix n e ok
    assume "semantic_check_type_reference n ?t ?d = Some (e, ok)"
    with reference_checked [OF readyD(1) [OF assms(1)] known] have e: "checked_from c e"
      by blast
    have "finishes (\<lambda>n c. do { (c2, x) \<leftarrow> type_resolve n ?t c;
        case x of
          None \<Rightarrow> Some (global_fail E0409_Unresolved_Type (global_span b) saved c2)
        | Some r \<Rightarrow> ?rest n r c2 }) e"
    proof (rule finishes_bind [OF answers_settle(1) [OF assms(1) e]])
      fix n f x
      assume "type_resolve n ?t e = Some (f, x)"
      with e have "checked_from c f"
        by (rule resolve_keeps [OF readyD(1) [OF assms(1)]])
      then show "finishes (\<lambda>n c2. case x of
          None \<Rightarrow> Some (global_fail E0409_Unresolved_Type (global_span b) saved c2)
        | Some r \<Rightarrow> ?rest n r c2) f"
        by (cases x) (use rest in \<open>simp_all add: finishes_some del: split_paired_All\<close>)
    qed
    then show "finishes (\<lambda>n. ?next n ok) e"
      by (cases ok) (simp_all add: finishes_def)
  qed
  then show ?thesis
    by (simp add: finishes_def check_global_def Some)
qed

lemma globals_checked:
  assumes "ready c" "resolution_fuel c \<le> n"
  shows "checked_from c d \<Longrightarrow> check_globals n saved gs d = Some (d1, True) \<Longrightarrow>
    checked_from c d1 \<and> sc_active_unit d1 = saved \<and> (\<forall>g \<in> set gs. global_accepted c g)"
proof (induction gs arbitrary: d)
  case Nil
  with checked_at [OF readyD(2) [OF assms(1)]] show ?case
    by auto
next
  case (Cons g gs)
  from Cons.prems(2) obtain d2 ok where step: "check_global n saved g d = Some (d2, ok)"
    by (auto simp: bind_eq_Some_conv)
  with Cons.prems(2) have ok and rest: "check_globals n saved gs d2 = Some (d1, True)"
    by (cases ok; simp)+
  with step global_checked [OF assms(1) Cons.prems(1) assms(2)] have "checked_from c d2 \<and> global_accepted c g"
    by simp
  with Cons.IH [OF _ rest] show ?case
    by simp
qed

lemma globals_finish:
  assumes "ready c"
  shows "checked_from c d \<Longrightarrow> finishes (\<lambda>n. check_globals n saved gs) d"
proof (induction gs arbitrary: d)
  case (Cons g gs)
  have "finishes (\<lambda>n c. do { (c1, ok) \<leftarrow> check_global n saved g c;
      if ok then check_globals n saved gs c1 else Some (c1, False) }) d"
  proof (rule finishes_bind_large [OF global_finishes [OF assms Cons.prems]])
    fix N e ok
    assume "\<forall>n \<ge> N. check_global n saved g d = Some (e, ok)"
    then have "check_global (max N (resolution_fuel c)) saved g d = Some (e, ok)"
      by simp
    then have "checked_from c e" if ok
      using global_checked [OF assms Cons.prems, of "max N (resolution_fuel c)"] that by simp
    then show "finishes (\<lambda>n c1. if ok then check_globals n saved gs c1 else Some (c1, False)) e"
      by (intro finishes_if Cons.IH finishes_done)
  qed
  then show ?case
    by simp
qed (simp add: finishes_some)

text \<open>The main function of an accepted program: no parameters and an integer to return.\<close>

definition main_accepted :: "semantic_context \<Rightarrow> bool" where
  "main_accepted c \<longleftrightarrow> (\<exists>i f r. sc_main c = Some i \<and> fe_function (sc_functions c ! i) = Some f
     \<and> function_parameters f = [] \<and> resolves_to c None (slot_type (function_output f)) = Some r
     \<and> rt_kind r \<in> {RT_Signed_Integer, RT_Unsigned_Integer})"

lemma entry_point_checked:
  assumes "ready c" "checked_from c d" "sc_active_unit d = None" "resolution_fuel c \<le> n"
    and "semantic_check_entry_point n d = Some (d1, True)"
  shows "main_accepted c"
proof -
  from assms(5) obtain i f where i: "sc_main c = Some i" "fe_function (sc_functions c ! i) = Some f"
    and none: "function_parameters f = []"
    using checked_parts(3,5) [OF assms(2)]
    by (auto simp: semantic_check_entry_point_def split: option.splits if_splits bind_splits)
  obtain e where "type_resolve n (slot_type (function_output f)) d =
      Some (e, resolves_to c None (slot_type (function_output f)))"
    using answered(1) [OF assms(1,2,4)] assms(3) by auto
  with assms(5) i none show ?thesis
    using checked_parts(3,5) [OF assms(2)]
    by (auto simp: semantic_check_entry_point_def main_accepted_def split: option.splits if_splits)
qed

lemma entry_point_finishes:
  assumes "ready c" "checked_from c d"
  shows "finishes semantic_check_entry_point d"
proof (cases "Option.bind (sc_main d) (\<lambda>i. fe_function (sc_functions d ! i))")
  case None
  then show ?thesis
    by (intro finishes_some) (simp add: semantic_check_entry_point_def)
next
  case (Some f)
  show ?thesis
  proof (cases "function_parameters f = []")
    case False
    with Some show ?thesis
      by (intro finishes_some) (simp add: semantic_check_entry_point_def)
  next
    case True
    let ?t = "slot_type (function_output f)"
    have "finishes (\<lambda>n c. do { (c1, x) \<leftarrow> type_resolve n ?t c;
        case x of
          None \<Rightarrow> Some (c1, False)
        | Some r \<Rightarrow>
            if rt_kind r \<noteq> RT_Signed_Integer \<and> rt_kind r \<noteq> RT_Unsigned_Integer
            then Some (semantic_fail c1 E0408_Main_Bad_Signature (function_span f), False)
            else Some (c1, True) }) d"
      by (intro finishes_bind finishes_option finishes_if finishes_done answers_settle(1) [OF assms])
    with Some True show ?thesis
      by (simp add: finishes_def semantic_check_entry_point_def)
  qed
qed

lemma function_signatures_finish:
  assumes "ready c" "checked_from c d" "functions_known c"
  shows "finishes semantic_check_function_signatures d"
proof -
  have "\<forall>f \<in> set (sc_functions d). fe_function f \<noteq> None"
    using assms(3) checked_parts(3) [OF assms(2)] by (simp add: functions_known_def)
  from signatures_finish [OF readyD(1,2) [OF assms(1)] assms(2) this]
  obtain N e ok where "\<forall>n \<ge> N. check_signatures n (sc_functions d) d = Some (e, ok)"
    unfolding finishes_def by blast
  then show ?thesis
    by (intro finishesI [of N _ _ "if ok then at_unit None e else e" ok]) (simp add: semantic_check_function_signatures_def)
qed

lemma function_signatures_checked:
  assumes "ready c" "checked_from c d" "semantic_check_function_signatures n d = Some (e, ok)"
  shows "checked_from c e"
proof -
  from assms(3) obtain f where f: "check_signatures n (sc_functions d) d = Some (f, ok)" "e = (if ok then at_unit None f else f)"
    by (auto simp: semantic_check_function_signatures_def bind_eq_Some_conv)
  with signatures_checked [OF readyD(1,2) [OF assms(1)] assms(2) f(1)] checked_at [OF readyD(2) [OF assms(1)]]
  show ?thesis
    by simp
qed

lemma later_checks_finish:
  assumes "ready c" "checked_from c d" "functions_known c"
  shows "finishes (\<lambda>n c1. do { (c2, functions_ok) \<leftarrow> semantic_check_function_signatures n c1;
      if \<not> functions_ok then Some (c2, False)
      else do { (c3, globals_ok) \<leftarrow> semantic_check_global_declarations n c2;
        if \<not> globals_ok then Some (c3, False) else semantic_check_entry_point n c3 } }) d"
proof (rule finishes_bind [OF function_signatures_finish [OF assms]])
  fix n e ok
  assume "semantic_check_function_signatures n d = Some (e, ok)"
  with assms(1,2) have e: "checked_from c e"
    by (rule function_signatures_checked)
  let ?rest = "\<lambda>n c2. do { (c3, globals_ok) \<leftarrow> semantic_check_global_declarations n c2;
      if \<not> globals_ok then Some (c3, False) else semantic_check_entry_point n c3 }"
  have "finishes ?rest e"
  proof (rule finishes_bind_large)
    show "finishes semantic_check_global_declarations e"
      using globals_finish [OF assms(1) e] by (simp add: finishes_def semantic_check_global_declarations_def)
    fix N f ok
    assume "\<forall>n \<ge> N. semantic_check_global_declarations n e = Some (f, ok)"
    then have "check_globals (max N (resolution_fuel c)) (sc_active_unit e) (sc_globals e) e = Some (f, ok)"
      by (simp add: semantic_check_global_declarations_def)
    with globals_checked [OF assms(1) _ e, of "max N (resolution_fuel c)"] have "checked_from c f" if ok
      using that by simp
    then show "finishes (\<lambda>n c3. if \<not> ok then Some (c3, False) else semantic_check_entry_point n c3) f"
      using entry_point_finishes [OF assms(1)] by (intro finishes_if finishes_done) simp
  qed
  then show "finishes (\<lambda>n c2. if \<not> ok then Some (c2, False) else ?rest n c2) e"
    by (intro finishes_if finishes_done)
qed

section \<open>Whole programs\<close>

definition types_laid_out :: "semantic_context \<Rightarrow> bool" where
  "types_laid_out c \<longleftrightarrow> (\<forall>i < length (sc_types c). entry_laid_out c i)"

lemma ready_when_accepted:
  "checkable c \<Longrightarrow> semantic_check_type_declarations n c = Some (d, True) \<Longrightarrow> ready c \<and> types_laid_out c \<and> checked_from c d"
  using accepted_types unfolding ready_def types_laid_out_def by blast

section \<open>Examples\<close>

text \<open>
  A struct \<open>S\<close> of a byte and a word, an alias \<open>A\<close> of it, an external value of type \<open>A\<close> and a main
  function that returns an integer; and the same program with \<open>A\<close> an alias of itself.
\<close>

definition example_main :: ast_function where
  "example_main = \<lparr>function_node = 1, function_span = zero_span, function_name = [0x6D], function_public = True,
     function_external = False, function_type_parameters = [], function_parameters = [],
     function_output = \<lparr>slot_span = zero_span, slot_type = Type_Integer\<rparr>, function_body = None\<rparr>"

definition example_with_alias :: "text_slice \<Rightarrow> semantic_context" where
  "example_with_alias target = example_context
     \<lparr>sc_types := [example_entry [0x53] (Decl_Struct example_fields), example_entry [0x41] (Decl_Alias (Type_Named 7 target []))],
      sc_type_owners := [owned_by (Some 0) 7],
      sc_unit_name_ranges := [\<lparr>range_unit = Some 0, range_type_begin = 0, range_type_end = 2,
        range_function_begin = 0, range_function_end = 1, range_global_begin = 0, range_global_end = 1\<rparr>],
      sc_functions := [\<lparr>fe_name = [0x6D], fe_function = Some example_main, fe_callable_type = None,
        fe_template_function = None, fe_type_arguments = [], fe_is_generic_template = False, fe_unit = Some 0,
        fe_public = True, fe_index = 0, fe_reference_return_parameter = 0, fe_composite_view_return_parameter = 0\<rparr>],
      sc_globals := [\<lparr>ge_name = [0x67], ge_declaration = Some \<lparr>global_span = zero_span, global_type = Type_Named 7 [0x41] [],
        global_link_name = [0x67], global_external = True\<rparr>, ge_unit = Some 0, ge_public = True\<rparr>],
      sc_main := Some 0\<rparr>"

definition example_program :: semantic_context where
  "example_program = example_with_alias [0x53]"

definition example_cyclic_program :: semantic_context where
  "example_cyclic_program = example_with_alias [0x41]"

lemma example_checkable: "checkable (example_with_alias target)"
proof -
  have "owner_of (example_with_alias target) 7 = Some 0"
    by (simp add: owner_of_def semantic_type_owner_unit_def example_with_alias_def Let_def)
  then have "owned_declarations (example_with_alias target)"
    by (simp add: owned_declarations_def owned_body_def owned_type_def declared_types_def example_with_alias_def
        example_entry_def example_fields_def struct_field_types_def)
  moreover have "sc_generic_types (example_with_alias target) = []"
    by (simp add: example_with_alias_def example_context_def semantic_context_init_def)
  ultimately show ?thesis
    by (simp add: checkable_def plain_def) (simp add: example_with_alias_def example_entry_def)
qed

lemma example_functions: "functions_known (example_with_alias target)"
  by (simp add: functions_known_def example_with_alias_def)

lemma example_runs:
  "map_option snd (semantic_check_program 5 example_program) = Some True"
  "map_option snd (semantic_check_type_declarations 5 example_program) = Some True"
  "map_option snd (semantic_check_program 9 example_cyclic_program) = Some False"
  by code_simp+

section \<open>Properties\<close>







end
