(* ===== verification/Target.thy ===== *)
theory Target
  imports Source
begin

text \<open>
  Compilation targets (\<open>src/target/bootstrap_target.c\<close>): the aliases of targets, the facts read off
  a normalized triple, and the spellings the conditions of a module compare with. The default triple
  and the normalization are those of LLVM, a library, and parameters here; a null C string is \<open>None\<close>.
\<close>

section \<open>Targets\<close>

datatype target_architecture = Architecture_Unknown | Architecture_AArch64 | Architecture_X86_64
  | Architecture_RISCV64 | Architecture_Wasm32 | Architecture_Wasm64

datatype target_platform = Platform_Unknown | Platform_Darwin | Platform_Linux | Platform_Windows | Platform_Wasi

datatype target_environment = Environment_Unknown | Environment_GNU | Environment_Musl | Environment_MSVC

record bootstrap_target =
  target_triple :: "bytes option"
  target_architecture_of :: target_architecture
  target_platform_of :: target_platform
  target_environment_of :: target_environment

datatype target_condition_field = Condition_Platform | Condition_Environment | Condition_Architecture
  | Condition_Platform_Family | Condition_Object_Format | Condition_Byte_Order | Condition_Pointer_Width

text \<open>The target after \<open>memset\<close>.\<close>

definition zero_target :: bootstrap_target where
  "zero_target = \<lparr>target_triple = None, target_architecture_of = Architecture_Unknown,
     target_platform_of = Platform_Unknown, target_environment_of = Environment_Unknown\<rparr>"

section \<open>Classification\<close>

definition target_alias :: "bytes \<Rightarrow> bytes" where
  "target_alias requested =
     (if requested = [0x61, 0x72, 0x6D, 0x36, 0x34, 0x2D, 0x64, 0x61, 0x72, 0x77, 0x69, 0x6E]
      then [0x61, 0x61, 0x72, 0x63, 0x68, 0x36, 0x34, 0x2D, 0x61, 0x70, 0x70, 0x6C, 0x65, 0x2D, 0x6D, 0x61, 0x63, 0x6F, 0x73, 0x78, 0x31, 0x31, 0x2E, 0x30, 0x2E, 0x30]
      else if requested = [0x78, 0x38, 0x36, 0x5F, 0x36, 0x34, 0x2D, 0x6C, 0x69, 0x6E, 0x75, 0x78]
      then [0x78, 0x38, 0x36, 0x5F, 0x36, 0x34, 0x2D, 0x75, 0x6E, 0x6B, 0x6E, 0x6F, 0x77, 0x6E, 0x2D, 0x6C, 0x69, 0x6E, 0x75, 0x78, 0x2D, 0x67, 0x6E, 0x75]
      else requested)"

text \<open>The loop of \<open>strchr\<close>: the text after the next hyphens.\<close>

primrec skip_components :: "nat \<Rightarrow> bytes \<Rightarrow> bytes option" where
  "skip_components 0 t = Some t"
| "skip_components (Suc k) t =
     (case dropWhile (\<lambda>b. b \<noteq> 0x2D) t of [] \<Rightarrow> None | _ # rest \<Rightarrow> skip_components k rest)"

text \<open>One component, unless it is empty or does not fit the buffer of 32 bytes with its terminator.\<close>

definition target_component :: "bytes \<Rightarrow> nat \<Rightarrow> bytes option" where
  "target_component triple k =
     (case skip_components k triple of
        None \<Rightarrow> None
      | Some start \<Rightarrow>
          (let component = takeWhile (\<lambda>b. b \<noteq> 0x2D) start
           in if component = [] \<or> length component \<ge> 32 then None else Some component))"

definition starts_with :: "bytes \<Rightarrow> bytes \<Rightarrow> bool" where
  "starts_with t s \<longleftrightarrow> take (length s) t = s"

definition classify_architecture :: "bytes \<Rightarrow> target_architecture" where
  "classify_architecture t =
     (if t = [0x61, 0x61, 0x72, 0x63, 0x68, 0x36, 0x34] \<or> t = [0x61, 0x72, 0x6D, 0x36, 0x34] then Architecture_AArch64
      else if t = [0x78, 0x38, 0x36, 0x5F, 0x36, 0x34] \<or> t = [0x61, 0x6D, 0x64, 0x36, 0x34] then Architecture_X86_64
      else if t = [0x72, 0x69, 0x73, 0x63, 0x76, 0x36, 0x34] then Architecture_RISCV64
      else if t = [0x77, 0x61, 0x73, 0x6D, 0x33, 0x32] then Architecture_Wasm32
      else if t = [0x77, 0x61, 0x73, 0x6D, 0x36, 0x34] then Architecture_Wasm64
      else Architecture_Unknown)"

definition classify_platform :: "bytes \<Rightarrow> target_platform" where
  "classify_platform t =
     (if starts_with t [0x64, 0x61, 0x72, 0x77, 0x69, 0x6E] \<or> starts_with t [0x6D, 0x61, 0x63, 0x6F, 0x73] then Platform_Darwin
      else if t = [0x6C, 0x69, 0x6E, 0x75, 0x78] then Platform_Linux
      else if t = [0x77, 0x69, 0x6E, 0x64, 0x6F, 0x77, 0x73] \<or> t = [0x77, 0x69, 0x6E, 0x33, 0x32] then Platform_Windows
      else if t = [0x77, 0x61, 0x73, 0x69] \<or> t = [0x77, 0x61, 0x73, 0x69, 0x70, 0x31] \<or> t = [0x77, 0x61, 0x73, 0x69, 0x70, 0x32]
      then Platform_Wasi
      else Platform_Unknown)"

definition classify_environment :: "bytes \<Rightarrow> target_environment" where
  "classify_environment t =
     (if starts_with t [0x67, 0x6E, 0x75] then Environment_GNU
      else if starts_with t [0x6D, 0x75, 0x73, 0x6C] then Environment_Musl
      else if t = [0x6D, 0x73, 0x76, 0x63] then Environment_MSVC
      else Environment_Unknown)"

definition target_classify :: "bootstrap_target \<Rightarrow> bootstrap_target" where
  "target_classify g =
     (case target_triple g of
        None \<Rightarrow> g
      | Some t \<Rightarrow>
          g\<lparr>target_architecture_of :=
               (case target_component t 0 of None \<Rightarrow> target_architecture_of g | Some x \<Rightarrow> classify_architecture x),
             target_platform_of :=
               (case target_component t 2 of None \<Rightarrow> target_platform_of g | Some x \<Rightarrow> classify_platform x),
             target_environment_of :=
               (case target_component t 3 of None \<Rightarrow> target_environment_of g | Some x \<Rightarrow> classify_environment x)\<rparr>)"

text \<open>
  The initialization from the requested target, with the default triple of LLVM and its normalization;
  the result is the target and, when it fails, the message.
\<close>

definition bootstrap_target_init ::
    "bytes option \<Rightarrow> (bytes \<Rightarrow> bytes option) \<Rightarrow> bytes option \<Rightarrow> bootstrap_target \<times> string option" where
  "bootstrap_target_init default_triple normalized requested =
     (if requested = Some [] then (zero_target, Some ''empty bootstrap target'')
      else (case (case requested of Some r \<Rightarrow> Some (target_alias r) | None \<Rightarrow> default_triple) of
              None \<Rightarrow> (zero_target, Some ''LLVM did not provide a default target triple'')
            | Some source \<Rightarrow>
                if source = [] then (zero_target, Some ''LLVM did not provide a default target triple'')
                else (case normalized source of
                        Some (x # xs) \<Rightarrow> (target_classify (zero_target\<lparr>target_triple := Some (x # xs)\<rparr>), None)
                      | _ \<Rightarrow> (zero_target, Some ''LLVM could not normalized the requested target triple''))))"

section \<open>Spellings\<close>

definition platform_spelling :: "target_platform \<Rightarrow> bytes" where
  "platform_spelling g =
     (case g of
        Platform_Darwin \<Rightarrow> [0x6D, 0x61, 0x63, 0x6F, 0x73]
      | Platform_Linux \<Rightarrow> [0x6C, 0x69, 0x6E, 0x75, 0x78]
      | Platform_Windows \<Rightarrow> [0x77, 0x69, 0x6E, 0x64, 0x6F, 0x77, 0x73]
      | Platform_Wasi \<Rightarrow> [0x77, 0x61, 0x73, 0x69]
      | Platform_Unknown \<Rightarrow> [0x75, 0x6E, 0x6B, 0x6E, 0x6F, 0x77, 0x6E])"

definition environment_spelling :: "target_environment \<Rightarrow> bytes" where
  "environment_spelling g =
     (case g of
        Environment_GNU \<Rightarrow> [0x67, 0x6E, 0x75]
      | Environment_Musl \<Rightarrow> [0x6D, 0x75, 0x73, 0x6C]
      | Environment_MSVC \<Rightarrow> [0x6D, 0x73, 0x76, 0x63]
      | Environment_Unknown \<Rightarrow> [0x75, 0x6E, 0x6B, 0x6E, 0x6F, 0x77, 0x6E])"

definition architecture_spelling :: "target_architecture \<Rightarrow> bytes option" where
  "architecture_spelling g =
     (case g of
        Architecture_AArch64 \<Rightarrow> Some [0x61, 0x61, 0x72, 0x63, 0x68, 0x36, 0x34]
      | Architecture_X86_64 \<Rightarrow> Some [0x78, 0x38, 0x36, 0x5F, 0x36, 0x34]
      | Architecture_RISCV64 \<Rightarrow> Some [0x72, 0x69, 0x73, 0x63, 0x76, 0x36, 0x34]
      | Architecture_Wasm32 \<Rightarrow> Some [0x77, 0x61, 0x73, 0x6D, 0x33, 0x32]
      | Architecture_Wasm64 \<Rightarrow> Some [0x77, 0x61, 0x73, 0x6D, 0x36, 0x34]
      | Architecture_Unknown \<Rightarrow> None)"

definition platform_family_spelling :: "target_platform \<Rightarrow> bytes" where
  "platform_family_spelling g =
     (case g of
        Platform_Darwin \<Rightarrow> [0x75, 0x6E, 0x69, 0x78]
      | Platform_Linux \<Rightarrow> [0x75, 0x6E, 0x69, 0x78]
      | Platform_Windows \<Rightarrow> [0x77, 0x69, 0x6E, 0x64, 0x6F, 0x77, 0x73]
      | Platform_Wasi \<Rightarrow> [0x77, 0x61, 0x73, 0x6D]
      | Platform_Unknown \<Rightarrow> [0x6E, 0x6F, 0x6E, 0x65])"

definition object_format_spelling :: "target_platform \<Rightarrow> bytes option" where
  "object_format_spelling g =
     (case g of
        Platform_Darwin \<Rightarrow> Some [0x6D, 0x61, 0x63, 0x68, 0x6F]
      | Platform_Linux \<Rightarrow> Some [0x65, 0x6C, 0x66]
      | Platform_Windows \<Rightarrow> Some [0x63, 0x6F, 0x66, 0x66]
      | Platform_Wasi \<Rightarrow> Some [0x77, 0x61, 0x73, 0x6D]
      | Platform_Unknown \<Rightarrow> None)"

definition pointer_width_spelling :: "target_architecture \<Rightarrow> bytes option" where
  "pointer_width_spelling g =
     (case g of
        Architecture_AArch64 \<Rightarrow> Some [0x36, 0x34]
      | Architecture_X86_64 \<Rightarrow> Some [0x36, 0x34]
      | Architecture_RISCV64 \<Rightarrow> Some [0x36, 0x34]
      | Architecture_Wasm64 \<Rightarrow> Some [0x36, 0x34]
      | Architecture_Wasm32 \<Rightarrow> Some [0x33, 0x32]
      | Architecture_Unknown \<Rightarrow> None)"

definition bootstrap_target_condition_value ::
    "bootstrap_target option \<Rightarrow> target_condition_field \<Rightarrow> bytes option" where
  "bootstrap_target_condition_value target field =
     (case target of
        None \<Rightarrow> None
      | Some g \<Rightarrow>
          if target_triple g = None then None
          else (case field of
                  Condition_Platform \<Rightarrow> Some (platform_spelling (target_platform_of g))
                | Condition_Environment \<Rightarrow> Some (environment_spelling (target_environment_of g))
                | Condition_Architecture \<Rightarrow> architecture_spelling (target_architecture_of g)
                | Condition_Platform_Family \<Rightarrow> Some (platform_family_spelling (target_platform_of g))
                | Condition_Object_Format \<Rightarrow> object_format_spelling (target_platform_of g)
                | Condition_Byte_Order \<Rightarrow>
                    if target_architecture_of g = Architecture_Unknown then None
                    else Some [0x6C, 0x69, 0x74, 0x74, 0x6C, 0x65]
                | Condition_Pointer_Width \<Rightarrow> pointer_width_spelling (target_architecture_of g)))"

end
