(* ===== verification/Parser.thy ===== *)
theory Parser
  imports Lexer Ast Target
begin

text \<open>
  The state and cursor of the parser: \<open>include/private/frontend/parser/internal.h\<close>, the files
  \<open>parser_core_*.c\<close>, \<open>parser_ast_factory.c\<close> and \<open>parser_token_payload.c\<close> under
  \<open>src/frontend/parser\<close>. The parser looks one token ahead and fills one diagnostic.

  A parsing function returns what it parsed with the new state, or rejects, or has used up its fuel.
  Nodes, copies and elements of growing arrays take an answer of the allocator each, \<open>parser_heap\<close>.
  An array that cannot be moved into the tree is left null with its count, unchecked; from then on
  \<open>parser_lost\<close> is set, and the tree must not be read.
\<close>

section \<open>State\<close>

record parser =
  parser_lexer :: lexer
  parser_current :: token
  parser_next :: token
  parser_previous :: token
  parser_diagnostic :: diagnostic
  parser_next_temporary :: temporary_id
  parser_target :: "bootstrap_target option"
  parser_failed :: bool
  parser_heap :: "nat \<Rightarrow> bool"
  parser_next_node :: node
  parser_lost :: bool

abbreviation current_kind :: "parser \<Rightarrow> token_kind" where
  "current_kind p \<equiv> token_kind_of (parser_current p)"

abbreviation parser_start :: "parser \<Rightarrow> source_position" where
  "parser_start p \<equiv> span_start (token_span (parser_current p))"

abbreviation parser_end :: "parser \<Rightarrow> source_position" where
  "parser_end p \<equiv> span_end (token_span (parser_previous p))"

definition parser_span :: "source_position \<Rightarrow> source_position \<Rightarrow> source_span" where
  "parser_span start stop = \<lparr>span_start = start, span_end = stop\<rparr>"

section \<open>Outcomes\<close>

datatype 'a parsed = Parsed 'a parser | Rejected parser | Unfinished

type_synonym 'a parse = "parser \<Rightarrow> 'a parsed"

definition and_then :: "'a parse \<Rightarrow> ('a \<Rightarrow> 'b parse) \<Rightarrow> 'b parse" where
  "and_then m f p =
     (case m p of Parsed x p1 \<Rightarrow> f x p1 | Rejected p1 \<Rightarrow> Rejected p1 | Unfinished \<Rightarrow> Unfinished)"

definition parse_map :: "('a \<Rightarrow> 'b) \<Rightarrow> 'a parse \<Rightarrow> 'b parse" where
  "parse_map f m p =
     (case m p of Parsed x p1 \<Rightarrow> Parsed (f x) p1 | Rejected p1 \<Rightarrow> Rejected p1 | Unfinished \<Rightarrow> Unfinished)"

text \<open>A step that answers whether it succeeded, where its failure is the failure of the caller.\<close>

definition must :: "(parser \<Rightarrow> parser \<times> bool) \<Rightarrow> unit parse" where
  "must f p = (case f p of (p1, ok) \<Rightarrow> if ok then Parsed () p1 else Rejected p1)"

section \<open>Failures\<close>

definition parser_fail_with_id :: "error_id \<Rightarrow> wording_key \<Rightarrow> parser \<Rightarrow> parser" where
  "parser_fail_with_id i key p =
     p\<lparr>parser_diagnostic := diagnostic_set_message_key (diagnostic_begin i (token_span (parser_current p))) key,
       parser_failed := True\<rparr>"

definition parser_fail :: "wording_key \<Rightarrow> parser \<Rightarrow> parser" where
  "parser_fail = parser_fail_with_id E0001_Syntax_Error"

definition parser_fail_internal :: "wording_key \<Rightarrow> parser \<Rightarrow> parser" where
  "parser_fail_internal = parser_fail_with_id E1100_Internal_Context_Error"

definition reject :: "wording_key \<Rightarrow> 'a parse" where
  "reject key p = Rejected (parser_fail key p)"

definition reject_oom :: "'a parse" where
  "reject_oom p = Rejected (parser_fail_internal Diag_Word_Syntax_Internal_Oom p)"

text \<open>The report of a caller that does not know whether its callee has already made one.\<close>

definition reject_unreported :: "(parser \<Rightarrow> parser) \<Rightarrow> 'a parse" where
  "reject_unreported report p = Rejected (if parser_failed p then p else report p)"

section \<open>The cursor\<close>

definition parser_read_token :: "parser \<Rightarrow> parser \<times> token option" where
  "parser_read_token p =
     (case lexer_next (parser_lexer p) of
        (l, Some t) \<Rightarrow> (p\<lparr>parser_lexer := l\<rparr>, Some t)
      | (l, None) \<Rightarrow>
          (p\<lparr>parser_lexer := l,
             parser_diagnostic := (case lexer_diagnostic_view (Some l) of
                                     None \<Rightarrow> parser_diagnostic p | Some d \<Rightarrow> d),
             parser_failed := True\<rparr>, None))"

definition zero_token :: token where
  "zero_token = \<lparr>token_kind_of = 0, token_span = zero_span, token_lexeme = [], token_payload = No_Payload\<rparr>"

definition parser_init ::
    "(nat \<Rightarrow> bool) \<Rightarrow> (nat \<Rightarrow> bool) \<Rightarrow> node \<Rightarrow> diagnostic \<Rightarrow> source_file \<Rightarrow> parser \<times> bool" where
  "parser_init lexer_answers answers fresh zero source =
     (let p = \<lparr>parser_lexer = lexer_init lexer_answers (Some source), parser_current = zero_token,
               parser_next = zero_token, parser_previous = zero_token, parser_diagnostic = zero,
               parser_next_temporary = 1, parser_target = None, parser_failed = False,
               parser_heap = answers, parser_next_node = fresh, parser_lost = False\<rparr>
      in case parser_read_token p of
           (p1, None) \<Rightarrow> (p1, False)
         | (p1, Some t) \<Rightarrow>
             (case parser_read_token (p1\<lparr>parser_current := t\<rparr>) of
                (p2, None) \<Rightarrow> (p2, False)
              | (p2, Some u) \<Rightarrow> (p2\<lparr>parser_next := u, parser_previous := t\<rparr>, True)))"

definition parser_advance :: "parser \<Rightarrow> parser \<times> bool" where
  "parser_advance p =
     (if parser_failed p then (p, False)
      else (let p1 = p\<lparr>parser_previous := parser_current p, parser_current := parser_next p\<rparr>
            in if current_kind p1 = TK_EOF then (p1\<lparr>parser_next := parser_current p1\<rparr>, True)
               else (case parser_read_token p1 of
                       (p2, None) \<Rightarrow> (p2, False)
                     | (p2, Some t) \<Rightarrow> (p2\<lparr>parser_next := t\<rparr>, True))))"

definition parser_accept :: "token_kind \<Rightarrow> parser \<Rightarrow> parser \<times> bool" where
  "parser_accept k p = (if current_kind p \<noteq> k then (p, False) else parser_advance p)"

definition parser_token_is_contextual_name :: "token \<Rightarrow> bool" where
  "parser_token_is_contextual_name t \<longleftrightarrow> token_kind_of t = TK_IDENTIFIER \<or> token_is_keyword_kind (token_kind_of t)"

definition parser_take_contextual_name :: "text_slice parse" where
  "parser_take_contextual_name p =
     (if \<not> parser_token_is_contextual_name (parser_current p) then Rejected p
      else parse_map (\<lambda>_. token_lexeme (parser_current p)) (must parser_advance) p)"

text \<open>How the expected token is spelled in the report.\<close>

definition parser_expected_token_spelling :: "token_kind \<Rightarrow> bytes" where
  "parser_expected_token_spelling k =
     (if k = TK_LEFT_PARENTHESIS_OPERATOR then [0x28]
      else if k = TK_RIGHT_PARENTHESIS_OPERATOR then [0x29]
      else if k = TK_LEFT_BRACE_OPERATOR then [0x7B]
      else if k = TK_RIGHT_BRACE_OPERATOR then [0x7D]
      else if k = TK_LEFT_BRACKET_OPERATOR then [0x5B]
      else if k = TK_RIGHT_BRACKET_OPERATOR then [0x5D]
      else if k = TK_COMMA_OPERATOR then [0x2C]
      else if k = TK_SEMICOLON_OPERATOR then [0x3B]
      else if k = TK_COLON_OPERATOR then [0x3A]
      else if k = TK_OPERATOR_ASSIGNMENT_COLON then [0x3A, 0x3D]
      else if k = TK_DEFINITION_SEPARATOR then [0x3D]
      else if k = TK_EQUALS_OPERATOR then [0x3D, 0x3D]
      else if k = TK_DOT_OPERATOR then [0x2E]
      else if k = TK_GREATER_THAN_OPERATOR then [0x3E]
      else if k = TK_RIGHT_ARROW_OPERATOR then [0x2D, 0x3E]
      else if k = TK_WITH \<or> k = TK_FUNCTION_DEF then [0x6B, 0x65, 0x79, 0x77, 0x6F, 0x72, 0x64]
      else [0x74, 0x6F, 0x6B, 0x65, 0x6E])"

definition parser_set_found_argument :: "parser \<Rightarrow> diagnostic \<Rightarrow> diagnostic" where
  "parser_set_found_argument p d =
     (if token_lexeme (parser_current p) \<noteq> []
      then snd (diagnostic_set_argument_text d Argument_Found (token_lexeme (parser_current p)))
      else snd (diagnostic_set_argument_cstr d Argument_Found (Some [0x3C, 0x45, 0x4F, 0x46, 0x3E])))"

definition parser_fail_missing_semicolon :: "parser \<Rightarrow> parser" where
  "parser_fail_missing_semicolon p =
     (let insertion = parser_span (parser_end p) (parser_end p);
          d1 = diagnostic_set_primary_role
                 (diagnostic_set_message_key (diagnostic_begin E0001_Syntax_Error insertion)
                    Diag_Word_Syntax_Missing_Semicolon) Role_Expected_Here;
          d2 = snd (diagnostic_set_argument_cstr d1 Argument_Expected (Some [0x3B]));
          d3 = snd (diagnostic_add_related_span d2 (token_span (parser_current p)) Role_Parser_Discovery);
          d4 = snd (diagnostic_add_help d3 Diag_Word_Help_Insert_Semicolon);
          d5 = snd (diagnostic_add_fix d4 insertion (Some [0x3B]) Machine_Applicable Diag_Word_Fix_Insert_Semicolon)
      in p\<lparr>parser_diagnostic := d5, parser_failed := True\<rparr>)"

definition parser_fail_expected :: "token_kind \<Rightarrow> parser \<Rightarrow> parser" where
  "parser_fail_expected k p =
     (let d1 = diagnostic_set_primary_role
                 (diagnostic_set_message_key
                    (diagnostic_begin E0001_Syntax_Error (token_span (parser_current p)))
                    Diag_Word_Syntax_Expected_Found) Role_Expected_Here;
          d2 = snd (diagnostic_set_argument_cstr d1 Argument_Expected (Some (parser_expected_token_spelling k)))
      in p\<lparr>parser_diagnostic := parser_set_found_argument p d2, parser_failed := True\<rparr>)"

definition parser_expect :: "token_kind \<Rightarrow> parser \<Rightarrow> parser \<times> bool" where
  "parser_expect k p =
     (if current_kind p = k then parser_advance p
      else if k = TK_SEMICOLON_OPERATOR then (parser_fail_missing_semicolon p, False)
      else if k = TK_FUNCTION_DEF then (parser_fail Diag_Word_Syntax_Expected_Function_Definition p, False)
      else if k = TK_WITH then (parser_fail Diag_Word_Syntax_Expected_With p, False)
      else (parser_fail_expected k p, False))"

abbreviation advance :: "unit parse" where
  "advance \<equiv> must parser_advance"

abbreviation expect :: "token_kind \<Rightarrow> unit parse" where
  "expect k \<equiv> must (parser_expect k)"

section \<open>Storage\<close>

definition parser_allocates :: "parser \<Rightarrow> bool \<times> parser" where
  "parser_allocates p = (parser_heap p 0, p\<lparr>parser_heap := \<lambda>n. parser_heap p (n + 1)\<rparr>)"

text \<open>A new node of the tree, whose fields the caller fills.\<close>

definition parser_new_node :: "unit parse" where
  "parser_new_node p =
     (case parser_allocates p of (granted, p1) \<Rightarrow> if granted then Parsed () p1 else reject_oom p1)"

definition parser_fresh_node :: "node parse" where
  "parser_fresh_node p = Parsed (parser_next_node p) (p\<lparr>parser_next_node := parser_next_node p + 1\<rparr>)"

text \<open>A pushed element: the array grows or the parser reports the lack of memory.\<close>

definition parser_push :: "unit parse" where
  "parser_push p =
     (case parser_allocates p of
        (granted, p1) \<Rightarrow>
          if granted then Parsed () p1
          else reject_unreported (parser_fail_internal Diag_Word_Syntax_Internal_Oom) p1)"

text \<open>A push whose failure is always reported.\<close>

definition parser_push_reported :: "unit parse" where
  "parser_push_reported p =
     (case parser_allocates p of (granted, p1) \<Rightarrow> if granted then Parsed () p1 else reject_oom p1)"

text \<open>Most loops report the lack of memory for an element that has failed without a report of its own.\<close>

definition parser_element :: "'a parse \<Rightarrow> 'a parse" where
  "parser_element m p =
     (case m p of
        Parsed x p1 \<Rightarrow> parse_map (\<lambda>_. x) parser_push p1
      | Rejected p1 \<Rightarrow> reject_unreported (parser_fail_internal Diag_Word_Syntax_Internal_Oom) p1
      | Unfinished \<Rightarrow> Unfinished)"

definition parser_freeze_vector :: "'a list \<Rightarrow> 'a list parse" where
  "parser_freeze_vector xs p =
     (if xs = [] then Parsed xs p
      else (case parser_allocates p of
              (granted, p1) \<Rightarrow> Parsed xs (if granted then p1 else p1\<lparr>parser_lost := True\<rparr>)))"

text \<open>\<open>None\<close> is the copy with a null pointer.\<close>

definition parser_copy_literal_text :: "text_slice \<Rightarrow> text_slice option parse" where
  "parser_copy_literal_text t p =
     (case parser_allocates p of (granted, p1) \<Rightarrow> Parsed (if granted then Some t else None) p1)"

section \<open>Payloads\<close>

definition parser_payload :: "(token option \<Rightarrow> 'a option) \<Rightarrow> 'a parse" where
  "parser_payload getter p =
     (case getter (Some (parser_current p)) of
        None \<Rightarrow> Rejected (parser_fail_internal Diag_Word_E1100 p)
      | Some v \<Rightarrow> Parsed v p)"

definition parser_current_integer :: "integer_literal parse" where
  "parser_current_integer = parser_payload token_get_integer"

definition parser_current_text :: "text_slice parse" where
  "parser_current_text = parser_payload token_get_text"

definition parser_current_character :: "u32 parse" where
  "parser_current_character = parser_payload token_get_character"

definition parser_current_boolean :: "bool parse" where
  "parser_current_boolean = parser_payload token_get_boolean"

section \<open>Lists with commas\<close>

text \<open>
  The two loops over elements with commas between them: up to a closing token, which may follow a
  comma, or with at least one element after each comma. \<open>k\<close> bounds the number of elements.
\<close>

primrec parse_until :: "nat \<Rightarrow> token_kind \<Rightarrow> 'a parse \<Rightarrow> 'a list parse" where
  "parse_until 0 close m p = Unfinished"
| "parse_until (Suc k) close m p =
     (if current_kind p = close then Parsed [] p
      else and_then m (\<lambda>x p1.
             case parser_accept TK_COMMA_OPERATOR p1 of
               (p2, True) \<Rightarrow> parse_map ((#) x) (parse_until k close m) p2
             | (p2, False) \<Rightarrow> Parsed [x] p2) p)"

primrec parse_separated :: "nat \<Rightarrow> 'a parse \<Rightarrow> 'a list parse" where
  "parse_separated 0 m p = Unfinished"
| "parse_separated (Suc k) m p =
     and_then m (\<lambda>x p1.
       case parser_accept TK_COMMA_OPERATOR p1 of
         (p2, True) \<Rightarrow> parse_map ((#) x) (parse_separated k m) p2
       | (p2, False) \<Rightarrow> Parsed [x] p2) p"

end
