(* ===== verification/Parser_Expression.thy ===== *)
theory Parser_Expression
  imports Parser
begin

text \<open>
  The parser of types and expressions: \<open>parser_type*.c\<close>, \<open>parser_lvalue.c\<close>, \<open>parser_atom.c\<close> and
  \<open>parser_expression*.c\<close> under \<open>src/frontend/parser\<close>. A function that calls itself takes fuel; one
  that is called by others takes the parsers it calls as arguments.
\<close>

section \<open>Types\<close>

definition parser_type_primitive :: "token_kind \<Rightarrow> ast_type option" where
  "parser_type_primitive k =
     (if k = TK_ANY then Some Type_Any
      else if k = TK_BOOL then Some Type_Boolean
      else if k = TK_STRING then Some Type_String
      else if k = TK_CHAR then Some Type_Character
      else if k = TK_INT then Some Type_Integer
      else if k = TK_UINT then Some Type_Unsigned_Integer
      else if k = TK_VOID then Some Type_Void
      else if k = TK_I8 then Some (Type_Machine Machine_I8)
      else if k = TK_I16 then Some (Type_Machine Machine_I16)
      else if k = TK_I32 then Some (Type_Machine Machine_I32)
      else if k = TK_I64 then Some (Type_Machine Machine_I64)
      else if k = TK_U8 then Some (Type_Machine Machine_U8)
      else if k = TK_U16 then Some (Type_Machine Machine_U16)
      else if k = TK_U32 then Some (Type_Machine Machine_U32)
      else if k = TK_U64 then Some (Type_Machine Machine_U64)
      else if k = TK_F32 then Some (Type_Machine Machine_F32)
      else if k = TK_F64 then Some (Type_Machine Machine_F64)
      else None)"

datatype contextual_type = Contextual_Option | Contextual_Result | Contextual_Vector

text \<open>The words option, result and vector and their Arabic spellings.\<close>

definition parser_type_contextual :: "text_slice \<Rightarrow> contextual_type option" where
  "parser_type_contextual x =
     (if text_equals_cstr x [0x6F, 0x70, 0x74, 0x69, 0x6F, 0x6E]
         \<or> text_equals_cstr x [0xD8, 0xA7, 0xD8, 0xAE, 0xD8, 0xAA, 0xD9, 0x8A, 0xD8, 0xA7, 0xD8, 0xB1]
      then Some Contextual_Option
      else if text_equals_cstr x [0x72, 0x65, 0x73, 0x75, 0x6C, 0x74]
         \<or> text_equals_cstr x [0xD9, 0x86, 0xD8, 0xAA, 0xD9, 0x8A, 0xD8, 0xAC, 0xD8, 0xA9]
      then Some Contextual_Result
      else if text_equals_cstr x [0x76, 0x65, 0x63, 0x74, 0x6F, 0x72]
         \<or> text_equals_cstr x [0xD9, 0x85, 0xD8, 0xAA, 0xD8, 0xAC, 0xD9, 0x87]
      then Some Contextual_Vector
      else None)"

definition parse_wrapped_type :: "ast_type parse \<Rightarrow> (ast_type \<Rightarrow> ast_type) \<Rightarrow> ast_type parse" where
  "parse_wrapped_type T wrap =
     and_then advance (\<lambda>_. and_then parser_new_node (\<lambda>_. parse_map wrap T))"

definition parse_function_type :: "nat \<Rightarrow> ast_type parse \<Rightarrow> ast_type parse" where
  "parse_function_type n T =
     and_then advance (\<lambda>_.
     and_then (expect TK_LEFT_PARENTHESIS_OPERATOR) (\<lambda>_.
     and_then (parse_until n TK_RIGHT_PARENTHESIS_OPERATOR (parser_element T)) (\<lambda>parameters.
     and_then (expect TK_RIGHT_PARENTHESIS_OPERATOR) (\<lambda>_.
     and_then (expect TK_COLON_OPERATOR) (\<lambda>_.
     and_then T (\<lambda>out.
     and_then parser_new_node (\<lambda>_.
     parse_map (\<lambda>ps. Type_Function ps out) (parser_freeze_vector parameters))))))))"

definition parse_result_type :: "ast_type parse \<Rightarrow> ast_type parse" where
  "parse_result_type T =
     and_then advance (\<lambda>_.
     and_then parser_new_node (\<lambda>_.
     and_then T (\<lambda>ok.
     and_then (expect TK_COMMA_OPERATOR) (\<lambda>_.
     parse_map (Type_Result ok) T))))"

definition parse_type_arguments :: "nat \<Rightarrow> ast_type parse \<Rightarrow> ast_type list parse" where
  "parse_type_arguments n T p =
     (if current_kind p = TK_GREATER_THAN_OPERATOR then reject Diag_Word_Syntax_Expected_Type p
      else and_then (parse_separated n (parser_element T)) (\<lambda>arguments.
           and_then (expect TK_GREATER_THAN_OPERATOR) (\<lambda>_. parser_freeze_vector arguments)) p)"

definition parse_named_type :: "nat \<Rightarrow> ast_type parse \<Rightarrow> ast_type parse" where
  "parse_named_type n T p =
     (let name = token_lexeme (parser_current p)
      in and_then advance (\<lambda>_. and_then parser_new_node (\<lambda>_. and_then parser_fresh_node (\<lambda>k p1.
           case parser_accept TK_LESS_THAN_OPERATOR p1 of
             (p2, True) \<Rightarrow> parse_map (Type_Named k name) (parse_type_arguments n T) p2
           | (p2, False) \<Rightarrow> Parsed (Type_Named k name []) p2))) p)"

primrec parse_type :: "nat \<Rightarrow> ast_type parse" where
  "parse_type 0 p = Unfinished"
| "parse_type (Suc n) p =
     (let k = current_kind p
      in if k = TK_MUTABLE then parse_wrapped_type (parse_type n) Type_Mutable p
         else if k = TK_BOX_OPERATOR then parse_wrapped_type (parse_type n) Type_Box p
         else if k = TK_STAR_OPERATOR then parse_wrapped_type (parse_type n) Type_Pointer p
         else if k = TK_AND_OPERATOR then parse_wrapped_type (parse_type n) Type_Reference p
         else if k = TK_FUNCTION_TYPE then parse_function_type n (parse_type n) p
         else (case parser_type_primitive k of
                 Some t \<Rightarrow> and_then parser_new_node (\<lambda>_. parse_map (\<lambda>_. t) advance) p
               | None \<Rightarrow>
                   if k = TK_IDENTIFIER
                   then (case parser_type_contextual (token_lexeme (parser_current p)) of
                           Some Contextual_Option \<Rightarrow> parse_wrapped_type (parse_type n) Type_Option p
                         | Some Contextual_Vector \<Rightarrow> parse_wrapped_type (parse_type n) Type_Vector p
                         | Some Contextual_Result \<Rightarrow> parse_result_type (parse_type n) p
                         | None \<Rightarrow> parse_named_type n (parse_type n) p)
                   else reject Diag_Word_Syntax_Expected_Type p))"

definition parser_exterior_slot :: "ast_type \<Rightarrow> source_span \<Rightarrow> ast_slot" where
  "parser_exterior_slot t sp = \<lparr>slot_span = sp, slot_type = t\<rparr>"

section \<open>Lvalues\<close>

definition lvalue_index :: "ast_expression parse \<Rightarrow> source_position \<Rightarrow> token_kind \<Rightarrow> ast_lvalue \<Rightarrow> ast_lvalue parse" where
  "lvalue_index E start close v =
     and_then E (\<lambda>i. and_then (expect close) (\<lambda>_ p.
       parse_map (\<lambda>_. Lvalue_Index (parser_span start (parser_end p)) v i) parser_new_node p))"

definition lvalue_field :: "source_position \<Rightarrow> ast_lvalue \<Rightarrow> ast_lvalue parse" where
  "lvalue_field start v =
     and_then parser_take_contextual_name (\<lambda>f p.
       parse_map (\<lambda>_. Lvalue_Field (parser_span start (parser_end p)) v f) parser_new_node p)"

primrec lvalue_suffixes ::
    "ast_expression parse \<Rightarrow> source_position \<Rightarrow> nat \<Rightarrow> ast_lvalue \<Rightarrow> ast_lvalue parse" where
  "lvalue_suffixes E start 0 v p = Unfinished"
| "lvalue_suffixes E start (Suc k) v p =
     (case parser_accept TK_DOT_OPERATOR p of
        (p1, True) \<Rightarrow>
          (case parser_accept TK_LEFT_PARENTHESIS_OPERATOR p1 of
             (p2, True) \<Rightarrow>
               and_then (lvalue_index E start TK_RIGHT_PARENTHESIS_OPERATOR v) (lvalue_suffixes E start k) p2
           | (p2, False) \<Rightarrow>
               if \<not> parser_token_is_contextual_name (parser_current p2)
               then reject Diag_Word_Syntax_Expected_Field_After_Dot p2
               else and_then (lvalue_field start v) (lvalue_suffixes E start k) p2)
      | (p1, False) \<Rightarrow>
          (case parser_accept TK_LEFT_BRACKET_OPERATOR p1 of
             (p2, True) \<Rightarrow>
               and_then (lvalue_index E start TK_RIGHT_BRACKET_OPERATOR v) (lvalue_suffixes E start k) p2
           | (p2, False) \<Rightarrow> Parsed v p2))"

primrec parse_lvalue :: "ast_expression parse \<Rightarrow> nat \<Rightarrow> nat \<Rightarrow> ast_lvalue parse" where
  "parse_lvalue E n 0 p = Unfinished"
| "parse_lvalue E n (Suc k) p =
     (let start = parser_start p; first = parser_current p
      in if token_kind_of first = TK_LEFT_PARENTHESIS_OPERATOR
         then and_then advance (\<lambda>_.
              and_then (expect TK_STAR_OPERATOR) (\<lambda>_.
              and_then (parse_lvalue E n k) (\<lambda>parent.
              and_then (expect TK_RIGHT_PARENTHESIS_OPERATOR) (\<lambda>_ p1.
              and_then parser_new_node (\<lambda>_.
                lvalue_suffixes E start n (Lvalue_Dereference (parser_span start (parser_end p1)) parent)) p1)))) p
         else if token_kind_of first \<noteq> TK_IDENTIFIER then reject Diag_Word_Syntax_Expected_Identifier_Lvalue p
         else and_then parser_new_node (\<lambda>_. and_then advance (\<lambda>_.
                lvalue_suffixes E start n
                  (Lvalue_Base (token_span first) (Base_Identifier (token_lexeme first))))) p)"

section \<open>Atoms\<close>

definition literal_atom :: "ast_literal \<Rightarrow> ast_atom parse" where
  "literal_atom l = and_then parser_new_node (\<lambda>_. parse_map (\<lambda>_. Atom_Literal l) advance)"

definition parse_string_atom :: "ast_atom parse" where
  "parse_string_atom p =
     (let sp = token_span (parser_current p)
      in and_then parser_current_text (\<lambda>x. and_then parser_new_node (\<lambda>_.
           and_then (parser_copy_literal_text x) (\<lambda>copy p1.
             if copy = None \<and> x \<noteq> [] then Rejected p1
             else parse_map (\<lambda>_. Atom_Literal (Literal_String sp x)) advance p1))) p)"

definition int64_min :: i64 where
  "int64_min = 0x8000000000000000"

text \<open>A minus sign before an integer literal, where an atom is expected, is part of the literal.\<close>

definition parse_negative_atom :: "ast_atom parse" where
  "parse_negative_atom p =
     (let start = parser_start p
      in and_then advance (\<lambda>_. and_then parser_current_integer (\<lambda>i p1.
           if literal_unsigned_wide i \<and> literal_value i \<noteq> int64_min then reject Diag_Word_Syntax_Expected_Atom p1
           else literal_atom
                  (Literal_Integer (parser_span start (span_end (token_span (parser_current p1))))
                     (if literal_unsigned_wide i then int64_min else - literal_value i) (literal_spelling i) False) p1)) p)"

definition parse_atom :: "ast_lvalue parse \<Rightarrow> ast_atom parse" where
  "parse_atom L p =
     (let k = current_kind p; sp = token_span (parser_current p)
      in if k = TK_MINUS_OPERATOR \<and> token_kind_of (parser_next p) = TK_LIT_INT then parse_negative_atom p
         else if k = TK_LIT_INT
           then and_then parser_current_integer (\<lambda>i.
                  literal_atom (Literal_Integer sp (literal_value i) (literal_spelling i) (literal_unsigned_wide i))) p
         else if k = TK_LIT_CHAR
           then and_then parser_current_character (\<lambda>x. literal_atom (Literal_Character sp x)) p
         else if k = TK_LIT_BOOL
           then and_then parser_current_boolean (\<lambda>b. literal_atom (Literal_Boolean sp b)) p
         else if k = TK_LIT_STR then parse_string_atom p
         else if k = TK_LIT_UNDEF then literal_atom (Literal_Undefined sp) p
         else if k = TK_IDENTIFIER then parse_map Atom_Lvalue L p
         else reject Diag_Word_Syntax_Expected_Atom p)"

section \<open>Expressions\<close>

definition expression_at :: "source_span \<Rightarrow> ast_expression_header" where
  "expression_at sp = \<lparr>expression_span = sp, expression_contextual_type = None,
     expression_effects_applied = False, expression_null_pointer = False\<rparr>"

definition literal_span :: "ast_literal \<Rightarrow> source_span" where
  "literal_span l =
     (case l of Literal_Boolean sp _ \<Rightarrow> sp | Literal_Integer sp _ _ _ \<Rightarrow> sp | Literal_Character sp _ \<Rightarrow> sp
      | Literal_String sp _ \<Rightarrow> sp | Literal_Undefined sp \<Rightarrow> sp)"

definition atom_span :: "ast_atom \<Rightarrow> source_span" where
  "atom_span a = (case a of Atom_Literal l \<Rightarrow> literal_span l | Atom_Lvalue v \<Rightarrow> lvalue_span v)"

abbreviation span_of :: "ast_expression \<Rightarrow> source_span" where
  "span_of e \<equiv> expression_span (expression_header e)"

text \<open>
  The fields and indexes after a dereference in parentheses. The loop goes on while a dot or a bracket
  is the current token, also when the cursor no longer moves.
\<close>

primrec dereference_suffixes ::
    "ast_expression parse \<Rightarrow> source_position \<Rightarrow> nat \<Rightarrow> ast_lvalue \<Rightarrow> ast_lvalue parse" where
  "dereference_suffixes E start 0 v p = Unfinished"
| "dereference_suffixes E start (Suc k) v p =
     (if current_kind p \<noteq> TK_DOT_OPERATOR \<and> current_kind p \<noteq> TK_LEFT_BRACKET_OPERATOR then Parsed v p
      else (case parser_accept TK_DOT_OPERATOR p of
              (p1, True) \<Rightarrow> and_then (lvalue_field start v) (dereference_suffixes E start k) p1
            | (p1, False) \<Rightarrow>
                (case parser_accept TK_LEFT_BRACKET_OPERATOR p1 of
                   (p2, True) \<Rightarrow>
                     and_then (lvalue_index E start TK_RIGHT_BRACKET_OPERATOR v) (dereference_suffixes E start k) p2
                 | (p2, False) \<Rightarrow> dereference_suffixes E start k v p2)))"

definition atom_expression :: "ast_atom \<Rightarrow> ast_expression parse" where
  "atom_expression a = parse_map (\<lambda>_. Expression_Atom (expression_at (atom_span a)) a) parser_new_node"

definition parse_parenthesised ::
    "ast_expression parse \<Rightarrow> nat \<Rightarrow> source_position \<Rightarrow> ast_expression \<Rightarrow> ast_expression parse" where
  "parse_parenthesised E n start e p =
     (case e of
        Expression_Unary _ Unary_Dereference (Expression_Atom _ (Atom_Lvalue v)) \<Rightarrow>
          and_then parser_new_node (\<lambda>_.
            and_then (dereference_suffixes E start n (Lvalue_Dereference (parser_span start (parser_end p)) v))
              (\<lambda>w. atom_expression (Atom_Lvalue w))) p
      | _ \<Rightarrow> Parsed e p)"

definition parse_call_end ::
    "source_position \<Rightarrow> ast_lvalue \<Rightarrow> ast_expression list \<Rightarrow> ast_expression parse" where
  "parse_call_end start f arguments =
     and_then (expect TK_RIGHT_PARENTHESIS_OPERATOR) (\<lambda>_ p.
       and_then parser_new_node (\<lambda>_.
         parse_map (\<lambda>xs. Expression_Call (expression_at (parser_span start (parser_end p))) f xs (- 1))
           (parser_freeze_vector arguments)) p)"

definition parse_call ::
    "ast_expression parse \<Rightarrow> nat \<Rightarrow> source_position \<Rightarrow> ast_lvalue \<Rightarrow> ast_expression parse" where
  "parse_call E n start f p =
     (if current_kind p \<noteq> TK_RIGHT_PARENTHESIS_OPERATOR
      then and_then (parse_separated n (parser_element E)) (parse_call_end start f) p
      else parse_call_end start f [] p)"

definition parse_primary :: "ast_expression parse \<Rightarrow> ast_lvalue parse \<Rightarrow> nat \<Rightarrow> ast_expression parse" where
  "parse_primary E L n p =
     (case parser_accept TK_LEFT_PARENTHESIS_OPERATOR p of
        (p1, True) \<Rightarrow>
          and_then E (\<lambda>e. and_then (expect TK_RIGHT_PARENTHESIS_OPERATOR) (\<lambda>_.
            parse_parenthesised E n (parser_start p) e)) p1
      | (p1, False) \<Rightarrow>
          if current_kind p1 = TK_IDENTIFIER
          then and_then L (\<lambda>v p2.
                 case parser_accept TK_LEFT_PARENTHESIS_OPERATOR p2 of
                   (p3, True) \<Rightarrow> parse_call E n (parser_start p1) v p3
                 | (p3, False) \<Rightarrow> atom_expression (Atom_Lvalue v) p3) p1
          else and_then (parse_atom L) atom_expression p1)"

primrec parse_conversions :: "ast_type parse \<Rightarrow> nat \<Rightarrow> ast_expression \<Rightarrow> ast_expression parse" where
  "parse_conversions T 0 e p = Unfinished"
| "parse_conversions T (Suc k) e p =
     (if current_kind p \<noteq> TK_AS then Parsed e p
      else and_then advance (\<lambda>_. and_then T (\<lambda>t p1.
             and_then parser_new_node (\<lambda>_.
               parse_conversions T k
                 (Expression_Conversion (expression_at (parser_span (span_start (span_of e)) (parser_end p1))) e t)) p1)) p)"

definition parser_unary_operation :: "token_kind \<Rightarrow> ast_unary_operation option" where
  "parser_unary_operation k =
     (if k = TK_NOT_OPERATOR then Some Unary_Not
      else if k = TK_TILDE_OPERATOR then Some Unary_Bitwise_Not
      else if k = TK_MINUS_OPERATOR then Some Unary_Negate
      else if k = TK_AND_OPERATOR then Some Unary_Address
      else if k = TK_STAR_OPERATOR then Some Unary_Dereference
      else None)"

definition parse_unary_end ::
    "ast_type parse \<Rightarrow> nat \<Rightarrow> source_position \<Rightarrow> ast_unary_operation \<Rightarrow> ast_expression \<Rightarrow> ast_expression parse" where
  "parse_unary_end T n start op e =
     and_then parser_new_node (\<lambda>_.
       parse_conversions T n
         (Expression_Unary (expression_at (parser_span start (span_end (span_of e)))) op e))"

primrec parse_unary ::
    "ast_expression parse \<Rightarrow> ast_type parse \<Rightarrow> ast_lvalue parse \<Rightarrow> nat \<Rightarrow> nat \<Rightarrow> ast_expression parse" where
  "parse_unary E T L n 0 p = Unfinished"
| "parse_unary E T L n (Suc k) p =
     (let start = parser_start p
      in case parser_unary_operation (current_kind p) of
           None \<Rightarrow> and_then (parse_primary E L n) (parse_conversions T n) p
         | Some op \<Rightarrow>
             and_then advance (\<lambda>_ p1.
               if op = Unary_Address \<and> current_kind p1 = TK_MUTABLE
               then and_then advance (\<lambda>_.
                      and_then (parse_unary E T L n k) (parse_unary_end T n start Unary_Address_Mutable)) p1
               else and_then (parse_unary E T L n k) (parse_unary_end T n start op) p1) p)"

definition parser_binary_info :: "token_kind \<Rightarrow> (nat \<times> ast_binary_operation) option" where
  "parser_binary_info k =
     (if k = TK_OR_OR_OPERATOR then Some (1, Binary_Logical_Or)
      else if k = TK_AND_AND_OPERATOR then Some (2, Binary_Logical_And)
      else if k = TK_OR_OPERATOR then Some (3, Binary_Or)
      else if k = TK_CARET_OPERATOR then Some (4, Binary_Xor)
      else if k = TK_AND_OPERATOR then Some (5, Binary_And)
      else if k = TK_EQUALS_OPERATOR then Some (6, Binary_Equal)
      else if k = TK_NOT_EQUAL_OPERATOR then Some (6, Binary_Not_Equal)
      else if k = TK_LESS_THAN_OPERATOR then Some (7, Binary_Less_Than)
      else if k = TK_LESS_THAN_OR_EQUAL_OPERATOR then Some (7, Binary_Less_Or_Equal)
      else if k = TK_GREATER_THAN_OR_EQUAL_OPERATOR then Some (7, Binary_Greater_Or_Equal)
      else if k = TK_GREATER_THAN_OPERATOR then Some (7, Binary_Greater_Than)
      else if k = TK_LEFT_SHIFT_OPERATOR then Some (8, Binary_Shift_Left_Logical)
      else if k = TK_RIGHT_SHIFT_OPERATOR then Some (8, Binary_Shift_Right_Logical)
      else if k = TK_PLUS_OPERATOR then Some (9, Binary_Add)
      else if k = TK_MINUS_OPERATOR then Some (9, Binary_Subtract)
      else if k = TK_STAR_OPERATOR then Some (10, Binary_Multiply)
      else if k = TK_SLASH_OPERATOR then Some (10, Binary_Divide)
      else if k = TK_PERCENT_OPERATOR then Some (10, Binary_Modulo)
      else None)"

primrec parse_binary_loop ::
    "(nat \<Rightarrow> ast_expression parse) \<Rightarrow> nat \<Rightarrow> nat \<Rightarrow> ast_expression \<Rightarrow> ast_expression parse" where
  "parse_binary_loop E m 0 left p = Unfinished"
| "parse_binary_loop E m (Suc k) left p =
     (case parser_binary_info (current_kind p) of
        None \<Rightarrow> Parsed left p
      | Some (precedence, op) \<Rightarrow>
          if precedence < m then Parsed left p
          else and_then advance (\<lambda>_. and_then (E (precedence + 1)) (\<lambda>right. and_then parser_new_node (\<lambda>_.
                 parse_binary_loop E m k
                   (Expression_Binary
                      (expression_at (parser_span (span_start (span_of left)) (span_end (span_of right))))
                      op left right)))) p)"

primrec parse_expression_min :: "nat \<Rightarrow> nat \<Rightarrow> ast_expression parse" where
  "parse_expression_min 0 m p = Unfinished"
| "parse_expression_min (Suc n) m p =
     and_then (parse_unary (parse_expression_min n 1) (parse_type n) (parse_lvalue (parse_expression_min n 1) n n) n n)
       (parse_binary_loop (parse_expression_min n) m n) p"

definition parse_expression :: "nat \<Rightarrow> ast_expression parse" where
  "parse_expression n = parse_expression_min n 1"

abbreviation parse_any_lvalue :: "nat \<Rightarrow> ast_lvalue parse" where
  "parse_any_lvalue n \<equiv> parse_lvalue (parse_expression n) n n"

abbreviation parse_any_atom :: "nat \<Rightarrow> ast_atom parse" where
  "parse_any_atom n \<equiv> parse_atom (parse_any_lvalue n)"

end
