(* ===== verification/Parser_Statement.thy ===== *)
theory Parser_Statement
  imports Parser_Expression
begin

text \<open>
  The parser of patterns, initializers, statements and blocks: \<open>parser_pattern.c\<close>,
  \<open>parser_initializer*.c\<close>, \<open>parser_statement_*.c\<close> and \<open>parser_block.c\<close> under
  \<open>src/frontend/parser\<close>. A statement parser returns the statements it pushes, one or two.
\<close>

section \<open>Elements and pushes\<close>

text \<open>Patterns and match cases that cannot be pushed are rejected without a report.\<close>

definition silent_element :: "'a parse \<Rightarrow> 'a parse" where
  "silent_element m =
     and_then m (\<lambda>x p. case parser_allocates p of (granted, p1) \<Rightarrow> if granted then Parsed x p1 else Rejected p1)"

definition parser_push_statement :: "ast_statement list \<Rightarrow> ast_statement \<Rightarrow> ast_statement list parse" where
  "parser_push_statement pushed s = parse_map (\<lambda>_. pushed @ [s]) parser_push_reported"

section \<open>Patterns\<close>

text \<open>The patterns of the payload in parentheses, which may be missing or empty.\<close>

definition parse_payload_patterns :: "nat \<Rightarrow> ast_pattern parse \<Rightarrow> ast_pattern list parse" where
  "parse_payload_patterns n P p =
     (case parser_accept TK_LEFT_PARENTHESIS_OPERATOR p of
        (p1, True) \<Rightarrow>
          and_then (if current_kind p1 \<noteq> TK_RIGHT_PARENTHESIS_OPERATOR
                    then parse_separated n (silent_element P) else Parsed [])
            (\<lambda>xs. parse_map (\<lambda>_. xs) (expect TK_RIGHT_PARENTHESIS_OPERATOR)) p1
      | (p1, False) \<Rightarrow> Parsed [] p1)"

definition parse_enum_pattern :: "nat \<Rightarrow> ast_pattern parse \<Rightarrow> text_slice \<Rightarrow> source_position \<Rightarrow> ast_pattern parse" where
  "parse_enum_pattern n P type_name start =
     and_then (expect TK_DOT_OPERATOR) (\<lambda>_ p.
       if \<not> parser_token_is_contextual_name (parser_current p) then Rejected p
       else and_then parser_take_contextual_name (\<lambda>c.
              and_then (parse_payload_patterns n P) (\<lambda>xs. and_then parser_new_node (\<lambda>_ p1.
                parse_map (Pattern_Enum (parser_span start (parser_end p1)) type_name c)
                  (parser_freeze_vector xs) p1))) p)"

definition parse_pattern_field :: "ast_pattern parse \<Rightarrow> (text_slice \<times> ast_pattern) parse" where
  "parse_pattern_field P p =
     (let name = token_lexeme (parser_current p)
      in if current_kind p \<noteq> TK_IDENTIFIER then reject Diag_Word_Syntax_Expected_Pattern_Field p
         else and_then advance (\<lambda>_. and_then (expect TK_COLON_OPERATOR) (\<lambda>_.
                parse_map (Pair name) (silent_element P))) p)"

definition parse_struct_pattern :: "nat \<Rightarrow> ast_pattern parse \<Rightarrow> source_position \<Rightarrow> ast_pattern parse" where
  "parse_struct_pattern n P start =
     and_then advance (\<lambda>_.
     and_then (parse_until n TK_RIGHT_BRACE_OPERATOR (parse_pattern_field P)) (\<lambda>fs.
     and_then (expect TK_RIGHT_BRACE_OPERATOR) (\<lambda>_.
     and_then parser_new_node (\<lambda>_ p.
       parse_map (Pattern_Struct (parser_span start (parser_end p))) (parser_freeze_vector fs) p))))"

primrec parse_pattern :: "nat \<Rightarrow> ast_pattern parse" where
  "parse_pattern 0 p = Unfinished"
| "parse_pattern (Suc n) p =
     (let start = parser_start p; name = token_lexeme (parser_current p)
      in if current_kind p = TK_UNDERSCORE_OPERATOR
         then and_then advance (\<lambda>_. and_then parser_new_node (\<lambda>_ p1.
                Parsed (Pattern_Wildcard (parser_span start (parser_end p1))) p1)) p
         else if current_kind p = TK_LEFT_BRACE_OPERATOR then parse_struct_pattern n (parse_pattern n) start p
         else if current_kind p \<noteq> TK_IDENTIFIER then reject Diag_Word_Syntax_Expected_Pattern p
         else and_then advance (\<lambda>_ p1.
                if current_kind p1 = TK_DOT_OPERATOR then parse_enum_pattern n (parse_pattern n) name start p1
                else and_then parser_new_node (\<lambda>_ p2.
                       Parsed (Pattern_Binding (parser_span start (parser_end p2)) name) p2) p1) p)"

section \<open>Initializers\<close>

datatype initializer =
    Initializer_Expression source_span ast_expression
  | Initializer_Vector source_span "ast_atom list"
  | Initializer_Record source_span "(text_slice \<times> ast_expression) list"
  | Initializer_Box source_span ast_atom

definition parse_aggregate_elements ::
    "ast_atom parse \<Rightarrow> nat \<Rightarrow> token_kind \<Rightarrow> ast_atom option \<Rightarrow> ast_atom list parse" where
  "parse_aggregate_elements A n close first =
     and_then (case first of
                 None \<Rightarrow> Parsed []
               | Some a \<Rightarrow> parse_map (\<lambda>_. [a]) parser_push_reported)
       (\<lambda>before. and_then (parse_until n close (parser_element A)) (\<lambda>xs.
         and_then (expect close) (\<lambda>_.
         and_then (parser_freeze_vector (before @ xs)) (\<lambda>vs p.
           if parser_failed p then Rejected p else Parsed vs p))))"

definition parse_record_field :: "ast_expression parse \<Rightarrow> (text_slice \<times> ast_expression) parse" where
  "parse_record_field E p =
     (let name = token_lexeme (parser_current p)
      in if current_kind p \<noteq> TK_IDENTIFIER then reject Diag_Word_Syntax_Expected_Record_Field p
         else and_then advance (\<lambda>_. and_then (expect TK_COLON_OPERATOR) (\<lambda>_.
                parse_map (Pair name) (parser_element E))) p)"

definition parse_record_initializer :: "ast_expression parse \<Rightarrow> nat \<Rightarrow> source_position \<Rightarrow> initializer parse" where
  "parse_record_initializer E n start =
     and_then (parse_until n TK_RIGHT_BRACE_OPERATOR (parse_record_field E)) (\<lambda>fs.
     and_then (expect TK_RIGHT_BRACE_OPERATOR) (\<lambda>_.
     and_then (parser_freeze_vector fs) (\<lambda>fs p.
       if parser_failed p then Rejected p
       else Parsed (Initializer_Record (parser_span start (parser_end p)) fs) p)))"

definition parse_initializer :: "ast_expression parse \<Rightarrow> ast_atom parse \<Rightarrow> nat \<Rightarrow> initializer parse" where
  "parse_initializer E A n p =
     (let start = parser_start p
      in case parser_accept TK_LEFT_BRACKET_OPERATOR p of
           (p1, True) \<Rightarrow>
             and_then (parse_aggregate_elements A n TK_RIGHT_BRACKET_OPERATOR None) (\<lambda>vs p2.
               Parsed (Initializer_Vector (parser_span start (parser_end p2)) vs) p2) p1
         | (p1, False) \<Rightarrow>
             (case parser_accept TK_LEFT_BRACE_OPERATOR p1 of
                (p2, True) \<Rightarrow> parse_record_initializer E n start p2
              | (p2, False) \<Rightarrow>
                  (case parser_accept TK_BOX_OPERATOR p2 of
                     (p3, True) \<Rightarrow>
                       and_then A (\<lambda>a p4. Parsed (Initializer_Box (parser_span start (parser_end p4)) a) p4) p3
                   | (p3, False) \<Rightarrow> parse_map (\<lambda>e. Initializer_Expression (span_of e) e) E p3)))"

section \<open>Statements\<close>

primrec statement_span :: "ast_statement \<Rightarrow> source_span" where
  "statement_span (Statement_Variable sp _) = sp"
| "statement_span (Statement_Initialize_Record sp _ _) = sp"
| "statement_span (Statement_Initialize_Vector sp _ _) = sp"
| "statement_span (Statement_Initialize_Box sp _ _) = sp"
| "statement_span (Statement_Copy sp _ _) = sp"
| "statement_span (Statement_While sp _ _) = sp"
| "statement_span (Statement_If sp _ _ _) = sp"
| "statement_span (Statement_Match sp _ _) = sp"
| "statement_span (Statement_Unsafe sp _) = sp"
| "statement_span (Statement_Return sp _) = sp"

primrec block_span :: "ast_block \<Rightarrow> source_span" where
  "block_span (Block sp _) = sp"

definition parse_returned :: "ast_expression parse \<Rightarrow> ast_expression option parse" where
  "parse_returned E p = (if current_kind p \<noteq> TK_SEMICOLON_OPERATOR then parse_map Some E p else Parsed None p)"

definition parse_return :: "ast_expression parse \<Rightarrow> ast_statement list parse" where
  "parse_return E p =
     (let start = parser_start p
      in and_then advance (\<lambda>_. and_then (parse_returned E) (\<lambda>e.
           and_then (expect TK_SEMICOLON_OPERATOR) (\<lambda>_. and_then parser_new_node (\<lambda>_ p1.
             parser_push_statement [] (Statement_Return (parser_span start (parser_end p1)) e) p1)))) p)"

definition variable_statement :: "ast_lvalue_base \<Rightarrow> ast_type option \<Rightarrow> source_span \<Rightarrow> ast_statement" where
  "variable_statement name t sp =
     Statement_Variable sp \<lparr>variable_name = name, variable_slot = \<lparr>slot_span = sp, slot_type = t\<rparr>\<rparr>"

definition parser_create_variable_declaration ::
    "ast_lvalue_base \<Rightarrow> ast_type option \<Rightarrow> source_span \<Rightarrow> ast_statement parse" where
  "parser_create_variable_declaration name t sp =
     parse_map (\<lambda>_. variable_statement name t sp) parser_new_node"

definition initialization :: "source_span \<Rightarrow> ast_lvalue \<Rightarrow> initializer \<Rightarrow> ast_statement" where
  "initialization sp v i =
     (case i of
        Initializer_Expression _ e \<Rightarrow> Statement_Copy sp v e
      | Initializer_Vector _ xs \<Rightarrow> Statement_Initialize_Vector sp v xs
      | Initializer_Record _ fs \<Rightarrow> Statement_Initialize_Record sp v fs
      | Initializer_Box _ a \<Rightarrow> Statement_Initialize_Box sp v a)"

definition parse_variable_end ::
    "initializer parse \<Rightarrow> source_position \<Rightarrow> text_slice \<Rightarrow> ast_type \<Rightarrow> ast_statement list parse" where
  "parse_variable_end I start name t p =
     (if current_kind p = TK_SEMICOLON_OPERATOR
      then and_then advance (\<lambda>_ p1.
             and_then (parser_create_variable_declaration (Base_Identifier name) (Some t) (parser_span start (parser_end p1)))
               (parser_push_statement []) p1) p
      else and_then (expect TK_DEFINITION_SEPARATOR) (\<lambda>_.
           and_then I (\<lambda>i.
           and_then (expect TK_SEMICOLON_OPERATOR) (\<lambda>_ p1.
             let sp = parser_span start (parser_end p1)
             in and_then (parser_create_variable_declaration (Base_Identifier name) (Some t) sp) (\<lambda>declaration.
                and_then (parser_push_statement [] declaration) (\<lambda>pushed.
                and_then parser_new_node (\<lambda>_.
                and_then parser_new_node (\<lambda>_.
                  parser_push_statement pushed
                    (initialization sp (Lvalue_Base sp (Base_Identifier name)) i))))) p1))) p)"

definition parse_variable :: "ast_type parse \<Rightarrow> initializer parse \<Rightarrow> ast_statement list parse" where
  "parse_variable T I p =
     (let start = parser_start p
      in and_then advance (\<lambda>_ p1.
           if current_kind p1 \<noteq> TK_IDENTIFIER then reject Diag_Word_Syntax_Expected_Variable_Name p1
           else and_then advance (\<lambda>_. and_then (expect TK_COLON_OPERATOR) (\<lambda>_.
                  and_then T (parse_variable_end I start (token_lexeme (parser_current p1))))) p1) p)"

definition parser_call_after_lvalue ::
    "ast_expression parse \<Rightarrow> nat \<Rightarrow> ast_lvalue \<Rightarrow> source_position \<Rightarrow> ast_expression parse" where
  "parser_call_after_lvalue E n f start =
     and_then (expect TK_LEFT_PARENTHESIS_OPERATOR) (\<lambda>_.
     and_then (parse_until n TK_RIGHT_PARENTHESIS_OPERATOR (parser_element E)) (parse_call_end start f))"

text \<open>A call as a statement becomes a temporary variable and the copy of its result.\<close>

definition parse_call_statement ::
    "ast_expression parse \<Rightarrow> nat \<Rightarrow> ast_lvalue \<Rightarrow> source_position \<Rightarrow> ast_statement list parse" where
  "parse_call_statement E n f start p =
     (let temporary = parser_next_temporary p;
          count = (\<lambda>q. q\<lparr>parser_next_temporary := parser_next_temporary q + 1\<rparr>)
      in case parser_call_after_lvalue E n f start p of
           Unfinished \<Rightarrow> Unfinished
         | Rejected p1 \<Rightarrow> Rejected (count p1)
         | Parsed call p1 \<Rightarrow>
             and_then (expect TK_SEMICOLON_OPERATOR) (\<lambda>_ p2.
               let sp = parser_span start (parser_end p2)
               in and_then (parser_create_variable_declaration (Base_Temporary temporary) None sp) (\<lambda>declaration.
                  and_then (parser_push_statement [] declaration) (\<lambda>pushed.
                  and_then parser_new_node (\<lambda>_.
                  and_then parser_new_node (\<lambda>_.
                    parser_push_statement pushed
                      (Statement_Copy sp (Lvalue_Base sp (Base_Temporary temporary)) call))))) p2) (count p1))"

definition parse_copy_statement ::
    "ast_expression parse \<Rightarrow> ast_lvalue \<Rightarrow> source_position \<Rightarrow> ast_statement list parse" where
  "parse_copy_statement E v start =
     and_then (expect TK_OPERATOR_ASSIGNMENT_COLON) (\<lambda>_.
     and_then E (\<lambda>e.
     and_then (expect TK_SEMICOLON_OPERATOR) (\<lambda>_.
     and_then parser_new_node (\<lambda>_ p.
       parser_push_statement [] (Statement_Copy (parser_span start (parser_end p)) v e) p))))"

definition parse_lvalue_statement ::
    "ast_expression parse \<Rightarrow> ast_lvalue parse \<Rightarrow> nat \<Rightarrow> ast_statement list parse" where
  "parse_lvalue_statement E L n p =
     (let start = parser_start p
      in case parser_accept TK_STAR_OPERATOR p of
           (p1, True) \<Rightarrow>
             and_then L (\<lambda>v. and_then parser_new_node (\<lambda>_.
               parse_copy_statement E (Lvalue_Dereference (parser_span start (span_end (lvalue_span v))) v) start)) p1
         | (p1, False) \<Rightarrow>
             and_then L (\<lambda>v p2.
               if current_kind p2 = TK_LEFT_PARENTHESIS_OPERATOR then parse_call_statement E n v start p2
               else parse_copy_statement E v start p2) p1)"

text \<open>The optional semicolon after a block.\<close>

definition accept_semicolon :: "unit parse" where
  "accept_semicolon p = Parsed () (fst (parser_accept TK_SEMICOLON_OPERATOR p))"

definition parse_condition :: "ast_expression parse \<Rightarrow> ast_expression parse" where
  "parse_condition E =
     and_then advance (\<lambda>_.
     and_then (expect TK_LEFT_PARENTHESIS_OPERATOR) (\<lambda>_.
     and_then E (\<lambda>e. parse_map (\<lambda>_. e) (expect TK_RIGHT_PARENTHESIS_OPERATOR))))"

definition parse_while :: "ast_expression parse \<Rightarrow> ast_block parse \<Rightarrow> ast_statement list parse" where
  "parse_while E B p =
     (let start = parser_start p
      in and_then (parse_condition E) (\<lambda>e. and_then B (\<lambda>b. and_then parser_new_node (\<lambda>_.
           and_then accept_semicolon (\<lambda>_.
             parser_push_statement []
               (Statement_While (parser_span start (span_end (block_span b))) e b))))) p)"

definition parser_block_from_statement :: "ast_statement \<Rightarrow> ast_block parse" where
  "parser_block_from_statement s =
     and_then parser_new_node (\<lambda>_. parse_map (\<lambda>_. Block (statement_span s) [s]) parser_new_node)"

text \<open>What follows a block: nothing, or an else with another condition or a block.\<close>

definition parse_else :: "ast_statement parse \<Rightarrow> ast_block parse \<Rightarrow> ast_block option parse" where
  "parse_else I B p =
     (case parser_accept TK_ELSE p of
        (p1, True) \<Rightarrow>
          parse_map Some (if current_kind p1 = TK_IF then and_then I parser_block_from_statement else B) p1
      | (p1, False) \<Rightarrow> Parsed None p1)"

primrec parse_if_core :: "ast_expression parse \<Rightarrow> ast_block parse \<Rightarrow> nat \<Rightarrow> ast_statement parse" where
  "parse_if_core E B 0 p = Unfinished"
| "parse_if_core E B (Suc k) p =
     (let start = parser_start p
      in and_then (parse_condition E) (\<lambda>e. and_then B (\<lambda>b.
           and_then (parse_else (parse_if_core E B k) B) (\<lambda>otherwise.
             parse_map (\<lambda>_.
                Statement_If
                  (parser_span start (span_end (block_span (case otherwise of Some x \<Rightarrow> x | None \<Rightarrow> b))))
                  e b otherwise) parser_new_node))) p)"

definition parse_match_case :: "ast_pattern parse \<Rightarrow> ast_block parse \<Rightarrow> (ast_pattern \<times> ast_block) parse" where
  "parse_match_case P B =
     and_then P (\<lambda>x. and_then (expect TK_RIGHT_ARROW_OPERATOR) (\<lambda>_.
       parse_map (Pair x) (silent_element B)))"

primrec parse_match_cases :: "nat \<Rightarrow> (ast_pattern \<times> ast_block) parse \<Rightarrow> (ast_pattern \<times> ast_block) list parse" where
  "parse_match_cases 0 C p = Unfinished"
| "parse_match_cases (Suc k) C p =
     (case parser_accept TK_OR_OPERATOR p of
        (p1, True) \<Rightarrow> and_then C (\<lambda>x. parse_map ((#) x) (parse_match_cases k C)) p1
      | (p1, False) \<Rightarrow> Parsed [] p1)"

definition parse_match ::
    "ast_expression parse \<Rightarrow> ast_pattern parse \<Rightarrow> ast_block parse \<Rightarrow> nat \<Rightarrow> ast_statement list parse" where
  "parse_match E P B n p =
     (let start = parser_start p
      in and_then advance (\<lambda>_. and_then E (\<lambda>e. and_then (expect TK_WITH) (\<lambda>_.
           and_then (parse_match_cases n (parse_match_case P B)) (\<lambda>cs.
             if cs = [] then reject Diag_Word_Syntax_Match_Requires_Case
             else and_then accept_semicolon (\<lambda>_. and_then parser_new_node (\<lambda>_ p1.
                    and_then (parser_freeze_vector cs) (\<lambda>cs.
                      parser_push_statement []
                        (Statement_Match (parser_span start (parser_end p1)) e cs)) p1)))))) p)"

definition parse_unsafe :: "ast_block parse \<Rightarrow> ast_statement list parse" where
  "parse_unsafe B p =
     (let start = parser_start p
      in and_then advance (\<lambda>_. and_then B (\<lambda>b. and_then parser_new_node (\<lambda>_.
           and_then accept_semicolon (\<lambda>_.
             parser_push_statement []
               (Statement_Unsafe (parser_span start (span_end (block_span b))) b))))) p)"

definition parse_one_statement :: "nat \<Rightarrow> ast_block parse \<Rightarrow> ast_statement list parse" where
  "parse_one_statement n B p =
     (let k = current_kind p; E = parse_expression n
      in if k = TK_RETURN then parse_return E p
         else if k = TK_LET then parse_variable (parse_type n) (parse_initializer E (parse_any_atom n) n) p
         else if k = TK_WHILE then parse_while E B p
         else if k = TK_MATCH then parse_match E (parse_pattern n) B n p
         else if k = TK_UNSAFE then parse_unsafe B p
         else if k = TK_IF
           then and_then (parse_if_core E B n) (\<lambda>s. and_then accept_semicolon (\<lambda>_. parser_push_statement [] s)) p
         else if k = TK_IDENTIFIER \<or> k = TK_STAR_OPERATOR \<or> k = TK_LEFT_PARENTHESIS_OPERATOR
           then parse_lvalue_statement E (parse_any_lvalue n) n p
         else reject Diag_Word_Syntax_Expected_Statement p)"

section \<open>Blocks\<close>

primrec parse_statements :: "nat \<Rightarrow> ast_statement list parse \<Rightarrow> ast_statement list parse" where
  "parse_statements 0 S p = Unfinished"
| "parse_statements (Suc k) S p =
     (if current_kind p = TK_RIGHT_BRACE_OPERATOR then Parsed [] p
      else if current_kind p = TK_EOF then reject_unreported (parser_fail Diag_Word_Syntax_Unterminated_Block) p
      else (case S p of
              Unfinished \<Rightarrow> Unfinished
            | Rejected p1 \<Rightarrow> reject_unreported (parser_fail Diag_Word_Syntax_Unterminated_Block) p1
            | Parsed xs p1 \<Rightarrow> parse_map ((@) xs) (parse_statements k S) p1))"

primrec parse_block :: "nat \<Rightarrow> ast_block parse" where
  "parse_block 0 p = Unfinished"
| "parse_block (Suc n) p =
     (let start = parser_start p
      in and_then (expect TK_LEFT_BRACE_OPERATOR) (\<lambda>_.
         and_then (parse_statements n (parse_one_statement n (parse_block n))) (\<lambda>xs.
         and_then (expect TK_RIGHT_BRACE_OPERATOR) (\<lambda>_ p1.
         and_then parser_new_node (\<lambda>_.
           parse_map (Block (parser_span start (parser_end p1))) (parser_freeze_vector xs)) p1))) p)"

end
