(* ===== verification/Parser_Condition.thy ===== *)
theory Parser_Condition
  imports Parser
begin

text \<open>
  The conditions on the target at the top level of a module
  (\<open>src/frontend/parser/parser_target_condition.c\<close>): comparisons of the fields of the target with
  texts, joined by not, and, or and parentheses. Every part is parsed, whatever is already decided.
\<close>

definition target_condition_fields :: "(bytes \<times> target_condition_field) list" where
  "target_condition_fields =
     [([0xD8, 0xA7, 0xD9, 0x84, 0xD9, 0x85, 0xD9, 0x86, 0xD8, 0xB5, 0xD8, 0xA9], Condition_Platform),
      ([0xD8, 0xA7, 0xD9, 0x84, 0xD8, 0xA8, 0xD9, 0x8A, 0xD8, 0xA6, 0xD8, 0xA9], Condition_Environment),
      ([0xD8, 0xA7, 0xD9, 0x84, 0xD9, 0x85, 0xD8, 0xB9, 0xD9, 0x85, 0xD8, 0xA7, 0xD8, 0xB1, 0xD9, 0x8A,
       0xD8, 0xA9], Condition_Architecture),
      ([0xD8, 0xB9, 0xD8, 0xA7, 0xD8, 0xA6, 0xD9, 0x84, 0xD8, 0xA9, 0x5F, 0xD8, 0xA7, 0xD9, 0x84, 0xD9,
       0x85, 0xD9, 0x86, 0xD8, 0xB5, 0xD8, 0xA9], Condition_Platform_Family),
      ([0xD8, 0xB5, 0xD9, 0x8A, 0xD8, 0xBA, 0xD8, 0xA9, 0x5F, 0xD8, 0xA7, 0xD9, 0x84, 0xD9, 0x83, 0xD8,
       0xA7, 0xD8, 0xA6, 0xD9, 0x86], Condition_Object_Format),
      ([0xD8, 0xAA, 0xD8, 0xB1, 0xD8, 0xAA, 0xD9, 0x8A, 0xD8, 0xA8, 0x5F, 0xD8, 0xA7, 0xD9, 0x84, 0xD8,
       0xA8, 0xD8, 0xA7, 0xD9, 0x8A, 0xD8, 0xAA], Condition_Byte_Order),
      ([0xD8, 0xB9, 0xD8, 0xB1, 0xD8, 0xB6, 0x5F, 0xD8, 0xA7, 0xD9, 0x84, 0xD9, 0x85, 0xD8, 0xA4, 0xD8,
       0xB4, 0xD8, 0xB1], Condition_Pointer_Width)]"

definition reject_condition :: "'a parse" where
  "reject_condition = reject_unreported (parser_fail Diag_Word_Syntax_Target_Condition_Invalid)"

definition parser_target_condition_field_value :: "parser \<Rightarrow> bytes option" where
  "parser_target_condition_field_value p =
     (if current_kind p \<noteq> TK_IDENTIFIER then None
      else (case List.find (\<lambda>(spelling, _). identity_equals_cstr (token_lexeme (parser_current p)) (Some spelling))
                   target_condition_fields of
              None \<Rightarrow> None
            | Some (_, field) \<Rightarrow> bootstrap_target_condition_value (parser_target p) field))"

definition target_condition_text_equals :: "text_slice \<Rightarrow> bytes \<Rightarrow> bool" where
  "target_condition_text_equals x spelling \<longleftrightarrow> length x = length spelling \<and> (length spelling = 0 \<or> x = spelling)"

text \<open>The comparison behind the word for the target.\<close>

definition target_word :: bytes where
  "target_word = [0xD8, 0xA7, 0xD9, 0x84, 0xD9, 0x87, 0xD8, 0xAF, 0xD9, 0x81]"

definition parse_condition_comparison :: "bytes \<Rightarrow> bool parse" where
  "parse_condition_comparison expected =
     and_then advance (\<lambda>_ p.
       let negated = (current_kind p = TK_NOT_EQUAL_OPERATOR)
       in if \<not> negated \<and> current_kind p \<noteq> TK_EQUALS_OPERATOR then reject_condition p
          else and_then advance (\<lambda>_ p1.
                 if current_kind p1 \<noteq> TK_LIT_STR then reject_condition p1
                 else and_then parser_current_text (\<lambda>x.
                        parse_map (\<lambda>_. target_condition_text_equals x expected \<noteq> negated) advance) p1) p)"

primrec parse_condition_atom :: "bool parse \<Rightarrow> nat \<Rightarrow> bool parse" where
  "parse_condition_atom C 0 p = Unfinished"
| "parse_condition_atom C (Suc k) p =
     (if current_kind p = TK_NOT_OPERATOR
      then and_then advance (\<lambda>_. parse_map Not (parse_condition_atom C k)) p
      else if current_kind p = TK_LEFT_PARENTHESIS_OPERATOR
      then and_then advance (\<lambda>_. and_then C (\<lambda>v. parse_map (\<lambda>_. v) (expect TK_RIGHT_PARENTHESIS_OPERATOR))) p
      else if current_kind p \<noteq> TK_IDENTIFIER
           \<or> \<not> identity_equals_cstr (token_lexeme (parser_current p)) (Some target_word)
      then reject_condition p
      else and_then advance (\<lambda>_. and_then (expect TK_DOT_OPERATOR) (\<lambda>_ p1.
             case parser_target_condition_field_value p1 of
               None \<Rightarrow> reject_condition p1
             | Some expected \<Rightarrow> parse_condition_comparison expected p1)) p)"

text \<open>The loops of conjunctions and disjunctions.\<close>

primrec parse_condition_chain ::
    "token_kind \<Rightarrow> (bool \<Rightarrow> bool \<Rightarrow> bool) \<Rightarrow> bool parse \<Rightarrow> nat \<Rightarrow> bool \<Rightarrow> bool parse" where
  "parse_condition_chain op join part 0 v p = Unfinished"
| "parse_condition_chain op join part (Suc k) v p =
     (if current_kind p \<noteq> op then Parsed v p
      else and_then advance (\<lambda>_. and_then part (\<lambda>w. parse_condition_chain op join part k (join v w))) p)"

definition parse_condition_and :: "bool parse \<Rightarrow> nat \<Rightarrow> bool parse" where
  "parse_condition_and C n =
     and_then (parse_condition_atom C n) (parse_condition_chain TK_AND_AND_OPERATOR (\<and>) (parse_condition_atom C n) n)"

primrec parse_condition_or :: "nat \<Rightarrow> bool parse" where
  "parse_condition_or 0 p = Unfinished"
| "parse_condition_or (Suc n) p =
     and_then (parse_condition_and (parse_condition_or n) n)
       (parse_condition_chain TK_OR_OR_OPERATOR (\<or>) (parse_condition_and (parse_condition_or n) n) n) p"

definition parse_target_condition :: "nat \<Rightarrow> bool parse" where
  "parse_target_condition n p =
     (if parser_target p = None then reject Diag_Word_Syntax_Target_Condition_Without_Target p
      else parse_condition_or n p)"

end
