(* ===== verification/Parser_Module.thy ===== *)
theory Parser_Module
  imports Parser_Statement Parser_Condition Names
begin

text \<open>
  The parser of declarations and modules: \<open>parser_function.c\<close>, \<open>parser_generic_parameters.c\<close>,
  \<open>parser_type_declaration.c\<close>, \<open>parser_import.c\<close> and \<open>parser_module*.c\<close> under
  \<open>src/frontend/parser\<close>. A parser that pushes an item onto the vector of a module takes the items so
  far and returns them with the item.
\<close>

section \<open>Type parameters and functions\<close>

definition parse_type_parameter :: "text_slice parse" where
  "parse_type_parameter p =
     (let name = token_lexeme (parser_current p)
      in if current_kind p \<noteq> TK_IDENTIFIER then reject Diag_Word_Syntax_Expected_Type_Name p
         else and_then parser_push_reported (\<lambda>_. parse_map (\<lambda>_. name) advance) p)"

definition freeze_type_parameters :: "text_slice list \<Rightarrow> text_slice list parse" where
  "freeze_type_parameters xs p =
     (case parser_allocates p of (granted, p1) \<Rightarrow> if granted then Parsed xs p1 else Rejected p1)"

definition parse_type_parameters :: "nat \<Rightarrow> text_slice list parse" where
  "parse_type_parameters n p =
     (case parser_accept TK_LESS_THAN_OPERATOR p of
        (p1, False) \<Rightarrow> Parsed [] p1
      | (p1, True) \<Rightarrow>
          if current_kind p1 = TK_GREATER_THAN_OPERATOR then reject Diag_Word_Syntax_Expected_Type_Name p1
          else and_then (parse_separated n parse_type_parameter) (\<lambda>xs.
               and_then (expect TK_GREATER_THAN_OPERATOR) (\<lambda>_. freeze_type_parameters xs)) p1)"

text \<open>A name with its type: a parameter or a field, with the slot from the name to the end of the type.\<close>

definition parse_named_slot :: "wording_key \<Rightarrow> ast_type parse \<Rightarrow> (text_slice \<times> ast_slot) parse" where
  "parse_named_slot key T p =
     (let start = parser_start p; name = token_lexeme (parser_current p)
      in if current_kind p \<noteq> TK_IDENTIFIER then reject key p
         else and_then advance (\<lambda>_. and_then (expect TK_COLON_OPERATOR) (\<lambda>_. and_then T (\<lambda>t p1.
                parse_map (\<lambda>_. (name, parser_exterior_slot t (parser_span start (parser_end p1))))
                  parser_push_reported p1))) p)"

definition parse_parameter :: "ast_type parse \<Rightarrow> ast_function_parameter parse" where
  "parse_parameter T =
     parse_map (\<lambda>(x, s). \<lparr>parameter_name = x, parameter_slot = s\<rparr>)
       (parse_named_slot Diag_Word_Syntax_Expected_Parameter_Name T)"

text \<open>The body of a function; an external one ends with a semicolon.\<close>

definition parse_function_body :: "ast_block parse \<Rightarrow> bool \<Rightarrow> ast_block option parse" where
  "parse_function_body B external =
     (if external then parse_map (\<lambda>_. None) (expect TK_SEMICOLON_OPERATOR) else parse_map Some B)"

definition parse_function_end ::
    "text_slice \<Rightarrow> bool \<Rightarrow> bool \<Rightarrow> source_position \<Rightarrow> ast_function_parameter list \<Rightarrow> ast_slot
     \<Rightarrow> ast_block option \<Rightarrow> ast_function parse" where
  "parse_function_end name public external start parameters out body p =
     (let stop = (case body of None \<Rightarrow> parser_end p | Some b \<Rightarrow> span_end (block_span b))
      in and_then parser_new_node (\<lambda>_. and_then parser_fresh_node (\<lambda>k.
           parse_map (\<lambda>ps.
             \<lparr>function_node = k, function_span = parser_span start stop, function_name = name,
              function_public = public, function_external = external, function_type_parameters = [],
              function_parameters = ps, function_output = out, function_body = body\<rparr>)
             (parser_freeze_vector parameters))) p)"

definition parse_function ::
    "nat \<Rightarrow> text_slice \<Rightarrow> bool \<Rightarrow> bool \<Rightarrow> source_position \<Rightarrow> ast_function parse" where
  "parse_function n name public external start =
     and_then (expect TK_LEFT_PARENTHESIS_OPERATOR) (\<lambda>_.
     and_then (parse_until n TK_RIGHT_PARENTHESIS_OPERATOR (parse_parameter (parse_type n))) (\<lambda>parameters.
     and_then (expect TK_RIGHT_PARENTHESIS_OPERATOR) (\<lambda>_.
     and_then (expect TK_COLON_OPERATOR) (\<lambda>_ p.
       and_then (parse_type n) (\<lambda>t p1.
         and_then (parse_function_body (parse_block n) external)
           (parse_function_end name public external start parameters
              (parser_exterior_slot t (parser_span (parser_start p) (parser_end p1)))) p1) p))))"

section \<open>Type declarations\<close>

definition parse_struct_field :: "ast_type parse \<Rightarrow> ast_struct_field parse" where
  "parse_struct_field T =
     parse_map (\<lambda>(x, s). \<lparr>struct_field_name = x, struct_field_slot = s\<rparr>)
       (parse_named_slot Diag_Word_Syntax_Expected_Struct_Field T)"

definition parse_struct_body :: "nat \<Rightarrow> ast_type parse \<Rightarrow> ast_type_decl_body parse" where
  "parse_struct_body n T =
     and_then (parse_until n TK_RIGHT_BRACE_OPERATOR (parse_struct_field T)) (\<lambda>fs.
     and_then (expect TK_RIGHT_BRACE_OPERATOR) (\<lambda>_. parse_map Decl_Struct (parser_freeze_vector fs)))"

definition parser_enum_constructor_name_exists :: "ast_enum_constructor list \<Rightarrow> text_slice \<Rightarrow> bool" where
  "parser_enum_constructor_name_exists ks name \<longleftrightarrow> (\<exists>k \<in> set ks. identity_equals (constructor_name k) name)"

definition parse_payload_slot :: "ast_type parse \<Rightarrow> ast_slot parse" where
  "parse_payload_slot T p =
     and_then T (\<lambda>t p1.
       parse_map (\<lambda>_. parser_exterior_slot t (parser_span (parser_start p) (parser_end p1))) parser_push_reported p1) p"

text \<open>The payload of a constructor: one type, or several in parentheses.\<close>

definition parse_constructor_payload :: "nat \<Rightarrow> ast_type parse \<Rightarrow> ast_slot list parse" where
  "parse_constructor_payload n T p =
     (case parser_accept TK_OF p of
        (p1, False) \<Rightarrow> Parsed [] p1
      | (p1, True) \<Rightarrow>
          (case parser_accept TK_LEFT_PARENTHESIS_OPERATOR p1 of
             (p2, False) \<Rightarrow> parse_map (\<lambda>s. [s]) (parse_payload_slot T) p2
           | (p2, True) \<Rightarrow>
               and_then (parse_separated n (parse_payload_slot T)) (\<lambda>ss.
                 parse_map (\<lambda>_. ss) (expect TK_RIGHT_PARENTHESIS_OPERATOR)) p2))"

definition parser_report :: "error_id \<Rightarrow> source_span \<Rightarrow> parser \<Rightarrow> parser" where
  "parser_report e sp p = p\<lparr>parser_diagnostic := diagnostic_begin e sp, parser_failed := True\<rparr>"

definition parse_constructor :: "nat \<Rightarrow> ast_type parse \<Rightarrow> ast_enum_constructor list \<Rightarrow> ast_enum_constructor parse" where
  "parse_constructor n T seen p =
     (let sp = token_span (parser_current p)
      in if \<not> parser_token_is_contextual_name (parser_current p)
         then reject Diag_Word_Syntax_Expected_Enum_Constructor p
         else and_then parser_take_contextual_name (\<lambda>name p1.
                if parser_enum_constructor_name_exists seen name
                then Rejected (parser_report E0205_Duplicate_Declaration sp p1)
                else and_then (parse_constructor_payload n T) (\<lambda>ss.
                     and_then (parser_freeze_vector ss) (\<lambda>ss.
                       parse_map (\<lambda>_. \<lparr>constructor_name = name, constructor_payload_slots = ss\<rparr>)
                         parser_push_reported)) p1) p)"

primrec parse_constructors ::
    "nat \<Rightarrow> ast_type parse \<Rightarrow> nat \<Rightarrow> ast_enum_constructor list \<Rightarrow> ast_enum_constructor list parse" where
  "parse_constructors n T 0 seen p = Unfinished"
| "parse_constructors n T (Suc k) seen p =
     and_then (parse_constructor n T seen) (\<lambda>c p1.
       case parser_accept TK_OR_OPERATOR p1 of
         (p2, True) \<Rightarrow> parse_constructors n T k (seen @ [c]) p2
       | (p2, False) \<Rightarrow> Parsed (seen @ [c]) p2) p"

definition parse_declaration_body :: "nat \<Rightarrow> ast_type_decl_body parse" where
  "parse_declaration_body n p =
     (case parser_accept TK_LEFT_BRACE_OPERATOR p of
        (p1, True) \<Rightarrow> parse_struct_body n (parse_type n) p1
      | (p1, False) \<Rightarrow>
          (case parser_accept TK_OR_OPERATOR p1 of
             (p2, True) \<Rightarrow>
               and_then (parse_constructors n (parse_type n) n []) (\<lambda>ks.
                 parse_map Decl_Enum (parser_freeze_vector ks)) p2
           | (p2, False) \<Rightarrow> parse_map Decl_Alias (parse_type n) p2))"

definition parse_type_declaration :: "nat \<Rightarrow> text_slice \<Rightarrow> ast_type_declaration parse" where
  "parse_type_declaration n name =
     and_then parser_new_node (\<lambda>_. and_then parser_fresh_node (\<lambda>k.
       parse_map (\<lambda>b. \<lparr>decl_node = k, decl_name = name, decl_type_parameters = [], decl_body = b\<rparr>)
         (parse_declaration_body n)))"

section \<open>Items\<close>

definition parser_module_find_binding :: "ast_module_item list \<Rightarrow> text_slice \<Rightarrow> nat option" where
  "parser_module_find_binding items name =
     List.find (\<lambda>i. identity_equals (item_name (items ! i)) name) [0..<length items]"

definition parser_module_name_exists :: "ast_module_item list \<Rightarrow> text_slice \<Rightarrow> bool" where
  "parser_module_name_exists items name \<longleftrightarrow> parser_module_find_binding items name \<noteq> None"

definition parser_push_module_item :: "ast_module_item list \<Rightarrow> ast_module_item \<Rightarrow> ast_module_item list parse" where
  "parser_push_module_item items item p =
     (if item_name item \<noteq> [] \<and> parser_module_name_exists items (item_name item)
      then Rejected (parser_report E0205_Duplicate_Declaration (item_span item) p)
      else parse_map (\<lambda>_. items @ [item]) parser_push_reported p)"

definition parser_push_new_item ::
    "ast_module_item list \<Rightarrow> text_slice \<Rightarrow> bool \<Rightarrow> source_span \<Rightarrow> ast_module_item_body \<Rightarrow> ast_module_item list parse" where
  "parser_push_new_item items name public sp body =
     and_then parser_new_node (\<lambda>_.
       parser_push_module_item items \<lparr>item_span = sp, item_name = name, item_public = public, item_body = body\<rparr>)"

definition parse_type_item :: "nat \<Rightarrow> ast_module_item list \<Rightarrow> bool \<Rightarrow> ast_module_item list parse" where
  "parse_type_item n items public p =
     (let start = parser_start p
      in and_then advance (\<lambda>_ p1.
           let name = token_lexeme (parser_current p1)
           in if current_kind p1 \<noteq> TK_IDENTIFIER then reject Diag_Word_Syntax_Expected_Type_Name p1
              else and_then advance (\<lambda>_. and_then (parse_type_parameters n) (\<lambda>xs.
                   and_then (expect TK_DEFINITION_SEPARATOR) (\<lambda>_.
                   and_then (parse_type_declaration n name) (\<lambda>d.
                   and_then (expect TK_SEMICOLON_OPERATOR) (\<lambda>_ p2.
                     parser_push_new_item items name public (parser_span start (parser_end p2))
                       (Item_Type (d\<lparr>decl_type_parameters := xs\<rparr>)) p2))))) p1) p)"

definition parse_function_item :: "nat \<Rightarrow> ast_module_item list \<Rightarrow> bool \<Rightarrow> bool \<Rightarrow> ast_module_item list parse" where
  "parse_function_item n items public external p =
     (let start = parser_start p
      in and_then (expect TK_FUNCTION_DEF) (\<lambda>_ p1.
           let name = token_lexeme (parser_current p1)
           in if current_kind p1 \<noteq> TK_IDENTIFIER then reject Diag_Word_Syntax_Expected_Function_Name p1
              else and_then advance (\<lambda>_. and_then (parse_type_parameters n) (\<lambda>xs.
                   and_then (parse_function n name public external start) (\<lambda>f.
                     parser_push_new_item items name public (function_span f)
                       (Item_Function (f\<lparr>function_type_parameters := xs\<rparr>))))) p1) p)"

text \<open>The name of an external symbol: a text without a null byte, not empty.\<close>

definition parse_link_name :: "text_slice parse" where
  "parse_link_name p =
     (if current_kind p \<noteq> TK_LIT_STR then reject Diag_Word_Syntax_Expected_External_Symbol_Name p
      else and_then parser_current_text (\<lambda>x.
             if x = [] \<or> 0 \<in> set x then reject Diag_Word_Syntax_Expected_External_Symbol_Name
             else and_then (parser_copy_literal_text x) (\<lambda>copy.
                    if copy = None then reject_oom else Parsed x)) p)"

definition parse_global_item ::
    "nat \<Rightarrow> ast_module_item list \<Rightarrow> bool \<Rightarrow> source_position \<Rightarrow> ast_module_item list parse" where
  "parse_global_item n items public start =
     and_then (expect TK_LET) (\<lambda>_ p.
       let name = token_lexeme (parser_current p)
       in if current_kind p \<noteq> TK_IDENTIFIER then reject Diag_Word_Syntax_Expected_Variable_Name p
          else and_then advance (\<lambda>_. and_then (expect TK_COLON_OPERATOR) (\<lambda>_.
               and_then (parse_type n) (\<lambda>t. and_then (expect TK_DEFINITION_SEPARATOR) (\<lambda>_.
               and_then parse_link_name (\<lambda>x. and_then advance (\<lambda>_.
               and_then (expect TK_SEMICOLON_OPERATOR) (\<lambda>_ p1.
                 let sp = parser_span start (parser_end p1)
                 in and_then parser_new_node (\<lambda>_.
                      parser_push_new_item items name public sp
                        (Item_Global \<lparr>global_span = sp, global_type = t, global_link_name = x,
                           global_external = True\<rparr>)) p1))))))) p)"

section \<open>Imports\<close>

text \<open>The bytes are pushed one by one until the allocator refuses.\<close>

primrec parser_append_import_bytes :: "bytes \<Rightarrow> parser \<Rightarrow> parser \<times> bool" where
  "parser_append_import_bytes [] p = (p, True)"
| "parser_append_import_bytes (b # bs) p =
     (case parser_allocates p of
        (granted, p1) \<Rightarrow> if granted then parser_append_import_bytes bs p1 else (p1, False))"

primrec parse_import_path :: "nat \<Rightarrow> bytes \<Rightarrow> bytes parse" where
  "parse_import_path 0 path p = Unfinished"
| "parse_import_path (Suc k) path p =
     (let name = token_lexeme (parser_current p)
      in if current_kind p \<noteq> TK_IDENTIFIER then reject Diag_Word_Syntax_Expected_Source_Or_Module p
         else (case parser_append_import_bytes name p of
                 (p1, False) \<Rightarrow> reject Diag_Word_Syntax_Expected_Source_Or_Module p1
               | (p1, True) \<Rightarrow>
                   and_then advance (\<lambda>_ p2.
                     if current_kind p2 \<noteq> TK_DOT_OPERATOR then Parsed (path @ name) p2
                     else and_then (must (parser_append_import_bytes [0x2F])) (\<lambda>_. and_then advance (\<lambda>_ p3.
                            if current_kind p3 \<noteq> TK_IDENTIFIER
                            then reject Diag_Word_Syntax_Expected_Source_Or_Module p3
                            else parse_import_path k (path @ name @ [0x2F]) p3)) p2) p1))"

definition parse_logical_import :: "nat \<Rightarrow> ast_import parse" where
  "parse_logical_import n =
     and_then (parse_import_path n []) (\<lambda>path p.
       case parser_append_import_bytes [0x2E, 0x73, 0x6E] p of
         (p1, False) \<Rightarrow> reject_oom p1
       | (p1, True) \<Rightarrow>
           (case parser_allocates p1 of
              (granted, p2) \<Rightarrow>
                if \<not> granted then reject_oom p2
                else Parsed \<lparr>import_kind = Import_Logical, import_path = path @ [0x2E, 0x73, 0x6E]\<rparr> p2))"

definition parse_import_source :: "nat \<Rightarrow> ast_import parse" where
  "parse_import_source n p =
     (if current_kind p = TK_LIT_STR
      then and_then parser_current_text (\<lambda>x. and_then (parser_copy_literal_text x) (\<lambda>copy.
             parse_map (\<lambda>_. \<lparr>import_kind = Import_Relative, import_path = (case copy of None \<Rightarrow> [] | Some y \<Rightarrow> y)\<rparr>)
               advance)) p
      else if current_kind p = TK_IDENTIFIER then parse_logical_import n p
      else reject Diag_Word_Syntax_Expected_Source_Or_Module p)"

definition parse_import :: "nat \<Rightarrow> ast_import parse" where
  "parse_import n =
     and_then advance (\<lambda>_. and_then (parse_import_source n) (\<lambda>i.
       and_then (expect TK_SEMICOLON_OPERATOR) (\<lambda>_. parse_map (\<lambda>_. i) parser_push_reported)))"

section \<open>Aliases\<close>

record parser_alias_path =
  path_of :: ast_alias_path
  path_parent_span :: source_span
  path_name_span :: source_span
  path_qualified :: bool

definition parse_alias_path :: "parser_alias_path parse" where
  "parse_alias_path p =
     (let first = token_lexeme (parser_current p); sp = token_span (parser_current p)
      in if current_kind p \<noteq> TK_IDENTIFIER then reject Diag_Word_Syntax_Expected_Module_Item p
         else and_then advance (\<lambda>_ p1.
                case parser_accept TK_DOT_OPERATOR p1 of
                  (p2, False) \<Rightarrow>
                    Parsed \<lparr>path_of = \<lparr>alias_parent = [], alias_name = first\<rparr>, path_parent_span = zero_span,
                      path_name_span = sp, path_qualified = False\<rparr> p2
                | (p2, True) \<Rightarrow>
                    if \<not> parser_token_is_contextual_name (parser_current p2)
                    then reject Diag_Word_Syntax_Expected_Module_Item p2
                    else parse_map (\<lambda>name.
                           \<lparr>path_of = \<lparr>alias_parent = first, alias_name = name\<rparr>, path_parent_span = sp,
                             path_name_span = token_span (parser_current p2), path_qualified = True\<rparr>)
                           parser_take_contextual_name p2) p)"

text \<open>
  Only bindings parsed before count. An item is its position; the first argument of a loop bounds its
  rounds by one more than the number of items.
\<close>

primrec root_binding_loop :: "nat \<Rightarrow> ast_module_item list \<Rightarrow> text_slice \<Rightarrow> nat option" where
  "root_binding_loop 0 items name = None"
| "root_binding_loop (Suc k) items name =
     (case parser_module_find_binding items name of
        None \<Rightarrow> None
      | Some i \<Rightarrow>
          (case item_body (items ! i) of
             Item_Alias a \<Rightarrow>
               if alias_parent (alias_destination a) \<noteq> [] then Some i
               else if alias_parent (alias_target a) \<noteq> [] then None
               else root_binding_loop k items (alias_name (alias_target a))
           | _ \<Rightarrow> Some i))"

definition parser_resolve_root_binding :: "ast_module_item list \<Rightarrow> text_slice \<Rightarrow> nat option" where
  "parser_resolve_root_binding items name = root_binding_loop (length items + 1) items name"

definition parser_find_direct_enum_constructor :: "ast_module_item \<Rightarrow> text_slice \<Rightarrow> nat option" where
  "parser_find_direct_enum_constructor parent name =
     (case item_body parent of
        Item_Type d \<Rightarrow>
          (case decl_body d of
             Decl_Enum ks \<Rightarrow> List.find (\<lambda>i. identity_equals (constructor_name (ks ! i)) name) [0..<length ks]
           | _ \<Rightarrow> None)
      | _ \<Rightarrow> None)"

text \<open>The alias of a constructor of the parent with the name, if any.\<close>

definition child_alias :: "ast_module_item list \<Rightarrow> nat \<Rightarrow> text_slice \<Rightarrow> ast_module_alias option" where
  "child_alias items parent name =
     Option.bind
       (List.find (\<lambda>item. case item_body item of
            Item_Alias a \<Rightarrow>
              alias_parent (alias_destination a) \<noteq> [] \<and> identity_equals (alias_name (alias_destination a)) name
              \<and> parser_resolve_root_binding items (alias_parent (alias_destination a)) = Some parent
          | _ \<Rightarrow> False) items)
       (\<lambda>item. case item_body item of Item_Alias a \<Rightarrow> Some a | _ \<Rightarrow> None)"

primrec enum_child_loop :: "nat \<Rightarrow> ast_module_item list \<Rightarrow> nat \<Rightarrow> text_slice \<Rightarrow> nat option" where
  "enum_child_loop 0 items parent name = None"
| "enum_child_loop (Suc k) items parent name =
     (case parser_find_direct_enum_constructor (items ! parent) name of
        Some i \<Rightarrow> Some i
      | None \<Rightarrow>
          (case child_alias items parent name of
             None \<Rightarrow> None
           | Some a \<Rightarrow>
               if parser_resolve_root_binding items (alias_parent (alias_target a)) \<noteq> Some parent then None
               else enum_child_loop k items parent (alias_name (alias_target a))))"

definition parser_resolve_enum_child :: "ast_module_item list \<Rightarrow> nat \<Rightarrow> text_slice \<Rightarrow> nat option" where
  "parser_resolve_enum_child items parent name = enum_child_loop (length items + 1) items parent name"

text \<open>What an alias may name: \<open>None\<close>, or the error with its place.\<close>

definition private_alias_error :: "parser_alias_path \<Rightarrow> parser_alias_path \<Rightarrow> (error_id \<times> source_span) option" where
  "private_alias_error destination target =
     (let b = name_find_builtin_function (alias_name (path_of target))
      in if path_qualified destination
            \<or> identity_equals (alias_name (path_of destination)) (alias_name (path_of target))
         then Some (E0304_Unsatisfied_Use, path_name_span target)
         else if b = Builtin_None \<or> name_builtin_is_direct_source b
         then Some (E0300_Unknown_Name, path_name_span target)
         else None)"

definition root_alias_error ::
    "ast_module_item list \<Rightarrow> parser_alias_path \<Rightarrow> parser_alias_path \<Rightarrow> (error_id \<times> source_span) option" where
  "root_alias_error items destination target =
     (if identity_equals (alias_name (path_of destination)) (alias_name (path_of target))
      then Some (E0205_Duplicate_Declaration, path_name_span destination)
      else (case parser_module_find_binding items (alias_name (path_of target)) of
              None \<Rightarrow> Some (E0300_Unknown_Name, path_name_span target)
            | Some i \<Rightarrow>
                if \<not> item_public (items ! i) then Some (E0309_Private_Declaration, path_name_span target) else None))"

definition child_alias_error ::
    "ast_module_item list \<Rightarrow> parser_alias_path \<Rightarrow> parser_alias_path \<Rightarrow> (error_id \<times> source_span) option" where
  "child_alias_error items destination target =
     (case (parser_resolve_root_binding items (alias_parent (path_of destination)),
            parser_resolve_root_binding items (alias_parent (path_of target))) of
        (None, _) \<Rightarrow> Some (E0300_Unknown_Name, path_parent_span destination)
      | (Some _, None) \<Rightarrow> Some (E0300_Unknown_Name, path_parent_span target)
      | (Some i, Some j) \<Rightarrow>
          if \<not> item_public (items ! i) \<or> \<not> item_public (items ! j)
          then Some (E0309_Private_Declaration, path_parent_span target)
          else if i \<noteq> j then Some (E0304_Unsatisfied_Use, path_parent_span target)
          else if identity_equals (alias_name (path_of destination)) (alias_name (path_of target))
               \<or> parser_resolve_enum_child items i (alias_name (path_of destination)) \<noteq> None
          then Some (E0205_Duplicate_Declaration, path_name_span destination)
          else if parser_resolve_enum_child items j (alias_name (path_of target)) = None
          then Some (E0300_Unknown_Name, path_name_span target)
          else None)"

definition alias_error ::
    "ast_module_item list \<Rightarrow> bool \<Rightarrow> parser_alias_path \<Rightarrow> parser_alias_path \<Rightarrow> (error_id \<times> source_span) option" where
  "alias_error items public destination target =
     (if path_qualified destination \<noteq> path_qualified target
      then Some (E0304_Unsatisfied_Use, path_name_span target)
      else if \<not> public then private_alias_error destination target
      else if \<not> path_qualified destination then root_alias_error items destination target
      else child_alias_error items destination target)"

definition parse_alias_item ::
    "ast_module_item list \<Rightarrow> source_position \<Rightarrow> bool \<Rightarrow> ast_module_item list parse" where
  "parse_alias_item items start public =
     and_then (expect TK_ALIAS) (\<lambda>_.
     and_then parse_alias_path (\<lambda>destination.
     and_then (expect TK_DEFINITION_SEPARATOR) (\<lambda>_.
     and_then parse_alias_path (\<lambda>target p.
       case alias_error items public destination target of
         Some (e, sp) \<Rightarrow> Rejected (parser_report e sp p)
       | None \<Rightarrow>
           and_then (expect TK_SEMICOLON_OPERATOR) (\<lambda>_ p1.
             parser_push_new_item items
               (if path_qualified destination then [] else alias_name (path_of destination)) public
               (parser_span start (parser_end p1))
               (Item_Alias \<lparr>alias_destination = path_of destination, alias_target = path_of target\<rparr>) p1) p))))"

section \<open>Modules\<close>

definition parse_external_module_item ::
    "nat \<Rightarrow> ast_module_item list \<Rightarrow> bool \<Rightarrow> source_position \<Rightarrow> ast_module_item list parse" where
  "parse_external_module_item n items public start p =
     (if token_kind_of (parser_next p) = TK_LET
      then and_then advance (\<lambda>_. parse_global_item n items public start) p
      else and_then advance (\<lambda>_ p1.
             if current_kind p1 \<noteq> TK_FUNCTION_DEF then reject Diag_Word_Syntax_Expected_Module_Item p1
             else parse_function_item n items public True p1) p)"

definition parse_public_module_item :: "nat \<Rightarrow> ast_module_item list \<Rightarrow> ast_module_item list parse" where
  "parse_public_module_item n items p =
     (let start = parser_start p
      in and_then advance (\<lambda>_ p1.
           let k = current_kind p1
           in if k = TK_ALIAS then parse_alias_item items start True p1
              else if k = TK_TYPE then parse_type_item n items True p1
              else if k = TK_EXTERN then parse_external_module_item n items True start p1
              else if k = TK_FUNCTION_DEF then parse_function_item n items True False p1
              else reject Diag_Word_Syntax_Expected_Module_Item p1) p)"

type_synonym module_content = "ast_module_item list \<times> ast_import list"

text \<open>
  A condition on the target with its arms; \<open>C\<close> parses an arm that is active or not and returns the
  content extended by what the arm contributes.
\<close>

definition parse_module_condition ::
    "(bool \<Rightarrow> module_content \<Rightarrow> module_content parse) \<Rightarrow> nat \<Rightarrow> bool \<Rightarrow> module_content \<Rightarrow> module_content parse" where
  "parse_module_condition C n active content =
     and_then advance (\<lambda>_.
     and_then (expect TK_LEFT_PARENTHESIS_OPERATOR) (\<lambda>_.
     and_then (parse_target_condition n) (\<lambda>v.
     and_then (expect TK_RIGHT_PARENTHESIS_OPERATOR) (\<lambda>_.
     and_then (expect TK_LEFT_BRACE_OPERATOR) (\<lambda>_.
     and_then (C (active \<and> v) content) (\<lambda>content p.
       if current_kind p \<noteq> TK_ELSE then Parsed content p
       else and_then advance (\<lambda>_. and_then (expect TK_LEFT_BRACE_OPERATOR) (\<lambda>_. C (active \<and> \<not> v) content)) p))))))"

definition parse_module_item ::
    "(module_content \<Rightarrow> module_content parse) \<Rightarrow> nat \<Rightarrow> module_content \<Rightarrow> module_content parse" where
  "parse_module_item condition n content p =
     (let k = current_kind p; items = fst content; imports = snd content;
          extended = parse_map (\<lambda>xs. (xs, imports))
      in if k = TK_IF then condition content p
         else if k = TK_IMPORT then parse_map (\<lambda>i. (items, imports @ [i])) (parse_import n) p
         else if k = TK_ALIAS then extended (parse_alias_item items (parser_start p) False) p
         else if k = TK_TYPE then extended (parse_type_item n items False) p
         else if k = TK_PUBLIC then extended (parse_public_module_item n items) p
         else if k = TK_EXTERN then extended (parse_external_module_item n items False (parser_start p)) p
         else if k = TK_FUNCTION_DEF then extended (parse_function_item n items False False) p
         else reject Diag_Word_Syntax_Expected_Module_Item p)"

primrec parse_module_loop ::
    "(module_content \<Rightarrow> module_content parse) \<Rightarrow> nat \<Rightarrow> nat \<Rightarrow> bool \<Rightarrow> module_content \<Rightarrow> module_content parse" where
  "parse_module_loop I n 0 inside content p = Unfinished"
| "parse_module_loop I n (Suc k) inside content p =
     (if current_kind p = TK_EOF
      then (if inside then parse_map (\<lambda>_. content) (expect TK_RIGHT_BRACE_OPERATOR) p else Parsed content p)
      else if inside \<and> current_kind p = TK_RIGHT_BRACE_OPERATOR then parse_map (\<lambda>_. content) advance p
      else and_then (parse_module_item I n content) (parse_module_loop I n k inside) p)"

text \<open>The content of an arm that is not active is parsed into lists that are thrown away.\<close>

primrec parse_module_content :: "nat \<Rightarrow> bool \<Rightarrow> bool \<Rightarrow> module_content \<Rightarrow> module_content parse" where
  "parse_module_content 0 inside active content p = Unfinished"
| "parse_module_content (Suc n) inside active content p =
     parse_map (\<lambda>parsed. if active then parsed else content)
       (parse_module_loop (parse_module_condition (parse_module_content n True) n active) n n inside
          (if active then content else ([], []))) p"

definition parse_module_items :: "nat \<Rightarrow> ast_module parse" where
  "parse_module_items n =
     and_then (parse_module_content n False True ([], [])) (\<lambda>(items, imports).
     and_then (parser_freeze_vector items) (\<lambda>items.
       parse_map (\<lambda>imports. \<lparr>module_items = items, module_imports = imports\<rparr>) (parser_freeze_vector imports)))"

record parse_result =
  result_module :: ast_module
  result_diagnostic :: diagnostic
  result_failed :: bool
  result_lost :: bool

definition failed_result :: "parser \<Rightarrow> parse_result" where
  "failed_result p = \<lparr>result_module = \<lparr>module_items = [], module_imports = []\<rparr>,
     result_diagnostic = parser_diagnostic p, result_failed = True, result_lost = parser_lost p\<rparr>"

text \<open>
  A whole module, with the answers of the allocator to the lexer and to the parser, the next fresh
  node, and the diagnostic \<open>memset\<close> leaves. The answer is the result and whether the module parsed;
  \<open>None\<close> is running out of fuel.
\<close>

definition parser_parse_module ::
    "(nat \<Rightarrow> bool) \<Rightarrow> (nat \<Rightarrow> bool) \<Rightarrow> node \<Rightarrow> diagnostic \<Rightarrow> source_file \<Rightarrow> bootstrap_target option
     \<Rightarrow> nat \<Rightarrow> (parse_result \<times> bool) option" where
  "parser_parse_module lexer_answers answers fresh zero source target n =
     (case parser_init lexer_answers answers fresh zero source of
        (p, False) \<Rightarrow> Some (failed_result p, False)
      | (p, True) \<Rightarrow>
          (case parse_module_items n (p\<lparr>parser_target := target\<rparr>) of
             Unfinished \<Rightarrow> None
           | Rejected p1 \<Rightarrow> Some (failed_result p1, False)
           | Parsed m p1 \<Rightarrow>
               Some (\<lparr>result_module = m, result_diagnostic = parser_diagnostic p1, result_failed = False,
                      result_lost = parser_lost p1\<rparr>, True)))"

end
