(* ===== verification/Parser_Laws.thy ===== *)
theory Parser_Laws
  imports Parser
begin

text \<open>
  The laws of the parser's cursor on a source the lexer accepts: the tokens still to be read, and a
  calculus of what a parsing function consumes. A function that starves has had less fuel than tokens.
\<close>

section \<open>The tokens to be read\<close>

inductive delivers :: "lexer \<Rightarrow> token list \<Rightarrow> bool" where
  delivers_end: "lexer_next l = (l1, Some t) \<Longrightarrow> token_kind_of t = TK_EOF \<Longrightarrow> delivers l [t]"
| delivers_more: "lexer_next l = (l1, Some t) \<Longrightarrow> token_kind_of t \<noteq> TK_EOF \<Longrightarrow> delivers l1 ts \<Longrightarrow> delivers l (t # ts)"

inductive_cases deliversE: "delivers l ts"

inductive_simps delivers_Cons: "delivers l (t # ts)"

lemma delivers_nonempty: "delivers l ts \<Longrightarrow> ts \<noteq> []"
  by (auto elim: deliversE)

lemma delivers_run: "lexer_run n l = Some (l1, ts, True) \<Longrightarrow> delivers l ts"
proof (induction n arbitrary: l ts)
  case (Suc n)
  then show ?case
    by (fastforce split: prod.splits option.splits if_splits intro: delivers.intros)
qed simp

definition reading :: "parser \<Rightarrow> token list \<Rightarrow> bool" where
  "reading p ts \<longleftrightarrow> \<not> parser_failed p \<and> (\<exists>us. ts = parser_current p # us
     \<and> (if current_kind p = TK_EOF then us = []
        else (\<exists>vs. us = parser_next p # vs
               \<and> (if token_kind_of (parser_next p) = TK_EOF then vs = [] else delivers (parser_lexer p) vs))))"

lemma reading_current: "reading p ts \<Longrightarrow> \<exists>us. ts = parser_current p # us"
  by (auto simp: reading_def)

lemma reading_head: "reading p (t # us) \<Longrightarrow> parser_current p = t"
  by (simp add: reading_def)

lemma reading_ok: "reading p ts \<Longrightarrow> \<not> parser_failed p"
  by (simp add: reading_def)

lemma reading_end: "reading p (t # us) \<Longrightarrow> token_kind_of t = TK_EOF \<longleftrightarrow> us = []"
  by (auto simp: reading_def split: if_splits)

lemma reading_next: "reading p (t # u # us) \<Longrightarrow> parser_next p = u"
  by (auto simp: reading_def split: if_splits)

text \<open>The fields the cursor does not touch.\<close>

definition same_store :: "parser \<Rightarrow> parser \<Rightarrow> bool" where
  "same_store p q \<longleftrightarrow> parser_heap q = parser_heap p \<and> parser_lost q = parser_lost p
     \<and> parser_target q = parser_target p \<and> parser_diagnostic q = parser_diagnostic p"

lemma same_store_refl [simp]: "same_store p p"
  by (simp add: same_store_def)

lemma advance_reading:
  assumes "reading p (t # u # us)"
  shows "\<exists>p1. parser_advance p = (p1, True) \<and> reading p1 (u # us) \<and> same_store p p1 \<and> parser_previous p1 = t"
proof -
  have t: "parser_current p = t" "token_kind_of t \<noteq> TK_EOF" "\<not> parser_failed p" "parser_next p = u"
    and us: "if token_kind_of u = TK_EOF then us = [] else delivers (parser_lexer p) us"
    using assms by (auto simp: reading_def split: if_splits)
  show ?thesis
  proof (cases "token_kind_of u = TK_EOF")
    case True
    with t us show ?thesis
      by (simp add: parser_advance_def reading_def same_store_def)
  next
    case False
    with us have "delivers (parser_lexer p) us"
      by simp
    then obtain l1 v vs where v: "lexer_next (parser_lexer p) = (l1, Some v)" "us = v # vs"
        "if token_kind_of v = TK_EOF then vs = [] else delivers l1 vs"
      by (auto elim: deliversE)
    with t False show ?thesis
      by (simp add: parser_advance_def parser_read_token_def reading_def same_store_def)
  qed
qed

lemma init_reading:
  assumes "delivers (lexer_init answers (Some source)) ts" "parser_init answers heap fresh zero source = (p, True)"
  shows "reading p ts"
proof -
  obtain t us where ts: "ts = t # us"
    using assms(1) by (auto elim: deliversE)
  show ?thesis
  proof (cases "token_kind_of t = TK_EOF")
    case True
    with assms ts show ?thesis
      by (auto simp: parser_init_def parser_read_token_def Let_def reading_def elim!: deliversE split: prod.splits option.splits)
  next
    case False
    with assms(1) ts obtain l where l: "lexer_next (lexer_init answers (Some source)) = (l, Some t)" "delivers l us"
      by (auto simp: delivers_Cons)
    then obtain u vs where us: "us = u # vs"
      using delivers_nonempty by (cases us) auto
    from l(2) us obtain l1 where "lexer_next l = (l1, Some u)" "if token_kind_of u = TK_EOF then vs = [] else delivers l1 vs"
      by (auto simp: delivers_Cons)
    with assms(2) False ts l(1) us show ?thesis
      by (auto simp: parser_init_def parser_read_token_def Let_def reading_def split: if_splits)
  qed
qed

section \<open>What a parsing function consumes\<close>

definition consumes :: "nat \<Rightarrow> token list \<Rightarrow> 'a parsed \<Rightarrow> ('a \<Rightarrow> token list \<Rightarrow> token list \<Rightarrow> parser \<Rightarrow> bool) \<Rightarrow> bool" where
  "consumes n ts r G \<longleftrightarrow>
     (case r of
        Unfinished \<Rightarrow> n \<le> length ts
      | Rejected p1 \<Rightarrow> True
      | Parsed x p1 \<Rightarrow> (\<exists>us vs. ts = us @ vs \<and> reading p1 vs \<and> G x us vs p1))"

lemma consumes_simps [simp]:
  "consumes n ts (Rejected p) G"
  "consumes n ts Unfinished G \<longleftrightarrow> n \<le> length ts"
  "consumes n ts (reject key p) G"
  "consumes n ts (reject_oom p) G"
  "consumes n ts (reject_unreported f p) G"
  by (simp_all add: consumes_def reject_def reject_oom_def reject_unreported_def)

lemma consumes_ParsedI: "ts = us @ vs \<Longrightarrow> reading p1 vs \<Longrightarrow> G x us vs p1 \<Longrightarrow> consumes n ts (Parsed x p1) G"
  by (auto simp: consumes_def)

lemma consumes_ParsedE:
  assumes "consumes n ts (Parsed x p1) G"
  obtains us vs where "ts = us @ vs" "reading p1 vs" "G x us vs p1"
  using assms by (auto simp: consumes_def)

lemma consumes_Parsed: "reading p ts \<Longrightarrow> G x [] ts p \<Longrightarrow> consumes n ts (Parsed x p) G"
  by (rule consumes_ParsedI) simp_all

lemma consumes_prefix:
  assumes "consumes (n - length us) vs r (\<lambda>y us'. H y (us @ us'))"
  shows "consumes n (us @ vs) r H"
proof (cases r)
  case (Parsed x p1)
  with assms obtain us' ws where "vs = us' @ ws" "reading p1 ws" "H x (us @ us') ws p1"
    by (auto elim: consumes_ParsedE)
  with Parsed show ?thesis
    by (auto intro!: consumes_ParsedI [of _ "us @ us'" ws])
qed (use assms in simp_all)

lemma consumes_weaken:
  assumes "consumes n ts r G" "\<And>x us vs p1. ts = us @ vs \<Longrightarrow> reading p1 vs \<Longrightarrow> G x us vs p1 \<Longrightarrow> H x us vs p1" "m \<le> n"
  shows "consumes m ts r H"
proof (cases r)
  case (Parsed x p1)
  with assms(1) obtain us vs where "ts = us @ vs" "reading p1 vs" "G x us vs p1"
    by (auto elim: consumes_ParsedE)
  with Parsed assms(2) show ?thesis
    by (auto intro!: consumes_ParsedI)
qed (use assms in simp_all)

lemma consumes_and_then:
  assumes "consumes n ts (m p) G"
    and "\<And>x p1 us vs. ts = us @ vs \<Longrightarrow> reading p1 vs \<Longrightarrow> G x us vs p1 \<Longrightarrow>
      consumes (n - length us) vs (f x p1) (\<lambda>y us'. H y (us @ us'))"
  shows "consumes n ts (and_then m f p) H"
proof (cases "m p")
  case (Parsed x p1)
  with assms(1) obtain us vs where us: "ts = us @ vs" "reading p1 vs" "G x us vs p1"
    by (auto elim: consumes_ParsedE)
  from consumes_prefix [OF assms(2) [OF this]] us(1) Parsed show ?thesis
    by (simp add: and_then_def)
qed (use assms(1) in \<open>simp_all add: and_then_def\<close>)

lemma consumes_map:
  "consumes n ts (m p) (\<lambda>x. H (f x)) \<Longrightarrow> consumes n ts (parse_map f m p) H"
  by (cases "m p") (auto simp: parse_map_def consumes_def)

lemma consumes_advance:
  assumes "reading p (t # ts)" "token_kind_of t \<noteq> TK_EOF"
    "\<And>p1. reading p1 ts \<Longrightarrow> same_store p p1 \<Longrightarrow> parser_previous p1 = t \<Longrightarrow> G () [t] ts p1"
  shows "consumes n (t # ts) (advance p) G"
proof -
  obtain u us where "ts = u # us"
    using reading_end [OF assms(1)] assms(2) by (cases ts) auto
  with advance_reading [of p t u us] assms(1) obtain p1 where
    "parser_advance p = (p1, True)" "reading p1 ts" "same_store p p1" "parser_previous p1 = t"
    by blast
  with assms(3) show ?thesis
    by (auto simp: must_def intro!: consumes_ParsedI [of _ "[t]" ts])
qed

lemma consumes_only_advance:
  "reading p (t # ts) \<Longrightarrow> token_kind_of t \<noteq> TK_EOF \<Longrightarrow> (\<And>p1. reading p1 ts \<Longrightarrow> G () [t] ts p1) \<Longrightarrow>
    consumes n (t # ts) (advance p) G"
  by (rule consumes_advance)

lemma consumes_expect:
  assumes "reading p ts" "k \<noteq> TK_EOF"
    "\<And>t us p1. ts = t # us \<Longrightarrow> token_kind_of t = k \<Longrightarrow> reading p1 us \<Longrightarrow> same_store p p1 \<Longrightarrow> G () [t] us p1"
  shows "consumes n ts (expect k p) G"
proof -
  obtain t us where ts: "ts = t # us" "parser_current p = t"
    using reading_current [OF assms(1)] reading_head assms(1) by blast
  show ?thesis
  proof (cases "token_kind_of t = k")
    case True
    with ts have "expect k p = advance p"
      by (simp add: must_def parser_expect_def)
    with consumes_advance [of p t us G n] True ts assms show ?thesis
      by simp
  next
    case False
    with ts show ?thesis
      by (simp add: must_def parser_expect_def)
  qed
qed

lemma accept_reading:
  assumes "reading p (t # ts)" "k \<noteq> TK_EOF"
  shows "token_kind_of t \<noteq> k \<Longrightarrow> parser_accept k p = (p, False)"
    and "token_kind_of t = k \<Longrightarrow> \<exists>p1. parser_accept k p = (p1, True) \<and> reading p1 ts \<and> same_store p p1 \<and> ts \<noteq> []"
proof -
  have t: "parser_current p = t"
    using assms(1) by (rule reading_head)
  then show "token_kind_of t \<noteq> k \<Longrightarrow> parser_accept k p = (p, False)"
    by (simp add: parser_accept_def)
  assume "token_kind_of t = k"
  moreover from this obtain u us where "ts = u # us"
    using reading_end [OF assms(1)] assms(2) by (cases ts) auto
  ultimately show "\<exists>p1. parser_accept k p = (p1, True) \<and> reading p1 ts \<and> same_store p p1 \<and> ts \<noteq> []"
    using advance_reading [of p t u us] assms(1) t by (auto simp: parser_accept_def)
qed

lemma consumes_accept:
  assumes "reading p ts" "k \<noteq> TK_EOF"
    and "\<And>t us p1. ts = t # us \<Longrightarrow> token_kind_of t = k \<Longrightarrow> us \<noteq> [] \<Longrightarrow> reading p1 us \<Longrightarrow>
      consumes (n - 1) us (f p1) (\<lambda>x us'. G x (t # us'))"
    and "\<And>t us. ts = t # us \<Longrightarrow> token_kind_of t \<noteq> k \<Longrightarrow> consumes n ts (g p) G"
  shows "consumes n ts (case parser_accept k p of (p1, True) \<Rightarrow> f p1 | (p1, False) \<Rightarrow> g p1) G"
proof -
  obtain t us where ts: "ts = t # us"
    using reading_current [OF assms(1)] by blast
  show ?thesis
  proof (cases "token_kind_of t = k")
    case True
    with accept_reading(2) [of p t us k] assms(1,2) ts obtain p1 where
      p1: "parser_accept k p = (p1, True)" "reading p1 us" "us \<noteq> []"
      by blast
    from consumes_prefix [of n "[t]" us "f p1" G] assms(3) [OF ts True p1(3,2)] ts p1(1) show ?thesis
      by simp
  next
    case False
    with accept_reading(1) [of p t us k] assms(1,2,4) ts show ?thesis
      by simp
  qed
qed

text \<open>Storage consumes nothing.\<close>

lemma reading_store [simp]:
  "reading (p\<lparr>parser_heap := h\<rparr>) ts = reading p ts"
  "reading (p\<lparr>parser_lost := b\<rparr>) ts = reading p ts"
  "reading (p\<lparr>parser_next_node := k\<rparr>) ts = reading p ts"
  "reading (p\<lparr>parser_next_temporary := i\<rparr>) ts = reading p ts"
  "reading (p\<lparr>parser_target := g\<rparr>) ts = reading p ts"
  by (simp_all add: reading_def)

lemma consumes_new_node:
  "reading p ts \<Longrightarrow> (\<And>p1. reading p1 ts \<Longrightarrow> G () [] ts p1) \<Longrightarrow> consumes n ts (parser_new_node p) G"
  by (auto simp: parser_new_node_def parser_allocates_def intro!: consumes_Parsed)

lemma consumes_fresh_node:
  "reading p ts \<Longrightarrow> (\<And>k p1. reading p1 ts \<Longrightarrow> G k [] ts p1) \<Longrightarrow> consumes n ts (parser_fresh_node p) G"
  by (auto simp: parser_fresh_node_def intro!: consumes_Parsed)

lemma consumes_push:
  "reading p ts \<Longrightarrow> (\<And>p1. reading p1 ts \<Longrightarrow> G () [] ts p1) \<Longrightarrow> consumes n ts (parser_push p) G"
  "reading p ts \<Longrightarrow> (\<And>p1. reading p1 ts \<Longrightarrow> G () [] ts p1) \<Longrightarrow> consumes n ts (parser_push_reported p) G"
  by (auto simp: parser_push_def parser_push_reported_def parser_allocates_def intro!: consumes_Parsed)

lemma consumes_freeze:
  "reading p ts \<Longrightarrow> (\<And>p1. reading p1 ts \<Longrightarrow> G xs [] ts p1) \<Longrightarrow> consumes n ts (parser_freeze_vector xs p) G"
  by (auto simp: parser_freeze_vector_def parser_allocates_def intro!: consumes_Parsed)

lemma consumes_copy_text:
  "reading p ts \<Longrightarrow> (\<And>c p1. reading p1 ts \<Longrightarrow> c = Some t \<or> c = None \<Longrightarrow> G c [] ts p1) \<Longrightarrow>
    consumes n ts (parser_copy_literal_text t p) G"
  by (auto simp: parser_copy_literal_text_def parser_allocates_def intro!: consumes_Parsed)

lemma consumes_payload:
  "reading p (t # ts) \<Longrightarrow> (\<And>v. getter (Some t) = Some v \<Longrightarrow> G v [] (t # ts) p) \<Longrightarrow>
    consumes n (t # ts) (parser_payload getter p) G"
  using reading_head [of p t ts] by (auto simp: parser_payload_def intro!: consumes_Parsed split: option.split)

lemma consumes_element:
  assumes "consumes n ts (m p) G" and "\<And>x us vs p1 p2. G x us vs p1 \<Longrightarrow> reading p2 vs \<Longrightarrow> H x us vs p2"
  shows "consumes n ts (parser_element m p) H"
proof (cases "m p")
  case (Parsed x p1)
  with assms(1) obtain us vs where us: "ts = us @ vs" "reading p1 vs" "G x us vs p1"
    by (auto elim: consumes_ParsedE)
  have "consumes (n - length us) vs (parse_map (\<lambda>_. x) parser_push p1) (\<lambda>y us'. H y (us @ us'))"
    using us assms(2) by (intro consumes_map consumes_push) auto
  from consumes_prefix [OF this] us(1) Parsed show ?thesis
    by (simp add: parser_element_def)
qed (use assms(1) in \<open>simp_all add: parser_element_def\<close>)

section \<open>Steps in sequence\<close>

text \<open>The kind of the first token behind what has been consumed.\<close>

definition following :: "token list \<Rightarrow> token_kind" where
  "following vs = token_kind_of (hd vs)"

lemma following_Cons [simp]: "following (t # ts) = token_kind_of t"
  by (simp add: following_def)

lemma following_current: "reading p ts \<Longrightarrow> following ts = current_kind p"
  by (auto simp: reading_def)

lemma consumes_fuel: "consumes n ts r G \<Longrightarrow> m \<le> n \<Longrightarrow> consumes m ts r G"
  by (rule consumes_weaken)

lemma consumes_advance_then:
  assumes "reading p (t # ts)" "token_kind_of t \<noteq> TK_EOF"
    "\<And>p1. reading p1 ts \<Longrightarrow> consumes (n - 1) ts (f () p1) (\<lambda>y us. H y (t # us))"
  shows "consumes n (t # ts) (and_then advance f p) H"
proof (rule consumes_and_then)
  show "consumes n (t # ts) (advance p) (\<lambda>_ us vs _. us = [t])"
    by (rule consumes_advance [OF assms(1,2)]) simp
qed (use assms(3) in auto)

lemma consumes_expect_then:
  assumes "reading p ts" "k \<noteq> TK_EOF"
    "\<And>t us p1. ts = t # us \<Longrightarrow> token_kind_of t = k \<Longrightarrow> reading p1 us \<Longrightarrow>
      consumes (n - 1) us (f () p1) (\<lambda>y us'. H y (t # us'))"
  shows "consumes n ts (and_then (expect k) f p) H"
proof (rule consumes_and_then)
  show "consumes n ts (expect k p) (\<lambda>_ us vs _. \<exists>t. us = [t] \<and> token_kind_of t = k)"
    by (rule consumes_expect [OF assms(1,2)]) auto
qed (use assms(3) in auto)

text \<open>Steps that consume nothing: storage, nodes and payloads of the current token.\<close>

definition idle :: "'a parse \<Rightarrow> bool" where
  "idle m \<longleftrightarrow> (\<forall>p ts. reading p ts \<longrightarrow> consumes (length ts + 1) ts (m p) (\<lambda>_ us _ _. us = []))"

lemma idle_consumes:
  assumes "idle m" "reading p ts" "\<And>x p1. m p = Parsed x p1 \<Longrightarrow> reading p1 ts \<Longrightarrow> G x [] ts p1"
  shows "consumes n ts (m p) G"
proof (cases "m p")
  case (Parsed x p1)
  with assms(1,2) have "consumes (length ts + 1) ts (Parsed x p1) (\<lambda>_ us _ _. us = [])"
    by (metis idle_def)
  then have "reading p1 ts"
    by (auto elim: consumes_ParsedE)
  with Parsed assms(3) show ?thesis
    by (auto intro: consumes_Parsed)
next
  case Unfinished
  with assms(1,2) have "consumes (length ts + 1) ts (Unfinished :: 'a parsed) (\<lambda>_ us _ _. us = [])"
    by (metis idle_def)
  then show ?thesis
    by simp
qed simp

lemma idle_then:
  assumes "idle m" "reading p ts" "\<And>x p1. m p = Parsed x p1 \<Longrightarrow> reading p1 ts \<Longrightarrow> consumes n ts (f x p1) H"
  shows "consumes n ts (and_then m f p) H"
proof (rule consumes_and_then)
  show "consumes n ts (m p) (\<lambda>x us vs p1. us = [] \<and> m p = Parsed x p1)"
    by (rule idle_consumes [OF assms(1,2)]) simp
qed (use assms(3) in auto)

lemma idle_storage [simp, intro]:
  "idle parser_new_node" "idle parser_fresh_node" "idle parser_push" "idle parser_push_reported"
  "idle (parser_freeze_vector xs)" "idle (parser_copy_literal_text x)"
  by (auto simp: idle_def parser_new_node_def parser_fresh_node_def parser_push_def parser_push_reported_def
      parser_freeze_vector_def parser_copy_literal_text_def parser_allocates_def intro!: consumes_Parsed)

lemma idle_payload [simp, intro]: "idle (parser_payload getter)"
  by (auto simp: idle_def parser_payload_def intro!: consumes_Parsed split: option.split)

lemma idle_map [simp, intro]: "idle m \<Longrightarrow> idle (parse_map f m)"
  by (auto simp: idle_def intro!: consumes_map)

lemma idle_reject [simp, intro]: "idle (reject key)" "idle reject_oom"
  by (auto simp: idle_def)

lemmas idle_current [simp, intro] =
  idle_payload [of token_get_integer, folded parser_current_integer_def]
  idle_payload [of token_get_text, folded parser_current_text_def]
  idle_payload [of token_get_character, folded parser_current_character_def]
  idle_payload [of token_get_boolean, folded parser_current_boolean_def]

lemmas idle_steps =
  idle_storage [THEN idle_then] idle_current [THEN idle_then]

lemmas idle_ends =
  idle_storage [THEN idle_consumes] idle_current [THEN idle_consumes]

section \<open>Loops\<close>

text \<open>A parsing function that consumes as G says, on the tokens of p and all shorter lists.\<close>

definition consuming :: "nat \<Rightarrow> 'a parse \<Rightarrow> ('a \<Rightarrow> token list \<Rightarrow> token list \<Rightarrow> bool) \<Rightarrow> bool" where
  "consuming n m G \<longleftrightarrow> (\<forall>p ts. reading p ts \<longrightarrow> consumes n ts (m p) (\<lambda>x us vs _. G x us vs))"

lemma consumingD: "consuming n m G \<Longrightarrow> reading p ts \<Longrightarrow> consumes n ts (m p) (\<lambda>x us vs _. G x us vs)"
  by (simp add: consuming_def)

lemma consumingI: "(\<And>p ts. reading p ts \<Longrightarrow> consumes n ts (m p) (\<lambda>x us vs _. G x us vs)) \<Longrightarrow> consuming n m G"
  by (simp add: consuming_def)

lemma consuming_consumes:
  "consuming n m G \<Longrightarrow> reading p ts \<Longrightarrow> k \<le> n \<Longrightarrow> (\<And>x us vs p1. ts = us @ vs \<Longrightarrow> reading p1 vs \<Longrightarrow> G x us vs \<Longrightarrow> H x us vs p1) \<Longrightarrow>
    consumes k ts (m p) H"
  by (rule consumes_weaken [OF consumingD])

lemma consuming_then:
  "consuming n m G \<Longrightarrow> reading p ts \<Longrightarrow> k \<le> n \<Longrightarrow>
    (\<And>x p1 us vs. ts = us @ vs \<Longrightarrow> reading p1 vs \<Longrightarrow> G x us vs \<Longrightarrow>
      consumes (k - length us) vs (f x p1) (\<lambda>y us'. H y (us @ us'))) \<Longrightarrow>
    consumes k ts (and_then m f p) H"
  by (rule consumes_and_then [where G = "\<lambda>x us vs _. G x us vs"]) (auto intro: consuming_consumes)

lemma consuming_element: "consuming n m G \<Longrightarrow> consuming n (parser_element m) G"
  by (auto simp: consuming_def intro: consumes_element)

end
