(* ===== verification/Parser_Grammar.thy ===== *)
theory Parser_Grammar
  imports Parser_Expression
begin

text \<open>
  The grammar of types and expressions: which tokens spell a tree, when the token behind them has the
  given kind. Positions, nodes and marks of the tree are not part of it. A binary operator binds its
  operands by precedence, and operators of one precedence from the left.
\<close>

type_synonym 'a spelling = "'a \<Rightarrow> token list \<Rightarrow> token_kind \<Rightarrow> bool"

section \<open>Lists\<close>

inductive separated :: "'a spelling \<Rightarrow> 'a list spelling" for G where
  separated_one: "G x us k \<Longrightarrow> k \<noteq> TK_COMMA_OPERATOR \<Longrightarrow> separated G [x] us k"
| separated_more: "G x us TK_COMMA_OPERATOR \<Longrightarrow> token_kind_of c = TK_COMMA_OPERATOR \<Longrightarrow> separated G xs vs k \<Longrightarrow>
    separated G (x # xs) (us @ c # vs) k"

inductive until_close :: "token_kind \<Rightarrow> 'a spelling \<Rightarrow> 'a list spelling" for close G where
  until_none: "until_close close G [] [] close"
| until_last: "G x us k \<Longrightarrow> k \<noteq> TK_COMMA_OPERATOR \<Longrightarrow> until_close close G [x] us k"
| until_more: "G x us TK_COMMA_OPERATOR \<Longrightarrow> token_kind_of c = TK_COMMA_OPERATOR \<Longrightarrow> until_close close G xs vs k \<Longrightarrow>
    until_close close G (x # xs) (us @ c # vs) k"

lemma separated_mono [mono]:
  assumes "\<And>x us k. G x us k \<longrightarrow> H x us k"
  shows "separated G xs us k \<longrightarrow> separated H xs us k"
proof
  assume "separated G xs us k"
  then show "separated H xs us k"
    by induction (use assms in \<open>auto intro: separated.intros\<close>)
qed

lemma until_close_mono [mono]:
  assumes "\<And>x us k. G x us k \<longrightarrow> H x us k"
  shows "until_close close G xs us k \<longrightarrow> until_close close H xs us k"
proof
  assume "until_close close G xs us k"
  then show "until_close close H xs us k"
    by induction (use assms in \<open>auto intro: until_close.intros\<close>)
qed

section \<open>Types\<close>

text \<open>The words and signs before a type that wrap it.\<close>

definition type_wrapper :: "token \<Rightarrow> (ast_type \<Rightarrow> ast_type) option" where
  "type_wrapper t =
     (let k = token_kind_of t; c = parser_type_contextual (token_lexeme t)
      in if k = TK_MUTABLE then Some Type_Mutable
         else if k = TK_BOX_OPERATOR then Some Type_Box
         else if k = TK_STAR_OPERATOR then Some Type_Pointer
         else if k = TK_AND_OPERATOR then Some Type_Reference
         else if k = TK_IDENTIFIER \<and> c = Some Contextual_Option then Some Type_Option
         else if k = TK_IDENTIFIER \<and> c = Some Contextual_Vector then Some Type_Vector
         else None)"

inductive type_spelling :: "ast_type spelling" where
  spell_wrapped: "type_wrapper t = Some wrap \<Longrightarrow> type_spelling x us k \<Longrightarrow> type_spelling (wrap x) (t # us) k"
| spell_primitive: "parser_type_primitive (token_kind_of t) = Some x \<Longrightarrow> type_spelling x [t] k"
| spell_function: "token_kind_of t = TK_FUNCTION_TYPE \<Longrightarrow> token_kind_of l = TK_LEFT_PARENTHESIS_OPERATOR \<Longrightarrow>
    until_close TK_RIGHT_PARENTHESIS_OPERATOR type_spelling ps us TK_RIGHT_PARENTHESIS_OPERATOR \<Longrightarrow>
    token_kind_of r = TK_RIGHT_PARENTHESIS_OPERATOR \<Longrightarrow> token_kind_of c = TK_COLON_OPERATOR \<Longrightarrow>
    type_spelling out vs k \<Longrightarrow> type_spelling (Type_Function ps out) (t # l # us @ r # c # vs) k"
| spell_result: "token_kind_of t = TK_IDENTIFIER \<Longrightarrow> parser_type_contextual (token_lexeme t) = Some Contextual_Result \<Longrightarrow>
    type_spelling ok us TK_COMMA_OPERATOR \<Longrightarrow> token_kind_of c = TK_COMMA_OPERATOR \<Longrightarrow> type_spelling err vs k \<Longrightarrow>
    type_spelling (Type_Result ok err) (t # us @ c # vs) k"
| spell_named: "token_kind_of t = TK_IDENTIFIER \<Longrightarrow> parser_type_contextual (token_lexeme t) = None \<Longrightarrow>
    k \<noteq> TK_LESS_THAN_OPERATOR \<Longrightarrow> type_spelling (Type_Named i (token_lexeme t) []) [t] k"
| spell_instance: "token_kind_of t = TK_IDENTIFIER \<Longrightarrow> parser_type_contextual (token_lexeme t) = None \<Longrightarrow>
    token_kind_of l = TK_LESS_THAN_OPERATOR \<Longrightarrow> separated type_spelling xs us TK_GREATER_THAN_OPERATOR \<Longrightarrow>
    token_kind_of r = TK_GREATER_THAN_OPERATOR \<Longrightarrow> type_spelling (Type_Named i (token_lexeme t) xs) (t # l # us @ [r]) k"

section \<open>Literals\<close>

definition literal_spelling_of :: "ast_literal \<Rightarrow> token \<Rightarrow> bool" where
  "literal_spelling_of l t \<longleftrightarrow>
     (let k = token_kind_of t
      in case l of
           Literal_Integer _ v x wide \<Rightarrow> k = TK_LIT_INT
             \<and> token_get_integer (Some t) = Some \<lparr>literal_value = v, literal_spelling = x, literal_unsigned_wide = wide\<rparr>
         | Literal_Character _ c \<Rightarrow> k = TK_LIT_CHAR \<and> token_get_character (Some t) = Some c
         | Literal_Boolean _ b \<Rightarrow> k = TK_LIT_BOOL \<and> token_get_boolean (Some t) = Some b
         | Literal_String _ x \<Rightarrow> k = TK_LIT_STR \<and> token_get_text (Some t) = Some x
         | Literal_Undefined _ \<Rightarrow> k = TK_LIT_UNDEF)"

section \<open>Expressions\<close>

text \<open>An expression in parentheses is itself, unless it is the dereference of an lvalue, which becomes an lvalue.\<close>

definition dereferenced :: "ast_expression \<Rightarrow> ast_lvalue option" where
  "dereferenced e =
     (case e of Expression_Unary _ Unary_Dereference (Expression_Atom _ (Atom_Lvalue v)) \<Rightarrow> Some v | _ \<Rightarrow> None)"

text \<open>No operator of at least the precedence follows.\<close>

definition stops :: "nat \<Rightarrow> token_kind \<Rightarrow> bool" where
  "stops m k \<longleftrightarrow> (\<forall>q op. parser_binary_info k = Some (q, op) \<longrightarrow> q < m)"

abbreviation no_suffix :: "token_kind \<Rightarrow> bool" where
  "no_suffix k \<equiv> k \<noteq> TK_DOT_OPERATOR \<and> k \<noteq> TK_LEFT_BRACKET_OPERATOR"

text \<open>
  Suffixes extend an lvalue; those of a dereference in parentheses have no index behind a dot. An
  expression of precedence \<open>m\<close> has only operators of at least that precedence outside parentheses.
\<close>

inductive lvalue_path :: "ast_lvalue \<Rightarrow> token list \<Rightarrow> bool"
  and suffixed :: "bool \<Rightarrow> ast_lvalue \<Rightarrow> ast_lvalue \<Rightarrow> token list \<Rightarrow> bool"
  and primary_spelling :: "ast_expression spelling"
  and converted_spelling :: "ast_expression spelling"
  and unary_spelling :: "ast_expression spelling"
  and expression_spelling :: "nat \<Rightarrow> ast_expression spelling" where
  path_base: "token_kind_of t = TK_IDENTIFIER \<Longrightarrow> suffixed True (Lvalue_Base sp (Base_Identifier (token_lexeme t))) v us \<Longrightarrow>
    lvalue_path v (t # us)"
| path_dereference: "token_kind_of l = TK_LEFT_PARENTHESIS_OPERATOR \<Longrightarrow> token_kind_of s = TK_STAR_OPERATOR \<Longrightarrow>
    lvalue_path v us \<Longrightarrow> token_kind_of r = TK_RIGHT_PARENTHESIS_OPERATOR \<Longrightarrow>
    suffixed True (Lvalue_Dereference sp v) w vs \<Longrightarrow> lvalue_path w (l # s # us @ r # vs)"
| suffixed_none: "suffixed b v v []"
| suffixed_field: "token_kind_of d = TK_DOT_OPERATOR \<Longrightarrow> parser_token_is_contextual_name f \<Longrightarrow>
    suffixed b (Lvalue_Field sp v (token_lexeme f)) w us \<Longrightarrow> suffixed b v w (d # f # us)"
| suffixed_dot_index: "token_kind_of d = TK_DOT_OPERATOR \<Longrightarrow> token_kind_of l = TK_LEFT_PARENTHESIS_OPERATOR \<Longrightarrow>
    expression_spelling 1 e es TK_RIGHT_PARENTHESIS_OPERATOR \<Longrightarrow> token_kind_of r = TK_RIGHT_PARENTHESIS_OPERATOR \<Longrightarrow>
    suffixed True (Lvalue_Index sp v e) w us \<Longrightarrow> suffixed True v w (d # l # es @ r # us)"
| suffixed_index: "token_kind_of l = TK_LEFT_BRACKET_OPERATOR \<Longrightarrow>
    expression_spelling 1 e es TK_RIGHT_BRACKET_OPERATOR \<Longrightarrow> token_kind_of r = TK_RIGHT_BRACKET_OPERATOR \<Longrightarrow>
    suffixed b (Lvalue_Index sp v e) w us \<Longrightarrow> suffixed b v w (l # es @ r # us)"
| primary_parentheses: "token_kind_of l = TK_LEFT_PARENTHESIS_OPERATOR \<Longrightarrow>
    expression_spelling 1 e us TK_RIGHT_PARENTHESIS_OPERATOR \<Longrightarrow> token_kind_of r = TK_RIGHT_PARENTHESIS_OPERATOR \<Longrightarrow>
    dereferenced e = None \<Longrightarrow> primary_spelling e (l # us @ [r]) k"
| primary_dereference: "token_kind_of l = TK_LEFT_PARENTHESIS_OPERATOR \<Longrightarrow>
    expression_spelling 1 e us TK_RIGHT_PARENTHESIS_OPERATOR \<Longrightarrow> token_kind_of r = TK_RIGHT_PARENTHESIS_OPERATOR \<Longrightarrow>
    dereferenced e = Some v \<Longrightarrow> suffixed False (Lvalue_Dereference sp v) w vs \<Longrightarrow> no_suffix k \<Longrightarrow>
    primary_spelling (Expression_Atom h (Atom_Lvalue w)) (l # us @ r # vs) k"
| primary_name: "token_kind_of t = TK_IDENTIFIER \<Longrightarrow> lvalue_path v (t # us) \<Longrightarrow> no_suffix k \<Longrightarrow>
    k \<noteq> TK_LEFT_PARENTHESIS_OPERATOR \<Longrightarrow> primary_spelling (Expression_Atom h (Atom_Lvalue v)) (t # us) k"
| primary_call: "token_kind_of t = TK_IDENTIFIER \<Longrightarrow> lvalue_path v (t # us) \<Longrightarrow>
    token_kind_of l = TK_LEFT_PARENTHESIS_OPERATOR \<Longrightarrow> token_kind_of r = TK_RIGHT_PARENTHESIS_OPERATOR \<Longrightarrow>
    xs = [] \<and> vs = [] \<or> separated (expression_spelling 1) xs vs TK_RIGHT_PARENTHESIS_OPERATOR \<Longrightarrow>
    primary_spelling (Expression_Call h v xs (- 1)) (t # us @ l # vs @ [r]) k"
| primary_literal: "literal_spelling_of x t \<Longrightarrow> primary_spelling (Expression_Atom h (Atom_Literal x)) [t] k"
| converted_primary: "primary_spelling e us k \<Longrightarrow> converted_spelling e us k"
| converted_more: "converted_spelling e us TK_AS \<Longrightarrow> token_kind_of a = TK_AS \<Longrightarrow> type_spelling x vs k \<Longrightarrow>
    converted_spelling (Expression_Conversion h e x) (us @ a # vs) k"
| unary_converted: "converted_spelling e us k \<Longrightarrow> k \<noteq> TK_AS \<Longrightarrow> unary_spelling e us k"
| unary_operator: "parser_unary_operation (token_kind_of t) = Some op \<Longrightarrow> unary_spelling e us k \<Longrightarrow>
    unary_spelling (Expression_Unary h op e) (t # us) k"
| unary_address_mutable: "token_kind_of t = TK_AND_OPERATOR \<Longrightarrow> token_kind_of u = TK_MUTABLE \<Longrightarrow> unary_spelling e us k \<Longrightarrow>
    unary_spelling (Expression_Unary h Unary_Address_Mutable e) (t # u # us) k"
| expression_unary: "unary_spelling e us k \<Longrightarrow> expression_spelling m e us k"
| expression_binary: "parser_binary_info (token_kind_of b) = Some (q, op) \<Longrightarrow> m \<le> q \<Longrightarrow>
    expression_spelling q l us (token_kind_of b) \<Longrightarrow> expression_spelling (q + 1) r vs k \<Longrightarrow> stops (q + 1) k \<Longrightarrow>
    expression_spelling m (Expression_Binary h op l r) (us @ b # vs) k"

end
