(* ===== verification/Parser_Sound.thy ===== *)
theory Parser_Sound
  imports Parser_Grammar Parser_Laws
begin

text \<open>
  The parser of types and expressions follows the grammar: what it parses spells the tree it returns,
  and its fuel ends only when the source is at least as long.
\<close>

section \<open>Lists\<close>

text \<open>What an element consumes when its spelling depends on the token behind it.\<close>

abbreviation spelled :: "'a spelling \<Rightarrow> 'a \<Rightarrow> token list \<Rightarrow> token list \<Rightarrow> bool" where
  "spelled G x us vs \<equiv> G x us (following vs)"

lemma parse_separated_sound:
  assumes "consuming n m (spelled G)"
  shows "consuming (min n (Suc k)) (parse_separated k m) (spelled (separated G))"
proof (induction k)
  case 0
  show ?case
    by (auto simp: consuming_def dest: reading_current)
next
  case (Suc k)
  show ?case
  proof (rule consumingI)
    fix p ts
    assume p: "reading p ts"
    show "consumes (min n (Suc (Suc k))) ts (parse_separated (Suc k) m p) (\<lambda>x us vs _. spelled (separated G) x us vs)"
      unfolding parse_separated.simps
    proof (rule consuming_then [OF assms p])
      fix x p1 us vs
      assume "reading p1 vs" and x: "G x us (following vs)"
      then show "consumes (min n (Suc (Suc k)) - length us) vs
          (case parser_accept TK_COMMA_OPERATOR p1 of
             (p2, True) \<Rightarrow> parse_map ((#) x) (parse_separated k m) p2 | (p2, False) \<Rightarrow> Parsed [x] p2)
          (\<lambda>y us' vs _. spelled (separated G) y (us @ us') vs)"
        by (intro consumes_accept consumes_map consuming_consumes [OF Suc])
           (auto intro: separated.intros intro!: consumes_Parsed)
    qed simp
  qed
qed


lemma parse_until_sound:
  assumes "consuming n m (spelled G)"
  shows "consuming (min n (Suc k)) (parse_until k close m) (spelled (until_close close G))"
proof (induction k)
  case 0
  show ?case
    by (auto simp: consuming_def dest: reading_current)
next
  case (Suc k)
  show ?case
  proof (rule consumingI)
    fix p ts
    assume p: "reading p ts"
    have "consumes (min n (Suc (Suc k))) ts (and_then m (\<lambda>x p1. case parser_accept TK_COMMA_OPERATOR p1 of
               (p2, True) \<Rightarrow> parse_map ((#) x) (parse_until k close m) p2
             | (p2, False) \<Rightarrow> Parsed [x] p2) p) (\<lambda>x us vs _. spelled (until_close close G) x us vs)"
    proof (rule consuming_then [OF assms p])
      fix x p1 us vs
      assume "reading p1 vs" and x: "G x us (following vs)"
      then show "consumes (min n (Suc (Suc k)) - length us) vs
          (case parser_accept TK_COMMA_OPERATOR p1 of
             (p2, True) \<Rightarrow> parse_map ((#) x) (parse_until k close m) p2 | (p2, False) \<Rightarrow> Parsed [x] p2)
          (\<lambda>y us' vs _. spelled (until_close close G) y (us @ us') vs)"
        by (intro consumes_accept consumes_map consuming_consumes [OF Suc])
           (auto intro: until_close.intros intro!: consumes_Parsed)
    qed simp
    moreover have "current_kind p = close \<Longrightarrow>
        consumes (min n (Suc (Suc k))) ts (Parsed [] p) (\<lambda>x us vs _. spelled (until_close close G) x us vs)"
      using p by (auto simp: following_current [OF p] intro: until_close.intros intro!: consumes_Parsed)
    ultimately show "consumes (min n (Suc (Suc k))) ts (parse_until (Suc k) close m p)
        (\<lambda>x us vs _. spelled (until_close close G) x us vs)"
      by simp
  qed
qed

section \<open>Types\<close>

text \<open>The parser of the types inside is the argument.\<close>

abbreviation type_parser :: "nat \<Rightarrow> ast_type parse \<Rightarrow> bool" where
  "type_parser n T \<equiv> consuming n T (spelled type_spelling)"

lemma parse_wrapped_type_sound:
  assumes T: "type_parser n T"
  shows "reading p (t # ts) \<Longrightarrow> type_wrapper t = Some wrap \<Longrightarrow> token_kind_of t \<noteq> TK_EOF \<Longrightarrow>
    consumes (Suc n) (t # ts) (parse_wrapped_type T wrap p) (\<lambda>x us vs _. spelled type_spelling x us vs)"
  unfolding parse_wrapped_type_def
  by (intro consumes_advance_then idle_then consumes_map consuming_consumes [OF T])
     (auto intro: spell_wrapped)

lemma freeze_same: "parser_freeze_vector xs p = Parsed ys p1 \<Longrightarrow> ys = xs"
  by (auto simp: parser_freeze_vector_def split: if_splits prod.splits)

lemma parse_function_type_sound:
  assumes T: "type_parser n T" and p: "reading p (t # ts)" and t: "token_kind_of t = TK_FUNCTION_TYPE"
  shows "consumes (Suc n) (t # ts) (parse_function_type n T p) (\<lambda>x us vs _. spelled type_spelling x us vs)"
  unfolding parse_function_type_def
  using p t
  by (intro consumes_advance_then consumes_expect_then
      consuming_then [OF parse_until_sound [OF consuming_element [OF T]]]
      consuming_then [OF T] idle_then consumes_map idle_ends) (auto dest: freeze_same intro: spell_function)

lemma parse_result_type_sound:
  assumes T: "type_parser n T" and p: "reading p (t # ts)" and t: "token_kind_of t = TK_IDENTIFIER"
    "parser_type_contextual (token_lexeme t) = Some Contextual_Result"
  shows "consumes (Suc n) (t # ts) (parse_result_type T p) (\<lambda>x us vs _. spelled type_spelling x us vs)"
  unfolding parse_result_type_def
  using p t
  by (intro consumes_advance_then idle_then consuming_then [OF T] consumes_expect_then consumes_map
      consuming_consumes [OF T]) (auto intro: spell_result)


lemma parse_type_arguments_sound:
  assumes T: "type_parser n T" and p: "reading p ts"
  shows "consumes n ts (parse_type_arguments n T p)
    (\<lambda>xs us vs _. \<exists>ws r. us = ws @ [r] \<and> token_kind_of r = TK_GREATER_THAN_OPERATOR
       \<and> separated type_spelling xs ws TK_GREATER_THAN_OPERATOR)"
proof -
  have "consumes n ts (and_then (parse_separated n (parser_element T)) (\<lambda>arguments.
           and_then (expect TK_GREATER_THAN_OPERATOR) (\<lambda>_. parser_freeze_vector arguments)) p)
    (\<lambda>xs us vs _. \<exists>ws r. us = ws @ [r] \<and> token_kind_of r = TK_GREATER_THAN_OPERATOR
       \<and> separated type_spelling xs ws TK_GREATER_THAN_OPERATOR)"
    using p
    by (intro consuming_then [OF parse_separated_sound [OF consuming_element [OF T]]] consumes_expect_then
        idle_consumes) (auto dest: freeze_same)
  then show ?thesis
    by (simp add: parse_type_arguments_def)
qed

lemma parse_named_type_sound:
  assumes T: "type_parser n T" and p: "reading p (t # ts)" and t: "token_kind_of t = TK_IDENTIFIER"
    "parser_type_contextual (token_lexeme t) = None"
  shows "consumes (Suc n) (t # ts) (parse_named_type n T p) (\<lambda>x us vs _. spelled type_spelling x us vs)"
  unfolding parse_named_type_def Let_def reading_head [OF p]
  using p t
  by (intro consumes_advance_then idle_then consumes_accept consumes_map
      consumes_weaken [OF parse_type_arguments_sound [OF T]])
     (auto intro!: consumes_Parsed intro: spell_named spell_instance)

theorem parse_type_sound: "type_parser n (parse_type n)"
proof (induction n)
  case 0
  show ?case
    by (auto simp: consuming_def)
next
  case (Suc n)
  show ?case
  proof (rule consumingI)
    fix p ts
    assume "reading p ts"
    then obtain t us where ts: "ts = t # us" and p: "reading p (t # us)"
      using reading_current by blast
    note steps = parse_wrapped_type_sound [OF Suc p] parse_function_type_sound [OF Suc p]
      parse_result_type_sound [OF Suc p] parse_named_type_sound [OF Suc p]
    show "consumes (Suc n) ts (parse_type (Suc n) p) (\<lambda>x us vs _. spelled type_spelling x us vs)"
      using p unfolding ts parse_type.simps Let_def reading_head [OF p]
      by (auto simp: type_wrapper_def parser_type_primitive_def split: option.split contextual_type.split
          intro!: steps idle_then consumes_map consumes_only_advance spell_primitive)
  qed
qed


section \<open>Lvalues\<close>

lemmas spellings = lvalue_path_suffixed_primary_spelling_converted_spelling_unary_spelling_expression_spelling.intros

abbreviation expression_parser :: "nat \<Rightarrow> ast_expression parse \<Rightarrow> bool" where
  "expression_parser n E \<equiv> consuming n E (spelled (expression_spelling 1))"

abbreviation lvalue_parser :: "nat \<Rightarrow> ast_lvalue parse \<Rightarrow> bool" where
  "lvalue_parser n L \<equiv> consuming n L (\<lambda>v us vs. lvalue_path v us \<and> no_suffix (following vs))"

lemma contextual_not_end: "parser_token_is_contextual_name t \<Longrightarrow> token_kind_of t \<noteq> TK_EOF"
  by (rule notI) (simp add: parser_token_is_contextual_name_def token_is_keyword_kind_def token_registry_def token_kind_count_def)

lemma parser_take_contextual_name_sound:
  assumes "reading p ts"
  shows "consumes n ts (parser_take_contextual_name p)
    (\<lambda>x us vs _. \<exists>t. us = [t] \<and> parser_token_is_contextual_name t \<and> x = token_lexeme t)"
proof -
  obtain t us where ts: "ts = t # us" and p: "reading p (t # us)"
    using reading_current assms by blast
  with contextual_not_end [of t] show ?thesis
    unfolding parser_take_contextual_name_def reading_head [OF p] ts
    by (auto intro!: consumes_map consumes_only_advance)
qed

lemma lvalue_field_sound:
  assumes p: "reading p ts"
  shows "consumes n ts (lvalue_field start v p)
    (\<lambda>w us vs _. \<exists>t sp. us = [t] \<and> parser_token_is_contextual_name t \<and> w = Lvalue_Field sp v (token_lexeme t))"
  unfolding lvalue_field_def
proof (rule consumes_and_then)
  show "consumes n ts (parser_take_contextual_name p)
      (\<lambda>x us vs _. \<exists>t. us = [t] \<and> parser_token_is_contextual_name t \<and> x = token_lexeme t)"
    by (rule parser_take_contextual_name_sound [OF p])
qed (auto intro!: consumes_map idle_ends)

lemma lvalue_index_sound:
  assumes E: "expression_parser n E" and p: "reading p ts" and close: "close \<noteq> TK_EOF"
  shows "consumes n ts (lvalue_index E start close v p)
    (\<lambda>w us vs _. \<exists>sp e es r. w = Lvalue_Index sp v e \<and> us = es @ [r] \<and> token_kind_of r = close
       \<and> expression_spelling 1 e es close)"
  unfolding lvalue_index_def
  using p close
  by (intro consuming_then [OF E] consumes_expect_then consumes_map idle_ends) auto

lemma lvalue_suffixes_sound:
  assumes E: "expression_parser n E"
  shows "consuming (min n (Suc k)) (lvalue_suffixes E start k v)
    (\<lambda>w us vs. suffixed True v w us \<and> no_suffix (following vs))"
proof (induction k arbitrary: v)
  case 0
  show ?case
    by (auto simp: consuming_def dest: reading_current)
next
  case (Suc k)
  show ?case
  proof (rule consumingI)
    fix p ts
    assume "reading p ts"
    then show "consumes (min n (Suc (Suc k))) ts (lvalue_suffixes E start (Suc k) v p)
        (\<lambda>w us vs _. suffixed True v w us \<and> no_suffix (following vs))"
      unfolding lvalue_suffixes.simps
      by (intro consumes_accept)
         (auto simp del: One_nat_def intro!: consumes_and_then [OF lvalue_field_sound] consuming_consumes [OF Suc]
            consumes_and_then [OF consumes_fuel [OF lvalue_index_sound [OF E]]] consumes_Parsed
          intro: spellings)
  qed
qed


lemma parse_lvalue_sound:
  assumes E: "expression_parser n E"
  shows "lvalue_parser (Suc (min n k)) (parse_lvalue E n k)"
proof (induction k)
  case 0
  show ?case
    by (auto simp: consuming_def dest: reading_current)
next
  case (Suc k)
  note suffixes = consuming_consumes [OF lvalue_suffixes_sound [OF E]]
  show ?case
  proof (rule consumingI)
    fix p ts
    assume "reading p ts"
    then obtain t us where ts: "ts = t # us" and p: "reading p (t # us)"
      using reading_current by blast
    show "consumes (Suc (min n (Suc k))) ts (parse_lvalue E n (Suc k) p)
        (\<lambda>v us vs _. lvalue_path v us \<and> no_suffix (following vs))"
      using p unfolding ts parse_lvalue.simps Let_def reading_head [OF p]
      by (auto intro!: consumes_advance_then consumes_expect_then consuming_then [OF Suc] idle_steps suffixes
          intro: spellings)
  qed
qed

section \<open>Atoms\<close>

lemma literal_atom_sound:
  assumes "reading p (t # ts)" "token_kind_of t \<noteq> TK_EOF"
  shows "consumes n (t # ts) (literal_atom l p) (\<lambda>a us vs _. us = [t] \<and> a = Atom_Literal l)"
  unfolding literal_atom_def
  using assms by (auto intro!: idle_steps consumes_map consumes_only_advance)

lemma payload_value:
  "parser_current_integer p = Parsed v p1 \<Longrightarrow> reading p (t # ts) \<Longrightarrow> token_get_integer (Some t) = Some v"
  "parser_current_text p = Parsed x p1 \<Longrightarrow> reading p (t # ts) \<Longrightarrow> token_get_text (Some t) = Some x"
  "parser_current_character p = Parsed c p1 \<Longrightarrow> reading p (t # ts) \<Longrightarrow> token_get_character (Some t) = Some c"
  "parser_current_boolean p = Parsed b p1 \<Longrightarrow> reading p (t # ts) \<Longrightarrow> token_get_boolean (Some t) = Some b"
  using reading_head [of p t ts]
  by (auto simp: parser_current_integer_def parser_current_text_def parser_current_character_def
      parser_current_boolean_def parser_payload_def split: option.splits)

lemma literal_spellings:
  "token_kind_of t = TK_LIT_INT \<Longrightarrow> token_get_integer (Some t) = Some i \<Longrightarrow>
    literal_spelling_of (Literal_Integer sp (literal_value i) (literal_spelling i) (literal_unsigned_wide i)) t"
  "token_kind_of t = TK_LIT_CHAR \<Longrightarrow> token_get_character (Some t) = Some c \<Longrightarrow>
    literal_spelling_of (Literal_Character sp c) t"
  "token_kind_of t = TK_LIT_BOOL \<Longrightarrow> token_get_boolean (Some t) = Some b \<Longrightarrow>
    literal_spelling_of (Literal_Boolean sp b) t"
  "token_kind_of t = TK_LIT_STR \<Longrightarrow> token_get_text (Some t) = Some x \<Longrightarrow> literal_spelling_of (Literal_String sp x) t"
  "token_kind_of t = TK_LIT_UNDEF \<Longrightarrow> literal_spelling_of (Literal_Undefined sp) t"
  by (simp_all add: literal_spelling_of_def)

lemma string_atom_sound:
  assumes p: "reading p (t # ts)" and t: "token_kind_of t = TK_LIT_STR"
  shows "consumes n (t # ts) (parse_string_atom p)
    (\<lambda>a us vs _. us = [t] \<and> (\<exists>l. a = Atom_Literal l \<and> literal_spelling_of l t))"
  using p t unfolding parse_string_atom_def Let_def
  by (auto intro!: idle_steps consumes_map consumes_only_advance literal_spellings exI intro: payload_value
      split: if_split)

lemma parse_atom_sound:
  assumes p: "reading p (t # ts)" and t: "token_kind_of t \<noteq> TK_MINUS_OPERATOR" "token_kind_of t \<noteq> TK_IDENTIFIER"
  shows "consumes n (t # ts) (parse_atom L p)
    (\<lambda>a us vs _. us = [t] \<and> (\<exists>l. a = Atom_Literal l \<and> literal_spelling_of l t))"
proof -
  have atom: "consumes n (t # ts) (literal_atom l p1)
      (\<lambda>a us vs _. us = [t] \<and> (\<exists>l. a = Atom_Literal l \<and> literal_spelling_of l t))"
    if "reading p1 (t # ts)" "token_kind_of t \<noteq> TK_EOF" "literal_spelling_of l t" for l p1
    by (rule consumes_weaken [OF literal_atom_sound [OF that(1,2)]]) (use that(3) in auto)
  show ?thesis
    using p t unfolding parse_atom_def Let_def reading_head [OF p]
    by (auto intro!: atom idle_steps string_atom_sound literal_spellings intro: payload_value)
qed

section \<open>Expressions\<close>

lemma dereference_suffixes_sound:
  assumes E: "expression_parser n E"
  shows "consuming (min n (Suc k)) (dereference_suffixes E start k v)
    (\<lambda>w us vs. suffixed False v w us \<and> no_suffix (following vs))"
proof (induction k arbitrary: v)
  case 0
  show ?case
    by (auto simp: consuming_def dest: reading_current)
next
  case (Suc k)
  show ?case
  proof (rule consumingI)
    fix p ts
    assume p: "reading p ts"
    show "consumes (min n (Suc (Suc k))) ts (dereference_suffixes E start (Suc k) v p)
        (\<lambda>w us vs _. suffixed False v w us \<and> no_suffix (following vs))"
    proof (cases "current_kind p \<noteq> TK_DOT_OPERATOR \<and> current_kind p \<noteq> TK_LEFT_BRACKET_OPERATOR")
      case True
      with p show ?thesis
        by (auto simp: following_current intro!: consumes_Parsed spellings)
    next
      case False
      have "consumes (min n (Suc (Suc k))) ts
          (case parser_accept TK_DOT_OPERATOR p of
              (p1, True) \<Rightarrow> and_then (lvalue_field start v) (dereference_suffixes E start k) p1
            | (p1, False) \<Rightarrow>
                (case parser_accept TK_LEFT_BRACKET_OPERATOR p1 of
                   (p2, True) \<Rightarrow>
                     and_then (lvalue_index E start TK_RIGHT_BRACKET_OPERATOR v) (dereference_suffixes E start k) p2
                 | (p2, False) \<Rightarrow> dereference_suffixes E start k v p2))
          (\<lambda>w us vs _. suffixed False v w us \<and> no_suffix (following vs))"
        using p False following_current [OF p]
        by (intro consumes_accept)
           (auto simp del: One_nat_def intro!: consumes_and_then [OF lvalue_field_sound] consuming_consumes [OF Suc]
              consumes_and_then [OF consumes_fuel [OF lvalue_index_sound [OF E]]] intro: spellings)
      then show ?thesis
        by (simp only: dereference_suffixes.simps if_not_P [OF False])
    qed
  qed
qed


lemma parse_conversions_sound:
  assumes T: "type_parser n T" and "reading p ts" "converted_spelling e us (following ts)"
  shows "consumes (min n (Suc k)) ts (parse_conversions T k e p)
    (\<lambda>w ws vs _. spelled converted_spelling w (us @ ws) vs \<and> following vs \<noteq> TK_AS)"
  using assms(2,3)
proof (induction k arbitrary: e us p ts)
  case 0
  then show ?case
    by (auto dest: reading_current)
next
  case (Suc k)
  obtain t ts' where ts: "ts = t # ts'" and p: "reading p (t # ts')"
    using reading_current Suc.prems by blast
  show ?case
  proof (cases "token_kind_of t = TK_AS")
    case True
    have "consumes (min n (Suc (Suc k))) (t # ts')
        (and_then advance (\<lambda>_. and_then T (\<lambda>x p1.
             and_then parser_new_node (\<lambda>_.
               parse_conversions T k
                 (Expression_Conversion (expression_at (parser_span (span_start (span_of e)) (parser_end p1))) e x)) p1)) p)
        (\<lambda>w ws vs _. spelled converted_spelling w (us @ ws) vs \<and> following vs \<noteq> TK_AS)"
    proof (intro consumes_advance_then [OF p] consuming_then [OF T] idle_steps)
      fix p1 x p2 p3 vs ws
      assume "reading p3 vs" "type_spelling x ws (following vs)" "ts' = ws @ vs"
      moreover from this(2) have "converted_spelling (Expression_Conversion h e x) (us @ t # ws) (following vs)" for h
        using Suc.prems(2) True ts by (auto intro: spellings)
      ultimately show "consumes (min n (Suc (Suc k)) - 1 - length ws) vs
          (parse_conversions T k (Expression_Conversion (expression_at (parser_span (span_start (span_of e)) (parser_end p2))) e x) p3)
          (\<lambda>w us' vs _. spelled converted_spelling w (us @ t # ws @ us') vs \<and> following vs \<noteq> TK_AS)"
        by (intro consumes_weaken [OF Suc.IH [where us = "us @ t # ws"]]) auto
    qed (use True in simp_all)
    with True show ?thesis
      unfolding ts by (simp add: reading_head [OF p])
  next
    case False
    with Suc.prems p ts show ?thesis
      by (auto simp: reading_head intro!: consumes_Parsed)
  qed
qed


text \<open>The lvalue of a call or of an atom and the parentheses around a dereference.\<close>

lemma parse_parenthesised_sound:
  assumes E: "expression_parser n E" and p: "reading p ts"
  shows "consumes n ts (parse_parenthesised E n start e p)
    (\<lambda>w us vs _. case dereferenced e of
        None \<Rightarrow> us = [] \<and> w = e
      | Some v \<Rightarrow> (\<exists>sp h x. w = Expression_Atom h (Atom_Lvalue x) \<and> suffixed False (Lvalue_Dereference sp v) x us
                      \<and> no_suffix (following vs)))"
proof (cases "dereferenced e")
  case None
  then have "parse_parenthesised E n start e p = Parsed e p"
    by (auto simp: parse_parenthesised_def dereferenced_def split: ast_expression.splits ast_unary_operation.splits ast_atom.splits)
  with None p show ?thesis
    by (auto intro!: consumes_Parsed)
next
  case (Some v)
  then obtain h1 h2 where e: "e = Expression_Unary h1 Unary_Dereference (Expression_Atom h2 (Atom_Lvalue v))"
    by (auto simp: dereferenced_def split: ast_expression.splits ast_unary_operation.splits ast_atom.splits)
  show ?thesis
    unfolding e parse_parenthesised_def atom_expression_def
    using p by (auto simp: dereferenced_def intro!: idle_steps consuming_then [OF dereference_suffixes_sound [OF E]]
        consumes_map idle_ends)
qed

lemma parse_call_end_sound:
  assumes "reading p ts"
  shows "consumes n ts (parse_call_end start f xs p)
    (\<lambda>e us vs _. \<exists>r h. us = [r] \<and> token_kind_of r = TK_RIGHT_PARENTHESIS_OPERATOR \<and> e = Expression_Call h f xs (- 1))"
  unfolding parse_call_end_def
  using assms by (auto intro!: consumes_expect_then idle_steps consumes_map idle_ends dest: freeze_same)

lemma parse_call_sound:
  assumes E: "expression_parser n E" and p: "reading p ts"
  shows "consumes n ts (parse_call E n start f p)
    (\<lambda>e us vs _. \<exists>ws r h xs. us = ws @ [r] \<and> token_kind_of r = TK_RIGHT_PARENTHESIS_OPERATOR
       \<and> e = Expression_Call h f xs (- 1)
       \<and> (xs = [] \<and> ws = [] \<or> separated (expression_spelling 1) xs ws TK_RIGHT_PARENTHESIS_OPERATOR))"
proof -
  have "consumes n ts (and_then (parse_separated n (parser_element E)) (parse_call_end start f) p)
    (\<lambda>e us vs _. \<exists>ws r h xs. us = ws @ [r] \<and> token_kind_of r = TK_RIGHT_PARENTHESIS_OPERATOR
       \<and> e = Expression_Call h f xs (- 1)
       \<and> (xs = [] \<and> ws = [] \<or> separated (expression_spelling 1) xs ws TK_RIGHT_PARENTHESIS_OPERATOR))"
    by (intro consuming_then [OF parse_separated_sound [OF consuming_element [OF E]] p]
        consumes_weaken [OF parse_call_end_sound]) auto
  moreover have "consumes n ts (parse_call_end start f [] p)
    (\<lambda>e us vs _. \<exists>ws r h xs. us = ws @ [r] \<and> token_kind_of r = TK_RIGHT_PARENTHESIS_OPERATOR
       \<and> e = Expression_Call h f xs (- 1)
       \<and> (xs = [] \<and> ws = [] \<or> separated (expression_spelling 1) xs ws TK_RIGHT_PARENTHESIS_OPERATOR))"
    by (rule consumes_weaken [OF parse_call_end_sound [OF p]]) auto
  ultimately show ?thesis
    by (simp add: parse_call_def)
qed


lemma primary_nonempty: "primary_spelling e us k \<Longrightarrow> us \<noteq> []"
  by (auto elim: primary_spelling.cases)

lemma parse_primary_sound:
  assumes E: "expression_parser n E" and L: "lvalue_parser (Suc n) L"
    and p: "reading p (t # ts)" and t: "token_kind_of t \<noteq> TK_MINUS_OPERATOR"
  shows "consumes (Suc n) (t # ts) (parse_primary E L n p) (\<lambda>e us vs _. spelled primary_spelling e us vs)"
  unfolding parse_primary_def
proof (rule consumes_accept [OF p])
  fix t' us p1
  assume l: "t # ts = t' # us" "token_kind_of t' = TK_LEFT_PARENTHESIS_OPERATOR" and p1: "reading p1 us"
  show "consumes (Suc n - 1) us (and_then E (\<lambda>e. and_then (expect TK_RIGHT_PARENTHESIS_OPERATOR) (\<lambda>_.
            parse_parenthesised E n (parser_start p) e)) p1)
      (\<lambda>e us' vs _. spelled primary_spelling e (t' # us') vs)"
    using p1 l(2)
    by (intro consuming_then [OF E] consumes_expect_then consumes_weaken [OF parse_parenthesised_sound [OF E]])
       (auto split: option.splits simp del: One_nat_def intro: spellings)
next
  fix t' us
  assume l: "t # ts = t' # us" "token_kind_of t' \<noteq> TK_LEFT_PARENTHESIS_OPERATOR"
  have name: "consumes (Suc n) (t # ts)
      (and_then L (\<lambda>v p2.
         case parser_accept TK_LEFT_PARENTHESIS_OPERATOR p2 of
           (p3, True) \<Rightarrow> parse_call E n (parser_start p) v p3
         | (p3, False) \<Rightarrow> atom_expression (Atom_Lvalue v) p3) p)
      (\<lambda>e us vs _. spelled primary_spelling e us vs)" if i: "token_kind_of t = TK_IDENTIFIER"
  proof (rule consuming_then [OF L p])
    fix v p2 ws vs
    assume "t # ts = ws @ vs" "reading p2 vs" and v: "lvalue_path v ws \<and> no_suffix (following vs)"
    moreover from v obtain ws' where "ws = t # ws'"
      using \<open>t # ts = ws @ vs\<close> by (auto elim: lvalue_path.cases)
    ultimately show "consumes (Suc n - length ws) vs
        (case parser_accept TK_LEFT_PARENTHESIS_OPERATOR p2 of
           (p3, True) \<Rightarrow> parse_call E n (parser_start p) v p3
         | (p3, False) \<Rightarrow> atom_expression (Atom_Lvalue v) p3)
        (\<lambda>e us' vs _. spelled primary_spelling e (ws @ us') vs)"
      using i unfolding atom_expression_def
      by (intro consumes_accept consumes_weaken [OF parse_call_sound [OF E]] consumes_map)
         (auto simp del: One_nat_def intro!: idle_ends intro: spellings)
  qed simp
  have atom: "consumes (Suc n) (t # ts) (and_then (parse_atom L) atom_expression p)
      (\<lambda>e us vs _. spelled primary_spelling e us vs)" if i: "token_kind_of t \<noteq> TK_IDENTIFIER"
  proof (rule consumes_and_then)
    show "consumes (Suc n) (t # ts) (parse_atom L p)
        (\<lambda>a us vs _. us = [t] \<and> (\<exists>l. a = Atom_Literal l \<and> literal_spelling_of l t))"
      by (rule parse_atom_sound [OF p t i])
  qed (auto simp: atom_expression_def intro!: consumes_map idle_ends intro: spellings)
  show "consumes (Suc n) (t # ts)
      (if current_kind p = TK_IDENTIFIER
       then and_then L (\<lambda>v p2.
              case parser_accept TK_LEFT_PARENTHESIS_OPERATOR p2 of
                (p3, True) \<Rightarrow> parse_call E n (parser_start p) v p3
              | (p3, False) \<Rightarrow> atom_expression (Atom_Lvalue v) p3) p
       else and_then (parse_atom L) atom_expression p)
      (\<lambda>e us vs _. spelled primary_spelling e us vs)"
    using name atom by (simp add: reading_head [OF p])
qed simp


lemma unary_not_as: "unary_spelling e us k \<Longrightarrow> k \<noteq> TK_AS"
  by (induction rule: lvalue_path_suffixed_primary_spelling_converted_spelling_unary_spelling_expression_spelling.inducts(5)
      [where ?P1.0 = "\<lambda>_ _. True" and ?P2.0 = "\<lambda>_ _ _ _. True" and ?P3.0 = "\<lambda>_ _ _. True"
         and ?P4.0 = "\<lambda>_ _ _. True" and ?P6.0 = "\<lambda>_ _ _ _. True"]) simp_all

lemma unary_nonempty: "unary_spelling e us k \<Longrightarrow> us \<noteq> []"
  by (induction rule: lvalue_path_suffixed_primary_spelling_converted_spelling_unary_spelling_expression_spelling.inducts(5)
      [where ?P1.0 = "\<lambda>_ _. True" and ?P2.0 = "\<lambda>_ _ _ _. True" and ?P3.0 = "\<lambda>_ us _. us \<noteq> []"
         and ?P4.0 = "\<lambda>_ us _. us \<noteq> []" and ?P6.0 = "\<lambda>_ _ _ _. True"]) simp_all

lemma parse_unary_end_sound:
  assumes "reading p ts" "following ts \<noteq> TK_AS"
  shows "consumes (Suc n) ts (parse_unary_end T n start op e p) (\<lambda>w us vs _. us = [] \<and> (\<exists>h. w = Expression_Unary h op e))"
proof (cases n)
  case 0
  with assms show ?thesis
    unfolding parse_unary_end_def
    by (auto intro!: idle_steps dest: reading_current)
next
  case (Suc m)
  have "current_kind p1 \<noteq> TK_AS" if "reading p1 ts" for p1
    using following_current [OF that] assms(2) by simp
  with Suc assms show ?thesis
    unfolding parse_unary_end_def
    by (auto intro!: idle_steps consumes_Parsed)
qed

lemma unary_operation_not_end: "parser_unary_operation k = Some op \<Longrightarrow> k \<noteq> TK_EOF"
  by (auto simp: parser_unary_operation_def)

lemma parse_unary_sound:
  assumes E: "expression_parser n E" and T: "type_parser n T" and L: "lvalue_parser (Suc n) L"
  shows "consuming (Suc (min n k)) (parse_unary E T L n k) (spelled unary_spelling)"
proof (induction k)
  case 0
  show ?case
    by (auto simp: consuming_def dest: reading_current)
next
  case (Suc k)
  have operand: "consumes (Suc (min n k)) us (and_then (parse_unary E T L n k) (parse_unary_end T n start op) p)
      (\<lambda>e us' vs _. \<exists>x h. e = Expression_Unary h op x \<and> spelled unary_spelling x us' vs)"
    if "reading p us" for us start op p
    using that by (intro consuming_then [OF Suc] consumes_weaken [OF parse_unary_end_sound]) (auto dest: unary_not_as)
  show ?case
  proof (rule consumingI)
    fix p ts
    assume "reading p ts"
    then obtain t us where ts: "ts = t # us" and p: "reading p (t # us)"
      using reading_current by blast
    show "consumes (Suc (min n (Suc k))) ts (parse_unary E T L n (Suc k) p) (\<lambda>e us vs _. spelled unary_spelling e us vs)"
    proof (cases "parser_unary_operation (token_kind_of t)")
      case None
      then have t: "token_kind_of t \<noteq> TK_MINUS_OPERATOR"
        by (auto simp: parser_unary_operation_def)
      have "consumes (Suc (min n (Suc k))) (t # us) (and_then (parse_primary E L n) (parse_conversions T n) p)
          (\<lambda>e us vs _. spelled unary_spelling e us vs)"
      proof (rule consumes_and_then)
        show "consumes (Suc (min n (Suc k))) (t # us) (parse_primary E L n p)
            (\<lambda>e us vs _. us \<noteq> [] \<and> spelled converted_spelling e us vs)"
          by (rule consumes_weaken [OF parse_primary_sound [OF E L p t]])
            (auto dest: primary_nonempty intro: spellings)
      next
        fix e p1 ws vs
        assume "reading p1 vs" and ws: "ws \<noteq> [] \<and> spelled converted_spelling e ws vs"
        moreover from ws have "Suc (min n (Suc k)) - length ws \<le> min n (Suc n)"
          by (cases ws) auto
        ultimately show "consumes (Suc (min n (Suc k)) - length ws) vs (parse_conversions T n e p1)
            (\<lambda>e us' vs _. spelled unary_spelling e (ws @ us') vs)"
          by (intro consumes_weaken [OF parse_conversions_sound [OF T, where us = ws]]) (auto intro: spellings)
      qed
      with None show ?thesis
        unfolding ts by (simp add: reading_head [OF p])
    next
      case (Some op)
      note steps = consumes_weaken [OF operand]
      have "consumes (Suc (min n (Suc k))) (t # us)
          (and_then advance (\<lambda>_ p1.
               if op = Unary_Address \<and> current_kind p1 = TK_MUTABLE
               then and_then advance (\<lambda>_.
                      and_then (parse_unary E T L n k) (parse_unary_end T n (span_start (token_span t)) Unary_Address_Mutable)) p1
               else and_then (parse_unary E T L n k) (parse_unary_end T n (span_start (token_span t)) op) p1) p)
          (\<lambda>e us vs _. spelled unary_spelling e us vs)"
      proof (rule consumes_advance_then [OF p])
        fix p1
        assume p1: "reading p1 us"
        then obtain u vs where us: "us = u # vs"
          using reading_current by blast
        have u: "current_kind p1 = token_kind_of u"
          using reading_head p1 us by simp
        show "consumes (Suc (min n (Suc k)) - 1) us
            (if op = Unary_Address \<and> current_kind p1 = TK_MUTABLE
               then and_then advance (\<lambda>_.
                      and_then (parse_unary E T L n k) (parse_unary_end T n (span_start (token_span t)) Unary_Address_Mutable)) p1
               else and_then (parse_unary E T L n k) (parse_unary_end T n (span_start (token_span t)) op) p1)
            (\<lambda>e us vs _. spelled unary_spelling e (t # us) vs)"
          using p1 Some unfolding us u
          by (auto intro!: consumes_advance_then steps intro: spellings
              simp: parser_unary_operation_def split: if_splits)
      qed (use Some in \<open>simp add: unary_operation_not_end\<close>)
      with Some show ?thesis
        unfolding ts by (simp add: reading_head [OF p] Let_def)
    qed
  qed
qed


section \<open>Binary operators\<close>

text \<open>An expression of a higher precedence is one of each lower precedence.\<close>

lemma expression_spelling_less:
  "expression_spelling m e us k \<Longrightarrow> l \<le> m \<Longrightarrow> expression_spelling l e us k"
  by (erule expression_spelling.cases) (auto simp del: One_nat_def intro: expression_unary expression_binary)

lemma binary_info_bounds: "parser_binary_info k = Some (q, op) \<Longrightarrow> 1 \<le> q \<and> q \<le> 10 \<and> k \<noteq> TK_EOF"
  by (auto simp: parser_binary_info_def split: if_splits)

abbreviation operand_parser :: "nat \<Rightarrow> nat \<Rightarrow> ast_expression parse \<Rightarrow> bool" where
  "operand_parser n m E \<equiv> consuming n E (\<lambda>e us vs. spelled (expression_spelling m) e us vs \<and> stops m (following vs))"

lemma parse_binary_loop_sound:
  assumes E: "\<And>q. operand_parser n q (E q)"
    and "reading p ts" "expression_spelling r left us (following ts)" "m \<le> r" "stops (r + 1) (following ts)"
  shows "consumes (min n (Suc k)) ts (parse_binary_loop E m k left p)
    (\<lambda>e ws vs _. spelled (expression_spelling m) e (us @ ws) vs \<and> stops m (following vs))"
  using assms(2-5)
proof (induction k arbitrary: left us r p ts)
  case 0
  then show ?case
    by (auto dest: reading_current)
next
  case (Suc k)
  obtain t ts' where ts: "ts = t # ts'" and p: "reading p (t # ts')"
    using reading_current Suc.prems by blast
  have left: "expression_spelling r left us (token_kind_of t)"
    using Suc.prems(2) ts by simp
  show ?case
  proof (cases "stops m (token_kind_of t)")
    case True
    then have "parse_binary_loop E m (Suc k) left p = Parsed left p"
      by (auto simp: stops_def reading_head [OF p] split: option.split)
    with True p left Suc.prems(3) show ?thesis
      unfolding ts by (auto intro!: consumes_Parsed intro: expression_spelling_less)
  next
    case False
    then obtain q op where q: "parser_binary_info (token_kind_of t) = Some (q, op)" "m \<le> q"
      by (auto simp: stops_def)
    with Suc.prems(4) ts have "q \<le> r"
      by (auto simp: stops_def)
    have "consumes (min n (Suc (Suc k))) (t # ts')
        (and_then advance (\<lambda>_. and_then (E (q + 1)) (\<lambda>right. and_then parser_new_node (\<lambda>_.
                 parse_binary_loop E m k
                   (Expression_Binary
                      (expression_at (parser_span (span_start (span_of left)) (span_end (span_of right))))
                      op left right)))) p)
        (\<lambda>e ws vs _. spelled (expression_spelling m) e (us @ ws) vs \<and> stops m (following vs))"
    proof (intro consumes_advance_then [OF p] consuming_then [OF E] idle_steps)
      fix p1 right p2 ws vs p3
      assume "reading p3 vs" and right: "spelled (expression_spelling (q + 1)) right ws vs \<and> stops (q + 1) (following vs)"
      moreover have "spelled (expression_spelling q) (Expression_Binary h op left right) (us @ t # ws) vs" for h
        using right by (intro expression_binary [OF q(1) order_refl expression_spelling_less [OF left \<open>q \<le> r\<close>]]) auto
      ultimately show "consumes (min n (Suc (Suc k)) - 1 - length ws) vs
          (parse_binary_loop E m k
             (Expression_Binary
                (expression_at (parser_span (span_start (span_of left)) (span_end (span_of right)))) op left right) p3)
          (\<lambda>e us' vs _. spelled (expression_spelling m) e (us @ t # ws @ us') vs \<and> stops m (following vs))"
        using q(2) by (intro consumes_weaken [OF Suc.IH [where us = "us @ t # ws" and r = q]]) auto
    qed (use binary_info_bounds [OF q(1)] in auto)
    with q show ?thesis
      unfolding ts by (simp add: reading_head [OF p])
  qed
qed

theorem parse_expression_sound: "operand_parser n m (parse_expression_min n m)"
proof (induction n arbitrary: m)
  case 0
  show ?case
    by (auto simp: consuming_def)
next
  case (Suc n)
  have E: "expression_parser n (parse_expression_min n 1)"
    using Suc [of 1] by (auto simp: consuming_def intro: consumes_weaken)
  have L: "lvalue_parser (Suc n) (parse_lvalue (parse_expression_min n 1) n n)"
    using parse_lvalue_sound [OF E, of n] by simp
  have U: "consuming (Suc n) (parse_unary (parse_expression_min n 1) (parse_type n)
      (parse_lvalue (parse_expression_min n 1) n n) n n) (spelled unary_spelling)"
    using parse_unary_sound [OF E parse_type_sound L, of n] by simp
  show ?case
  proof (rule consumingI)
    fix p ts
    assume p: "reading p ts"
    show "consumes (Suc n) ts (parse_expression_min (Suc n) m p)
        (\<lambda>e us vs _. spelled (expression_spelling m) e us vs \<and> stops m (following vs))"
      unfolding parse_expression_min.simps
    proof (rule consuming_then [OF U p])
      fix e p1 us vs
      assume "reading p1 vs" and e: "spelled unary_spelling e us vs"
      moreover have "Suc n - length us \<le> n"
        using unary_nonempty [OF e] by (cases us) auto
      moreover have "stops (max m 10 + 1) (following vs)"
        using binary_info_bounds by (fastforce simp: stops_def)
      ultimately show "consumes (Suc n - length us) vs
          (parse_binary_loop (parse_expression_min n) m n e p1)
          (\<lambda>e us' vs _. spelled (expression_spelling m) e (us @ us') vs \<and> stops m (following vs))"
        by (intro consumes_weaken [OF parse_binary_loop_sound [OF Suc, where us = us and r = "max m 10"]])
           (auto intro: expression_unary)
    qed simp
  qed
qed

end
