(* ===== verification/Parser_Complete.thy ===== *)
theory Parser_Complete
  imports Parser_Sound
begin

text \<open>
  Every spelling of an expression is parsed, to the spelled tree: equality is up to positions, nodes
  and the marks of the semantic checks (\<open>bare\<close>). The allocator grants everything here.
\<close>

section \<open>Trees without positions\<close>

fun bare_type :: "ast_type \<Rightarrow> ast_type" where
  "bare_type (Type_Named _ x ts) = Type_Named 0 x (map bare_type ts)"
| "bare_type (Type_Box t) = Type_Box (bare_type t)"
| "bare_type (Type_Option t) = Type_Option (bare_type t)"
| "bare_type (Type_Result t u) = Type_Result (bare_type t) (bare_type u)"
| "bare_type (Type_Function ts t) = Type_Function (map bare_type ts) (bare_type t)"
| "bare_type (Type_Pointer t) = Type_Pointer (bare_type t)"
| "bare_type (Type_Reference t) = Type_Reference (bare_type t)"
| "bare_type (Type_Vector t) = Type_Vector (bare_type t)"
| "bare_type (Type_Mutable t) = Type_Mutable (bare_type t)"
| "bare_type t = t"

definition bare_literal :: "ast_literal \<Rightarrow> ast_literal" where
  "bare_literal l =
     (case l of
        Literal_Boolean _ b \<Rightarrow> Literal_Boolean zero_span b
      | Literal_Integer _ v x w \<Rightarrow> Literal_Integer zero_span v x w
      | Literal_Character _ c \<Rightarrow> Literal_Character zero_span c
      | Literal_String _ x \<Rightarrow> Literal_String zero_span x
      | Literal_Undefined _ \<Rightarrow> Literal_Undefined zero_span)"

primrec bare_lvalue :: "ast_lvalue \<Rightarrow> ast_lvalue"
  and bare_atom :: "ast_atom \<Rightarrow> ast_atom"
  and bare :: "ast_expression \<Rightarrow> ast_expression" where
  "bare_lvalue (Lvalue_Base _ b) = Lvalue_Base zero_span b"
| "bare_lvalue (Lvalue_Field _ v x) = Lvalue_Field zero_span (bare_lvalue v) x"
| "bare_lvalue (Lvalue_Index _ v e) = Lvalue_Index zero_span (bare_lvalue v) (bare e)"
| "bare_lvalue (Lvalue_Dereference _ v) = Lvalue_Dereference zero_span (bare_lvalue v)"
| "bare_atom (Atom_Literal l) = Atom_Literal (bare_literal l)"
| "bare_atom (Atom_Lvalue v) = Atom_Lvalue (bare_lvalue v)"
| "bare (Expression_Binary _ op l r) = Expression_Binary (expression_at zero_span) op (bare l) (bare r)"
| "bare (Expression_Unary _ op e) = Expression_Unary (expression_at zero_span) op (bare e)"
| "bare (Expression_Atom _ a) = Expression_Atom (expression_at zero_span) (bare_atom a)"
| "bare (Expression_Call _ f xs i) = Expression_Call (expression_at zero_span) (bare_lvalue f) (map bare xs) i"
| "bare (Expression_Conversion _ e t) = Expression_Conversion (expression_at zero_span) (bare e) (bare_type t)"

section \<open>What a parsing function yields\<close>

definition ready :: "parser \<Rightarrow> token list \<Rightarrow> bool" where
  "ready p ts \<longleftrightarrow> reading p ts \<and> parser_heap p = (\<lambda>_. True)"

definition yields :: "'a parsed \<Rightarrow> token list \<Rightarrow> ('a \<Rightarrow> bool) \<Rightarrow> bool" where
  "yields r vs Q \<longleftrightarrow> (\<exists>x p1. r = Parsed x p1 \<and> ready p1 vs \<and> Q x)"

lemma yields_Parsed: "ready p vs \<Longrightarrow> Q x \<Longrightarrow> yields (Parsed x p) vs Q"
  by (auto simp: yields_def)

lemma yields_then:
  "yields (m p) us P \<Longrightarrow> (\<And>x p1. ready p1 us \<Longrightarrow> P x \<Longrightarrow> yields (f x p1) vs Q) \<Longrightarrow> yields (and_then m f p) vs Q"
  by (fastforce simp: yields_def and_then_def)

lemma yields_map: "yields (m p) vs (\<lambda>x. Q (f x)) \<Longrightarrow> yields (parse_map f m p) vs Q"
  by (fastforce simp: yields_def parse_map_def)

lemma yields_weaken: "yields r vs P \<Longrightarrow> (\<And>x. P x \<Longrightarrow> Q x) \<Longrightarrow> yields r vs Q"
  by (auto simp: yields_def)

lemma ready_reading: "ready p ts \<Longrightarrow> reading p ts"
  by (simp add: ready_def)

lemma ready_kind: "ready p (t # ts) \<Longrightarrow> parser_current p = t"
  by (auto simp: ready_def dest: reading_head)

lemma ready_following: "ready p ts \<Longrightarrow> current_kind p = following ts"
  by (auto simp: ready_def following_current)

lemma yields_advance:
  assumes "ready p (t # ts)" "token_kind_of t \<noteq> TK_EOF"
  shows "yields (advance p) ts (\<lambda>_. True)"
    and "(\<And>p1. ready p1 ts \<Longrightarrow> yields (f () p1) vs Q) \<Longrightarrow> yields (and_then advance f p) vs Q"
proof -
  obtain u us where "ts = u # us"
    using assms reading_end [of p t ts] by (cases ts) (auto simp: ready_def)
  then obtain p1 where "advance p = Parsed () p1" "ready p1 ts"
    using advance_reading [of p t u us] assms(1) by (auto simp: ready_def must_def same_store_def)
  then show "yields (advance p) ts (\<lambda>_. True)"
    and "(\<And>p1. ready p1 ts \<Longrightarrow> yields (f () p1) vs Q) \<Longrightarrow> yields (and_then advance f p) vs Q"
    by (auto simp: yields_def and_then_def)
qed

lemma expect_advance: "ready p (t # ts) \<Longrightarrow> token_kind_of t = k \<Longrightarrow> expect k p = advance p"
  by (auto simp: must_def parser_expect_def dest: ready_kind)

lemma yields_expect:
  assumes "ready p (t # ts)" "token_kind_of t = k" "k \<noteq> TK_EOF"
  shows "yields (expect k p) ts (\<lambda>_. True)"
    and "(\<And>p1. ready p1 ts \<Longrightarrow> yields (f () p1) vs Q) \<Longrightarrow> yields (and_then (expect k) f p) vs Q"
proof -
  show step: "yields (expect k p) ts (\<lambda>_. True)"
    using yields_advance(1) [of p t ts] assms by (simp add: expect_advance)
  assume f: "\<And>p1. ready p1 ts \<Longrightarrow> yields (f () p1) vs Q"
  from step show "yields (and_then (expect k) f p) vs Q"
    by (rule yields_then) (use f in simp)
qed

lemma yields_accept:
  assumes "ready p (t # ts)" "token_kind_of t = k" "k \<noteq> TK_EOF" "\<And>p1. ready p1 ts \<Longrightarrow> yields (f p1) vs Q"
  shows "yields (case parser_accept k p of (p1, True) \<Rightarrow> f p1 | (p1, False) \<Rightarrow> g p1) vs Q"
proof -
  obtain p1 where "parser_advance p = (p1, True)" "ready p1 ts"
    using yields_advance(1) [of p t ts] assms(1-3) by (auto simp: yields_def must_def split: prod.splits if_splits)
  with assms show ?thesis
    by (auto simp: parser_accept_def dest: ready_kind)
qed

lemma yields_not_accept:
  "ready p ts \<Longrightarrow> following ts \<noteq> k \<Longrightarrow> yields (g p) vs Q \<Longrightarrow>
    yields (case parser_accept k p of (p1, True) \<Rightarrow> f p1 | (p1, False) \<Rightarrow> g p1) vs Q"
  by (simp add: parser_accept_def ready_following)

text \<open>Storage is granted.\<close>

definition granted :: "'a parse \<Rightarrow> ('a \<Rightarrow> bool) \<Rightarrow> bool" where
  "granted m P \<longleftrightarrow> (\<forall>p ts. ready p ts \<longrightarrow> yields (m p) ts P)"

lemma granted_yields: "granted m P \<Longrightarrow> ready p ts \<Longrightarrow> (\<And>x. P x \<Longrightarrow> Q x) \<Longrightarrow> yields (m p) ts Q"
  by (auto simp: granted_def intro: yields_weaken)

lemma granted_then:
  "granted m P \<Longrightarrow> ready p ts \<Longrightarrow> (\<And>x p1. ready p1 ts \<Longrightarrow> P x \<Longrightarrow> yields (f x p1) vs Q) \<Longrightarrow> yields (and_then m f p) vs Q"
  unfolding granted_def by (blast intro: yields_then)

lemma granted_storage:
  "granted parser_new_node (\<lambda>_. True)" "granted parser_fresh_node (\<lambda>_. True)" "granted parser_push (\<lambda>_. True)"
  "granted (parser_freeze_vector xs) (\<lambda>ys. ys = xs)" "granted (parser_copy_literal_text x) (\<lambda>y. y = Some x)"
  by (auto simp: granted_def yields_def ready_def parser_new_node_def parser_fresh_node_def parser_push_def
      parser_freeze_vector_def parser_copy_literal_text_def parser_allocates_def)

lemmas granted_steps = granted_storage [THEN granted_then] granted_storage [THEN granted_yields]

lemma yields_element: "yields (m p) vs Q \<Longrightarrow> yields (parser_element m p) vs Q"
  by (fastforce simp: yields_def parser_element_def ready_def parse_map_def parser_push_def parser_allocates_def)


section \<open>Lists\<close>

lemma parse_separated_complete:
  assumes "separated G xs us k" "length us < j" "ready p (us @ vs)" "following vs = k"
    and m: "\<And>x us' p ws. G x us' (following ws) \<Longrightarrow> length us' \<le> length us \<Longrightarrow> ready p (us' @ ws) \<Longrightarrow>
      following ws = TK_COMMA_OPERATOR \<or> following ws = k \<Longrightarrow> yields (m p) ws (\<lambda>y. f y = f x)"
  shows "yields (parse_separated j m p) vs (\<lambda>ys. map f ys = map f xs)"
  using assms
proof (induction arbitrary: j p)
  case (separated_one x us k)
  then obtain i where "j = Suc i"
    by (cases j) auto
  with separated_one show ?case
    by (auto intro!: yields_then [OF separated_one.prems(4)] yields_not_accept yields_Parsed)
next
  case (separated_more x us c xs ws k)
  then obtain i where j: "j = Suc i"
    by (cases j) auto
  note tail = separated_more.IH [of i]
  show ?case
    using separated_more.prems separated_more.hyps unfolding j
    by (auto intro!: yields_then [OF separated_more.prems(4) [of x us "c # ws @ vs"]] yields_accept yields_map
        yields_weaken [OF tail])
qed

lemma parse_until_complete:
  assumes "until_close close G xs us k" "length us < j" "ready p (us @ vs)" "following vs = k" "k = close"
    and first: "\<And>x us' k'. G x us' k' \<Longrightarrow> us' \<noteq> [] \<and> token_kind_of (hd us') \<noteq> close"
    and m: "\<And>x us' p ws. G x us' (following ws) \<Longrightarrow> length us' \<le> length us \<Longrightarrow> ready p (us' @ ws) \<Longrightarrow>
      yields (m p) ws (\<lambda>y. f y = f x)"
  shows "yields (parse_until j close m p) vs (\<lambda>ys. map f ys = map f xs)"
  using assms
proof (induction arbitrary: j p)
  case until_none
  then obtain i where "j = Suc i"
    by (cases j) auto
  with until_none show ?case
    by (auto simp: ready_following intro: yields_Parsed)
next
  case (until_last x us k)
  then obtain i where j: "j = Suc i"
    by (cases j) auto
  from until_last obtain t us' where us: "us = t # us'" "token_kind_of t \<noteq> close"
    by (cases us) fastforce+
  then have "current_kind p \<noteq> close"
    using until_last.prems(2) by (simp add: ready_kind)
  with until_last j show ?case
    by (auto intro!: yields_then [OF until_last.prems(6)] yields_not_accept yields_Parsed)
next
  case (until_more x us c xs ws k)
  then obtain i where j: "j = Suc i"
    by (cases j) auto
  from until_more.prems(5) [OF until_more.hyps(1)] obtain t us' where us: "us = t # us'" "token_kind_of t \<noteq> close"
    by (cases us) auto
  then have "current_kind p \<noteq> close"
    using until_more.prems(2) by (simp add: ready_kind)
  have tail: "yields (parse_until i close m q) vs (\<lambda>ys. map f ys = map f xs)" if "ready q (ws @ vs)" for q
    using until_more.prems that by (intro until_more.IH) (auto simp: j)
  have "yields (case parser_accept TK_COMMA_OPERATOR p1 of
             (p2, True) \<Rightarrow> parse_map ((#) y) (parse_until i close m) p2 | (p2, False) \<Rightarrow> Parsed [y] p2)
      vs (\<lambda>ys. map f ys = map f (x # xs))" if "ready p1 (c # ws @ vs)" "f y = f x" for y p1
    using that until_more.hyps(2) by (intro yields_accept yields_map yields_weaken [OF tail]) auto
  moreover have "yields (m p) (c # ws @ vs) (\<lambda>y. f y = f x)"
    using until_more.prems(2) until_more.hyps(1,2) by (intro until_more.prems(6) [of x us]) auto
  ultimately show ?case
    using \<open>current_kind p \<noteq> close\<close> unfolding j by (auto intro: yields_then)
qed

lemma separated_start:
  "separated G xs us k \<Longrightarrow> (\<And>x us k. G x us k \<Longrightarrow> us \<noteq> [] \<and> token_kind_of (hd us) \<noteq> c) \<Longrightarrow>
    us \<noteq> [] \<and> token_kind_of (hd us) \<noteq> c"
  by (induction rule: separated.induct) auto

lemma following_append: "us \<noteq> [] \<Longrightarrow> following (us @ vs) = token_kind_of (hd us)"
  by (simp add: following_def)

section \<open>Types\<close>

lemma type_wrapper_kind: "type_wrapper t = Some w \<Longrightarrow> token_kind_of t \<notin> {TK_RIGHT_PARENTHESIS_OPERATOR, TK_GREATER_THAN_OPERATOR, TK_EOF}"
  by (rule notI) (auto simp: type_wrapper_def Let_def)

lemma type_primitive_kind: "parser_type_primitive k = Some x \<Longrightarrow> k \<notin> {TK_RIGHT_PARENTHESIS_OPERATOR, TK_GREATER_THAN_OPERATOR, TK_EOF}"
  by (rule notI) (auto simp: parser_type_primitive_def)

lemma type_spelling_start:
  assumes "type_spelling x us k"
  shows "us \<noteq> [] \<and> token_kind_of (hd us) \<notin> {TK_RIGHT_PARENTHESIS_OPERATOR, TK_GREATER_THAN_OPERATOR}"
  using assms by cases (auto dest: type_wrapper_kind type_primitive_kind)

lemma type_wrapper_in:
  "type_wrapper t = Some w \<Longrightarrow> w \<in> {Type_Mutable, Type_Box, Type_Pointer, Type_Reference, Type_Option, Type_Vector}"
  unfolding type_wrapper_def Let_def by (simp only: option.inject option.distinct split: if_splits) simp_all

lemma bare_wrapped: "type_wrapper t = Some wrap \<Longrightarrow> bare_type x = bare_type y \<Longrightarrow> bare_type (wrap x) = bare_type (wrap y)"
  by (drule type_wrapper_in) auto

text \<open>Which branch the parser of types takes.\<close>

lemma parse_type_branches:
  "type_wrapper (parser_current p) = Some wrap \<Longrightarrow> parse_type (Suc n) p = parse_wrapped_type (parse_type n) wrap p"
  "parser_type_primitive (current_kind p) = Some x \<Longrightarrow>
    parse_type (Suc n) p = and_then parser_new_node (\<lambda>_. parse_map (\<lambda>_. x) advance) p"
  "current_kind p = TK_FUNCTION_TYPE \<Longrightarrow> parse_type (Suc n) p = parse_function_type n (parse_type n) p"
  "current_kind p = TK_IDENTIFIER \<Longrightarrow> parser_type_contextual (token_lexeme (parser_current p)) = Some Contextual_Result \<Longrightarrow>
    parse_type (Suc n) p = parse_result_type (parse_type n) p"
  "current_kind p = TK_IDENTIFIER \<Longrightarrow> parser_type_contextual (token_lexeme (parser_current p)) = None \<Longrightarrow>
    parse_type (Suc n) p = parse_named_type n (parse_type n) p"
proof -
  assume "type_wrapper (parser_current p) = Some wrap"
  then show "parse_type (Suc n) p = parse_wrapped_type (parse_type n) wrap p"
    unfolding type_wrapper_def parse_type.simps Let_def
    by (simp only: option.inject option.distinct split: if_splits) (simp_all add: parser_type_primitive_def)
next
  assume "parser_type_primitive (current_kind p) = Some x"
  then show "parse_type (Suc n) p = and_then parser_new_node (\<lambda>_. parse_map (\<lambda>_. x) advance) p"
    unfolding parse_type.simps Let_def
    by (simp add: parser_type_primitive_def split: if_splits)
qed (simp_all add: parser_type_primitive_def)

declare parse_type.simps [simp del]

lemma parse_type_complete:
  "type_spelling x us k \<Longrightarrow> length us \<le> n \<Longrightarrow> ready p (us @ vs) \<Longrightarrow> following vs = k \<Longrightarrow>
    yields (parse_type n p) vs (\<lambda>y. bare_type y = bare_type x)"
proof (induction arbitrary: n p vs rule: type_spelling.induct)
  case (spell_wrapped t wrap x us k)
  then obtain i where n: "n = Suc i" "length us \<le> i"
    by (cases n) auto
  have T: "yields (parse_type i q) vs (\<lambda>y. bare_type (wrap y) = bare_type (wrap x))" if "ready q (us @ vs)" for q
    by (rule yields_weaken [OF spell_wrapped.IH [OF n(2) that spell_wrapped.prems(3)]])
       (rule bare_wrapped [OF spell_wrapped.hyps(1)])
  have "yields (parse_wrapped_type (parse_type i) wrap p) vs (\<lambda>y. bare_type y = bare_type (wrap x))"
    unfolding parse_wrapped_type_def
    using spell_wrapped.prems(2) type_wrapper_kind [OF spell_wrapped.hyps(1)]
    by (auto intro!: yields_advance granted_steps yields_map T)
  then show ?case
    using spell_wrapped.hyps(1) spell_wrapped.prems(2) by (simp add: n ready_kind parse_type_branches(1))
next
  case (spell_primitive t x k)
  then obtain i where n: "n = Suc i"
    by (cases n) auto
  show ?case
    using spell_primitive type_primitive_kind [of "token_kind_of t" x]
    by (auto simp: n ready_kind parse_type_branches(2) intro!: granted_steps yields_map yields_weaken [OF yields_advance(1)])
next
  case (spell_function t l ps us r c out ws k)
  then obtain i where n: "n = Suc i"
    by (cases n) auto
  have parameters: "yields (parse_until i TK_RIGHT_PARENTHESIS_OPERATOR (parser_element (parse_type i)) q) (r # c # ws @ vs)
      (\<lambda>ys. map bare_type ys = map bare_type ps)" if "ready q (us @ r # c # ws @ vs)" for q
    using spell_function.hyps spell_function.prems that
    by (intro parse_until_complete [OF spell_function.IH(1)] yields_element) (auto simp: n dest: type_spelling_start)
  show ?case
    using spell_function.hyps spell_function.prems
    by (auto simp: n ready_kind parse_type_branches(3) parse_function_type_def
        intro!: granted_steps yields_advance yields_expect yields_then [OF parameters] yields_then [OF spell_function.IH(2)]
          yields_map)
next
  case (spell_result t ok us c err ws k)
  then obtain i where n: "n = Suc i"
    by (cases n) auto
  show ?case
    using spell_result.hyps spell_result.prems
    by (auto simp: n ready_kind parse_type_branches(4) parse_result_type_def
        intro!: granted_steps yields_advance yields_then [OF spell_result.IH(1)] yields_expect yields_map
          yields_weaken [OF spell_result.IH(2)])
next
  case (spell_named t k i)
  then obtain j where n: "n = Suc j"
    by (cases n) auto
  show ?case
    using spell_named by (auto simp: n ready_kind parse_type_branches(5) parse_named_type_def Let_def
        intro!: granted_steps yields_advance yields_not_accept yields_Parsed)
next
  case (spell_instance t l xs us r i k)
  then obtain j where n: "n = Suc j"
    by (cases n) auto
  have arguments: "yields (parse_separated j (parser_element (parse_type j)) q) (r # vs)
      (\<lambda>ys. map bare_type ys = map bare_type xs)" if "ready q (us @ r # vs)" for q
    using spell_instance.hyps spell_instance.prems that
    by (intro parse_separated_complete [OF spell_instance.IH] yields_element) (auto simp: n)
  have us: "us \<noteq> [] \<and> token_kind_of (hd us) \<noteq> TK_GREATER_THAN_OPERATOR"
    by (rule separated_start [OF spell_instance.IH]) (use type_spelling_start in blast)
  have "yields (parse_type_arguments j (parse_type j) q) vs (\<lambda>ys. map bare_type ys = map bare_type xs)"
    if "ready q (us @ r # vs)" for q
    using that spell_instance.hyps ready_following [OF that] us following_append unfolding parse_type_arguments_def
    by (auto intro!: yields_then [OF arguments] yields_expect granted_steps)
  then show ?case
    using spell_instance.hyps spell_instance.prems
    by (auto simp: n ready_kind parse_type_branches(5) parse_named_type_def Let_def
        intro!: granted_steps yields_advance yields_accept yields_map)
qed


section \<open>Expressions\<close>

text \<open>
  The statements of the simultaneous induction, one for each kind of spelling. The loops over
  conversions and binary operators are entered with the operand on the left: parsing what comes
  before them leaves the same loop at a later token, with rounds to go.
\<close>

abbreviation parse_any_primary :: "nat \<Rightarrow> ast_expression parse" where
  "parse_any_primary n \<equiv> parse_primary (parse_expression n) (parse_any_lvalue n) n"

abbreviation parse_any_unary :: "nat \<Rightarrow> nat \<Rightarrow> ast_expression parse" where
  "parse_any_unary n \<equiv> parse_unary (parse_expression n) (parse_type n) (parse_any_lvalue n) n"

definition lvalue_completes :: "ast_lvalue \<Rightarrow> token list \<Rightarrow> bool" where
  "lvalue_completes v us \<longleftrightarrow>
     (\<forall>n k p vs. length us \<le> n \<longrightarrow> length us \<le> k \<longrightarrow> ready p (us @ vs) \<longrightarrow> no_suffix (following vs) \<longrightarrow>
       yields (parse_lvalue (parse_expression n) n k p) vs (\<lambda>w. bare_lvalue w = bare_lvalue v))"

definition suffixes_complete :: "bool \<Rightarrow> ast_lvalue \<Rightarrow> ast_lvalue \<Rightarrow> token list \<Rightarrow> bool" where
  "suffixes_complete b v w us \<longleftrightarrow>
     (\<forall>n k p vs start x. length us \<le> n \<longrightarrow> length us < k \<longrightarrow> ready p (us @ vs) \<longrightarrow> no_suffix (following vs) \<longrightarrow>
       bare_lvalue x = bare_lvalue v \<longrightarrow>
       yields ((if b then lvalue_suffixes else dereference_suffixes) (parse_expression n) start k x p) vs
         (\<lambda>y. bare_lvalue y = bare_lvalue w))"

definition primary_completes :: "ast_expression spelling" where
  "primary_completes e us k \<longleftrightarrow>
     (\<forall>n p vs. length us \<le> n \<longrightarrow> ready p (us @ vs) \<longrightarrow> following vs = k \<longrightarrow>
       yields (parse_any_primary n p) vs (\<lambda>x. bare x = bare e))"

definition converted_completes :: "ast_expression spelling" where
  "converted_completes e us k \<longleftrightarrow>
     (\<forall>n i p vs. length us \<le> n \<longrightarrow> length us \<le> i \<longrightarrow> ready p (us @ vs) \<longrightarrow> following vs = k \<longrightarrow>
       (\<exists>x q j. and_then (parse_any_primary n) (parse_conversions (parse_type n) i) p = parse_conversions (parse_type n) j x q
          \<and> ready q vs \<and> bare x = bare e \<and> i < j + length us))"

definition unary_completes :: "ast_expression spelling" where
  "unary_completes e us k \<longleftrightarrow>
     (\<forall>n i p vs. length us \<le> n \<longrightarrow> length us \<le> i \<longrightarrow> ready p (us @ vs) \<longrightarrow> following vs = k \<longrightarrow>
       yields (parse_any_unary n i p) vs (\<lambda>x. bare x = bare e))"

definition expression_completes :: "nat \<Rightarrow> ast_expression spelling" where
  "expression_completes m e us k \<longleftrightarrow>
     (\<forall>n i l p vs. length us \<le> n \<longrightarrow> length us \<le> i \<longrightarrow> l \<le> m \<longrightarrow> ready p (us @ vs) \<longrightarrow> following vs = k \<longrightarrow>
       (\<exists>x q j. and_then (parse_any_unary n n) (parse_binary_loop (parse_expression_min n) l i) p
                = parse_binary_loop (parse_expression_min n) l j x q
          \<and> ready q vs \<and> bare x = bare e \<and> i < j + length us))"

lemma expression_completes_yields:
  assumes "expression_completes m e us k" "stops m k" "length us < n" "ready p (us @ vs)" "following vs = k"
  shows "yields (parse_expression_min n m p) vs (\<lambda>x. bare x = bare e)"
proof -
  obtain i where n: "n = Suc i" "length us \<le> i"
    using assms(3) by (cases n) auto
  note step = assms(1) [unfolded expression_completes_def parse_expression_def, rule_format, OF n(2) n(2) order_refl assms(4,5)]
  then obtain x q j where x: "parse_expression_min n m p = parse_binary_loop (parse_expression_min i) m j x q"
      "ready q vs" "bare x = bare e" "i < j + length us"
    unfolding n(1) parse_expression_min.simps by blast
  then obtain j' where "j = Suc j'"
    using n by (cases j) auto
  with x assms(2,5) show ?thesis
    by (auto simp: yields_def stops_def ready_following split: option.split)
qed

lemma expression_completes_closed:
  "expression_completes 1 e us k \<Longrightarrow> parser_binary_info k = None \<Longrightarrow> length us < n \<Longrightarrow> ready p (us @ vs) \<Longrightarrow>
    following vs = k \<Longrightarrow> yields (parse_expression n p) vs (\<lambda>x. bare x = bare e)"
  unfolding parse_expression_def
  by (rule expression_completes_yields) (simp_all add: stops_def)

lemma closing_kinds [simp]:
  "parser_binary_info TK_RIGHT_PARENTHESIS_OPERATOR = None" "parser_binary_info TK_RIGHT_BRACKET_OPERATOR = None"
  "parser_binary_info TK_COMMA_OPERATOR = None"
  by (simp_all add: parser_binary_info_def)


text \<open>Lvalues.\<close>

lemma path_base_completes:
  assumes t: "token_kind_of t = TK_IDENTIFIER"
    and v: "suffixes_complete True (Lvalue_Base sp (Base_Identifier (token_lexeme t))) v us"
  shows "lvalue_completes v (t # us)"
  unfolding lvalue_completes_def
proof (intro allI impI)
  fix n k p vs
  assume len: "length (t # us) \<le> n" "length (t # us) \<le> k" and p: "ready p ((t # us) @ vs)" and vs: "no_suffix (following vs)"
  then obtain i where k: "k = Suc i"
    by (cases k) auto
  have "yields (lvalue_suffixes (parse_expression n) start n (Lvalue_Base s (Base_Identifier (token_lexeme t))) q) vs
      (\<lambda>w. bare_lvalue w = bare_lvalue v)" if "ready q (us @ vs)" for start s q
    using v [unfolded suffixes_complete_def, rule_format, of n n q vs] len that vs by simp
  then show "yields (parse_lvalue (parse_expression n) n k p) vs (\<lambda>w. bare_lvalue w = bare_lvalue v)"
    using p t by (auto simp: k ready_kind Let_def intro!: granted_steps yields_advance)
qed

lemma path_dereference_completes:
  assumes l: "token_kind_of l = TK_LEFT_PARENTHESIS_OPERATOR" "token_kind_of s = TK_STAR_OPERATOR"
      "token_kind_of r = TK_RIGHT_PARENTHESIS_OPERATOR"
    and v: "lvalue_completes v us" and w: "suffixes_complete True (Lvalue_Dereference sp v) w ws"
  shows "lvalue_completes w (l # s # us @ r # ws)"
  unfolding lvalue_completes_def
proof (intro allI impI)
  fix n k p vs
  assume len: "length (l # s # us @ r # ws) \<le> n" "length (l # s # us @ r # ws) \<le> k"
    and p: "ready p ((l # s # us @ r # ws) @ vs)" and vs: "no_suffix (following vs)"
  then obtain i where k: "k = Suc i"
    by (cases k) auto
  have inner: "yields (parse_lvalue (parse_expression n) n i q) (r # ws @ vs) (\<lambda>x. bare_lvalue x = bare_lvalue v)"
    if "ready q (us @ r # ws @ vs)" for q
    using v [unfolded lvalue_completes_def, rule_format, of n i q "r # ws @ vs"] len that l by (simp add: k)
  have "yields (lvalue_suffixes (parse_expression n) start n (Lvalue_Dereference z x) q) vs
      (\<lambda>y. bare_lvalue y = bare_lvalue w)" if "ready q (ws @ vs)" "bare_lvalue x = bare_lvalue v" for start z x q
    using w [unfolded suffixes_complete_def, rule_format, of n n q vs] len that vs by simp
  then show "yields (parse_lvalue (parse_expression n) n k p) vs (\<lambda>x. bare_lvalue x = bare_lvalue w)"
    using p l by (auto simp: k ready_kind Let_def intro!: granted_steps yields_advance yields_expect yields_then [OF inner])
qed

lemma yields_field:
  assumes "ready p (t # vs)" "parser_token_is_contextual_name t"
    "\<And>sp q. ready q vs \<Longrightarrow> yields (f (Lvalue_Field sp v (token_lexeme t)) q) ws Q"
  shows "yields (and_then (lvalue_field start v) f p) ws Q"
proof -
  have "yields (parser_take_contextual_name p) vs (\<lambda>x. x = token_lexeme t)"
    using assms(1,2) contextual_not_end [OF assms(2)]
    by (auto simp: parser_take_contextual_name_def ready_kind intro!: yields_map yields_weaken [OF yields_advance(1)])
  then have "yields (lvalue_field start v p) vs (\<lambda>w. \<exists>sp. w = Lvalue_Field sp v (token_lexeme t))"
    unfolding lvalue_field_def by (rule yields_then) (auto intro!: yields_map granted_steps)
  then show ?thesis
    by (rule yields_then) (use assms(3) in auto)
qed

lemma yields_index:
  assumes e: "expression_completes 1 e es close" and close: "parser_binary_info close = None" "token_kind_of r = close" "close \<noteq> TK_EOF"
    and p: "ready p (es @ r # vs)" and n: "length es < n"
    and f: "\<And>sp x q. ready q vs \<Longrightarrow> bare x = bare e \<Longrightarrow> yields (f (Lvalue_Index sp v x) q) ws Q"
  shows "yields (and_then (lvalue_index (parse_expression n) start close v) f p) ws Q"
proof -
  have "yields (parse_expression n p) (r # vs) (\<lambda>x. bare x = bare e)"
    by (rule expression_completes_closed [OF e close(1) n p]) (simp add: close)
  then have "yields (lvalue_index (parse_expression n) start close v p) vs (\<lambda>w. \<exists>sp x. w = Lvalue_Index sp v x \<and> bare x = bare e)"
    unfolding lvalue_index_def
    by (rule yields_then) (use close in \<open>auto intro!: yields_expect yields_map granted_steps\<close>)
  then show ?thesis
    by (rule yields_then) (use f in auto)
qed


text \<open>Suffixes.\<close>

lemma contextual_not_parenthesis: "parser_token_is_contextual_name t \<Longrightarrow> token_kind_of t \<noteq> TK_LEFT_PARENTHESIS_OPERATOR"
  by (rule notI) (simp add: parser_token_is_contextual_name_def token_is_keyword_kind_def token_registry_def token_kind_count_def)

lemma suffixes_completeI:
  assumes "\<And>n k p vs start x. length us \<le> n \<Longrightarrow> length us \<le> k \<Longrightarrow> ready p (us @ vs) \<Longrightarrow> no_suffix (following vs) \<Longrightarrow>
      bare_lvalue x = bare_lvalue v \<Longrightarrow> b \<Longrightarrow>
      yields (lvalue_suffixes (parse_expression n) start (Suc k) x p) vs (\<lambda>y. bare_lvalue y = bare_lvalue w)"
    and "\<And>n k p vs start x. length us \<le> n \<Longrightarrow> length us \<le> k \<Longrightarrow> ready p (us @ vs) \<Longrightarrow> no_suffix (following vs) \<Longrightarrow>
      bare_lvalue x = bare_lvalue v \<Longrightarrow> \<not> b \<Longrightarrow>
      yields (dereference_suffixes (parse_expression n) start (Suc k) x p) vs (\<lambda>y. bare_lvalue y = bare_lvalue w)"
  shows "suffixes_complete b v w us"
  unfolding suffixes_complete_def
proof (intro allI impI)
  fix n k p vs start x
  assume "length us < k" and rest: "length us \<le> n" "ready p (us @ vs)" "no_suffix (following vs)" "bare_lvalue x = bare_lvalue v"
  then obtain i where "k = Suc i" "length us \<le> i"
    by (cases k) auto
  then show "yields ((if b then lvalue_suffixes else dereference_suffixes) (parse_expression n) start k x p) vs
         (\<lambda>y. bare_lvalue y = bare_lvalue w)"
    using assms rest by (auto split: if_split)
qed

lemma suffixes_completeD:
  assumes "suffixes_complete b v w us" "length us \<le> n" "length us < k" "ready p (us @ vs)" "no_suffix (following vs)"
    "bare_lvalue x = bare_lvalue v"
  shows "b \<Longrightarrow> yields (lvalue_suffixes (parse_expression n) start k x p) vs (\<lambda>y. bare_lvalue y = bare_lvalue w)"
    and "\<not> b \<Longrightarrow> yields (dereference_suffixes (parse_expression n) start k x p) vs (\<lambda>y. bare_lvalue y = bare_lvalue w)"
  using assms(1) [unfolded suffixes_complete_def, rule_format, OF assms(2-6), of start] by simp_all

lemma suffixed_none_completes: "suffixes_complete b v v []"
  by (rule suffixes_completeI) (auto simp: ready_following intro!: yields_not_accept yields_Parsed)

lemma suffix_field:
  assumes "ready p (d # t # us)" "token_kind_of d = TK_DOT_OPERATOR" "parser_token_is_contextual_name t"
    "\<And>q. ready q (t # us) \<Longrightarrow> yields (and_then (lvalue_field start x) (lvalue_suffixes E start k) q) vs Q"
  shows "yields (lvalue_suffixes E start (Suc k) x p) vs Q"
  unfolding lvalue_suffixes.simps
proof (rule yields_accept [OF assms(1,2)])
  fix q
  assume q: "ready q (t # us)"
  show "yields (case parser_accept TK_LEFT_PARENTHESIS_OPERATOR q of
             (p2, True) \<Rightarrow> and_then (lvalue_index E start TK_RIGHT_PARENTHESIS_OPERATOR x) (lvalue_suffixes E start k) p2
           | (p2, False) \<Rightarrow>
               if \<not> parser_token_is_contextual_name (parser_current p2)
               then reject Diag_Word_Syntax_Expected_Field_After_Dot p2
               else and_then (lvalue_field start x) (lvalue_suffixes E start k) p2) vs Q"
    using assms(3,4) contextual_not_parenthesis [OF assms(3)] q
    by (intro yields_not_accept [OF q]) (simp_all add: ready_kind)
qed simp

lemma suffix_index:
  assumes p: "ready p (l # us)" "token_kind_of l = TK_LEFT_BRACKET_OPERATOR"
    "\<And>q. ready q us \<Longrightarrow> yields (and_then (lvalue_index E start TK_RIGHT_BRACKET_OPERATOR x) (lvalue_suffixes E start k) q) vs Q"
  shows "yields (lvalue_suffixes E start (Suc k) x p) vs Q"
  unfolding lvalue_suffixes.simps
  by (rule yields_not_accept [OF p(1)], simp add: p(2), rule yields_accept [OF p(1,2)]) (simp_all add: p(3))

lemma dereference_suffix_index:
  assumes p: "ready p (l # us)" "token_kind_of l = TK_LEFT_BRACKET_OPERATOR"
    "\<And>q. ready q us \<Longrightarrow> yields (and_then (lvalue_index E start TK_RIGHT_BRACKET_OPERATOR x) (dereference_suffixes E start k) q) vs Q"
  shows "yields (dereference_suffixes E start (Suc k) x p) vs Q"
proof -
  have "yields (case parser_accept TK_DOT_OPERATOR p of
              (p1, True) \<Rightarrow> and_then (lvalue_field start x) (dereference_suffixes E start k) p1
            | (p1, False) \<Rightarrow>
                (case parser_accept TK_LEFT_BRACKET_OPERATOR p1 of
                   (p2, True) \<Rightarrow>
                     and_then (lvalue_index E start TK_RIGHT_BRACKET_OPERATOR x) (dereference_suffixes E start k) p2
                 | (p2, False) \<Rightarrow> dereference_suffixes E start k x p2)) vs Q"
    by (rule yields_not_accept [OF p(1)], simp add: p(2), rule yields_accept [OF p(1,2)]) (simp_all add: p(3))
  then show ?thesis
    by (simp add: ready_kind [OF p(1)] p(2))
qed

lemma suffixed_field_completes:
  assumes d: "token_kind_of d = TK_DOT_OPERATOR" and t: "parser_token_is_contextual_name t"
    and w: "suffixes_complete b (Lvalue_Field sp v (token_lexeme t)) w us"
  shows "suffixes_complete b v w (d # t # us)"
proof (rule suffixes_completeI)
  fix n k p vs start x
  assume len: "length (d # t # us) \<le> n" "length (d # t # us) \<le> k" and p: "ready p ((d # t # us) @ vs)"
    and vs: "no_suffix (following vs)" and x: "bare_lvalue x = bare_lvalue v"
  have rest: "length us \<le> n" "length us < k" "bare_lvalue (Lvalue_Field z x (token_lexeme t)) = bare_lvalue (Lvalue_Field sp v (token_lexeme t))" for z
    using len x by simp_all
  note more = suffixes_completeD [OF w rest(1,2) _ vs rest(3)]
  have field: "yields (and_then (lvalue_field start x) f q) vs Q"
    if "ready q (t # us @ vs)" "\<And>sp q. ready q (us @ vs) \<Longrightarrow> yields (f (Lvalue_Field sp x (token_lexeme t)) q) vs Q" for f q Q
    by (rule yields_field [OF that(1) t]) (rule that(2))
  show "yields (lvalue_suffixes (parse_expression n) start (Suc k) x p) vs (\<lambda>y. bare_lvalue y = bare_lvalue w)" if b
    using p that by (intro suffix_field [OF _ d t] field more(1)) simp_all
  show "yields (dereference_suffixes (parse_expression n) start (Suc k) x p) vs (\<lambda>y. bare_lvalue y = bare_lvalue w)" if "\<not> b"
    using p d that by (auto simp: ready_kind intro!: yields_accept field more(2))
qed

lemma suffixed_index_completes:
  assumes l: "token_kind_of l = TK_LEFT_BRACKET_OPERATOR" and r: "token_kind_of r = TK_RIGHT_BRACKET_OPERATOR"
    and e: "expression_completes 1 e es TK_RIGHT_BRACKET_OPERATOR" and w: "suffixes_complete b (Lvalue_Index sp v e) w us"
  shows "suffixes_complete b v w (l # es @ r # us)"
proof (rule suffixes_completeI)
  fix n k p vs start x
  assume len: "length (l # es @ r # us) \<le> n" "length (l # es @ r # us) \<le> k" and p: "ready p ((l # es @ r # us) @ vs)"
    and vs: "no_suffix (following vs)" and x: "bare_lvalue x = bare_lvalue v"
  have rest: "length us \<le> n" "length us < k" using len by simp_all
  note more = suffixes_completeD [OF w rest _ vs]
  have index: "yields (and_then (lvalue_index (parse_expression n) start TK_RIGHT_BRACKET_OPERATOR x) f q) vs Q"
    if "ready q (es @ r # us @ vs)" "\<And>sp y q. ready q (us @ vs) \<Longrightarrow> bare y = bare e \<Longrightarrow> yields (f (Lvalue_Index sp x y) q) vs Q" for f q Q
    by (rule yields_index [OF e _ r _ that(1)]) (use len that(2) in simp_all)
  show "yields (lvalue_suffixes (parse_expression n) start (Suc k) x p) vs (\<lambda>y. bare_lvalue y = bare_lvalue w)" if b
    using p x that by (intro suffix_index [OF _ l] index more(1)) simp_all
  show "yields (dereference_suffixes (parse_expression n) start (Suc k) x p) vs (\<lambda>y. bare_lvalue y = bare_lvalue w)" if "\<not> b"
    using p x that by (intro dereference_suffix_index [OF _ l] index more(2)) simp_all
qed

lemma suffixed_dot_index_completes:
  assumes d: "token_kind_of d = TK_DOT_OPERATOR" and l: "token_kind_of l = TK_LEFT_PARENTHESIS_OPERATOR"
    and r: "token_kind_of r = TK_RIGHT_PARENTHESIS_OPERATOR"
    and e: "expression_completes 1 e es TK_RIGHT_PARENTHESIS_OPERATOR" and w: "suffixes_complete True (Lvalue_Index sp v e) w us"
  shows "suffixes_complete True v w (d # l # es @ r # us)"
proof (rule suffixes_completeI)
  fix n k p vs start x
  assume len: "length (d # l # es @ r # us) \<le> n" "length (d # l # es @ r # us) \<le> k" and p: "ready p ((d # l # es @ r # us) @ vs)"
    and vs: "no_suffix (following vs)" and x: "bare_lvalue x = bare_lvalue v"
  have rest: "length us \<le> n" "length us < k" using len by simp_all
  have index: "yields (and_then (lvalue_index (parse_expression n) start TK_RIGHT_PARENTHESIS_OPERATOR x) f q) vs Q"
    if "ready q (es @ r # us @ vs)" "\<And>sp y q. ready q (us @ vs) \<Longrightarrow> bare y = bare e \<Longrightarrow> yields (f (Lvalue_Index sp x y) q) vs Q" for f q Q
    by (rule yields_index [OF e _ r _ that(1)]) (use len that(2) in simp_all)
  show "yields (lvalue_suffixes (parse_expression n) start (Suc k) x p) vs (\<lambda>y. bare_lvalue y = bare_lvalue w)"
    using p d l x by (auto simp: ready_kind intro!: yields_accept index suffixes_completeD(1) [OF w rest _ vs])
qed simp


text \<open>Primary expressions.\<close>

lemma primary_completesI:
  "(\<And>n p vs. length us \<le> n \<Longrightarrow> ready p (us @ vs) \<Longrightarrow> following vs = k \<Longrightarrow>
      yields (parse_any_primary n p) vs (\<lambda>x. bare x = bare e)) \<Longrightarrow> primary_completes e us k"
  by (simp add: primary_completes_def)

lemma dereferenced_bare: "bare x = bare e \<Longrightarrow> map_option bare_lvalue (dereferenced x) = map_option bare_lvalue (dereferenced e)"
proof (induction x arbitrary: e rule: ast_expression.induct [where ?P1.0 = "\<lambda>_. True" and ?P2.0 = "\<lambda>_. True"])
  case (Expression_Unary h op x)
  then show ?case
    by (cases e; cases op; cases x; cases "expression_header x")
       (auto simp: dereferenced_def split: ast_expression.splits ast_atom.splits)
qed (auto simp: dereferenced_def split: ast_expression.splits)

lemma yields_parenthesised:
  assumes e: "expression_completes 1 e us TK_RIGHT_PARENTHESIS_OPERATOR"
    and l: "token_kind_of l = TK_LEFT_PARENTHESIS_OPERATOR" and r: "token_kind_of r = TK_RIGHT_PARENTHESIS_OPERATOR"
    and p: "ready p (l # us @ r # ws)" and n: "length us < n"
    and f: "\<And>x q. ready q ws \<Longrightarrow> bare x = bare e \<Longrightarrow> yields (parse_parenthesised (parse_expression n) n (parser_start p) x q) vs Q"
  shows "yields (parse_any_primary n p) vs Q"
  unfolding parse_primary_def
proof (rule yields_accept [OF p l])
  fix q
  assume q: "ready q (us @ r # ws)"
  have "yields (parse_expression n q) (r # ws) (\<lambda>x. bare x = bare e)"
    by (rule expression_completes_closed [OF e _ n q]) (simp_all add: r)
  then show "yields (and_then (parse_expression n) (\<lambda>e. and_then (expect TK_RIGHT_PARENTHESIS_OPERATOR) (\<lambda>_.
            parse_parenthesised (parse_expression n) n (parser_start p) e)) q) vs Q"
    by (rule yields_then) (use r f in \<open>auto intro!: yields_expect\<close>)
qed simp

lemma primary_parentheses_completes:
  assumes "token_kind_of l = TK_LEFT_PARENTHESIS_OPERATOR" "expression_completes 1 e us TK_RIGHT_PARENTHESIS_OPERATOR"
    "token_kind_of r = TK_RIGHT_PARENTHESIS_OPERATOR" "dereferenced e = None"
  shows "primary_completes e (l # us @ [r]) k"
proof (rule primary_completesI)
  fix n p vs
  assume len: "length (l # us @ [r]) \<le> n" and p: "ready p ((l # us @ [r]) @ vs)"
  have "parse_parenthesised E i start x q = Parsed x q" if "bare x = bare e" for E i start x q
  proof -
    have "dereferenced x = None"
      using dereferenced_bare [OF that] assms(4) by simp
    then show ?thesis
      by (auto simp: parse_parenthesised_def dereferenced_def
          split: ast_expression.splits ast_unary_operation.splits ast_atom.splits)
  qed
  then show "yields (parse_any_primary n p) vs (\<lambda>x. bare x = bare e)"
    using len p by (intro yields_parenthesised [OF assms(2,1,3), of p vs]) (auto intro: yields_Parsed)
qed


lemma dereferenced_shape:
  "dereferenced e = Some v \<Longrightarrow> \<exists>h1 h2. e = Expression_Unary h1 Unary_Dereference (Expression_Atom h2 (Atom_Lvalue v))"
  by (auto simp: dereferenced_def split: ast_expression.splits ast_unary_operation.splits ast_atom.splits)

lemma yields_atom: "ready p vs \<Longrightarrow> (\<And>h. Q (Expression_Atom h a)) \<Longrightarrow> yields (atom_expression a p) vs Q"
  unfolding atom_expression_def by (auto intro!: yields_map granted_steps)

lemma primary_dereference_completes:
  assumes "token_kind_of l = TK_LEFT_PARENTHESIS_OPERATOR" "expression_completes 1 e us TK_RIGHT_PARENTHESIS_OPERATOR"
    "token_kind_of r = TK_RIGHT_PARENTHESIS_OPERATOR" and v: "dereferenced e = Some v"
    and w: "suffixes_complete False (Lvalue_Dereference sp v) w ws" and k: "no_suffix k"
  shows "primary_completes (Expression_Atom h (Atom_Lvalue w)) (l # us @ r # ws) k"
proof (rule primary_completesI)
  fix n p vs
  assume len: "length (l # us @ r # ws) \<le> n" and p: "ready p ((l # us @ r # ws) @ vs)" and vs: "following vs = k"
  have paren: "yields (parse_parenthesised (parse_expression n) n start x q) vs (\<lambda>y. bare y = bare (Expression_Atom h (Atom_Lvalue w)))"
    if q: "ready q (ws @ vs)" and x: "bare x = bare e" for start x q
  proof -
    obtain y where y: "dereferenced x = Some y" "bare_lvalue y = bare_lvalue v"
      using dereferenced_bare [OF x] v by auto
    from dereferenced_shape [OF y(1)] obtain h1 h2 where
      x: "x = Expression_Unary h1 Unary_Dereference (Expression_Atom h2 (Atom_Lvalue y))"
      by blast
    have "yields (dereference_suffixes (parse_expression n) start n (Lvalue_Dereference z y) q1) vs
        (\<lambda>y. bare_lvalue y = bare_lvalue w)" if "ready q1 (ws @ vs)" for z q1
      by (rule suffixes_completeD(2) [OF w]) (use len k vs that y in simp_all)
    then have inner: "yields (and_then (dereference_suffixes (parse_expression n) start n (Lvalue_Dereference z y))
        (\<lambda>w. atom_expression (Atom_Lvalue w)) q1) vs (\<lambda>y. bare y = bare (Expression_Atom h (Atom_Lvalue w)))"
      if "ready q1 (ws @ vs)" for z q1
      by (rule yields_then) (use that in \<open>auto intro!: yields_atom\<close>)
    then show ?thesis
      unfolding x parse_parenthesised_def using q by (auto intro!: granted_steps)
  qed
  show "yields (parse_any_primary n p) vs (\<lambda>y. bare y = bare (Expression_Atom h (Atom_Lvalue w)))"
    using len p by (intro yields_parenthesised [OF assms(2,1,3), of p "ws @ vs"] paren) auto
qed

text \<open>A name, with or without a call.\<close>

lemma yields_name:
  assumes t: "token_kind_of t = TK_IDENTIFIER" and v: "lvalue_completes v (t # us)"
    and p: "ready p (t # us @ ws)" and n: "length (t # us) \<le> n" and ws: "no_suffix (following ws)"
    and f: "\<And>x q start. ready q ws \<Longrightarrow> bare_lvalue x = bare_lvalue v \<Longrightarrow>
      yields (case parser_accept TK_LEFT_PARENTHESIS_OPERATOR q of
           (q1, True) \<Rightarrow> parse_call (parse_expression n) n start x q1
         | (q1, False) \<Rightarrow> atom_expression (Atom_Lvalue x) q1) vs Q"
  shows "yields (parse_any_primary n p) vs Q"
proof -
  have "yields (parse_any_lvalue n p) ws (\<lambda>x. bare_lvalue x = bare_lvalue v)"
    by (rule v [unfolded lvalue_completes_def, rule_format]) (use p n ws in simp_all)
  then have "yields (and_then (parse_any_lvalue n) (\<lambda>x q.
         case parser_accept TK_LEFT_PARENTHESIS_OPERATOR q of
           (q1, True) \<Rightarrow> parse_call (parse_expression n) n (span_start (token_span t)) x q1
         | (q1, False) \<Rightarrow> atom_expression (Atom_Lvalue x) q1) p) vs Q"
    by (rule yields_then) (rule f)
  then show ?thesis
    unfolding parse_primary_def
    by (intro yields_not_accept [OF p]) (simp_all add: t ready_kind [OF p])
qed

lemma primary_name_completes:
  assumes t: "token_kind_of t = TK_IDENTIFIER" and v: "lvalue_completes v (t # us)"
    and k: "no_suffix k" "k \<noteq> TK_LEFT_PARENTHESIS_OPERATOR"
  shows "primary_completes (Expression_Atom h (Atom_Lvalue v)) (t # us) k"
  by (rule primary_completesI, rule yields_name [OF t v])
     (use k in \<open>auto intro!: yields_not_accept yields_atom\<close>)

text \<open>The first token of an expression.\<close>

lemma literal_start:
  "literal_spelling_of x t \<Longrightarrow> token_kind_of t \<notin> {TK_RIGHT_PARENTHESIS_OPERATOR, TK_LEFT_PARENTHESIS_OPERATOR,
     TK_MUTABLE, TK_EOF, TK_IDENTIFIER} \<and> parser_unary_operation (token_kind_of t) = None"
  by (cases x) (simp_all add: literal_spelling_of_def parser_unary_operation_def)

lemma unary_operation_kind: "parser_unary_operation k = Some op \<Longrightarrow> k \<notin> {TK_RIGHT_PARENTHESIS_OPERATOR, TK_MUTABLE}"
  by (rule notI) (auto simp: parser_unary_operation_def)

lemma expression_start:
  "lvalue_path v us \<Longrightarrow> True" "suffixed b v w us \<Longrightarrow> True"
  "primary_spelling e us k \<Longrightarrow> us \<noteq> [] \<and> token_kind_of (hd us) \<notin> {TK_RIGHT_PARENTHESIS_OPERATOR, TK_MUTABLE}"
  "converted_spelling e us k \<Longrightarrow> us \<noteq> [] \<and> token_kind_of (hd us) \<notin> {TK_RIGHT_PARENTHESIS_OPERATOR, TK_MUTABLE}"
  "unary_spelling e us k \<Longrightarrow> us \<noteq> [] \<and> token_kind_of (hd us) \<notin> {TK_RIGHT_PARENTHESIS_OPERATOR, TK_MUTABLE}"
  "expression_spelling m e us k \<Longrightarrow> us \<noteq> [] \<and> token_kind_of (hd us) \<notin> {TK_RIGHT_PARENTHESIS_OPERATOR, TK_MUTABLE}"
  by (induction rule: lvalue_path_suffixed_primary_spelling_converted_spelling_unary_spelling_expression_spelling.inducts)
     (auto dest: literal_start unary_operation_kind)

lemma primary_start: "primary_spelling e us k \<Longrightarrow> parser_unary_operation (token_kind_of (hd us)) = None"
  by (cases rule: primary_spelling.cases) (auto dest: literal_start simp: parser_unary_operation_def)

lemma converted_start:
  "lvalue_path v us \<Longrightarrow> True" "suffixed b v w us \<Longrightarrow> True" "primary_spelling e us k \<Longrightarrow> True"
  "converted_spelling e us k \<Longrightarrow> us \<noteq> [] \<and> parser_unary_operation (token_kind_of (hd us)) = None"
  "unary_spelling e us k \<Longrightarrow> True" "expression_spelling m e us k \<Longrightarrow> True"
  by (induction rule: lvalue_path_suffixed_primary_spelling_converted_spelling_unary_spelling_expression_spelling.inducts)
     (auto dest: primary_start primary_nonempty)

lemma primary_call_completes:
  assumes t: "token_kind_of t = TK_IDENTIFIER" and v: "lvalue_completes v (t # us)"
    and l: "token_kind_of l = TK_LEFT_PARENTHESIS_OPERATOR" and r: "token_kind_of r = TK_RIGHT_PARENTHESIS_OPERATOR"
    and xs: "xs = [] \<and> ws = [] \<or> separated (\<lambda>x us k. expression_spelling 1 x us k \<and> expression_completes 1 x us k) xs ws
      TK_RIGHT_PARENTHESIS_OPERATOR"
  shows "primary_completes (Expression_Call h v xs (- 1)) (t # us @ l # ws @ [r]) k"
proof (rule primary_completesI)
  fix n p vs
  assume len: "length (t # us @ l # ws @ [r]) \<le> n" and p: "ready p ((t # us @ l # ws @ [r]) @ vs)"
  let ?Q = "\<lambda>x. bare x = bare (Expression_Call h v xs (- 1))"
  have ending: "yields (parse_call_end start x ys q) vs ?Q"
    if "ready q (r # vs)" "bare_lvalue x = bare_lvalue v" "map bare ys = map bare xs" for start x ys q
    unfolding parse_call_end_def
    using that r by (auto intro!: yields_expect granted_steps yields_map)
  have call: "yields (parse_call (parse_expression n) n start x q) vs ?Q"
    if q: "ready q (ws @ r # vs)" and x: "bare_lvalue x = bare_lvalue v" for start x q
  proof (cases "xs = [] \<and> ws = []")
    case True
    with q have q: "ready q (r # vs)"
      by simp
    have "yields (parse_call_end start x [] q) vs ?Q"
      by (rule ending [OF q x]) (simp add: True)
    then show ?thesis
      by (simp add: parse_call_def ready_kind [OF q] r)
  next
    case False
    with xs have xs: "separated (\<lambda>x us k. expression_spelling 1 x us k \<and> expression_completes 1 x us k) xs ws
      TK_RIGHT_PARENTHESIS_OPERATOR"
      by blast
    have "yields (parse_separated n (parser_element (parse_expression n)) q) (r # vs) (\<lambda>ys. map bare ys = map bare xs)"
    proof (rule parse_separated_complete [OF xs])
      fix x us' q ws'
      assume x: "expression_spelling 1 x us' (following ws') \<and> expression_completes 1 x us' (following ws')"
        and us': "length us' \<le> length ws" and q: "ready q (us' @ ws')"
        and "following ws' = TK_COMMA_OPERATOR \<or> following ws' = TK_RIGHT_PARENTHESIS_OPERATOR"
      then have "parser_binary_info (following ws') = None"
        by auto
      with x show "yields (parser_element (parse_expression n) q) ws' (\<lambda>y. bare y = bare x)"
        using us' q len by (intro yields_element expression_completes_closed) auto
    qed (use len q r in simp_all)
    then have "yields (and_then (parse_separated n (parser_element (parse_expression n))) (parse_call_end start x) q) vs ?Q"
      by (rule yields_then) (rule ending [OF _ x])
    moreover have "ws \<noteq> [] \<and> token_kind_of (hd ws) \<noteq> TK_RIGHT_PARENTHESIS_OPERATOR"
      using separated_start [OF xs] expression_start by blast
    ultimately show ?thesis
      using q by (simp add: parse_call_def ready_following following_append)
  qed
  show "yields (parse_any_primary n p) vs ?Q"
    by (rule yields_name [OF t v, of _ "l # ws @ r # vs"]) (use len p l call in \<open>auto intro!: yields_accept\<close>)
qed

text \<open>Literals.\<close>

lemma payload_then: "getter (Some (parser_current p)) = Some x \<Longrightarrow> and_then (parser_payload getter) f p = f x p"
  by (simp add: parser_payload_def and_then_def)

lemma yields_literal:
  "ready p (t # vs) \<Longrightarrow> token_kind_of t \<noteq> TK_EOF \<Longrightarrow> yields (literal_atom l p) vs (\<lambda>a. a = Atom_Literal l)"
  unfolding literal_atom_def
  by (auto intro!: granted_steps yields_map yields_weaken [OF yields_advance(1)])

lemma yields_plain_literal:
  assumes "ready p (t # vs)" "token_kind_of t \<noteq> TK_EOF" "bare_literal l = y"
  shows "yields (literal_atom l p) vs (\<lambda>a. bare_atom a = Atom_Literal y)"
  using yields_literal [OF assms(1,2)] by (rule yields_weaken) (simp add: assms(3))

lemma yields_literal_atom:
  assumes "literal_spelling_of x t" and p: "ready p (t # vs)"
  shows "yields (parse_atom L p) vs (\<lambda>a. bare_atom a = Atom_Literal (bare_literal x))"
proof -
  have t: "token_kind_of t \<noteq> TK_EOF"
    using literal_start [OF assms(1)] by simp
  show ?thesis
  proof (cases x)
    case (Literal_String sp y)
    with assms(1) have y: "token_get_text (Some (parser_current p)) = Some y"
      by (simp add: literal_spelling_of_def ready_kind [OF p])
    have "yields (parse_string_atom p) vs (\<lambda>a. bare_atom a = Atom_Literal (bare_literal x))"
      unfolding parse_string_atom_def Let_def parser_current_text_def payload_then [of token_get_text, OF y]
      using p t Literal_String
      by (auto simp: bare_literal_def intro!: granted_steps yields_map yields_weaken [OF yields_advance(1)])
    with Literal_String assms show ?thesis
      by (simp add: parse_atom_def ready_kind literal_spelling_of_def)
  qed (use assms t in
      \<open>auto simp: parse_atom_def ready_kind literal_spelling_of_def parser_current_integer_def
         parser_current_character_def parser_current_boolean_def bare_literal_def payload_then intro!: yields_plain_literal\<close>)
qed

lemma primary_literal_completes:
  assumes x: "literal_spelling_of x t"
  shows "primary_completes (Expression_Atom h (Atom_Literal x)) [t] k"
proof (rule primary_completesI)
  fix n p vs
  assume "ready p ([t] @ vs)"
  then have p: "ready p (t # vs)"
    by simp
  have "yields (and_then (parse_atom (parse_any_lvalue n)) atom_expression p) vs
      (\<lambda>y. bare y = bare (Expression_Atom h (Atom_Literal x)))"
    using yields_literal_atom [OF x p] by (rule yields_then) (auto intro: yields_atom)
  then show "yields (parse_any_primary n p) vs (\<lambda>y. bare y = bare (Expression_Atom h (Atom_Literal x)))"
    unfolding parse_primary_def
    by (intro yields_not_accept [OF p]) (use literal_start [OF x] in \<open>simp_all add: ready_kind [OF p]\<close>)
qed

text \<open>Conversions.\<close>

lemma after_step: "m p = Parsed x q \<Longrightarrow> and_then m f p = f x q"
  by (simp add: and_then_def)

lemma yields_cases:
  assumes "yields r vs Q"
  obtains x q where "r = Parsed x q" "ready q vs" "Q x"
  using assms by (auto simp: yields_def)

lemma converted_primary_completes:
  assumes "primary_completes e us k" "primary_spelling e us k"
  shows "converted_completes e us k"
  unfolding converted_completes_def
proof (intro allI impI)
  fix n i p vs
  assume "length us \<le> n" "ready p (us @ vs)" "following vs = k"
  then have "yields (parse_any_primary n p) vs (\<lambda>x. bare x = bare e)"
    by (rule assms(1) [unfolded primary_completes_def, rule_format])
  then obtain x q where "parse_any_primary n p = Parsed x q" "ready q vs" "bare x = bare e"
    by (rule yields_cases)
  with primary_nonempty [OF assms(2)] show "\<exists>x q j. and_then (parse_any_primary n) (parse_conversions (parse_type n) i) p = parse_conversions (parse_type n) j x q
          \<and> ready q vs \<and> bare x = bare e \<and> i < j + length us"
    by (intro exI [of _ x] exI [of _ q] exI [of _ i]) (simp add: after_step)
qed

lemma granted_node:
  assumes "ready p vs"
  obtains q where "parser_new_node p = Parsed () q" "ready q vs"
  using granted_storage(1) [unfolded granted_def, rule_format, OF assms] by (rule yields_cases) simp

lemma converted_more_completes:
  assumes e: "converted_completes e us TK_AS" and a: "token_kind_of a = TK_AS" and x: "type_spelling x ws k"
  shows "converted_completes (Expression_Conversion h e x) (us @ a # ws) k"
  unfolding converted_completes_def
proof (intro allI impI)
  fix n i p vs
  assume len: "length (us @ a # ws) \<le> n" "length (us @ a # ws) \<le> i" and p: "ready p ((us @ a # ws) @ vs)" and k: "following vs = k"
  then obtain y q j where y: "and_then (parse_any_primary n) (parse_conversions (parse_type n) i) p = parse_conversions (parse_type n) j y q"
    "ready q (a # ws @ vs)" "bare y = bare e" "i < j + length us"
    using e [unfolded converted_completes_def, rule_format, of n i p "a # ws @ vs"] a by auto
  then obtain j' where j: "j = Suc j'"
    using len by (cases j) auto
  from yields_advance(1) [OF y(2)] a obtain q1 where q1: "advance q = Parsed () q1" "ready q1 (ws @ vs)"
    by (auto elim: yields_cases)
  from parse_type_complete [OF x _ q1(2) k, of n] len obtain z q2
    where q2: "parse_type n q1 = Parsed z q2" "ready q2 vs" "bare_type z = bare_type x"
    by (auto elim: yields_cases)
  from granted_node [OF q2(2)] obtain q3 where q3: "parser_new_node q2 = Parsed () q3" "ready q3 vs" .
  have "parse_conversions (parse_type n) j y q = parse_conversions (parse_type n) j'
      (Expression_Conversion (expression_at (parser_span (span_start (span_of y)) (parser_end q2))) y z) q3"
    using y(2) a unfolding j by (simp add: ready_kind and_then_def q1(1) q2(1) q3(1))
  with y j q2(3) q3(2) show "\<exists>y q j. and_then (parse_any_primary n) (parse_conversions (parse_type n) i) p = parse_conversions (parse_type n) j y q
          \<and> ready q vs \<and> bare y = bare (Expression_Conversion h e x) \<and> i < j + length (us @ a # ws)"
    by (intro exI [of _ "Expression_Conversion (expression_at (parser_span (span_start (span_of y)) (parser_end q2))) y z"]
        exI [of _ q3] exI [of _ j']) simp
qed

lemma converted_completes_yields:
  assumes "converted_completes e us k" "k \<noteq> TK_AS" "us \<noteq> []" "length us \<le> n" "ready p (us @ vs)" "following vs = k"
  shows "yields (and_then (parse_any_primary n) (parse_conversions (parse_type n) n) p) vs (\<lambda>x. bare x = bare e)"
proof -
  from assms(1) [unfolded converted_completes_def, rule_format, OF assms(4,4,5,6)] obtain x q j
    where x: "and_then (parse_any_primary n) (parse_conversions (parse_type n) n) p = parse_conversions (parse_type n) j x q"
      "ready q vs" "bare x = bare e" "n < j + length us"
    by blast
  then obtain i where "j = Suc i"
    using assms(4) by (cases j) auto
  with x assms(2,6) show ?thesis
    by (auto simp: ready_following intro: yields_Parsed)
qed

text \<open>Unary operators.\<close>

lemma unary_converted_completes:
  assumes e: "converted_completes e us k" "converted_spelling e us k" and k: "k \<noteq> TK_AS"
  shows "unary_completes e us k"
  unfolding unary_completes_def
proof (intro allI impI)
  fix n i p vs
  assume n: "length us \<le> n" "length us \<le> i" and p: "ready p (us @ vs)" and vs: "following vs = k"
  from converted_start(4) [OF e(2)] obtain t ts where us: "us = t # ts" "parser_unary_operation (token_kind_of t) = None"
    by (cases us) auto
  then obtain j where "i = Suc j"
    using n by (cases i) auto
  moreover have "yields (and_then (parse_any_primary n) (parse_conversions (parse_type n) n) p) vs (\<lambda>x. bare x = bare e)"
    by (rule converted_completes_yields [OF e(1) k _ n(1) p vs]) (simp add: us)
  moreover have "parser_current p = t"
    using p ready_kind [of p t "ts @ vs"] by (simp add: us)
  ultimately show "yields (parse_any_unary n i p) vs (\<lambda>x. bare x = bare e)"
    using us by simp
qed

lemma yields_unary_end:
  assumes "ready p vs" "following vs \<noteq> TK_AS" "0 < n" "bare x = bare e"
  shows "yields (parse_unary_end T n start op x p) vs (\<lambda>y. bare y = Expression_Unary (expression_at zero_span) op (bare e))"
proof -
  obtain i where "n = Suc i"
    using assms(3) by (cases n) auto
  with assms show ?thesis
    unfolding parse_unary_end_def by (auto simp: ready_following intro!: granted_steps yields_Parsed)
qed

lemma yields_operand:
  assumes e: "unary_completes e us k" "unary_spelling e us k"
    and n: "length us \<le> n" "length us \<le> i" "0 < n" and p: "ready p (us @ vs)" and vs: "following vs = k"
  shows "yields (and_then (parse_any_unary n i) (parse_unary_end T n start op) p) vs
      (\<lambda>y. bare y = Expression_Unary (expression_at zero_span) op (bare e))"
  using e(1) [unfolded unary_completes_def, rule_format, OF n(1,2) p vs]
  by (rule yields_then) (use unary_not_as [OF e(2)] vs n(3) in \<open>auto intro!: yields_unary_end\<close>)

lemma unary_operator_completes:
  assumes t: "parser_unary_operation (token_kind_of t) = Some op" and e: "unary_completes e us k" "unary_spelling e us k"
  shows "unary_completes (Expression_Unary h op e) (t # us) k"
  unfolding unary_completes_def
proof (intro allI impI)
  fix n i p vs
  assume n: "length (t # us) \<le> n" "length (t # us) \<le> i" and "ready p ((t # us) @ vs)" and vs: "following vs = k"
  then have p: "ready p (t # us @ vs)"
    by simp
  obtain j where i: "i = Suc j" "length us \<le> j"
    using n by (cases i) auto
  have "current_kind q \<noteq> TK_MUTABLE" if "ready q (us @ vs)" for q
    using that expression_start(5) [OF e(2)] by (simp add: ready_following following_append)
  then show "yields (parse_any_unary n i p) vs (\<lambda>x. bare x = bare (Expression_Unary h op e))"
    using n i t unary_operation_not_end [OF t]
    by (auto simp: ready_kind [OF p] Let_def intro!: yields_advance [OF p] yields_operand [OF e _ _ _ _ vs])
qed

lemma unary_address_mutable_completes:
  assumes t: "token_kind_of t = TK_AND_OPERATOR" "token_kind_of u = TK_MUTABLE"
    and e: "unary_completes e us k" "unary_spelling e us k"
  shows "unary_completes (Expression_Unary h Unary_Address_Mutable e) (t # u # us) k"
  unfolding unary_completes_def
proof (intro allI impI)
  fix n i p vs
  assume n: "length (t # u # us) \<le> n" "length (t # u # us) \<le> i" and "ready p ((t # u # us) @ vs)" and vs: "following vs = k"
  then have p: "ready p (t # u # us @ vs)"
    by simp
  obtain j where i: "i = Suc j" "length us \<le> j"
    using n by (cases i) auto
  have op: "parser_unary_operation TK_AND_OPERATOR = Some Unary_Address"
    by (simp add: parser_unary_operation_def)
  show "yields (parse_any_unary n i p) vs (\<lambda>x. bare x = bare (Expression_Unary h Unary_Address_Mutable e))"
    using n i t op
    by (auto simp: ready_kind [OF p] ready_kind Let_def
        intro!: yields_advance(2) [OF p] yields_advance(2) yields_operand [OF e _ _ _ _ vs])
qed

text \<open>Binary operators.\<close>

lemma expression_unary_completes:
  assumes "unary_completes e us k" "unary_spelling e us k"
  shows "expression_completes m e us k"
  unfolding expression_completes_def
proof (intro allI impI)
  fix n i l p vs
  assume "length us \<le> n" "ready p (us @ vs)" "following vs = k"
  then have "yields (parse_any_unary n n p) vs (\<lambda>x. bare x = bare e)"
    using assms(1) by (auto simp: unary_completes_def)
  then obtain x q where "parse_any_unary n n p = Parsed x q" "ready q vs" "bare x = bare e"
    by (rule yields_cases)
  with unary_nonempty [OF assms(2)] show "\<exists>x q j. and_then (parse_any_unary n n) (parse_binary_loop (parse_expression_min n) l i) p
                = parse_binary_loop (parse_expression_min n) l j x q
          \<and> ready q vs \<and> bare x = bare e \<and> i < j + length us"
    by (intro exI [of _ x] exI [of _ q] exI [of _ i]) (simp add: after_step)
qed

lemma expression_binary_completes:
  assumes b: "parser_binary_info (token_kind_of b) = Some (r, op)" "m \<le> r"
    and x: "expression_completes r x us (token_kind_of b)" and y: "expression_completes (r + 1) y ws k" "stops (r + 1) k"
  shows "expression_completes m (Expression_Binary h op x y) (us @ b # ws) k"
  unfolding expression_completes_def
proof (intro allI impI)
  fix n i l p vs
  assume len: "length (us @ b # ws) \<le> n" "length (us @ b # ws) \<le> i" and l: "l \<le> m"
    and p: "ready p ((us @ b # ws) @ vs)" and vs: "following vs = k"
  have "\<exists>z q j. and_then (parse_any_unary n n) (parse_binary_loop (parse_expression_min n) l i) p
                = parse_binary_loop (parse_expression_min n) l j z q
          \<and> ready q (b # ws @ vs) \<and> bare z = bare x \<and> i < j + length us"
    using x [unfolded expression_completes_def, rule_format, of n i l p "b # ws @ vs"] len l p b(2) by simp
  then obtain z q j where z: "and_then (parse_any_unary n n) (parse_binary_loop (parse_expression_min n) l i) p
                = parse_binary_loop (parse_expression_min n) l j z q"
      "ready q (b # ws @ vs)" "bare z = bare x" "i < j + length us"
    by blast
  then obtain j' where j: "j = Suc j'"
    using len by (cases j) auto
  have "token_kind_of b \<noteq> TK_EOF"
    using binary_info_bounds [OF b(1)] by simp
  from yields_advance(1) [OF z(2) this] obtain q1 where q1: "advance q = Parsed () q1" "ready q1 (ws @ vs)"
    by (auto elim: yields_cases)
  have "yields (parse_expression_min n (r + 1) q1) vs (\<lambda>w. bare w = bare y)"
    by (rule expression_completes_yields [OF y _ q1(2) vs]) (use len in simp)
  then obtain w q2 where q2: "parse_expression_min n (r + 1) q1 = Parsed w q2" "ready q2 vs" "bare w = bare y"
    by (rule yields_cases)
  from granted_node [OF q2(2)] obtain q3 where q3: "parser_new_node q2 = Parsed () q3" "ready q3 vs" .
  let ?e = "Expression_Binary (expression_at (parser_span (span_start (span_of z)) (span_end (span_of w)))) op z w"
  have "parse_binary_loop (parse_expression_min n) l j z q = parse_binary_loop (parse_expression_min n) l j' ?e q3"
    using z(2) b l unfolding j
    by (simp add: ready_kind and_then_def q1(1) q2(1) [simplified] q3(1))
  with z j q2(3) q3(2) show "\<exists>w q j. and_then (parse_any_unary n n) (parse_binary_loop (parse_expression_min n) l i) p
                = parse_binary_loop (parse_expression_min n) l j w q
          \<and> ready q vs \<and> bare w = bare (Expression_Binary h op x y) \<and> i < j + length (us @ b # ws)"
    by (intro exI [of _ ?e] exI [of _ q3] exI [of _ j']) simp
qed

text \<open>Every spelling.\<close>

lemma spellings_complete:
  "lvalue_path v us \<Longrightarrow> lvalue_completes v us" "suffixed b v w us \<Longrightarrow> suffixes_complete b v w us"
  "primary_spelling e us k \<Longrightarrow> primary_completes e us k"
  "converted_spelling e us k \<Longrightarrow> converted_completes e us k"
  "unary_spelling e us k \<Longrightarrow> unary_completes e us k"
  "expression_spelling m e us k \<Longrightarrow> expression_completes m e us k"
proof (induction rule: lvalue_path_suffixed_primary_spelling_converted_spelling_unary_spelling_expression_spelling.inducts)
  case (primary_call t v us l r xs vs h k)
  then show ?case
    by (intro primary_call_completes) auto
next
  case (expression_binary b q op m l us r vs k h)
  then show ?case
    by (intro expression_binary_completes [of b q op])
next
  case (converted_more e us a x vs k h)
  then show ?case
    by (intro converted_more_completes)
next
  case (unary_operator t op e us k h)
  then show ?case
    by (intro unary_operator_completes)
next
  case (unary_address_mutable t u e us k h)
  then show ?case
    by (intro unary_address_mutable_completes)
qed (blast intro: path_base_completes path_dereference_completes suffixed_none_completes suffixed_field_completes
    suffixed_index_completes suffixed_dot_index_completes primary_parentheses_completes primary_dereference_completes
    primary_name_completes primary_literal_completes converted_primary_completes unary_converted_completes
    expression_unary_completes)+

section \<open>Exactly the grammar\<close>

lemma delivers_unique: "delivers l ts \<Longrightarrow> delivers l us \<Longrightarrow> ts = us"
proof (induction arbitrary: us rule: delivers.induct)
  case (delivers_end l l1 t)
  from delivers_end.prems show ?case
    by cases (use delivers_end.hyps in auto)
next
  case (delivers_more l l1 t ts)
  from delivers_more.prems show ?case
    by cases (use delivers_more.hyps(1,2) delivers_more.IH in auto)
qed

lemma reading_unique: "reading p ts \<Longrightarrow> reading p us \<Longrightarrow> ts = us"
  by (auto simp: reading_def intro: delivers_unique split: if_splits)

lemma parse_exact:
  assumes p: "reading p (us @ vs)" and heap: "parser_heap p = (\<lambda>_. True)"
    and sound: "consumes n (us @ vs) (m p) (\<lambda>x us vs _. G x us (following vs))"
    and complete: "\<And>x. G x us (following vs) \<Longrightarrow> ready p (us @ vs) \<Longrightarrow> yields (m p) vs (\<lambda>y. f y = f x)"
  shows "(\<exists>x q. m p = Parsed x q \<and> reading q vs \<and> f x = t) \<longleftrightarrow> (\<exists>x. G x us (following vs) \<and> f x = t)"
proof
  assume "\<exists>x q. m p = Parsed x q \<and> reading q vs \<and> f x = t"
  then obtain x q where x: "m p = Parsed x q" "reading q vs" "f x = t"
    by blast
  from sound obtain us' vs' where "us @ vs = us' @ vs'" "reading q vs'" "G x us' (following vs')"
    unfolding x(1) by (rule consumes_ParsedE)
  with reading_unique [OF x(2)] x(3) show "\<exists>x. G x us (following vs) \<and> f x = t"
    by fastforce
next
  assume "\<exists>x. G x us (following vs) \<and> f x = t"
  with complete p heap show "\<exists>x q. m p = Parsed x q \<and> reading q vs \<and> f x = t"
    by (fastforce simp: ready_def yields_def)
qed

lemma init_heap: "parser_init lexer_answers answers fresh zero source = (p, ok) \<Longrightarrow> parser_heap p = answers"
  by (auto simp: parser_init_def parser_read_token_def Let_def split: prod.splits option.splits)

lemma reading_last: "\<not> parser_failed p \<Longrightarrow> current_kind p = TK_EOF \<Longrightarrow> reading p [parser_current p]"
  by (simp add: reading_def)

text \<open>A source that is spelled by one tree as a whole, with what the parser reads of it.\<close>

definition reads_as :: "(nat \<Rightarrow> 'a parse) \<Rightarrow> ('a \<Rightarrow> 'b) \<Rightarrow> bytes \<Rightarrow> nat \<Rightarrow> 'b \<Rightarrow> bool" where
  "reads_as m f source n t =
     (let s = \<lparr>source_name = [], source_bytes = source\<rparr>
      in case lexer_run (Suc n) (lexer_init (\<lambda>_. True) (Some s)) of
           Some (_, ts, True) \<Rightarrow> length ts = Suc n \<and>
             (case parser_init (\<lambda>_. True) (\<lambda>_. True) 0 diagnostic_reset s of
                (p, True) \<Rightarrow>
                  (case m (Suc n) p of
                     Parsed x q \<Rightarrow> f x = t \<and> \<not> parser_failed q \<and> current_kind q = TK_EOF \<and> parser_current q = last ts
                   | _ \<Rightarrow> False)
              | _ \<Rightarrow> False)
         | _ \<Rightarrow> False)"

lemma reads_asD:
  assumes "reads_as m f source n t"
  obtains p us vs x q where "reading p (us @ vs)" "parser_heap p = (\<lambda>_. True)" "length us = n" "following vs = TK_EOF"
    "m (Suc n) p = Parsed x q" "reading q vs" "f x = t"
proof -
  let ?s = "\<lparr>source_name = [], source_bytes = source\<rparr>"
  from assms obtain l ts p x q where r: "lexer_run (Suc n) (lexer_init (\<lambda>_. True) (Some ?s)) = Some (l, ts, True)"
      "length ts = Suc n" "parser_init (\<lambda>_. True) (\<lambda>_. True) 0 diagnostic_reset ?s = (p, True)"
      "m (Suc n) p = Parsed x q" "f x = t" "\<not> parser_failed q" "current_kind q = TK_EOF" "parser_current q = last ts"
    by (auto simp: reads_as_def Let_def split: option.splits prod.splits bool.splits parsed.splits)
  have "ts = butlast ts @ [parser_current q]"
    using r(2,8) append_butlast_last_id [of ts] by fastforce
  with init_reading [OF delivers_run [OF r(1)] r(3)] have "reading p (butlast ts @ [parser_current q])"
    by simp
  with init_heap [OF r(3)] reading_last [OF r(6,7)] r that [of p "butlast ts" "[parser_current q]" x q] show thesis
    by simp
qed

text \<open>
  C10: Within fuel of the number of their tokens, the tokens the parser takes for a type are exactly the
  spellings of types by the grammar, and the tree is the spelled one up to nodes.
\<close>

theorem parse_type_exact:
  assumes "reading p (us @ vs)" "parser_heap p = (\<lambda>_. True)" "length us \<le> n"
  shows "(\<exists>x q. parse_type n p = Parsed x q \<and> reading q vs \<and> bare_type x = t)
    \<longleftrightarrow> (\<exists>x. type_spelling x us (following vs) \<and> bare_type x = t)"
proof (rule parse_exact [OF assms(1,2)])
  show "consumes n (us @ vs) (parse_type n p) (\<lambda>x us vs _. type_spelling x us (following vs))"
    using consumingD [OF parse_type_sound assms(1)] .
  show "yields (parse_type n p) vs (\<lambda>y. bare_type y = bare_type x)"
    if "type_spelling x us (following vs)" "ready p (us @ vs)" for x
    by (rule parse_type_complete [OF that(1) assms(3) that(2) refl])
qed

definition pointer_source :: "token \<Rightarrow> token \<Rightarrow> parser" where
  "pointer_source t u =
     \<lparr>parser_lexer = lexer_init (\<lambda>_. True) (Some \<lparr>source_name = [], source_bytes = []\<rparr>), parser_current = t,
      parser_next = u, parser_previous = t, parser_diagnostic = diagnostic_reset, parser_next_temporary = 1,
      parser_target = None, parser_failed = False, parser_heap = \<lambda>_. True, parser_next_node = 0, parser_lost = False\<rparr>"

theorem parse_type_exact_witness:
  "\<exists>x q. parse_type 2 (pointer_source (zero_token\<lparr>token_kind_of := TK_STAR_OPERATOR\<rparr>) (zero_token\<lparr>token_kind_of := TK_INT\<rparr>))
     = Parsed x q \<and> bare_type x = Type_Pointer Type_Integer"
proof -
  let ?t = "zero_token\<lparr>token_kind_of := TK_STAR_OPERATOR\<rparr>" and ?u = "zero_token\<lparr>token_kind_of := TK_INT\<rparr>"
  let ?l = "lexer_init (\<lambda>_. True) (Some \<lparr>source_name = [], source_bytes = []\<rparr>)"
  have "case lexer_next ?l of (l, None) \<Rightarrow> False | (l, Some v) \<Rightarrow> token_kind_of v = TK_EOF"
    by code_simp
  then obtain l v where "lexer_next ?l = (l, Some v)" "token_kind_of v = TK_EOF"
    by (auto split: prod.splits option.splits)
  then have p: "reading (pointer_source ?t ?u) ([?t, ?u] @ [v])"
    by (auto simp: reading_def pointer_source_def intro: delivers_end)
  have "type_spelling (Type_Pointer Type_Integer) [?t, ?u] (following [v])"
    by (intro spell_wrapped [of _ Type_Pointer] spell_primitive) (simp_all add: type_wrapper_def parser_type_primitive_def)
  with parse_type_exact [OF p, of 2 "Type_Pointer Type_Integer"] show ?thesis
    by (auto simp: pointer_source_def)
qed

text \<open>
  C7: Where no operator follows, the tokens the parser takes for an expression are exactly the spellings
  of expressions by the grammar, with the precedences and the associativity of the operators, and the
  tree is the spelled one up to positions, nodes and marks.
\<close>

theorem parse_expression_exact:
  assumes "reading p (us @ vs)" "parser_heap p = (\<lambda>_. True)" "length us < n" "stops 1 (following vs)"
  shows "(\<exists>x q. parse_expression n p = Parsed x q \<and> reading q vs \<and> bare x = t)
    \<longleftrightarrow> (\<exists>x. expression_spelling 1 x us (following vs) \<and> bare x = t)"
proof (rule parse_exact [OF assms(1,2)])
  show "consumes n (us @ vs) (parse_expression n p) (\<lambda>x us vs _. expression_spelling 1 x us (following vs))"
    unfolding parse_expression_def
    by (rule consumes_weaken [OF consumingD [OF parse_expression_sound assms(1)]]) simp_all
  show "yields (parse_expression n p) vs (\<lambda>y. bare y = bare x)"
    if "expression_spelling 1 x us (following vs)" "ready p (us @ vs)" for x
    unfolding parse_expression_def
    by (rule expression_completes_yields [OF spellings_complete(6) [OF that(1)] assms(4,3) that(2) refl])
qed

text \<open>The product binds its operands before the sum.\<close>

definition sum_and_product :: ast_expression where
  "sum_and_product =
     (let literal = \<lambda>v x. Expression_Atom (expression_at zero_span) (Atom_Literal (Literal_Integer zero_span v x False))
      in Expression_Binary (expression_at zero_span) Binary_Add (literal 1 [0x31])
           (Expression_Binary (expression_at zero_span) Binary_Multiply (literal 2 [0x32]) (literal 3 [0x33])))"

theorem parse_expression_exact_witness:
  "\<exists>us x. length us = 5 \<and> expression_spelling 1 x us TK_EOF \<and> bare x = sum_and_product"
proof -
  have "reads_as parse_expression bare [0x31, 0x2B, 0x32, 0x2A, 0x33] 5 sum_and_product"
    by code_simp
  then obtain p us vs x q where r: "reading p (us @ vs)" "parser_heap p = (\<lambda>_. True)" "length us = 5" "following vs = TK_EOF"
    "parse_expression (Suc 5) p = Parsed x q" "reading q vs" "bare x = sum_and_product"
    by (rule reads_asD)
  have "\<exists>x q. parse_expression (Suc 5) p = Parsed x q \<and> reading q vs \<and> bare x = sum_and_product"
    using r by blast
  moreover have "stops 1 TK_EOF"
    by (simp add: stops_def parser_binary_info_def)
  ultimately show ?thesis
    using parse_expression_exact [OF r(1,2), of "Suc 5" sum_and_product] r(3,4) by auto
qed

end
