(* ===== verification/Parser_Answers.thy ===== *)
theory Parser_Answers
  imports Parser_Sound Parser_Module
begin

text \<open>
  The parser answers on every source the lexer accepts: with more fuel than tokens no parsing
  function runs out of it.
\<close>

section \<open>Steps\<close>

abbreviation answers :: "nat \<Rightarrow> token list \<Rightarrow> 'a parsed \<Rightarrow> bool" where
  "answers n ts r \<equiv> consumes n ts r (\<lambda>_ _ _ _. True)"

abbreviation answering :: "nat \<Rightarrow> 'a parse \<Rightarrow> bool" where
  "answering n m \<equiv> consuming n m (\<lambda>_ _ _. True)"

abbreviation advancing :: "nat \<Rightarrow> 'a parse \<Rightarrow> bool" where
  "advancing n m \<equiv> consuming n m (\<lambda>_ us _. us \<noteq> [])"

lemma consuming_weaken:
  "consuming n m G \<Longrightarrow> k \<le> n \<Longrightarrow> (\<And>x us vs. G x us vs \<Longrightarrow> H x us vs) \<Longrightarrow> consuming k m H"
  unfolding consuming_def by (blast intro: consumes_weaken)

text \<open>A step in front whose result does not matter.\<close>

lemma answers_and_then:
  assumes "answers n ts (m p)" "\<And>x p1 vs. reading p1 vs \<Longrightarrow> answers n vs (f x p1)"
  shows "answers n ts (and_then m f p)"
  using assms(1) by (rule consumes_and_then [where G = "\<lambda>_ _ _ _. True"]) (rule consumes_fuel [OF assms(2)], simp_all)

lemma answering_if_advancing: "advancing n m \<Longrightarrow> answering n m"
  by (rule consuming_weaken) auto

lemma answers_Parsed: "reading p ts \<Longrightarrow> answers n ts (Parsed x p)"
  by (rule consumes_Parsed) simp_all

lemma consuming_silent: "consuming n m G \<Longrightarrow> consuming n (silent_element m) G"
  unfolding silent_element_def
  by (rule consumingI, erule consuming_then) (auto simp: parser_allocates_def intro!: consumes_Parsed)

lemma separated_answering: "answering n m \<Longrightarrow> answering (min n (Suc k)) (parse_separated k m)"
  by (rule consuming_weaken [OF parse_separated_sound [where G = "\<lambda>_ _ _. True"]]) auto

lemma until_answering: "answering n m \<Longrightarrow> answering (min n (Suc k)) (parse_until k close m)"
  by (rule consuming_weaken [OF parse_until_sound [where G = "\<lambda>_ _ _. True"]]) auto

lemma idle_push_statement [simp, intro]: "idle (parser_push_statement xs s)"
  by (auto simp: parser_push_statement_def)

lemma idle_create_variable [simp, intro]: "idle (parser_create_variable_declaration name t sp)"
  by (auto simp: parser_create_variable_declaration_def)

lemma answers_advance:
  assumes "reading p ts" "current_kind p \<noteq> TK_EOF"
  shows "answers n ts (advance p)"
    and "(\<And>p1 us. reading p1 us \<Longrightarrow> answers (n - 1) us (f () p1)) \<Longrightarrow> answers n ts (and_then advance f p)"
proof -
  obtain t us where ts: "ts = t # us" and p: "reading p (t # us)" "token_kind_of t \<noteq> TK_EOF"
    using reading_current assms reading_head by blast
  then show "answers n ts (advance p)"
    by (auto intro: consumes_only_advance)
  assume "\<And>p1 us. reading p1 us \<Longrightarrow> answers (n - 1) us (f () p1)"
  with ts p show "answers n ts (and_then advance f p)"
    by (auto intro: consumes_advance_then)
qed

lemma answers_expect:
  assumes "reading p ts" "k \<noteq> TK_EOF"
  shows "answers n ts (expect k p)"
    and "(\<And>p1 us. reading p1 us \<Longrightarrow> answers (n - 1) us (f () p1)) \<Longrightarrow> answers n ts (and_then (expect k) f p)"
  using assms by (auto intro: consumes_expect consumes_expect_then)

lemma answers_accept:
  assumes "reading p ts" "k \<noteq> TK_EOF" "\<And>p1 us. reading p1 us \<Longrightarrow> answers (n - 1) us (f p1)" "answers n ts (g p)"
  shows "answers n ts (case parser_accept k p of (p1, True) \<Rightarrow> f p1 | (p1, False) \<Rightarrow> g p1)"
    and "answers n ts (case parser_accept k p of (p1, False) \<Rightarrow> g p1 | (p1, True) \<Rightarrow> f p1)"
proof -
  show "answers n ts (case parser_accept k p of (p1, True) \<Rightarrow> f p1 | (p1, False) \<Rightarrow> g p1)"
    using assms by (intro consumes_accept) auto
  then show "answers n ts (case parser_accept k p of (p1, False) \<Rightarrow> g p1 | (p1, True) \<Rightarrow> f p1)"
    by (simp split: prod.splits bool.splits)
qed

lemma answers_take_name:
  assumes "reading p ts"
  shows "answers n ts (parser_take_contextual_name p)"
    and "(\<And>x p1 us. reading p1 us \<Longrightarrow> answers (n - 1) us (f x p1)) \<Longrightarrow> answers n ts (and_then parser_take_contextual_name f p)"
proof -
  note take = parser_take_contextual_name_sound [OF assms]
  show "answers n ts (parser_take_contextual_name p)"
    by (rule consumes_weaken [OF take]) auto
  assume f: "\<And>x p1 us. reading p1 us \<Longrightarrow> answers (n - 1) us (f x p1)"
  from take show "answers n ts (and_then parser_take_contextual_name f p)"
    by (rule consumes_and_then [where G = "\<lambda>x us vs _. \<exists>t. us = [t] \<and> parser_token_is_contextual_name t \<and> x = token_lexeme t"])
      (use f in auto)
qed

lemma answers_map: "answers n ts (m p) \<Longrightarrow> answers n ts (parse_map f m p)"
  by (rule consumes_map)

lemmas answer_steps = idle_steps answers_advance answers_expect answers_accept answers_take_name answers_map
  idle_push_statement [THEN idle_then] idle_create_variable [THEN idle_then]
  idle_ends idle_push_statement [THEN idle_consumes] idle_create_variable [THEN idle_consumes]
  answers_Parsed

lemma answering_answers: "answering n m \<Longrightarrow> reading p ts \<Longrightarrow> k \<le> n \<Longrightarrow> answers k ts (m p)"
  by (rule consuming_consumes)

lemma answering_then:
  "answering n m \<Longrightarrow> reading p ts \<Longrightarrow> k \<le> n \<Longrightarrow> (\<And>x p1 vs. reading p1 vs \<Longrightarrow> answers k vs (f x p1)) \<Longrightarrow>
    answers k ts (and_then m f p)"
  by (rule answers_and_then [OF answering_answers])

lemma advancing_then:
  assumes "advancing n m" "reading p ts" "k \<le> n" "\<And>x p1 vs. reading p1 vs \<Longrightarrow> answers (k - 1) vs (f x p1)"
  shows "answers k ts (and_then m f p)"
proof (rule consuming_then [OF assms(1-3)])
  fix x p1 and us vs :: "token list"
  assume "reading p1 vs" "us \<noteq> []"
  then show "answers (k - length us) vs (f x p1)"
    using Suc_leI [of 0 "length us"] by (intro consumes_fuel [OF assms(4)]) auto
qed

section \<open>Patterns\<close>

lemma parse_payload_patterns_answers:
  assumes P: "answering n P"
  shows "answering n (parse_payload_patterns n P)"
  unfolding parse_payload_patterns_def
  by (rule consumingI, intro answers_accept answers_and_then)
     (auto intro!: answer_steps answering_answers [OF separated_answering [OF consuming_silent [OF P]]])

lemma parse_enum_pattern_answers:
  assumes P: "answering n P"
  shows "answering n (parse_enum_pattern n P name start)"
  unfolding parse_enum_pattern_def
  by (rule consumingI) (auto intro!: answer_steps answering_then [OF parse_payload_patterns_answers [OF P]])

lemma parse_pattern_field_answers:
  assumes P: "answering n P"
  shows "answering n (parse_pattern_field P)"
  unfolding parse_pattern_field_def Let_def
  by (rule consumingI) (auto intro!: answer_steps answering_answers [OF consuming_silent [OF P]])

lemma parse_struct_pattern_answers:
  assumes P: "answering n P" and p: "reading p ts" "current_kind p \<noteq> TK_EOF"
  shows "answers (Suc n) ts (parse_struct_pattern n P start p)"
  unfolding parse_struct_pattern_def
  using p by (auto intro!: answer_steps answering_then [OF until_answering [OF parse_pattern_field_answers [OF P]]])

lemma parse_pattern_answers: "answering n (parse_pattern n)"
proof (induction n)
  case (Suc n)
  show ?case
    unfolding parse_pattern.simps Let_def
    by (rule consumingI)
       (auto intro!: answer_steps parse_struct_pattern_answers [OF Suc]
          answering_answers [OF parse_enum_pattern_answers [OF Suc]])
qed (auto simp: consuming_def)


section \<open>Expressions and types\<close>

lemma parse_type_answers: "answering n (parse_type n)"
  by (rule consuming_weaken [OF parse_type_sound]) auto

lemma expression_parser: "expression_parser n (parse_expression n)"
  unfolding parse_expression_def by (rule consuming_weaken [OF parse_expression_sound]) auto

lemma expression_nonempty: "expression_spelling m e us k \<Longrightarrow> us \<noteq> []"
  by (induction rule: lvalue_path_suffixed_primary_spelling_converted_spelling_unary_spelling_expression_spelling.inducts(6)
      [where ?P1.0 = "\<lambda>_ _. True" and ?P2.0 = "\<lambda>_ _ _ _. True" and ?P3.0 = "\<lambda>_ us _. us \<noteq> []"
         and ?P4.0 = "\<lambda>_ us _. us \<noteq> []" and ?P5.0 = "\<lambda>_ us _. us \<noteq> []"]) simp_all

lemma parse_expression_answers: "advancing n (parse_expression n)"
  by (rule consuming_weaken [OF expression_parser]) (auto dest: expression_nonempty)

lemma lvalue_parser: "lvalue_parser (Suc n) (parse_any_lvalue n)"
  using parse_lvalue_sound [OF expression_parser, of n n] by simp

lemma lvalue_nonempty: "lvalue_path v us \<Longrightarrow> us \<noteq> []"
  by (auto elim: lvalue_path.cases)

lemma parse_lvalue_answers: "advancing (Suc n) (parse_any_lvalue n)"
  by (rule consuming_weaken [OF lvalue_parser]) (auto dest: lvalue_nonempty)

lemma parse_negative_atom_answers:
  assumes p: "reading p ts" "current_kind p = TK_MINUS_OPERATOR" "token_kind_of (parser_next p) = TK_LIT_INT"
  shows "answers n ts (parse_negative_atom p)"
proof -
  obtain t us where ts: "ts = t # us" "token_kind_of t = TK_MINUS_OPERATOR"
    using reading_current [OF p(1)] p(2) by auto
  then obtain u vs where us: "us = u # vs"
    using reading_end [of p t us] p(1) by (cases us) auto
  have u: "token_kind_of u = TK_LIT_INT"
    using reading_next [of p t u vs] p(1,3) ts us by simp
  show ?thesis
    using p(1) u ts(2) unfolding ts(1) us parse_negative_atom_def Let_def
    by (auto intro!: consumes_advance_then idle_steps consumes_weaken [OF literal_atom_sound] split: if_split)
qed

lemma parse_atom_answers:
  assumes L: "answering n L"
  shows "answering n (parse_atom L)"
proof (rule consumingI)
  fix p ts
  assume p: "reading p ts"
  then obtain t us where ts: "ts = t # us" and pt: "reading p (t # us)"
    using reading_current by blast
  have literal: "answers n ts (parse_atom L p)" if "token_kind_of t \<noteq> TK_MINUS_OPERATOR" "token_kind_of t \<noteq> TK_IDENTIFIER"
    unfolding ts by (rule consumes_weaken [OF parse_atom_sound [OF pt that]]) auto
  show "answers n ts (parse_atom L p)"
  proof (cases "token_kind_of t = TK_MINUS_OPERATOR \<or> token_kind_of t = TK_IDENTIFIER")
    case True
    with p reading_head [OF pt] show ?thesis
      by (auto simp: parse_atom_def Let_def intro!: parse_negative_atom_answers answers_map answering_answers [OF L])
  qed (use literal in simp)
qed


section \<open>Initializers\<close>

lemma answers_if_failed: "reading p ts \<Longrightarrow> answers n ts (if parser_failed p then Rejected p else Parsed x p)"
  by (auto intro: answers_Parsed)

lemma parse_aggregate_elements_answers:
  assumes A: "answering n A" and close: "close \<noteq> TK_EOF"
  shows "answering n (parse_aggregate_elements A n close first)"
  unfolding parse_aggregate_elements_def
proof (rule consumingI, rule answers_and_then)
  fix p ts
  assume "reading p ts"
  then show "answers n ts ((case first of None \<Rightarrow> Parsed [] | Some a \<Rightarrow> parse_map (\<lambda>_. [a]) parser_push_reported) p)"
    by (cases first) (auto intro!: answer_steps)
qed (use close in \<open>auto intro!: answer_steps answers_if_failed
        answering_then [OF until_answering [OF consuming_element [OF A]]]\<close>)

lemma parse_record_field_answers: "answering n E \<Longrightarrow> answering n (parse_record_field E)"
  unfolding parse_record_field_def Let_def
  by (rule consumingI) (auto intro!: answer_steps answering_answers [OF consuming_element])

lemma parse_record_initializer_answers:
  assumes E: "answering n E"
  shows "answering n (parse_record_initializer E n start)"
  unfolding parse_record_initializer_def
  by (rule consumingI)
     (auto intro!: answer_steps answering_then [OF until_answering [OF parse_record_field_answers [OF E]]]
        split: if_split)

lemma parse_initializer_answers:
  assumes E: "answering n E" and A: "answering n A"
  shows "answering n (parse_initializer E A n)"
  unfolding parse_initializer_def Let_def
  by (rule consumingI)
     (auto intro!: answer_steps answering_then [OF A] answering_answers [OF E]
        answering_then [OF parse_aggregate_elements_answers [OF A]]
        answering_answers [OF parse_record_initializer_answers [OF E]])

section \<open>Statements\<close>

text \<open>A statement consumes at least one token.\<close>

abbreviation advances :: "nat \<Rightarrow> token list \<Rightarrow> 'a parsed \<Rightarrow> bool" where
  "advances n ts r \<equiv> consumes n ts r (\<lambda>_ us _ _. us \<noteq> [])"

lemma advances_then:
  assumes "advances n ts (m p)" "\<And>x p1 us. reading p1 us \<Longrightarrow> answers (n - 1) us (f x p1)"
  shows "advances n ts (and_then m f p)"
  using assms(1)
proof (rule consumes_and_then [where G = "\<lambda>_ us _ _. us \<noteq> []"])
  fix x p1 and us vs :: "token list"
  assume "reading p1 vs" and us: "us \<noteq> []"
  then have "answers (n - length us) vs (f x p1)"
    using Suc_leI [of 0 "length us"] by (intro consumes_fuel [OF assms(2)]) auto
  with us show "consumes (n - length us) vs (f x p1) (\<lambda>y us' _ _. us @ us' \<noteq> [])"
    by (auto elim: consumes_weaken)
qed

lemma advances_advance:
  assumes "reading p ts" "current_kind p \<noteq> TK_EOF"
  shows "advances n ts (advance p)"
proof -
  obtain t us where "ts = t # us" "reading p (t # us)" "token_kind_of t \<noteq> TK_EOF"
    using reading_current assms reading_head by blast
  then show ?thesis
    by (auto intro: consumes_only_advance)
qed

lemma advances_expect: "reading p ts \<Longrightarrow> k \<noteq> TK_EOF \<Longrightarrow> advances n ts (expect k p)"
  by (auto intro: consumes_expect)

lemmas advance_steps = advances_then advances_advance advances_expect

lemma advancing_advances: "advancing n m \<Longrightarrow> reading p ts \<Longrightarrow> k \<le> n \<Longrightarrow> advances k ts (m p)"
  by (rule consuming_consumes)

lemma parse_return_answers:
  assumes E: "answering n E" and p: "reading p ts" "current_kind p \<noteq> TK_EOF"
  shows "advances n ts (parse_return E p)"
proof -
  have "answering n (parse_returned E)"
    unfolding parse_returned_def
    by (rule consumingI) (auto intro!: answer_steps answering_answers [OF E])
  then show ?thesis
    unfolding parse_return_def Let_def
    using p by (auto intro!: advance_steps answer_steps answering_then)
qed

lemma parse_variable_end_answers:
  assumes I: "answering n I"
  shows "answering n (parse_variable_end I start name t)"
  unfolding parse_variable_end_def Let_def
  by (rule consumingI) (auto intro!: answer_steps answering_then [OF I])

lemma parse_variable_answers:
  assumes T: "answering n T" and I: "answering n I" and p: "reading p ts" "current_kind p \<noteq> TK_EOF"
  shows "advances n ts (parse_variable T I p)"
  unfolding parse_variable_def Let_def
  using p by (auto intro!: advance_steps answer_steps answering_then [OF T]
      answering_answers [OF parse_variable_end_answers [OF I]])

lemma parse_call_end_answers: "reading p ts \<Longrightarrow> answers n ts (parse_call_end start f xs p)"
  by (rule consumes_weaken [OF parse_call_end_sound]) auto

lemma reading_temporary [simp]: "reading (p\<lparr>parser_next_temporary := i\<rparr>) ts = reading p ts"
  by (simp add: reading_def)

lemma parse_call_statement_answers:
  assumes E: "answering n E"
  shows "answering n (parse_call_statement E n f start)"
proof (rule consumingI)
  fix p ts
  assume p: "reading p ts"
  have call: "answers n ts (parser_call_after_lvalue E n f start p)"
    unfolding parser_call_after_lvalue_def
    using p by (auto intro!: answer_steps answering_then [OF until_answering [OF consuming_element [OF E]]] parse_call_end_answers)
  show "answers n ts (parse_call_statement E n f start p)"
  proof (cases "parser_call_after_lvalue E n f start p")
    case (Parsed call p1)
    with call obtain us vs where ts: "ts = us @ vs" "reading p1 vs"
      by (auto elim: consumes_ParsedE)
    show ?thesis
      unfolding ts(1) parse_call_statement_def Let_def Parsed
      using ts(2) by (auto intro!: consumes_prefix answer_steps)
  qed (use call in \<open>simp_all add: parse_call_statement_def Let_def\<close>)
qed

lemma parse_copy_statement_answers:
  assumes E: "answering n E"
  shows "answering n (parse_copy_statement E v start)"
  unfolding parse_copy_statement_def
  by (rule consumingI) (auto intro!: answer_steps answering_then [OF E])

lemma parse_lvalue_statement_answers:
  assumes E: "answering n E" and L: "advancing n L" and p: "reading p ts"
  shows "advances n ts (parse_lvalue_statement E L n p)"
  unfolding parse_lvalue_statement_def Let_def
proof (rule consumes_accept [OF p])
  fix t us p1
  assume "reading p1 us"
  then show "consumes (n - 1) us (and_then L (\<lambda>v. and_then parser_new_node (\<lambda>_.
               parse_copy_statement E (Lvalue_Dereference (parser_span (parser_start p) (span_end (lvalue_span v))) v)
                 (parser_start p))) p1) (\<lambda>_ us' _ _. t # us' \<noteq> [])"
    by (auto intro!: answering_then [OF answering_if_advancing [OF L]] answer_steps
        answering_answers [OF parse_copy_statement_answers [OF E]])
next
  fix t us
  show "advances n ts (and_then L (\<lambda>v p2.
               if current_kind p2 = TK_LEFT_PARENTHESIS_OPERATOR then parse_call_statement E n v (parser_start p) p2
               else parse_copy_statement E v (parser_start p) p2) p)"
    using p by (auto intro!: advances_then advancing_advances [OF L] answering_answers [OF parse_copy_statement_answers [OF E]]
        answering_answers [OF parse_call_statement_answers [OF E]])
qed simp

lemma accept_semicolon_answers: "answering n accept_semicolon"
proof (rule consumingI)
  fix p ts
  assume p: "reading p ts"
  obtain t us where ts: "ts = t # us"
    using reading_current [OF p] by blast
  then show "answers n ts (accept_semicolon p)"
    using accept_reading [of p t us TK_SEMICOLON_OPERATOR] p
    by (cases "token_kind_of t = TK_SEMICOLON_OPERATOR")
       (auto simp: accept_semicolon_def intro: answers_Parsed consumes_ParsedI [of _ "[t]" us])
qed

lemma parse_condition_answers:
  assumes E: "answering n E" and p: "reading p ts" "current_kind p \<noteq> TK_EOF"
  shows "advances n ts (parse_condition E p)"
  unfolding parse_condition_def
  using p by (auto intro!: advance_steps answer_steps answering_then [OF E])


lemma parse_while_answers:
  assumes E: "answering n E" and B: "answering n B" and p: "reading p ts" "current_kind p \<noteq> TK_EOF"
  shows "advances n ts (parse_while E B p)"
  unfolding parse_while_def Let_def
  using p by (auto intro!: advances_then parse_condition_answers [OF E] answer_steps answering_then [OF B]
      answering_then [OF accept_semicolon_answers])

lemma parse_else_answers:
  assumes I: "\<And>p ts. reading p ts \<Longrightarrow> current_kind p \<noteq> TK_EOF \<Longrightarrow> answers m ts (I p)" and B: "answering n B" and p: "reading p ts"
    and k: "k - 1 \<le> m" "k - 1 \<le> n"
  shows "answers k ts (parse_else I B p)"
  unfolding parse_else_def
proof (rule answers_accept [OF p])
  fix p1 us
  assume p1: "reading p1 us"
  have "answers (k - 1) us (and_then I parser_block_from_statement p1)" if "current_kind p1 = TK_IF"
    unfolding parser_block_from_statement_def
    by (rule answers_and_then) (use I [OF p1] that k in \<open>auto intro!: answer_steps intro: consumes_fuel\<close>)
  then show "answers (k - 1) us
      (parse_map Some (if current_kind p1 = TK_IF then and_then I parser_block_from_statement else B) p1)"
    using p1 k by (auto intro!: answers_map answering_answers [OF B])
qed (use p in \<open>auto intro: answers_Parsed\<close>)

lemma parse_if_core_answers:
  assumes E: "answering n E" and B: "answering n B"
  shows "reading p ts \<Longrightarrow> current_kind p \<noteq> TK_EOF \<Longrightarrow> advances (min n (Suc k)) ts (parse_if_core E B k p)"
proof (induction k arbitrary: p ts)
  case 0
  then show ?case
    by (auto dest: reading_current)
next
  case (Suc k)
  have rest: "answers (min n (Suc k)) ts (parse_if_core E B k p)" if "reading p ts" "current_kind p \<noteq> TK_EOF" for p ts
    by (rule consumes_weaken [OF Suc.IH [OF that]]) simp_all
  show ?case
    unfolding parse_if_core.simps Let_def
    using Suc.prems
    by (auto intro!: advances_then consumes_fuel [OF parse_condition_answers [OF E]] answering_then [OF B]
        answers_and_then [OF parse_else_answers [OF rest B]] answer_steps)
qed

lemma parse_match_cases_answers:
  assumes C: "answering n C"
  shows "answering (min n (Suc k)) (parse_match_cases k C)"
proof (induction k)
  case 0
  show ?case
    by (auto simp: consuming_def dest: reading_current)
next
  case (Suc k)
  show ?case
    unfolding parse_match_cases.simps
    by (rule consumingI) (auto intro!: answer_steps answering_then [OF C] answering_answers [OF Suc])
qed

lemma parse_match_case_answers:
  assumes P: "answering n P" and B: "answering n B"
  shows "answering n (parse_match_case P B)"
  unfolding parse_match_case_def
  by (rule consumingI) (auto intro!: answering_then [OF P] answer_steps answering_answers [OF consuming_silent [OF B]])

lemma parse_match_answers:
  assumes E: "answering n E" and P: "answering n P" and B: "answering n B" and p: "reading p ts" "current_kind p \<noteq> TK_EOF"
  shows "advances n ts (parse_match E P B n p)"
  unfolding parse_match_def Let_def
  using p by (auto intro!: advance_steps answer_steps answering_then [OF E] answering_then [OF accept_semicolon_answers]
      answering_then [OF parse_match_cases_answers [OF parse_match_case_answers [OF P B]]])

lemma parse_unsafe_answers:
  assumes B: "answering n B" and p: "reading p ts" "current_kind p \<noteq> TK_EOF"
  shows "advances n ts (parse_unsafe B p)"
  unfolding parse_unsafe_def Let_def
  using p by (auto intro!: advance_steps answer_steps answering_then [OF B] answering_then [OF accept_semicolon_answers])

lemma parse_one_statement_answers:
  assumes B: "answering n B"
  shows "advancing n (parse_one_statement n B)"
proof (rule consumingI)
  fix p ts
  assume p: "reading p ts"
  have E: "answering n (parse_expression n)" and L: "advancing n (parse_any_lvalue n)"
    and A: "answering n (parse_any_atom n)"
    using parse_expression_answers parse_lvalue_answers
    by (blast intro: answering_if_advancing consuming_weaken parse_atom_answers le_SucI order_refl)+
  have I: "answering n (parse_initializer (parse_expression n) (parse_any_atom n) n)"
    by (rule parse_initializer_answers [OF E A])
  have "advances n ts (and_then (parse_if_core (parse_expression n) B n)
      (\<lambda>s. and_then accept_semicolon (\<lambda>_. parser_push_statement [] s)) p)" if "current_kind p = TK_IF"
    using p that by (auto intro!: advances_then consumes_fuel [OF parse_if_core_answers [OF E B]] answer_steps
        answering_then [OF accept_semicolon_answers])
  then show "advances n ts (parse_one_statement n B p)"
    unfolding parse_one_statement_def Let_def
    using p by (auto intro!: parse_return_answers [OF E] parse_variable_answers [OF parse_type_answers I]
        parse_while_answers [OF E B] parse_match_answers [OF E parse_pattern_answers B] parse_unsafe_answers [OF B]
        parse_lvalue_statement_answers [OF E L])
qed

lemma parse_statements_answers:
  assumes S: "advancing n S"
  shows "answering (min n (Suc k)) (parse_statements k S)"
proof (induction k)
  case 0
  show ?case
    by (auto simp: consuming_def dest: reading_current)
next
  case (Suc k)
  show ?case
  proof (rule consumingI)
    fix p ts
    assume p: "reading p ts"
    note step = advancing_advances [OF S p, of "min n (Suc (Suc k))"]
    have "answers (min n (Suc (Suc k))) ts (case S p of
              Unfinished \<Rightarrow> Unfinished
            | Rejected p1 \<Rightarrow> reject_unreported (parser_fail Diag_Word_Syntax_Unterminated_Block) p1
            | Parsed xs p1 \<Rightarrow> parse_map ((@) xs) (parse_statements k S) p1)"
    proof (cases "S p")
      case (Parsed xs p1)
      with step obtain us vs where ts: "ts = us @ vs" "reading p1 vs" "us \<noteq> []"
        by (auto elim: consumes_ParsedE)
      then have "answers (min n (Suc (Suc k)) - length us) vs (parse_map ((@) xs) (parse_statements k S) p1)"
        by (cases us) (auto intro!: answers_map answering_answers [OF Suc])
      with Parsed show ?thesis
        unfolding ts(1) by (auto intro: consumes_prefix)
    qed (use step in auto)
    with p show "answers (min n (Suc (Suc k))) ts (parse_statements (Suc k) S p)"
      by (auto intro: answers_Parsed)
  qed
qed

lemma parse_block_answers: "answering n (parse_block n)"
proof (induction n)
  case (Suc n)
  show ?case
    unfolding parse_block.simps Let_def
    by (rule consumingI)
       (auto intro!: answer_steps answering_then [OF parse_statements_answers [OF parse_one_statement_answers [OF Suc]]])
qed (auto simp: consuming_def)


section \<open>Conditions on the target\<close>

lemma reject_condition_answers [simp]: "consumes n ts (reject_condition p) G"
  by (simp add: reject_condition_def)

lemma parse_condition_comparison_answers:
  assumes "reading p ts" "current_kind p \<noteq> TK_EOF"
  shows "answers n ts (parse_condition_comparison x p)"
  unfolding parse_condition_comparison_def Let_def
proof (rule answers_advance(2) [OF assms])
  fix p1 us
  assume p1: "reading p1 us"
  have compared: "answers m vs (and_then parser_current_text (\<lambda>y. parse_map (\<lambda>_. f y) advance) p2)"
    if p2: "reading p2 vs" "current_kind p2 = TK_LIT_STR" for m p2 vs and f :: "text_slice \<Rightarrow> bool"
  proof -
    obtain t ws where "vs = t # ws" "reading p2 (t # ws)" "token_kind_of t \<noteq> TK_EOF"
      using reading_current [OF p2(1)] p2 by auto
    then show ?thesis
      by (auto intro!: idle_steps consumes_map consumes_only_advance)
  qed
  show "answers (n - 1) us
      (if \<not> (current_kind p1 = TK_NOT_EQUAL_OPERATOR) \<and> current_kind p1 \<noteq> TK_EQUALS_OPERATOR then reject_condition p1
       else and_then advance (\<lambda>_ p2.
              if current_kind p2 \<noteq> TK_LIT_STR then reject_condition p2
              else and_then parser_current_text (\<lambda>y.
                     parse_map (\<lambda>_. target_condition_text_equals y x \<noteq> (current_kind p1 = TK_NOT_EQUAL_OPERATOR)) advance) p2) p1)"
    using p1 by (auto intro!: answers_advance compared)
qed

lemma condition_field_kind: "parser_target_condition_field_value p = Some x \<Longrightarrow> current_kind p \<noteq> TK_EOF"
  by (auto simp: parser_target_condition_field_value_def split: if_splits)

lemma parse_condition_atom_answers:
  assumes C: "answering n C"
  shows "advancing (Suc (min n k)) (parse_condition_atom C k)"
proof (induction k)
  case 0
  show ?case
    by (auto simp: consuming_def dest: reading_current)
next
  case (Suc k)
  have field: "answers m ts (case parser_target_condition_field_value p of
               None \<Rightarrow> reject_condition p | Some expected \<Rightarrow> parse_condition_comparison expected p)"
    if "reading p ts" for m p ts
    using that by (auto split: option.split dest: condition_field_kind intro: parse_condition_comparison_answers)
  show ?case
    unfolding parse_condition_atom.simps
    by (rule consumingI)
       (auto intro!: advance_steps answer_steps answering_then [OF C] field
          answering_answers [OF answering_if_advancing [OF Suc]])
qed

lemma parse_condition_chain_answers:
  assumes P: "answering n P" and k: "op \<noteq> TK_EOF"
  shows "answering (min n (Suc k)) (parse_condition_chain op join P k v)"
proof (induction k arbitrary: v)
  case 0
  show ?case
    by (auto simp: consuming_def dest: reading_current)
next
  case (Suc k)
  show ?case
  proof (rule consumingI)
    fix p ts
    assume p: "reading p ts"
    have "answers (min n (Suc (Suc k))) ts
        (and_then advance (\<lambda>_. and_then P (\<lambda>w. parse_condition_chain op join P k (join v w))) p)"
      if "current_kind p = op"
      by (intro answers_advance [OF p] answering_then [OF P] answering_answers [OF Suc]) (auto simp: that k)
    with p show "answers (min n (Suc (Suc k))) ts (parse_condition_chain op join P (Suc k) v p)"
      by (simp add: answers_Parsed)
  qed
qed

lemma parse_condition_and_answers:
  assumes C: "answering n C"
  shows "advancing (Suc n) (parse_condition_and C n)"
proof -
  have atom: "advancing (Suc n) (parse_condition_atom C n)"
    using parse_condition_atom_answers [OF C, of n] by simp
  then have "answering n (parse_condition_atom C n)"
    by (rule consuming_weaken) simp_all
  note rest = answering_answers [OF parse_condition_chain_answers [OF this]]
  show ?thesis
    unfolding parse_condition_and_def
    by (intro consumingI advances_then advancing_advances [OF atom] rest) simp_all
qed

lemma parse_condition_or_answers: "answering n (parse_condition_or n)"
proof (induction n)
  case (Suc n)
  note conjunction = parse_condition_and_answers [OF Suc]
  from conjunction have "answering n (parse_condition_and (parse_condition_or n) n)"
    by (rule consuming_weaken) simp_all
  note rest = answering_answers [OF parse_condition_chain_answers [OF this]]
  have "advancing (Suc n) (parse_condition_or (Suc n))"
    unfolding parse_condition_or.simps
    by (intro consumingI advances_then advancing_advances [OF conjunction] rest) simp_all
  then show ?case
    by (rule answering_if_advancing)
qed (auto simp: consuming_def)

lemma parse_target_condition_answers: "answering n (parse_target_condition n)"
  unfolding parse_target_condition_def
  by (rule consumingI) (auto intro: answering_answers [OF parse_condition_or_answers])

section \<open>Functions and type declarations\<close>

lemma parse_type_parameter_answers: "answering n parse_type_parameter"
proof (rule consumingI)
  fix p ts
  assume p: "reading p ts"
  then obtain t us where "ts = t # us" "reading p (t # us)"
    using reading_current by blast
  then show "answers n ts (parse_type_parameter p)"
    using reading_head [of p t us] unfolding parse_type_parameter_def Let_def
    by (auto intro!: idle_steps consumes_map consumes_only_advance)
qed

lemma idle_freeze_parameters [simp, intro]: "idle (freeze_type_parameters xs)"
  by (auto simp: idle_def freeze_type_parameters_def parser_allocates_def intro!: consumes_Parsed)

lemma parse_type_parameters_answers: "answering n (parse_type_parameters n)"
  unfolding parse_type_parameters_def
  by (rule consumingI)
     (auto intro!: answer_steps answering_then [OF separated_answering [OF parse_type_parameter_answers [of n]]]
        idle_freeze_parameters [THEN idle_consumes])

lemma parse_named_slot_answers: "answering n T \<Longrightarrow> answering n (parse_named_slot key T)"
  unfolding parse_named_slot_def Let_def
  by (rule consumingI) (auto intro!: answer_steps answering_then)

lemma parse_parameter_answers: "answering n T \<Longrightarrow> answering n (parse_parameter T)"
  unfolding parse_parameter_def
  by (rule consumingI) (auto intro!: answers_map answering_answers [OF parse_named_slot_answers])

lemma parse_function_end_answers: "answering n (parse_function_end name public external start ps out body)"
  unfolding parse_function_end_def Let_def
  by (rule consumingI) (auto intro!: answer_steps)

lemma parse_function_answers: "answering n (parse_function n name public external start)"
proof -
  have "answering n (parse_function_body (parse_block n) external)"
    unfolding parse_function_body_def
    by (rule consumingI) (auto intro!: answer_steps answering_answers [OF parse_block_answers])
  then show ?thesis
    unfolding parse_function_def
    by (intro consumingI)
       (auto intro!: answer_steps answering_then [OF until_answering [OF parse_parameter_answers [OF parse_type_answers]]]
          answering_then [OF parse_type_answers] answering_answers [OF parse_function_end_answers] elim: answering_then)
qed


lemma parse_struct_body_answers:
  assumes T: "answering n T"
  shows "answering n (parse_struct_body n T)"
proof -
  have "answering n (parse_struct_field T)"
    unfolding parse_struct_field_def
    by (rule consumingI) (auto intro!: answers_map answering_answers [OF parse_named_slot_answers [OF T]])
  then show ?thesis
    unfolding parse_struct_body_def
    by (intro consumingI) (auto intro!: answer_steps answering_then [OF until_answering])
qed

lemma parse_payload_slot_answers: "answering n T \<Longrightarrow> answering n (parse_payload_slot T)"
  unfolding parse_payload_slot_def
  by (rule consumingI) (auto intro!: answer_steps answering_then)

lemma parse_constructor_payload_answers:
  assumes T: "answering n T"
  shows "answering n (parse_constructor_payload n T)"
  unfolding parse_constructor_payload_def
  by (rule consumingI)
     (auto intro!: answer_steps answering_then [OF separated_answering [OF parse_payload_slot_answers [OF T]]]
        answering_answers [OF parse_payload_slot_answers [OF T]])

lemma parse_constructor_answers:
  assumes T: "answering n T"
  shows "answering n (parse_constructor n T seen)"
  unfolding parse_constructor_def Let_def
  by (rule consumingI) (auto intro!: answer_steps answering_then [OF parse_constructor_payload_answers [OF T]])

lemma parse_constructors_answers:
  assumes T: "answering n T"
  shows "answering (min n (Suc k)) (parse_constructors n T k seen)"
proof (induction k arbitrary: seen)
  case 0
  show ?case
    by (auto simp: consuming_def dest: reading_current)
next
  case (Suc k)
  show ?case
    unfolding parse_constructors.simps
    by (rule consumingI)
       (auto intro!: answer_steps answering_then [OF parse_constructor_answers [OF T]] answering_answers [OF Suc])
qed

lemma parse_type_declaration_answers: "answering n (parse_type_declaration n name)"
proof -
  have "answering n (parse_declaration_body n)"
    unfolding parse_declaration_body_def
    by (rule consumingI)
       (auto intro!: answer_steps answering_answers [OF parse_struct_body_answers [OF parse_type_answers]]
          answering_answers [OF parse_type_answers] answering_then [OF parse_constructors_answers [OF parse_type_answers]])
  then show ?thesis
    unfolding parse_type_declaration_def
    by (intro consumingI) (auto intro!: answer_steps answering_answers)
qed

section \<open>Items\<close>

lemma idle_push_item [simp, intro]: "idle (parser_push_module_item items item)"
proof -
  have "consumes (length ts + 1) ts (parse_map (\<lambda>_. items @ [item]) parser_push_reported p) (\<lambda>_ us _ _. us = [])"
    if "reading p ts" for p ts
    using that by (auto intro!: consumes_map idle_ends)
  then show ?thesis
    by (simp add: idle_def parser_push_module_item_def)
qed

lemma push_new_item_answers: "reading p ts \<Longrightarrow> answers n ts (parser_push_new_item items name public sp body p)"
  unfolding parser_push_new_item_def by (auto intro!: idle_steps idle_push_item [THEN idle_consumes])

lemmas item_steps = advance_steps answer_steps push_new_item_answers

lemma parse_type_item_answers:
  assumes "reading p ts" "current_kind p \<noteq> TK_EOF"
  shows "advances (Suc n) ts (parse_type_item n items public p)"
  unfolding parse_type_item_def Let_def
  using assms by (auto intro!: item_steps answering_then [OF parse_type_parameters_answers]
      answering_then [OF parse_type_declaration_answers])

lemma parse_function_item_answers:
  assumes "reading p ts"
  shows "advances (Suc n) ts (parse_function_item n items public external p)"
  unfolding parse_function_item_def Let_def
  using assms by (auto intro!: item_steps answering_then [OF parse_type_parameters_answers]
      answering_then [OF parse_function_answers])

text \<open>The link name leaves the cursor at the text.\<close>

lemma parse_link_name_answers:
  assumes p: "reading p ts"
    and f: "\<And>x p1. reading p1 ts \<Longrightarrow> current_kind p1 \<noteq> TK_EOF \<Longrightarrow> answers n ts (f x p1)"
  shows "answers n ts (and_then parse_link_name f p)"
proof (cases "parse_link_name p")
  case (Parsed x p1)
  then have kind: "current_kind p = TK_LIT_STR"
    by (auto simp: parse_link_name_def reject_def split: if_splits)
  have "consumes (length ts + 1) ts (parse_link_name p) (\<lambda>_ us vs _. us = [])"
    unfolding parse_link_name_def
    using p by (auto intro!: idle_steps consumes_Parsed)
  with Parsed have p1: "reading p1 ts"
    by (auto elim: consumes_ParsedE)
  with kind have "current_kind p1 \<noteq> TK_EOF"
    using following_current [OF p] following_current [OF p1] by simp
  with f [OF p1] Parsed show ?thesis
    by (simp add: and_then_def)
next
  case Unfinished
  have "consumes (length ts + 1) ts (parse_link_name p) (\<lambda>_ us vs _. us = [])"
    unfolding parse_link_name_def
    using p by (auto intro!: idle_steps consumes_Parsed)
  with Unfinished show ?thesis
    by simp
qed (simp add: and_then_def)

lemma parse_global_item_answers:
  assumes "reading p ts"
  shows "advances (Suc n) ts (parse_global_item n items public start p)"
  unfolding parse_global_item_def Let_def
  using assms by (auto intro!: item_steps answering_then [OF parse_type_answers] parse_link_name_answers)


section \<open>Imports and aliases\<close>

lemma append_import_reading: "parser_append_import_bytes bs p = (p1, ok) \<Longrightarrow> reading p ts \<Longrightarrow> reading p1 ts"
proof (induction bs arbitrary: p)
  case (Cons b bs)
  then show ?case
    by (cases "parser_heap p 0") (auto simp: parser_allocates_def)
qed simp

lemma idle_append_import [simp, intro]: "idle (must (parser_append_import_bytes bs))"
  by (auto simp: idle_def must_def dest: append_import_reading intro: consumes_Parsed split: prod.split)

lemma parse_import_path_answers: "answering (Suc k) (parse_import_path k path)"
proof (induction k arbitrary: path)
  case 0
  show ?case
    by (auto simp: consuming_def dest: reading_current)
next
  case (Suc k)
  show ?case
  proof (rule consumingI)
    fix p ts
    assume p: "reading p ts"
    then obtain t us where ts: "ts = t # us" and pt: "reading p (t # us)"
      using reading_current by blast
    have more: "answers (Suc k) us
        (if current_kind p2 \<noteq> TK_DOT_OPERATOR then Parsed (path @ name) p2
         else and_then (must (parser_append_import_bytes [0x2F])) (\<lambda>_. and_then advance (\<lambda>_ p3.
                if current_kind p3 \<noteq> TK_IDENTIFIER
                then reject Diag_Word_Syntax_Expected_Source_Or_Module p3
                else parse_import_path k (path @ name @ [0x2F]) p3)) p2)"
      if p2: "reading p2 us" for p2 name
    proof -
      obtain u vs where "us = u # vs" "reading p2 (u # vs)"
        using reading_current [OF p2] p2 by blast
      then show ?thesis
        using reading_head [of p2 u vs]
        by (auto intro!: answers_Parsed idle_append_import [THEN idle_then] consumes_advance_then
            answering_answers [OF Suc])
    qed
    show "answers (Suc (Suc k)) ts (parse_import_path (Suc k) path p)"
    proof (cases "token_kind_of t = TK_IDENTIFIER")
      case True
      then show ?thesis
        unfolding ts parse_import_path.simps Let_def reading_head [OF pt]
        by (auto split: prod.split bool.split dest!: append_import_reading [OF _ pt]
            intro!: consumes_advance_then more split del: if_split)
    qed (simp add: ts reading_head [OF pt])
  qed
qed

lemma parse_import_source_answers: "answering n (parse_import_source n)"
proof (rule consumingI)
  fix p ts
  assume p: "reading p ts"
  then obtain t us where ts: "ts = t # us" and pt: "reading p (t # us)"
    using reading_current by blast
  have logical: "answers n ts (parse_logical_import n p)"
    unfolding parse_logical_import_def parser_allocates_def
    using p by (auto split: prod.split bool.split dest!: append_import_reading
        intro!: answering_then [OF parse_import_path_answers] answers_Parsed simp del: parser_append_import_bytes.simps)
  show "answers n ts (parse_import_source n p)"
    using logical pt reading_head [OF pt] unfolding ts parse_import_source_def
    by (auto intro!: idle_steps consumes_map consumes_only_advance)
qed

lemma parse_import_answers:
  assumes "reading p ts" "current_kind p \<noteq> TK_EOF"
  shows "advances (Suc n) ts (parse_import n p)"
  unfolding parse_import_def
  using assms by (auto intro!: advance_steps answer_steps answering_then [OF parse_import_source_answers])

lemma parse_alias_path_answers: "answering n parse_alias_path"
  unfolding parse_alias_path_def Let_def
  by (rule consumingI) (auto intro!: answer_steps)

lemma parse_alias_item_answers:
  assumes "reading p ts"
  shows "advances n ts (parse_alias_item items start public p)"
  unfolding parse_alias_item_def
  using assms by (auto intro!: item_steps answering_then [OF parse_alias_path_answers [of n]] split: option.split)

section \<open>Modules\<close>

lemma advances_answers: "advances n ts r \<Longrightarrow> k \<le> n \<Longrightarrow> answers k ts r"
  by (erule consumes_weaken) simp_all

lemma advances_map: "advances n ts (m p) \<Longrightarrow> advances n ts (parse_map f m p)"
  by (rule consumes_map)

lemma parse_external_module_item_answers:
  assumes "reading p ts" "current_kind p \<noteq> TK_EOF"
  shows "advances (Suc n) ts (parse_external_module_item n items public start p)"
  unfolding parse_external_module_item_def
  using assms by (auto intro!: advance_steps advances_answers [OF parse_global_item_answers]
      advances_answers [OF parse_function_item_answers])

lemma parse_public_module_item_answers:
  assumes "reading p ts" "current_kind p \<noteq> TK_EOF"
  shows "advances (Suc n) ts (parse_public_module_item n items p)"
  unfolding parse_public_module_item_def Let_def
  using assms by (auto intro!: advance_steps advances_answers [OF parse_alias_item_answers]
      advances_answers [OF parse_type_item_answers] advances_answers [OF parse_external_module_item_answers]
      advances_answers [OF parse_function_item_answers])

lemma parse_module_condition_answers:
  assumes C: "\<And>active content. answering n (C active content)" and p: "reading p ts" "current_kind p \<noteq> TK_EOF"
  shows "advances (Suc n) ts (parse_module_condition C n active content p)"
  unfolding parse_module_condition_def
  using p by (auto intro!: advance_steps answer_steps answering_then [OF parse_target_condition_answers]
      answering_then [OF C] answering_answers [OF C])

lemma parse_module_item_answers:
  assumes C: "\<And>content p ts. reading p ts \<Longrightarrow> current_kind p \<noteq> TK_EOF \<Longrightarrow> advances (Suc n) ts (condition content p)"
  shows "advancing (Suc n) (parse_module_item condition n content)"
  unfolding parse_module_item_def Let_def
  by (rule consumingI)
     (auto intro!: C advances_map parse_import_answers parse_alias_item_answers parse_type_item_answers
        parse_public_module_item_answers parse_external_module_item_answers parse_function_item_answers)

lemma parse_module_loop_answers:
  assumes C: "\<And>content p ts. reading p ts \<Longrightarrow> current_kind p \<noteq> TK_EOF \<Longrightarrow> advances (Suc n) ts (condition content p)"
  shows "answering (Suc (min n k)) (parse_module_loop condition n k inside content)"
proof (induction k arbitrary: content)
  case 0
  show ?case
    by (auto simp: consuming_def dest: reading_current)
next
  case (Suc k)
  show ?case
  proof (rule consumingI)
    fix p ts
    assume p: "reading p ts"
    have "answers (Suc (min n (Suc k))) ts (and_then (parse_module_item condition n content) (parse_module_loop condition n k inside) p)"
      by (rule advancing_then [OF parse_module_item_answers [OF C] p])
         (auto intro!: answering_answers [OF Suc])
    with p show "answers (Suc (min n (Suc k))) ts (parse_module_loop condition n (Suc k) inside content p)"
      by (auto intro!: answer_steps)
  qed
qed

lemma parse_module_content_answers: "answering n (parse_module_content n inside active content)"
proof (induction n arbitrary: inside active content)
  case (Suc n)
  have C: "advances (Suc n) ts (parse_module_condition (parse_module_content n True) n active content p)"
    if "reading p ts" "current_kind p \<noteq> TK_EOF" for active content p ts
    by (rule parse_module_condition_answers [OF Suc that])
  have "answering (Suc n) (parse_module_loop (parse_module_condition (parse_module_content n True) n active) n n inside
      (if active then content else ([], [])))"
    using parse_module_loop_answers [OF C, where k = n] by simp
  then show ?case
    unfolding parse_module_content.simps
    by (intro consumingI answers_map) (erule (1) answering_answers, simp)
qed (auto simp: consuming_def)

lemma parse_module_items_answers: "answering n (parse_module_items n)"
  unfolding parse_module_items_def
  by (rule consumingI) (auto intro!: answering_then [OF parse_module_content_answers] answer_steps)



end
