(* ===== verification/Parser_Items.thy ===== *)
theory Parser_Items
  imports Parser_Module
begin

text \<open>
  The invariant of the items of a module: names are not declared twice, and aliases refer to what was
  declared before them. It holds for what the parser returns, whatever the allocator answers.
\<close>

section \<open>What a result satisfies\<close>

definition holds_of :: "'a parsed \<Rightarrow> ('a \<Rightarrow> bool) \<Rightarrow> bool" where
  "holds_of r Q \<longleftrightarrow> (\<forall>x q. r = Parsed x q \<longrightarrow> Q x)"

named_theorems holds

lemma holds_ends [simp, holds]:
  "holds_of (Rejected p) Q" "holds_of Unfinished Q" "holds_of (reject key p) Q" "holds_of (reject_oom p) Q"
  "holds_of (reject_unreported f p) Q"
  by (simp_all add: holds_of_def reject_def reject_oom_def reject_unreported_def)

lemma holds_Parsed [simp]: "holds_of (Parsed x p) Q \<longleftrightarrow> Q x"
  by (simp add: holds_of_def)

lemma holds_then [holds]: "(\<And>x q. m p = Parsed x q \<Longrightarrow> holds_of (f x q) Q) \<Longrightarrow> holds_of (and_then m f p) Q"
  by (auto simp: holds_of_def and_then_def split: parsed.splits)

lemma holds_map [holds]: "(\<And>x q. m p = Parsed x q \<Longrightarrow> Q (f x)) \<Longrightarrow> holds_of (parse_map f m p) Q"
  by (auto simp: holds_of_def parse_map_def split: parsed.splits)

lemma holds_if [holds]: "(b \<Longrightarrow> holds_of r Q) \<Longrightarrow> (\<not> b \<Longrightarrow> holds_of s Q) \<Longrightarrow> holds_of (if b then r else s) Q"
  by simp

lemma holds_of_result: "holds_of r Q \<Longrightarrow> r = Parsed x q \<Longrightarrow> Q x"
  by (auto simp: holds_of_def)

section \<open>Items that are declared in order\<close>

text \<open>What the items before it allow an item to be.\<close>

definition alias_refers_back :: "ast_module_item list \<Rightarrow> ast_module_item \<Rightarrow> ast_module_alias \<Rightarrow> bool" where
  "alias_refers_back earlier item a \<longleftrightarrow>
     (let destination = alias_destination a; target = alias_target a; b = name_find_builtin_function (alias_name target)
      in if \<not> item_public item then b \<noteq> Builtin_None \<and> \<not> name_builtin_is_direct_source b
         else if item_name item \<noteq> []
         then (\<exists>i < length earlier. identity_equals (item_name (earlier ! i)) (alias_name target) \<and> item_public (earlier ! i))
         else alias_name destination = [] \<or>
           (\<exists>i. parser_resolve_root_binding earlier (alias_parent destination) = Some i
            \<and> parser_resolve_root_binding earlier (alias_parent target) = Some i \<and> item_public (earlier ! i)
            \<and> parser_resolve_enum_child earlier i (alias_name target) \<noteq> None
            \<and> parser_resolve_enum_child earlier i (alias_name destination) = None))"

definition item_allowed :: "ast_module_item list \<Rightarrow> ast_module_item \<Rightarrow> bool" where
  "item_allowed earlier item \<longleftrightarrow>
     (item_name item \<noteq> [] \<longrightarrow> (\<forall>x \<in> set earlier. \<not> identity_equals (item_name x) (item_name item)))
     \<and> (case item_body item of Item_Alias a \<Rightarrow> alias_refers_back earlier item a | _ \<Rightarrow> True)"

definition items_in_order :: "ast_module_item list \<Rightarrow> bool" where
  "items_in_order items \<longleftrightarrow> (\<forall>j < length items. item_allowed (take j items) (items ! j))"

lemma items_in_order_Nil [simp]: "items_in_order []"
  by (simp add: items_in_order_def)

lemma items_in_order_snoc [simp]: "items_in_order (xs @ [x]) \<longleftrightarrow> items_in_order xs \<and> item_allowed xs x"
  by (auto simp: items_in_order_def less_Suc_eq nth_append)

section \<open>The operations keep the order\<close>

lemma find_binding_Some:
  "parser_module_find_binding items name = Some i \<Longrightarrow> i < length items \<and> identity_equals (item_name (items ! i)) name"
  by (auto simp: parser_module_find_binding_def find_Some_iff)

lemma name_exists_iff: "parser_module_name_exists items name \<longleftrightarrow> (\<exists>x \<in> set items. identity_equals (item_name x) name)"
  by (fastforce simp: parser_module_name_exists_def parser_module_find_binding_def find_None_iff in_set_conv_nth)

lemma push_new_item_holds [holds]:
  assumes "items_in_order items"
    "\<And>a. body = Item_Alias a \<Longrightarrow> alias_refers_back items \<lparr>item_span = sp, item_name = name, item_public = public, item_body = body\<rparr> a"
  shows "holds_of (parser_push_new_item items name public sp body p) items_in_order"
  unfolding parser_push_new_item_def parser_push_module_item_def
  using assms by (cases body) (auto intro!: holds simp: name_exists_iff item_allowed_def)

lemma type_item_holds [holds]: "items_in_order items \<Longrightarrow> holds_of (parse_type_item n items public p) items_in_order"
  unfolding parse_type_item_def Let_def by (intro holds) simp_all

lemma function_item_holds [holds]: "items_in_order items \<Longrightarrow> holds_of (parse_function_item n items public external p) items_in_order"
  unfolding parse_function_item_def Let_def by (intro holds) simp_all

lemma global_item_holds [holds]: "items_in_order items \<Longrightarrow> holds_of (parse_global_item n items public start p) items_in_order"
  unfolding parse_global_item_def Let_def by (intro holds) simp_all

lemma alias_checked:
  assumes "alias_error items public destination target = None"
  shows "alias_refers_back items
    \<lparr>item_span = sp, item_name = (if path_qualified destination then [] else alias_name (path_of destination)),
     item_public = public, item_body = body\<rparr> \<lparr>alias_destination = path_of destination, alias_target = path_of target\<rparr>"
  using assms find_binding_Some [of items "alias_name (path_of target)"]
  by (auto simp: alias_refers_back_def alias_error_def private_alias_error_def root_alias_error_def child_alias_error_def Let_def
      split: if_splits option.splits)

lemma alias_item_holds [holds]: "items_in_order items \<Longrightarrow> holds_of (parse_alias_item items start public p) items_in_order"
  unfolding parse_alias_item_def
proof (intro holds_then)
  fix destination target :: parser_alias_path and q
  assume items: "items_in_order items"
  let ?name = "if path_qualified destination then [] else alias_name (path_of destination)"
    and ?body = "Item_Alias \<lparr>alias_destination = path_of destination, alias_target = path_of target\<rparr>"
  have "holds_of (parser_push_new_item items ?name public sp ?body r) items_in_order"
    if "alias_error items public destination target = None" for sp r
    using items alias_checked [OF that] by (intro push_new_item_holds) (simp_all split del: if_split)
  then show "holds_of (case alias_error items public destination target of
         Some (e, sp) \<Rightarrow> Rejected (parser_report e sp q)
       | None \<Rightarrow>
           and_then (expect TK_SEMICOLON_OPERATOR) (\<lambda>_ p1.
             parser_push_new_item items ?name public (parser_span start (parser_end p1)) ?body p1) q) items_in_order"
    by (auto split: option.split intro!: holds_then split del: if_split)
qed

lemma external_item_holds [holds]:
  "items_in_order items \<Longrightarrow> holds_of (parse_external_module_item n items public start p) items_in_order"
  unfolding parse_external_module_item_def by (intro holds)

lemma public_item_holds [holds]: "items_in_order items \<Longrightarrow> holds_of (parse_public_module_item n items p) items_in_order"
  unfolding parse_public_module_item_def Let_def by (intro holds)

abbreviation ordered_content :: "module_content \<Rightarrow> bool" where
  "ordered_content content \<equiv> items_in_order (fst content)"

lemma module_item_holds:
  assumes "\<And>content p. ordered_content content \<Longrightarrow> holds_of (I content p) ordered_content" "ordered_content content"
  shows "holds_of (parse_module_item I n content p) ordered_content"
  unfolding parse_module_item_def Let_def using assms
  by (auto intro!: holds_if holds_map holds_ends dest: holds_of_result [rotated]
      intro: holds_of_result [OF alias_item_holds] holds_of_result [OF type_item_holds] holds_of_result [OF public_item_holds]
        holds_of_result [OF external_item_holds] holds_of_result [OF function_item_holds])

lemma module_loop_holds:
  assumes "\<And>content p. ordered_content content \<Longrightarrow> holds_of (I content p) ordered_content"
  shows "ordered_content content \<Longrightarrow> holds_of (parse_module_loop I n k inside content p) ordered_content"
proof (induction k arbitrary: content p)
  case (Suc k)
  have "holds_of (and_then (parse_module_item I n content) (parse_module_loop I n k inside) p) ordered_content"
    using module_item_holds [OF assms Suc.prems] by (intro holds_then Suc.IH) (rule holds_of_result)
  with Suc.prems show ?case
    by (auto intro!: holds_if holds_map)
qed simp

lemma module_condition_holds:
  assumes C: "\<And>active content p. ordered_content content \<Longrightarrow> holds_of (C active content p) ordered_content"
    and "ordered_content content"
  shows "holds_of (parse_module_condition C n active content p) ordered_content"
  unfolding parse_module_condition_def
  by (intro holds_then holds_if) (auto intro: C assms(2) dest: holds_of_result [OF C [OF assms(2)]])

lemma module_content_holds: "ordered_content content \<Longrightarrow> holds_of (parse_module_content n inside active content p) ordered_content"
proof (induction n arbitrary: inside active content p)
  case (Suc n)
  have "holds_of (parse_module_loop (parse_module_condition (parse_module_content n True) n active) n n inside
          (if active then content else ([], [])) p) ordered_content"
    using Suc.prems by (intro module_loop_holds module_condition_holds Suc.IH) auto
  then show ?case
    using Suc.prems by (auto intro!: holds_map dest: holds_of_result)
qed simp

lemma freeze_result: "parser_freeze_vector xs p = Parsed ys q \<Longrightarrow> ys = xs"
  by (auto simp: parser_freeze_vector_def split: if_splits prod.splits)

lemma module_items_hold: "holds_of (parse_module_items n p) (\<lambda>m. items_in_order (module_items m))"
  unfolding parse_module_items_def
proof (rule holds_then)
  fix content q
  assume "parse_module_content n False True ([], []) p = Parsed content q"
  then have "ordered_content content"
    by (rule holds_of_result [OF module_content_holds, rotated]) simp
  then show "holds_of ((case content of (items, imports) \<Rightarrow> and_then (parser_freeze_vector items) (\<lambda>items.
       parse_map (\<lambda>imports. \<lparr>module_items = items, module_imports = imports\<rparr>) (parser_freeze_vector imports))) q)
     (\<lambda>m. items_in_order (module_items m))"
    by (cases content) (auto intro!: holds dest!: freeze_result)
qed

text \<open>
  C8: In a module that parses, no item declares a name again that an earlier item has declared, and every
  alias refers back: a public one to an earlier public item, or to a constructor of one enum whose new name
  that enum had not, and a private one to a built-in function.
\<close>

theorem parsed_items_in_order:
  assumes "parser_parse_module lexer_answers heap fresh zero source target n = Some (r, True)"
  shows "items_in_order (module_items (result_module r))"
  using assms holds_of_result [OF module_items_hold]
  by (auto simp: parser_parse_module_def split: prod.splits bool.splits parsed.splits)

theorem parsed_items_in_order_witness:
  "\<exists>items. map item_name items = [[0x61]] \<and> items_in_order items"
proof -
  have "case parser_parse_module (\<lambda>_. True) (\<lambda>_. True) 0 diagnostic_reset
      \<lparr>source_name = [], source_bytes = [0x74, 0x79, 0x70, 0x65, 0x20, 0x61, 0x3D, 0x7B, 0x7D, 0x3B]\<rparr> None 8 of
      None \<Rightarrow> False | Some (r, ok) \<Rightarrow> ok \<and> map item_name (module_items (result_module r)) = [[0x61]]"
    by code_simp
  then obtain r where r: "parser_parse_module (\<lambda>_. True) (\<lambda>_. True) 0 diagnostic_reset
      \<lparr>source_name = [], source_bytes = [0x74, 0x79, 0x70, 0x65, 0x20, 0x61, 0x3D, 0x7B, 0x7D, 0x3B]\<rparr> None 8 = Some (r, True)"
      "map item_name (module_items (result_module r)) = [[0x61]]"
    by (auto split: option.splits)
  show ?thesis
    by (rule exI [of _ "module_items (result_module r)"], rule conjI [OF r(2) parsed_items_in_order [OF r(1)]])
qed

end
