(* ===== verification/Parser_Failures.thy ===== *)
theory Parser_Failures
  imports Parser_Module
begin

text \<open>
  Two ways in which the loop over the suffixes of a dereference in parentheses differs from the loop over
  the suffixes of other lvalues: it does not end when the lexer fails behind a dot or a bracket, and it
  gives up without a report when no name follows a dot.
\<close>

lemma failed_stays: "parser_failed p \<Longrightarrow> parser_accept k p = (p, False)"
  by (simp add: parser_accept_def parser_advance_def)

lemma failed_advance:
  assumes "token_kind_of (parser_next p) \<noteq> TK_EOF" "lexer_next (parser_lexer p) = (l, None)"
  shows "\<exists>q. parser_advance p = (q, False) \<and> parser_failed q \<and> current_kind q \<in> {current_kind p, token_kind_of (parser_next p)}"
  using assms by (auto simp: parser_advance_def parser_read_token_def Let_def)

text \<open>A failed cursor on a dot or a bracket never leaves the loop.\<close>

lemma failed_cursor_loops:
  "parser_failed p \<Longrightarrow> current_kind p \<in> {TK_DOT_OPERATOR, TK_LEFT_BRACKET_OPERATOR} \<Longrightarrow>
    dereference_suffixes E start k v p = Unfinished"
  by (induction k) (auto simp: failed_stays)



text \<open>A dot without a name behind it is refused with nothing reported.\<close>

lemma dereference_suffixes_silent:
  assumes "current_kind p = TK_DOT_OPERATOR" "parser_advance p = (q, True)" "\<not> parser_failed q"
    "\<not> parser_token_is_contextual_name (parser_current q)"
  shows "dereference_suffixes E start (Suc k) v p = Rejected q \<and> \<not> parser_failed q"
  using assms by (simp add: parser_accept_def lvalue_field_def and_then_def parser_take_contextual_name_def)

end
