(* ===== verification/Body.thy ===== *)
theory Body
  imports Safety Ownership Pattern
begin

text \<open>
  The state of a body check (\<open>include/private/semantic/body_internal.h\<close>, \<open>src/semantic/body_context.c\<close>)
  and the flow of its safety facts through branches (\<open>src/semantic/body_flow.c\<close>).

  A pointer to a local is its position in the vector of locals; a pointer to a function entry is its
  position among the collected functions or the generic instances. The slots that declarations and
  parameters own are a store of types, to which a local refers by position. A known length with its
  flag is an option. The marks that inference leaves on expressions are returned with the expression.

  A check has three outcomes: it ran out of the fuel given to the resolution of types or to the
  nesting of expressions, or read a pointer the sources take for granted (\<open>None\<close>); it refused the
  program (\<open>Some (b, None)\<close>, the answer 0 of the sources); or it accepted with a value.
\<close>

section \<open>State\<close>

datatype function_ref = Collected_Function nat | Instance_Function nat

primrec function_entry_at :: "semantic_context \<Rightarrow> function_ref \<Rightarrow> semantic_function_entry" where
  "function_entry_at c (Collected_Function i) = sc_functions c ! i"
| "function_entry_at c (Instance_Function i) = sc_generic_functions c ! i"

primrec update_function_entry ::
    "function_ref \<Rightarrow> (semantic_function_entry \<Rightarrow> semantic_function_entry) \<Rightarrow> semantic_context \<Rightarrow> semantic_context" where
  "update_function_entry (Collected_Function i) f c =
     c\<lparr>sc_functions := (sc_functions c)[i := f (sc_functions c ! i)]\<rparr>"
| "update_function_entry (Instance_Function i) f c =
     c\<lparr>sc_generic_functions := (sc_generic_functions c)[i := f (sc_generic_functions c ! i)]\<rparr>"

record semantic_local =
  local_name :: ast_lvalue_base
  local_type :: "ast_type option"
  local_slot :: "nat option"
  local_scope_depth :: size_t
  local_mutable :: bool
  local_is_parameter :: bool
  local_known_length :: "size_t option"
  local_safety :: safety_fact
  local_declaration_span :: source_span

record body =
  bd_semantic :: semantic_context
  bd_function :: function_ref
  bd_locals :: "semantic_local list"
  bd_slots :: "ast_type option list"
  bd_scope_depth :: size_t
  bd_unsafe_depth :: size_t
  bd_falls_through :: bool

definition body_function :: "body \<Rightarrow> semantic_function_entry" where
  "body_function b = function_entry_at (bd_semantic b) (bd_function b)"

definition body_unit :: "body \<Rightarrow> nat option" where
  "body_unit b = fe_unit (body_function b)"

section \<open>Checks\<close>

type_synonym 'a check = "body \<Rightarrow> (body \<times> 'a option) option"

definition accept :: "'a \<Rightarrow> 'a check" where
  "accept x b = Some (b, Some x)"

definition refuse :: "'a check" where
  "refuse b = Some (b, None)"

definition check_then :: "'a check \<Rightarrow> ('a \<Rightarrow> 'b check) \<Rightarrow> 'b check" where
  "check_then m f b =
     (case m b of
        None \<Rightarrow> None
      | Some (b1, None) \<Rightarrow> Some (b1, None)
      | Some (b1, Some x) \<Rightarrow> f x b1)"

definition with_body :: "(body \<Rightarrow> 'a check) \<Rightarrow> 'a check" where
  "with_body f b = f b b"

definition change_body :: "(body \<Rightarrow> body) \<Rightarrow> unit check" where
  "change_body f b = Some (f b, Some ())"

text \<open>A pointer the sources read without a test.\<close>

definition known :: "'a option \<Rightarrow> 'a check" where
  "known x b = (case x of None \<Rightarrow> None | Some y \<Rightarrow> Some (b, Some y))"

text \<open>A routine of the semantic context; one whose failure is the answer 0.\<close>

definition on_semantic :: "'a run \<Rightarrow> 'a check" where
  "on_semantic m b =
     (case m (bd_semantic b) of
        None \<Rightarrow> None
      | Some (c, x) \<Rightarrow> Some (b\<lparr>bd_semantic := c\<rparr>, Some x))"

definition on_sem :: "'a sem \<Rightarrow> 'a check" where
  "on_sem m = on_semantic (\<lambda>c. Some (m c))"

definition demand :: "'a option run \<Rightarrow> 'a check" where
  "demand m = check_then (on_semantic m) (\<lambda>x. case x of None \<Rightarrow> refuse | Some y \<Rightarrow> accept y)"

section \<open>Diagnostics\<close>

definition body_begin_diagnostic :: "error_id \<Rightarrow> source_span \<Rightarrow> body \<Rightarrow> body" where
  "body_begin_diagnostic i sp b =
     (let c = semantic_begin_diagnostic (bd_semantic b) i sp
      in b\<lparr>bd_semantic :=
             (case fe_function (body_function b) of
                None \<Rightarrow> c
              | Some f \<Rightarrow>
                  c\<lparr>sc_diagnostic :=
                      snd (diagnostic_set_argument_text (sc_diagnostic c) Argument_Function (function_name f))\<rparr>)\<rparr>)"

text \<open>The report of a diagnostic with what is added to it.\<close>

definition body_report ::
    "error_id \<Rightarrow> source_span \<Rightarrow> (diagnostic \<Rightarrow> diagnostic) \<Rightarrow> 'a check" where
  "body_report i sp explain b =
     (let b1 = body_begin_diagnostic i sp b; c = bd_semantic b1
      in Some (b1\<lparr>bd_semantic := c\<lparr>sc_diagnostic := explain (sc_diagnostic c)\<rparr>\<rparr>, None))"

definition body_fail :: "error_id \<Rightarrow> source_span \<Rightarrow> 'a check" where
  "body_fail i sp b = Some (body_begin_diagnostic i sp b, None)"

text \<open>The steps of the reports: a local's name when it has one, and a span when it is present.\<close>

definition explain_name :: "semantic_local \<Rightarrow> diagnostic \<Rightarrow> diagnostic" where
  "explain_name l d =
     (case local_name l of
        Base_Identifier name \<Rightarrow> snd (diagnostic_set_argument_text d Argument_Value name)
      | Base_Temporary _ \<Rightarrow> d)"

definition explain_span :: "source_span option \<Rightarrow> diagnostic_span_role \<Rightarrow> diagnostic \<Rightarrow> diagnostic" where
  "explain_span sp role d =
     (case sp of None \<Rightarrow> d | Some s \<Rightarrow> snd (diagnostic_add_related_span d s role))"

definition explain_trace :: "wording_key \<Rightarrow> source_span option \<Rightarrow> diagnostic \<Rightarrow> diagnostic" where
  "explain_trace key sp d =
     (case sp of None \<Rightarrow> d | Some s \<Rightarrow> snd (diagnostic_add_trace d key (Some s)))"

definition explain_help :: "wording_key \<Rightarrow> diagnostic \<Rightarrow> diagnostic" where
  "explain_help key d = snd (diagnostic_add_help d key)"

definition explain_note :: "wording_key \<Rightarrow> diagnostic \<Rightarrow> diagnostic" where
  "explain_note key d = snd (diagnostic_add_note d key)"

definition explain_message :: "wording_key \<Rightarrow> diagnostic_span_role \<Rightarrow> diagnostic \<Rightarrow> diagnostic" where
  "explain_message key role d = diagnostic_set_primary_role (diagnostic_set_message_key d key) role"

section \<open>Locals\<close>

definition update_local :: "nat \<Rightarrow> (semantic_local \<Rightarrow> semantic_local) \<Rightarrow> body \<Rightarrow> body" where
  "update_local i f b = b\<lparr>bd_locals := (bd_locals b)[i := f (bd_locals b ! i)]\<rparr>"

definition update_safety :: "nat \<Rightarrow> (safety_fact \<Rightarrow> safety_fact) \<Rightarrow> body \<Rightarrow> body" where
  "update_safety i f = update_local i (\<lambda>l. l\<lparr>local_safety := f (local_safety l)\<rparr>)"

abbreviation local_at :: "body \<Rightarrow> nat \<Rightarrow> semantic_local" where
  "local_at b i \<equiv> bd_locals b ! i"

abbreviation safety_at :: "body \<Rightarrow> nat \<Rightarrow> safety_fact" where
  "safety_at b i \<equiv> local_safety (bd_locals b ! i)"

text \<open>\<open>__Vector_At__\<close> on the locals.\<close>

definition body_vector_at :: "body \<Rightarrow> size_t \<Rightarrow> nat option" where
  "body_vector_at b i = (if unat i < length (bd_locals b) then Some (unat i) else None)"

definition body_find_local :: "body \<Rightarrow> ast_lvalue \<Rightarrow> nat option" where
  "body_find_local b l =
     List.find (\<lambda>i. ast_base_identity_matches_lvalue (local_name (local_at b i)) (Some l))
       (rev [0..<length (bd_locals b)])"

text \<open>The position of a local, as the sources store it; a null local has none.\<close>

definition body_local_index :: "nat option \<Rightarrow> size_t" where
  "body_local_index l = (case l of None \<Rightarrow> SIZE_MAX | Some i \<Rightarrow> of_nat i)"

definition body_name_exists_in_current_scope :: "body \<Rightarrow> semantic_local \<Rightarrow> bool" where
  "body_name_exists_in_current_scope b candidate \<longleftrightarrow>
     list_ex (\<lambda>l. local_scope_depth l = bd_scope_depth b
                \<and> ast_base_identity_matches (local_name l) (local_name candidate)) (bd_locals b)"

section \<open>Synthetic types\<close>

text \<open>Types that live as long as the check; each node is an allocation.\<close>

definition body_synthetic_named_type :: "text_slice \<Rightarrow> ast_type option sem" where
  "body_synthetic_named_type name c =
     (case semantic_allocates c of
        (False, c1) \<Rightarrow> (c1, None)
      | (True, c1) \<Rightarrow> (case semantic_fresh c1 of (k, c2) \<Rightarrow> (c2, Some (Type_Named k name []))))"

definition body_synthetic_function_type :: "ast_function \<Rightarrow> ast_type option sem" where
  "body_synthetic_function_type f c =
     (case semantic_allocates c of
        (False, c1) \<Rightarrow> (c1, None)
      | (True, c1) \<Rightarrow>
          (case generic_array (function_parameters f) c1 of
             (c2, False) \<Rightarrow> (c2, None)
           | (c2, True) \<Rightarrow>
               (c2, Some (Type_Function (map (slot_type \<circ> parameter_slot) (function_parameters f))
                            (slot_type (function_output f))))))"

definition body_synthetic_reference_type :: "ast_type \<Rightarrow> bool \<Rightarrow> ast_type option sem" where
  "body_synthetic_reference_type inner mutable c =
     (case semantic_allocates c of
        (False, c1) \<Rightarrow> (c1, None)
      | (True, c1) \<Rightarrow>
          if mutable
          then (case semantic_allocates c1 of
                  (False, c2) \<Rightarrow> (c2, None)
                | (True, c2) \<Rightarrow> (c2, Some (Type_Reference (Type_Mutable (type_unwrap_mutable inner)))))
          else (c1, Some (Type_Reference (type_unwrap_mutable inner))))"

definition body_synthetic_result_type :: "ast_type \<Rightarrow> ast_type \<Rightarrow> ast_type option sem" where
  "body_synthetic_result_type ok er c =
     (case semantic_allocates c of
        (False, c1) \<Rightarrow> (c1, None)
      | (True, c1) \<Rightarrow> (c1, Some (Type_Result ok er)))"

section \<open>Tests of types\<close>

text \<open>The answer carries the sign.\<close>

definition integer_like :: "resolved_type option \<Rightarrow> bool option" where
  "integer_like x =
     (case map_option rt_kind x of
        Some RT_Signed_Integer \<Rightarrow> Some True
      | Some RT_Unsigned_Integer \<Rightarrow> Some False
      | Some RT_Character \<Rightarrow> Some False
      | _ \<Rightarrow> None)"

definition body_is_integer_like :: "nat \<Rightarrow> ast_type \<Rightarrow> bool option check" where
  "body_is_integer_like n t =
     check_then (on_semantic (type_resolve n t)) (\<lambda>x. accept (integer_like x))"

definition body_is_bool_convertible :: "nat \<Rightarrow> ast_type \<Rightarrow> bool check" where
  "body_is_bool_convertible n t =
     check_then (on_semantic (type_resolve n t)) (\<lambda>x.
       accept (case x of
                 None \<Rightarrow> False
               | Some r \<Rightarrow> rt_kind r \<in> {RT_Boolean, RT_Signed_Integer, RT_Unsigned_Integer, RT_Character, RT_Box}))"

definition safety_type_is_move_only :: "nat \<Rightarrow> ast_type \<Rightarrow> bool run" where
  "safety_type_is_move_only n t c =
     do {
       (c1, owned) \<leftarrow> memory_type_is_owned n t c;
       if owned \<or> safety_type_is_reference (Some t) = Some True then Some (c1, True)
       else if memory_type_is_view t then Some (c1, False)
       else memory_type_contains_view n t c1
     }"

definition body_check_compatible :: "nat \<Rightarrow> ast_type \<Rightarrow> ast_type \<Rightarrow> source_span \<Rightarrow> unit check" where
  "body_check_compatible n expected actual sp =
     check_then (on_semantic (type_conversion_is_safe n actual expected)) (\<lambda>safe.
       if safe then accept () else body_fail E0400_Mismatched_Types sp)"

section \<open>Literals and marks\<close>

definition semantic_integer_literal_atom_value :: "ast_atom \<Rightarrow> i64 option" where
  "semantic_integer_literal_atom_value a =
     (case a of
        Atom_Literal (Literal_Integer _ v _ wide) \<Rightarrow> if wide then None else Some v
      | _ \<Rightarrow> None)"

definition semantic_integer_literal_atom_is_unsigned_wide :: "ast_atom \<Rightarrow> bool" where
  "semantic_integer_literal_atom_is_unsigned_wide a =
     (case a of Atom_Literal (Literal_Integer _ _ _ wide) \<Rightarrow> wide | _ \<Rightarrow> False)"

fun semantic_integer_literal_expression_value :: "ast_expression \<Rightarrow> i64 option" where
  "semantic_integer_literal_expression_value (Expression_Atom _ a) = semantic_integer_literal_atom_value a"
| "semantic_integer_literal_expression_value (Expression_Unary _ Unary_Negate e) =
     (case semantic_integer_literal_expression_value e of
        None \<Rightarrow> None
      | Some v \<Rightarrow> if v = 0x8000000000000000 then None else Some (- v))"
| "semantic_integer_literal_expression_value _ = None"

definition semantic_integer_literal_expression_is_unsigned_wide :: "ast_expression \<Rightarrow> bool" where
  "semantic_integer_literal_expression_is_unsigned_wide e =
     (case e of Expression_Atom _ a \<Rightarrow> semantic_integer_literal_atom_is_unsigned_wide a | _ \<Rightarrow> False)"

primrec map_header :: "(ast_expression_header \<Rightarrow> ast_expression_header) \<Rightarrow> ast_expression \<Rightarrow> ast_expression" where
  "map_header f (Expression_Binary h op l r) = Expression_Binary (f h) op l r"
| "map_header f (Expression_Unary h op e) = Expression_Unary (f h) op e"
| "map_header f (Expression_Atom h a) = Expression_Atom (f h) a"
| "map_header f (Expression_Call h l args i) = Expression_Call (f h) l args i"
| "map_header f (Expression_Conversion h e t) = Expression_Conversion (f h) e t"

definition set_contextual_type :: "ast_type \<Rightarrow> ast_expression \<Rightarrow> ast_expression" where
  "set_contextual_type t = map_header (\<lambda>h. h\<lparr>expression_contextual_type := Some t\<rparr>)"

definition set_effects_applied :: "ast_expression \<Rightarrow> ast_expression" where
  "set_effects_applied = map_header (\<lambda>h. h\<lparr>expression_effects_applied := True\<rparr>)"

definition set_null_pointer :: "ast_expression \<Rightarrow> ast_expression" where
  "set_null_pointer = map_header (\<lambda>h. h\<lparr>expression_null_pointer := True\<rparr>)"

abbreviation expression_span_of :: "ast_expression \<Rightarrow> source_span" where
  "expression_span_of e \<equiv> expression_span (expression_header e)"

section \<open>Safety facts through branches\<close>

record body_local_state =
  state_safety :: safety_fact
  state_known_length :: "size_t option"

type_synonym body_snapshot = "body_local_state list"

definition local_state :: "semantic_local \<Rightarrow> body_local_state" where
  "local_state l = \<lparr>state_safety = local_safety l, state_known_length = local_known_length l\<rparr>"

definition set_local_state :: "body_local_state \<Rightarrow> semantic_local \<Rightarrow> semantic_local" where
  "set_local_state s l = l\<lparr>local_known_length := state_known_length s, local_safety := state_safety s\<rparr>"

definition body_safety_capture :: "body_snapshot check" where
  "body_safety_capture =
     with_body (\<lambda>b.
       if bd_locals b = [] then accept []
       else check_then (on_sem (\<lambda>c. prod.swap (semantic_allocates c))) (\<lambda>granted.
              if granted then accept (map local_state (bd_locals b))
              else body_fail E1100_Internal_Context_Error zero_span))"

definition body_safety_restore :: "body_snapshot \<Rightarrow> body \<Rightarrow> body" where
  "body_safety_restore snapshot b =
     b\<lparr>bd_locals := map2 set_local_state snapshot (bd_locals b) @ drop (length snapshot) (bd_locals b)\<rparr>"

definition merge_local_states :: "body_local_state \<Rightarrow> body_local_state \<Rightarrow> body_local_state" where
  "merge_local_states l r =
     \<lparr>state_safety = safety_fact_merge (Some (state_safety l)) (Some (state_safety r)),
      state_known_length =
        (if state_known_length l = state_known_length r then state_known_length l else None)\<rparr>"

definition body_safety_merge :: "body_snapshot \<Rightarrow> body_snapshot \<Rightarrow> body \<Rightarrow> body" where
  "body_safety_merge left right = body_safety_restore (map2 merge_local_states left right)"

end
