(* ===== verification/Body_Lvalue.thy ===== *)
theory Body_Lvalue
  imports Body
begin

text \<open>
  Places and moves: the type and the access rules of lvalues (\<open>body_lvalue_infer_lvalue.c\<close>,
  \<open>body_lvalue_check_assignable.c\<close>), the types of atoms (\<open>body_atom.c\<close>), and the moves of
  \<open>body_flow.c\<close>.

  Lvalues hold expressions as indexes. The routines take the inference of expressions as an argument,
  \<open>E\<close>, which gives the expression with its marks and its type; the knot is tied in the theory of
  expressions. \<open>n\<close> is the fuel of the resolution of types.
\<close>

type_synonym expression_inference = "ast_expression \<Rightarrow> (ast_expression \<times> ast_type) check"

section \<open>Reports\<close>

text \<open>The source may be absent.\<close>

definition body_report_borrow_conflict :: "nat option \<Rightarrow> source_span \<Rightarrow> 'a check" where
  "body_report_borrow_conflict source sp =
     with_body (\<lambda>b.
       body_report E1302_Borrow_Conflict sp
         ((case source of
             None \<Rightarrow> id
           | Some i \<Rightarrow>
               explain_span (fact_origin_span (safety_at b i)) Role_Original_Owner
               \<circ> explain_span (fact_active_borrow_span (safety_at b i)) Role_Mutable_Borrow_Start
               \<circ> explain_name (local_at b i))
          \<circ> explain_message Diag_Word_Borrow_Conflict_Causal Role_Conflicting_Borrow))"

definition body_report_lifetime_escape :: "nat option \<Rightarrow> source_span \<Rightarrow> 'a check" where
  "body_report_lifetime_escape source sp =
     with_body (\<lambda>b.
       body_report E1303_Reference_Escape sp
         (explain_help Diag_Word_Help_Return_Owned
          \<circ> (case Option.bind (fe_function (body_function b)) function_body of
               Some (Block body_span _) \<Rightarrow>
                 explain_span (Some \<lparr>span_start = span_end body_span, span_end = span_end body_span\<rparr>)
                   Role_Scope_End
             | None \<Rightarrow> id)
          \<circ> (case source of
               None \<Rightarrow> id
             | Some i \<Rightarrow>
                 (case local_name (local_at b i) of
                    Base_Identifier _ \<Rightarrow>
                      explain_span (Some (local_declaration_span (local_at b i))) Role_Local_Created
                      \<circ> explain_name (local_at b i)
                  | Base_Temporary _ \<Rightarrow> id))
          \<circ> explain_message Diag_Word_Lifetime_Escape_Causal Role_Reference_Escape))"

definition report_use_after_move :: "nat \<Rightarrow> source_span \<Rightarrow> 'a check" where
  "report_use_after_move i sp =
     with_body (\<lambda>b.
       let l = local_at b i; f = local_safety l
       in body_report E1301_Use_After_Move sp
            (explain_help Diag_Word_Help_Borrow_Instead
             \<circ> explain_trace Diag_Word_Trace_Value_Used (Some sp)
             \<circ> explain_trace Diag_Word_Trace_Value_Moved (fact_move_span f)
             \<circ> explain_span (fact_move_span f) Role_Move_Origin
             \<circ> explain_trace Diag_Word_Trace_Value_Created (fact_origin_span f)
             \<circ> explain_span (fact_origin_span f) Role_Original_Owner
             \<circ> explain_name l
             \<circ> explain_message Diag_Word_Use_After_Move_Causal Role_Invalid_Use))"

definition report_use_before_initialization :: "nat \<Rightarrow> source_span \<Rightarrow> 'a check" where
  "report_use_before_initialization i sp =
     with_body (\<lambda>b.
       let l = local_at b i
       in body_report E1300_Use_Before_Initialization sp
            (explain_span (Some (local_declaration_span l)) Role_Uninitialized_Declaration
             \<circ> (case local_name l of
                  Base_Identifier _ \<Rightarrow>
                    explain_name l \<circ> (\<lambda>d. diagnostic_set_message_key d Diag_Word_Use_Before_Init_Causal)
                | Base_Temporary _ \<Rightarrow> id)
             \<circ> (\<lambda>d. diagnostic_set_primary_role d Role_Invalid_Use)))"

text \<open>The valid indexes, as \<open>snprintf\<close> writes them: \<open>empty\<close>, or \<open>0..\<close> and the last index.\<close>

definition valid_range_text :: "size_t \<Rightarrow> bytes" where
  "valid_range_text known_length =
     (if known_length = 0 then [0x65, 0x6D, 0x70, 0x74, 0x79]
      else [0x30, 0x2E, 0x2E] @ decimal_digits (unat (known_length - 1)))"

definition report_bounds_violation :: "i64 \<Rightarrow> size_t option \<Rightarrow> source_span \<Rightarrow> 'a check" where
  "report_bounds_violation index known_length sp =
     body_report E1305_Bounds_Violation sp
       ((case known_length of
           None \<Rightarrow> id
         | Some len \<Rightarrow>
             explain_note Diag_Word_Note_Valid_Range
             \<circ> (\<lambda>d. snd (diagnostic_set_argument_cstr d Argument_Range (Some (valid_range_text len))))
             \<circ> (\<lambda>d. snd (diagnostic_set_argument_u64 d Argument_Length len))
             \<circ> (\<lambda>d. diagnostic_set_message_key d Diag_Word_Bounds_Known))
        \<circ> (\<lambda>d. snd (diagnostic_set_argument_u64 d Argument_Index (if sint index < 0 then 0 else index)))
        \<circ> (\<lambda>d. diagnostic_set_primary_role d Role_Index_Value))"

section \<open>Lvalues\<close>

definition body_check_local_read :: "nat \<Rightarrow> source_span \<Rightarrow> unit check" where
  "body_check_local_read i sp =
     with_body (\<lambda>b.
       case fact_state (safety_at b i) of
         Value_Initialized \<Rightarrow>
           if safety_fact_can_read (Some (safety_at b i)) then accept ()
           else body_report_borrow_conflict (Some i) sp
       | Value_Moved \<Rightarrow> report_use_after_move i sp
       | Value_Maybe_Moved \<Rightarrow> report_use_after_move i sp
       | Value_Uninitialized \<Rightarrow> report_use_before_initialization i sp
       | Value_Maybe_Uninitialized \<Rightarrow> report_use_before_initialization i sp)"

text \<open>A base that is no local: a function, then a module-level value.\<close>

definition infer_global_base :: "bool \<Rightarrow> source_span \<Rightarrow> text_slice \<Rightarrow> ast_type check" where
  "infer_global_base require_read sp name =
     with_body (\<lambda>b.
       let c = bd_semantic b
       in case name_resolve_global c (body_unit b) name of
            (Lookup_Found, Some g) \<Rightarrow>
              (case ge_declaration (sc_globals c ! g) of
                 None \<Rightarrow> body_fail E0300_Unknown_Name sp
               | Some d \<Rightarrow>
                   if \<not> require_read \<and> (case global_type d of Type_Mutable _ \<Rightarrow> False | _ \<Rightarrow> True)
                   then body_fail E0703_Write_To_Immutable sp
                   else accept (type_unwrap_mutable (global_type d)))
          | (status, _) \<Rightarrow>
              if status = Lookup_Private \<or> status = Lookup_Ambiguous
              then body_fail (name_lookup_error_id status) sp
              else body_fail E0300_Unknown_Name sp)"

definition infer_outer_base :: "bool \<Rightarrow> source_span \<Rightarrow> ast_lvalue_base \<Rightarrow> ast_type check" where
  "infer_outer_base require_read sp base =
     (case base of
        Base_Temporary _ \<Rightarrow> body_fail E0300_Unknown_Name sp
      | Base_Identifier name \<Rightarrow>
          with_body (\<lambda>b.
            let c = bd_semantic b
            in case name_resolve_function c (body_unit b) name of
                 (Lookup_Found, Some f) \<Rightarrow>
                   if fe_is_generic_template (sc_functions c ! f) then infer_global_base require_read sp name
                   else (case fe_callable_type (sc_functions c ! f) of
                           None \<Rightarrow> body_fail E1100_Internal_Context_Error sp
                         | Some t \<Rightarrow> accept t)
               | _ \<Rightarrow> infer_global_base require_read sp name))"

text \<open>The known index of a vector or text, checked against the known length of a local.\<close>

definition check_known_index :: "ast_lvalue \<Rightarrow> ast_expression \<Rightarrow> source_span \<Rightarrow> unit check" where
  "check_known_index parent index sp =
     (case semantic_integer_literal_expression_value index of
        None \<Rightarrow> accept ()
      | Some v \<Rightarrow>
          with_body (\<lambda>b.
            let known_length = Option.bind (body_find_local b parent) (\<lambda>i. local_known_length (local_at b i))
            in if sint v < 0 \<or> (case known_length of None \<Rightarrow> False | Some len \<Rightarrow> v \<ge> len)
               then report_bounds_violation v known_length sp
               else accept ()))"

definition check_index_base :: "bool \<Rightarrow> source_span \<Rightarrow> resolved_type \<Rightarrow> ast_type check" where
  "check_index_base require_read sp r =
     with_body (\<lambda>b.
       if rt_kind r = RT_Pointer \<and> bd_unsafe_depth b = 0 then body_fail E0400_Mismatched_Types sp
       else if rt_kind r \<notin> {RT_Vector, RT_String, RT_Box, RT_Pointer} then body_fail E0400_Mismatched_Types sp
       else if rt_kind r = RT_String then
         (if \<not> require_read then body_fail E0703_Write_To_Immutable sp else accept (Type_Machine Machine_U8))
       else known (rt_inner r))"

text \<open>The lvalue with the marks of its indexes, its type, and the local of a base.\<close>

fun body_infer_lvalue_access ::
    "expression_inference \<Rightarrow> nat \<Rightarrow> bool \<Rightarrow> ast_lvalue \<Rightarrow> (ast_lvalue \<times> ast_type \<times> nat option) check" where
  "body_infer_lvalue_access E n require_read (Lvalue_Base sp base) =
     with_body (\<lambda>b.
       case body_find_local b (Lvalue_Base sp base) of
         None \<Rightarrow>
           check_then (infer_outer_base require_read sp base) (\<lambda>t. accept (Lvalue_Base sp base, t, None))
       | Some i \<Rightarrow>
           (case local_type (local_at b i) of
              None \<Rightarrow> body_fail E0409_Unresolved_Type sp
            | Some t \<Rightarrow>
                check_then (if require_read then body_check_local_read i sp else accept ()) (\<lambda>_.
                  accept (Lvalue_Base sp base, t, Some i))))"
| "body_infer_lvalue_access E n require_read (Lvalue_Field sp parent field) =
     check_then (body_infer_lvalue_access E n require_read parent) (\<lambda>(parent, t, _).
     check_then (demand (type_resolve n t)) (\<lambda>r.
       if rt_kind r \<noteq> RT_Struct \<or> rt_named r = None then body_fail E0502_Unknown_Record_Member sp
       else check_then (on_semantic (layout_struct_field n (rt_named r) field)) (\<lambda>x.
              case x of
                None \<Rightarrow> body_fail E0502_Unknown_Record_Member sp
              | Some (offset, field_type) \<Rightarrow> accept (Lvalue_Field sp parent field, field_type, None))))"
| "body_infer_lvalue_access E n require_read (Lvalue_Index sp parent index) =
     check_then (body_infer_lvalue_access E n require_read parent) (\<lambda>(parent, t, _).
     check_then (E index) (\<lambda>(index, index_type).
     check_then (body_is_integer_like n index_type) (\<lambda>sign.
       if sign = None then body_fail E0400_Mismatched_Types sp
       else check_then (demand (type_resolve n t)) (\<lambda>r.
            check_then (if rt_kind r \<in> {RT_Vector, RT_String} then check_known_index parent index sp
                        else accept ()) (\<lambda>_.
            check_then (check_index_base require_read sp r) (\<lambda>element.
              accept (Lvalue_Index sp parent index, element, None)))))))"
| "body_infer_lvalue_access E n require_read (Lvalue_Dereference sp parent) =
     check_then (body_infer_lvalue_access E n True parent) (\<lambda>(parent, t, _).
     check_then (demand (type_resolve n t)) (\<lambda>r.
       if rt_kind r \<noteq> RT_Reference \<and> rt_kind r \<noteq> RT_Box then body_fail E0612_Dereference_Non_Pointer sp
       else if \<not> require_read \<and> rt_kind r = RT_Reference \<and> \<not> rt_reference_mutable r
       then body_fail E0703_Write_To_Immutable sp
       else check_then (known (rt_inner r)) (\<lambda>inner. accept (Lvalue_Dereference sp parent, inner, None))))"

definition body_infer_lvalue ::
    "expression_inference \<Rightarrow> nat \<Rightarrow> ast_lvalue \<Rightarrow> (ast_lvalue \<times> ast_type \<times> nat option) check" where
  "body_infer_lvalue E n = body_infer_lvalue_access E n True"

definition body_infer_lvalue_for_write ::
    "expression_inference \<Rightarrow> nat \<Rightarrow> ast_lvalue \<Rightarrow> (ast_lvalue \<times> ast_type \<times> nat option) check" where
  "body_infer_lvalue_for_write E n = body_infer_lvalue_access E n False"

definition body_check_assignable ::
    "expression_inference \<Rightarrow> nat \<Rightarrow> ast_lvalue \<Rightarrow> (ast_lvalue \<times> ast_type \<times> nat option) check" where
  "body_check_assignable E n lvalue =
     check_then (body_infer_lvalue_for_write E n lvalue) (\<lambda>(l, t, i).
       case l of
         Lvalue_Base sp base \<Rightarrow>
           with_body (\<lambda>b.
             case i of
               None \<Rightarrow>
                 (case base of
                    Base_Temporary _ \<Rightarrow> refuse
                  | Base_Identifier name \<Rightarrow>
                      (case name_resolve_global (bd_semantic b) (body_unit b) name of
                         (Lookup_Found, Some _) \<Rightarrow> accept (l, t, None)
                       | _ \<Rightarrow> refuse))
             | Some i \<Rightarrow>
                 if \<not> local_mutable (local_at b i) \<and> fact_state (safety_at b i) = Value_Initialized
                 then body_fail E0703_Write_To_Immutable sp
                 else if \<not> safety_fact_can_write (Some (safety_at b i))
                 then body_fail E1302_Borrow_Conflict sp
                 else accept (l, t, Some i))
       | _ \<Rightarrow> accept (l, t, i))"

section \<open>Atoms\<close>

definition infer_literal :: "ast_literal \<Rightarrow> ast_type check" where
  "infer_literal l =
     (case l of
        Literal_Boolean _ _ \<Rightarrow> accept Type_Boolean
      | Literal_Integer _ _ _ _ \<Rightarrow> accept Type_Integer
      | Literal_Character _ _ \<Rightarrow> accept Type_Character
      | Literal_String _ _ \<Rightarrow> accept Type_String
      | Literal_Undefined sp \<Rightarrow> body_fail E0600_Undefined_Literal_In_Lowering sp)"

definition body_infer_atom :: "expression_inference \<Rightarrow> nat \<Rightarrow> ast_atom \<Rightarrow> (ast_atom \<times> ast_type) check" where
  "body_infer_atom E n a =
     (case a of
        Atom_Lvalue l \<Rightarrow> check_then (body_infer_lvalue E n l) (\<lambda>(l, t, _). accept (Atom_Lvalue l, t))
      | Atom_Literal l \<Rightarrow> check_then (infer_literal l) (\<lambda>t. accept (Atom_Literal l, t)))"

definition body_check_atom_compatible ::
    "expression_inference \<Rightarrow> nat \<Rightarrow> ast_type \<Rightarrow> ast_atom \<Rightarrow> source_span \<Rightarrow> ast_atom check" where
  "body_check_atom_compatible E n expected a sp =
     check_then
       (case semantic_integer_literal_atom_value a of
          None \<Rightarrow> accept False
        | Some v \<Rightarrow> on_semantic (type_integer_literal_fits n v expected)) (\<lambda>fits.
       if fits then accept a
       else if semantic_integer_literal_atom_is_unsigned_wide a then
         check_then (on_semantic (type_unsigned_wide_literal_fits n expected)) (\<lambda>wide.
           if wide then accept a else body_fail E0400_Mismatched_Types sp)
       else check_then (body_infer_atom E n a) (\<lambda>(a, actual).
            check_then (body_check_compatible n expected actual sp) (\<lambda>_. accept a)))"

section \<open>Moves\<close>

text \<open>The local an atom names, when it is a whole local.\<close>

definition atom_local :: "body \<Rightarrow> ast_atom \<Rightarrow> nat option" where
  "atom_local b a =
     (case a of
        Atom_Lvalue (Lvalue_Base sp base) \<Rightarrow> body_find_local b (Lvalue_Base sp base)
      | _ \<Rightarrow> None)"

definition expression_local :: "body \<Rightarrow> ast_expression \<Rightarrow> nat option" where
  "expression_local b e = (case e of Expression_Atom _ a \<Rightarrow> atom_local b a | _ \<Rightarrow> None)"

definition type_is_move_only :: "nat \<Rightarrow> ast_type option \<Rightarrow> bool check" where
  "type_is_move_only n t =
     (case t of None \<Rightarrow> accept False | Some t \<Rightarrow> on_semantic (safety_type_is_move_only n t))"

definition body_move_local :: "nat \<Rightarrow> source_span \<Rightarrow> unit check" where
  "body_move_local i sp =
     with_body (\<lambda>b.
       let f = safety_at b i
       in if \<not> safety_fact_can_move (Some f) then
            (if fact_mutable_borrow f \<or> fact_immutable_borrows f \<noteq> 0
             then body_report_borrow_conflict (Some i) sp
             else body_fail E1301_Use_After_Move sp)
          else change_body (update_safety i (\<lambda>f. the (safety_fact_mark_moved_at (Some f) sp))))"

definition body_safety_move_atom ::
    "expression_inference \<Rightarrow> nat \<Rightarrow> ast_atom \<Rightarrow> source_span \<Rightarrow> ast_atom check" where
  "body_safety_move_atom E n a sp =
     (case a of
        Atom_Literal _ \<Rightarrow> accept a
      | Atom_Lvalue (Lvalue_Base _ _) \<Rightarrow>
          with_body (\<lambda>b.
            case atom_local b a of
              None \<Rightarrow> accept a
            | Some i \<Rightarrow>
                check_then (type_is_move_only n (local_type (local_at b i))) (\<lambda>move.
                  if \<not> move then accept a
                  else check_then (body_move_local i sp) (\<lambda>_. accept a)))
      | Atom_Lvalue l \<Rightarrow>
          check_then (body_infer_lvalue E n l) (\<lambda>(l, t, _).
          check_then (on_semantic (safety_type_is_move_only n t)) (\<lambda>move.
            if move then body_fail E1312_Partial_Owned_Move sp else accept (Atom_Lvalue l))))"

definition body_safety_move_expression ::
    "expression_inference \<Rightarrow> nat \<Rightarrow> ast_expression \<Rightarrow> nat option \<Rightarrow> ast_expression check" where
  "body_safety_move_expression E n e destination =
     (case e of
        Expression_Atom h a \<Rightarrow>
          (case a of
             Atom_Literal _ \<Rightarrow> accept e
           | Atom_Lvalue (Lvalue_Base _ _) \<Rightarrow>
               with_body (\<lambda>b.
                 case atom_local b a of
                   None \<Rightarrow> accept e
                 | Some i \<Rightarrow>
                     if Some i = destination then accept e
                     else check_then (type_is_move_only n (local_type (local_at b i))) (\<lambda>move.
                            if \<not> move then accept e
                            else check_then (body_safety_move_atom E n a (expression_span h)) (\<lambda>a.
                                   accept (Expression_Atom h a))))
           | Atom_Lvalue _ \<Rightarrow>
               check_then (body_safety_move_atom E n a (expression_span h)) (\<lambda>a. accept (Expression_Atom h a)))
      | _ \<Rightarrow> accept e)"

end
