(* ===== verification/Body_Borrow.thy ===== *)
theory Body_Borrow
  imports Body_Lvalue
begin

text \<open>
  Loans between locals (\<open>body_borrow.c\<close>) and the dependencies of values that contain references
  (\<open>body_composite_safety.c\<close>): a local that borrows records its owner and the kind of the loan, the
  owner counts its readers or its writer, and a loan ends with the scope of the borrower.
\<close>

section \<open>Loans\<close>

fun body_root_lvalue :: "ast_lvalue \<Rightarrow> ast_lvalue" where
  "body_root_lvalue (Lvalue_Base sp base) = Lvalue_Base sp base"
| "body_root_lvalue (Lvalue_Field _ parent _) = body_root_lvalue parent"
| "body_root_lvalue (Lvalue_Index _ parent _) = body_root_lvalue parent"
| "body_root_lvalue (Lvalue_Dereference _ parent) = body_root_lvalue parent"

text \<open>The local whose address is taken, and whether for writing.\<close>

fun body_borrow_source :: "body \<Rightarrow> ast_expression \<Rightarrow> (nat \<times> bool) option" where
  "body_borrow_source b (Expression_Unary _ Unary_Address (Expression_Atom _ (Atom_Lvalue l))) =
     map_option (\<lambda>i. (i, False)) (body_find_local b (body_root_lvalue l))"
| "body_borrow_source b (Expression_Unary _ Unary_Address_Mutable (Expression_Atom _ (Atom_Lvalue l))) =
     map_option (\<lambda>i. (i, True)) (body_find_local b (body_root_lvalue l))"
| "body_borrow_source b _ = None"

fun body_borrow_mutable_path_is_writable ::
    "expression_inference \<Rightarrow> nat \<Rightarrow> ast_expression \<Rightarrow> ast_expression check" where
  "body_borrow_mutable_path_is_writable E n (Expression_Unary h Unary_Address_Mutable operand) =
     (case operand of
        Expression_Atom g (Atom_Lvalue l) \<Rightarrow>
          check_then (body_infer_lvalue_for_write E n l) (\<lambda>(l, _, _).
            accept (Expression_Unary h Unary_Address_Mutable (Expression_Atom g (Atom_Lvalue l))))
      | _ \<Rightarrow> refuse)"
| "body_borrow_mutable_path_is_writable E n e = accept e"

definition loan_kind :: "bool \<Rightarrow> safety_borrow_kind" where
  "loan_kind mutable = (if mutable then Borrow_Mutable else Borrow_Shared)"

definition end_loan :: "safety_borrow_kind \<Rightarrow> safety_fact \<Rightarrow> safety_fact" where
  "end_loan kind f = the (safety_fact_release_borrow (Some f) kind)"

definition forget_loan :: "safety_fact \<Rightarrow> safety_fact" where
  "forget_loan f =
     f\<lparr>fact_borrowed_from := SIZE_MAX, fact_borrow_kind := Borrow_None, fact_lifetime_region := SIZE_MAX,
       fact_origin_parameter := SIZE_MAX\<rparr>"

definition body_safety_release_local_borrow :: "nat \<Rightarrow> body \<Rightarrow> body" where
  "body_safety_release_local_borrow i b =
     (let f = safety_at b i
      in if fact_borrow_kind f = Borrow_None \<or> fact_borrowed_from f = SIZE_MAX then b
         else (let b1 = (case body_vector_at b (fact_borrowed_from f) of
                           None \<Rightarrow> b
                         | Some owner \<Rightarrow> update_safety owner (end_loan (fact_borrow_kind f)) b)
               in update_safety i forget_loan b1))"

text \<open>The loans of the locals above a count, the newest first.\<close>

definition body_safety_release_scope :: "nat \<Rightarrow> body \<Rightarrow> body" where
  "body_safety_release_scope saved b =
     fold body_safety_release_local_borrow (rev [saved..<length (bd_locals b)]) b"

definition acquire_fact :: "bool \<Rightarrow> source_span \<Rightarrow> size_t \<Rightarrow> safety_fact \<Rightarrow> safety_fact option" where
  "acquire_fact mutable sp holder f =
     (if mutable then safety_fact_acquire_mutable_at (Some f) sp holder
      else safety_fact_acquire_shared_at (Some f) sp)"

definition body_acquire_source :: "nat \<Rightarrow> bool \<Rightarrow> source_span \<Rightarrow> nat option \<Rightarrow> unit check" where
  "body_acquire_source source mutable sp destination =
     with_body (\<lambda>b.
       case acquire_fact mutable sp (body_local_index destination) (safety_at b source) of
         None \<Rightarrow> body_report_borrow_conflict (Some source) sp
       | Some f \<Rightarrow> change_body (update_safety source (\<lambda>_. f)))"

definition body_safety_acquire_borrow ::
    "expression_inference \<Rightarrow> nat \<Rightarrow> ast_expression \<Rightarrow> nat option \<Rightarrow> ast_expression check" where
  "body_safety_acquire_borrow E n e destination =
     with_body (\<lambda>b.
       case body_borrow_source b e of
         None \<Rightarrow> refuse
       | Some (source, mutable) \<Rightarrow>
           check_then (if mutable then body_borrow_mutable_path_is_writable E n e else accept e) (\<lambda>e.
           check_then (body_acquire_source source mutable (expression_span_of e) destination) (\<lambda>_.
             case destination of
               None \<Rightarrow>
                 check_then (change_body (update_safety source (end_loan (loan_kind mutable)))) (\<lambda>_. accept e)
             | Some d \<Rightarrow>
                 with_body (\<lambda>b.
                   if local_scope_depth (local_at b d) < local_scope_depth (local_at b source)
                   then check_then (change_body (update_safety source (end_loan (loan_kind mutable)))) (\<lambda>_.
                          body_report_lifetime_escape (Some source) (expression_span_of e))
                   else check_then
                          (change_body (update_safety d (\<lambda>f.
                             f\<lparr>fact_borrowed_from := of_nat source, fact_borrow_kind := loan_kind mutable,
                               fact_lifetime_region := local_scope_depth (local_at b source),
                               fact_origin_parameter := SIZE_MAX\<rparr>))) (\<lambda>_. accept e)))))"

section \<open>Copies of references\<close>

text \<open>The loan of one fact taken over by another.\<close>

definition take_loan :: "safety_fact \<Rightarrow> safety_fact \<Rightarrow> safety_fact" where
  "take_loan f g =
     g\<lparr>fact_borrowed_from := fact_borrowed_from f, fact_borrow_kind := fact_borrow_kind f,
       fact_lifetime_region := fact_lifetime_region f, fact_origin_parameter := fact_origin_parameter f\<rparr>"

definition set_owner_holder :: "size_t \<Rightarrow> nat \<Rightarrow> body \<Rightarrow> body" where
  "set_owner_holder owner destination b =
     (case body_vector_at b owner of
        None \<Rightarrow> b
      | Some i \<Rightarrow>
          update_safety i (\<lambda>f. the (safety_fact_set_mutable_borrow_holder (Some f) (of_nat destination))) b)"

definition body_move_reference :: "nat \<Rightarrow> nat \<Rightarrow> source_span \<Rightarrow> unit check" where
  "body_move_reference source destination sp =
     with_body (\<lambda>b.
       let f = safety_at b source
       in if \<not> safety_fact_can_move (Some f) then body_fail E1302_Borrow_Conflict sp
          else change_body
            ((\<lambda>b. if fact_borrowed_from f \<noteq> SIZE_MAX then set_owner_holder (fact_borrowed_from f) destination b
                  else b)
             \<circ> update_safety destination (take_loan f)
             \<circ> update_safety source (\<lambda>f. (the (safety_fact_mark_moved_at (Some f) sp))
                 \<lparr>fact_borrowed_from := SIZE_MAX, fact_borrow_kind := Borrow_None\<rparr>)))"

definition body_share_reference :: "nat \<Rightarrow> nat \<Rightarrow> source_span \<Rightarrow> unit check" where
  "body_share_reference source destination sp =
     check_then
       (with_body (\<lambda>b.
          if fact_borrowed_from (safety_at b source) = SIZE_MAX then accept ()
          else (case body_vector_at b (fact_borrowed_from (safety_at b source)) of
                  None \<Rightarrow> body_fail E1302_Borrow_Conflict sp
                | Some owner \<Rightarrow>
                    (case safety_fact_acquire_shared_at (Some (safety_at b owner)) sp of
                       None \<Rightarrow> body_fail E1302_Borrow_Conflict sp
                     | Some f \<Rightarrow> change_body (update_safety owner (\<lambda>_. f)))))) (\<lambda>_.
       with_body (\<lambda>b.
         change_body (update_safety destination
           (take_loan ((safety_at b source)\<lparr>fact_borrow_kind := Borrow_Shared\<rparr>)))))"

definition body_safety_copy_reference :: "nat \<Rightarrow> nat \<Rightarrow> source_span \<Rightarrow> unit check" where
  "body_safety_copy_reference source destination sp =
     with_body (\<lambda>b.
       case safety_type_is_reference (local_type (local_at b source)) of
         None \<Rightarrow> refuse
       | Some True \<Rightarrow> body_move_reference source destination sp
       | Some False \<Rightarrow> body_share_reference source destination sp)"

section \<open>Calls that return an argument\<close>

text \<open>
  The argument a call hands through, by the parameter recorded at the callee. The callee is looked up
  from the active unit; \<open>field\<close> is the parameter of references or of composite views.
\<close>

definition returned_argument ::
    "(semantic_function_entry \<Rightarrow> size_t) \<Rightarrow> body \<Rightarrow> ast_expression \<Rightarrow> nat option" where
  "returned_argument field b e =
     (case e of
        Expression_Call _ (Lvalue_Base sp (Base_Identifier name)) args _ \<Rightarrow>
          if body_find_local b (Lvalue_Base sp (Base_Identifier name)) \<noteq> None then None
          else (case name_find_function (bd_semantic b) name of
                  None \<Rightarrow> None
                | Some f \<Rightarrow>
                    (let p = field (sc_functions (bd_semantic b) ! f)
                     in if p = SIZE_MAX \<or> unat p \<ge> length args then None else Some (unat p)))
      | _ \<Rightarrow> None)"

definition body_reference_call_source :: "body \<Rightarrow> ast_expression \<Rightarrow> nat option" where
  "body_reference_call_source = returned_argument fe_reference_return_parameter"

definition body_composite_call_provenance_source :: "body \<Rightarrow> ast_expression \<Rightarrow> nat option" where
  "body_composite_call_provenance_source = returned_argument fe_composite_view_return_parameter"

text \<open>The expression at an argument position, the whole expression when there is none.\<close>

definition source_argument :: "nat option \<Rightarrow> ast_expression \<Rightarrow> ast_expression" where
  "source_argument p e =
     (case (p, e) of
        (Some i, Expression_Call _ _ args _) \<Rightarrow> args ! i
      | _ \<Rightarrow> e)"

definition put_argument :: "nat option \<Rightarrow> ast_expression \<Rightarrow> ast_expression \<Rightarrow> ast_expression" where
  "put_argument p a e =
     (case (p, e) of
        (Some i, Expression_Call h l args index) \<Rightarrow> Expression_Call h l (args[i := a]) index
      | _ \<Rightarrow> a)"

definition is_call :: "ast_expression \<Rightarrow> bool" where
  "is_call e = (case e of Expression_Call _ _ _ _ \<Rightarrow> True | _ \<Rightarrow> False)"

section \<open>Values that contain references\<close>

definition body_local_has_view_dependency :: "body \<Rightarrow> nat option \<Rightarrow> bool" where
  "body_local_has_view_dependency b l \<longleftrightarrow>
     (case l of
        None \<Rightarrow> False
      | Some i \<Rightarrow>
          (let f = safety_at b i
           in fact_borrowed_from f \<noteq> SIZE_MAX \<or> fact_borrow_kind f \<noteq> Borrow_None
              \<or> fact_lifetime_region f \<noteq> SIZE_MAX))"

text \<open>The owner of a dependency; sharing it is one more reader.\<close>

definition body_depend_on_owner :: "nat \<Rightarrow> source_span \<Rightarrow> bool \<Rightarrow> unit check" where
  "body_depend_on_owner source sp move =
     with_body (\<lambda>b.
       let f = safety_at b source
       in if fact_borrowed_from f = SIZE_MAX then accept ()
          else (case body_vector_at b (fact_borrowed_from f) of
                  None \<Rightarrow> body_fail E1100_Internal_Context_Error sp
                | Some owner \<Rightarrow>
                    if move then accept ()
                    else if fact_borrow_kind f \<noteq> Borrow_Shared then body_report_borrow_conflict (Some owner) sp
                    else (case safety_fact_acquire_shared_at (Some (safety_at b owner)) sp of
                            None \<Rightarrow> body_report_borrow_conflict (Some owner) sp
                          | Some g \<Rightarrow> change_body (update_safety owner (\<lambda>_. g)))))"

definition body_safety_transfer_local_dependency ::
    "nat option \<Rightarrow> nat option \<Rightarrow> source_span \<Rightarrow> bool \<Rightarrow> unit check" where
  "body_safety_transfer_local_dependency source destination sp move =
     with_body (\<lambda>b.
       case (source, destination) of
         (Some s, Some d) \<Rightarrow>
           if \<not> body_local_has_view_dependency b source then accept ()
           else if body_local_has_view_dependency b destination then body_fail E1303_Reference_Escape sp
           else (let region = fact_lifetime_region (safety_at b s)
                 in if region \<noteq> SIZE_MAX \<and> region \<noteq> 0 \<and> local_scope_depth (local_at b d) < region
                    then body_report_lifetime_escape source sp
                    else check_then (body_depend_on_owner s sp move) (\<lambda>_.
                         with_body (\<lambda>b.
                           let f = safety_at b s
                           in change_body
                             ((\<lambda>b. if move then update_safety s forget_loan b else b)
                              \<circ> (\<lambda>b. if move \<and> fact_borrow_kind f = Borrow_Mutable
                                        \<and> fact_borrowed_from f \<noteq> SIZE_MAX
                                     then set_owner_holder (fact_borrowed_from f) d b else b)
                              \<circ> update_safety d (take_loan f)))))
       | _ \<Rightarrow> accept ())"

definition body_safety_consume_contained_atom ::
    "expression_inference \<Rightarrow> nat \<Rightarrow> ast_type \<Rightarrow> ast_atom \<Rightarrow> nat option \<Rightarrow> source_span \<Rightarrow> ast_atom check" where
  "body_safety_consume_contained_atom E n expected a destination sp =
     with_body (\<lambda>b.
       let source = atom_local b a
       in check_then (on_semantic (safety_type_is_move_only n expected)) (\<lambda>move.
          if body_local_has_view_dependency b source
          then check_then (if move then body_safety_move_atom E n a sp else accept a) (\<lambda>a.
               check_then (body_safety_transfer_local_dependency source destination sp move) (\<lambda>_. accept a))
          else if move then body_safety_move_atom E n a sp else accept a))"

text \<open>The arguments of a constructor: at most one may carry a dependency.\<close>

primrec body_transfer_arguments ::
    "source_span \<Rightarrow> nat \<Rightarrow> ast_expression list \<Rightarrow> bool \<Rightarrow> bool check" where
  "body_transfer_arguments sp d [] found = accept found"
| "body_transfer_arguments sp d (a # as) found =
     with_body (\<lambda>b.
       let source = expression_local b a
       in if \<not> body_local_has_view_dependency b source then body_transfer_arguments sp d as found
          else if found then body_fail E1303_Reference_Escape sp
          else check_then
                 (body_safety_transfer_local_dependency source (Some d) sp
                    (fact_state (safety_at b (the source)) = Value_Moved)) (\<lambda>_.
                 body_transfer_arguments sp d as True))"

definition body_transfer_constructor :: "nat \<Rightarrow> nat \<Rightarrow> ast_type \<Rightarrow> ast_expression list \<Rightarrow> source_span \<Rightarrow> unit check" where
  "body_transfer_constructor n d t args sp =
     (if args = [] then accept ()
      else check_then (body_transfer_arguments sp d args False) (\<lambda>found.
             if found then accept ()
             else check_then (on_semantic (memory_type_contains_view n t)) (\<lambda>view.
                    if view then body_fail E1303_Reference_Escape sp else accept ())))"

definition body_transfer_view ::
    "expression_inference \<Rightarrow> nat \<Rightarrow> ast_expression \<Rightarrow> nat option \<Rightarrow> nat \<Rightarrow> ast_expression check" where
  "body_transfer_view E n e p d =
     with_body (\<lambda>b.
       let source_e = source_argument p e; source = expression_local b source_e; sp = expression_span_of e
       in if \<not> body_local_has_view_dependency b source then body_fail E1303_Reference_Escape sp
          else check_then (type_is_move_only n (local_type (local_at b (the source)))) (\<lambda>move.
               check_then
                 (with_body (\<lambda>b.
                    if move \<and> fact_state (safety_at b (the source)) \<noteq> Value_Moved
                    then body_safety_move_expression E n source_e None else accept source_e)) (\<lambda>source_e.
               check_then (body_safety_transfer_local_dependency source (Some d) sp move) (\<lambda>_.
                 accept (put_argument p source_e e)))))"

text \<open>The answer tells whether the destination holds references.\<close>

definition body_safety_transfer_composite_expression ::
    "expression_inference \<Rightarrow> nat \<Rightarrow> ast_expression \<Rightarrow> nat \<Rightarrow> (ast_expression \<times> bool) check" where
  "body_safety_transfer_composite_expression E n e d =
     with_body (\<lambda>b.
       case local_type (local_at b d) of
         None \<Rightarrow> accept (e, False)
       | Some t \<Rightarrow>
           if memory_type_is_view t then accept (e, False)
           else check_then (on_semantic (memory_type_contains_view n t)) (\<lambda>view.
             if \<not> view then accept (e, False)
             else (case e of
                     Expression_Call _ (Lvalue_Field _ _ _) args _ \<Rightarrow>
                       check_then (body_transfer_constructor n d t args (expression_span_of e)) (\<lambda>_.
                         accept (e, True))
                   | Expression_Call _ _ _ _ \<Rightarrow>
                       with_body (\<lambda>b.
                         case body_composite_call_provenance_source b e of
                           None \<Rightarrow> body_fail E1303_Reference_Escape (expression_span_of e)
                         | Some p \<Rightarrow>
                             check_then (body_transfer_view E n e (Some p) d) (\<lambda>e. accept (e, True)))
                   | _ \<Rightarrow> check_then (body_transfer_view E n e None d) (\<lambda>e. accept (e, True)))))"

section \<open>Assignments, arguments and returns\<close>

text \<open>The part for destinations that are references; \<open>None\<close> when the value is moved like any other.\<close>

definition body_transfer_reference ::
    "expression_inference \<Rightarrow> nat \<Rightarrow> ast_expression \<Rightarrow> nat \<Rightarrow> ast_expression option check" where
  "body_transfer_reference E n e d =
     with_body (\<lambda>b.
       let p = body_reference_call_source b e; source_e = source_argument p e
       in if p = None \<and> is_call e then body_fail E1303_Reference_Escape (expression_span_of e)
          else check_then (change_body (body_safety_release_local_borrow d)) (\<lambda>_.
               with_body (\<lambda>b.
                 if body_borrow_source b source_e \<noteq> None
                 then check_then (body_safety_acquire_borrow E n source_e (Some d)) (\<lambda>a.
                        accept (Some (put_argument p a e)))
                 else (case expression_local b source_e of
                         Some s \<Rightarrow>
                           if safety_type_is_reference (local_type (local_at b s)) \<noteq> None
                           then check_then (body_safety_copy_reference s d (expression_span_of source_e)) (\<lambda>_.
                                  accept (Some e))
                           else accept None
                       | None \<Rightarrow> accept None))))"

definition body_safety_transfer_expression ::
    "expression_inference \<Rightarrow> nat \<Rightarrow> ast_expression \<Rightarrow> nat option \<Rightarrow> ast_expression check" where
  "body_safety_transfer_expression E n e destination =
     (case destination of
        None \<Rightarrow> body_safety_move_expression E n e None
      | Some d \<Rightarrow>
          check_then
            (with_body (\<lambda>b.
               if safety_type_is_reference (local_type (local_at b d)) \<noteq> None
               then body_transfer_reference E n e d else accept None)) (\<lambda>done_e.
            case done_e of
              Some e \<Rightarrow> accept e
            | None \<Rightarrow>
                check_then (body_safety_transfer_composite_expression E n e d) (\<lambda>(e, matched).
                  if matched then accept e else body_safety_move_expression E n e (Some d))))"

definition body_safety_check_ephemeral_borrow ::
    "expression_inference \<Rightarrow> nat \<Rightarrow> ast_expression \<Rightarrow> ast_expression check" where
  "body_safety_check_ephemeral_borrow E n e =
     with_body (\<lambda>b.
       case body_borrow_source b e of
         None \<Rightarrow> accept e
       | Some (source, mutable) \<Rightarrow>
           check_then (if mutable then body_borrow_mutable_path_is_writable E n e else accept e) (\<lambda>e.
           check_then (body_acquire_source source mutable (expression_span_of e) None) (\<lambda>_.
           check_then (change_body (update_safety source (end_loan (loan_kind mutable)))) (\<lambda>_. accept e))))"

definition body_output_type :: "body \<Rightarrow> ast_type option" where
  "body_output_type b = map_option (slot_type \<circ> function_output) (fe_function (body_function b))"

text \<open>The parameter a function returns a reference of: recorded once, then the same at every return.\<close>

definition body_record_return_parameter ::
    "(semantic_function_entry \<Rightarrow> size_t) \<Rightarrow> (size_t \<Rightarrow> semantic_function_entry \<Rightarrow> semantic_function_entry) \<Rightarrow>
     size_t \<Rightarrow> source_span \<Rightarrow> unit check" where
  "body_record_return_parameter field set_field origin sp =
     with_body (\<lambda>b.
       let recorded_parameter = field (body_function b)
       in if recorded_parameter = SIZE_MAX
          then change_body (\<lambda>b. b\<lparr>bd_semantic :=
                 update_function_entry (bd_function b) (set_field origin) (bd_semantic b)\<rparr>)
          else if recorded_parameter \<noteq> origin then body_fail E1303_Reference_Escape sp
          else accept ())"

definition body_safety_check_return_reference :: "nat \<Rightarrow> ast_expression \<Rightarrow> unit check" where
  "body_safety_check_return_reference n e =
     with_body (\<lambda>b.
     check_then (known (body_output_type b)) (\<lambda>t.
     check_then (on_semantic (type_resolve n t)) (\<lambda>x.
       if map_option rt_kind x \<noteq> Some RT_Reference then accept ()
       else with_body (\<lambda>b.
         let origin_e = source_argument (body_reference_call_source b e) e; l = expression_local b origin_e
         in case l of
              Some i \<Rightarrow>
                if safety_type_is_reference (local_type (local_at b i)) \<noteq> None
                   \<and> fact_lifetime_region (safety_at b i) = 0 \<and> fact_origin_parameter (safety_at b i) \<noteq> SIZE_MAX
                then body_record_return_parameter fe_reference_return_parameter
                       (\<lambda>p f. f\<lparr>fe_reference_return_parameter := p\<rparr>)
                       (fact_origin_parameter (safety_at b i)) (expression_span_of e)
                else body_report_lifetime_escape (map_option fst (body_borrow_source b origin_e)) (expression_span_of e)
            | None \<Rightarrow>
                body_report_lifetime_escape (map_option fst (body_borrow_source b origin_e)) (expression_span_of e)))))"

definition body_safety_check_return_composite_view :: "nat \<Rightarrow> ast_expression \<Rightarrow> unit check" where
  "body_safety_check_return_composite_view n e =
     with_body (\<lambda>b.
     check_then (known (body_output_type b)) (\<lambda>t.
       if memory_type_is_view t then accept ()
       else check_then (on_semantic (memory_type_contains_view n t)) (\<lambda>view.
         if \<not> view then accept ()
         else with_body (\<lambda>b.
           case expression_local b e of
             Some i \<Rightarrow>
               if fact_lifetime_region (safety_at b i) = 0 \<and> fact_origin_parameter (safety_at b i) \<noteq> SIZE_MAX
               then body_record_return_parameter fe_composite_view_return_parameter
                      (\<lambda>p f. f\<lparr>fe_composite_view_return_parameter := p\<rparr>)
                      (fact_origin_parameter (safety_at b i)) (expression_span_of e)
               else body_report_lifetime_escape (Some i) (expression_span_of e)
           | None \<Rightarrow> body_report_lifetime_escape None (expression_span_of e)))))"

end
