(* ===== verification/Body_Generic.thy ===== *)
theory Body_Generic
  imports Body_Borrow
begin

text \<open>
  Calls of generic functions: the instances of functions (the end of \<open>generic.c\<close>) and the inference of
  type arguments from the types of a call (\<open>body_call.c\<close>).

  The sources tell whether an alias was expanded by comparing pointers; the types compared carry the
  identities of their nodes. A copy of a function whose unchecked child is null is not followed further.
  The sources share the lvalues of a template with its copies, so that marks inside the indexes of an
  lvalue are seen by every instance; here each instance has its own.
\<close>

section \<open>Instances of functions\<close>

primrec generic_find_function_instance ::
    "type_test \<Rightarrow> nat \<Rightarrow> node \<Rightarrow> ast_type list \<Rightarrow> nat \<Rightarrow> nat option run" where
  "generic_find_function_instance equal_types 0 template args i c = None"
| "generic_find_function_instance equal_types (Suc n) template args i c =
     (if i \<ge> length (sc_generic_functions c) then Some (c, None)
      else
        (let e = sc_generic_functions c ! i
         in if map_option function_node (fe_template_function e) \<noteq> Some template
               \<or> length (fe_type_arguments e) \<noteq> length args
            then generic_find_function_instance equal_types n template args (i + 1) c
            else do {
              (c1, b) \<leftarrow> generic_arguments_equal equal_types (zip (fe_type_arguments e) args) c;
              if b then Some (c1, Some i)
              else generic_find_function_instance equal_types n template args (i + 1) c1
            }))"

text \<open>The new instance: persistent arguments, the entry, its function, its type, the push.\<close>

definition generic_new_function_instance ::
    "semantic_function_entry \<Rightarrow> ast_function \<Rightarrow> ast_type list \<Rightarrow> nat option run" where
  "generic_new_function_instance template f args c =
     (case semantic_allocates c of
        (False, c1) \<Rightarrow> Some (c1, None)
      | (True, c1) \<Rightarrow>
          (case semantic_generic_substitute_types args [] (fe_unit template) c1 of
             (c2, None) \<Rightarrow> Some (c2, None)
           | (c2, Some copies) \<Rightarrow>
               (case semantic_allocates c2 of
                  (False, c3) \<Rightarrow> Some (c3, None)
                | (True, c3) \<Rightarrow>
                    (case generic_clone_function f copies (fe_unit template) c3 of
                       (c4, Clone_Failed) \<Rightarrow> Some (c4, None)
                     | (c4, Clone_Broken) \<Rightarrow> None
                     | (c4, Cloned g) \<Rightarrow>
                         (case semantic_make_function_type_in g c4 of
                            (c5, None) \<Rightarrow> Some (c5, None)
                          | (c5, Some t) \<Rightarrow>
                              (case semantic_allocates c5 of
                                 (False, c6) \<Rightarrow> Some (c6, None)
                               | (True, c6) \<Rightarrow>
                                   Some (c6\<lparr>sc_generic_functions := sc_generic_functions c6 @
                                      [\<lparr>fe_name = fe_name template, fe_function = Some g,
                                        fe_callable_type = Some t, fe_template_function = Some f,
                                        fe_type_arguments = copies, fe_is_generic_template = False,
                                        fe_unit = fe_unit template, fe_public = fe_public template,
                                        fe_index = of_nat (length (sc_functions c3))
                                          + of_nat (length (sc_generic_functions c3)),
                                        fe_reference_return_parameter = SIZE_MAX,
                                        fe_composite_view_return_parameter = SIZE_MAX\<rparr>]\<rparr>,
                                    Some (length (sc_generic_functions c6)))))))))"

definition semantic_generic_function_instance ::
    "nat \<Rightarrow> semantic_function_entry \<Rightarrow> ast_type list \<Rightarrow> nat option run" where
  "semantic_generic_function_instance n template args c =
     (case fe_function template of
        None \<Rightarrow> Some (c, None)
      | Some f \<Rightarrow>
          if \<not> fe_is_generic_template template \<or> length args \<noteq> length (function_type_parameters f)
          then Some (c, None)
          else do {
            (c1, found) \<leftarrow>
              generic_find_function_instance (semantic_generic_type_equal (type_compatible n)) n
                (function_node f) args 0 c;
            case found of
              Some i \<Rightarrow> Some (c1, Some i)
            | None \<Rightarrow> generic_new_function_instance template f args c1
          })"

definition semantic_generic_function_at :: "semantic_context \<Rightarrow> nat \<Rightarrow> semantic_function_entry option" where
  "semantic_generic_function_at c i =
     (if i < length (sc_generic_functions c) then Some (sc_generic_functions c ! i) else None)"

section \<open>Type arguments\<close>

definition body_generic_parameter_index :: "ast_function \<Rightarrow> text_slice \<Rightarrow> nat option" where
  "body_generic_parameter_index f name =
     List.find (\<lambda>i. identity_equals (function_type_parameters f ! i) name)
       [0..<length (function_type_parameters f)]"

definition body_generic_expand_alias :: "nat \<Rightarrow> ast_type \<Rightarrow> ast_type check" where
  "body_generic_expand_alias n t =
     (case t of
        Type_Named _ _ _ \<Rightarrow>
          check_then (on_semantic
            (semantic_resolve_named_entry (semantic_generic_type_equal (type_compatible n)) n t)) (\<lambda>found.
          with_body (\<lambda>b.
            case Option.bind found (\<lambda>e. te_declaration (type_entry_at (bd_semantic b) e)) of
              None \<Rightarrow> accept t
            | Some d \<Rightarrow> accept (case decl_body d of Decl_Alias a \<Rightarrow> a | _ \<Rightarrow> t)))
      | _ \<Rightarrow> accept t)"

definition body_generic_expand_template_alias :: "ast_type \<Rightarrow> ast_type check" where
  "body_generic_expand_template_alias t =
     (case t of
        Type_Named k name args \<Rightarrow>
          if args = [] then accept t
          else with_body (\<lambda>b.
            let c = bd_semantic b; recorded_owner = semantic_type_owner_unit c t;
                u = (if recorded_owner = None then sc_active_unit c else recorded_owner)
            in case name_resolve_type c u name of
                 (Lookup_Found, Some i) \<Rightarrow>
                   (case te_declaration (sc_types c ! i) of
                      None \<Rightarrow> accept t
                    | Some d \<Rightarrow>
                        (case decl_body d of
                           Decl_Alias a \<Rightarrow>
                             if length (decl_type_parameters d) \<noteq> length args then accept t
                             else check_then
                                    (on_sem (semantic_generic_substitute_type a
                                       (zip (decl_type_parameters d) args) (te_unit (sc_types c ! i)))) (\<lambda>x.
                                    accept (case x of None \<Rightarrow> t | Some expanded \<Rightarrow> expanded))
                         | _ \<Rightarrow> accept t))
               | _ \<Rightarrow> accept t)
      | _ \<Rightarrow> accept t)"

fun body_generic_type_contains_parameter :: "ast_function \<Rightarrow> ast_type \<Rightarrow> bool"
  and body_generic_types_contain_parameter :: "ast_function \<Rightarrow> ast_type list \<Rightarrow> bool" where
  "body_generic_type_contains_parameter f (Type_Named _ name args) \<longleftrightarrow>
     args = [] \<and> body_generic_parameter_index f name \<noteq> None \<or> body_generic_types_contain_parameter f args"
| "body_generic_type_contains_parameter f (Type_Mutable t) \<longleftrightarrow> body_generic_type_contains_parameter f t"
| "body_generic_type_contains_parameter f (Type_Pointer t) \<longleftrightarrow> body_generic_type_contains_parameter f t"
| "body_generic_type_contains_parameter f (Type_Reference t) \<longleftrightarrow> body_generic_type_contains_parameter f t"
| "body_generic_type_contains_parameter f (Type_Vector t) \<longleftrightarrow> body_generic_type_contains_parameter f t"
| "body_generic_type_contains_parameter f (Type_Box t) \<longleftrightarrow> body_generic_type_contains_parameter f t"
| "body_generic_type_contains_parameter f (Type_Option t) \<longleftrightarrow> body_generic_type_contains_parameter f t"
| "body_generic_type_contains_parameter f (Type_Result ok er) \<longleftrightarrow>
     body_generic_type_contains_parameter f ok \<or> body_generic_type_contains_parameter f er"
| "body_generic_type_contains_parameter f (Type_Function ps out) \<longleftrightarrow>
     body_generic_types_contain_parameter f ps \<or> body_generic_type_contains_parameter f out"
| "body_generic_type_contains_parameter f _ \<longleftrightarrow> False"
| "body_generic_types_contain_parameter f [] \<longleftrightarrow> False"
| "body_generic_types_contain_parameter f (t # ts) \<longleftrightarrow>
     body_generic_type_contains_parameter f t \<or> body_generic_types_contain_parameter f ts"

type_synonym type_bindings = "ast_type option list"

text \<open>The inference over pairs of a template type and an actual type.\<close>

primrec infer_type_pairs ::
    "(ast_type \<Rightarrow> ast_type \<Rightarrow> type_bindings \<Rightarrow> type_bindings check) \<Rightarrow> (ast_type \<times> ast_type) list \<Rightarrow>
     type_bindings \<Rightarrow> type_bindings check" where
  "infer_type_pairs I [] bs = accept bs"
| "infer_type_pairs I (p # ps) bs = check_then (I (fst p) (snd p) bs) (\<lambda>bs. infer_type_pairs I ps bs)"

text \<open>Under a reference the wrapper of a writable type is dropped when only one side has it.\<close>

definition align_mutability :: "ast_type \<Rightarrow> ast_type \<Rightarrow> ast_type \<times> ast_type" where
  "align_mutability template actual =
     (case (template, actual) of
        (Type_Mutable _, Type_Mutable _) \<Rightarrow> (template, actual)
      | (Type_Mutable t, _) \<Rightarrow> (t, actual)
      | (_, Type_Mutable a) \<Rightarrow> (template, a)
      | _ \<Rightarrow> (template, actual))"

definition types_agree :: "nat \<Rightarrow> ast_type \<Rightarrow> ast_type \<Rightarrow> 'a \<Rightarrow> 'a check" where
  "types_agree n template actual x =
     check_then (on_semantic (type_compatible n template actual)) (\<lambda>same. if same then accept x else refuse)"

definition infer_same_kind ::
    "(ast_type \<Rightarrow> ast_type \<Rightarrow> type_bindings \<Rightarrow> type_bindings check) \<Rightarrow> nat \<Rightarrow> ast_type \<Rightarrow> ast_type \<Rightarrow>
     type_bindings \<Rightarrow> type_bindings check" where
  "infer_same_kind I n template actual bs =
     (case (template, actual) of
        (Type_Reference t, Type_Reference a) \<Rightarrow> (case align_mutability t a of (t, a) \<Rightarrow> I t a bs)
      | (Type_Pointer t, Type_Pointer a) \<Rightarrow> I t a bs
      | (Type_Mutable t, Type_Mutable a) \<Rightarrow> I t a bs
      | (Type_Vector t, Type_Vector a) \<Rightarrow> I t a bs
      | (Type_Box t, Type_Box a) \<Rightarrow> I t a bs
      | (Type_Option t, Type_Option a) \<Rightarrow> I t a bs
      | (Type_Result ok er, Type_Result ok2 er2) \<Rightarrow> infer_type_pairs I [(ok, ok2), (er, er2)] bs
      | (Type_Function ps out, Type_Function ps2 out2) \<Rightarrow>
          if length ps \<noteq> length ps2 then refuse
          else infer_type_pairs I (zip ps ps2 @ [(out, out2)]) bs
      | (Type_Named _ name args, Type_Named _ name2 args2) \<Rightarrow>
          check_then (body_generic_expand_alias n actual) (\<lambda>expanded.
            if expanded \<noteq> actual then I template expanded bs
            else if \<not> identity_equals name name2 \<or> length args \<noteq> length args2 then refuse
            else infer_type_pairs I (zip args args2) bs)
      | _ \<Rightarrow> types_agree n template actual bs)"

text \<open>The parameter a template type is, when it is a bare name.\<close>

fun template_parameter :: "ast_function \<Rightarrow> ast_type \<Rightarrow> nat option" where
  "template_parameter f (Type_Named _ name []) = body_generic_parameter_index f name"
| "template_parameter f _ = None"

definition is_named :: "ast_type \<Rightarrow> bool" where
  "is_named t = (case t of Type_Named _ _ _ \<Rightarrow> True | _ \<Rightarrow> False)"

primrec body_generic_infer_type ::
    "nat \<Rightarrow> ast_function \<Rightarrow> nat \<Rightarrow> ast_type \<Rightarrow> ast_type \<Rightarrow> type_bindings \<Rightarrow> type_bindings check" where
  "body_generic_infer_type n f 0 template actual bs b = None"
| "body_generic_infer_type n f (Suc k) template actual bs b =
     (if \<not> body_generic_type_contains_parameter f template then accept bs
      else case template_parameter f template of
        Some i \<Rightarrow> accept (if bs ! i = None then bs[i := Some actual] else bs)
      | None \<Rightarrow>
          check_then (body_generic_expand_alias n actual) (\<lambda>actual.
          check_then
            (if is_named template \<and> \<not> is_named actual then body_generic_expand_template_alias template
             else accept template) (\<lambda>expanded.
            if expanded \<noteq> template then body_generic_infer_type n f k expanded actual bs
            else infer_same_kind (body_generic_infer_type n f k) n template actual bs))) b"

section \<open>The instance a call selects\<close>

primrec infer_argument_types ::
    "expression_inference \<Rightarrow> (ast_type \<Rightarrow> ast_type \<Rightarrow> type_bindings \<Rightarrow> type_bindings check) \<Rightarrow>
     (ast_expression \<times> ast_type) list \<Rightarrow> type_bindings \<Rightarrow> (ast_expression list \<times> type_bindings) check" where
  "infer_argument_types E I [] bs = accept ([], bs)"
| "infer_argument_types E I (p # ps) bs =
     check_then (E (fst p)) (\<lambda>(a, actual).
     check_then (I (snd p) actual bs) (\<lambda>bs.
     check_then (infer_argument_types E I ps bs) (\<lambda>(as, bs). accept (a # as, bs))))"

definition parameter_types :: "ast_function \<Rightarrow> ast_type list" where
  "parameter_types f = map (slot_type \<circ> parameter_slot) (function_parameters f)"

text \<open>The instance with the arguments of the call; every failure is a refusal.\<close>

definition body_instantiate_generic_callee ::
    "expression_inference \<Rightarrow> nat \<Rightarrow> semantic_function_entry \<Rightarrow> ast_type option \<Rightarrow> ast_expression list \<Rightarrow>
     (nat \<times> ast_expression list) check" where
  "body_instantiate_generic_callee E n template contextual args =
     check_then (known (fe_function template)) (\<lambda>f.
     check_then (on_sem (\<lambda>c. prod.swap (semantic_allocates c))) (\<lambda>granted.
       if \<not> granted \<or> length (function_parameters f) \<noteq> length args then refuse
       else (let I = body_generic_infer_type n f n
             in check_then
                  (case contextual of
                     None \<Rightarrow> accept (replicate (length (function_type_parameters f)) None)
                   | Some t \<Rightarrow>
                       I (slot_type (function_output f)) (type_unwrap_mutable t)
                         (replicate (length (function_type_parameters f)) None)) (\<lambda>bs.
                check_then (infer_argument_types E I (zip args (parameter_types f)) bs) (\<lambda>(args, bs).
                  if None \<in> set bs then refuse
                  else check_then (demand (semantic_generic_function_instance n template (map the bs))) (\<lambda>i.
                         accept (i, args)))))))"

end
