(* ===== verification/Body_Call.thy ===== *)
theory Body_Call
  imports Body_Generic
begin

text \<open>
  Calls: constructors of tagged types (\<open>body_tagged_construct.c\<close>) and of enums
  (\<open>body_enum_construct.c\<close>), built-in functions (\<open>body_builtin_call.c\<close>), and ordinary and generic
  functions (\<open>body_call.c\<close>).

  Beside the inference \<open>E\<close> of an expression the routines take \<open>X\<close>, the check of an expression against
  an expected type. The operations on a call get its header, callee and arguments, and give the
  arguments with their marks.
\<close>

type_synonym expression_check = "ast_type \<Rightarrow> ast_expression \<Rightarrow> source_span \<Rightarrow> ast_expression check"

text \<open>A refusal that is reported anew.\<close>

definition check_or_fail :: "'a check \<Rightarrow> error_id \<Rightarrow> source_span \<Rightarrow> 'a check" where
  "check_or_fail m i sp b =
     (case m b of
        Some (b1, None) \<Rightarrow> body_fail i sp b1
      | answer \<Rightarrow> answer)"

definition type_moves :: "nat \<Rightarrow> ast_type \<Rightarrow> bool check" where
  "type_moves n t = on_semantic (safety_type_is_move_only n t)"

section \<open>Constructors\<close>

text \<open>A constructor of an option or result, against the expected type; \<open>None\<close> when it is something else.\<close>

definition tagged_constructor_of :: "ast_type \<Rightarrow> ast_expression \<Rightarrow> type_tagged_constructor option" where
  "tagged_constructor_of expected e =
     (case e of
        Expression_Call _ (Lvalue_Field _ (Lvalue_Base _ (Base_Identifier type_name)) constructor) _ _ \<Rightarrow>
          if type_is_builtin_tagged expected \<and> type_tagged_name_matches expected type_name
          then type_tagged_find_constructor expected constructor
          else None
      | _ \<Rightarrow> None)"

definition check_payload ::
    "expression_inference \<Rightarrow> expression_check \<Rightarrow> nat \<Rightarrow> ast_type \<Rightarrow> ast_expression \<Rightarrow> ast_expression check" where
  "check_payload E X n t payload =
     check_then (X t payload (expression_span_of payload)) (\<lambda>payload.
     check_then (type_moves n t) (\<lambda>move.
       if move then body_safety_move_expression E n payload None else accept payload))"

definition body_try_check_builtin_tagged_construct ::
    "expression_inference \<Rightarrow> expression_check \<Rightarrow> nat \<Rightarrow> ast_type \<Rightarrow> ast_expression \<Rightarrow> ast_expression option check" where
  "body_try_check_builtin_tagged_construct E X n expected e =
     (case (tagged_constructor_of expected e, e) of
        (Some k, Expression_Call h l args index) \<Rightarrow>
          if length args \<noteq> tagged_payload_count k then body_fail E0400_Mismatched_Types (expression_span h)
          else check_then
                 (case (tagged_payload_type k, args) of
                    (Some t, [payload]) \<Rightarrow> check_then (check_payload E X n t payload) (\<lambda>p. accept [p])
                  | _ \<Rightarrow> accept args) (\<lambda>args.
                 accept (Some (set_contextual_type (type_unwrap_mutable expected) (Expression_Call h l args index))))
      | _ \<Rightarrow> accept None)"

primrec check_payloads ::
    "expression_inference \<Rightarrow> expression_check \<Rightarrow> nat \<Rightarrow> (ast_type \<times> ast_expression) list \<Rightarrow> ast_expression list check" where
  "check_payloads E X n [] = accept []"
| "check_payloads E X n (p # ps) =
     check_then (check_payload E X n (fst p) (snd p)) (\<lambda>a.
     check_then (check_payloads E X n ps) (\<lambda>as. accept (a # as)))"

text \<open>The constructor of the enum that the context expects, when the callee names its template.\<close>

definition contextual_enum_constructor ::
    "semantic_context \<Rightarrow> resolved_type option \<Rightarrow> ast_lvalue \<Rightarrow> (type_ref \<times> ast_enum_constructor) option" where
  "contextual_enum_constructor c expected l =
     (case (expected, l) of
        (Some r, Lvalue_Field _ (Lvalue_Base _ (Base_Identifier parent)) field) \<Rightarrow>
          (case (rt_kind r, rt_named r, name_find_type c parent) of
             (RT_Enum, Some e, Some p) \<Rightarrow>
               (let template = pattern_template (type_entry_at c e)
                in if map_option decl_node (te_declaration (sc_types c ! p)) = template
                      \<or> map_option decl_node (te_template_declaration (sc_types c ! p)) = template
                   then map_option (\<lambda>(_, k). (e, k)) (name_find_enum_constructor c (Some (type_entry_at c e)) field)
                   else None)
           | _ \<Rightarrow> None)
      | _ \<Rightarrow> None)"

definition enum_constructor_of ::
    "nat \<Rightarrow> ast_type option \<Rightarrow> ast_lvalue \<Rightarrow> (type_ref \<times> ast_enum_constructor) option check" where
  "enum_constructor_of n contextual l =
     check_then (case contextual of None \<Rightarrow> accept None | Some t \<Rightarrow> on_semantic (type_resolve n t)) (\<lambda>expected.
     with_body (\<lambda>b.
       let c = bd_semantic b
       in accept (case contextual_enum_constructor c expected l of
                    Some k \<Rightarrow> Some k
                  | None \<Rightarrow>
                      map_option (\<lambda>(t, _, k). (Collected_Type t, k))
                        (name_resolve_enum_constructor_lvalue c (Some l)))))"

definition body_try_infer_enum_construct ::
    "expression_inference \<Rightarrow> expression_check \<Rightarrow> nat \<Rightarrow> ast_expression_header \<Rightarrow> ast_lvalue \<Rightarrow>
     ast_expression list \<Rightarrow> (ast_expression list \<times> ast_type) option check" where
  "body_try_infer_enum_construct E X n h l args =
     check_then (enum_constructor_of n (expression_contextual_type h) l) (\<lambda>found.
       case found of
         None \<Rightarrow> accept None
       | Some (e, k) \<Rightarrow>
           if length (constructor_payload_slots k) \<noteq> length args
           then body_fail E0400_Mismatched_Types (expression_span h)
           else check_then
                  (if expression_effects_applied h then accept args
                   else check_payloads E X n (zip (constructor_payload_types k) args)) (\<lambda>args.
                check_then
                  (case expression_contextual_type h of
                     Some t \<Rightarrow> accept (Some t)
                   | None \<Rightarrow>
                       with_body (\<lambda>b. on_sem (body_synthetic_named_type (te_name (type_entry_at (bd_semantic b) e))))) (\<lambda>t.
                  case t of
                    None \<Rightarrow> body_fail E1100_Internal_Context_Error (expression_span h)
                  | Some t \<Rightarrow> accept (Some (args, t)))))"

section \<open>Built-in functions\<close>

definition body_builtin_identity :: "body \<Rightarrow> ast_lvalue \<Rightarrow> name_builtin_function" where
  "body_builtin_identity b l =
     (case l of
        Lvalue_Base sp (Base_Identifier name) \<Rightarrow>
          if body_find_local b l \<noteq> None then Builtin_None
          else (let direct = name_find_builtin_function name
                in if direct \<noteq> Builtin_None \<and> name_builtin_is_direct_source direct then direct
                   else (case body_unit b of
                           None \<Rightarrow> Builtin_None
                         | Some u \<Rightarrow>
                             (case name_resolve_module_alias_name (bd_semantic b) (Some u) name of
                                None \<Rightarrow> Builtin_None
                              | Some resolved \<Rightarrow>
                                  if identity_equals resolved name then Builtin_None
                                  else name_find_builtin_function resolved)))
      | _ \<Rightarrow> Builtin_None)"

definition require_argument_count :: "source_span \<Rightarrow> nat \<Rightarrow> 'b list \<Rightarrow> unit check" where
  "require_argument_count sp count args =
     (if length args = count then accept () else body_fail E0400_Mismatched_Types sp)"

definition body_builtin_length ::
    "expression_inference \<Rightarrow> nat \<Rightarrow> source_span \<Rightarrow> ast_expression list \<Rightarrow> (ast_expression list \<times> ast_type) check" where
  "body_builtin_length E n sp args =
     check_then (require_argument_count sp 1 args) (\<lambda>_.
     check_then (E (args ! 0)) (\<lambda>(a, t).
     check_then (demand (type_resolve n t)) (\<lambda>r.
       if rt_kind r \<noteq> RT_String \<and> rt_kind r \<noteq> RT_Vector then body_fail E0400_Mismatched_Types sp
       else accept ([a], Type_Integer))))"

text \<open>The vector an element is appended to: a place, or the referent of a writable reference.\<close>

definition append_target ::
    "expression_inference \<Rightarrow> nat \<Rightarrow> source_span \<Rightarrow> ast_expression \<Rightarrow> (ast_expression \<times> resolved_type \<times> nat option) check" where
  "append_target E n sp e =
     (case e of
        Expression_Atom h (Atom_Lvalue l) \<Rightarrow>
          check_then (body_check_assignable E n l) (\<lambda>(l, t, i).
          check_then (demand (type_resolve n t)) (\<lambda>r. accept (Expression_Atom h (Atom_Lvalue l), r, i)))
      | Expression_Unary h Unary_Dereference operand \<Rightarrow>
          check_then (E operand) (\<lambda>(operand, t).
          check_then (demand (type_resolve n t)) (\<lambda>r.
            case rt_inner r of
              Some inner \<Rightarrow>
                if rt_kind r \<noteq> RT_Reference \<or> \<not> rt_reference_mutable r
                then body_fail E0400_Mismatched_Types (expression_span h)
                else check_then (demand (type_resolve n inner)) (\<lambda>v.
                       accept (Expression_Unary h Unary_Dereference operand, v, None))
            | None \<Rightarrow> body_fail E0400_Mismatched_Types (expression_span h)))
      | _ \<Rightarrow> body_fail E0400_Mismatched_Types sp)"

definition lengthen_local :: "nat \<Rightarrow> body \<Rightarrow> body" where
  "lengthen_local i =
     update_local i (\<lambda>l. l\<lparr>local_known_length :=
       (case local_known_length l of
          None \<Rightarrow> None
        | Some len \<Rightarrow> if len = SIZE_MAX then None else Some (len + 1))\<rparr>)"

definition body_builtin_append ::
    "expression_inference \<Rightarrow> expression_check \<Rightarrow> nat \<Rightarrow> ast_expression_header \<Rightarrow> ast_expression list \<Rightarrow>
     (ast_expression list \<times> ast_type) check" where
  "body_builtin_append E X n h args =
     (let sp = expression_span h
      in check_then (require_argument_count sp 2 args) (\<lambda>_.
           if expression_effects_applied h then accept (args, Type_Void)
           else check_then (append_target E n sp (args ! 0)) (\<lambda>(target, v, i).
                if rt_kind v \<noteq> RT_Vector then body_fail E0400_Mismatched_Types sp
                else check_then (known (rt_inner v)) (\<lambda>element.
                     check_then (X element (args ! 1) (expression_span_of (args ! 1))) (\<lambda>item.
                     check_then (type_moves n element) (\<lambda>move.
                     check_then
                       (if move \<and> safety_type_is_reference (Some element) = None
                        then body_safety_move_expression E n item None else accept item) (\<lambda>item.
                     check_then (change_body (case i of None \<Rightarrow> id | Some i \<Rightarrow> lengthen_local i)) (\<lambda>_.
                       accept ([target, item], Type_Void)))))))))"

fun expression_place :: "ast_expression \<Rightarrow> (ast_expression_header \<times> ast_lvalue) option" where
  "expression_place (Expression_Atom h (Atom_Lvalue l)) = Some (h, l)"
| "expression_place _ = None"

text \<open>An exchange of incompatible places is refused without a report.\<close>

definition body_builtin_swap ::
    "expression_inference \<Rightarrow> nat \<Rightarrow> source_span \<Rightarrow> ast_expression list \<Rightarrow> (ast_expression list \<times> ast_type) check" where
  "body_builtin_swap E n sp args =
     check_then (require_argument_count sp 2 args) (\<lambda>_.
       if expression_place (args ! 0) = None \<or> expression_place (args ! 1) = None
       then body_fail E0400_Mismatched_Types sp
       else check_then (E (args ! 0)) (\<lambda>(left, _).
            check_then (E (args ! 1)) (\<lambda>(right, _).
            check_then (known (expression_place left)) (\<lambda>(lh, l).
            check_then (known (expression_place right)) (\<lambda>(rh, r).
            check_then (body_check_assignable E n l) (\<lambda>(l, lt, _).
            check_then (body_check_assignable E n r) (\<lambda>(r, rt, _).
            check_then (types_agree n lt rt ()) (\<lambda>_.
            check_then (types_agree n rt lt ()) (\<lambda>_.
              accept ([Expression_Atom lh (Atom_Lvalue l), Expression_Atom rh (Atom_Lvalue r)], Type_Void))))))))))"

definition release_argument ::
    "expression_inference \<Rightarrow> nat \<Rightarrow> ast_expression list \<Rightarrow> ast_expression check" where
  "release_argument E n args =
     with_body (\<lambda>b.
       case args of
         [a] \<Rightarrow>
           if expression_local b a = None then refuse
           else check_then (E a) (\<lambda>(a, t).
                check_then (on_semantic (memory_type_is_owned n t)) (\<lambda>owned.
                  if owned then accept a else refuse))
       | _ \<Rightarrow> refuse)"

definition body_builtin_release ::
    "expression_inference \<Rightarrow> nat \<Rightarrow> ast_expression_header \<Rightarrow> ast_expression list \<Rightarrow>
     (ast_expression list \<times> ast_type) check" where
  "body_builtin_release E n h args =
     (if expression_effects_applied h then accept (args, Type_Void)
      else check_then (check_or_fail (release_argument E n args) E0400_Mismatched_Types (expression_span h)) (\<lambda>a.
           check_then (body_safety_move_expression E n a None) (\<lambda>a. accept ([a], Type_Void))))"

text \<open>The argument and result of the reinterpretations of floating point bits.\<close>

fun bits_signature :: "name_builtin_function \<Rightarrow> machine_type \<times> machine_type" where
  "bits_signature Builtin_F64_Bits = (Machine_F64, Machine_U64)"
| "bits_signature Builtin_F64_From_Bits = (Machine_U64, Machine_F64)"
| "bits_signature Builtin_F32_Bits = (Machine_F32, Machine_U32)"
| "bits_signature _ = (Machine_U32, Machine_F32)"

definition body_builtin_bits ::
    "expression_inference \<Rightarrow> nat \<Rightarrow> source_span \<Rightarrow> machine_type \<times> machine_type \<Rightarrow> ast_expression list \<Rightarrow>
     (ast_expression list \<times> ast_type) check" where
  "body_builtin_bits E n sp signature args =
     check_then (require_argument_count sp 1 args) (\<lambda>_.
     check_or_fail
       (check_then (E (args ! 0)) (\<lambda>(a, t).
        check_then (demand (type_resolve n t)) (\<lambda>actual.
        check_then (demand (type_resolve n (Type_Machine (fst signature)))) (\<lambda>required.
          if rt_kind actual \<noteq> rt_kind required \<or> rt_bits actual \<noteq> rt_bits required then refuse
          else accept ([a], Type_Machine (snd signature)))))) E0400_Mismatched_Types sp)"

text \<open>
  A word of a kernel call: an integer literal, a 64-bit unsigned number, a pointer, or a reference to a
  number of fixed width. The type of the word is kept with the argument.
\<close>

definition kernel_word :: "resolved_type \<Rightarrow> resolved_type option \<Rightarrow> bool" where
  "kernel_word r inner \<longleftrightarrow>
     rt_kind r = RT_Unsigned_Integer \<and> rt_bits r = 64 \<or> rt_kind r = RT_Pointer
     \<or> rt_kind r = RT_Reference \<and> rt_inner r \<noteq> None
       \<and> map_option rt_kind inner \<in> {Some RT_Unsigned_Integer, Some RT_Signed_Integer, Some RT_Float}"

definition check_kernel_slot ::
    "expression_inference \<Rightarrow> expression_check \<Rightarrow> nat \<Rightarrow> source_span \<Rightarrow> ast_expression \<Rightarrow> ast_expression check" where
  "check_kernel_slot E X n sp a =
     (if semantic_integer_literal_expression_value a \<noteq> None \<or> semantic_integer_literal_expression_is_unsigned_wide a
      then X (Type_Machine Machine_U64) a sp
      else check_then (E a) (\<lambda>(a, t).
           check_then (demand (type_resolve n t)) (\<lambda>r.
           check_then (on_sem (semantic_generic_substitute_type t [] None)) (\<lambda>copy.
             case copy of
               None \<Rightarrow> body_fail E1100_Internal_Context_Error sp
             | Some t \<Rightarrow>
                 check_then
                   (case rt_inner r of
                      Some inner \<Rightarrow>
                        if rt_kind r = RT_Reference then on_semantic (type_resolve n inner) else accept None
                    | None \<Rightarrow> accept None) (\<lambda>inner.
                   if kernel_word r inner then accept (set_contextual_type t a)
                   else body_fail E0400_Mismatched_Types sp)))))"

primrec check_kernel_slots ::
    "expression_inference \<Rightarrow> expression_check \<Rightarrow> nat \<Rightarrow> source_span \<Rightarrow> ast_expression list \<Rightarrow> ast_expression list check" where
  "check_kernel_slots E X n sp [] = accept []"
| "check_kernel_slots E X n sp (a # as) =
     check_then (check_kernel_slot E X n sp a) (\<lambda>a.
     check_then (check_kernel_slots E X n sp as) (\<lambda>as. accept (a # as)))"

definition body_builtin_kernel_call ::
    "expression_inference \<Rightarrow> expression_check \<Rightarrow> nat \<Rightarrow> source_span \<Rightarrow> ast_expression list \<Rightarrow>
     (ast_expression list \<times> ast_type) check" where
  "body_builtin_kernel_call E X n sp args =
     check_then (require_argument_count sp 7 args) (\<lambda>_.
     check_then (X (Type_Machine Machine_U64) (args ! 0) sp) (\<lambda>a.
     check_then (check_kernel_slots E X n sp (drop 1 args)) (\<lambda>as.
       accept (a # as, Type_Machine Machine_U64))))"

definition body_builtin_runtime ::
    "expression_inference \<Rightarrow> expression_check \<Rightarrow> nat \<Rightarrow> source_span \<Rightarrow> name_builtin_function \<Rightarrow>
     ast_expression list \<Rightarrow> (ast_expression list \<times> ast_type) check" where
  "body_builtin_runtime E X n sp builtin args =
     (if builtin \<in> {Builtin_F64_Bits, Builtin_F64_From_Bits, Builtin_F32_Bits, Builtin_F32_From_Bits}
      then body_builtin_bits E n sp (bits_signature builtin) args
      else if builtin \<in> {Builtin_Host_Architecture, Builtin_Host_Platform, Builtin_Host_Environment}
      then check_then (require_argument_count sp 0 args) (\<lambda>_. accept (args, Type_Integer))
      else if builtin = Builtin_Raw_Kernel_Call then body_builtin_kernel_call E X n sp args
      else refuse)"

text \<open>\<open>None\<close> when the callee is no built-in function.\<close>

definition body_try_infer_builtin_call ::
    "expression_inference \<Rightarrow> expression_check \<Rightarrow> nat \<Rightarrow> ast_expression_header \<Rightarrow> ast_lvalue \<Rightarrow>
     ast_expression list \<Rightarrow> (ast_expression list \<times> ast_type) option check" where
  "body_try_infer_builtin_call E X n h l args =
     with_body (\<lambda>b.
       let builtin = body_builtin_identity b l; sp = expression_span h
       in if builtin = Builtin_None then accept None
          else check_then
                 (if builtin = Builtin_Length then body_builtin_length E n sp args
                  else if builtin = Builtin_Append then body_builtin_append E X n h args
                  else if builtin = Builtin_Swap then body_builtin_swap E n sp args
                  else if builtin = Builtin_Release then body_builtin_release E n h args
                  else body_builtin_runtime E X n sp builtin args) (\<lambda>result. accept (Some result)))"

section \<open>Functions\<close>

text \<open>A writable reference to a local may change its length.\<close>

definition body_invalidate_mutable_reference_length :: "ast_type \<Rightarrow> ast_expression \<Rightarrow> body \<Rightarrow> body" where
  "body_invalidate_mutable_reference_length parameter argument b =
     (case (safety_type_is_reference (Some parameter), argument) of
        (Some True, Expression_Unary _ Unary_Address_Mutable operand) \<Rightarrow>
          (case expression_local b operand of
             None \<Rightarrow> b
           | Some i \<Rightarrow> update_local i (\<lambda>l. l\<lparr>local_known_length := None\<rparr>) b)
      | _ \<Rightarrow> b)"

definition body_apply_argument_effects ::
    "expression_inference \<Rightarrow> nat \<Rightarrow> ast_type \<Rightarrow> ast_expression \<Rightarrow> ast_expression check" where
  "body_apply_argument_effects E n parameter a =
     check_then (body_safety_check_ephemeral_borrow E n a) (\<lambda>a.
     check_then (type_moves n parameter) (\<lambda>move.
     check_then
       (if move \<and> safety_type_is_reference (Some parameter) = None
        then body_safety_move_expression E n a None else accept a) (\<lambda>a.
     check_then (change_body (body_invalidate_mutable_reference_length parameter a)) (\<lambda>_. accept a))))"

primrec check_arguments ::
    "expression_inference \<Rightarrow> expression_check \<Rightarrow> nat \<Rightarrow> bool \<Rightarrow> (ast_type \<times> ast_expression) list \<Rightarrow>
     ast_expression list check" where
  "check_arguments E X n apply_effects [] = accept []"
| "check_arguments E X n apply_effects (p # ps) =
     check_then (X (fst p) (snd p) (expression_span_of (snd p))) (\<lambda>a.
     check_then (if apply_effects then body_apply_argument_effects E n (fst p) a else accept a) (\<lambda>a.
     check_then (check_arguments E X n apply_effects ps) (\<lambda>as. accept (a # as))))"

definition body_check_call_arguments ::
    "expression_inference \<Rightarrow> expression_check \<Rightarrow> nat \<Rightarrow> ast_type list \<Rightarrow> ast_expression list \<Rightarrow> bool \<Rightarrow>
     ast_expression list check" where
  "body_check_call_arguments E X n parameters args apply_effects =
     (if length parameters \<noteq> length args then body_fail E0400_Mismatched_Types zero_span
      else check_arguments E X n apply_effects (zip parameters args))"

text \<open>The function a call selects, with the arguments and the position of a generic instance.\<close>

definition select_callee ::
    "expression_inference \<Rightarrow> nat \<Rightarrow> ast_expression_header \<Rightarrow> nat \<Rightarrow> ast_expression list \<Rightarrow> size_t \<Rightarrow>
     (semantic_function_entry \<times> ast_expression list \<times> size_t) check" where
  "select_callee E n h f args index =
     with_body (\<lambda>b.
       let callee = sc_functions (bd_semantic b) ! f
       in if \<not> fe_is_generic_template callee then accept (callee, args, index)
          else check_then
                 (check_or_fail (body_instantiate_generic_callee E n callee (expression_contextual_type h) args)
                    E0400_Mismatched_Types (expression_span h)) (\<lambda>(i, args).
               with_body (\<lambda>b.
                 let c = bd_semantic b; instance_entry = sc_generic_functions c ! i
                 in accept (instance_entry, args, fe_index instance_entry - of_nat (length (sc_functions c))))))"

definition infer_function_call ::
    "expression_inference \<Rightarrow> expression_check \<Rightarrow> nat \<Rightarrow> ast_expression_header \<Rightarrow> nat \<Rightarrow> ast_expression list \<Rightarrow>
     size_t \<Rightarrow> (ast_expression list \<times> size_t \<times> ast_type) check" where
  "infer_function_call E X n h f args index =
     check_then (select_callee E n h f args index) (\<lambda>(callee, args, index).
     check_then (known (fe_function callee)) (\<lambda>g.
     check_then (on_sem (generic_array (function_parameters g))) (\<lambda>granted.
       if \<not> granted then body_fail E1100_Internal_Context_Error (expression_span h)
       else check_then
              (body_check_call_arguments E X n (parameter_types g) args (\<not> expression_effects_applied h)) (\<lambda>args.
              accept (args, index, slot_type (function_output g))))))"

definition infer_local_call ::
    "expression_inference \<Rightarrow> expression_check \<Rightarrow> nat \<Rightarrow> ast_expression_header \<Rightarrow> nat \<Rightarrow> ast_expression list \<Rightarrow>
     (ast_expression list \<times> ast_type) check" where
  "infer_local_call E X n h i args =
     with_body (\<lambda>b.
     check_then (case local_type (local_at b i) of None \<Rightarrow> accept None | Some t \<Rightarrow> on_semantic (type_resolve n t)) (\<lambda>x.
       case x of
         None \<Rightarrow> body_fail E0400_Mismatched_Types (expression_span h)
       | Some r \<Rightarrow>
           if rt_kind r \<noteq> RT_Function then body_fail E0400_Mismatched_Types (expression_span h)
           else check_then
                  (body_check_call_arguments E X n (rt_parameters r) args (\<not> expression_effects_applied h)) (\<lambda>args.
                check_then (known (rt_output r)) (\<lambda>t. accept (args, t)))))"

definition infer_named_call ::
    "expression_inference \<Rightarrow> expression_check \<Rightarrow> nat \<Rightarrow> ast_expression_header \<Rightarrow> ast_lvalue \<Rightarrow>
     ast_expression list \<Rightarrow> size_t \<Rightarrow> (ast_expression list \<times> size_t \<times> ast_type) check" where
  "infer_named_call E X n h l args index =
     (case l of
        Lvalue_Base _ (Base_Identifier name) \<Rightarrow>
          with_body (\<lambda>b.
            case body_find_local b l of
              Some i \<Rightarrow> check_then (infer_local_call E X n h i args) (\<lambda>(args, t). accept (args, index, t))
            | None \<Rightarrow>
                (case name_resolve_function (bd_semantic b) (body_unit b) name of
                   (Lookup_Found, Some f) \<Rightarrow> infer_function_call E X n h f args index
                 | (status, _) \<Rightarrow>
                     body_fail (if status = Lookup_Private \<or> status = Lookup_Ambiguous
                                then name_lookup_error_id status else E0400_Mismatched_Types)
                       (expression_span h)))
      | _ \<Rightarrow> body_fail E0400_Mismatched_Types (expression_span h))"

text \<open>The order of the sources: built-in functions, enum constructors, functions, locals.\<close>

definition body_infer_call ::
    "expression_inference \<Rightarrow> expression_check \<Rightarrow> nat \<Rightarrow> ast_expression_header \<Rightarrow> ast_lvalue \<Rightarrow>
     ast_expression list \<Rightarrow> size_t \<Rightarrow> (ast_expression \<times> ast_type) check" where
  "body_infer_call E X n h l args index =
     check_then (body_try_infer_builtin_call E X n h l args) (\<lambda>builtin.
     check_then
       (case builtin of
          Some (args, t) \<Rightarrow> accept (args, index, t)
        | None \<Rightarrow>
            check_then (body_try_infer_enum_construct E X n h l args) (\<lambda>constructed.
              case constructed of
                Some (args, t) \<Rightarrow> accept (args, index, t)
              | None \<Rightarrow> infer_named_call E X n h l args index)) (\<lambda>(args, index, t).
       accept (set_effects_applied (Expression_Call h l args index), t)))"

end
