(* ===== verification/Body_Expression.thy ===== *)
theory Body_Expression
  imports Body_Call
begin

text \<open>
  The types of expressions (\<open>body_expression.c\<close>, \<open>body_unary.c\<close>, \<open>body_binary.c\<close>,
  \<open>body_conversion.c\<close>) and the check of an expression against an expected type (the end of
  \<open>body_context.c\<close>). The two call each other on parts of the expression; the second argument of both
  is the fuel of that nesting.
\<close>

section \<open>Null pointers\<close>

text \<open>The name of the null pointer, U+0627 U+0644 U+0641 U+0627 U+0631 U+063A.\<close>

definition null_name :: bytes where
  "null_name = [0xD8, 0xA7, 0xD9, 0x84, 0xD9, 0x81, 0xD8, 0xA7, 0xD8, 0xB1, 0xD8, 0xBA]"

text \<open>The identifier an expression is, with its lvalue.\<close>

fun expression_identifier :: "ast_expression \<Rightarrow> (ast_lvalue \<times> text_slice) option" where
  "expression_identifier (Expression_Atom _ (Atom_Lvalue (Lvalue_Base sp (Base_Identifier name)))) =
     Some (Lvalue_Base sp (Base_Identifier name), name)"
| "expression_identifier _ = None"

definition is_unbound_null :: "body \<Rightarrow> ast_lvalue \<Rightarrow> text_slice \<Rightarrow> bool" where
  "is_unbound_null b l name \<longleftrightarrow>
     identity_equals_cstr name (Some null_name) \<and> body_find_local b l = None
     \<and> fst (name_resolve_function (bd_semantic b) (body_unit b) name) = Lookup_Missing
     \<and> fst (name_resolve_global (bd_semantic b) (body_unit b) name) = Lookup_Missing"

definition body_is_unbound_null_name :: "body \<Rightarrow> ast_expression \<Rightarrow> bool" where
  "body_is_unbound_null_name b e \<longleftrightarrow>
     (case expression_identifier e of None \<Rightarrow> False | Some (l, name) \<Rightarrow> is_unbound_null b l name)"

definition body_is_contextual_null :: "nat \<Rightarrow> ast_expression \<Rightarrow> bool check" where
  "body_is_contextual_null n e =
     (case (expression_identifier e, expression_contextual_type (expression_header e)) of
        (Some (l, name), Some t) \<Rightarrow>
          check_then (on_semantic (type_resolve n t)) (\<lambda>x.
          with_body (\<lambda>b. accept (map_option rt_kind x = Some RT_Pointer \<and> is_unbound_null b l name)))
      | _ \<Rightarrow> accept False)"

definition infer_null_pointer :: "nat \<Rightarrow> ast_expression \<Rightarrow> (ast_expression \<times> ast_type) check" where
  "infer_null_pointer n e =
     (let fail = body_fail E0400_Mismatched_Types (expression_span_of e)
      in case expression_contextual_type (expression_header e) of
           None \<Rightarrow> fail
         | Some t \<Rightarrow>
             check_then (on_semantic (type_resolve n t)) (\<lambda>x.
               if map_option rt_kind x = Some RT_Pointer then accept (set_null_pointer e, t) else fail))"

definition infer_atom_expression ::
    "expression_inference \<Rightarrow> nat \<Rightarrow> ast_expression_header \<Rightarrow> ast_atom \<Rightarrow> (ast_expression \<times> ast_type) check" where
  "infer_atom_expression E n h a =
     check_then
       (if expression_null_pointer h then accept True else body_is_contextual_null n (Expression_Atom h a)) (\<lambda>null.
       if null then infer_null_pointer n (Expression_Atom h a)
       else check_then (body_infer_atom E n a) (\<lambda>(a, t). accept (Expression_Atom h a, t)))"

section \<open>Unary expressions\<close>

definition infer_address ::
    "expression_inference \<Rightarrow> nat \<Rightarrow> ast_expression_header \<Rightarrow> bool \<Rightarrow> ast_expression \<Rightarrow> (ast_expression \<times> ast_type) check" where
  "infer_address E n h mutable operand =
     (case operand of
        Expression_Atom g (Atom_Lvalue l) \<Rightarrow>
          check_then (body_infer_lvalue_access E n (\<not> mutable) l) (\<lambda>(l, t, _).
          check_then (on_sem (body_synthetic_reference_type t mutable)) (\<lambda>r.
            case r of
              None \<Rightarrow> body_fail E1100_Internal_Context_Error (expression_span h)
            | Some r \<Rightarrow> accept (Expression_Atom g (Atom_Lvalue l), r)))
      | _ \<Rightarrow> body_fail E0613_Address_Of_Non_Lvalue (expression_span h))"

text \<open>The type of an operation on a value.\<close>

definition unary_result :: "nat \<Rightarrow> source_span \<Rightarrow> ast_unary_operation \<Rightarrow> ast_type \<Rightarrow> ast_type check" where
  "unary_result n sp op t =
     (if op = Unary_Dereference then
        check_then (demand (type_resolve n t)) (\<lambda>r.
          if rt_kind r \<noteq> RT_Reference \<and> rt_kind r \<noteq> RT_Box then body_fail E0612_Dereference_Non_Pointer sp
          else known (rt_inner r))
      else if op = Unary_Not then
        check_then (body_is_bool_convertible n t) (\<lambda>ok.
          if ok then accept Type_Boolean else body_fail E0400_Mismatched_Types sp)
      else
        check_then (body_is_integer_like n t) (\<lambda>sign.
          if sign \<noteq> None then accept t else body_fail E0400_Mismatched_Types sp))"

definition body_infer_unary ::
    "expression_inference \<Rightarrow> nat \<Rightarrow> ast_expression_header \<Rightarrow> ast_unary_operation \<Rightarrow> ast_expression \<Rightarrow>
     (ast_expression \<times> ast_type) check" where
  "body_infer_unary E n h op operand =
     check_then
       (if op = Unary_Address \<or> op = Unary_Address_Mutable
        then infer_address E n h (op = Unary_Address_Mutable) operand
        else check_then (E operand) (\<lambda>(operand, t).
             check_then (unary_result n (expression_span h) op t) (\<lambda>t. accept (operand, t)))) (\<lambda>(operand, t).
       accept (Expression_Unary h op operand, t))"

section \<open>Binary expressions\<close>

definition binary_compares :: "ast_binary_operation \<Rightarrow> bool" where
  "binary_compares op \<longleftrightarrow>
     op \<in> {Binary_Equal, Binary_Not_Equal, Binary_Less_Than, Binary_Less_Or_Equal,
            Binary_Greater_Or_Equal, Binary_Greater_Than}"

text \<open>A null compared with a value takes a persistent copy of the value's type.\<close>

definition infer_null_comparison ::
    "expression_inference \<Rightarrow> nat \<Rightarrow> source_span \<Rightarrow> ast_expression \<Rightarrow> ast_expression \<Rightarrow>
     (ast_expression \<times> ast_expression) check" where
  "infer_null_comparison E n sp typed null =
     check_then (E typed) (\<lambda>(typed, t).
     check_then (on_sem (semantic_generic_substitute_type t [] None)) (\<lambda>copy.
       case copy of
         None \<Rightarrow> body_fail E1100_Internal_Context_Error sp
       | Some t \<Rightarrow>
           check_then (E (set_contextual_type t null)) (\<lambda>(null, _). accept (typed, null))))"

text \<open>A literal next to a value of another type takes the type of the value when it fits.\<close>

definition literal_fits :: "nat \<Rightarrow> ast_expression \<Rightarrow> ast_type \<Rightarrow> bool check" where
  "literal_fits n e t =
     (case semantic_integer_literal_expression_value e of
        None \<Rightarrow> accept False
      | Some v \<Rightarrow> on_semantic (type_integer_literal_fits n v t))"

definition wide_literal_fits :: "nat \<Rightarrow> ast_expression \<Rightarrow> ast_type \<Rightarrow> bool check" where
  "wide_literal_fits n e t =
     (if semantic_integer_literal_expression_is_unsigned_wide e
      then on_semantic (type_unsigned_wide_literal_fits n t) else accept False)"

definition binary_operand_type ::
    "nat \<Rightarrow> source_span \<Rightarrow> ast_expression \<Rightarrow> ast_type \<Rightarrow> ast_expression \<Rightarrow> ast_type \<Rightarrow> ast_type check" where
  "binary_operand_type n sp left lt right rt =
     check_then (on_semantic (type_compatible n lt rt)) (\<lambda>same.
       if same then accept lt
       else check_then (literal_fits n right lt) (\<lambda>b1.
         if b1 then accept lt
         else check_then (wide_literal_fits n right lt) (\<lambda>b2.
           if b2 then accept lt
           else check_then (wide_literal_fits n left rt) (\<lambda>b3.
             if b3 then accept rt
             else check_then (literal_fits n left rt) (\<lambda>b4.
               if b4 then accept rt else body_fail E0400_Mismatched_Types sp)))))"

definition binary_result ::
    "nat \<Rightarrow> source_span \<Rightarrow> ast_binary_operation \<Rightarrow> ast_expression \<Rightarrow> ast_type \<Rightarrow> ast_expression \<Rightarrow> ast_type \<Rightarrow>
     ast_type check" where
  "binary_result n sp op left lt right rt =
     (if op = Binary_Logical_And \<or> op = Binary_Logical_Or then
        check_then (body_is_bool_convertible n lt) (\<lambda>left_ok.
          if \<not> left_ok then body_fail E0400_Mismatched_Types sp
          else check_then (body_is_bool_convertible n rt) (\<lambda>right_ok.
                 if right_ok then accept Type_Boolean else body_fail E0400_Mismatched_Types sp))
      else
        check_then (binary_operand_type n sp left lt right rt) (\<lambda>t.
          if binary_compares op then accept Type_Boolean
          else check_then (body_is_integer_like n t) (\<lambda>sign.
                 if sign \<noteq> None then accept t else body_fail E0602_Unsupported_Binary_Expression sp)))"

definition body_infer_binary ::
    "expression_inference \<Rightarrow> nat \<Rightarrow> ast_expression_header \<Rightarrow> ast_binary_operation \<Rightarrow> ast_expression \<Rightarrow>
     ast_expression \<Rightarrow> (ast_expression \<times> ast_type) check" where
  "body_infer_binary E n h op left right =
     with_body (\<lambda>b.
       let equality = (op = Binary_Equal \<or> op = Binary_Not_Equal); sp = expression_span h;
           left_null = (equality \<and> body_is_unbound_null_name b left);
           right_null = (equality \<and> body_is_unbound_null_name b right)
       in if left_null \<and> right_null then body_fail E0400_Mismatched_Types sp
          else if left_null
          then check_then (infer_null_comparison E n sp right left) (\<lambda>(right, left).
                 accept (Expression_Binary h op left right, Type_Boolean))
          else if right_null
          then check_then (infer_null_comparison E n sp left right) (\<lambda>(left, right).
                 accept (Expression_Binary h op left right, Type_Boolean))
          else check_then (E left) (\<lambda>(left, lt).
               check_then (E right) (\<lambda>(right, rt).
               check_then (binary_result n sp op left lt right rt) (\<lambda>t.
                 accept (Expression_Binary h op left right, t)))))"

section \<open>Conversions\<close>

definition body_infer_conversion ::
    "expression_inference \<Rightarrow> nat \<Rightarrow> ast_expression_header \<Rightarrow> ast_expression \<Rightarrow> ast_type \<Rightarrow>
     (ast_expression \<times> ast_type) check" where
  "body_infer_conversion E n h operand target =
     check_then (E operand) (\<lambda>(operand, source).
     check_then (on_semantic (type_conversion_classify n source target)) (\<lambda>conversion.
       if conversion = Conversion_Invalid then body_fail E0400_Mismatched_Types (expression_span h)
       else check_then (on_semantic (type_is_byte_vector_to_text_move n source target)) (\<lambda>moves.
            check_then (if moves then body_safety_move_expression E n operand None else accept operand) (\<lambda>operand.
              accept (Expression_Conversion h operand target, target)))))"

section \<open>Expressions\<close>

definition infer_expression_step ::
    "expression_inference \<Rightarrow> expression_check \<Rightarrow> nat \<Rightarrow> ast_expression \<Rightarrow> (ast_expression \<times> ast_type) check" where
  "infer_expression_step E X n e =
     (case e of
        Expression_Atom h a \<Rightarrow> infer_atom_expression E n h a
      | Expression_Call h l args index \<Rightarrow> body_infer_call E X n h l args index
      | Expression_Unary h op operand \<Rightarrow> body_infer_unary E n h op operand
      | Expression_Binary h op left right \<Rightarrow> body_infer_binary E n h op left right
      | Expression_Conversion h operand target \<Rightarrow> body_infer_conversion E n h operand target)"

definition check_expression_step ::
    "expression_inference \<Rightarrow> expression_check \<Rightarrow> nat \<Rightarrow> ast_type \<Rightarrow> ast_expression \<Rightarrow> source_span \<Rightarrow>
     ast_expression check" where
  "check_expression_step E X n expected e sp =
     check_then (body_try_check_builtin_tagged_construct E X n expected e) (\<lambda>tagged.
       case tagged of
         Some e \<Rightarrow> accept e
       | None \<Rightarrow>
           check_then (literal_fits n e expected) (\<lambda>fits.
             if fits then accept e
             else if semantic_integer_literal_expression_is_unsigned_wide e then
               check_then (on_semantic (type_unsigned_wide_literal_fits n expected)) (\<lambda>wide.
                 if wide then accept e else body_fail E0400_Mismatched_Types sp)
             else check_then (E (set_contextual_type expected e)) (\<lambda>(e, actual).
                  check_then (body_check_compatible n expected actual sp) (\<lambda>_. accept e))))"

fun body_infer_expression :: "nat \<Rightarrow> nat \<Rightarrow> ast_expression \<Rightarrow> (ast_expression \<times> ast_type) check"
  and body_check_expression_compatible ::
    "nat \<Rightarrow> nat \<Rightarrow> ast_type \<Rightarrow> ast_expression \<Rightarrow> source_span \<Rightarrow> ast_expression check" where
  "body_infer_expression n 0 e = (\<lambda>b. None)"
| "body_infer_expression n (Suc k) e =
     infer_expression_step (body_infer_expression n k) (body_check_expression_compatible n k) n e"
| "body_check_expression_compatible n 0 expected e sp = (\<lambda>b. None)"
| "body_check_expression_compatible n (Suc k) expected e sp =
     check_expression_step (body_infer_expression n k) (body_check_expression_compatible n k) n expected e sp"

end
