(* ===== verification/Body_Statement.thy ===== *)
theory Body_Statement
  imports Body_Expression
begin

text \<open>
  Statements and functions: declarations and initializers (\<open>body_initializer_*.c\<close>), matches
  (\<open>body_match.c\<close>), statements and blocks (\<open>body_statement.c\<close>), and the bodies of a program
  (\<open>body_program.c\<close>).

  A checked statement is returned with the marks of its expressions. The fuel \<open>k\<close> bounds the nesting of
  expressions; statements are checked by recursion on their structure.
\<close>

abbreviation infer_with :: "nat \<Rightarrow> nat \<Rightarrow> expression_inference" where
  "infer_with n k \<equiv> body_infer_expression n k"

abbreviation check_with :: "nat \<Rightarrow> nat \<Rightarrow> expression_check" where
  "check_with n k \<equiv> body_check_expression_compatible n k"

text \<open>A check with a step that is taken whether it accepts or refuses.\<close>

definition check_finally :: "'a check \<Rightarrow> (body \<Rightarrow> body) \<Rightarrow> 'a check" where
  "check_finally m f b = (case m b of None \<Rightarrow> None | Some (b1, x) \<Rightarrow> Some (f b1, x))"

definition allocation :: "bool check" where
  "allocation = on_sem (\<lambda>c. prod.swap (semantic_allocates c))"

section \<open>Declarations\<close>

definition body_push_local :: "semantic_local \<Rightarrow> source_span \<Rightarrow> unit check" where
  "body_push_local l sp =
     check_then allocation (\<lambda>granted.
       if granted then change_body (\<lambda>b. b\<lparr>bd_locals := bd_locals b @ [l]\<rparr>)
       else body_fail E1100_Internal_Context_Error sp)"

definition declares_mutable :: "ast_type option \<Rightarrow> bool" where
  "declares_mutable t \<longleftrightarrow> (case t of Some (Type_Mutable _) \<Rightarrow> True | _ \<Rightarrow> False)"

definition body_declare_local :: "nat \<Rightarrow> ast_variable_declaration \<Rightarrow> source_span \<Rightarrow> unit check" where
  "body_declare_local n d sp =
     with_body (\<lambda>b.
       let t = slot_type (variable_slot d);
           l = \<lparr>local_name = variable_name d, local_type = t, local_slot = Some (length (bd_slots b)),
                local_scope_depth = bd_scope_depth b, local_mutable = declares_mutable t,
                local_is_parameter = False, local_known_length = None,
                local_safety = safety_fact_init False, local_declaration_span = sp\<rparr>
       in if body_name_exists_in_current_scope b l
          then body_fail (case variable_name d of
                            Base_Temporary _ \<Rightarrow> E0206_Duplicate_Temporary
                          | Base_Identifier _ \<Rightarrow> E0205_Duplicate_Declaration) sp
          else check_then
                 (case t of None \<Rightarrow> accept () | Some t \<Rightarrow> check_then (demand (layout_type n t)) (\<lambda>_. accept ())) (\<lambda>_.
               check_then (body_push_local l sp) (\<lambda>_.
                 change_body (\<lambda>b. b\<lparr>bd_slots := bd_slots b @ [t]\<rparr>))))"

section \<open>Initializers\<close>

definition mark_initialized :: "source_span \<Rightarrow> safety_fact \<Rightarrow> safety_fact" where
  "mark_initialized sp f = the (safety_fact_mark_initialized_at (Some f) sp)"

definition body_initialize :: "nat option \<Rightarrow> source_span \<Rightarrow> unit check" where
  "body_initialize i sp =
     change_body (case i of None \<Rightarrow> id | Some i \<Rightarrow> update_safety i (mark_initialized sp))"

text \<open>A value moved out of an atom when its type is one that moves.\<close>

definition check_contained_atom ::
    "expression_inference \<Rightarrow> nat \<Rightarrow> ast_type \<Rightarrow> source_span \<Rightarrow> ast_atom \<Rightarrow> ast_atom check" where
  "check_contained_atom E n t sp a =
     check_then (body_check_atom_compatible E n t a sp) (\<lambda>a.
     check_then (type_moves n t) (\<lambda>move.
       if move then body_safety_move_atom E n a sp else accept a))"

definition body_check_box_init ::
    "expression_inference \<Rightarrow> nat \<Rightarrow> source_span \<Rightarrow> ast_lvalue \<Rightarrow> ast_atom \<Rightarrow> (ast_lvalue \<times> ast_atom) check" where
  "body_check_box_init E n sp l a =
     check_then (body_check_assignable E n l) (\<lambda>(l, t, i).
     check_then (demand (type_resolve n t)) (\<lambda>r.
       case rt_inner r of
         None \<Rightarrow> body_fail E0400_Mismatched_Types sp
       | Some inner \<Rightarrow>
           if rt_kind r \<noteq> RT_Box then body_fail E0400_Mismatched_Types sp
           else check_then (check_contained_atom E n inner sp a) (\<lambda>a.
                check_then (body_initialize i sp) (\<lambda>_. accept (l, a)))))"

primrec check_contained_atoms ::
    "expression_inference \<Rightarrow> nat \<Rightarrow> ast_type \<Rightarrow> source_span \<Rightarrow> ast_atom list \<Rightarrow> ast_atom list check" where
  "check_contained_atoms E n t sp [] = accept []"
| "check_contained_atoms E n t sp (a # as) =
     check_then (check_contained_atom E n t sp a) (\<lambda>a.
     check_then (check_contained_atoms E n t sp as) (\<lambda>as. accept (a # as)))"

definition body_check_vector_init ::
    "expression_inference \<Rightarrow> nat \<Rightarrow> source_span \<Rightarrow> ast_lvalue \<Rightarrow> ast_atom list \<Rightarrow> (ast_lvalue \<times> ast_atom list) check" where
  "body_check_vector_init E n sp l as =
     check_then (body_check_assignable E n l) (\<lambda>(l, t, i).
     check_then (demand (type_resolve n t)) (\<lambda>r.
       if rt_kind r \<noteq> RT_Vector then body_fail E0400_Mismatched_Types sp
       else check_then (known (rt_inner r)) (\<lambda>element.
            check_then (on_semantic (memory_type_contains_view n element)) (\<lambda>view.
              if view then body_fail E1303_Reference_Escape sp
              else check_then (check_contained_atoms E n element sp as) (\<lambda>as.
                   check_then (change_body (case i of None \<Rightarrow> id
                     | Some i \<Rightarrow> update_local i (\<lambda>l. l\<lparr>local_known_length := Some (of_nat (length as))\<rparr>))) (\<lambda>_.
                   check_then (body_initialize i sp) (\<lambda>_. accept (l, as))))))))"

definition struct_field_index :: "ast_struct_field list \<Rightarrow> text_slice \<Rightarrow> nat option" where
  "struct_field_index fs name =
     List.find (\<lambda>i. text_slice_equals (struct_field_name (fs ! i)) name) [0..<length fs]"

text \<open>The loop over the inputs of a record, with the fields already given.\<close>

primrec check_record_inputs ::
    "expression_inference \<Rightarrow> expression_check \<Rightarrow> nat \<Rightarrow> source_span \<Rightarrow> nat option \<Rightarrow> ast_struct_field list \<Rightarrow>
     (text_slice \<times> ast_expression) list \<Rightarrow> nat list \<Rightarrow> ((text_slice \<times> ast_expression) list \<times> nat list) check" where
  "check_record_inputs E X n sp i fs [] seen = accept ([], seen)"
| "check_record_inputs E X n sp i fs (input # inputs) seen =
     (case struct_field_index fs (fst input) of
        None \<Rightarrow> body_fail E0502_Unknown_Record_Member sp
      | Some j \<Rightarrow>
          if j \<in> set seen then body_fail E0615_Record_Field_Duplicate sp
          else check_then (X (slot_type (struct_field_slot (fs ! j))) (snd input) sp) (\<lambda>e.
               check_then (body_safety_transfer_expression E n e i) (\<lambda>e.
               check_then (check_record_inputs E X n sp i fs inputs (j # seen)) (\<lambda>(inputs, seen).
                 accept ((fst input, e) # inputs, seen)))))"

definition resolved_struct_fields :: "semantic_context \<Rightarrow> resolved_type \<Rightarrow> ast_struct_field list option" where
  "resolved_struct_fields c r =
     (case Option.bind (rt_named r) (\<lambda>e. te_declaration (type_entry_at c e)) of
        None \<Rightarrow> None
      | Some d \<Rightarrow> (case decl_body d of Decl_Struct fs \<Rightarrow> Some fs | _ \<Rightarrow> None))"

definition body_check_record_init ::
    "expression_inference \<Rightarrow> expression_check \<Rightarrow> nat \<Rightarrow> source_span \<Rightarrow> ast_lvalue \<Rightarrow>
     (text_slice \<times> ast_expression) list \<Rightarrow> (ast_lvalue \<times> (text_slice \<times> ast_expression) list) check" where
  "body_check_record_init E X n sp l inputs =
     check_then (body_check_assignable E n l) (\<lambda>(l, t, i).
     check_then (demand (type_resolve n t)) (\<lambda>r.
       if rt_kind r \<noteq> RT_Struct \<or> rt_named r = None then body_fail E0400_Mismatched_Types sp
       else with_body (\<lambda>b.
            check_then (known (resolved_struct_fields (bd_semantic b) r)) (\<lambda>fs.
            check_then (on_sem (generic_array fs)) (\<lambda>granted.
              if \<not> granted then body_fail E1100_Internal_Context_Error sp
              else check_then (check_record_inputs E X n sp i fs inputs []) (\<lambda>(inputs, seen).
                   if \<not> list_all (\<lambda>j. j \<in> set seen) [0..<length fs]
                   then body_fail E0614_Record_Field_Missing sp
                   else check_then (body_initialize i sp) (\<lambda>_. accept (l, inputs))))))))"

section \<open>Matches\<close>

text \<open>
  What the cases so far cover: for each constructor the pattern that covers it, the pattern that covers
  everything, and the facts after the cases that fall through.
\<close>

record match_coverage =
  covered_constructors :: "source_span option list"
  covered_all :: "source_span option"
  fallthrough_facts :: "body_snapshot option"

definition fully_covered_count :: "match_coverage \<Rightarrow> nat" where
  "fully_covered_count m = length (filter (\<lambda>x. x \<noteq> None) (covered_constructors m))"

definition match_constructor_count :: "semantic_context \<Rightarrow> ast_type \<Rightarrow> resolved_type \<Rightarrow> nat" where
  "match_constructor_count c t r =
     (if type_is_builtin_tagged t then type_tagged_constructor_count t
      else (case (rt_kind r, Option.bind (rt_named r) (\<lambda>e. te_declaration (type_entry_at c e))) of
              (RT_Enum, Some d) \<Rightarrow> (case decl_body d of Decl_Enum ks \<Rightarrow> length ks | _ \<Rightarrow> 0)
            | _ \<Rightarrow> 0))"

definition match_start :: "nat \<Rightarrow> source_span \<Rightarrow> match_coverage check" where
  "match_start count sp =
     (let m = \<lparr>covered_constructors = replicate count None, covered_all = None, fallthrough_facts = None\<rparr>
      in if count = 0 then accept m
         else check_then allocation (\<lambda>first.
              check_then allocation (\<lambda>second.
                if first \<and> second then accept m else body_fail E1100_Internal_Context_Error sp)))"

definition report_unreachable_pattern :: "source_span \<Rightarrow> source_span option \<Rightarrow> 'a check" where
  "report_unreachable_pattern sp earlier =
     body_report E1307_Unreachable_Pattern sp
       (explain_span earlier Role_Earlier_Coverage
        \<circ> (\<lambda>d. diagnostic_set_primary_role d Role_Unreachable_Pattern))"

text \<open>The pattern of a case: it must be reachable, and extends the coverage.\<close>

definition cover_case :: "pattern_analysis \<Rightarrow> source_span \<Rightarrow> match_coverage \<Rightarrow> match_coverage check" where
  "cover_case a sp m =
     (let i = analysis_top_index a;
          constructor = (analysis_has_top_constructor a \<and> analysis_top_fully_covered a
                         \<and> covered_constructors m \<noteq> []);
          m1 = (if constructor then m\<lparr>covered_constructors := (covered_constructors m)[i := Some sp]\<rparr> else m)
      in if constructor \<and> covered_constructors m ! i \<noteq> None
         then report_unreachable_pattern sp (covered_constructors m ! i)
         else accept (if analysis_irrefutable a then m1\<lparr>covered_all := Some sp\<rparr> else m1))"

definition analyze_case :: "nat \<Rightarrow> ast_type \<Rightarrow> ast_pattern \<Rightarrow> pattern_analysis check" where
  "analyze_case n t p =
     check_then (on_semantic (\<lambda>c. map_option (\<lambda>(c, a, err). (c, (a, err))) (pattern_analyze n t p pattern_analysis_init c))) (\<lambda>(a, err).
       case err of
         None \<Rightarrow> accept a
       | Some x \<Rightarrow> body_fail (pattern_error_id x) (pattern_error_span x))"

definition truncate_locals :: "nat \<Rightarrow> body \<Rightarrow> body" where
  "truncate_locals count b = b\<lparr>bd_locals := take count (bd_locals b)\<rparr>"

definition binding_local :: "size_t \<Rightarrow> pattern_binding \<Rightarrow> semantic_local" where
  "binding_local depth p =
     \<lparr>local_name = Base_Identifier (binding_name p), local_type = Some (binding_type p), local_slot = None,
      local_scope_depth = depth, local_mutable = False, local_is_parameter = False,
      local_known_length = None, local_safety = mark_initialized (binding_span p) (safety_fact_init True),
      local_declaration_span = binding_span p\<rparr>"

primrec push_bindings :: "source_span \<Rightarrow> pattern_binding list \<Rightarrow> unit check" where
  "push_bindings sp [] = accept ()"
| "push_bindings sp (p # ps) =
     check_then (with_body (\<lambda>b. body_push_local (binding_local (bd_scope_depth b + 1) p) sp)) (\<lambda>_.
       push_bindings sp ps)"

text \<open>A case that falls through joins the facts of those before it.\<close>

definition join_fallthrough :: "match_coverage \<Rightarrow> match_coverage check" where
  "join_fallthrough m =
     check_then body_safety_capture (\<lambda>after.
       case fallthrough_facts m of
         None \<Rightarrow> accept (m\<lparr>fallthrough_facts := Some after\<rparr>)
       | Some accumulated \<Rightarrow>
           check_then (change_body (body_safety_merge accumulated after)) (\<lambda>_.
           check_then body_safety_capture (\<lambda>joined. accept (m\<lparr>fallthrough_facts := Some joined\<rparr>))))"

text \<open>One case, given the check of its block.\<close>

definition check_case ::
    "nat \<Rightarrow> source_span \<Rightarrow> ast_type \<Rightarrow> body_snapshot \<Rightarrow> (ast_block \<times> bool) check \<Rightarrow> ast_pattern \<Rightarrow>
     match_coverage \<Rightarrow> (ast_block \<times> match_coverage) check" where
  "check_case n sp t entry_facts check_body p m =
     (if covered_all m \<noteq> None then report_unreachable_pattern (pattern_span p) (covered_all m)
      else check_then (analyze_case n t p) (\<lambda>a.
           check_then (cover_case a (pattern_span p) m) (\<lambda>m.
           check_then (change_body (truncate_locals (length entry_facts) \<circ> body_safety_restore entry_facts)) (\<lambda>_.
           check_then
             (check_finally (check_then (push_bindings sp (analysis_bindings a)) (\<lambda>_. check_body))
                (truncate_locals (length entry_facts))) (\<lambda>(block, falls).
           check_then (if falls then join_fallthrough m else accept m) (\<lambda>m. accept (block, m)))))))"

text \<open>The name of a pattern that is missing, cut to the size of the argument.\<close>

definition missing_pattern_text :: "semantic_context \<Rightarrow> ast_type \<Rightarrow> resolved_type \<Rightarrow> nat \<Rightarrow> bytes" where
  "missing_pattern_text c t r i =
     (case type_unwrap_mutable t of
        Type_Option _ \<Rightarrow>
          if i = 0 then [0x6E, 0x6F, 0x6E, 0x65] else [0x73, 0x6F, 0x6D, 0x65, 0x28, 0x5F, 0x29]
      | Type_Result _ _ \<Rightarrow>
          if i = 0 then [0x6F, 0x6B, 0x28, 0x5F, 0x29] else [0x65, 0x72, 0x72, 0x28, 0x5F, 0x29]
      | _ \<Rightarrow>
          (case (rt_kind r, Option.bind (rt_named r) (\<lambda>e. te_declaration (type_entry_at c e))) of
             (RT_Enum, Some d) \<Rightarrow>
               (case decl_body d of
                  Decl_Enum ks \<Rightarrow>
                    if i < length ks
                    then take (diagnostic_max_argument_value - 4) (constructor_name (ks ! i))
                         @ (if constructor_payload_slots (ks ! i) = [] then [] else [0x28, 0x5F, 0x29])
                    else [0x5F]
                | _ \<Rightarrow> [0x5F])
           | _ \<Rightarrow> [0x5F]))"

definition report_missing_pattern :: "ast_type \<Rightarrow> resolved_type \<Rightarrow> match_coverage \<Rightarrow> source_span \<Rightarrow> 'a check" where
  "report_missing_pattern t r m sp =
     with_body (\<lambda>b.
       let missing = List.find (\<lambda>i. covered_constructors m ! i = None) [0..<length (covered_constructors m)];
           shown = (case missing of None \<Rightarrow> [0x5F] | Some i \<Rightarrow> missing_pattern_text (bd_semantic b) t r i)
       in body_report E1306_Non_Exhaustive_Pattern sp
            (explain_help Diag_Word_Help_Add_Pattern
             \<circ> explain_note Diag_Word_Note_Missing_Pattern
             \<circ> (\<lambda>d. snd (diagnostic_set_argument_cstr d Argument_Pattern (Some shown)))
             \<circ> (\<lambda>d. diagnostic_set_message_key d Diag_Word_Pattern_Missing)))"

definition match_exhaustive :: "match_coverage \<Rightarrow> bool" where
  "match_exhaustive m \<longleftrightarrow>
     covered_all m \<noteq> None
     \<or> covered_constructors m \<noteq> [] \<and> fully_covered_count m = length (covered_constructors m)"

definition finish_match ::
    "source_span \<Rightarrow> ast_type \<Rightarrow> resolved_type \<Rightarrow> body_snapshot \<Rightarrow> match_coverage \<Rightarrow> unit check" where
  "finish_match sp t r entry_facts m =
     (if \<not> match_exhaustive m then report_missing_pattern t r m sp
      else change_body
        ((\<lambda>b. b\<lparr>bd_falls_through := (fallthrough_facts m \<noteq> None)\<rparr>)
         \<circ> body_safety_restore (case fallthrough_facts m of None \<Rightarrow> entry_facts | Some facts \<Rightarrow> facts)))"

section \<open>Statements\<close>

text \<open>The condition of a loop or branch; every failure is a mismatch.\<close>

definition check_condition :: "expression_inference \<Rightarrow> nat \<Rightarrow> source_span \<Rightarrow> ast_expression \<Rightarrow> ast_expression check" where
  "check_condition E n sp e =
     check_or_fail
       (check_then (E e) (\<lambda>(e, t).
        check_then (body_is_bool_convertible n t) (\<lambda>ok. if ok then accept e else refuse)))
       E0400_Mismatched_Types sp"

definition set_falls_through :: "bool \<Rightarrow> unit check" where
  "set_falls_through falls = change_body (\<lambda>b. b\<lparr>bd_falls_through := falls\<rparr>)"

text \<open>A destination without a type takes the type of the value, and so does its slot.\<close>

definition body_infer_destination ::
    "expression_inference \<Rightarrow> ast_lvalue \<Rightarrow> ast_expression \<Rightarrow> (ast_expression \<times> bool) check" where
  "body_infer_destination E l e =
     with_body (\<lambda>b.
       case body_find_local b l of
         None \<Rightarrow> accept (e, False)
       | Some i \<Rightarrow>
           if local_type (local_at b i) \<noteq> None then accept (e, False)
           else check_then (E e) (\<lambda>(e, t).
                check_then (change_body (\<lambda>b.
                  (case local_slot (local_at b i) of
                     None \<Rightarrow> id
                   | Some s \<Rightarrow> (\<lambda>b. b\<lparr>bd_slots := (bd_slots b)[s := Some t]\<rparr>))
                  (update_local i (\<lambda>l. l\<lparr>local_type := Some t, local_mutable := True\<rparr>) b))) (\<lambda>_.
                  accept (e, True))))"

text \<open>The length of an assigned text literal.\<close>

fun literal_text_length :: "ast_expression \<Rightarrow> size_t option" where
  "literal_text_length (Expression_Atom _ (Atom_Literal (Literal_String _ s))) = Some (of_nat (length s))"
| "literal_text_length _ = None"

definition body_check_copy ::
    "nat \<Rightarrow> nat \<Rightarrow> source_span \<Rightarrow> ast_lvalue \<Rightarrow> ast_expression \<Rightarrow> (ast_lvalue \<times> ast_expression) check" where
  "body_check_copy n k sp l e =
     check_then (body_infer_destination (infer_with n k) l e) (\<lambda>(e, inferred).
     check_then (body_check_assignable (infer_with n k) n l) (\<lambda>(l, t, i).
     check_then (if inferred then accept e else check_with n k t e sp) (\<lambda>e.
     check_then (body_safety_transfer_expression (infer_with n k) n e i) (\<lambda>e.
     check_then (change_body (case i of None \<Rightarrow> id
       | Some i \<Rightarrow> update_local i (\<lambda>l. l\<lparr>local_known_length := literal_text_length e\<rparr>))) (\<lambda>_.
     check_then (body_initialize i sp) (\<lambda>_. accept (l, e)))))))"

definition body_check_return ::
    "nat \<Rightarrow> nat \<Rightarrow> source_span \<Rightarrow> ast_expression option \<Rightarrow> ast_expression option check" where
  "body_check_return n k sp value_expression =
     with_body (\<lambda>b.
     check_then (known (body_output_type b)) (\<lambda>expected.
     check_then (demand (type_resolve n expected)) (\<lambda>r.
     check_then
       (case value_expression of
          None \<Rightarrow> if rt_kind r \<noteq> RT_Void then body_fail E0400_Mismatched_Types sp else accept None
        | Some e \<Rightarrow>
            if rt_kind r = RT_Void then body_fail E0400_Mismatched_Types sp
            else check_then (check_with n k expected e sp) (\<lambda>e.
                 check_then (body_safety_check_return_reference n e) (\<lambda>_.
                 check_then (body_safety_check_return_composite_view n e) (\<lambda>_.
                 check_then (type_moves n expected) (\<lambda>move.
                 check_then
                   (if move \<and> safety_type_is_reference (Some expected) = None
                    then body_safety_move_expression (infer_with n k) n e None else accept e) (\<lambda>e.
                   accept (Some e))))))) (\<lambda>checked.
     check_then (set_falls_through False) (\<lambda>_. accept checked)))))"

text \<open>The facts after a loop, whose body may not run, and after a branch.\<close>

definition close_loop :: "body_snapshot \<Rightarrow> body_snapshot \<Rightarrow> bool \<Rightarrow> body \<Rightarrow> body" where
  "close_loop entry_facts after falls b =
     (let b1 = body_safety_restore entry_facts b
      in (if falls then body_safety_merge entry_facts after b1 else b1)\<lparr>bd_falls_through := True\<rparr>)"

definition close_branch ::
    "body_snapshot \<Rightarrow> body_snapshot \<Rightarrow> body_snapshot \<Rightarrow> bool \<Rightarrow> bool \<Rightarrow> body \<Rightarrow> body" where
  "close_branch entry_facts on_true on_false true_falls false_falls b =
     (if true_falls \<and> false_falls then body_safety_merge on_true on_false b
      else if true_falls then body_safety_restore on_true b
      else if false_falls then body_safety_restore on_false b
      else body_safety_restore entry_facts b)\<lparr>bd_falls_through := (true_falls \<or> false_falls)\<rparr>"

text \<open>A block, given the check of its statements: its locals and their loans end with it.\<close>

definition enter_scope :: "body \<Rightarrow> body" where
  "enter_scope b = b\<lparr>bd_scope_depth := bd_scope_depth b + 1\<rparr>"

definition leave_scope :: "nat \<Rightarrow> body \<Rightarrow> body" where
  "leave_scope saved b =
     (let b1 = truncate_locals saved (body_safety_release_scope saved b)
      in b1\<lparr>bd_scope_depth := bd_scope_depth b1 - 1\<rparr>)"

definition check_scope :: "('a \<times> bool) check \<Rightarrow> ('a \<times> bool) check" where
  "check_scope m =
     with_body (\<lambda>b.
       let saved = length (bd_locals b)
       in check_then (change_body enter_scope) (\<lambda>_.
          check_then (check_finally m (leave_scope saved)) (\<lambda>(x, falls).
          check_then (set_falls_through falls) (\<lambda>_. accept (x, falls)))))"

fun body_check_statement :: "nat \<Rightarrow> nat \<Rightarrow> ast_statement \<Rightarrow> ast_statement check"
  and body_check_block_flow :: "nat \<Rightarrow> nat \<Rightarrow> ast_block \<Rightarrow> (ast_block \<times> bool) check"
  and body_check_statements :: "nat \<Rightarrow> nat \<Rightarrow> ast_statement list \<Rightarrow> bool \<Rightarrow> (ast_statement list \<times> bool) check"
  and body_check_cases ::
    "nat \<Rightarrow> nat \<Rightarrow> source_span \<Rightarrow> ast_type \<Rightarrow> body_snapshot \<Rightarrow> (ast_pattern \<times> ast_block) list \<Rightarrow> match_coverage \<Rightarrow>
     ((ast_pattern \<times> ast_block) list \<times> match_coverage) check" where
  "body_check_statement n k (Statement_Variable sp d) =
     check_then (body_declare_local n d sp) (\<lambda>_. accept (Statement_Variable sp d))"
| "body_check_statement n k (Statement_Copy sp l e) =
     check_then (body_check_copy n k sp l e) (\<lambda>(l, e). accept (Statement_Copy sp l e))"
| "body_check_statement n k (Statement_Initialize_Record sp l inputs) =
     check_then (body_check_record_init (infer_with n k) (check_with n k) n sp l inputs) (\<lambda>(l, inputs).
       accept (Statement_Initialize_Record sp l inputs))"
| "body_check_statement n k (Statement_Initialize_Vector sp l as) =
     check_then (body_check_vector_init (infer_with n k) n sp l as) (\<lambda>(l, as).
       accept (Statement_Initialize_Vector sp l as))"
| "body_check_statement n k (Statement_Initialize_Box sp l a) =
     check_then (body_check_box_init (infer_with n k) n sp l a) (\<lambda>(l, a).
       accept (Statement_Initialize_Box sp l a))"
| "body_check_statement n k (Statement_While sp e block) =
     check_then (check_condition (infer_with n k) n sp e) (\<lambda>e.
     check_then body_safety_capture (\<lambda>entry_facts.
     check_then (body_check_block_flow n k block) (\<lambda>(block, falls).
     check_then body_safety_capture (\<lambda>after.
     check_then (change_body (close_loop entry_facts after falls)) (\<lambda>_.
       accept (Statement_While sp e block))))))"
| "body_check_statement n k (Statement_If sp e then_block else_block) =
     check_then (check_condition (infer_with n k) n sp e) (\<lambda>e.
     check_then body_safety_capture (\<lambda>entry_facts.
     check_then (body_check_block_flow n k then_block) (\<lambda>(then_block, true_falls).
     check_then body_safety_capture (\<lambda>on_true.
     check_then (change_body (body_safety_restore entry_facts)) (\<lambda>_.
     check_then
       (case else_block of
          None \<Rightarrow> accept (None, True)
        | Some block \<Rightarrow>
            check_then (body_check_block_flow n k block) (\<lambda>(block, falls). accept (Some block, falls)))
       (\<lambda>(else_block, false_falls).
     check_then body_safety_capture (\<lambda>on_false.
     check_then (change_body (close_branch entry_facts on_true on_false true_falls false_falls)) (\<lambda>_.
       accept (Statement_If sp e then_block else_block)))))))))"
| "body_check_statement n k (Statement_Match sp e cases) =
     check_then (infer_with n k e) (\<lambda>(e, t).
     check_then (demand (type_resolve n t)) (\<lambda>r.
     check_then (with_body (\<lambda>b. match_start (match_constructor_count (bd_semantic b) t r) sp)) (\<lambda>m.
     check_then body_safety_capture (\<lambda>entry_facts.
     check_then (body_check_cases n k sp t entry_facts cases m) (\<lambda>(cases, m).
     check_then (finish_match sp t r entry_facts m) (\<lambda>_.
       accept (Statement_Match sp e cases)))))))"
| "body_check_statement n k (Statement_Unsafe sp block) =
     check_then (change_body (\<lambda>b. b\<lparr>bd_unsafe_depth := bd_unsafe_depth b + 1\<rparr>)) (\<lambda>_.
     check_then
       (check_finally (body_check_block_flow n k block)
          (\<lambda>b. b\<lparr>bd_unsafe_depth := bd_unsafe_depth b - 1\<rparr>)) (\<lambda>(block, falls).
     check_then (set_falls_through falls) (\<lambda>_. accept (Statement_Unsafe sp block))))"
| "body_check_statement n k (Statement_Return sp e) =
     check_then (body_check_return n k sp e) (\<lambda>e. accept (Statement_Return sp e))"
| "body_check_block_flow n k (Block sp statements) =
     check_then (check_scope (body_check_statements n k statements True)) (\<lambda>(statements, falls).
       accept (Block sp statements, falls))"
| "body_check_statements n k [] falls = accept ([], falls)"
| "body_check_statements n k (s # ss) falls =
     (if \<not> falls then accept (s # ss, False)
      else check_then (set_falls_through True) (\<lambda>_.
           check_then (body_check_statement n k s) (\<lambda>s.
           check_then (with_body (\<lambda>b. body_check_statements n k ss (bd_falls_through b))) (\<lambda>(ss, falls).
             accept (s # ss, falls)))))"
| "body_check_cases n k sp t entry_facts [] m = accept ([], m)"
| "body_check_cases n k sp t entry_facts (x # xs) m =
     check_then (check_case n sp t entry_facts (body_check_block_flow n k (snd x)) (fst x) m) (\<lambda>(block, m).
     check_then (body_check_cases n k sp t entry_facts xs m) (\<lambda>(xs, m).
       accept ((fst x, block) # xs, m)))"

section \<open>Functions\<close>

definition parameter_local :: "source_span \<Rightarrow> bool \<Rightarrow> nat \<Rightarrow> ast_function_parameter \<Rightarrow> semantic_local" where
  "parameter_local sp view i p =
     (let t = slot_type (parameter_slot p); f = mark_initialized sp (safety_fact_init True)
      in \<lparr>local_name = Base_Identifier (parameter_name p), local_type = Some t, local_slot = Some i,
          local_scope_depth = 0, local_mutable = declares_mutable (Some t), local_is_parameter = True,
          local_known_length = None,
          local_safety = (if view then f\<lparr>fact_lifetime_region := 0, fact_origin_parameter := of_nat i\<rparr> else f),
          local_declaration_span = sp\<rparr>)"

text \<open>The failures of a function as a whole do not name it.\<close>

definition function_fail :: "error_id \<Rightarrow> source_span \<Rightarrow> 'a check" where
  "function_fail i sp b = Some (b\<lparr>bd_semantic := semantic_fail (bd_semantic b) i sp\<rparr>, None)"

primrec push_parameters :: "nat \<Rightarrow> source_span \<Rightarrow> nat \<Rightarrow> ast_function_parameter list \<Rightarrow> unit check" where
  "push_parameters n sp i [] = accept ()"
| "push_parameters n sp i (p # ps) =
     check_then
       (if safety_type_is_reference (Some (slot_type (parameter_slot p))) \<noteq> None then accept True
        else on_semantic (memory_type_contains_view n (slot_type (parameter_slot p)))) (\<lambda>view.
     check_then
       (with_body (\<lambda>b.
          let l = parameter_local sp view i p
          in if body_name_exists_in_current_scope b l then function_fail E0205_Duplicate_Declaration sp
             else check_then allocation (\<lambda>granted.
                    if granted
                    then change_body (\<lambda>b. b\<lparr>bd_locals := bd_locals b @ [l], bd_slots := bd_slots b @ [local_type l]\<rparr>)
                    else function_fail E1100_Internal_Context_Error sp))) (\<lambda>_.
       push_parameters n sp (i + 1) ps))"

definition check_function_body :: "nat \<Rightarrow> nat \<Rightarrow> ast_function \<Rightarrow> ast_block check" where
  "check_function_body n k f =
     check_then (push_parameters n (function_span f) 0 (function_parameters f)) (\<lambda>_.
     check_then (known (function_body f)) (\<lambda>block.
     check_then (body_check_block_flow n k block) (\<lambda>(block, falls).
     check_then (demand (type_resolve n (slot_type (function_output f)))) (\<lambda>r.
       if falls \<and> rt_kind r \<noteq> RT_Void then function_fail E1308_Missing_Return_Path (function_span f)
       else accept block))))"

definition body_start :: "semantic_context \<Rightarrow> function_ref \<Rightarrow> body" where
  "body_start c r =
     \<lparr>bd_semantic = c\<lparr>sc_active_unit := fe_unit (function_entry_at c r)\<rparr>, bd_function = r, bd_locals = [],
      bd_slots = [], bd_scope_depth = 0, bd_unsafe_depth = 0, bd_falls_through = True\<rparr>"

text \<open>The checked body, with its marks, is the body of the function from then on.\<close>

definition check_function :: "nat \<Rightarrow> nat \<Rightarrow> function_ref \<Rightarrow> bool run" where
  "check_function n k r c =
     (case fe_function (function_entry_at c r) of
        None \<Rightarrow> None
      | Some f \<Rightarrow>
          (case check_function_body n k f (body_start c r) of
             None \<Rightarrow> None
           | Some (b, None) \<Rightarrow> Some (bd_semantic b, False)
           | Some (b, Some block) \<Rightarrow>
               Some (update_function_entry r (\<lambda>e. e\<lparr>fe_function := Some (f\<lparr>function_body := Some block\<rparr>)\<rparr>)
                       (bd_semantic b), True)))"

definition function_has_own_body :: "semantic_function_entry \<Rightarrow> bool" where
  "function_has_own_body e \<longleftrightarrow>
     \<not> fe_is_generic_template e
     \<and> (case fe_function e of None \<Rightarrow> False | Some f \<Rightarrow> \<not> function_external f)"

primrec check_collected_functions :: "nat \<Rightarrow> nat \<Rightarrow> nat list \<Rightarrow> bool run" where
  "check_collected_functions n k [] c = Some (c, True)"
| "check_collected_functions n k (i # is) c =
     (if \<not> function_has_own_body (sc_functions c ! i) then check_collected_functions n k is c
      else do {
        (c1, ok) \<leftarrow> check_function n k (Collected_Function i) c;
        if ok then check_collected_functions n k is c1 else Some (c1, False)
      })"

text \<open>The loop over the instances, whose number grows while they are checked; \<open>turns\<close> bounds it.\<close>

primrec check_instance_functions :: "nat \<Rightarrow> nat \<Rightarrow> nat \<Rightarrow> nat \<Rightarrow> bool run" where
  "check_instance_functions n k 0 i c = None"
| "check_instance_functions n k (Suc turns) i c =
     (if i \<ge> length (sc_generic_functions c) then Some (c, True)
      else do {
        (c1, ok) \<leftarrow> check_function n k (Instance_Function i) c;
        if ok then check_instance_functions n k turns (i + 1) c1 else Some (c1, False)
      })"

definition semantic_check_bodies :: "nat \<Rightarrow> nat \<Rightarrow> bool run" where
  "semantic_check_bodies n k c =
     do {
       (c1, ok) \<leftarrow> check_collected_functions n k [0..<length (sc_functions c)] c;
       if ok then check_instance_functions n k n 0 c1 else Some (c1, False)
     }"

end
