(* ===== verification/Body_Example.thy ===== *)
theory Body_Example
  imports Body_Statement Check_Program
begin

text \<open>
  Small bodies on which the properties of the checks are seen at work: locals are temporaries, values
  are integers, boxes of integers and references to them.
\<close>

definition plain_header :: ast_expression_header where
  "plain_header = \<lparr>expression_span = zero_span, expression_contextual_type = None, expression_effects_applied = False,
     expression_null_pointer = False\<rparr>"

definition place :: "temporary_id \<Rightarrow> ast_lvalue" where
  "place x = Lvalue_Base zero_span (Base_Temporary x)"

definition read_place :: "temporary_id \<Rightarrow> ast_expression" where
  "read_place x = Expression_Atom plain_header (Atom_Lvalue (place x))"

definition number :: "i64 \<Rightarrow> ast_expression" where
  "number v = Expression_Atom plain_header (Atom_Literal (Literal_Integer zero_span v [] False))"

definition truth :: ast_expression where
  "truth = Expression_Atom plain_header (Atom_Literal (Literal_Boolean zero_span True))"

definition declare_place :: "temporary_id \<Rightarrow> ast_type option \<Rightarrow> ast_statement" where
  "declare_place x t = Statement_Variable zero_span
     \<lparr>variable_name = Base_Temporary x, variable_slot = \<lparr>slot_span = zero_span, slot_type = t\<rparr>\<rparr>"

definition assign :: "temporary_id \<Rightarrow> ast_expression \<Rightarrow> ast_statement" where
  "assign x e = Statement_Copy zero_span (place x) e"

definition block_of :: "ast_statement list \<Rightarrow> ast_block" where
  "block_of ss = Block zero_span ss"

text \<open>A local of the outermost scope that holds a value.\<close>

definition holding :: "temporary_id \<Rightarrow> ast_type \<Rightarrow> semantic_local" where
  "holding x t = \<lparr>local_name = Base_Temporary x, local_type = Some t, local_slot = None, local_scope_depth = 0,
     local_mutable = True, local_is_parameter = False, local_known_length = None,
     local_safety = safety_fact_init True, local_declaration_span = zero_span\<rparr>"

definition example_body :: "semantic_local list \<Rightarrow> body" where
  "example_body ls = (body_start example_program (Collected_Function 0))\<lparr>bd_locals := ls\<rparr>"

definition outcome :: "(body \<times> 'a option) option \<Rightarrow> error_id option option" where
  "outcome r = map_option (\<lambda>(d, x). if x = None then Some (diag_id (sc_diagnostic (bd_semantic d))) else None) r"

end
