(* ===== verification/Body_Frame.thy ===== *)
theory Body_Frame
  imports Body_Statement
begin

text \<open>
  What every check of a body keeps. The checks rest on the kernels only through the laws of the locale
  \<open>kernel_laws\<close>: a relation \<open>K\<close> of semantic contexts that every kernel routine respects. From them follows
  that a check of an expression changes nothing but the facts and known lengths of locals and the
  context (\<open>calm\<close>), and the expression it returns differs from the given one in marks only
  (\<open>unmark_expression\<close>); and that a statement keeps the scopes, the function, and the locals that were
  there before it (\<open>framed\<close>).
\<close>

section \<open>Expressions without marks\<close>

definition unmark_header :: "ast_expression_header \<Rightarrow> ast_expression_header" where
  "unmark_header h = h\<lparr>expression_contextual_type := None, expression_effects_applied := False,
     expression_null_pointer := False\<rparr>"

text \<open>The index of an instance, which a call gets from its check, is a mark as well.\<close>

primrec unmark_lvalue :: "ast_lvalue \<Rightarrow> ast_lvalue"
  and unmark_atom :: "ast_atom \<Rightarrow> ast_atom"
  and unmark_expression :: "ast_expression \<Rightarrow> ast_expression" where
  "unmark_lvalue (Lvalue_Base sp base) = Lvalue_Base sp base"
| "unmark_lvalue (Lvalue_Field sp l field) = Lvalue_Field sp (unmark_lvalue l) field"
| "unmark_lvalue (Lvalue_Index sp l e) = Lvalue_Index sp (unmark_lvalue l) (unmark_expression e)"
| "unmark_lvalue (Lvalue_Dereference sp l) = Lvalue_Dereference sp (unmark_lvalue l)"
| "unmark_atom (Atom_Literal l) = Atom_Literal l"
| "unmark_atom (Atom_Lvalue l) = Atom_Lvalue (unmark_lvalue l)"
| "unmark_expression (Expression_Binary h op l r) =
     Expression_Binary (unmark_header h) op (unmark_expression l) (unmark_expression r)"
| "unmark_expression (Expression_Unary h op e) = Expression_Unary (unmark_header h) op (unmark_expression e)"
| "unmark_expression (Expression_Atom h a) = Expression_Atom (unmark_header h) (unmark_atom a)"
| "unmark_expression (Expression_Call h l args i) =
     Expression_Call (unmark_header h) (unmark_lvalue l) (map unmark_expression args) 0"
| "unmark_expression (Expression_Conversion h e t) = Expression_Conversion (unmark_header h) (unmark_expression e) t"

lemma unmark_marked [simp]:
  "unmark_expression (set_contextual_type t e) = unmark_expression e"
  "unmark_expression (set_effects_applied e) = unmark_expression e"
  "unmark_expression (set_null_pointer e) = unmark_expression e"
  by (cases e; simp add: set_contextual_type_def set_effects_applied_def set_null_pointer_def unmark_header_def)+

lemma unmark_again [simp]:
  "unmark_lvalue (unmark_lvalue l) = unmark_lvalue l" "unmark_atom (unmark_atom a) = unmark_atom a"
  "unmark_expression (unmark_expression e) = unmark_expression e"
  by (induction l and a and e) (simp_all add: unmark_header_def)

lemma unmark_lvalue_base:
  "unmark_lvalue l = Lvalue_Base sp base \<longleftrightarrow> l = Lvalue_Base sp base"
  by (cases l) auto

section \<open>Checks and relations\<close>

definition keeps :: "(semantic_context \<Rightarrow> semantic_context \<Rightarrow> bool) \<Rightarrow> 'a run \<Rightarrow> bool" where
  "keeps K m \<longleftrightarrow> (\<forall>c d x. m c = Some (d, x) \<longrightarrow> K c d)"

lemma kept_whole: "keeps K m \<Longrightarrow> m c = Some (d, x) \<Longrightarrow> K c d"
  unfolding keeps_def by blast

text \<open>The states before and after are related, and an accepted value has the property.\<close>

definition checks :: "(body \<Rightarrow> body \<Rightarrow> bool) \<Rightarrow> 'a check \<Rightarrow> ('a \<Rightarrow> bool) \<Rightarrow> bool" where
  "checks R m P \<longleftrightarrow> (\<forall>b b1 x. m b = Some (b1, x) \<longrightarrow> R b b1 \<and> (\<forall>y. x = Some y \<longrightarrow> P y))"

lemma checksI: "(\<And>b b1 x. m b = Some (b1, x) \<Longrightarrow> R b b1 \<and> (\<forall>y. x = Some y \<longrightarrow> P y)) \<Longrightarrow> checks R m P"
  unfolding checks_def by blast

lemma checksD:
  assumes "checks R m P" "m b = Some (b1, x)"
  shows "R b b1" "x = Some y \<Longrightarrow> P y"
  using assms unfolding checks_def by blast+

lemma checks_mono: "checks R m P \<Longrightarrow> (\<And>x. P x \<Longrightarrow> Q x) \<Longrightarrow> checks R m Q"
  unfolding checks_def by blast

lemma checks_weaken: "checks R m P \<Longrightarrow> (\<And>b c. R b c \<Longrightarrow> S b c) \<Longrightarrow> checks S m P"
  unfolding checks_def by blast

lemma checks_then:
  assumes "transp R" "checks R m (\<lambda>x. checks R (f x) Q)"
  shows "checks R (check_then m f) Q"
proof (rule checksI)
  fix b b1 x
  assume run: "check_then m f b = Some (b1, x)"
  show "R b b1 \<and> (\<forall>y. x = Some y \<longrightarrow> Q y)"
  proof (cases "m b")
    case (Some r)
    obtain b2 z where m: "m b = Some (b2, z)"
      using Some by (cases r) auto
    show ?thesis
    proof (cases z)
      case None
      with run m checksD(1) [OF assms(2) m] show ?thesis
        by (simp add: check_then_def)
    next
      case (Some y)
      with run m have "f y b2 = Some (b1, x)"
        by (simp add: check_then_def)
      with checksD [OF assms(2) m] Some checksD [of R "f y" Q b2 b1 x] show ?thesis
        by (blast dest: transpD [OF assms(1)])
    qed
  qed (use run in \<open>simp add: check_then_def\<close>)
qed

lemma checks_accept: "reflp R \<Longrightarrow> Q x \<Longrightarrow> checks R (accept x) Q"
  by (auto simp: checks_def accept_def reflp_def)

lemma checks_refuse: "reflp R \<Longrightarrow> checks R refuse Q"
  by (auto simp: checks_def refuse_def reflp_def)

lemma checks_known: "reflp R \<Longrightarrow> (\<And>y. x = Some y \<Longrightarrow> Q y) \<Longrightarrow> checks R (known x) Q"
  by (auto simp: checks_def known_def reflp_def split: option.splits)

lemma checks_with: "(\<And>b. checks R (f b) Q) \<Longrightarrow> checks R (with_body f) Q"
  unfolding checks_def with_body_def by blast

lemma checks_change: "(\<And>b. R b (f b)) \<Longrightarrow> Q () \<Longrightarrow> checks R (change_body f) Q"
  by (auto simp: checks_def change_body_def)

lemma checks_if: "(b \<Longrightarrow> checks R m Q) \<Longrightarrow> (\<not> b \<Longrightarrow> checks R k Q) \<Longrightarrow> checks R (if b then m else k) Q"
  by simp

lemma checks_stuck: "checks R (\<lambda>b. None) Q"
  by (simp add: checks_def)

lemma checks_finally:
  assumes "checks R m P" "\<And>b b1. R b b1 \<Longrightarrow> S b (f b1)" "\<And>x. P x \<Longrightarrow> Q x"
  shows "checks S (check_finally m f) Q"
  using assms unfolding checks_def check_finally_def by (fastforce split: option.splits prod.splits)

section \<open>What a check of an expression may change\<close>

definition local_shape :: "semantic_local \<Rightarrow> semantic_local" where
  "local_shape l = l\<lparr>local_known_length := None, local_safety := safety_fact_init False\<rparr>"

definition calm :: "(semantic_context \<Rightarrow> semantic_context \<Rightarrow> bool) \<Rightarrow> body \<Rightarrow> body \<Rightarrow> bool" where
  "calm K b d \<longleftrightarrow> K (bd_semantic b) (bd_semantic d)
     \<and> map local_shape (bd_locals d) = map local_shape (bd_locals b)
     \<and> bd_function d = bd_function b \<and> bd_slots d = bd_slots b \<and> bd_scope_depth d = bd_scope_depth b
     \<and> bd_unsafe_depth d = bd_unsafe_depth b \<and> bd_falls_through d = bd_falls_through b"

lemma shape_update:
  assumes "\<And>l. local_shape (f l) = local_shape l"
  shows "map local_shape (bd_locals (update_local i f b)) = map local_shape (bd_locals b)"
proof (cases "i < length (bd_locals b)")
  case True
  then have "(map local_shape (bd_locals b))[i := local_shape (bd_locals b ! i)] = map local_shape (bd_locals b)"
    by (metis list_update_id nth_map)
  with assms show ?thesis
    by (simp add: update_local_def map_update)
qed (simp add: update_local_def list_update_beyond)

lemma update_fields [simp]:
  "bd_semantic (update_local i f b) = bd_semantic b" "bd_function (update_local i f b) = bd_function b"
  "bd_slots (update_local i f b) = bd_slots b" "bd_scope_depth (update_local i f b) = bd_scope_depth b"
  "bd_unsafe_depth (update_local i f b) = bd_unsafe_depth b" "bd_falls_through (update_local i f b) = bd_falls_through b"
  "length (bd_locals (update_local i f b)) = length (bd_locals b)"
  by (simp_all add: update_local_def)

lemma calm_update:
  assumes "\<And>c. K c c" "\<And>l. local_shape (f l) = local_shape l"
  shows "calm K b (update_local i f b)"
  using assms(1) shape_update [OF assms(2)] by (simp add: calm_def)

section \<open>The interface of the kernels\<close>

locale kernel_laws =
  fixes K :: "semantic_context \<Rightarrow> semantic_context \<Rightarrow> bool"
  assumes refl: "K c c"
    and trans: "K c d \<Longrightarrow> K d e \<Longrightarrow> K c e"
    and heap: "K c (c\<lparr>sc_heap := h\<rparr>)"
    and failing: "K c (c\<lparr>sc_failed := f\<rparr>)"
    and reports: "K c (c\<lparr>sc_diagnostic := g\<rparr>)"
    and fresh: "K c (c\<lparr>sc_next_node := sc_next_node c + 1\<rparr>)"
    and record_reference: "K c (update_function_entry r (\<lambda>f. f\<lparr>fe_reference_return_parameter := p\<rparr>) c)"
    and record_view: "K c (update_function_entry r (\<lambda>f. f\<lparr>fe_composite_view_return_parameter := p\<rparr>) c)"
    and substitute: "K c (fst (semantic_generic_substitute_type t bs w c))"
    and resolve: "keeps K (type_resolve n t)"
    and resolve_entry: "keeps K (semantic_resolve_named_entry (semantic_generic_type_equal (type_compatible n)) n t)"
    and compatible: "keeps K (type_compatible n t u)"
    and converts: "keeps K (type_conversion_is_safe n u t)" "keeps K (type_conversion_classify n u t)"
      "keeps K (type_is_byte_vector_to_text_move n u t)"
    and literals: "keeps K (type_integer_literal_fits n v t)" "keeps K (type_unsigned_wide_literal_fits n t)"
    and layouts: "keeps K (layout_type n t)" "keeps K (layout_struct_field n s field)"
    and ownership: "keeps K (memory_type_is_owned n t)" "keeps K (memory_type_contains_view n t)"
    and patterns: "keeps K (pattern_analyze n t q a)"
    and instances: "keeps K (semantic_generic_function_instance n template args)"
begin

lemma calm_refl: "reflp (calm K)"
  by (simp add: reflp_def calm_def refl)

lemma calm_trans: "transp (calm K)"
  using trans unfolding transp_def calm_def by metis

lemma calm_semantic: "K (bd_semantic b) c \<Longrightarrow> calm K b (b\<lparr>bd_semantic := c\<rparr>)"
  by (simp add: calm_def)

lemma allocates: "K c (snd (semantic_allocates c))"
  by (simp add: semantic_allocates_def heap)

lemma wp_run: "keeps K m \<Longrightarrow> (\<And>x. Q x) \<Longrightarrow> checks (calm K) (on_semantic m) Q"
  by (auto simp: checks_def on_semantic_def calm_semantic dest: kept_whole split: option.splits)

lemma wp_sem: "(\<And>c. K c (fst (m c))) \<Longrightarrow> (\<And>x. Q x) \<Longrightarrow> checks (calm K) (on_sem m) Q"
  unfolding on_sem_def by (rule wp_run) (simp_all add: keeps_def, metis fst_conv)

lemma wp_demand: "keeps K m \<Longrightarrow> (\<And>x. Q x) \<Longrightarrow> checks (calm K) (demand m) Q"
  unfolding demand_def
  by (intro checks_then [OF calm_trans] wp_run)
    (auto intro: checks_refuse [OF calm_refl] checks_accept [OF calm_refl] split: option.splits)

lemma begin_calm: "calm K b (body_begin_diagnostic i sp b)"
proof -
  have "K c (semantic_begin_diagnostic c i sp)" for c
    using trans [OF reports failing] failing [of c True] by (simp add: semantic_begin_diagnostic_def)
  then show ?thesis
    using trans [OF _ reports] by (auto simp: calm_def body_begin_diagnostic_def Let_def split: option.split)
qed

lemma wp_fail: "checks (calm K) (body_fail i sp) Q"
  by (auto simp: checks_def body_fail_def begin_calm)

lemma wp_report: "checks (calm K) (body_report i sp explain) Q"
proof (rule checksI)
  fix b b1 and x :: "'a option"
  assume run: "body_report i sp explain b = Some (b1, x)"
  let ?d = "body_begin_diagnostic i sp b"
  have b1: "b1 = ?d\<lparr>bd_semantic := (bd_semantic ?d)\<lparr>sc_diagnostic := explain (sc_diagnostic (bd_semantic ?d))\<rparr>\<rparr>" "x = None"
    using run by (auto simp: body_report_def Let_def)
  have "calm K ?d b1"
    unfolding b1 using reports by (simp add: calm_def)
  with begin_calm have "calm K b b1"
    by (rule transpD [OF calm_trans])
  with b1 show "calm K b b1 \<and> (\<forall>y. x = Some y \<longrightarrow> Q y)"
    by simp
qed

lemma wp_then: "checks (calm K) m (\<lambda>x. checks (calm K) (f x) Q) \<Longrightarrow> checks (calm K) (check_then m f) Q"
  by (rule checks_then [OF calm_trans])

lemma wp_update_safety: "Q () \<Longrightarrow> checks (calm K) (change_body (update_safety i f)) Q"
  by (rule checks_change) (simp_all add: update_safety_def calm_update refl local_shape_def)

lemma wp_update_length: "Q () \<Longrightarrow> checks (calm K) (change_body (update_local i (\<lambda>l. l\<lparr>local_known_length := f l\<rparr>))) Q"
  by (rule checks_change) (simp_all add: calm_update refl local_shape_def)

lemma wp_or_fail:
  assumes "checks (calm K) m Q"
  shows "checks (calm K) (check_or_fail m i sp) Q"
proof (rule checksI)
  fix b b1 x
  assume run: "check_or_fail m i sp b = Some (b1, x)"
  then obtain b2 y where m: "m b = Some (b2, y)"
    by (cases "m b") (auto simp: check_or_fail_def)
  show "calm K b b1 \<and> (\<forall>y. x = Some y \<longrightarrow> Q y)"
  proof (cases y)
    case None
    with run m have "b1 = body_begin_diagnostic i sp b2" "x = None"
      by (auto simp: check_or_fail_def body_fail_def)
    with transpD [OF calm_trans checksD(1) [OF assms m] begin_calm] show ?thesis
      by simp
  next
    case (Some z)
    with run m checksD [OF assms m] show ?thesis
      by (simp add: check_or_fail_def)
  qed
qed

lemmas wp_basic = wp_then checks_with checks_accept [OF calm_refl] checks_refuse [OF calm_refl]
  checks_known [OF calm_refl] wp_fail wp_report wp_update_safety wp_update_length wp_or_fail

text \<open>Routines of the kernels on checks.\<close>

lemma keeps_move_only: "keeps K (safety_type_is_move_only n t)"
  using kept_whole [OF ownership(1) [of n t]] kept_whole [OF ownership(2) [of n t]] trans
  by (auto simp: keeps_def safety_type_is_move_only_def bind_eq_Some_conv split: if_splits) blast

lemmas wp_kernel = wp_run [OF resolve] wp_demand [OF resolve] wp_run [OF resolve_entry] wp_run [OF compatible]
  wp_run [OF converts(1)] wp_run [OF converts(2)] wp_run [OF converts(3)] wp_run [OF literals(1)]
  wp_run [OF literals(2)] wp_demand [OF layouts(1)] wp_run [OF layouts(2)] wp_run [OF ownership(1)]
  wp_run [OF ownership(2)] wp_run [OF keeps_move_only] wp_demand [OF instances]

lemma wp_allocates: "(\<And>x. Q x) \<Longrightarrow> checks (calm K) (on_sem (\<lambda>c. prod.swap (semantic_allocates c))) Q"
  by (rule wp_sem) (simp_all add: allocates)

lemma generic_array_kept: "K c (fst (generic_array xs c))"
  by (simp add: generic_array_def refl semantic_allocates_def heap)

lemma synthetic_kept:
  "K c (fst (body_synthetic_named_type name c))" "K c (fst (body_synthetic_reference_type t m c))"
proof -
  show "K c (fst (body_synthetic_named_type name c))"
    using trans [OF heap [of c "\<lambda>n. sc_heap c (n + 1)"] fresh] heap
    by (auto simp: body_synthetic_named_type_def semantic_allocates_def semantic_fresh_def split: bool.split)
  show "K c (fst (body_synthetic_reference_type t m c))"
    using trans [OF heap [of c "\<lambda>n. sc_heap c (n + 1)"] heap]
    by (auto simp: body_synthetic_reference_type_def semantic_allocates_def heap split: bool.split)
qed

lemmas wp_sems = wp_allocates wp_sem [OF generic_array_kept] wp_sem [OF synthetic_kept(1)]
  wp_sem [OF synthetic_kept(2)] wp_sem [OF substitute]

lemmas wp = wp_basic wp_kernel wp_sems

lemma calm_then: "calm K b c \<Longrightarrow> calm K c d \<Longrightarrow> calm K b d"
  by (rule transpD [OF calm_trans])

lemma calm_same: "calm K b b"
  using calm_refl by (simp add: reflp_def)

lemma calm_update_safety: "calm K b c \<Longrightarrow> calm K b (update_safety i f c)"
  by (erule calm_then) (simp add: update_safety_def calm_update refl local_shape_def)

lemma calm_holder: "calm K b c \<Longrightarrow> calm K b (set_owner_holder x d c)"
  unfolding set_owner_holder_def by (auto intro: calm_update_safety split: option.split)

lemma calm_release: "calm K b c \<Longrightarrow> calm K b (body_safety_release_local_borrow i c)"
  unfolding body_safety_release_local_borrow_def Let_def
  by (auto intro!: calm_update_safety split: option.split)

lemmas calm_steps = calm_update_safety calm_holder calm_release calm_same

lemma wp_local_read: "Q () \<Longrightarrow> checks (calm K) (body_check_local_read i sp) Q"
  unfolding body_check_local_read_def body_report_borrow_conflict_def report_use_after_move_def
    report_use_before_initialization_def
  by (auto intro!: wp simp: Let_def split: safety_value_state.split option.split)

lemma wp_outer_base: "(\<And>t. Q t) \<Longrightarrow> checks (calm K) (infer_outer_base r sp base) Q"
  unfolding infer_outer_base_def infer_global_base_def
  by (auto intro!: wp simp: Let_def split: ast_lvalue_base.split option.split prod.split name_lookup_status.split)

lemma wp_known_index: "Q () \<Longrightarrow> checks (calm K) (check_known_index l e sp) Q"
  unfolding check_known_index_def report_bounds_violation_def
  by (auto intro!: wp simp: Let_def split: option.split)

lemma wp_index_base: "(\<And>t. Q t) \<Longrightarrow> checks (calm K) (check_index_base r sp x) Q"
  unfolding check_index_base_def by (auto intro!: wp)

lemma wp_integer_like: "(\<And>x. Q x) \<Longrightarrow> checks (calm K) (body_is_integer_like n t) Q"
  unfolding body_is_integer_like_def by (auto intro!: wp)

lemma wp_bool: "(\<And>x. Q x) \<Longrightarrow> checks (calm K) (body_is_bool_convertible n t) Q"
  unfolding body_is_bool_convertible_def by (auto intro!: wp)

lemma wp_compatible: "Q () \<Longrightarrow> checks (calm K) (body_check_compatible n t s sp) Q"
  unfolding body_check_compatible_def by (auto intro!: wp)

lemma wp_literal: "(\<And>x. Q x) \<Longrightarrow> checks (calm K) (infer_literal l) Q"
  unfolding infer_literal_def by (auto intro!: wp split: ast_literal.split)

lemma wp_moves: "(\<And>x. Q x) \<Longrightarrow> checks (calm K) (type_moves n t) Q"
  unfolding type_moves_def by (auto intro!: wp)

lemma wp_move_only: "(\<And>x. Q x) \<Longrightarrow> checks (calm K) (type_is_move_only n t) Q"
  unfolding type_is_move_only_def by (auto intro!: wp split: option.split)

lemma wp_move_local: "Q () \<Longrightarrow> checks (calm K) (body_move_local i sp) Q"
  unfolding body_move_local_def body_report_borrow_conflict_def
  by (auto intro!: wp simp: Let_def split: option.split)

lemma wp_agree: "Q x \<Longrightarrow> checks (calm K) (types_agree n t s x) Q"
  unfolding types_agree_def by (auto intro!: wp)

lemmas wp_parts = wp wp_local_read wp_outer_base wp_known_index wp_index_base wp_integer_like wp_bool wp_compatible
  wp_literal wp_moves wp_move_only wp_move_local wp_agree

end

section \<open>Expressions\<close>

locale expression_laws = kernel_laws K for K +
  fixes E :: expression_inference and X :: expression_check
  assumes infers: "(\<And>e1 t. unmark_expression e1 = unmark_expression e \<Longrightarrow> Q (e1, t)) \<Longrightarrow> checks (calm K) (E e) Q"
    and accepts: "(\<And>e1. unmark_expression e1 = unmark_expression e \<Longrightarrow> P e1) \<Longrightarrow> checks (calm K) (X t e sp) P"
begin

lemma wp_access_of:
  "F = E \<Longrightarrow> (\<And>l1 t i. unmark_lvalue l1 = unmark_lvalue l \<Longrightarrow> Q (l1, t, i)) \<Longrightarrow>
     checks (calm K) (body_infer_lvalue_access F n r l) Q"
proof (induction F n r l arbitrary: Q rule: body_infer_lvalue_access.induct)
  case (1 F n r sp base)
  then show ?case
    by (auto intro!: wp_parts split: option.split)
next
  case (2 F n r sp l field)
  show ?case
    by (auto intro!: wp_parts "2.IH" "2.prems" split: option.split)
next
  case (3 F n r sp l e)
  show ?case
    by (auto simp: "3.prems"(1) intro!: wp_parts "3.IH" [unfolded "3.prems"(1), OF HOL.refl] "3.prems"(2) infers split: option.split)
next
  case (4 F n r sp l)
  show ?case
    by (auto intro!: wp_parts "4.IH" "4.prems" split: option.split)
qed

lemmas wp_access = wp_access_of [OF HOL.refl]

lemma wp_assignable:
  "(\<And>l1 t i. unmark_lvalue l1 = unmark_lvalue l \<Longrightarrow> Q (l1, t, i)) \<Longrightarrow>
     checks (calm K) (body_check_assignable E n l) Q"
  unfolding body_check_assignable_def body_infer_lvalue_for_write_def
  by (auto intro!: wp_parts wp_access split: ast_lvalue.split option.split ast_lvalue_base.split name_lookup_status.split prod.split)

lemma wp_infer_atom:
  "(\<And>a1 t. unmark_atom a1 = unmark_atom a \<Longrightarrow> Q (a1, t)) \<Longrightarrow> checks (calm K) (body_infer_atom E n a) Q"
  unfolding body_infer_atom_def body_infer_lvalue_def
  by (auto intro!: wp_parts wp_access split: ast_atom.split)

lemma wp_atom_compatible:
  "(\<And>a1. unmark_atom a1 = unmark_atom a \<Longrightarrow> Q a1) \<Longrightarrow> checks (calm K) (body_check_atom_compatible E n t a sp) Q"
  unfolding body_check_atom_compatible_def
  by (auto intro!: wp_parts wp_infer_atom split: option.split)

lemma wp_move_atom:
  "(\<And>a1. unmark_atom a1 = unmark_atom a \<Longrightarrow> Q a1) \<Longrightarrow> checks (calm K) (body_safety_move_atom E n a sp) Q"
  unfolding body_safety_move_atom_def body_infer_lvalue_def
  by (auto intro!: wp_parts wp_access infers split: ast_atom.split ast_lvalue.split option.split)

lemma wp_move_expression:
  "(\<And>e1. unmark_expression e1 = unmark_expression e \<Longrightarrow> Q e1) \<Longrightarrow>
     checks (calm K) (body_safety_move_expression E n e d) Q"
  unfolding body_safety_move_expression_def
  by (auto intro!: wp_parts wp_move_atom split: ast_expression.split ast_atom.split ast_lvalue.split option.split)

subsection \<open>Loans\<close>

lemma wp_writable:
  "(\<And>e1. unmark_expression e1 = unmark_expression e \<Longrightarrow> Q e1) \<Longrightarrow>
     checks (calm K) (body_borrow_mutable_path_is_writable E n e) Q"
  unfolding body_infer_lvalue_for_write_def
  by (cases "(E, n, e)" rule: body_borrow_mutable_path_is_writable.cases)
    (auto intro!: wp_parts wp_access simp: body_infer_lvalue_for_write_def split: ast_expression.split ast_atom.split)

lemma wp_acquire_source: "Q () \<Longrightarrow> checks (calm K) (body_acquire_source s m sp d) Q"
  unfolding body_acquire_source_def body_report_borrow_conflict_def
  by (auto intro!: wp_parts simp: Let_def split: option.split)

lemma wp_acquire:
  "(\<And>e1. unmark_expression e1 = unmark_expression e \<Longrightarrow> Q e1) \<Longrightarrow>
     checks (calm K) (body_safety_acquire_borrow E n e d) Q"
  unfolding body_safety_acquire_borrow_def body_report_lifetime_escape_def
  by (auto intro!: wp_parts wp_writable wp_acquire_source simp: Let_def split: option.split)

lemma wp_copy_reference: "Q () \<Longrightarrow> checks (calm K) (body_safety_copy_reference s d sp) Q"
  unfolding body_safety_copy_reference_def body_move_reference_def body_share_reference_def
  by (auto intro!: wp_parts checks_change calm_steps simp: Let_def split: option.split bool.split)

lemma wp_depend: "Q () \<Longrightarrow> checks (calm K) (body_depend_on_owner s sp m) Q"
  unfolding body_depend_on_owner_def body_report_borrow_conflict_def
  by (auto intro!: wp_parts simp: Let_def split: option.split)

lemma wp_transfer_local: "Q () \<Longrightarrow> checks (calm K) (body_safety_transfer_local_dependency s d sp m) Q"
  unfolding body_safety_transfer_local_dependency_def body_report_lifetime_escape_def
  by (auto intro!: wp_parts wp_depend checks_change calm_steps simp: Let_def split: option.split)

lemma wp_transfer_arguments: "(\<And>x. Q x) \<Longrightarrow> checks (calm K) (body_transfer_arguments sp d args found) Q"
  by (induction args arbitrary: found) (auto intro!: wp_parts wp_transfer_local simp: Let_def)

lemma wp_transfer_constructor: "Q () \<Longrightarrow> checks (calm K) (body_transfer_constructor n d t args sp) Q"
  unfolding body_transfer_constructor_def by (auto intro!: wp_parts wp_transfer_arguments)

lemma unmark_source_argument:
  assumes "unmark_expression a = unmark_expression (source_argument p e)"
  shows "unmark_expression (put_argument p a e) = unmark_expression e"
proof (cases p)
  case (Some i)
  have "map unmark_expression (xs[i := a]) = map unmark_expression xs"
    if "unmark_expression a = unmark_expression (xs ! i)" for xs
    using that by (cases "i < length xs") (simp_all add: map_update list_update_same_conv list_update_beyond)
  with Some assms show ?thesis
    by (cases e) (auto simp: put_argument_def source_argument_def)
qed (use assms in \<open>simp add: put_argument_def source_argument_def\<close>)

lemma wp_transfer_view:
  "(\<And>e1. unmark_expression e1 = unmark_expression e \<Longrightarrow> Q e1) \<Longrightarrow> checks (calm K) (body_transfer_view E n e p d) Q"
  unfolding body_transfer_view_def Let_def
  by (auto intro!: wp_parts wp_move_expression wp_transfer_local simp: unmark_source_argument)

lemma wp_transfer_composite:
  "(\<And>e1 m. unmark_expression e1 = unmark_expression e \<Longrightarrow> Q (e1, m)) \<Longrightarrow>
     checks (calm K) (body_safety_transfer_composite_expression E n e d) Q"
  unfolding body_safety_transfer_composite_expression_def
  by (auto intro!: wp_parts wp_transfer_constructor wp_transfer_view split: option.split ast_expression.split ast_lvalue.split)

lemma wp_transfer_reference:
  "Q None \<Longrightarrow> (\<And>e1. unmark_expression e1 = unmark_expression e \<Longrightarrow> Q (Some e1)) \<Longrightarrow>
     checks (calm K) (body_transfer_reference E n e d) Q"
  unfolding body_transfer_reference_def Let_def
  by (auto intro!: wp_parts wp_acquire wp_copy_reference checks_change calm_steps simp: unmark_source_argument
      split: option.split)

lemma wp_transfer:
  "(\<And>e1. unmark_expression e1 = unmark_expression e \<Longrightarrow> Q e1) \<Longrightarrow>
     checks (calm K) (body_safety_transfer_expression E n e d) Q"
  unfolding body_safety_transfer_expression_def
  by (auto intro!: wp_parts wp_transfer_reference wp_transfer_composite wp_move_expression split: option.split)

lemma wp_ephemeral:
  "(\<And>e1. unmark_expression e1 = unmark_expression e \<Longrightarrow> Q e1) \<Longrightarrow>
     checks (calm K) (body_safety_check_ephemeral_borrow E n e) Q"
  unfolding body_safety_check_ephemeral_borrow_def
  by (auto intro!: wp_parts wp_writable wp_acquire_source split: option.split)

lemma wp_record:
  assumes "\<And>c r p. K c (update_function_entry r (set_field p) c)" "Q ()"
  shows "checks (calm K) (body_record_return_parameter field set_field p sp) Q"
  unfolding body_record_return_parameter_def Let_def
  by (auto intro!: wp_parts checks_change calm_semantic assms)

lemma wp_return_reference: "Q () \<Longrightarrow> checks (calm K) (body_safety_check_return_reference n e) Q"
  unfolding body_safety_check_return_reference_def body_report_lifetime_escape_def Let_def
  by (auto intro!: wp_parts wp_record record_reference split: option.split)

lemma wp_return_view: "Q () \<Longrightarrow> checks (calm K) (body_safety_check_return_composite_view n e) Q"
  unfolding body_safety_check_return_composite_view_def body_report_lifetime_escape_def Let_def
  by (auto intro!: wp_parts wp_record record_view split: option.split)

subsection \<open>Generic callees\<close>

lemma wp_expand_alias: "(\<And>t. Q t) \<Longrightarrow> checks (calm K) (body_generic_expand_alias n t) Q"
  unfolding body_generic_expand_alias_def by (auto intro!: wp_parts split: ast_type.split option.split)

lemma wp_expand_template: "(\<And>t. Q t) \<Longrightarrow> checks (calm K) (body_generic_expand_template_alias t) Q"
  unfolding body_generic_expand_template_alias_def Let_def
  by (auto intro!: wp_parts split: ast_type.split option.split prod.split name_lookup_status.split ast_type_decl_body.split)

lemma wp_infer_pairs:
  assumes "\<And>t s bs Q. (\<And>x. Q x) \<Longrightarrow> checks (calm K) (I t s bs) Q" "\<And>x. Q x"
  shows "checks (calm K) (infer_type_pairs I ps bs) Q"
  using assms(2) by (induction ps arbitrary: bs Q) (auto intro!: wp_parts assms(1))

lemma wp_infer_same_kind:
  assumes "\<And>t s bs Q. (\<And>x. Q x) \<Longrightarrow> checks (calm K) (I t s bs) Q" "\<And>x. Q x"
  shows "checks (calm K) (infer_same_kind I n t s bs) Q"
  unfolding infer_same_kind_def
  by (auto intro!: wp_parts wp_expand_alias wp_infer_pairs assms split: ast_type.split prod.split)

lemma checks_eta: "checks R (\<lambda>b. m b) Q = checks R m Q"
  by simp

lemma wp_infer_type: "(\<And>x. Q x) \<Longrightarrow> checks (calm K) (body_generic_infer_type n f k t s bs) Q"
proof (induction k arbitrary: t s bs Q)
  case 0
  show ?case
    by (simp add: checks_def)
next
  case (Suc k)
  have "body_generic_infer_type n f (Suc k) t s bs =
     (if \<not> body_generic_type_contains_parameter f t then accept bs
      else case template_parameter f t of
        Some i \<Rightarrow> accept (if bs ! i = None then bs[i := Some s] else bs)
      | None \<Rightarrow>
          check_then (body_generic_expand_alias n s) (\<lambda>actual.
          check_then
            (if is_named t \<and> \<not> is_named actual then body_generic_expand_template_alias t
             else accept t) (\<lambda>expanded.
            if expanded \<noteq> t then body_generic_infer_type n f k expanded actual bs
            else infer_same_kind (body_generic_infer_type n f k) n t actual bs)))"
    by (rule ext) simp
  then show ?case
    by (auto intro!: wp_parts wp_expand_alias wp_expand_template wp_infer_same_kind Suc split: option.split)
qed

lemma wp_argument_types:
  assumes "\<And>t s bs Q. (\<And>x. Q x) \<Longrightarrow> checks (calm K) (I t s bs) Q"
    and "\<And>args1 bs1. map unmark_expression args1 = map (unmark_expression \<circ> fst) ps \<Longrightarrow> Q (args1, bs1)"
  shows "checks (calm K) (infer_argument_types E I ps bs) Q"
  using assms(2)
proof (induction ps arbitrary: bs Q)
  case (Cons p ps)
  show ?case
    by (auto intro!: wp_parts infers assms(1) Cons.IH Cons.prems)
qed (auto intro!: wp_parts)

lemma map_fst_zip_take: "map (f \<circ> fst) (zip xs ys) = map f (take (length ys) xs)"
  by (induction xs ys rule: list_induct2') auto

lemma wp_instantiate:
  "(\<And>i args1. map unmark_expression args1 = map unmark_expression args \<Longrightarrow> Q (i, args1)) \<Longrightarrow>
     checks (calm K) (body_instantiate_generic_callee E n template t args) Q"
  unfolding body_instantiate_generic_callee_def Let_def
  by (auto intro!: wp_parts wp_infer_type wp_argument_types simp: map_fst_zip_take parameter_types_def split: option.split)

subsection \<open>Calls\<close>

lemma wp_payload:
  "(\<And>e1. unmark_expression e1 = unmark_expression e \<Longrightarrow> Q e1) \<Longrightarrow> checks (calm K) (check_payload E X n t e) Q"
  unfolding check_payload_def by (auto intro!: wp_parts wp_move_expression accepts)

lemma wp_payloads:
  "(\<And>args1. map unmark_expression args1 = map (unmark_expression \<circ> snd) ps \<Longrightarrow> Q args1) \<Longrightarrow>
     checks (calm K) (check_payloads E X n ps) Q"
proof (induction ps arbitrary: Q)
  case (Cons p ps)
  show ?case
    by (auto intro!: wp_parts wp_payload Cons.IH Cons.prems)
qed (auto intro!: wp_parts)

lemma map_snd_zip_take: "map (f \<circ> snd) (zip xs ys) = map f (take (length xs) ys)"
  by (induction xs ys rule: list_induct2') auto

lemma wp_tagged:
  "Q None \<Longrightarrow> (\<And>e1. unmark_expression e1 = unmark_expression e \<Longrightarrow> Q (Some e1)) \<Longrightarrow>
     checks (calm K) (body_try_check_builtin_tagged_construct E X n t e) Q"
  unfolding body_try_check_builtin_tagged_construct_def
  by (auto intro!: wp_parts wp_payload split: option.split ast_expression.split list.split)

lemma wp_constructor_of: "(\<And>x. Q x) \<Longrightarrow> checks (calm K) (enum_constructor_of n t l) Q"
  unfolding enum_constructor_of_def Let_def by (auto intro!: wp_parts split: option.split)

lemma wp_enum:
  assumes "Q None" "\<And>args1 t. map unmark_expression args1 = map unmark_expression args \<Longrightarrow> Q (Some (args1, t))"
  shows "checks (calm K) (body_try_infer_enum_construct E X n h l args) Q"
  unfolding body_try_infer_enum_construct_def
  by (auto intro!: wp_parts wp_constructor_of wp_payloads assms simp: map_snd_zip_take constructor_payload_types_def
      split: option.split)

subsection \<open>Built-in functions\<close>

lemma wp_count:
  "(length xs = m \<Longrightarrow> Q ()) \<Longrightarrow> checks (calm K) (require_argument_count sp m xs) Q"
  unfolding require_argument_count_def by (auto intro!: wp_parts)

lemma map_two: "length xs = 2 \<Longrightarrow> map f xs = [f (xs ! 0), f (xs ! Suc 0)]"
  by (auto simp: length_Suc_conv eval_nat_numeral)

lemma map_one: "length xs = Suc 0 \<Longrightarrow> map f xs = [f (xs ! 0)]"
  by (auto simp: length_Suc_conv)

lemma wp_length:
  assumes "\<And>args1 t. map unmark_expression args1 = map unmark_expression args \<Longrightarrow> Q (args1, t)"
  shows "checks (calm K) (body_builtin_length E n sp args) Q"
  unfolding body_builtin_length_def
  by (auto intro!: wp_parts wp_count infers assms simp: map_one)

lemma wp_append_target:
  "(\<And>e1 v i. unmark_expression e1 = unmark_expression e \<Longrightarrow> Q (e1, v, i)) \<Longrightarrow>
     checks (calm K) (append_target E n sp e) Q"
  unfolding append_target_def
  by (auto intro!: wp_parts wp_assignable infers split: ast_expression.split ast_atom.split ast_unary_operation.split option.split)

lemma wp_lengthen: "Q () \<Longrightarrow> checks (calm K) (change_body (lengthen_local i)) Q"
  unfolding lengthen_local_def by (rule wp_update_length)

lemma wp_nothing: "Q () \<Longrightarrow> checks (calm K) (change_body id) Q"
  by (rule checks_change) (simp_all add: calm_same)

lemma wp_append:
  assumes "\<And>args1 t. map unmark_expression args1 = map unmark_expression args \<Longrightarrow> Q (args1, t)"
  shows "checks (calm K) (body_builtin_append E X n h args) Q"
  unfolding body_builtin_append_def Let_def
  by (auto intro!: wp_parts wp_count wp_append_target wp_move_expression accepts wp_lengthen wp_nothing assms
      simp: map_two split: option.split)

lemma expression_place_Some: "expression_place e = Some (h, l) \<longleftrightarrow> e = Expression_Atom h (Atom_Lvalue l)"
  by (cases e rule: expression_place.cases) auto

lemma wp_swap:
  assumes "\<And>args1 t. map unmark_expression args1 = map unmark_expression args \<Longrightarrow> Q (args1, t)"
  shows "checks (calm K) (body_builtin_swap E n sp args) Q"
  unfolding body_builtin_swap_def
  by (auto intro!: wp_parts wp_count wp_assignable infers assms simp: expression_place_Some map_two)

lemma wp_release_argument:
  "(\<And>e1. map unmark_expression args = [unmark_expression e1] \<Longrightarrow> Q e1) \<Longrightarrow>
     checks (calm K) (release_argument E n args) Q"
  unfolding release_argument_def
  by (auto intro!: wp_parts infers split: list.split)

lemma wp_release:
  assumes "\<And>args1 t. map unmark_expression args1 = map unmark_expression args \<Longrightarrow> Q (args1, t)"
  shows "checks (calm K) (body_builtin_release E n h args) Q"
  unfolding body_builtin_release_def
  by (auto intro!: wp_parts wp_release_argument wp_move_expression assms)

lemma wp_bits:
  assumes "\<And>args1 t. map unmark_expression args1 = map unmark_expression args \<Longrightarrow> Q (args1, t)"
  shows "checks (calm K) (body_builtin_bits E n sp sig args) Q"
  unfolding body_builtin_bits_def
  by (auto intro!: wp_parts wp_count infers assms simp: map_one)

lemma wp_slot:
  "(\<And>e1. unmark_expression e1 = unmark_expression e \<Longrightarrow> Q e1) \<Longrightarrow> checks (calm K) (check_kernel_slot E X n sp e) Q"
  unfolding check_kernel_slot_def
  by (auto intro!: wp_parts infers accepts split: option.split)

lemma wp_slots:
  "(\<And>args1. map unmark_expression args1 = map unmark_expression args \<Longrightarrow> Q args1) \<Longrightarrow>
     checks (calm K) (check_kernel_slots E X n sp args) Q"
proof (induction args arbitrary: Q)
  case (Cons e args)
  show ?case
    by (auto intro!: wp_parts wp_slot Cons.IH Cons.prems)
qed (auto intro!: wp_parts)

lemma wp_kernel_call:
  assumes "\<And>args1 t. map unmark_expression args1 = map unmark_expression args \<Longrightarrow> Q (args1, t)"
  shows "checks (calm K) (body_builtin_kernel_call E X n sp args) Q"
proof -
  have "map unmark_expression (a # as) = map unmark_expression args" if "length args = 7"
      "unmark_expression a = unmark_expression (args ! 0)" "map unmark_expression as = map unmark_expression (drop 1 args)"
    for a as
    using that by (cases args) auto
  with assms show ?thesis
    unfolding body_builtin_kernel_call_def by (auto intro!: wp_parts wp_count accepts wp_slots)
qed

lemma wp_runtime:
  assumes "\<And>args1 t. map unmark_expression args1 = map unmark_expression args \<Longrightarrow> Q (args1, t)"
  shows "checks (calm K) (body_builtin_runtime E X n sp builtin args) Q"
  unfolding body_builtin_runtime_def
  by (auto intro!: wp_parts wp_count wp_bits wp_kernel_call assms)

lemma wp_builtin_call:
  assumes "Q None" "\<And>args1 t. map unmark_expression args1 = map unmark_expression args \<Longrightarrow> Q (Some (args1, t))"
  shows "checks (calm K) (body_try_infer_builtin_call E X n h l args) Q"
  unfolding body_try_infer_builtin_call_def Let_def
  by (auto intro!: wp_parts wp_length wp_append wp_swap wp_release wp_runtime assms)

subsection \<open>Functions\<close>

lemma wp_invalidate: "Q () \<Longrightarrow> checks (calm K) (change_body (body_invalidate_mutable_reference_length t e)) Q"
proof (rule checks_change)
  fix b
  have "calm K b (update_local i (\<lambda>l. l\<lparr>local_known_length := None\<rparr>) b)" for i
    by (rule calm_update) (simp_all add: refl local_shape_def)
  then show "calm K b (body_invalidate_mutable_reference_length t e b)"
    unfolding body_invalidate_mutable_reference_length_def
    by (auto simp: calm_same split: option.split bool.split ast_expression.split ast_unary_operation.split)
qed

lemma wp_effects:
  "(\<And>e1. unmark_expression e1 = unmark_expression e \<Longrightarrow> Q e1) \<Longrightarrow>
     checks (calm K) (body_apply_argument_effects E n t e) Q"
  unfolding body_apply_argument_effects_def
  by (auto intro!: wp_parts wp_ephemeral wp_move_expression wp_invalidate)

lemma wp_arguments:
  "(\<And>args1. map unmark_expression args1 = map (unmark_expression \<circ> snd) ps \<Longrightarrow> Q args1) \<Longrightarrow>
     checks (calm K) (check_arguments E X n effects ps) Q"
proof (induction ps arbitrary: effects Q)
  case (Cons p ps)
  show ?case
    by (auto intro!: wp_parts wp_effects accepts Cons.IH Cons.prems)
qed (auto intro!: wp_parts)

lemma wp_call_arguments:
  "(\<And>args1. map unmark_expression args1 = map unmark_expression args \<Longrightarrow> Q args1) \<Longrightarrow>
     checks (calm K) (body_check_call_arguments E X n ts args effects) Q"
  unfolding body_check_call_arguments_def
  by (auto intro!: wp_parts wp_arguments simp: map_snd_zip_take)

lemma wp_callee:
  "(\<And>callee args1 i. map unmark_expression args1 = map unmark_expression args \<Longrightarrow> Q (callee, args1, i)) \<Longrightarrow>
     checks (calm K) (select_callee E n h f args index) Q"
  unfolding select_callee_def Let_def
  by (auto intro!: wp_parts wp_instantiate)

lemma wp_function_call:
  "(\<And>args1 i t. map unmark_expression args1 = map unmark_expression args \<Longrightarrow> Q (args1, i, t)) \<Longrightarrow>
     checks (calm K) (infer_function_call E X n h f args index) Q"
  unfolding infer_function_call_def
  by (auto intro!: wp_parts wp_callee wp_call_arguments)

lemma wp_local_call:
  "(\<And>args1 t. map unmark_expression args1 = map unmark_expression args \<Longrightarrow> Q (args1, t)) \<Longrightarrow>
     checks (calm K) (infer_local_call E X n h i args) Q"
  unfolding infer_local_call_def
  by (auto intro!: wp_parts wp_call_arguments split: option.split)

lemma wp_named_call:
  "(\<And>args1 i t. map unmark_expression args1 = map unmark_expression args \<Longrightarrow> Q (args1, i, t)) \<Longrightarrow>
     checks (calm K) (infer_named_call E X n h l args index) Q"
  unfolding infer_named_call_def
  by (auto intro!: wp_parts wp_local_call wp_function_call
      split: ast_lvalue.split ast_lvalue_base.split option.split prod.split name_lookup_status.split)

lemma wp_call:
  assumes "\<And>args1 i t. map unmark_expression args1 = map unmark_expression args \<Longrightarrow>
      Q (set_effects_applied (Expression_Call h l args1 i), t)"
  shows "checks (calm K) (body_infer_call E X n h l args index) Q"
  unfolding body_infer_call_def
  by (auto intro!: wp_parts wp_builtin_call wp_enum wp_named_call assms split: option.split)

subsection \<open>Operators\<close>

lemma wp_unbound: "(\<And>x. Q x) \<Longrightarrow> checks (calm K) (body_is_contextual_null n e) Q"
  unfolding body_is_contextual_null_def by (auto intro!: wp_parts split: option.split)

lemma wp_null_pointer:
  "(\<And>e1 t. unmark_expression e1 = unmark_expression e \<Longrightarrow> Q (e1, t)) \<Longrightarrow>
     checks (calm K) (infer_null_pointer n e) Q"
  unfolding infer_null_pointer_def Let_def by (auto intro!: wp_parts split: option.split)

lemma wp_atom:
  assumes "\<And>e1 t. unmark_expression e1 = unmark_expression (Expression_Atom h a) \<Longrightarrow> Q (e1, t)"
  shows "checks (calm K) (infer_atom_expression E n h a) Q"
  unfolding infer_atom_expression_def
  by (auto intro!: wp_parts wp_unbound wp_null_pointer wp_infer_atom assms)

lemma wp_address:
  "(\<And>e1 t. unmark_expression e1 = unmark_expression e \<Longrightarrow> Q (e1, t)) \<Longrightarrow>
     checks (calm K) (infer_address E n h m e) Q"
  unfolding infer_address_def
  by (auto intro!: wp_parts wp_access split: ast_expression.split ast_atom.split option.split)

lemma wp_unary_result: "(\<And>t. Q t) \<Longrightarrow> checks (calm K) (unary_result n sp op t) Q"
  unfolding unary_result_def by (auto intro!: wp_parts)

lemma wp_unary:
  assumes "\<And>e1 t. unmark_expression e1 = unmark_expression (Expression_Unary h op e) \<Longrightarrow> Q (e1, t)"
  shows "checks (calm K) (body_infer_unary E n h op e) Q"
  unfolding body_infer_unary_def
  by (auto intro!: wp_parts wp_address infers wp_unary_result assms)

lemma wp_null_comparison:
  "(\<And>e1 f1. unmark_expression e1 = unmark_expression e \<Longrightarrow> unmark_expression f1 = unmark_expression f \<Longrightarrow>
      Q (e1, f1)) \<Longrightarrow> checks (calm K) (infer_null_comparison E n sp e f) Q"
  unfolding infer_null_comparison_def by (auto intro!: wp_parts infers split: option.split)

lemma wp_literal_fits: "(\<And>x. Q x) \<Longrightarrow> checks (calm K) (literal_fits n e t) Q"
  unfolding literal_fits_def by (auto intro!: wp_parts split: option.split)

lemma wp_wide_fits: "(\<And>x. Q x) \<Longrightarrow> checks (calm K) (wide_literal_fits n e t) Q"
  unfolding wide_literal_fits_def by (auto intro!: wp_parts)

lemma wp_binary_result: "(\<And>t. Q t) \<Longrightarrow> checks (calm K) (binary_result n sp op e t f s) Q"
  unfolding binary_result_def binary_operand_type_def
  by (auto intro!: wp_parts wp_literal_fits wp_wide_fits)

lemma wp_binary:
  assumes "\<And>e1 t. unmark_expression e1 = unmark_expression (Expression_Binary h op l r) \<Longrightarrow> Q (e1, t)"
  shows "checks (calm K) (body_infer_binary E n h op l r) Q"
  unfolding body_infer_binary_def Let_def
  by (auto intro!: wp_parts wp_null_comparison infers wp_binary_result assms)

lemma wp_conversion:
  assumes "\<And>e1 t. unmark_expression e1 = unmark_expression (Expression_Conversion h e target) \<Longrightarrow> Q (e1, t)"
  shows "checks (calm K) (body_infer_conversion E n h e target) Q"
  unfolding body_infer_conversion_def
  by (auto intro!: wp_parts wp_move_expression infers assms)

lemma wp_infer_step:
  assumes "\<And>e1 t. unmark_expression e1 = unmark_expression e \<Longrightarrow> Q (e1, t)"
  shows "checks (calm K) (infer_expression_step E X n e) Q"
proof (cases e)
  case (Expression_Call h l args i)
  have "unmark_expression (set_effects_applied (Expression_Call h l args1 j)) = unmark_expression e"
    if "map unmark_expression args1 = map unmark_expression args" for args1 j
    using that Expression_Call by simp
  with Expression_Call assms show ?thesis
    by (auto simp: infer_expression_step_def intro!: wp_call)
qed (auto simp: infer_expression_step_def intro!: wp_atom wp_unary wp_binary wp_conversion assms)

lemma wp_check_step:
  assumes "\<And>e1. unmark_expression e1 = unmark_expression e \<Longrightarrow> Q e1"
  shows "checks (calm K) (check_expression_step E X n t e sp) Q"
  unfolding check_expression_step_def
  by (auto intro!: wp_parts wp_tagged wp_literal_fits infers assms split: option.split)

end

text \<open>The checks of expressions satisfy the laws at every nesting.\<close>

context kernel_laws
begin

lemma expression_laws_nested: "expression_laws K (body_infer_expression n k) (body_check_expression_compatible n k)"
proof (induction k)
  case 0
  show ?case
    by unfold_locales (simp_all add: checks_stuck)
next
  case (Suc k)
  show ?case
    by unfold_locales
      (auto intro: expression_laws.wp_infer_step [OF Suc] expression_laws.wp_check_step [OF Suc])
qed

end

end
