(* ===== verification/Body_Scope.thy ===== *)
theory Body_Scope
  imports Body_Frame Body_Example
begin

text \<open>
  What statements, blocks and functions keep (\<open>framed\<close>, \<open>enclosed\<close>), by the laws of the kernels
  (\<open>kernel_laws\<close>) and of expressions (\<open>expression_laws\<close>) of \<open>Body_Frame\<close>. A block that is checked, accepted
  or refused, leaves the locals it found with their names, types and scopes, and the depths of scopes and
  of unsafe blocks; the checked tree differs from the given one in marks only.
\<close>

section \<open>Statements without marks\<close>

primrec unmark_statement :: "ast_statement \<Rightarrow> ast_statement"
  and unmark_block :: "ast_block \<Rightarrow> ast_block" where
  "unmark_statement (Statement_Variable sp d) = Statement_Variable sp d"
| "unmark_statement (Statement_Initialize_Record sp l inputs) =
     Statement_Initialize_Record sp (unmark_lvalue l) (map (map_prod id unmark_expression) inputs)"
| "unmark_statement (Statement_Initialize_Vector sp l as) =
     Statement_Initialize_Vector sp (unmark_lvalue l) (map unmark_atom as)"
| "unmark_statement (Statement_Initialize_Box sp l a) = Statement_Initialize_Box sp (unmark_lvalue l) (unmark_atom a)"
| "unmark_statement (Statement_Copy sp l e) = Statement_Copy sp (unmark_lvalue l) (unmark_expression e)"
| "unmark_statement (Statement_While sp e block) = Statement_While sp (unmark_expression e) (unmark_block block)"
| "unmark_statement (Statement_If sp e block else_block) =
     Statement_If sp (unmark_expression e) (unmark_block block) (map_option unmark_block else_block)"
| "unmark_statement (Statement_Match sp e cases) =
     Statement_Match sp (unmark_expression e) (map (map_prod id unmark_block) cases)"
| "unmark_statement (Statement_Unsafe sp block) = Statement_Unsafe sp (unmark_block block)"
| "unmark_statement (Statement_Return sp e) = Statement_Return sp (map_option unmark_expression e)"
| "unmark_block (Block sp statements) = Block sp (map unmark_statement statements)"

section \<open>Initializers\<close>

context expression_laws
begin

lemma wp_initialize: "Q () \<Longrightarrow> checks (calm K) (body_initialize i sp) Q"
  unfolding body_initialize_def
  by (cases i) (auto intro!: wp_nothing wp_update_safety)

lemma wp_set_length: "Q () \<Longrightarrow> checks (calm K)
    (change_body (case i of None \<Rightarrow> id | Some i \<Rightarrow> update_local i (\<lambda>l. l\<lparr>local_known_length := x\<rparr>))) Q"
  by (cases i) (auto intro!: wp_nothing wp_update_length)

lemma wp_contained:
  "(\<And>a1. unmark_atom a1 = unmark_atom a \<Longrightarrow> Q a1) \<Longrightarrow> checks (calm K) (check_contained_atom E n t sp a) Q"
  unfolding check_contained_atom_def by (auto intro!: wp_parts wp_atom_compatible wp_move_atom)

lemma wp_box_init:
  "(\<And>l1 a1. unmark_lvalue l1 = unmark_lvalue l \<Longrightarrow> unmark_atom a1 = unmark_atom a \<Longrightarrow> Q (l1, a1)) \<Longrightarrow>
     checks (calm K) (body_check_box_init E n sp l a) Q"
  unfolding body_check_box_init_def
  by (auto intro!: wp_parts wp_assignable wp_contained wp_initialize split: option.split)

lemma wp_contained_atoms:
  "(\<And>as1. map unmark_atom as1 = map unmark_atom as \<Longrightarrow> Q as1) \<Longrightarrow>
     checks (calm K) (check_contained_atoms E n t sp as) Q"
proof (induction as arbitrary: Q)
  case (Cons a as)
  show ?case
    by (auto intro!: wp_parts wp_contained Cons.IH Cons.prems)
qed (auto intro!: wp_parts)

lemma wp_vector_init:
  "(\<And>l1 as1. unmark_lvalue l1 = unmark_lvalue l \<Longrightarrow> map unmark_atom as1 = map unmark_atom as \<Longrightarrow> Q (l1, as1)) \<Longrightarrow>
     checks (calm K) (body_check_vector_init E n sp l as) Q"
  unfolding body_check_vector_init_def
  by (auto intro!: wp_parts wp_assignable wp_contained_atoms wp_set_length wp_initialize)

lemma wp_record_inputs:
  "(\<And>inputs1 seen1. map (map_prod id unmark_expression) inputs1 = map (map_prod id unmark_expression) inputs \<Longrightarrow>
      Q (inputs1, seen1)) \<Longrightarrow> checks (calm K) (check_record_inputs E X n sp i fs inputs seen) Q"
proof (induction inputs arbitrary: seen Q)
  case (Cons input inputs)
  show ?case
    by (cases input) (auto intro!: wp_parts accepts wp_transfer Cons.IH Cons.prems split: option.split)
qed (auto intro!: wp_parts)

lemma wp_record_init:
  "(\<And>l1 inputs1. unmark_lvalue l1 = unmark_lvalue l \<Longrightarrow>
      map (map_prod id unmark_expression) inputs1 = map (map_prod id unmark_expression) inputs \<Longrightarrow> Q (l1, inputs1)) \<Longrightarrow>
     checks (calm K) (body_check_record_init E X n sp l inputs) Q"
  unfolding body_check_record_init_def
  by (auto intro!: wp_parts wp_assignable wp_record_inputs wp_initialize)

lemma wp_condition:
  "(\<And>e1. unmark_expression e1 = unmark_expression e \<Longrightarrow> Q e1) \<Longrightarrow> checks (calm K) (check_condition E n sp e) Q"
  unfolding check_condition_def by (auto intro!: wp_parts infers)

end

section \<open>Snapshots\<close>

lemma shape_state [simp]: "local_shape (set_local_state s l) = local_shape l"
  by (simp add: local_shape_def set_local_state_def)

lemma shape_restore: "map local_shape (bd_locals (body_safety_restore snapshot b)) = map local_shape (bd_locals b)"
proof -
  have "map local_shape (map2 set_local_state snapshot ls @ drop (length snapshot) ls) = map local_shape ls" for ls
    by (induction snapshot ls rule: list_induct2') auto
  then show ?thesis
    by (simp add: body_safety_restore_def)
qed

lemma restore_fields [simp]:
  "bd_semantic (body_safety_restore s b) = bd_semantic b" "bd_function (body_safety_restore s b) = bd_function b"
  "bd_slots (body_safety_restore s b) = bd_slots b" "bd_scope_depth (body_safety_restore s b) = bd_scope_depth b"
  "bd_unsafe_depth (body_safety_restore s b) = bd_unsafe_depth b"
  "bd_falls_through (body_safety_restore s b) = bd_falls_through b"
  by (simp_all add: body_safety_restore_def)

lemma length_restore [simp]: "length (bd_locals (body_safety_restore s b)) = length (bd_locals b)"
  using arg_cong [OF shape_restore [of s b], of length] by simp

section \<open>Frames\<close>

text \<open>A local keeps its name, its slot and its scope, and its type once it has one.\<close>

definition same_local :: "semantic_local \<Rightarrow> semantic_local \<Rightarrow> bool" where
  "same_local l m \<longleftrightarrow> local_name m = local_name l \<and> local_slot m = local_slot l
     \<and> local_scope_depth m = local_scope_depth l \<and> local_is_parameter m = local_is_parameter l
     \<and> local_declaration_span m = local_declaration_span l
     \<and> (local_type l \<noteq> None \<longrightarrow> local_type m = local_type l \<and> local_mutable m = local_mutable l)"

definition framed :: "(semantic_context \<Rightarrow> semantic_context \<Rightarrow> bool) \<Rightarrow> body \<Rightarrow> body \<Rightarrow> bool" where
  "framed K b d \<longleftrightarrow> K (bd_semantic b) (bd_semantic d)
     \<and> bd_function d = bd_function b \<and> bd_scope_depth d = bd_scope_depth b \<and> bd_unsafe_depth d = bd_unsafe_depth b
     \<and> length (bd_locals b) \<le> length (bd_locals d)
     \<and> (\<forall>i < length (bd_locals b). same_local (local_at b i) (local_at d i))"

definition enclosed :: "(semantic_context \<Rightarrow> semantic_context \<Rightarrow> bool) \<Rightarrow> body \<Rightarrow> body \<Rightarrow> bool" where
  "enclosed K b d \<longleftrightarrow> framed K b d \<and> length (bd_locals d) = length (bd_locals b)"

lemma same_local_refl [simp]: "same_local l l"
  by (simp add: same_local_def)

lemma same_local_trans: "same_local l m \<Longrightarrow> same_local m k \<Longrightarrow> same_local l k"
  by (auto simp: same_local_def)

lemma same_shape: "local_shape m = local_shape l \<Longrightarrow> same_local l m"
  by (cases l; cases m) (simp add: local_shape_def same_local_def)

lemma calm_local:
  assumes "calm K b d"
  shows "length (bd_locals d) = length (bd_locals b)"
    "i < length (bd_locals b) \<Longrightarrow> local_shape (local_at d i) = local_shape (local_at b i)"
proof -
  from assms have shapes: "map local_shape (bd_locals d) = map local_shape (bd_locals b)"
    by (simp add: calm_def)
  then show len: "length (bd_locals d) = length (bd_locals b)"
    by (rule map_eq_imp_length_eq)
  show "local_shape (local_at d i) = local_shape (local_at b i)" if "i < length (bd_locals b)"
    by (metis shapes len nth_map that)
qed

lemma calm_enclosed: "calm K b d \<Longrightarrow> enclosed K b d"
  using calm_local [of K b d] same_shape by (auto simp: enclosed_def framed_def calm_def)

lemma shape_type: "local_shape l = local_shape m \<Longrightarrow> local_type l = local_type m"
  by (cases l; cases m) (simp add: local_shape_def)

lemma enclosed_framed: "enclosed K b d \<Longrightarrow> framed K b d"
  by (simp add: enclosed_def)

context kernel_laws
begin

lemma framed_refl: "reflp (framed K)"
  by (simp add: reflp_def framed_def refl)

lemma framed_then: "framed K b c \<Longrightarrow> framed K c d \<Longrightarrow> framed K b d"
  unfolding framed_def by (auto intro: trans same_local_trans dest: order_less_le_trans)

lemma framed_trans: "transp (framed K)"
  using framed_then by (rule transpI)

lemma enclosed_trans: "transp (enclosed K)"
  by (rule transpI) (auto simp: enclosed_def intro: framed_then)

lemma enclosed_refl: "reflp (enclosed K)"
  using framed_refl by (simp add: reflp_def enclosed_def)

lemma wf_calm: "checks (calm K) m Q \<Longrightarrow> checks (framed K) m Q"
  by (erule checks_weaken) (simp add: calm_enclosed enclosed_framed)

lemma wf_then: "checks (framed K) m (\<lambda>x. checks (framed K) (f x) Q) \<Longrightarrow> checks (framed K) (check_then m f) Q"
  by (rule checks_then [OF framed_trans])

lemma wf_change:
  "(\<And>b. bd_semantic (f b) = bd_semantic b) \<Longrightarrow> (\<And>b. bd_function (f b) = bd_function b) \<Longrightarrow>
   (\<And>b. bd_scope_depth (f b) = bd_scope_depth b) \<Longrightarrow> (\<And>b. bd_unsafe_depth (f b) = bd_unsafe_depth b) \<Longrightarrow>
   (\<And>b. \<exists>ls. bd_locals (f b) = bd_locals b @ ls) \<Longrightarrow> Q () \<Longrightarrow> checks (framed K) (change_body f) Q"
  by (rule checks_change) (simp_all add: framed_def refl, metis length_append le_add1 nth_append same_local_refl)

lemma wp_capture: "(\<And>s. Q s) \<Longrightarrow> checks (calm K) body_safety_capture Q"
  unfolding body_safety_capture_def by (auto intro!: wp)

lemma wp_allocation: "(\<And>x. Q x) \<Longrightarrow> checks (calm K) allocation Q"
  unfolding allocation_def by (auto intro!: wp)

lemmas wf_basic = wf_then checks_with checks_accept [OF framed_refl] checks_refuse [OF framed_refl]
  checks_known [OF framed_refl] wp_fail [THEN wf_calm] wp_demand [OF layouts(1), THEN wf_calm]
  wp_demand [OF resolve, THEN wf_calm] wp_run [OF resolve, THEN wf_calm] wp_run [OF ownership(2), THEN wf_calm]
  wp_capture [THEN wf_calm] wp_allocation [THEN wf_calm] wp_moves [THEN wf_calm]

lemma wf_push_local: "Q () \<Longrightarrow> checks (framed K) (body_push_local l sp) Q"
  unfolding body_push_local_def by (auto intro!: wf_basic wf_change)

lemma wf_declare: "Q () \<Longrightarrow> checks (framed K) (body_declare_local n d sp) Q"
  unfolding body_declare_local_def Let_def
  by (auto intro!: wf_basic wf_change wf_push_local split: option.split ast_lvalue_base.split)

lemma wf_falls: "Q () \<Longrightarrow> checks (framed K) (set_falls_through f) Q"
  unfolding set_falls_through_def by (auto intro!: wf_change)

lemma wf_bindings: "Q () \<Longrightarrow> checks (framed K) (push_bindings sp ps) Q"
  by (induction ps) (auto intro!: wf_basic wf_push_local)

end

context expression_laws
begin

text \<open>The type a destination takes from its value.\<close>

lemma wf_destination:
  assumes "\<And>e1 x. unmark_expression e1 = unmark_expression e \<Longrightarrow> Q (e1, x)"
  shows "checks (framed K) (body_infer_destination E l e) Q"
proof (rule checksI)
  fix b b1 and x :: "(ast_expression \<times> bool) option"
  assume run: "body_infer_destination E l e b = Some (b1, x)"
  have E: "checks (calm K) (E e) (\<lambda>(e1, t). unmark_expression e1 = unmark_expression e)"
    by (rule infers) simp
  show "framed K b b1 \<and> (\<forall>y. x = Some y \<longrightarrow> Q y)"
  proof (cases "\<exists>i. body_find_local b l = Some i \<and> local_type (local_at b i) = None")
    case False
    with run have "b1 = b" "x = Some (e, False)"
      by (auto simp: body_infer_destination_def with_body_def accept_def split: option.splits if_splits)
    with assms framed_refl show ?thesis
      by (simp add: reflp_def)
  next
    case True
    then obtain i where i: "body_find_local b l = Some i" "local_type (local_at b i) = None"
      by blast
    from run i obtain b2 y where y: "E e b = Some (b2, y)"
      by (auto simp: body_infer_destination_def with_body_def check_then_def split: option.splits prod.splits)
    from checksD(1) [OF E y] have calm: "calm K b b2" .
    show ?thesis
    proof (cases y)
      case None
      with run i y calm show ?thesis
        by (auto simp: body_infer_destination_def with_body_def check_then_def calm_enclosed enclosed_framed)
    next
      case (Some z)
      obtain e1 t where z: "z = (e1, t)"
        by fastforce
      let ?f = "\<lambda>l. l\<lparr>local_type := Some t, local_mutable := True\<rparr>"
      from checksD(2) [OF E y Some] z have e1: "unmark_expression e1 = unmark_expression e"
        by simp
      from run i y Some z have "x = Some (e1, True)" and
        b1: "bd_locals b1 = (bd_locals b2)[i := ?f (local_at b2 i)]" "bd_semantic b1 = bd_semantic b2"
          "bd_function b1 = bd_function b2" "bd_scope_depth b1 = bd_scope_depth b2" "bd_unsafe_depth b1 = bd_unsafe_depth b2"
        by (auto simp: body_infer_destination_def with_body_def check_then_def change_body_def accept_def update_local_def
            split: option.splits)
      have "local_type (local_at b2 i) = None" if "i < length (bd_locals b2)"
        using shape_type [OF calm_local(2) [OF calm]] calm_local(1) [OF calm] that i(2) by simp
      then have "same_local (local_at b2 j) (local_at b1 j)" if "j < length (bd_locals b2)" for j
        using that b1(1) by (cases "j = i") (auto simp: same_local_def)
      then have "framed K b2 b1"
        using b1 by (simp add: framed_def refl)
      with framed_then [OF enclosed_framed [OF calm_enclosed [OF calm]]] assms e1 \<open>x = Some (e1, True)\<close> show ?thesis
        by simp
    qed
  qed
qed

lemma wf_copy:
  assumes "\<And>l1 e1. unmark_lvalue l1 = unmark_lvalue l \<Longrightarrow> unmark_expression e1 = unmark_expression e \<Longrightarrow> Q (l1, e1)"
    and "E = infer_with n k" "X = check_with n k"
  shows "checks (framed K) (body_check_copy n k sp l e) Q"
  unfolding body_check_copy_def assms(2,3) [symmetric]
  by (auto intro!: wf_then wf_destination wp_assignable [THEN wf_calm] wp_transfer [THEN wf_calm]
      accepts [THEN wf_calm] wp_set_length [THEN wf_calm] wp_initialize [THEN wf_calm] wf_basic assms(1))

lemma wf_return:
  assumes "\<And>e1. map_option unmark_expression e1 = map_option unmark_expression e \<Longrightarrow> Q e1"
    and "E = infer_with n k" "X = check_with n k"
  shows "checks (framed K) (body_check_return n k sp e) Q"
  unfolding body_check_return_def assms(2,3) [symmetric]
  by (auto intro!: wf_basic wf_falls wp_return_reference [THEN wf_calm] wp_return_view [THEN wf_calm]
      wp_move_expression [THEN wf_calm] accepts [THEN wf_calm] assms(1) split: option.split)

end

section \<open>Scopes\<close>

context kernel_laws
begin

lemma release_scope_calm: "calm K b (body_safety_release_scope saved b)"
proof -
  have "calm K b (fold body_safety_release_local_borrow is b)" for "is"
    by (induction "is" rule: rev_induct) (auto intro: calm_same calm_release)
  then show ?thesis
    by (simp add: body_safety_release_scope_def)
qed

lemma restore_calm: "calm K b (body_safety_restore s b)"
  by (simp add: calm_def refl shape_restore)

lemma merge_calm: "calm K b (body_safety_merge l r b)"
  by (simp add: body_safety_merge_def restore_calm)

lemma leave_scope_framed:
  assumes "framed K (enter_scope b) d"
  shows "enclosed K b (leave_scope (length (bd_locals b)) d)"
proof -
  let ?r = "body_safety_release_scope (length (bd_locals b)) d"
  have r: "framed K d ?r" "length (bd_locals ?r) = length (bd_locals d)"
    using calm_enclosed [OF release_scope_calm] by (auto simp: enclosed_def)
  from framed_then [OF assms r(1)] have f: "framed K (enter_scope b) ?r" .
  moreover have "length (bd_locals b) \<le> length (bd_locals ?r)"
    using f by (simp add: framed_def enter_scope_def)
  ultimately show ?thesis
    by (simp add: enclosed_def framed_def leave_scope_def Let_def truncate_locals_def enter_scope_def)
qed

lemma checks_scope:
  assumes "checks (framed K) m P" "\<And>x f. P (x, f) \<Longrightarrow> Q (x, f)"
  shows "checks (enclosed K) (check_scope m) Q"
proof (rule checksI)
  fix b b1 x
  assume run: "check_scope m b = Some (b1, x)"
  let ?l = "leave_scope (length (bd_locals b))"
  from run obtain b2 y where y: "m (enter_scope b) = Some (b2, y)"
    by (auto simp: check_scope_def with_body_def check_then_def change_body_def check_finally_def split: option.splits)
  note m = checksD [OF assms(1) y]
  have "b1 = (case y of None \<Rightarrow> ?l b2 | Some (z, f) \<Rightarrow> (?l b2)\<lparr>bd_falls_through := f\<rparr>)" "x = y"
    using run y by (auto simp: check_scope_def with_body_def check_then_def change_body_def check_finally_def Let_def
        set_falls_through_def accept_def split: option.splits)
  with leave_scope_framed [OF m(1)] m(2) assms(2) show "enclosed K b b1 \<and> (\<forall>y. x = Some y \<longrightarrow> Q y)"
    by (auto simp: enclosed_def framed_def split: option.splits)
qed

lemma wf_enclosed: "checks (enclosed K) m Q \<Longrightarrow> checks (framed K) m Q"
  by (erule checks_weaken) (rule enclosed_framed)

end

section \<open>Matches\<close>

text \<open>Between the cases of a match there are as many locals as before the match.\<close>

definition staying :: "(semantic_context \<Rightarrow> semantic_context \<Rightarrow> bool) \<Rightarrow> nat \<Rightarrow> body \<Rightarrow> body \<Rightarrow> bool" where
  "staying K count b d \<longleftrightarrow> (length (bd_locals b) = count \<longrightarrow> enclosed K b d)"

context kernel_laws
begin

lemma staying_trans: "transp (staying K count)"
  using enclosed_trans by (auto simp: transp_def staying_def enclosed_def)

lemma staying_refl: "reflp (staying K count)"
  using enclosed_refl by (simp add: reflp_def staying_def)

lemma ws_calm: "checks (calm K) m Q \<Longrightarrow> checks (staying K count) m Q"
  by (erule checks_weaken) (simp add: staying_def calm_enclosed)

lemma ws_then:
  "checks (staying K count) m (\<lambda>x. checks (staying K count) (f x) Q) \<Longrightarrow> checks (staying K count) (check_then m f) Q"
  by (rule checks_then [OF staying_trans])

lemma wf_capture_then:
  assumes "\<And>facts. checks (staying K (length facts)) (f facts) Q"
  shows "checks (enclosed K) (check_then body_safety_capture f) Q"
proof (rule checksI)
  fix b b1 x
  assume run: "check_then body_safety_capture f b = Some (b1, x)"
  then obtain b2 y where y: "body_safety_capture b = Some (b2, y)"
    by (auto simp: check_then_def split: option.splits)
  have capture: "checks (calm K) body_safety_capture (\<lambda>_. True)"
    by (rule wp_capture) simp
  from checksD(1) [OF capture y] have calm: "enclosed K b b2"
    by (rule calm_enclosed)
  show "enclosed K b b1 \<and> (\<forall>y. x = Some y \<longrightarrow> Q y)"
  proof (cases y)
    case None
    with run y calm show ?thesis
      by (simp add: check_then_def)
  next
    case (Some facts)
    with y have "length facts = length (bd_locals b2)"
      by (auto simp: body_safety_capture_def with_body_def check_then_def accept_def on_sem_def on_semantic_def body_fail_def
          split: if_splits option.splits prod.splits)
    moreover have "f facts b2 = Some (b1, x)"
      using run y Some by (simp add: check_then_def)
    ultimately have "enclosed K b2 b1" "\<forall>y. x = Some y \<longrightarrow> Q y"
      using checksD [OF assms [of facts]] by (auto simp: staying_def)
    with transpD [OF enclosed_trans calm] show ?thesis
      by blast
  qed
qed

lemma wp_unreachable: "checks (calm K) (report_unreachable_pattern sp earlier) Q"
  unfolding report_unreachable_pattern_def by (rule wp_report)

lemma wp_analyze: "(\<And>a. Q a) \<Longrightarrow> checks (calm K) (analyze_case n t p) Q"
proof -
  assume Q: "\<And>a. Q a"
  have "keeps K (\<lambda>c. map_option (\<lambda>(c, a, err). (c, a, err)) (pattern_analyze n t p pattern_analysis_init c))"
    using patterns [of n t p pattern_analysis_init] by (auto simp: keeps_def)
  with Q show ?thesis
    unfolding analyze_case_def by (auto intro!: wp wp_run split: option.split)
qed

lemma wp_cover: "(\<And>m. Q m) \<Longrightarrow> checks (calm K) (cover_case a sp m) Q"
  unfolding cover_case_def Let_def by (auto intro!: wp wp_unreachable)

lemma wp_join: "(\<And>m. Q m) \<Longrightarrow> checks (calm K) (join_fallthrough m) Q"
  unfolding join_fallthrough_def
  by (auto intro!: wp wp_capture checks_change merge_calm split: option.split)

lemma enclosed_truncate:
  assumes "framed K b d"
  shows "enclosed K b (truncate_locals (length (bd_locals b)) d)"
  using assms by (simp add: enclosed_def framed_def truncate_locals_def)

lemma ws_case:
  assumes "checks (enclosed K) check_body P" "\<And>block f m. P (block, f) \<Longrightarrow> Q (block, m)"
  shows "checks (staying K (length facts)) (check_case n sp t facts check_body p m) Q"
proof -
  have enter: "staying K (length facts) b ((truncate_locals (length facts) \<circ> body_safety_restore facts) b)" for b
    using enclosed_truncate [OF enclosed_framed [OF calm_enclosed [OF restore_calm [of b facts]]]]
    by (auto simp: staying_def)
  have body: "checks (framed K) (check_then (push_bindings sp bs) (\<lambda>_. check_body)) P" for bs
    by (intro wf_then wf_bindings wf_enclosed assms(1))
  have leave: "checks (staying K (length facts))
      (check_finally (check_then (push_bindings sp bs) (\<lambda>_. check_body)) (truncate_locals (length facts))) P" for bs
    by (rule checks_finally [OF body]) (auto simp: staying_def dest: enclosed_truncate)
  have rest: "checks (staying K (length facts)) (check_then (if f then join_fallthrough m else accept m)
      (\<lambda>m. accept (block, m))) Q" if "P (block, f)" for block f m
    using assms(2) [OF that]
    by (auto intro!: ws_then ws_calm [OF wp_join] checks_accept [OF staying_refl])
  show ?thesis
    unfolding check_case_def
    by (auto intro!: ws_then ws_calm [OF wp_analyze] ws_calm [OF wp_cover] checks_change enter
        ws_calm [OF wp_unreachable] checks_mono [OF leave] rest)
qed

lemma falls_enclosed: "enclosed K b d \<Longrightarrow> enclosed K b (d\<lparr>bd_falls_through := f\<rparr>)"
  by (simp add: enclosed_def framed_def)

lemmas restore_enclosed = calm_enclosed [OF restore_calm]

lemma ws_finish: "Q () \<Longrightarrow> checks (staying K count) (finish_match sp t r facts m) Q"
  unfolding finish_match_def report_missing_pattern_def Let_def
  by (auto intro!: checks_with ws_calm [OF wp_report] checks_change falls_enclosed restore_enclosed simp: staying_def)

lemma close_enclosed: "enclosed K b (close_loop s t f b)" "enclosed K b (close_branch s t u f g b)"
  using transpD [OF enclosed_trans restore_enclosed calm_enclosed [OF merge_calm]] restore_enclosed
    calm_enclosed [OF merge_calm]
  by (auto simp: close_loop_def close_branch_def Let_def intro!: falls_enclosed)

lemma wf_body_change: "(\<And>b. enclosed K b (f b)) \<Longrightarrow> Q () \<Longrightarrow> checks (framed K) (change_body f) Q"
  by (rule checks_change) (simp_all add: enclosed_framed)

lemma wf_start: "(\<And>m. Q m) \<Longrightarrow> checks (framed K) (match_start count sp) Q"
  unfolding match_start_def Let_def by (auto intro!: wf_basic)

lemma wf_unsafe:
  assumes "checks (enclosed K) m P" "\<And>x f. P (x, f) \<Longrightarrow> Q (x, f)"
  shows "checks (framed K) (check_then (change_body (\<lambda>b. b\<lparr>bd_unsafe_depth := bd_unsafe_depth b + 1\<rparr>)) (\<lambda>_.
     check_finally m (\<lambda>b. b\<lparr>bd_unsafe_depth := bd_unsafe_depth b - 1\<rparr>))) Q"
proof (rule checksI)
  fix b b1 :: body and x
  let ?b = "b\<lparr>bd_unsafe_depth := bd_unsafe_depth b + 1\<rparr>"
  assume "check_then (change_body (\<lambda>b. b\<lparr>bd_unsafe_depth := bd_unsafe_depth b + 1\<rparr>)) (\<lambda>_.
     check_finally m (\<lambda>b. b\<lparr>bd_unsafe_depth := bd_unsafe_depth b - 1\<rparr>)) b = Some (b1, x)"
  then obtain b2 where m: "m ?b = Some (b2, x)" and b1: "b1 = b2\<lparr>bd_unsafe_depth := bd_unsafe_depth b2 - 1\<rparr>"
    by (auto simp: check_then_def change_body_def check_finally_def split: option.splits)
  from checksD [OF assms(1) m] assms(2) show "framed K b b1 \<and> (\<forall>y. x = Some y \<longrightarrow> Q y)"
    unfolding b1 by (auto simp: enclosed_def framed_def)
qed

end

section \<open>Statements\<close>

context kernel_laws
begin

lemmas nested = expression_laws_nested

lemma then_again: "check_then (check_then m f) g = check_then m (\<lambda>x. check_then (f x) g)"
  by (rule ext) (simp add: check_then_def split: option.split prod.split)

lemma statements_framed:
  "(\<And>s1. unmark_statement s1 = unmark_statement s \<Longrightarrow> P1 s1) \<Longrightarrow> checks (framed K) (body_check_statement n k s) P1"
  "(\<And>block1 f. unmark_block block1 = unmark_block block \<Longrightarrow> P2 (block1, f)) \<Longrightarrow>
     checks (enclosed K) (body_check_block_flow n k block) P2"
  "(\<And>ss1 f. map unmark_statement ss1 = map unmark_statement ss \<Longrightarrow> P3 (ss1, f)) \<Longrightarrow>
     checks (framed K) (body_check_statements n k ss falls) P3"
  "(\<And>cases1 m1. map (map_prod id unmark_block) cases1 = map (map_prod id unmark_block) cases \<Longrightarrow> P4 (cases1, m1)) \<Longrightarrow>
     checks (staying K (length facts)) (body_check_cases n k sp t facts cases m) P4"
proof (induction n k s and n k block and n k ss falls and n k sp t facts cases m
    arbitrary: P1 and P2 and P3 and P4
    rule: body_check_statement_body_check_block_flow_body_check_statements_body_check_cases.induct)
  case (1 n k sp d)
  then show ?case
    by (auto intro!: wf_basic wf_declare)
next
  case (2 n k sp l e)
  then show ?case
    by (auto intro!: wf_basic expression_laws.wf_copy [OF nested])
next
  case (3 n k sp l inputs)
  then show ?case
    by (auto intro!: wf_basic expression_laws.wp_record_init [OF nested, THEN wf_calm])
next
  case (4 n k sp l as)
  then show ?case
    by (auto intro!: wf_basic expression_laws.wp_vector_init [OF nested, THEN wf_calm])
next
  case (5 n k sp l a)
  then show ?case
    by (auto intro!: wf_basic expression_laws.wp_box_init [OF nested, THEN wf_calm])
next
  case (6 n k sp e block)
  show ?case
    by (auto intro!: wf_basic expression_laws.wp_condition [OF nested, THEN wf_calm] "6.IH" [THEN wf_enclosed] "6.prems"
        wf_body_change close_enclosed)
next
  case (7 n k sp e block else_block)
  show ?case
    by (auto intro!: wf_basic expression_laws.wp_condition [OF nested, THEN wf_calm] "7.IH" [THEN wf_enclosed] "7.prems"
        wf_body_change close_enclosed restore_enclosed split: option.split)
next
  case (8 n k sp e cases)
  show ?case
    by (auto intro!: wf_basic expression_laws.infers [OF nested, THEN wf_calm] wf_start wf_capture_then [THEN wf_enclosed]
        ws_then "8.IH" ws_finish checks_accept [OF staying_refl] "8.prems" simp: id_def)
next
  case (9 n k sp block)
  have block: "checks (enclosed K) (body_check_block_flow n k block) (\<lambda>(block1, _). unmark_block block1 = unmark_block block)"
    by (rule "9.IH") simp
  show ?case
    unfolding body_check_statement.simps then_again [symmetric]
    by (rule wf_then, rule wf_unsafe [OF block]) (auto intro!: wf_basic wf_falls "9.prems")
next
  case (10 n k sp e)
  then show ?case
    by (auto intro!: wf_basic expression_laws.wf_return [OF nested])
next
  case (11 n k sp statements)
  have statements: "checks (framed K) (body_check_statements n k statements True)
      (\<lambda>(ss1, _). map unmark_statement ss1 = map unmark_statement statements)"
    by (rule "11.IH") simp
  show ?case
    unfolding body_check_block_flow.simps
    by (rule checks_then [OF enclosed_trans], rule checks_scope [OF statements])
      (auto intro!: checks_accept [OF enclosed_refl] "11.prems")
next
  case (12 n k falls)
  then show ?case
    by (auto intro!: wf_basic)
next
  case (13 n k s ss falls)
  show ?case
    by (auto intro!: wf_basic "13.IH" "13.prems" wf_falls)
next
  case (14 n k sp t facts m)
  then show ?case
    by (auto intro!: checks_accept [OF staying_refl])
next
  case (15 n k sp t facts x xs m)
  have block: "checks (enclosed K) (body_check_block_flow n k (snd x)) (\<lambda>(block, _). unmark_block block = unmark_block (snd x))"
    by (rule "15.IH"(1)) simp
  show ?case
    unfolding body_check_cases.simps
    by (rule ws_then, rule ws_case [OF block])
      (auto intro!: ws_then "15.IH"(2) "15.prems" checks_accept [OF staying_refl] simp: map_prod_def split: prod.split)
qed

end

section \<open>The frame of every check\<close>

interpretation any_kernel: kernel_laws "\<lambda>_ _. True"
  by unfold_locales (simp_all add: keeps_def)

interpretation any_expression:
    expression_laws "\<lambda>_ _. True" "body_infer_expression n k" "body_check_expression_compatible n k" for n k
  by (rule any_kernel.expression_laws_nested)

text \<open>
  C17: The check of a block, whether it accepts or refuses, ends in the frame it started in: as many
  locals, with their names, slots and scopes and with the types they had, the same function, the same
  depths of scopes and of unsafe blocks. What it accepts is the given block with marks: no statement,
  expression or place is changed, added or dropped.
\<close>

theorem block_keeps_frame:
  assumes "body_check_block_flow n k block b = Some (d, x)"
  shows "length (bd_locals d) = length (bd_locals b)
    \<and> (\<forall>i < length (bd_locals b). same_local (local_at b i) (local_at d i))
    \<and> bd_function d = bd_function b \<and> bd_scope_depth d = bd_scope_depth b \<and> bd_unsafe_depth d = bd_unsafe_depth b
    \<and> (\<forall>block1 falls. x = Some (block1, falls) \<longrightarrow> unmark_block block1 = unmark_block block)"
proof -
  have "checks (enclosed (\<lambda>_ _. True)) (body_check_block_flow n k block) (\<lambda>(block1, falls). unmark_block block1 = unmark_block block)"
    by (rule any_kernel.statements_framed(2)) simp
  from checksD [OF this assms] show ?thesis
    by (auto simp: enclosed_def framed_def)
qed

text \<open>A block that declares a local and gives it a number.\<close>

theorem block_keeps_frame_witness:
  "\<exists>d x. body_check_block_flow 3 3 (block_of [declare_place 1 (Some Type_Integer), assign 1 (number 5)])
       (example_body [holding 0 Type_Integer]) = Some (d, Some x)
     \<and> length (bd_locals d) = 1 \<and> local_name (local_at d 0) = Base_Temporary 0"
proof -
  let ?b = "example_body [holding 0 Type_Integer]"
  have "outcome (body_check_block_flow 3 3 (block_of [declare_place 1 (Some Type_Integer), assign 1 (number 5)]) ?b) = Some None"
    by code_simp
  then obtain d x where run: "body_check_block_flow 3 3 (block_of [declare_place 1 (Some Type_Integer), assign 1 (number 5)]) ?b =
      Some (d, Some x)"
    by (auto simp: outcome_def split: if_splits)
  have "length (bd_locals ?b) = 1" "local_name (local_at ?b 0) = Base_Temporary 0"
    by (simp_all add: example_body_def holding_def)
  with block_keeps_frame [OF run] run show ?thesis
    by (auto simp: same_local_def)
qed

end
