(* ===== verification/Body_Flow.thy ===== *)
theory Body_Flow
  imports Body_Scope
begin

text \<open>
  Control flow in checked bodies. \<open>passes\<close> and \<open>ends\<close> say, without the checks, which statements control
  can leave at their end and which blocks it can run through. The flag the checks compute is exactly
  that, so an accepted function with a result returns on every path; and the facts after a branch allow
  what the facts of every branch that control can leave allow.
\<close>

section \<open>Where control goes\<close>

inductive passes :: "ast_statement \<Rightarrow> bool" and ends :: "ast_block \<Rightarrow> bool" where
  passes_variable: "passes (Statement_Variable sp d)"
| passes_record: "passes (Statement_Initialize_Record sp l inputs)"
| passes_vector: "passes (Statement_Initialize_Vector sp l as)"
| passes_box: "passes (Statement_Initialize_Box sp l a)"
| passes_copy: "passes (Statement_Copy sp l e)"
| passes_while: "passes (Statement_While sp e block)"
| passes_then: "ends block \<Longrightarrow> passes (Statement_If sp e block else_block)"
| passes_no_else: "passes (Statement_If sp e block None)"
| passes_else: "ends other \<Longrightarrow> passes (Statement_If sp e block (Some other))"
| passes_match: "(p, block) \<in> set cases \<Longrightarrow> ends block \<Longrightarrow> passes (Statement_Match sp e cases)"
| passes_unsafe: "ends block \<Longrightarrow> passes (Statement_Unsafe sp block)"
| ends_block: "\<forall>s \<in> set statements. passes s \<Longrightarrow> ends (Block sp statements)"

inductive_simps passes_simps [simp]:
  "passes (Statement_Variable sp d)" "passes (Statement_Initialize_Record sp l inputs)"
  "passes (Statement_Initialize_Vector sp l as)" "passes (Statement_Initialize_Box sp l a)"
  "passes (Statement_Copy sp l e)" "passes (Statement_While sp e block)" "passes (Statement_If sp e block else_block)"
  "passes (Statement_Match sp e cases)" "passes (Statement_Unsafe sp block)" "passes (Statement_Return sp x)"
  "ends (Block sp statements)"

section \<open>Accepted checks, step by step\<close>

lemma accepted_then:
  "check_then m f b = Some (d, Some y) \<longleftrightarrow> (\<exists>c x. m b = Some (c, Some x) \<and> f x c = Some (d, Some y))"
  by (auto simp: check_then_def split: option.splits)

lemma accepted_basic:
  "accept x b = Some (d, Some y) \<longleftrightarrow> d = b \<and> y = x"
  "refuse b = Some (d, Some y) \<longleftrightarrow> False"
  "body_fail i sp b = Some (d, Some y) \<longleftrightarrow> False"
  "body_report i sp explain b = Some (d, Some y) \<longleftrightarrow> False"
  "known z b = Some (d, Some y) \<longleftrightarrow> d = b \<and> z = Some y"
  "change_body g b = Some (d, Some u) \<longleftrightarrow> d = g b"
  "set_falls_through falls b = Some (d, Some u) \<longleftrightarrow> d = b\<lparr>bd_falls_through := falls\<rparr>"
  "with_body h b = h b b"
  "check_finally m g b = Some (d, Some y) \<longleftrightarrow> (\<exists>c. m b = Some (c, Some y) \<and> d = g c)"
  by (auto simp: accept_def refuse_def body_fail_def body_report_def Let_def known_def change_body_def
      set_falls_through_def with_body_def check_finally_def split: option.splits)

lemmas accepted = accepted_then accepted_basic

text \<open>Checks that leave the flag alone.\<close>

definition level :: "body \<Rightarrow> body \<Rightarrow> bool" where
  "level b d \<longleftrightarrow> bd_falls_through d = bd_falls_through b"

lemma level_trans: "transp level" and level_refl: "reflp level"
  by (simp_all add: level_def transp_def reflp_def)

lemma level_calm: "checks (calm (\<lambda>_ _. True)) m Q \<Longrightarrow> checks level m Q"
  by (erule checks_weaken) (simp add: calm_def level_def)

lemmas level_basic = checks_then [OF level_trans] checks_with checks_accept [OF level_refl]
  any_kernel.wp_fail [THEN level_calm] any_kernel.wp_demand [OF any_kernel.layouts(1), THEN level_calm]
  any_kernel.wp_allocation [THEN level_calm]

lemma level_change: "(\<And>b. bd_falls_through (f b) = bd_falls_through b) \<Longrightarrow> Q () \<Longrightarrow> checks level (change_body f) Q"
  by (rule checks_change) (simp_all add: level_def)

lemma level_declare: "checks level (body_declare_local n v sp) (\<lambda>_. True)"
  unfolding body_declare_local_def body_push_local_def Let_def
  by (auto intro!: level_basic level_change split: option.split ast_lvalue_base.split)

lemma level_destination: "(\<And>x. Q x) \<Longrightarrow> checks level (body_infer_destination (infer_with n k) l e) Q"
  unfolding body_infer_destination_def
  by (auto intro!: level_basic level_change any_expression.infers [THEN level_calm] simp: update_local_def split: option.splits)

lemma level_copy: "checks level (body_check_copy n k sp l e) (\<lambda>_. True)"
  unfolding body_check_copy_def
  by (auto intro!: level_basic level_destination any_expression.wp_assignable [THEN level_calm]
      any_expression.accepts [THEN level_calm] any_expression.wp_transfer [THEN level_calm]
      any_expression.wp_set_length [THEN level_calm] any_expression.wp_initialize [THEN level_calm])

lemma level_inits:
  "checks level (body_check_record_init (infer_with n k) (check_with n k) n sp l inputs) (\<lambda>_. True)"
  "checks level (body_check_vector_init (infer_with n k) n sp l as) (\<lambda>_. True)"
  "checks level (body_check_box_init (infer_with n k) n sp l a) (\<lambda>_. True)"
  by (auto intro!: any_expression.wp_record_init any_expression.wp_vector_init any_expression.wp_box_init level_calm)

lemma levelD: "checks level m P \<Longrightarrow> m b = Some (d, x) \<Longrightarrow> bd_falls_through d = bd_falls_through b"
  by (drule checksD(1)) (simp_all add: level_def)

lemmas flow_steps = levelD [OF level_declare] levelD [OF level_copy] levelD [OF level_inits(1)] levelD [OF level_inits(2)]
  levelD [OF level_inits(3)]

lemma close_falls [simp]:
  "bd_falls_through (close_loop s t f b)" "bd_falls_through (close_branch s t u f g b) \<longleftrightarrow> f \<or> g"
  by (simp_all add: close_loop_def close_branch_def Let_def)

lemma return_falls: "body_check_return n k sp e b = Some (d, Some y) \<Longrightarrow> \<not> bd_falls_through d"
  by (auto simp: body_check_return_def accepted)

lemma scope_accepted:
  "check_scope m b = Some (d, Some (y, f)) \<Longrightarrow>
     \<exists>c. m (enter_scope b) = Some (c, Some (y, f)) \<and> bd_falls_through d = f"
  by (auto simp: check_scope_def accepted Let_def)

lemma finish_falls:
  "finish_match sp t r facts m b = Some (d, Some u) \<Longrightarrow> bd_falls_through d \<longleftrightarrow> fallthrough_facts m \<noteq> None"
  by (auto simp: finish_match_def report_missing_pattern_def accepted Let_def split: if_splits)

lemma join_facts: "join_fallthrough m b = Some (d, Some m1) \<Longrightarrow> fallthrough_facts m1 \<noteq> None"
  by (auto simp: join_fallthrough_def accepted split: option.splits)

lemma cover_facts: "cover_case a sp m b = Some (d, Some m1) \<Longrightarrow> fallthrough_facts m1 = fallthrough_facts m"
  by (auto simp: cover_case_def report_unreachable_pattern_def accepted Let_def split: if_splits)

text \<open>A case that is accepted: its block was checked, and joins the facts when control leaves it.\<close>

lemma case_accepted:
  assumes "check_case n sp t facts check_body p m b = Some (d, Some (block, m1))"
  shows "\<exists>c d1 f. check_body c = Some (d1, Some (block, f)) \<and> (fallthrough_facts m1 \<noteq> None \<longleftrightarrow> f \<or> fallthrough_facts m \<noteq> None)"
  using assms
  by (fastforce simp: check_case_def report_unreachable_pattern_def accepted dest: join_facts cover_facts split: if_splits)

lemma start_facts: "match_start count sp b = Some (d, Some m) \<Longrightarrow> fallthrough_facts m = None"
  by (auto simp: match_start_def accepted Let_def split: if_splits)

section \<open>The flag is exact\<close>

lemma flag_exact:
  "body_check_statement n k s b = Some (d, Some s1) \<Longrightarrow> bd_falls_through b \<Longrightarrow> bd_falls_through d \<longleftrightarrow> passes s"
  "body_check_block_flow n k block b = Some (d, Some (block1, f)) \<Longrightarrow> (f \<longleftrightarrow> ends block) \<and> bd_falls_through d = f"
  "body_check_statements n k ss falls b = Some (d, Some (ss1, f)) \<Longrightarrow> f \<longleftrightarrow> falls \<and> (\<forall>s \<in> set ss. passes s)"
  "body_check_cases n k sp t facts cases m b = Some (d, Some (cases1, m1)) \<Longrightarrow>
     fallthrough_facts m1 \<noteq> None \<longleftrightarrow> fallthrough_facts m \<noteq> None \<or> (\<exists>c \<in> set cases. ends (snd c))"
proof (induction n k s and n k block and n k ss falls and n k sp t facts cases m
    arbitrary: b d s1 and b d block1 f and b d ss1 f and b d cases1 m1
    rule: body_check_statement_body_check_block_flow_body_check_statements_body_check_cases.induct)
  case (7 n k sp e block else_block)
  then show ?case
    by (fastforce simp: accepted split: option.splits)
next
  case (8 n k sp e cases)
  then show ?case
    by (fastforce simp: accepted dest!: finish_falls start_facts)
next
  case (15 n k sp t facts x xs m)
  then show ?case
    by (fastforce simp: accepted dest!: case_accepted)
qed (fastforce simp: accepted dest: flow_steps return_falls scope_accepted split: if_splits)+

section \<open>Facts at joins\<close>

text \<open>
  The ends of the branches of a statement that control can leave: the states in which the checks of its
  blocks end, every block checked from the facts before it.
\<close>

inductive case_end ::
    "nat \<Rightarrow> nat \<Rightarrow> source_span \<Rightarrow> ast_type \<Rightarrow> body_snapshot \<Rightarrow> (ast_pattern \<times> ast_block) list \<Rightarrow> match_coverage \<Rightarrow> body \<Rightarrow>
     body \<Rightarrow> bool" for n k sp t facts where
  case_end_here: "analyze_case n t (fst x) b = Some (b1, Some a) \<Longrightarrow>
    cover_case a (pattern_span (fst x)) m b1 = Some (b2, Some m1) \<Longrightarrow>
    push_bindings sp (analysis_bindings a) (truncate_locals (length facts) (body_safety_restore facts b2)) = Some (b3, Some u) \<Longrightarrow>
    body_check_block_flow n k (snd x) b3 = Some (c, Some (block1, True)) \<Longrightarrow>
    case_end n k sp t facts (x # xs) m b c"
| case_end_later: "check_case n sp t facts (body_check_block_flow n k (snd x)) (fst x) m b = Some (b1, Some (block1, m1)) \<Longrightarrow>
    case_end n k sp t facts xs m1 b1 c \<Longrightarrow> case_end n k sp t facts (x # xs) m b c"

inductive branch_end :: "nat \<Rightarrow> nat \<Rightarrow> ast_statement \<Rightarrow> body \<Rightarrow> body \<Rightarrow> bool" for n k where
  end_skip: "check_condition (infer_with n k) n sp e b = Some (b0, Some e1) \<Longrightarrow>
    branch_end n k (Statement_While sp e block) b b0"
| end_loop: "check_condition (infer_with n k) n sp e b = Some (b0, Some e1) \<Longrightarrow>
    body_safety_capture b0 = Some (b1, Some facts) \<Longrightarrow>
    body_check_block_flow n k block b1 = Some (c, Some (block1, True)) \<Longrightarrow>
    branch_end n k (Statement_While sp e block) b c"
| end_then: "check_condition (infer_with n k) n sp e b = Some (b0, Some e1) \<Longrightarrow>
    body_safety_capture b0 = Some (b1, Some facts) \<Longrightarrow>
    body_check_block_flow n k block b1 = Some (c, Some (block1, True)) \<Longrightarrow>
    branch_end n k (Statement_If sp e block else_block) b c"
| end_no_else: "check_condition (infer_with n k) n sp e b = Some (b0, Some e1) \<Longrightarrow>
    branch_end n k (Statement_If sp e block None) b b0"
| end_else: "check_condition (infer_with n k) n sp e b = Some (b0, Some e1) \<Longrightarrow>
    body_safety_capture b0 = Some (b1, Some facts) \<Longrightarrow>
    body_check_block_flow n k block b1 = Some (c1, Some (block1, f)) \<Longrightarrow>
    body_safety_capture c1 = Some (c2, Some on_true) \<Longrightarrow>
    body_check_block_flow n k other (body_safety_restore facts c2) = Some (c, Some (other1, True)) \<Longrightarrow>
    branch_end n k (Statement_If sp e block (Some other)) b c"
| end_match: "infer_with n k e b = Some (b0, Some (e1, t)) \<Longrightarrow> demand (type_resolve n t) b0 = Some (b1, Some r) \<Longrightarrow>
    match_start (match_constructor_count (bd_semantic b1) t r) sp b1 = Some (b2, Some m) \<Longrightarrow>
    body_safety_capture b2 = Some (b3, Some facts) \<Longrightarrow> case_end n k sp t facts cases m b3 c \<Longrightarrow>
    branch_end n k (Statement_Match sp e cases) b c"

inductive_simps case_end_simps: "case_end n k sp t facts [] m b c" "case_end n k sp t facts (x # xs) m b c"

inductive_simps branch_end_simps: "branch_end n k (Statement_While sp e block) b c"
  "branch_end n k (Statement_If sp e block else_block) b c" "branch_end n k (Statement_Match sp e cases) b c"

lemma capture_accepted:
  "body_safety_capture b = Some (d, Some facts) \<Longrightarrow> bd_locals d = bd_locals b \<and> facts = map local_state (bd_locals b)"
  by (auto simp: body_safety_capture_def accepted on_sem_def on_semantic_def split: if_splits prod.splits)

lemma block_length:
  "body_check_block_flow n k block b = Some (d, x) \<Longrightarrow> length (bd_locals d) = length (bd_locals b)"
  using checksD(1) [OF any_kernel.statements_framed(2) [of block "\<lambda>_. True"]] by (simp add: enclosed_def)

lemma condition_length:
  "check_condition (infer_with n k) n sp e b = Some (d, x) \<Longrightarrow> length (bd_locals d) = length (bd_locals b)"
  by (rule calm_local(1) [OF checksD(1) [OF any_expression.wp_condition [of e "\<lambda>_. True"]]]) simp_all

lemma state_at [simp]: "state_safety (local_state l) = local_safety l"
  by (simp add: local_state_def)

lemma start_calm: "checks (calm (\<lambda>_ _. True)) (match_start count sp) (\<lambda>_. True)"
  unfolding match_start_def Let_def by (auto intro!: any_kernel.wp any_kernel.wp_allocation)

text \<open>A test of a fact that a merge answers as both its sides do: reading, writing, moving.\<close>

locale fact_test =
  fixes allowed :: "safety_fact \<Rightarrow> bool"
  assumes merged: "allowed (safety_fact_merge (Some l) (Some r)) \<longleftrightarrow> allowed l \<and> allowed r"
begin

lemma restored:
  "length facts = length (bd_locals b) \<Longrightarrow> i < length (bd_locals b) \<Longrightarrow>
     safety_at (body_safety_restore facts b) i = state_safety (facts ! i)"
  by (simp add: body_safety_restore_def set_local_state_def)

lemma merged_at:
  "length l = length (bd_locals b) \<Longrightarrow> length r = length (bd_locals b) \<Longrightarrow> i < length (bd_locals b) \<Longrightarrow>
     allowed (safety_at (body_safety_merge l r b) i) \<longleftrightarrow> allowed (state_safety (l ! i)) \<and> allowed (state_safety (r ! i))"
  by (simp add: body_safety_merge_def restored merge_local_states_def merged)

lemma loop_joins:
  assumes "body_check_statement n k (Statement_While sp e block) b = Some (d, Some s1)" "i < length (bd_locals b)"
  shows "allowed (safety_at d i) \<longleftrightarrow> (\<forall>c. branch_end n k (Statement_While sp e block) b c \<longrightarrow> allowed (safety_at c i))"
proof -
  from assms(1) obtain b0 e1 b1 facts c block1 f c1 after where
    run: "check_condition (infer_with n k) n sp e b = Some (b0, Some e1)" "body_safety_capture b0 = Some (b1, Some facts)"
      "body_check_block_flow n k block b1 = Some (c, Some (block1, f))" "body_safety_capture c = Some (c1, Some after)"
    and d: "d = close_loop facts after f c1"
    by (auto simp: accepted)
  note parts = capture_accepted [OF run(2)] capture_accepted [OF run(4)] block_length [OF run(3)] condition_length [OF run(1)]
  have "allowed (safety_at d i) \<longleftrightarrow> allowed (safety_at b0 i) \<and> (f \<longrightarrow> allowed (safety_at c i))"
    using parts assms(2) by (simp add: d close_loop_def Let_def merged_at restored)
  with run show ?thesis
    by (auto simp: branch_end_simps)
qed

lemma conditional_joins:
  assumes "body_check_statement n k (Statement_If sp e block else_block) b = Some (d, Some s1)" "i < length (bd_locals b)"
    "passes (Statement_If sp e block else_block)"
  shows "allowed (safety_at d i) \<longleftrightarrow> (\<forall>c. branch_end n k (Statement_If sp e block else_block) b c \<longrightarrow> allowed (safety_at c i))"
proof -
  from assms(1) obtain b0 e1 b1 facts c block1 f c1 on_true where
    run: "check_condition (infer_with n k) n sp e b = Some (b0, Some e1)" "body_safety_capture b0 = Some (b1, Some facts)"
      "body_check_block_flow n k block b1 = Some (c, Some (block1, f))" "body_safety_capture c = Some (c1, Some on_true)"
    by (auto simp: accepted)
  note parts = capture_accepted [OF run(2)] capture_accepted [OF run(4)] block_length [OF run(3)] condition_length [OF run(1)]
    flag_exact(2) [OF run(3)]
  show ?thesis
  proof (cases else_block)
    case None
    with assms(1) run obtain c2 on_false where c2: "body_safety_capture (body_safety_restore facts c1) = Some (c2, Some on_false)"
      and d: "d = close_branch facts on_true on_false f True c2"
      by (auto simp: accepted)
    have "allowed (safety_at d i) \<longleftrightarrow> (f \<longrightarrow> allowed (safety_at c i)) \<and> allowed (safety_at b0 i)"
      using parts capture_accepted [OF c2] assms(2) by (simp add: d close_branch_def Let_def merged_at restored)
    with run None show ?thesis
      by (auto simp: branch_end_simps)
  next
    case (Some other)
    with assms(1) run obtain e2 c2 on_false other1 g where
      c2: "body_check_block_flow n k other (body_safety_restore facts c1) = Some (e2, Some (other1, g))"
        "body_safety_capture e2 = Some (c2, Some on_false)"
      and d: "d = close_branch facts on_true on_false f g c2"
      by (auto simp: accepted)
    note more = parts block_length [OF c2(1)] capture_accepted [OF c2(2)] flag_exact(2) [OF c2(1)]
    with assms(3) Some have "f \<or> g"
      by simp
    then have "allowed (safety_at d i) \<longleftrightarrow> (f \<longrightarrow> allowed (safety_at c i)) \<and> (g \<longrightarrow> allowed (safety_at e2 i))"
      using more assms(2) by (auto simp: d close_branch_def Let_def merged_at restored)
    with run c2 Some show ?thesis
      by (auto simp: branch_end_simps)
  qed
qed

lemma join_step:
  assumes "join_fallthrough m b = Some (d, Some m1)" "i < length (bd_locals b)"
    "\<And>S. fallthrough_facts m = Some S \<Longrightarrow> length S = length (bd_locals b)"
  shows "length (bd_locals d) = length (bd_locals b)"
    "\<exists>S. fallthrough_facts m1 = Some S \<and> length S = length (bd_locals b)
       \<and> (allowed (state_safety (S ! i)) \<longleftrightarrow>
            (\<forall>S0. fallthrough_facts m = Some S0 \<longrightarrow> allowed (state_safety (S0 ! i))) \<and> allowed (safety_at b i))"
proof -
  from assms(1) obtain c after where c: "body_safety_capture b = Some (c, Some after)"
    by (auto simp: join_fallthrough_def accepted)
  note after = capture_accepted [OF c]
  show "length (bd_locals d) = length (bd_locals b)"
    using assms(1) c after
    by (auto simp: join_fallthrough_def accepted body_safety_merge_def dest!: capture_accepted split: option.splits)
  show "\<exists>S. fallthrough_facts m1 = Some S \<and> length S = length (bd_locals b)
       \<and> (allowed (state_safety (S ! i)) \<longleftrightarrow>
            (\<forall>S0. fallthrough_facts m = Some S0 \<longrightarrow> allowed (state_safety (S0 ! i))) \<and> allowed (safety_at b i))"
  proof (cases "fallthrough_facts m")
    case None
    with assms(1,2) c after show ?thesis
      by (auto simp: join_fallthrough_def accepted)
  next
    case (Some S0)
    with assms(1) c obtain joined where
      j: "body_safety_capture (body_safety_merge S0 after c) = Some (d, Some joined)" "fallthrough_facts m1 = Some joined"
      by (auto simp: join_fallthrough_def accepted)
    let ?m = "body_safety_merge S0 after c"
    have "joined = map local_state (bd_locals ?m)" "length (bd_locals ?m) = length (bd_locals b)"
      using capture_accepted [OF j(1)] after by (simp_all add: body_safety_merge_def)
    with assms(2) have "length joined = length (bd_locals b)" "state_safety (joined ! i) = safety_at ?m i"
      by simp_all
    moreover have "allowed (safety_at ?m i) \<longleftrightarrow> allowed (state_safety (S0 ! i)) \<and> allowed (safety_at b i)"
      using after assms(2) assms(3) [OF Some] by (simp add: merged_at)
    ultimately show ?thesis
      using j(2) Some by simp
  qed
qed

lemma case_joins:
  assumes "check_case n sp t facts (body_check_block_flow n k (snd x)) (fst x) m b = Some (d, Some (block1, m1))"
    "length (bd_locals b) = length facts" "\<And>S. fallthrough_facts m = Some S \<Longrightarrow> length S = length facts" "i < length facts"
  shows "length (bd_locals d) = length facts"
    "\<exists>c f. (\<forall>xs c1. case_end n k sp t facts (x # xs) m b c1 \<longleftrightarrow> f \<and> c1 = c \<or> case_end n k sp t facts xs m1 d c1)
       \<and> (fallthrough_facts m1 \<noteq> None \<longleftrightarrow> f \<or> fallthrough_facts m \<noteq> None)
       \<and> (\<forall>S. fallthrough_facts m1 = Some S \<longrightarrow> length S = length facts
         \<and> (allowed (state_safety (S ! i)) \<longleftrightarrow>
              (\<forall>S0. fallthrough_facts m = Some S0 \<longrightarrow> allowed (state_safety (S0 ! i))) \<and> (f \<longrightarrow> allowed (safety_at c i))))"
proof -
  from assms(1) obtain b1 a b2 m2 b3 u c f where
    run: "covered_all m = None" "analyze_case n t (fst x) b = Some (b1, Some a)"
      "cover_case a (pattern_span (fst x)) m b1 = Some (b2, Some m2)"
      "push_bindings sp (analysis_bindings a) (truncate_locals (length facts) (body_safety_restore facts b2)) = Some (b3, Some u)"
      "body_check_block_flow n k (snd x) b3 = Some (c, Some (block1, f))"
    and last: "(if f then join_fallthrough m2 else accept m2) (truncate_locals (length facts) c) = Some (d, Some m1)"
    by (auto simp: check_case_def report_unreachable_pattern_def accepted split: if_splits)
  have "length (bd_locals b1) = length (bd_locals b)"
    by (rule calm_local(1) [OF checksD(1) [OF any_kernel.wp_analyze run(2)]]) simp
  moreover have "length (bd_locals b2) = length (bd_locals b1)"
    by (rule calm_local(1) [OF checksD(1) [OF any_kernel.wp_cover run(3)]]) simp
  moreover have "length (bd_locals (truncate_locals (length facts) (body_safety_restore facts b2))) \<le> length (bd_locals b3)"
    using checksD(1) [OF any_kernel.wf_bindings [where Q = "\<lambda>_. True"] run(4)] by (simp add: framed_def)
  ultimately have len: "length facts \<le> length (bd_locals c)"
    using assms(2) block_length [OF run(5)] by (simp add: truncate_locals_def)
  have facts: "fallthrough_facts m2 = fallthrough_facts m"
    by (rule cover_facts [OF run(3)])
  let ?c = "truncate_locals (length facts) c"
  have c: "length (bd_locals ?c) = length facts" "safety_at ?c i = safety_at c i"
    using len assms(4) by (simp_all add: truncate_locals_def)
  have ends: "case_end n k sp t facts (x # xs) m b c1 \<longleftrightarrow> f \<and> c1 = c \<or> case_end n k sp t facts xs m1 d c1" for xs c1
    using run assms(1) by (auto simp: case_end_simps)
  show "length (bd_locals d) = length facts"
    using last c join_step(1) [of m2 ?c d m1] assms(3,4) facts by (auto simp: accepted split: if_splits)
  have "length S = length facts \<and> (allowed (state_safety (S ! i)) \<longleftrightarrow>
      (\<forall>S0. fallthrough_facts m = Some S0 \<longrightarrow> allowed (state_safety (S0 ! i))) \<and> (f \<longrightarrow> allowed (safety_at c i)))"
    if "fallthrough_facts m1 = Some S" for S
  proof (cases f)
    case True
    with last have "join_fallthrough m2 ?c = Some (d, Some m1)"
      by simp
    from join_step(2) [OF this] c assms(3,4) facts that True show ?thesis
      by auto
  qed (use last that facts assms(3) in \<open>auto simp: accepted\<close>)
  moreover have "fallthrough_facts m1 \<noteq> None \<longleftrightarrow> f \<or> fallthrough_facts m \<noteq> None"
    using last facts by (auto simp: accepted dest: join_facts split: if_splits)
  ultimately show "\<exists>c f. (\<forall>xs c1. case_end n k sp t facts (x # xs) m b c1 \<longleftrightarrow> f \<and> c1 = c \<or> case_end n k sp t facts xs m1 d c1)
       \<and> (fallthrough_facts m1 \<noteq> None \<longleftrightarrow> f \<or> fallthrough_facts m \<noteq> None)
       \<and> (\<forall>S. fallthrough_facts m1 = Some S \<longrightarrow> length S = length facts
         \<and> (allowed (state_safety (S ! i)) \<longleftrightarrow>
              (\<forall>S0. fallthrough_facts m = Some S0 \<longrightarrow> allowed (state_safety (S0 ! i))) \<and> (f \<longrightarrow> allowed (safety_at c i))))"
    using ends by blast
qed

lemma cases_join:
  assumes "body_check_cases n k sp t facts cases m b = Some (d, Some (cases1, m1))" "length (bd_locals b) = length facts"
    "\<And>S. fallthrough_facts m = Some S \<Longrightarrow> length S = length facts" "i < length facts" "fallthrough_facts m1 = Some S1"
  shows "length (bd_locals d) = length facts \<and> length S1 = length facts
    \<and> (allowed (state_safety (S1 ! i)) \<longleftrightarrow>
         (\<forall>S0. fallthrough_facts m = Some S0 \<longrightarrow> allowed (state_safety (S0 ! i)))
         \<and> (\<forall>c. case_end n k sp t facts cases m b c \<longrightarrow> allowed (safety_at c i)))"
  using assms
proof (induction cases arbitrary: m b cases1)
  case Nil
  then show ?case
    by (auto simp: accepted case_end_simps)
next
  case (Cons x xs)
  from Cons.prems(1) obtain b1 block1 m2 xs1 where
    one: "check_case n sp t facts (body_check_block_flow n k (snd x)) (fst x) m b = Some (b1, Some (block1, m2))" and
    rest: "body_check_cases n k sp t facts xs m2 b1 = Some (d, Some (xs1, m1))"
    by (auto simp: accepted)
  note step = case_joins [OF one Cons.prems(2,3,4)]
  from step(2) obtain c f where ends: "\<And>xs c1. case_end n k sp t facts (x # xs) m b c1 \<longleftrightarrow> f \<and> c1 = c \<or> case_end n k sp t facts xs m2 b1 c1"
    and f: "fallthrough_facts m2 \<noteq> None \<longleftrightarrow> f \<or> fallthrough_facts m \<noteq> None"
    and S: "\<And>S. fallthrough_facts m2 = Some S \<Longrightarrow> length S = length facts \<and> (allowed (state_safety (S ! i)) \<longleftrightarrow>
              (\<forall>S0. fallthrough_facts m = Some S0 \<longrightarrow> allowed (state_safety (S0 ! i))) \<and> (f \<longrightarrow> allowed (safety_at c i)))"
    by blast
  have lengths: "length S = length facts" if "fallthrough_facts m2 = Some S" for S
    using S [OF that] by simp
  note later = Cons.IH [OF rest step(1) lengths Cons.prems(4,5)]
  have "(\<forall>S0. fallthrough_facts m2 = Some S0 \<longrightarrow> allowed (state_safety (S0 ! i))) \<longleftrightarrow>
      (\<forall>S0. fallthrough_facts m = Some S0 \<longrightarrow> allowed (state_safety (S0 ! i))) \<and> (f \<longrightarrow> allowed (safety_at c i))"
  proof (cases "fallthrough_facts m2")
    case None
    with f show ?thesis
      by simp
  next
    case (Some S)
    with S [OF Some] show ?thesis
      by simp
  qed
  with later show ?case
    unfolding ends by blast
qed

lemma match_joins:
  assumes "body_check_statement n k (Statement_Match sp e cases) b = Some (d, Some s1)" "i < length (bd_locals b)"
    "passes (Statement_Match sp e cases)"
  shows "allowed (safety_at d i) \<longleftrightarrow> (\<forall>c. branch_end n k (Statement_Match sp e cases) b c \<longrightarrow> allowed (safety_at c i))"
proof -
  from assms(1) obtain e1 t b0 b1 r b2 m b3 facts b4 cases1 m1 u where
    run: "infer_with n k e b = Some (b0, Some (e1, t))" "demand (type_resolve n t) b0 = Some (b1, Some r)"
      "match_start (match_constructor_count (bd_semantic b1) t r) sp b1 = Some (b2, Some m)"
      "body_safety_capture b2 = Some (b3, Some facts)" "body_check_cases n k sp t facts cases m b3 = Some (b4, Some (cases1, m1))"
    and finish: "finish_match sp t r facts m1 b4 = Some (d, Some u)"
    by (auto simp: accepted)
  have "length (bd_locals b0) = length (bd_locals b)"
    by (rule calm_local(1) [OF checksD(1) [OF any_expression.infers run(1)]]) simp
  moreover have "length (bd_locals b1) = length (bd_locals b0)"
    by (rule calm_local(1) [OF checksD(1) [OF any_kernel.wp_demand [OF any_kernel.resolve] run(2)]]) simp
  moreover have "length (bd_locals b2) = length (bd_locals b1)"
    by (rule calm_local(1) [OF checksD(1) [OF start_calm run(3)]])
  ultimately have len: "length (bd_locals b3) = length facts" "i < length facts"
    using capture_accepted [OF run(4)] assms(2) by simp_all
  have "fallthrough_facts m1 \<noteq> None"
    using flag_exact(4) [OF run(5)] assms(3) by force
  then obtain S1 where S1: "fallthrough_facts m1 = Some S1"
    by auto
  have none: "length S = length facts" if "fallthrough_facts m = Some S" for S
    using that start_facts [OF run(3)] by simp
  note join = cases_join [OF run(5) len(1) none len(2) S1]
  from finish S1 have d: "d = (body_safety_restore S1 b4)\<lparr>bd_falls_through := True\<rparr>"
    by (auto simp: finish_match_def report_missing_pattern_def accepted Let_def split: if_splits)
  have "allowed (safety_at d i) \<longleftrightarrow> (\<forall>c. case_end n k sp t facts cases m b3 c \<longrightarrow> allowed (safety_at c i))"
    using join start_facts [OF run(3)] len(2) by (simp add: d restored)
  with run show ?thesis
    by (auto simp: branch_end_simps)
qed

lemma joins:
  assumes "body_check_statement n k s b = Some (d, Some s1)" "branch_end n k s b c0" "i < length (bd_locals b)"
  shows "allowed (safety_at d i) \<longleftrightarrow> (\<forall>c. branch_end n k s b c \<longrightarrow> allowed (safety_at c i))"
  using assms(2)
proof cases
  case end_skip
  show ?thesis
    unfolding end_skip(1) by (rule loop_joins [OF assms(1) [unfolded end_skip(1)] assms(3)])
next
  case end_loop
  show ?thesis
    unfolding end_loop(1) by (rule loop_joins [OF assms(1) [unfolded end_loop(1)] assms(3)])
next
  case end_then
  have "passes s"
    using flag_exact(2) [OF end_then(4)] by (simp add: end_then(1))
  then show ?thesis
    unfolding end_then(1) by (rule conditional_joins [OF assms(1) [unfolded end_then(1)] assms(3)])
next
  case end_no_else
  have "passes s"
    by (simp add: end_no_else(1))
  then show ?thesis
    unfolding end_no_else(1) by (rule conditional_joins [OF assms(1) [unfolded end_no_else(1)] assms(3)])
next
  case end_else
  have "passes s"
    using flag_exact(2) [OF end_else(6)] by (simp add: end_else(1))
  then show ?thesis
    unfolding end_else(1) by (rule conditional_joins [OF assms(1) [unfolded end_else(1)] assms(3)])
next
  case end_match
  from end_match(6) have "\<exists>x \<in> set (case s of Statement_Match _ _ cases \<Rightarrow> cases). ends (snd x)"
    unfolding end_match(1) by (simp, induction) (auto dest: flag_exact(2))
  then have "passes s"
    unfolding end_match(1) by force
  then show ?thesis
    unfolding end_match(1) by (rule match_joins [OF assms(1) [unfolded end_match(1)] assms(3)])
qed

end

interpretation reading: fact_test "\<lambda>f. safety_fact_can_read (Some f)"
  by unfold_locales (simp add: safety_merge_exact)

interpretation writing: fact_test "\<lambda>f. safety_fact_can_write (Some f)"
  by unfold_locales (simp add: safety_merge_exact)

interpretation moving: fact_test "\<lambda>f. safety_fact_can_move (Some f)"
  by unfold_locales (simp add: safety_merge_exact)

section \<open>Properties\<close>

text \<open>
  C12: Facts after a branch. After a conditional, a loop or a match that is accepted, a local may be read,
  written or moved exactly when it may be at the end of each branch that control can leave: for a loop the
  path that skips it and the end of its body, for a conditional its blocks or the condition alone, for a
  match its cases. A value moved or lent in one branch only is neither forgotten nor lost in the other.
\<close>

theorem branches_join:
  assumes "body_check_statement n k s b = Some (d, Some s1)" "branch_end n k s b c0" "i < length (bd_locals b)"
  shows "(safety_fact_can_read (Some (safety_at d i)) \<longleftrightarrow>
        (\<forall>c. branch_end n k s b c \<longrightarrow> safety_fact_can_read (Some (safety_at c i))))
    \<and> (safety_fact_can_write (Some (safety_at d i)) \<longleftrightarrow>
        (\<forall>c. branch_end n k s b c \<longrightarrow> safety_fact_can_write (Some (safety_at c i))))
    \<and> (safety_fact_can_move (Some (safety_at d i)) \<longleftrightarrow>
        (\<forall>c. branch_end n k s b c \<longrightarrow> safety_fact_can_move (Some (safety_at c i))))"
  using reading.joins [OF assms] writing.joins [OF assms] moving.joins [OF assms] by (intro conjI)

text \<open>A box that is moved in a block that may be skipped.\<close>

definition moving_branch :: ast_statement where
  "moving_branch = Statement_If zero_span truth
     (block_of [declare_place 1 (Some (Type_Box Type_Integer)), assign 1 (read_place 0)]) None"

theorem branches_join_witness:
  "\<exists>d s1 c. body_check_statement 3 3 moving_branch (example_body [holding 0 (Type_Box Type_Integer)]) = Some (d, Some s1)
     \<and> branch_end 3 3 moving_branch (example_body [holding 0 (Type_Box Type_Integer)]) c
     \<and> \<not> safety_fact_can_read (Some (safety_at c 0)) \<and> \<not> safety_fact_can_read (Some (safety_at d 0))"
proof -
  let ?b = "example_body [holding 0 (Type_Box Type_Integer)]"
  have "map_option (\<lambda>(d, x). (x = None, safety_fact_can_read (Some (safety_at d 0)))) (body_check_statement 3 3 moving_branch ?b) =
      Some (False, False)"
    by code_simp
  then obtain d s1 where run: "body_check_statement 3 3 moving_branch ?b = Some (d, Some s1)"
    and unreadable: "\<not> safety_fact_can_read (Some (safety_at d 0))"
    by auto
  from run obtain b0 e1 where "check_condition (infer_with 3 3) 3 zero_span truth ?b = Some (b0, Some e1)"
    by (auto simp: moving_branch_def accepted)
  then have skipped: "branch_end 3 3 moving_branch ?b b0"
    unfolding moving_branch_def by (rule end_no_else)
  have "0 < length (bd_locals ?b)"
    by (simp add: example_body_def)
  with branches_join [OF run skipped] unreadable run show ?thesis
    by blast
qed


text \<open>A function that returns a number on either side of a conditional.\<close>

definition returning_block :: ast_block where
  "returning_block = block_of [Statement_If zero_span truth
     (block_of [Statement_Return zero_span (Some (number 1))]) (Some (block_of [Statement_Return zero_span (Some (number 2))]))]"

definition returning_program :: "ast_block \<Rightarrow> semantic_context" where
  "returning_program block = example_program
     \<lparr>sc_functions := [(hd (sc_functions example_program))\<lparr>fe_function := Some (example_main\<lparr>function_body := Some block\<rparr>)\<rparr>]\<rparr>"

lemma integer_value: "type_resolve n Type_Integer c = Some (d, Some x) \<Longrightarrow> rt_kind x \<noteq> RT_Void"
  by (cases n) (auto simp: type_resolve_def type_builtin_row_def Let_def)


end
