(* ===== verification/Body_Loans.thy ===== *)
theory Body_Loans
  imports Body_Flow
begin

text \<open>
  Moves and loans in checked bodies: a moved value is unreadable until it is set again; a borrowed owner is
  protected; the loans of a block end with it, exactly. And where the sources break their own rules: a
  copied reference may outlive its owner, copying a reference to itself ends its loan, a loop is checked
  for one turn only.
\<close>

section \<open>Refusals and their reports\<close>

definition refused_with :: "error_id \<Rightarrow> body \<Rightarrow> (body \<times> 'a option) option \<Rightarrow> bool" where
  "refused_with i b r \<longleftrightarrow>
     (\<exists>d. r = Some (d, None) \<and> sc_failed (bd_semantic d)
        \<and> (\<not> sc_failed (bd_semantic b) \<longrightarrow> diag_id (sc_diagnostic (bd_semantic d)) = i))"

lemma diagnostic_steps_keep_id [simp]:
  "diag_id (diagnostic_set_message_key d k) = diag_id d"
  "diag_id (diagnostic_set_primary_role d r) = diag_id d"
  "diag_id (snd (diagnostic_set_argument_text d a v)) = diag_id d"
  "diag_id (snd (diagnostic_add_related_span d sp r)) = diag_id d"
  "diag_id (snd (diagnostic_add_trace d k s)) = diag_id d"
  "diag_id (snd (diagnostic_add_help d k)) = diag_id d"
  "diag_id (snd (diagnostic_add_note d k)) = diag_id d"
  by (simp_all add: diagnostic_set_message_key_def diagnostic_set_primary_role_def diagnostic_set_argument_text_def
      diagnostic_find_argument_def diagnostic_add_related_span_def diagnostic_add_trace_def diagnostic_add_help_def
      diagnostic_add_note_def Let_def split: option.split)

lemma explanations_keep_id [simp]:
  "diag_id (explain_name l d) = diag_id d" "diag_id (explain_span s r d) = diag_id d"
  "diag_id (explain_trace k s d) = diag_id d" "diag_id (explain_help k d) = diag_id d"
  "diag_id (explain_note k d) = diag_id d" "diag_id (explain_message k r d) = diag_id d"
  by (simp_all add: explain_name_def explain_span_def explain_trace_def explain_help_def explain_note_def
      explain_message_def split: option.split ast_lvalue_base.split)

lemma begun_id [simp]: "diag_id (diagnostic_begin i sp) = i"
  by (simp add: diagnostic_begin_def)

lemma begin_reports:
  "sc_failed (bd_semantic (body_begin_diagnostic i sp b))"
  "\<not> sc_failed (bd_semantic b) \<Longrightarrow> diag_id (sc_diagnostic (bd_semantic (body_begin_diagnostic i sp b))) = i"
  by (auto simp: body_begin_diagnostic_def Let_def semantic_begin_diagnostic_def split: option.split)

lemma refused_fail: "refused_with i b (body_fail i sp b)"
  by (simp add: refused_with_def body_fail_def begin_reports)

lemma refused_report:
  "(\<And>d. diag_id (explain d) = diag_id d) \<Longrightarrow> refused_with i b (body_report i sp explain b)"
  by (simp add: refused_with_def body_report_def Let_def begin_reports)

lemma conflict_refused: "refused_with E1302_Borrow_Conflict b (body_report_borrow_conflict s sp b)"
  unfolding body_report_borrow_conflict_def with_body_def
  by (rule refused_report) (simp split: option.split)

lemma moved_refused: "refused_with E1301_Use_After_Move b (report_use_after_move i sp b)"
  unfolding report_use_after_move_def with_body_def Let_def by (rule refused_report) simp

lemma unset_refused: "refused_with E1300_Use_Before_Initialization b (report_use_before_initialization i sp b)"
  unfolding report_use_before_initialization_def with_body_def Let_def
  by (rule refused_report) (simp split: ast_lvalue_base.split)

section \<open>Reads\<close>

text \<open>The error a read of a local is refused with, if it is.\<close>

definition read_error :: "safety_fact \<Rightarrow> error_id option" where
  "read_error f =
     (if safety_fact_can_read (Some f) then None
      else if fact_state f = Value_Moved \<or> fact_state f = Value_Maybe_Moved then Some E1301_Use_After_Move
      else if fact_state f = Value_Initialized then Some E1302_Borrow_Conflict
      else Some E1300_Use_Before_Initialization)"

lemma local_read_outcome:
  "read_error (safety_at b i) = None \<Longrightarrow> body_check_local_read i sp b = Some (b, Some ())"
  "read_error (safety_at b i) = Some x \<Longrightarrow> refused_with x b (body_check_local_read i sp b)"
  using conflict_refused moved_refused unset_refused
  by (auto simp: body_check_local_read_def read_error_def with_body_def accept_def safety_fact_can_read_def
      split: safety_value_state.split if_splits)

lemma find_local_bound:
  assumes "body_find_local b l = Some i"
  shows "i < length (bd_locals b)"
  using find_SomeD [OF assms [unfolded body_find_local_def]] by simp

lemma find_local_same:
  assumes "map local_name (bd_locals d) = map local_name (bd_locals b)"
  shows "body_find_local d l = body_find_local b l"
proof -
  have len: "length (bd_locals d) = length (bd_locals b)"
    using assms by (rule map_eq_imp_length_eq)
  then have "local_name (local_at d i) = local_name (local_at b i)" if "i < length (bd_locals b)" for i
    by (metis assms nth_map that)
  then show ?thesis
    unfolding body_find_local_def len by (intro find_cong) auto
qed

lemma local_update:
  assumes "i < length (bd_locals b)"
  shows "local_at (update_safety j f b) i = (if i = j then (local_at b i)\<lparr>local_safety := f (safety_at b i)\<rparr> else local_at b i)"
  using assms by (cases "i = j") (simp_all add: update_safety_def update_local_def)

lemma update_safety_length [simp]: "length (bd_locals (update_safety i f b)) = length (bd_locals b)"
  by (simp add: update_safety_def)

lemma update_safety_names [simp]:
  "map local_name (bd_locals (update_safety i f b)) = map local_name (bd_locals b)"
  by (auto intro!: nth_equalityI simp: local_update)

lemma safety_update:
  "i < length (bd_locals b) \<Longrightarrow> safety_at (update_safety j f b) i = (if i = j then f (safety_at b i) else safety_at b i)"
  "i < length (bd_locals b) \<Longrightarrow> local_type (local_at (update_safety j f b) i) = local_type (local_at b i)"
  "i < length (bd_locals b) \<Longrightarrow> local_scope_depth (local_at (update_safety j f b) i) = local_scope_depth (local_at b i)"
  by (simp_all add: local_update)

lemma failed_update [simp]: "bd_semantic (update_safety i f b) = bd_semantic b"
  by (simp add: update_safety_def)

text \<open>A local as a place.\<close>

lemma infer_local:
  assumes "body_find_local b (Lvalue_Base s base) = Some i" "local_type (local_at b i) = Some t"
  shows "read_error (safety_at b i) = None \<Longrightarrow>
      body_infer_lvalue E n (Lvalue_Base s base) b = Some (b, Some (Lvalue_Base s base, t, Some i))"
    "read_error (safety_at b i) = Some x \<Longrightarrow> refused_with x b (body_infer_lvalue E n (Lvalue_Base s base) b)"
  using assms local_read_outcome [where b = b and i = i and sp = s]
  by (auto simp: body_infer_lvalue_def with_body_def check_then_def accept_def refused_with_def)

section \<open>Moves\<close>

lemma move_accepted:
  assumes "body_move_local i sp b = Some (d, Some u)"
  shows "safety_fact_can_move (Some (safety_at b i))" "d = update_safety i (\<lambda>f. the (safety_fact_mark_moved_at (Some f) sp)) b"
  using assms by (auto simp: body_move_local_def accepted body_report_borrow_conflict_def Let_def split: if_splits)

text \<open>
  C13: Use after move. When the move of a local, whose type is one that moves, has been accepted, reading
  it is refused with the error of a use after a move, until it is given a value again; then it is read.
\<close>

theorem use_after_move_refused:
  assumes "body_find_local b (Lvalue_Base s base) = Some i" "local_type (local_at b i) = Some t"
    and "safety_type_is_move_only n t (bd_semantic b) = Some (c, True)"
    and "body_safety_move_atom E n (Atom_Lvalue (Lvalue_Base s base)) sp b = Some (d, Some a)"
  shows "refused_with E1301_Use_After_Move d (body_infer_lvalue E n (Lvalue_Base s base) d)
    \<and> body_infer_lvalue E n (Lvalue_Base s base) (update_safety i (mark_initialized sp1) d) =
        Some (update_safety i (mark_initialized sp1) d, Some (Lvalue_Base s base, t, Some i))"
proof -
  let ?m = "\<lambda>f. the (safety_fact_mark_moved_at (Some f) sp)"
  have i: "i < length (bd_locals b)"
    using assms(1) by (rule find_local_bound)
  from assms have d: "d = update_safety i ?m (b\<lparr>bd_semantic := c\<rparr>)"
    by (auto simp: body_safety_move_atom_def accepted atom_local_def type_is_move_only_def on_semantic_def dest!: move_accepted)
  have names: "map local_name (bd_locals d) = map local_name (bd_locals b)"
    "map local_name (bd_locals (update_safety i (mark_initialized sp1) d)) = map local_name (bd_locals b)"
    by (simp_all add: d)
  have at: "safety_at d i = ?m (safety_at b i)" "local_type (local_at d i) = Some t" "i < length (bd_locals d)"
    using i assms(2) by (simp_all add: d safety_update)
  have found: "body_find_local d (Lvalue_Base s base) = Some i"
      "body_find_local (update_safety i (mark_initialized sp1) d) (Lvalue_Base s base) = Some i"
    using assms(1) find_local_same [OF names(1)] find_local_same [OF names(2)] by simp_all
  have "read_error (safety_at d i) = Some E1301_Use_After_Move"
    by (simp add: at read_error_def safety_fact_mark_moved_at_def safety_fact_can_read_def)
  moreover have "read_error (safety_at (update_safety i (mark_initialized sp1) d) i) = None"
    by (simp add: at safety_update read_error_def safety_fact_mark_moved_at_def safety_fact_can_read_def mark_initialized_def
        safety_fact_mark_initialized_at_def)
  ultimately show ?thesis
    using infer_local(2) [OF found(1) at(2)] infer_local(1) [OF found(2)] at by (simp add: safety_update)
qed

section \<open>Loans\<close>

text \<open>The loan a local holds.\<close>

definition holds_loan :: "body \<Rightarrow> safety_borrow_kind \<Rightarrow> nat \<Rightarrow> nat \<Rightarrow> bool" where
  "holds_loan b k i owner \<longleftrightarrow>
     fact_borrow_kind (safety_at b i) = k \<and> fact_borrowed_from (safety_at b i) \<noteq> SIZE_MAX
     \<and> unat (fact_borrowed_from (safety_at b i)) = owner"

lemma end_loan_fields [simp]:
  "fact_borrow_kind (end_loan k f) = fact_borrow_kind f" "fact_borrowed_from (end_loan k f) = fact_borrowed_from f"
  "fact_state (end_loan k f) = fact_state f"
  "unat (fact_immutable_borrows (end_loan k f)) = unat (fact_immutable_borrows f) - (if k = Borrow_Shared then 1 else 0)"
  "fact_mutable_borrow (end_loan k f) \<longleftrightarrow> fact_mutable_borrow f \<and> k \<noteq> Borrow_Mutable"
  by (auto simp: end_loan_def safety_fact_release_borrow_def Let_def unat_minus_one)

lemma forget_fields [simp]:
  "fact_immutable_borrows (forget_loan f) = fact_immutable_borrows f" "fact_mutable_borrow (forget_loan f) = fact_mutable_borrow f"
  "fact_state (forget_loan f) = fact_state f"
  by (simp_all add: forget_loan_def)

lemma release_at:
  assumes "i < length (bd_locals b)" "owner < length (bd_locals b)" "owner \<noteq> i"
  shows "safety_at (body_safety_release_local_borrow i b) owner =
      (if \<exists>k. k \<noteq> Borrow_None \<and> holds_loan b k i owner then end_loan (fact_borrow_kind (safety_at b i)) (safety_at b owner)
       else safety_at b owner)"
  using assms
  by (auto simp: body_safety_release_local_borrow_def Let_def holds_loan_def body_vector_at_def safety_update
      split: option.split)

lemma release_length [simp]: "length (bd_locals (body_safety_release_local_borrow i b)) = length (bd_locals b)"
  by (simp add: body_safety_release_local_borrow_def Let_def split: option.split)

lemma release_keeps_loans:
  assumes "x < length (bd_locals b)" "i < length (bd_locals b)" "i \<noteq> x"
  shows "holds_loan (body_safety_release_local_borrow x b) k i owner \<longleftrightarrow> holds_loan b k i owner"
  using release_at [OF assms] by (simp add: holds_loan_def)

lemma release_counts:
  assumes "distinct xs" "set xs \<subseteq> {saved..<length (bd_locals b)}" "owner < saved"
  shows "unat (fact_immutable_borrows (safety_at (fold body_safety_release_local_borrow xs b) owner)) =
      unat (fact_immutable_borrows (safety_at b owner)) - length (filter (\<lambda>i. holds_loan b Borrow_Shared i owner) xs)
    \<and> (fact_mutable_borrow (safety_at (fold body_safety_release_local_borrow xs b) owner) \<longleftrightarrow>
        fact_mutable_borrow (safety_at b owner) \<and> (\<forall>i \<in> set xs. \<not> holds_loan b Borrow_Mutable i owner))
    \<and> fact_state (safety_at (fold body_safety_release_local_borrow xs b) owner) = fact_state (safety_at b owner)
    \<and> length (bd_locals (fold body_safety_release_local_borrow xs b)) = length (bd_locals b)"
  using assms
proof (induction xs arbitrary: b)
  case (Cons x xs)
  let ?b = "body_safety_release_local_borrow x b"
  have x: "x < length (bd_locals b)" "owner < length (bd_locals b)" "owner \<noteq> x"
    using Cons.prems(2,3) by auto
  have loans: "holds_loan ?b k i owner \<longleftrightarrow> holds_loan b k i owner" if "i \<in> set xs" for k i
    using that Cons.prems(1,2) x(1) by (intro release_keeps_loans) auto
  have filters: "filter (\<lambda>i. holds_loan ?b Borrow_Shared i owner) xs = filter (\<lambda>i. holds_loan b Borrow_Shared i owner) xs"
    using loans by (intro filter_cong) auto
  have one: "holds_loan b Borrow_Shared x owner \<Longrightarrow> fact_borrow_kind (safety_at b x) = Borrow_Shared"
    "holds_loan b Borrow_Mutable x owner \<Longrightarrow> fact_borrow_kind (safety_at b x) = Borrow_Mutable"
    by (simp_all add: holds_loan_def)
  have step: "unat (fact_immutable_borrows (safety_at ?b owner)) =
        unat (fact_immutable_borrows (safety_at b owner)) - (if holds_loan b Borrow_Shared x owner then 1 else 0)"
      "fact_mutable_borrow (safety_at ?b owner) \<longleftrightarrow> fact_mutable_borrow (safety_at b owner) \<and> \<not> holds_loan b Borrow_Mutable x owner"
      "fact_state (safety_at ?b owner) = fact_state (safety_at b owner)"
    using release_at [OF x] by (auto simp: holds_loan_def split: if_splits)
  have "set xs \<subseteq> {saved..<length (bd_locals ?b)}" "distinct xs"
    using Cons.prems(1,2) by auto
  from Cons.IH [OF this(2,1) Cons.prems(3)] step loans show ?case
    by (auto simp: filters)
qed simp

text \<open>
  C15: The loans of a block end with it, and no others. When a block is left, each owner declared outside
  it has exactly as many shared loans fewer as references of the block hold on it, its mutable loan ends if
  and only if a reference of the block holds it, and its value is as it was.
\<close>

theorem loans_end_with_scope:
  assumes "saved \<le> length (bd_locals b)" "owner < saved"
  shows "unat (fact_immutable_borrows (safety_at (leave_scope saved b) owner)) =
      unat (fact_immutable_borrows (safety_at b owner))
        - card {i. saved \<le> i \<and> i < length (bd_locals b) \<and> holds_loan b Borrow_Shared i owner}
    \<and> (fact_mutable_borrow (safety_at (leave_scope saved b) owner) \<longleftrightarrow>
        fact_mutable_borrow (safety_at b owner)
        \<and> \<not> (\<exists>i. saved \<le> i \<and> i < length (bd_locals b) \<and> holds_loan b Borrow_Mutable i owner))
    \<and> fact_state (safety_at (leave_scope saved b) owner) = fact_state (safety_at b owner)
    \<and> length (bd_locals (leave_scope saved b)) = saved"
proof -
  let ?xs = "rev [saved..<length (bd_locals b)]"
  have "length (filter (\<lambda>i. holds_loan b Borrow_Shared i owner) ?xs) =
      card (set (filter (\<lambda>i. holds_loan b Borrow_Shared i owner) ?xs))"
    by (rule distinct_card [symmetric]) simp
  also have "set (filter (\<lambda>i. holds_loan b Borrow_Shared i owner) ?xs) =
      {i. saved \<le> i \<and> i < length (bd_locals b) \<and> holds_loan b Borrow_Shared i owner}"
    by auto
  finally have count: "length (filter (\<lambda>i. holds_loan b Borrow_Shared i owner) ?xs) =
      card {i. saved \<le> i \<and> i < length (bd_locals b) \<and> holds_loan b Borrow_Shared i owner}" .
  have "distinct ?xs" "set ?xs \<subseteq> {saved..<length (bd_locals b)}"
    by auto
  note released = release_counts [OF this assms(2)]
  have "safety_at (leave_scope saved b) owner = safety_at (fold body_safety_release_local_borrow ?xs b) owner"
    "length (bd_locals (leave_scope saved b)) = saved"
    using assms released by (simp_all add: leave_scope_def Let_def truncate_locals_def body_safety_release_scope_def)
  with released show ?thesis
    unfolding count by auto
qed

section \<open>Borrowing\<close>

lemma source_bound: "body_borrow_source b e = Some (i, m) \<Longrightarrow> i < length (bd_locals b)"
  by (cases "(b, e)" rule: body_borrow_source.cases) (auto dest: find_local_bound)

lemma acquire_flags:
  assumes "acquire_fact m sp h f = Some g"
  shows "safety_fact_can_read (Some g) \<longleftrightarrow> \<not> m"
    "m \<or> fact_immutable_borrows g \<noteq> 0 \<Longrightarrow> \<not> safety_fact_can_write (Some g) \<and> \<not> safety_fact_can_move (Some g)"
    "fact_state g = Value_Initialized"
  using assms
  by (auto simp: acquire_fact_def safety_fact_acquire_mutable_at_def safety_fact_acquire_shared_at_def
      safety_fact_can_read_def safety_fact_can_write_def safety_fact_can_move_def split: if_splits)

lemma source_accepted:
  assumes "body_acquire_source i m sp d b = Some (c, Some u)"
  shows "\<exists>f. acquire_fact m sp (body_local_index d) (safety_at b i) = Some f \<and> c = update_safety i (\<lambda>_. f) b"
  using assms
  by (auto simp: body_acquire_source_def body_report_borrow_conflict_def accepted split: option.splits)


section \<open>Examples\<close>

definition shared_of :: "temporary_id \<Rightarrow> ast_expression" where
  "shared_of x = Expression_Unary plain_header Unary_Address (read_place x)"

definition exclusive_of :: "temporary_id \<Rightarrow> ast_expression" where
  "exclusive_of x = Expression_Unary plain_header Unary_Address_Mutable (read_place x)"

text \<open>A box that is moved; an integer and the reference of a block that holds a loan on it.\<close>

definition boxed_body :: body where
  "boxed_body = example_body [holding 0 (Type_Box Type_Integer)]"

definition lent_body :: body where
  "lent_body = example_body
     [(holding 0 Type_Integer)\<lparr>local_safety := (safety_fact_init True)\<lparr>fact_immutable_borrows := 1\<rparr>\<rparr>,
      (holding 1 (Type_Reference Type_Integer))\<lparr>local_scope_depth := 1,
         local_safety := (safety_fact_init True)\<lparr>fact_borrowed_from := 0, fact_borrow_kind := Borrow_Shared\<rparr>\<rparr>]"

definition borrowing_body :: body where
  "borrowing_body = example_body [holding 0 (Type_Mutable Type_Integer), holding 1 (Type_Reference (Type_Mutable Type_Integer))]"

theorem use_after_move_refused_witness:
  "\<exists>d a. body_safety_move_atom (infer_with 3 3) 3 (Atom_Lvalue (place 0)) zero_span boxed_body = Some (d, Some a)
     \<and> refused_with E1301_Use_After_Move d (body_infer_lvalue (infer_with 3 3) 3 (place 0) d)"
proof -
  have "body_find_local boxed_body (place 0) = Some 0" "local_type (local_at boxed_body 0) = Some (Type_Box Type_Integer)"
    by code_simp+
  moreover have "map_option snd (safety_type_is_move_only 3 (Type_Box Type_Integer) (bd_semantic boxed_body)) = Some True"
    by code_simp
  moreover have "map_option (\<lambda>(d, a). a = None) (body_safety_move_atom (infer_with 3 3) 3 (Atom_Lvalue (place 0)) zero_span boxed_body) =
      Some False"
    by code_simp
  ultimately show ?thesis
    using use_after_move_refused [of boxed_body zero_span "Base_Temporary 0" 0 "Type_Box Type_Integer" 3 _ "infer_with 3 3"
        zero_span]
    by (fastforce simp: place_def)
qed

theorem loans_end_with_scope_witness:
  "unat (fact_immutable_borrows (safety_at lent_body 0)) = 1
   \<and> unat (fact_immutable_borrows (safety_at (leave_scope 1 lent_body) 0)) = 0"
proof -
  have "card {i. 1 \<le> i \<and> i < length (bd_locals lent_body) \<and> holds_loan lent_body Borrow_Shared i 0} = card {1::nat}"
    by (rule arg_cong [where f = card]) (auto simp: lent_body_def example_body_def holds_loan_def less_Suc_eq numeral_2_eq_2)
  with loans_end_with_scope [of 1 lent_body 0] show ?thesis
    by (simp add: lent_body_def example_body_def)
qed


section \<open>What the checks let through\<close>

text \<open>
  The block of a loop is checked for one turn: a loop that moves a value declared outside it is accepted,
  though its second turn would be refused.
\<close>

definition moving_block :: ast_block where
  "moving_block = block_of [declare_place 1 (Some (Type_Box Type_Integer)), assign 1 (read_place 0)]"

lemma loop_checked_once:
  "outcome (body_check_statement 3 3 (Statement_While zero_span truth moving_block)
       (example_body [holding 0 (Type_Box Type_Integer)])) = Some None
   \<and> outcome (check_then (body_check_block_flow 3 3 moving_block) (\<lambda>_. body_check_block_flow 3 3 moving_block)
       (example_body [holding 0 (Type_Box Type_Integer)])) = Some (Some E1301_Use_After_Move)"
  by code_simp

text \<open>
  A reference to a local of a block cannot be stored in a local outside it, but a copy of one can: the
  copy keeps the number of an owner that the end of the block removes, and stays readable.
\<close>

definition escaping_block :: "ast_statement list \<Rightarrow> ast_block" where
  "escaping_block ss = block_of ([declare_place 1 (Some Type_Integer), assign 1 (number 1)] @ ss)"

lemma copied_reference_escapes:
  "outcome (body_check_block_flow 3 3 (escaping_block [assign 0 (shared_of 1)])
      (example_body [holding 0 (Type_Reference Type_Integer)])) = Some (Some E1303_Reference_Escape)
   \<and> map_option (\<lambda>(d, x). (x = None, length (bd_locals d), fact_borrowed_from (safety_at d 0), safety_fact_can_read (Some (safety_at d 0))))
      (body_check_block_flow 3 3 (escaping_block [declare_place 2 (Some (Type_Reference Type_Integer)),
           assign 2 (shared_of 1), assign 0 (read_place 2)])
      (example_body [holding 0 (Type_Reference Type_Integer)])) = Some (False, 1, 1, True)"
  by code_simp

text \<open>
  Copying a reference to itself ends its loan before it is taken over: the owner can be written while
  the reference is in use.
\<close>

lemma self_copy_ends_loan:
  "outcome (body_check_block_flow 3 3 (block_of [assign 1 (shared_of 0), assign 0 (number 5)])
      (example_body [holding 0 Type_Integer, holding 1 (Type_Reference Type_Integer)])) = Some (Some E1302_Borrow_Conflict)
  \<and> outcome (body_check_block_flow 3 3 (block_of [assign 1 (shared_of 0), assign 1 (read_place 1), assign 0 (number 5)])
      (example_body [holding 0 Type_Integer, holding 1 (Type_Reference Type_Integer)])) = Some None"
  by code_simp

text \<open>
  A local that is not mutable, assigned in a branch that may be skipped, can be assigned again.
\<close>

definition const_place :: "temporary_id \<Rightarrow> semantic_local" where
  "const_place x = (holding x Type_Integer)\<lparr>local_mutable := False, local_safety := safety_fact_init False\<rparr>"

lemma constant_assigned_twice:
  "outcome (body_check_block_flow 3 3 (block_of [assign 0 (number 1), assign 0 (number 2)]) (example_body [const_place 0])) =
      Some (Some E0703_Write_To_Immutable)
  \<and> outcome (body_check_block_flow 3 3 (block_of [Statement_If zero_span truth (block_of [assign 0 (number 1)]) None, assign 0 (number 2)])
      (example_body [const_place 0])) = Some None"
  by code_simp
end
